(* ===== verification/Prelude.thy ===== *)
theory Prelude
  imports Complex_Main "HOL-Library.Monad_Syntax"
begin

text \<open>
  What every component shares: array accesses that fail outside their bounds (reading or writing
  past the end of a C++ vector or buffer is undefined behaviour, written \<open>None\<close> here), counted
  loops over them, and a small weakest-precondition calculus for programs in the option monad.
  \<open>wp m Q\<close> says that \<open>m\<close> runs without undefined behaviour and that its result satisfies \<open>Q\<close>,
  so a property stated with it is total: it includes that every access is in range.
\<close>

named_theorems wp_rules \<open>introduction rules for wp, one per construct\<close>
named_theorems arr \<open>facts on array accesses and their bounds\<close>

subsection \<open>Arrays\<close>

definition aget :: "'a list \<Rightarrow> int \<Rightarrow> 'a option" where
  "aget xs i = (if 0 \<le> i \<and> i < int (length xs) then Some (xs ! nat i) else None)"

definition aset :: "'a list \<Rightarrow> int \<Rightarrow> 'a \<Rightarrow> 'a list option" where
  "aset xs i v = (if 0 \<le> i \<and> i < int (length xs) then Some (xs[nat i := v]) else None)"

text \<open>A view of \<open>n\<close> elements from offset \<open>k\<close>: an \<open>Eigen::Map\<close> or a \<open>memcpy\<close> source.\<close>

definition aslice :: "'a list \<Rightarrow> int \<Rightarrow> int \<Rightarrow> 'a list option" where
  "aslice xs k n =
     (if 0 \<le> k \<and> 0 \<le> n \<and> k + n \<le> int (length xs) then Some (take (nat n) (drop (nat k) xs)) else None)"

text \<open>Writing a block at offset \<open>k\<close>: the destination of a \<open>memcpy\<close>.\<close>

definition ablit :: "'a list \<Rightarrow> int \<Rightarrow> 'a list \<Rightarrow> 'a list option" where
  "ablit xs k ys =
     (if 0 \<le> k \<and> k + int (length ys) \<le> int (length xs)
      then Some (take (nat k) xs @ ys @ drop (nat k + length ys) xs) else None)"

text \<open>\<open>std::vector::resize(n, v)\<close>: keeps a prefix, or extends with copies of \<open>v\<close>.\<close>

definition vresize :: "int \<Rightarrow> 'a \<Rightarrow> 'a list \<Rightarrow> 'a list" where
  "vresize n v xs = take (nat n) xs @ replicate (nat n - length xs) v"

text \<open>\<open>std::vector(n, v)\<close>; a length that is negative as a signed number cannot be allocated.\<close>

definition valloc :: "int \<Rightarrow> 'a \<Rightarrow> 'a list option" where
  "valloc n v = (if 0 \<le> n then Some (replicate (nat n) v) else None)"

lemma valloc_Some [simp]: "0 \<le> n \<Longrightarrow> valloc n v = Some (replicate (nat n) v)"
  by (simp add: valloc_def)

lemma aget_Some [arr, simp]: "0 \<le> i \<Longrightarrow> i < int (length xs) \<Longrightarrow> aget xs i = Some (xs ! nat i)"
  by (simp add: aget_def)

lemma aset_Some [arr, simp]: "0 \<le> i \<Longrightarrow> i < int (length xs) \<Longrightarrow> aset xs i v = Some (xs[nat i := v])"
  by (simp add: aset_def)

lemma aget_SomeD: "aget xs i = Some v \<Longrightarrow> 0 \<le> i \<and> i < int (length xs) \<and> v = xs ! nat i"
  by (simp add: aget_def split: if_splits)

lemma aget_None_iff: "aget xs i = None \<longleftrightarrow> i < 0 \<or> int (length xs) \<le> i"
  by (auto simp: aget_def)

lemma aset_SomeD: "aset xs i v = Some ys \<Longrightarrow> 0 \<le> i \<and> i < int (length xs) \<and> ys = xs[nat i := v]"
  by (simp add: aset_def split: if_splits)

lemma aslice_Some [arr, simp]:
  "0 \<le> k \<Longrightarrow> 0 \<le> n \<Longrightarrow> k + n \<le> int (length xs) \<Longrightarrow>
   aslice xs k n = Some (take (nat n) (drop (nat k) xs))"
  by (simp add: aslice_def)

lemma length_vresize [simp]: "length (vresize n v xs) = nat n"
  by (simp add: vresize_def)

lemma vresize_Nil: "vresize n v [] = replicate (nat n) v"
  by (simp add: vresize_def)

lemma nth_vresize: "i < nat n \<Longrightarrow> vresize n v xs ! i = (if i < length xs then xs ! i else v)"
  by (auto simp: vresize_def nth_append)

subsection \<open>Total correctness in the option monad\<close>

definition wp :: "'a option \<Rightarrow> ('a \<Rightarrow> bool) \<Rightarrow> bool" where
  "wp m Q = (case m of None \<Rightarrow> False | Some x \<Rightarrow> Q x)"

lemma wp_Some [wp_rules]: "Q x \<Longrightarrow> wp (Some x) Q"
  by (simp add: wp_def)

lemma wp_Some_iff [simp]: "wp (Some x) Q = Q x"
  by (simp add: wp_def)

lemma wp_None [simp]: "wp None Q = False"
  by (simp add: wp_def)

lemma wp_bind [wp_rules]: "wp m (\<lambda>x. wp (f x) Q) \<Longrightarrow> wp (m \<bind> f) Q"
  by (cases m) (auto simp: wp_def)

lemma wp_bind_iff [simp]: "wp (m \<bind> f) Q = wp m (\<lambda>x. wp (f x) Q)"
  by (cases m) (auto simp: wp_def)

lemma wp_mono: "wp m P \<Longrightarrow> (\<And>x. P x \<Longrightarrow> Q x) \<Longrightarrow> wp m Q"
  by (cases m) (auto simp: wp_def)

lemma wp_conj: "wp m P \<Longrightarrow> wp m Q \<Longrightarrow> wp m (\<lambda>x. P x \<and> Q x)"
  by (cases m) (auto simp: wp_def)

lemma wp_if [wp_rules]: "(b \<Longrightarrow> wp m Q) \<Longrightarrow> (\<not> b \<Longrightarrow> wp n Q) \<Longrightarrow> wp (if b then m else n) Q"
  by simp

lemma wp_let [wp_rules]: "wp (f x) Q \<Longrightarrow> wp (let y = x in f y) Q"
  by simp

lemma wp_aget [wp_rules]:
  "0 \<le> i \<Longrightarrow> i < int (length xs) \<Longrightarrow> Q (xs ! nat i) \<Longrightarrow> wp (aget xs i) Q"
  by simp

lemma wp_aset [wp_rules]:
  "0 \<le> i \<Longrightarrow> i < int (length xs) \<Longrightarrow> Q (xs[nat i := v]) \<Longrightarrow> wp (aset xs i v) Q"
  by simp

lemma wp_SomeD: "wp m Q \<Longrightarrow> \<exists>x. m = Some x \<and> Q x"
  by (cases m) auto

lemma wpI: "m = Some x \<Longrightarrow> Q x \<Longrightarrow> wp m Q"
  by simp

subsection \<open>Counted loops\<close>

text \<open>
  \<open>for (int i = a; i < b; i += k) s = f i s;\<close> with a positive constant step. A body that fails
  stops the loop. \<open>for1 a b f s\<close> is the loop with step one.
\<close>

function forstep :: "int \<Rightarrow> int \<Rightarrow> int \<Rightarrow> (int \<Rightarrow> 's \<Rightarrow> 's option) \<Rightarrow> 's \<Rightarrow> 's option" where
  "forstep k a b f s =
     (if 0 < k \<and> a < b
      then (case f a s of None \<Rightarrow> None | Some s' \<Rightarrow> forstep k (a + k) b f s')
      else Some s)"
  by pat_completeness auto
termination
  by (relation "measure (\<lambda>(k, a, b, f, s). nat (b - a))") auto

declare forstep.simps [simp del]

abbreviation for1 :: "int \<Rightarrow> int \<Rightarrow> (int \<Rightarrow> 's \<Rightarrow> 's option) \<Rightarrow> 's \<Rightarrow> 's option" where
  "for1 \<equiv> forstep 1"

lemma forstep_done [simp]: "b \<le> a \<Longrightarrow> forstep k a b f s = Some s"
  by (simp add: forstep.simps)

lemma forstep_step: "0 < k \<Longrightarrow> a < b \<Longrightarrow> forstep k a b f s = (f a s \<bind> forstep k (a + k) b f)"
  by (subst forstep.simps) (simp split: option.split)

lemma forstep_None: "0 < k \<Longrightarrow> a < b \<Longrightarrow> f a s = None \<Longrightarrow> forstep k a b f s = None"
  by (simp add: forstep_step)

text \<open>A loop whose body fails at one counter whatever the state does not finish.\<close>

lemma for1_fails:
  assumes "a \<le> i" "i < b" "\<And>s. f i s = None"
  shows "for1 a b f s = None"
  using assms(1)
proof (induction "nat (i - a)" arbitrary: a s)
  case 0
  then have "a = i" by simp
  then show ?case using assms(2,3) by (intro forstep_None) auto
next
  case (Suc n)
  then have "n = nat (i - (a + 1))" "a + 1 \<le> i" by auto
  then have "for1 (a + 1) b f s' = None" for s' by (rule Suc.hyps(1))
  then show ?case using Suc.prems assms(2) by (simp add: forstep_step Option.bind_eq_None_conv split: option.split)
qed

text \<open>
  The loop rule: an invariant indexed by the loop counter that holds at the start and that the
  body carries from \<open>i\<close> to \<open>i + k\<close> holds at the first counter that is not below the bound.
\<close>

lemma wp_forstep:
  assumes k: "0 < k" and init: "I a s"
    and step: "\<And>i s. a \<le> i \<Longrightarrow> i < b \<Longrightarrow> k dvd (i - a) \<Longrightarrow> I i s \<Longrightarrow> wp (f i s) (I (i + k))"
    and exit: "\<And>i s. b \<le> i \<Longrightarrow> i < b + k \<or> i = a \<Longrightarrow> a \<le> i \<Longrightarrow> k dvd (i - a) \<Longrightarrow> I i s \<Longrightarrow> Q s"
  shows "wp (forstep k a b f s) Q"
  using init step exit
proof (induction "nat (b - a)" arbitrary: a s rule: less_induct)
  case less
  show ?case
  proof (cases "a < b")
    case False
    then show ?thesis using less.prems(1) less.prems(3) [of a s] by simp
  next
    case True
    have b1: "wp (f a s) (I (a + k))"
      using less.prems(2) [of a s] True less.prems(1) by simp
    have dv: "k dvd (i - a)" if "k dvd (i - (a + k))" for i
    proof -
      have "i - a = (i - (a + k)) + k" by simp
      then show ?thesis using that by (metis dvd_add dvd_refl)
    qed
    have "wp (forstep k (a + k) b f s') Q" if s': "I (a + k) s'" for s'
    proof (rule less.hyps)
      show "nat (b - (a + k)) < nat (b - a)" using k True by simp
    next
      show "I (a + k) s'" by (rule s')
    next
      fix i t assume "a + k \<le> i" "i < b" "k dvd (i - (a + k))" "I i t"
      then show "wp (f i t) (I (i + k))" using less.prems(2) [of i t] k dv by simp
    next
      fix i t assume "b \<le> i" "i < b + k \<or> i = a + k" "a + k \<le> i" "k dvd (i - (a + k))" "I i t"
      then show "Q t" using less.prems(3) [of i t] k True dv by auto
    qed
    then show ?thesis
      using wp_mono [OF b1] k True by (simp add: forstep_step)
  qed
qed

lemma wp_for1:
  assumes "I a s" and "a \<le> b"
    and step: "\<And>i s. a \<le> i \<Longrightarrow> i < b \<Longrightarrow> I i s \<Longrightarrow> wp (f i s) (I (i + 1))"
    and exit: "\<And>s. I b s \<Longrightarrow> Q s"
  shows "wp (for1 a b f s) Q"
proof (rule wp_forstep [where I = "\<lambda>i s. i \<le> b \<and> I i s"])
  fix i s assume "a \<le> i" "i < b" "i \<le> b \<and> I i s"
  then show "wp (f i s) (\<lambda>s'. i + 1 \<le> b \<and> I (i + 1) s')"
    using step [of i s] by (auto elim: wp_mono)
qed (use assms in auto)

text \<open>What every step keeps, a finished loop keeps.\<close>

lemma forstep_keeps:
  assumes "forstep k a b f s = Some s'" "I s" and step: "\<And>i t t'. f i t = Some t' \<Longrightarrow> I t \<Longrightarrow> I t'"
  shows "I s'"
  using assms
proof (induction k a b f s rule: forstep.induct)
  case (1 k a b f s)
  show ?case
  proof (cases "0 < k \<and> a < b")
    case True
    then obtain t where t: "f a s = Some t" "forstep k (a + k) b f t = Some s'"
      using 1(2) by (subst (asm) forstep.simps) (simp split: option.splits)
    then show ?thesis using 1(1) [OF True t(1,2)] 1(3,4) by blast
  next
    case False
    then show ?thesis using 1(2,3) by (subst (asm) forstep.simps) (simp split: if_splits)
  qed
qed

text \<open>A loop that fills a vector: element \<open>i\<close> becomes \<open>g i\<close>, which may depend on those before it.\<close>

lemma for1_fill:
  assumes "0 \<le> a" "a \<le> int (length r0)" "\<And>k. k < nat a \<Longrightarrow> r0 ! k = g k"
    and step: "\<And>i r. a \<le> i \<Longrightarrow> i < int (length r0) \<Longrightarrow> length r = length r0 \<Longrightarrow>
      (\<And>k. k < nat i \<Longrightarrow> r ! k = g k) \<Longrightarrow> f i r = Some (r[nat i := g (nat i)])"
  shows "for1 a (int (length r0)) f r0 = Some (map g [0..<length r0])"
proof -
  have "wp (for1 a (int (length r0)) f r0) (\<lambda>r. r = map g [0..<length r0])"
  proof (rule wp_for1 [where I = "\<lambda>i r. 0 \<le> i \<and> length r = length r0 \<and> (\<forall>k < nat i. r ! k = g k)"])
    fix i r assume i: "a \<le> i" "i < int (length r0)"
      and I: "0 \<le> i \<and> length r = length r0 \<and> (\<forall>k < nat i. r ! k = g k)"
    then have "f i r = Some (r[nat i := g (nat i)])" by (intro step) auto
    moreover have "nat (i + 1) = Suc (nat i)" using assms(1) i by simp
    ultimately show "wp (f i r) (\<lambda>r. 0 \<le> i + 1 \<and> length r = length r0 \<and> (\<forall>k < nat (i + 1). r ! k = g k))"
      using I i by (auto simp: nth_list_update less_Suc_eq)
  next
    fix r assume "0 \<le> int (length r0) \<and> length r = length r0 \<and> (\<forall>k < nat (int (length r0)). r ! k = g k)"
    then show "r = map g [0..<length r0]" by (auto intro: nth_equalityI)
  qed (use assms in auto)
  then show ?thesis by (auto dest: wp_SomeD)
qed

text \<open>A loop over a list: \<open>for (auto x : xs) s = f x s;\<close>\<close>

fun forlist :: "('a \<Rightarrow> 's \<Rightarrow> 's option) \<Rightarrow> 'a list \<Rightarrow> 's \<Rightarrow> 's option" where
  "forlist f [] s = Some s"
| "forlist f (x # xs) s = (f x s \<bind> forlist f xs)"

lemma forlist_append: "forlist f (xs @ ys) s = (forlist f xs s \<bind> forlist f ys)"
  by (induction xs arbitrary: s) (auto split: Option.bind_split)

lemma wp_forlist:
  assumes "I [] s"
    and "\<And>p x q s. xs = p @ x # q \<Longrightarrow> I p s \<Longrightarrow> wp (f x s) (I (p @ [x]))"
  shows "wp (forlist f xs s) (I xs)"
  using assms(2)
proof (induction xs rule: rev_induct)
  case Nil
  show ?case using assms(1) by simp
next
  case (snoc x xs)
  have "wp (forlist f xs s) (I xs)"
    by (rule snoc.IH) (auto intro: snoc.prems)
  then show ?case
    using snoc.prems [of xs x "[]"] by (auto simp: forlist_append elim!: wp_mono)
qed

subsection \<open>Fixed-width integers\<close>

text \<open>
  The value of a C++ unsigned 64-bit (32-bit) expression over mathematical integers, what becomes of it when it is
  stored in a signed one of 64 bits, and the
  truncating signed division of C++.
\<close>

definition u64 :: "int \<Rightarrow> int" where "u64 x = x mod 2 ^ 64"

definition i64 :: "int \<Rightarrow> int" where "i64 x = (x + 2 ^ 63) mod 2 ^ 64 - 2 ^ 63"

definition u32 :: "int \<Rightarrow> int" where "u32 x = x mod 2 ^ 32"

definition trunc_div :: "int \<Rightarrow> int \<Rightarrow> int" where
  "trunc_div num den =
     (let q = \<bar>num\<bar> div \<bar>den\<bar> in if num < 0 \<longleftrightarrow> den < 0 then q else - q)"

lemma u64_id [simp]: "0 \<le> x \<Longrightarrow> x < 2 ^ 64 \<Longrightarrow> u64 x = x"
  by (simp add: u64_def)

lemma i64_id [simp]: "- (2 ^ 63) \<le> x \<Longrightarrow> x < 2 ^ 63 \<Longrightarrow> i64 x = x"
  by (simp add: i64_def)

lemma u32_id [simp]: "0 \<le> x \<Longrightarrow> x < 2 ^ 32 \<Longrightarrow> u32 x = x"
  by (simp add: u32_def)

lemma u64_range: "0 \<le> u64 x \<and> u64 x < 2 ^ 64"
  by (simp add: u64_def)

lemma trunc_div_pos [simp]: "0 \<le> a \<Longrightarrow> 0 < b \<Longrightarrow> trunc_div a b = a div b"
  by (simp add: trunc_div_def Let_def)

end
