(* ===== verification/Floats.thy ===== *)
theory Floats
  imports Prelude
begin

text \<open>
  IEEE-754 values as the code uses them: a finite real, the two infinities and NaN.

  \<^item> A format (binary32, binary64) enters only through its rounding: \<open>rounding\<close> maps the exact
    real result of an operation to the value the format stores, which may be an infinity. Every
    arithmetic definition takes it as its first argument \<open>rd\<close>, so a theorem that does not mention a
    particular \<open>rd\<close> holds for round-to-nearest-even, for any other rounding and for exact
    arithmetic; \<open>exact\<close> is the rounding that rounds nothing.
  \<^item> Comparisons are never rounded. Every comparison with NaN is false.
  \<^item> The two zeros are one value: the code compares them (where they are equal) and never divides
    by a variable that can be zero.
\<close>

subsection \<open>Values and operations\<close>

datatype fp = NaN | NInf | Fin real | PInf

type_synonym rounding = "real \<Rightarrow> fp"

definition exact :: rounding where "exact = Fin"

fun is_finite :: "fp \<Rightarrow> bool" where
  "is_finite (Fin _) = True"
| "is_finite _ = False"

definition is_nan :: "fp \<Rightarrow> bool" where
  "is_nan x = (case x of NaN \<Rightarrow> True | _ \<Rightarrow> False)"

fun fneg :: "fp \<Rightarrow> fp" where
  "fneg NaN = NaN"
| "fneg NInf = PInf"
| "fneg PInf = NInf"
| "fneg (Fin x) = Fin (- x)"

fun fadd :: "rounding \<Rightarrow> fp \<Rightarrow> fp \<Rightarrow> fp" where
  "fadd rd (Fin x) (Fin y) = rd (x + y)"
| "fadd rd NaN _ = NaN"
| "fadd rd _ NaN = NaN"
| "fadd rd PInf NInf = NaN"
| "fadd rd NInf PInf = NaN"
| "fadd rd PInf _ = PInf"
| "fadd rd _ PInf = PInf"
| "fadd rd NInf _ = NInf"
| "fadd rd _ NInf = NInf"

definition fsub :: "rounding \<Rightarrow> fp \<Rightarrow> fp \<Rightarrow> fp" where
  "fsub rd x y = fadd rd x (fneg y)"

definition signed_inf :: "bool \<Rightarrow> fp" where
  "signed_inf neg = (if neg then NInf else PInf)"

fun fmul :: "rounding \<Rightarrow> fp \<Rightarrow> fp \<Rightarrow> fp" where
  "fmul rd (Fin x) (Fin y) = rd (x * y)"
| "fmul rd NaN _ = NaN"
| "fmul rd _ NaN = NaN"
| "fmul rd PInf (Fin y) = (if y = 0 then NaN else signed_inf (y < 0))"
| "fmul rd NInf (Fin y) = (if y = 0 then NaN else signed_inf (y > 0))"
| "fmul rd (Fin x) PInf = (if x = 0 then NaN else signed_inf (x < 0))"
| "fmul rd (Fin x) NInf = (if x = 0 then NaN else signed_inf (x > 0))"
| "fmul rd PInf PInf = PInf"
| "fmul rd NInf NInf = PInf"
| "fmul rd _ _ = NInf"

fun fdiv :: "rounding \<Rightarrow> fp \<Rightarrow> fp \<Rightarrow> fp" where
  "fdiv rd (Fin x) (Fin y) =
     (if y = 0 then (if x = 0 then NaN else signed_inf (x < 0)) else rd (x / y))"
| "fdiv rd NaN _ = NaN"
| "fdiv rd _ NaN = NaN"
| "fdiv rd PInf (Fin y) = signed_inf (y < 0)"
| "fdiv rd NInf (Fin y) = signed_inf (0 \<le> y)"
| "fdiv rd (Fin x) _ = Fin 0"
| "fdiv rd _ _ = NaN"

fun fsqrt :: "rounding \<Rightarrow> fp \<Rightarrow> fp" where
  "fsqrt rd (Fin x) = (if x < 0 then NaN else rd (sqrt x))"
| "fsqrt rd PInf = PInf"
| "fsqrt rd _ = NaN"

text \<open>\<open>static_cast\<close> to a format: \<open>fcast rd32\<close> is double to float; widening is exact.\<close>

fun fcast :: "rounding \<Rightarrow> fp \<Rightarrow> fp" where
  "fcast rd (Fin x) = rd x"
| "fcast rd x = x"

text \<open>Conversion of an integer to the format.\<close>

definition fp_of_int :: "rounding \<Rightarrow> int \<Rightarrow> fp" where
  "fp_of_int rd n = rd (of_int n)"

text \<open>
  \<open>std::floor\<close> or \<open>std::ceil\<close> followed by a conversion to an integer. Converting a NaN or an infinity
  is undefined behaviour.
\<close>

fun ifloor :: "fp \<Rightarrow> int option" where
  "ifloor (Fin x) = Some \<lfloor>x\<rfloor>"
| "ifloor _ = None"

fun iceil :: "fp \<Rightarrow> int option" where
  "iceil (Fin x) = Some \<lceil>x\<rceil>"
| "iceil _ = None"

subsection \<open>Comparisons\<close>

fun flt :: "fp \<Rightarrow> fp \<Rightarrow> bool" where
  "flt (Fin x) (Fin y) = (x < y)"
| "flt NInf (Fin _) = True"
| "flt NInf PInf = True"
| "flt (Fin _) PInf = True"
| "flt _ _ = False"

fun fle :: "fp \<Rightarrow> fp \<Rightarrow> bool" where
  "fle (Fin x) (Fin y) = (x \<le> y)"
| "fle NInf NInf = True"
| "fle NInf (Fin _) = True"
| "fle NInf PInf = True"
| "fle (Fin _) PInf = True"
| "fle PInf PInf = True"
| "fle _ _ = False"

abbreviation fgt :: "fp \<Rightarrow> fp \<Rightarrow> bool" where "fgt x y \<equiv> flt y x"

abbreviation fge :: "fp \<Rightarrow> fp \<Rightarrow> bool" where "fge x y \<equiv> fle y x"

text \<open>\<open>std::max(a, b)\<close> is \<open>(a < b) ? b : a\<close>.\<close>

definition std_max :: "fp \<Rightarrow> fp \<Rightarrow> fp" where
  "std_max a b = (if flt a b then b else a)"

lemma is_finite_iff: "is_finite x \<longleftrightarrow> (\<exists>r. x = Fin r)"
  by (cases x) auto

lemma is_nan_simps [simp]:
  "is_nan NaN" "\<not> is_nan NInf" "\<not> is_nan PInf" "\<not> is_nan (Fin x)"
  by (simp_all add: is_nan_def)

lemma finite_not_nan: "is_finite x \<Longrightarrow> \<not> is_nan x"
  by (cases x) auto

lemma flt_nan [simp]: "\<not> flt NaN x" "\<not> flt x NaN"
  by (cases x; simp)+

lemma fle_nan [simp]: "\<not> fle NaN x" "\<not> fle x NaN"
  by (cases x; simp)+

lemma flt_irrefl [simp]: "\<not> flt x x"
  by (cases x) auto

lemma fle_refl [simp]: "fle x x \<longleftrightarrow> \<not> is_nan x"
  by (cases x) auto

lemma flt_trans: "flt x y \<Longrightarrow> flt y z \<Longrightarrow> flt x z"
  by (cases x; cases y; cases z) auto

lemma fle_trans: "fle x y \<Longrightarrow> fle y z \<Longrightarrow> fle x z"
  by (cases x; cases y; cases z) auto

lemma flt_fle_trans: "flt x y \<Longrightarrow> fle y z \<Longrightarrow> flt x z"
  by (cases x; cases y; cases z) auto

lemma fle_flt_trans: "fle x y \<Longrightarrow> flt y z \<Longrightarrow> flt x z"
  by (cases x; cases y; cases z) auto

lemma flt_imp_fle: "flt x y \<Longrightarrow> fle x y"
  by (cases x; cases y) auto

lemma not_flt: "\<not> is_nan x \<Longrightarrow> \<not> is_nan y \<Longrightarrow> \<not> flt x y \<longleftrightarrow> fle y x"
  by (cases x; cases y) auto

lemma not_fle: "\<not> is_nan x \<Longrightarrow> \<not> is_nan y \<Longrightarrow> \<not> fle x y \<longleftrightarrow> flt y x"
  by (cases x; cases y) auto

lemma fle_antisym: "fle x y \<Longrightarrow> fle y x \<Longrightarrow> x = y"
  by (cases x; cases y) auto

lemma fle_not_nan: "fle x y \<Longrightarrow> \<not> is_nan x \<and> \<not> is_nan y"
  by (cases x; cases y) auto

lemma flt_not_nan: "flt x y \<Longrightarrow> \<not> is_nan x \<and> \<not> is_nan y"
  by (cases x; cases y) auto

subsection \<open>Exact arithmetic\<close>

lemma exact_simps [simp]:
  "exact x = Fin x"
  "fadd exact (Fin a) (Fin b) = Fin (a + b)"
  "fsub exact (Fin a) (Fin b) = Fin (a - b)"
  "fmul exact (Fin a) (Fin b) = Fin (a * b)"
  "fcast exact y = y"
  "fp_of_int exact n = Fin (of_int n)"
  "b \<noteq> 0 \<Longrightarrow> fdiv exact (Fin a) (Fin b) = Fin (a / b)"
  "0 \<le> a \<Longrightarrow> fsqrt exact (Fin a) = Fin (sqrt a)"
  by (auto simp: exact_def fsub_def fp_of_int_def) (cases y; simp)

text \<open>The reals behind a list of finite values.\<close>

fun real_of_fp :: "fp \<Rightarrow> real" where
  "real_of_fp (Fin x) = x"
| "real_of_fp _ = 0"

lemma Fin_real_of_fp [simp]: "is_finite x \<Longrightarrow> Fin (real_of_fp x) = x"
  by (cases x) auto

end
