(* ===== verification/Common.thy ===== *)
theory Common
  imports Floats "HOL-Library.Word"
begin

text \<open>
  src/common/common.h and common.cpp: the enumerations, the match and entry types, the geometry of
  an operation (\<open>OpInfo\<close>), the precomputed statistics and the thread safe work queue. A thrown
  \<open>SCAMPException\<close> (also the one raised by the ASSERT macro) is the left side of a \<open>result\<close>;
  \<open>Undefined\<close> is undefined behaviour of C++ that reaches a definition returning a result.
\<close>

subsection \<open>Failures\<close>

datatype failure = SCAMPException string | Undefined

type_synonym 'a result = "failure + 'a"

definition rbind :: "'a result \<Rightarrow> ('a \<Rightarrow> 'b result) \<Rightarrow> 'b result" where
  "rbind m f = (case m of Inl e \<Rightarrow> Inl e | Inr x \<Rightarrow> f x)"

definition of_option :: "'a option \<Rightarrow> 'a result" where
  "of_option m = (case m of None \<Rightarrow> Inl Undefined | Some x \<Rightarrow> Inr x)"

lemma rbind_simps [simp]: "rbind (Inr x) f = f x" "rbind (Inl e) f = Inl e"
  by (simp_all add: rbind_def)

lemma of_option_simps [simp]: "of_option (Some x) = Inr x" "of_option None = Inl Undefined"
  by (simp_all add: of_option_def)

lemma rbind_InrE: "rbind m f = Inr y \<Longrightarrow> (\<And>x. m = Inr x \<Longrightarrow> f x = Inr y \<Longrightarrow> P) \<Longrightarrow> P"
  by (cases m) auto

subsection \<open>Enumerations\<close>

datatype SCAMPProfileType =
    PROFILE_TYPE_INVALID | PROFILE_TYPE_1NN_INDEX | PROFILE_TYPE_SUM_THRESH
  | PROFILE_TYPE_FREQUENCY_THRESH | PROFILE_TYPE_KNN | PROFILE_TYPE_1NN_MULTIDIM
  | PROFILE_TYPE_1NN | PROFILE_TYPE_APPROX_ALL_NEIGHBORS | PROFILE_TYPE_MATRIX_SUMMARY

datatype SCAMPPrecisionType =
    PRECISION_INVALID | PRECISION_SINGLE | PRECISION_MIXED | PRECISION_DOUBLE | PRECISION_ULTRA

datatype SCAMPArchitecture = CPU_WORKER | CUDA_GPU_WORKER

datatype SCAMPError_t =
    SCAMP_NO_ERROR | SCAMP_FUNCTIONALITY_UNIMPLEMENTED | SCAMP_TILE_ILLEGAL_TYPE
  | SCAMP_CUDA_ERROR | SCAMP_CUFFT_ERROR | SCAMP_CUFFT_EXEC_ERROR | SCAMP_DIM_INCOMPATIBLE

datatype SCAMPTileType =
    SELF_JOIN_FULL_TILE | SELF_JOIN_UPPER_TRIANGULAR | AB_JOIN_FULL_TILE | AB_FULL_JOIN_FULL_TILE

definition NeedsSort :: "SCAMPProfileType \<Rightarrow> bool" where
  "NeedsSort t = (t = PROFILE_TYPE_APPROX_ALL_NEIGHBORS)"

definition NeedsIntermittentMerge :: "SCAMPProfileType \<Rightarrow> bool" where
  "NeedsIntermittentMerge t = (t \<noteq> PROFILE_TYPE_MATRIX_SUMMARY)"

definition NeedsIntermittentReset :: "SCAMPProfileType \<Rightarrow> bool" where
  "NeedsIntermittentReset t = (t \<noteq> PROFILE_TYPE_MATRIX_SUMMARY)"

fun getSCAMPErrorString :: "SCAMPError_t \<Rightarrow> string" where
  "getSCAMPErrorString SCAMP_NO_ERROR = ''SCAMP_NO_ERROR''"
| "getSCAMPErrorString SCAMP_FUNCTIONALITY_UNIMPLEMENTED = ''SCAMP_FUNCTIONALITY_UNIMPLEMENTED''"
| "getSCAMPErrorString SCAMP_TILE_ILLEGAL_TYPE = ''SCAMP_TILE_ILLEGAL_TYPE''"
| "getSCAMPErrorString SCAMP_CUDA_ERROR = ''SCAMP_CUDA_ERROR''"
| "getSCAMPErrorString SCAMP_CUFFT_ERROR = ''SCAMP_CUFFT_ERROR''"
| "getSCAMPErrorString SCAMP_CUFFT_EXEC_ERROR = ''SCAMP_CUFFT_EXEC_ERROR''"
| "getSCAMPErrorString SCAMP_DIM_INCOMPATIBLE = ''SCAMP_DIM_INCOMPATIBLE''"

text \<open>Element sizes in bytes: \<open>sizeof(SCAMPmatch)\<close> is three 32-bit fields.\<close>

definition sizeof_double :: int where "sizeof_double = 8"
definition sizeof_float :: int where "sizeof_float = 4"
definition sizeof_uint64 :: int where "sizeof_uint64 = 8"
definition sizeof_SCAMPmatch :: int where "sizeof_SCAMPmatch = 12"

fun GetProfileTypeSize :: "SCAMPProfileType \<Rightarrow> int result" where
  "GetProfileTypeSize PROFILE_TYPE_SUM_THRESH = Inr sizeof_double"
| "GetProfileTypeSize PROFILE_TYPE_1NN_INDEX = Inr sizeof_uint64"
| "GetProfileTypeSize PROFILE_TYPE_1NN = Inr sizeof_float"
| "GetProfileTypeSize PROFILE_TYPE_MATRIX_SUMMARY = Inr sizeof_float"
| "GetProfileTypeSize PROFILE_TYPE_APPROX_ALL_NEIGHBORS = Inr sizeof_SCAMPmatch"
| "GetProfileTypeSize PROFILE_TYPE_KNN = Inr sizeof_SCAMPmatch"
| "GetProfileTypeSize _ = Inl (SCAMPException ''Error: Profile Type Unknown'')"

fun GetProfileTypeString :: "SCAMPProfileType \<Rightarrow> string" where
  "GetProfileTypeString PROFILE_TYPE_INVALID = ''PROFILE_TYPE_INVALID''"
| "GetProfileTypeString PROFILE_TYPE_1NN_INDEX = ''PROFILE_TYPE_1NN_INDEX''"
| "GetProfileTypeString PROFILE_TYPE_1NN = ''PROFILE_TYPE_1NN''"
| "GetProfileTypeString PROFILE_TYPE_SUM_THRESH = ''PROFILE_TYPE_SUM_THRESH''"
| "GetProfileTypeString PROFILE_TYPE_FREQUENCY_THRESH = ''PROFILE_TYPE_FREQUENCY_THRESH''"
| "GetProfileTypeString PROFILE_TYPE_KNN = ''PROFILE_TYPE_KNN''"
| "GetProfileTypeString PROFILE_TYPE_1NN_MULTIDIM = ''PROFILE_TYPE_1NN_MULTIDIM''"
| "GetProfileTypeString PROFILE_TYPE_APPROX_ALL_NEIGHBORS = ''PROFILE_TYPE_APPROX_ALL_NEIGHBORS''"
| "GetProfileTypeString PROFILE_TYPE_MATRIX_SUMMARY = ''PROFILE_TYPE_MATRIX_SUMMARY''"

fun GetPrecisionTypeString :: "SCAMPPrecisionType \<Rightarrow> string" where
  "GetPrecisionTypeString PRECISION_INVALID = ''PRECISION_INVALID''"
| "GetPrecisionTypeString PRECISION_SINGLE = ''PRECISION_SINGLE''"
| "GetPrecisionTypeString PRECISION_MIXED = ''PRECISION_MIXED''"
| "GetPrecisionTypeString PRECISION_DOUBLE = ''PRECISION_DOUBLE''"
| "GetPrecisionTypeString PRECISION_ULTRA = ''PRECISION_ULTRA''"

subsection \<open>Matches and profile entries\<close>

text \<open>
  \<open>mp_entry\<close> is a union of two floats, two 32-bit integers and one 64-bit integer. The program reads
  and writes \<open>floats[0]\<close> and \<open>ints[1]\<close>, which do not overlap, and moves whole entries through
  \<open>ulong\<close>; the record holds the two halves.
\<close>

record mp_entry =
  floats0 :: fp
  ints1 :: "32 word"

record SCAMPmatch =
  corr :: fp
  match_row :: "32 word"
  match_col :: "32 word"

definition SCAMPmatch_less :: "SCAMPmatch \<Rightarrow> SCAMPmatch \<Rightarrow> bool" where
  "SCAMPmatch_less m other =
     (if match_col m = match_col other then fgt (corr m) (corr other)
      else match_col m < match_col other)"

definition compareMatch :: "SCAMPmatch \<Rightarrow> SCAMPmatch \<Rightarrow> bool" where
  "compareMatch x1 x2 = fgt (corr x1) (corr x2)"

subsection \<open>The geometry of an operation\<close>

record OptionalArgs =
  threshold :: fp
  num_extra_operands :: int

record OpInfo =
  op_full_ts_len_A :: int
  op_full_ts_len_B :: int
  op_max_tile_ts_size :: int
  op_max_tile_width :: int
  op_max_tile_height :: int
  op_mp_window :: int
  op_global_start_row_position :: int
  op_global_start_col_position :: int
  op_opt_args :: OptionalArgs
  op_profile_type :: SCAMPProfileType
  op_fp_type :: SCAMPPrecisionType
  op_self_join :: bool
  op_computing_rows :: bool
  op_computing_cols :: bool
  op_is_aligned :: bool
  op_keep_rows_separate :: bool
  op_silent_mode :: bool
  op_max_matches_per_column :: int
  op_max_matches_per_tile :: int
  op_matrix_height :: int
  op_matrix_width :: int
  op_cols_per_cell :: fp
  op_rows_per_cell :: fp

definition PROFILE_MEMORY_BUDGET :: int where
  "PROFILE_MEMORY_BUDGET = 536870912"

text \<open>
  The constructor. The two divisions by \<open>num_workers\<close> are undefined for zero workers; the first is
  unsigned, the second signed. \<open>cols_per_cell\<close> and \<open>rows_per_cell\<close> are assigned for matrix
  summaries only and keep an indeterminate value otherwise (\<open>uninit\<close>). \<open>rd\<close> is the rounding of
  double.
\<close>

definition max_tile_ts_size_of :: "int \<Rightarrow> int \<Rightarrow> int \<Rightarrow> int \<Rightarrow> int \<Rightarrow> int" where
  "max_tile_ts_size_of Asize Bsize window_sz max_tile_size num_workers =
     (let maxSize = max Asize Bsize;
          t0 = maxSize div u64 num_workers;
          t1 = (if t0 > max_tile_size then max_tile_size else t0);
          SMALLEST_ALLOWED_TILE_DIM = window_sz
      in if t1 < SMALLEST_ALLOWED_TILE_DIM + window_sz
         then SMALLEST_ALLOWED_TILE_DIM + window_sz else t1)"

definition max_matches_per_tile_of :: "int \<Rightarrow> int \<Rightarrow> int \<Rightarrow> int" where
  "max_matches_per_tile_of num_workers max_matches_per_col max_tile_width =
     (let normative = u64 (trunc_div PROFILE_MEMORY_BUDGET num_workers) div sizeof_SCAMPmatch;
          m = i64 (max_matches_per_col * max_tile_width)
      in if normative > m then normative else m)"

definition OpInfo_init ::
  "rounding \<Rightarrow> fp \<Rightarrow> int \<Rightarrow> int \<Rightarrow> int \<Rightarrow> int \<Rightarrow> bool \<Rightarrow> SCAMPPrecisionType \<Rightarrow> int \<Rightarrow> int \<Rightarrow> OptionalArgs
   \<Rightarrow> SCAMPProfileType \<Rightarrow> bool \<Rightarrow> bool \<Rightarrow> bool \<Rightarrow> bool \<Rightarrow> bool \<Rightarrow> int \<Rightarrow> int \<Rightarrow> int \<Rightarrow> int \<Rightarrow> OpInfo option"
where
  "OpInfo_init rd uninit Asize Bsize window_sz max_tile_size selfjoin t start_row start_col args
     profiletype keep_rows compute_rows compute_cols aligned silent num_workers
     max_matches_per_col mheight mwidth =
   (if num_workers = 0 then None else
    let lenB = (if selfjoin then Asize else Bsize);
        ts = max_tile_ts_size_of Asize Bsize window_sz max_tile_size num_workers;
        w = ts - window_sz + 1;
        summary = (profiletype = PROFILE_TYPE_MATRIX_SUMMARY)
    in Some \<lparr>
      op_full_ts_len_A = Asize, op_full_ts_len_B = lenB, op_max_tile_ts_size = ts,
      op_max_tile_width = w, op_max_tile_height = w, op_mp_window = window_sz,
      op_global_start_row_position = start_row, op_global_start_col_position = start_col,
      op_opt_args = args, op_profile_type = profiletype, op_fp_type = t, op_self_join = selfjoin,
      op_computing_rows = (if summary then False else compute_rows),
      op_computing_cols = compute_cols, op_is_aligned = aligned,
      op_keep_rows_separate = (if summary then False else keep_rows),
      op_silent_mode = silent, op_max_matches_per_column = max_matches_per_col,
      op_max_matches_per_tile = max_matches_per_tile_of num_workers max_matches_per_col w,
      op_matrix_height = mheight, op_matrix_width = mwidth,
      op_cols_per_cell = (if summary
         then fdiv rd (fp_of_int rd (u64 (Asize - window_sz + 1))) (fp_of_int rd mwidth) else uninit),
      op_rows_per_cell = (if summary
         then fdiv rd (fp_of_int rd (u64 (lenB - window_sz + 1))) (fp_of_int rd mheight) else uninit) \<rparr>)"

subsection \<open>Precomputed statistics\<close>

record PrecomputedInfo =
  norms :: "fp list"
  df :: "fp list"
  dg :: "fp list"
  means :: "fp list"
  nan_idxs :: "int list"

record CombinedStats =
  dr_fwd :: "fp list"
  dr_bkwd :: "fp list"
  dc_fwd :: "fp list"
  dc_bkwd :: "fp list"

subsection \<open>The work queue\<close>

text \<open>
  Every operation of \<open>ThreadSafeQueue\<close> holds its mutex throughout, so one operation is one step of
  the model. \<open>pop\<close> on an empty queue returns the sentinel \<open>(-1, -1)\<close>.
\<close>

type_synonym work_item = "int \<times> int"
type_synonym ThreadSafeQueue = "work_item list"

definition sentinel :: work_item where "sentinel = (-1, -1)"

definition tsq_size :: "ThreadSafeQueue \<Rightarrow> int" where
  "tsq_size q = int (length q)"

definition tsq_empty :: "ThreadSafeQueue \<Rightarrow> bool" where
  "tsq_empty q = (q = [])"

definition tsq_pop :: "ThreadSafeQueue \<Rightarrow> work_item \<times> ThreadSafeQueue" where
  "tsq_pop q = (case q of [] \<Rightarrow> (sentinel, []) | x # xs \<Rightarrow> (x, xs))"

definition tsq_push :: "work_item \<Rightarrow> ThreadSafeQueue \<Rightarrow> ThreadSafeQueue" where
  "tsq_push x q = q @ [x]"

subsection \<open>Facts about the geometry\<close>

lemma OpInfo_init_geometry:
  assumes "OpInfo_init rd u A B w mt sj t r c oa pt kr cr cc al si nw mm mh mw = Some info"
  shows "op_max_tile_ts_size info = max_tile_ts_size_of A B w mt nw"
    and "op_max_tile_width info = op_max_tile_ts_size info - w + 1"
    and "op_max_tile_height info = op_max_tile_width info"
    and "op_mp_window info = w" and "op_full_ts_len_A info = A"
    and "op_full_ts_len_B info = (if sj then A else B)" and "op_self_join info = sj"
    and "op_profile_type info = pt"
    and "op_max_matches_per_tile info = max_matches_per_tile_of nw mm (op_max_tile_width info)"
  using assms by (auto simp: OpInfo_init_def Let_def split: if_splits)

lemma max_tile_ts_size_ge: "2 * w \<le> max_tile_ts_size_of A B w mt nw"
  by (simp add: max_tile_ts_size_of_def Let_def)

lemma max_tile_ts_size_less:
  assumes "0 \<le> A" "w < 2 ^ 31" "A < 2 ^ 31" "B < 2 ^ 31"
  shows "max_tile_ts_size_of A B w mt nw < 2 ^ 32"
proof -
  have "max A B div u64 nw \<le> max A B"
    using assms u64_range [of nw] zdiv_mono2 [of "max A B" 1 "u64 nw"] by (cases "u64 nw = 0") auto
  then show ?thesis using assms by (auto simp: max_tile_ts_size_of_def Let_def)
qed

lemma max_tile_ts_size_le: "2 * w \<le> mt \<Longrightarrow> max_tile_ts_size_of A B w mt nw \<le> mt"
  by (simp add: max_tile_ts_size_of_def Let_def)

end
