(* ===== verification/Tiling.thy ===== *)
theory Tiling
  imports Common
begin

text \<open>
  src/core/SCAMP.cpp, \<open>SCAMP_Operation::get_tiles\<close>: the order in which the tiles of the distance
  matrix are put on the work queue, and the place and size \<open>do_work\<close> gives each of them. A tile is
  named by its tile row and tile column; a self join queues the tiles on and above the diagonal, an
  AB join all of them. The lemmas show that every tile is queued exactly once and that the tiles
  partition the distance matrix.
\<close>

subsection \<open>Loops that only push\<close>

lemma for1_Some: "for1 a b (\<lambda>i s. Some (g i s)) s = Some (fold g [a..b - 1] s)"
proof (induction "nat (b - a)" arbitrary: a s)
  case 0
  then show ?case by simp
next
  case (Suc n)
  then show ?case by (simp add: forstep_step upto_rec1)
qed

lemma fold_push: "fold (\<lambda>i. tsq_push (f i)) xs q = q @ map f xs"
  by (induction xs arbitrary: q) (auto simp: tsq_push_def)

lemma fold_append_list: "fold (\<lambda>i q. q @ f i) xs q = q @ concat (map f xs)"
  by (induction xs arbitrary: q) auto

lemma distinct_concat_map:
  assumes "distinct xs" "\<And>x. x \<in> set xs \<Longrightarrow> distinct (f x)"
    and "\<And>x y. x \<in> set xs \<Longrightarrow> y \<in> set xs \<Longrightarrow> x \<noteq> y \<Longrightarrow> set (f x) \<inter> set (f y) = {}"
  shows "distinct (concat (map f xs))"
  using assms by (induction xs) auto

lemma for1_push: "for1 a b (\<lambda>i q. Some (tsq_push (f i) q)) q = Some (q @ map f [a..b - 1])"
  by (simp add: for1_Some fold_push)

lemma for1_append: "for1 a b (\<lambda>i q. Some (q @ g i)) q = Some (q @ concat (map g [a..b - 1]))"
  by (simp add: for1_Some fold_append_list)

subsection \<open>The model\<close>

text \<open>
  The number of tiles is \<open>ceil\<close> of a quotient of doubles. \<open>num_tile_rows\<close> and \<open>num_tile_cols\<close>
  are the exact quotients rounded up; \<open>tile_count_exact\<close> shows that the code computes them.
\<close>

definition tile_count :: "rounding \<Rightarrow> int \<Rightarrow> int \<Rightarrow> int option" where
  "tile_count rd n h = iceil (fdiv rd (fp_of_int rd n) (fp_of_int rd h))"

definition num_tile_rows :: "OpInfo \<Rightarrow> int" where
  "num_tile_rows info =
     \<lceil>real_of_int (op_full_ts_len_B info - op_mp_window info + 1)
      / real_of_int (op_max_tile_height info)\<rceil>"

definition num_tile_cols :: "OpInfo \<Rightarrow> int" where
  "num_tile_cols info =
     \<lceil>real_of_int (op_full_ts_len_A info - op_mp_window info + 1)
      / real_of_int (op_max_tile_width info)\<rceil>"

definition push_self_tiles :: "int \<Rightarrow> int \<Rightarrow> ThreadSafeQueue \<Rightarrow> ThreadSafeQueue option" where
  "push_self_tiles R C q = do {
     q1 \<leftarrow> for1 0 (u64 (R - 1)) (\<lambda>offset q.
       for1 0 (u64 (C - 1 - offset)) (\<lambda>diag q. Some (tsq_push (diag, diag + offset) q)) q) q;
     for1 0 R (\<lambda>i q. Some (tsq_push (i, C - 1) q)) q1 }"

text \<open>The loop that alternates between the last column and the last row.\<close>

function push_edges :: "int \<Rightarrow> int \<Rightarrow> int \<Rightarrow> int \<Rightarrow> ThreadSafeQueue \<Rightarrow> int \<times> int \<times> ThreadSafeQueue" where
  "push_edges R C x y q =
     (if x < u64 (C - 1) \<and> y < u64 (R - 1)
      then push_edges R C (x + 1) (y + 1) (tsq_push (R - 1, x) (tsq_push (y, C - 1) q))
      else (x, y, q))"
  by pat_completeness auto
termination
  by (relation "measure (\<lambda>(R, C, x, y, q). nat (u64 (C - 1) - x))") auto

declare push_edges.simps [simp del]

definition push_ab_tiles :: "int \<Rightarrow> int \<Rightarrow> ThreadSafeQueue \<Rightarrow> ThreadSafeQueue option" where
  "push_ab_tiles R C q = do {
     q1 \<leftarrow> for1 0 (u64 (C - 1)) (\<lambda>diag q.
       for1 0 (min (u64 (C - 1) - diag) (u64 (R - 1)))
         (\<lambda>offset q. Some (tsq_push (offset, diag + offset) q)) q) q;
     q2 \<leftarrow> for1 1 (u64 (R - 1)) (\<lambda>diag q.
       for1 0 (min (u64 (R - 1) - diag) (u64 (C - 1)))
         (\<lambda>offset q. Some (tsq_push (offset + diag, offset) q)) q) q1;
     (let q3 = tsq_push (R - 1, C - 1) q2;
          (x, y, q4) = push_edges R C 0 0 q3
      in do {
        q5 \<leftarrow> for1 x (u64 (C - 1)) (\<lambda>x q. Some (tsq_push (R - 1, x) q)) q4;
        for1 y (u64 (R - 1)) (\<lambda>y q. Some (tsq_push (y, C - 1) q)) q5 }) }"

text \<open>\<open>get_tiles\<close> on an empty queue; \<open>total_tiles_\<close> is the size of the queue it returns.\<close>

definition get_tiles :: "rounding \<Rightarrow> OpInfo \<Rightarrow> ThreadSafeQueue \<Rightarrow> ThreadSafeQueue option" where
  "get_tiles rd info q = do {
     R \<leftarrow> tile_count rd (op_full_ts_len_B info - op_mp_window info + 1) (op_max_tile_height info);
     C \<leftarrow> tile_count rd (op_full_ts_len_A info - op_mp_window info + 1) (op_max_tile_width info);
     (if op_self_join info then push_self_tiles R C q else push_ab_tiles R C q) }"

text \<open>
  The place and size of a tile, as \<open>do_work\<close> sets them: the size is a length of time series, a tile
  of \<open>s\<close> samples has \<open>s - mp_window + 1\<close> subsequences.
\<close>

definition tile_row_pos :: "OpInfo \<Rightarrow> work_item \<Rightarrow> int" where
  "tile_row_pos info t = fst t * op_max_tile_height info"

definition tile_col_pos :: "OpInfo \<Rightarrow> work_item \<Rightarrow> int" where
  "tile_col_pos info t = snd t * op_max_tile_width info"

definition tile_ts_width :: "OpInfo \<Rightarrow> work_item \<Rightarrow> int" where
  "tile_ts_width info t =
     min (op_max_tile_ts_size info) (op_full_ts_len_A info - tile_col_pos info t)"

definition tile_ts_height :: "OpInfo \<Rightarrow> work_item \<Rightarrow> int" where
  "tile_ts_height info t =
     min (op_max_tile_ts_size info) (op_full_ts_len_B info - tile_row_pos info t)"

subsection \<open>Every tile is queued once\<close>

definition upper_tiles :: "int \<Rightarrow> work_item set" where
  "upper_tiles C = {(r, c). 0 \<le> r \<and> r \<le> c \<and> c < C}"

definition all_tiles :: "int \<Rightarrow> int \<Rightarrow> work_item set" where
  "all_tiles R C = {(r, c). 0 \<le> r \<and> r < R \<and> 0 \<le> c \<and> c < C}"

text \<open>Diagonals of tiles: \<open>f i k\<close> runs along diagonal \<open>i\<close>.\<close>

lemma distinct_diagonals:
  assumes "\<And>i k i' k'. f i k = f i' k' \<longleftrightarrow> i = i' \<and> k = k'"
  shows "distinct (concat (map (\<lambda>i. map (f i) [c i..d i]) [a..b]))"
  by (rule distinct_concat_map) (use assms in \<open>auto simp: distinct_map inj_on_def\<close>)

lemma set_diagonals:
  "x \<in> set (concat (map (\<lambda>i. map (f i) [c i..d i]) [a..b])) \<longleftrightarrow>
   (\<exists>i k. a \<le> i \<and> i \<le> b \<and> c i \<le> k \<and> k \<le> d i \<and> x = f i k)"
proof -
  have "set (concat (map (\<lambda>i. map (f i) [c i..d i]) [a..b])) = (\<Union>i\<in>{a..b}. f i ` {c i..d i})"
    by simp
  then show ?thesis by (simp only: UN_iff image_iff Bex_def atLeastAtMost_iff) metis
qed

lemma push_self_tiles_list:
  assumes "1 \<le> C" "C < 2 ^ 64"
  shows "push_self_tiles C C q =
    Some (q @ concat (map (\<lambda>off. map (\<lambda>d. (d, d + off)) [0..C - 2 - off]) [0..C - 2])
            @ map (\<lambda>i. (i, C - 1)) [0..C - 1])"
proof -
  have a: "u64 (C - 1) = C - 1" using assms by simp
  have b: "map (\<lambda>off. map (\<lambda>d. (d, d + off)) [0..u64 (C - 1 - off) - 1]) [0..C - 2] =
           map (\<lambda>off. map (\<lambda>d. (d, d + off)) [0..C - 2 - off]) [0..C - 2]"
  proof (rule map_cong [OF refl])
    fix off assume "off \<in> set [0..C - 2]"
    then have "u64 (C - 1 - off) = C - 1 - off" using assms by simp
    moreover have "C - 1 - off - 1 = C - 2 - off" by simp
    ultimately show "map (\<lambda>d. (d, d + off)) [0..u64 (C - 1 - off) - 1] =
        map (\<lambda>d. (d, d + off)) [0..C - 2 - off]" by metis
  qed
  show ?thesis
    by (simp add: push_self_tiles_def for1_append for1_push a b)
qed

lemma push_self_tiles_correct:
  assumes "1 \<le> C" "C < 2 ^ 64"
  shows "\<exists>q. push_self_tiles C C [] = Some q \<and> distinct q \<and> set q = upper_tiles C"
proof -
  let ?D = "concat (map (\<lambda>off. map (\<lambda>d. (d, d + off)) [0..C - 2 - off]) [0..C - 2])"
  let ?E = "map (\<lambda>i. (i, C - 1)) [0..C - 1]"
  have "distinct ?D" by (rule distinct_diagonals) auto
  moreover have "distinct ?E" by (simp add: distinct_map inj_on_def)
  moreover have D: "set ?D = {(r, c). 0 \<le> r \<and> r \<le> c \<and> c \<le> C - 2}"
  proof (rule set_eqI, clarify)
    fix r c
    have "(r, c) \<in> set ?D \<longleftrightarrow>
        (\<exists>off d. 0 \<le> off \<and> off \<le> C - 2 \<and> 0 \<le> d \<and> d \<le> C - 2 - off \<and> r = d \<and> c = d + off)"
      by (simp only: set_diagonals prod.inject)
    also have "\<dots> \<longleftrightarrow> 0 \<le> r \<and> r \<le> c \<and> c \<le> C - 2" by presburger
    finally show "(r, c) \<in> set ?D \<longleftrightarrow> (r, c) \<in> {(r, c). 0 \<le> r \<and> r \<le> c \<and> c \<le> C - 2}" by simp
  qed
  moreover have E: "set ?E = {(r, c). 0 \<le> r \<and> r \<le> c \<and> c = C - 1}" by auto
  moreover have "set ?D \<inter> set ?E = {}" unfolding D E by auto
  moreover have "set ?D \<union> set ?E = upper_tiles C" unfolding D E upper_tiles_def by auto
  ultimately show ?thesis
    using push_self_tiles_list [OF assms, of "[]"] by auto
qed

lemma push_edges_list:
  assumes "1 \<le> C" "C < 2 ^ 64" "1 \<le> R" "R < 2 ^ 64" "0 \<le> x" "x \<le> min (C - 1) (R - 1)"
  shows "push_edges R C x x q =
    (min (C - 1) (R - 1), min (C - 1) (R - 1),
     q @ concat (map (\<lambda>i. [(i, C - 1), (R - 1, i)]) [x..min (C - 1) (R - 1) - 1]))"
  using assms(5,6)
proof (induction "nat (min (C - 1) (R - 1) - x)" arbitrary: x q)
  case 0
  then have "x = min (C - 1) (R - 1)" by simp
  then show ?case using assms by (subst push_edges.simps) auto
next
  case (Suc n)
  then have lt: "x < C - 1" "x < R - 1" by auto
  have u: "u64 (C - 1) = C - 1" "u64 (R - 1) = R - 1" using assms by auto
  have l: "[x..min (C - 1) (R - 1) - 1] = x # [x + 1..min (C - 1) (R - 1) - 1]"
    using lt by (simp add: upto_rec1)
  show ?case
    using Suc.hyps(1) [of "x + 1" "q @ [(x, C - 1), (R - 1, x)]"] Suc.hyps(2) Suc.prems lt
    by (subst push_edges.simps) (simp add: u l tsq_push_def)
qed

lemma set_edges:
  "set (concat (map (\<lambda>i. [(i, c), (r, i)]) [0..m - 1])) =
   {(i, j). j = c \<and> 0 \<le> i \<and> i < m} \<union> {(i, j). i = r \<and> 0 \<le> j \<and> j < (m::int)}"
  by auto

lemma distinct_edges:
  assumes "m \<le> c" "m \<le> r"
  shows "distinct (concat (map (\<lambda>i. [(i, c), (r, i)]) [0..m - (1::int)]))"
  by (rule distinct_concat_map) (use assms in auto)

lemma push_ab_tiles_list:
  assumes "1 \<le> C" "C < 2 ^ 64" "1 \<le> R" "R < 2 ^ 64"
  shows "push_ab_tiles R C q =
    Some (q @ concat (map (\<lambda>d. map (\<lambda>k. (k, d + k)) [0..min (C - 1 - d) (R - 1) - 1]) [0..C - 2])
      @ concat (map (\<lambda>d. map (\<lambda>k. (k + d, k)) [0..min (R - 1 - d) (C - 1) - 1]) [1..R - 2])
      @ [(R - 1, C - 1)]
      @ concat (map (\<lambda>i. [(i, C - 1), (R - 1, i)]) [0..min (C - 1) (R - 1) - 1])
      @ map (\<lambda>x. (R - 1, x)) [min (C - 1) (R - 1)..C - 2]
      @ map (\<lambda>y. (y, C - 1)) [min (C - 1) (R - 1)..R - 2])"
proof -
  have u: "u64 (C - 1) = C - 1" "u64 (R - 1) = R - 1" using assms by auto
  show ?thesis
    using assms
    by (simp add: push_ab_tiles_def u for1_append for1_push push_edges_list)
       (simp add: tsq_push_def)
qed

lemma push_ab_tiles_correct:
  assumes "1 \<le> C" "C < 2 ^ 64" "1 \<le> R" "R < 2 ^ 64"
  shows "\<exists>q. push_ab_tiles R C [] = Some q \<and> distinct q \<and> set q = all_tiles R C"
proof -
  define m where "m = min (C - 1) (R - 1)"
  have m: "m \<le> C - 1" "m \<le> R - 1" "0 \<le> m" using assms by (auto simp: m_def)
  let ?U = "concat (map (\<lambda>d. map (\<lambda>k. (k, d + k)) [0..min (C - 1 - d) (R - 1) - 1]) [0..C - 2])"
  let ?L = "concat (map (\<lambda>d. map (\<lambda>k. (k + d, k)) [0..min (R - 1 - d) (C - 1) - 1]) [1..R - 2])"
  let ?E = "concat (map (\<lambda>i. [(i, C - 1), (R - 1, i)]) [0..m - 1])"
  let ?X = "map (\<lambda>x. (R - 1, x)) [m..C - 2]"
  let ?Y = "map (\<lambda>y. (y, C - 1)) [m..R - 2]"
  have dist: "distinct ?U" "distinct ?L" "distinct ?E" "distinct ?X" "distinct ?Y"
    by (intro distinct_diagonals distinct_edges; use m in auto)+ (auto simp: distinct_map inj_on_def)
  have U: "set ?U = {(r, c). 0 \<le> r \<and> r \<le> c \<and> c < C - 1 \<and> r < R - 1}"
  proof (rule set_eqI, clarify)
    fix r c
    have "(r, c) \<in> set ?U \<longleftrightarrow>
        (\<exists>d k. 0 \<le> d \<and> d \<le> C - 2 \<and> 0 \<le> k \<and> k \<le> min (C - 1 - d) (R - 1) - 1 \<and> r = k \<and> c = d + k)"
      by (simp only: set_diagonals prod.inject)
    also have "\<dots> \<longleftrightarrow> 0 \<le> r \<and> r \<le> c \<and> c < C - 1 \<and> r < R - 1"
      by (auto intro: exI [of _ "c - r"])
    finally show "(r, c) \<in> set ?U \<longleftrightarrow>
        (r, c) \<in> {(r, c). 0 \<le> r \<and> r \<le> c \<and> c < C - 1 \<and> r < R - 1}" by simp
  qed
  have L: "set ?L = {(r, c). 0 \<le> c \<and> c < r \<and> c < C - 1 \<and> r < R - 1}"
  proof (rule set_eqI, clarify)
    fix r c
    have "(r, c) \<in> set ?L \<longleftrightarrow>
        (\<exists>d k. 1 \<le> d \<and> d \<le> R - 2 \<and> 0 \<le> k \<and> k \<le> min (R - 1 - d) (C - 1) - 1 \<and> r = k + d \<and> c = k)"
      by (simp only: set_diagonals prod.inject)
    also have "\<dots> \<longleftrightarrow> 0 \<le> c \<and> c < r \<and> c < C - 1 \<and> r < R - 1"
      by (auto intro: exI [of _ "r - c"])
    finally show "(r, c) \<in> set ?L \<longleftrightarrow>
        (r, c) \<in> {(r, c). 0 \<le> c \<and> c < r \<and> c < C - 1 \<and> r < R - 1}" by simp
  qed
  have E: "set ?E = {(i, j). j = C - 1 \<and> 0 \<le> i \<and> i < m} \<union> {(i, j). i = R - 1 \<and> 0 \<le> j \<and> j < m}"
    by (rule set_edges)
  have X: "set ?X = {(i, j). i = R - 1 \<and> m \<le> j \<and> j < C - 1}"
    and Y: "set ?Y = {(i, j). j = C - 1 \<and> m \<le> i \<and> i < R - 1}" by auto
  have "set ?X \<inter> set ?Y = {}" unfolding X Y by auto
  moreover have "set ?E \<inter> (set ?X \<union> set ?Y) = {}" using m unfolding E X Y by auto
  moreover have "(R - 1, C - 1) \<notin> set ?E \<union> (set ?X \<union> set ?Y)"
    using m unfolding E X Y by auto
  moreover have "set ?L \<inter> ({(R - 1, C - 1)} \<union> (set ?E \<union> (set ?X \<union> set ?Y))) = {}"
    using m unfolding L E X Y by auto
  moreover have "set ?U \<inter> (set ?L \<union> ({(R - 1, C - 1)} \<union> (set ?E \<union> (set ?X \<union> set ?Y)))) = {}"
    using m unfolding U L E X Y by auto
  ultimately have "distinct (?U @ ?L @ [(R - 1, C - 1)] @ ?E @ ?X @ ?Y)"
    using dist by (simp only: distinct_append set_append) simp
  moreover have "set ?U \<union> (set ?L \<union> ({(R - 1, C - 1)} \<union> (set ?E \<union> (set ?X \<union> set ?Y)))) =
      all_tiles R C"
  proof (rule equalityI)
    have "set ?U \<subseteq> all_tiles R C" "set ?L \<subseteq> all_tiles R C" "set ?E \<subseteq> all_tiles R C"
      "set ?X \<subseteq> all_tiles R C" "set ?Y \<subseteq> all_tiles R C" "(R - 1, C - 1) \<in> all_tiles R C"
      using assms m unfolding U L E X Y all_tiles_def by auto
    then show "set ?U \<union> (set ?L \<union> ({(R - 1, C - 1)} \<union> (set ?E \<union> (set ?X \<union> set ?Y))))
        \<subseteq> all_tiles R C"
      by (intro Un_least) simp_all
  next
    show "all_tiles R C
        \<subseteq> set ?U \<union> (set ?L \<union> ({(R - 1, C - 1)} \<union> (set ?E \<union> (set ?X \<union> set ?Y))))"
    proof
      fix t assume t: "t \<in> all_tiles R C"
      obtain r c where rc: "t = (r, c)" by (cases t)
      have "t \<in> set ?U \<or> t \<in> set ?L \<or> t = (R - 1, C - 1) \<or> t \<in> set ?E \<or> t \<in> set ?X \<or> t \<in> set ?Y"
        using t unfolding U L E X Y all_tiles_def rc
        by (cases "r = R - 1"; cases "c = C - 1"; cases "r \<le> c"; cases "r < m"; cases "c < m") auto
      then show "t \<in> set ?U \<union> (set ?L \<union> ({(R - 1, C - 1)} \<union> (set ?E \<union> (set ?X \<union> set ?Y))))"
        by (simp only: Un_iff insert_iff empty_iff) blast
    qed
  qed
  ultimately show ?thesis using push_ab_tiles_list [OF assms, of "[]", folded m_def] by auto
qed

subsection \<open>The tiles partition the matrix\<close>

text \<open>
  Cutting \<open>n\<close> positions into intervals of length \<open>h\<close>: position \<open>i\<close> lies in interval \<open>i div h\<close>, and
  the last interval is the shorter one.
\<close>

lemma ceil_div_pos:
  assumes "0 < n" "0 < (h::int)"
  shows "1 \<le> \<lceil>real_of_int n / real_of_int h\<rceil>" "\<lceil>real_of_int n / real_of_int h\<rceil> \<le> n"
proof -
  have "0 < real_of_int n / real_of_int h" using assms by simp
  then show "1 \<le> \<lceil>real_of_int n / real_of_int h\<rceil>" by linarith
  have "real_of_int n / real_of_int h \<le> real_of_int n"
    using assms by (simp add: divide_le_eq mult_le_cancel_left1)
  then show "\<lceil>real_of_int n / real_of_int h\<rceil> \<le> n" by (simp add: ceiling_le_iff)
qed

lemma less_ceil_div_iff:
  assumes "0 < (h::int)"
  shows "c < \<lceil>real_of_int n / real_of_int h\<rceil> \<longleftrightarrow> c * h < n"
proof -
  have "c < \<lceil>real_of_int n / real_of_int h\<rceil> \<longleftrightarrow> real_of_int c < real_of_int n / real_of_int h"
    by (simp add: less_ceiling_iff)
  also have "\<dots> \<longleftrightarrow> real_of_int (c * h) < real_of_int n"
    using assms by (simp add: less_divide_eq)
  finally show ?thesis by (simp only: of_int_less_iff)
qed

lemma interval_partition:
  assumes "0 < (h::int)" "0 \<le> i" "i < n"
  shows "0 \<le> c \<and> c < \<lceil>real_of_int n / real_of_int h\<rceil> \<and> c * h \<le> i \<and> i < c * h + min h (n - c * h)
         \<longleftrightarrow> c = i div h"
proof
  assume "0 \<le> c \<and> c < \<lceil>real_of_int n / real_of_int h\<rceil> \<and> c * h \<le> i \<and> i < c * h + min h (n - c * h)"
  then have "c * h \<le> i" "i < c * h + h" by auto
  then have "0 \<le> i - c * h" "i - c * h < h" by auto
  then have "(i - c * h + c * h) div h = 0 + c"
    using assms(1) by (subst div_mult_self1) auto
  then show "c = i div h" by simp
next
  assume c: "c = i div h"
  have "i = c * h + i mod h" using c by simp
  moreover have "0 \<le> i mod h" "i mod h < h" using assms(1) by simp_all
  ultimately have "c * h \<le> i" "i < c * h + h" by linarith+
  then show "0 \<le> c \<and> c < \<lceil>real_of_int n / real_of_int h\<rceil> \<and> c * h \<le> i \<and> i < c * h + min h (n - c * h)"
    using assms c by (auto simp: less_ceil_div_iff pos_imp_zdiv_nonneg_iff)
qed

text \<open>The cells of the distance matrix a tile covers: subsequences of B by subsequences of A.\<close>

definition tile_cells :: "OpInfo \<Rightarrow> work_item \<Rightarrow> (int \<times> int) set" where
  "tile_cells info t =
     {(i, j). tile_row_pos info t \<le> i
        \<and> i < tile_row_pos info t + (tile_ts_height info t - op_mp_window info + 1)
        \<and> tile_col_pos info t \<le> j
        \<and> j < tile_col_pos info t + (tile_ts_width info t - op_mp_window info + 1)}"

text \<open>
  Positions are \<open>int\<close>s and 32-bit indices throughout the program, so a series has less than
  \<open>2 ^ 31\<close> samples; the number of tiles is then an exact double and a valid \<open>int\<close>.
\<close>

definition geometry_ok :: "OpInfo \<Rightarrow> bool" where
  "geometry_ok info \<longleftrightarrow>
     1 \<le> op_mp_window info \<and> op_mp_window info \<le> op_full_ts_len_A info
     \<and> op_mp_window info \<le> op_full_ts_len_B info
     \<and> op_full_ts_len_A info < 2 ^ 31 \<and> op_full_ts_len_B info < 2 ^ 31
     \<and> op_max_tile_ts_size info < 2 ^ 32
     \<and> op_max_tile_width info = op_max_tile_ts_size info - op_mp_window info + 1
     \<and> op_max_tile_height info = op_max_tile_width info
     \<and> op_mp_window info < op_max_tile_width info
     \<and> (op_self_join info \<longrightarrow> op_full_ts_len_A info = op_full_ts_len_B info)"

lemma geometry_ok_init:
  assumes "OpInfo_init rd u A B w mt sj t r c oa pt kr cr cc al si nw mm mh mw = Some info"
    and "1 \<le> w" "w \<le> A" "sj \<or> w \<le> B" "A < 2 ^ 31" "B < 2 ^ 31"
  shows "geometry_ok info"
  using OpInfo_init_geometry [OF assms(1)] max_tile_ts_size_ge [of w A B mt nw]
    max_tile_ts_size_less [of A w B mt nw] assms(2-)
  by (auto simp: geometry_ok_def)

lemma tile_cells_unique:
  assumes "geometry_ok info"
    and ij: "0 \<le> i" "i \<le> op_full_ts_len_B info - op_mp_window info"
      "0 \<le> j" "j \<le> op_full_ts_len_A info - op_mp_window info"
  shows "t \<in> all_tiles (num_tile_rows info) (num_tile_cols info) \<and> (i, j) \<in> tile_cells info t
         \<longleftrightarrow> t = (i div op_max_tile_height info, j div op_max_tile_width info)"
proof -
  let ?h = "op_max_tile_height info" and ?w = "op_max_tile_width info"
  let ?nB = "op_full_ts_len_B info - op_mp_window info + 1"
  let ?nA = "op_full_ts_len_A info - op_mp_window info + 1"
  obtain r c where t: "t = (r, c)" by (cases t)
  have pos: "0 < ?h" "0 < ?w" using assms(1) by (auto simp: geometry_ok_def)
  have R: "0 \<le> r \<and> r < num_tile_rows info \<and> r * ?h \<le> i \<and> i < r * ?h + min ?h (?nB - r * ?h)
      \<longleftrightarrow> r = i div ?h"
    unfolding num_tile_rows_def by (rule interval_partition) (use ij pos in auto)
  have C: "0 \<le> c \<and> c < num_tile_cols info \<and> c * ?w \<le> j \<and> j < c * ?w + min ?w (?nA - c * ?w)
      \<longleftrightarrow> c = j div ?w"
    unfolding num_tile_cols_def by (rule interval_partition) (use ij pos in auto)
  have "tile_ts_height info t - op_mp_window info + 1 = min ?h (?nB - r * ?h)"
    and "tile_ts_width info t - op_mp_window info + 1 = min ?w (?nA - c * ?w)"
    using assms(1) by (auto simp: geometry_ok_def tile_ts_height_def tile_ts_width_def t
        tile_row_pos_def tile_col_pos_def)
  then show ?thesis
    using R C by (auto simp: t all_tiles_def tile_cells_def tile_row_pos_def tile_col_pos_def)
qed

lemma num_tiles_bounds:
  assumes "geometry_ok info"
  shows "1 \<le> num_tile_rows info" "num_tile_rows info < 2 ^ 31"
    "1 \<le> num_tile_cols info" "num_tile_cols info < 2 ^ 31"
    "op_self_join info \<Longrightarrow> num_tile_rows info = num_tile_cols info"
proof -
  let ?nB = "op_full_ts_len_B info - op_mp_window info + 1"
  let ?nA = "op_full_ts_len_A info - op_mp_window info + 1"
  have n: "0 < ?nB" "0 < ?nA" "?nB < 2 ^ 31" "?nA < 2 ^ 31"
    and h: "0 < op_max_tile_height info" "0 < op_max_tile_width info"
    using assms by (auto simp: geometry_ok_def)
  show "1 \<le> num_tile_rows info" "1 \<le> num_tile_cols info"
    unfolding num_tile_rows_def num_tile_cols_def by (rule ceil_div_pos(1), rule n, rule h)+
  have "num_tile_rows info \<le> ?nB" "num_tile_cols info \<le> ?nA"
    unfolding num_tile_rows_def num_tile_cols_def by (rule ceil_div_pos(2), rule n, rule h)+
  then show "num_tile_rows info < 2 ^ 31" "num_tile_cols info < 2 ^ 31" using n by linarith+
  show "op_self_join info \<Longrightarrow> num_tile_rows info = num_tile_cols info"
    using assms by (auto simp: geometry_ok_def num_tile_rows_def num_tile_cols_def)
qed

text \<open>
  A rounding with 53 significant bits: integers of less than \<open>2 ^ 53\<close> are exact and the relative
  error is at most \<open>2 ^ -53\<close>. The rounded quotient of two such integers never crosses an integer.
\<close>

definition double_rounding :: "rounding \<Rightarrow> bool" where
  "double_rounding rd \<longleftrightarrow>
     (\<forall>n::int. \<bar>n\<bar> < 2 ^ 53 \<longrightarrow> rd (of_int n) = Fin (of_int n))
     \<and> (\<forall>x. \<bar>x\<bar> < 2 ^ 53 \<longrightarrow> (\<exists>y. rd x = Fin y \<and> \<bar>y - x\<bar> * 2 ^ 53 \<le> \<bar>x\<bar>
            \<and> (\<forall>n::int. x \<le> of_int n \<longrightarrow> y \<le> of_int n)))"

lemma double_rounding_exact: "double_rounding exact"
  by (auto simp: double_rounding_def)

lemma tile_count_exact:
  assumes rd: "double_rounding rd" and n: "0 < n" "n < 2 ^ 31" and h: "0 < h" "h < 2 ^ 53"
  shows "tile_count rd n h = Some \<lceil>real_of_int n / real_of_int h\<rceil>"
proof -
  let ?q = "real_of_int n / real_of_int h"
  have "fp_of_int rd n = Fin (of_int n)" "fp_of_int rd h = Fin (of_int h)"
    using rd n h by (auto simp: double_rounding_def fp_of_int_def)
  moreover have q: "0 < ?q" "?q \<le> real_of_int n"
    using n h by (auto simp: divide_le_eq mult_le_cancel_left1)
  moreover have n53: "real_of_int n < 2 ^ 53" using n(2) by simp
  moreover have "\<bar>?q\<bar> < 2 ^ 53" using q n53 by (simp only: abs_of_pos)
  ultimately obtain y where y: "rd ?q = Fin y" "\<bar>y - ?q\<bar> * 2 ^ 53 \<le> ?q"
      "\<And>m::int. ?q \<le> of_int m \<Longrightarrow> y \<le> of_int m"
    using rd unfolding double_rounding_def by (metis abs_of_pos)
  have "real_of_int (\<lceil>?q\<rceil> - 1) < y"
  proof -
    let ?k = "\<lceil>?q\<rceil> - 1"
    have "real_of_int ?k < ?q" by linarith
    then have "real_of_int (?k * h) < real_of_int n" using h by (simp add: less_divide_eq)
    then have "?k * h + 1 \<le> n" by linarith
    then have "real_of_int (?k * h + 1) \<le> real_of_int n" by (simp only: of_int_le_iff)
    then have "real_of_int (?k * h + 1) / real_of_int h \<le> ?q"
      using h by (intro divide_right_mono) auto
    moreover have "real_of_int (?k * h + 1) / real_of_int h = real_of_int ?k + 1 / real_of_int h"
      using h by (simp add: add_divide_distrib)
    ultimately have "real_of_int ?k + 1 / real_of_int h \<le> ?q" by (simp only:)
    moreover have "?q - y < 1 / real_of_int h"
    proof -
      have "(?q - y) * 2 ^ 53 \<le> \<bar>y - ?q\<bar> * 2 ^ 53" by (rule mult_right_mono) auto
      then have "(?q - y) * 2 ^ 53 \<le> ?q" using y(2) by (rule order_trans)
      also have "?q < 2 ^ 53 / real_of_int h"
        using n53 h by (intro divide_strict_right_mono) auto
      finally have "(?q - y) * 2 ^ 53 < (1 / real_of_int h) * 2 ^ 53" by simp
      then show ?thesis by (simp only: mult_less_cancel_right) auto
    qed
    ultimately show ?thesis by linarith
  qed
  moreover have "y \<le> real_of_int \<lceil>?q\<rceil>" by (rule y(3)) linarith
  ultimately have "\<lceil>y\<rceil> = \<lceil>?q\<rceil>" by linarith
  then show ?thesis
    using \<open>fp_of_int rd n = _\<close> \<open>fp_of_int rd h = _\<close> h y(1) by (simp add: tile_count_def)
qed

lemma get_tiles_counts:
  assumes "double_rounding rd" "geometry_ok info"
  shows "get_tiles rd info q =
    (if op_self_join info then push_self_tiles (num_tile_rows info) (num_tile_cols info) q
     else push_ab_tiles (num_tile_rows info) (num_tile_cols info) q)"
proof -
  have "tile_count rd (op_full_ts_len_B info - op_mp_window info + 1) (op_max_tile_height info)
      = Some (num_tile_rows info)"
    "tile_count rd (op_full_ts_len_A info - op_mp_window info + 1) (op_max_tile_width info)
      = Some (num_tile_cols info)"
    unfolding num_tile_rows_def num_tile_cols_def
    by (rule tile_count_exact [OF assms(1)]; use assms(2) in \<open>simp add: geometry_ok_def\<close>)+
  then show ?thesis by (simp add: get_tiles_def)
qed

lemma get_tiles_queue:
  assumes "double_rounding rd" "geometry_ok info"
  shows "\<exists>q. get_tiles rd info [] = Some q \<and> distinct q \<and>
    set q = (if op_self_join info then upper_tiles (num_tile_cols info)
             else all_tiles (num_tile_rows info) (num_tile_cols info))"
  using push_self_tiles_correct [of "num_tile_cols info"]
    push_ab_tiles_correct [of "num_tile_cols info" "num_tile_rows info"]
    num_tiles_bounds [OF assms(2)]
  by (auto simp: get_tiles_counts [OF assms])

text \<open>
  C15. The work queue of an operation: for a self join every tile on and above the diagonal, for an AB
  join every tile, each exactly once, although the number of tiles is computed in doubles.
\<close>

theorem get_tiles_correct:
  assumes "double_rounding rd" "geometry_ok info"
  shows "\<exists>q. get_tiles rd info [] = Some q \<and> distinct q \<and>
    set q = (if op_self_join info then upper_tiles (num_tile_cols info)
             else all_tiles (num_tile_rows info) (num_tile_cols info))"
  by (rule get_tiles_queue [OF assms])

definition demo_geometry :: OpInfo where
  "demo_geometry = \<lparr>
      op_full_ts_len_A = 10, op_full_ts_len_B = 10, op_max_tile_ts_size = 6,
      op_max_tile_width = 4, op_max_tile_height = 4, op_mp_window = 3,
      op_global_start_row_position = -1, op_global_start_col_position = -1,
      op_opt_args = \<lparr>threshold = NaN, num_extra_operands = 0\<rparr>,
      op_profile_type = PROFILE_TYPE_1NN, op_fp_type = PRECISION_DOUBLE,
      op_self_join = True, op_computing_rows = True, op_computing_cols = True, op_is_aligned = False,
      op_keep_rows_separate = False, op_silent_mode = True, op_max_matches_per_column = 5,
      op_max_matches_per_tile = 100, op_matrix_height = 1, op_matrix_width = 1,
      op_cols_per_cell = NaN, op_rows_per_cell = NaN\<rparr>"

lemma demo_geometry_ok: "geometry_ok demo_geometry"
  by (simp add: geometry_ok_def demo_geometry_def)

lemma get_tiles_correct_witness:
  "\<exists>q. get_tiles exact demo_geometry [] = Some q \<and> distinct q \<and>
    set q = (if op_self_join demo_geometry then upper_tiles (num_tile_cols demo_geometry)
             else all_tiles (num_tile_rows demo_geometry) (num_tile_cols demo_geometry))"
  by (rule get_tiles_correct [OF double_rounding_exact demo_geometry_ok])

text \<open>
  C16. The tiles partition the distance matrix: every pair of a subsequence of B and a subsequence of A
  lies in exactly one tile.
\<close>

theorem tiles_partition:
  assumes "geometry_ok info"
    and "0 \<le> i" "i \<le> op_full_ts_len_B info - op_mp_window info"
    and "0 \<le> j" "j \<le> op_full_ts_len_A info - op_mp_window info"
  shows "\<exists>!t. t \<in> all_tiles (num_tile_rows info) (num_tile_cols info) \<and> (i, j) \<in> tile_cells info t"
  using tile_cells_unique [OF assms] by auto

lemma tiles_partition_witness:
  "\<exists>!t. t \<in> all_tiles (num_tile_rows demo_geometry) (num_tile_cols demo_geometry) \<and> (5, 7) \<in> tile_cells demo_geometry t"
  by (rule tiles_partition [OF demo_geometry_ok]) (simp_all add: demo_geometry_def)

end
