(* ===== verification/CpuKernel.thy ===== *)
theory CpuKernel
  imports Common
begin

text \<open>
  src/core/cpu_kernel/cpu_kernels.cpp and src/core/kernel_common.h: the kernel that walks the
  diagonals of a tile, turns each covariance into a correlation and folds it into the column profile
  and the row profile, and the update of the covariances along the diagonals. A template instance
  (one per profile type) is a record of the operations the template selects; a raw pointer is the
  list it points into, so an access outside its array is \<open>None\<close>.

  \<open>fpu\<close> holds the roundings of double and float; \<open>eigen\<close> the two reductions of the Eigen library
  the kernel calls, whose code is not part of the repository. Contraction of a product and a sum into
  one rounding (\<open>FP_CONTRACT\<close>) is not modelled.
\<close>

subsection \<open>Arguments and template parameters\<close>

record fpu =
  rd64 :: rounding
  rd32 :: rounding

definition exact_fpu :: fpu where
  "exact_fpu = \<lparr>rd64 = exact, rd32 = exact\<rparr>"

record eigen =
  maxCoeff :: "fp list \<Rightarrow> fp \<times> int"
  sumCoeffs :: "fp list \<Rightarrow> fp"

record KernelArgs =
  k_dfa :: "fp list"
  k_dfb :: "fp list"
  k_dga :: "fp list"
  k_dgb :: "fp list"
  k_normsa :: "fp list"
  k_normsb :: "fp list"
  k_n_x :: int
  k_n_y :: int
  k_exclusion_lower :: int
  k_exclusion_upper :: int
  k_matrix_width :: int
  k_matrix_height :: int
  k_rows_per_cell :: fp
  k_cols_per_cell :: fp
  k_global_start_col :: int
  k_global_start_row :: int
  k_has_nan_input :: bool
  k_opt :: OptionalArgs

record ThreadInfo =
  num_diags :: int
  row_iters :: int
  full_row_iters :: int
  tile_diag :: int
  ti_row :: int
  ti_col :: int

definition ThreadInfo_init :: "KernelArgs \<Rightarrow> ThreadInfo" where
  "ThreadInfo_init args =
     \<lparr>num_diags = k_n_x args - k_exclusion_upper args + 1, row_iters = 0, full_row_iters = 0,
      tile_diag = 0, ti_row = 0, ti_col = 0\<rparr>"

definition init_dist :: "SCAMPProfileType \<Rightarrow> fp" where
  "init_dist t =
     (if t \<in> {PROFILE_TYPE_KNN, PROFILE_TYPE_APPROX_ALL_NEIGHBORS, PROFILE_TYPE_1NN_INDEX,
               PROFILE_TYPE_1NN, PROFILE_TYPE_MATRIX_SUMMARY}
      then Fin (-2) else Fin 0)"

subsection \<open>Updating a profile\<close>

text \<open>
  \<open>update_mp\<close>, one definition per branch of its \<open>if constexpr\<close>. The correlation is a value of
  the profile's own format already, so storing it rounds nothing.
\<close>

definition mp_index :: "bool \<Rightarrow> ThreadInfo \<Rightarrow> int" where
  "mp_index rowwise info = (if rowwise then ti_row info else ti_col info)"

definition mp_match_index :: "bool \<Rightarrow> ThreadInfo \<Rightarrow> int" where
  "mp_match_index rowwise info = (if rowwise then ti_col info else ti_row info)"

definition update_mp_1NN_INDEX ::
  "bool \<Rightarrow> KernelArgs \<Rightarrow> ThreadInfo \<Rightarrow> fp \<Rightarrow> mp_entry list \<Rightarrow> mp_entry list option" where
  "update_mp_1NN_INDEX rowwise args info c mp = do {
     e \<leftarrow> aget mp (mp_index rowwise info);
     (if fgt c (floats0 e)
      then aset mp (mp_index rowwise info)
             (e\<lparr>floats0 := c, ints1 := word_of_int (mp_match_index rowwise info)\<rparr>)
      else Some mp) }"

definition update_mp_1NN ::
  "bool \<Rightarrow> KernelArgs \<Rightarrow> ThreadInfo \<Rightarrow> fp \<Rightarrow> fp list \<Rightarrow> fp list option" where
  "update_mp_1NN rowwise args info c mp = do {
     x \<leftarrow> aget mp (mp_index rowwise info);
     aset mp (mp_index rowwise info) (if fge x c then x else c) }"

definition update_mp_SUM_THRESH ::
  "fpu \<Rightarrow> bool \<Rightarrow> KernelArgs \<Rightarrow> ThreadInfo \<Rightarrow> fp \<Rightarrow> fp list \<Rightarrow> fp list option" where
  "update_mp_SUM_THRESH fpu rowwise args info c mp = do {
     x \<leftarrow> aget mp (mp_index rowwise info);
     aset mp (mp_index rowwise info)
       (if fgt c (threshold (k_opt args)) then fadd (rd64 fpu) x c else x) }"

text \<open>
  The element of the matrix summary. A quotient whose floor is not an \<open>int\<close>, and a product or a sum that
  overflows one, is undefined behaviour.
\<close>

definition to_int32 :: "int \<Rightarrow> int option" where
  "to_int32 n = (if - (2 ^ 31) \<le> n \<and> n < 2 ^ 31 then Some n else None)"

definition matrix_index :: "fpu \<Rightarrow> bool \<Rightarrow> KernelArgs \<Rightarrow> ThreadInfo \<Rightarrow> int option" where
  "matrix_index fpu rowwise args info = do {
     x \<leftarrow> ifloor (fdiv (rd64 fpu)
       (fp_of_int (rd64 fpu) ((if rowwise then ti_row info else ti_col info) + k_global_start_col args))
       (k_cols_per_cell args));
     col_idx \<leftarrow> to_int32 x;
     y \<leftarrow> ifloor (fdiv (rd64 fpu)
       (fp_of_int (rd64 fpu) ((if rowwise then ti_col info else ti_row info) + k_global_start_row args))
       (k_rows_per_cell args));
     row_idx \<leftarrow> to_int32 y;
     first \<leftarrow> to_int32 (row_idx * k_matrix_width args);
     to_int32 (first + col_idx) }"

definition update_mp_MATRIX_SUMMARY ::
  "fpu \<Rightarrow> bool \<Rightarrow> KernelArgs \<Rightarrow> ThreadInfo \<Rightarrow> fp \<Rightarrow> fp list \<Rightarrow> fp list option" where
  "update_mp_MATRIX_SUMMARY fpu rowwise args info c mp = do {
     i \<leftarrow> matrix_index fpu rowwise args info;
     x \<leftarrow> aget mp i;
     aset mp i (if flt c (threshold (k_opt args)) \<or> fge x c then x else c) }"

subsection \<open>Reducing a row\<close>

text \<open>
  \<open>reduce_row_fast\<close> for \<open>1NN_INDEX\<close> as gcc and clang compile it: a tournament that halves the
  array in place, keeping for each position the index its value came from.
\<close>

definition pick_ge :: "fp list \<Rightarrow> int \<Rightarrow> int \<Rightarrow> 'a \<Rightarrow> 'a \<Rightarrow> 'a option" where
  "pick_ge c i j x y = do { a \<leftarrow> aget c i; b \<leftarrow> aget c j; Some (if fge a b then x else y) }"

definition first_reduction :: "int \<Rightarrow> fp list \<times> int list \<Rightarrow> (fp list \<times> int list) option" where
  "first_reduction U st = for1 0 (U div 2) (\<lambda>i (c, ci). do {
     k \<leftarrow> pick_ge c i (i + U div 2) i (i + U div 2);
     ci' \<leftarrow> aset ci i k;
     x \<leftarrow> aget c i; y \<leftarrow> aget c (i + U div 2);
     v \<leftarrow> pick_ge c i (i + U div 2) x y;
     c' \<leftarrow> aset c i v;
     Some (c', ci') }) st"

definition horizontal_reduction :: "int \<Rightarrow> fp list \<times> int list \<Rightarrow> (fp list \<times> int list) option" where
  "horizontal_reduction offset st = for1 0 offset (\<lambda>i (c, ci). do {
     p \<leftarrow> aget ci i; q \<leftarrow> aget ci (i + offset);
     k \<leftarrow> pick_ge c i (i + offset) p q;
     ci' \<leftarrow> aset ci i k;
     x \<leftarrow> aget c i; y \<leftarrow> aget c (i + offset);
     v \<leftarrow> pick_ge c i (i + offset) x y;
     c' \<leftarrow> aset c i v;
     Some (c', ci') }) st"

function halving_loop :: "int \<Rightarrow> fp list \<times> int list \<Rightarrow> (fp list \<times> int list) option" where
  "halving_loop i st =
     (if 0 < i then horizontal_reduction i st \<bind> halving_loop (i div 2) else Some st)"
  by pat_completeness auto
termination
  by (relation "measure (\<lambda>(i, st). nat i)") auto

declare halving_loop.simps [simp del]

definition reduce_row_fast_1NN_INDEX :: "int \<Rightarrow> int list \<Rightarrow> fp list \<Rightarrow> (fp \<times> int) option" where
  "reduce_row_fast_1NN_INDEX U scratch c = do {
     st \<leftarrow> first_reduction U (c, scratch);
     (c', ci) \<leftarrow> halving_loop (U div 4) st;
     v \<leftarrow> aget c' 0; k \<leftarrow> aget ci 0;
     Some (v, k) }"

definition reduce_row_1NN :: "eigen \<Rightarrow> fp list \<Rightarrow> fp \<times> int" where
  "reduce_row_1NN eig c = (fst (maxCoeff eig c), 0)"

definition reduce_row_SUM_THRESH :: "eigen \<Rightarrow> fp \<Rightarrow> fp list \<Rightarrow> fp \<times> int" where
  "reduce_row_SUM_THRESH eig thresh c =
     (sumCoeffs eig (map (\<lambda>x. if fgt x thresh then x else Fin 0) c), 0)"

text \<open>
  \<open>reduce_row\<close>: the fixed-width arrays of the fast path use the tournament, the others Eigen's
  reduction. The result is \<open>corr[0]\<close> and \<open>index\<close>, which is all the caller reads.
\<close>

definition reduce_row_1NN_INDEX :: "eigen \<Rightarrow> int \<Rightarrow> bool \<Rightarrow> fp list \<Rightarrow> (fp \<times> int) option" where
  "reduce_row_1NN_INDEX eig U fast c =
     (if fast then reduce_row_fast_1NN_INDEX U (replicate (nat U) 0) c else Some (maxCoeff eig c))"

subsection \<open>Template instances\<close>

record 'e kernel_ops =
  dist_cast :: "fp \<Rightarrow> fp"
  dist_init :: fp
  upd :: "bool \<Rightarrow> KernelArgs \<Rightarrow> ThreadInfo \<Rightarrow> fp \<Rightarrow> 'e list \<Rightarrow> 'e list option"
  reduce :: "bool \<Rightarrow> fp \<Rightarrow> fp list \<Rightarrow> (fp \<times> int) option"
  rows_per_value :: bool

definition ops_1NN_INDEX :: "fpu \<Rightarrow> eigen \<Rightarrow> int \<Rightarrow> mp_entry kernel_ops" where
  "ops_1NN_INDEX fpu eig U =
     \<lparr>dist_cast = fcast (rd32 fpu), dist_init = init_dist PROFILE_TYPE_1NN_INDEX,
      upd = update_mp_1NN_INDEX, reduce = (\<lambda>fast thresh. reduce_row_1NN_INDEX eig U fast),
      rows_per_value = False\<rparr>"

definition ops_1NN :: "fpu \<Rightarrow> eigen \<Rightarrow> int \<Rightarrow> fp kernel_ops" where
  "ops_1NN fpu eig U =
     \<lparr>dist_cast = fcast (rd32 fpu), dist_init = init_dist PROFILE_TYPE_1NN,
      upd = update_mp_1NN, reduce = (\<lambda>fast thresh c. Some (reduce_row_1NN eig c)),
      rows_per_value = False\<rparr>"

definition ops_SUM_THRESH :: "fpu \<Rightarrow> eigen \<Rightarrow> int \<Rightarrow> fp kernel_ops" where
  "ops_SUM_THRESH fpu eig U =
     \<lparr>dist_cast = (\<lambda>x. x), dist_init = init_dist PROFILE_TYPE_SUM_THRESH,
      upd = update_mp_SUM_THRESH fpu,
      reduce = (\<lambda>fast thresh c. Some (reduce_row_SUM_THRESH eig thresh c)),
      rows_per_value = False\<rparr>"

definition ops_MATRIX_SUMMARY :: "fpu \<Rightarrow> eigen \<Rightarrow> int \<Rightarrow> fp kernel_ops" where
  "ops_MATRIX_SUMMARY fpu eig U =
     \<lparr>dist_cast = fcast (rd32 fpu), dist_init = init_dist PROFILE_TYPE_MATRIX_SUMMARY,
      upd = update_mp_MATRIX_SUMMARY fpu, reduce = (\<lambda>fast thresh c. None),
      rows_per_value = True\<rparr>"

subsection \<open>Rows, tiles and dispatch\<close>

text \<open>\<open>update_mp\<close> for the values of \<open>corr\<close> from \<open>local_diag\<close> on, \<open>info.col\<close> advancing with it.\<close>

fun update_values ::
  "'e kernel_ops \<Rightarrow> bool \<Rightarrow> KernelArgs \<Rightarrow> ThreadInfo \<Rightarrow> fp list \<Rightarrow> 'e list \<Rightarrow> 'e list option" where
  "update_values ops rowwise args info [] mp = Some mp"
| "update_values ops rowwise args info (c # cs) mp = do {
     mp' \<leftarrow> upd ops rowwise args info c mp;
     update_values ops rowwise args (info\<lparr>ti_col := ti_col info + 1\<rparr>) cs mp' }"

definition update_columnwise ::
  "'e kernel_ops \<Rightarrow> KernelArgs \<Rightarrow> ThreadInfo \<Rightarrow> fp list \<Rightarrow> 'e list \<Rightarrow> 'e list option" where
  "update_columnwise ops args info c mp =
     update_values ops False args (info\<lparr>ti_col := tile_diag info + ti_row info\<rparr>) c mp"

definition update_rowwise ::
  "'e kernel_ops \<Rightarrow> bool \<Rightarrow> KernelArgs \<Rightarrow> ThreadInfo \<Rightarrow> fp list \<Rightarrow> 'e list \<Rightarrow> 'e list option" where
  "update_rowwise ops fast args info c mp =
     (if rows_per_value ops
      then update_values ops True args (info\<lparr>ti_col := tile_diag info + ti_row info\<rparr>) c mp
      else do {
        (c0, index) \<leftarrow> reduce ops fast (threshold (k_opt args)) c;
        upd ops True args (info\<lparr>ti_col := index + tile_diag info + ti_row info\<rparr>) c0 mp })"

type_synonym 'e kernel_state = "fp list \<times> 'e list \<times> 'e list"

definition handle_row ::
  "fpu \<Rightarrow> 'e kernel_ops \<Rightarrow> bool \<Rightarrow> bool \<Rightarrow> bool \<Rightarrow> KernelArgs \<Rightarrow> ThreadInfo \<Rightarrow> int
   \<Rightarrow> 'e kernel_state \<Rightarrow> 'e kernel_state option" where
  "handle_row fpu ops rows cols fast args info n st = (case st of (cov, A, B) \<Rightarrow> do {
     let k = tile_diag info; let r = ti_row info;
     cv \<leftarrow> aslice cov k n;
     na \<leftarrow> aslice (k_normsa args) (k + r) n;
     dfa \<leftarrow> aslice (k_dfa args) (k + r) n;
     dga \<leftarrow> aslice (k_dga args) (k + r) n;
     nb \<leftarrow> aget (k_normsb args) r;
     let c0 = map2 (\<lambda>x y. dist_cast ops (fmul (rd64 fpu) (fmul (rd64 fpu) x y) nb)) cv na;
     let c1 = (if k_has_nan_input args then map (\<lambda>x. if is_finite x then x else dist_init ops) c0
               else c0);
     A' \<leftarrow> (if cols then update_columnwise ops args info c1 A else Some A);
     B' \<leftarrow> (if rows then update_rowwise ops fast args info c1 B else Some B);
     dgb \<leftarrow> aget (k_dgb args) r;
     dfb \<leftarrow> aget (k_dfb args) r;
     let cv1 = map2 (\<lambda>x d. fadd (rd64 fpu) x (fmul (rd64 fpu) d dgb)) cv dfa;
     let cv2 = map2 (\<lambda>x d. fadd (rd64 fpu) x (fmul (rd64 fpu) d dfb)) cv1 dga;
     cov' \<leftarrow> ablit cov k cv2;
     Some (cov', A', B') })"

definition handle_row_fast ::
  "fpu \<Rightarrow> 'e kernel_ops \<Rightarrow> int \<Rightarrow> bool \<Rightarrow> bool \<Rightarrow> KernelArgs \<Rightarrow> ThreadInfo
   \<Rightarrow> 'e kernel_state \<Rightarrow> 'e kernel_state option" where
  "handle_row_fast fpu ops U rows cols args info = handle_row fpu ops rows cols True args info U"

definition handle_row_slow ::
  "fpu \<Rightarrow> 'e kernel_ops \<Rightarrow> int \<Rightarrow> bool \<Rightarrow> bool \<Rightarrow> KernelArgs \<Rightarrow> ThreadInfo
   \<Rightarrow> 'e kernel_state \<Rightarrow> 'e kernel_state option" where
  "handle_row_slow fpu ops U rows cols args info =
     (let diagmax = min (min (k_n_x args - k_exclusion_upper args + 1) (k_n_x args - ti_row info))
                        (tile_diag info + U)
      in handle_row fpu ops rows cols False args info (diagmax - tile_diag info))"

definition do_tile ::
  "fpu \<Rightarrow> 'e kernel_ops \<Rightarrow> int \<Rightarrow> bool \<Rightarrow> bool \<Rightarrow> KernelArgs
   \<Rightarrow> 'e kernel_state \<Rightarrow> 'e kernel_state option" where
  "do_tile fpu ops U rows cols args st = (let info = ThreadInfo_init args in
     forstep U (k_exclusion_lower args) (num_diags info) (\<lambda>diag st.
       let ri = min (k_n_x args - diag) (k_n_y args);
           full = (if diag + U \<ge> num_diags info then 0
                   else max 0 (min (k_n_x args - diag - U + 1) (k_n_y args)));
           info1 = info\<lparr>tile_diag := diag, row_iters := ri, full_row_iters := full\<rparr>
       in do {
         st1 \<leftarrow> for1 0 full (\<lambda>r. handle_row_fast fpu ops U rows cols args (info1\<lparr>ti_row := r\<rparr>)) st;
         for1 full ri (\<lambda>r. handle_row_slow fpu ops U rows cols args (info1\<lparr>ti_row := r\<rparr>)) st1 }) st)"

definition LaunchDoTile ::
  "fpu \<Rightarrow> 'e kernel_ops \<Rightarrow> int \<Rightarrow> SCAMPPrecisionType \<Rightarrow> bool \<Rightarrow> bool \<Rightarrow> KernelArgs
   \<Rightarrow> 'e kernel_state \<Rightarrow> (SCAMPError_t \<times> 'e kernel_state) option" where
  "LaunchDoTile fpu ops U fp_type computing_rows computing_cols args st =
     (if computing_rows \<or> computing_cols then
        (if fp_type = PRECISION_ULTRA \<or> fp_type = PRECISION_DOUBLE
         then map_option (Pair SCAMP_NO_ERROR)
                (do_tile fpu ops U computing_rows computing_cols args st)
         else Some (SCAMP_FUNCTIONALITY_UNIMPLEMENTED, st))
      else Some (SCAMP_NO_ERROR, st))"

text \<open>
  The dispatch on the profile type. The memory behind the two \<open>void *\<close> profiles has the type it was
  allocated for; a \<open>static_cast\<close> to another type is undefined.
\<close>

definition unrollWid :: int where "unrollWid = 256"

datatype dev_mem = Dev_double "fp list" | Dev_float "fp list" | Dev_entry "mp_entry list" | Dev_match "SCAMPmatch list"

type_synonym dev_state = "fp list \<times> dev_mem \<times> dev_mem"

fun as_double :: "dev_mem \<Rightarrow> fp list option" where
  "as_double (Dev_double xs) = Some xs" | "as_double _ = None"

fun as_float :: "dev_mem \<Rightarrow> fp list option" where
  "as_float (Dev_float xs) = Some xs" | "as_float _ = None"

fun as_entry :: "dev_mem \<Rightarrow> mp_entry list option" where
  "as_entry (Dev_entry xs) = Some xs" | "as_entry _ = None"

definition launch_as ::
  "(dev_mem \<Rightarrow> 'e list option) \<Rightarrow> ('e list \<Rightarrow> dev_mem)
   \<Rightarrow> ('e kernel_state \<Rightarrow> (SCAMPError_t \<times> 'e kernel_state) option)
   \<Rightarrow> dev_state \<Rightarrow> (SCAMPError_t \<times> dev_state) option" where
  "launch_as view mem launch st = (case st of (cov, a, b) \<Rightarrow> do {
     A \<leftarrow> view a; B \<leftarrow> view b;
     (err, cov', A', B') \<leftarrow> launch (cov, A, B);
     Some (err, cov', mem A', mem B') })"

definition compute_cpu_resources_and_launch ::
  "fpu \<Rightarrow> eigen \<Rightarrow> KernelArgs \<Rightarrow> OpInfo \<Rightarrow> bool \<Rightarrow> bool \<Rightarrow> dev_state \<Rightarrow> (SCAMPError_t \<times> dev_state) option" where
  "compute_cpu_resources_and_launch fpu eig args info do_rows do_cols st =
     (if k_exclusion_lower args + k_exclusion_upper args < k_n_x args then
        (case op_profile_type info of
           PROFILE_TYPE_SUM_THRESH \<Rightarrow> launch_as as_double Dev_double
             (LaunchDoTile fpu (ops_SUM_THRESH fpu eig unrollWid) unrollWid (op_fp_type info) do_rows do_cols args) st
         | PROFILE_TYPE_1NN_INDEX \<Rightarrow> launch_as as_entry Dev_entry
             (LaunchDoTile fpu (ops_1NN_INDEX fpu eig unrollWid) unrollWid (op_fp_type info) do_rows do_cols args) st
         | PROFILE_TYPE_1NN \<Rightarrow> launch_as as_float Dev_float
             (LaunchDoTile fpu (ops_1NN fpu eig unrollWid) unrollWid (op_fp_type info) do_rows do_cols args) st
         | PROFILE_TYPE_MATRIX_SUMMARY \<Rightarrow> launch_as as_float Dev_float
             (LaunchDoTile fpu (ops_MATRIX_SUMMARY fpu eig unrollWid) unrollWid (op_fp_type info) do_rows do_cols args) st
         | _ \<Rightarrow> Some (SCAMP_FUNCTIONALITY_UNIMPLEMENTED, st))
      else Some (SCAMP_NO_ERROR, st))"

end
