(* ===== verification/RowReduction.thy ===== *)
theory RowReduction
  imports CpuKernel
begin

text \<open>
  The tournament of \<open>reduce_row_fast\<close> finds a largest value of the row and an index it stands at,
  for every width that is a power of two, whatever ties there are. Eigen's reduction is used through
  its documented contract, stated as a locale; \<open>list_eigen\<close> is an instance of it.
\<close>

subsection \<open>Largest elements\<close>

definition is_largest :: "fp list \<Rightarrow> fp \<Rightarrow> int \<Rightarrow> bool" where
  "is_largest c v k \<longleftrightarrow> 0 \<le> k \<and> k < int (length c) \<and> v = c ! nat k \<and> (\<forall>x \<in> set c. fle x v)"

definition no_nan :: "fp list \<Rightarrow> bool" where
  "no_nan c \<longleftrightarrow> (\<forall>x \<in> set c. \<not> is_nan x)"

lemma no_nan_nth: "no_nan c \<Longrightarrow> i < length c \<Longrightarrow> \<not> is_nan (c ! i)"
  by (auto simp: no_nan_def)

subsection \<open>One pass\<close>

lemma pick_ge_Some [simp]:
  "0 \<le> i \<Longrightarrow> i < int (length c) \<Longrightarrow> 0 \<le> j \<Longrightarrow> j < int (length c) \<Longrightarrow>
   pick_ge c i j x y = Some (if fge (c ! nat i) (c ! nat j) then x else y)"
  by (simp add: pick_ge_def)

text \<open>\<open>halved c ci o\<close>: what a pass with offset \<open>o\<close> leaves at position \<open>j\<close>.\<close>

definition halved :: "fp list \<Rightarrow> int list \<Rightarrow> nat \<Rightarrow> nat \<Rightarrow> fp \<times> int" where
  "halved c ci h j = (if fge (c ! j) (c ! (j + h)) then (c ! j, ci ! j) else (c ! (j + h), ci ! (j + h)))"

definition pass_inv :: "fp list \<Rightarrow> int list \<Rightarrow> int list \<Rightarrow> nat \<Rightarrow> int \<Rightarrow> fp list \<times> int list \<Rightarrow> bool" where
  "pass_inv c ids ci h i st = (case st of (c', ci') \<Rightarrow>
     length c' = length c \<and> length ci' = length ci
     \<and> (\<forall>j < nat i. c' ! j = fst (halved c ids h j) \<and> ci' ! j = snd (halved c ids h j))
     \<and> (\<forall>j \<ge> nat i. j < length c \<longrightarrow> c' ! j = c ! j)
     \<and> (\<forall>j \<ge> nat i. j < length ci \<longrightarrow> ci' ! j = ci ! j))"

lemma pass_inv_0: "pass_inv c ids ci h 0 (c, ci)"
  by (simp add: pass_inv_def)

lemma pass_inv_step:
  assumes "pass_inv c ids ci h i (c', ci')" "0 \<le> i" "nat i < h" "2 * h \<le> length c" "2 * h \<le> length ci"
  shows "pass_inv c ids ci h (i + 1)
    (c'[nat i := fst (halved c ids h (nat i))], ci'[nat i := snd (halved c ids h (nat i))])"
proof -
  have "nat (i + 1) = Suc (nat i)" using assms(2) by simp
  then show ?thesis
    using assms by (auto simp: pass_inv_def nth_list_update less_Suc_eq)
qed

lemma wp_horizontal_reduction:
  assumes "0 < off" "2 * off \<le> int (length c)" "length ci = length c"
  shows "wp (horizontal_reduction off (c, ci)) (pass_inv c ci ci (nat off) off)"
  unfolding horizontal_reduction_def
proof (rule wp_for1 [where I = "pass_inv c ci ci (nat off)"])
  show "pass_inv c ci ci (nat off) 0 (c, ci)" by (rule pass_inv_0)
next
  fix i st assume i: "0 \<le> i" "i < off" and inv: "pass_inv c ci ci (nat off) i st"
  obtain c' ci' where st: "st = (c', ci')" by (cases st)
  have len: "length c' = length c" "length ci' = length ci"
    using inv by (auto simp: pass_inv_def st)
  have n: "nat (i + off) = nat i + nat off" "nat i < nat off" using i by auto
  have "nat i + nat off < length c" using i assms by linarith
  then have old: "c' ! nat i = c ! nat i" "c' ! (nat i + nat off) = c ! (nat i + nat off)"
      "ci' ! nat i = ci ! nat i" "ci' ! (nat i + nat off) = ci ! (nat i + nat off)"
    using inv assms by (auto simp: pass_inv_def st)
  note step = pass_inv_step [OF inv [unfolded st] i(1) n(2), unfolded halved_def]
  show "wp (case st of (c, ci) \<Rightarrow>
        aget ci i \<bind> (\<lambda>p. aget ci (i + off) \<bind> (\<lambda>q. pick_ge c i (i + off) p q \<bind>
        (\<lambda>k. aset ci i k \<bind> (\<lambda>ci'. aget c i \<bind> (\<lambda>x. aget c (i + off) \<bind>
        (\<lambda>y. pick_ge c i (i + off) x y \<bind> (\<lambda>v. aset c i v \<bind> (\<lambda>c'. Some (c', ci'))))))))))
      (pass_inv c ci ci (nat off) (i + 1))"
    using i assms len step by (auto simp: st old n split: if_splits)
qed (use assms in auto)

lemma wp_first_reduction:
  assumes "0 < h" "int (length c) = 2 * h" "length s = length c"
  shows "wp (first_reduction (2 * h) (c, s)) (pass_inv c [0..2 * h - 1] s (nat h) h)"
proof -
  let ?ids = "[0..2 * h - 1]"
  have e: "2 * h div 2 = h" by simp
  show ?thesis
    unfolding first_reduction_def e
  proof (rule wp_for1 [where I = "pass_inv c ?ids s (nat h)"])
    show "pass_inv c ?ids s (nat h) 0 (c, s)" by (rule pass_inv_0)
  next
    fix i st assume i: "0 \<le> i" "i < h" and inv: "pass_inv c ?ids s (nat h) i st"
    obtain c' ci' where st: "st = (c', ci')" by (cases st)
    have len: "length c' = length c" "length ci' = length s"
      using inv by (auto simp: pass_inv_def st)
    have n: "nat (i + h) = nat i + nat h" "nat i < nat h" "2 * nat h \<le> length c" using i assms by auto
    then have "nat i + nat h < length c" by linarith
    then have old: "c' ! nat i = c ! nat i" "c' ! (nat i + nat h) = c ! (nat i + nat h)"
      using inv by (auto simp: pass_inv_def st)
    have ids: "?ids ! nat i = i" "?ids ! (nat i + nat h) = i + h"
      using i by (auto simp: nth_upto)
    note step = pass_inv_step [OF inv [unfolded st] i(1) n(2,3), unfolded halved_def ids]
    show "wp (case st of (c, ci) \<Rightarrow>
          pick_ge c i (i + h) i (i + h) \<bind> (\<lambda>k. aset ci i k \<bind> (\<lambda>ci'. aget c i \<bind>
          (\<lambda>x. aget c (i + h) \<bind> (\<lambda>y. pick_ge c i (i + h) x y \<bind> (\<lambda>v. aset c i v \<bind>
          (\<lambda>c'. Some (c', ci'))))))))
        (pass_inv c ?ids s (nat h) (i + 1))"
      using i assms len step n by (auto simp: st old split: if_splits)
  qed (use assms in auto)
qed

subsection \<open>The tournament\<close>

definition tour :: "fp list \<Rightarrow> nat \<Rightarrow> fp list \<times> int list \<Rightarrow> bool" where
  "tour c m st = (case st of (c', ci') \<Rightarrow>
     length c' = length c \<and> length ci' = length c
     \<and> (\<forall>j < m. 0 \<le> ci' ! j \<and> ci' ! j < int (length c) \<and> c' ! j = c ! nat (ci' ! j))
     \<and> (\<forall>k < length c. \<exists>j < m. fle (c ! k) (c' ! j)))"

lemma tour_pass:
  assumes nn: "no_nan c" and t: "tour c (2 * h) (c1, ci1)" and "2 * h \<le> length c"
    and p: "pass_inv c1 ci1 ci2 h (int h) st" and "length ci2 = length c"
  shows "tour c h st"
proof -
  obtain c' ci' where st: "st = (c', ci')" by (cases st)
  have new: "c' ! j = fst (halved c1 ci1 h j)" "ci' ! j = snd (halved c1 ci1 h j)" if "j < h" for j
    using p that by (auto simp: pass_inv_def st)
  have len: "length c' = length c" "length ci' = length c"
    using p t assms(5) by (auto simp: pass_inv_def tour_def st)
  have v: "0 \<le> ci1 ! j" "ci1 ! j < int (length c)" "c1 ! j = c ! nat (ci1 ! j)" "\<not> is_nan (c1 ! j)"
    if "j < 2 * h" for j
    using t that no_nan_nth [OF nn] by (auto simp: tour_def)
  have a: "0 \<le> ci' ! j \<and> ci' ! j < int (length c) \<and> c' ! j = c ! nat (ci' ! j)" if "j < h" for j
    using new [OF that] v [of j] v [of "j + h"] that by (auto simp: halved_def)
  have up: "fle (c1 ! j) (c' ! j) \<and> fle (c1 ! (j + h)) (c' ! j)" if "j < h" for j
    using new [OF that] v [of j] v [of "j + h"] that by (auto simp: halved_def not_fle flt_imp_fle)
  have b: "\<exists>j < h. fle (c ! k) (c' ! j)" if kl: "k < length c" for k
  proof -
    have "\<forall>k < length c. \<exists>j < 2 * h. fle (c ! k) (c1 ! j)" using t by (simp add: tour_def)
    then obtain j where j: "j < 2 * h" "fle (c ! k) (c1 ! j)" using kl by blast
    show ?thesis
    proof (cases "j < h")
      case True
      then show ?thesis using up [of j] fle_trans [OF j(2)] by blast
    next
      case False
      then obtain j' where "j = j' + h" "j' < h" using j(1) by (metis add.commute le_add_diff_inverse2
            linorder_not_less mult_2 nat_add_left_cancel_less)
      then show ?thesis using up [of j'] fle_trans [OF j(2)] by blast
    qed
  qed
  show ?thesis using a b len by (auto simp: tour_def st)
qed

lemma wp_halving_loop:
  assumes "no_nan c" "tour c (2 ^ n) st" "2 ^ n \<le> length c"
  shows "wp (halving_loop (2 ^ n div 2) st) (tour c 1)"
  using assms(2,3)
proof (induction n arbitrary: st)
  case 0
  then show ?case by (subst halving_loop.simps) simp
next
  case (Suc n)
  obtain c1 ci1 where st: "st = (c1, ci1)" by (cases st)
  have len: "length c1 = length c" "length ci1 = length c"
    using Suc.prems by (auto simp: tour_def st)
  have e: "(2::int) ^ Suc n div 2 = 2 ^ n" by simp
  have nn: "nat (2 ^ n) = 2 ^ n" by (simp add: nat_power_eq)
  have "wp (horizontal_reduction (2 ^ n) (c1, ci1)) (pass_inv c1 ci1 ci1 (nat (2 ^ n)) (2 ^ n))"
    using of_nat_mono [OF Suc.prems(2), where 'a = int] len
    by (intro wp_horizontal_reduction) simp_all
  then have "wp (horizontal_reduction (2 ^ n) st) (tour c (2 ^ n))"
    unfolding st
  proof (rule wp_mono)
    fix t assume "pass_inv c1 ci1 ci1 (nat (2 ^ n)) (2 ^ n) t"
    then have "pass_inv c1 ci1 ci1 (2 ^ n) (int (2 ^ n)) t" by (simp add: nn)
    then show "tour c (2 ^ n) t"
      using tour_pass [OF assms(1), of "2 ^ n" c1 ci1 ci1 t] Suc.prems len by (simp add: st)
  qed
  then have "wp (horizontal_reduction (2 ^ n) st) (\<lambda>t. wp (halving_loop (2 ^ n div 2) t) (tour c 1))"
    by (rule wp_mono) (use Suc in simp)
  then show ?case unfolding e by (subst halving_loop.simps) simp
qed

lemma reduce_row_fast_largest:
  assumes "no_nan c" "length c = 2 ^ Suc n" "length s = length c"
  shows "\<exists>v k. reduce_row_fast_1NN_INDEX (2 ^ Suc n) s c = Some (v, k) \<and> is_largest c v k"
proof -
  let ?U = "2 * 2 ^ n :: int"
  have h: "?U div 4 = 2 ^ n div 2" "nat (2 ^ n) = 2 ^ n" "(2::int) ^ Suc n = ?U"
    by (simp_all add: nat_power_eq)
  have len: "int (length c) = ?U" using assms(2) by simp
  have ids: "[0..?U - 1] ! j = int j" if "j < length c" for j
    using that len by (subst nth_upto) auto
  have t0: "tour c (2 * 2 ^ n) (c, [0..?U - 1])"
  proof -
    have l: "2 * 2 ^ n = length c" "length [0..?U - 1] = length c"
      using assms by (simp_all add: nat_mult_distrib nat_power_eq)
    have "\<exists>j < length c. fle (c ! k) (c ! j)" if "k < length c" for k
      using that no_nan_nth [OF assms(1)] by (intro exI [of _ k]) simp
    then show ?thesis unfolding tour_def by (simp only: l ids prod.case) (auto simp: ids)
  qed
  have "wp (first_reduction ?U (c, s)) (pass_inv c [0..?U - 1] s (nat (2 ^ n)) (2 ^ n))"
    by (rule wp_first_reduction) (use assms in simp_all)
  then have w: "wp (first_reduction ?U (c, s)) (tour c (2 ^ n))"
  proof (rule wp_mono)
    fix t assume "pass_inv c [0..?U - 1] s (nat (2 ^ n)) (2 ^ n) t"
    then have "pass_inv c [0..?U - 1] s (2 ^ n) (int (2 ^ n)) t" by (simp only: h) simp
    then show "tour c (2 ^ n) t"
      by (rule tour_pass [OF assms(1) t0, rotated]) (use assms in simp_all)
  qed
  have "wp (first_reduction ?U (c, s)) (\<lambda>t. wp (halving_loop (?U div 4) t) (tour c 1))"
    using w by (rule wp_mono) (use wp_halving_loop [OF assms(1), of n] assms in \<open>simp add: h\<close>)
  then obtain st1 st where st: "first_reduction ?U (c, s) = Some st1"
      "halving_loop (?U div 4) st1 = Some st" "tour c 1 st"
    by (auto dest!: wp_SomeD)
  obtain c' ci' where s: "st = (c', ci')" by (cases st)
  have len0: "0 < length c'" "0 < length ci'" using st(3) assms by (auto simp: tour_def s)
  have "is_largest c (c' ! 0) (ci' ! 0)"
    using st(3) by (force simp: tour_def s is_largest_def in_set_conv_nth)
  moreover have "reduce_row_fast_1NN_INDEX ?U s c = Some (c' ! 0, ci' ! 0)"
    using len0 by (simp add: reduce_row_fast_1NN_INDEX_def st(1) st(2) [unfolded h s])
  ultimately show ?thesis by (simp only: h) blast
qed

subsection \<open>Eigen's reductions\<close>

text \<open>
  What the kernel relies on: the largest coefficient of a non-empty array without NaN and an index it
  stands at, and, for the theorems in exact arithmetic, the exact sum.
\<close>

definition eigen_max_contract :: "eigen \<Rightarrow> bool" where
  "eigen_max_contract eig \<longleftrightarrow>
     (\<forall>c. c \<noteq> [] \<longrightarrow> no_nan c \<longrightarrow> is_largest c (fst (maxCoeff eig c)) (snd (maxCoeff eig c)))"

definition eigen_sum_contract :: "eigen \<Rightarrow> bool" where
  "eigen_sum_contract eig \<longleftrightarrow> (\<forall>xs. sumCoeffs eig (map Fin xs) = Fin (sum_list xs))"

text \<open>A concrete instance: a left to right scan that keeps the first of equal values.\<close>

fun scan_max :: "int \<Rightarrow> fp \<times> int \<Rightarrow> fp list \<Rightarrow> fp \<times> int" where
  "scan_max i best [] = best"
| "scan_max i best (x # xs) = scan_max (i + 1) (if fgt x (fst best) then (x, i) else best) xs"

definition list_eigen :: eigen where
  "list_eigen =
     \<lparr>maxCoeff = (\<lambda>c. case c of [] \<Rightarrow> (NaN, 0) | x # xs \<Rightarrow> scan_max 1 (x, 0) xs),
      sumCoeffs = (\<lambda>c. foldl (fadd exact) (Fin 0) c)\<rparr>"

lemma scan_max_largest:
  assumes "is_largest p v k" "no_nan (p @ xs)"
  shows "is_largest (p @ xs) (fst (scan_max (int (length p)) (v, k) xs))
                             (snd (scan_max (int (length p)) (v, k) xs))"
  using assms
proof (induction xs arbitrary: p v k)
  case Nil
  then show ?case by simp
next
  case (Cons x xs)
  have nn: "\<not> is_nan x" "\<not> is_nan v"
    using Cons.prems by (auto simp: no_nan_def is_largest_def)
  have "is_largest (p @ [x]) (if fgt x v then x else v) (if fgt x v then int (length p) else k)"
  proof (cases "fgt x v")
    case True
    then show ?thesis
      using Cons.prems(1) nn by (auto simp: is_largest_def intro: fle_trans flt_imp_fle)
  next
    case False
    then have "fle x v" using nn by (simp add: not_flt)
    with False show ?thesis using Cons.prems(1) by (auto simp: is_largest_def nth_append)
  qed
  then show ?case
    using Cons.IH [of "p @ [x]"] Cons.prems(2) by (auto simp: add.commute split: if_splits)
qed

lemma list_eigen_max: "eigen_max_contract list_eigen"
  unfolding eigen_max_contract_def
proof (intro allI impI)
  fix c assume c: "c \<noteq> []" "no_nan c"
  then obtain x xs where xs: "c = [x] @ xs" by (cases c) auto
  have "is_largest [x] x 0" using c xs by (auto simp: is_largest_def no_nan_def)
  then show "is_largest c (fst (maxCoeff list_eigen c)) (snd (maxCoeff list_eigen c))"
    using scan_max_largest [of "[x]" x 0 xs] c(2) by (simp add: list_eigen_def xs)
qed

lemma foldl_fadd_exact: "foldl (fadd exact) (Fin a) (map Fin xs) = Fin (a + sum_list xs)"
  by (induction xs arbitrary: a) (auto simp: algebra_simps)

lemma list_eigen_sum: "eigen_sum_contract list_eigen"
  by (simp add: eigen_sum_contract_def list_eigen_def foldl_fadd_exact)

end
