(* ===== verification/KernelCorrect.thy ===== *)
theory KernelCorrect
  imports RowReduction
begin

text \<open>
  The kernel against its specification. The specification of a tile is the set of cells it must
  look at (\<open>valid\<close>) and the correlation of each (\<open>corr_at\<close>, the recurrence along the diagonal
  written as a recursion). The locale \<open>kernel_profile\<close> is the contract between the loops of
  \<open>do_tile\<close> and a template instance: how one cell, and one reduced row chunk, enters a profile
  element. Its theorem says that the loops feed every valid cell to the profiles exactly once,
  without an access outside an array; it is interpreted for each profile type.
\<close>

subsection \<open>The specification of a tile\<close>

type_synonym cell = "int \<times> int"

definition valid :: "KernelArgs \<Rightarrow> cell set" where
  "valid args = {(r, c). 0 \<le> r \<and> r < k_n_y args \<and> 0 \<le> c \<and> c < k_n_x args
     \<and> k_exclusion_lower args \<le> c - r \<and> c - r \<le> k_n_x args - k_exclusion_upper args}"

primrec cov_at :: "fpu \<Rightarrow> KernelArgs \<Rightarrow> fp list \<Rightarrow> int \<Rightarrow> nat \<Rightarrow> fp" where
  "cov_at fpu args cov d 0 = cov ! nat d"
| "cov_at fpu args cov d (Suc r) =
     fadd (rd64 fpu)
       (fadd (rd64 fpu) (cov_at fpu args cov d r)
         (fmul (rd64 fpu) (k_dfa args ! nat (d + int r)) (k_dgb args ! r)))
       (fmul (rd64 fpu) (k_dga args ! nat (d + int r)) (k_dfb args ! r))"

definition corr_at :: "fpu \<Rightarrow> 'e kernel_ops \<Rightarrow> KernelArgs \<Rightarrow> fp list \<Rightarrow> cell \<Rightarrow> fp" where
  "corr_at fpu ops args cov s = (case s of (r, c) \<Rightarrow>
     let x = dist_cast ops (fmul (rd64 fpu)
               (fmul (rd64 fpu) (cov_at fpu args cov (c - r) (nat r)) (k_normsa args ! nat c))
               (k_normsb args ! nat r))
     in if k_has_nan_input args \<and> \<not> is_finite x then dist_init ops else x)"

text \<open>The arrays are as long as the kernel needs them, and the tile is not empty.\<close>

definition args_ok :: "KernelArgs \<Rightarrow> fp list \<Rightarrow> bool" where
  "args_ok args cov \<longleftrightarrow>
     0 < k_n_x args \<and> 0 < k_n_y args
     \<and> 0 \<le> k_exclusion_lower args \<and> 0 \<le> k_exclusion_upper args
     \<and> k_n_x args \<le> int (length cov)
     \<and> k_n_x args \<le> int (length (k_normsa args)) \<and> k_n_y args \<le> int (length (k_normsb args))
     \<and> k_n_x args \<le> int (length (k_dfa args)) \<and> k_n_y args \<le> int (length (k_dfb args))
     \<and> k_n_x args \<le> int (length (k_dga args)) \<and> k_n_y args \<le> int (length (k_dgb args))"

definition row_chunk :: "int \<Rightarrow> int \<Rightarrow> int \<Rightarrow> cell set" where
  "row_chunk r lo hi = {r} \<times> {lo..<hi}"

lemma finite_valid [simp]: "finite (valid args)"
proof -
  have "valid args \<subseteq> {0..<k_n_y args} \<times> {0..<k_n_x args}" by (auto simp: valid_def)
  then show ?thesis by (rule finite_subset) simp
qed

lemma row_chunk_simps [simp]:
  "(i, j) \<in> row_chunk r lo hi \<longleftrightarrow> i = r \<and> lo \<le> j \<and> j < hi"
  "hi \<le> lo \<Longrightarrow> row_chunk r lo hi = {}"
  "finite (row_chunk r lo hi)"
  by (auto simp: row_chunk_def)

lemma row_chunk_rec: "lo < hi \<Longrightarrow> row_chunk r lo hi = insert (r, lo) (row_chunk r (lo + 1) hi)"
  by (auto simp: row_chunk_def)

subsection \<open>The contract of a template instance\<close>

locale kernel_profile =
  fixes ops :: "'e kernel_ops"
    and U :: int
    and tgt :: "bool \<Rightarrow> KernelArgs \<Rightarrow> cell \<Rightarrow> int"
    and good :: "KernelArgs \<Rightarrow> (cell \<Rightarrow> fp) \<Rightarrow> bool"
    and acc :: "KernelArgs \<Rightarrow> (cell \<Rightarrow> fp) \<Rightarrow> bool \<Rightarrow> 'e \<Rightarrow> cell set \<Rightarrow> 'e \<Rightarrow> bool"
  assumes acc_empty: "acc args v b e {} e"
    and upd_cell: "good args v \<Longrightarrow> (ti_row info, ti_col info) \<in> valid args \<Longrightarrow>
      (ti_row info, ti_col info) \<notin> S \<Longrightarrow> S \<subseteq> valid args \<Longrightarrow> b \<longrightarrow> rows_per_value ops \<Longrightarrow>
      0 \<le> tgt b args (ti_row info, ti_col info) \<Longrightarrow>
      tgt b args (ti_row info, ti_col info) < int (length mp) \<Longrightarrow>
      acc args v b e S (mp ! nat (tgt b args (ti_row info, ti_col info))) \<Longrightarrow>
      \<exists>e'. upd ops b args info (v (ti_row info, ti_col info)) mp =
             Some (mp[nat (tgt b args (ti_row info, ti_col info)) := e'])
        \<and> acc args v b e (insert (ti_row info, ti_col info) S) e'"
    and reduce_chunk: "good args v \<Longrightarrow> \<not> rows_per_value ops \<Longrightarrow> lo < hi \<Longrightarrow>
      row_chunk (ti_row info) lo hi \<subseteq> valid args \<Longrightarrow> S \<subseteq> valid args \<Longrightarrow>
      row_chunk (ti_row info) lo hi \<inter> S = {} \<Longrightarrow> (fast \<longrightarrow> hi - lo = U) \<Longrightarrow>
      ti_row info < int (length mp) \<Longrightarrow> acc args v True e S (mp ! nat (ti_row info)) \<Longrightarrow>
      \<exists>x k e'. reduce ops fast (threshold (k_opt args)) (map (\<lambda>c. v (ti_row info, c)) [lo..hi - 1]) = Some (x, k)
        \<and> upd ops True args (info\<lparr>ti_col := k + lo\<rparr>) x mp = Some (mp[nat (ti_row info) := e'])
        \<and> acc args v True e (S \<union> row_chunk (ti_row info) lo hi) e'"
    and tgt_row: "\<not> rows_per_value ops \<Longrightarrow> tgt True args s = fst s"
begin

text \<open>
  \<open>filled args v b A0 P A\<close>: profile \<open>A\<close> is the initial profile \<open>A0\<close> with the cells of \<open>P\<close>
  accumulated, each in the element it belongs to.
\<close>

definition filled :: "KernelArgs \<Rightarrow> (cell \<Rightarrow> fp) \<Rightarrow> bool \<Rightarrow> 'e list \<Rightarrow> cell set \<Rightarrow> 'e list \<Rightarrow> bool" where
  "filled args v b A0 P A \<longleftrightarrow> length A = length A0
     \<and> (\<forall>i < length A0. acc args v b (A0 ! i) {s \<in> P. tgt b args s = int i} (A ! i))"

lemma filled_empty: "filled args v b A0 {} A0"
  by (simp add: filled_def acc_empty)

lemma filled_nth:
  "filled args v b A0 P A \<Longrightarrow> 0 \<le> i \<Longrightarrow> i < int (length A0) \<Longrightarrow>
   acc args v b (A0 ! nat i) {s \<in> P. tgt b args s = i} (A ! nat i)"
  by (auto simp: filled_def nat_less_iff dest: spec [of _ "nat i"])

lemma filled_step:
  assumes "filled args v b A0 P A" "0 \<le> i" "nat i < length A0"
    and "\<And>s. s \<in> Q \<Longrightarrow> tgt b args s = i"
    and "acc args v b (A0 ! nat i) ({s \<in> P. tgt b args s = i} \<union> Q) e'"
  shows "filled args v b A0 (P \<union> Q) (A[nat i := e'])"
  unfolding filled_def
proof (intro conjI allI impI)
  show "length (A[nat i := e']) = length A0" using assms(1) by (simp add: filled_def)
  fix j assume j: "j < length A0"
  show "acc args v b (A0 ! j) {s \<in> P \<union> Q. tgt b args s = int j} (A[nat i := e'] ! j)"
  proof (cases "int j = i")
    case True
    then have "{s \<in> P \<union> Q. tgt b args s = int j} = {s \<in> P. tgt b args s = i} \<union> Q"
      using assms(4) by auto
    then show ?thesis using assms True j by (auto simp: filled_def)
  next
    case False
    then have "{s \<in> P \<union> Q. tgt b args s = int j} = {s \<in> P. tgt b args s = int j}"
      using assms(4) by auto
    then show ?thesis using assms False j by (auto simp: filled_def)
  qed
qed

lemma update_values_filled:
  assumes "good args v" "filled args v b A0 P A" "P \<subseteq> valid args" "lo \<le> hi"
    and "row_chunk (ti_row info) lo hi \<subseteq> valid args" "row_chunk (ti_row info) lo hi \<inter> P = {}"
    and "\<And>s. s \<in> valid args \<Longrightarrow> 0 \<le> tgt b args s \<and> tgt b args s < int (length A0)"
    and "ti_col info = lo" "b \<longrightarrow> rows_per_value ops"
  shows "wp (update_values ops b args info (map (\<lambda>c. v (ti_row info, c)) [lo..hi - 1]) A)
           (filled args v b A0 (P \<union> row_chunk (ti_row info) lo hi))"
  using assms
proof (induction "nat (hi - lo)" arbitrary: lo P A info)
  case 0
  then show ?case by simp
next
  case (Suc n)
  let ?r = "ti_row info" and ?s = "(ti_row info, lo)"
  have lt: "lo < hi" using Suc.hyps(2) by simp
  have "?s \<in> row_chunk ?r lo hi" using lt by simp
  then have sv: "?s \<in> valid args" "?s \<notin> P" using Suc.prems(5,6) by blast+
  let ?i = "tgt b args ?s"
  have i: "0 \<le> ?i" "?i < int (length A0)" using Suc.prems(7) sv by auto
  have lenA: "length A = length A0" using Suc.prems(2) by (simp add: filled_def)
  have old: "acc args v b (A0 ! nat ?i) {s \<in> P. tgt b args s = ?i} (A ! nat ?i)"
    using filled_nth [OF Suc.prems(2)] i by simp
  have sub: "{s \<in> P. tgt b args s = ?i} \<subseteq> valid args" using Suc.prems(3) by blast
  obtain e' where e': "upd ops b args info (v ?s) A = Some (A[nat ?i := e'])"
      "acc args v b (A0 ! nat ?i) (insert ?s {s \<in> P. tgt b args s = ?i}) e'"
    using upd_cell [OF Suc.prems(1), of info "{s \<in> P. tgt b args s = ?i}" b A "A0 ! nat ?i"]
      Suc.prems(8,9) sv i lenA old sub by auto
  have "filled args v b A0 (P \<union> {?s}) (A[nat ?i := e'])"
    by (rule filled_step [OF Suc.prems(2)]) (use i e' in auto)
  then have f: "filled args v b A0 (insert ?s P) (A[nat ?i := e'])" by simp
  have "wp (update_values ops b args (info\<lparr>ti_col := lo + 1\<rparr>) (map (\<lambda>c. v (?r, c)) [lo + 1..hi - 1]) (A[nat ?i := e']))
      (filled args v b A0 (insert ?s P \<union> row_chunk ?r (lo + 1) hi))"
    using Suc.hyps(1) [of "lo + 1" "insert ?s P" "A[nat ?i := e']" "info\<lparr>ti_col := lo + 1\<rparr>"]
      Suc.hyps(2) Suc.prems f sv lt by (auto simp: row_chunk_rec)
  then show ?case
    using lt e'(1) Suc.prems(8) by (simp add: upto_rec1 row_chunk_rec)
qed

lemma update_columnwise_filled:
  assumes "good args v" "filled args v False A0 P A" "P \<subseteq> valid args" "0 \<le> n"
    and "row_chunk (ti_row info) (tile_diag info + ti_row info) (tile_diag info + ti_row info + n) \<subseteq> valid args"
    and "row_chunk (ti_row info) (tile_diag info + ti_row info) (tile_diag info + ti_row info + n) \<inter> P = {}"
    and "\<And>s. s \<in> valid args \<Longrightarrow> 0 \<le> tgt False args s \<and> tgt False args s < int (length A0)"
  shows "wp (update_columnwise ops args info
             (map (\<lambda>c. v (ti_row info, c)) [tile_diag info + ti_row info..tile_diag info + ti_row info + n - 1]) A)
           (filled args v False A0
             (P \<union> row_chunk (ti_row info) (tile_diag info + ti_row info) (tile_diag info + ti_row info + n)))"
  unfolding update_columnwise_def
  using update_values_filled [OF assms(1-3), of "tile_diag info + ti_row info" "tile_diag info + ti_row info + n"
      "info\<lparr>ti_col := tile_diag info + ti_row info\<rparr>"] assms(4-)
  by simp

lemma update_rowwise_filled:
  assumes "good args v" "filled args v True B0 P B" "P \<subseteq> valid args" "0 < n" "fast \<longrightarrow> n = U"
    and "row_chunk (ti_row info) (tile_diag info + ti_row info) (tile_diag info + ti_row info + n) \<subseteq> valid args"
    and "row_chunk (ti_row info) (tile_diag info + ti_row info) (tile_diag info + ti_row info + n) \<inter> P = {}"
    and "\<And>s. s \<in> valid args \<Longrightarrow> 0 \<le> tgt True args s \<and> tgt True args s < int (length B0)"
  shows "wp (update_rowwise ops fast args info
             (map (\<lambda>c. v (ti_row info, c)) [tile_diag info + ti_row info..tile_diag info + ti_row info + n - 1]) B)
           (filled args v True B0
             (P \<union> row_chunk (ti_row info) (tile_diag info + ti_row info) (tile_diag info + ti_row info + n)))"
proof (cases "rows_per_value ops")
  case True
  then show ?thesis
    unfolding update_rowwise_def
    using update_values_filled [OF assms(1-3), of "tile_diag info + ti_row info" "tile_diag info + ti_row info + n"
        "info\<lparr>ti_col := tile_diag info + ti_row info\<rparr>"] assms(4-)
    by simp
next
  case False
  let ?r = "ti_row info" and ?lo = "tile_diag info + ti_row info"
  let ?Q = "row_chunk ?r ?lo (?lo + n)"
  have "(?r, ?lo) \<in> ?Q" using assms(4) by simp
  then have "(?r, ?lo) \<in> valid args" using assms(6) by blast
  then have r: "0 \<le> ?r" "?r < int (length B0)" using assms(8) tgt_row [OF False] by force+
  have lenB: "length B = length B0" using assms(2) by (simp add: filled_def)
  have "acc args v True (B0 ! nat ?r) {s \<in> P. tgt True args s = ?r} (B ! nat ?r)"
    using filled_nth [OF assms(2)] r by simp
  moreover have "{s \<in> P. tgt True args s = ?r} \<subseteq> valid args" "?Q \<inter> {s \<in> P. tgt True args s = ?r} = {}"
    using assms(3,7) by blast+
  ultimately obtain x k e' where
      x: "reduce ops fast (threshold (k_opt args)) (map (\<lambda>c. v (?r, c)) [?lo..?lo + n - 1]) = Some (x, k)"
      "upd ops True args (info\<lparr>ti_col := k + ?lo\<rparr>) x B = Some (B[nat ?r := e'])"
      "acc args v True (B0 ! nat ?r) ({s \<in> P. tgt True args s = ?r} \<union> ?Q) e'"
    using reduce_chunk [OF assms(1) False, of ?lo "?lo + n" info "{s \<in> P. tgt True args s = ?r}" fast B "B0 ! nat ?r"]
      assms r lenB by auto
  have "filled args v True B0 (P \<union> ?Q) (B[nat ?r := e'])"
    by (rule filled_step [OF assms(2)]) (use r x(3) tgt_row [OF False] in auto)
  then show ?thesis
    using False x(1,2) by (simp add: update_rowwise_def add.assoc)
qed

text \<open>
  The state of the loops: \<open>cov\<close> holds, on the diagonals \<open>[a, hi)\<close>, the covariance of row \<open>r\<close>, and
  the initial one from \<open>b\<close> on; the profiles hold the cells of \<open>P\<close>.
\<close>

definition cov_ok :: "fpu \<Rightarrow> KernelArgs \<Rightarrow> fp list \<Rightarrow> int \<Rightarrow> int \<Rightarrow> int \<Rightarrow> int \<Rightarrow> fp list \<Rightarrow> bool" where
  "cov_ok fpu args cov0 a hi b r cov \<longleftrightarrow> length cov = length cov0
     \<and> (\<forall>d. a \<le> d \<longrightarrow> d < hi \<longrightarrow> cov ! nat d = cov_at fpu args cov0 d (nat r))
     \<and> (\<forall>d. b \<le> d \<longrightarrow> d < k_n_x args \<longrightarrow> cov ! nat d = cov0 ! nat d)"

definition profiles_ok ::
  "KernelArgs \<Rightarrow> (cell \<Rightarrow> fp) \<Rightarrow> bool \<Rightarrow> bool \<Rightarrow> 'e list \<Rightarrow> 'e list \<Rightarrow> cell set \<Rightarrow> 'e list \<Rightarrow> 'e list \<Rightarrow> bool" where
  "profiles_ok args v rows cols A0 B0 P A B \<longleftrightarrow>
     (if cols then filled args v False A0 P A else A = A0)
     \<and> (if rows then filled args v True B0 P B else B = B0)"

text \<open>The targets of the cells of the tile are elements of the profiles.\<close>

definition targets_ok :: "KernelArgs \<Rightarrow> bool \<Rightarrow> bool \<Rightarrow> 'e list \<Rightarrow> 'e list \<Rightarrow> bool" where
  "targets_ok args rows cols A0 B0 \<longleftrightarrow>
     (cols \<longrightarrow> (\<forall>s \<in> valid args. 0 \<le> tgt False args s \<and> tgt False args s < int (length A0)))
     \<and> (rows \<longrightarrow> (\<forall>s \<in> valid args. 0 \<le> tgt True args s \<and> tgt True args s < int (length B0)))"

end

subsection \<open>One row of a tile\<close>

lemma nth_slice: "i < n \<Longrightarrow> k + n \<le> length xs \<Longrightarrow> take n (drop k xs) ! i = xs ! (k + i)"
  by simp

lemma map2_slices:
  assumes "0 \<le> k" "0 \<le> l" "0 \<le> n" "k + n \<le> int (length xs)" "l + n \<le> int (length ys)"
  shows "map2 f (take (nat n) (drop (nat k) xs)) (take (nat n) (drop (nat l) ys)) =
         map (\<lambda>j. f (xs ! nat (k - l + j)) (ys ! nat j)) [l..l + n - 1]"
proof (rule nth_equalityI)
  show "length (map2 f (take (nat n) (drop (nat k) xs)) (take (nat n) (drop (nat l) ys))) =
        length (map (\<lambda>j. f (xs ! nat (k - l + j)) (ys ! nat j)) [l..l + n - 1])"
    using assms by auto
  fix i assume "i < length (map2 f (take (nat n) (drop (nat k) xs)) (take (nat n) (drop (nat l) ys)))"
  then have i: "int i < n" by auto
  then have "nat (k - l + (l + int i)) = nat k + i" "nat (l + int i) = nat l + i" using assms by auto
  then show "map2 f (take (nat n) (drop (nat k) xs)) (take (nat n) (drop (nat l) ys)) ! i =
        map (\<lambda>j. f (xs ! nat (k - l + j)) (ys ! nat j)) [l..l + n - 1] ! i"
    using i assms by (simp add: nth_upto)
qed

lemma splice_nth:
  assumes "length ys = n" "k + n \<le> length xs" "d < length xs"
  shows "(take k xs @ ys @ drop (k + n) xs) ! d =
    (if d < k then xs ! d else if d < k + n then ys ! (d - k) else xs ! d)"
proof (cases "d < k")
  case True then show ?thesis using assms by (simp add: nth_append)
next
  case False
  then have "length (take k xs) = k" using assms by simp
  then have "(take k xs @ ys @ drop (k + n) xs) ! d = (ys @ drop (k + n) xs) ! (d - k)"
    using False by (simp add: nth_append)
  then show ?thesis using False assms by (auto simp: nth_append)
qed

text \<open>The covariances after a row: the two in-place updates of \<open>handle_row\<close>.\<close>

definition next_cov :: "fpu \<Rightarrow> KernelArgs \<Rightarrow> int \<Rightarrow> int \<Rightarrow> int \<Rightarrow> fp list \<Rightarrow> fp list" where
  "next_cov fpu args k r n cov =
     (let cv1 = map2 (\<lambda>x d. fadd (rd64 fpu) x (fmul (rd64 fpu) d (k_dgb args ! nat r)))
                  (take (nat n) (drop (nat k) cov)) (take (nat n) (drop (nat (k + r)) (k_dfa args)));
          cv2 = map2 (\<lambda>x d. fadd (rd64 fpu) x (fmul (rd64 fpu) d (k_dfb args ! nat r)))
                  cv1 (take (nat n) (drop (nat (k + r)) (k_dga args)))
      in take (nat k) cov @ cv2 @ drop (nat k + nat n) cov)"

lemma next_cov_nth:
  assumes "0 \<le> k" "0 \<le> r" "0 \<le> n" "k + n \<le> int (length cov)" "0 \<le> d" "d < int (length cov)"
    and "k + r + n \<le> int (length (k_dfa args))" "k + r + n \<le> int (length (k_dga args))"
  shows "length (next_cov fpu args k r n cov) = length cov"
    and "next_cov fpu args k r n cov ! nat d =
      (if k \<le> d \<and> d < k + n then
         fadd (rd64 fpu)
           (fadd (rd64 fpu) (cov ! nat d)
             (fmul (rd64 fpu) (k_dfa args ! nat (d + r)) (k_dgb args ! nat r)))
           (fmul (rd64 fpu) (k_dga args ! nat (d + r)) (k_dfb args ! nat r))
       else cov ! nat d)"
proof -
  define a where "a = take (nat n) (drop (nat k) cov)"
  define b where "b = take (nat n) (drop (nat (k + r)) (k_dfa args))"
  define c where "c = take (nat n) (drop (nat (k + r)) (k_dga args))"
  define g where "g = k_dgb args ! nat r"
  define h where "h = k_dfb args ! nat r"
  define ys where "ys = map2 (\<lambda>x d. fadd (rd64 fpu) x (fmul (rd64 fpu) d h))
    (map2 (\<lambda>x d. fadd (rd64 fpu) x (fmul (rd64 fpu) d g)) a b) c"
  have len: "length a = nat n" "length b = nat n" "length c = nat n"
    unfolding a_def b_def c_def using assms by simp_all
  then have ly: "length ys = nat n" by (simp add: ys_def)
  have eq: "next_cov fpu args k r n cov = take (nat k) cov @ ys @ drop (nat k + nat n) cov"
    by (simp add: next_cov_def Let_def ys_def a_def b_def c_def g_def h_def)
  have kn: "nat k + nat n \<le> length cov" using assms by simp
  show "length (next_cov fpu args k r n cov) = length cov"
    unfolding eq using ly kn by simp
  have e: "next_cov fpu args k r n cov ! nat d =
      (if nat d < nat k then cov ! nat d else if nat d < nat k + nat n then ys ! (nat d - nat k) else cov ! nat d)"
    unfolding eq by (rule splice_nth [OF ly kn]) (use assms in simp)
  have y: "ys ! (nat d - nat k) = fadd (rd64 fpu)
           (fadd (rd64 fpu) (cov ! nat d)
             (fmul (rd64 fpu) (k_dfa args ! nat (d + r)) (k_dgb args ! nat r)))
           (fmul (rd64 fpu) (k_dga args ! nat (d + r)) (k_dfb args ! nat r))"
    if "k \<le> d" "d < k + n"
  proof -
    have i: "nat d - nat k < nat n" "nat k + (nat d - nat k) = nat d"
        "nat (k + r) + (nat d - nat k) = nat (d + r)"
      using assms(1-3,5) that by linarith+
    have m: "nat (k + r) + nat n \<le> length (k_dfa args)" "nat (k + r) + nat n \<le> length (k_dga args)"
      using assms by linarith+
    have "a ! (nat d - nat k) = cov ! nat d" "b ! (nat d - nat k) = k_dfa args ! nat (d + r)"
        "c ! (nat d - nat k) = k_dga args ! nat (d + r)"
      unfolding a_def b_def c_def using i(2,3) kn m
        nth_slice [OF i(1), of "nat k" cov] nth_slice [OF i(1), of "nat (k + r)" "k_dfa args"]
        nth_slice [OF i(1), of "nat (k + r)" "k_dga args"] by presburger+
    then show ?thesis using i(1) len by (simp add: ys_def g_def h_def)
  qed
  show "next_cov fpu args k r n cov ! nat d =
      (if k \<le> d \<and> d < k + n then
         fadd (rd64 fpu)
           (fadd (rd64 fpu) (cov ! nat d)
             (fmul (rd64 fpu) (k_dfa args ! nat (d + r)) (k_dgb args ! nat r)))
           (fmul (rd64 fpu) (k_dga args ! nat (d + r)) (k_dfb args ! nat r))
       else cov ! nat d)"
  proof (cases "k \<le> d \<and> d < k + n")
    case True
    then have "\<not> nat d < nat k" "nat d < nat k + nat n" using assms(1-3) by linarith+
    then show ?thesis using e y True by simp
  next
    case False
    then have "nat d < nat k \<or> \<not> nat d < nat k + nat n" using assms(1-3,5) by linarith
    then show ?thesis using e False by auto
  qed
qed

lemma ablit_Some [simp]:
  "0 \<le> k \<Longrightarrow> k + int (length ys) \<le> int (length xs) \<Longrightarrow>
   ablit xs k ys = Some (take (nat k) xs @ ys @ drop (nat k + length ys) xs)"
  by (simp add: ablit_def)

text \<open>The correlations of a chunk, as \<open>handle_row\<close> computes them from the covariances.\<close>

lemma chunk_values:
  assumes "0 \<le> k" "0 \<le> r" "0 \<le> n" "k + n \<le> int (length cov)" "k + r + n \<le> int (length (k_normsa args))"
    and c: "\<And>d. k \<le> d \<Longrightarrow> d < k + n \<Longrightarrow> cov ! nat d = cov_at fpu args cov0 d (nat r)"
  shows "(let c0 = map2 (\<lambda>x y. dist_cast ops (fmul (rd64 fpu) (fmul (rd64 fpu) x y) (k_normsb args ! nat r)))
              (take (nat n) (drop (nat k) cov)) (take (nat n) (drop (nat (k + r)) (k_normsa args)))
          in if k_has_nan_input args then map (\<lambda>x. if is_finite x then x else dist_init ops) c0 else c0)
    = map (\<lambda>c. corr_at fpu ops args cov0 (r, c)) [k + r..k + r + n - 1]"
proof -
  have m: "map2 f (take (nat n) (drop (nat k) cov)) (take (nat n) (drop (nat (k + r)) (k_normsa args))) =
      map (\<lambda>j. f (cov_at fpu args cov0 (j - r) (nat r)) (k_normsa args ! nat j)) [k + r..k + r + n - 1]"
    for f :: "fp \<Rightarrow> fp \<Rightarrow> fp"
  proof -
    have "map2 f (take (nat n) (drop (nat k) cov)) (take (nat n) (drop (nat (k + r)) (k_normsa args))) =
        map (\<lambda>j. f (cov ! nat (k - (k + r) + j)) (k_normsa args ! nat j)) [k + r..k + r + n - 1]"
      by (rule map2_slices) (use assms in auto)
    also have "\<dots> = map (\<lambda>j. f (cov_at fpu args cov0 (j - r) (nat r)) (k_normsa args ! nat j)) [k + r..k + r + n - 1]"
    proof (rule map_cong [OF refl])
      fix j assume "j \<in> set [k + r..k + r + n - 1]"
      then have "cov ! nat (j - r) = cov_at fpu args cov0 (j - r) (nat r)" by (intro c) auto
      moreover have "k - (k + r) + j = j - r" by simp
      ultimately show "f (cov ! nat (k - (k + r) + j)) (k_normsa args ! nat j) =
          f (cov_at fpu args cov0 (j - r) (nat r)) (k_normsa args ! nat j)" by metis
    qed
    finally show ?thesis .
  qed
  show ?thesis unfolding m by (simp add: Let_def corr_at_def)
qed

context kernel_profile
begin

lemma handle_row_step:
  assumes args: "args_ok args cov0" and good: "good args (corr_at fpu ops args cov0)"
    and info: "tile_diag info = k" "ti_row info = r"
    and r: "0 \<le> r" "r < k_n_y args" and n: "0 < n" "k + r + n \<le> k_n_x args"
    and k: "k_exclusion_lower args \<le> k" "k + n \<le> k_n_x args - k_exclusion_upper args + 1"
    and cov: "length cov = length cov0"
      "\<And>d. k \<le> d \<Longrightarrow> d < k + n \<Longrightarrow> cov ! nat d = cov_at fpu args cov0 d (nat r)"
    and prof: "profiles_ok args (corr_at fpu ops args cov0) rows cols A0 B0 P A B"
    and P: "P \<subseteq> valid args" "row_chunk r (k + r) (k + r + n) \<inter> P = {}"
    and tgt: "targets_ok args rows cols A0 B0" and fast: "fast \<longrightarrow> n = U"
  shows "wp (handle_row fpu ops rows cols fast args info n (cov, A, B))
    (\<lambda>(cov', A', B'). cov' = next_cov fpu args k r n cov
       \<and> profiles_ok args (corr_at fpu ops args cov0) rows cols A0 B0
            (P \<union> row_chunk r (k + r) (k + r + n)) A' B')"
proof -
  let ?v = "corr_at fpu ops args cov0"
  let ?c1 = "map (\<lambda>c. ?v (r, c)) [k + r..k + r + n - 1]"
  let ?Q = "row_chunk r (k + r) (k + r + n)"
  have k0: "0 \<le> k" using args k by (simp add: args_ok_def)
  have lens: "k + n \<le> int (length cov)" "k + r + n \<le> int (length (k_normsa args))"
      "k + r + n \<le> int (length (k_dfa args))" "k + r + n \<le> int (length (k_dga args))"
      "r < int (length (k_normsb args))" "r < int (length (k_dgb args))" "r < int (length (k_dfb args))"
    using args n r cov(1) by (auto simp: args_ok_def)
  have Qv: "?Q \<subseteq> valid args"
    using r n k k0 by (auto simp: valid_def row_chunk_def)
  have A': "wp (if cols then update_columnwise ops args info ?c1 A else Some A)
      (\<lambda>A'. if cols then filled args ?v False A0 (P \<union> ?Q) A' else A' = A0)"
    using prof update_columnwise_filled [OF good, of A0 P A n info] P n info tgt Qv
    by (auto simp: profiles_ok_def targets_ok_def)
  have B': "wp (if rows then update_rowwise ops fast args info ?c1 B else Some B)
      (\<lambda>B'. if rows then filled args ?v True B0 (P \<union> ?Q) B' else B' = B0)"
    using prof update_rowwise_filled [OF good, of B0 P B n fast info] P n info tgt Qv fast
    by (auto simp: profiles_ok_def targets_ok_def)
  have "length (map2 (\<lambda>x d. fadd (rd64 fpu) x (fmul (rd64 fpu) d (k_dfb args ! nat r)))
          (map2 (\<lambda>x d. fadd (rd64 fpu) x (fmul (rd64 fpu) d (k_dgb args ! nat r)))
            (take (nat n) (drop (nat k) cov)) (take (nat n) (drop (nat (k + r)) (k_dfa args))))
          (take (nat n) (drop (nat (k + r)) (k_dga args)))) = nat n" (is "length ?ys = nat n")
    using lens k0 r n by simp
  moreover have "k + int (nat n) \<le> int (length cov)" using lens n by simp
  ultimately have "ablit cov k ?ys = Some (take (nat k) cov @ ?ys @ drop (nat k + nat n) cov)"
    using k0 by (simp only: ablit_def simp_thms if_True)
  then have ab: "ablit cov k (map2 (\<lambda>x d. fadd (rd64 fpu) x (fmul (rd64 fpu) d (k_dfb args ! nat r)))
          (map2 (\<lambda>x d. fadd (rd64 fpu) x (fmul (rd64 fpu) d (k_dgb args ! nat r)))
            (take (nat n) (drop (nat k) cov)) (take (nat n) (drop (nat (k + r)) (k_dfa args))))
          (take (nat n) (drop (nat (k + r)) (k_dga args)))) = Some (next_cov fpu args k r n cov)"
    by (simp only: next_cov_def Let_def)
  obtain A1 where A1: "(if cols then update_columnwise ops args info ?c1 A else Some A) = Some A1"
      "if cols then filled args ?v False A0 (P \<union> ?Q) A1 else A1 = A0"
    using wp_SomeD [OF A'] by blast
  obtain B1 where B1: "(if rows then update_rowwise ops fast args info ?c1 B else Some B) = Some B1"
      "if rows then filled args ?v True B0 (P \<union> ?Q) B1 else B1 = B0"
    using wp_SomeD [OF B'] by blast
  have sl: "aslice cov k n = Some (take (nat n) (drop (nat k) cov))"
    "aslice (k_normsa args) (k + r) n = Some (take (nat n) (drop (nat (k + r)) (k_normsa args)))"
    "aslice (k_dfa args) (k + r) n = Some (take (nat n) (drop (nat (k + r)) (k_dfa args)))"
    "aslice (k_dga args) (k + r) n = Some (take (nat n) (drop (nat (k + r)) (k_dga args)))"
    "aget (k_normsb args) r = Some (k_normsb args ! nat r)"
    "aget (k_dgb args) r = Some (k_dgb args ! nat r)" "aget (k_dfb args) r = Some (k_dfb args ! nat r)"
    using lens k0 r n by (auto intro!: aslice_Some aget_Some)
  have cv: "(let c0 = map2 (\<lambda>x y. dist_cast ops (fmul (rd64 fpu) (fmul (rd64 fpu) x y) (k_normsb args ! nat r)))
              (take (nat n) (drop (nat k) cov)) (take (nat n) (drop (nat (k + r)) (k_normsa args)))
          in if k_has_nan_input args then map (\<lambda>x. if is_finite x then x else dist_init ops) c0 else c0) = ?c1"
    by (rule chunk_values) (use k0 r n lens cov in auto)
  have "handle_row fpu ops rows cols fast args info n (cov, A, B) = Some (next_cov fpu args k r n cov, A1, B1)"
    unfolding handle_row_def info prod.case Let_def sl Option.bind.bind_lunit
      cv [unfolded Let_def]
      A1(1) B1(1) ab ..
  then show ?thesis using A1(2) B1(2) by (simp add: profiles_ok_def)
qed

end

text \<open>The cells of the rows below \<open>r\<close> on the diagonals \<open>[a, b)\<close>, and those of all diagonals below \<open>a\<close>.\<close>

definition chunk_cells :: "KernelArgs \<Rightarrow> int \<Rightarrow> int \<Rightarrow> int \<Rightarrow> cell set" where
  "chunk_cells args a b r = {s \<in> valid args. a \<le> snd s - fst s \<and> snd s - fst s < b \<and> fst s < r}"

definition diag_cells :: "KernelArgs \<Rightarrow> int \<Rightarrow> cell set" where
  "diag_cells args a = {s \<in> valid args. snd s - fst s < a}"

lemma diag_cells_bounds:
  "a \<le> k_exclusion_lower args \<Longrightarrow> diag_cells args a = {}"
  "k_n_x args - k_exclusion_upper args + 1 \<le> a \<Longrightarrow> diag_cells args a = valid args"
  by (auto simp: diag_cells_def valid_def)

lemma chunk_cells_row:
  assumes "k_exclusion_lower args \<le> a" "0 \<le> a" "a < b" "b \<le> k_n_x args - k_exclusion_upper args + 1"
    and "0 \<le> r" "r < k_n_y args" "n = min b (k_n_x args - r) - a"
  shows "chunk_cells args a b (r + 1) = chunk_cells args a b r \<union> row_chunk r (a + r) (a + r + n)"
  using assms by (auto simp: chunk_cells_def valid_def row_chunk_def)

lemma chunk_cells_full:
  assumes "min (k_n_x args - a) (k_n_y args) \<le> r"
    and "k_n_x args - k_exclusion_upper args + 1 \<le> b \<or> b = c"
    and "b \<le> c"
  shows "diag_cells args a \<union> chunk_cells args a b r = diag_cells args (if a \<le> c then c else a)"
  using assms by (auto simp: diag_cells_def chunk_cells_def valid_def)

context kernel_profile
begin

text \<open>The state before row \<open>r\<close> of the chunk of diagonals \<open>[a, b)\<close>.\<close>

definition row_inv ::
  "fpu \<Rightarrow> KernelArgs \<Rightarrow> bool \<Rightarrow> bool \<Rightarrow> fp list \<Rightarrow> 'e list \<Rightarrow> 'e list \<Rightarrow> int \<Rightarrow> int \<Rightarrow> int
   \<Rightarrow> 'e kernel_state \<Rightarrow> bool" where
  "row_inv fpu args rows cols cov0 A0 B0 a b r st \<longleftrightarrow> (case st of (cov, A, B) \<Rightarrow>
     cov_ok fpu args cov0 a (min b (k_n_x args - r)) b r cov
     \<and> profiles_ok args (corr_at fpu ops args cov0) rows cols A0 B0
          (diag_cells args a \<union> chunk_cells args a b r) A B)"

lemma row_inv_step:
  assumes args: "args_ok args cov0" and good: "good args (corr_at fpu ops args cov0)"
    and tgt: "targets_ok args rows cols A0 B0"
    and a: "k_exclusion_lower args \<le> a" "a < b" "b \<le> k_n_x args - k_exclusion_upper args + 1"
    and r: "0 \<le> r" "r < min (k_n_x args - a) (k_n_y args)"
    and n: "n = min b (k_n_x args - r) - a" and fast: "fast \<longrightarrow> n = U"
    and info: "tile_diag info = a" "ti_row info = r"
    and inv: "row_inv fpu args rows cols cov0 A0 B0 a b r st"
  shows "wp (handle_row fpu ops rows cols fast args info n st)
           (row_inv fpu args rows cols cov0 A0 B0 a b (r + 1))"
proof -
  obtain cov A B where st: "st = (cov, A, B)" by (cases st) auto
  have a0: "0 \<le> a" using args a by (simp add: args_ok_def)
  have cok: "length cov = length cov0" "\<And>d. a \<le> d \<Longrightarrow> d < a + n \<Longrightarrow> cov ! nat d = cov_at fpu args cov0 d (nat r)"
      "\<And>d. b \<le> d \<Longrightarrow> d < k_n_x args \<Longrightarrow> cov ! nat d = cov0 ! nat d"
    using inv n by (auto simp: row_inv_def st cov_ok_def)
  let ?P = "diag_cells args a \<union> chunk_cells args a b r"
  have n0: "0 < n" "a + r + n \<le> k_n_x args" using n r a by auto
  have nb: "a + n \<le> b" using n by simp
  have row: "?P \<union> row_chunk r (a + r) (a + r + n) = diag_cells args a \<union> chunk_cells args a b (r + 1)"
    using chunk_cells_row [OF a(1) a0 a(2,3) r(1) _ n] r by auto
  have "wp (handle_row fpu ops rows cols fast args info n (cov, A, B))
    (\<lambda>(cov', A', B'). cov' = next_cov fpu args a r n cov
       \<and> profiles_ok args (corr_at fpu ops args cov0) rows cols A0 B0
            (?P \<union> row_chunk r (a + r) (a + r + n)) A' B')"
  proof (rule handle_row_step [OF args good info r(1) _ n0 a(1) _ cok(1,2) _ _ _ tgt fast])
    show "r < k_n_y args" using r by simp
    show "a + n \<le> k_n_x args - k_exclusion_upper args + 1" using nb a(3) by simp
    show "profiles_ok args (corr_at fpu ops args cov0) rows cols A0 B0 ?P A B"
      using inv by (simp add: row_inv_def st)
    show "?P \<subseteq> valid args" by (auto simp: diag_cells_def chunk_cells_def)
    show "row_chunk r (a + r) (a + r + n) \<inter> ?P = {}"
      by (auto simp: diag_cells_def chunk_cells_def)
  qed
  then have hr: "wp (handle_row fpu ops rows cols fast args info n (cov, A, B))
    (\<lambda>(cov', A', B'). cov' = next_cov fpu args a r n cov
       \<and> profiles_ok args (corr_at fpu ops args cov0) rows cols A0 B0
            (diag_cells args a \<union> chunk_cells args a b (r + 1)) A' B')"
    unfolding row .
  have "cov_ok fpu args cov0 a (min b (k_n_x args - (r + 1))) b (r + 1) (next_cov fpu args a r n cov)"
  proof -
    have l: "a + n \<le> int (length cov)" "a + r + n \<le> int (length (k_dfa args))"
        "a + r + n \<le> int (length (k_dga args))" "k_n_x args \<le> int (length cov)"
      using args n0 r a0 cok(1) by (auto simp: args_ok_def)
    note nth = next_cov_nth [OF a0 r(1) less_imp_le [OF n0(1)] l(1) _ _ l(2,3), of _ fpu]
    have "next_cov fpu args a r n cov ! nat d = cov_at fpu args cov0 d (nat (r + 1))"
      if d: "a \<le> d" "d < min b (k_n_x args - (r + 1))" for d
    proof -
      have dn: "d < a + n" using d n by auto
      have "nat (r + 1) = Suc (nat r)" "int (nat r) = r" using r(1) by auto
      then show ?thesis
        using nth(2) [of d] d dn a0 l(4) r(1) cok(2) [of d] by simp
    qed
    moreover have "next_cov fpu args a r n cov ! nat d = cov0 ! nat d"
      if d: "b \<le> d" "d < k_n_x args" for d
      using nth(2) [of d] d nb a(2) a0 l(4) cok(3) [of d] by simp
    moreover have "length (next_cov fpu args a r n cov) = length cov0"
      using nth(1) [of 0] a0 l n0 cok(1) by (cases "cov0 = []") auto
    ultimately show ?thesis by (simp add: cov_ok_def)
  qed
  then show ?thesis
    unfolding st by (auto simp: row_inv_def intro!: wp_mono [OF hr])
qed

text \<open>A chunk of diagonals, then the tile.\<close>

definition tile_inv ::
  "fpu \<Rightarrow> KernelArgs \<Rightarrow> bool \<Rightarrow> bool \<Rightarrow> fp list \<Rightarrow> 'e list \<Rightarrow> 'e list \<Rightarrow> int \<Rightarrow> 'e kernel_state \<Rightarrow> bool" where
  "tile_inv fpu args rows cols cov0 A0 B0 a st \<longleftrightarrow> (case st of (cov, A, B) \<Rightarrow>
     length cov = length cov0
     \<and> (\<forall>d. a \<le> d \<longrightarrow> d < k_n_x args \<longrightarrow> cov ! nat d = cov0 ! nat d)
     \<and> profiles_ok args (corr_at fpu ops args cov0) rows cols A0 B0 (diag_cells args a) A B)"

lemma tile_chunk:
  fixes fpu rows cols and args :: KernelArgs
  defines "nd \<equiv> k_n_x args - k_exclusion_upper args + 1"
  assumes args: "args_ok args cov0" and good: "good args (corr_at fpu ops args cov0)"
    and tgt: "targets_ok args rows cols A0 B0" and U: "0 < U"
    and a: "k_exclusion_lower args \<le> a" "a < nd"
    and ri: "ri = min (k_n_x args - a) (k_n_y args)"
    and full: "full = (if a + U \<ge> nd then 0 else max 0 (min (k_n_x args - a - U + 1) (k_n_y args)))"
    and info: "tile_diag info = a"
    and inv: "tile_inv fpu args rows cols cov0 A0 B0 a st"
  shows "wp (for1 0 full (\<lambda>r. handle_row_fast fpu ops U rows cols args (info\<lparr>ti_row := r\<rparr>)) st)
    (\<lambda>st1. wp (for1 full ri (\<lambda>r. handle_row_slow fpu ops U rows cols args (info\<lparr>ti_row := r\<rparr>)) st1)
      (tile_inv fpu args rows cols cov0 A0 B0 (a + U)))"
proof -
  define b where "b = min (a + U) nd"
  let ?I = "row_inv fpu args rows cols cov0 A0 B0 a b"
  have b: "a < b" "b \<le> k_n_x args - k_exclusion_upper args + 1" "b \<le> a + U" "nd \<le> b \<or> b = a + U"
    using a U by (auto simp: b_def nd_def)
  have a0: "0 \<le> a" "0 < k_n_y args" "a \<le> k_n_x args" using args a by (auto simp: args_ok_def nd_def)
  have full0: "0 \<le> full" by (auto simp: full)
  have fr: "full \<le> ri" using a0 U by (auto simp: full ri)
  have "chunk_cells args a b 0 = {}" by (auto simp: chunk_cells_def valid_def)
  then have "?I 0 st"
    using inv b(1) by (auto simp: row_inv_def tile_inv_def cov_ok_def)
  show ?thesis
  proof (rule wp_for1 [where I = ?I])
    show "?I 0 st" by fact
    show "0 \<le> full" by fact
  next
    fix r st assume r: "0 \<le> r" "r < full" and I: "?I r st"
    have rw: "U = min b (k_n_x args - r) - a" "r < min (k_n_x args - a) (k_n_y args)"
      using r a0 U by (auto simp: full b_def split: if_splits)
    show "wp (handle_row_fast fpu ops U rows cols args (info\<lparr>ti_row := r\<rparr>) st) (?I (r + 1))"
      unfolding handle_row_fast_def
      by (rule row_inv_step [OF args good tgt a(1) b(1,2) r(1) rw(2,1) _ _ _ I]) (use info in auto)
  next
    fix st1 assume I1: "?I full st1"
    show "wp (for1 full ri (\<lambda>r. handle_row_slow fpu ops U rows cols args (info\<lparr>ti_row := r\<rparr>)) st1)
      (tile_inv fpu args rows cols cov0 A0 B0 (a + U))"
    proof (rule wp_for1 [where I = ?I])
      show "?I full st1" by fact
      show "full \<le> ri" by fact
    next
      fix r st assume r: "full \<le> r" "r < ri" and I: "?I r st"
      have "min (min (k_n_x args - k_exclusion_upper args + 1) (k_n_x args - r)) (a + U) - a
          = min b (k_n_x args - r) - a"
        by (auto simp: b_def nd_def)
      then show "wp (handle_row_slow fpu ops U rows cols args (info\<lparr>ti_row := r\<rparr>) st) (?I (r + 1))"
        unfolding handle_row_slow_def
        using row_inv_step [OF args good tgt a(1) b(1,2) _ _ refl _ _ _ I, of False "info\<lparr>ti_row := r\<rparr>"]
          r full0 ri info by (simp add: Let_def)
    next
      fix st assume "?I ri st"
      moreover have "diag_cells args a \<union> chunk_cells args a b ri = diag_cells args (a + U)"
        using chunk_cells_full [of args a ri b "a + U"] b ri U by (simp add: nd_def)
      ultimately show "tile_inv fpu args rows cols cov0 A0 B0 (a + U) st"
        using b(3) by (auto simp: row_inv_def tile_inv_def cov_ok_def)
    qed
  qed
qed

text \<open>
  The kernel's theorem: no access is out of range, and every valid cell has entered the profiles,
  once, with its correlation.
\<close>

theorem do_tile_correct:
  assumes "args_ok args cov0" "good args (corr_at fpu ops args cov0)"
    and "targets_ok args rows cols A0 B0" "0 < U"
  shows "wp (do_tile fpu ops U rows cols args (cov0, A0, B0))
    (\<lambda>(cov, A, B). profiles_ok args (corr_at fpu ops args cov0) rows cols A0 B0 (valid args) A B)"
  unfolding do_tile_def Let_def
proof (rule wp_forstep [where I = "tile_inv fpu args rows cols cov0 A0 B0", OF assms(4)])
  show "tile_inv fpu args rows cols cov0 A0 B0 (k_exclusion_lower args) (cov0, A0, B0)"
    by (simp add: tile_inv_def diag_cells_bounds profiles_ok_def filled_empty)
next
  fix a st
  assume a: "k_exclusion_lower args \<le> a" "a < num_diags (ThreadInfo_init args)"
    and I: "tile_inv fpu args rows cols cov0 A0 B0 a st"
  have nd: "num_diags (ThreadInfo_init args) = k_n_x args - k_exclusion_upper args + 1"
    by (simp add: ThreadInfo_init_def)
  show "wp (for1 0 (if num_diags (ThreadInfo_init args) \<le> a + U then 0
                    else max 0 (min (k_n_x args - a - U + 1) (k_n_y args)))
               (\<lambda>r. handle_row_fast fpu ops U rows cols args
                 (ThreadInfo_init args\<lparr>tile_diag := a, row_iters := min (k_n_x args - a) (k_n_y args),
                    full_row_iters := if num_diags (ThreadInfo_init args) \<le> a + U then 0
                      else max 0 (min (k_n_x args - a - U + 1) (k_n_y args)), ti_row := r\<rparr>)) st \<bind>
             for1 (if num_diags (ThreadInfo_init args) \<le> a + U then 0
                    else max 0 (min (k_n_x args - a - U + 1) (k_n_y args)))
               (min (k_n_x args - a) (k_n_y args))
               (\<lambda>r. handle_row_slow fpu ops U rows cols args
                 (ThreadInfo_init args\<lparr>tile_diag := a, row_iters := min (k_n_x args - a) (k_n_y args),
                    full_row_iters := if num_diags (ThreadInfo_init args) \<le> a + U then 0
                      else max 0 (min (k_n_x args - a - U + 1) (k_n_y args)), ti_row := r\<rparr>)))
            (tile_inv fpu args rows cols cov0 A0 B0 (a + U))"
    unfolding wp_bind_iff nd
    by (rule tile_chunk [OF assms a(1) _ refl refl _ I]) (use a(2) nd in simp_all)
next
  fix a st
  assume "num_diags (ThreadInfo_init args) \<le> a" "tile_inv fpu args rows cols cov0 A0 B0 a st"
  then show "case st of (cov, A, B) \<Rightarrow>
      profiles_ok args (corr_at fpu ops args cov0) rows cols A0 B0 (valid args) A B"
    using diag_cells_bounds(2) [of args a] by (auto simp: tile_inv_def ThreadInfo_init_def)
qed

end

end
