(* ===== verification/KernelProfiles.thy ===== *)
theory KernelProfiles
  imports KernelCorrect
begin

text \<open>
  The contract \<open>kernel_profile\<close> discharged for the four profile types of the CPU kernel: what an
  element of the profile holds after a set of cells has been accumulated into it.
\<close>

subsection \<open>What an element holds\<close>

definition cell_index :: "bool \<Rightarrow> cell \<Rightarrow> int" where
  "cell_index b s = (if b then fst s else snd s)"

definition cell_match :: "bool \<Rightarrow> cell \<Rightarrow> int" where
  "cell_match b s = (if b then snd s else fst s)"

text \<open>
  \<open>1NN_INDEX\<close>: the entry keeps its value, or holds a largest correlation of the cells together with
  the position of its match.
\<close>

definition best_entry :: "(cell \<Rightarrow> fp) \<Rightarrow> bool \<Rightarrow> mp_entry \<Rightarrow> cell set \<Rightarrow> mp_entry \<Rightarrow> bool" where
  "best_entry v b e S e' \<longleftrightarrow>
     (e' = e \<and> (\<forall>s \<in> S. \<not> fgt (v s) (floats0 e)))
     \<or> (\<exists>s \<in> S. e' = e\<lparr>floats0 := v s, ints1 := word_of_int (cell_match b s)\<rparr>
          \<and> fgt (v s) (floats0 e) \<and> (\<forall>s' \<in> S. fle (v s') (v s)))"

text \<open>\<open>1NN\<close> and, over the cells that reach the threshold, \<open>MATRIX_SUMMARY\<close>: the largest value.\<close>

definition best_value :: "(cell \<Rightarrow> fp) \<Rightarrow> fp \<Rightarrow> cell set \<Rightarrow> fp \<Rightarrow> bool" where
  "best_value v e S e' \<longleftrightarrow>
     (\<not> is_nan e \<longrightarrow> (e' = e \<or> (\<exists>s \<in> S. e' = v s)) \<and> fle e e' \<and> (\<forall>s \<in> S. fle (v s) e'))"

text \<open>\<open>SUM_THRESH\<close> in exact arithmetic: the sum of the correlations above the threshold.\<close>

definition sum_value :: "(cell \<Rightarrow> fp) \<Rightarrow> fp \<Rightarrow> fp \<Rightarrow> cell set \<Rightarrow> fp \<Rightarrow> bool" where
  "sum_value v thr e S e' \<longleftrightarrow>
     (\<forall>x. e = Fin x \<longrightarrow> e' = Fin (x + (\<Sum>s \<in> {s \<in> S. fgt (v s) thr}. real_of_fp (v s))))"

lemma best_entry_keepI: "\<forall>s \<in> S. \<not> fgt (v s) (floats0 e) \<Longrightarrow> best_entry v b e S e"
  by (simp add: best_entry_def)

lemma best_entry_matchI:
  "s \<in> S \<Longrightarrow> fgt (v s) (floats0 e) \<Longrightarrow> \<forall>s' \<in> S. fle (v s') (v s) \<Longrightarrow>
   best_entry v b e S (e\<lparr>floats0 := v s, ints1 := word_of_int (cell_match b s)\<rparr>)"
  unfolding best_entry_def by blast

lemma best_entry_cases:
  assumes "best_entry v b e S cur"
  obtains (keep) "cur = e" "\<forall>s \<in> S. \<not> fgt (v s) (floats0 e)"
  | (match) s where "s \<in> S" "cur = e\<lparr>floats0 := v s, ints1 := word_of_int (cell_match b s)\<rparr>"
      "fgt (v s) (floats0 e)" "\<forall>s' \<in> S. fle (v s') (v s)"
  using assms unfolding best_entry_def by blast

text \<open>Accumulating a set of cells through a largest one of them.\<close>

lemma best_entry_extend:
  assumes "best_entry v b e S cur" "s \<in> Q" "\<forall>s' \<in> Q. fle (v s') (v s)" "\<forall>s' \<in> S. \<not> is_nan (v s')"
  shows "best_entry v b e (S \<union> Q)
    (if fgt (v s) (floats0 cur) then cur\<lparr>floats0 := v s, ints1 := word_of_int (cell_match b s)\<rparr> else cur)"
  using assms(1)
proof (cases rule: best_entry_cases)
  case keep
  show ?thesis
  proof (cases "fgt (v s) (floats0 e)")
    case True
    have "fle (v s') (v s)" if "s' \<in> S" for s'
    proof -
      have "fle (v s') (floats0 e)"
        using keep(2) assms(4) flt_not_nan [OF True] that by (auto simp: not_flt)
      then show ?thesis using True fle_flt_trans flt_imp_fle by blast
    qed
    then show ?thesis
      using True keep(1) assms(2,3) by (auto intro!: best_entry_matchI)
  next
    case False
    then have "\<forall>s' \<in> Q. \<not> fgt (v s') (floats0 e)" using assms(3) flt_fle_trans by blast
    then show ?thesis using False keep by (auto intro!: best_entry_keepI)
  qed
next
  case (match t)
  show ?thesis
  proof (cases "fgt (v s) (v t)")
    case True
    have "\<forall>s' \<in> S \<union> Q. fle (v s') (v s)"
      using match(4) assms(3) True fle_flt_trans flt_imp_fle by blast
    moreover have "fgt (v s) (floats0 e)" using True match(3) flt_trans by blast
    ultimately show ?thesis
      using True match(2) assms(2) best_entry_matchI [of s "S \<union> Q" e v b] by simp
  next
    case False
    have "\<not> is_nan (v s)" using assms(2,3) fle_not_nan by blast
    then have "fle (v s) (v t)" using False match(1) assms(4) by (simp add: not_flt)
    then have "\<forall>s' \<in> S \<union> Q. fle (v s') (v t)" using match(4) assms(3) fle_trans by blast
    then show ?thesis
      using False match best_entry_matchI [of t "S \<union> Q" e v b] by simp
  qed
qed

lemma best_value_extend:
  assumes "best_value v e S cur" "s \<in> Q" "\<forall>s' \<in> Q. fle (v s') (v s)"
  shows "best_value v e (S \<union> Q) (if fge cur (v s) then cur else v s)"
proof (cases "is_nan e")
  case False
  then have c: "cur = e \<or> (\<exists>s \<in> S. cur = v s)" "fle e cur" "\<forall>s \<in> S. fle (v s) cur"
    using assms(1) by (auto simp: best_value_def)
  show ?thesis
  proof (cases "fge cur (v s)")
    case True
    then have "\<forall>s' \<in> Q. fle (v s') cur" using assms(3) fle_trans by blast
    then show ?thesis using True c by (auto simp: best_value_def)
  next
    case False
    have "\<not> is_nan cur" "\<not> is_nan (v s)" using c(2) assms(2,3) fle_not_nan by blast+
    then have "fle cur (v s)" using False by (simp add: not_fle flt_imp_fle)
    then have "fle e (v s)" "\<forall>s' \<in> S. fle (v s') (v s)" using c(2,3) fle_trans by blast+
    then show ?thesis using False assms(2,3) by (auto simp: best_value_def)
  qed
qed (simp add: best_value_def)

lemma best_value_empty: "best_value v e {} e"
  by (simp add: best_value_def)

lemma sum_value_empty: "sum_value v thr e {} e"
  by (simp add: sum_value_def)

lemma sum_value_extend:
  assumes "sum_value v thr e S cur" "finite S" "finite Q" "S \<inter> Q = {}"
    and "x = (\<Sum>s \<in> {s \<in> Q. fgt (v s) thr}. real_of_fp (v s))"
  shows "sum_value v thr e (S \<union> Q) (fadd exact cur (Fin x))"
proof -
  have "{s \<in> S \<union> Q. fgt (v s) thr} = {s \<in> S. fgt (v s) thr} \<union> {s \<in> Q. fgt (v s) thr}" by auto
  then have "(\<Sum>s \<in> {s \<in> S \<union> Q. fgt (v s) thr}. real_of_fp (v s)) =
      (\<Sum>s \<in> {s \<in> S. fgt (v s) thr}. real_of_fp (v s)) + x"
    using assms(2-5) by (simp only:) (intro sum.union_disjoint; auto)
  then show ?thesis using assms(1) by (auto simp: sum_value_def)
qed

text \<open>An update in range is a list update, also where the code leaves the element alone.\<close>

lemma update_mp_1NN_INDEX_eq:
  assumes "0 \<le> mp_index b info" "mp_index b info < int (length mp)"
  shows "update_mp_1NN_INDEX b args info c mp = Some (mp[nat (mp_index b info) :=
      if fgt c (floats0 (mp ! nat (mp_index b info)))
      then (mp ! nat (mp_index b info))
             \<lparr>floats0 := c, ints1 := word_of_int (mp_match_index b info)\<rparr>
      else mp ! nat (mp_index b info)])"
  using assms by (simp add: update_mp_1NN_INDEX_def)

lemma update_mp_eq:
  assumes "0 \<le> mp_index b info" "mp_index b info < int (length mp)"
  shows "update_mp_1NN b args info c mp = Some (mp[nat (mp_index b info) :=
      if fge (mp ! nat (mp_index b info)) c then mp ! nat (mp_index b info) else c])"
    and "update_mp_SUM_THRESH fpu b args info c mp = Some (mp[nat (mp_index b info) :=
      if fgt c (threshold (k_opt args)) then fadd (rd64 fpu) (mp ! nat (mp_index b info)) c
      else mp ! nat (mp_index b info)])"
  using assms by (simp_all add: update_mp_1NN_def update_mp_SUM_THRESH_def)

subsection \<open>1NN_INDEX and 1NN\<close>

definition good_max :: "eigen \<Rightarrow> int \<Rightarrow> KernelArgs \<Rightarrow> (cell \<Rightarrow> fp) \<Rightarrow> bool" where
  "good_max eig U args v \<longleftrightarrow>
     eigen_max_contract eig \<and> (\<exists>n. U = 2 ^ Suc n) \<and> (\<forall>s \<in> valid args. \<not> is_nan (v s))"

lemma largest_chunk:
  assumes "is_largest (map (\<lambda>c. v (r, c)) [lo..hi - 1]) x k"
  shows "(r, k + lo) \<in> row_chunk r lo hi" "x = v (r, k + lo)"
    "\<forall>s \<in> row_chunk r lo hi. fle (v s) (v (r, k + lo))"
proof -
  have k: "0 \<le> k" "k < hi - lo" using assms by (auto simp: is_largest_def split: if_splits)
  then show "(r, k + lo) \<in> row_chunk r lo hi" by simp
  have "[lo..hi - 1] ! nat k = k + lo" using k by (simp add: nth_upto)
  then show x: "x = v (r, k + lo)" using assms k by (simp add: is_largest_def del: nth_upto)
  show "\<forall>s \<in> row_chunk r lo hi. fle (v s) (v (r, k + lo))"
    using assms x by (auto simp: is_largest_def row_chunk_def)
qed

lemma chunk_row_nonneg: "row_chunk r lo hi \<subseteq> valid args \<Longrightarrow> lo < hi \<Longrightarrow> 0 \<le> r"
  using row_chunk_simps(1) [of r lo r lo hi] by (fastforce simp: valid_def)

lemma chunk_no_nan:
  assumes "good_max eig U args v" "row_chunk r lo hi \<subseteq> valid args" "lo < hi"
  shows "no_nan (map (\<lambda>c. v (r, c)) [lo..hi - 1])" "map (\<lambda>c. v (r, c)) [lo..hi - 1] \<noteq> []"
proof -
  have "\<forall>s \<in> row_chunk r lo hi. \<not> is_nan (v s)" using assms by (auto simp: good_max_def)
  then show "no_nan (map (\<lambda>c. v (r, c)) [lo..hi - 1])" by (auto simp: no_nan_def row_chunk_def)
  show "map (\<lambda>c. v (r, c)) [lo..hi - 1] \<noteq> []" using assms(3) by simp
qed

lemma reduce_1NN_INDEX_chunk:
  assumes good: "good_max eig U args v" and chunk: "row_chunk r lo hi \<subseteq> valid args" "lo < hi"
    and fast: "fast \<longrightarrow> hi - lo = U"
  shows "\<exists>x k. reduce_row_1NN_INDEX eig U fast (map (\<lambda>c. v (r, c)) [lo..hi - 1]) = Some (x, k)
    \<and> is_largest (map (\<lambda>c. v (r, c)) [lo..hi - 1]) x k"
proof (cases fast)
  case True
  obtain n where n: "U = 2 ^ Suc n" using good by (auto simp: good_max_def)
  have l: "length (map (\<lambda>c. v (r, c)) [lo..hi - 1]) = 2 ^ Suc n"
    using True fast chunk(2) by (simp add: n nat_power_eq nat_mult_distrib)
  have "nat U = 2 ^ Suc n" by (simp add: n nat_power_eq nat_mult_distrib)
  then show ?thesis
    using True reduce_row_fast_largest [OF chunk_no_nan(1) [OF good chunk] l, of "replicate (nat U) 0"] l
    by (simp add: reduce_row_1NN_INDEX_def n)
next
  case False
  have "eigen_max_contract eig" using good by (simp add: good_max_def)
  then show ?thesis
    using False chunk_no_nan [OF good chunk] unfolding reduce_row_1NN_INDEX_def eigen_max_contract_def
    by (metis prod.collapse)
qed

interpretation nn_index: kernel_profile "ops_1NN_INDEX fpu eig U" U "\<lambda>b args. cell_index b"
  "good_max eig U" "\<lambda>args. best_entry"
  for fpu eig U
proof
  show "best_entry v b e {} e" for args :: KernelArgs and v b e by (simp add: best_entry_keepI)
next
  fix args :: KernelArgs and v and info :: ThreadInfo and S b mp e
  let ?s = "(ti_row info, ti_col info)"
  let ?i = "cell_index b ?s"
  assume good: "good_max eig U args v" and S: "S \<subseteq> valid args" and i: "0 \<le> ?i" "?i < int (length mp)"
    and sv: "?s \<in> valid args" and acc: "best_entry v b e S (mp ! nat ?i)"
  have m: "mp_index b info = ?i" "mp_match_index b info = cell_match b ?s"
    by (auto simp: mp_index_def mp_match_index_def cell_index_def cell_match_def)
  have "\<not> is_nan (v ?s)" "\<forall>s' \<in> S. \<not> is_nan (v s')" using good S sv by (auto simp: good_max_def)
  then have e': "best_entry v b e (insert ?s S) (if fgt (v ?s) (floats0 (mp ! nat ?i))
      then (mp ! nat ?i)\<lparr>floats0 := v ?s, ints1 := word_of_int (cell_match b ?s)\<rparr> else mp ! nat ?i)"
    using best_entry_extend [OF acc, of ?s "{?s}"] by simp
  show "\<exists>e'. upd (ops_1NN_INDEX fpu eig U) b args info (v ?s) mp = Some (mp[nat ?i := e'])
        \<and> best_entry v b e (insert ?s S) e'"
    by (rule exI, rule conjI [OF _ e'])
      (use i update_mp_1NN_INDEX_eq [of b info mp, unfolded m] in \<open>simp add: ops_1NN_INDEX_def\<close>)
next
  fix args :: KernelArgs and v lo hi and info :: ThreadInfo and S and fast :: bool and mp e
  let ?r = "ti_row info"
  let ?Q = "row_chunk ?r lo hi"
  assume good: "good_max eig U args v" and lt: "lo < hi" and chunk: "?Q \<subseteq> valid args" and S: "S \<subseteq> valid args"
    and fast: "fast \<longrightarrow> hi - lo = U" and r: "?r < int (length mp)"
    and acc: "best_entry v True e S (mp ! nat ?r)"
  obtain x k where xk: "reduce_row_1NN_INDEX eig U fast (map (\<lambda>c. v (?r, c)) [lo..hi - 1]) = Some (x, k)"
      "is_largest (map (\<lambda>c. v (?r, c)) [lo..hi - 1]) x k"
    using reduce_1NN_INDEX_chunk [OF good chunk lt fast] by blast
  note big = largest_chunk [OF xk(2)]
  have r0: "0 \<le> ?r" by (rule chunk_row_nonneg [OF chunk lt])
  have nn: "\<forall>s' \<in> S. \<not> is_nan (v s')" using good S by (auto simp: good_max_def)
  have "reduce (ops_1NN_INDEX fpu eig U) fast (threshold (k_opt args))
          (map (\<lambda>c. v (?r, c)) [lo..hi - 1]) = Some (v (?r, k + lo), k)"
    using xk(1) by (simp add: ops_1NN_INDEX_def big(2))
  moreover have "upd (ops_1NN_INDEX fpu eig U) True args (info\<lparr>ti_col := k + lo\<rparr>) (v (?r, k + lo)) mp
      = Some (mp[nat ?r := if fgt (v (?r, k + lo)) (floats0 (mp ! nat ?r))
          then (mp ! nat ?r)\<lparr>floats0 := v (?r, k + lo), ints1 := word_of_int (cell_match True (?r, k + lo))\<rparr>
          else mp ! nat ?r])"
    using update_mp_1NN_INDEX_eq [of True "info\<lparr>ti_col := k + lo\<rparr>" mp args "v (?r, k + lo)"] r r0
    by (simp add: ops_1NN_INDEX_def mp_index_def mp_match_index_def cell_match_def)
  ultimately show "\<exists>x k e'. reduce (ops_1NN_INDEX fpu eig U) fast (threshold (k_opt args))
          (map (\<lambda>c. v (?r, c)) [lo..hi - 1]) = Some (x, k)
        \<and> upd (ops_1NN_INDEX fpu eig U) True args (info\<lparr>ti_col := k + lo\<rparr>) x mp = Some (mp[nat ?r := e'])
        \<and> best_entry v True e (S \<union> ?Q) e'"
    using best_entry_extend [OF acc big(1,3) nn] by blast
qed (simp add: cell_index_def)

lemma reduce_1NN_chunk:
  assumes "good_max eig U args v" "row_chunk r lo hi \<subseteq> valid args" "lo < hi"
  shows "\<exists>s \<in> row_chunk r lo hi. fst (maxCoeff eig (map (\<lambda>c. v (r, c)) [lo..hi - 1])) = v s
    \<and> (\<forall>s' \<in> row_chunk r lo hi. fle (v s') (v s))"
proof -
  have "eigen_max_contract eig" using assms(1) by (simp add: good_max_def)
  then have "is_largest (map (\<lambda>c. v (r, c)) [lo..hi - 1])
      (fst (maxCoeff eig (map (\<lambda>c. v (r, c)) [lo..hi - 1])))
      (snd (maxCoeff eig (map (\<lambda>c. v (r, c)) [lo..hi - 1])))"
    using chunk_no_nan [OF assms] unfolding eigen_max_contract_def by blast
  from largest_chunk [OF this] show ?thesis by blast
qed

interpretation nn: kernel_profile "ops_1NN fpu eig U" U "\<lambda>b args. cell_index b"
  "good_max eig U" "\<lambda>args v b. best_value v"
  for fpu eig U
proof
  show "best_value v e {} e" for args :: KernelArgs and v and b :: bool and e by (rule best_value_empty)
next
  fix args :: KernelArgs and v and info :: ThreadInfo and S b mp e
  let ?s = "(ti_row info, ti_col info)"
  let ?i = "cell_index b ?s"
  assume good: "good_max eig U args v" and i: "0 \<le> ?i" "?i < int (length mp)"
    and sv: "?s \<in> valid args" and acc: "best_value v e S (mp ! nat ?i)"
  have m: "mp_index b info = ?i" by (auto simp: mp_index_def cell_index_def)
  have "\<not> is_nan (v ?s)" using good sv by (auto simp: good_max_def)
  then have e': "best_value v e (insert ?s S) (if fge (mp ! nat ?i) (v ?s) then mp ! nat ?i else v ?s)"
    using best_value_extend [OF acc, of ?s "{?s}"] by simp
  show "\<exists>e'. upd (ops_1NN fpu eig U) b args info (v ?s) mp = Some (mp[nat ?i := e'])
        \<and> best_value v e (insert ?s S) e'"
    by (rule exI, rule conjI [OF _ e'])
      (use i update_mp_eq(1) [of b info mp, unfolded m] in \<open>simp add: ops_1NN_def\<close>)
next
  fix args :: KernelArgs and v lo hi and info :: ThreadInfo and S and fast :: bool and mp e
  let ?r = "ti_row info"
  let ?Q = "row_chunk ?r lo hi"
  assume good: "good_max eig U args v" and lt: "lo < hi" and chunk: "?Q \<subseteq> valid args"
    and r: "?r < int (length mp)" and acc: "best_value v e S (mp ! nat ?r)"
  obtain s where s: "s \<in> ?Q" "fst (maxCoeff eig (map (\<lambda>c. v (?r, c)) [lo..hi - 1])) = v s"
      "\<forall>s' \<in> ?Q. fle (v s') (v s)"
    using reduce_1NN_chunk [OF good chunk lt] by blast
  have r0: "0 \<le> ?r" by (rule chunk_row_nonneg [OF chunk lt])
  have "reduce (ops_1NN fpu eig U) fast (threshold (k_opt args))
          (map (\<lambda>c. v (?r, c)) [lo..hi - 1]) = Some (v s, 0)"
    by (simp add: ops_1NN_def reduce_row_1NN_def s(2))
  moreover have "upd (ops_1NN fpu eig U) True args (info\<lparr>ti_col := 0 + lo\<rparr>) (v s) mp
      = Some (mp[nat ?r := if fge (mp ! nat ?r) (v s) then mp ! nat ?r else v s])"
    using update_mp_eq(1) [of True "info\<lparr>ti_col := 0 + lo\<rparr>" mp args "v s"] r r0
    by (simp add: ops_1NN_def mp_index_def)
  ultimately show "\<exists>x k e'. reduce (ops_1NN fpu eig U) fast (threshold (k_opt args))
          (map (\<lambda>c. v (?r, c)) [lo..hi - 1]) = Some (x, k)
        \<and> upd (ops_1NN fpu eig U) True args (info\<lparr>ti_col := k + lo\<rparr>) x mp = Some (mp[nat ?r := e'])
        \<and> best_value v e (S \<union> ?Q) e'"
    using best_value_extend [OF acc s(1,3)] by blast
qed (simp add: cell_index_def)

subsection \<open>SUM_THRESH\<close>

text \<open>
  The sums are exact, so the order of the additions does not show. The threshold is not negative: a
  row chunk is first summed and the sum is then compared with the threshold again.
\<close>

definition good_sum :: "fpu \<Rightarrow> eigen \<Rightarrow> KernelArgs \<Rightarrow> (cell \<Rightarrow> fp) \<Rightarrow> bool" where
  "good_sum fpu eig args v \<longleftrightarrow>
     rd64 fpu = exact \<and> eigen_sum_contract eig \<and> is_finite (threshold (k_opt args))
     \<and> 0 \<le> real_of_fp (threshold (k_opt args)) \<and> (\<forall>s \<in> valid args. is_finite (v s))"

lemma reduce_SUM_THRESH_chunk:
  assumes good: "good_sum fpu eig args v" and chunk: "row_chunk r lo hi \<subseteq> valid args"
  shows "sumCoeffs eig (map (\<lambda>x. if fgt x thr then x else Fin 0) (map (\<lambda>c. v (r, c)) [lo..hi - 1]))
    = Fin (\<Sum>s \<in> {s \<in> row_chunk r lo hi. fgt (v s) thr}. real_of_fp (v s))"
proof -
  let ?f = "\<lambda>s. if fgt (v s) thr then real_of_fp (v s) else 0"
  have "is_finite (v (r, c))" if "c \<in> set [lo..hi - 1]" for c
  proof -
    have "(r, c) \<in> valid args" using chunk that by (auto simp: row_chunk_def)
    then show ?thesis using good by (auto simp: good_sum_def)
  qed
  then have m: "map (\<lambda>x. if fgt x thr then x else Fin 0) (map (\<lambda>c. v (r, c)) [lo..hi - 1])
      = map Fin (map (\<lambda>c. ?f (r, c)) [lo..hi - 1])"
    by auto
  have "(\<Sum>s \<in> {s \<in> row_chunk r lo hi. fgt (v s) thr}. real_of_fp (v s)) = sum ?f (row_chunk r lo hi)"
    by (simp add: sum.inter_filter)
  also have "\<dots> = sum (?f \<circ> Pair r) {lo..<hi}"
    by (subst sum.reindex [symmetric]) (auto simp: row_chunk_def inj_on_def intro: sum.cong)
  also have "\<dots> = sum_list (map (\<lambda>c. ?f (r, c)) [lo..hi - 1])"
  proof -
    have "{lo..<hi} = set [lo..hi - 1]" by auto
    then show ?thesis by (simp only: sum_list_distinct_conv_sum_set distinct_upto comp_def)
  qed
  finally have "(\<Sum>s \<in> {s \<in> row_chunk r lo hi. fgt (v s) thr}. real_of_fp (v s))
      = sum_list (map (\<lambda>c. ?f (r, c)) [lo..hi - 1])" .
  moreover have "eigen_sum_contract eig" using good by (simp add: good_sum_def)
  ultimately show ?thesis unfolding m eigen_sum_contract_def by metis
qed

lemma fgt_pos_sum:
  assumes "finite F" "\<forall>s \<in> F. fgt (v s) (Fin t)" "0 \<le> t" "\<forall>s \<in> F. is_finite (v s)"
    and "\<not> t < (\<Sum>s \<in> F. real_of_fp (v s))"
  shows "F = {}"
proof (rule ccontr)
  assume "F \<noteq> {}"
  then obtain s where s: "s \<in> F" by blast
  have gt: "t < real_of_fp (v s)" if "s \<in> F" for s
    using assms(2,4) that by (cases "v s") auto
  then have "real_of_fp (v s) \<le> (\<Sum>s \<in> F. real_of_fp (v s))"
    using s assms(1,3) by (intro member_le_sum) (auto intro: less_imp_le order_trans [OF assms(3)])
  then show False using gt [OF s] assms(5) by simp
qed

lemma sum_value_skip:
  assumes "sum_value v thr e S cur" "{s \<in> Q. fgt (v s) thr} = {}"
  shows "sum_value v thr e (S \<union> Q) cur"
proof -
  have "{s \<in> S \<union> Q. fgt (v s) thr} = {s \<in> S. fgt (v s) thr}" using assms(2) by auto
  then show ?thesis using assms(1) by (simp add: sum_value_def)
qed

lemma sum_value_thresh_extend:
  assumes acc: "sum_value v (Fin t) e S cur" and fin: "finite S" "finite Q" and disj: "S \<inter> Q = {}"
    and t: "0 \<le> t" and Q: "\<forall>s \<in> Q. is_finite (v s)"
    and x: "x = (\<Sum>s \<in> {s \<in> Q. fgt (v s) (Fin t)}. real_of_fp (v s))"
  shows "sum_value v (Fin t) e (S \<union> Q) (if fgt (Fin x) (Fin t) then fadd exact cur (Fin x) else cur)"
proof (cases "fgt (Fin x) (Fin t)")
  case True
  then show ?thesis using sum_value_extend [OF acc fin disj x] by simp
next
  case False
  then have "{s \<in> Q. fgt (v s) (Fin t)} = {}"
    using fin(2) t Q by (intro fgt_pos_sum [of _ t v]) (auto simp: x)
  then show ?thesis using False sum_value_skip [OF acc] by simp
qed

interpretation st: kernel_profile "ops_SUM_THRESH fpu eig U" U "\<lambda>b args. cell_index b"
  "good_sum fpu eig" "\<lambda>args v b. sum_value v (threshold (k_opt args))"
  for fpu eig U
proof
  show "sum_value v (threshold (k_opt args)) e {} e" for args :: KernelArgs and v and b :: bool and e
    by (rule sum_value_empty)
next
  fix args :: KernelArgs and v and info :: ThreadInfo and S b mp e
  let ?s = "(ti_row info, ti_col info)" and ?thr = "threshold (k_opt args)"
  let ?i = "cell_index b ?s"
  assume good: "good_sum fpu eig args v" and i: "0 \<le> ?i" "?i < int (length mp)"
    and sv: "?s \<in> valid args" "?s \<notin> S" "S \<subseteq> valid args"
    and acc: "sum_value v ?thr e S (mp ! nat ?i)"
  have m: "mp_index b info = ?i" by (auto simp: mp_index_def cell_index_def)
  have fin: "finite S" using sv(3) finite_valid by (rule finite_subset)
  have "is_finite (v ?s)" "rd64 fpu = exact" using good sv by (auto simp: good_sum_def)
  moreover have "{s \<in> {?s}. fgt (v s) ?thr} = (if fgt (v ?s) ?thr then {?s} else {})" by auto
  ultimately have e': "sum_value v ?thr e (insert ?s S)
      (if fgt (v ?s) ?thr then fadd (rd64 fpu) (mp ! nat ?i) (v ?s) else mp ! nat ?i)"
    using sum_value_extend [OF acc fin, of "{?s}"] sum_value_skip [OF acc, of "{?s}"] sv(2) by auto
  show "\<exists>e'. upd (ops_SUM_THRESH fpu eig U) b args info (v ?s) mp = Some (mp[nat ?i := e'])
        \<and> sum_value v ?thr e (insert ?s S) e'"
    by (rule exI, rule conjI [OF _ e'])
      (use i update_mp_eq(2) [of b info mp, unfolded m] in \<open>simp add: ops_SUM_THRESH_def\<close>)
next
  fix args :: KernelArgs and v lo hi and info :: ThreadInfo and S and fast :: bool and mp e
  let ?r = "ti_row info" and ?thr = "threshold (k_opt args)"
  let ?Q = "row_chunk ?r lo hi"
  assume good: "good_sum fpu eig args v" and lt: "lo < hi" and chunk: "?Q \<subseteq> valid args"
    and S: "S \<subseteq> valid args" "?Q \<inter> S = {}"
    and r: "?r < int (length mp)" and acc: "sum_value v ?thr e S (mp ! nat ?r)"
  define x where "x = (\<Sum>s \<in> {s \<in> ?Q. fgt (v s) ?thr}. real_of_fp (v s))"
  have r0: "0 \<le> ?r" by (rule chunk_row_nonneg [OF chunk lt])
  have fin: "finite S" using S(1) finite_valid by (rule finite_subset)
  obtain t where t: "?thr = Fin t" "0 \<le> t"
    using good by (auto simp: good_sum_def is_finite_iff)
  have rd: "rd64 fpu = exact" and Q: "\<forall>s \<in> ?Q. is_finite (v s)"
    using good chunk by (auto simp: good_sum_def)
  have "reduce (ops_SUM_THRESH fpu eig U) fast ?thr (map (\<lambda>c. v (?r, c)) [lo..hi - 1]) = Some (Fin x, 0)"
    using reduce_SUM_THRESH_chunk [OF good chunk, of ?thr]
    by (simp add: ops_SUM_THRESH_def reduce_row_SUM_THRESH_def x_def)
  moreover have "upd (ops_SUM_THRESH fpu eig U) True args (info\<lparr>ti_col := 0 + lo\<rparr>) (Fin x) mp
      = Some (mp[nat ?r := if fgt (Fin x) (Fin t) then fadd exact (mp ! nat ?r) (Fin x) else mp ! nat ?r])"
    using update_mp_eq(2) [of True "info\<lparr>ti_col := 0 + lo\<rparr>" mp fpu args "Fin x"] r r0
    by (simp add: ops_SUM_THRESH_def mp_index_def rd t)
  moreover have "sum_value v ?thr e (S \<union> ?Q)
      (if fgt (Fin x) (Fin t) then fadd exact (mp ! nat ?r) (Fin x) else mp ! nat ?r)"
    unfolding t(1)
    by (rule sum_value_thresh_extend [OF acc [unfolded t(1)] fin _ _ t(2) Q])
      (use S(2) in \<open>auto simp: x_def t(1)\<close>)
  ultimately show "\<exists>x k e'. reduce (ops_SUM_THRESH fpu eig U) fast ?thr
          (map (\<lambda>c. v (?r, c)) [lo..hi - 1]) = Some (x, k)
        \<and> upd (ops_SUM_THRESH fpu eig U) True args (info\<lparr>ti_col := k + lo\<rparr>) x mp = Some (mp[nat ?r := e'])
        \<and> sum_value v ?thr e (S \<union> ?Q) e'"
    by blast
qed (simp add: cell_index_def)

subsection \<open>MATRIX_SUMMARY\<close>

text \<open>The element a cell belongs to; a cell without one is not in range.\<close>

definition matrix_cell :: "fpu \<Rightarrow> bool \<Rightarrow> KernelArgs \<Rightarrow> cell \<Rightarrow> int" where
  "matrix_cell fpu b args s =
     (case matrix_index fpu b args ((ThreadInfo_init args)\<lparr>ti_row := fst s, ti_col := snd s\<rparr>) of
        None \<Rightarrow> -1 | Some i \<Rightarrow> i)"

definition good_summary :: "KernelArgs \<Rightarrow> (cell \<Rightarrow> fp) \<Rightarrow> bool" where
  "good_summary args v \<longleftrightarrow> (\<forall>s \<in> valid args. \<not> is_nan (v s))"

definition above :: "KernelArgs \<Rightarrow> (cell \<Rightarrow> fp) \<Rightarrow> cell set \<Rightarrow> cell set" where
  "above args v S = {s \<in> S. \<not> flt (v s) (threshold (k_opt args))}"

lemma matrix_index_cell:
  fixes args :: KernelArgs and info :: ThreadInfo
  assumes "0 \<le> matrix_cell fpu b args (ti_row info, ti_col info)"
  shows "matrix_index fpu b args info = Some (matrix_cell fpu b args (ti_row info, ti_col info))"
proof -
  have "matrix_index fpu b args
      ((ThreadInfo_init args)\<lparr>ti_row := ti_row info, ti_col := ti_col info\<rparr>) = matrix_index fpu b args info"
    by (simp add: matrix_index_def)
  then show ?thesis using assms by (auto simp: matrix_cell_def split: option.splits)
qed

interpretation ms: kernel_profile "ops_MATRIX_SUMMARY fpu eig U" U "matrix_cell fpu"
  good_summary "\<lambda>args v b e S. best_value v e (above args v S)"
  for fpu eig U
proof
  show "best_value v e (above args v {}) e" for args :: KernelArgs and v and b :: bool and e
    by (simp add: above_def best_value_empty)
next
  fix args :: KernelArgs and v and info :: ThreadInfo and S b mp e
  let ?s = "(ti_row info, ti_col info)" and ?thr = "threshold (k_opt args)"
  let ?i = "matrix_cell fpu b args ?s"
  assume good: "good_summary args v" and i: "0 \<le> ?i" "?i < int (length mp)"
    and sv: "?s \<in> valid args" and acc: "best_value v e (above args v S) (mp ! nat ?i)"
  have nn: "\<not> is_nan (v ?s)" using good sv by (auto simp: good_summary_def)
  have e': "best_value v e (above args v (insert ?s S))
      (if flt (v ?s) ?thr \<or> fge (mp ! nat ?i) (v ?s) then mp ! nat ?i else v ?s)"
  proof (cases "flt (v ?s) ?thr")
    case True
    then have "above args v (insert ?s S) = above args v S" by (auto simp: above_def)
    then show ?thesis using True acc by simp
  next
    case False
    then have "above args v (insert ?s S) = above args v S \<union> {?s}" by (auto simp: above_def)
    then show ?thesis using False nn best_value_extend [OF acc, of ?s "{?s}"] by simp
  qed
  show "\<exists>e'. upd (ops_MATRIX_SUMMARY fpu eig U) b args info (v ?s) mp = Some (mp[nat ?i := e'])
        \<and> best_value v e (above args v (insert ?s S)) e'"
    by (rule exI, rule conjI [OF _ e'])
      (use i in \<open>simp add: ops_MATRIX_SUMMARY_def update_mp_MATRIX_SUMMARY_def matrix_index_cell\<close>)
qed (simp_all add: ops_MATRIX_SUMMARY_def)

subsection \<open>The launched kernel\<close>

lemma corr_at_finite:
  assumes "k_has_nan_input args" "is_finite (dist_init ops)"
  shows "is_finite (corr_at fpu ops args cov s)"
  using assms by (cases s) (auto simp: corr_at_def Let_def)

context kernel_profile
begin

lemma LaunchDoTile_correct:
  assumes "args_ok args cov0" "good args (corr_at fpu ops args cov0)"
    and "targets_ok args rows cols A0 B0" "0 < U"
    and "fp = PRECISION_DOUBLE \<or> fp = PRECISION_ULTRA"
  shows "\<exists>cov A B. LaunchDoTile fpu ops U fp rows cols args (cov0, A0, B0) = Some (SCAMP_NO_ERROR, cov, A, B)
    \<and> profiles_ok args (corr_at fpu ops args cov0) rows cols A0 B0 (valid args) A B"
proof (cases "rows \<or> cols")
  case True
  then show ?thesis
    using wp_SomeD [OF do_tile_correct [OF assms(1-4)]] assms(5)
    by (auto simp: LaunchDoTile_def)
qed (simp add: LaunchDoTile_def profiles_ok_def)

end

text \<open>Column \<open>c\<close> and row \<open>r\<close> of the valid cells.\<close>

definition column_of :: "KernelArgs \<Rightarrow> int \<Rightarrow> cell set" where
  "column_of args c = {s \<in> valid args. snd s = c}"

definition row_of :: "KernelArgs \<Rightarrow> int \<Rightarrow> cell set" where
  "row_of args r = {s \<in> valid args. fst s = r}"

lemma index_targets:
  fixes ops :: "'e kernel_ops" and A B :: "'e list"
  assumes "kernel_profile ops U (\<lambda>b args. cell_index b) good acc"
    and "k_n_x args \<le> int (length A)" "k_n_y args \<le> int (length B)"
  shows "kernel_profile.targets_ok (\<lambda>b args. cell_index b) args rows cols A B"
  using assms(2,3)
  by (auto simp: kernel_profile.targets_ok_def [OF assms(1)] valid_def cell_index_def)

lemma column_row_of [simp]:
  "{s \<in> valid args. cell_index False s = i} = column_of args i"
  "{s \<in> valid args. cell_index True s = i} = row_of args i"
  by (auto simp: column_of_def row_of_def cell_index_def)

lemma unrollWid_pos [simp]: "0 < unrollWid"
  by (simp add: unrollWid_def)

lemma good_max_launch:
  assumes "eigen_max_contract eig"
    and "k_has_nan_input args \<and> is_finite (dist_init ops)
      \<or> (\<forall>s \<in> valid args. \<not> is_nan (corr_at fpu ops args cov s))"
  shows "good_max eig unrollWid args (corr_at fpu ops args cov)"
proof -
  have "unrollWid = 2 ^ Suc 7" by (simp add: unrollWid_def)
  then show ?thesis
    unfolding good_max_def using assms corr_at_finite finite_not_nan by blast
qed

lemma dist_init_finite [simp]:
  "is_finite (dist_init (ops_1NN_INDEX fpu eig U))" "is_finite (dist_init (ops_1NN fpu eig U))"
  "is_finite (dist_init (ops_SUM_THRESH fpu eig U))" "is_finite (dist_init (ops_MATRIX_SUMMARY fpu eig U))"
  by (auto simp: ops_1NN_INDEX_def ops_1NN_def ops_SUM_THRESH_def ops_MATRIX_SUMMARY_def init_dist_def)

text \<open>
  What a launch leaves behind: \<open>P e S e'\<close> relates an element before and after it to the cells
  accumulated into it; a side that is not computed keeps its profile.
\<close>

definition launched ::
  "KernelArgs \<Rightarrow> bool \<Rightarrow> bool \<Rightarrow> (bool \<Rightarrow> 'e \<Rightarrow> cell set \<Rightarrow> 'e \<Rightarrow> bool)
   \<Rightarrow> 'e list \<Rightarrow> 'e list \<Rightarrow> 'e list \<Rightarrow> 'e list \<Rightarrow> bool" where
  "launched args do_rows do_cols P A B A' B' \<longleftrightarrow>
     length A' = length A \<and> length B' = length B
     \<and> (if do_cols then \<forall>i < length A. P False (A ! i) (column_of args (int i)) (A' ! i) else A' = A)
     \<and> (if do_rows then \<forall>i < length B. P True (B ! i) (row_of args (int i)) (B' ! i) else B' = B)"

lemma launch_index:
  fixes ops :: "'e kernel_ops" and A B :: "'e list"
  assumes "kernel_profile ops unrollWid (\<lambda>b args. cell_index b) good acc"
    and "args_ok args cov" "good args (corr_at fpu ops args cov)"
    and "k_n_x args \<le> int (length A)" "k_n_y args \<le> int (length B)"
    and "fp = PRECISION_DOUBLE \<or> fp = PRECISION_ULTRA" "view a = Some A" "view b = Some B"
  shows "\<exists>cov' A' B'. launch_as view mem (LaunchDoTile fpu ops unrollWid fp rows cols args) (cov, a, b)
      = Some (SCAMP_NO_ERROR, cov', mem A', mem B')
    \<and> launched args rows cols (acc args (corr_at fpu ops args cov)) A B A' B'"
proof -
  note targets = index_targets [OF assms(1,4,5)]
  obtain cov' A' B' where "LaunchDoTile fpu ops unrollWid fp rows cols args (cov, A, B) = Some (SCAMP_NO_ERROR, cov', A', B')"
    and p: "kernel_profile.profiles_ok (\<lambda>b args. cell_index b) acc args (corr_at fpu ops args cov) rows cols A B
      (valid args) A' B'"
    using kernel_profile.LaunchDoTile_correct [OF assms(1-3) targets unrollWid_pos assms(6)] by blast
  moreover have "launched args rows cols (acc args (corr_at fpu ops args cov)) A B A' B'"
    using p unfolding launched_def kernel_profile.profiles_ok_def [OF assms(1)] kernel_profile.filled_def [OF assms(1)]
    by (auto split: if_splits)
  ultimately show ?thesis using assms(7,8) by (auto simp: launch_as_def)
qed

text \<open>A small tile for the examples: two diagonals of one row.\<close>

definition demo_args :: KernelArgs where
  "demo_args = \<lparr>k_dfa = [Fin 0, Fin 1], k_dfb = [Fin 0], k_dga = [Fin 0, Fin 1], k_dgb = [Fin 0],
     k_normsa = [Fin 1, Fin 1], k_normsb = [Fin 1], k_n_x = 2, k_n_y = 1,
     k_exclusion_lower = 0, k_exclusion_upper = 0, k_matrix_width = 1, k_matrix_height = 1,
     k_rows_per_cell = Fin 2, k_cols_per_cell = Fin 2, k_global_start_col = 0, k_global_start_row = 0,
     k_has_nan_input = True, k_opt = \<lparr>threshold = Fin (1 / 2), num_extra_operands = 0\<rparr>\<rparr>"

definition demo_info :: "SCAMPProfileType \<Rightarrow> OpInfo" where
  "demo_info t = \<lparr>
      op_full_ts_len_A = 10, op_full_ts_len_B = 10, op_max_tile_ts_size = 8,
      op_max_tile_width = 6, op_max_tile_height = 6, op_mp_window = 3,
      op_global_start_row_position = -1, op_global_start_col_position = -1,
      op_opt_args = k_opt demo_args, op_profile_type = t, op_fp_type = PRECISION_DOUBLE,
      op_self_join = True, op_computing_rows = True, op_computing_cols = True, op_is_aligned = False,
      op_keep_rows_separate = False, op_silent_mode = True, op_max_matches_per_column = 5,
      op_max_matches_per_tile = 100, op_matrix_height = 1, op_matrix_width = 1,
      op_cols_per_cell = Fin 2, op_rows_per_cell = Fin 2\<rparr>"

text \<open>
  C8. The 1NN_INDEX kernel is total and correct: on a tile whose arrays have the lengths its
  arguments say, for any rounding of float and double, no access leaves its array, and afterwards
  the entry of every column (and of every row) either is the old one, if no correlation of the column
  exceeds it, or holds a largest correlation of the column's cells and the row it was found in.
\<close>

theorem launch_1NN_INDEX_correct:
  assumes "args_ok args cov" "k_exclusion_lower args + k_exclusion_upper args < k_n_x args"
    and "op_profile_type info = PROFILE_TYPE_1NN_INDEX"
    and "op_fp_type info = PRECISION_DOUBLE \<or> op_fp_type info = PRECISION_ULTRA"
    and "k_n_x args \<le> int (length A)" "k_n_y args \<le> int (length B)" "eigen_max_contract eig"
    and "k_has_nan_input args \<or> (\<forall>s \<in> valid args. \<not> is_nan (corr_at fpu (ops_1NN_INDEX fpu eig unrollWid) args cov s))"
  shows "\<exists>cov' A' B'. compute_cpu_resources_and_launch fpu eig args info do_rows do_cols (cov, Dev_entry A, Dev_entry B)
      = Some (SCAMP_NO_ERROR, cov', Dev_entry A', Dev_entry B')
    \<and> launched args do_rows do_cols (best_entry (corr_at fpu (ops_1NN_INDEX fpu eig unrollWid) args cov)) A B A' B'"
proof -
  have "good_max eig unrollWid args (corr_at fpu (ops_1NN_INDEX fpu eig unrollWid) args cov)"
    using assms(7,8) by (intro good_max_launch) auto
  then show ?thesis
    using launch_index [OF nn_index.kernel_profile_axioms assms(1) _ assms(5,6,4), where view = as_entry and a = "Dev_entry A" and b = "Dev_entry B"]
      assms(2,3) by (simp add: compute_cpu_resources_and_launch_def)
qed

lemma launch_1NN_INDEX_correct_witness:
  "\<exists>cov' A' B'. compute_cpu_resources_and_launch exact_fpu list_eigen demo_args
      (demo_info PROFILE_TYPE_1NN_INDEX) True True
      ([Fin 0, Fin 1], Dev_entry (replicate 2 \<lparr>floats0 = Fin (-2), ints1 = 0\<rparr>), Dev_entry [\<lparr>floats0 = Fin (-2), ints1 = 0\<rparr>])
      = Some (SCAMP_NO_ERROR, cov', Dev_entry A', Dev_entry B')
    \<and> launched demo_args True True
        (best_entry (corr_at exact_fpu (ops_1NN_INDEX exact_fpu list_eigen unrollWid) demo_args [Fin 0, Fin 1]))
        (replicate 2 \<lparr>floats0 = Fin (-2), ints1 = 0\<rparr>) [\<lparr>floats0 = Fin (-2), ints1 = 0\<rparr>] A' B'"
  by (rule launch_1NN_INDEX_correct)
    (simp_all add: args_ok_def demo_args_def demo_info_def list_eigen_max)

text \<open>
  C12. The 1NN kernel: the value of a column (row) becomes the largest of the old value and the
  correlations of the column's (row's) cells.
\<close>

theorem launch_1NN_correct:
  assumes "args_ok args cov" "k_exclusion_lower args + k_exclusion_upper args < k_n_x args"
    and "op_profile_type info = PROFILE_TYPE_1NN"
    and "op_fp_type info = PRECISION_DOUBLE \<or> op_fp_type info = PRECISION_ULTRA"
    and "k_n_x args \<le> int (length A)" "k_n_y args \<le> int (length B)" "eigen_max_contract eig"
    and "k_has_nan_input args \<or> (\<forall>s \<in> valid args. \<not> is_nan (corr_at fpu (ops_1NN fpu eig unrollWid) args cov s))"
  shows "\<exists>cov' A' B'. compute_cpu_resources_and_launch fpu eig args info do_rows do_cols (cov, Dev_float A, Dev_float B)
      = Some (SCAMP_NO_ERROR, cov', Dev_float A', Dev_float B')
    \<and> launched args do_rows do_cols (\<lambda>b. best_value (corr_at fpu (ops_1NN fpu eig unrollWid) args cov)) A B A' B'"
proof -
  have "good_max eig unrollWid args (corr_at fpu (ops_1NN fpu eig unrollWid) args cov)"
    using assms(7,8) by (intro good_max_launch) auto
  then show ?thesis
    using launch_index [OF nn.kernel_profile_axioms assms(1) _ assms(5,6,4),
        where view = as_float and a = "Dev_float A" and b = "Dev_float B"]
      assms(2,3) by (simp add: compute_cpu_resources_and_launch_def)
qed

lemma launch_1NN_correct_witness:
  "\<exists>cov' A' B'. compute_cpu_resources_and_launch exact_fpu list_eigen demo_args (demo_info PROFILE_TYPE_1NN)
      True False ([Fin 0, Fin 1], Dev_float [Fin (-2), Fin (-2)], Dev_float [Fin (-2)])
      = Some (SCAMP_NO_ERROR, cov', Dev_float A', Dev_float B')
    \<and> launched demo_args True False
        (\<lambda>b. best_value (corr_at exact_fpu (ops_1NN exact_fpu list_eigen unrollWid) demo_args [Fin 0, Fin 1]))
        [Fin (-2), Fin (-2)] [Fin (-2)] A' B'"
  by (rule launch_1NN_correct) (simp_all add: args_ok_def demo_args_def demo_info_def list_eigen_max)

text \<open>
  C13. The SUM_THRESH kernel in exact arithmetic, for a threshold that is not negative: the value of a
  column (row) grows by the sum of the correlations of its cells that exceed the threshold.
\<close>

theorem launch_SUM_THRESH_correct:
  assumes "args_ok args cov" "k_exclusion_lower args + k_exclusion_upper args < k_n_x args"
    and "op_profile_type info = PROFILE_TYPE_SUM_THRESH"
    and "op_fp_type info = PRECISION_DOUBLE \<or> op_fp_type info = PRECISION_ULTRA"
    and "k_n_x args \<le> int (length A)" "k_n_y args \<le> int (length B)" "eigen_sum_contract eig"
    and "rd64 fpu = exact" "threshold (k_opt args) = Fin t" "0 \<le> t"
    and "k_has_nan_input args \<or> (\<forall>s \<in> valid args. is_finite (corr_at fpu (ops_SUM_THRESH fpu eig unrollWid) args cov s))"
  shows "\<exists>cov' A' B'. compute_cpu_resources_and_launch fpu eig args info do_rows do_cols (cov, Dev_double A, Dev_double B)
      = Some (SCAMP_NO_ERROR, cov', Dev_double A', Dev_double B')
    \<and> launched args do_rows do_cols
        (\<lambda>b. sum_value (corr_at fpu (ops_SUM_THRESH fpu eig unrollWid) args cov) (threshold (k_opt args))) A B A' B'"
proof -
  have "good_sum fpu eig args (corr_at fpu (ops_SUM_THRESH fpu eig unrollWid) args cov)"
    using assms(7-11) corr_at_finite [of args "ops_SUM_THRESH fpu eig unrollWid" fpu cov]
    by (auto simp: good_sum_def)
  then show ?thesis
    using launch_index [OF st.kernel_profile_axioms assms(1) _ assms(5,6,4),
        where view = as_double and a = "Dev_double A" and b = "Dev_double B"]
      assms(2,3) by (simp add: compute_cpu_resources_and_launch_def)
qed

lemma launch_SUM_THRESH_correct_witness:
  "\<exists>cov' A' B'. compute_cpu_resources_and_launch exact_fpu list_eigen demo_args (demo_info PROFILE_TYPE_SUM_THRESH)
      True True ([Fin 0, Fin 1], Dev_double [Fin 0, Fin 0], Dev_double [Fin 0])
      = Some (SCAMP_NO_ERROR, cov', Dev_double A', Dev_double B')
    \<and> launched demo_args True True
        (\<lambda>b. sum_value (corr_at exact_fpu (ops_SUM_THRESH exact_fpu list_eigen unrollWid) demo_args [Fin 0, Fin 1])
          (threshold (k_opt demo_args))) [Fin 0, Fin 0] [Fin 0] A' B'"
  by (rule launch_SUM_THRESH_correct [where t = "1 / 2"])
    (simp_all add: args_ok_def demo_args_def demo_info_def list_eigen_sum exact_fpu_def)

text \<open>
  With a negative threshold the rows of a SUM_THRESH profile lose contributions: the sum of a chunk
  is compared with the threshold again. Two correlations of \<open>-1/4\<close> exceed the threshold \<open>-1/3\<close>, their
  sum does not, and the row keeps the value 0 where the columns get \<open>-1/4\<close> each.
\<close>

definition negative_args :: KernelArgs where
  "negative_args = demo_args\<lparr>k_dfa := [Fin 0, Fin 0], k_dga := [Fin 0, Fin 0],
     k_opt := \<lparr>threshold = Fin (- 1 / 3), num_extra_operands = 0\<rparr>\<rparr>"

lemma handle_row_negative_threshold:
  "handle_row exact_fpu (ops_SUM_THRESH exact_fpu list_eigen U) True True False negative_args
      (ThreadInfo_init negative_args) 2 ([Fin (- 1 / 4), Fin (- 1 / 4)], [Fin 0, Fin 0], [Fin 0])
    = Some ([Fin (- 1 / 4), Fin (- 1 / 4)], [Fin (- 1 / 4), Fin (- 1 / 4)], [Fin 0])"
  by (simp add: handle_row_def negative_args_def demo_args_def ThreadInfo_init_def exact_fpu_def
      ops_SUM_THRESH_def update_columnwise_def update_rowwise_def update_mp_SUM_THRESH_def
      reduce_row_SUM_THRESH_def list_eigen_def mp_index_def aslice_def aget_def aset_def ablit_def
      eval_nat_numeral Let_def)

text \<open>
  The matrix summary is a picture of the distance matrix with \<open>k_matrix_width\<close> columns: the element \<open>i\<close> stands
  for the rectangle of the matrix in row \<open>i div k_matrix_width\<close> and column \<open>i mod k_matrix_width\<close>. The cells of a
  tile are those of the matrix that start at its corner; a kernel that fills the row profile runs on the transposed tile.
\<close>

definition matrix_position :: "bool \<Rightarrow> KernelArgs \<Rightarrow> cell \<Rightarrow> int \<times> int" where
  "matrix_position b args s = (case s of (r, c) \<Rightarrow>
     if b then (c + k_global_start_row args, r + k_global_start_col args)
     else (r + k_global_start_row args, c + k_global_start_col args))"

definition in_span :: "fp \<Rightarrow> int \<Rightarrow> int \<Rightarrow> bool" where
  "in_span d k x \<longleftrightarrow> (case d of Fin q \<Rightarrow> of_int k * q \<le> of_int x \<and> of_int x < (of_int k + 1) * q | _ \<Rightarrow> False)"

definition block_of :: "bool \<Rightarrow> KernelArgs \<Rightarrow> int \<Rightarrow> cell set" where
  "block_of b args i = {s \<in> valid args. case matrix_position b args s of (R, C) \<Rightarrow>
     in_span (k_rows_per_cell args) (i div k_matrix_width args) R
     \<and> in_span (k_cols_per_cell args) (i mod k_matrix_width args) C}"

text \<open>
  The rounded quotient has the floor of the exact one, as the source asks for: a quotient that is rounded up to an
  integer puts its cell into the next rectangle.
\<close>

definition quotient_kept :: "fpu \<Rightarrow> fp \<Rightarrow> int \<Rightarrow> bool" where
  "quotient_kept fpu d x \<longleftrightarrow> (case d of
     Fin q \<Rightarrow> 0 < q \<and> ifloor (fdiv (rd64 fpu) (fp_of_int (rd64 fpu) x) d) = Some \<lfloor>of_int x / q\<rfloor> | _ \<Rightarrow> False)"

definition extent_ok :: "fp \<Rightarrow> int \<Rightarrow> int \<Rightarrow> bool" where
  "extent_ok d n x \<longleftrightarrow> (case d of Fin q \<Rightarrow> 0 \<le> x \<and> of_int x < of_int n * q | _ \<Rightarrow> False)"

definition summary_ok :: "fpu \<Rightarrow> bool \<Rightarrow> KernelArgs \<Rightarrow> fp list \<Rightarrow> bool" where
  "summary_ok fpu b args mp \<longleftrightarrow>
     0 < k_matrix_width args \<and> 0 < k_matrix_height args \<and> int (length mp) = k_matrix_width args * k_matrix_height args
     \<and> length mp < 2 ^ 31
     \<and> (\<forall>s \<in> valid args. case matrix_position b args s of (R, C) \<Rightarrow>
          extent_ok (k_rows_per_cell args) (k_matrix_height args) R \<and> extent_ok (k_cols_per_cell args) (k_matrix_width args) C
          \<and> quotient_kept fpu (k_rows_per_cell args) R \<and> quotient_kept fpu (k_cols_per_cell args) C)"

lemma span_index:
  assumes "extent_ok d n x" "quotient_kept fpu d x"
  obtains k where "ifloor (fdiv (rd64 fpu) (fp_of_int (rd64 fpu) x) d) = Some k" "0 \<le> k" "k < n"
    "\<And>k'. in_span d k' x \<longleftrightarrow> k' = k"
proof -
  obtain q where q: "d = Fin q" "0 < q" "0 \<le> x" "of_int x < of_int n * q"
      "ifloor (fdiv (rd64 fpu) (fp_of_int (rd64 fpu) x) d) = Some \<lfloor>of_int x / q\<rfloor>"
    using assms by (auto simp: extent_ok_def quotient_kept_def split: fp.splits)
  show thesis
  proof (rule that [OF q(5)])
    show "0 \<le> \<lfloor>of_int x / q\<rfloor>" "\<lfloor>of_int x / q\<rfloor> < n" using q by (simp_all add: floor_less_iff pos_divide_less_eq)
    show "in_span d k' x \<longleftrightarrow> k' = \<lfloor>of_int x / q\<rfloor>" for k'
      using q(2) by (auto simp: in_span_def q(1) eq_commute [of k'] floor_eq_iff pos_divide_less_eq pos_le_divide_eq)
  qed
qed

lemma matrix_cell_block:
  assumes "summary_ok fpu b args mp" "s \<in> valid args"
  shows "0 \<le> matrix_cell fpu b args s \<and> matrix_cell fpu b args s < int (length mp)
    \<and> (matrix_cell fpu b args s = i \<longleftrightarrow> s \<in> block_of b args i)"
proof -
  let ?w = "k_matrix_width args" and ?h = "k_matrix_height args"
  obtain R C where p: "matrix_position b args s = (R, C)" by (cases "matrix_position b args s")
  have ok: "0 < ?w" "int (length mp) = ?w * ?h" "int (length mp) < 2 ^ 31"
      "extent_ok (k_rows_per_cell args) ?h R" "extent_ok (k_cols_per_cell args) ?w C"
      "quotient_kept fpu (k_rows_per_cell args) R" "quotient_kept fpu (k_cols_per_cell args) C"
    using assms p by (force simp: summary_ok_def)+
  from span_index [OF ok(4,6)] obtain y where
      y: "ifloor (fdiv (rd64 fpu) (fp_of_int (rd64 fpu) R) (k_rows_per_cell args)) = Some y" "0 \<le> y" "y < ?h"
        "\<And>k. in_span (k_rows_per_cell args) k R \<longleftrightarrow> k = y" by metis
  from span_index [OF ok(5,7)] obtain x where
      x: "ifloor (fdiv (rd64 fpu) (fp_of_int (rd64 fpu) C) (k_cols_per_cell args)) = Some x" "0 \<le> x" "x < ?w"
        "\<And>k. in_span (k_cols_per_cell args) k C \<longleftrightarrow> k = x" by metis
  have "(y + 1) * ?w \<le> ?h * ?w" using y(3) ok(1) by (intro mult_right_mono) auto
  then have "y * ?w + ?w \<le> int (length mp)" unfolding distrib_right ok(2) by (simp add: mult.commute)
  then have n: "0 \<le> y * ?w" "y * ?w + x < int (length mp)" "?w \<le> int (length mp)"
    using x(2,3) ok(1) mult_nonneg_nonneg [OF y(2), of ?w] by linarith+
  have h: "?h \<le> int (length mp)" using ok(1,2) y(2,3) by (simp add: mult_le_cancel_right1)
  have pos: "(if b then snd s else fst s) + k_global_start_row args = R" "(if b then fst s else snd s) + k_global_start_col args = C"
    using p by (auto simp: matrix_position_def split: prod.splits)
  have fits: "to_int32 x = Some x" "to_int32 y = Some y" "to_int32 (y * ?w) = Some (y * ?w)"
      "to_int32 (y * ?w + x) = Some (y * ?w + x)"
    unfolding to_int32_def using n h x(2,3) y(2,3) ok(3) by (intro if_P conjI; linarith)+
  have cell: "matrix_cell fpu b args s = y * ?w + x"
    using pos x(1) y(1) fits by (cases b) (simp_all add: matrix_cell_def matrix_index_def)
  have "y * ?w + x = i \<longleftrightarrow> i div ?w = y \<and> i mod ?w = x"
    using x(2,3) ok(1) by (auto simp: div_mult_mod_eq)
  then show ?thesis using n x(2) assms(2) by (auto simp: cell block_of_def p x(4) y(4))
qed

definition summarized ::
  "KernelArgs \<Rightarrow> (cell \<Rightarrow> fp) \<Rightarrow> bool \<Rightarrow> bool \<Rightarrow> fp list \<Rightarrow> fp list \<Rightarrow> fp list \<Rightarrow> fp list \<Rightarrow> bool" where
  "summarized args v do_rows do_cols A B A' B' \<longleftrightarrow>
     length A' = length A \<and> length B' = length B
     \<and> (if do_cols then \<forall>i < length A. best_value v (A ! i) (above args v (block_of False args (int i))) (A' ! i)
        else A' = A)
     \<and> (if do_rows then \<forall>i < length B. best_value v (B ! i) (above args v (block_of True args (int i))) (B' ! i)
        else B' = B)"

text \<open>
  C14. The MATRIX_SUMMARY kernel: if the tile lies in the matrix the summary divides into rectangles and no quotient
  is rounded up to an integer, then every element becomes the largest of its old value and the correlations of the
  cells of its rectangle that are not below the threshold. All indices are in range.
\<close>

theorem launch_MATRIX_SUMMARY_correct:
  assumes "args_ok args cov" "k_exclusion_lower args + k_exclusion_upper args < k_n_x args"
    and "op_profile_type info = PROFILE_TYPE_MATRIX_SUMMARY"
    and "op_fp_type info = PRECISION_DOUBLE \<or> op_fp_type info = PRECISION_ULTRA"
    and "do_cols \<longrightarrow> summary_ok fpu False args A" "do_rows \<longrightarrow> summary_ok fpu True args B"
    and "k_has_nan_input args \<or> (\<forall>s \<in> valid args. \<not> is_nan (corr_at fpu (ops_MATRIX_SUMMARY fpu eig unrollWid) args cov s))"
  shows "\<exists>cov' A' B'. compute_cpu_resources_and_launch fpu eig args info do_rows do_cols (cov, Dev_float A, Dev_float B)
      = Some (SCAMP_NO_ERROR, cov', Dev_float A', Dev_float B')
    \<and> summarized args (corr_at fpu (ops_MATRIX_SUMMARY fpu eig unrollWid) args cov) do_rows do_cols A B A' B'"
proof -
  let ?ops = "ops_MATRIX_SUMMARY fpu eig unrollWid"
  let ?v = "corr_at fpu ?ops args cov"
  have good: "good_summary args ?v"
    using assms(7) corr_at_finite [of args ?ops fpu cov]
    by (auto simp: good_summary_def dest: finite_not_nan)
  have blocks: "{s \<in> valid args. matrix_cell fpu b args s = i} = block_of b args i" if "summary_ok fpu b args mp" for b mp i
  proof -
    have "block_of b args i \<subseteq> valid args" by (auto simp: block_of_def)
    then show ?thesis using matrix_cell_block [OF that, of _ i] by blast
  qed
  have "ms.targets_ok fpu args do_rows do_cols A B"
    using matrix_cell_block [of fpu False args A] matrix_cell_block [of fpu True args B] assms(5,6)
    by (auto simp: ms.targets_ok_def)
  from ms.LaunchDoTile_correct [OF assms(1) good this unrollWid_pos assms(4)]
  obtain cov' A' B' where l: "LaunchDoTile fpu ?ops unrollWid (op_fp_type info) do_rows do_cols args (cov, A, B)
      = Some (SCAMP_NO_ERROR, cov', A', B')"
    and p: "ms.profiles_ok fpu args ?v do_rows do_cols A B (valid args) A' B'"
    by blast
  have "summarized args ?v do_rows do_cols A B A' B'"
    using p blocks [of False A] blocks [of True B] assms(5,6) unfolding summarized_def ms.profiles_ok_def ms.filled_def
    by (auto split: if_splits)
  then show ?thesis
    using l assms(2,3) by (auto simp: compute_cpu_resources_and_launch_def launch_as_def)
qed

text \<open>Two cells that belong to different elements of a summary of two columns and three rows.\<close>

definition summary_args :: KernelArgs where
  "summary_args = demo_args\<lparr>k_matrix_width := 2, k_matrix_height := 3, k_cols_per_cell := Fin (5 / 2), k_rows_per_cell := Fin 2,
     k_global_start_col := 2, k_global_start_row := 3\<rparr>"

lemma summary_args_ok:
  "valid summary_args = {(0, 0), (0, 1)}" "length mp = 6 \<Longrightarrow> summary_ok exact_fpu b summary_args mp"
  "block_of False summary_args 2 = {(0, 0)}" "block_of False summary_args 3 = {(0, 1)}"
proof -
  show v: "valid summary_args = {(0, 0), (0, 1)}" by (auto simp: valid_def summary_args_def demo_args_def)
  show "length mp = 6 \<Longrightarrow> summary_ok exact_fpu b summary_args mp"
    unfolding summary_ok_def v by (simp add: matrix_position_def extent_ok_def quotient_kept_def fp_of_int_def exact_fpu_def exact_def
        summary_args_def demo_args_def)
  show "block_of False summary_args 2 = {(0, 0)}" "block_of False summary_args 3 = {(0, 1)}"
    unfolding block_of_def v by (auto simp: matrix_position_def in_span_def summary_args_def demo_args_def)
qed

lemma launch_MATRIX_SUMMARY_correct_witness:
  "\<exists>cov' A' B'. compute_cpu_resources_and_launch exact_fpu list_eigen summary_args
      (demo_info PROFILE_TYPE_MATRIX_SUMMARY) True True
      ([Fin 0, Fin 1], Dev_float (replicate 6 (Fin (-2))), Dev_float (replicate 6 (Fin (-2))))
      = Some (SCAMP_NO_ERROR, cov', Dev_float A', Dev_float B')
    \<and> summarized summary_args
        (corr_at exact_fpu (ops_MATRIX_SUMMARY exact_fpu list_eigen unrollWid) summary_args [Fin 0, Fin 1])
        True True (replicate 6 (Fin (-2))) (replicate 6 (Fin (-2))) A' B'
    \<and> block_of False summary_args 2 = {(0, 0)} \<and> block_of False summary_args 3 = {(0, 1)}"
  unfolding summary_args_ok(3,4) simp_thms
  by (rule launch_MATRIX_SUMMARY_correct)
    (simp_all add: summary_args_ok, simp_all add: args_ok_def summary_args_def demo_args_def demo_info_def)

end
