(* ===== verification/Exclusion.thy ===== *)
theory Exclusion
  imports Tiling KernelCorrect
begin

text \<open>
  src/core/tile.cpp, \<open>get_exclusion\<close> and the two members that compute the diagonals a kernel must
  leave out, and what they achieve: in a self join the kernels of a tile look at exactly the cells
  outside the exclusion zone around the main diagonal.
\<close>

subsection \<open>The model\<close>

text \<open>
  The place and size of a tile; the rest of the class \<open>Tile\<close> extends this record. The window is less
  than \<open>2 ^ 31\<close>, so the unsigned sum does not wrap.
\<close>

record TilePos =
  current_tile_width :: int
  current_tile_height :: int
  current_tile_col :: int
  current_tile_row :: int

definition get_exclusion :: "int \<Rightarrow> int \<Rightarrow> int \<Rightarrow> int" where
  "get_exclusion window_size start_row start_column =
     (let exclusion = (window_size + 3) div 4
      in if start_column \<ge> start_row \<and> start_column < start_row + exclusion then exclusion else 0)"

definition sums_values :: "SCAMPProfileType \<Rightarrow> bool" where
  "sums_values t = (t = PROFILE_TYPE_SUM_THRESH \<or> t = PROFILE_TYPE_FREQUENCY_THRESH)"

definition get_exclusion_for_self_join :: "OpInfo \<Rightarrow> 'a TilePos_scheme \<Rightarrow> bool \<Rightarrow> int \<times> int" where
  "get_exclusion_for_self_join info t upper_tile =
     (let extra_exclusion = (if sums_values (op_profile_type info) then 1 else 0)
      in if upper_tile
         then (get_exclusion (op_mp_window info) (current_tile_row t) (current_tile_col t), 0)
         else let height = current_tile_height t - op_mp_window info + 1
              in (extra_exclusion,
                  get_exclusion (op_mp_window info) (current_tile_col t) (current_tile_row t + height)))"

definition global_start :: "OpInfo \<Rightarrow> 'a TilePos_scheme \<Rightarrow> int \<times> int" where
  "global_start info t =
     (if op_global_start_col_position info \<ge> 0 \<and> op_global_start_row_position info \<ge> 0
      then (current_tile_row t + op_global_start_row_position info,
            current_tile_col t + op_global_start_col_position info)
      else (current_tile_row t, current_tile_col t))"

definition get_exclusion_for_ab_join :: "OpInfo \<Rightarrow> 'a TilePos_scheme \<Rightarrow> bool \<Rightarrow> int \<times> int" where
  "get_exclusion_for_ab_join info t upper_tile =
     (let alternative = (if upper_tile \<and> sums_values (op_profile_type info) then 1 else 0)
      in if \<not> op_is_aligned info then (max 0 alternative, 0)
         else let height = current_tile_height t - op_mp_window info + 1;
                  width = current_tile_width t - op_mp_window info + 1;
                  (start_row, start_col) = global_start info t;
                  w = op_mp_window info;
                  (lower, upper) =
                    (if upper_tile
                     then (get_exclusion w start_row start_col,
                           if start_row > start_col then get_exclusion w start_row (start_col + width) else 0)
                     else (get_exclusion w start_col start_row,
                           if start_row \<le> start_col then get_exclusion w start_col (start_row + height) else 0))
              in (max lower alternative, upper))"

subsection \<open>The exclusion zone\<close>

definition exclusion_zone :: "OpInfo \<Rightarrow> int" where
  "exclusion_zone info = (op_mp_window info + 3) div 4"

lemma exclusion_zone_bounds:
  assumes "geometry_ok info"
  shows "1 \<le> exclusion_zone info" "exclusion_zone info \<le> op_mp_window info"
    "exclusion_zone info < op_max_tile_width info"
  using assms by (auto simp: exclusion_zone_def geometry_ok_def)

text \<open>
  The cells on the diagonals \<open>[lower, n_x - upper]\<close> of a region with \<open>n_y\<close> rows and \<open>n_x\<close> columns, as
  positions of the distance matrix: the rows of an upper triangle start at \<open>row\<close> and the columns at
  \<open>col\<close>; a lower triangle is walked transposed.
\<close>

definition diag_region :: "int \<Rightarrow> int \<Rightarrow> int \<times> int \<Rightarrow> cell set" where
  "diag_region n_x n_y e = {(r, c). 0 \<le> r \<and> r < n_y \<and> 0 \<le> c \<and> c < n_x \<and> fst e \<le> c - r \<and> c - r \<le> n_x - snd e}"

definition place_upper :: "'a TilePos_scheme \<Rightarrow> cell \<Rightarrow> int \<times> int" where
  "place_upper t s = (current_tile_row t + fst s, current_tile_col t + snd s)"

definition place_lower :: "'a TilePos_scheme \<Rightarrow> cell \<Rightarrow> int \<times> int" where
  "place_lower t s = (current_tile_row t + snd s, current_tile_col t + fst s)"

definition subseq_width :: "OpInfo \<Rightarrow> 'a TilePos_scheme \<Rightarrow> int" where
  "subseq_width info t = current_tile_width t - op_mp_window info + 1"

definition subseq_height :: "OpInfo \<Rightarrow> 'a TilePos_scheme \<Rightarrow> int" where
  "subseq_height info t = current_tile_height t - op_mp_window info + 1"

definition tile_box :: "OpInfo \<Rightarrow> 'a TilePos_scheme \<Rightarrow> (int \<times> int) set" where
  "tile_box info t =
     {(i, j). current_tile_row t \<le> i \<and> i < current_tile_row t + subseq_height info t
        \<and> current_tile_col t \<le> j \<and> j < current_tile_col t + subseq_width info t}"

definition self_upper_cells :: "OpInfo \<Rightarrow> 'a TilePos_scheme \<Rightarrow> (int \<times> int) set" where
  "self_upper_cells info t = place_upper t `
     diag_region (subseq_width info t) (subseq_height info t) (get_exclusion_for_self_join info t True)"

definition self_lower_cells :: "OpInfo \<Rightarrow> 'a TilePos_scheme \<Rightarrow> (int \<times> int) set" where
  "self_lower_cells info t = place_lower t `
     diag_region (subseq_height info t) (subseq_width info t) (get_exclusion_for_self_join info t False)"

lemma place_upper_region:
  "place_upper t ` diag_region n_x n_y e = {(i, j).
     current_tile_row t \<le> i \<and> i < current_tile_row t + n_y \<and> current_tile_col t \<le> j \<and> j < current_tile_col t + n_x
     \<and> fst e \<le> (j - current_tile_col t) - (i - current_tile_row t)
     \<and> (j - current_tile_col t) - (i - current_tile_row t) \<le> n_x - snd e}"
proof (rule set_eqI, clarify)
  fix i j
  have "(i, j) \<in> place_upper t ` diag_region n_x n_y e \<longleftrightarrow>
      (i - current_tile_row t, j - current_tile_col t) \<in> diag_region n_x n_y e"
    by (force simp: place_upper_def)
  also have "\<dots> \<longleftrightarrow> (i, j) \<in> {(i, j).
     current_tile_row t \<le> i \<and> i < current_tile_row t + n_y \<and> current_tile_col t \<le> j \<and> j < current_tile_col t + n_x
     \<and> fst e \<le> (j - current_tile_col t) - (i - current_tile_row t)
     \<and> (j - current_tile_col t) - (i - current_tile_row t) \<le> n_x - snd e}"
    by (auto simp: diag_region_def)
  finally show "(i, j) \<in> place_upper t ` diag_region n_x n_y e \<longleftrightarrow> (i, j) \<in> {(i, j).
     current_tile_row t \<le> i \<and> i < current_tile_row t + n_y \<and> current_tile_col t \<le> j \<and> j < current_tile_col t + n_x
     \<and> fst e \<le> (j - current_tile_col t) - (i - current_tile_row t)
     \<and> (j - current_tile_col t) - (i - current_tile_row t) \<le> n_x - snd e}" .
qed

lemma place_lower_region:
  "place_lower t ` diag_region n_x n_y e = {(i, j).
     current_tile_row t \<le> i \<and> i < current_tile_row t + n_x \<and> current_tile_col t \<le> j \<and> j < current_tile_col t + n_y
     \<and> fst e \<le> (i - current_tile_row t) - (j - current_tile_col t)
     \<and> (i - current_tile_row t) - (j - current_tile_col t) \<le> n_x - snd e}"
proof (rule set_eqI, clarify)
  fix i j
  have "(i, j) \<in> place_lower t ` diag_region n_x n_y e \<longleftrightarrow>
      (j - current_tile_col t, i - current_tile_row t) \<in> diag_region n_x n_y e"
    by (force simp: place_lower_def)
  also have "\<dots> \<longleftrightarrow> (i, j) \<in> {(i, j).
     current_tile_row t \<le> i \<and> i < current_tile_row t + n_x \<and> current_tile_col t \<le> j \<and> j < current_tile_col t + n_y
     \<and> fst e \<le> (i - current_tile_row t) - (j - current_tile_col t)
     \<and> (i - current_tile_row t) - (j - current_tile_col t) \<le> n_x - snd e}"
    by (auto simp: diag_region_def)
  finally show "(i, j) \<in> place_lower t ` diag_region n_x n_y e \<longleftrightarrow> (i, j) \<in> {(i, j).
     current_tile_row t \<le> i \<and> i < current_tile_row t + n_x \<and> current_tile_col t \<le> j \<and> j < current_tile_col t + n_y
     \<and> fst e \<le> (i - current_tile_row t) - (j - current_tile_col t)
     \<and> (i - current_tile_row t) - (j - current_tile_col t) \<le> n_x - snd e}" .
qed

text \<open>A tile of a self join as \<open>do_work\<close> places it.\<close>

definition placed :: "OpInfo \<Rightarrow> work_item \<Rightarrow> 'a TilePos_scheme \<Rightarrow> bool" where
  "placed info w t \<longleftrightarrow> current_tile_row t = tile_row_pos info w \<and> current_tile_col t = tile_col_pos info w
     \<and> current_tile_width t = tile_ts_width info w \<and> current_tile_height t = tile_ts_height info w"

lemma placed_box: "placed info w t \<Longrightarrow> tile_box info t = tile_cells info w"
  by (auto simp: placed_def tile_box_def tile_cells_def subseq_height_def subseq_width_def)

lemma placed_diag:
  assumes "geometry_ok info" "placed info (r, c) t" "(r, c) \<in> upper_tiles (num_tile_cols info)" "op_self_join info"
  shows "r = c \<Longrightarrow> current_tile_col t = current_tile_row t"
    and "r = c \<Longrightarrow> subseq_height info t = subseq_width info t"
    and "r < c \<Longrightarrow> subseq_height info t = op_max_tile_width info"
    and "r < c \<Longrightarrow> current_tile_row t + op_max_tile_width info \<le> current_tile_col t"
    and "c = r + 1 \<Longrightarrow> current_tile_row t + op_max_tile_width info = current_tile_col t"
    and "r + 1 < c \<Longrightarrow> current_tile_row t + 2 * op_max_tile_width info \<le> current_tile_col t"
proof -
  let ?h = "op_max_tile_width info"
  have h: "op_max_tile_height info = ?h" "0 < ?h" "op_max_tile_ts_size info = ?h + op_mp_window info - 1"
    and len: "op_full_ts_len_A info = op_full_ts_len_B info"
    using assms(1,4) by (auto simp: geometry_ok_def)
  have pos: "current_tile_row t = r * ?h" "current_tile_col t = c * ?h"
    using assms(2) h by (auto simp: placed_def tile_row_pos_def tile_col_pos_def)
  show "r = c \<Longrightarrow> current_tile_col t = current_tile_row t" by (simp add: pos)
  show "r = c \<Longrightarrow> subseq_height info t = subseq_width info t"
    using assms(2) h len
    by (simp add: placed_def subseq_height_def subseq_width_def tile_ts_height_def tile_ts_width_def
        tile_row_pos_def tile_col_pos_def)
  have "c < num_tile_cols info" using assms(3) by (simp add: upper_tiles_def)
  then have cn: "c * ?h < op_full_ts_len_A info - op_mp_window info + 1"
    unfolding num_tile_cols_def less_ceil_div_iff [OF h(2)] .
  have le: "r * ?h + ?h \<le> c * ?h" if "r < c"
  proof -
    have "(r + 1) * ?h \<le> c * ?h" using that h(2) by (intro mult_right_mono) auto
    then show ?thesis by (simp add: algebra_simps)
  qed
  show "r < c \<Longrightarrow> current_tile_row t + ?h \<le> current_tile_col t" using le by (simp add: pos)
  show "r < c \<Longrightarrow> subseq_height info t = ?h"
    using le assms(2) h len cn
    by (simp add: placed_def subseq_height_def tile_ts_height_def tile_row_pos_def)
  show "c = r + 1 \<Longrightarrow> current_tile_row t + ?h = current_tile_col t" by (simp add: pos algebra_simps)
  have "r * ?h + 2 * ?h \<le> c * ?h" if "r + 1 < c"
  proof -
    have "(r + 2) * ?h \<le> c * ?h" using that h(2) by (intro mult_right_mono) auto
    then show ?thesis by (simp add: algebra_simps)
  qed
  then show "r + 1 < c \<Longrightarrow> current_tile_row t + 2 * ?h \<le> current_tile_col t" by (simp add: pos)
qed

lemma self_upper_cells_eq:
  assumes "geometry_ok info" "placed info (r, c) t" "(r, c) \<in> upper_tiles (num_tile_cols info)" "op_self_join info"
  shows "self_upper_cells info t = {(i, j) \<in> tile_box info t.
      current_tile_col t - current_tile_row t \<le> j - i \<and> exclusion_zone info \<le> j - i}"
proof (cases "r = c")
  case True
  have e: "get_exclusion_for_self_join info t True = (exclusion_zone info, 0)"
    using placed_diag(1) [OF assms True] exclusion_zone_bounds [OF assms(1)]
    by (simp add: get_exclusion_for_self_join_def get_exclusion_def exclusion_zone_def)
  show ?thesis
    unfolding self_upper_cells_def e
    using placed_diag(1) [OF assms True]
      exclusion_zone_bounds [OF assms(1)] by (auto simp: place_upper_region tile_box_def)
next
  case False
  then have rc: "r < c" using assms(3) by (auto simp: upper_tiles_def)
  note p = placed_diag(4) [OF assms rc] exclusion_zone_bounds [OF assms(1)]
  have e: "get_exclusion_for_self_join info t True = (0, 0)"
    using p by (simp add: get_exclusion_for_self_join_def get_exclusion_def exclusion_zone_def)
  show ?thesis
    unfolding self_upper_cells_def e using p by (auto simp: place_upper_region tile_box_def)
qed

lemma self_lower_cells_eq:
  assumes "geometry_ok info" "placed info (r, c) t" "(r, c) \<in> upper_tiles (num_tile_cols info)" "op_self_join info"
    and rc: "r < c"
  shows "self_lower_cells info t = {(i, j) \<in> tile_box info t.
      j - i \<le> current_tile_col t - current_tile_row t - (if sums_values (op_profile_type info) then 1 else 0)
      \<and> exclusion_zone info \<le> j - i}"
proof -
  let ?h = "op_max_tile_width info" and ?e = "exclusion_zone info"
  note p = placed_diag(3,4) [OF assms(1-4) rc] exclusion_zone_bounds [OF assms(1)]
  define x where "x = (if sums_values (op_profile_type info) then 1 else 0 :: int)"
  have h: "current_tile_height t - op_mp_window info + 1 = ?h"
    using p(1) by (simp add: subseq_height_def)
  show ?thesis
  proof (cases "c = r + 1")
    case True
    note q = placed_diag(5) [OF assms(1-4) True]
    have e: "get_exclusion_for_self_join info t False = (x, ?e)"
      using p q h by (simp add: get_exclusion_for_self_join_def get_exclusion_def exclusion_zone_def x_def)
    show ?thesis
      unfolding self_lower_cells_def e using p q
      by (auto simp: place_lower_region tile_box_def x_def)
  next
    case False
    then have "r + 1 < c" using rc by simp
    note q = placed_diag(6) [OF assms(1-4) this]
    have e: "get_exclusion_for_self_join info t False = (x, 0)"
      using p q h by (simp add: get_exclusion_for_self_join_def get_exclusion_def exclusion_zone_def x_def)
    show ?thesis
      unfolding self_lower_cells_def e using p q
      by (auto simp: place_lower_region tile_box_def x_def)
  qed
qed

definition tile_pos :: "OpInfo \<Rightarrow> work_item \<Rightarrow> TilePos" where
  "tile_pos info w = \<lparr>current_tile_width = tile_ts_width info w, current_tile_height = tile_ts_height info w,
     current_tile_col = tile_col_pos info w, current_tile_row = tile_row_pos info w\<rparr>"

lemma placed_tile_pos [simp]: "placed info w (tile_pos info w)"
  by (simp add: placed_def tile_pos_def)

text \<open>The cells the kernels of a tile look at: a diagonal tile runs the upper kernel only.\<close>

definition self_join_cells :: "OpInfo \<Rightarrow> work_item \<Rightarrow> (int \<times> int) set" where
  "self_join_cells info w = self_upper_cells info (tile_pos info w)
     \<union> (if fst w = snd w then {} else self_lower_cells info (tile_pos info w))"

lemma self_join_cells_eq:
  assumes "geometry_ok info" "op_self_join info" "w \<in> upper_tiles (num_tile_cols info)"
  shows "self_join_cells info w = {(i, j) \<in> tile_cells info w. exclusion_zone info \<le> j - i}"
proof -
  obtain r c where w: "w = (r, c)" by (cases w)
  note upper = self_upper_cells_eq [OF assms(1) placed_tile_pos assms(3) [unfolded w] assms(2)]
  note box = placed_box [OF placed_tile_pos [of info w]]
  show ?thesis
  proof (cases "r = c")
    case True
    then show ?thesis
      using upper placed_diag(1) [OF assms(1) placed_tile_pos assms(3) [unfolded w] assms(2)]
        exclusion_zone_bounds(1) [OF assms(1)] box
      by (auto simp: self_join_cells_def w)
  next
    case False
    then have "r < c" using assms(3) by (auto simp: w upper_tiles_def)
    then show ?thesis
      using upper self_lower_cells_eq [OF assms(1) placed_tile_pos assms(3) [unfolded w] assms(2)] box
      by (auto simp: self_join_cells_def w)
  qed
qed

lemma self_join_tile_of:
  assumes "geometry_ok info" "op_self_join info"
    and "0 \<le> i" "i \<le> j" "j \<le> op_full_ts_len_A info - op_mp_window info"
  shows "w \<in> upper_tiles (num_tile_cols info) \<and> (i, j) \<in> self_join_cells info w
      \<longleftrightarrow> w = (i div op_max_tile_width info, j div op_max_tile_width info) \<and> exclusion_zone info \<le> j - i"
proof -
  let ?h = "op_max_tile_width info" and ?n = "num_tile_cols info"
  have len: "op_full_ts_len_A info = op_full_ts_len_B info" "op_max_tile_height info = ?h" "0 < ?h"
    using assms(1,2) by (auto simp: geometry_ok_def)
  have n: "num_tile_rows info = ?n" by (rule num_tiles_bounds(5) [OF assms(1,2)])
  have box: "t \<in> all_tiles ?n ?n \<and> (i, j) \<in> tile_cells info t \<longleftrightarrow> t = (i div ?h, j div ?h)" for t
    using tile_cells_unique [OF assms(1), of i j t] assms(3-5) len n by auto
  have le: "i div ?h \<le> j div ?h" using assms(4) len(3) by (rule zdiv_mono1)
  have "(i div ?h, j div ?h) \<in> all_tiles ?n ?n" using box by blast
  then have up: "(i div ?h, j div ?h) \<in> upper_tiles ?n" using le by (auto simp: all_tiles_def upper_tiles_def)
  have "w \<in> upper_tiles ?n \<Longrightarrow> w \<in> all_tiles ?n ?n" by (auto simp: upper_tiles_def all_tiles_def)
  then show ?thesis
    using box [of w] up self_join_cells_eq [OF assms(1,2), of w] by auto
qed

text \<open>
  C17. A self join is exact: every pair of subsequences outside the exclusion zone is looked at in
  exactly one tile of the work queue, and no pair inside the zone in any.
\<close>

theorem self_join_covers_matrix:
  assumes "geometry_ok info" "op_self_join info"
    and "0 \<le> i" "i \<le> j" "j \<le> op_full_ts_len_A info - op_mp_window info"
  shows "if exclusion_zone info \<le> j - i
    then \<exists>!w. w \<in> upper_tiles (num_tile_cols info) \<and> (i, j) \<in> self_join_cells info w
    else \<forall>w. \<not> (w \<in> upper_tiles (num_tile_cols info) \<and> (i, j) \<in> self_join_cells info w)"
  unfolding self_join_tile_of [OF assms] by auto

lemma self_join_covers_matrix_witness:
  "if exclusion_zone demo_geometry \<le> 5 - 2
   then \<exists>!w. w \<in> upper_tiles (num_tile_cols demo_geometry) \<and> (2, 5) \<in> self_join_cells demo_geometry w
   else \<forall>w. \<not> (w \<in> upper_tiles (num_tile_cols demo_geometry) \<and> (2, 5) \<in> self_join_cells demo_geometry w)"
  by (rule self_join_covers_matrix [OF demo_geometry_ok]) (simp_all add: demo_geometry_def)

text \<open>
  C18. The two kernels of a self-join tile never look at the same cell of a profile that sums.
\<close>

theorem self_join_no_double_count:
  assumes "geometry_ok info" "op_self_join info" "(r, c) \<in> upper_tiles (num_tile_cols info)" "r < c"
    and "sums_values (op_profile_type info)"
  shows "self_upper_cells info (tile_pos info (r, c)) \<inter> self_lower_cells info (tile_pos info (r, c)) = {}"
  using self_upper_cells_eq [OF assms(1) placed_tile_pos assms(3,2)]
    self_lower_cells_eq [OF assms(1) placed_tile_pos assms(3,2,4)] assms(5)
  by auto

lemma self_join_no_double_count_witness:
  "self_upper_cells (demo_geometry\<lparr>op_profile_type := PROFILE_TYPE_SUM_THRESH\<rparr>)
      (tile_pos (demo_geometry\<lparr>op_profile_type := PROFILE_TYPE_SUM_THRESH\<rparr>) (0, 1))
   \<inter> self_lower_cells (demo_geometry\<lparr>op_profile_type := PROFILE_TYPE_SUM_THRESH\<rparr>)
      (tile_pos (demo_geometry\<lparr>op_profile_type := PROFILE_TYPE_SUM_THRESH\<rparr>) (0, 1)) = {}"
  by (rule self_join_no_double_count)
    (simp_all add: geometry_ok_def demo_geometry_def upper_tiles_def num_tile_cols_def sums_values_def)

subsection \<open>AB joins\<close>

definition ab_upper_cells :: "OpInfo \<Rightarrow> 'a TilePos_scheme \<Rightarrow> (int \<times> int) set" where
  "ab_upper_cells info t = place_upper t `
     diag_region (subseq_width info t) (subseq_height info t) (get_exclusion_for_ab_join info t True)"

definition ab_lower_cells :: "OpInfo \<Rightarrow> 'a TilePos_scheme \<Rightarrow> (int \<times> int) set" where
  "ab_lower_cells info t = place_lower t `
     diag_region (subseq_height info t) (subseq_width info t) (get_exclusion_for_ab_join info t False)"

text \<open>
  An AB join that is not aligned looks at every cell of a tile, at each once for a profile that
  sums.
\<close>

theorem ab_join_all_cells:
  assumes "\<not> op_is_aligned info"
  shows "ab_upper_cells info t \<union> ab_lower_cells info t = tile_box info t
    \<and> (sums_values (op_profile_type info) \<longrightarrow> ab_upper_cells info t \<inter> ab_lower_cells info t = {})"
  using assms
  by (auto simp: ab_upper_cells_def ab_lower_cells_def get_exclusion_for_ab_join_def place_upper_region
      place_lower_region tile_box_def)

lemma ab_join_all_cells_witness:
  "ab_upper_cells demo_geometry (tile_pos demo_geometry (0, 1)) \<union> ab_lower_cells demo_geometry (tile_pos demo_geometry (0, 1))
   = tile_box demo_geometry (tile_pos demo_geometry (0, 1))"
proof -
  have "\<not> op_is_aligned demo_geometry" by (simp add: demo_geometry_def)
  from ab_join_all_cells [OF this] show ?thesis by blast
qed

text \<open>
  C19. An aligned AB join (one that is part of a larger self join) leaves out exactly the cells of the
  exclusion zone in a full tile whose global position is a multiple of the tile size away from the
  main diagonal.
\<close>

theorem ab_join_aligned_exact:
  assumes "op_is_aligned info" and "global_start info t = (gr, gc)"
    and "subseq_width info t = h" "subseq_height info t = h" "exclusion_zone info \<le> h" "1 \<le> exclusion_zone info"
    and "gc - gr = k * h"
  shows "ab_upper_cells info t \<union> ab_lower_cells info t =
    {(i, j) \<in> tile_box info t.
       exclusion_zone info \<le> \<bar>(j - current_tile_col t + gc) - (i - current_tile_row t + gr)\<bar>}"
proof -
  let ?e = "exclusion_zone info"
  have w: "current_tile_width t - op_mp_window info + 1 = h" "current_tile_height t - op_mp_window info + 1 = h"
    using assms(3,4) by (simp_all add: subseq_width_def subseq_height_def)
  have ex: "get_exclusion (op_mp_window info) a b = (if a \<le> b \<and> b < a + ?e then ?e else 0)" for a b
    by (auto simp: get_exclusion_def exclusion_zone_def)
  consider "k = 0" | "k = -1" | "k = 1" | "k \<le> -2" | "2 \<le> k" by linarith
  then show ?thesis
  proof cases
    case 1
    then have "gc = gr" using assms(7) by simp
    then show ?thesis
      using assms(1-6)
      by (auto simp: ab_upper_cells_def ab_lower_cells_def place_upper_region place_lower_region tile_box_def
          get_exclusion_for_ab_join_def ex w Let_def)
  next
    case 2
    then have "gc + h = gr" using assms(7) by simp
    then show ?thesis
      using assms(1-6)
      by (auto simp: ab_upper_cells_def ab_lower_cells_def place_upper_region place_lower_region tile_box_def
          get_exclusion_for_ab_join_def ex w Let_def)
  next
    case 3
    then have "gr + h = gc" using assms(7) by simp
    then show ?thesis
      using assms(1-6)
      by (auto simp: ab_upper_cells_def ab_lower_cells_def place_upper_region place_lower_region tile_box_def
          get_exclusion_for_ab_join_def ex w Let_def)
  next
    case 4
    then have "k * h \<le> -2 * h" using assms(5,6) by (intro mult_right_mono) auto
    then have "gc + 2 * h \<le> gr" using assms(7) by simp
    then show ?thesis
      using assms(1-6)
      by (auto simp: ab_upper_cells_def ab_lower_cells_def place_upper_region place_lower_region tile_box_def
          get_exclusion_for_ab_join_def ex w Let_def)
  next
    case 5
    then have "2 * h \<le> k * h" using assms(5,6) by (intro mult_right_mono) auto
    then have "gr + 2 * h \<le> gc" using assms(7) by simp
    then show ?thesis
      using assms(1-6)
      by (auto simp: ab_upper_cells_def ab_lower_cells_def place_upper_region place_lower_region tile_box_def
          get_exclusion_for_ab_join_def ex w Let_def)
  qed
qed

definition aligned_geometry :: OpInfo where
  "aligned_geometry = demo_geometry\<lparr>op_self_join := False, op_is_aligned := True, op_mp_window := 9,
     op_max_tile_ts_size := 18, op_max_tile_width := 10, op_max_tile_height := 10,
     op_full_ts_len_A := 17, op_full_ts_len_B := 36\<rparr>"

lemma ab_join_aligned_exact_witness:
  "ab_upper_cells (aligned_geometry\<lparr>op_full_ts_len_A := 18\<rparr>) (tile_pos (aligned_geometry\<lparr>op_full_ts_len_A := 18\<rparr>) (1, 0))
    \<union> ab_lower_cells (aligned_geometry\<lparr>op_full_ts_len_A := 18\<rparr>) (tile_pos (aligned_geometry\<lparr>op_full_ts_len_A := 18\<rparr>) (1, 0)) =
    {(i, j) \<in> tile_box (aligned_geometry\<lparr>op_full_ts_len_A := 18\<rparr>) (tile_pos (aligned_geometry\<lparr>op_full_ts_len_A := 18\<rparr>) (1, 0)).
       exclusion_zone (aligned_geometry\<lparr>op_full_ts_len_A := 18\<rparr>)
         \<le> \<bar>(j - current_tile_col (tile_pos (aligned_geometry\<lparr>op_full_ts_len_A := 18\<rparr>) (1, 0)) + 0)
            - (i - current_tile_row (tile_pos (aligned_geometry\<lparr>op_full_ts_len_A := 18\<rparr>) (1, 0)) + 10)\<bar>}"
  by (rule ab_join_aligned_exact [where h = 10 and k = "-1"])
    (simp_all add: aligned_geometry_def demo_geometry_def tile_pos_def global_start_def subseq_width_def
      subseq_height_def exclusion_zone_def tile_ts_width_def tile_ts_height_def tile_row_pos_def tile_col_pos_def)


end
