(* ===== verification/Stats.thy ===== *)
theory Stats
  imports Common
begin

text \<open>
  src/core/cpu_stats.cpp: cleaning a time series, moving means, sums of squared differences and the
  vectors of the covariance recurrence; and \<open>qt_compute_helper::compute_QT_CPU\<close> of
  src/core/qt_helper.cpp, the first row of covariances of a tile. \<open>rd\<close> is the rounding of double.
  In exact arithmetic the fast routines equal the brute-force ones, and the recurrence yields the
  centred dot products, so that the correlations of the kernel are Pearson correlations.

  A definition is \<open>None\<close> where the code indexes outside a vector or allocates one of negative size.
\<close>

subsection \<open>The model\<close>

definition FLATNESS_EPSILON :: "rounding \<Rightarrow> fp" where
  "FLATNESS_EPSILON rd = rd (1 / 10 ^ 13)"

definition convert_non_finite_to_zero :: "fp list \<Rightarrow> int \<Rightarrow> (fp list \<times> bool list) option" where
  "convert_non_finite_to_zero T m = do {
     clean0 \<leftarrow> valloc (int (length T)) (Fin 0);
     nan0 \<leftarrow> valloc (int (length T) - m + 1) False;
     (steps, clean, nan) \<leftarrow> for1 0 (int (length T)) (\<lambda>i (steps, clean, nan). do {
       x \<leftarrow> aget T i;
       (steps', clean') \<leftarrow>
         (if is_finite x then do { c \<leftarrow> aset clean i x; Some (steps, c) }
          else do { c \<leftarrow> aset clean i (Fin 0); Some (0, c) });
       nan' \<leftarrow> (if i \<ge> m - 1 then aset nan (i - m + 1) (steps' < m) else Some nan);
       Some (steps' + 1, clean', nan') }) (m, clean0, nan0);
     Some (clean, nan) }"

definition brute_force_moving_mean :: "rounding \<Rightarrow> fp list \<Rightarrow> int \<Rightarrow> fp list option" where
  "brute_force_moving_mean rd a w = do {
     result \<leftarrow> valloc (int (length a) - w + 1) (Fin 0);
     for1 0 (int (length result)) (\<lambda>i result. do {
       sum \<leftarrow> for1 0 w (\<lambda>j sum. do { x \<leftarrow> aget a (i + j); Some (fadd rd sum x) }) (Fin 0);
       aset result i (fdiv rd sum (fp_of_int rd w)) }) result }"

text \<open>One compensated addition and one compensated subtraction of \<open>moving_mean\<close>, on \<open>(p, s)\<close>.\<close>

definition mm_add :: "rounding \<Rightarrow> fp \<Rightarrow> fp \<times> fp \<Rightarrow> fp \<times> fp" where
  "mm_add rd y ps = (let (p, s) = ps; x = fadd rd p y; z = fsub rd x p
     in (x, fadd rd s (fadd rd (fsub rd p (fsub rd x z)) (fsub rd y z))))"

definition mm_sub :: "rounding \<Rightarrow> fp \<Rightarrow> fp \<times> fp \<Rightarrow> fp \<times> fp" where
  "mm_sub rd y ps = (let (p, s) = ps; x = fsub rd p y; z = fsub rd x p
     in (x, fadd rd s (fsub rd (fsub rd p (fsub rd x z)) (fadd rd y z))))"

definition mm_value :: "rounding \<Rightarrow> int \<Rightarrow> fp \<times> fp \<Rightarrow> fp" where
  "mm_value rd w ps = fdiv rd (fadd rd (fst ps) (snd ps)) (fp_of_int rd w)"

definition moving_mean :: "rounding \<Rightarrow> fp list \<Rightarrow> int \<Rightarrow> fp list option" where
  "moving_mean rd a w = do {
     result \<leftarrow> valloc (int (length a) - w + 1) (Fin 0);
     p0 \<leftarrow> aget a 0;
     ps \<leftarrow> for1 1 w (\<lambda>i ps. do { y \<leftarrow> aget a i; Some (mm_add rd y ps) }) (p0, Fin 0);
     result \<leftarrow> aset result 0 (mm_value rd w ps);
     (ps, result) \<leftarrow> for1 w (int (length a)) (\<lambda>i (ps, result). do {
       old \<leftarrow> aget a (i - w);
       new \<leftarrow> aget a i;
       (let ps' = mm_add rd new (mm_sub rd old ps)
        in do { result' \<leftarrow> aset result (i - w + 1) (mm_value rd w ps'); Some (ps', result') }) }) (ps, result);
     Some result }"

definition brute_force_sum_of_squared_difference ::
  "rounding \<Rightarrow> fp list \<Rightarrow> fp list \<Rightarrow> int \<Rightarrow> fp list option" where
  "brute_force_sum_of_squared_difference rd a mns w = do {
     result \<leftarrow> valloc (int (length a) - w + 1) (Fin 0);
     for1 0 (int (length a) - w + 1) (\<lambda>i result. do {
       sum \<leftarrow> for1 0 w (\<lambda>j sum. do {
         x \<leftarrow> aget a (i + j); \<mu> \<leftarrow> aget mns i;
         (let val = fsub rd x \<mu> in Some (fadd rd sum (fmul rd val val))) }) (Fin 0);
       aset result i sum }) result }"

definition fast_sum_of_squared_difference ::
  "rounding \<Rightarrow> fp list \<Rightarrow> fp list \<Rightarrow> int \<Rightarrow> fp list option" where
  "fast_sum_of_squared_difference rd a mns w = do {
     result \<leftarrow> valloc (int (length a) - w + 1) (Fin 0);
     sum \<leftarrow> for1 0 w (\<lambda>i sum. do {
       x \<leftarrow> aget a i; \<mu> \<leftarrow> aget mns 0;
       (let val = fsub rd x \<mu> in Some (fadd rd sum (fmul rd val val))) }) (Fin 0);
     result \<leftarrow> aset result 0 sum;
     for1 1 (int (length a) - w + 1) (\<lambda>i result. do {
       prev \<leftarrow> aget result (i - 1);
       old \<leftarrow> aget a (i - 1); \<mu>0 \<leftarrow> aget mns (i - 1);
       new \<leftarrow> aget a (i + w - 1); \<mu>1 \<leftarrow> aget mns i;
       aset result i (fadd rd prev
         (fmul rd (fadd rd (fsub rd old \<mu>0) (fsub rd new \<mu>1)) (fsub rd new old))) }) result }"

definition invert_norms ::
  "rounding \<Rightarrow> bool list \<Rightarrow> int \<Rightarrow> fp list \<Rightarrow> (fp list \<times> int list) option" where
  "invert_norms rd nanvalues n ssq =
     for1 0 n (\<lambda>i (nrm, nans). do {
       isnan \<leftarrow> aget nanvalues i;
       x \<leftarrow> aget nrm i;
       (if isnan then do { nrm' \<leftarrow> aset nrm i NaN; Some (nrm', nans @ [i]) }
        else if fle x (FLATNESS_EPSILON rd)
        then do { nrm' \<leftarrow> aset nrm i NaN; Some (nrm', nans @ [i]) }
        else do { nrm' \<leftarrow> aset nrm i (fdiv rd (Fin 1) (fsqrt rd x)); Some (nrm', nans) }) })
     (ssq, [])"

definition compute_df_dg ::
  "rounding \<Rightarrow> fp list \<Rightarrow> fp list \<Rightarrow> int \<Rightarrow> int \<Rightarrow> (fp list \<times> fp list) option" where
  "compute_df_dg rd T mns m n = do {
     df0 \<leftarrow> valloc n (Fin 0);
     dg0 \<leftarrow> valloc n (Fin 0);
     for1 0 (n - 1) (\<lambda>i (df, dg). do {
       new \<leftarrow> aget T (i + m); old \<leftarrow> aget T i;
       \<mu>1 \<leftarrow> aget mns (i + 1); \<mu>0 \<leftarrow> aget mns i;
       df' \<leftarrow> aset df i (fdiv rd (fsub rd new old) (Fin 2));
       dg' \<leftarrow> aset dg i (fadd rd (fsub rd new \<mu>1) (fsub rd old \<mu>0));
       Some (df', dg') }) (df0, dg0) }"

definition compute_statistics_cpu ::
  "rounding \<Rightarrow> fp list \<Rightarrow> bool list \<Rightarrow> int \<Rightarrow> bool \<Rightarrow> PrecomputedInfo option" where
  "compute_statistics_cpu rd T nanvalues m high_precision_norms =
     (let n = int (length T) - m + 1 in do {
       mn \<leftarrow> (if high_precision_norms then brute_force_moving_mean rd T m else moving_mean rd T m);
       ssq \<leftarrow> (if high_precision_norms then brute_force_sum_of_squared_difference rd T mn m
               else fast_sum_of_squared_difference rd T mn m);
       (nrm, nans) \<leftarrow> invert_norms rd nanvalues n ssq;
       (f, g) \<leftarrow> compute_df_dg rd T mn m n;
       Some \<lparr>norms = nrm, df = f, dg = g, means = mn, nan_idxs = nans\<rparr> })"

definition compute_combined_stats_cpu ::
  "rounding \<Rightarrow> fp list \<Rightarrow> fp list \<Rightarrow> fp list \<Rightarrow> int \<Rightarrow> bool \<Rightarrow> CombinedStats option" where
  "compute_combined_stats_cpu rd A means_A B m high_precision =
     (let na = int (length A) - m + 1;
          na2 = int (length A) - (m - 1) + 1;
          nb2 = int (length B) - (m - 1) + 1
      in do {
       dc_fwd0 \<leftarrow> valloc na2 (Fin 0);
       dc_bkwd0 \<leftarrow> valloc na2 (Fin 0);
       dr_fwd0 \<leftarrow> valloc nb2 (Fin 0);
       dr_bkwd0 \<leftarrow> valloc nb2 (Fin 0);
       means_B \<leftarrow> (if high_precision then brute_force_moving_mean rd B (m - 1)
                     else moving_mean rd B (m - 1));
       (cb, cf) \<leftarrow> for1 0 na (\<lambda>i (cb, cf). do {
         a \<leftarrow> aget A i; \<mu>0 \<leftarrow> aget means_A i;
         cb' \<leftarrow> aset cb i (fmul rd (Fin (-1)) (fsub rd a \<mu>0));
         am \<leftarrow> aget A (i + m); \<mu>1 \<leftarrow> aget means_A (i + 1);
         cf' \<leftarrow> aset cf i (fsub rd am \<mu>1);
         Some (cb', cf') }) (dc_bkwd0, dc_fwd0);
       (rb, rf) \<leftarrow> for1 0 nb2 (\<lambda>i (rb, rf). do {
         b \<leftarrow> aget B i; \<mu>1 \<leftarrow> aget means_B (i + 1);
         rb' \<leftarrow> aset rb i (fsub rd b \<mu>1);
         bm \<leftarrow> aget B (i + m);
         rf' \<leftarrow> aset rf i (fsub rd bm \<mu>1);
         Some (rb', rf') }) (dr_bkwd0, dr_fwd0);
       Some \<lparr>dr_fwd = rf, dr_bkwd = rb, dc_fwd = cf, dc_bkwd = cb\<rparr> })"

text \<open>
  \<open>compute_QT_CPU\<close>: \<open>size\<close> is the length of the tile's buffers, \<open>T\<close> and \<open>Q\<close> point into them.
\<close>

definition compute_QT_CPU ::
  "rounding \<Rightarrow> int \<Rightarrow> int \<Rightarrow> fp list \<Rightarrow> fp list \<Rightarrow> fp list \<Rightarrow> fp list option" where
  "compute_QT_CPU rd sz window_size QT T Q =
     (let n = sz - window_size + 1 in do {
       (rolling, qm) \<leftarrow> for1 0 window_size (\<lambda>i (rolling, qm). do {
         t \<leftarrow> aget T i; q \<leftarrow> aget Q i;
         Some (fadd rd rolling t, fadd rd qm q) }) (Fin 0, Fin 0);
       (let qmean = fdiv rd qm (fp_of_int rd window_size) in do {
         (rolling', QT') \<leftarrow> for1 0 n (\<lambda>i (rolling, QT).
           (let mu = fdiv rd rolling (fp_of_int rd window_size) in do {
             sum \<leftarrow> for1 0 window_size (\<lambda>j sum. do {
               t \<leftarrow> aget T (i + j); q \<leftarrow> aget Q j;
               Some (fadd rd sum (fmul rd (fsub rd t mu) (fsub rd q qmean))) }) (Fin 0);
             QT' \<leftarrow> aset QT i sum;
             (if i \<noteq> n - 1 then do {
                old \<leftarrow> aget T i; new \<leftarrow> aget T (i + window_size);
                Some (fadd rd (fsub rd rolling old) new, QT') }
              else Some (rolling, QT')) })) (rolling, QT);
         Some QT' }) })"

end
