(* ===== verification/StatsExact.thy ===== *)
theory StatsExact
  imports Stats
begin

text \<open>
  The statistics in exact arithmetic: what each routine computes, the equivalence of the fast and the
  brute-force routines, and the covariance recurrence.
\<close>

subsection \<open>Windows of a real sequence\<close>

definition wmean :: "real list \<Rightarrow> nat \<Rightarrow> nat \<Rightarrow> real" where
  "wmean xs w i = (\<Sum>j<w. xs ! (i + j)) / real w"

definition cdot :: "real list \<Rightarrow> real list \<Rightarrow> nat \<Rightarrow> nat \<Rightarrow> nat \<Rightarrow> real" where
  "cdot xs ys w i j = (\<Sum>k<w. (xs ! (i + k) - wmean xs w i) * (ys ! (j + k) - wmean ys w j))"

definition wmeans :: "real list \<Rightarrow> nat \<Rightarrow> real list" where
  "wmeans xs w = map (wmean xs w) [0..<length xs - w + 1]"

lemma wmeans_nth [simp]:
  "length (wmeans xs w) = length xs - w + 1"
  "i < length xs - w + 1 \<Longrightarrow> wmeans xs w ! i = wmean xs w i"
  by (simp_all add: wmeans_def del: upt_Suc)

abbreviation wssq :: "real list \<Rightarrow> nat \<Rightarrow> nat \<Rightarrow> real" where
  "wssq xs w i \<equiv> cdot xs xs w i i"

definition diff_f :: "real list \<Rightarrow> nat \<Rightarrow> nat \<Rightarrow> real" where
  "diff_f xs w i = (xs ! (i + w) - xs ! i) / 2"

definition diff_g :: "real list \<Rightarrow> nat \<Rightarrow> nat \<Rightarrow> real" where
  "diff_g xs w i = (xs ! (i + w) - wmean xs w (i + 1)) + (xs ! i - wmean xs w i)"

lemma window_shift:
  fixes f :: "nat \<Rightarrow> real"
  assumes "0 < w"
  shows "(\<Sum>j<w. f (Suc i + j)) = (\<Sum>j<w. f (i + j)) + f (i + w) - f i"
proof -
  have "(\<Sum>j<Suc w. f (i + j)) = f i + (\<Sum>j<w. f (Suc i + j))"
    by (subst sum.lessThan_Suc_shift) simp
  moreover have "(\<Sum>j<Suc w. f (i + j)) = (\<Sum>j<w. f (i + j)) + f (i + w)" by simp
  ultimately show ?thesis by linarith
qed

lemma wmean_sum: "0 < w \<Longrightarrow> (\<Sum>j<w. xs ! (i + j)) = real w * wmean xs w i"
  by (simp add: wmean_def)

lemma wmean_shift:
  assumes "0 < w"
  shows "real w * wmean xs w (Suc i) = real w * wmean xs w i + xs ! (i + w) - xs ! i"
  using window_shift [OF assms, of "\<lambda>k. xs ! k" i] assms by (simp add: wmean_sum [symmetric])

lemma cdot_products:
  assumes "0 < w"
  shows "cdot xs ys w i j = (\<Sum>k<w. xs ! (i + k) * ys ! (j + k)) - real w * wmean xs w i * wmean ys w j"
proof -
  let ?a = "wmean xs w i" and ?b = "wmean ys w j"
  have "cdot xs ys w i j = (\<Sum>k<w. xs ! (i + k) * ys ! (j + k) - ?b * xs ! (i + k) - ?a * ys ! (j + k) + ?a * ?b)"
    unfolding cdot_def by (rule sum.cong) (auto simp: algebra_simps)
  also have "\<dots> = (\<Sum>k<w. xs ! (i + k) * ys ! (j + k)) - ?b * (\<Sum>k<w. xs ! (i + k))
      - ?a * (\<Sum>k<w. ys ! (j + k)) + real w * (?a * ?b)"
    by (simp add: sum.distrib sum_subtractf sum_distrib_left)
  also have "\<dots> = (\<Sum>k<w. xs ! (i + k) * ys ! (j + k)) - real w * ?a * ?b"
    unfolding wmean_sum [OF assms] by (simp add: algebra_simps)
  finally show ?thesis .
qed

text \<open>The step along a diagonal.\<close>

lemma cdot_step:
  assumes "0 < w"
  shows "cdot xs ys w (Suc i) (Suc j) =
    cdot xs ys w i j + diff_f xs w i * diff_g ys w j + diff_g xs w i * diff_f ys w j"
proof -
  let ?a = "wmean xs w i" and ?b = "wmean ys w j" and ?a' = "wmean xs w (Suc i)" and ?b' = "wmean ys w (Suc j)"
  let ?x = "xs ! i" and ?y = "ys ! j" and ?x' = "xs ! (i + w)" and ?y' = "ys ! (j + w)"
  have s: "(\<Sum>k<w. xs ! (Suc i + k) * ys ! (Suc j + k)) = (\<Sum>k<w. xs ! (i + k) * ys ! (j + k)) + ?x' * ?y' - ?x * ?y"
  proof -
    have "(\<Sum>k<w. xs ! (Suc i + k) * ys ! (Suc j + k)) = (\<Sum>k<w. (\<lambda>n. xs ! (i + n) * ys ! (j + n)) (Suc 0 + k))"
      by simp
    also have "\<dots> = (\<Sum>k<w. xs ! (i + k) * ys ! (j + k)) + ?x' * ?y' - ?x * ?y"
      using window_shift [OF assms, of "\<lambda>n. xs ! (i + n) * ys ! (j + n)" 0] by simp
    finally show ?thesis .
  qed
  have "real w * ?a' = real w * ?a + (?x' - ?x)" "real w * ?b' = real w * ?b + (?y' - ?y)"
    using wmean_shift [OF assms] by (simp_all add: algebra_simps)
  then have "real w * (?a' - ?a) = ?x' - ?x" "real w * (?b' - ?b) = ?y' - ?y"
    by (simp_all add: algebra_simps)
  then have w: "real w * ?a' * ?b' - real w * ?a * ?b = ((?x' - ?x) * (?b' + ?b) + (?y' - ?y) * (?a' + ?a)) / 2"
  proof -
    have "2 * (real w * ?a' * ?b' - real w * ?a * ?b) =
        (real w * (?a' - ?a)) * (?b' + ?b) + (real w * (?b' - ?b)) * (?a' + ?a)"
      by (simp add: algebra_simps)
    then show ?thesis
      using \<open>real w * (?a' - ?a) = _\<close> \<open>real w * (?b' - ?b) = _\<close> by simp
  qed
  have "cdot xs ys w (Suc i) (Suc j) - cdot xs ys w i j =
      ?x' * ?y' - ?x * ?y - (real w * ?a' * ?b' - real w * ?a * ?b)"
    using s by (simp add: cdot_products [OF assms])
  also have "\<dots> = diff_f xs w i * diff_g ys w j + diff_g xs w i * diff_f ys w j"
    unfolding w by (simp add: diff_f_def diff_g_def field_simps)
  finally show ?thesis by simp
qed

lemma wssq_step:
  assumes "0 < w"
  shows "wssq xs w (Suc i) = wssq xs w i
    + ((xs ! i - wmean xs w i) + (xs ! (i + w) - wmean xs w (Suc i))) * (xs ! (i + w) - xs ! i)"
  using cdot_step [OF assms, of xs xs i i] by (simp add: diff_f_def diff_g_def field_simps)

lemma wssq_nonneg: "0 \<le> wssq xs w i"
  unfolding cdot_def by (rule sum_nonneg) simp

subsection \<open>Loops that sum\<close>

lemma nat_1_int [simp]: "nat (1 + int n) = Suc n" "nat (int n + 1) = Suc n"
  by auto

lemma for1_sum:
  assumes "\<And>j s. j < w \<Longrightarrow> f (int j) (Fin s) = Some (Fin (s + h j))"
  shows "for1 0 (int w) f (Fin s0) = Some (Fin (s0 + (\<Sum>j<w. h j)))"
proof -
  have "wp (for1 0 (int w) f (Fin s0)) (\<lambda>r. r = Fin (s0 + (\<Sum>j<w. h j)))"
  proof (rule wp_for1 [where I = "\<lambda>i r. 0 \<le> i \<and> r = Fin (s0 + (\<Sum>j<nat i. h j))"])
    fix i r assume i: "0 \<le> i" "i < int w" and r: "0 \<le> i \<and> r = Fin (s0 + (\<Sum>j<nat i. h j))"
    have "f (int (nat i)) r = Some (Fin (s0 + (\<Sum>j<nat i. h j) + h (nat i)))"
    proof -
      have "nat i < w" using i by simp
      then show ?thesis using r assms [of "nat i" "s0 + (\<Sum>j<nat i. h j)"] by simp
    qed
    moreover have "nat (i + 1) = Suc (nat i)" using i by simp
    ultimately show "wp (f i r) (\<lambda>r. 0 \<le> i + 1 \<and> r = Fin (s0 + (\<Sum>j<nat (i + 1). h j)))"
      using i by (simp add: add.assoc)
  qed auto
  then show ?thesis by (auto dest: wp_SomeD)
qed

lemma aget_map_Fin [simp]: "i < length xs \<Longrightarrow> aget (map Fin xs) (int i) = Some (Fin (xs ! i))"
  by (simp add: aget_def)

lemma aget_map_upt [simp]: "i < n \<Longrightarrow> aget (map g [0..<n]) (int i) = Some (g i)"
  by (simp add: aget_def)

subsection \<open>Means\<close>

lemma brute_force_moving_mean_exact:
  assumes "0 < w" "w \<le> length xs"
  shows "brute_force_moving_mean exact (map Fin xs) (int w) =
    Some (map Fin (wmeans xs w))"
proof -
  let ?n = "length xs - w + 1"
  have n: "nat (int (length xs) - int w + 1) = ?n" "0 \<le> int (length xs) - int w + 1" using assms by auto
  have "for1 0 (int (length (replicate ?n (Fin 0)))) (\<lambda>i result. do {
       sum \<leftarrow> for1 0 (int w) (\<lambda>j sum. do { x \<leftarrow> aget (map Fin xs) (i + j); Some (fadd exact sum x) }) (Fin 0);
       aset result i (fdiv exact sum (fp_of_int exact (int w))) }) (replicate ?n (Fin 0))
    = Some (map (\<lambda>i. Fin (wmean xs w i)) [0..<length (replicate ?n (Fin 0))])"
  proof (rule for1_fill)
    fix i and r :: "fp list"
    assume i: "0 \<le> i" "i < int (length (replicate ?n (Fin 0)))" and r: "length r = length (replicate ?n (Fin 0))"
    have "for1 0 (int w) (\<lambda>j sum. do { x \<leftarrow> aget (map Fin xs) (i + j); Some (fadd exact sum x) }) (Fin 0)
        = Some (Fin (0 + (\<Sum>j<w. xs ! (nat i + j))))"
    proof (rule for1_sum)
      fix j s assume "j < w"
      then have "i + int j = int (nat i + j)" "nat i + j < length xs" using i assms by auto
      then show "(aget (map Fin xs) (i + int j) \<bind> (\<lambda>x. Some (fadd exact (Fin s) x))) = Some (Fin (s + xs ! (nat i + j)))"
        by (simp del: of_nat_add)
    qed
    then show "(for1 0 (int w) (\<lambda>j sum. do { x \<leftarrow> aget (map Fin xs) (i + j); Some (fadd exact sum x) }) (Fin 0)
        \<bind> (\<lambda>sum. aset r i (fdiv exact sum (fp_of_int exact (int w))))) = Some (r[nat i := Fin (wmean xs w (nat i))])"
      using i r assms by (simp add: wmean_def)
  qed auto
  then show ?thesis
    using n by (simp add: brute_force_moving_mean_def wmeans_def comp_def del: upt_Suc replicate_Suc)
qed

lemma mm_exact:
  "mm_add exact (Fin y) (Fin p, Fin 0) = (Fin (p + y), Fin 0)"
  "mm_sub exact (Fin y) (Fin p, Fin 0) = (Fin (p - y), Fin 0)"
  by (simp_all add: mm_add_def mm_sub_def)

lemma moving_mean_exact:
  assumes "0 < w" "w \<le> length xs"
  shows "moving_mean exact (map Fin xs) (int w) = Some (map Fin (wmeans xs w))"
proof -
  let ?n = "length xs - w + 1" and ?W = "\<lambda>i. \<Sum>j<w. xs ! (i + j)"
  have n: "nat (int (length xs) - int w + 1) = ?n" "0 \<le> int (length xs) - int w + 1" using assms by auto
  have first: "for1 1 (int w) (\<lambda>i ps. do { y \<leftarrow> aget (map Fin xs) i; Some (mm_add exact y ps) }) (Fin (xs ! 0), Fin 0)
      = Some (Fin (?W 0), Fin 0)"
  proof -
    have "wp (for1 1 (int w) (\<lambda>i ps. do { y \<leftarrow> aget (map Fin xs) i; Some (mm_add exact y ps) }) (Fin (xs ! 0), Fin 0))
        (\<lambda>ps. ps = (Fin (?W 0), Fin 0))"
    proof (rule wp_for1 [where I = "\<lambda>i ps. ps = (Fin (\<Sum>j<nat i. xs ! j), Fin 0)"])
      fix i ps assume i: "1 \<le> i" "i < int w" and ps: "ps = (Fin (\<Sum>j<nat i. xs ! j), Fin 0)"
      have "nat (i + 1) = Suc (nat i)" "aget (map Fin xs) i = Some (Fin (xs ! nat i))"
        using i assms by (auto simp: aget_def)
      then show "wp (aget (map Fin xs) i \<bind> (\<lambda>y. Some (mm_add exact y ps))) (\<lambda>ps. ps = (Fin (\<Sum>j<nat (i + 1). xs ! j), Fin 0))"
        by (simp add: ps mm_exact)
    qed (use assms in auto)
    then show ?thesis by (auto dest: wp_SomeD)
  qed
  define r0 where "r0 = (replicate ?n (Fin 0))[0 := Fin (wmean xs w 0)]"
  let ?step = "\<lambda>i (ps, result). do {
       old \<leftarrow> aget (map Fin xs) (i - int w);
       new \<leftarrow> aget (map Fin xs) i;
       (let ps' = mm_add exact new (mm_sub exact old ps)
        in do { result' \<leftarrow> aset result (i - int w + 1) (mm_value exact (int w) ps'); Some (ps', result') }) }"
  let ?I = "\<lambda>i (ps, r). ps = (Fin (?W (nat i - w)), Fin 0) \<and> length r = ?n
      \<and> (\<forall>k \<le> nat i - w. r ! k = Fin (wmean xs w k))"
  have "wp (for1 (int w) (int (length xs)) ?step ((Fin (?W 0), Fin 0), r0))
      (\<lambda>(ps, r). r = map Fin (wmeans xs w))"
  proof (rule wp_for1 [where I = ?I])
    show "?I (int w) ((Fin (?W 0), Fin 0), r0)" by (simp add: r0_def)
    show "int w \<le> int (length xs)" using assms by simp
  next
    fix i st assume i: "int w \<le> i" "i < int (length xs)" and I: "?I i st"
    obtain r where st: "st = ((Fin (?W (nat i - w)), Fin 0), r)" using I by auto
    define k where "k = nat i - w"
    have k: "nat i = k + w" "i = int (k + w)" "i - int w = int k" "i - int w + 1 = int (Suc k)" "nat (i + 1) - w = Suc k"
      "k + w < length xs" "Suc k < ?n" using i by (auto simp: k_def)
    have W: "?W k - xs ! k + xs ! (k + w) = ?W (Suc k)"
      using window_shift [OF assms(1), of "\<lambda>n. xs ! n" k] by simp
    have r: "length r = ?n" "\<forall>l \<le> k. r ! l = Fin (wmean xs w l)" using I by (auto simp: st k_def)
    have v: "mm_value exact (int w) (Fin (?W (Suc k)), Fin 0) = Fin (wmean xs w (Suc k))"
      using assms by (simp add: mm_value_def wmean_def)
    have e: "mm_add exact (Fin (xs ! (k + w))) (mm_sub exact (Fin (xs ! k)) (Fin (?W k), Fin 0)) = (Fin (?W (Suc k)), Fin 0)"
      by (simp only: mm_exact W)
    have "aget (map Fin xs) (int k) = Some (Fin (xs ! k))" "aget (map Fin xs) i = Some (Fin (xs ! (k + w)))"
      "aset r (int k + 1) x = Some (r[Suc k := x])" for x
      using k r by (simp_all add: k(2) aget_def aset_def nat_add_distrib del: of_nat_add of_nat_Suc)
    then have eq: "?step i st = Some ((Fin (?W (Suc k)), Fin 0), r[Suc k := Fin (wmean xs w (Suc k))])"
      unfolding st k_def [symmetric] prod.case k(3) Let_def by (simp only: Option.bind.bind_lunit e v)
    have "?I (i + 1) ((Fin (?W (Suc k)), Fin 0), r[Suc k := Fin (wmean xs w (Suc k))])"
      using r k by (auto simp: nth_list_update le_Suc_eq)
    then show "wp (?step i st) (?I (i + 1))" by (rule wpI [OF eq])
  next
    fix st assume "?I (int (length xs)) st"
    then show "case st of (ps, r) \<Rightarrow> r = map Fin (wmeans xs w)"
      using assms by (auto intro!: nth_equalityI simp: less_Suc_eq_le simp del: upt_Suc)
  qed
  then obtain ps r where "for1 (int w) (int (length xs)) ?step ((Fin (?W 0), Fin 0), r0) = Some (ps, r)"
      "r = map Fin (wmeans xs w)"
    by (auto dest!: wp_SomeD)
  moreover have "aget (map Fin xs) 0 = Some (Fin (xs ! 0))" using assms by (auto simp: aget_def)
  ultimately show ?thesis
    using assms n first
    by (simp add: moving_mean_def r0_def mm_value_def wmean_def del: upt_Suc replicate_Suc)
qed

subsection \<open>Sums of squared differences\<close>

lemma square_sum_loop:
  assumes "i + w \<le> length xs" "i < length mu"
  shows "for1 0 (int w) (\<lambda>j sum. do {
       x \<leftarrow> aget (map Fin xs) (int i + j); \<mu> \<leftarrow> aget (map Fin mu) (int i);
       (let val = fsub exact x \<mu> in Some (fadd exact sum (fmul exact val val))) }) (Fin 0)
    = Some (Fin (\<Sum>j<w. (xs ! (i + j) - mu ! i) * (xs ! (i + j) - mu ! i)))"
proof -
  have "for1 0 (int w) (\<lambda>j sum. do {
       x \<leftarrow> aget (map Fin xs) (int i + j); \<mu> \<leftarrow> aget (map Fin mu) (int i);
       (let val = fsub exact x \<mu> in Some (fadd exact sum (fmul exact val val))) }) (Fin 0)
    = Some (Fin (0 + (\<Sum>j<w. (xs ! (i + j) - mu ! i) * (xs ! (i + j) - mu ! i))))"
  proof (rule for1_sum)
    fix j s assume "j < w"
    then have "int i + int j = int (i + j)" "i + j < length xs" using assms by auto
    then have "aget (map Fin xs) (int i + int j) = Some (Fin (xs ! (i + j)))" by (simp only: aget_map_Fin)
    then show "(aget (map Fin xs) (int i + int j) \<bind> (\<lambda>x. aget (map Fin mu) (int i) \<bind> (\<lambda>\<mu>.
        let val = fsub exact x \<mu> in Some (fadd exact (Fin s) (fmul exact val val)))))
      = Some (Fin (s + (xs ! (i + j) - mu ! i) * (xs ! (i + j) - mu ! i)))"
      using assms by simp
  qed
  then show ?thesis by simp
qed


lemma brute_force_ssq_exact:
  assumes "0 < w" "w \<le> length xs"
  shows "brute_force_sum_of_squared_difference exact (map Fin xs) (map Fin (wmeans xs w)) (int w)
    = Some (map (\<lambda>i. Fin (wssq xs w i)) [0..<length xs - w + 1])"
proof -
  let ?n = "length xs - w + 1" and ?r = "replicate (length xs - w + 1) (Fin 0)"
  have n: "int (length xs) - int w + 1 = int (length ?r)" "nat (int (length xs) - int w + 1) = ?n" using assms by auto
  have "for1 0 (int (length ?r)) (\<lambda>i result. do {
       sum \<leftarrow> for1 0 (int w) (\<lambda>j sum. do {
         x \<leftarrow> aget (map Fin xs) (i + j); \<mu> \<leftarrow> aget (map Fin (wmeans xs w)) i;
         (let val = fsub exact x \<mu> in Some (fadd exact sum (fmul exact val val))) }) (Fin 0);
       aset result i sum }) ?r
    = Some (map (\<lambda>i. Fin (wssq xs w i)) [0..<length ?r])"
  proof (rule for1_fill)
    fix i and r :: "fp list" assume i: "0 \<le> i" "i < int (length ?r)" and r: "length r = length ?r"
    have k: "int (nat i) = i" "nat i + w \<le> length xs" "nat i < length (wmeans xs w)" using i assms by auto
    have v: "wmeans xs w ! nat i = wmean xs w (nat i)" using k(3) by simp
    show "(for1 0 (int w) (\<lambda>j sum. do {
         x \<leftarrow> aget (map Fin xs) (i + j); \<mu> \<leftarrow> aget (map Fin (wmeans xs w)) i;
         (let val = fsub exact x \<mu> in Some (fadd exact sum (fmul exact val val))) }) (Fin 0)
        \<bind> (\<lambda>sum. aset r i sum)) = Some (r[nat i := Fin (wssq xs w (nat i))])"
      using square_sum_loop [OF k(2,3), unfolded k(1)] i r by (simp add: cdot_def v)
  qed auto
  then show ?thesis
    unfolding brute_force_sum_of_squared_difference_def length_map n(1) [symmetric]
    using assms n(2) by simp
qed

lemma fast_ssq_exact:
  assumes "0 < w" "w \<le> length xs"
  shows "fast_sum_of_squared_difference exact (map Fin xs) (map Fin (wmeans xs w)) (int w)
    = Some (map (\<lambda>i. Fin (wssq xs w i)) [0..<length xs - w + 1])"
proof -
  let ?n = "length xs - w + 1"
  define r0 where "r0 = (replicate ?n (Fin 0))[0 := Fin (wssq xs w 0)]"
  have len: "length r0 = ?n" by (simp add: r0_def)
  have n: "int (length xs) - int w + 1 = int (length r0)" using assms len by auto
  have mu: "aget (map Fin (wmeans xs w)) (int i) = Some (Fin (wmean xs w i))" if "i < ?n" for i
    using that by (simp add: aget_def)
  have first: "for1 0 (int w) (\<lambda>i sum. do {
       x \<leftarrow> aget (map Fin xs) i; \<mu> \<leftarrow> aget (map Fin (wmeans xs w)) 0;
       (let val = fsub exact x \<mu> in Some (fadd exact sum (fmul exact val val))) }) (Fin 0) = Some (Fin (wssq xs w 0))"
    using square_sum_loop [of 0 w xs "wmeans xs w"] assms by (simp add: cdot_def)
  have "for1 1 (int (length r0)) (\<lambda>i result. do {
       prev \<leftarrow> aget result (i - 1);
       old \<leftarrow> aget (map Fin xs) (i - 1); \<mu>0 \<leftarrow> aget (map Fin (wmeans xs w)) (i - 1);
       new \<leftarrow> aget (map Fin xs) (i + int w - 1); \<mu>1 \<leftarrow> aget (map Fin (wmeans xs w)) i;
       aset result i (fadd exact prev
         (fmul exact (fadd exact (fsub exact old \<mu>0) (fsub exact new \<mu>1)) (fsub exact new old))) }) r0
    = Some (map (\<lambda>i. Fin (wssq xs w i)) [0..<length r0])"
  proof (rule for1_fill)
    show "1 \<le> int (length r0)" using len by simp
    show "r0 ! k = Fin (wssq xs w k)" if "k < nat 1" for k using that by (simp add: r0_def)
  next
    fix i and r :: "fp list"
    assume i: "1 \<le> i" "i < int (length r0)" and r: "length r = length r0"
      and prev: "\<And>k. k < nat i \<Longrightarrow> r ! k = Fin (wssq xs w k)"
    obtain k where k: "i = int (Suc k)" using i(1) by (metis int_nat_eq nat_int not0_implies_Suc order_trans zero_le_one
          zero_less_one nat_le_0 linorder_not_less less_irrefl_nat nat_0_iff of_nat_0_less_iff zero_less_nat_eq order_less_le_trans)
    have ks: "int (Suc k) - 1 = int k" "int (Suc k) + int w - 1 = int (k + w)" "k + w < length xs" "Suc k < ?n"
        "nat (int (Suc k)) = Suc k"
      using i len assms by (auto simp: k)
    have "aget r (int k) = Some (Fin (wssq xs w k))"
      using ks(4) r len prev [of k] by (simp add: k aget_def)
    moreover have "aset r (int (Suc k)) x = Some (r[Suc k := x])" for x
      using ks(4) r len by (simp add: aset_def del: of_nat_Suc)
    moreover have "aget (map Fin (wmeans xs w)) (int k) = Some (Fin (wmean xs w k))"
        "aget (map Fin (wmeans xs w)) (int (Suc k)) = Some (Fin (wmean xs w (Suc k)))"
      using ks(4) mu [of k] mu [of "Suc k"] by simp_all
    moreover have "aget (map Fin xs) (int k) = Some (Fin (xs ! k))"
        "aget (map Fin xs) (int (k + w)) = Some (Fin (xs ! (k + w)))"
      using ks(3) by (simp_all del: of_nat_add)
    ultimately show "(aget r (i - 1) \<bind> (\<lambda>prev. aget (map Fin xs) (i - 1) \<bind> (\<lambda>old. aget (map Fin (wmeans xs w)) (i - 1) \<bind> (\<lambda>\<mu>0.
        aget (map Fin xs) (i + int w - 1) \<bind> (\<lambda>new. aget (map Fin (wmeans xs w)) i \<bind> (\<lambda>\<mu>1.
        aset r i (fadd exact prev
         (fmul exact (fadd exact (fsub exact old \<mu>0) (fsub exact new \<mu>1)) (fsub exact new old)))))))))
      = Some (r[nat i := Fin (wssq xs w (nat i))])"
      unfolding k(1) ks(1,2,5) by (simp only: Option.bind.bind_lunit exact_simps wssq_step [OF assms(1)])
  qed simp
  moreover have "aset (replicate ?n (Fin 0)) 0 (Fin (wssq xs w 0)) = Some r0" by (simp add: r0_def aset_def)
  moreover have "nat (1 + int (length xs - w)) = Suc (length xs - w)" by simp
  ultimately show ?thesis
    unfolding fast_sum_of_squared_difference_def length_map n
    using first len by (simp del: upt_Suc replicate_Suc)
qed

subsection \<open>Norms and differences\<close>

definition norm_of :: "rounding \<Rightarrow> bool \<Rightarrow> fp \<Rightarrow> fp" where
  "norm_of rd isnan x = (if isnan \<or> fle x (FLATNESS_EPSILON rd) then NaN else fdiv rd (Fin 1) (fsqrt rd x))"

lemma invert_norms_eq:
  assumes "length nv = n" "length ssq = n"
  shows "invert_norms rd nv (int n) ssq =
    Some (map (\<lambda>i. norm_of rd (nv ! i) (ssq ! i)) [0..<n],
          map int (filter (\<lambda>i. nv ! i \<or> fle (ssq ! i) (FLATNESS_EPSILON rd)) [0..<n]))"
proof -
  let ?flat = "\<lambda>i. nv ! i \<or> fle (ssq ! i) (FLATNESS_EPSILON rd)"
  let ?I = "\<lambda>i (nrm, nans). length nrm = n
      \<and> (\<forall>k < n. nrm ! k = (if k < nat i then norm_of rd (nv ! k) (ssq ! k) else ssq ! k))
      \<and> nans = map int (filter ?flat [0..<nat i])"
  have "wp (invert_norms rd nv (int n) ssq) (?I (int n))"
    unfolding invert_norms_def
  proof (rule wp_for1 [where I = ?I])
    show "?I 0 (ssq, [])" using assms by simp
  next
    fix i st assume i: "0 \<le> i" "i < int n" and I: "?I i st"
    obtain nrm where st: "st = (nrm, map int (filter ?flat [0..<nat i]))" and nrm: "length nrm = n"
        "\<forall>k < n. nrm ! k = (if k < nat i then norm_of rd (nv ! k) (ssq ! k) else ssq ! k)"
      using I by auto
    have k: "nat (i + 1) = Suc (nat i)" "nat i < n" "nrm ! nat i = ssq ! nat i" "int (nat i) = i" using i nrm by auto
    then have upt: "filter ?flat [0..<Suc (nat i)] = filter ?flat [0..<nat i] @ (if ?flat (nat i) then [nat i] else [])"
      by simp
    show "wp (case st of (nrm, nans) \<Rightarrow>
        aget nv i \<bind> (\<lambda>isnan. aget nrm i \<bind> (\<lambda>x.
          if isnan then aset nrm i NaN \<bind> (\<lambda>nrm'. Some (nrm', nans @ [i]))
          else if fle x (FLATNESS_EPSILON rd) then aset nrm i NaN \<bind> (\<lambda>nrm'. Some (nrm', nans @ [i]))
          else aset nrm i (fdiv rd (Fin 1) (fsqrt rd x)) \<bind> (\<lambda>nrm'. Some (nrm', nans))))) (?I (i + 1))"
      unfolding st k(1) upt
      using i nrm k assms by (auto simp: norm_of_def nth_list_update less_Suc_eq)
  qed simp_all
  then obtain nrm nans where "invert_norms rd nv (int n) ssq = Some (nrm, nans)" "?I (int n) (nrm, nans)"
    by (auto dest!: wp_SomeD)
  then show ?thesis by (auto intro: nth_equalityI)
qed

definition diff_fs :: "real list \<Rightarrow> nat \<Rightarrow> real list" where
  "diff_fs xs w = map (\<lambda>i. if i < length xs - w then diff_f xs w i else 0) [0..<length xs - w + 1]"

definition diff_gs :: "real list \<Rightarrow> nat \<Rightarrow> real list" where
  "diff_gs xs w = map (\<lambda>i. if i < length xs - w then diff_g xs w i else 0) [0..<length xs - w + 1]"

lemma compute_df_dg_exact:
  assumes "0 < w" "w \<le> length xs"
  shows "compute_df_dg exact (map Fin xs) (map Fin (wmeans xs w)) (int w) (int (length xs) - int w + 1)
    = Some (map Fin (diff_fs xs w), map Fin (diff_gs xs w))"
proof -
  let ?n = "length xs - w + 1"
  let ?step = "\<lambda>i (df, dg). do {
       new \<leftarrow> aget (map Fin xs) (i + int w); old \<leftarrow> aget (map Fin xs) i;
       \<mu>1 \<leftarrow> aget (map Fin (wmeans xs w)) (i + 1); \<mu>0 \<leftarrow> aget (map Fin (wmeans xs w)) i;
       df' \<leftarrow> aset df i (fdiv exact (fsub exact new old) (Fin 2));
       dg' \<leftarrow> aset dg i (fadd exact (fsub exact new \<mu>1) (fsub exact old \<mu>0));
       Some (df', dg') }"
  let ?I = "\<lambda>i (df, dg). length df = ?n \<and> length dg = ?n
      \<and> (\<forall>k < ?n. df ! k = Fin (if k < nat i then diff_f xs w k else 0)
            \<and> dg ! k = Fin (if k < nat i then diff_g xs w k else 0))"
  have n: "int (length xs) - int w + 1 = int ?n" "int ?n - 1 = int (length xs - w)" using assms by auto
  have "wp (for1 0 (int ?n - 1) ?step (replicate ?n (Fin 0), replicate ?n (Fin 0))) (?I (int ?n - 1))"
    unfolding n(2)
  proof (rule wp_for1 [where I = ?I])
    show "?I 0 (replicate ?n (Fin 0), replicate ?n (Fin 0))" by (simp del: replicate_Suc)
  next
    fix i st assume i: "0 \<le> i" "i < int (length xs - w)" and I: "?I i st"
    obtain f g where st: "st = (f, g)" and fg: "length f = ?n" "length g = ?n"
        "\<forall>k < ?n. f ! k = Fin (if k < nat i then diff_f xs w k else 0) \<and> g ! k = Fin (if k < nat i then diff_g xs w k else 0)"
      using I by (cases st) auto
    define k where "k = nat i"
    have k: "i = int k" "k + w < length xs" "k < ?n" "Suc k < ?n" using i by (auto simp: k_def)
    have r: "aget (map Fin xs) (int k + int w) = Some (Fin (xs ! (k + w)))"
      "aget (map Fin xs) (int k) = Some (Fin (xs ! k))"
      "aget (map Fin (wmeans xs w)) (int k + 1) = Some (Fin (wmean xs w (k + 1)))"
      "aget (map Fin (wmeans xs w)) (int k) = Some (Fin (wmean xs w k))"
      "aset f (int k) x = Some (f[k := x])" "aset g (int k) x = Some (g[k := x])" for x
      using k fg by (auto simp: aget_def aset_def nat_add_distrib)
    have "?step i st = Some (f[k := Fin (diff_f xs w k)], g[k := Fin (diff_g xs w k)])"
      unfolding st k(1) prod.case r by (simp add: r diff_f_def diff_g_def)
    moreover have "?I (i + 1) (f[k := Fin (diff_f xs w k)], g[k := Fin (diff_g xs w k)])"
      using fg k by (auto simp: nth_list_update less_Suc_eq nat_add_distrib)
    ultimately show "wp (?step i st) (?I (i + 1))" by (rule wpI)
  qed simp_all
  then obtain f g where "for1 0 (int ?n - 1) ?step (replicate ?n (Fin 0), replicate ?n (Fin 0)) = Some (f, g)"
      and I: "?I (int ?n - 1) (f, g)"
    by (auto dest!: wp_SomeD)
  moreover have "f = map Fin (diff_fs xs w)" "g = map Fin (diff_gs xs w)"
    using I by (auto intro!: nth_equalityI simp: diff_fs_def diff_gs_def simp del: upt_Suc)
  ultimately show ?thesis
    unfolding n(1) by (simp add: compute_df_dg_def del: replicate_Suc of_nat_add)
qed

text \<open>All statistics of a series; \<open>hp\<close> selects the brute-force routines.\<close>

definition exact_stats :: "real list \<Rightarrow> bool list \<Rightarrow> nat \<Rightarrow> PrecomputedInfo" where
  "exact_stats xs nv w = \<lparr>
     norms = map (\<lambda>i. norm_of exact (nv ! i) (Fin (wssq xs w i))) [0..<length xs - w + 1],
     df = map Fin (diff_fs xs w), dg = map Fin (diff_gs xs w), means = map Fin (wmeans xs w),
     nan_idxs = map int (filter (\<lambda>i. nv ! i \<or> wssq xs w i \<le> 1 / 10 ^ 13) [0..<length xs - w + 1])\<rparr>"

lemma compute_statistics_exact:
  assumes "0 < w" "w \<le> length xs" "length nv = length xs - w + 1"
  shows "compute_statistics_cpu exact (map Fin xs) nv (int w) hp = Some (exact_stats xs nv w)"
proof -
  let ?n = "length xs - w + 1"
  have n: "int (length xs) - int w + 1 = int ?n" using assms by auto
  have inv: "invert_norms exact nv (int ?n) (map (\<lambda>i. Fin (wssq xs w i)) [0..<?n])
      = Some (norms (exact_stats xs nv w), nan_idxs (exact_stats xs nv w))"
    by (subst invert_norms_eq [where n = ?n])
      (use assms in \<open>auto simp: exact_stats_def FLATNESS_EPSILON_def simp del: upt_Suc intro!: map_cong filter_cong\<close>)
  show ?thesis
    unfolding compute_statistics_cpu_def Let_def length_map
    using assms brute_force_moving_mean_exact [OF assms(1,2)] moving_mean_exact [OF assms(1,2)]
      brute_force_ssq_exact [OF assms(1,2)] fast_ssq_exact [OF assms(1,2)]
      compute_df_dg_exact [OF assms(1,2)] inv
    by (simp add: n exact_stats_def del: upt_Suc of_nat_add of_nat_Suc)
qed

subsection \<open>Cleaning\<close>

text \<open>
  The counter of \<open>convert_non_finite_to_zero\<close> is the distance to the last value that is not finite:
  \<open>i - steps\<close> is its index, or at most \<open>-m\<close>.
\<close>

definition clean_inv :: "fp list \<Rightarrow> int \<Rightarrow> int \<Rightarrow> int \<times> fp list \<times> bool list \<Rightarrow> bool" where
  "clean_inv T m i st \<longleftrightarrow> (case st of (steps, clean, nan) \<Rightarrow>
     length clean = length T \<and> int (length nan) = int (length T) - m + 1
     \<and> (\<forall>k. 0 \<le> k \<longrightarrow> k < i \<longrightarrow> clean ! nat k = (if is_finite (T ! nat k) then T ! nat k else Fin 0))
     \<and> (\<forall>k. 0 \<le> k \<longrightarrow> k < i - m + 1 \<longrightarrow> nan ! nat k = (\<exists>j \<in> {k..k + m - 1}. \<not> is_finite (T ! nat j)))
     \<and> (\<forall>j. 0 \<le> j \<longrightarrow> i - steps < j \<longrightarrow> j < i \<longrightarrow> is_finite (T ! nat j))
     \<and> (if 0 \<le> i - steps then \<not> is_finite (T ! nat (i - steps)) \<and> 0 < steps else i - steps \<le> - m))"

lemma clean_window:
  assumes "0 \<le> i" "m - 1 \<le> i"
    and "\<forall>j. 0 \<le> j \<longrightarrow> l < j \<longrightarrow> j \<le> i \<longrightarrow> is_finite (T ! nat j)"
    and "if 0 \<le> l then \<not> is_finite (T ! nat l) \<and> l \<le> i else l \<le> - m"
  shows "(i - l < m) = (\<exists>j \<in> {i - m + 1..i - m + 1 + m - 1}. \<not> is_finite (T ! nat j))"
proof
  assume "i - l < m"
  then have "0 \<le> l" using assms by (cases "0 \<le> l") auto
  then have "l \<in> {i - m + 1..i - m + 1 + m - 1}" "\<not> is_finite (T ! nat l)" using \<open>i - l < m\<close> assms(4) by auto
  then show "\<exists>j \<in> {i - m + 1..i - m + 1 + m - 1}. \<not> is_finite (T ! nat j)" by blast
next
  assume "\<exists>j \<in> {i - m + 1..i - m + 1 + m - 1}. \<not> is_finite (T ! nat j)"
  then obtain j where j: "i - m + 1 \<le> j" "j \<le> i" "\<not> is_finite (T ! nat j)" by auto
  have "j \<le> l"
  proof (rule ccontr)
    assume "\<not> j \<le> l"
    moreover have "0 \<le> j" using j(1) assms(2) by linarith
    ultimately show False using j(2,3) assms(3) by auto
  qed
  then show "i - l < m" using j by simp
qed

lemma convert_step:
  assumes "0 < m" "m \<le> int (length T)" "0 \<le> i" "i < int (length T)" "clean_inv T m i st"
  shows "wp (case st of (steps, clean, nan) \<Rightarrow> do {
       x \<leftarrow> aget T i;
       (steps', clean') \<leftarrow>
         (if is_finite x then do { c \<leftarrow> aset clean i x; Some (steps, c) }
          else do { c \<leftarrow> aset clean i (Fin 0); Some (0, c) });
       nan' \<leftarrow> (if i \<ge> m - 1 then aset nan (i - m + 1) (steps' < m) else Some nan);
       Some (steps' + 1, clean', nan') }) (clean_inv T m (i + 1))"
proof -
  obtain steps clean nan where st: "st = (steps, clean, nan)" by (cases st) auto
  note I = assms(5) [unfolded clean_inv_def st prod.case]
  define s' where "s' = (if is_finite (T ! nat i) then steps else 0)"
  define c' where "c' = clean[nat i := if is_finite (T ! nat i) then T ! nat i else Fin 0]"
  define n' where "n' = (if i \<ge> m - 1 then nan[nat (i - m + 1) := s' < m] else nan)"
  let ?l = "i - s'"
  have fin: "\<forall>j. 0 \<le> j \<longrightarrow> ?l < j \<longrightarrow> j \<le> i \<longrightarrow> is_finite (T ! nat j)"
  proof (intro allI impI)
    fix j assume j: "0 \<le> j" "?l < j" "j \<le> i"
    show "is_finite (T ! nat j)"
    proof (cases "j = i")
      case True then show ?thesis using j(2) by (auto simp: s'_def split: if_splits)
    next
      case False
      then have "i - steps < j" "j < i" using j by (auto simp: s'_def split: if_splits)
      then show ?thesis using I j(1) by auto
    qed
  qed
  have last: "if 0 \<le> ?l then \<not> is_finite (T ! nat ?l) \<and> ?l \<le> i else ?l \<le> - m"
    using I assms(3) by (auto simp: s'_def split: if_splits)
  have new: "m - 1 \<le> i \<Longrightarrow> (s' < m) = (\<exists>j \<in> {i - m + 1..i - m + 1 + m - 1}. \<not> is_finite (T ! nat j))"
    using clean_window [OF assms(3) _ fin last] by simp
  have "clean_inv T m (i + 1) (s' + 1, c', n')"
    unfolding clean_inv_def prod.case
  proof (intro conjI allI impI)
    show "length c' = length T" "int (length n') = int (length T) - m + 1" using I by (auto simp: c'_def n'_def)
    show "c' ! nat k = (if is_finite (T ! nat k) then T ! nat k else Fin 0)" if "0 \<le> k" "k < i + 1" for k
      using I that assms(4) by (cases "k = i") (auto simp: c'_def)
    show "n' ! nat k = (\<exists>j \<in> {k..k + m - 1}. \<not> is_finite (T ! nat j))" if k: "0 \<le> k" "k < i + 1 - m + 1" for k
    proof (cases "k = i - m + 1")
      case True
      then have "m - 1 \<le> i" "nat k < length nan" using k I assms(4) by auto
      then show ?thesis using new True by (simp add: n'_def)
    next
      case False
      then have "k < i - m + 1" using k by simp
      moreover from this have "n' ! nat k = nan ! nat k" using k by (auto simp: n'_def nat_less_iff)
      ultimately show ?thesis using I k(1) by simp
    qed
    show "is_finite (T ! nat j)" if "0 \<le> j" "i + 1 - (s' + 1) < j" "j < i + 1" for j
      using fin that by simp
    show "if 0 \<le> i + 1 - (s' + 1) then \<not> is_finite (T ! nat (i + 1 - (s' + 1))) \<and> 0 < s' + 1
        else i + 1 - (s' + 1) \<le> - m"
      using last by (auto split: if_splits)
  qed
  moreover have "(case st of (steps, clean, nan) \<Rightarrow> do {
       x \<leftarrow> aget T i;
       (steps', clean') \<leftarrow>
         (if is_finite x then do { c \<leftarrow> aset clean i x; Some (steps, c) }
          else do { c \<leftarrow> aset clean i (Fin 0); Some (0, c) });
       nan' \<leftarrow> (if i \<ge> m - 1 then aset nan (i - m + 1) (steps' < m) else Some nan);
       Some (steps' + 1, clean', nan') }) = Some (s' + 1, c', n')"
    using I assms(1-4) by (auto simp: st s'_def c'_def n'_def)
  ultimately show ?thesis by (simp only: wp_Some_iff)
qed

definition clean_series :: "fp list \<Rightarrow> fp list" where
  "clean_series T = map (\<lambda>x. if is_finite x then x else Fin 0) T"

definition nan_windows :: "fp list \<Rightarrow> nat \<Rightarrow> bool list" where
  "nan_windows T m = map (\<lambda>k. \<exists>j \<in> {k..<k + m}. \<not> is_finite (T ! j)) [0..<length T - m + 1]"

lemma convert_eq:
  assumes "0 < m" "m \<le> length T"
  shows "convert_non_finite_to_zero T (int m) = Some (clean_series T, nan_windows T m)"
proof -
  have "wp (convert_non_finite_to_zero T (int m)) (\<lambda>(c, n). c = clean_series T \<and> n = nan_windows T m)"
    unfolding convert_non_finite_to_zero_def wp_bind_iff
  proof -
    let ?n = "nat (int (length T) - int m + 1)"
    have "wp (for1 0 (int (length T)) (\<lambda>i (steps, clean, nan). do {
       x \<leftarrow> aget T i;
       (steps', clean') \<leftarrow>
         (if is_finite x then do { c \<leftarrow> aset clean i x; Some (steps, c) }
          else do { c \<leftarrow> aset clean i (Fin 0); Some (0, c) });
       nan' \<leftarrow> (if i \<ge> int m - 1 then aset nan (i - int m + 1) (steps' < int m) else Some nan);
       Some (steps' + 1, clean', nan') }) (int m, replicate (length T) (Fin 0), replicate ?n False))
      (\<lambda>(steps, clean, nan). clean = clean_series T \<and> nan = nan_windows T m)"
    proof (rule wp_for1 [where I = "clean_inv T (int m)"])
      show "clean_inv T (int m) 0 (int m, replicate (length T) (Fin 0), replicate ?n False)"
        using assms by (auto simp: clean_inv_def)
      show "0 \<le> int (length T)" by simp
    next
      fix i st assume "0 \<le> i" "i < int (length T)" "clean_inv T (int m) i st"
      from convert_step [OF _ _ this] show "wp (case st of (steps, clean, nan) \<Rightarrow> do {
       x \<leftarrow> aget T i;
       (steps', clean') \<leftarrow>
         (if is_finite x then do { c \<leftarrow> aset clean i x; Some (steps, c) }
          else do { c \<leftarrow> aset clean i (Fin 0); Some (0, c) });
       nan' \<leftarrow> (if i \<ge> int m - 1 then aset nan (i - int m + 1) (steps' < int m) else Some nan);
       Some (steps' + 1, clean', nan') }) (clean_inv T (int m) (i + 1))"
        using assms by simp
    next
      fix st assume I: "clean_inv T (int m) (int (length T)) st"
      obtain steps clean nan where st: "st = (steps, clean, nan)" by (cases st) auto
      note I' = I [unfolded clean_inv_def st prod.case]
      have "clean = clean_series T"
        using I' by (intro nth_equalityI) (auto simp: clean_series_def dest: spec [of _ "int _"])
      moreover have "nan = nan_windows T m"
      proof (rule nth_equalityI)
        show l: "length nan = length (nan_windows T m)" using I' assms by (auto simp: nan_windows_def simp del: upt_Suc)
        fix k assume "k < length nan"
        then have k: "k < length T - m + 1" "k + m \<le> length T" using l assms by (auto simp: nan_windows_def)
        have "nan ! nat (int k) = (\<exists>j \<in> {int k..int k + int m - 1}. \<not> is_finite (T ! nat j))"
          using I' k by (auto simp del: nat_int)
        also have "\<dots> = (\<exists>j \<in> {k..<k + m}. \<not> is_finite (T ! j))"
        proof
          assume "\<exists>j \<in> {int k..int k + int m - 1}. \<not> is_finite (T ! nat j)"
          then obtain j where "int k \<le> j" "j \<le> int k + int m - 1" "\<not> is_finite (T ! nat j)" by auto
          then show "\<exists>j \<in> {k..<k + m}. \<not> is_finite (T ! j)" by (intro bexI [of _ "nat j"]) auto
        next
          assume "\<exists>j \<in> {k..<k + m}. \<not> is_finite (T ! j)"
          then obtain j where "k \<le> j" "j < k + m" "\<not> is_finite (T ! j)" by auto
          then show "\<exists>j \<in> {int k..int k + int m - 1}. \<not> is_finite (T ! nat j)" by (intro bexI [of _ "int j"]) auto
        qed
        finally show "nan ! k = nan_windows T m ! k" using k by (simp add: nan_windows_def del: upt_Suc)
      qed
      ultimately show "case st of (steps, clean, nan) \<Rightarrow> clean = clean_series T \<and> nan = nan_windows T m"
        by (simp add: st)
    qed
    then show "wp (valloc (int (length T)) (Fin 0)) (\<lambda>clean0.
       wp (valloc (int (length T) - int m + 1) False) (\<lambda>nan0.
       wp (for1 0 (int (length T)) (\<lambda>i (steps, clean, nan). do {
       x \<leftarrow> aget T i;
       (steps', clean') \<leftarrow>
         (if is_finite x then do { c \<leftarrow> aset clean i x; Some (steps, c) }
          else do { c \<leftarrow> aset clean i (Fin 0); Some (0, c) });
       nan' \<leftarrow> (if i \<ge> int m - 1 then aset nan (i - int m + 1) (steps' < int m) else Some nan);
       Some (steps' + 1, clean', nan') }) (int m, clean0, nan0))
       (\<lambda>x. wp (case x of (steps, clean, nan) \<Rightarrow> Some (clean, nan)) (\<lambda>(c, n). c = clean_series T \<and> n = nan_windows T m))))"
      using assms by (auto elim!: wp_mono)
  qed
  then show ?thesis by (auto dest: wp_SomeD)
qed

subsection \<open>The first covariances of a tile\<close>

text \<open>
  The buffers are longer than the time series of the tile; what lies behind it does not matter for the
  windows inside.
\<close>

definition holds :: "fp list \<Rightarrow> real list \<Rightarrow> bool" where
  "holds T ts \<longleftrightarrow> length ts \<le> length T \<and> (\<forall>i < length ts. T ! i = Fin (ts ! i))"

lemma holds_aget: "holds T ts \<Longrightarrow> i < length ts \<Longrightarrow> aget T (int i) = Some (Fin (ts ! i))"
  by (auto simp: holds_def aget_def)

lemma QT_sums:
  assumes "holds T ts" "holds Q qs" "w \<le> length ts" "w \<le> length qs"
  shows "for1 0 (int w) (\<lambda>i (rolling, qm). do {
         t \<leftarrow> aget T i; q \<leftarrow> aget Q i;
         Some (fadd exact rolling t, fadd exact qm q) }) (Fin 0, Fin 0)
    = Some (Fin (\<Sum>j<w. ts ! j), Fin (\<Sum>j<w. qs ! j))"
proof -
  have "wp (for1 0 (int w) (\<lambda>i (rolling, qm). do {
         t \<leftarrow> aget T i; q \<leftarrow> aget Q i;
         Some (fadd exact rolling t, fadd exact qm q) }) (Fin 0, Fin 0))
    (\<lambda>st. st = (Fin (\<Sum>j<w. ts ! j), Fin (\<Sum>j<w. qs ! j)))"
  proof (rule wp_for1 [where I = "\<lambda>i st. st = (Fin (\<Sum>j<nat i. ts ! j), Fin (\<Sum>j<nat i. qs ! j))"])
    fix i st assume i: "0 \<le> i" "i < int w" and st: "st = (Fin (\<Sum>j<nat i. ts ! j), Fin (\<Sum>j<nat i. qs ! j))"
    have "nat (i + 1) = Suc (nat i)" "i = int (nat i)" "nat i < length ts" "nat i < length qs"
      using i assms(3,4) by auto
    then show "wp (case st of (rolling, qm) \<Rightarrow> aget T i \<bind> (\<lambda>t. aget Q i \<bind> (\<lambda>q.
        Some (fadd exact rolling t, fadd exact qm q)))) (\<lambda>st. st = (Fin (\<Sum>j<nat (i + 1). ts ! j), Fin (\<Sum>j<nat (i + 1). qs ! j)))"
      using holds_aget [OF assms(1), of "nat i"] holds_aget [OF assms(2), of "nat i"] by (simp add: st)
  qed auto
  then show ?thesis by (auto dest: wp_SomeD)
qed

lemma QT_window:
  assumes "holds T ts" "holds Q qs" "i + w \<le> length ts" "w \<le> length qs"
  shows "for1 0 (int w) (\<lambda>j sum. do {
      t \<leftarrow> aget T (int i + j); q \<leftarrow> aget Q j;
      Some (fadd exact sum (fmul exact (fsub exact t (Fin (wmean ts w i))) (fsub exact q (Fin (wmean qs w 0))))) }) (Fin 0)
    = Some (Fin (cdot ts qs w i 0))"
proof -
  have "for1 0 (int w) (\<lambda>j sum. do {
      t \<leftarrow> aget T (int i + j); q \<leftarrow> aget Q j;
      Some (fadd exact sum (fmul exact (fsub exact t (Fin (wmean ts w i))) (fsub exact q (Fin (wmean qs w 0))))) }) (Fin 0)
    = Some (Fin (0 + (\<Sum>j<w. (ts ! (i + j) - wmean ts w i) * (qs ! j - wmean qs w 0))))"
  proof (rule for1_sum)
    fix j s assume "j < w"
    then have "aget T (int (i + j)) = Some (Fin (ts ! (i + j)))" "aget Q (int j) = Some (Fin (qs ! j))"
      using assms by (auto intro!: holds_aget simp del: of_nat_add)
    then show "(aget T (int i + int j) \<bind> (\<lambda>t. aget Q (int j) \<bind> (\<lambda>q.
        Some (fadd exact (Fin s) (fmul exact (fsub exact t (Fin (wmean ts w i))) (fsub exact q (Fin (wmean qs w 0))))))))
      = Some (Fin (s + (ts ! (i + j) - wmean ts w i) * (qs ! j - wmean qs w 0)))"
      by simp
  qed
  then show ?thesis by (simp add: cdot_def)
qed

text \<open>A window that may reach behind the series is still computed without an access out of range.\<close>

lemma QT_window_total:
  assumes "i + w \<le> length T" "w \<le> length Q"
  shows "\<exists>s. for1 0 (int w) (\<lambda>j sum. do {
      t \<leftarrow> aget T (int i + j); q \<leftarrow> aget Q j;
      Some (fadd rd sum (fmul rd (fsub rd t mu) (fsub rd q qmean))) }) (Fin 0) = Some s"
proof -
  have "wp (for1 0 (int w) (\<lambda>j sum. do {
      t \<leftarrow> aget T (int i + j); q \<leftarrow> aget Q j;
      Some (fadd rd sum (fmul rd (fsub rd t mu) (fsub rd q qmean))) }) (Fin 0)) (\<lambda>_. True)"
    by (rule wp_for1 [where I = "\<lambda>_ _. True"]) (use assms in auto)
  then show ?thesis by (auto dest: wp_SomeD)
qed

definition QT_inv :: "fp list \<Rightarrow> real list \<Rightarrow> real list \<Rightarrow> nat \<Rightarrow> nat \<Rightarrow> int \<Rightarrow> fp \<times> fp list \<Rightarrow> bool" where
  "QT_inv QT ts qs w n i st \<longleftrightarrow> (case st of (rolling, QT') \<Rightarrow>
     length QT' = length QT
     \<and> (nat i + w \<le> length ts \<longrightarrow> rolling = Fin (\<Sum>j<w. ts ! (nat i + j)) \<or> i = int n)
     \<and> (\<forall>k < nat i. k + w \<le> length ts \<longrightarrow> QT' ! k = Fin (cdot ts qs w k 0)))"

lemma compute_QT_CPU_exact:
  assumes T: "holds T ts" "length T = sz" and Q: "holds Q qs" and w: "0 < w" "w \<le> length ts" "w \<le> length qs"
    and QT: "sz - w + 1 \<le> length QT"
  shows "\<exists>QT'. compute_QT_CPU exact (int sz) (int w) QT T Q = Some QT' \<and> length QT' = length QT
    \<and> (\<forall>i. i + w \<le> length ts \<longrightarrow> QT' ! i = Fin (cdot ts qs w i 0))"
proof -
  define n where "n = sz - w + 1"
  have lt: "length ts \<le> sz" "w \<le> length Q" using T Q w by (auto simp: holds_def)
  have n: "int sz - int w + 1 = int n" using lt w by (simp add: n_def)
  have qmean: "fdiv exact (Fin (\<Sum>j<w. qs ! j)) (fp_of_int exact (int w)) = Fin (wmean qs w 0)"
    using w(1) by (simp add: wmean_def)
  let ?body = "\<lambda>i (rolling, QT).
      (let mu = fdiv exact rolling (fp_of_int exact (int w)) in do {
         sum \<leftarrow> for1 0 (int w) (\<lambda>j sum. do {
           t \<leftarrow> aget T (i + j); q \<leftarrow> aget Q j;
           Some (fadd exact sum (fmul exact (fsub exact t mu) (fsub exact q (Fin (wmean qs w 0))))) }) (Fin 0);
         QT' \<leftarrow> aset QT i sum;
         (if i \<noteq> int n - 1 then do {
            old \<leftarrow> aget T i; new \<leftarrow> aget T (i + int w);
            Some (fadd exact (fsub exact rolling old) new, QT') }
          else Some (rolling, QT')) })"
  have "wp (for1 0 (int n) ?body (Fin (\<Sum>j<w. ts ! j), QT)) (QT_inv QT ts qs w n (int n))"
  proof (rule wp_for1 [where I = "QT_inv QT ts qs w n"])
    show "QT_inv QT ts qs w n 0 (Fin (\<Sum>j<w. ts ! j), QT)" by (simp add: QT_inv_def)
  next
    fix i st assume i: "0 \<le> i" "i < int n" and I: "QT_inv QT ts qs w n i st"
    obtain rolling QT' where st: "st = (rolling, QT')" by (cases st)
    define k where "k = nat i"
    have k: "i = int k" "k < n" "k + w \<le> length T" using i T(2) lt w by (auto simp: k_def n_def)
    have I': "length QT' = length QT" "k + w \<le> length ts \<Longrightarrow> rolling = Fin (\<Sum>j<w. ts ! (k + j))"
        "\<And>l. l < k \<Longrightarrow> l + w \<le> length ts \<Longrightarrow> QT' ! l = Fin (cdot ts qs w l 0)"
      using I i by (auto simp: QT_inv_def st k_def)
    obtain s where s: "for1 0 (int w) (\<lambda>j sum. do {
           t \<leftarrow> aget T (int k + j); q \<leftarrow> aget Q j;
           Some (fadd exact sum (fmul exact (fsub exact t (fdiv exact rolling (fp_of_int exact (int w))))
             (fsub exact q (Fin (wmean qs w 0))))) }) (Fin 0) = Some s"
      using QT_window_total [OF k(3) lt(2)] by blast
    have sv: "s = Fin (cdot ts qs w k 0)" if "k + w \<le> length ts"
    proof -
      have "fdiv exact rolling (fp_of_int exact (int w)) = Fin (wmean ts w k)"
        using I'(2) [OF that] w(1) by (simp add: wmean_def)
      then show ?thesis using QT_window [OF T(1) Q that w(3)] s by simp
    qed
    have a: "aset QT' (int k) s = Some (QT'[k := s])" using k(2) QT I'(1) by (simp add: aset_def n_def)
    show "wp (?body i st) (QT_inv QT ts qs w n (i + 1))"
    proof (cases "i = int n - 1")
      case True
      then have "?body i st = Some (rolling, QT'[k := s])"
        unfolding st k(1) prod.case Let_def s Option.bind.bind_lunit a by simp
      moreover have "QT_inv QT ts qs w n (i + 1) (rolling, QT'[k := s])"
        using True I' sv k(1,2) QT by (auto simp: QT_inv_def nth_list_update less_Suc_eq n_def)
      ultimately show ?thesis by (rule wpI)
    next
      case False
      then have k1: "Suc k < n" using k i by auto
      then have kw: "k + w < length T" using T(2) lt w by (simp add: n_def)
      have r: "aget T (int k) = Some (T ! k)" "aget T (int k + int w) = Some (T ! (k + w))"
        using kw by (auto simp: aget_def nat_add_distrib)
      have b: "?body i st = Some (fadd exact (fsub exact rolling (T ! k)) (T ! (k + w)), QT'[k := s])"
        unfolding st k(1) prod.case Let_def s Option.bind.bind_lunit a r using False k(1) by simp
      have "fadd exact (fsub exact rolling (T ! k)) (T ! (k + w)) = Fin (\<Sum>j<w. ts ! (Suc k + j))"
        if "Suc k + w \<le> length ts"
      proof -
        have "T ! k = Fin (ts ! k)" "T ! (k + w) = Fin (ts ! (k + w))" using T(1) that by (auto simp: holds_def)
        then show ?thesis
          using I'(2) that window_shift [OF w(1), of "\<lambda>m. ts ! m" k] by simp
      qed
      then have "QT_inv QT ts qs w n (i + 1) (fadd exact (fsub exact rolling (T ! k)) (T ! (k + w)), QT'[k := s])"
        using I'(1,3) sv k(1,2) QT by (auto simp: QT_inv_def nth_list_update less_Suc_eq n_def)
      then show ?thesis by (rule wpI [OF b])
    qed
  qed simp_all
  then obtain rolling QT' where l: "for1 0 (int n) ?body (Fin (\<Sum>j<w. ts ! j), QT) = Some (rolling, QT')"
      and I: "QT_inv QT ts qs w n (int n) (rolling, QT')"
    by (auto dest!: wp_SomeD)
  have "compute_QT_CPU exact (int sz) (int w) QT T Q = Some QT'"
    unfolding compute_QT_CPU_def Let_def n QT_sums [OF T(1) Q w(2,3)] Option.bind.bind_lunit prod.case qmean
    using l unfolding Let_def by simp
  moreover have "i < n" if "i + w \<le> length ts" for i using that lt w by (simp add: n_def)
  ultimately show ?thesis using I by (auto simp: QT_inv_def)
qed

subsection \<open>Properties\<close>

text \<open>
  C23. The rolling routines the code uses by default and the brute-force ones of
  \<open>high_precision_norms\<close> agree in exact arithmetic: both yield the window means, the inverse norms
  (NaN for a flat or unclean window), the vectors of the recurrence and the indices of the NaN windows.
\<close>

theorem statistics_fast_eq_brute_force:
  assumes "0 < w" "w \<le> length xs" "length nv = length xs - w + 1"
  shows "compute_statistics_cpu exact (map Fin xs) nv (int w) False = compute_statistics_cpu exact (map Fin xs) nv (int w) True
    \<and> compute_statistics_cpu exact (map Fin xs) nv (int w) True = Some (exact_stats xs nv w)"
  using compute_statistics_exact [OF assms] by simp

lemma statistics_fast_eq_brute_force_witness:
  "compute_statistics_cpu exact (map Fin [1, 2, 4, 8]) [False, False, True] (int 2) False
   = compute_statistics_cpu exact (map Fin [1, 2, 4, 8]) [False, False, True] (int 2) True"
  using statistics_fast_eq_brute_force [of 2 "[1, 2, 4, 8]" "[False, False, True]"] by simp

text \<open>
  Cleaning: for a window within the series the code never leaves its vectors, every value of the
  cleaned series is finite, finite values are kept, and a window is flagged exactly if it holds a NaN
  or an infinity.
\<close>

theorem convert_non_finite_correct:
  assumes "0 < m" "m \<le> length T"
  shows "wp (convert_non_finite_to_zero T (int m)) (\<lambda>(clean, nan).
    length clean = length T \<and> length nan = length T - m + 1
    \<and> (\<forall>i < length T. clean ! i = (if is_finite (T ! i) then T ! i else Fin 0))
    \<and> (\<forall>i \<le> length T - m. nan ! i \<longleftrightarrow> (\<exists>j < m. \<not> is_finite (T ! (i + j)))))"
proof -
  have "(\<exists>j \<in> {i..<i + m}. \<not> is_finite (T ! j)) \<longleftrightarrow> (\<exists>j < m. \<not> is_finite (T ! (i + j)))" for i
  proof
    assume "\<exists>j \<in> {i..<i + m}. \<not> is_finite (T ! j)"
    then obtain j where "i \<le> j" "j < i + m" "\<not> is_finite (T ! j)" by auto
    then have "j - i < m \<and> \<not> is_finite (T ! (i + (j - i)))" by auto
    then show "\<exists>j < m. \<not> is_finite (T ! (i + j))" by blast
  qed auto
  then show ?thesis
    by (simp add: convert_eq [OF assms] clean_series_def nan_windows_def del: upt_Suc)
qed

lemma convert_non_finite_correct_witness:
  "wp (convert_non_finite_to_zero [Fin 1, NaN, Fin 3, Fin 4] (int 2)) (\<lambda>(clean, nan).
     clean ! 1 = Fin 0 \<and> nan ! 0 \<and> \<not> nan ! 2)"
proof (rule wp_mono [OF convert_non_finite_correct])
  let ?T = "[Fin 1, NaN, Fin 3, Fin 4]"
  fix st assume "case st of (clean, nan) \<Rightarrow> length clean = length ?T \<and> length nan = length ?T - 2 + 1
    \<and> (\<forall>i < length ?T. clean ! i = (if is_finite (?T ! i) then ?T ! i else Fin 0))
    \<and> (\<forall>i \<le> length ?T - 2. nan ! i \<longleftrightarrow> (\<exists>j < 2. \<not> is_finite (?T ! (i + j))))"
  then obtain clean nan where st: "st = (clean, nan)"
      and c: "\<And>i. i < 4 \<Longrightarrow> clean ! i = (if is_finite (?T ! i) then ?T ! i else Fin 0)"
      and n: "\<And>i. i \<le> 2 \<Longrightarrow> nan ! i \<longleftrightarrow> (\<exists>j < 2. \<not> is_finite (?T ! (i + j)))"
    by (cases st) simp
  have "nan ! 0" using n [of 0] by (auto intro!: exI [of _ 1])
  moreover have "\<not> nan ! 2" using n [of 2] by (auto simp: less_2_cases_iff)
  ultimately show "case st of (clean, nan) \<Rightarrow> clean ! 1 = Fin 0 \<and> nan ! 0 \<and> \<not> nan ! 2"
    using c [of 1] by (simp add: st)
qed simp_all

text \<open>
  C24. The first row of covariances of a tile: on buffers that hold the two time series (and anything
  behind them) \<open>compute_QT_CPU\<close> writes, for every window of \<open>T\<close>, its centred dot product with the first
  window of \<open>Q\<close>.
\<close>

theorem compute_QT_covariances:
  assumes "holds T ts" "length T = sz" "holds Q qs" "0 < w" "w \<le> length ts" "w \<le> length qs" "sz - w + 1 \<le> length QT"
  shows "wp (compute_QT_CPU exact (int sz) (int w) QT T Q) (\<lambda>QT'. length QT' = length QT
    \<and> (\<forall>i. i + w \<le> length ts \<longrightarrow> QT' ! i =
         Fin (\<Sum>k<w. (ts ! (i + k) - wmean ts w i) * (qs ! k - wmean qs w 0))))"
  using compute_QT_CPU_exact [OF assms] by (auto simp: cdot_def)

lemma compute_QT_covariances_witness:
  "wp (compute_QT_CPU exact (int 4) (int 2) [NaN, NaN, NaN] [Fin 1, Fin 3, Fin 4, NaN] [Fin 0, Fin 2, NaN, NaN])
     (\<lambda>QT'. QT' ! 1 = Fin (\<Sum>k<2. ([1, 3, 4] ! (1 + k) - wmean [1, 3, 4] 2 1) * ([0, 2] ! k - wmean [0, 2] 2 0)))"
  by (rule wp_mono [OF compute_QT_covariances [of _ "[1, 3, 4]" _ _ "[0, 2]"]])
    (auto simp: holds_def less_Suc_eq numeral_eq_Suc)

text \<open>
  C25. The combined statistics of the ultra precision never come out: the loop over the windows of \<open>A\<close>
  reads \<open>A[i + m]\<close> up to one element past the end of the series, whatever the second series is.
\<close>

theorem combined_stats_out_of_bounds:
  assumes "0 < m" "m \<le> int (length A)"
  shows "compute_combined_stats_cpu rd A means_A B m hp = None"
proof -
  let ?na = "int (length A) - m + 1"
  have "for1 0 ?na (\<lambda>i (cb, cf). do {
         a \<leftarrow> aget A i; \<mu>0 \<leftarrow> aget means_A i;
         cb' \<leftarrow> aset cb i (fmul rd (Fin (-1)) (fsub rd a \<mu>0));
         am \<leftarrow> aget A (i + m); \<mu>1 \<leftarrow> aget means_A (i + 1);
         cf' \<leftarrow> aset cf i (fsub rd am \<mu>1);
         Some (cb', cf') }) st = None" for st :: "fp list \<times> fp list"
  proof (rule for1_fails [where i = "?na - 1"])
    have "aget A (?na - 1 + m) = None" by (simp add: aget_None_iff)
    then show "(\<lambda>(cb, cf). do {
         a \<leftarrow> aget A (?na - 1); \<mu>0 \<leftarrow> aget means_A (?na - 1);
         cb' \<leftarrow> aset cb (?na - 1) (fmul rd (Fin (-1)) (fsub rd a \<mu>0));
         am \<leftarrow> aget A (?na - 1 + m); \<mu>1 \<leftarrow> aget means_A (?na - 1 + 1);
         cf' \<leftarrow> aset cf (?na - 1) (fsub rd am \<mu>1);
         Some (cb', cf') }) st = None" for st :: "fp list \<times> fp list"
      by (cases st) (simp add: Option.bind_eq_None_conv)
  qed (use assms in auto)
  then show ?thesis
    by (simp add: compute_combined_stats_cpu_def Let_def Option.bind_eq_None_conv)
qed

lemma combined_stats_out_of_bounds_witness:
  "compute_combined_stats_cpu exact [Fin 1, Fin 2, Fin 4] [Fin (3 / 2), Fin 3] [Fin 1, Fin 2, Fin 4] 2 True = None"
  by (rule combined_stats_out_of_bounds) simp_all

end
