(* ===== verification/Profile.thy ===== *)
theory Profile
  imports CpuKernel
begin

text \<open>
  src/common/profile.h and profile.cpp: the profile of an operation or of a tile, its allocation, the
  copy from the memory the kernel wrote, and the merge of a tile's profile into the global one.

  \<^item> \<open>mp_entry\<close> values are moved as 64-bit integers; \<open>uint64_value\<close> holds them as entries. The counters
    of \<open>FREQUENCY_THRESH\<close>, which no kernel produces, live in the same C++ field; here they have their
    own, \<open>count_value\<close>.
  \<^item> A \<open>priority_queue\<close> ordered by \<open>compareMatch\<close> has the smallest correlation on top. It is a list in
    ascending order; among equal correlations the heap of the library may pop another one first.
  \<^item> \<open>MergeTileToProfile\<close> holds the profile's mutex throughout, so it is one step.
\<close>

subsection \<open>State\<close>

type_synonym match_queue = "SCAMPmatch list"

record ProfileData =
  uint32_value :: "32 word list"
  uint64_value :: "mp_entry list"
  count_value :: "int list"
  float_value :: "fp list"
  double_value :: "fp list"
  matrix_value :: "fp list list"
  match_value :: "match_queue list"
  match_value_unordered :: "SCAMPmatch list"

record Profile =
  profile_data :: "ProfileData list"
  thresholds :: "fp list"
  profile_type :: SCAMPProfileType

definition ProfileData_empty :: ProfileData where
  "ProfileData_empty = \<lparr>uint32_value = [], uint64_value = [], count_value = [], float_value = [],
     double_value = [], matrix_value = [], match_value = [], match_value_unordered = []\<rparr>"

text \<open>Access to \<open>data[0]\<close>, undefined if there is none.\<close>

definition data0 :: "Profile \<Rightarrow> ProfileData option" where
  "data0 p = aget (profile_data p) 0"

definition set_data0 :: "Profile \<Rightarrow> ProfileData \<Rightarrow> Profile" where
  "set_data0 p d = p\<lparr>profile_data := (profile_data p)[0 := d]\<rparr>"

subsection \<open>The queue of matches\<close>

fun pq_push :: "SCAMPmatch \<Rightarrow> match_queue \<Rightarrow> match_queue" where
  "pq_push m [] = [m]"
| "pq_push m (x # q) = (if flt (corr x) (corr m) then x # pq_push m q else m # x # q)"

definition pq_top :: "match_queue \<Rightarrow> SCAMPmatch option" where
  "pq_top q = (case q of [] \<Rightarrow> None | x # _ \<Rightarrow> Some x)"

definition pq_pop :: "match_queue \<Rightarrow> match_queue option" where
  "pq_pop q = (case q of [] \<Rightarrow> None | _ # q' \<Rightarrow> Some q')"

subsection \<open>Elementwise merges\<close>

definition elementwise_sum :: "rounding \<Rightarrow> fp list \<Rightarrow> int \<Rightarrow> int \<Rightarrow> fp list \<Rightarrow> fp list option" where
  "elementwise_sum rd mp_full merge_start tile_sz to_merge =
     for1 0 tile_sz (\<lambda>i full. do {
       x \<leftarrow> aget full (i + merge_start); y \<leftarrow> aget to_merge i;
       aset full (i + merge_start) (fadd rd x y) }) mp_full"

definition elementwise_sum_count :: "int list \<Rightarrow> int \<Rightarrow> int \<Rightarrow> int list \<Rightarrow> int list option" where
  "elementwise_sum_count mp_full merge_start tile_sz to_merge =
     for1 0 tile_sz (\<lambda>i full. do {
       x \<leftarrow> aget full (i + merge_start); y \<leftarrow> aget to_merge i;
       aset full (i + merge_start) (u64 (x + y)) }) mp_full"

definition elementwise_max_index ::
  "mp_entry list \<Rightarrow> int \<Rightarrow> int \<Rightarrow> mp_entry list \<Rightarrow> int \<Rightarrow> mp_entry list option" where
  "elementwise_max_index mp_full merge_start tile_sz to_merge index_offset =
     for1 0 tile_sz (\<lambda>i full. do {
       e1 \<leftarrow> aget full (i + merge_start); e2 \<leftarrow> aget to_merge i;
       (if flt (floats0 e1) (floats0 e2)
        then aset full (i + merge_start) (e2\<lparr>ints1 := ints1 e2 + word_of_int index_offset\<rparr>)
        else Some full) }) mp_full"

definition elementwise_max :: "fp list \<Rightarrow> int \<Rightarrow> int \<Rightarrow> fp list \<Rightarrow> fp list option" where
  "elementwise_max mp_full merge_start tile_sz to_merge =
     for1 0 tile_sz (\<lambda>i full. do {
       x \<leftarrow> aget full (i + merge_start); y \<leftarrow> aget to_merge i;
       (if flt x y then aset full (i + merge_start) y else Some full) }) mp_full"

definition matrix_merge :: "fp list \<Rightarrow> fp list \<Rightarrow> fp list option" where
  "matrix_merge full vals =
     for1 0 (int (length vals)) (\<lambda>i full. do {
       x \<leftarrow> aget full i; y \<leftarrow> aget vals i;
       (if flt x y then aset full i y else Some full) }) full"

subsection \<open>Merges of sorted matches\<close>

text \<open>The matches of the first column, and the rest: the counting loops of the two merges.\<close>

definition col_run :: "SCAMPmatch list \<Rightarrow> SCAMPmatch list \<times> SCAMPmatch list" where
  "col_run ms = (case ms of [] \<Rightarrow> ([], [])
     | m # _ \<Rightarrow> (takeWhile (\<lambda>x. match_col x = match_col m) ms, dropWhile (\<lambda>x. match_col x = match_col m) ms))"

lemma col_run_length [termination_simp]: "length (snd (col_run (m # ms))) < Suc (length ms)"
  using length_dropWhile_le [of "\<lambda>x. match_col x = match_col m" ms] by (simp add: col_run_def)

function threshold_merge :: "SCAMPmatch list \<Rightarrow> int \<Rightarrow> int \<Rightarrow> fp list \<Rightarrow> fp list option" where
  "threshold_merge [] merge_start_col max_matches thr = Some thr"
| "threshold_merge (m # ms) merge_start_col max_matches thr =
     (let (run, rest) = col_run (m # ms); c = uint (match_col m) + merge_start_col in do {
       thr' \<leftarrow> (if int (length run) - 1 > max_matches then do {
                  t \<leftarrow> aget thr c;
                  x \<leftarrow> aget (m # ms) max_matches;
                  (if flt t (corr x) then aset thr c (corr x) else Some thr) }
                else Some thr);
       threshold_merge rest merge_start_col max_matches thr' })"
  by pat_completeness auto
termination
  by (relation "measure (\<lambda>(ms, _, _, _). length ms)") (auto simp: prod_eq_iff intro: col_run_length [THEN order_less_le_trans])

text \<open>
  The inner loop of \<open>match_merge\<close> on the matches of one column: \<open>count\<close> so far, the queue, and the
  value popped last.
\<close>

fun merge_column ::
  "int \<Rightarrow> int \<Rightarrow> int \<Rightarrow> int \<Rightarrow> SCAMPmatch list \<Rightarrow> match_queue \<times> fp option \<Rightarrow> (match_queue \<times> fp option) option" where
  "merge_column max_matches start_row start_col cnt [] st = Some st"
| "merge_column max_matches start_row start_col cnt (m # ms) st =
     (if cnt < max_matches then (case st of (pq, old) \<Rightarrow>
        if int (length pq) = max_matches then do {
          t \<leftarrow> pq_top pq;
          (if fle (corr m) (corr t) then Some st
           else do {
             pq' \<leftarrow> pq_pop pq;
             merge_column max_matches start_row start_col (cnt + 1) ms
               (pq_push \<lparr>corr = corr m, match_row = match_row m + word_of_int start_row,
                          match_col = match_col m + word_of_int start_col\<rparr> pq', Some (corr t)) }) }
        else merge_column max_matches start_row start_col (cnt + 1) ms
               (pq_push \<lparr>corr = corr m, match_row = match_row m + word_of_int start_row,
                          match_col = match_col m + word_of_int start_col\<rparr> pq, old))
      else Some st)"

function match_merge ::
  "SCAMPmatch list \<Rightarrow> int \<Rightarrow> int \<Rightarrow> int \<Rightarrow> match_queue list \<times> fp list \<Rightarrow> (match_queue list \<times> fp list) option" where
  "match_merge [] start_row start_col max_matches st = Some st"
| "match_merge (m # ms) start_row start_col max_matches st =
     (let (run, rest) = col_run (m # ms); c = uint (match_col m) + start_col; (queues, thr) = st in do {
       pq \<leftarrow> aget queues c;
       (pq', old) \<leftarrow> merge_column max_matches start_row start_col 0 run (pq, None);
       queues' \<leftarrow> aset queues c pq';
       thr' \<leftarrow> (case old of None \<Rightarrow> Some thr | Some v \<Rightarrow> aset thr c v);
       match_merge rest start_row start_col max_matches (queues', thr') })"
  by pat_completeness auto
termination
  by (relation "measure (\<lambda>(ms, _, _, _, _). length ms)") (auto simp: prod_eq_iff intro: col_run_length [THEN order_less_le_trans])

declare threshold_merge.simps(2) [simp del] match_merge.simps(2) [simp del]

subsection \<open>Allocation, copies and merges by type\<close>

definition vresize_opt :: "int \<Rightarrow> 'a \<Rightarrow> 'a list \<Rightarrow> 'a list option" where
  "vresize_opt n v xs = (if 0 \<le> n then Some (vresize n v xs) else None)"

definition init_entry :: mp_entry where
  "init_entry = \<lparr>floats0 = Fin (-2), ints1 = - 1\<rparr>"

definition Alloc :: "Profile \<Rightarrow> int \<Rightarrow> int \<Rightarrow> int \<Rightarrow> fp \<Rightarrow> Profile option" where
  "Alloc p sz matrix_height matrix_width default_thresh =
     (let p1 = p\<lparr>profile_data := profile_data p @ [ProfileData_empty]\<rparr> in
      case profile_type p of
        PROFILE_TYPE_SUM_THRESH \<Rightarrow> do {
          d \<leftarrow> data0 p1; v \<leftarrow> vresize_opt sz (Fin 0) (double_value d);
          Some (set_data0 p1 (d\<lparr>double_value := v\<rparr>)) }
      | PROFILE_TYPE_1NN \<Rightarrow> do {
          d \<leftarrow> data0 p1; v \<leftarrow> vresize_opt sz (Fin (-2)) (float_value d);
          Some (set_data0 p1 (d\<lparr>float_value := v\<rparr>)) }
      | PROFILE_TYPE_1NN_INDEX \<Rightarrow> do {
          d \<leftarrow> data0 p1; v \<leftarrow> vresize_opt sz init_entry (uint64_value d);
          Some (set_data0 p1 (d\<lparr>uint64_value := v\<rparr>)) }
      | PROFILE_TYPE_FREQUENCY_THRESH \<Rightarrow> do {
          d \<leftarrow> data0 p1; v \<leftarrow> vresize_opt sz 0 (count_value d);
          Some (set_data0 p1 (d\<lparr>count_value := v\<rparr>)) }
      | PROFILE_TYPE_APPROX_ALL_NEIGHBORS \<Rightarrow> do {
          d \<leftarrow> data0 p1; v \<leftarrow> vresize_opt sz [] (match_value d);
          t \<leftarrow> vresize_opt sz default_thresh (thresholds p1);
          Some ((set_data0 p1 (d\<lparr>match_value := v\<rparr>))\<lparr>thresholds := t\<rparr>) }
      | PROFILE_TYPE_MATRIX_SUMMARY \<Rightarrow> do {
          d \<leftarrow> data0 p1; v \<leftarrow> vresize_opt (matrix_height * matrix_width) (Fin (-2)) (float_value d);
          Some (set_data0 p1 (d\<lparr>float_value := v\<rparr>)) }
      | _ \<Rightarrow> Some p)"

definition Profile_init :: "SCAMPProfileType \<Rightarrow> int \<Rightarrow> fp \<Rightarrow> int \<Rightarrow> int \<Rightarrow> Profile option" where
  "Profile_init t sz thresh_init mwidth mheight =
     Alloc \<lparr>profile_data = [], thresholds = [], profile_type = t\<rparr> sz mheight mwidth thresh_init"

text \<open>
  The copy constructor, the move constructor and the move assignment: each takes the type and the data
  of the other profile and leaves its own thresholds (none in a new object).
\<close>

definition Profile_copy :: "Profile \<Rightarrow> Profile" where
  "Profile_copy other = \<lparr>profile_data = profile_data other, thresholds = [], profile_type = profile_type other\<rparr>"

definition Profile_assign :: "Profile \<Rightarrow> Profile \<Rightarrow> Profile" where
  "Profile_assign self other = self\<lparr>profile_data := profile_data other, profile_type := profile_type other\<rparr>"

definition Profile_default :: Profile where
  "Profile_default = \<lparr>profile_data = [], thresholds = [], profile_type = PROFILE_TYPE_INVALID\<rparr>"

text \<open>\<open>Memcopy\<close> of \<open>n\<close> elements to the front of a host vector.\<close>

definition copy_front :: "'a list \<Rightarrow> 'a list \<Rightarrow> int \<Rightarrow> 'a list option" where
  "copy_front host dev n = do { xs \<leftarrow> aslice dev 0 n; ablit host 0 xs }"

fun as_match :: "dev_mem \<Rightarrow> SCAMPmatch list option" where
  "as_match (Dev_match xs) = Some xs" | "as_match _ = None"

definition unimplemented :: "'a result" where
  "unimplemented = Inl (SCAMPException ''FUNCTIONALITY UNIMPLEMENTED'')"

definition default_match :: SCAMPmatch where
  "default_match = \<lparr>corr = Fin (-2), match_row = 0, match_col = 0\<rparr>"

definition CopyFromDevice :: "OpInfo \<Rightarrow> dev_mem \<Rightarrow> int \<Rightarrow> Profile \<Rightarrow> Profile result" where
  "CopyFromDevice info dev len p =
     (case profile_type p of
        PROFILE_TYPE_SUM_THRESH \<Rightarrow> of_option (do {
          d \<leftarrow> data0 p; m \<leftarrow> as_double dev; v \<leftarrow> copy_front (double_value d) m len;
          Some (set_data0 p (d\<lparr>double_value := v\<rparr>)) })
      | PROFILE_TYPE_1NN \<Rightarrow> of_option (do {
          d \<leftarrow> data0 p; m \<leftarrow> as_float dev; v \<leftarrow> copy_front (float_value d) m len;
          Some (set_data0 p (d\<lparr>float_value := v\<rparr>)) })
      | PROFILE_TYPE_1NN_INDEX \<Rightarrow> of_option (do {
          d \<leftarrow> data0 p; m \<leftarrow> as_entry dev; v \<leftarrow> copy_front (uint64_value d) m len;
          Some (set_data0 p (d\<lparr>uint64_value := v\<rparr>)) })
      | PROFILE_TYPE_APPROX_ALL_NEIGHBORS \<Rightarrow> of_option (do {
          d \<leftarrow> data0 p; m \<leftarrow> as_match dev;
          v0 \<leftarrow> vresize_opt len default_match (match_value_unordered d);
          v \<leftarrow> copy_front v0 m len;
          Some (set_data0 p (d\<lparr>match_value_unordered := v\<rparr>)) })
      | PROFILE_TYPE_MATRIX_SUMMARY \<Rightarrow> of_option (do {
          d \<leftarrow> data0 p; m \<leftarrow> as_float dev;
          v \<leftarrow> copy_front (float_value d) m (op_matrix_width info * op_matrix_height info);
          Some (set_data0 p (d\<lparr>float_value := v\<rparr>)) })
      | _ \<Rightarrow> unimplemented)"

definition MergeTileToProfile ::
  "rounding \<Rightarrow> Profile \<Rightarrow> OpInfo \<Rightarrow> int \<Rightarrow> int \<Rightarrow> int \<Rightarrow> bool \<Rightarrow> Profile \<Rightarrow> Profile result" where
  "MergeTileToProfile rd tile info position len index_start overflowed p =
     (if profile_type p \<noteq> profile_type tile then Inl (SCAMPException ''Profile Types do not match'')
      else case profile_type p of
        PROFILE_TYPE_SUM_THRESH \<Rightarrow> of_option (do {
          d \<leftarrow> data0 p; t \<leftarrow> data0 tile;
          v \<leftarrow> elementwise_sum rd (double_value d) position len (double_value t);
          Some (set_data0 p (d\<lparr>double_value := v\<rparr>)) })
      | PROFILE_TYPE_1NN_INDEX \<Rightarrow> of_option (do {
          d \<leftarrow> data0 p; t \<leftarrow> data0 tile;
          v \<leftarrow> elementwise_max_index (uint64_value d) position len (uint64_value t) index_start;
          Some (set_data0 p (d\<lparr>uint64_value := v\<rparr>)) })
      | PROFILE_TYPE_1NN \<Rightarrow> of_option (do {
          d \<leftarrow> data0 p; t \<leftarrow> data0 tile;
          v \<leftarrow> elementwise_max (float_value d) position len (float_value t);
          Some (set_data0 p (d\<lparr>float_value := v\<rparr>)) })
      | PROFILE_TYPE_FREQUENCY_THRESH \<Rightarrow> of_option (do {
          d \<leftarrow> data0 p; t \<leftarrow> data0 tile;
          v \<leftarrow> elementwise_sum_count (count_value d) position len (count_value t);
          Some (set_data0 p (d\<lparr>count_value := v\<rparr>)) })
      | PROFILE_TYPE_APPROX_ALL_NEIGHBORS \<Rightarrow> of_option (do {
          d \<leftarrow> data0 p; t \<leftarrow> data0 tile;
          (if overflowed then do {
             thr \<leftarrow> threshold_merge (match_value_unordered t) position (op_max_matches_per_column info) (thresholds p);
             Some (p\<lparr>thresholds := thr\<rparr>) }
           else do {
             (q, thr) \<leftarrow> match_merge (match_value_unordered t) index_start position
                (op_max_matches_per_column info) (match_value d, thresholds p);
             Some ((set_data0 p (d\<lparr>match_value := q\<rparr>))\<lparr>thresholds := thr\<rparr>) }) })
      | PROFILE_TYPE_MATRIX_SUMMARY \<Rightarrow> of_option (do {
          d \<leftarrow> data0 p; t \<leftarrow> data0 tile;
          v \<leftarrow> matrix_merge (float_value d) (float_value t);
          Some (set_data0 p (d\<lparr>float_value := v\<rparr>)) })
      | _ \<Rightarrow> unimplemented)"

end
