(* ===== verification/ProfileFacts.thy ===== *)
theory ProfileFacts
  imports Profile KernelProfiles "HOL-Library.Multiset"
begin

text \<open>
  Merging tiles into a profile: what one merge does to every element, that the order in which the
  workers' tiles are merged does not matter, and that the queues of matches keep the best ones.
\<close>

subsection \<open>One merge, elementwise\<close>

definition merged :: "('e \<Rightarrow> 'a \<Rightarrow> 'e) \<Rightarrow> int \<Rightarrow> int \<Rightarrow> 'a list \<Rightarrow> 'e list \<Rightarrow> 'e list" where
  "merged h start n tile full =
     map (\<lambda>k. if start \<le> int k \<and> int k < start + n then h (full ! k) (tile ! (k - nat start)) else full ! k)
       [0..<length full]"

lemma merged_nth [simp]:
  "length (merged h start n tile full) = length full"
  "k < length full \<Longrightarrow> merged h start n tile full ! k =
     (if start \<le> int k \<and> int k < start + n then h (full ! k) (tile ! (k - nat start)) else full ! k)"
  by (simp_all add: merged_def)

lemma for1_pointwise:
  assumes start: "0 \<le> start" "0 \<le> n" "start + n \<le> int (length full)"
    and f: "\<And>i r. 0 \<le> i \<Longrightarrow> i < n \<Longrightarrow> length r = length full \<Longrightarrow>
      f i r = Some (r[nat (i + start) := h (r ! nat (i + start)) (tile ! nat i)])"
  shows "for1 0 n f full = Some (merged h start n tile full)"
proof -
  let ?I = "\<lambda>i r. r = merged h start i tile full"
  have "wp (for1 0 n f full) (?I n)"
  proof (rule wp_for1 [where I = ?I])
    show "?I 0 full" by (rule nth_equalityI) auto
  next
    fix i r assume i: "0 \<le> i" "i < n" and r: "?I i r"
    let ?k = "nat (i + start)"
    have k: "int ?k = i + start" "?k < length full" "?k - nat start = nat i" using i start by auto
    then have "r ! ?k = full ! ?k" using r by simp
    then have "f i r = Some (r[?k := h (full ! ?k) (tile ! nat i)])" using f [OF i] r by simp
    moreover have "r[?k := h (full ! ?k) (tile ! nat i)] = merged h start (i + 1) tile full"
    proof (rule nth_equalityI)
      fix j assume "j < length (r[?k := h (full ! ?k) (tile ! nat i)])"
      then have j: "j < length full" using r by simp
      show "r[?k := h (full ! ?k) (tile ! nat i)] ! j = merged h start (i + 1) tile full ! j"
      proof (cases "j = ?k")
        case True
        then show ?thesis using r k i j by simp
      next
        case False
        then have "int j \<noteq> i + start" using k(1) by auto
        then show ?thesis using False r j by auto
      qed
    qed (use r in simp)
    ultimately show "wp (f i r) (?I (i + 1))" by simp
  qed (use start in auto)
  then show ?thesis by (auto dest: wp_SomeD)
qed

lemma elementwise_max_eq:
  assumes "0 \<le> start" "0 \<le> n" "start + n \<le> int (length full)" "n \<le> int (length tile)"
  shows "elementwise_max full start n tile = Some (merged std_max start n tile full)"
  unfolding elementwise_max_def
  by (rule for1_pointwise [OF assms(1-3)]) (use assms in \<open>auto simp: std_max_def\<close>)

definition plus_if :: "rounding \<Rightarrow> fp \<Rightarrow> fp \<Rightarrow> fp" where
  "plus_if rd x y = fadd rd x y"

lemma elementwise_sum_eq:
  assumes "0 \<le> start" "0 \<le> n" "start + n \<le> int (length full)" "n \<le> int (length tile)"
  shows "elementwise_sum rd full start n tile = Some (merged (fadd rd) start n tile full)"
  unfolding elementwise_sum_def
  by (rule for1_pointwise [OF assms(1-3)]) (use assms in auto)

definition entry_max :: "int \<Rightarrow> mp_entry \<Rightarrow> mp_entry \<Rightarrow> mp_entry" where
  "entry_max off e1 e2 =
     (if flt (floats0 e1) (floats0 e2) then e2\<lparr>ints1 := ints1 e2 + word_of_int off\<rparr> else e1)"

lemma elementwise_max_index_eq:
  assumes "0 \<le> start" "0 \<le> n" "start + n \<le> int (length full)" "n \<le> int (length tile)"
  shows "elementwise_max_index full start n tile off = Some (merged (entry_max off) start n tile full)"
  unfolding elementwise_max_index_def
  by (rule for1_pointwise [OF assms(1-3)]) (use assms in \<open>auto simp: entry_max_def\<close>)

lemma matrix_merge_eq:
  assumes "length vals \<le> length full"
  shows "matrix_merge full vals = Some (merged std_max 0 (int (length vals)) vals full)"
  unfolding matrix_merge_def
  by (rule for1_pointwise) (use assms in \<open>auto simp: std_max_def\<close>)

subsection \<open>The order of the merges\<close>

text \<open>
  The contract of an elementwise merge whose order does not matter: merging two values commutes.
\<close>

locale commuting_merge =
  fixes h :: "'e \<Rightarrow> 'a \<Rightarrow> 'e"
  assumes merge_comm: "h (h e a) b = h (h e b) a"
begin

definition apply_tile :: "int \<times> int \<times> 'a list \<Rightarrow> 'e list \<Rightarrow> 'e list" where
  "apply_tile t full = (case t of (start, n, tile) \<Rightarrow> merged h start n tile full)"

lemma apply_tile_simps: "apply_tile (start, n, tile) full = merged h start n tile full"
  by (simp add: apply_tile_def)

lemma apply_tile_comm: "apply_tile s \<circ> apply_tile t = apply_tile t \<circ> apply_tile s"
proof
  fix full
  obtain p n x where s: "s = (p, n, x)" by (cases s)
  obtain q m y where t: "t = (q, m, y)" by (cases t)
  show "(apply_tile s \<circ> apply_tile t) full = (apply_tile t \<circ> apply_tile s) full"
    by (rule nth_equalityI) (auto simp: apply_tile_def s t merge_comm)
qed

lemma fold_tiles_perm:
  assumes "mset ts = mset ts'"
  shows "fold apply_tile ts full = fold apply_tile ts' full"
  by (rule arg_cong [of _ _ "\<lambda>f. f full"], rule fold_multiset_equiv) (use assms apply_tile_comm in auto)

lemma length_fold_tiles: "length (fold apply_tile ts full) = length full"
  by (induction ts arbitrary: full) (auto simp: apply_tile_def split: prod.split)

end

lemma std_max_comm: "std_max (std_max e a) b = std_max (std_max e b) a"
  by (cases e; cases a; cases b) (auto simp: std_max_def)

lemma fadd_exact_comm: "fadd exact (fadd exact e a) b = fadd exact (fadd exact e b) a"
  by (cases e; cases a; cases b) (auto simp: exact_def)

interpretation fmax: commuting_merge std_max
  by unfold_locales (rule std_max_comm)

interpretation fsum: commuting_merge "fadd exact"
  by unfold_locales (rule fadd_exact_comm)

text \<open>The value of an entry, whatever index wins a tie.\<close>

interpretation vmax: commuting_merge "\<lambda>x e. std_max x (floats0 e)"
  by unfold_locales (rule std_max_comm)

lemma entry_max_value: "floats0 (entry_max off e a) = std_max (floats0 e) (floats0 a)"
  by (simp add: entry_max_def std_max_def)

lemma merged_entries_value:
  "map floats0 (merged (entry_max off) start n tile full) =
   vmax.apply_tile (start, n, tile) (map floats0 full)"
  by (rule nth_equalityI) (auto simp: vmax.apply_tile_def entry_max_value)

text \<open>A sequence of merges of tiles into a profile, as the workers perform them one after another.\<close>

type_synonym tile_merge = "Profile \<times> int \<times> int \<times> int"

fun merge_all :: "rounding \<Rightarrow> OpInfo \<Rightarrow> tile_merge list \<Rightarrow> Profile \<Rightarrow> Profile result" where
  "merge_all rd info [] p = Inr p"
| "merge_all rd info ((tile, position, len, index_start) # ms) p =
     rbind (MergeTileToProfile rd tile info position len index_start False p) (merge_all rd info ms)"

text \<open>A profile of a type with a data element; the operations only look at the first.\<close>

definition typed_data :: "SCAMPProfileType \<Rightarrow> Profile \<Rightarrow> bool" where
  "typed_data t p \<longleftrightarrow> profile_type p = t \<and> profile_data p \<noteq> []"

definition the_data :: "Profile \<Rightarrow> ProfileData" where
  "the_data p = hd (profile_data p)"

lemma typed_data_simps [simp]:
  assumes "typed_data t p"
  shows "data0 p = Some (the_data p)" "typed_data t (set_data0 p d)" "the_data (set_data0 p d) = d"
    "set_data0 (set_data0 p d) d' = set_data0 p d'" "profile_type p = t"
  using assms by (auto simp: typed_data_def data0_def the_data_def set_data0_def aget_def neq_Nil_conv)

lemma set_data0_same: "typed_data t p \<Longrightarrow> set_data0 p (the_data p) = p"
  by (cases p) (auto simp: typed_data_def set_data0_def the_data_def neq_Nil_conv)

text \<open>A tile merge fits a profile of \<open>n\<close> elements; \<open>sel\<close> is the vector of its type.\<close>

definition fits :: "SCAMPProfileType \<Rightarrow> (ProfileData \<Rightarrow> 'a list) \<Rightarrow> nat \<Rightarrow> tile_merge \<Rightarrow> bool" where
  "fits t sel n m = (case m of (tile, position, len, _) \<Rightarrow> typed_data t tile \<and> 0 \<le> position \<and> 0 \<le> len
     \<and> position + len \<le> int n \<and> len \<le> int (length (sel (the_data tile))))"

lemma merge_all_1NN:
  assumes "typed_data PROFILE_TYPE_1NN p"
    and "\<forall>m \<in> set ms. fits PROFILE_TYPE_1NN float_value (length (float_value (the_data p))) m"
  shows "merge_all rd info ms p = Inr (set_data0 p ((the_data p)\<lparr>float_value :=
      fold fmax.apply_tile (map (\<lambda>(tile, pos, len, _). (pos, len, float_value (the_data tile))) ms)
        (float_value (the_data p))\<rparr>))"
  using assms
proof (induction ms arbitrary: p)
  case Nil
  then show ?case by (simp add: set_data0_same)
next
  case (Cons m ms)
  obtain tile pos len off where m: "m = (tile, pos, len, off)" by (cases m)
  let ?v = "merged std_max pos len (float_value (the_data tile)) (float_value (the_data p))"
  let ?p = "set_data0 p ((the_data p)\<lparr>float_value := ?v\<rparr>)"
  have f: "typed_data PROFILE_TYPE_1NN tile" "0 \<le> pos" "0 \<le> len"
      "pos + len \<le> int (length (float_value (the_data p)))" "len \<le> int (length (float_value (the_data tile)))"
    using Cons.prems(2) by (auto simp: m fits_def)
  have "MergeTileToProfile rd tile info pos len off False p = Inr ?p"
    using Cons.prems(1) f by (simp add: MergeTileToProfile_def elementwise_max_eq)
  then have M: "merge_all rd info (m # ms) p = merge_all rd info ms ?p" by (simp only: m merge_all.simps rbind_simps)
  have sd: "typed_data PROFILE_TYPE_1NN ?p" by (rule typed_data_simps(2) [OF Cons.prems(1)])
  have d: "the_data ?p = (the_data p)\<lparr>float_value := ?v\<rparr>" by (rule typed_data_simps(3) [OF Cons.prems(1)])
  have dd: "set_data0 ?p x = set_data0 p x" for x by (rule typed_data_simps(4) [OF Cons.prems(1)])
  have fit: "\<forall>m \<in> set ms. fits PROFILE_TYPE_1NN float_value (length (float_value (the_data ?p))) m"
    using Cons.prems(2) unfolding d by simp
  show ?case
    using Cons.IH [OF sd fit] unfolding M dd d by (simp add: m fmax.apply_tile_simps del: exact_simps)
qed

lemma merge_all_SUM_THRESH:
  assumes "typed_data PROFILE_TYPE_SUM_THRESH p"
    and "\<forall>m \<in> set ms. fits PROFILE_TYPE_SUM_THRESH double_value (length (double_value (the_data p))) m"
  shows "merge_all exact info ms p = Inr (set_data0 p ((the_data p)\<lparr>double_value :=
      fold fsum.apply_tile (map (\<lambda>(tile, pos, len, _). (pos, len, double_value (the_data tile))) ms)
        (double_value (the_data p))\<rparr>))"
  using assms
proof (induction ms arbitrary: p)
  case Nil
  then show ?case by (simp add: set_data0_same)
next
  case (Cons m ms)
  obtain tile pos len off where m: "m = (tile, pos, len, off)" by (cases m)
  let ?v = "merged (fadd exact) pos len (double_value (the_data tile)) (double_value (the_data p))"
  let ?p = "set_data0 p ((the_data p)\<lparr>double_value := ?v\<rparr>)"
  have f: "typed_data PROFILE_TYPE_SUM_THRESH tile" "0 \<le> pos" "0 \<le> len"
      "pos + len \<le> int (length (double_value (the_data p)))" "len \<le> int (length (double_value (the_data tile)))"
    using Cons.prems(2) by (auto simp: m fits_def)
  have "MergeTileToProfile exact tile info pos len off False p = Inr ?p"
    using Cons.prems(1) f by (simp add: MergeTileToProfile_def elementwise_sum_eq del: exact_simps)
  then have M: "merge_all exact info (m # ms) p = merge_all exact info ms ?p" by (simp only: m merge_all.simps rbind_simps)
  have sd: "typed_data PROFILE_TYPE_SUM_THRESH ?p" by (rule typed_data_simps(2) [OF Cons.prems(1)])
  have d: "the_data ?p = (the_data p)\<lparr>double_value := ?v\<rparr>" by (rule typed_data_simps(3) [OF Cons.prems(1)])
  have dd: "set_data0 ?p x = set_data0 p x" for x by (rule typed_data_simps(4) [OF Cons.prems(1)])
  have fit: "\<forall>m \<in> set ms. fits PROFILE_TYPE_SUM_THRESH double_value (length (double_value (the_data ?p))) m"
    using Cons.prems(2) unfolding d by simp
  show ?case
    using Cons.IH [OF sd fit] unfolding M dd d by (simp add: m fsum.apply_tile_simps del: exact_simps)
qed

lemma merge_all_1NN_INDEX:
  assumes "typed_data PROFILE_TYPE_1NN_INDEX p"
    and "\<forall>m \<in> set ms. fits PROFILE_TYPE_1NN_INDEX uint64_value (length (uint64_value (the_data p))) m"
  shows "\<exists>es. merge_all rd info ms p = Inr (set_data0 p ((the_data p)\<lparr>uint64_value := es\<rparr>))
    \<and> map floats0 es = fold vmax.apply_tile (map (\<lambda>(tile, pos, len, _). (pos, len, uint64_value (the_data tile))) ms)
        (map floats0 (uint64_value (the_data p)))"
  using assms
proof (induction ms arbitrary: p)
  case Nil
  then show ?case
    by (intro exI [of _ "uint64_value (the_data p)"]) (simp add: set_data0_same)
next
  case (Cons m ms)
  obtain tile pos len off where m: "m = (tile, pos, len, off)" by (cases m)
  let ?v = "merged (entry_max off) pos len (uint64_value (the_data tile)) (uint64_value (the_data p))"
  let ?p = "set_data0 p ((the_data p)\<lparr>uint64_value := ?v\<rparr>)"
  have f: "typed_data PROFILE_TYPE_1NN_INDEX tile" "0 \<le> pos" "0 \<le> len"
      "pos + len \<le> int (length (uint64_value (the_data p)))" "len \<le> int (length (uint64_value (the_data tile)))"
    using Cons.prems(2) by (auto simp: m fits_def)
  have "MergeTileToProfile rd tile info pos len off False p = Inr ?p"
    using Cons.prems(1) f by (simp add: MergeTileToProfile_def elementwise_max_index_eq)
  then have M: "merge_all rd info (m # ms) p = merge_all rd info ms ?p" by (simp only: m merge_all.simps rbind_simps)
  have sd: "typed_data PROFILE_TYPE_1NN_INDEX ?p" by (rule typed_data_simps(2) [OF Cons.prems(1)])
  have d: "the_data ?p = (the_data p)\<lparr>uint64_value := ?v\<rparr>" by (rule typed_data_simps(3) [OF Cons.prems(1)])
  have dd: "set_data0 ?p x = set_data0 p x" for x by (rule typed_data_simps(4) [OF Cons.prems(1)])
  have fit: "\<forall>m \<in> set ms. fits PROFILE_TYPE_1NN_INDEX uint64_value (length (uint64_value (the_data ?p))) m"
    using Cons.prems(2) unfolding d by simp
  show ?case
    using Cons.IH [OF sd fit] unfolding M dd d by (simp add: m merged_entries_value)
qed

text \<open>
  C21. The order in which the workers merge their tiles does not matter: for 1NN profiles and, in exact
  arithmetic, for sums, every order of the same merges succeeds with the same profile.
\<close>

theorem merge_order_irrelevant:
  assumes "t = PROFILE_TYPE_1NN \<and> n = length (float_value (the_data p))
      \<and> (\<forall>m \<in> set ms. fits t float_value n m)
    \<or> t = PROFILE_TYPE_SUM_THRESH \<and> rd = exact \<and> n = length (double_value (the_data p))
      \<and> (\<forall>m \<in> set ms. fits t double_value n m)"
    and "typed_data t p" "mset ms = mset ms'"
  shows "merge_all rd info ms' p = merge_all rd info ms p \<and> (\<exists>p'. merge_all rd info ms p = Inr p' \<and> typed_data t p')"
proof -
  have s: "set ms' = set ms" using assms(3) by (metis set_mset_mset)
  have m: "mset (map f ms) = mset (map f ms')" for f :: "tile_merge \<Rightarrow> 'b" using assms(3) by simp
  show ?thesis
    using assms(1)
  proof (elim disjE conjE)
    assume a: "t = PROFILE_TYPE_1NN" "n = length (float_value (the_data p))" "\<forall>m \<in> set ms. fits t float_value n m"
    then have f: "typed_data PROFILE_TYPE_1NN p"
        "\<forall>m \<in> set ms. fits PROFILE_TYPE_1NN float_value (length (float_value (the_data p))) m"
      using assms(2) by simp_all
    show ?thesis
      using merge_all_1NN [OF f] merge_all_1NN [OF f [folded s]] fmax.fold_tiles_perm [OF m] f(1) a(1)
      by simp
  next
    assume a: "t = PROFILE_TYPE_SUM_THRESH" "n = length (double_value (the_data p))"
        "\<forall>m \<in> set ms. fits t double_value n m" "rd = exact"
    then have f: "typed_data PROFILE_TYPE_SUM_THRESH p"
        "\<forall>m \<in> set ms. fits PROFILE_TYPE_SUM_THRESH double_value (length (double_value (the_data p))) m"
      using assms(2) by simp_all
    show ?thesis
      using merge_all_SUM_THRESH [OF f] merge_all_SUM_THRESH [OF f [folded s]] fsum.fold_tiles_perm [OF m] f(1) a(1,4)
      by simp
  qed
qed

text \<open>Two tiles of sums, merged in either order.\<close>

definition demo_sums :: "fp list \<Rightarrow> Profile" where
  "demo_sums xs = \<lparr>profile_data = [ProfileData_empty\<lparr>double_value := xs\<rparr>], thresholds = [], profile_type = PROFILE_TYPE_SUM_THRESH\<rparr>"

lemma demo_sums_simps [simp]:
  "typed_data PROFILE_TYPE_SUM_THRESH (demo_sums xs)" "double_value (the_data (demo_sums xs)) = xs"
  by (simp_all add: demo_sums_def typed_data_def the_data_def)

lemma merge_order_irrelevant_witness:
  "merge_all exact (demo_info PROFILE_TYPE_SUM_THRESH) [(demo_sums [Fin 3], 1, 1, 0), (demo_sums [Fin 1, Fin 2], 0, 2, 0)] (demo_sums [Fin 0, Fin 0])
   = merge_all exact (demo_info PROFILE_TYPE_SUM_THRESH) [(demo_sums [Fin 1, Fin 2], 0, 2, 0), (demo_sums [Fin 3], 1, 1, 0)] (demo_sums [Fin 0, Fin 0])"
  using merge_order_irrelevant [of PROFILE_TYPE_SUM_THRESH 2 "demo_sums [Fin 0, Fin 0]"
      "[(demo_sums [Fin 1, Fin 2], 0, 2, 0), (demo_sums [Fin 3], 1, 1, 0)]" exact
      "[(demo_sums [Fin 3], 1, 1, 0), (demo_sums [Fin 1, Fin 2], 0, 2, 0)]" "demo_info PROFILE_TYPE_SUM_THRESH"]
  by (simp add: fits_def add_mset_commute del: merge_all.simps)

end
