(* ===== verification/MatchMerge.thy ===== *)
theory MatchMerge
  imports ProfileFacts
begin

text \<open>
  The queues of matches of an approximate all-neighbours profile: merging the sorted matches of a tile
  keeps, for every column, the best \<open>max_matches\<close> of the old matches and the new ones, and a threshold
  that moves is one below which no match could enter any more.
\<close>

subsection \<open>One column\<close>

definition match_ok :: "SCAMPmatch \<Rightarrow> bool" where
  "match_ok m \<longleftrightarrow> \<not> is_nan (corr m)"

definition queue_ok :: "nat \<Rightarrow> match_queue \<Rightarrow> bool" where
  "queue_ok K q \<longleftrightarrow> length q \<le> K \<and> (\<forall>x \<in> set q. match_ok x) \<and> sorted_wrt (\<lambda>x y. fle (corr x) (corr y)) q"

text \<open>\<open>q'\<close> holds a best choice of at most \<open>K\<close> of the matches of \<open>q\<close> and \<open>ms\<close>.\<close>

definition keeps_best :: "nat \<Rightarrow> match_queue \<Rightarrow> SCAMPmatch list \<Rightarrow> match_queue \<Rightarrow> bool" where
  "keeps_best K q ms q' \<longleftrightarrow> length q' = min K (length q + length ms)
     \<and> (\<exists>dropped. mset q + mset ms = mset q' + dropped \<and> (\<forall>x \<in># dropped. \<forall>y \<in> set q'. fle (corr x) (corr y)))"

definition shift_match :: "int \<Rightarrow> int \<Rightarrow> SCAMPmatch \<Rightarrow> SCAMPmatch" where
  "shift_match r c m = \<lparr>corr = corr m, match_row = match_row m + word_of_int r,
     match_col = match_col m + word_of_int c\<rparr>"

lemma shift_match_corr [simp]: "corr (shift_match r c m) = corr m"
  by (simp add: shift_match_def)

lemma mset_pq_push [simp]: "mset (pq_push m q) = add_mset m (mset q)"
  by (induction q) auto

lemma set_pq_push [simp]: "set (pq_push m q) = insert m (set q)"
  by (metis mset_pq_push set_mset_add_mset_insert set_mset_mset)

lemma length_pq_push [simp]: "length (pq_push m q) = Suc (length q)"
  by (induction q) auto

lemma sorted_pq_push:
  assumes "sorted_wrt (\<lambda>x y. fle (corr x) (corr y)) q" "match_ok m" "\<forall>x \<in> set q. match_ok x"
  shows "sorted_wrt (\<lambda>x y. fle (corr x) (corr y)) (pq_push m q)"
  using assms
proof (induction q)
  case Nil
  then show ?case by simp
next
  case (Cons x q)
  show ?case
  proof (cases "flt (corr x) (corr m)")
    case True
    then show ?thesis using Cons by (auto simp: flt_imp_fle)
  next
    case False
    then have "fle (corr m) (corr x)" using Cons.prems by (simp add: match_ok_def not_flt)
    then show ?thesis using False Cons.prems by (auto intro: fle_trans)
  qed
qed

lemma keeps_best_refl: "length q \<le> K \<Longrightarrow> keeps_best K q [] q"
  by (simp add: keeps_best_def)

lemma keeps_best_same:
  assumes "keeps_best K q ms q1" "keeps_best K q1 [] q2" "length q1 \<le> K"
  shows "keeps_best K q ms q2 \<and> set q2 = set q1 \<and> length q2 = length q1"
proof -
  obtain dropped where d: "mset q1 = mset q2 + dropped" and len: "length q2 = length q1"
    using assms(2,3) by (auto simp: keeps_best_def)
  have "size (mset q1) = size (mset q2) + size dropped" using d by (metis size_union)
  then have "dropped = {#}" using len by simp
  then have "mset q1 = mset q2" using d by simp
  moreover then have "set q1 = set q2" by (metis set_mset_mset)
  ultimately show ?thesis using assms(1) len by (simp add: keeps_best_def)
qed

text \<open>All further matches are dropped once none can enter.\<close>

lemma keeps_best_drop:
  assumes "keeps_best K q ms q'" "length q' = K" "\<forall>x \<in> set ms'. \<forall>y \<in> set q'. fle (corr x) (corr y)"
  shows "keeps_best K q (ms @ ms') q'"
proof -
  obtain dropped where d: "mset q + mset ms = mset q' + dropped" "\<forall>x \<in># dropped. \<forall>y \<in> set q'. fle (corr x) (corr y)"
    using assms(1) by (auto simp: keeps_best_def)
  have "mset q + mset (ms @ ms') = mset q' + (dropped + mset ms')" using d(1) by (simp add: ac_simps)
  moreover have "\<forall>x \<in># dropped + mset ms'. \<forall>y \<in> set q'. fle (corr x) (corr y)" using d(2) assms(3) by auto
  moreover have "length q' = min K (length q + length (ms @ ms'))" using assms(1,2) by (auto simp: keeps_best_def)
  ultimately show ?thesis unfolding keeps_best_def by (intro conjI exI [of _ "dropped + mset ms'"])
qed

lemma keeps_best_push:
  assumes "keeps_best K q ms q'" "length q' < K"
  shows "keeps_best K q (ms @ [m]) (pq_push m q')"
proof -
  obtain dropped where d: "mset q + mset ms = mset q' + dropped"
    using assms(1) by (auto simp: keeps_best_def)
  have "length q' = length q + length ms" using assms by (auto simp: keeps_best_def)
  moreover have "size (mset q + mset ms) = size (mset q' + dropped)" using d by simp
  ultimately have "dropped = {#}" by simp
  then have "mset q + mset (ms @ [m]) = mset (pq_push m q') + {#}" using d by simp
  moreover have "length (pq_push m q') = min K (length q + length (ms @ [m]))"
    using assms by (auto simp: keeps_best_def)
  ultimately show ?thesis unfolding keeps_best_def by (intro conjI exI [of _ "{#}"]) auto
qed

lemma keeps_best_replace:
  assumes "keeps_best K q ms (t # q')" "length (t # q') = K" "flt (corr t) (corr m)"
    and "sorted_wrt (\<lambda>x y. fle (corr x) (corr y)) (t # q')"
  shows "keeps_best K q (ms @ [m]) (pq_push m q')"
proof -
  obtain dropped where d: "mset q + mset ms = mset (t # q') + dropped"
      "\<forall>x \<in># dropped. \<forall>y \<in> set (t # q'). fle (corr x) (corr y)"
    using assms(1) by (auto simp: keeps_best_def)
  have "mset q + mset (ms @ [m]) = mset (pq_push m q') + add_mset t dropped" using d(1) by simp
  moreover have "\<forall>x \<in># add_mset t dropped. \<forall>y \<in> set (pq_push m q'). fle (corr x) (corr y)"
    using d(2) assms(3,4) by (auto simp: flt_imp_fle intro: fle_trans)
  moreover have "length (pq_push m q') = min K (length q + length (ms @ [m]))"
    using assms(1,2) by (auto simp: keeps_best_def)
  ultimately show ?thesis unfolding keeps_best_def by blast
qed

definition desc :: "SCAMPmatch list \<Rightarrow> bool" where
  "desc ms \<longleftrightarrow> sorted_wrt (\<lambda>x y. fle (corr y) (corr x)) ms \<and> (\<forall>x \<in> set ms. match_ok x)"

text \<open>
  The loop over one column. It stops after \<open>K\<close> matches; by then \<open>K\<close> matches at least as good as all
  that follow are in the queue: \<open>cnt\<close> of the queued matches dominate the matches still to come.
\<close>

definition dominating :: "SCAMPmatch list \<Rightarrow> match_queue \<Rightarrow> nat" where
  "dominating ms q = length (filter (\<lambda>x. \<forall>m \<in> set ms. fle (corr m) (corr x)) q)"

lemma dominating_push: "dominating ms (pq_push m q) = dominating ms q + (if \<forall>x \<in> set ms. fle (corr x) (corr m) then 1 else 0)"
proof -
  have "dominating ms xs = size (filter_mset (\<lambda>x. \<forall>m \<in> set ms. fle (corr m) (corr x)) (mset xs))" for xs
    by (simp add: dominating_def flip: mset_filter)
  then show ?thesis by simp
qed

lemma dominating_mono: "set ms' \<subseteq> set ms \<Longrightarrow> dominating ms q \<le> dominating ms' q"
  unfolding dominating_def
  by (induction q) (auto simp: le_SucI)

definition old_ok :: "nat \<Rightarrow> match_queue \<Rightarrow> fp option \<Rightarrow> bool" where
  "old_ok K q old \<longleftrightarrow> (case old of None \<Rightarrow> True | Some v \<Rightarrow> length q = K \<and> (\<forall>x \<in> set q. fle v (corr x)))"

lemma full_filter:
  assumes "K \<le> length (filter P q)" "length q \<le> K"
  shows "length q = K \<and> filter P q = q"
proof -
  have "length (filter P q) = length q" using assms length_filter_le [of P q] by linarith
  then show ?thesis using assms by (metis filter_True length_filter_less less_irrefl le_antisym)
qed

lemma merge_column_best:
  assumes "0 < K" "queue_ok K q" "desc ms" "keeps_best K q0 done q" "cnt \<le> K"
    and "cnt \<le> dominating ms q" "old_ok K q old"
  shows "\<exists>q' old'. merge_column (int K) r c (int cnt) ms (q, old) = Some (q', old')
    \<and> queue_ok K q' \<and> keeps_best K q0 (done @ map (shift_match r c) ms) q' \<and> old_ok K q' old'"
  using assms(2-)
proof (induction ms arbitrary: q old cnt "done")
  case Nil
  then show ?case by simp
next
  case (Cons m ms)
  let ?m = "shift_match r c m"
  have mok: "match_ok m" "\<forall>x \<in> set ms. fle (corr x) (corr m)" "desc ms"
    using Cons.prems(2) by (auto simp: desc_def)
  note q = Cons.prems(1) [unfolded queue_ok_def]
  have stop: "\<exists>q' old'. Some (q, old) = Some (q', old')
      \<and> queue_ok K q' \<and> keeps_best K q0 (done @ map (shift_match r c) (m # ms)) q' \<and> old_ok K q' old'"
    if "length q = K" "\<forall>y \<in> set q. fle (corr m) (corr y)"
  proof -
    have "\<forall>x \<in> set (map (shift_match r c) (m # ms)). \<forall>y \<in> set q. fle (corr x) (corr y)"
      using that(2) mok(2) by (auto intro: fle_trans)
    then show ?thesis using keeps_best_drop [OF Cons.prems(3) that(1)] Cons.prems(1,6) by blast
  qed
  have step: "\<exists>q' old'. merge_column (int K) r c (int cnt + 1) ms (q1, old1) = Some (q', old')
      \<and> queue_ok K q' \<and> keeps_best K q0 (done @ map (shift_match r c) (m # ms)) q' \<and> old_ok K q' old'"
    if "queue_ok K q1" "keeps_best K q0 (done @ [?m]) q1" "cnt < K" "Suc cnt \<le> dominating ms q1" "old_ok K q1 old1"
    for q1 old1
    using Cons.IH [OF that(1) mok(3) that(2) _ that(4,5)] that(3) by (simp add: add.commute)
  show ?case
  proof (cases "cnt < K")
    case False
    then have "K \<le> dominating (m # ms) q" using Cons.prems(4,5) by simp
    then have len: "length q = K" "filter (\<lambda>x. \<forall>m' \<in> set (m # ms). fle (corr m') (corr x)) q = q"
      using full_filter [of K "\<lambda>x. \<forall>m' \<in> set (m # ms). fle (corr m') (corr x)" q] q by (simp_all only: dominating_def)
    then have "\<forall>y \<in> set q. fle (corr m) (corr y)" by (auto simp: filter_id_conv)
    then show ?thesis using False stop len(1) Cons.prems(4) by simp
  next
    case True
    show ?thesis
    proof (cases "length q = K")
      case full: True
      then obtain t q' where tq: "q = t # q'" using assms(1) by (cases q) auto
      have tok: "match_ok t" "\<forall>x \<in> set q'. fle (corr t) (corr x)" using q by (auto simp: tq)
      show ?thesis
      proof (cases "fle (corr m) (corr t)")
        case True
        then have "\<forall>y \<in> set q. fle (corr m) (corr y)" using tok by (auto simp: tq intro: fle_trans)
        then show ?thesis using stop full True \<open>cnt < K\<close> by (simp add: pq_top_def tq)
      next
        case False
        then have lt: "flt (corr t) (corr m)" using mok(1) tok(1) by (simp add: match_ok_def not_fle)
        let ?q1 = "pq_push ?m q'"
        have "queue_ok K ?q1"
          using q mok(1) full sorted_pq_push [of q' ?m] by (auto simp: queue_ok_def tq match_ok_def)
        moreover have "keeps_best K q0 (done @ [?m]) ?q1"
          by (rule keeps_best_replace [OF Cons.prems(3) [unfolded tq]]) (use full lt q in \<open>simp_all add: tq\<close>)
        moreover have "Suc cnt \<le> dominating ms ?q1"
        proof -
          have "\<not> (\<forall>x \<in> set (m # ms). fle (corr x) (corr t))" using False by simp
          then have "dominating (m # ms) q = dominating (m # ms) q'" by (simp add: dominating_def tq)
          also have "\<dots> \<le> dominating ms q'" by (rule dominating_mono) auto
          finally show ?thesis using Cons.prems(5) mok(2) by (simp add: dominating_push)
        qed
        moreover have "old_ok K ?q1 (Some (corr t))"
          using full tok(2) lt by (auto simp: old_ok_def tq flt_imp_fle)
        ultimately show ?thesis
          using step [of ?q1 "Some (corr t)"] True False full by (simp add: pq_top_def pq_pop_def tq flip: shift_match_def)
      qed
    next
      case notfull: False
      then have lt: "length q < K" using q by simp
      let ?q1 = "pq_push ?m q"
      have "queue_ok K ?q1"
        using q mok(1) lt sorted_pq_push [of q ?m] by (auto simp: queue_ok_def match_ok_def)
      moreover have "keeps_best K q0 (done @ [?m]) ?q1" by (rule keeps_best_push [OF Cons.prems(3) lt])
      moreover have "Suc cnt \<le> dominating ms ?q1"
      proof -
        have "dominating (m # ms) q \<le> dominating ms q" by (rule dominating_mono) auto
        then show ?thesis using Cons.prems(5) mok(2) by (simp add: dominating_push)
      qed
      moreover have "old_ok K ?q1 old" using Cons.prems(6) notfull by (auto simp: old_ok_def split: option.splits)
      ultimately show ?thesis
        using step [of ?q1 old] True notfull by (simp flip: shift_match_def)
    qed
  qed
qed

subsection \<open>All columns\<close>

definition matches_sorted :: "SCAMPmatch list \<Rightarrow> bool" where
  "matches_sorted ms \<longleftrightarrow> sorted_wrt (\<lambda>x y. uint (match_col x) < uint (match_col y)
     \<or> match_col x = match_col y \<and> fle (corr y) (corr x)) ms"

lemma uint_eq_iff: "uint a + c = uint b + c \<longleftrightarrow> a = b"
  by (auto intro: unsigned_word_eqI)

text \<open>The matches that go to column \<open>j\<close> of the profile when a tile's matches are merged at \<open>start_col\<close>.\<close>

definition for_column :: "int \<Rightarrow> nat \<Rightarrow> SCAMPmatch list \<Rightarrow> SCAMPmatch list" where
  "for_column start_col j ms = filter (\<lambda>m. uint (match_col m) + start_col = int j) ms"

lemma takeWhile_filter:
  assumes "\<forall>x \<in> set (dropWhile P xs). \<not> P x"
  shows "takeWhile P xs = filter P xs" "dropWhile P xs = filter (\<lambda>x. \<not> P x) xs"
proof -
  show "takeWhile P xs = filter P xs" using assms by (intro takeWhile_eq_filter) blast
  have "filter (\<lambda>x. \<not> P x) (takeWhile P xs) = []"
    by (auto simp only: filter_empty_conv dest: set_takeWhileD)
  moreover have "filter (\<lambda>x. \<not> P x) (dropWhile P xs) = dropWhile P xs" using assms by (intro filter_True) blast
  ultimately have "filter (\<lambda>x. \<not> P x) (takeWhile P xs @ dropWhile P xs) = dropWhile P xs"
    by (simp only: filter_append append_Nil)
  then show "dropWhile P xs = filter (\<lambda>x. \<not> P x) xs" by (simp only: takeWhile_dropWhile_id)
qed

lemma col_run_sorted:
  assumes "matches_sorted (m # ms)"
  shows "col_run (m # ms) = (filter (\<lambda>x. match_col x = match_col m) (m # ms), filter (\<lambda>x. match_col x \<noteq> match_col m) (m # ms))"
proof -
  have "\<forall>x \<in> set (dropWhile (\<lambda>x. match_col x = match_col m) (m # ms)). match_col x \<noteq> match_col m"
  proof (cases "dropWhile (\<lambda>x. match_col x = match_col m) (m # ms)")
    case Nil
    then show ?thesis by (metis empty_iff empty_set)
  next
    case (Cons y ys)
    then obtain run where r: "m # ms = run @ y # ys"
      by (metis takeWhile_dropWhile_id)
    have y: "match_col y \<noteq> match_col m"
      using Cons hd_dropWhile [of "\<lambda>x. match_col x = match_col m" "m # ms"] by simp
    have "run \<noteq> []"
    proof
      assume "run = []"
      with r have "m = y" by simp
      with y show False by simp
    qed
    then obtain a run' where run: "run = a # run'" by (cases run) auto
    with r have r': "matches_sorted (m # run' @ y # ys)" using assms by simp
    have "uint (match_col m) < uint (match_col y)"
      using r' y by (simp add: matches_sorted_def sorted_wrt_append)
    moreover have "uint (match_col y) \<le> uint (match_col x)" if "x \<in> set ys" for x
      using r' that by (fastforce simp: matches_sorted_def sorted_wrt_append)
    ultimately have "uint (match_col m) < uint (match_col x)" if "x = y \<or> x \<in> set ys" for x
      using that by (auto simp: order_less_le_trans)
    then show ?thesis unfolding Cons by fastforce
  qed
  then show ?thesis
    using takeWhile_filter [of "\<lambda>x. match_col x = match_col m" "m # ms"] by (simp only: col_run_def list.case)
qed

lemma matches_sorted_filter: "matches_sorted ms \<Longrightarrow> matches_sorted (filter P ms)"
  by (simp add: matches_sorted_def sorted_wrt_filter)

lemma desc_run: "matches_sorted ms \<Longrightarrow> \<forall>x \<in> set ms. match_ok x \<Longrightarrow> desc (filter (\<lambda>x. match_col x = c) ms)"
  by (induction ms) (auto simp: desc_def matches_sorted_def)

text \<open>The state the merge leaves for a column.\<close>

definition column_merged :: "nat \<Rightarrow> int \<Rightarrow> int \<Rightarrow> SCAMPmatch list \<Rightarrow> nat \<Rightarrow> match_queue \<Rightarrow> match_queue \<Rightarrow> fp \<Rightarrow> fp \<Rightarrow> bool" where
  "column_merged K r c ms j q q' t t' \<longleftrightarrow> queue_ok K q' \<and> keeps_best K q (map (shift_match r c) (for_column c j ms)) q'
     \<and> (t' = t \<or> length q' = K \<and> (\<forall>x \<in> set q'. fle t' (corr x)))"

lemma match_merge_columns:
  assumes "0 < K" "matches_sorted ms" "\<forall>m \<in> set ms. match_ok m \<and> uint (match_col m) + c < int (length queues)"
    and "0 \<le> c" "length thr = length queues" "\<forall>q \<in> set queues. queue_ok K q"
  shows "\<exists>queues' thr'. match_merge ms r c (int K) (queues, thr) = Some (queues', thr')
    \<and> length queues' = length queues \<and> length thr' = length thr
    \<and> (\<forall>j < length queues. column_merged K r c ms j (queues ! j) (queues' ! j) (thr ! j) (thr' ! j))"
  using assms(2-)
proof (induction "length ms" arbitrary: ms queues thr rule: less_induct)
  case less
  show ?case
  proof (cases ms)
    case Nil
    have "column_merged K r c [] j (queues ! j) (queues ! j) (thr ! j) (thr ! j)" if "j < length queues" for j
      using that less.prems(5) keeps_best_refl [of "queues ! j" K]
      by (auto simp: column_merged_def for_column_def queue_ok_def)
    then show ?thesis using Nil less.prems(4) by simp
  next
    case (Cons m ms1)
    define run where "run = filter (\<lambda>x. match_col x = match_col m) ms"
    define rest where "rest = filter (\<lambda>x. match_col x \<noteq> match_col m) ms"
    define k where "k = nat (uint (match_col m) + c)"
    have cr: "col_run (m # ms1) = (run, rest)"
      using col_run_sorted [of m ms1] less.prems(1) Cons by (simp add: run_def rest_def)
    have k: "int k = uint (match_col m) + c" "k < length queues"
      using less.prems(2,3) uint_ge_0 [of "match_col m"] by (simp_all add: k_def Cons nat_less_iff)
    have shorter: "length rest < length ms"
      unfolding rest_def by (rule length_filter_less [of m]) (simp_all add: Cons)
    have "queue_ok K (queues ! k)" using less.prems(5) k(2) by simp
    moreover have "desc run" unfolding run_def using less.prems(1,2) by (intro desc_run) auto
    moreover have "keeps_best K (queues ! k) [] (queues ! k)"
      using calculation(1) by (auto simp: queue_ok_def intro: keeps_best_refl)
    ultimately obtain pq' old where col:
        "merge_column (int K) r c 0 run (queues ! k, None) = Some (pq', old)" "queue_ok K pq'"
        "keeps_best K (queues ! k) (map (shift_match r c) run) pq'" "old_ok K pq' old"
      using merge_column_best [OF assms(1), of "queues ! k" run "queues ! k" "[]" 0 None r c]
      by (auto simp: old_ok_def)
    define thr1 where "thr1 = (case old of None \<Rightarrow> thr | Some v \<Rightarrow> thr[k := v])"
    have thr1: "(case old of None \<Rightarrow> Some thr | Some v \<Rightarrow> aset thr (int k) v) = Some thr1"
      using k(2) less.prems(4) by (simp add: thr1_def split: option.split)
    have len1: "length thr1 = length queues" using less.prems(4) by (simp add: thr1_def split: option.split)
    have eq: "match_merge ms r c (int K) (queues, thr) = match_merge rest r c (int K) (queues[k := pq'], thr1)"
      unfolding Cons match_merge.simps(2) cr using k col(1) thr1 by (simp flip: k(1))
    have rest_ok: "matches_sorted rest" "\<forall>m \<in> set rest. match_ok m \<and> uint (match_col m) + c < int (length (queues[k := pq']))"
      "length thr1 = length (queues[k := pq'])" "\<forall>q \<in> set (queues[k := pq']). queue_ok K q"
      using less.prems(1,2,5) col(2) len1 set_update_subset_insert [of queues k pq']
      by (auto simp: rest_def matches_sorted_filter)
    obtain queues' thr' where IH: "match_merge rest r c (int K) (queues[k := pq'], thr1) = Some (queues', thr')"
        "length queues' = length queues" "length thr' = length thr1"
        "\<And>j. j < length queues \<Longrightarrow> column_merged K r c rest j (queues[k := pq'] ! j) (queues' ! j) (thr1 ! j) (thr' ! j)"
      using less.hyps [OF shorter rest_ok(1,2) less.prems(3) rest_ok(3,4)] by (auto simp: len1)
    have "column_merged K r c ms j (queues ! j) (queues' ! j) (thr ! j) (thr' ! j)" if j: "j < length queues" for j
    proof (cases "j = k")
      case True
      have "for_column c k ms = run"
        unfolding for_column_def run_def k(1) by (intro filter_cong [OF refl]) (use uint_eq_iff in blast)
      moreover have "for_column c k rest = []"
        by (auto simp: for_column_def rest_def filter_empty_conv k(1) dest: unsigned_word_eqI)
      moreover have "thr1 ! k = (case old of None \<Rightarrow> thr ! k | Some v \<Rightarrow> v)"
        using k(2) less.prems(4) by (simp add: thr1_def split: option.split)
      moreover have "keeps_best K pq' [] (queues' ! k)" "queue_ok K (queues' ! k)"
          "thr' ! k = thr1 ! k \<or> length (queues' ! k) = K \<and> (\<forall>x \<in> set (queues' ! k). fle (thr' ! k) (corr x))"
        using IH(4) [of k] k(2) \<open>for_column c k rest = []\<close> by (auto simp: column_merged_def)
      moreover from this(1) have "keeps_best K (queues ! k) (map (shift_match r c) run) (queues' ! k)
          \<and> set (queues' ! k) = set pq' \<and> length (queues' ! k) = length pq'"
        using keeps_best_same [OF col(3)] col(2) by (simp add: queue_ok_def)
      ultimately show ?thesis
        using col(4) by (auto simp: True column_merged_def old_ok_def split: option.splits)
    next
      case False
      have "for_column c j ms = for_column c j rest"
        unfolding for_column_def rest_def filter_filter by (intro filter_cong) (use False k(1) in auto)
      moreover have "thr1 ! j = thr ! j" using False by (simp add: thr1_def split: option.split)
      ultimately show ?thesis using IH(4) [OF j] False by (simp add: column_merged_def)
    qed
    then show ?thesis using eq IH(1,2,3) len1 less.prems(4) by auto
  qed
qed

subsection \<open>Merging a tile of matches\<close>

definition tile_matches_ok :: "nat \<Rightarrow> int \<Rightarrow> Profile \<Rightarrow> Profile \<Rightarrow> bool" where
  "tile_matches_ok K position tile p \<longleftrightarrow>
     (let ms = match_value_unordered (the_data tile); queues = match_value (the_data p) in
       matches_sorted ms \<and> 0 \<le> position \<and> length (thresholds p) = length queues
       \<and> (\<forall>m \<in> set ms. match_ok m \<and> uint (match_col m) + position < int (length queues))
       \<and> (\<forall>q \<in> set queues. queue_ok K q))"

text \<open>
  C22. Merging the sorted matches of a tile into an approximate all-neighbours profile keeps, for every
  column of the profile, the best \<open>max_matches_per_column\<close> of the matches it had and of those the tile
  found for that column, with their rows and columns moved to the place of the tile; and a threshold
  that changes is no better than any match of a full queue, so no match it excludes could have entered.
\<close>

theorem merge_matches_keeps_best:
  assumes "typed_data PROFILE_TYPE_APPROX_ALL_NEIGHBORS p" "typed_data PROFILE_TYPE_APPROX_ALL_NEIGHBORS tile"
    and "op_max_matches_per_column info = int K" "0 < K" "tile_matches_ok K position tile p"
  shows "\<exists>p'. MergeTileToProfile rd tile info position len row_start False p = Inr p'
    \<and> length (match_value (the_data p')) = length (match_value (the_data p))
    \<and> (\<forall>j < length (match_value (the_data p)). column_merged K row_start position (match_value_unordered (the_data tile)) j
         (match_value (the_data p) ! j) (match_value (the_data p') ! j) (thresholds p ! j) (thresholds p' ! j))"
proof -
  have ok: "matches_sorted (match_value_unordered (the_data tile))"
      "\<forall>m \<in> set (match_value_unordered (the_data tile)). match_ok m \<and> uint (match_col m) + position < int (length (match_value (the_data p)))"
      "0 \<le> position" "length (thresholds p) = length (match_value (the_data p))"
      "\<forall>q \<in> set (match_value (the_data p)). queue_ok K q"
    using assms(5) by (simp_all add: tile_matches_ok_def Let_def)
  obtain queues thr where m: "match_merge (match_value_unordered (the_data tile)) row_start position (int K)
        (match_value (the_data p), thresholds p) = Some (queues, thr)" "length queues = length (match_value (the_data p))"
      "\<forall>j < length (match_value (the_data p)). column_merged K row_start position (match_value_unordered (the_data tile)) j
         (match_value (the_data p) ! j) (queues ! j) (thresholds p ! j) (thr ! j)"
    using match_merge_columns [OF assms(4) ok] by metis
  define p' where "p' = (set_data0 p ((the_data p)\<lparr>match_value := queues\<rparr>))\<lparr>thresholds := thr\<rparr>"
  have "MergeTileToProfile rd tile info position len row_start False p = Inr p'"
    using assms(1-3) m(1) by (simp add: MergeTileToProfile_def p'_def)
  moreover have "match_value (the_data p') = queues"
    using typed_data_simps(3) [OF assms(1)] by (simp add: the_data_def p'_def)
  moreover have "thresholds p' = thr" by (simp add: p'_def)
  ultimately show ?thesis using m(2,3) by auto
qed

definition demo_match :: "real \<Rightarrow> 32 word \<Rightarrow> 32 word \<Rightarrow> SCAMPmatch" where
  "demo_match x r c = \<lparr>corr = Fin x, match_row = r, match_col = c\<rparr>"

definition demo_matches :: Profile where
  "demo_matches = \<lparr>profile_data = [ProfileData_empty\<lparr>match_value_unordered :=
      [demo_match 3 5 0, demo_match 1 6 0, demo_match 2 7 1]\<rparr>], thresholds = [], profile_type = PROFILE_TYPE_APPROX_ALL_NEIGHBORS\<rparr>"

definition demo_queues :: Profile where
  "demo_queues = \<lparr>profile_data = [ProfileData_empty\<lparr>match_value := [[demo_match 1 0 0, demo_match 2 1 0], []]\<rparr>],
     thresholds = [Fin 0, Fin 0], profile_type = PROFILE_TYPE_APPROX_ALL_NEIGHBORS\<rparr>"

definition demo_match_info :: OpInfo where
  "demo_match_info = (demo_info PROFILE_TYPE_APPROX_ALL_NEIGHBORS)\<lparr>op_max_matches_per_column := 2\<rparr>"

lemma merge_matches_keeps_best_witness:
  "\<exists>p'. MergeTileToProfile exact demo_matches demo_match_info 0 2 100 False demo_queues = Inr p'
    \<and> column_merged 2 100 0 (match_value_unordered (the_data demo_matches)) 0
        (match_value (the_data demo_queues) ! 0) (match_value (the_data p') ! 0)
        (thresholds demo_queues ! 0) (thresholds p' ! 0)"
proof -
  have s: "typed_data PROFILE_TYPE_APPROX_ALL_NEIGHBORS demo_queues" "typed_data PROFILE_TYPE_APPROX_ALL_NEIGHBORS demo_matches"
      "op_max_matches_per_column demo_match_info = int 2" "0 < (2::nat)"
    by (simp_all add: demo_queues_def demo_matches_def typed_data_def demo_match_info_def)
  have ok: "tile_matches_ok 2 0 demo_matches demo_queues"
    by (auto simp: tile_matches_ok_def demo_matches_def demo_queues_def the_data_def ProfileData_empty_def demo_match_def
        matches_sorted_def match_ok_def queue_ok_def)
  have "0 < length (match_value (the_data demo_queues))"
    by (simp add: demo_queues_def the_data_def ProfileData_empty_def)
  then show ?thesis using merge_matches_keeps_best [OF s ok, of exact 2 100] by blast
qed

end
