(* ===== verification/Tile.thy ===== *)
theory Tile
  imports Profile Stats Exclusion
begin

text \<open>
  src/core/tile.h and tile.cpp, kernel_common.cpp and cpu_kernel/kernel_dispatcher.cpp: the working
  memory of a worker, how it is filled from the global time series, statistics and profiles, the
  execution of a tile and the merge of its result.

  \<^item> The build without CUDA: an operation on the architecture \<open>CUDA_GPU_WORKER\<close> throws.
  \<^item> \<open>new double[n]\<close> leaves its elements indeterminate: \<open>fresh\<close> gives the value found at each index.
  \<^item> \<open>Memcopy\<close> and \<open>Memset\<close> outside an array, or of a negative length, are undefined (\<open>None\<close>, or the
    failure \<open>Undefined\<close> in a definition that can also throw).
  \<^item> Lengths are below \<open>2 ^ 31\<close>, so the conversions between \<open>size_t\<close>, \<open>int64_t\<close> and \<open>int\<close> keep them.
\<close>

subsection \<open>State\<close>

record Tile = TilePos +
  T_A_dev :: "fp list"
  T_B_dev :: "fp list"
  QT_dev :: "fp list"
  means_A :: "fp list"
  means_B :: "fp list"
  norms_A :: "fp list"
  norms_B :: "fp list"
  df_A :: "fp list"
  df_B :: "fp list"
  dg_A :: "fp list"
  dg_B :: "fp list"
  scratchpad :: "fp list"
  thresholds_A :: "fp list"
  thresholds_B :: "fp list"
  profile_a_tile_dev :: dev_mem
  profile_b_tile_dev :: dev_mem
  profile_a_dev_length :: int
  profile_b_dev_length :: int
  profile_a_tile :: Profile
  profile_b_tile :: Profile
  has_nan_input :: bool
  tile_arch :: SCAMPArchitecture

definition no_cuda :: "'a result" where
  "no_cuda = Inl (SCAMPException ''Using CUDA in binary not built with it'')"

definition alloc_mem :: "(nat \<Rightarrow> 'a) \<Rightarrow> int \<Rightarrow> SCAMPArchitecture \<Rightarrow> 'a list result" where
  "alloc_mem fresh count arch = (case arch of
     CUDA_GPU_WORKER \<Rightarrow> no_cuda
   | CPU_WORKER \<Rightarrow> of_option (if 0 \<le> count then Some (map fresh [0..<nat count]) else None))"

text \<open>
  The memory for a profile: \<open>profile_size * count\<close> bytes, used as elements of the type of the profile.
  \<open>GetProfileTypeSize\<close> throws for a type without a size.
\<close>

definition alloc_profile_mem ::
  "(nat \<Rightarrow> fp) \<Rightarrow> SCAMPProfileType \<Rightarrow> int \<Rightarrow> SCAMPArchitecture \<Rightarrow> dev_mem result" where
  "alloc_profile_mem fresh t count arch = rbind (GetProfileTypeSize t) (\<lambda>_.
     case t of
       PROFILE_TYPE_SUM_THRESH \<Rightarrow> rbind (alloc_mem fresh count arch) (\<lambda>xs. Inr (Dev_double xs))
     | PROFILE_TYPE_1NN_INDEX \<Rightarrow> rbind (alloc_mem (\<lambda>i. \<lparr>floats0 = fresh i, ints1 = 0\<rparr>) count arch) (\<lambda>xs. Inr (Dev_entry xs))
     | PROFILE_TYPE_1NN \<Rightarrow> rbind (alloc_mem fresh count arch) (\<lambda>xs. Inr (Dev_float xs))
     | PROFILE_TYPE_MATRIX_SUMMARY \<Rightarrow> rbind (alloc_mem fresh count arch) (\<lambda>xs. Inr (Dev_float xs))
     | _ \<Rightarrow> rbind (alloc_mem (\<lambda>i. \<lparr>corr = fresh i, match_row = 0, match_col = 0\<rparr>) count arch) (\<lambda>xs. Inr (Dev_match xs)))"

definition cols_to_alloc :: "OpInfo \<Rightarrow> int" where
  "cols_to_alloc info =
     (if op_profile_type info = PROFILE_TYPE_APPROX_ALL_NEIGHBORS then op_max_matches_per_tile info
      else if op_profile_type info = PROFILE_TYPE_MATRIX_SUMMARY then op_matrix_height info * op_matrix_width info
      else op_max_tile_width info)"

definition rows_to_alloc :: "OpInfo \<Rightarrow> int" where
  "rows_to_alloc info =
     (if op_profile_type info = PROFILE_TYPE_APPROX_ALL_NEIGHBORS then op_max_matches_per_tile info
      else if op_profile_type info = PROFILE_TYPE_MATRIX_SUMMARY then 0
      else op_max_tile_height info)"

definition Tile_init :: "rounding \<Rightarrow> (nat \<Rightarrow> fp) \<Rightarrow> OpInfo \<Rightarrow> SCAMPArchitecture \<Rightarrow> Tile result" where
  "Tile_init rd fresh info arch =
     rbind (alloc_mem fresh (op_max_tile_ts_size info) arch) (\<lambda>ts.
     rbind (alloc_mem fresh (op_max_tile_width info) arch) (\<lambda>w.
     rbind (alloc_mem fresh (op_max_tile_height info) arch) (\<lambda>h.
     rbind (of_option (Profile_init (op_profile_type info) (op_max_tile_width info) (fcast rd (threshold (op_opt_args info)))
              (op_matrix_width info) (op_matrix_height info))) (\<lambda>p.
     rbind (alloc_profile_mem fresh (op_profile_type info) (cols_to_alloc info) arch) (\<lambda>a.
     rbind (alloc_profile_mem fresh (op_profile_type info) (rows_to_alloc info) arch) (\<lambda>b.
     Inr \<lparr>current_tile_width = 0, current_tile_height = 0, current_tile_col = 0, current_tile_row = 0,
       T_A_dev = ts, T_B_dev = ts, QT_dev = w, means_A = w, means_B = h, norms_A = w, norms_B = h,
       df_A = w, df_B = h, dg_A = w, dg_B = h, scratchpad = ts, thresholds_A = w, thresholds_B = h,
       profile_a_tile_dev = a, profile_b_tile_dev = b, profile_a_dev_length = 0, profile_b_dev_length = 0,
       profile_a_tile = p, profile_b_tile = p, has_nan_input = False, tile_arch = arch\<rparr>))))))"

subsection \<open>Filling the tile\<close>

text \<open>\<open>Memcopy(dst, src + off, n)\<close> from the host to the front of an array of the tile.\<close>

definition Memcopy :: "'a list \<Rightarrow> 'a list \<Rightarrow> int \<Rightarrow> int \<Rightarrow> 'a list option" where
  "Memcopy dst src off n = do { xs \<leftarrow> aslice src off n; ablit dst 0 xs }"

definition Memset0 :: "'a \<Rightarrow> 'a list \<Rightarrow> int \<Rightarrow> 'a list option" where
  "Memset0 zero dst n = (if 0 \<le> n then ablit dst 0 (replicate (nat n) zero) else None)"

definition InitTimeseries :: "fp list \<Rightarrow> fp list \<Rightarrow> Tile \<Rightarrow> Tile option" where
  "InitTimeseries Ta Tb t = do {
     a \<leftarrow> Memcopy (T_A_dev t) Ta (current_tile_col t) (current_tile_width t);
     b \<leftarrow> Memcopy (T_B_dev t) Tb (current_tile_row t) (current_tile_height t);
     Some (t\<lparr>T_A_dev := a, T_B_dev := b\<rparr>) }"

definition tile_n_x :: "OpInfo \<Rightarrow> 'a TilePos_scheme \<Rightarrow> int" where
  "tile_n_x info t = current_tile_width t - op_mp_window info + 1"

definition tile_n_y :: "OpInfo \<Rightarrow> 'a TilePos_scheme \<Rightarrow> int" where
  "tile_n_y info t = current_tile_height t - op_mp_window info + 1"

definition Init_SUM_THRESH :: "OpInfo \<Rightarrow> Tile \<Rightarrow> Tile option" where
  "Init_SUM_THRESH info t = do {
     a \<leftarrow> as_double (profile_a_tile_dev t); a' \<leftarrow> Memset0 (Fin 0) a (tile_n_x info t);
     b \<leftarrow> as_double (profile_b_tile_dev t); b' \<leftarrow> Memset0 (Fin 0) b (tile_n_y info t);
     Some (t\<lparr>profile_a_tile_dev := Dev_double a', profile_b_tile_dev := Dev_double b'\<rparr>) }"

definition Init_1NN_INDEX :: "OpInfo \<Rightarrow> Profile \<Rightarrow> Profile \<Rightarrow> Tile \<Rightarrow> Tile option" where
  "Init_1NN_INDEX info pa pb t = do {
     da \<leftarrow> data0 pa; a \<leftarrow> as_entry (profile_a_tile_dev t); b \<leftarrow> as_entry (profile_b_tile_dev t);
     a' \<leftarrow> Memcopy a (uint64_value da) (current_tile_col t) (tile_n_x info t);
     b' \<leftarrow> (if op_computing_rows info \<and> op_keep_rows_separate info
            then do { db \<leftarrow> data0 pb; Memcopy b (uint64_value db) (current_tile_row t) (tile_n_y info t) }
            else if op_self_join info
            then Memcopy b (uint64_value da) (current_tile_row t) (tile_n_y info t)
            else Some b);
     Some (t\<lparr>profile_a_tile_dev := Dev_entry a', profile_b_tile_dev := Dev_entry b'\<rparr>) }"

definition Init_1NN :: "OpInfo \<Rightarrow> Profile \<Rightarrow> Profile \<Rightarrow> Tile \<Rightarrow> Tile option" where
  "Init_1NN info pa pb t = do {
     da \<leftarrow> data0 pa; a \<leftarrow> as_float (profile_a_tile_dev t); b \<leftarrow> as_float (profile_b_tile_dev t);
     a' \<leftarrow> Memcopy a (float_value da) (current_tile_col t) (tile_n_x info t);
     b' \<leftarrow> (if op_self_join info
            then Memcopy b (float_value da) (current_tile_row t) (tile_n_y info t)
            else if op_computing_rows info \<and> op_keep_rows_separate info
            then do { db \<leftarrow> data0 pb; Memcopy b (float_value db) (current_tile_row t) (tile_n_y info t) }
            else Some b);
     Some (t\<lparr>profile_a_tile_dev := Dev_float a', profile_b_tile_dev := Dev_float b'\<rparr>) }"

definition Init_APPROX_ALL_NEIGHBORS :: "OpInfo \<Rightarrow> Profile \<Rightarrow> Profile \<Rightarrow> Tile \<Rightarrow> Tile option" where
  "Init_APPROX_ALL_NEIGHBORS info pa pb t = do {
     a \<leftarrow> Memcopy (thresholds_A t) (thresholds pa) (current_tile_col t) (tile_n_x info t);
     b \<leftarrow> (if op_self_join info
           then Memcopy (thresholds_B t) (thresholds pa) (current_tile_row t) (tile_n_y info t)
           else if op_computing_rows info \<and> op_keep_rows_separate info
           then Memcopy (thresholds_B t) (thresholds pb) (current_tile_row t) (tile_n_y info t)
           else Some (thresholds_B t));
     Some (t\<lparr>profile_a_dev_length := 0, profile_b_dev_length := 0, thresholds_A := a, thresholds_B := b\<rparr>) }"

definition Init_MATRIX_SUMMARY :: "Profile \<Rightarrow> Tile \<Rightarrow> Tile option" where
  "Init_MATRIX_SUMMARY pa t = do {
     da \<leftarrow> data0 pa; a \<leftarrow> as_float (profile_a_tile_dev t);
     a' \<leftarrow> Memcopy a (float_value da) 0 (int (length (float_value da)));
     Some (t\<lparr>profile_a_tile_dev := Dev_float a'\<rparr>) }"

definition InitProfile :: "OpInfo \<Rightarrow> Profile \<Rightarrow> Profile \<Rightarrow> Tile \<Rightarrow> (SCAMPError_t \<times> Tile) result" where
  "InitProfile info pa pb t = rbind (GetProfileTypeSize (op_profile_type info)) (\<lambda>_.
     let ok = (\<lambda>m. of_option (map_option (Pair SCAMP_NO_ERROR) m)) in
     case op_profile_type info of
       PROFILE_TYPE_SUM_THRESH \<Rightarrow> ok (Init_SUM_THRESH info t)
     | PROFILE_TYPE_1NN_INDEX \<Rightarrow> ok (Init_1NN_INDEX info pa pb t)
     | PROFILE_TYPE_1NN \<Rightarrow> ok (Init_1NN info pa pb t)
     | PROFILE_TYPE_APPROX_ALL_NEIGHBORS \<Rightarrow> ok (Init_APPROX_ALL_NEIGHBORS info pa pb t)
     | PROFILE_TYPE_MATRIX_SUMMARY \<Rightarrow> ok (Init_MATRIX_SUMMARY pa t)
     | _ \<Rightarrow> Inr (SCAMP_FUNCTIONALITY_UNIMPLEMENTED, t))"

text \<open>A NaN window of the tile: one of the indices lies between \<open>start\<close> and \<open>start + len\<close>.\<close>

definition nan_in :: "int list \<Rightarrow> int \<Rightarrow> int \<Rightarrow> bool" where
  "nan_in idxs start len = (\<exists>idx \<in> set idxs. start \<le> idx \<and> idx < start + len)"

definition InitStats :: "OpInfo \<Rightarrow> PrecomputedInfo \<Rightarrow> PrecomputedInfo \<Rightarrow> CombinedStats \<Rightarrow> Tile \<Rightarrow> Tile option" where
  "InitStats info a b ab t =
     (let c = current_tile_col t; r = current_tile_row t; nx = tile_n_x info t; ny = tile_n_y info t;
          ultra = (op_fp_type info = PRECISION_ULTRA)
      in do {
       na \<leftarrow> Memcopy (norms_A t) (norms a) c nx;
       nb \<leftarrow> Memcopy (norms_B t) (norms b) r ny;
       ma \<leftarrow> Memcopy (means_A t) (means a) c nx;
       mb \<leftarrow> Memcopy (means_B t) (means b) r ny;
       fa \<leftarrow> Memcopy (df_A t) (if ultra then dc_bkwd ab else df a) c nx;
       ga \<leftarrow> Memcopy (dg_A t) (if ultra then dc_fwd ab else dg a) c nx;
       fb \<leftarrow> Memcopy (df_B t) (if ultra then dr_fwd ab else df b) r ny;
       gb \<leftarrow> Memcopy (dg_B t) (if ultra then dr_bkwd ab else dg b) r ny;
       Some (t\<lparr>norms_A := na, norms_B := nb, means_A := ma, means_B := mb, df_A := fa, dg_A := ga,
               df_B := fb, dg_B := gb,
               has_nan_input := nan_in (nan_idxs a) c (current_tile_width t)
                 \<or> nan_in (nan_idxs b) r (current_tile_height t)\<rparr>) })"

subsection \<open>Kernel arguments and dispatch\<close>

text \<open>
  The constructor of \<open>SCAMPKernelInputArgs\<close>. The thresholds, match counters and extra operands are
  read by GPU kernels only and are not part of the record.
\<close>

definition SCAMPKernelInputArgs :: "OpInfo \<Rightarrow> Tile \<Rightarrow> bool \<Rightarrow> bool \<Rightarrow> KernelArgs" where
  "SCAMPKernelInputArgs info t transposed ab_join =
     (let exclusion = (if ab_join then get_exclusion_for_ab_join info t (\<not> transposed)
                       else get_exclusion_for_self_join info t (\<not> transposed))
      in \<lparr>k_dfa = (if transposed then df_B t else df_A t), k_dfb = (if transposed then df_A t else df_B t),
          k_dga = (if transposed then dg_B t else dg_A t), k_dgb = (if transposed then dg_A t else dg_B t),
          k_normsa = (if transposed then norms_B t else norms_A t),
          k_normsb = (if transposed then norms_A t else norms_B t),
          k_n_x = (if transposed then current_tile_height t else current_tile_width t) - op_mp_window info + 1,
          k_n_y = (if transposed then current_tile_width t else current_tile_height t) - op_mp_window info + 1,
          k_exclusion_lower = fst exclusion, k_exclusion_upper = snd exclusion,
          k_matrix_width = op_matrix_width info, k_matrix_height = op_matrix_height info,
          k_rows_per_cell = op_rows_per_cell info, k_cols_per_cell = op_cols_per_cell info,
          k_global_start_col = current_tile_col t, k_global_start_row = current_tile_row t,
          k_has_nan_input = has_nan_input t, k_opt = op_opt_args info\<rparr>)"

definition dispatch_kernel_baseline ::
  "fpu \<Rightarrow> eigen \<Rightarrow> KernelArgs \<Rightarrow> OpInfo \<Rightarrow> bool \<Rightarrow> bool \<Rightarrow> dev_state \<Rightarrow> (SCAMPError_t \<times> dev_state) option" where
  "dispatch_kernel_baseline = compute_cpu_resources_and_launch"

definition dispatch ::
  "fpu \<Rightarrow> eigen \<Rightarrow> KernelArgs \<Rightarrow> OpInfo \<Rightarrow> bool \<Rightarrow> bool \<Rightarrow> dev_state \<Rightarrow> (SCAMPError_t \<times> dev_state) option" where
  "dispatch = dispatch_kernel_baseline"

definition run_upper :: "fpu \<Rightarrow> eigen \<Rightarrow> OpInfo \<Rightarrow> bool \<Rightarrow> Tile \<Rightarrow> (SCAMPError_t \<times> Tile) option" where
  "run_upper fpu eig info ab_join t = do {
     (err, cov, a, b) \<leftarrow> dispatch fpu eig (SCAMPKernelInputArgs info t False ab_join) info
        (op_computing_rows info) (op_computing_cols info) (QT_dev t, profile_a_tile_dev t, profile_b_tile_dev t);
     Some (err, t\<lparr>QT_dev := cov, profile_a_tile_dev := a, profile_b_tile_dev := b\<rparr>) }"

definition run_lower :: "fpu \<Rightarrow> eigen \<Rightarrow> OpInfo \<Rightarrow> bool \<Rightarrow> Tile \<Rightarrow> (SCAMPError_t \<times> Tile) option" where
  "run_lower fpu eig info ab_join t = do {
     (err, cov, b, a) \<leftarrow> dispatch fpu eig (SCAMPKernelInputArgs info t True ab_join) info
        (op_computing_cols info) (op_computing_rows info) (QT_dev t, profile_b_tile_dev t, profile_a_tile_dev t);
     Some (err, t\<lparr>QT_dev := cov, profile_a_tile_dev := a, profile_b_tile_dev := b\<rparr>) }"

definition cpu_kernel_self_join_upper :: "fpu \<Rightarrow> eigen \<Rightarrow> OpInfo \<Rightarrow> Tile \<Rightarrow> (SCAMPError_t \<times> Tile) option" where
  "cpu_kernel_self_join_upper fpu eig info t = run_upper fpu eig info False t"

definition cpu_kernel_self_join_lower :: "fpu \<Rightarrow> eigen \<Rightarrow> OpInfo \<Rightarrow> Tile \<Rightarrow> (SCAMPError_t \<times> Tile) option" where
  "cpu_kernel_self_join_lower fpu eig info t = run_lower fpu eig info False t"

definition cpu_kernel_ab_join_upper :: "fpu \<Rightarrow> eigen \<Rightarrow> OpInfo \<Rightarrow> Tile \<Rightarrow> (SCAMPError_t \<times> Tile) option" where
  "cpu_kernel_ab_join_upper fpu eig info t = run_upper fpu eig info True t"

definition cpu_kernel_ab_join_lower :: "fpu \<Rightarrow> eigen \<Rightarrow> OpInfo \<Rightarrow> Tile \<Rightarrow> (SCAMPError_t \<times> Tile) option" where
  "cpu_kernel_ab_join_lower fpu eig info t = run_lower fpu eig info True t"

subsection \<open>Execution\<close>

text \<open>The first covariances for the upper (\<open>T_A\<close> against \<open>T_B\<close>) and the lower kernel.\<close>

definition QT_upper :: "fpu \<Rightarrow> OpInfo \<Rightarrow> Tile \<Rightarrow> Tile option" where
  "QT_upper fpu info t = do {
     q \<leftarrow> compute_QT_CPU (rd64 fpu) (op_max_tile_ts_size info) (op_mp_window info) (QT_dev t) (T_A_dev t) (T_B_dev t);
     Some (t\<lparr>QT_dev := q\<rparr>) }"

definition QT_lower :: "fpu \<Rightarrow> OpInfo \<Rightarrow> Tile \<Rightarrow> Tile option" where
  "QT_lower fpu info t = do {
     q \<leftarrow> compute_QT_CPU (rd64 fpu) (op_max_tile_ts_size info) (op_mp_window info) (QT_dev t) (T_B_dev t) (T_A_dev t);
     Some (t\<lparr>QT_dev := q\<rparr>) }"

definition do_self_join_half :: "fpu \<Rightarrow> eigen \<Rightarrow> OpInfo \<Rightarrow> Tile \<Rightarrow> (SCAMPError_t \<times> Tile) result" where
  "do_self_join_half fpu eig info t =
     (if op_mp_window info > current_tile_width t then Inr (SCAMP_DIM_INCOMPATIBLE, t)
      else if op_mp_window info > current_tile_height t then Inr (SCAMP_DIM_INCOMPATIBLE, t)
      else case tile_arch t of
        CUDA_GPU_WORKER \<Rightarrow> no_cuda
      | CPU_WORKER \<Rightarrow> of_option (do { t1 \<leftarrow> QT_upper fpu info t; cpu_kernel_self_join_upper fpu eig info t1 }))"

definition do_self_join_full :: "fpu \<Rightarrow> eigen \<Rightarrow> OpInfo \<Rightarrow> Tile \<Rightarrow> (SCAMPError_t \<times> Tile) result" where
  "do_self_join_full fpu eig info t = rbind (do_self_join_half fpu eig info t) (\<lambda>(err, t1).
     if err \<noteq> SCAMP_NO_ERROR then Inr (err, t1)
     else case tile_arch t1 of
        CUDA_GPU_WORKER \<Rightarrow> no_cuda
      | CPU_WORKER \<Rightarrow> of_option (do { t2 \<leftarrow> QT_lower fpu info t1; cpu_kernel_self_join_lower fpu eig info t2 }))"

definition do_ab_join_full :: "fpu \<Rightarrow> eigen \<Rightarrow> OpInfo \<Rightarrow> Tile \<Rightarrow> (SCAMPError_t \<times> Tile) result" where
  "do_ab_join_full fpu eig info t =
     (if op_mp_window info > current_tile_width t then Inr (SCAMP_DIM_INCOMPATIBLE, t)
      else if op_mp_window info > current_tile_height t then Inr (SCAMP_DIM_INCOMPATIBLE, t)
      else case tile_arch t of
        CUDA_GPU_WORKER \<Rightarrow> no_cuda
      | CPU_WORKER \<Rightarrow> rbind (of_option (do { t1 \<leftarrow> QT_upper fpu info t; cpu_kernel_ab_join_upper fpu eig info t1 }))
          (\<lambda>(err, t1). if err \<noteq> SCAMP_NO_ERROR then Inr (err, t1)
            else of_option (do { t2 \<leftarrow> QT_lower fpu info t1; cpu_kernel_ab_join_lower fpu eig info t2 })))"

fun execute :: "fpu \<Rightarrow> eigen \<Rightarrow> OpInfo \<Rightarrow> SCAMPTileType \<Rightarrow> Tile \<Rightarrow> (SCAMPError_t \<times> Tile) result" where
  "execute fpu eig info SELF_JOIN_FULL_TILE t = do_self_join_full fpu eig info t"
| "execute fpu eig info SELF_JOIN_UPPER_TRIANGULAR t = do_self_join_half fpu eig info t"
| "execute fpu eig info AB_JOIN_FULL_TILE t = do_ab_join_full fpu eig info t"
| "execute fpu eig info AB_FULL_JOIN_FULL_TILE t = do_ab_join_full fpu eig info t"

subsection \<open>Merging the result\<close>

definition get_profile_dims_from_device :: "OpInfo \<Rightarrow> Tile \<Rightarrow> int \<times> int" where
  "get_profile_dims_from_device info t =
     (if profile_a_dev_length t > op_max_matches_per_tile info then -1 else profile_a_dev_length t,
      if profile_b_dev_length t > op_max_matches_per_tile info then -1 else profile_b_dev_length t)"

text \<open>Sorting needs a GPU; the build without CUDA throws.\<close>

definition SortMatches :: "'a result" where
  "SortMatches = Inl (SCAMPException ''Sorting ALL_NEIGHBORS profiles is supported only on GPUs'')"

definition merge_dims :: "OpInfo \<Rightarrow> Tile \<Rightarrow> (int \<times> int) result" where
  "merge_dims info t = (case op_profile_type info of
       PROFILE_TYPE_1NN \<Rightarrow> Inr (tile_n_x info t, tile_n_y info t)
     | PROFILE_TYPE_1NN_INDEX \<Rightarrow> Inr (tile_n_x info t, tile_n_y info t)
     | PROFILE_TYPE_SUM_THRESH \<Rightarrow> Inr (tile_n_x info t, tile_n_y info t)
     | PROFILE_TYPE_MATRIX_SUMMARY \<Rightarrow> Inr (op_matrix_width info * op_matrix_height info, 0)
     | PROFILE_TYPE_APPROX_ALL_NEIGHBORS \<Rightarrow> Inr (get_profile_dims_from_device info t)
     | _ \<Rightarrow> Inl (SCAMPException ''Functionality Unimplemented.''))"

definition MergeProfile ::
  "fpu \<Rightarrow> OpInfo \<Rightarrow> Tile \<Rightarrow> Profile \<Rightarrow> Profile \<Rightarrow> (bool \<times> Tile \<times> Profile \<times> Profile) result" where
  "MergeProfile fpu info t pa pb = rbind (merge_dims info t) (\<lambda>(w0, h0).
     let overflowed = (w0 < 0 \<or> h0 < 0);
         width = (if w0 < 0 then op_max_matches_per_tile info else w0);
         height = (if h0 < 0 then op_max_matches_per_tile info else h0)
     in rbind (if NeedsSort (op_profile_type info) then SortMatches else Inr ()) (\<lambda>_.
        rbind (CopyFromDevice info (profile_a_tile_dev t) width (profile_a_tile t)) (\<lambda>ta.
        rbind (if op_computing_rows info then CopyFromDevice info (profile_b_tile_dev t) height (profile_b_tile t)
               else Inr (profile_b_tile t)) (\<lambda>tb.
        rbind (MergeTileToProfile (rd64 fpu) ta info (current_tile_col t) width (current_tile_row t) overflowed pa) (\<lambda>pa1.
        rbind (if op_computing_rows info \<and> op_keep_rows_separate info
               then rbind (MergeTileToProfile (rd64 fpu) tb info (current_tile_row t) height (current_tile_col t) overflowed pb)
                      (\<lambda>pb1. Inr (pa1, pb1))
               else if op_self_join info \<and> op_computing_rows info
               then rbind (MergeTileToProfile (rd64 fpu) tb info (current_tile_row t) height (current_tile_col t) overflowed pa1)
                      (\<lambda>pa2. Inr (pa2, pb))
               else Inr (pa1, pb)) (\<lambda>(pa', pb').
        Inr (\<not> overflowed, t\<lparr>profile_a_tile := ta, profile_b_tile := tb\<rparr>, pa', pb')))))))"

end
