(* ===== verification/WorkerPool.thy ===== *)
theory WorkerPool
  imports Complex_Main
begin

text \<open>
  Workers that share a state: a schedule is the sequence of the workers that take a step. The locale
  \<open>worker_pool\<close> is the contract of a worker, in the style of rely and guarantee: what a step keeps, what
  it may do to the assertions of the other workers, and the cost it uses up. Its lemmas hold for every
  schedule, and every schedule that lets each worker step often enough finishes.
\<close>

definition pool_step :: "('w \<Rightarrow> 's \<Rightarrow> 'w \<times> 's) \<Rightarrow> nat \<Rightarrow> 'w list \<times> 's \<Rightarrow> 'w list \<times> 's" where
  "pool_step step i c = (case c of (ws, s) \<Rightarrow>
     if i < length ws then (case step (ws ! i) s of (w, s') \<Rightarrow> (ws[i := w], s')) else (ws, s))"

definition run_pool :: "('w \<Rightarrow> 's \<Rightarrow> 'w \<times> 's) \<Rightarrow> nat list \<Rightarrow> 'w list \<times> 's \<Rightarrow> 'w list \<times> 's" where
  "run_pool step sched c = fold (pool_step step) sched c"

text \<open>A schedule that lets each of \<open>n\<close> workers take at least \<open>k\<close> steps.\<close>

definition fair :: "nat \<Rightarrow> nat \<Rightarrow> nat list \<Rightarrow> bool" where
  "fair n k sched \<longleftrightarrow> (\<forall>i < n. k \<le> length (filter (\<lambda>j. j = i) sched))"

lemma run_pool_simps [simp]:
  "run_pool step [] c = c" "run_pool step (i # is) c = run_pool step is (pool_step step i c)"
  by (simp_all add: run_pool_def)

lemma length_pool_step [simp]: "length (fst (pool_step step i c)) = length (fst c)"
  by (simp add: pool_step_def split: prod.split)

lemma sum_list_update_nat:
  "i < length xs \<Longrightarrow> sum_list (map f (xs[i := y])) + f (xs ! i) = sum_list (map f xs) + (f y :: nat)"
  by (induction xs arbitrary: i) (auto split: nat.split)

locale worker_pool =
  fixes step :: "'w \<Rightarrow> 's \<Rightarrow> 'w \<times> 's" and finished :: "'w \<Rightarrow> bool"
    and inv :: "'s \<Rightarrow> bool" and assertion :: "'s \<Rightarrow> 'w \<Rightarrow> bool" and guarantee :: "'s \<Rightarrow> 's \<Rightarrow> bool"
    and waiting :: "'s \<Rightarrow> 't set" and complete :: "'s \<Rightarrow> 't set" and task :: "'w \<Rightarrow> 't set"
    and cost :: "'w \<Rightarrow> nat" and shared_cost :: "'s \<Rightarrow> nat"
    and tally :: "'w \<Rightarrow> nat" and shared_tally :: "'s \<Rightarrow> nat"
  assumes step_inv: "inv s \<Longrightarrow> assertion s w \<Longrightarrow> step w s = (w', s') \<Longrightarrow> inv s' \<and> assertion s' w' \<and> guarantee s s'"
    and stable: "guarantee s s' \<Longrightarrow> inv s \<Longrightarrow> inv s' \<Longrightarrow> assertion s v \<Longrightarrow> assertion s' v"
    and complete_mono: "guarantee s s' \<Longrightarrow> inv s \<Longrightarrow> inv s' \<Longrightarrow> complete s \<subseteq> complete s'"
    and step_tasks: "inv s \<Longrightarrow> assertion s w \<Longrightarrow> step w s = (w', s') \<Longrightarrow>
      waiting s \<union> task w \<subseteq> waiting s' \<union> task w' \<union> complete s'"
    and step_cost: "inv s \<Longrightarrow> assertion s w \<Longrightarrow> step w s = (w', s') \<Longrightarrow>
      if finished w then w' = w \<and> s' = s else cost w' + shared_cost s' < cost w + shared_cost s"
    and step_tally: "inv s \<Longrightarrow> assertion s w \<Longrightarrow> step w s = (w', s') \<Longrightarrow>
      tally w' + shared_tally s' = tally w + shared_tally s"
    and finished_task: "finished w \<Longrightarrow> task w = {} \<and> tally w = 0"
    and finished_waiting: "assertion s w \<Longrightarrow> finished w \<Longrightarrow> waiting s = {}"
begin

definition pool_inv :: "'t set \<Rightarrow> nat \<Rightarrow> 'w list \<times> 's \<Rightarrow> bool" where
  "pool_inv tasks N c \<longleftrightarrow> inv (snd c) \<and> (\<forall>w \<in> set (fst c). assertion (snd c) w)
     \<and> tasks \<subseteq> waiting (snd c) \<union> (\<Union>w \<in> set (fst c). task w) \<union> complete (snd c)
     \<and> sum_list (map tally (fst c)) + shared_tally (snd c) = N"

definition pool_cost :: "'w list \<times> 's \<Rightarrow> nat" where
  "pool_cost c = sum_list (map cost (fst c)) + shared_cost (snd c)"

lemma pool_step_inv:
  assumes "pool_inv tasks N c"
  shows "pool_inv tasks N (pool_step step i c)"
proof -
  obtain ws s where c: "c = (ws, s)" by (cases c)
  show ?thesis
  proof (cases "i < length ws")
    case False
    then show ?thesis using assms by (simp add: pool_step_def c)
  next
    case True
    obtain w' s' where st: "step (ws ! i) s = (w', s')" by (cases "step (ws ! i) s")
    have I: "inv s" "\<And>w. w \<in> set ws \<Longrightarrow> assertion s w" "tasks \<subseteq> waiting s \<union> (\<Union>w \<in> set ws. task w) \<union> complete s"
      "sum_list (map tally ws) + shared_tally s = N"
      using assms by (auto simp: pool_inv_def c)
    have w: "assertion s (ws ! i)" using True I(2) by simp
    note a = step_inv [OF I(1) w st] and k = step_tasks [OF I(1) w st] and t = step_tally [OF I(1) w st]
    have stab: "assertion s' v" if "v \<in> set ws" for v using stable a I that by blast
    have "\<forall>v \<in> set (ws[i := w']). assertion s' v"
      using a stab set_update_subset_insert [of ws i w'] by blast
    moreover have "tasks \<subseteq> waiting s' \<union> (\<Union>w \<in> set (ws[i := w']). task w) \<union> complete s'"
    proof
      fix x assume "x \<in> tasks"
      then consider "x \<in> waiting s \<union> task (ws ! i)" | v where "v \<in> set ws" "x \<in> task v" "v \<noteq> ws ! i" | "x \<in> complete s"
        using I(3) by blast
      then show "x \<in> waiting s' \<union> (\<Union>w \<in> set (ws[i := w']). task w) \<union> complete s'"
      proof cases
        case 1
        then have "x \<in> waiting s' \<union> task w' \<union> complete s'" using k by blast
        then show ?thesis using True set_update_memI [of i ws w'] by blast
      next
        case 2
        then obtain j where j: "j < length ws" "ws ! j = v" by (auto simp: in_set_conv_nth)
        then have "ws[i := w'] ! j = v" using 2(3) by (metis nth_list_update_neq)
        then have "v \<in> set (ws[i := w'])" using j(1) by (metis length_list_update nth_mem)
        then show ?thesis using 2(2) by blast
      next
        case 3
        then show ?thesis using complete_mono a I(1) by blast
      qed
    qed
    moreover have "sum_list (map tally (ws[i := w'])) + shared_tally s' = N"
      using sum_list_update_nat [OF True, of tally w'] t I(4) by linarith
    ultimately show ?thesis using True a st by (simp add: pool_step_def pool_inv_def c)
  qed
qed

lemma run_inv: "pool_inv tasks N c \<Longrightarrow> pool_inv tasks N (run_pool step sched c)"
proof (induction sched arbitrary: c)
  case (Cons i sched)
  then show ?case using pool_step_inv [OF Cons.prems, of i] by (simp only: run_pool_simps)
qed simp

text \<open>When every worker has finished, every task is complete.\<close>

lemma finished_complete:
  assumes "pool_inv tasks N (ws, s)" "\<forall>w \<in> set ws. finished w" "ws \<noteq> []"
  shows "tasks \<subseteq> complete s" "shared_tally s = N"
proof -
  have t: "task w = {}" "tally w = 0" if "w \<in> set ws" for w using finished_task assms(2) that by auto
  have "hd ws \<in> set ws" using assms(3) by simp
  then have "waiting s = {}" using finished_waiting assms(1,2) by (fastforce simp: pool_inv_def)
  then show "tasks \<subseteq> complete s" using t assms(1) by (auto simp: pool_inv_def)
  have "sum_list (map tally ws) = 0" using t(2) by simp
  moreover have "sum_list (map tally ws) + shared_tally s = N" using assms(1) by (simp add: pool_inv_def)
  ultimately show "shared_tally s = N" by linarith
qed

text \<open>A step of a worker that has not finished uses up cost; a finished one changes nothing.\<close>

lemma pool_step_cost:
  assumes "pool_inv tasks N (ws, s)" "i < length ws"
  shows "if finished (ws ! i) then pool_step step i (ws, s) = (ws, s)
    else pool_cost (pool_step step i (ws, s)) < pool_cost (ws, s)"
proof -
  obtain w' s' where st: "step (ws ! i) s = (w', s')" by (cases "step (ws ! i) s")
  have "inv s" "assertion s (ws ! i)" using assms by (auto simp: pool_inv_def)
  from step_cost [OF this st] show ?thesis
    using sum_list_update_nat [OF assms(2), of cost w'] assms(2) st
    by (auto simp: pool_step_def pool_cost_def)
qed

lemma finished_stays:
  assumes "pool_inv tasks N c" "i < length (fst c)" "finished (fst c ! i)"
  shows "finished (fst (pool_step step j c) ! i)"
proof -
  obtain ws s where c: "c = (ws, s)" by (cases c)
  show ?thesis
  proof (cases "j = i")
    case True
    then show ?thesis using pool_step_cost [of tasks N ws s i] assms by (simp add: c)
  next
    case False
    then show ?thesis using assms by (auto simp: c pool_step_def split: prod.split)
  qed
qed

text \<open>The steps a worker still has in a schedule are more than the cost left, or it has finished.\<close>

lemma fair_finishes:
  assumes "pool_inv tasks N c"
    and "\<And>i. i < length (fst c) \<Longrightarrow> finished (fst c ! i) \<or> pool_cost c \<le> length (filter (\<lambda>j. j = i) sched)"
    and "pool_cost c = 0 \<Longrightarrow> \<forall>w \<in> set (fst c). finished w"
  shows "\<forall>w \<in> set (fst (run_pool step sched c)). finished w"
  using assms
proof (induction sched arbitrary: c)
  case Nil
  show ?case
  proof (cases "pool_cost c = 0")
    case True
    then show ?thesis using Nil.prems(3) by simp
  next
    case False
    then have "finished (fst c ! i)" if "i < length (fst c)" for i using Nil.prems(2) [OF that] by simp
    then show ?thesis by (auto simp: in_set_conv_nth)
  qed
next
  case (Cons i sched)
  let ?c = "pool_step step i c"
  obtain ws s where c: "c = (ws, s)" by (cases c)
  note I = pool_step_inv [OF Cons.prems(1), of i]
  have fin: "finished (ws ! j) \<Longrightarrow> j < length ws \<Longrightarrow> finished (fst ?c ! j)" for j
    using finished_stays [OF Cons.prems(1)] c by simp
  have same: "?c = c" if "i < length ws \<Longrightarrow> finished (ws ! i)"
    using that pool_step_cost [of tasks N ws s i] Cons.prems(1) by (cases "i < length ws") (auto simp: c pool_step_def)
  show ?case
  proof (cases "i < length ws \<and> \<not> finished (ws ! i)")
    case False
    then have e: "?c = c" using same by blast
    have "finished (ws ! j) \<or> pool_cost c \<le> length (filter (\<lambda>k. k = j) sched)" if "j < length ws" for j
      using Cons.prems(2) [of j] that False by (cases "i = j") (auto simp: c split: if_splits)
    then have "\<forall>w \<in> set (fst (run_pool step sched c)). finished w"
      by (intro Cons.IH) (use Cons.prems c in auto)
    then show ?thesis using e by simp
  next
    case True
    then have less: "pool_cost ?c < pool_cost c"
      using pool_step_cost [of tasks N ws s i] Cons.prems(1) by (simp add: c)
    have len: "length (fst ?c) = length ws" by (simp add: c)
    have "finished (fst ?c ! j) \<or> pool_cost ?c \<le> length (filter (\<lambda>k. k = j) sched)" if "j < length (fst ?c)" for j
      using Cons.prems(2) [of j] that len less fin [of j] by (auto simp: c split: if_splits)
    moreover have "\<forall>w \<in> set (fst ?c). finished w" if "pool_cost ?c = 0"
    proof (rule ccontr)
      assume "\<not> (\<forall>w \<in> set (fst ?c). finished w)"
      then obtain j where j: "j < length (fst ?c)" "\<not> finished (fst ?c ! j)" by (auto simp: in_set_conv_nth)
      obtain ws' s' where c': "?c = (ws', s')" by (cases ?c)
      show False using pool_step_cost [of tasks N ws' s' j] I j that by (simp add: c')
    qed
    ultimately have "\<forall>w \<in> set (fst (run_pool step sched ?c)). finished w"
      by (intro Cons.IH [OF I])
    then show ?thesis by simp
  qed
qed

text \<open>Every schedule that lets each worker take as many steps as the initial cost finishes.\<close>

lemma fair_run_finishes:
  assumes "pool_inv tasks N c" "fair (length (fst c)) (pool_cost c) sched"
  shows "\<forall>w \<in> set (fst (run_pool step sched c)). finished w"
proof (rule fair_finishes [OF assms(1)])
  show "finished (fst c ! i) \<or> pool_cost c \<le> length (filter (\<lambda>j. j = i) sched)" if "i < length (fst c)" for i
    using assms(2) that by (simp add: fair_def)
  assume z: "pool_cost c = 0"
  obtain ws s where c: "c = (ws, s)" by (cases c)
  show "\<forall>w \<in> set (fst c). finished w"
  proof (rule ccontr)
    assume "\<not> (\<forall>w \<in> set (fst c). finished w)"
    then obtain j where j: "j < length ws" "\<not> finished (ws ! j)" by (auto simp: in_set_conv_nth c)
    show False using pool_step_cost [of tasks N ws s j] assms(1) j z by (simp add: c)
  qed
qed

end

end
