(* ===== verification/Operation.thy ===== *)
theory Operation
  imports Tile Tiling WorkerPool
begin

text \<open>
  src/core/SCAMP.h and SCAMP.cpp: a join. \<open>do_join\<close> cleans the time series, computes the statistics,
  fills the work queue and starts one worker per device and per CPU thread; \<open>do_work\<close> is what each
  worker runs.

  The workers share the work queue, the two profiles and the counter of completed tiles. Every access
  to one of them is one step: the operations of the queue, the merge into a profile and the counter
  hold a mutex; the copy from the global profiles in \<open>InitProfile\<close> does not, and is taken to be
  atomic. A worker is its program counter together with its tile; a schedule is the sequence of the
  workers that take a step, so a statement about every schedule is one about every interleaving.
\<close>

subsection \<open>State\<close>

record JoinEnv =
  je_fpu :: fpu
  je_eigen :: eigen
  je_fresh :: "nat \<Rightarrow> fp"
  je_info :: OpInfo
  je_timeseries_a :: "fp list"
  je_timeseries_b :: "fp list"
  je_precompA :: PrecomputedInfo
  je_precompB :: PrecomputedInfo
  je_precomp :: CombinedStats

record shared =
  work_queue :: ThreadSafeQueue
  sh_profile_a :: Profile
  sh_profile_b :: Profile
  completed_tiles :: int

datatype worker =
    W_new SCAMPArchitecture
  | W_idle Tile
  | W_pop Tile
  | W_reset Tile work_item
  | W_exec Tile work_item
  | W_merge Tile work_item
  | W_count Tile
  | W_exit Tile
  | W_done
  | W_failed failure

definition finished :: "worker \<Rightarrow> bool" where
  "finished w = (case w of W_done \<Rightarrow> True | W_failed _ \<Rightarrow> True | _ \<Rightarrow> False)"

subsection \<open>One worker\<close>

text \<open>A result that throws ends the worker.\<close>

definition or_fail :: "'a result \<Rightarrow> ('a \<Rightarrow> worker \<times> shared) \<Rightarrow> shared \<Rightarrow> worker \<times> shared" where
  "or_fail m k sh = (case m of Inl e \<Rightarrow> (W_failed e, sh) | Inr x \<Rightarrow> k x)"

definition worker_start :: "JoinEnv \<Rightarrow> SCAMPArchitecture \<Rightarrow> shared \<Rightarrow> worker \<times> shared" where
  "worker_start env arch sh = (let info = je_info env in
     or_fail (Tile_init (rd32 (je_fpu env)) (je_fresh env) info arch) (\<lambda>tile.
       if \<not> NeedsIntermittentReset (op_profile_type info)
       then or_fail (InitProfile info (sh_profile_a sh) (sh_profile_b sh) tile) (\<lambda>(_, tile'). (W_idle tile', sh)) sh
       else (W_idle tile, sh)) sh)"

text \<open>The position and the size of a tile, and the data it needs.\<close>

definition place_tile :: "OpInfo \<Rightarrow> work_item \<Rightarrow> Tile \<Rightarrow> Tile" where
  "place_tile info t tile =
     tile\<lparr>current_tile_row := tile_row_pos info t, current_tile_col := tile_col_pos info t,
          current_tile_width := tile_ts_width info t, current_tile_height := tile_ts_height info t\<rparr>"

definition load_tile :: "JoinEnv \<Rightarrow> work_item \<Rightarrow> Tile \<Rightarrow> Tile option" where
  "load_tile env t tile = do {
     t1 \<leftarrow> InitTimeseries (je_timeseries_a env) (je_timeseries_b env) (place_tile (je_info env) t tile);
     InitStats (je_info env) (je_precompA env) (je_precompB env) (je_precomp env) t1 }"

definition tile_type :: "OpInfo \<Rightarrow> work_item \<Rightarrow> SCAMPTileType" where
  "tile_type info t =
     (if op_self_join info then (if fst t = snd t then SELF_JOIN_UPPER_TRIANGULAR else SELF_JOIN_FULL_TILE)
      else AB_FULL_JOIN_FULL_TILE)"

definition executing_error :: "SCAMPError_t \<Rightarrow> failure" where
  "executing_error err = SCAMPException (''ERROR '' @ getSCAMPErrorString err @ '' executing tile'')"

fun worker_step :: "JoinEnv \<Rightarrow> worker \<Rightarrow> shared \<Rightarrow> worker \<times> shared" where
  "worker_step env (W_new arch) sh = worker_start env arch sh"
| "worker_step env (W_idle tile) sh = (if tsq_empty (work_queue sh) then W_exit tile else W_pop tile, sh)"
| "worker_step env (W_pop tile) sh = (let (t, q) = tsq_pop (work_queue sh) in
     if t = sentinel then (W_exit tile, sh\<lparr>work_queue := q\<rparr>)
     else or_fail (of_option (load_tile env t tile)) (\<lambda>tile'. (W_reset tile' t, sh\<lparr>work_queue := q\<rparr>)) (sh\<lparr>work_queue := q\<rparr>))"
| "worker_step env (W_reset tile t) sh =
     (if NeedsIntermittentReset (op_profile_type (je_info env))
      then or_fail (InitProfile (je_info env) (sh_profile_a sh) (sh_profile_b sh) tile) (\<lambda>(_, tile'). (W_exec tile' t, sh)) sh
      else (W_exec tile t, sh))"
| "worker_step env (W_exec tile t) sh =
     or_fail (execute (je_fpu env) (je_eigen env) (je_info env) (tile_type (je_info env) t) tile) (\<lambda>(err, tile').
       if err \<noteq> SCAMP_NO_ERROR then (W_failed (executing_error err), sh) else (W_merge tile' t, sh)) sh"
| "worker_step env (W_merge tile t) sh =
     (if NeedsIntermittentMerge (op_profile_type (je_info env))
      then or_fail (MergeProfile (je_fpu env) (je_info env) tile (sh_profile_a sh) (sh_profile_b sh)) (\<lambda>(ok, tile', pa, pb).
             (if ok then W_count tile' else W_reset tile' t, sh\<lparr>sh_profile_a := pa, sh_profile_b := pb\<rparr>)) sh
      else (W_count tile, sh))"
| "worker_step env (W_count tile) sh = (W_idle tile, sh\<lparr>completed_tiles := completed_tiles sh + 1\<rparr>)"
| "worker_step env (W_exit tile) sh =
     (if \<not> NeedsIntermittentMerge (op_profile_type (je_info env))
      then or_fail (MergeProfile (je_fpu env) (je_info env) tile (sh_profile_a sh) (sh_profile_b sh)) (\<lambda>(ok, tile', pa, pb).
             (W_done, sh\<lparr>sh_profile_a := pa, sh_profile_b := pb\<rparr>)) sh
      else (W_done, sh))"
| "worker_step env W_done sh = (W_done, sh)"
| "worker_step env (W_failed e) sh = (W_failed e, sh)"

subsection \<open>All workers\<close>

text \<open>\<open>future.get()\<close> of every worker in turn: the first that failed throws.\<close>

fun join_futures :: "worker list \<Rightarrow> unit result option" where
  "join_futures [] = Some (Inr ())"
| "join_futures (W_done # ws) = join_futures ws"
| "join_futures (W_failed e # ws) = Some (Inl e)"
| "join_futures (_ # ws) = None"

definition empty_combined :: CombinedStats where
  "empty_combined = \<lparr>dr_fwd = [], dr_bkwd = [], dc_fwd = [], dc_bkwd = []\<rparr>"

text \<open>Everything \<open>do_join\<close> does before it starts the workers.\<close>

definition prepare_join ::
  "fpu \<Rightarrow> eigen \<Rightarrow> (nat \<Rightarrow> fp) \<Rightarrow> OpInfo \<Rightarrow> fp list \<Rightarrow> fp list \<Rightarrow> (JoinEnv \<times> ThreadSafeQueue) option" where
  "prepare_join fpu eig fresh info timeseries_a timeseries_b =
     (let rd = rd64 fpu; m = op_mp_window info; ultra_precision = (op_fp_type info = PRECISION_ULTRA) in do {
       (a, nan_a) \<leftarrow> convert_non_finite_to_zero timeseries_a m;
       (b, nan_b) \<leftarrow> convert_non_finite_to_zero timeseries_b m;
       sa \<leftarrow> compute_statistics_cpu rd a nan_a m ultra_precision;
       sb \<leftarrow> compute_statistics_cpu rd b nan_b m ultra_precision;
       ab \<leftarrow> (if ultra_precision then compute_combined_stats_cpu rd a (means sa) b m ultra_precision
              else Some empty_combined);
       q \<leftarrow> get_tiles rd info [];
       Some (\<lparr>je_fpu = fpu, je_eigen = eig, je_fresh = fresh, je_info = info, je_timeseries_a = a, je_timeseries_b = b,
              je_precompA = sa, je_precompB = sb, je_precomp = ab\<rparr>, q) })"

definition initial_workers :: "nat \<Rightarrow> nat \<Rightarrow> worker list" where
  "initial_workers devices cpu_workers =
     replicate devices (W_new CUDA_GPU_WORKER) @ replicate cpu_workers (W_new CPU_WORKER)"

text \<open>
  The join under a schedule: \<open>None\<close> if some worker has not finished at its end, so that the caller is
  still waiting.
\<close>

definition do_join ::
  "fpu \<Rightarrow> eigen \<Rightarrow> (nat \<Rightarrow> fp) \<Rightarrow> OpInfo \<Rightarrow> nat \<Rightarrow> nat \<Rightarrow> nat list \<Rightarrow> fp list \<Rightarrow> fp list \<Rightarrow> Profile \<Rightarrow> Profile
   \<Rightarrow> (SCAMPError_t \<times> shared) result option" where
  "do_join fpu eig fresh info devices cpu_workers sched timeseries_a timeseries_b pa pb =
     (case prepare_join fpu eig fresh info timeseries_a timeseries_b of
        None \<Rightarrow> Some (Inl Undefined)
      | Some (env, q) \<Rightarrow>
          (case run_pool (worker_step env) sched (initial_workers devices cpu_workers,
                  \<lparr>work_queue = q, sh_profile_a = pa, sh_profile_b = pb, completed_tiles = 0\<rparr>) of
             (ws, sh) \<Rightarrow> map_option (\<lambda>r. rbind r (\<lambda>_. Inr (SCAMP_NO_ERROR, sh))) (join_futures ws)))"

end
