(* ===== verification/Interface.thy ===== *)
theory Interface
  imports Operation
begin

text \<open>
  src/common/scamp_args.h, scamp_args.cpp and scamp_interface.cpp: the arguments of a join, their
  validation, the allocation of the result profiles, and \<open>do_SCAMP\<close>.

  \<^item> Lengths are below \<open>2 ^ 63\<close>, so the conversion of the unsigned \<open>size - window + 1\<close> to \<open>int64_t\<close> is the
    difference of the integers.
  \<^item> \<open>hardware_threads\<close> is \<open>std::thread::hardware_concurrency\<close>, which may be 0; \<open>uninit\<close> is the
    indeterminate value of the two members the constructor of \<open>OpInfo\<close> does not set.
\<close>

record SCAMPArgs =
  timeseries_a :: "fp list"
  timeseries_b :: "fp list"
  profile_a :: Profile
  profile_b :: Profile
  has_b :: bool
  arg_window :: int
  max_tile_size :: int
  distributed_start_row :: int
  distributed_start_col :: int
  distance_threshold :: fp
  precision_type :: SCAMPPrecisionType
  arg_profile_type :: SCAMPProfileType
  computing_rows :: bool
  computing_columns :: bool
  keep_rows_separate :: bool
  is_aligned :: bool
  silent_mode :: bool
  max_matches_per_column :: int
  matrix_height :: int
  matrix_width :: int

definition size_of :: "'a list \<Rightarrow> int" where
  "size_of xs = int (length xs)"

definition validate :: "SCAMPArgs \<Rightarrow> unit result" where
  "validate a =
     (if precision_type a = PRECISION_MIXED
      then Inl (SCAMPException ''Error: PRECISION_MIXED is no longer supported. Use PRECISION_SINGLE or PRECISION_DOUBLE.'')
      else if arg_window a < 3 then Inl (SCAMPException ''Error: Subsequence length must be at least 3'')
      else if max_tile_size a < 1024 then Inl (SCAMPException ''Error: max tile size must be at least 1024'')
      else if max_tile_size a div 2 < arg_window a
      then Inl (SCAMPException ''Error: Tile length and width must be at least 2x larger than the window size'')
      else if size_of (timeseries_a a) < arg_window a \<or> has_b a \<and> size_of (timeseries_b a) < arg_window a
      then Inl (SCAMPException ''Error: Input time series must be at least 'subesequence window size' in length'')
      else if arg_profile_type a = PROFILE_TYPE_MATRIX_SUMMARY \<and> matrix_width a > 0
        \<and> size_of (timeseries_a a) - arg_window a + 1 < matrix_width a
      then Inl (SCAMPException ''Error: Output matrix must have smaller dimensions than the input time series.'')
      else if arg_profile_type a = PROFILE_TYPE_MATRIX_SUMMARY \<and> matrix_height a > 0
        \<and> (if has_b a then size_of (timeseries_b a) - arg_window a + 1 < matrix_height a
           else size_of (timeseries_a a) - arg_window a + 1 < matrix_height a)
      then Inl (SCAMPException ''Error: Output matrix must have smaller dimensions than the input time series.'')
      else Inr ())"

text \<open>Whether the arguments are usable, and the arguments with their profiles allocated.\<close>

definition InitProfileMemory :: "rounding \<Rightarrow> SCAMPArgs \<Rightarrow> (bool \<times> SCAMPArgs) option" where
  "InitProfileMemory rd a =
     (let thresh = fcast rd (distance_threshold a);
          profile_a_size = size_of (timeseries_a a) - arg_window a + 1;
          profile_b_size = (if has_b a then size_of (timeseries_b a) - arg_window a + 1 else profile_a_size)
      in if profile_a_size \<le> 0 \<or> keep_rows_separate a \<and> profile_b_size \<le> 0 then Some (False, a)
         else do {
           pa \<leftarrow> Alloc (profile_a a) profile_a_size (matrix_height a) (matrix_width a) thresh;
           pb \<leftarrow> (if keep_rows_separate a
                  then Alloc (profile_b a) profile_b_size (matrix_height a) (matrix_width a) thresh
                  else Some (profile_b a));
           Some (True, a\<lparr>profile_a := pa, profile_b := pb\<rparr>) })"

text \<open>The operation \<open>do_SCAMP\<close> constructs.\<close>

definition operation_of :: "rounding \<Rightarrow> fp \<Rightarrow> SCAMPArgs \<Rightarrow> int \<Rightarrow> OpInfo option" where
  "operation_of rd uninit a num_workers =
     OpInfo_init rd uninit (size_of (timeseries_a a)) (size_of (timeseries_b a)) (arg_window a) (max_tile_size a)
       (\<not> has_b a) (precision_type a) (distributed_start_row a) (distributed_start_col a)
       \<lparr>threshold = distance_threshold a, num_extra_operands = 0\<rparr> (arg_profile_type a) (keep_rows_separate a)
       (computing_rows a) (computing_columns a) (is_aligned a) (silent_mode a) num_workers
       (max_matches_per_column a) (matrix_height a) (matrix_width a)"

text \<open>
  \<open>do_SCAMP(args, devices, num_threads)\<close> under a schedule of its workers; \<open>None\<close> while it has not
  returned. The error code of \<open>do_join\<close> is not looked at. With devices and a negative number of threads
  the vector of futures is shorter than the loops that fill it.
\<close>

definition do_SCAMP ::
  "fpu \<Rightarrow> eigen \<Rightarrow> (nat \<Rightarrow> fp) \<Rightarrow> fp \<Rightarrow> nat list \<Rightarrow> SCAMPArgs option \<Rightarrow> int list \<Rightarrow> int \<Rightarrow> SCAMPArgs result option" where
  "do_SCAMP fpu eig fresh uninit sched args devices num_threads =
     (if devices = [] \<and> num_threads \<le> 0 then Some (Inl (SCAMPException ''Error: no compute_resources provided''))
      else case args of
        None \<Rightarrow> Some (Inl (SCAMPException ''Error: Invalid arguments provided to SCAMP''))
      | Some a \<Rightarrow> (case validate a of
          Inl e \<Rightarrow> Some (Inl e)
        | Inr _ \<Rightarrow> (case InitProfileMemory (rd32 fpu) a of
            None \<Rightarrow> Some (Inl Undefined)
          | Some (ok, a') \<Rightarrow>
              if \<not> ok then Some (Inl (SCAMPException ''Error: Invalid arguments provided to SCAMP''))
              else if num_threads < 0 then Some (Inl Undefined)
              else (case operation_of (rd64 fpu) uninit a' (size_of devices + num_threads) of
                None \<Rightarrow> Some (Inl Undefined)
              | Some info \<Rightarrow>
                  map_option (\<lambda>r. rbind r (\<lambda>(_, sh). Inr (a'\<lparr>profile_a := sh_profile_a sh, profile_b := sh_profile_b sh\<rparr>)))
                    (do_join fpu eig fresh info (length devices) (nat num_threads) sched (timeseries_a a')
                       (if has_b a' then timeseries_b a' else timeseries_a a') (profile_a a') (profile_b a'))))))"

definition num_available_gpus :: int where
  "num_available_gpus = 0"

definition do_SCAMP_default ::
  "fpu \<Rightarrow> eigen \<Rightarrow> (nat \<Rightarrow> fp) \<Rightarrow> fp \<Rightarrow> int \<Rightarrow> nat list \<Rightarrow> SCAMPArgs option \<Rightarrow> SCAMPArgs result option" where
  "do_SCAMP_default fpu eig fresh uninit hardware_threads sched args =
     (let devices = [0..num_available_gpus - 1];
          num_threads = (if devices = [] then hardware_threads else 0)
      in do_SCAMP fpu eig fresh uninit sched args devices num_threads)"

end
