(* ===== verification/Decimal.thy ===== *)
theory Decimal
  imports Common
begin

text \<open>
  Decimal integers as the standard library reads and prints them: \<open>std::stoi\<close>, which
  common/scamp_utils.cpp, core/gpu_kernel/autotune_cache.cpp and autotune.cpp call, and \<open>operator<<\<close>
  for \<open>int\<close>. \<open>stoi\<close> skips white space, takes an optional sign and the digits that follow and ignores
  the rest; it throws (\<open>None\<close>) if there is no digit or the number is no \<open>int\<close>.
\<close>

definition is_space :: "char \<Rightarrow> bool" where
  "is_space c \<longleftrightarrow> c \<in> {CHR 0x20, CHR 0x09, CHR 0x0A, CHR 0x0B, CHR 0x0C, CHR 0x0D}"

definition is_digit :: "char \<Rightarrow> bool" where
  "is_digit c \<longleftrightarrow> 48 \<le> (of_char c :: nat) \<and> (of_char c :: nat) \<le> 57"

definition digit_value :: "char \<Rightarrow> int" where
  "digit_value c = of_char c - 48"

definition digits_value :: "string \<Rightarrow> int" where
  "digits_value ds = foldl (\<lambda>n c. 10 * n + digit_value c) 0 ds"

definition take_sign :: "string \<Rightarrow> int \<times> string" where
  "take_sign s = (case s of [] \<Rightarrow> (1, [])
     | c # cs \<Rightarrow> if c = CHR ''-'' then (-1, cs) else if c = CHR ''+'' then (1, cs) else (1, s))"

definition stoi :: "string \<Rightarrow> int option" where
  "stoi s =
     (let (sgn, r) = take_sign (dropWhile is_space s); ds = takeWhile is_digit r; n = sgn * digits_value ds
      in if ds \<noteq> [] \<and> - (2 ^ 31) \<le> n \<and> n < 2 ^ 31 then Some n else None)"

definition digit_char :: "nat \<Rightarrow> char" where
  "digit_char n = char_of (48 + n)"

fun show_nat :: "nat \<Rightarrow> string" where
  "show_nat n = (if n < 10 then [digit_char n] else show_nat (n div 10) @ [digit_char (n mod 10)])"

declare show_nat.simps [simp del]

definition show_int :: "int \<Rightarrow> string" where
  "show_int n = (if n < 0 then CHR ''-'' # show_nat (nat (- n)) else show_nat (nat n))"

subsection \<open>Reading what was printed\<close>

lemma digit_char_all:
  "list_all (\<lambda>n. is_digit (digit_char n) \<and> digit_value (digit_char n) = int n \<and> \<not> is_space (digit_char n)) [0..<10]"
  by code_simp

lemma digit_char_simps:
  assumes "n < 10"
  shows "is_digit (digit_char n)" "digit_value (digit_char n) = int n" "\<not> is_space (digit_char n)"
  using digit_char_all assms by (auto simp: list_all_iff)

lemma digits_value_snoc: "digits_value (ds @ [c]) = 10 * digits_value ds + digit_value c"
  by (simp add: digits_value_def)

lemma show_nat_digits: "show_nat n \<noteq> [] \<and> (\<forall>c \<in> set (show_nat n). is_digit c \<and> \<not> is_space c)"
proof (induction n rule: show_nat.induct)
  case (1 n)
  then show ?case
    by (cases "n < 10") (auto simp: show_nat.simps [of n] digit_char_simps)
qed

lemma digits_value_show_nat: "digits_value (show_nat n) = int n"
proof (induction n rule: show_nat.induct)
  case (1 n)
  have "10 * int (n div 10) + int (n mod 10) = int n" by presburger
  then show ?case
    using 1 digit_char_simps(2) [of n] digit_char_simps(2) [of "n mod 10"]
    by (cases "n < 10") (simp_all add: show_nat.simps [of n] digits_value_snoc, simp add: digits_value_def)
qed

lemma is_digit_sign: "is_digit c \<Longrightarrow> c \<noteq> CHR ''-'' \<and> c \<noteq> CHR ''+'' \<and> c \<noteq> CHR '','' \<and> c \<noteq> CHR ''|'' \<and> c \<noteq> CHR 0x0A"
  by (auto simp: is_digit_def)

lemma show_nat_scan:
  "takeWhile is_digit (show_nat n) = show_nat n" "dropWhile is_space (show_nat n) = show_nat n"
  "take_sign (show_nat n) = (1, show_nat n)"
proof -
  obtain c cs where S: "show_nat n = c # cs" using show_nat_digits [of n] by (cases "show_nat n") auto
  have d: "is_digit c" "\<not> is_space c" using show_nat_digits [of n] S by auto
  show "takeWhile is_digit (show_nat n) = show_nat n" using show_nat_digits [of n] by simp
  show "dropWhile is_space (show_nat n) = show_nat n" using d(2) by (simp add: S)
  show "take_sign (show_nat n) = (1, show_nat n)" using is_digit_sign [OF d(1)] by (simp add: S take_sign_def)
qed

lemma stoi_show_int [simp]:
  assumes "- (2 ^ 31) \<le> n" "n < 2 ^ 31"
  shows "stoi (show_int n) = Some n"
proof (cases "n < 0")
  case True
  have "\<not> is_space CHR ''-''" by (simp add: is_space_def)
  then show ?thesis
    using True assms show_nat_digits [of "nat (- n)"]
    by (simp add: stoi_def show_int_def Let_def take_sign_def show_nat_scan digits_value_show_nat)
next
  case False
  then show ?thesis
    using assms show_nat_digits [of "nat n"]
    by (simp add: stoi_def show_int_def Let_def show_nat_scan digits_value_show_nat)
qed

lemma show_int_chars:
  "show_int n \<noteq> []" "c \<in> set (show_int n) \<Longrightarrow> c \<noteq> CHR '','' \<and> c \<noteq> CHR ''|'' \<and> c \<noteq> CHR 0x0A"
  using show_nat_digits is_digit_sign by (auto simp: show_int_def split: if_splits)

end
