(* ===== verification/Utils.thy ===== *)
theory Utils
  imports Profile Decimal
begin

text \<open>
  src/common/scamp_utils.cpp: reading time series, parsing flags, converting correlations to distances
  and writing profiles.

  \<^item> An input file stream is the characters that are left with its eof and fail bits. A file that is
    written is the string of its contents.
  \<^item> Parsing and formatting of floating-point numbers by the standard library are parameters: \<open>stod\<close>, and
    \<open>fmt\<close> for \<open><< std::setprecision(10) <<\<close>.
\<close>

subsection \<open>Input\<close>

datatype stod_result = Stod_ok fp | Stod_invalid | Stod_out_of_range

record istream =
  left :: string
  eofbit :: bool
  failbit :: bool

text \<open>\<open>s >> line\<close> for a string: skips white space and takes the characters up to the next.\<close>

definition extract_word :: "istream \<Rightarrow> string \<times> istream" where
  "extract_word s =
     (if eofbit s \<or> failbit s then ([], s\<lparr>failbit := True\<rparr>)
      else let r = dropWhile is_space (left s); line = takeWhile (\<lambda>c. \<not> is_space c) r;
               r' = dropWhile (\<lambda>c. \<not> is_space c) r
           in (line, \<lparr>left = r', eofbit = (r' = []), failbit = (line = [])\<rparr>))"

text \<open>Whether \<open>s.peek()\<close> is \<open>EOF\<close>.\<close>

definition peek_eof :: "istream \<Rightarrow> bool \<times> istream" where
  "peek_eof s =
     (if eofbit s \<or> failbit s then (True, s\<lparr>failbit := True\<rparr>)
      else if left s = [] then (True, s\<lparr>eofbit := True\<rparr>) else (False, s))"

text \<open>\<open>None\<close>: the program exits with code 1.\<close>

definition read_value :: "(string \<Rightarrow> stod_result) \<Rightarrow> istream \<Rightarrow> (fp \<times> istream) option" where
  "read_value stod s = (let (line, s1) = extract_word s in
     if line = [] then Some (NaN, snd (peek_eof s1))
     else case stod line of Stod_ok d \<Rightarrow> Some (d, s1) | _ \<Rightarrow> None)"

lemma read_value_progress:
  "read_value stod s = Some (d, s1) \<Longrightarrow> \<not> failbit s1 \<Longrightarrow> length (left s1) < length (left s)"
proof -
  assume r: "read_value stod s = Some (d, s1)" "\<not> failbit s1"
  let ?r = "dropWhile is_space (left s)"
  have "length (dropWhile (\<lambda>c. \<not> is_space c) ?r) < length ?r" if "takeWhile (\<lambda>c. \<not> is_space c) ?r \<noteq> []"
    using that by (cases ?r) (auto simp: le_imp_less_Suc length_dropWhile_le split: if_splits)
  moreover have "length ?r \<le> length (left s)" by (rule length_dropWhile_le)
  ultimately show ?thesis
    using r by (auto simp: read_value_def extract_word_def peek_eof_def Let_def split: if_splits stod_result.splits)
qed

lemma peek_eof_left: "left (snd (peek_eof s)) = left s"
  by (simp add: peek_eof_def)

function read_loop :: "(string \<Rightarrow> stod_result) \<Rightarrow> istream \<Rightarrow> fp list \<Rightarrow> fp list option" where
  "read_loop stod s v = (case read_value stod s of
     None \<Rightarrow> None
   | Some (d, s1) \<Rightarrow>
       if failbit s1 then Some v
       else if fst (peek_eof s1) then Some v else read_loop stod (snd (peek_eof s1)) (v @ [d]))"
  by pat_completeness auto
termination
  by (relation "measure (\<lambda>(_, s, _). length (left s))") (auto simp: peek_eof_left read_value_progress)

declare read_loop.simps [simp del]

text \<open>\<open>readFile\<close> on the contents of a file, \<open>None\<close> if it cannot be opened.\<close>

definition readFile :: "(string \<Rightarrow> stod_result) \<Rightarrow> string option \<Rightarrow> fp list \<Rightarrow> fp list option" where
  "readFile stod contents v = (case contents of
     None \<Rightarrow> None
   | Some cs \<Rightarrow> read_loop stod \<lparr>left = cs, eofbit = False, failbit = False\<rparr> v)"

subsection \<open>Flags\<close>

text \<open>The pieces \<open>std::getline\<close> with the delimiter comma yields.\<close>

fun split_commas :: "string \<Rightarrow> string list" where
  "split_commas [] = [[]]"
| "split_commas (c # cs) =
     (if c = CHR 0x2C then [] # split_commas cs
      else case split_commas cs of [] \<Rightarrow> [[c]] | w # ws \<Rightarrow> (c # w) # ws)"

text \<open>\<open>stoi\<close> throws (\<open>None\<close>) if it cannot parse a piece.\<close>

fun stoi_all :: "string list \<Rightarrow> int list option" where
  "stoi_all [] = Some []"
| "stoi_all (w # ws) = do { n \<leftarrow> stoi w; ns \<leftarrow> stoi_all ws; Some (n # ns) }"

definition ParseIntList :: "string \<Rightarrow> int list option" where
  "ParseIntList s = (if s = [] then Some [] else stoi_all (split_commas s))"

definition GetPrecisionType :: "bool \<Rightarrow> bool \<Rightarrow> bool \<Rightarrow> SCAMPPrecisionType" where
  "GetPrecisionType ultrap doublep singlep =
     (if ultrap then PRECISION_ULTRA else if doublep then PRECISION_DOUBLE
      else if singlep then PRECISION_SINGLE else PRECISION_INVALID)"

definition ParseProfileType :: "string \<Rightarrow> SCAMPProfileType" where
  "ParseProfileType s =
     (if s = ''1NN_INDEX'' then PROFILE_TYPE_1NN_INDEX
      else if s = ''SUM_THRESH'' then PROFILE_TYPE_SUM_THRESH
      else if s = ''1NN'' then PROFILE_TYPE_1NN
      else if s = ''ALL_NEIGHBORS'' then PROFILE_TYPE_APPROX_ALL_NEIGHBORS
      else if s = ''MATRIX_SUMMARY'' then PROFILE_TYPE_MATRIX_SUMMARY
      else PROFILE_TYPE_INVALID)"

subsection \<open>Output\<close>

definition ConvertToEuclidean :: "rounding \<Rightarrow> fp \<Rightarrow> int \<Rightarrow> fp" where
  "ConvertToEuclidean rd v window =
     (if flt v (Fin (-1)) then NaN
      else fsqrt rd (std_max (fmul rd (fmul rd (Fin 2) (fp_of_int rd window)) (fsub rd (Fin 1) v)) (Fin 0)))"

definition CleanupPearson :: "fp \<Rightarrow> fp" where
  "CleanupPearson v = (if flt v (Fin (-1)) then NaN else v)"

definition newline :: string where
  "newline = [CHR 0x0A]"

text \<open>A value as the user wants it.\<close>

definition output_value :: "rounding \<Rightarrow> bool \<Rightarrow> int \<Rightarrow> fp \<Rightarrow> fp" where
  "output_value rd output_pearson window v =
     (if output_pearson then CleanupPearson v else ConvertToEuclidean rd v window)"

fun write_cells :: "rounding \<Rightarrow> (fp \<Rightarrow> string) \<Rightarrow> bool \<Rightarrow> int \<Rightarrow> int \<Rightarrow> int \<Rightarrow> fp list \<Rightarrow> string" where
  "write_cells rd fmt output_pearson window width cnt [] = []"
| "write_cells rd fmt output_pearson window width cnt (x # xs) =
     (let cnt0 = (if cnt = width then 0 else cnt)
      in (if cnt = width then newline else []) @ fmt (output_value rd output_pearson window x)
         @ (if cnt0 \<noteq> width - 1 then '' '' else [])
         @ write_cells rd fmt output_pearson window width (cnt0 + 1) xs)"

definition write_matrix :: "rounding \<Rightarrow> (fp \<Rightarrow> string) \<Rightarrow> bool \<Rightarrow> fp list \<Rightarrow> int \<Rightarrow> int \<Rightarrow> string" where
  "write_matrix rd fmt output_pearson matrix window width =
     write_cells rd fmt output_pearson window width 0 matrix @ newline"

definition lines :: "('a \<Rightarrow> string) \<Rightarrow> 'a list \<Rightarrow> string" where
  "lines f xs = concat (map (\<lambda>x. f x @ newline) xs)"

definition index_of_entry :: "mp_entry \<Rightarrow> int" where
  "index_of_entry e = (if flt (floats0 e) (Fin (-1)) then -1 else sint (ints1 e))"

definition match_line :: "rounding \<Rightarrow> (fp \<Rightarrow> string) \<Rightarrow> bool \<Rightarrow> int \<Rightarrow> SCAMPmatch \<Rightarrow> string" where
  "match_line rd fmt output_pearson window m =
     show_int (uint (match_col m)) @ '' '' @ show_int (uint (match_row m)) @ '' ''
       @ fmt (output_value rd output_pearson window (corr m))"

text \<open>
  The files that are written, with their contents. The matches of a queue are written best first: every
  match popped goes to the front of the list.
\<close>

definition WriteProfileToFile ::
  "rounding \<Rightarrow> (fp \<Rightarrow> string) \<Rightarrow> string \<Rightarrow> string \<Rightarrow> Profile \<Rightarrow> bool \<Rightarrow> int \<Rightarrow> int \<Rightarrow> (string \<times> string) list option" where
  "WriteProfileToFile rd fmt mp mpi p output_pearson window matrix_width =
     (let out = output_value rd output_pearson window in
      case profile_type p of
        PROFILE_TYPE_1NN_INDEX \<Rightarrow> do {
          d \<leftarrow> data0 p;
          Some [(mp, lines (\<lambda>e. fmt (out (floats0 e))) (uint64_value d)),
                (mpi, lines (\<lambda>e. show_int (index_of_entry e)) (uint64_value d))] }
      | PROFILE_TYPE_1NN \<Rightarrow> do { d \<leftarrow> data0 p; Some [(mp, lines (\<lambda>x. fmt (out x)) (float_value d))] }
      | PROFILE_TYPE_SUM_THRESH \<Rightarrow> do { d \<leftarrow> data0 p; Some [(mp, lines fmt (double_value d))] }
      | PROFILE_TYPE_APPROX_ALL_NEIGHBORS \<Rightarrow> do {
          d \<leftarrow> data0 p;
          Some [(mp, concat (map (\<lambda>pq. lines (match_line rd fmt output_pearson window) (rev pq)) (match_value d)))] }
      | PROFILE_TYPE_MATRIX_SUMMARY \<Rightarrow> do {
          d \<leftarrow> data0 p;
          Some [(mp, write_matrix rd fmt output_pearson (float_value d) window matrix_width)] }
      | _ \<Rightarrow> Some [])"

end
