(* ===== verification/Program.thy ===== *)
theory Program
  imports Interface Utils
begin

text \<open>
  src/main.cpp: the command line program, built without CUDA and without distributed execution. The
  flags gflags has parsed, the contents of the input files and the standard library's parsing and formatting
  of floating-point numbers are arguments; the result is the exit code with the files written, or that an exception
  left \<open>main\<close>. Text printed to the terminal is not part of the model.
\<close>

record Flags =
  flag_max_matches_per_column :: int
  flag_reduced_height :: int
  flag_reduced_width :: int
  flag_print_debug_info :: bool
  flag_num_cpu_workers :: int
  flag_output_pearson :: bool
  flag_no_gpu :: bool
  flag_max_tile_size :: "int option"
  flag_window :: int
  flag_threshold :: fp
  flag_profile_type :: string
  flag_ultra_precision :: bool
  flag_double_precision :: bool
  flag_single_precision :: bool
  flag_keep_rows :: bool
  flag_aligned :: bool
  flag_global_row :: int
  flag_global_col :: int
  flag_input_a_file_name :: string
  flag_input_b_file_name :: string
  flag_output_a_file_name :: string
  flag_output_a_index_file_name :: string
  flag_output_b_file_name :: string
  flag_output_b_index_file_name :: string
  flag_gpus :: string
  flag_autotune :: bool
  flag_list_variants :: bool

text \<open>The defaults; \<open>max_tile_size\<close> is \<open>None\<close> when the flag was not given.\<close>

definition default_flags :: Flags where
  "default_flags = \<lparr>flag_max_matches_per_column = 5, flag_reduced_height = 50, flag_reduced_width = 50,
     flag_print_debug_info = False, flag_num_cpu_workers = 0, flag_output_pearson = False, flag_no_gpu = False,
     flag_max_tile_size = None, flag_window = -1, flag_threshold = Fin 0, flag_profile_type = ''1NN_INDEX'',
     flag_ultra_precision = False, flag_double_precision = False, flag_single_precision = False,
     flag_keep_rows = False, flag_aligned = False, flag_global_row = -1, flag_global_col = -1,
     flag_input_a_file_name = '''', flag_input_b_file_name = '''',
     flag_output_a_file_name = ''mp_columns_out'', flag_output_a_index_file_name = ''mp_columns_out_index'',
     flag_output_b_file_name = ''mp_rows_out'', flag_output_b_index_file_name = ''mp_rows_out_index'',
     flag_gpus = '''', flag_autotune = False, flag_list_variants = False\<rparr>"

datatype main_result = Exit int "(string \<times> string) list" | Uncaught | Undefined_behaviour

record env =
  env_fpu :: fpu
  env_eigen :: eigen
  env_fresh :: "nat \<Rightarrow> fp"
  env_uninit :: fp
  env_stod :: "string \<Rightarrow> stod_result"
  env_fmt :: "fp \<Rightarrow> string"
  env_files :: "string \<Rightarrow> string option"

definition default_precision :: "Flags \<Rightarrow> Flags" where
  "default_precision f =
     (if \<not> flag_ultra_precision f \<and> \<not> flag_double_precision f \<and> \<not> flag_single_precision f
      then f\<lparr>flag_double_precision := True\<rparr> else f)"

definition one_precision :: "Flags \<Rightarrow> bool" where
  "one_precision f \<longleftrightarrow> of_bool (flag_ultra_precision f) + of_bool (flag_double_precision f)
     + of_bool (flag_single_precision f) = (1 :: int)"

definition tile_size_to_use :: "Flags \<Rightarrow> bool \<Rightarrow> int" where
  "tile_size_to_use f gpu_used =
     (case flag_max_tile_size f of Some n \<Rightarrow> n | None \<Rightarrow> if gpu_used then 512000 else 128000)"

definition args_of_flags :: "Flags \<Rightarrow> bool \<Rightarrow> int \<Rightarrow> fp list \<Rightarrow> fp list \<Rightarrow> SCAMPArgs" where
  "args_of_flags f self_join max_tile Ta Tb =
     (let t = ParseProfileType (flag_profile_type f) in
      \<lparr>timeseries_a = Ta, timeseries_b = Tb, profile_a = Profile_default\<lparr>profile_type := t\<rparr>,
       profile_b = Profile_default\<lparr>profile_type := t\<rparr>, has_b = \<not> self_join, arg_window = flag_window f,
       max_tile_size = max_tile, distributed_start_row = flag_global_row f,
       distributed_start_col = flag_global_col f, distance_threshold = flag_threshold f,
       precision_type = GetPrecisionType (flag_ultra_precision f) (flag_double_precision f) (flag_single_precision f),
       arg_profile_type = t, computing_rows = (if self_join then True else flag_keep_rows f), computing_columns = True,
       keep_rows_separate = flag_keep_rows f, is_aligned = flag_aligned f,
       silent_mode = \<not> flag_print_debug_info f, max_matches_per_column = flag_max_matches_per_column f,
       matrix_height = flag_reduced_height f, matrix_width = flag_reduced_width f\<rparr>)"

text \<open>After the join: the result files.\<close>

definition write_results :: "env \<Rightarrow> Flags \<Rightarrow> SCAMPArgs \<Rightarrow> main_result" where
  "write_results env f a =
     (let write = (\<lambda>mp mpi p. WriteProfileToFile (rd64 (env_fpu env)) (env_fmt env) mp mpi p
                     (flag_output_pearson f) (flag_window f) (flag_reduced_width f))
      in case (do {
           fa \<leftarrow> write (flag_output_a_file_name f) (flag_output_a_index_file_name f) (profile_a a);
           fb \<leftarrow> (if flag_keep_rows f
                  then write (flag_output_b_file_name f) (flag_output_b_index_file_name f) (profile_b a)
                  else Some []);
           Some (fa @ fb) }) of
         None \<Rightarrow> Undefined_behaviour
       | Some files \<Rightarrow> Exit 0 files)"

text \<open>From the parsed and checked flags on: reading the input and the join, under a schedule.\<close>

definition run_join :: "env \<Rightarrow> nat list \<Rightarrow> Flags \<Rightarrow> int list \<Rightarrow> int \<Rightarrow> main_result option" where
  "run_join env sched f devices max_tile =
     (let self_join = (flag_input_b_file_name f = []) in
      case readFile (env_stod env) (env_files env (flag_input_a_file_name f)) [] of
        None \<Rightarrow> Some (Exit 1 [])
      | Some Ta \<Rightarrow>
          (case (if self_join then Some [] else readFile (env_stod env) (env_files env (flag_input_b_file_name f)) []) of
             None \<Rightarrow> Some (Exit 1 [])
           | Some Tb \<Rightarrow>
               let n_x = size_of Ta - flag_window f + 1;
                   n_y = (if self_join then n_x else size_of Tb - flag_window f + 1)
               in if n_x < 1 \<or> n_y < 1 then Some (Exit 1 [])
                  else map_option (\<lambda>r. case r of
                      Inl (SCAMPException _) \<Rightarrow> Exit 1 []
                    | Inl Undefined \<Rightarrow> Undefined_behaviour
                    | Inr a \<Rightarrow> write_results env f a)
                  (do_SCAMP (env_fpu env) (env_eigen env) (env_fresh env) (env_uninit env) sched
                     (Some (args_of_flags f self_join max_tile Ta Tb)) devices (flag_num_cpu_workers f))))"

definition main_program :: "env \<Rightarrow> nat list \<Rightarrow> Flags \<Rightarrow> main_result option" where
  "main_program env sched f0 =
     (if flag_list_variants f0 then Some (Exit 1 [])
      else if flag_autotune f0 then Some (Exit 1 [])
      else let f = default_precision f0 in
        if \<not> one_precision f then Some (Exit 1 [])
        else if flag_window f < 3 then Some (Exit 1 [])
        else case ParseIntList (flag_gpus f) of
          None \<Rightarrow> Some Uncaught
        | Some devices \<Rightarrow>
            if devices \<noteq> [] then Some Uncaught
            else let max_tile = tile_size_to_use f (devices \<noteq> []) in
              if max_tile < 1024 then Some (Exit 1 [])
              else if max_tile div 2 < flag_window f then Some (Exit 1 [])
              else if flag_input_a_file_name f = [] then Some (Exit 1 [])
              else run_join env sched f devices max_tile)"

end
