(* ===== verification/TileCorrect.thy ===== *)
theory TileCorrect
  imports Tile StatsExact KernelProfiles
begin

text \<open>
  What a tile computes, in exact arithmetic: the covariances of the kernel are the centred dot products
  of the windows, its correlations Pearson's, and the entries of a \<open>1NN_INDEX\<close> tile hold a best match
  among the cells the tile looks at.
\<close>

subsection \<open>Correlations\<close>

definition bad_window :: "real list \<Rightarrow> bool list \<Rightarrow> nat \<Rightarrow> nat \<Rightarrow> bool" where
  "bad_window xs nv w i \<longleftrightarrow> nv ! i \<or> wssq xs w i \<le> 1 / 10 ^ 13"

definition pearson :: "real list \<Rightarrow> real list \<Rightarrow> nat \<Rightarrow> nat \<Rightarrow> nat \<Rightarrow> real" where
  "pearson xs ys w i j = cdot xs ys w i j / (sqrt (wssq xs w i) * sqrt (wssq ys w j))"

text \<open>The value of a pair of windows: \<open>-2\<close>, below every correlation, if one is flat or not clean.\<close>

definition pair_value :: "real list \<Rightarrow> bool list \<Rightarrow> real list \<Rightarrow> bool list \<Rightarrow> nat \<Rightarrow> nat \<Rightarrow> nat \<Rightarrow> fp" where
  "pair_value xs nx ys ny w i j =
     (if bad_window xs nx w i \<or> bad_window ys ny w j then Fin (-2) else Fin (pearson xs ys w i j))"

lemma cdot_commute: "cdot xs ys w i j = cdot ys xs w j i"
  by (simp add: cdot_def mult.commute)

lemma pearson_commute: "pearson xs ys w i j = pearson ys xs w j i"
  by (simp add: pearson_def cdot_commute [of xs ys] mult.commute)

lemma pair_value_commute: "pair_value xs nx ys ny w i j = pair_value ys ny xs nx w j i"
  by (auto simp: pair_value_def pearson_commute [of xs ys])

lemma pair_value_finite: "is_finite (pair_value xs nx ys ny w i j)"
  by (simp add: pair_value_def)

subsection \<open>The kernel on slices of the statistics\<close>

definition is_slice :: "'a list \<Rightarrow> 'a list \<Rightarrow> nat \<Rightarrow> nat \<Rightarrow> bool" where
  "is_slice dst src off n \<longleftrightarrow> n \<le> length dst \<and> off + n \<le> length src \<and> (\<forall>k < n. dst ! k = src ! (off + k))"

text \<open>
  The arrays of a kernel that runs over windows \<open>p, ..., p + n_x - 1\<close> of \<open>P\<close> and \<open>q, ..., q + n_y - 1\<close>
  of \<open>Q\<close>.
\<close>

definition kernel_slices ::
  "real list \<Rightarrow> bool list \<Rightarrow> nat \<Rightarrow> real list \<Rightarrow> bool list \<Rightarrow> nat \<Rightarrow> nat \<Rightarrow> KernelArgs \<Rightarrow> fp list \<Rightarrow> bool" where
  "kernel_slices P nP p Q nQ q w args cov \<longleftrightarrow>
     (let nx = nat (k_n_x args); ny = nat (k_n_y args); a = exact_stats P nP w; b = exact_stats Q nQ w in
       0 < k_n_x args \<and> 0 < k_n_y args \<and> 0 < w \<and> w \<le> length P \<and> w \<le> length Q
       \<and> 0 \<le> k_exclusion_lower args \<and> 0 \<le> k_exclusion_upper args
       \<and> is_slice (k_normsa args) (norms a) p nx \<and> is_slice (k_normsb args) (norms b) q ny
       \<and> is_slice (k_dfa args) (df a) p nx \<and> is_slice (k_dfb args) (df b) q ny
       \<and> is_slice (k_dga args) (dg a) p nx \<and> is_slice (k_dgb args) (dg b) q ny
       \<and> nx \<le> length cov \<and> (\<forall>d < nx. cov ! d = Fin (cdot P Q w (p + d) q))
       \<and> (k_has_nan_input args \<or> (\<forall>k < nx. \<not> bad_window P nP w (p + k)) \<and> (\<forall>k < ny. \<not> bad_window Q nQ w (q + k))))"

lemma exact_stats_lengths:
  "length (norms (exact_stats xs nv w)) = length xs - w + 1" "length (df (exact_stats xs nv w)) = length xs - w + 1"
  "length (dg (exact_stats xs nv w)) = length xs - w + 1" "length (means (exact_stats xs nv w)) = length xs - w + 1"
  by (simp_all add: exact_stats_def diff_fs_def diff_gs_def del: upt_Suc)

lemma exact_stats_nth:
  "i < length xs - w \<Longrightarrow> df (exact_stats xs nv w) ! i = Fin (diff_f xs w i)"
  "i < length xs - w \<Longrightarrow> dg (exact_stats xs nv w) ! i = Fin (diff_g xs w i)"
  "i < length xs - w + 1 \<Longrightarrow> norms (exact_stats xs nv w) ! i =
     (if bad_window xs nv w i then NaN else Fin (1 / sqrt (wssq xs w i)))"
  by (auto simp: exact_stats_def diff_fs_def diff_gs_def norm_of_def bad_window_def FLATNESS_EPSILON_def wssq_nonneg simp del: upt_Suc)

lemma is_slice_nth: "is_slice dst src off n \<Longrightarrow> k < n \<Longrightarrow> dst ! k = src ! (off + k)"
  and is_slice_bound: "is_slice dst src off n \<Longrightarrow> off + n \<le> length src"
  by (simp_all add: is_slice_def)

text \<open>The arrays read in terms of the series.\<close>

lemma kernel_slices_nth:
  assumes "kernel_slices P nP p Q nQ q w args cov"
  shows "k + 1 < nat (k_n_x args) \<Longrightarrow> k_dfa args ! k = Fin (diff_f P w (p + k))"
    and "k + 1 < nat (k_n_x args) \<Longrightarrow> k_dga args ! k = Fin (diff_g P w (p + k))"
    and "k + 1 < nat (k_n_y args) \<Longrightarrow> k_dfb args ! k = Fin (diff_f Q w (q + k))"
    and "k + 1 < nat (k_n_y args) \<Longrightarrow> k_dgb args ! k = Fin (diff_g Q w (q + k))"
    and "k < nat (k_n_x args) \<Longrightarrow> k_normsa args ! k = (if bad_window P nP w (p + k) then NaN else Fin (1 / sqrt (wssq P w (p + k))))"
    and "k < nat (k_n_y args) \<Longrightarrow> k_normsb args ! k = (if bad_window Q nQ w (q + k) then NaN else Fin (1 / sqrt (wssq Q w (q + k))))"
proof -
  have s: "is_slice (k_normsa args) (norms (exact_stats P nP w)) p (nat (k_n_x args))"
      "is_slice (k_dfa args) (df (exact_stats P nP w)) p (nat (k_n_x args))"
      "is_slice (k_dga args) (dg (exact_stats P nP w)) p (nat (k_n_x args))"
      "is_slice (k_normsb args) (norms (exact_stats Q nQ w)) q (nat (k_n_y args))"
      "is_slice (k_dfb args) (df (exact_stats Q nQ w)) q (nat (k_n_y args))"
      "is_slice (k_dgb args) (dg (exact_stats Q nQ w)) q (nat (k_n_y args))"
    using assms by (simp_all add: kernel_slices_def Let_def)
  have b: "p + nat (k_n_x args) \<le> length P - w + 1" "q + nat (k_n_y args) \<le> length Q - w + 1"
    using is_slice_bound [OF s(1)] is_slice_bound [OF s(4)] by (simp_all only: exact_stats_lengths)
  show "k + 1 < nat (k_n_x args) \<Longrightarrow> k_dfa args ! k = Fin (diff_f P w (p + k))"
    using is_slice_nth [OF s(2), of k] b(1) by (simp add: exact_stats_nth)
  show "k + 1 < nat (k_n_x args) \<Longrightarrow> k_dga args ! k = Fin (diff_g P w (p + k))"
    using is_slice_nth [OF s(3), of k] b(1) by (simp add: exact_stats_nth)
  show "k + 1 < nat (k_n_y args) \<Longrightarrow> k_dfb args ! k = Fin (diff_f Q w (q + k))"
    using is_slice_nth [OF s(5), of k] b(2) by (simp add: exact_stats_nth)
  show "k + 1 < nat (k_n_y args) \<Longrightarrow> k_dgb args ! k = Fin (diff_g Q w (q + k))"
    using is_slice_nth [OF s(6), of k] b(2) by (simp add: exact_stats_nth)
  show "k < nat (k_n_x args) \<Longrightarrow> k_normsa args ! k = (if bad_window P nP w (p + k) then NaN else Fin (1 / sqrt (wssq P w (p + k))))"
    using is_slice_nth [OF s(1), of k] b(1) by (simp add: exact_stats_nth)
  show "k < nat (k_n_y args) \<Longrightarrow> k_normsb args ! k = (if bad_window Q nQ w (q + k) then NaN else Fin (1 / sqrt (wssq Q w (q + k))))"
    using is_slice_nth [OF s(4), of k] b(2) by (simp add: exact_stats_nth)
qed

lemma exact_fpu_simps [simp]: "rd64 exact_fpu = exact" "rd32 exact_fpu = exact"
  by (simp_all add: exact_fpu_def)

lemma kernel_slices_args_ok: "kernel_slices P nP p Q nQ q w args cov \<Longrightarrow> args_ok args cov"
  by (auto simp: kernel_slices_def args_ok_def is_slice_def Let_def nat_le_iff)

lemma kernel_cov:
  assumes "kernel_slices P nP p Q nQ q w args cov" "d + r < nat (k_n_x args)" "r < nat (k_n_y args)"
  shows "cov_at exact_fpu args cov (int d) r = Fin (cdot P Q w (p + d + r) (q + r))"
  using assms(2,3)
proof (induction r)
  case 0
  then show ?case using assms(1) by (simp add: kernel_slices_def Let_def)
next
  case (Suc r)
  have w: "0 < w" using assms(1) by (simp add: kernel_slices_def Let_def)
  have s: "k_dfa args ! (d + r) = Fin (diff_f P w (p + d + r))" "k_dga args ! (d + r) = Fin (diff_g P w (p + d + r))"
      "k_dfb args ! r = Fin (diff_f Q w (q + r))" "k_dgb args ! r = Fin (diff_g Q w (q + r))"
    using kernel_slices_nth(1-4) [OF assms(1)] Suc.prems by (simp_all add: add.assoc)
  have "cov_at exact_fpu args cov (int d) r = Fin (cdot P Q w (p + d + r) (q + r))"
    using Suc by simp
  moreover have "nat (int d + int r) = d + r" by simp
  ultimately show ?case
    using cdot_step [OF w, of P Q "p + d + r" "q + r"] s by simp
qed

lemma kernel_corr:
  assumes "kernel_slices P nP p Q nQ q w args cov" "(r, c) \<in> valid args" "dist_cast ops = (\<lambda>x. x)" "dist_init ops = Fin (-2)"
  shows "corr_at exact_fpu ops args cov (r, c) = pair_value P nP Q nQ w (p + nat c) (q + nat r)"
proof -
  have rc: "0 \<le> r" "r < k_n_y args" "0 \<le> c" "c < k_n_x args" "r \<le> c"
    using assms(1,2) by (auto simp: valid_def kernel_slices_def Let_def)
  then have "cov_at exact_fpu args cov (int (nat (c - r))) (nat r) = Fin (cdot P Q w (p + nat (c - r) + nat r) (q + nat r))"
    by (intro kernel_cov [OF assms(1)]) auto
  then have cov: "cov_at exact_fpu args cov (c - r) (nat r) = Fin (cdot P Q w (p + nat c) (q + nat r))"
    using rc by (simp add: nat_diff_distrib add.assoc)
  have na: "k_normsa args ! nat c = (if bad_window P nP w (p + nat c) then NaN else Fin (1 / sqrt (wssq P w (p + nat c))))"
   and nb: "k_normsb args ! nat r = (if bad_window Q nQ w (q + nat r) then NaN else Fin (1 / sqrt (wssq Q w (q + nat r))))"
    using kernel_slices_nth(5,6) [OF assms(1)] rc by simp_all
  have nan: "k_has_nan_input args" if "bad_window P nP w (p + nat c) \<or> bad_window Q nQ w (q + nat r)"
    using assms(1) rc that by (auto simp: kernel_slices_def Let_def nat_less_iff)
  show ?thesis
  proof (cases "bad_window P nP w (p + nat c) \<or> bad_window Q nQ w (q + nat r)")
    case True
    then show ?thesis
      using nan by (auto simp: corr_at_def cov na nb assms(3,4) pair_value_def Let_def)
  next
    case False
    then show ?thesis
      by (simp add: corr_at_def cov na nb assms(3,4) pair_value_def pearson_def Let_def)
  qed
qed

subsection \<open>One launch on entries\<close>

text \<open>The covariances keep their length.\<close>

lemma ablit_length: "ablit xs k ys = Some zs \<Longrightarrow> length zs = length xs"
  by (auto simp: ablit_def split: if_splits)

lemma handle_row_length: "handle_row fpu ops rows cols fast args info n st = Some st' \<Longrightarrow> length (fst st') = length (fst st)"
  by (cases st) (auto simp: handle_row_def Let_def bind_eq_Some_conv dest: ablit_length)

lemma do_tile_length:
  assumes "do_tile fpu ops U rows cols args st = Some st'"
  shows "length (fst st') = length (fst st)"
proof -
  have step: "length (fst t') = length (fst st)"
    if "for1 a b (\<lambda>r. handle_row fpu ops rows cols fast args (i r) (n r)) t = Some t'" "length (fst t) = length (fst st)"
    for a b fast i n t t'
    by (rule forstep_keeps [OF that(1), where I = "\<lambda>t. length (fst t) = length (fst st)", OF that(2)])
      (auto dest: handle_row_length)
  show ?thesis
    by (rule forstep_keeps [OF assms [unfolded do_tile_def Let_def], where I = "\<lambda>t. length (fst t) = length (fst st)"])
      (auto simp: handle_row_fast_def handle_row_slow_def Let_def bind_eq_Some_conv dest!: step)
qed

lemma launch_length:
  assumes "launch_as view mem (LaunchDoTile fpu ops U fp rows cols args) (cov, a, b) = Some (err, cov', a', b')"
  shows "length cov' = length cov"
  using assms do_tile_length [of fpu ops U rows cols args]
  by (fastforce simp: launch_as_def LaunchDoTile_def bind_eq_Some_conv split: if_splits)

text \<open>
  \<open>improved v S e e'\<close>: the entry \<open>e'\<close> is \<open>e\<close> or holds a value of \<open>S\<close> with its index, and it is at least
  as good as \<open>e\<close> and as every value of \<open>S\<close>.
\<close>

definition improved :: "(int \<Rightarrow> fp) \<Rightarrow> int set \<Rightarrow> mp_entry \<Rightarrow> mp_entry \<Rightarrow> bool" where
  "improved v S e e' \<longleftrightarrow> (e' = e \<or> (\<exists>y \<in> S. floats0 e' = v y \<and> ints1 e' = word_of_int y))
     \<and> fle (floats0 e) (floats0 e') \<and> (\<forall>y \<in> S. fle (v y) (floats0 e'))"

lemma improved_refl: "\<not> is_nan (floats0 e) \<Longrightarrow> improved v {} e e"
  by (simp add: improved_def)

lemma improved_trans: "improved v S e e' \<Longrightarrow> improved v S' e' e'' \<Longrightarrow> improved v (S \<union> S') e e''"
  unfolding improved_def by (auto intro: fle_trans)

lemma improved_cong:
  "S = S' \<Longrightarrow> (\<And>y. y \<in> S \<Longrightarrow> v y = v' y) \<Longrightarrow> improved v S e e' \<longleftrightarrow> improved v' S' e e'"
  unfolding improved_def by auto

lemma improved_not_nan: "improved v S e e' \<Longrightarrow> \<not> is_nan (floats0 e')"
  by (auto simp: improved_def dest: fle_not_nan)

lemma best_entry_improved:
  assumes "best_entry v b e S e'" "\<not> is_nan (floats0 e)" "\<And>s. s \<in> S \<Longrightarrow> \<not> is_nan (v s)"
    and "\<And>s. s \<in> S \<Longrightarrow> v s = u (cell_match b s)"
  shows "improved u (cell_match b ` S) e e'"
  using assms unfolding best_entry_def improved_def
  by (auto simp: not_flt flt_imp_fle)

lemma kernel_1NN_INDEX:
  assumes sl: "kernel_slices P nP p Q nQ q w args cov"
    and gate: "k_n_x args \<le> k_exclusion_lower args + k_exclusion_upper args \<Longrightarrow> valid args = {}"
    and len: "k_n_x args \<le> int (length A)" "k_n_y args \<le> int (length B)"
    and nan: "cols \<Longrightarrow> \<forall>k < nat (k_n_x args). \<not> is_nan (floats0 (A ! k))"
      "rows \<Longrightarrow> \<forall>k < nat (k_n_y args). \<not> is_nan (floats0 (B ! k))"
    and info: "op_profile_type info = PROFILE_TYPE_1NN_INDEX" "op_fp_type info = PRECISION_DOUBLE" "eigen_max_contract eig"
  shows "\<exists>cov' A' B'. dispatch exact_fpu eig args info rows cols (cov, Dev_entry A, Dev_entry B)
      = Some (SCAMP_NO_ERROR, cov', Dev_entry A', Dev_entry B')
    \<and> length cov' = length cov \<and> length A' = length A \<and> length B' = length B
    \<and> (if cols then \<forall>k < nat (k_n_x args). improved (\<lambda>y. pair_value P nP Q nQ w (p + k) (q + nat y)) {r. (r, int k) \<in> valid args} (A ! k) (A' ! k)
       else A' = A)
    \<and> (if rows then \<forall>k < nat (k_n_y args). improved (\<lambda>y. pair_value P nP Q nQ w (p + nat y) (q + k)) {c. (int k, c) \<in> valid args} (B ! k) (B' ! k)
       else B' = B)"
proof -
  let ?ops = "ops_1NN_INDEX exact_fpu eig unrollWid"
  let ?v = "corr_at exact_fpu ?ops args cov"
  have ops: "dist_cast ?ops = (\<lambda>x. x)" "dist_init ?ops = Fin (-2)"
    by (auto simp: ops_1NN_INDEX_def init_dist_def)
  have v: "?v (r, c) = pair_value P nP Q nQ w (p + nat c) (q + nat r)" if "(r, c) \<in> valid args" for r c
    by (rule kernel_corr [OF sl that ops])
  show ?thesis
  proof (cases "k_exclusion_lower args + k_exclusion_upper args < k_n_x args")
    case False
    then have "valid args = {}" by (intro gate) simp
    then show ?thesis
      using False nan by (auto simp: dispatch_def dispatch_kernel_baseline_def compute_cpu_resources_and_launch_def improved_refl)
  next
    case True
    have good: "good_max eig unrollWid args ?v"
      using info(3) v by (intro good_max_launch) (auto intro!: finite_not_nan pair_value_finite)
    have "\<exists>cov' A' B'. launch_as as_entry Dev_entry (LaunchDoTile exact_fpu ?ops unrollWid (op_fp_type info) rows cols args)
          (cov, Dev_entry A, Dev_entry B) = Some (SCAMP_NO_ERROR, cov', Dev_entry A', Dev_entry B')
        \<and> launched args rows cols (best_entry ?v) A B A' B'"
      by (rule launch_index [OF nn_index.kernel_profile_axioms kernel_slices_args_ok [OF sl] good len]) (simp_all add: info)
    then obtain cov' A' B' where l: "launch_as as_entry Dev_entry (LaunchDoTile exact_fpu ?ops unrollWid (op_fp_type info) rows cols args)
          (cov, Dev_entry A, Dev_entry B) = Some (SCAMP_NO_ERROR, cov', Dev_entry A', Dev_entry B')"
        and r: "launched args rows cols (best_entry ?v) A B A' B'"
      by blast
    have "improved (\<lambda>y. pair_value P nP Q nQ w (p + k) (q + nat y)) {r. (r, int k) \<in> valid args} (A ! k) (A' ! k)"
      if "cols" "k < nat (k_n_x args)" for k
    proof -
      have "k < length A" using that(2) len(1) by linarith
      then      have "best_entry ?v False (A ! k) (column_of args (int k)) (A' ! k)" using r that by (simp add: launched_def)
      then have "improved (\<lambda>y. pair_value P nP Q nQ w (p + k) (q + nat y)) (cell_match False ` column_of args (int k)) (A ! k) (A' ! k)"
        by (rule best_entry_improved)
          (use nan that v in \<open>auto simp: column_of_def cell_match_def intro!: finite_not_nan pair_value_finite\<close>)
      moreover have "cell_match False ` column_of args (int k) = {r. (r, int k) \<in> valid args}"
        by (force simp: column_of_def cell_match_def)
      ultimately show ?thesis by simp
    qed
    moreover have "improved (\<lambda>y. pair_value P nP Q nQ w (p + nat y) (q + k)) {c. (int k, c) \<in> valid args} (B ! k) (B' ! k)"
      if "rows" "k < nat (k_n_y args)" for k
    proof -
      have "k < length B" using that(2) len(2) by linarith
      then      have "best_entry ?v True (B ! k) (row_of args (int k)) (B' ! k)" using r that by (simp add: launched_def)
      then have "improved (\<lambda>y. pair_value P nP Q nQ w (p + nat y) (q + k)) (cell_match True ` row_of args (int k)) (B ! k) (B' ! k)"
        by (rule best_entry_improved)
          (use nan that v in \<open>auto simp: row_of_def cell_match_def intro!: finite_not_nan pair_value_finite\<close>)
      moreover have "cell_match True ` row_of args (int k) = {c. (int k, c) \<in> valid args}"
        by (force simp: row_of_def cell_match_def)
      ultimately show ?thesis by simp
    qed
    ultimately show ?thesis
      using True l r launch_length [OF l] info(1)
      by (auto simp: dispatch_def dispatch_kernel_baseline_def compute_cpu_resources_and_launch_def launched_def)
  qed
qed

subsection \<open>A loaded tile\<close>

definition tile_loaded :: "OpInfo \<Rightarrow> real list \<Rightarrow> bool list \<Rightarrow> real list \<Rightarrow> bool list \<Rightarrow> Tile \<Rightarrow> bool" where
  "tile_loaded info xs nx ys ny t \<longleftrightarrow>
     (let w = nat (op_mp_window info); c = nat (current_tile_col t); r = nat (current_tile_row t);
          tw = nat (current_tile_width t); th = nat (current_tile_height t);
          mx = nat (tile_n_x info t); my = nat (tile_n_y info t);
          a = exact_stats xs nx w; b = exact_stats ys ny w
      in 0 < op_mp_window info \<and> op_mp_window info \<le> current_tile_width t \<and> op_mp_window info \<le> current_tile_height t
       \<and> 0 \<le> current_tile_col t \<and> 0 \<le> current_tile_row t \<and> c + tw \<le> length xs \<and> r + th \<le> length ys
       \<and> op_max_tile_width info = op_max_tile_ts_size info - op_mp_window info + 1
       \<and> current_tile_width t \<le> op_max_tile_ts_size info \<and> current_tile_height t \<le> op_max_tile_ts_size info
       \<and> tile_arch t = CPU_WORKER \<and> int (length (QT_dev t)) = op_max_tile_width info
       \<and> holds (T_A_dev t) (take tw (drop c xs)) \<and> int (length (T_A_dev t)) = op_max_tile_ts_size info
       \<and> holds (T_B_dev t) (take th (drop r ys)) \<and> int (length (T_B_dev t)) = op_max_tile_ts_size info
       \<and> is_slice (norms_A t) (norms a) c mx \<and> is_slice (df_A t) (df a) c mx \<and> is_slice (dg_A t) (dg a) c mx
       \<and> is_slice (norms_B t) (norms b) r my \<and> is_slice (df_B t) (df b) r my \<and> is_slice (dg_B t) (dg b) r my
       \<and> (has_nan_input t \<or> (\<forall>k < mx. \<not> bad_window xs nx w (c + k)) \<and> (\<forall>k < my. \<not> bad_window ys ny w (r + k))))"

lemma cdot_slices:
  assumes "i + w \<le> n" "p + n \<le> length xs" "w \<le> m" "q + m \<le> length ys"
  shows "cdot (take n (drop p xs)) (take m (drop q ys)) w i 0 = cdot xs ys w (p + i) q"
proof -
  have "wmean (take n (drop p xs)) w i = wmean xs w (p + i)" "wmean (take m (drop q ys)) w 0 = wmean ys w q"
    unfolding wmean_def using assms by (simp_all add: add.assoc cong: sum.cong_simp)
  then show ?thesis
    unfolding cdot_def using assms by (intro sum.cong) (simp_all add: add.assoc)
qed

lemma tile_QT:
  assumes "holds T (take n (drop p xs))" "holds Q (take m (drop q ys))" "int (length T) = sz" "0 < w"
    and "nat w \<le> n" "nat w \<le> m" "p + n \<le> length xs" "q + m \<le> length ys" "int (length QT) = sz - w + 1"
  shows "\<exists>QT'. compute_QT_CPU exact sz w QT T Q = Some QT' \<and> length QT' = length QT
    \<and> (\<forall>d \<le> n - nat w. QT' ! d = Fin (cdot xs ys (nat w) (p + d) q))"
proof -
  have len: "length (take n (drop p xs)) = n" "length (take m (drop q ys)) = m" using assms(7,8) by auto
  have n: "n \<le> length T" using assms(1) len by (simp add: holds_def)
  have "\<exists>QT'. compute_QT_CPU exact (int (length T)) (int (nat w)) QT T Q = Some QT' \<and> length QT' = length QT
    \<and> (\<forall>i. i + nat w \<le> length (take n (drop p xs)) \<longrightarrow> QT' ! i = Fin (cdot (take n (drop p xs)) (take m (drop q ys)) (nat w) i 0))"
    by (rule compute_QT_CPU_exact [OF assms(1) refl assms(2)]) (use assms(3-9) len n in auto)
  then show ?thesis
    using assms(3-8) len by (auto simp: cdot_slices)
qed

lemma tile_loaded_QT [simp]: "length q = length (QT_dev t) \<Longrightarrow>
    tile_loaded info xs nx ys ny (t\<lparr>QT_dev := q, profile_a_tile_dev := a, profile_b_tile_dev := b\<rparr>) = tile_loaded info xs nx ys ny t"
  by (simp add: tile_loaded_def Let_def tile_n_x_def tile_n_y_def)

text \<open>The exclusions of a launch: not negative, and the launch is skipped only if it has no cell.\<close>

definition exclusion_ok :: "int \<Rightarrow> int \<Rightarrow> int \<times> int \<Rightarrow> bool" where
  "exclusion_ok n_x n_y e \<longleftrightarrow> 0 \<le> fst e \<and> 0 \<le> snd e \<and> (n_x \<le> fst e + snd e \<longrightarrow> diag_region n_x n_y e = {})"

definition exclusion_of :: "OpInfo \<Rightarrow> Tile \<Rightarrow> bool \<Rightarrow> bool \<Rightarrow> int \<times> int" where
  "exclusion_of info t ab_join upper =
     (if ab_join then get_exclusion_for_ab_join info t upper else get_exclusion_for_self_join info t upper)"

definition upper_region :: "OpInfo \<Rightarrow> bool \<Rightarrow> Tile \<Rightarrow> cell set" where
  "upper_region info ab t = diag_region (tile_n_x info t) (tile_n_y info t) (exclusion_of info t ab True)"

definition lower_region :: "OpInfo \<Rightarrow> bool \<Rightarrow> Tile \<Rightarrow> cell set" where
  "lower_region info ab t = {(r, c). (c, r) \<in> diag_region (tile_n_y info t) (tile_n_x info t) (exclusion_of info t ab False)}"

lemma valid_region:
  "valid (SCAMPKernelInputArgs info t False ab) = upper_region info ab t"
  "(r, c) \<in> valid (SCAMPKernelInputArgs info t True ab) \<longleftrightarrow> (c, r) \<in> lower_region info ab t"
  by (auto simp: valid_def upper_region_def lower_region_def diag_region_def SCAMPKernelInputArgs_def exclusion_of_def
      tile_n_x_def tile_n_y_def Let_def)

lemma args_fields:
  "k_exclusion_lower (SCAMPKernelInputArgs info t tr ab) = fst (exclusion_of info t ab (\<not> tr))"
  "k_exclusion_upper (SCAMPKernelInputArgs info t tr ab) = snd (exclusion_of info t ab (\<not> tr))"
  "k_n_x (SCAMPKernelInputArgs info t tr ab) = (if tr then tile_n_y info t else tile_n_x info t)"
  "k_n_y (SCAMPKernelInputArgs info t tr ab) = (if tr then tile_n_x info t else tile_n_y info t)"
  by (simp_all add: SCAMPKernelInputArgs_def exclusion_of_def tile_n_x_def tile_n_y_def Let_def)

lemma upper_slices:
  assumes L: "tile_loaded info xs nx ys ny t" and E: "exclusion_ok (tile_n_x info t) (tile_n_y info t) (exclusion_of info t ab True)"
    and q: "length q = length (QT_dev t)"
      "\<forall>d \<le> nat (current_tile_width t) - nat (op_mp_window info). q ! d =
         Fin (cdot xs ys (nat (op_mp_window info)) (nat (current_tile_col t) + d) (nat (current_tile_row t)))"
  shows "kernel_slices xs nx (nat (current_tile_col t)) ys ny (nat (current_tile_row t)) (nat (op_mp_window info))
    (SCAMPKernelInputArgs info t False ab) q"
proof -
  have n: "k_n_x (SCAMPKernelInputArgs info t False ab) = tile_n_x info t" "k_n_y (SCAMPKernelInputArgs info t False ab) = tile_n_y info t"
    by (simp_all add: SCAMPKernelInputArgs_def tile_n_x_def tile_n_y_def Let_def)
  have e: "k_exclusion_lower (SCAMPKernelInputArgs info t False ab) = fst (exclusion_of info t ab True)"
    "k_exclusion_upper (SCAMPKernelInputArgs info t False ab) = snd (exclusion_of info t ab True)"
    by (simp_all add: SCAMPKernelInputArgs_def exclusion_of_def Let_def)
  have f: "k_normsa (SCAMPKernelInputArgs info t False ab) = norms_A t" "k_normsb (SCAMPKernelInputArgs info t False ab) = norms_B t"
    "k_dfa (SCAMPKernelInputArgs info t False ab) = df_A t" "k_dfb (SCAMPKernelInputArgs info t False ab) = df_B t"
    "k_dga (SCAMPKernelInputArgs info t False ab) = dg_A t" "k_dgb (SCAMPKernelInputArgs info t False ab) = dg_B t"
    "k_has_nan_input (SCAMPKernelInputArgs info t False ab) = has_nan_input t"
    by (simp_all add: SCAMPKernelInputArgs_def Let_def)
  have w: "0 < op_mp_window info" using L by (simp add: tile_loaded_def Let_def)
  have d: "d \<le> nat (current_tile_width t) - nat (op_mp_window info)" if "d < nat (tile_n_x info t)" for d
    using that w by (simp add: tile_n_x_def)
  have len: "nat (tile_n_x info t) \<le> length q"
    using L q(1) by (simp add: tile_loaded_def Let_def tile_n_x_def nat_le_iff)
  have b: "0 < tile_n_x info t" "0 < tile_n_y info t" "0 < nat (op_mp_window info)"
      "nat (op_mp_window info) \<le> length xs" "nat (op_mp_window info) \<le> length ys"
    using L by (auto simp: tile_loaded_def Let_def tile_n_x_def tile_n_y_def)
  show ?thesis
    using L [unfolded tile_loaded_def Let_def] E [unfolded exclusion_ok_def] q(2) d len b
    unfolding kernel_slices_def n e f Let_def by blast
qed

lemma lower_slices:
  assumes L: "tile_loaded info xs nx ys ny t" and E: "exclusion_ok (tile_n_y info t) (tile_n_x info t) (exclusion_of info t ab False)"
    and q: "length q = length (QT_dev t)"
      "\<forall>d \<le> nat (current_tile_height t) - nat (op_mp_window info). q ! d =
         Fin (cdot ys xs (nat (op_mp_window info)) (nat (current_tile_row t) + d) (nat (current_tile_col t)))"
  shows "kernel_slices ys ny (nat (current_tile_row t)) xs nx (nat (current_tile_col t)) (nat (op_mp_window info))
    (SCAMPKernelInputArgs info t True ab) q"
proof -
  have n: "k_n_x (SCAMPKernelInputArgs info t True ab) = tile_n_y info t" "k_n_y (SCAMPKernelInputArgs info t True ab) = tile_n_x info t"
    by (simp_all add: SCAMPKernelInputArgs_def tile_n_x_def tile_n_y_def Let_def)
  have e: "k_exclusion_lower (SCAMPKernelInputArgs info t True ab) = fst (exclusion_of info t ab False)"
    "k_exclusion_upper (SCAMPKernelInputArgs info t True ab) = snd (exclusion_of info t ab False)"
    by (simp_all add: SCAMPKernelInputArgs_def exclusion_of_def Let_def)
  have f: "k_normsa (SCAMPKernelInputArgs info t True ab) = norms_B t" "k_normsb (SCAMPKernelInputArgs info t True ab) = norms_A t"
    "k_dfa (SCAMPKernelInputArgs info t True ab) = df_B t" "k_dfb (SCAMPKernelInputArgs info t True ab) = df_A t"
    "k_dga (SCAMPKernelInputArgs info t True ab) = dg_B t" "k_dgb (SCAMPKernelInputArgs info t True ab) = dg_A t"
    "k_has_nan_input (SCAMPKernelInputArgs info t True ab) = has_nan_input t"
    by (simp_all add: SCAMPKernelInputArgs_def Let_def)
  have w: "0 < op_mp_window info" using L by (simp add: tile_loaded_def Let_def)
  have d: "d \<le> nat (current_tile_height t) - nat (op_mp_window info)" if "d < nat (tile_n_y info t)" for d
    using that w by (simp add: tile_n_y_def)
  have len: "nat (tile_n_y info t) \<le> length q"
    using L q(1) by (simp add: tile_loaded_def Let_def tile_n_y_def nat_le_iff)
  have b: "0 < tile_n_x info t" "0 < tile_n_y info t" "0 < nat (op_mp_window info)"
      "nat (op_mp_window info) \<le> length xs" "nat (op_mp_window info) \<le> length ys"
    using L by (auto simp: tile_loaded_def Let_def tile_n_x_def tile_n_y_def)
  show ?thesis
    using L [unfolded tile_loaded_def Let_def] E [unfolded exclusion_ok_def] q(2) d len b
    unfolding kernel_slices_def n e f Let_def by blast
qed

text \<open>
  The effect of a launch on a tile: the entries of the profiles improve by the cells looked at, and
  nothing else but the covariances changes.
\<close>

definition col_value :: "OpInfo \<Rightarrow> real list \<Rightarrow> bool list \<Rightarrow> real list \<Rightarrow> bool list \<Rightarrow> Tile \<Rightarrow> int \<Rightarrow> int \<Rightarrow> fp" where
  "col_value info xs nx ys ny t = (\<lambda>k y. pair_value xs nx ys ny (nat (op_mp_window info))
     (nat (current_tile_col t) + nat k) (nat (current_tile_row t) + nat y))"

definition entries_ok :: "OpInfo \<Rightarrow> Tile \<Rightarrow> mp_entry list \<Rightarrow> mp_entry list \<Rightarrow> bool" where
  "entries_ok info t A B \<longleftrightarrow> profile_a_tile_dev t = Dev_entry A \<and> profile_b_tile_dev t = Dev_entry B
     \<and> tile_n_x info t \<le> int (length A) \<and> tile_n_y info t \<le> int (length B)
     \<and> (op_computing_cols info \<longrightarrow> (\<forall>k < nat (tile_n_x info t). \<not> is_nan (floats0 (A ! k))))
     \<and> (op_computing_rows info \<longrightarrow> (\<forall>k < nat (tile_n_y info t). \<not> is_nan (floats0 (B ! k))))"

definition entries_improved ::
  "OpInfo \<Rightarrow> Tile \<Rightarrow> (int \<Rightarrow> int \<Rightarrow> fp) \<Rightarrow> cell set \<Rightarrow> mp_entry list \<Rightarrow> mp_entry list \<Rightarrow> mp_entry list \<Rightarrow> mp_entry list \<Rightarrow> bool" where
  "entries_improved info t v C A B A' B' \<longleftrightarrow> length A' = length A \<and> length B' = length B
     \<and> (if op_computing_cols info then \<forall>k < nat (tile_n_x info t). improved (\<lambda>y. v (int k) y) {r. (r, int k) \<in> C} (A ! k) (A' ! k) else A' = A)
     \<and> (if op_computing_rows info then \<forall>k < nat (tile_n_y info t). improved (\<lambda>y. v y (int k)) {c. (int k, c) \<in> C} (B ! k) (B' ! k) else B' = B)"

lemma entries_improved_trans:
  assumes "entries_improved info t v C A B A1 B1" "entries_improved info t v C' A1 B1 A2 B2"
  shows "entries_improved info t v (C \<union> C') A B A2 B2"
proof -
  have sets: "{r. (r, k) \<in> C \<union> C'} = {r. (r, k) \<in> C} \<union> {r. (r, k) \<in> C'}"
    "{c. (k, c) \<in> C \<union> C'} = {c. (k, c) \<in> C} \<union> {c. (k, c) \<in> C'}" for k
    by auto
  have comp: "\<forall>k < n. improved (u k) (S k \<union> S' k) (X ! k) (Z ! k)"
    if "\<forall>k < n. improved (u k) (S k) (X ! k) (Y ! k)" "\<forall>k < n. improved (u k) (S' k) (Y ! k) (Z ! k)"
    for n u S S' X Y Z
    using that improved_trans by blast
  show ?thesis
    using assms comp [of "nat (tile_n_x info t)" "\<lambda>k. v (int k)" "\<lambda>k. {r. (r, int k) \<in> C}" A A1 "\<lambda>k. {r. (r, int k) \<in> C'}" A2]
      comp [of "nat (tile_n_y info t)" "\<lambda>k y. v y (int k)" "\<lambda>k. {c. (int k, c) \<in> C}" B B1 "\<lambda>k. {c. (int k, c) \<in> C'}" B2]
    unfolding entries_improved_def sets
    by (simp split: if_splits)
qed

lemma entries_improved_length: "entries_improved info t v C A B A' B' \<Longrightarrow> length A' = length A \<and> length B' = length B"
  by (simp add: entries_improved_def)

lemma entries_improved_nan:
  assumes "entries_improved info t v C A B A' B'"
  shows "op_computing_cols info \<Longrightarrow> \<forall>k < nat (tile_n_x info t). \<not> is_nan (floats0 (A' ! k))"
    "op_computing_rows info \<Longrightarrow> \<forall>k < nat (tile_n_y info t). \<not> is_nan (floats0 (B' ! k))"
  using assms improved_not_nan unfolding entries_improved_def by (simp_all, blast+)

definition type_ok :: "OpInfo \<Rightarrow> eigen \<Rightarrow> bool" where
  "type_ok info eig \<longleftrightarrow> op_profile_type info = PROFILE_TYPE_1NN_INDEX \<and> op_fp_type info = PRECISION_DOUBLE \<and> eigen_max_contract eig"

lemma run_upper_correct:
  assumes L: "tile_loaded info xs nx ys ny t" and E: "exclusion_ok (tile_n_x info t) (tile_n_y info t) (exclusion_of info t ab True)"
    and A: "entries_ok info t A B" and T: "type_ok info eig"
  shows "\<exists>q A' B'. (do { t1 \<leftarrow> QT_upper exact_fpu info t; run_upper exact_fpu eig info ab t1 })
      = Some (SCAMP_NO_ERROR, t\<lparr>QT_dev := q, profile_a_tile_dev := Dev_entry A', profile_b_tile_dev := Dev_entry B'\<rparr>)
    \<and> length q = length (QT_dev t) \<and> entries_improved info t (col_value info xs nx ys ny t) (upper_region info ab t) A B A' B'"
proof -
  have "\<exists>q. compute_QT_CPU exact (op_max_tile_ts_size info) (op_mp_window info) (QT_dev t) (T_A_dev t) (T_B_dev t) = Some q
    \<and> length q = length (QT_dev t)
    \<and> (\<forall>d \<le> nat (current_tile_width t) - nat (op_mp_window info). q ! d =
         Fin (cdot xs ys (nat (op_mp_window info)) (nat (current_tile_col t) + d) (nat (current_tile_row t))))"
    by (rule tile_QT [where m = "nat (current_tile_height t)"]) (use L in \<open>simp_all add: tile_loaded_def Let_def nat_mono\<close>)
  then obtain q where q: "compute_QT_CPU exact (op_max_tile_ts_size info) (op_mp_window info) (QT_dev t) (T_A_dev t) (T_B_dev t) = Some q"
      and ql: "length q = length (QT_dev t)"
      and qv: "\<forall>d \<le> nat (current_tile_width t) - nat (op_mp_window info). q ! d =
         Fin (cdot xs ys (nat (op_mp_window info)) (nat (current_tile_col t) + d) (nat (current_tile_row t)))"
    by blast
  have args: "SCAMPKernelInputArgs info (t\<lparr>QT_dev := q\<rparr>) False ab = SCAMPKernelInputArgs info t False ab"
    by (simp add: SCAMPKernelInputArgs_def Let_def get_exclusion_for_ab_join_def get_exclusion_for_self_join_def global_start_def)
  note sl = upper_slices [OF L E ql qv]
  have gate: "valid (SCAMPKernelInputArgs info t False ab) = {}"
    if "k_n_x (SCAMPKernelInputArgs info t False ab) \<le> k_exclusion_lower (SCAMPKernelInputArgs info t False ab)
        + k_exclusion_upper (SCAMPKernelInputArgs info t False ab)"
    using E that unfolding valid_region args_fields by (simp add: exclusion_ok_def upper_region_def)
  obtain q' A' B' where k: "dispatch exact_fpu eig (SCAMPKernelInputArgs info t False ab) info (op_computing_rows info) (op_computing_cols info)
        (q, Dev_entry A, Dev_entry B) = Some (SCAMP_NO_ERROR, q', Dev_entry A', Dev_entry B')" "length q' = length q"
      and i: "length A' = length A" "length B' = length B"
      "if op_computing_cols info then \<forall>k < nat (tile_n_x info t). improved (\<lambda>y. pair_value xs nx ys ny (nat (op_mp_window info)) (nat (current_tile_col t) + k)
           (nat (current_tile_row t) + nat y)) {r. (r, int k) \<in> upper_region info ab t} (A ! k) (A' ! k) else A' = A"
      "if op_computing_rows info then \<forall>k < nat (tile_n_y info t). improved (\<lambda>y. pair_value xs nx ys ny (nat (op_mp_window info)) (nat (current_tile_col t) + nat y)
           (nat (current_tile_row t) + k)) {c. (int k, c) \<in> upper_region info ab t} (B ! k) (B' ! k) else B' = B"
    using kernel_1NN_INDEX [OF sl gate, where A = A and B = B and info = info and eig = eig and rows = "op_computing_rows info" and cols = "op_computing_cols info"] A T
    unfolding valid_region args_fields if_True if_False
    by (auto simp: entries_ok_def type_ok_def)
  have "entries_improved info t (col_value info xs nx ys ny t) (upper_region info ab t) A B A' B'"
    using i by (simp add: entries_improved_def col_value_def)
  then show ?thesis
    using q k A ql by (auto simp: QT_upper_def run_upper_def args entries_ok_def)
qed

lemma run_lower_correct:
  assumes L: "tile_loaded info xs nx ys ny t" and E: "exclusion_ok (tile_n_y info t) (tile_n_x info t) (exclusion_of info t ab False)"
    and A: "entries_ok info t A B" and T: "type_ok info eig"
  shows "\<exists>q A' B'. (do { t1 \<leftarrow> QT_lower exact_fpu info t; run_lower exact_fpu eig info ab t1 })
      = Some (SCAMP_NO_ERROR, t\<lparr>QT_dev := q, profile_a_tile_dev := Dev_entry A', profile_b_tile_dev := Dev_entry B'\<rparr>)
    \<and> length q = length (QT_dev t) \<and> entries_improved info t (col_value info xs nx ys ny t) (lower_region info ab t) A B A' B'"
proof -
  have "\<exists>q. compute_QT_CPU exact (op_max_tile_ts_size info) (op_mp_window info) (QT_dev t) (T_B_dev t) (T_A_dev t) = Some q
    \<and> length q = length (QT_dev t)
    \<and> (\<forall>d \<le> nat (current_tile_height t) - nat (op_mp_window info). q ! d =
         Fin (cdot ys xs (nat (op_mp_window info)) (nat (current_tile_row t) + d) (nat (current_tile_col t))))"
    by (rule tile_QT [where m = "nat (current_tile_width t)"]) (use L in \<open>simp_all add: tile_loaded_def Let_def nat_mono\<close>)
  then obtain q where q: "compute_QT_CPU exact (op_max_tile_ts_size info) (op_mp_window info) (QT_dev t) (T_B_dev t) (T_A_dev t) = Some q"
      and ql: "length q = length (QT_dev t)"
      and qv: "\<forall>d \<le> nat (current_tile_height t) - nat (op_mp_window info). q ! d =
         Fin (cdot ys xs (nat (op_mp_window info)) (nat (current_tile_row t) + d) (nat (current_tile_col t)))"
    by blast
  have args: "SCAMPKernelInputArgs info (t\<lparr>QT_dev := q\<rparr>) True ab = SCAMPKernelInputArgs info t True ab"
    by (simp add: SCAMPKernelInputArgs_def Let_def get_exclusion_for_ab_join_def get_exclusion_for_self_join_def global_start_def)
  note sl = lower_slices [OF L E ql qv]
  have region: "{s. s \<in> valid (SCAMPKernelInputArgs info t True ab)} = {(r, c). (c, r) \<in> lower_region info ab t}"
    by (auto simp: valid_region)
  have gate: "valid (SCAMPKernelInputArgs info t True ab) = {}"
    if "k_n_x (SCAMPKernelInputArgs info t True ab) \<le> k_exclusion_lower (SCAMPKernelInputArgs info t True ab)
        + k_exclusion_upper (SCAMPKernelInputArgs info t True ab)"
    using E that region unfolding args_fields by (simp add: exclusion_ok_def lower_region_def)
  obtain q' A' B' where k: "dispatch exact_fpu eig (SCAMPKernelInputArgs info t True ab) info (op_computing_cols info) (op_computing_rows info)
        (q, Dev_entry B, Dev_entry A) = Some (SCAMP_NO_ERROR, q', Dev_entry B', Dev_entry A')" "length q' = length q"
      and i: "length B' = length B" "length A' = length A"
      "if op_computing_rows info then \<forall>k < nat (tile_n_y info t). improved (\<lambda>y. pair_value ys ny xs nx (nat (op_mp_window info)) (nat (current_tile_row t) + k)
           (nat (current_tile_col t) + nat y)) {r. (int k, r) \<in> lower_region info ab t} (B ! k) (B' ! k) else B' = B"
      "if op_computing_cols info then \<forall>k < nat (tile_n_x info t). improved (\<lambda>y. pair_value ys ny xs nx (nat (op_mp_window info)) (nat (current_tile_row t) + nat y)
           (nat (current_tile_col t) + k)) {c. (c, int k) \<in> lower_region info ab t} (A ! k) (A' ! k) else A' = A"
    using kernel_1NN_INDEX [OF sl gate, where A = B and B = A and info = info and eig = eig and rows = "op_computing_cols info" and cols = "op_computing_rows info"] A T
    unfolding valid_region args_fields if_True if_False
    by (auto simp: entries_ok_def type_ok_def)
  have "entries_improved info t (col_value info xs nx ys ny t) (lower_region info ab t) A B A' B'"
    using i unfolding pair_value_commute [of ys ny xs nx] by (simp add: entries_improved_def col_value_def)
  then show ?thesis
    using q k A ql by (auto simp: QT_lower_def run_lower_def args entries_ok_def)
qed

subsection \<open>Executing a tile\<close>

text \<open>The cells the kernels of a tile look at, relative to the tile.\<close>

definition executed_region :: "OpInfo \<Rightarrow> SCAMPTileType \<Rightarrow> Tile \<Rightarrow> cell set" where
  "executed_region info ty t = (case ty of
     SELF_JOIN_UPPER_TRIANGULAR \<Rightarrow> upper_region info False t
   | SELF_JOIN_FULL_TILE \<Rightarrow> upper_region info False t \<union> lower_region info False t
   | _ \<Rightarrow> upper_region info True t \<union> lower_region info True t)"

definition is_ab_tile :: "SCAMPTileType \<Rightarrow> bool" where
  "is_ab_tile ty \<longleftrightarrow> ty = AB_JOIN_FULL_TILE \<or> ty = AB_FULL_JOIN_FULL_TILE"

definition exclusions_ok :: "OpInfo \<Rightarrow> SCAMPTileType \<Rightarrow> Tile \<Rightarrow> bool" where
  "exclusions_ok info ty t \<longleftrightarrow>
     exclusion_ok (tile_n_x info t) (tile_n_y info t) (exclusion_of info t (is_ab_tile ty) True)
     \<and> (ty \<noteq> SELF_JOIN_UPPER_TRIANGULAR \<longrightarrow>
          exclusion_ok (tile_n_y info t) (tile_n_x info t) (exclusion_of info t (is_ab_tile ty) False))"

lemma tile_update_irrelevant [simp]:
  "tile_n_x info (t\<lparr>QT_dev := q, profile_a_tile_dev := a, profile_b_tile_dev := b\<rparr>) = tile_n_x info t"
  "tile_n_y info (t\<lparr>QT_dev := q, profile_a_tile_dev := a, profile_b_tile_dev := b\<rparr>) = tile_n_y info t"
  "exclusion_of info (t\<lparr>QT_dev := q, profile_a_tile_dev := a, profile_b_tile_dev := b\<rparr>) ab up = exclusion_of info t ab up"
  "lower_region info ab (t\<lparr>QT_dev := q, profile_a_tile_dev := a, profile_b_tile_dev := b\<rparr>) = lower_region info ab t"
  "col_value info xs nx ys ny (t\<lparr>QT_dev := q, profile_a_tile_dev := a, profile_b_tile_dev := b\<rparr>) = col_value info xs nx ys ny t"
  by (simp_all add: tile_n_x_def tile_n_y_def exclusion_of_def lower_region_def col_value_def fun_eq_iff
      get_exclusion_for_ab_join_def get_exclusion_for_self_join_def global_start_def Let_def)

lemma entries_improved_update [simp]:
  "entries_improved info (t\<lparr>QT_dev := q, profile_a_tile_dev := a, profile_b_tile_dev := b\<rparr>) = entries_improved info t"
  by (simp add: fun_eq_iff entries_improved_def)

lemma run_both_correct:
  assumes L: "tile_loaded info xs nx ys ny t"
    and E: "exclusion_ok (tile_n_x info t) (tile_n_y info t) (exclusion_of info t ab True)"
      "exclusion_ok (tile_n_y info t) (tile_n_x info t) (exclusion_of info t ab False)"
    and A: "entries_ok info t A B" and T: "type_ok info eig"
  shows "\<exists>q A' B' q1 A1 B1. (do { t1 \<leftarrow> QT_upper exact_fpu info t; run_upper exact_fpu eig info ab t1 })
      = Some (SCAMP_NO_ERROR, t\<lparr>QT_dev := q1, profile_a_tile_dev := Dev_entry A1, profile_b_tile_dev := Dev_entry B1\<rparr>)
    \<and> (do { t2 \<leftarrow> QT_lower exact_fpu info (t\<lparr>QT_dev := q1, profile_a_tile_dev := Dev_entry A1, profile_b_tile_dev := Dev_entry B1\<rparr>);
           run_lower exact_fpu eig info ab t2 })
      = Some (SCAMP_NO_ERROR, t\<lparr>QT_dev := q, profile_a_tile_dev := Dev_entry A', profile_b_tile_dev := Dev_entry B'\<rparr>)
    \<and> length q = length (QT_dev t)
    \<and> entries_improved info t (col_value info xs nx ys ny t) (upper_region info ab t \<union> lower_region info ab t) A B A' B'"
proof -
  obtain q1 A1 B1 where u: "(do { t1 \<leftarrow> QT_upper exact_fpu info t; run_upper exact_fpu eig info ab t1 })
      = Some (SCAMP_NO_ERROR, t\<lparr>QT_dev := q1, profile_a_tile_dev := Dev_entry A1, profile_b_tile_dev := Dev_entry B1\<rparr>)"
      "length q1 = length (QT_dev t)" "entries_improved info t (col_value info xs nx ys ny t) (upper_region info ab t) A B A1 B1"
    using run_upper_correct [OF L E(1) A T] by blast
  let ?t = "t\<lparr>QT_dev := q1, profile_a_tile_dev := Dev_entry A1, profile_b_tile_dev := Dev_entry B1\<rparr>"
  have L1: "tile_loaded info xs nx ys ny ?t" using L u(2) by simp
  have A1: "entries_ok info ?t A1 B1"
    using A entries_improved_length [OF u(3)] entries_improved_nan [OF u(3)] by (simp add: entries_ok_def)
  have E1: "exclusion_ok (tile_n_y info ?t) (tile_n_x info ?t) (exclusion_of info ?t ab False)" using E(2) by simp
  obtain q2 A2 B2 where l: "(do { t2 \<leftarrow> QT_lower exact_fpu info ?t; run_lower exact_fpu eig info ab t2 })
      = Some (SCAMP_NO_ERROR, ?t\<lparr>QT_dev := q2, profile_a_tile_dev := Dev_entry A2, profile_b_tile_dev := Dev_entry B2\<rparr>)"
      "length q2 = length (QT_dev ?t)" "entries_improved info ?t (col_value info xs nx ys ny ?t) (lower_region info ab ?t) A1 B1 A2 B2"
    using run_lower_correct [OF L1 E1 A1 T] by blast
  have "entries_improved info t (col_value info xs nx ys ny t) (upper_region info ab t \<union> lower_region info ab t) A B A2 B2"
    by (rule entries_improved_trans [OF u(3)]) (use l(3) in simp)
  moreover have "length q2 = length (QT_dev t)" using l(2) u(2) by simp
  moreover have "?t\<lparr>QT_dev := q2, profile_a_tile_dev := Dev_entry A2, profile_b_tile_dev := Dev_entry B2\<rparr>
      = t\<lparr>QT_dev := q2, profile_a_tile_dev := Dev_entry A2, profile_b_tile_dev := Dev_entry B2\<rparr>" by simp
  ultimately show ?thesis using u(1) l(1) by metis
qed

lemma cpu_kernels_eq:
  "cpu_kernel_self_join_upper fpu eig info = run_upper fpu eig info False"
  "cpu_kernel_self_join_lower fpu eig info = run_lower fpu eig info False"
  "cpu_kernel_ab_join_upper fpu eig info = run_upper fpu eig info True"
  "cpu_kernel_ab_join_lower fpu eig info = run_lower fpu eig info True"
  by (simp_all add: fun_eq_iff cpu_kernel_self_join_upper_def cpu_kernel_self_join_lower_def
      cpu_kernel_ab_join_upper_def cpu_kernel_ab_join_lower_def)

lemma execute_correct:
  assumes L: "tile_loaded info xs nx ys ny t" and E: "exclusions_ok info ty t"
    and A: "entries_ok info t A B" and T: "type_ok info eig"
  shows "\<exists>q A' B'. execute exact_fpu eig info ty t
      = Inr (SCAMP_NO_ERROR, t\<lparr>QT_dev := q, profile_a_tile_dev := Dev_entry A', profile_b_tile_dev := Dev_entry B'\<rparr>)
    \<and> length q = length (QT_dev t)
    \<and> entries_improved info t (col_value info xs nx ys ny t) (executed_region info ty t) A B A' B'"
proof -
  have d: "\<not> op_mp_window info > current_tile_width t" "\<not> op_mp_window info > current_tile_height t" "tile_arch t = CPU_WORKER"
    using L by (auto simp: tile_loaded_def Let_def)
  show ?thesis
  proof (cases "ty = SELF_JOIN_UPPER_TRIANGULAR")
    case True
    then have "exclusion_ok (tile_n_x info t) (tile_n_y info t) (exclusion_of info t False True)"
      using E by (simp add: exclusions_ok_def is_ab_tile_def)
    from run_upper_correct [OF L this A T] obtain q A' B' where
        "(do { t1 \<leftarrow> QT_upper exact_fpu info t; run_upper exact_fpu eig info False t1 })
          = Some (SCAMP_NO_ERROR, t\<lparr>QT_dev := q, profile_a_tile_dev := Dev_entry A', profile_b_tile_dev := Dev_entry B'\<rparr>)"
        "length q = length (QT_dev t)" "entries_improved info t (col_value info xs nx ys ny t) (upper_region info False t) A B A' B'"
      by blast
    then show ?thesis
      using d True by (intro exI [of _ q] exI [of _ A'] exI [of _ B'])
        (simp add: executed_region_def do_self_join_half_def cpu_kernels_eq)
  next
    case False
    then have E': "exclusion_ok (tile_n_x info t) (tile_n_y info t) (exclusion_of info t (is_ab_tile ty) True)"
        "exclusion_ok (tile_n_y info t) (tile_n_x info t) (exclusion_of info t (is_ab_tile ty) False)"
      using E by (auto simp: exclusions_ok_def)
    obtain q A' B' q1 A1 B1 where r: "(do { t1 \<leftarrow> QT_upper exact_fpu info t; run_upper exact_fpu eig info (is_ab_tile ty) t1 })
        = Some (SCAMP_NO_ERROR, t\<lparr>QT_dev := q1, profile_a_tile_dev := Dev_entry A1, profile_b_tile_dev := Dev_entry B1\<rparr>)"
      "(do { t2 \<leftarrow> QT_lower exact_fpu info (t\<lparr>QT_dev := q1, profile_a_tile_dev := Dev_entry A1, profile_b_tile_dev := Dev_entry B1\<rparr>);
           run_lower exact_fpu eig info (is_ab_tile ty) t2 })
        = Some (SCAMP_NO_ERROR, t\<lparr>QT_dev := q, profile_a_tile_dev := Dev_entry A', profile_b_tile_dev := Dev_entry B'\<rparr>)"
      "length q = length (QT_dev t)"
      "entries_improved info t (col_value info xs nx ys ny t) (upper_region info (is_ab_tile ty) t \<union> lower_region info (is_ab_tile ty) t) A B A' B'"
      using run_both_correct [OF L E' A T] by blast
    then show ?thesis
      using d False
      by (cases ty) (auto simp: is_ab_tile_def executed_region_def do_self_join_full_def do_self_join_half_def do_ab_join_full_def
          cpu_kernels_eq)
  qed
qed

end
