(* ===== verification/OperationCorrect.thy ===== *)
theory OperationCorrect
  imports Operation TileCorrect ProfileFacts
begin

text \<open>
  A join of two series, in exact arithmetic: what \<open>do_join\<close> prepares, the memory of a worker, and a tile whose
  data are loaded. A self join is the join of a series with itself.
\<close>

subsection \<open>Preparation\<close>

definition reals_of :: "fp list \<Rightarrow> real list" where
  "reals_of T = map real_of_fp (clean_series T)"

lemma clean_series_reals: "clean_series T = map Fin (reals_of T)"
  by (simp add: reals_of_def clean_series_def)

lemma length_reals_of [simp]: "length (reals_of T) = length T"
  by (simp add: reals_of_def clean_series_def)

abbreviation nan_of :: "OpInfo \<Rightarrow> fp list \<Rightarrow> bool list" where
  "nan_of info T \<equiv> nan_windows T (nat (op_mp_window info))"

definition stats_of :: "OpInfo \<Rightarrow> fp list \<Rightarrow> PrecomputedInfo" where
  "stats_of info T = exact_stats (reals_of T) (nan_of info T) (nat (op_mp_window info))"

definition join_env :: "eigen \<Rightarrow> (nat \<Rightarrow> fp) \<Rightarrow> OpInfo \<Rightarrow> fp list \<Rightarrow> fp list \<Rightarrow> JoinEnv" where
  "join_env eig fresh info Ta Tb =
     \<lparr>je_fpu = exact_fpu, je_eigen = eig, je_fresh = fresh, je_info = info, je_timeseries_a = map Fin (reals_of Ta),
      je_timeseries_b = map Fin (reals_of Tb), je_precompA = stats_of info Ta, je_precompB = stats_of info Tb,
      je_precomp = empty_combined\<rparr>"

text \<open>The tiles of a join, and the inputs of one that computes columns.\<close>

definition join_tiles :: "OpInfo \<Rightarrow> work_item set" where
  "join_tiles info = (if op_self_join info then upper_tiles (num_tile_cols info)
     else all_tiles (num_tile_rows info) (num_tile_cols info))"

definition join_input_ok :: "OpInfo \<Rightarrow> eigen \<Rightarrow> fp list \<Rightarrow> fp list \<Rightarrow> bool" where
  "join_input_ok info eig Ta Tb \<longleftrightarrow> geometry_ok info \<and> type_ok info eig \<and> op_computing_cols info
     \<and> (op_computing_rows info \<longrightarrow> op_self_join info \<or> op_keep_rows_separate info)
     \<and> (op_self_join info \<longrightarrow> Tb = Ta) \<and> int (length Ta) = op_full_ts_len_A info \<and> int (length Tb) = op_full_ts_len_B info"

lemma prepare_join_ok:
  assumes "join_input_ok info eig Ta Tb"
  shows "\<exists>q. prepare_join exact_fpu eig fresh info Ta Tb = Some (join_env eig fresh info Ta Tb, q)
    \<and> distinct q \<and> set q = join_tiles info"
proof -
  have g: "geometry_ok info" "op_fp_type info = PRECISION_DOUBLE"
    using assms by (auto simp: join_input_ok_def type_ok_def)
  define w where "w = nat (op_mp_window info)"
  have w: "op_mp_window info = int w" "0 < w" "w \<le> length Ta" "w \<le> length Tb"
    using assms g by (auto simp: w_def join_input_ok_def geometry_ok_def)
  obtain q where q: "get_tiles exact info [] = Some q" "distinct q" "set q = join_tiles info"
    using get_tiles_queue [OF double_rounding_exact g(1)] by (auto simp: join_tiles_def)
  have st: "compute_statistics_cpu exact (map Fin (reals_of T)) (nan_windows T w) (int w) hp = Some (stats_of info T)"
    if "w \<le> length T" for T hp
    unfolding stats_of_def w_def [symmetric]
    by (rule compute_statistics_exact) (use w that in \<open>auto simp: nan_windows_def simp del: upt_Suc\<close>)
  show ?thesis
    unfolding prepare_join_def Let_def exact_fpu_simps w(1) convert_eq [OF w(2,3)] convert_eq [OF w(2,4)]
    using g(2) q st [OF w(3)] st [OF w(4)] by (simp add: clean_series_reals join_env_def)
qed

subsection \<open>The memory of a tile\<close>

definition tile_mem :: "OpInfo \<Rightarrow> Tile \<Rightarrow> bool" where
  "tile_mem info t \<longleftrightarrow> (let ts = nat (op_max_tile_ts_size info); mw = nat (op_max_tile_width info) in
     length (T_A_dev t) = ts \<and> length (T_B_dev t) = ts \<and> length (QT_dev t) = mw
     \<and> length (norms_A t) = mw \<and> length (norms_B t) = mw \<and> length (means_A t) = mw \<and> length (means_B t) = mw
     \<and> length (df_A t) = mw \<and> length (df_B t) = mw \<and> length (dg_A t) = mw \<and> length (dg_B t) = mw
     \<and> tile_arch t = CPU_WORKER
     \<and> (\<exists>A. profile_a_tile_dev t = Dev_entry A \<and> length A = mw) \<and> (\<exists>B. profile_b_tile_dev t = Dev_entry B \<and> length B = mw)
     \<and> typed_data PROFILE_TYPE_1NN_INDEX (profile_a_tile t) \<and> length (uint64_value (the_data (profile_a_tile t))) = mw
     \<and> typed_data PROFILE_TYPE_1NN_INDEX (profile_b_tile t) \<and> length (uint64_value (the_data (profile_b_tile t))) = mw)"

lemma geometry_sizes:
  assumes "geometry_ok info"
  shows "0 \<le> op_max_tile_ts_size info" "0 \<le> op_max_tile_width info" "op_max_tile_height info = op_max_tile_width info"
    "op_max_tile_ts_size info = op_max_tile_width info + op_mp_window info - 1" "0 < op_mp_window info"
    "op_mp_window info < op_max_tile_width info"
  using assms by (auto simp: geometry_ok_def)

lemma alloc_mem_CPU: "0 \<le> n \<Longrightarrow> alloc_mem fresh n CPU_WORKER = Inr (map fresh [0..<nat n])"
  by (simp add: alloc_mem_def)

lemma alloc_profile_mem_index:
  "0 \<le> n \<Longrightarrow> alloc_profile_mem fresh PROFILE_TYPE_1NN_INDEX n CPU_WORKER =
    Inr (Dev_entry (map (\<lambda>i. \<lparr>floats0 = fresh i, ints1 = 0\<rparr>) [0..<nat n]))"
  by (simp add: alloc_profile_mem_def alloc_mem_CPU)

lemma Profile_init_index:
  assumes "0 \<le> n"
  shows "\<exists>p. Profile_init PROFILE_TYPE_1NN_INDEX n th mw mh = Some p \<and> typed_data PROFILE_TYPE_1NN_INDEX p
    \<and> uint64_value (the_data p) = replicate (nat n) init_entry"
  using assms
  by (simp add: Profile_init_def Alloc_def data0_def set_data0_def vresize_opt_def typed_data_def the_data_def
      ProfileData_empty_def vresize_Nil del: typed_data_simps)

lemma Tile_init_mem:
  assumes "geometry_ok info" "op_profile_type info = PROFILE_TYPE_1NN_INDEX"
  shows "\<exists>t. Tile_init rd fresh info CPU_WORKER = Inr t \<and> tile_mem info t"
proof -
  note g = geometry_sizes [OF assms(1)]
  obtain p where p: "Profile_init PROFILE_TYPE_1NN_INDEX (op_max_tile_width info) (fcast rd (threshold (op_opt_args info)))
      (op_matrix_width info) (op_matrix_height info) = Some p" "typed_data PROFILE_TYPE_1NN_INDEX p"
      "uint64_value (the_data p) = replicate (nat (op_max_tile_width info)) init_entry"
    using Profile_init_index [OF g(2)] by blast
  have c: "cols_to_alloc info = op_max_tile_width info" "rows_to_alloc info = op_max_tile_width info"
    using assms g(3) by (simp_all add: cols_to_alloc_def rows_to_alloc_def)
  show ?thesis
    unfolding Tile_init_def assms(2) c g(3) alloc_mem_CPU [OF g(1)] alloc_mem_CPU [OF g(2)] alloc_profile_mem_index [OF g(2)] p(1)
    by (simp add: tile_mem_def Let_def p(2,3))
qed

lemma Memcopy_slice:
  assumes "0 \<le> off" "0 \<le> n" "off + n \<le> int (length src)" "n \<le> int (length dst)"
  shows "\<exists>xs. Memcopy dst src off n = Some xs \<and> length xs = length dst \<and> is_slice xs src (nat off) (nat n)"
proof -
  let ?ys = "take (nat n) (drop (nat off) src)"
  have l: "length ?ys = nat n" using assms by (auto simp: min_def)
  have "Memcopy dst src off n = Some (?ys @ drop (nat n) dst)"
    using assms l by (simp add: Memcopy_def ablit_def)
  moreover have "is_slice (?ys @ drop (nat n) dst) src (nat off) (nat n)"
    using assms l by (auto simp: is_slice_def nth_append)
  ultimately show ?thesis using l assms by auto
qed

lemma slice_holds:
  assumes "is_slice xs (map Fin rs) off n"
  shows "holds xs (take n (drop off rs))"
  using assms by (auto simp: is_slice_def holds_def)

subsection \<open>Loading a tile\<close>

lemma join_tiles_all: "geometry_ok info \<Longrightarrow> t \<in> join_tiles info \<Longrightarrow> t \<in> all_tiles (num_tile_rows info) (num_tile_cols info)"
  using num_tiles_bounds(5) [of info] by (auto simp: join_tiles_def all_tiles_def upper_tiles_def split: if_splits)

lemma tile_geometry:
  assumes "geometry_ok info" "t \<in> join_tiles info"
  shows "0 \<le> tile_row_pos info t" "0 \<le> tile_col_pos info t"
    "op_mp_window info \<le> tile_ts_width info t" "op_mp_window info \<le> tile_ts_height info t"
    "tile_col_pos info t + tile_ts_width info t \<le> op_full_ts_len_A info"
    "tile_row_pos info t + tile_ts_height info t \<le> op_full_ts_len_B info"
    "tile_ts_width info t \<le> op_max_tile_ts_size info" "tile_ts_height info t \<le> op_max_tile_ts_size info"
proof -
  let ?h = "op_max_tile_width info"
  obtain r c where t: "t = (r, c)" by (cases t)
  have g: "op_max_tile_height info = ?h" "0 < ?h" "op_max_tile_ts_size info = ?h + op_mp_window info - 1" "0 < op_mp_window info"
    using assms(1) by (auto simp: geometry_ok_def)
  have rc: "0 \<le> r" "r < num_tile_rows info" "0 \<le> c" "c < num_tile_cols info"
    using join_tiles_all [OF assms] by (auto simp: t all_tiles_def)
  have c: "c * ?h < op_full_ts_len_A info - op_mp_window info + 1"
    using rc(4) unfolding num_tile_cols_def less_ceil_div_iff [OF g(2)] .
  have r: "r * ?h < op_full_ts_len_B info - op_mp_window info + 1"
    using rc(2) unfolding num_tile_rows_def g(1) less_ceil_div_iff [OF g(2)] .
  have p: "tile_row_pos info t = r * ?h" "tile_col_pos info t = c * ?h" "0 \<le> r * ?h" "0 \<le> c * ?h"
    using rc g by (auto simp: tile_row_pos_def tile_col_pos_def t)
  show "0 \<le> tile_row_pos info t" "0 \<le> tile_col_pos info t"
    "op_mp_window info \<le> tile_ts_width info t" "op_mp_window info \<le> tile_ts_height info t"
    "tile_col_pos info t + tile_ts_width info t \<le> op_full_ts_len_A info"
    "tile_row_pos info t + tile_ts_height info t \<le> op_full_ts_len_B info"
    "tile_ts_width info t \<le> op_max_tile_ts_size info" "tile_ts_height info t \<le> op_max_tile_ts_size info"
    using p c r g by (auto simp: tile_ts_width_def tile_ts_height_def)
qed

lemma join_env_simps [simp]:
  "je_fpu (join_env eig fresh info Ta Tb) = exact_fpu" "je_eigen (join_env eig fresh info Ta Tb) = eig"
  "je_fresh (join_env eig fresh info Ta Tb) = fresh" "je_info (join_env eig fresh info Ta Tb) = info"
  by (simp_all add: join_env_def)

text \<open>The statistics of a tile are slices of those of the series.\<close>

definition stats_slices :: "PrecomputedInfo \<Rightarrow> PrecomputedInfo \<Rightarrow> OpInfo \<Rightarrow> Tile \<Rightarrow> Tile \<Rightarrow> bool" where
  "stats_slices sa sb info t t' \<longleftrightarrow>
     (let c = nat (current_tile_col t); r = nat (current_tile_row t); mx = nat (tile_n_x info t); my = nat (tile_n_y info t) in
      is_slice (norms_A t') (norms sa) c mx \<and> is_slice (df_A t') (df sa) c mx \<and> is_slice (dg_A t') (dg sa) c mx
      \<and> is_slice (norms_B t') (norms sb) r my \<and> is_slice (df_B t') (df sb) r my \<and> is_slice (dg_B t') (dg sb) r my)"

lemma InitStats_slices:
  assumes P: "op_fp_type info = PRECISION_DOUBLE"
    and x: "0 \<le> current_tile_col t" "0 \<le> tile_n_x info t" "current_tile_col t + tile_n_x info t \<le> int na"
    and y: "0 \<le> current_tile_row t" "0 \<le> tile_n_y info t" "current_tile_row t + tile_n_y info t \<le> int nb"
    and l: "length (norms sa) = na" "length (means sa) = na" "length (df sa) = na" "length (dg sa) = na"
    and k: "length (norms sb) = nb" "length (means sb) = nb" "length (df sb) = nb" "length (dg sb) = nb"
    and m: "tile_n_x info t \<le> int mw" "tile_n_y info t \<le> int mw" "length (norms_A t) = mw" "length (norms_B t) = mw"
      "length (means_A t) = mw" "length (means_B t) = mw" "length (df_A t) = mw" "length (df_B t) = mw"
      "length (dg_A t) = mw" "length (dg_B t) = mw"
  shows "\<exists>oa ob ma mb fa ga fb gb. InitStats info sa sb ab t = Some (t\<lparr>norms_A := oa, norms_B := ob, means_A := ma, means_B := mb,
      df_A := fa, dg_A := ga, df_B := fb, dg_B := gb,
      has_nan_input := nan_in (nan_idxs sa) (current_tile_col t) (current_tile_width t)
        \<or> nan_in (nan_idxs sb) (current_tile_row t) (current_tile_height t)\<rparr>)
    \<and> length oa = mw \<and> length ob = mw \<and> length ma = mw \<and> length mb = mw
    \<and> length fa = mw \<and> length ga = mw \<and> length fb = mw \<and> length gb = mw
    \<and> stats_slices sa sb info t (t\<lparr>norms_A := oa, norms_B := ob, df_A := fa, dg_A := ga, df_B := fb, dg_B := gb\<rparr>)"
proof -
  have X: "\<exists>xs. Memcopy dst src (current_tile_col t) (tile_n_x info t) = Some xs \<and> length xs = mw
      \<and> is_slice xs src (nat (current_tile_col t)) (nat (tile_n_x info t))" if "length dst = mw" "length src = na" for dst src :: "fp list"
    using Memcopy_slice [OF x(1,2), of src dst] x(3) m(1) that by auto
  have Y: "\<exists>xs. Memcopy dst src (current_tile_row t) (tile_n_y info t) = Some xs \<and> length xs = mw
      \<and> is_slice xs src (nat (current_tile_row t)) (nat (tile_n_y info t))" if "length dst = mw" "length src = nb" for dst src :: "fp list"
    using Memcopy_slice [OF y(1,2), of src dst] y(3) m(2) that by auto
  obtain oa where oa: "Memcopy (norms_A t) (norms sa) (current_tile_col t) (tile_n_x info t) = Some oa" "length oa = mw"
      "is_slice oa (norms sa) (nat (current_tile_col t)) (nat (tile_n_x info t))" using X m(3) l(1) by blast
  obtain ob where ob: "Memcopy (norms_B t) (norms sb) (current_tile_row t) (tile_n_y info t) = Some ob" "length ob = mw"
      "is_slice ob (norms sb) (nat (current_tile_row t)) (nat (tile_n_y info t))" using Y m(4) k(1) by blast
  obtain ma where ma: "Memcopy (means_A t) (means sa) (current_tile_col t) (tile_n_x info t) = Some ma" "length ma = mw"
    using X m(5) l(2) by blast
  obtain mb where mb: "Memcopy (means_B t) (means sb) (current_tile_row t) (tile_n_y info t) = Some mb" "length mb = mw"
    using Y m(6) k(2) by blast
  obtain fa where fa: "Memcopy (df_A t) (df sa) (current_tile_col t) (tile_n_x info t) = Some fa" "length fa = mw"
      "is_slice fa (df sa) (nat (current_tile_col t)) (nat (tile_n_x info t))" using X m(7) l(3) by blast
  obtain fb where fb: "Memcopy (df_B t) (df sb) (current_tile_row t) (tile_n_y info t) = Some fb" "length fb = mw"
      "is_slice fb (df sb) (nat (current_tile_row t)) (nat (tile_n_y info t))" using Y m(8) k(3) by blast
  obtain ga where ga: "Memcopy (dg_A t) (dg sa) (current_tile_col t) (tile_n_x info t) = Some ga" "length ga = mw"
      "is_slice ga (dg sa) (nat (current_tile_col t)) (nat (tile_n_x info t))" using X m(9) l(4) by blast
  obtain gb where gb: "Memcopy (dg_B t) (dg sb) (current_tile_row t) (tile_n_y info t) = Some gb" "length gb = mw"
      "is_slice gb (dg sb) (nat (current_tile_row t)) (nat (tile_n_y info t))" using Y m(10) k(4) by blast
  have "InitStats info sa sb ab t = Some (t\<lparr>norms_A := oa, norms_B := ob, means_A := ma, means_B := mb,
      df_A := fa, dg_A := ga, df_B := fb, dg_B := gb,
      has_nan_input := nan_in (nan_idxs sa) (current_tile_col t) (current_tile_width t)
        \<or> nan_in (nan_idxs sb) (current_tile_row t) (current_tile_height t)\<rparr>)"
    by (simp add: InitStats_def P oa ob ma mb fa fb ga gb)
  moreover have "stats_slices sa sb info t (t\<lparr>norms_A := oa, norms_B := ob, df_A := fa, dg_A := ga, df_B := fb, dg_B := gb\<rparr>)"
    by (simp add: stats_slices_def oa ob fa fb ga gb)
  ultimately show ?thesis using oa(2) ob(2) ma(2) mb(2) fa(2) fb(2) ga(2) gb(2) by blast
qed

lemma bad_window_nan_idxs:
  assumes "bad_window xs nv w i" "i < length xs - w + 1"
  shows "int i \<in> set (nan_idxs (exact_stats xs nv w))"
  using assms by (auto simp: exact_stats_def bad_window_def simp del: upt_Suc)

lemma nan_in_covers:
  assumes "\<not> nan_in (nan_idxs (exact_stats xs nv w)) start len" "0 \<le> start" "0 < w"
    "start + len \<le> int (length xs)" "k < nat (len - int w + 1)"
  shows "\<not> bad_window xs nv w (nat start + k)"
proof
  assume "bad_window xs nv w (nat start + k)"
  then have "int (nat start + k) \<in> set (nan_idxs (exact_stats xs nv w))"
    by (rule bad_window_nan_idxs) (use assms(2-5) in linarith)
  then have "start + int k \<in> set (nan_idxs (exact_stats xs nv w))" using assms(2) by simp
  moreover have "start + int k < start + len" using assms(3,5) by linarith
  ultimately show False using assms(1) unfolding nan_in_def by fastforce
qed

abbreviation loaded :: "OpInfo \<Rightarrow> fp list \<Rightarrow> fp list \<Rightarrow> Tile \<Rightarrow> bool" where
  "loaded info Ta Tb t \<equiv> tile_loaded info (reals_of Ta) (nan_of info Ta) (reals_of Tb) (nan_of info Tb) t"

lemma stats_of_lengths:
  "length (norms (stats_of info T)) = length T - nat (op_mp_window info) + 1"
  "length (means (stats_of info T)) = length T - nat (op_mp_window info) + 1"
  "length (df (stats_of info T)) = length T - nat (op_mp_window info) + 1"
  "length (dg (stats_of info T)) = length T - nat (op_mp_window info) + 1"
  by (simp_all add: stats_of_def exact_stats_lengths)

lemma load_tile_ok:
  assumes ok: "join_input_ok info eig Ta Tb" and M: "tile_mem info t" and wk: "wk \<in> join_tiles info"
  shows "\<exists>t'. load_tile (join_env eig fresh info Ta Tb) wk t = Some t' \<and> loaded info Ta Tb t' \<and> tile_mem info t' \<and> placed info wk t'"
proof -
  have g: "geometry_ok info" "op_fp_type info = PRECISION_DOUBLE" "int (length Ta) = op_full_ts_len_A info"
      "int (length Tb) = op_full_ts_len_B info"
    using ok by (auto simp: join_input_ok_def type_ok_def)
  note gs = geometry_sizes [OF g(1)] and tg = tile_geometry [OF g(1) wk]
  define w where "w = nat (op_mp_window info)"
  define mw where "mw = nat (op_max_tile_width info)"
  have w: "op_mp_window info = int w" "0 < w" "w \<le> length Ta" "w \<le> length Tb" using gs(5) g tg by (auto simp: w_def)
  have mem: "length (T_A_dev t) = nat (op_max_tile_ts_size info)" "length (T_B_dev t) = nat (op_max_tile_ts_size info)"
      "length (QT_dev t) = mw" "tile_arch t = CPU_WORKER"
      "length (norms_A t) = mw" "length (norms_B t) = mw" "length (means_A t) = mw" "length (means_B t) = mw"
      "length (df_A t) = mw" "length (df_B t) = mw" "length (dg_A t) = mw" "length (dg_B t) = mw"
    using M by (simp_all add: tile_mem_def Let_def mw_def)
  let ?p = "place_tile info wk t"
  have pos: "current_tile_row ?p = tile_row_pos info wk" "current_tile_col ?p = tile_col_pos info wk"
      "current_tile_width ?p = tile_ts_width info wk" "current_tile_height ?p = tile_ts_height info wk"
    by (simp_all add: place_tile_def)
  obtain a where a: "Memcopy (T_A_dev ?p) (map Fin (reals_of Ta)) (current_tile_col ?p) (current_tile_width ?p) = Some a"
      "length a = nat (op_max_tile_ts_size info)" "is_slice a (map Fin (reals_of Ta)) (nat (current_tile_col ?p)) (nat (current_tile_width ?p))"
    using Memcopy_slice [of "current_tile_col ?p" "current_tile_width ?p" "map Fin (reals_of Ta)" "T_A_dev ?p"] tg gs g mem(1)
    unfolding pos by (auto simp: place_tile_def)
  obtain b where b: "Memcopy (T_B_dev ?p) (map Fin (reals_of Tb)) (current_tile_row ?p) (current_tile_height ?p) = Some b"
      "length b = nat (op_max_tile_ts_size info)" "is_slice b (map Fin (reals_of Tb)) (nat (current_tile_row ?p)) (nat (current_tile_height ?p))"
    using Memcopy_slice [of "current_tile_row ?p" "current_tile_height ?p" "map Fin (reals_of Tb)" "T_B_dev ?p"] tg gs g mem(2)
    unfolding pos by (auto simp: place_tile_def)
  let ?q = "?p\<lparr>T_A_dev := a, T_B_dev := b\<rparr>"
  have nn: "tile_n_x info ?q = tile_ts_width info wk - int w + 1" "tile_n_y info ?q = tile_ts_height info wk - int w + 1"
    by (simp_all add: tile_n_x_def tile_n_y_def place_tile_def w(1))
  have q: "current_tile_col ?q = tile_col_pos info wk" "current_tile_row ?q = tile_row_pos info wk"
    by (simp_all add: place_tile_def)
  have pm: "length (norms_A ?q) = mw" "length (norms_B ?q) = mw" "length (means_A ?q) = mw" "length (means_B ?q) = mw"
      "length (df_A ?q) = mw" "length (df_B ?q) = mw" "length (dg_A ?q) = mw" "length (dg_B ?q) = mw"
    using mem(5-12) by (simp_all add: place_tile_def)
  obtain oa ob ma mb fa ga fb gb where s: "InitStats info (stats_of info Ta) (stats_of info Tb) empty_combined ?q
      = Some (?q\<lparr>norms_A := oa, norms_B := ob, means_A := ma, means_B := mb,
      df_A := fa, dg_A := ga, df_B := fb, dg_B := gb,
      has_nan_input := nan_in (nan_idxs (stats_of info Ta)) (current_tile_col ?q) (current_tile_width ?q)
        \<or> nan_in (nan_idxs (stats_of info Tb)) (current_tile_row ?q) (current_tile_height ?q)\<rparr>)"
    and l: "length oa = mw" "length ob = mw" "length ma = mw" "length mb = mw" "length fa = mw" "length ga = mw" "length fb = mw" "length gb = mw"
    and sl: "stats_slices (stats_of info Ta) (stats_of info Tb) info ?q (?q\<lparr>norms_A := oa, norms_B := ob, df_A := fa, dg_A := ga, df_B := fb, dg_B := gb\<rparr>)"
  proof -
    have x: "0 \<le> current_tile_col ?q" "0 \<le> tile_n_x info ?q" "current_tile_col ?q + tile_n_x info ?q \<le> int (length Ta - nat (op_mp_window info) + 1)"
      and y: "0 \<le> current_tile_row ?q" "0 \<le> tile_n_y info ?q" "current_tile_row ?q + tile_n_y info ?q \<le> int (length Tb - nat (op_mp_window info) + 1)"
      and m: "tile_n_x info ?q \<le> int mw" "tile_n_y info ?q \<le> int mw"
      using tg gs(1-4) g(3,4) w by (auto simp: nn q mw_def)
    show ?thesis
      using InitStats_slices [OF g(2) x y stats_of_lengths stats_of_lengths m pm, where ab = empty_combined] that by blast
  qed
  let ?t = "?q\<lparr>norms_A := oa, norms_B := ob, means_A := ma, means_B := mb,
      df_A := fa, dg_A := ga, df_B := fb, dg_B := gb,
      has_nan_input := nan_in (nan_idxs (stats_of info Ta)) (current_tile_col ?q) (current_tile_width ?q)
        \<or> nan_in (nan_idxs (stats_of info Tb)) (current_tile_row ?q) (current_tile_height ?q)\<rparr>"
  have load: "load_tile (join_env eig fresh info Ta Tb) wk t = Some ?t"
    using s by (simp add: load_tile_def InitTimeseries_def a(1) b(1) join_env_def)
  have placed: "placed info wk ?t" by (simp add: placed_def place_tile_def)
  have mem': "tile_mem info ?t" using M a(2) b(2) l by (simp add: tile_mem_def Let_def place_tile_def mw_def)
  have nan: "has_nan_input ?t \<or> (\<forall>k < nat (tile_n_x info ?t). \<not> bad_window (reals_of Ta) (nan_of info Ta) w (nat (tile_col_pos info wk) + k))
      \<and> (\<forall>k < nat (tile_n_y info ?t). \<not> bad_window (reals_of Tb) (nan_of info Tb) w (nat (tile_row_pos info wk) + k))"
    using nan_in_covers [of "reals_of Ta" "nan_of info Ta" w "tile_col_pos info wk" "tile_ts_width info wk"]
      nan_in_covers [of "reals_of Tb" "nan_of info Tb" w "tile_row_pos info wk" "tile_ts_height info wk"] tg w g(3,4)
    by (auto simp: tile_n_x_def tile_n_y_def place_tile_def stats_of_def)
  have fit: "nat (tile_col_pos info wk) + nat (tile_ts_width info wk) \<le> length Ta"
      "nat (tile_row_pos info wk) + nat (tile_ts_height info wk) \<le> length Tb"
    using tg(1-6) g(3,4) w by linarith+
  have "loaded info Ta Tb ?t"
    using sl slice_holds [OF a(3)] slice_holds [OF b(3)] a(2) b(2) l nan gs tg(1-4,7,8) w mem(3,4)
    unfolding tile_loaded_def Let_def w_def [symmetric] stats_of_def
    by (simp add: fit stats_slices_def Let_def place_tile_def tile_n_x_def tile_n_y_def mw_def)
  then show ?thesis using load placed mem' by blast
qed

end
