(* ===== verification/JoinProfile.thy ===== *)
theory JoinProfile
  imports OperationCorrect
begin

text \<open>
  The shared profiles of a join. A \<open>side\<close> says what one profile is about: its windows, the windows they are matched
  with, which pairs count and their values. A join has two, one for the columns and one for the rows.
\<close>

subsection \<open>A side\<close>

record side =
  side_len :: int
  side_others :: int
  side_match :: "int \<Rightarrow> int \<Rightarrow> bool"
  side_value :: "int \<Rightarrow> int \<Rightarrow> fp"

definition values_ok :: "side \<Rightarrow> bool" where
  "values_ok S \<longleftrightarrow> (\<forall>x y. \<not> is_nan (side_value S x y))"

text \<open>An entry of a profile: still empty, or a match.\<close>

definition is_match :: "side \<Rightarrow> int \<Rightarrow> int \<Rightarrow> mp_entry \<Rightarrow> bool" where
  "is_match S x y e \<longleftrightarrow> 0 \<le> y \<and> y < side_others S \<and> side_match S x y
     \<and> floats0 e = side_value S x y \<and> ints1 e = word_of_int y"

definition admissible :: "side \<Rightarrow> int \<Rightarrow> mp_entry \<Rightarrow> bool" where
  "admissible S x e \<longleftrightarrow> e = init_entry \<or> (\<exists>y. is_match S x y e)"

lemma admissible_not_nan: "values_ok S \<Longrightarrow> admissible S x e \<Longrightarrow> \<not> is_nan (floats0 e)"
  by (auto simp: admissible_def is_match_def init_entry_def values_ok_def)

definition entries :: "Profile \<Rightarrow> mp_entry list" where
  "entries p = uint64_value (the_data p)"

definition profile_ok :: "side \<Rightarrow> Profile \<Rightarrow> bool" where
  "profile_ok S p \<longleftrightarrow> values_ok S \<and> typed_data PROFILE_TYPE_1NN_INDEX p \<and> length (entries p) = nat (side_len S)
     \<and> (\<forall>x < nat (side_len S). admissible S (int x) (entries p ! x))"

definition improves :: "side \<Rightarrow> Profile \<Rightarrow> Profile \<Rightarrow> bool" where
  "improves S p p' \<longleftrightarrow> (\<forall>x < nat (side_len S). fle (floats0 (entries p ! x)) (floats0 (entries p' ! x)))"

lemma improves_refl: "profile_ok S p \<Longrightarrow> improves S p p"
  by (auto simp: improves_def profile_ok_def dest!: admissible_not_nan)

lemma improves_trans: "improves S p q \<Longrightarrow> improves S q r \<Longrightarrow> improves S p r"
  unfolding improves_def by (blast intro: fle_trans)

lemma improves_fle:
  assumes "improves S p p'" "0 \<le> x" "x < side_len S" "fle v (floats0 (entries p ! nat x))"
  shows "fle v (floats0 (entries p' ! nat x))"
proof -
  have "nat x < nat (side_len S)" using assms(2,3) by linarith
  then show ?thesis using assms(1,4) fle_trans unfolding improves_def by blast
qed

subsection \<open>Merging a tile\<close>

text \<open>
  An entry of a tile, with indices relative to \<open>off\<close>: a copy from the profile, which by now is not
  better than the profile, or a match.
\<close>

definition tile_entry :: "side \<Rightarrow> Profile \<Rightarrow> int \<Rightarrow> int \<Rightarrow> mp_entry \<Rightarrow> bool" where
  "tile_entry S p off x e \<longleftrightarrow> fle (floats0 e) (floats0 (entries p ! nat x))
     \<or> (\<exists>y. is_match S x (off + y) (e\<lparr>ints1 := word_of_int off + word_of_int y\<rparr>) \<and> ints1 e = word_of_int y)"

lemma tile_entry_improves:
  assumes "tile_entry S p off x e" "improves S p p'" "0 \<le> x" "x < side_len S"
  shows "tile_entry S p' off x e"
  using assms(1) improves_fle [OF assms(2-4)] unfolding tile_entry_def by blast

lemma tile_entry_not_nan: "values_ok S \<Longrightarrow> tile_entry S p off x e \<Longrightarrow> \<not> is_nan (floats0 e)"
  by (auto simp: tile_entry_def is_match_def values_ok_def dest: fle_not_nan)

lemma entry_max_admissible:
  assumes "values_ok S" "admissible S x (entries p ! nat x)" "tile_entry S p off x e"
  shows "admissible S x (entry_max off (entries p ! nat x) e)"
    "fle (floats0 (entries p ! nat x)) (floats0 (entry_max off (entries p ! nat x) e))"
    "fle (floats0 e) (floats0 (entry_max off (entries p ! nat x) e))"
proof -
  note n = admissible_not_nan [OF assms(1,2)] tile_entry_not_nan [OF assms(1,3)]
  show "fle (floats0 (entries p ! nat x)) (floats0 (entry_max off (entries p ! nat x) e))"
    "fle (floats0 e) (floats0 (entry_max off (entries p ! nat x) e))"
    using n by (auto simp: entry_max_def not_flt flt_imp_fle)
  show "admissible S x (entry_max off (entries p ! nat x) e)"
  proof (cases "flt (floats0 (entries p ! nat x)) (floats0 e)")
    case True
    then have "\<not> fle (floats0 e) (floats0 (entries p ! nat x))" using n by (simp add: not_fle)
    then obtain y where "is_match S x (off + y) (e\<lparr>ints1 := word_of_int off + word_of_int y\<rparr>)" "ints1 e = word_of_int y"
      using assms(3) by (auto simp: tile_entry_def)
    then have "is_match S x (off + y) (e\<lparr>ints1 := ints1 e + word_of_int off\<rparr>)" by (simp add: add.commute)
    then show ?thesis using True by (auto simp: entry_max_def admissible_def)
  next
    case False
    then show ?thesis using assms(2) by (simp add: entry_max_def)
  qed
qed

lemma merge_tile_entries:
  assumes P: "profile_ok S p" and t: "typed_data PROFILE_TYPE_1NN_INDEX tile"
    and b: "0 \<le> start" "0 \<le> n" "start + n \<le> side_len S" "n \<le> int (length (entries tile))"
    and e: "\<And>k. k < nat n \<Longrightarrow> tile_entry S p off (start + int k) (entries tile ! k)"
  shows "\<exists>p'. MergeTileToProfile rd tile info' start n off ov p = Inr p' \<and> profile_ok S p' \<and> improves S p p'
    \<and> (\<forall>k < nat n. fle (floats0 (entries tile ! k)) (floats0 (entries p' ! nat (start + int k))))"
proof -
  let ?es = "merged (entry_max off) start n (entries tile) (entries p)"
  let ?p = "set_data0 p ((the_data p)\<lparr>uint64_value := ?es\<rparr>)"
  have v: "values_ok S" and sd: "typed_data PROFILE_TYPE_1NN_INDEX p" and len: "length (entries p) = nat (side_len S)"
    and adm: "\<And>x. x < nat (side_len S) \<Longrightarrow> admissible S (int x) (entries p ! x)"
    using P by (auto simp: profile_ok_def)
  have m: "elementwise_max_index (entries p) start n (entries tile) off = Some ?es"
    by (rule elementwise_max_index_eq) (use b len in auto)
  have M: "MergeTileToProfile rd tile info' start n off ov p = Inr ?p"
    using sd t m by (simp add: MergeTileToProfile_def entries_def)
  have es: "entries ?p = ?es" using sd by (simp add: entries_def)
  have at: "admissible S (int x) (?es ! x) \<and> fle (floats0 (entries p ! x)) (floats0 (?es ! x))
      \<and> (start \<le> int x \<longrightarrow> int x < start + n \<longrightarrow> fle (floats0 (entries tile ! (x - nat start))) (floats0 (?es ! x)))"
    if x: "x < nat (side_len S)" for x
  proof (cases "start \<le> int x \<and> int x < start + n")
    case True
    then have k: "x - nat start < nat n" "start + int (x - nat start) = int x" using b by auto
    have "tile_entry S p off (int x) (entries tile ! (x - nat start))" using e [OF k(1)] unfolding k(2) .
    from entry_max_admissible [OF v _ this] adm [OF x] show ?thesis
      using True x by (simp add: len)
  next
    case False
    then show ?thesis using adm [OF x] x v by (auto simp: len dest: admissible_not_nan)
  qed
  have "profile_ok S ?p"
    using at len v typed_data_simps(2) [OF sd] by (simp add: profile_ok_def es)
  moreover have "improves S p ?p" using at by (simp add: improves_def es)
  moreover have "fle (floats0 (entries tile ! k)) (floats0 (entries ?p ! nat (start + int k)))" if "k < nat n" for k
  proof -
    have "nat (start + int k) < nat (side_len S)" "nat (start + int k) - nat start = k"
      "start \<le> int (nat (start + int k))" "int (nat (start + int k)) < start + n"
      using b that by auto
    then show ?thesis using at [of "nat (start + int k)"] by (simp add: es)
  qed
  ultimately show ?thesis using M by blast
qed

subsection \<open>Copies between the profiles and the kernel's memory\<close>

lemma copied_entries:
  assumes P: "profile_ok S p" and b: "0 \<le> start" "0 \<le> n" "start + n \<le> side_len S" "n \<le> int (length dst)"
  shows "\<exists>xs. Memcopy dst (entries p) start n = Some xs \<and> length xs = length dst
    \<and> (\<forall>k < nat n. tile_entry S p off (start + int k) (xs ! k))"
proof -
  have len: "length (entries p) = nat (side_len S)" using P by (simp add: profile_ok_def)
  obtain xs where xs: "Memcopy dst (entries p) start n = Some xs" "length xs = length dst"
      "is_slice xs (entries p) (nat start) (nat n)"
    using Memcopy_slice [of start n "entries p" dst] b len by auto
  have "tile_entry S p off (start + int k) (xs ! k)" if "k < nat n" for k
  proof -
    have x: "xs ! k = entries p ! (nat start + k)" "nat start + k < nat (side_len S)" "nat (start + int k) = nat start + k"
      using xs(3) that b by (auto simp: is_slice_def)
    then have "\<not> is_nan (floats0 (entries p ! (nat start + k)))"
      using P admissible_not_nan unfolding profile_ok_def by blast
    then show ?thesis by (simp add: tile_entry_def x)
  qed
  then show ?thesis using xs(1,2) by blast
qed

lemma copy_index:
  assumes "typed_data PROFILE_TYPE_1NN_INDEX p" "0 \<le> n" "n \<le> int (length (entries p))" "n \<le> int (length A)"
  shows "\<exists>p'. CopyFromDevice info (Dev_entry A) n p = Inr p' \<and> typed_data PROFILE_TYPE_1NN_INDEX p'
    \<and> length (entries p') = length (entries p) \<and> (\<forall>k < nat n. entries p' ! k = A ! k)"
proof -
  obtain v where v: "Memcopy (entries p) A 0 n = Some v" "length v = length (entries p)" "is_slice v A 0 (nat n)"
    using Memcopy_slice [of 0 n A "entries p"] assms by auto
  have "copy_front (entries p) A n = Some v" using v(1) by (simp add: copy_front_def Memcopy_def)
  then have "CopyFromDevice info (Dev_entry A) n p = Inr (set_data0 p ((the_data p)\<lparr>uint64_value := v\<rparr>))"
    using assms(1) by (simp add: CopyFromDevice_def entries_def)
  moreover have "entries (set_data0 p ((the_data p)\<lparr>uint64_value := v\<rparr>)) = v" using assms(1) by (simp add: entries_def)
  ultimately show ?thesis using v assms(1) by (auto simp: is_slice_def)
qed

text \<open>An entry that improved by cells of the side is still one of a tile.\<close>

lemma improved_tile_entry:
  assumes "improved v C e e'" "tile_entry S p off x e"
    and "\<And>y. y \<in> C \<Longrightarrow> 0 \<le> off + y \<and> off + y < side_others S \<and> side_match S x (off + y) \<and> v y = side_value S x (off + y)"
  shows "tile_entry S p off x e'"
proof -
  consider "e' = e" | y where "y \<in> C" "floats0 e' = v y" "ints1 e' = word_of_int y"
    using assms(1) by (auto simp: improved_def)
  then show ?thesis
  proof cases
    case 1
    then show ?thesis using assms(2) by simp
  next
    case 2
    then show ?thesis
      using assms(3) [OF 2(1)] by (auto simp: tile_entry_def is_match_def intro!: exI [of _ y])
  qed
qed

subsection \<open>The best match\<close>

text \<open>
  The specification of an entry: a match none of which has a higher value; it is still empty only if no match is
  above \<open>-2\<close>, the value of a pair with a flat or unclean window.
\<close>

definition best_match :: "side \<Rightarrow> int \<Rightarrow> mp_entry \<Rightarrow> bool" where
  "best_match S x e \<longleftrightarrow> (e = init_entry \<or> (\<exists>y. is_match S x y e))
     \<and> (\<forall>y. 0 \<le> y \<and> y < side_others S \<and> side_match S x y \<longrightarrow> fle (side_value S x y) (floats0 e))"

definition best_matches :: "side \<Rightarrow> Profile \<Rightarrow> bool" where
  "best_matches S p \<longleftrightarrow> typed_data PROFILE_TYPE_1NN_INDEX p \<and> length (entries p) = nat (side_len S)
     \<and> (\<forall>x < nat (side_len S). best_match S (int x) (entries p ! x))"

text \<open>A profile before the join.\<close>

definition fresh_profile :: "int \<Rightarrow> Profile \<Rightarrow> bool" where
  "fresh_profile n p \<longleftrightarrow> typed_data PROFILE_TYPE_1NN_INDEX p \<and> entries p = replicate (nat n) init_entry"

lemma fresh_profile_ok: "fresh_profile (side_len S) p \<Longrightarrow> values_ok S \<Longrightarrow> profile_ok S p"
  by (simp add: fresh_profile_def profile_ok_def admissible_def)

lemma best_matchesI:
  assumes "profile_ok S p"
    and "\<And>x y. 0 \<le> x \<Longrightarrow> x < side_len S \<Longrightarrow> 0 \<le> y \<Longrightarrow> y < side_others S \<Longrightarrow> side_match S x y
      \<Longrightarrow> fle (side_value S x y) (floats0 (entries p ! nat x))"
  shows "best_matches S p"
proof -
  have "fle (side_value S (int x) y) (floats0 (entries p ! x))"
    if "x < nat (side_len S)" "0 \<le> y" "y < side_others S" "side_match S (int x) y" for x y
    using assms(2) [of "int x" y] that by simp
  then show ?thesis using assms(1) by (simp add: best_matches_def best_match_def profile_ok_def admissible_def)
qed

end
