(* ===== verification/JoinCorrect.thy ===== *)
theory JoinCorrect
  imports JoinProfile
begin

text \<open>
  The workers of a join as an instance of \<open>worker_pool\<close>: the invariant of the shared profiles and the
  queue, the assertion each program counter carries, and the contract of every step. What a join is to compute is a
  parameter: the two sides of its profiles and the cells of the distance matrix it looks at.
\<close>

subsection \<open>The specification of a join\<close>

record join_spec =
  spec_a :: side
  spec_b :: side
  spec_cell :: "int \<Rightarrow> int \<Rightarrow> bool"

definition windows_a :: "OpInfo \<Rightarrow> int" where
  "windows_a info = op_full_ts_len_A info - op_mp_window info + 1"

definition windows_b :: "OpInfo \<Rightarrow> int" where
  "windows_b info = op_full_ts_len_B info - op_mp_window info + 1"

text \<open>The value of row \<open>i\<close>, a window of the second series, and column \<open>j\<close>, one of the first.\<close>

definition join_value :: "OpInfo \<Rightarrow> fp list \<Rightarrow> fp list \<Rightarrow> int \<Rightarrow> int \<Rightarrow> fp" where
  "join_value info Ta Tb i j =
     pair_value (reals_of Ta) (nan_of info Ta) (reals_of Tb) (nan_of info Tb) (nat (op_mp_window info)) (nat j) (nat i)"

lemma join_value_not_nan [simp]: "\<not> is_nan (join_value info Ta Tb i j)"
  unfolding join_value_def by (rule finite_not_nan [OF pair_value_finite])

text \<open>The cells a tile looks at are the cells of the specification in the tile.\<close>

definition tiles_exact :: "OpInfo \<Rightarrow> (int \<Rightarrow> int \<Rightarrow> bool) \<Rightarrow> bool" where
  "tiles_exact info cell \<longleftrightarrow> (\<forall>wk \<in> join_tiles info. \<forall>t. placed info wk t \<longrightarrow> exclusions_ok info (tile_type info wk) t
     \<and> (\<forall>r c. (r, c) \<in> executed_region info (tile_type info wk) t \<longleftrightarrow> 0 \<le> r \<and> r < tile_n_y info t \<and> 0 \<le> c \<and> c < tile_n_x info t
          \<and> cell (current_tile_row t + r) (current_tile_col t + c)))"

definition spec_ok :: "OpInfo \<Rightarrow> fp list \<Rightarrow> fp list \<Rightarrow> join_spec \<Rightarrow> bool" where
  "spec_ok info Ta Tb J \<longleftrightarrow> values_ok (spec_a J) \<and> values_ok (spec_b J)
     \<and> side_len (spec_a J) = windows_a info \<and> side_others (spec_a J) = windows_b info
     \<and> side_len (spec_b J) = windows_b info \<and> side_others (spec_b J) = windows_a info
     \<and> (op_computing_rows info \<and> \<not> op_keep_rows_separate info \<longrightarrow> spec_b J = spec_a J)
     \<and> (\<forall>i j. 0 \<le> i \<and> 0 \<le> j \<and> spec_cell J i j \<longrightarrow>
          side_match (spec_a J) j i \<and> side_value (spec_a J) j i = join_value info Ta Tb i j
          \<and> side_match (spec_b J) i j \<and> side_value (spec_b J) i j = join_value info Ta Tb i j)"

definition join_ok :: "OpInfo \<Rightarrow> eigen \<Rightarrow> fp list \<Rightarrow> fp list \<Rightarrow> join_spec \<Rightarrow> bool" where
  "join_ok info eig Ta Tb J \<longleftrightarrow> join_input_ok info eig Ta Tb \<and> spec_ok info Ta Tb J \<and> tiles_exact info (spec_cell J)"

text \<open>The profile of the rows: a self join merges it into the profile of the columns unless it is to be kept separate.\<close>

definition row_profile :: "OpInfo \<Rightarrow> shared \<Rightarrow> Profile" where
  "row_profile info sh = (if op_keep_rows_separate info then sh_profile_b sh else sh_profile_a sh)"

definition covers :: "OpInfo \<Rightarrow> fp list \<Rightarrow> fp list \<Rightarrow> join_spec \<Rightarrow> shared \<Rightarrow> work_item \<Rightarrow> bool" where
  "covers info Ta Tb J sh wk \<longleftrightarrow> (\<forall>(i, j) \<in> tile_cells info wk. spec_cell J i j \<longrightarrow>
     fle (join_value info Ta Tb i j) (floats0 (entries (sh_profile_a sh) ! nat j))
     \<and> (op_computing_rows info \<longrightarrow> fle (join_value info Ta Tb i j) (floats0 (entries (row_profile info sh) ! nat i))))"

subsection \<open>Assertions\<close>

definition tile_ready :: "OpInfo \<Rightarrow> fp list \<Rightarrow> fp list \<Rightarrow> Tile \<Rightarrow> work_item \<Rightarrow> bool" where
  "tile_ready info Ta Tb t wk \<longleftrightarrow> tile_mem info t \<and> wk \<in> join_tiles info \<and> placed info wk t \<and> loaded info Ta Tb t"

text \<open>The entries in the memory of the kernel.\<close>

definition kernel_entries :: "OpInfo \<Rightarrow> join_spec \<Rightarrow> shared \<Rightarrow> Tile \<Rightarrow> mp_entry list \<Rightarrow> mp_entry list \<Rightarrow> bool" where
  "kernel_entries info J sh t A B \<longleftrightarrow> profile_a_tile_dev t = Dev_entry A \<and> profile_b_tile_dev t = Dev_entry B
     \<and> (\<forall>k < nat (tile_n_x info t). tile_entry (spec_a J) (sh_profile_a sh) (current_tile_row t) (current_tile_col t + int k) (A ! k))
     \<and> (op_computing_rows info \<longrightarrow>
          (\<forall>k < nat (tile_n_y info t). tile_entry (spec_b J) (row_profile info sh) (current_tile_col t) (current_tile_row t + int k) (B ! k)))"

text \<open>After the kernels, no cell of the tile is better than its entries.\<close>

definition tile_done :: "OpInfo \<Rightarrow> fp list \<Rightarrow> fp list \<Rightarrow> join_spec \<Rightarrow> Tile \<Rightarrow> mp_entry list \<Rightarrow> mp_entry list \<Rightarrow> bool" where
  "tile_done info Ta Tb J t A B \<longleftrightarrow> (\<forall>r c. 0 \<le> r \<and> r < tile_n_y info t \<and> 0 \<le> c \<and> c < tile_n_x info t
     \<and> spec_cell J (current_tile_row t + r) (current_tile_col t + c) \<longrightarrow>
     fle (join_value info Ta Tb (current_tile_row t + r) (current_tile_col t + c)) (floats0 (A ! nat c))
     \<and> (op_computing_rows info \<longrightarrow>
          fle (join_value info Ta Tb (current_tile_row t + r) (current_tile_col t + c)) (floats0 (B ! nat r))))"

fun worker_assertion :: "OpInfo \<Rightarrow> fp list \<Rightarrow> fp list \<Rightarrow> join_spec \<Rightarrow> shared \<Rightarrow> worker \<Rightarrow> bool" where
  "worker_assertion info Ta Tb J sh (W_new arch) = (arch = CPU_WORKER)"
| "worker_assertion info Ta Tb J sh (W_idle t) = tile_mem info t"
| "worker_assertion info Ta Tb J sh (W_pop t) = tile_mem info t"
| "worker_assertion info Ta Tb J sh (W_reset t wk) = tile_ready info Ta Tb t wk"
| "worker_assertion info Ta Tb J sh (W_exec t wk) =
     (tile_ready info Ta Tb t wk \<and> (\<exists>A B. kernel_entries info J sh t A B))"
| "worker_assertion info Ta Tb J sh (W_merge t wk) =
     (tile_ready info Ta Tb t wk \<and> (\<exists>A B. kernel_entries info J sh t A B \<and> tile_done info Ta Tb J t A B))"
| "worker_assertion info Ta Tb J sh (W_count t) = tile_mem info t"
| "worker_assertion info Ta Tb J sh (W_exit t) = (tile_mem info t \<and> work_queue sh = [])"
| "worker_assertion info Ta Tb J sh W_done = (work_queue sh = [])"
| "worker_assertion info Ta Tb J sh (W_failed e) = False"

fun worker_task :: "worker \<Rightarrow> work_item set" where
  "worker_task (W_reset t wk) = {wk}"
| "worker_task (W_exec t wk) = {wk}"
| "worker_task (W_merge t wk) = {wk}"
| "worker_task _ = {}"

fun worker_cost :: "worker \<Rightarrow> nat" where
  "worker_cost (W_new arch) = 5"
| "worker_cost (W_idle t) = 4"
| "worker_cost (W_pop t) = 3"
| "worker_cost (W_reset t wk) = 8"
| "worker_cost (W_exec t wk) = 7"
| "worker_cost (W_merge t wk) = 6"
| "worker_cost (W_count t) = 5"
| "worker_cost (W_exit t) = 2"
| "worker_cost _ = 0"

fun worker_tally :: "worker \<Rightarrow> nat" where
  "worker_tally (W_reset t wk) = 1"
| "worker_tally (W_exec t wk) = 1"
| "worker_tally (W_merge t wk) = 1"
| "worker_tally (W_count t) = 1"
| "worker_tally _ = 0"

definition queue_cost :: "shared \<Rightarrow> nat" where
  "queue_cost sh = 10 * length (work_queue sh)"

definition queue_tally :: "shared \<Rightarrow> nat" where
  "queue_tally sh = length (work_queue sh) + nat (completed_tiles sh)"

definition join_inv :: "OpInfo \<Rightarrow> eigen \<Rightarrow> fp list \<Rightarrow> fp list \<Rightarrow> join_spec \<Rightarrow> shared \<Rightarrow> bool" where
  "join_inv info eig Ta Tb J sh \<longleftrightarrow> join_ok info eig Ta Tb J \<and> profile_ok (spec_a J) (sh_profile_a sh)
     \<and> (op_computing_rows info \<longrightarrow> profile_ok (spec_b J) (row_profile info sh))
     \<and> set (work_queue sh) \<subseteq> join_tiles info \<and> 0 \<le> completed_tiles sh"

definition join_guarantee :: "OpInfo \<Rightarrow> join_spec \<Rightarrow> shared \<Rightarrow> shared \<Rightarrow> bool" where
  "join_guarantee info J sh sh' \<longleftrightarrow> improves (spec_a J) (sh_profile_a sh) (sh_profile_a sh')
     \<and> (op_computing_rows info \<longrightarrow> improves (spec_b J) (row_profile info sh) (row_profile info sh'))
     \<and> (work_queue sh = [] \<longrightarrow> work_queue sh' = [])"

definition complete_tiles :: "OpInfo \<Rightarrow> fp list \<Rightarrow> fp list \<Rightarrow> join_spec \<Rightarrow> shared \<Rightarrow> work_item set" where
  "complete_tiles info Ta Tb J sh = {wk. wk \<in> join_tiles info \<and> covers info Ta Tb J sh wk}"

lemma row_profile_same [simp]:
  "row_profile info (sh\<lparr>work_queue := q\<rparr>) = row_profile info sh"
  "row_profile info (sh\<lparr>completed_tiles := n\<rparr>) = row_profile info sh"
  by (simp_all add: row_profile_def)

lemma join_okD:
  assumes "join_ok info eig Ta Tb J"
  shows "geometry_ok info" "join_input_ok info eig Ta Tb" "type_ok info eig" "op_profile_type info = PROFILE_TYPE_1NN_INDEX"
    "op_computing_cols info" "values_ok (spec_a J)" "values_ok (spec_b J)"
    "side_len (spec_a J) = windows_a info" "side_others (spec_a J) = windows_b info"
    "side_len (spec_b J) = windows_b info" "side_others (spec_b J) = windows_a info"
    "op_computing_rows info \<Longrightarrow> \<not> op_keep_rows_separate info \<Longrightarrow> op_self_join info \<and> spec_b J = spec_a J"
    "\<And>i j. spec_cell J i j \<Longrightarrow> 0 \<le> i \<Longrightarrow> 0 \<le> j \<Longrightarrow> side_match (spec_a J) j i \<and> side_value (spec_a J) j i = join_value info Ta Tb i j
       \<and> side_match (spec_b J) i j \<and> side_value (spec_b J) i j = join_value info Ta Tb i j"
    "\<And>wk t. wk \<in> join_tiles info \<Longrightarrow> placed info wk t \<Longrightarrow> exclusions_ok info (tile_type info wk) t"
    "\<And>wk t r c. wk \<in> join_tiles info \<Longrightarrow> placed info wk t \<Longrightarrow> (r, c) \<in> executed_region info (tile_type info wk) t
       \<longleftrightarrow> 0 \<le> r \<and> r < tile_n_y info t \<and> 0 \<le> c \<and> c < tile_n_x info t \<and> spec_cell J (current_tile_row t + r) (current_tile_col t + c)"
proof -
  have i: "join_input_ok info eig Ta Tb" and S: "spec_ok info Ta Tb J" and t: "tiles_exact info (spec_cell J)"
    using assms unfolding join_ok_def by blast+
  show "join_input_ok info eig Ta Tb" by (rule i)
  show "geometry_ok info" "type_ok info eig" "op_profile_type info = PROFILE_TYPE_1NN_INDEX" "op_computing_cols info"
    using i by (simp_all add: join_input_ok_def type_ok_def)
  show "values_ok (spec_a J)" "values_ok (spec_b J)"
    "side_len (spec_a J) = windows_a info" "side_others (spec_a J) = windows_b info"
    "side_len (spec_b J) = windows_b info" "side_others (spec_b J) = windows_a info"
    using S by (simp_all add: spec_ok_def)
  show "op_self_join info \<and> spec_b J = spec_a J" if "op_computing_rows info" "\<not> op_keep_rows_separate info"
    using i S that by (auto simp: spec_ok_def join_input_ok_def)
  show "side_match (spec_a J) j i \<and> side_value (spec_a J) j i = join_value info Ta Tb i j
       \<and> side_match (spec_b J) i j \<and> side_value (spec_b J) i j = join_value info Ta Tb i j"
    if "spec_cell J i j" "0 \<le> i" "0 \<le> j" for i j
    using S that by (simp add: spec_ok_def)
  show "exclusions_ok info (tile_type info wk) t" if "wk \<in> join_tiles info" "placed info wk t" for wk t
    using t that unfolding tiles_exact_def by blast
  show "(r, c) \<in> executed_region info (tile_type info wk) t
       \<longleftrightarrow> 0 \<le> r \<and> r < tile_n_y info t \<and> 0 \<le> c \<and> c < tile_n_x info t \<and> spec_cell J (current_tile_row t + r) (current_tile_col t + c)"
    if "wk \<in> join_tiles info" "placed info wk t" for wk t r c
    using bspec [OF t [unfolded tiles_exact_def] that(1)] that(2) by (simp del: split_paired_All)
qed

lemma placed_bounds:
  assumes "geometry_ok info" "wk \<in> join_tiles info" "placed info wk t"
  shows "0 \<le> current_tile_col t" "0 \<le> current_tile_row t" "0 \<le> tile_n_x info t" "0 \<le> tile_n_y info t"
    "current_tile_col t + tile_n_x info t \<le> windows_a info" "current_tile_row t + tile_n_y info t \<le> windows_b info"
    "tile_n_x info t \<le> op_max_tile_width info" "tile_n_y info t \<le> op_max_tile_width info"
  using tile_geometry [OF assms(1,2)] geometry_sizes [OF assms(1)] assms(3)
  by (simp_all add: placed_def windows_a_def windows_b_def tile_n_x_def tile_n_y_def)

lemma ready_bounds:
  assumes "tile_ready info Ta Tb t wk" "join_ok info eig Ta Tb J"
  shows "0 \<le> current_tile_col t" "0 \<le> current_tile_row t" "0 \<le> tile_n_x info t" "0 \<le> tile_n_y info t"
    "current_tile_col t + tile_n_x info t \<le> windows_a info" "current_tile_row t + tile_n_y info t \<le> windows_b info"
    "tile_n_x info t \<le> op_max_tile_width info" "tile_n_y info t \<le> op_max_tile_width info"
proof -
  have "wk \<in> join_tiles info" "placed info wk t" using assms(1) by (simp_all add: tile_ready_def)
  note b = placed_bounds [OF join_okD(1) [OF assms(2)] this]
  show "0 \<le> current_tile_col t" "0 \<le> current_tile_row t" "0 \<le> tile_n_x info t" "0 \<le> tile_n_y info t"
    "current_tile_col t + tile_n_x info t \<le> windows_a info" "current_tile_row t + tile_n_y info t \<le> windows_b info"
    "tile_n_x info t \<le> op_max_tile_width info" "tile_n_y info t \<le> op_max_tile_width info"
    by (rule b)+
qed

lemma tile_cells_bounds:
  assumes "geometry_ok info" "wk \<in> join_tiles info" "(i, j) \<in> tile_cells info wk"
  shows "0 \<le> i" "i < windows_b info" "0 \<le> j" "j < windows_a info"
  using assms(3) tile_geometry [OF assms(1,2)] by (auto simp: tile_cells_def windows_a_def windows_b_def)

subsection \<open>Stability\<close>

lemma kernel_entries_improves:
  assumes "kernel_entries info J sh t A B" "join_guarantee info J sh sh'" "tile_ready info Ta Tb t wk" "join_ok info eig Ta Tb J"
  shows "kernel_entries info J sh' t A B"
proof -
  note b = ready_bounds [OF assms(3,4)] and f = join_okD(8,10) [OF assms(4)]
  have "tile_entry (spec_a J) (sh_profile_a sh') (current_tile_row t) (current_tile_col t + int k) (A ! k)"
    if "k < nat (tile_n_x info t)" for k
    by (rule tile_entry_improves) (use assms(1,2) b f that in \<open>auto simp: kernel_entries_def join_guarantee_def\<close>)
  moreover have "tile_entry (spec_b J) (row_profile info sh') (current_tile_col t) (current_tile_row t + int k) (B ! k)"
    if "op_computing_rows info" "k < nat (tile_n_y info t)" for k
    by (rule tile_entry_improves) (use assms(1,2) b f that in \<open>auto simp: kernel_entries_def join_guarantee_def\<close>)
  ultimately show ?thesis using assms(1) by (simp add: kernel_entries_def)
qed

lemma assertion_stable:
  assumes "join_guarantee info J sh sh'" "join_inv info eig Ta Tb J sh" "worker_assertion info Ta Tb J sh v"
  shows "worker_assertion info Ta Tb J sh' v"
proof -
  have q: "work_queue sh = [] \<Longrightarrow> work_queue sh' = []" and ok: "join_ok info eig Ta Tb J"
    using assms(1,2) by (auto simp: join_guarantee_def join_inv_def)
  have K: "kernel_entries info J sh' t A B" if "tile_ready info Ta Tb t wk" "kernel_entries info J sh t A B" for t wk A B
    by (rule kernel_entries_improves [OF that(2) assms(1) that(1) ok])
  show ?thesis
  proof (cases v)
    case (W_exec t wk)
    then show ?thesis using assms(3) K [of t wk] by (simp del: split_paired_Ex) blast
  next
    case (W_merge t wk)
    then show ?thesis using assms(3) K [of t wk] by (simp del: split_paired_Ex) blast
  qed (use assms(3) q in simp_all)
qed

lemma complete_tiles_mono:
  assumes "join_guarantee info J sh sh'" "join_inv info eig Ta Tb J sh"
  shows "complete_tiles info Ta Tb J sh \<subseteq> complete_tiles info Ta Tb J sh'"
proof (intro subsetI)
  fix wk assume "wk \<in> complete_tiles info Ta Tb J sh"
  then have wk: "wk \<in> join_tiles info" and C: "covers info Ta Tb J sh wk" by (simp_all add: complete_tiles_def)
  have ok: "join_ok info eig Ta Tb J" using assms(2) by (simp add: join_inv_def)
  note f = join_okD(1,8,10) [OF ok]
  have "covers info Ta Tb J sh' wk"
    unfolding covers_def
  proof (clarify)
    fix i j assume ij: "(i, j) \<in> tile_cells info wk" "spec_cell J i j"
    note b = tile_cells_bounds [OF f(1) wk ij(1)]
    show "fle (join_value info Ta Tb i j) (floats0 (entries (sh_profile_a sh') ! nat j))
       \<and> (op_computing_rows info \<longrightarrow> fle (join_value info Ta Tb i j) (floats0 (entries (row_profile info sh') ! nat i)))"
      using C ij b f assms(1) improves_fle unfolding covers_def join_guarantee_def by fastforce
  qed
  then show "wk \<in> complete_tiles info Ta Tb J sh'" using wk by (simp add: complete_tiles_def)
qed

subsection \<open>Reset, execution and merge\<close>

lemma tile_ready_dev:
  assumes "tile_ready info Ta Tb t wk" "length q = length (QT_dev t)"
    "length A = nat (op_max_tile_width info)" "length B = nat (op_max_tile_width info)"
  shows "tile_ready info Ta Tb (t\<lparr>QT_dev := q, profile_a_tile_dev := Dev_entry A, profile_b_tile_dev := Dev_entry B\<rparr>) wk"
  using assms by (simp add: tile_ready_def tile_mem_def placed_def Let_def)

lemma init_profile_ok:
  assumes inv: "join_inv info eig Ta Tb J sh" and R: "tile_ready info Ta Tb t wk"
  shows "\<exists>t' A B. InitProfile info (sh_profile_a sh) (sh_profile_b sh) t = Inr (SCAMP_NO_ERROR, t') \<and> tile_ready info Ta Tb t' wk
    \<and> kernel_entries info J sh t' A B"
proof -
  have ok: "join_ok info eig Ta Tb J" and P: "profile_ok (spec_a J) (sh_profile_a sh)"
      and Q: "op_computing_rows info \<Longrightarrow> profile_ok (spec_b J) (row_profile info sh)"
    using inv by (simp_all add: join_inv_def)
  note b = ready_bounds [OF R ok] and f = join_okD [OF ok]
  have sd: "typed_data PROFILE_TYPE_1NN_INDEX (sh_profile_a sh)" using P by (simp add: profile_ok_def)
  obtain a0 b0 where ab: "profile_a_tile_dev t = Dev_entry a0" "profile_b_tile_dev t = Dev_entry b0"
      "length a0 = nat (op_max_tile_width info)" "length b0 = nat (op_max_tile_width info)"
    using R by (auto simp: tile_ready_def tile_mem_def Let_def)
  obtain A where A: "Memcopy a0 (entries (sh_profile_a sh)) (current_tile_col t) (tile_n_x info t) = Some A" "length A = length a0"
      "\<forall>k < nat (tile_n_x info t). tile_entry (spec_a J) (sh_profile_a sh) (current_tile_row t) (current_tile_col t + int k) (A ! k)"
    using copied_entries [OF P b(1,3), of a0] b ab f(8) by auto
  obtain B where B: "length B = nat (op_max_tile_width info)"
      "Init_1NN_INDEX info (sh_profile_a sh) (sh_profile_b sh) t
        = Some (t\<lparr>profile_a_tile_dev := Dev_entry A, profile_b_tile_dev := Dev_entry B\<rparr>)"
      "op_computing_rows info \<Longrightarrow> \<forall>k < nat (tile_n_y info t). tile_entry (spec_b J) (row_profile info sh) (current_tile_col t) (current_tile_row t + int k) (B ! k)"
  proof (cases "op_computing_rows info")
    case True
    obtain B where B: "Memcopy b0 (entries (row_profile info sh)) (current_tile_row t) (tile_n_y info t) = Some B" "length B = length b0"
        "\<forall>k < nat (tile_n_y info t). tile_entry (spec_b J) (row_profile info sh) (current_tile_col t) (current_tile_row t + int k) (B ! k)"
      using copied_entries [OF Q [OF True] b(2,4), of b0] b ab f(10) by auto
    moreover have "typed_data PROFILE_TYPE_1NN_INDEX (row_profile info sh)" using Q [OF True] by (simp add: profile_ok_def)
    ultimately show ?thesis
      using that [of B] ab sd A(1) f(12) [OF True] True
      by (auto simp: Init_1NN_INDEX_def entries_def row_profile_def split: if_splits)
  next
    case rows: False
    show ?thesis
    proof (cases "op_self_join info")
      case True
      then have w: "windows_b info = windows_a info" using f(1) by (auto simp: windows_a_def windows_b_def geometry_ok_def)
      obtain B where "Memcopy b0 (entries (sh_profile_a sh)) (current_tile_row t) (tile_n_y info t) = Some B" "length B = length b0"
        using copied_entries [OF P b(2,4), of b0] b ab f(8) w by auto
      then show ?thesis
        using that [of B] ab sd A(1) rows True by (auto simp: Init_1NN_INDEX_def entries_def)
    next
      case False
      then show ?thesis using that [of b0] ab sd A(1) rows by (auto simp: Init_1NN_INDEX_def entries_def)
    qed
  qed
  let ?t = "t\<lparr>profile_a_tile_dev := Dev_entry A, profile_b_tile_dev := Dev_entry B\<rparr>"
  have "InitProfile info (sh_profile_a sh) (sh_profile_b sh) t = Inr (SCAMP_NO_ERROR, ?t)"
    using f(4) B(2) by (simp add: InitProfile_def)
  moreover have "tile_ready info Ta Tb ?t wk"
    using tile_ready_dev [OF R refl, of A B] A(2) B(1) ab by simp
  moreover have "kernel_entries info J sh ?t A B"
    using A(3) B(3) by (simp add: kernel_entries_def tile_n_x_def tile_n_y_def)
  ultimately show ?thesis by blast
qed

lemma execute_ok:
  assumes inv: "join_inv info eig Ta Tb J sh" and R: "tile_ready info Ta Tb t wk" and K: "kernel_entries info J sh t A B"
  shows "\<exists>t' A' B'. execute exact_fpu eig info (tile_type info wk) t = Inr (SCAMP_NO_ERROR, t') \<and> tile_ready info Ta Tb t' wk
    \<and> kernel_entries info J sh t' A' B' \<and> tile_done info Ta Tb J t' A' B'"
proof -
  have ok: "join_ok info eig Ta Tb J" using inv by (simp add: join_inv_def)
  note b = ready_bounds [OF R ok] and f = join_okD [OF ok]
  have r: "wk \<in> join_tiles info" "placed info wk t" "loaded info Ta Tb t"
    using R by (simp_all add: tile_ready_def)
  have AB: "profile_a_tile_dev t = Dev_entry A" "profile_b_tile_dev t = Dev_entry B"
      "length A = nat (op_max_tile_width info)" "length B = nat (op_max_tile_width info)"
    and ent: "\<And>k. k < nat (tile_n_x info t) \<Longrightarrow>
        tile_entry (spec_a J) (sh_profile_a sh) (current_tile_row t) (current_tile_col t + int k) (A ! k)"
      "\<And>k. op_computing_rows info \<Longrightarrow> k < nat (tile_n_y info t) \<Longrightarrow>
        tile_entry (spec_b J) (row_profile info sh) (current_tile_col t) (current_tile_row t + int k) (B ! k)"
    using R K by (auto simp: kernel_entries_def tile_ready_def tile_mem_def Let_def)
  have eok: "entries_ok info t A B"
    using AB b ent [THEN tile_entry_not_nan [rotated]] f(6,7) by (simp add: entries_ok_def)
  let ?C = "executed_region info (tile_type info wk) t"
  let ?v = "col_value info (reals_of Ta) (nan_of info Ta) (reals_of Tb) (nan_of info Tb) t"
  obtain q A' B' where ex: "execute exact_fpu eig info (tile_type info wk) t
      = Inr (SCAMP_NO_ERROR, t\<lparr>QT_dev := q, profile_a_tile_dev := Dev_entry A', profile_b_tile_dev := Dev_entry B'\<rparr>)"
      "length q = length (QT_dev t)" and E: "entries_improved info t ?v ?C A B A' B'"
    using execute_correct [OF r(3) f(14) [OF r(1,2)] eok f(3)] by blast
  let ?t = "t\<lparr>QT_dev := q, profile_a_tile_dev := Dev_entry A', profile_b_tile_dev := Dev_entry B'\<rparr>"
  have C: "(y, z) \<in> ?C \<longleftrightarrow> 0 \<le> y \<and> y < tile_n_y info t \<and> 0 \<le> z \<and> z < tile_n_x info t
      \<and> spec_cell J (current_tile_row t + y) (current_tile_col t + z)" for y z
    by (rule f(15) [OF r(1,2)])
  have v: "?v z y = join_value info Ta Tb (current_tile_row t + y) (current_tile_col t + z)" if "0 \<le> y" "0 \<le> z" for y z
    using that b(1,2) by (simp add: col_value_def join_value_def nat_add_distrib)
  have imp: "\<And>k. k < nat (tile_n_x info t) \<Longrightarrow> improved (\<lambda>y. ?v (int k) y) {y. (y, int k) \<in> ?C} (A ! k) (A' ! k)"
      "\<And>k. op_computing_rows info \<Longrightarrow> k < nat (tile_n_y info t) \<Longrightarrow> improved (\<lambda>y. ?v y (int k)) {y. (int k, y) \<in> ?C} (B ! k) (B' ! k)"
      "length A' = length A" "length B' = length B"
    using E f(5) by (simp_all add: entries_improved_def)
  have "tile_ready info Ta Tb ?t wk" by (rule tile_ready_dev [OF R ex(2)]) (use imp(3,4) AB in simp_all)
  moreover have "kernel_entries info J sh ?t A' B'"
  proof -
    have "tile_entry (spec_a J) (sh_profile_a sh) (current_tile_row t) (current_tile_col t + int k) (A' ! k)" if "k < nat (tile_n_x info t)" for k
      by (rule improved_tile_entry [OF imp(1) [OF that] ent(1) [OF that]]) (use that b in \<open>auto simp: C v f(8-11) dest!: f(13)\<close>)
    moreover have "tile_entry (spec_b J) (row_profile info sh) (current_tile_col t) (current_tile_row t + int k) (B' ! k)"
      if "op_computing_rows info" "k < nat (tile_n_y info t)" for k
      by (rule improved_tile_entry [OF imp(2) [OF that] ent(2) [OF that]]) (use that b in \<open>auto simp: C v f(8-11) dest!: f(13)\<close>)
    ultimately show ?thesis by (simp add: kernel_entries_def)
  qed
  moreover have "tile_done info Ta Tb J ?t A' B'"
  proof -
    have "fle (join_value info Ta Tb (current_tile_row t + y) (current_tile_col t + z)) (floats0 (A' ! nat z))
       \<and> (op_computing_rows info \<longrightarrow> fle (join_value info Ta Tb (current_tile_row t + y) (current_tile_col t + z)) (floats0 (B' ! nat y)))"
      if c: "(y, z) \<in> ?C" for y z
    proof -
      have k: "nat z < nat (tile_n_x info t)" "nat y < nat (tile_n_y info t)" "int (nat z) = z" "int (nat y) = y" "0 \<le> y" "0 \<le> z"
        using c by (auto simp: C)
      have "fle (?v z y) (floats0 (A' ! nat z))" "op_computing_rows info \<Longrightarrow> fle (?v z y) (floats0 (B' ! nat y))"
        using imp(1) [OF k(1)] imp(2) [OF _ k(2)] c k(3,4) by (simp_all add: improved_def)
      then show ?thesis by (simp add: v [OF k(5,6)])
    qed
    then show ?thesis by (simp add: tile_done_def C)
  qed
  ultimately show ?thesis using ex(1) by blast
qed

lemma merge_ok:
  assumes inv: "join_inv info eig Ta Tb J sh" and R: "tile_ready info Ta Tb t wk"
    and K: "kernel_entries info J sh t A B" and D: "tile_done info Ta Tb J t A B"
  shows "\<exists>t' pa pb sh'. MergeProfile exact_fpu info t (sh_profile_a sh) (sh_profile_b sh) = Inr (True, t', pa, pb)
    \<and> tile_mem info t' \<and> sh' = sh\<lparr>sh_profile_a := pa, sh_profile_b := pb\<rparr> \<and> join_inv info eig Ta Tb J sh'
    \<and> join_guarantee info J sh sh' \<and> covers info Ta Tb J sh' wk"
proof -
  let ?p = "sh_profile_a sh" and ?c = "current_tile_col t" and ?r = "current_tile_row t"
    and ?n = "tile_n_x info t" and ?m = "tile_n_y info t"
  have ok: "join_ok info eig Ta Tb J" and P: "profile_ok (spec_a J) ?p"
      and Q: "op_computing_rows info \<Longrightarrow> profile_ok (spec_b J) (row_profile info sh)"
    using inv by (simp_all add: join_inv_def)
  note b = ready_bounds [OF R ok] and f = join_okD [OF ok]
  have r: "wk \<in> join_tiles info" "placed info wk t" using R by (simp_all add: tile_ready_def)
  have AB: "profile_a_tile_dev t = Dev_entry A" "profile_b_tile_dev t = Dev_entry B"
      "length A = nat (op_max_tile_width info)" "length B = nat (op_max_tile_width info)"
    and tp: "typed_data PROFILE_TYPE_1NN_INDEX (profile_a_tile t)" "typed_data PROFILE_TYPE_1NN_INDEX (profile_b_tile t)"
      "length (entries (profile_a_tile t)) = nat (op_max_tile_width info)" "length (entries (profile_b_tile t)) = nat (op_max_tile_width info)"
    and ent: "\<And>k. k < nat ?n \<Longrightarrow> tile_entry (spec_a J) ?p ?r (?c + int k) (A ! k)"
      "\<And>k. op_computing_rows info \<Longrightarrow> k < nat ?m \<Longrightarrow> tile_entry (spec_b J) (row_profile info sh) ?c (?r + int k) (B ! k)"
    using R K by (auto simp: kernel_entries_def tile_ready_def tile_mem_def Let_def entries_def)
  obtain ta where ta: "CopyFromDevice info (Dev_entry A) ?n (profile_a_tile t) = Inr ta" "typed_data PROFILE_TYPE_1NN_INDEX ta"
      "length (entries ta) = nat (op_max_tile_width info)" "\<And>k. k < nat ?n \<Longrightarrow> entries ta ! k = A ! k"
    using copy_index [OF tp(1) b(3), of A info] b AB tp by auto
  obtain tb where tb: "CopyFromDevice info (Dev_entry B) ?m (profile_b_tile t) = Inr tb" "typed_data PROFILE_TYPE_1NN_INDEX tb"
      "length (entries tb) = nat (op_max_tile_width info)" "\<And>k. k < nat ?m \<Longrightarrow> entries tb ! k = B ! k"
    using copy_index [OF tp(2) b(4), of B info] b AB tp by auto
  obtain p1 where p1: "MergeTileToProfile exact ta info ?c ?n ?r False ?p = Inr p1" "profile_ok (spec_a J) p1" "improves (spec_a J) ?p p1"
      "\<And>k. k < nat ?n \<Longrightarrow> fle (floats0 (A ! k)) (floats0 (entries p1 ! nat (?c + int k)))"
    using merge_tile_entries [OF P ta(2) b(1,3) _ _, of ?r exact info False] ta b ent(1) f(8) by auto
  let ?sh1 = "sh\<lparr>sh_profile_a := p1\<rparr>"
  have Q1: "profile_ok (spec_b J) (row_profile info ?sh1)" "improves (spec_b J) (row_profile info sh) (row_profile info ?sh1)"
    if "op_computing_rows info"
    using Q [OF that] f(12) [OF that] p1(2,3) improves_refl by (auto simp: row_profile_def)
  let ?tb = "if op_computing_rows info then tb else profile_b_tile t"
  let ?t = "t\<lparr>profile_a_tile := ta, profile_b_tile := ?tb\<rparr>"
  obtain sh' where m: "MergeProfile exact_fpu info t ?p (sh_profile_b sh) = Inr (True, ?t, sh_profile_a sh', sh_profile_b sh')"
      "sh' = sh\<lparr>sh_profile_a := sh_profile_a sh', sh_profile_b := sh_profile_b sh'\<rparr>"
    and pa: "profile_ok (spec_a J) (sh_profile_a sh')" "improves (spec_a J) p1 (sh_profile_a sh')"
    and pb: "op_computing_rows info \<Longrightarrow> profile_ok (spec_b J) (row_profile info sh') \<and> improves (spec_b J) (row_profile info ?sh1) (row_profile info sh')
        \<and> (\<forall>k < nat ?m. fle (floats0 (B ! k)) (floats0 (entries (row_profile info sh') ! nat (?r + int k))))"
  proof (cases "op_computing_rows info")
    case rows: True
    note Qr = Q1 [OF rows]
    have ent1: "tile_entry (spec_b J) (row_profile info ?sh1) ?c (?r + int k) (entries tb ! k)" if "k < nat ?m" for k
      using tile_entry_improves [OF ent(2) [OF rows that] Qr(2)] that b(2,6) tb(4) f(10) by auto
    obtain p2 where p2: "MergeTileToProfile exact tb info ?r ?m ?c False (row_profile info ?sh1) = Inr p2" "profile_ok (spec_b J) p2"
        "improves (spec_b J) (row_profile info ?sh1) p2" "\<And>k. k < nat ?m \<Longrightarrow> fle (floats0 (B ! k)) (floats0 (entries p2 ! nat (?r + int k)))"
      using merge_tile_entries [OF Qr(1) tb(2) b(2,4) _ _ ent1, of exact info False] tb b f(10) by auto
    show ?thesis
    proof (cases "op_keep_rows_separate info")
      case True
      show ?thesis
        by (rule that [of "sh\<lparr>sh_profile_a := p1, sh_profile_b := p2\<rparr>"])
          (use True rows f(4) b(3,4) ta(1) tb(1) p1 p2 AB(1,2) improves_refl in
           \<open>auto simp: MergeProfile_def merge_dims_def NeedsSort_def Let_def row_profile_def simp del: exact_simps\<close>)
    next
      case False
      show ?thesis
        by (rule that [of "sh\<lparr>sh_profile_a := p2\<rparr>"])
          (use False rows f(4) f(12) [OF rows False] b(3,4) ta(1) tb(1) p1 p2 AB(1,2) in
           \<open>auto simp: MergeProfile_def merge_dims_def NeedsSort_def Let_def row_profile_def simp del: exact_simps\<close>)
    qed
  next
    case False
    show ?thesis
      by (rule that [of ?sh1])
        (use False f(4) b(3,4) ta(1) p1 AB(1,2) improves_refl in
         \<open>auto simp: MergeProfile_def merge_dims_def NeedsSort_def Let_def simp del: exact_simps\<close>)
  qed
  have mem: "tile_mem info ?t"
    using R ta(2,3) tb(2,3) by (simp add: tile_ready_def tile_mem_def Let_def entries_def)
  have same: "work_queue sh' = work_queue sh" "completed_tiles sh' = completed_tiles sh"
    by (subst m(2), simp)+
  have G: "join_guarantee info J sh sh'"
    using improves_trans [OF p1(3) pa(2)] improves_trans [OF Q1(2)] pb same by (auto simp: join_guarantee_def)
  have "join_inv info eig Ta Tb J sh'" using inv pa(1) pb same by (simp add: join_inv_def)
  moreover have "covers info Ta Tb J sh' wk"
    unfolding covers_def
  proof (clarify)
    fix i j assume ij: "(i, j) \<in> tile_cells info wk" "spec_cell J i j"
    note bd = tile_cells_bounds [OF f(1) r(1) ij(1)]
    have pos: "0 \<le> i - ?r" "i - ?r < ?m" "0 \<le> j - ?c" "j - ?c < ?n"
      using ij(1) r(2) by (auto simp: tile_cells_def placed_def tile_n_x_def tile_n_y_def)
    then have v: "fle (join_value info Ta Tb i j) (floats0 (A ! nat (j - ?c)))"
        "op_computing_rows info \<Longrightarrow> fle (join_value info Ta Tb i j) (floats0 (B ! nat (i - ?r)))"
      using D [unfolded tile_done_def, rule_format, of "i - ?r" "j - ?c"] ij(2) by simp_all
    have k: "nat (j - ?c) < nat ?n" "?c + int (nat (j - ?c)) = j" "nat (i - ?r) < nat ?m" "?r + int (nat (i - ?r)) = i"
      using pos by auto
    have "fle (join_value info Ta Tb i j) (floats0 (entries p1 ! nat j))"
      using p1(4) [OF k(1)] v(1) fle_trans unfolding k(2) by blast
    then have "fle (join_value info Ta Tb i j) (floats0 (entries (sh_profile_a sh') ! nat j))"
      using improves_fle [OF pa(2) bd(3)] bd(4) f(8) by simp
    moreover have "fle (join_value info Ta Tb i j) (floats0 (entries (row_profile info sh') ! nat i))" if "op_computing_rows info"
      using pb [OF that] k(3,4) v(2) [OF that] fle_trans by metis
    ultimately show "fle (join_value info Ta Tb i j) (floats0 (entries (sh_profile_a sh') ! nat j))
        \<and> (op_computing_rows info \<longrightarrow> fle (join_value info Ta Tb i j) (floats0 (entries (row_profile info sh') ! nat i)))" by blast
  qed
  ultimately show ?thesis using m mem G by blast
qed

subsection \<open>Every step keeps the contract\<close>

text \<open>What one step of a worker must satisfy.\<close>

definition step_ok :: "OpInfo \<Rightarrow> eigen \<Rightarrow> fp list \<Rightarrow> fp list \<Rightarrow> join_spec \<Rightarrow> worker \<Rightarrow> shared \<Rightarrow> worker \<times> shared \<Rightarrow> bool" where
  "step_ok info eig Ta Tb J w sh r \<longleftrightarrow> (case r of (w', sh') \<Rightarrow>
     (join_inv info eig Ta Tb J sh' \<and> worker_assertion info Ta Tb J sh' w' \<and> join_guarantee info J sh sh')
     \<and> set (work_queue sh) \<union> worker_task w \<subseteq> set (work_queue sh') \<union> worker_task w' \<union> complete_tiles info Ta Tb J sh'
     \<and> (if finished w then w' = w \<and> sh' = sh else worker_cost w' + queue_cost sh' < worker_cost w + queue_cost sh)
     \<and> worker_tally w' + queue_tally sh' = worker_tally w + queue_tally sh)"

lemma guarantee_refl: "join_inv info eig Ta Tb J sh \<Longrightarrow> join_guarantee info J sh sh"
  by (auto simp: join_guarantee_def join_inv_def intro: improves_refl)

lemma sentinel_not_tile: "sentinel \<notin> join_tiles info"
  by (simp add: sentinel_def join_tiles_def upper_tiles_def all_tiles_def)

lemma reset_always:
  assumes "join_ok info eig Ta Tb J"
  shows "NeedsIntermittentReset (op_profile_type info)" "NeedsIntermittentMerge (op_profile_type info)"
  using join_okD(4) [OF assms] by (simp_all add: NeedsIntermittentReset_def NeedsIntermittentMerge_def)

lemma join_inv_queue:
  assumes "join_inv info eig Ta Tb J sh" "set q \<subseteq> join_tiles info" "work_queue sh = [] \<longrightarrow> q = []"
  shows "join_inv info eig Ta Tb J (sh\<lparr>work_queue := q\<rparr>)" "join_guarantee info J sh (sh\<lparr>work_queue := q\<rparr>)"
  using assms guarantee_refl [OF assms(1)] by (simp_all add: join_inv_def join_guarantee_def)

lemma complete_tiles_queue [simp]:
  "complete_tiles info Ta Tb J (sh\<lparr>work_queue := q\<rparr>) = complete_tiles info Ta Tb J sh"
  "complete_tiles info Ta Tb J (sh\<lparr>completed_tiles := n\<rparr>) = complete_tiles info Ta Tb J sh"
  by (simp_all add: complete_tiles_def covers_def)

lemma worker_step_ok:
  assumes inv: "join_inv info eig Ta Tb J sh" and A: "worker_assertion info Ta Tb J sh w"
  shows "step_ok info eig Ta Tb J w sh (worker_step (join_env eig fresh info Ta Tb) w sh)"
proof -
  have ok: "join_ok info eig Ta Tb J" and q: "set (work_queue sh) \<subseteq> join_tiles info" "0 \<le> completed_tiles sh"
    using inv by (simp_all add: join_inv_def)
  note f = join_okD [OF ok]
  note G = guarantee_refl [OF inv] and always [simp] = reset_always [OF ok]
  show ?thesis
  proof (cases w)
    case (W_new arch)
    then obtain t where "Tile_init (rd32 exact_fpu) fresh info CPU_WORKER = Inr t" "tile_mem info t" "arch = CPU_WORKER"
      using Tile_init_mem [OF f(1,4)] A by auto
    then show ?thesis
      using W_new inv G by (simp add: step_ok_def worker_start_def or_fail_def finished_def Let_def)
  next
    case (W_idle t)
    then show ?thesis using A inv G by (simp add: step_ok_def finished_def tsq_empty_def)
  next
    case (W_pop t)
    show ?thesis
    proof (cases "work_queue sh")
      case Nil
      then show ?thesis using A inv G W_pop join_inv_queue [OF inv, of "[]"]
        by (simp add: step_ok_def finished_def tsq_pop_def queue_cost_def queue_tally_def)
    next
      case (Cons wk rest)
      have wk: "wk \<in> join_tiles info" "wk \<noteq> sentinel" using q(1) Cons sentinel_not_tile by auto
      obtain t' where "load_tile (join_env eig fresh info Ta Tb) wk t = Some t'" "tile_ready info Ta Tb t' wk"
        using load_tile_ok [OF f(2) _ wk(1), of t fresh] A W_pop wk(1) by (auto simp: tile_ready_def)
      then show ?thesis
        using wk(2) W_pop Cons q(1) join_inv_queue [OF inv, of rest]
        by (auto simp: step_ok_def finished_def tsq_pop_def or_fail_def queue_cost_def queue_tally_def)
    qed
  next
    case (W_reset t wk)
    obtain t' A' B' where "InitProfile info (sh_profile_a sh) (sh_profile_b sh) t = Inr (SCAMP_NO_ERROR, t')" "tile_ready info Ta Tb t' wk"
        "kernel_entries info J sh t' A' B'"
      using init_profile_ok [OF inv, of t wk] A W_reset by auto
    then show ?thesis using W_reset inv G by (auto simp: step_ok_def finished_def or_fail_def)
  next
    case (W_exec t wk)
    then obtain A0 B0 where "tile_ready info Ta Tb t wk" "kernel_entries info J sh t A0 B0" using A by auto
    from execute_ok [OF inv this] obtain t' A' B' where
        "execute exact_fpu eig info (tile_type info wk) t = Inr (SCAMP_NO_ERROR, t')" "tile_ready info Ta Tb t' wk"
        "kernel_entries info J sh t' A' B'" "tile_done info Ta Tb J t' A' B'" by blast
    then show ?thesis using W_exec inv G by (auto simp: step_ok_def finished_def or_fail_def)
  next
    case (W_merge t wk)
    then obtain A0 B0 where R: "tile_ready info Ta Tb t wk" "kernel_entries info J sh t A0 B0" "tile_done info Ta Tb J t A0 B0"
      using A by auto
    from merge_ok [OF inv R] obtain t' pa pb where
        m: "MergeProfile exact_fpu info t (sh_profile_a sh) (sh_profile_b sh) = Inr (True, t', pa, pb)" "tile_mem info t'"
        "join_inv info eig Ta Tb J (sh\<lparr>sh_profile_a := pa, sh_profile_b := pb\<rparr>)"
        "join_guarantee info J sh (sh\<lparr>sh_profile_a := pa, sh_profile_b := pb\<rparr>)"
        "covers info Ta Tb J (sh\<lparr>sh_profile_a := pa, sh_profile_b := pb\<rparr>) wk" by blast
    have "wk \<in> join_tiles info" using R(1) by (simp add: tile_ready_def)
    then show ?thesis using W_merge m
      by (auto simp: step_ok_def finished_def or_fail_def complete_tiles_def queue_cost_def queue_tally_def)
  next
    case (W_count t)
    have "join_inv info eig Ta Tb J (sh\<lparr>completed_tiles := completed_tiles sh + 1\<rparr>)"
      "join_guarantee info J sh (sh\<lparr>completed_tiles := completed_tiles sh + 1\<rparr>)"
      using inv G q(2) by (simp_all add: join_inv_def join_guarantee_def)
    then show ?thesis using W_count A q(2)
      by (simp add: step_ok_def finished_def queue_cost_def queue_tally_def nat_add_distrib)
  next
    case (W_exit t)
    then show ?thesis using A inv G by (simp add: step_ok_def finished_def)
  next
    case W_done
    then show ?thesis using A inv G by (simp add: step_ok_def finished_def)
  next
    case (W_failed e)
    then show ?thesis using A by simp
  qed
qed

interpretation join: worker_pool "worker_step (join_env eig fresh info Ta Tb)" finished "join_inv info eig Ta Tb J"
  "worker_assertion info Ta Tb J" "join_guarantee info J" "\<lambda>sh. set (work_queue sh)" "complete_tiles info Ta Tb J" worker_task
  worker_cost queue_cost worker_tally queue_tally
  for info eig fresh Ta Tb J
proof
  fix s s' w w'
  assume I: "join_inv info eig Ta Tb J s" "worker_assertion info Ta Tb J s w"
    and st: "worker_step (join_env eig fresh info Ta Tb) w s = (w', s')"
  have "step_ok info eig Ta Tb J w s (w', s')" using worker_step_ok [OF I, of fresh] st by simp
  then show "join_inv info eig Ta Tb J s' \<and> worker_assertion info Ta Tb J s' w' \<and> join_guarantee info J s s'"
    and "set (work_queue s) \<union> worker_task w \<subseteq> set (work_queue s') \<union> worker_task w' \<union> complete_tiles info Ta Tb J s'"
    and "if finished w then w' = w \<and> s' = s else worker_cost w' + queue_cost s' < worker_cost w + queue_cost s"
    and "worker_tally w' + queue_tally s' = worker_tally w + queue_tally s"
    unfolding step_ok_def by blast+
next
  show "worker_assertion info Ta Tb J s' v"
    if "join_guarantee info J s s'" "join_inv info eig Ta Tb J s" "join_inv info eig Ta Tb J s'" "worker_assertion info Ta Tb J s v"
    for s s' v using that(1,2,4) by (rule assertion_stable)
  show "complete_tiles info Ta Tb J s \<subseteq> complete_tiles info Ta Tb J s'"
    if "join_guarantee info J s s'" "join_inv info eig Ta Tb J s" "join_inv info eig Ta Tb J s'"
    for s s' using that(1,2) by (rule complete_tiles_mono)
  show "worker_task w = {} \<and> worker_tally w = 0" if "finished w" for w
    using that by (cases w) (auto simp: finished_def)
  show "set (work_queue s) = {}" if "worker_assertion info Ta Tb J s w" "finished w" for s w
    using that by (cases w) (auto simp: finished_def)
qed
end
