(* ===== verification/JoinRun.thy ===== *)
theory JoinRun
  imports JoinCorrect
begin

text \<open>
  A join from its start to its end: no worker fails under any schedule, and once all have finished the profiles hold
  the best matches of their sides. What is left to an instance is that the tiles look at the cells of its
  specification, and that these cells cover the matches of both sides.
\<close>

subsection \<open>The future of every worker\<close>

lemma join_futures_finished:
  "join_futures ws = Some (Inr ()) \<longleftrightarrow> (\<forall>w \<in> set ws. w = W_done)"
  by (induction ws rule: join_futures.induct) auto

lemma join_futures_no_failure:
  "\<forall>w \<in> set ws. \<forall>e. w \<noteq> W_failed e \<Longrightarrow> join_futures ws = None \<or> join_futures ws = Some (Inr ())"
  by (induction ws rule: join_futures.induct) auto

text \<open>The start of a join satisfies the invariant of the pool.\<close>

definition start_of :: "ThreadSafeQueue \<Rightarrow> nat \<Rightarrow> Profile \<Rightarrow> Profile \<Rightarrow> worker list \<times> shared" where
  "start_of q n pa pb = (initial_workers 0 n, \<lparr>work_queue = q, sh_profile_a = pa, sh_profile_b = pb, completed_tiles = 0\<rparr>)"

definition fresh_profiles :: "OpInfo \<Rightarrow> Profile \<Rightarrow> Profile \<Rightarrow> bool" where
  "fresh_profiles info pa pb \<longleftrightarrow> fresh_profile (windows_a info) pa
     \<and> (op_computing_rows info \<and> op_keep_rows_separate info \<longrightarrow> fresh_profile (windows_b info) pb)"

lemma start_inv:
  assumes "join_ok info eig Ta Tb J" "fresh_profiles info pa pb" "distinct q" "set q = join_tiles info"
  shows "join.pool_inv info eig Ta Tb J (join_tiles info) (card (join_tiles info)) (start_of q n pa pb)"
    "join.pool_cost (start_of q n pa pb) = 5 * n + 10 * card (join_tiles info)"
proof -
  note f = join_okD [OF assms(1)]
  have card: "card (join_tiles info) = length q" using assms(3,4) distinct_card by metis
  have "profile_ok (spec_a J) pa"
    using assms(2) f(6,8) by (auto simp: fresh_profiles_def intro: fresh_profile_ok)
  moreover have "profile_ok (spec_b J) (row_profile info (snd (start_of q n pa pb)))" if "op_computing_rows info"
    using assms(2) f(6-10) f(12) [OF that] that
    by (auto simp: fresh_profiles_def row_profile_def start_of_def intro: fresh_profile_ok)
  ultimately show "join.pool_inv info eig Ta Tb J (join_tiles info) (card (join_tiles info)) (start_of q n pa pb)"
    using assms(1,4) card
    by (auto simp: start_of_def join.pool_inv_def join_inv_def initial_workers_def queue_tally_def)
  show "join.pool_cost (start_of q n pa pb) = 5 * n + 10 * card (join_tiles info)"
    by (simp add: start_of_def join.pool_cost_def initial_workers_def queue_cost_def card sum_list_replicate)
qed

lemma do_join_run:
  assumes "join_input_ok info eig Ta Tb"
  shows "\<exists>q. distinct q \<and> set q = join_tiles info \<and>
    do_join exact_fpu eig fresh info 0 n sched Ta Tb pa pb =
      (case run_pool (worker_step (join_env eig fresh info Ta Tb)) sched (start_of q n pa pb) of
         (ws, sh) \<Rightarrow> map_option (\<lambda>r. rbind r (\<lambda>_. Inr (SCAMP_NO_ERROR, sh))) (join_futures ws))"
proof -
  obtain q where "prepare_join exact_fpu eig fresh info Ta Tb = Some (join_env eig fresh info Ta Tb, q)"
      "distinct q" "set q = join_tiles info"
    using prepare_join_ok [OF assms] by blast
  then show ?thesis by (intro exI [of _ q]) (simp add: do_join_def start_of_def)
qed

text \<open>Every schedule: no worker fails, and if all have finished every tile has been merged.\<close>

lemma join_runs:
  assumes "join_ok info eig Ta Tb J" "fresh_profiles info pa pb" "distinct q" "set q = join_tiles info" "0 < n"
    and c_def: "c = run_pool (worker_step (join_env eig fresh info Ta Tb)) sched (start_of q n pa pb)"
  shows "join_futures (fst c) = None \<or> join_futures (fst c) = Some (Inr ()) \<and> join_inv info eig Ta Tb J (snd c)
      \<and> (\<forall>wk \<in> join_tiles info. covers info Ta Tb J (snd c) wk) \<and> completed_tiles (snd c) = int (card (join_tiles info))"
    and "fair n (5 * n + 10 * card (join_tiles info)) sched \<Longrightarrow> join_futures (fst c) = Some (Inr ())"
proof -
  let ?U = "join_tiles info"
  note S = start_inv [OF assms(1-4), of n]
  have I: "join.pool_inv info eig Ta Tb J ?U (card ?U) c"
    unfolding c_def by (rule join.run_inv [OF S(1)])
  have len: "length (fst (run_pool step sched c0)) = length (fst c0)" for step :: "worker \<Rightarrow> shared \<Rightarrow> worker \<times> shared" and c0
    by (induction sched arbitrary: c0) simp_all
  have "length (fst c) = n" unfolding c_def len by (simp add: start_of_def initial_workers_def)
  then have ne: "fst c \<noteq> []" using assms(5) by auto
  have as: "\<And>w. w \<in> set (fst c) \<Longrightarrow> worker_assertion info Ta Tb J (snd c) w" and inv: "join_inv info eig Ta Tb J (snd c)"
    using I unfolding join.pool_inv_def by blast+
  have nf: "\<forall>w \<in> set (fst c). \<forall>e. w \<noteq> W_failed e" using as by fastforce
  note jf = join_futures_no_failure [OF nf]
  show "join_futures (fst c) = None \<or> join_futures (fst c) = Some (Inr ()) \<and> join_inv info eig Ta Tb J (snd c)
      \<and> (\<forall>wk \<in> join_tiles info. covers info Ta Tb J (snd c) wk) \<and> completed_tiles (snd c) = int (card ?U)"
  proof (cases "join_futures (fst c) = None")
    case False
    then have "join_futures (fst c) = Some (Inr ())" using jf by auto
    then have d: "\<forall>w \<in> set (fst c). w = W_done" unfolding join_futures_finished .
    have fin: "\<forall>w \<in> set (fst c). finished w"
    proof
      fix w assume "w \<in> set (fst c)"
      with d have "w = W_done" by (rule bspec)
      then show "finished w" by (simp add: finished_def)
    qed
    have I': "join.pool_inv info eig Ta Tb J ?U (card ?U) (fst c, snd c)" using I unfolding prod.collapse .
    note fc = join.finished_complete [OF I' fin ne]
    have "work_queue (snd c) = []"
    proof -
      have "hd (fst c) \<in> set (fst c)" using ne by simp
      moreover from d this have "hd (fst c) = W_done" by (rule bspec)
      ultimately have "W_done \<in> set (fst c)" by simp
      then show ?thesis using as [of W_done] by simp
    qed
    then have "nat (completed_tiles (snd c)) = card ?U" using fc(2) by (simp add: queue_tally_def)
    then have "completed_tiles (snd c) = int (card ?U)" using inv by (auto simp: join_inv_def)
    moreover have "\<forall>wk \<in> ?U. covers info Ta Tb J (snd c) wk" using fc(1) by (auto simp: complete_tiles_def)
    ultimately show ?thesis using False jf inv by blast
  qed simp
  assume "fair n (5 * n + 10 * card ?U) sched"
  moreover have "length (fst (start_of q n pa pb)) = n" by (simp add: start_of_def initial_workers_def)
  ultimately have "fair (length (fst (start_of q n pa pb))) (join.pool_cost (start_of q n pa pb)) sched"
    unfolding S(2) by simp
  from join.fair_run_finishes [OF S(1) this, of fresh] have "\<forall>w \<in> set (fst c). finished w"
    unfolding c_def .
  then have "\<forall>w \<in> set (fst c). w = W_done" using nf unfolding finished_def by (metis worker.exhaust worker.simps)
  then show "join_futures (fst c) = Some (Inr ())" by (simp add: join_futures_finished)
qed

subsection \<open>The profiles at the end\<close>

text \<open>
  Every match of a side is the value of a cell; the profile of a self join takes both directions of a cell, which
  is above the diagonal.
\<close>

definition spec_complete :: "OpInfo \<Rightarrow> join_spec \<Rightarrow> bool" where
  "spec_complete info J \<longleftrightarrow>
     (\<forall>i j. 0 \<le> i \<and> i < windows_b info \<and> 0 \<le> j \<and> j < windows_a info \<longrightarrow>
        (op_self_join info \<and> spec_cell J i j \<longrightarrow> i \<le> j)
      \<and> (side_match (spec_a J) j i \<longrightarrow> spec_cell J i j
            \<or> op_self_join info \<and> op_computing_rows info \<and> \<not> op_keep_rows_separate info \<and> spec_cell J j i)
      \<and> (side_match (spec_b J) i j \<longrightarrow> spec_cell J i j
            \<or> op_self_join info \<and> op_computing_rows info \<and> \<not> op_keep_rows_separate info \<and> spec_cell J j i))"

lemma tile_of_cell:
  assumes g: "geometry_ok info" and "0 \<le> i" "i < windows_b info" "0 \<le> j" "j < windows_a info"
    and "op_self_join info \<Longrightarrow> i \<le> j"
  shows "\<exists>wk \<in> join_tiles info. (i, j) \<in> tile_cells info wk"
proof -
  let ?wk = "(i div op_max_tile_height info, j div op_max_tile_width info)"
  have h: "op_max_tile_height info = op_max_tile_width info" "0 < op_max_tile_width info" using g by (auto simp: geometry_ok_def)
  have "?wk \<in> all_tiles (num_tile_rows info) (num_tile_cols info)" "(i, j) \<in> tile_cells info ?wk"
    using tile_cells_unique [OF g, of i j ?wk] assms(2-5) by (auto simp: windows_a_def windows_b_def)
  moreover have "op_self_join info \<Longrightarrow> ?wk \<in> upper_tiles (num_tile_cols info)"
    using calculation(1) assms(6) zdiv_mono1 [of i j] h by (auto simp: all_tiles_def upper_tiles_def)
  ultimately show ?thesis by (intro bexI [of _ ?wk]) (auto simp: join_tiles_def)
qed

lemma covered_best_matches:
  assumes inv: "join_inv info eig Ta Tb J sh" and C: "\<forall>wk \<in> join_tiles info. covers info Ta Tb J sh wk"
    and complete: "spec_complete info J"
  shows "best_matches (spec_a J) (sh_profile_a sh)"
    "op_computing_rows info \<Longrightarrow> best_matches (spec_b J) (row_profile info sh)"
proof -
  have ok: "join_ok info eig Ta Tb J" and P: "profile_ok (spec_a J) (sh_profile_a sh)"
    and Q: "op_computing_rows info \<Longrightarrow> profile_ok (spec_b J) (row_profile info sh)"
    using inv by (simp_all add: join_inv_def)
  note f = join_okD [OF ok]
  have same: "windows_b info = windows_a info" if "op_self_join info"
    using f(1) that by (auto simp: windows_a_def windows_b_def geometry_ok_def)
  have cell: "fle (join_value info Ta Tb i j) (floats0 (entries (sh_profile_a sh) ! nat j))
      \<and> (op_computing_rows info \<longrightarrow> fle (join_value info Ta Tb i j) (floats0 (entries (row_profile info sh) ! nat i)))"
    if "0 \<le> i" "i < windows_b info" "0 \<le> j" "j < windows_a info" "spec_cell J i j" for i j
  proof -
    have "op_self_join info \<Longrightarrow> i \<le> j" using complete that unfolding spec_complete_def by blast
    from tile_of_cell [OF f(1) that(1-4) this]
    obtain wk where wk: "wk \<in> join_tiles info" "(i, j) \<in> tile_cells info wk" by blast
    show ?thesis using bspec [OF C wk(1)] wk(2) that(5) unfolding covers_def by fast
  qed
  show "best_matches (spec_a J) (sh_profile_a sh)"
  proof (rule best_matchesI [OF P])
    fix x y assume b: "0 \<le> x" "x < side_len (spec_a J)" "0 \<le> y" "y < side_others (spec_a J)" "side_match (spec_a J) x y"
    note r = b(1-4) [unfolded f(8,9)]
    consider "spec_cell J y x" | "op_self_join info" "op_computing_rows info" "\<not> op_keep_rows_separate info" "spec_cell J x y"
      using complete r b(5) unfolding spec_complete_def by blast
    then show "fle (side_value (spec_a J) x y) (floats0 (entries (sh_profile_a sh) ! nat x))"
    proof cases
      case 1
      then show ?thesis using cell [of y x] f(13) [OF 1] r by simp
    next
      case 2
      then show ?thesis
        using cell [of x y] f(13) [OF 2(4)] f(12) [OF 2(2,3)] r same by (auto simp: row_profile_def)
    qed
  qed
  show "best_matches (spec_b J) (row_profile info sh)" if rows: "op_computing_rows info"
  proof (rule best_matchesI [OF Q [OF rows]])
    fix x y assume b: "0 \<le> x" "x < side_len (spec_b J)" "0 \<le> y" "y < side_others (spec_b J)" "side_match (spec_b J) x y"
    note r = b(1-4) [unfolded f(10,11)]
    consider "spec_cell J x y" | "op_self_join info" "\<not> op_keep_rows_separate info" "spec_cell J y x"
      using complete r b(5) unfolding spec_complete_def by blast
    then show "fle (side_value (spec_b J) x y) (floats0 (entries (row_profile info sh) ! nat x))"
    proof cases
      case 1
      then show ?thesis using cell [of x y] f(13) [OF 1] r rows by simp
    next
      case 2
      then show ?thesis
        using cell [of y x] f(13) [OF 2(3)] f(12) [OF rows 2(2)] r same by (auto simp: row_profile_def)
    qed
  qed
qed

text \<open>A join under every schedule, and under a fair one.\<close>

lemma do_join_correct:
  assumes "join_ok info eig Ta Tb J" "spec_complete info J" "fresh_profiles info pa pb" "0 < n"
  shows "case do_join exact_fpu eig fresh info 0 n sched Ta Tb pa pb of
      None \<Rightarrow> True
    | Some r \<Rightarrow> \<exists>sh. r = Inr (SCAMP_NO_ERROR, sh) \<and> best_matches (spec_a J) (sh_profile_a sh)
        \<and> (op_computing_rows info \<longrightarrow> best_matches (spec_b J) (row_profile info sh))
        \<and> completed_tiles sh = int (card (join_tiles info))"
    and "fair n (5 * n + 10 * card (join_tiles info)) sched \<Longrightarrow>
      \<exists>sh. do_join exact_fpu eig fresh info 0 n sched Ta Tb pa pb = Some (Inr (SCAMP_NO_ERROR, sh))"
proof -
  obtain q where q: "distinct q" "set q = join_tiles info"
    "do_join exact_fpu eig fresh info 0 n sched Ta Tb pa pb =
      (case run_pool (worker_step (join_env eig fresh info Ta Tb)) sched (start_of q n pa pb) of
         (ws, sh) \<Rightarrow> map_option (\<lambda>r. rbind r (\<lambda>_. Inr (SCAMP_NO_ERROR, sh))) (join_futures ws))"
    using do_join_run [OF join_okD(2) [OF assms(1)]] by blast
  note R = join_runs [OF assms(1,3) q(1,2) assms(4) refl, where fresh = fresh and sched = sched]
  show "case do_join exact_fpu eig fresh info 0 n sched Ta Tb pa pb of
      None \<Rightarrow> True
    | Some r \<Rightarrow> \<exists>sh. r = Inr (SCAMP_NO_ERROR, sh) \<and> best_matches (spec_a J) (sh_profile_a sh)
        \<and> (op_computing_rows info \<longrightarrow> best_matches (spec_b J) (row_profile info sh))
        \<and> completed_tiles sh = int (card (join_tiles info))"
    using R(1) covered_best_matches [OF _ _ assms(2)] by (auto simp: q(3) split: prod.split)
  show "\<exists>sh. do_join exact_fpu eig fresh info 0 n sched Ta Tb pa pb = Some (Inr (SCAMP_NO_ERROR, sh))"
    if "fair n (5 * n + 10 * card (join_tiles info)) sched"
    using R(2) [OF that] by (auto simp: q(3) split: prod.split)
qed

end
