(* ===== verification/SelfJoin.thy ===== *)
theory SelfJoin
  imports JoinRun
begin

text \<open>
  The matrix profile: what \<open>do_join\<close> computes for a self join with profiles of type \<open>1NN_INDEX\<close>, in exact
  arithmetic, for every number of CPU workers and every interleaving of their steps.
\<close>

subsection \<open>The specification\<close>

definition num_windows :: "OpInfo \<Rightarrow> int" where
  "num_windows info = op_full_ts_len_A info - op_mp_window info + 1"

definition match_value_of :: "OpInfo \<Rightarrow> fp list \<Rightarrow> int \<Rightarrow> int \<Rightarrow> fp" where
  "match_value_of info T x y = (let w = nat (op_mp_window info); nv = nan_windows T w in
     pair_value (reals_of T) nv (reals_of T) nv w (nat x) (nat y))"

lemma match_value_commute: "match_value_of info T x y = match_value_of info T y x"
  unfolding match_value_of_def Let_def by (rule pair_value_commute)

lemma match_value_not_nan [simp]: "\<not> is_nan (match_value_of info T x y)"
  unfolding match_value_of_def Let_def by (rule finite_not_nan [OF pair_value_finite])

lemma join_value_self: "join_value info T T i j = match_value_of info T j i"
  by (simp add: join_value_def match_value_of_def Let_def)

text \<open>Window \<open>x\<close> is matched with every window outside the exclusion zone around it.\<close>

definition self_side :: "OpInfo \<Rightarrow> fp list \<Rightarrow> side" where
  "self_side info T = \<lparr>side_len = num_windows info, side_others = num_windows info,
     side_match = (\<lambda>x y. exclusion_zone info \<le> \<bar>x - y\<bar>), side_value = match_value_of info T\<rparr>"

text \<open>
  The entry of window \<open>x\<close> is a match outside the exclusion zone, none of which has a higher correlation; it is
  still empty only if none is above \<open>-2\<close>, the value of a pair with a flat or unclean window.
\<close>

definition matrix_profile_entry :: "OpInfo \<Rightarrow> fp list \<Rightarrow> int \<Rightarrow> mp_entry \<Rightarrow> bool" where
  "matrix_profile_entry info T x e \<longleftrightarrow> best_match (self_side info T) x e"

definition is_matrix_profile :: "OpInfo \<Rightarrow> fp list \<Rightarrow> Profile \<Rightarrow> bool" where
  "is_matrix_profile info T p \<longleftrightarrow> best_matches (self_side info T) p"

definition empty_profile :: "OpInfo \<Rightarrow> Profile \<Rightarrow> bool" where
  "empty_profile info p \<longleftrightarrow> fresh_profile (num_windows info) p"

lemma is_matrix_profile_entries:
  "is_matrix_profile info T p \<longleftrightarrow> typed_data PROFILE_TYPE_1NN_INDEX p \<and> length (entries p) = nat (num_windows info)
     \<and> (\<forall>x < nat (num_windows info). matrix_profile_entry info T (int x) (entries p ! x))"
  by (simp add: is_matrix_profile_def best_matches_def matrix_profile_entry_def self_side_def)

definition self_join_ok :: "OpInfo \<Rightarrow> eigen \<Rightarrow> fp list \<Rightarrow> bool" where
  "self_join_ok info eig T \<longleftrightarrow> geometry_ok info \<and> op_self_join info \<and> op_computing_rows info \<and> op_computing_cols info
     \<and> \<not> op_keep_rows_separate info \<and> type_ok info eig \<and> int (length T) = op_full_ts_len_A info"

subsection \<open>The cells of a tile\<close>

lemma tile_type_self: "op_self_join info \<Longrightarrow> tile_type info t = (if fst t = snd t then SELF_JOIN_UPPER_TRIANGULAR else SELF_JOIN_FULL_TILE)"
  by (simp add: tile_type_def)

lemma exclusions_self:
  assumes "geometry_ok info" "op_self_join info" "placed info wk t" "wk \<in> upper_tiles (num_tile_cols info)"
    and "op_profile_type info = PROFILE_TYPE_1NN_INDEX"
  shows "exclusions_ok info (tile_type info wk) t"
proof -
  obtain r c where wk: "wk = (r, c)" by (cases wk)
  have up: "exclusion_ok (tile_n_x info t) (tile_n_y info t) (get_exclusion_for_self_join info t True)"
    using exclusion_zone_bounds [OF assms(1)]
    by (auto simp: exclusion_ok_def get_exclusion_for_self_join_def get_exclusion_def diag_region_def exclusion_zone_def Let_def)
  have "exclusion_ok (tile_n_y info t) (tile_n_x info t) (get_exclusion_for_self_join info t False)" if "fst wk \<noteq> snd wk"
  proof -
    have "r < c" using that assms(4) by (auto simp: wk upper_tiles_def)
    from placed_diag(3) [OF assms(1) assms(3) [unfolded wk] assms(4) [unfolded wk] assms(2) this]
    have "tile_n_y info t = op_max_tile_width info" by (simp add: subseq_height_def tile_n_y_def)
    then show ?thesis
      using exclusion_zone_bounds [OF assms(1)] assms(5)
      by (auto simp: exclusion_ok_def get_exclusion_for_self_join_def get_exclusion_def exclusion_zone_def sums_values_def Let_def)
  qed
  then show ?thesis
    using up assms(2) by (auto simp: exclusions_ok_def tile_type_self is_ab_tile_def exclusion_of_def)
qed

lemma self_exclusion_position:
  assumes "placed info wk t"
  shows "get_exclusion_for_self_join info t b = get_exclusion_for_self_join info (tile_pos info wk) b"
  using assms by (simp add: placed_def tile_pos_def get_exclusion_for_self_join_def Let_def)

lemma executed_cells:
  assumes "geometry_ok info" "op_self_join info" "placed info wk t" "wk \<in> upper_tiles (num_tile_cols info)"
  shows "(r, c) \<in> executed_region info (tile_type info wk) t \<longleftrightarrow>
    0 \<le> r \<and> r < tile_n_y info t \<and> 0 \<le> c \<and> c < tile_n_x info t
    \<and> exclusion_zone info \<le> (current_tile_col t + c) - (current_tile_row t + r)"
proof -
  have p: "current_tile_row t = current_tile_row (tile_pos info wk)" "current_tile_col t = current_tile_col (tile_pos info wk)"
    "tile_n_x info t = subseq_width info (tile_pos info wk)" "tile_n_y info t = subseq_height info (tile_pos info wk)"
    using assms(3) by (simp_all add: placed_def tile_pos_def tile_n_x_def tile_n_y_def subseq_width_def subseq_height_def)
  have inj: "(row + r, col + c) \<in> (\<lambda>s. (row + fst s, col + snd s)) ` S \<longleftrightarrow> (r, c) \<in> S"
     "(row + r, col + c) \<in> (\<lambda>s. (row + snd s, col + fst s)) ` S \<longleftrightarrow> (c, r) \<in> S" for row col and S :: "cell set"
    by force+
  have "(r, c) \<in> executed_region info (tile_type info wk) t \<longleftrightarrow>
      (current_tile_row t + r, current_tile_col t + c) \<in> self_join_cells info wk"
    using assms(2)
    by (auto simp: executed_region_def tile_type_self self_join_cells_def self_upper_cells_def self_lower_cells_def
        upper_region_def lower_region_def exclusion_of_def self_exclusion_position [OF assms(3)]
        p place_upper_def place_lower_def inj)
  also have "\<dots> \<longleftrightarrow> 0 \<le> r \<and> r < tile_n_y info t \<and> 0 \<le> c \<and> c < tile_n_x info t
    \<and> exclusion_zone info \<le> (current_tile_col t + c) - (current_tile_row t + r)"
    unfolding self_join_cells_eq [OF assms(1,2,4)]
    using assms(3) by (auto simp: placed_def tile_cells_def tile_n_x_def tile_n_y_def)
  finally show ?thesis .
qed


lemma tiles_exact_self:
  assumes "geometry_ok info" "op_self_join info" "op_profile_type info = PROFILE_TYPE_1NN_INDEX"
  shows "tiles_exact info (\<lambda>i j. exclusion_zone info \<le> j - i)"
  using executed_cells [OF assms(1,2)] exclusions_self [OF assms(1,2) _ _ assms(3)] assms(2)
  by (simp add: tiles_exact_def join_tiles_def del: split_paired_All split_paired_Ex)

subsection \<open>The join\<close>

definition self_spec :: "OpInfo \<Rightarrow> fp list \<Rightarrow> join_spec" where
  "self_spec info T = \<lparr>spec_a = self_side info T, spec_b = self_side info T, spec_cell = (\<lambda>i j. exclusion_zone info \<le> j - i)\<rparr>"

lemma self_join_join_ok:
  assumes "self_join_ok info eig T"
  shows "join_ok info eig T T (self_spec info T)" "spec_complete info (self_spec info T)"
    "join_tiles info = upper_tiles (num_tile_cols info)" "\<And>sh. row_profile info sh = sh_profile_a sh"
proof -
  have g: "geometry_ok info" "op_self_join info" "op_profile_type info = PROFILE_TYPE_1NN_INDEX"
    using assms by (simp_all add: self_join_ok_def type_ok_def)
  have len: "op_full_ts_len_B info = op_full_ts_len_A info" using g by (simp add: geometry_ok_def)
  have w: "windows_a info = num_windows info" "windows_b info = num_windows info"
    by (simp_all add: windows_a_def windows_b_def num_windows_def len)
  have "join_input_ok info eig T T" using assms len by (simp add: join_input_ok_def self_join_ok_def)
  moreover have "spec_ok info T T (self_spec info T)"
    using assms match_value_commute by (auto simp: spec_ok_def self_spec_def self_side_def w values_ok_def join_value_self)
  ultimately show "join_ok info eig T T (self_spec info T)"
    using tiles_exact_self [OF g] by (simp add: join_ok_def self_spec_def)
  show "spec_complete info (self_spec info T)"
    using assms exclusion_zone_bounds(1) [OF g(1)] by (auto simp: spec_complete_def self_spec_def self_side_def self_join_ok_def)
  show "join_tiles info = upper_tiles (num_tile_cols info)" using g(2) by (simp add: join_tiles_def)
  show "row_profile info sh = sh_profile_a sh" for sh using assms by (simp add: row_profile_def self_join_ok_def)
qed

lemma self_join_correct:
  assumes "self_join_ok info eig T" "empty_profile info pa" "0 < n"
  shows "case do_join exact_fpu eig fresh info 0 n sched T T pa pb of
      None \<Rightarrow> True
    | Some r \<Rightarrow> \<exists>sh. r = Inr (SCAMP_NO_ERROR, sh) \<and> is_matrix_profile info T (sh_profile_a sh)
        \<and> completed_tiles sh = int (card (upper_tiles (num_tile_cols info)))"
    and "fair n (5 * n + 10 * card (upper_tiles (num_tile_cols info))) sched \<Longrightarrow>
      \<exists>sh. do_join exact_fpu eig fresh info 0 n sched T T pa pb = Some (Inr (SCAMP_NO_ERROR, sh))"
proof -
  note J = self_join_join_ok [OF assms(1)]
  have "fresh_profiles info pa pb"
    using assms(1,2) by (simp add: fresh_profiles_def empty_profile_def self_join_ok_def windows_a_def num_windows_def)
  note R = do_join_correct [OF J(1,2) this assms(3), where fresh = fresh and sched = sched]
  show "case do_join exact_fpu eig fresh info 0 n sched T T pa pb of
      None \<Rightarrow> True
    | Some r \<Rightarrow> \<exists>sh. r = Inr (SCAMP_NO_ERROR, sh) \<and> is_matrix_profile info T (sh_profile_a sh)
        \<and> completed_tiles sh = int (card (upper_tiles (num_tile_cols info)))"
    using R(1) by (auto simp: J(3) is_matrix_profile_def self_spec_def split: option.splits)
  show "\<exists>sh. do_join exact_fpu eig fresh info 0 n sched T T pa pb = Some (Inr (SCAMP_NO_ERROR, sh))"
    if "fair n (5 * n + 10 * card (upper_tiles (num_tile_cols info))) sched"
    using R(2) that by (simp add: J(3))
qed

text \<open>
  C1. In exact arithmetic a self join never fails, whatever the number of CPU workers and the
  interleaving of their steps; if it returns, every tile has been counted and the profile is the matrix
  profile: for every window the best match outside the exclusion zone.
\<close>

theorem self_join_computes_matrix_profile:
  assumes "self_join_ok info eig T" "empty_profile info pa" "0 < n"
  shows "case do_join exact_fpu eig fresh info 0 n sched T T pa pb of
      None \<Rightarrow> True
    | Some r \<Rightarrow> \<exists>sh. r = Inr (SCAMP_NO_ERROR, sh) \<and> is_matrix_profile info T (sh_profile_a sh)
        \<and> completed_tiles sh = int (card (upper_tiles (num_tile_cols info)))"
  by (rule self_join_correct(1) [OF assms])

text \<open>
  C2. A self join terminates: under every schedule that lets each worker take five steps and ten more
  for every tile, all workers finish and the join returns.
\<close>

theorem self_join_terminates:
  assumes "self_join_ok info eig T" "empty_profile info pa" "0 < n"
    and "fair n (5 * n + 10 * card (upper_tiles (num_tile_cols info))) sched"
  shows "\<exists>sh. do_join exact_fpu eig fresh info 0 n sched T T pa pb = Some (Inr (SCAMP_NO_ERROR, sh))"
  by (rule self_join_correct(2) [OF assms])

text \<open>Ten samples, one of them missing, windows of three: three tiles, two workers.\<close>

definition demo_series :: "fp list" where
  "demo_series = [Fin 1, Fin 2, Fin 4, Fin 3, NaN, Fin 5, Fin 2, Fin 7, Fin 1, Fin 0]"

definition demo_profile :: Profile where
  "demo_profile = \<lparr>profile_data = [ProfileData_empty\<lparr>uint64_value := replicate 8 init_entry\<rparr>], thresholds = [],
     profile_type = PROFILE_TYPE_1NN_INDEX\<rparr>"

lemma demo_self_join:
  "self_join_ok (demo_info PROFILE_TYPE_1NN_INDEX) list_eigen demo_series"
  "empty_profile (demo_info PROFILE_TYPE_1NN_INDEX) demo_profile"
  by (simp_all add: self_join_ok_def geometry_ok_def type_ok_def demo_info_def demo_series_def list_eigen_max
      empty_profile_def fresh_profile_def typed_data_def demo_profile_def entries_def the_data_def num_windows_def)

lemma demo_tiles: "card (upper_tiles (num_tile_cols (demo_info PROFILE_TYPE_1NN_INDEX))) = 3"
proof -
  have "upper_tiles 2 = {(0, 0), (0, 1), (1, 1)}" by (auto simp: upper_tiles_def)
  then show ?thesis by (simp add: num_tile_cols_def demo_info_def)
qed

lemma self_join_computes_matrix_profile_witness:
  "case do_join exact_fpu list_eigen (\<lambda>_. NaN) (demo_info PROFILE_TYPE_1NN_INDEX) 0 2 (concat (replicate 40 [0, 1])) demo_series demo_series
      demo_profile Profile_default of
      None \<Rightarrow> True
    | Some r \<Rightarrow> \<exists>sh. r = Inr (SCAMP_NO_ERROR, sh) \<and> is_matrix_profile (demo_info PROFILE_TYPE_1NN_INDEX) demo_series (sh_profile_a sh)
        \<and> completed_tiles sh = int (card (upper_tiles (num_tile_cols (demo_info PROFILE_TYPE_1NN_INDEX))))"
  by (rule self_join_computes_matrix_profile [OF demo_self_join]) simp

lemma self_join_terminates_witness:
  "\<exists>sh. do_join exact_fpu list_eigen (\<lambda>_. NaN) (demo_info PROFILE_TYPE_1NN_INDEX) 0 2 (concat (replicate 40 [0, 1])) demo_series demo_series
      demo_profile Profile_default = Some (Inr (SCAMP_NO_ERROR, sh))"
proof (rule self_join_terminates [OF demo_self_join])
  have "length (filter (\<lambda>j. j = i) (concat (replicate k [0, 1]))) = k" if "i < 2" for i k :: nat
    using that by (induction k) auto
  then show "fair 2 (5 * 2 + 10 * card (upper_tiles (num_tile_cols (demo_info PROFILE_TYPE_1NN_INDEX)))) (concat (replicate 40 [0, 1]))"
    by (simp add: fair_def demo_tiles)
qed simp

end
