(* ===== verification/AbJoin.thy ===== *)
theory AbJoin
  imports JoinRun
begin

text \<open>
  A join of two series with profiles of type \<open>1NN_INDEX\<close>, in exact arithmetic: the best match in the second series
  of every window of the first, and in the first of every window of the second if the rows are kept. An aligned
  join, a part of a larger self join, leaves out the exclusion zone; it is exact if its tiles lie well to the diagonal.
\<close>

subsection \<open>The specification\<close>

text \<open>The place of the join in the larger one, as \<open>global_start\<close> has it.\<close>

definition global_offset :: "OpInfo \<Rightarrow> int \<times> int" where
  "global_offset info =
     (if 0 \<le> op_global_start_col_position info \<and> 0 \<le> op_global_start_row_position info
      then (op_global_start_row_position info, op_global_start_col_position info) else (0, 0))"

definition ab_cell :: "OpInfo \<Rightarrow> int \<Rightarrow> int \<Rightarrow> bool" where
  "ab_cell info i j \<longleftrightarrow> \<not> op_is_aligned info
     \<or> exclusion_zone info \<le> \<bar>(j + snd (global_offset info)) - (i + fst (global_offset info))\<bar>"

definition columns_side :: "OpInfo \<Rightarrow> fp list \<Rightarrow> fp list \<Rightarrow> side" where
  "columns_side info Ta Tb = \<lparr>side_len = windows_a info, side_others = windows_b info,
     side_match = (\<lambda>j i. ab_cell info i j), side_value = (\<lambda>j i. join_value info Ta Tb i j)\<rparr>"

definition rows_side :: "OpInfo \<Rightarrow> fp list \<Rightarrow> fp list \<Rightarrow> side" where
  "rows_side info Ta Tb = \<lparr>side_len = windows_b info, side_others = windows_a info,
     side_match = ab_cell info, side_value = join_value info Ta Tb\<rparr>"

definition ab_spec :: "OpInfo \<Rightarrow> fp list \<Rightarrow> fp list \<Rightarrow> join_spec" where
  "ab_spec info Ta Tb = \<lparr>spec_a = columns_side info Ta Tb, spec_b = rows_side info Ta Tb, spec_cell = ab_cell info\<rparr>"

text \<open>
  A tile of \<open>W\<close> columns and \<open>H\<close> rows on diagonal \<open>D\<close> of the larger join lies well: it starts on the main diagonal, or
  it is away from it and touches it with a corner or not at all.
\<close>

definition lies_well :: "int \<Rightarrow> int \<Rightarrow> int \<Rightarrow> int \<Rightarrow> bool" where
  "lies_well e D W H \<longleftrightarrow> D = 0
     \<or> e < D \<and> H = D \<or> e \<le> D \<and> H \<noteq> D \<and> H + e \<le> D + 1
     \<or> e < -D \<and> W = -D \<or> e \<le> -D \<and> W \<noteq> -D \<and> W + e \<le> 1 - D"

definition tiles_lie_well :: "OpInfo \<Rightarrow> bool" where
  "tiles_lie_well info \<longleftrightarrow> (\<forall>wk \<in> all_tiles (num_tile_rows info) (num_tile_cols info).
     lies_well (exclusion_zone info)
       ((tile_col_pos info wk + snd (global_offset info)) - (tile_row_pos info wk + fst (global_offset info)))
       (tile_ts_width info wk - op_mp_window info + 1) (tile_ts_height info wk - op_mp_window info + 1))"

definition ab_join_ok :: "OpInfo \<Rightarrow> eigen \<Rightarrow> fp list \<Rightarrow> fp list \<Rightarrow> bool" where
  "ab_join_ok info eig Ta Tb \<longleftrightarrow> geometry_ok info \<and> \<not> op_self_join info \<and> op_computing_cols info
     \<and> (op_computing_rows info \<longrightarrow> op_keep_rows_separate info) \<and> type_ok info eig
     \<and> int (length Ta) = op_full_ts_len_A info \<and> int (length Tb) = op_full_ts_len_B info
     \<and> (op_is_aligned info \<longrightarrow> tiles_lie_well info)"

subsection \<open>The cells of a tile\<close>

lemma ab_exclusion_aligned:
  assumes "op_is_aligned info" "\<not> sums_values (op_profile_type info)"
    and "global_start info t = (gr, gc)" "W = tile_n_x info t" "H = tile_n_y info t" "e = exclusion_zone info"
  shows "get_exclusion_for_ab_join info t True = (if gr \<le> gc \<and> gc < gr + e then e else 0,
      if gr > gc \<and> gr \<le> gc + W \<and> gc + W < gr + e then e else 0)"
    "get_exclusion_for_ab_join info t False = (if gc \<le> gr \<and> gr < gc + e then e else 0,
      if gr \<le> gc \<and> gc \<le> gr + H \<and> gr + H < gc + e then e else 0)"
proof -
  have ex: "get_exclusion (op_mp_window info) a b = (if a \<le> b \<and> b < a + e then e else 0)" for a b
    using assms(6) by (auto simp: get_exclusion_def exclusion_zone_def)
  have "current_tile_height t - op_mp_window info + 1 = H" "current_tile_width t - op_mp_window info + 1 = W"
    using assms(4,5) by (simp_all add: tile_n_x_def tile_n_y_def)
  then show "get_exclusion_for_ab_join info t True = (if gr \<le> gc \<and> gc < gr + e then e else 0,
      if gr > gc \<and> gr \<le> gc + W \<and> gc + W < gr + e then e else 0)"
    "get_exclusion_for_ab_join info t False = (if gc \<le> gr \<and> gr < gc + e then e else 0,
      if gr \<le> gc \<and> gc \<le> gr + H \<and> gr + H < gc + e then e else 0)"
    using assms(1-3) by (auto simp: get_exclusion_for_ab_join_def ex Let_def)
qed

lemma aligned_tile_cells:
  assumes "op_is_aligned info" "\<not> sums_values (op_profile_type info)" "1 \<le> exclusion_zone info"
    and g: "global_start info t = (gr, gc)" and W: "0 < tile_n_x info t" "0 < tile_n_y info t"
    and well: "lies_well (exclusion_zone info) (gc - gr) (tile_n_x info t) (tile_n_y info t)"
  shows "exclusions_ok info AB_FULL_JOIN_FULL_TILE t"
    "(r, c) \<in> executed_region info AB_FULL_JOIN_FULL_TILE t \<longleftrightarrow> 0 \<le> r \<and> r < tile_n_y info t \<and> 0 \<le> c \<and> c < tile_n_x info t
       \<and> exclusion_zone info \<le> \<bar>(c + gc) - (r + gr)\<bar>"
proof -
  let ?e = "exclusion_zone info" and ?W = "tile_n_x info t" and ?H = "tile_n_y info t"
  define D where "D = gc - gr"
  have gc: "gc = gr + D" by (simp add: D_def)
  note x = ab_exclusion_aligned [OF assms(1,2) g refl refl refl]
  have up: "exclusion_of info t True True = (if 0 \<le> D \<and> D < ?e then ?e else 0,
      if D < 0 \<and> 0 \<le> D + ?W \<and> D + ?W < ?e then ?e else 0)"
    by (auto simp: exclusion_of_def x(1) gc)
  have lo: "exclusion_of info t True False = (if 0 \<le> -D \<and> -D < ?e then ?e else 0,
      if 0 \<le> D \<and> D \<le> ?H \<and> ?H < D + ?e then ?e else 0)"
    by (auto simp: exclusion_of_def x(2) gc)
  note L = well [folded D_def, unfolded lies_well_def]
  show "exclusions_ok info AB_FULL_JOIN_FULL_TILE t"
    using L assms(3) W unfolding exclusions_ok_def exclusion_ok_def is_ab_tile_def
    by (auto simp: up lo diag_region_def)
  have U: "(r, c) \<in> upper_region info True t \<longleftrightarrow> 0 \<le> r \<and> r < ?H \<and> 0 \<le> c \<and> c < ?W \<and> r \<le> c \<and> ?e \<le> \<bar>D + c - r\<bar>"
    using L assms(3) W unfolding upper_region_def up diag_region_def by auto
  have V: "(r, c) \<in> lower_region info True t \<longleftrightarrow> 0 \<le> r \<and> r < ?H \<and> 0 \<le> c \<and> c < ?W \<and> c \<le> r \<and> ?e \<le> \<bar>D + c - r\<bar>"
    using L assms(3) W unfolding lower_region_def lo diag_region_def by auto
  have "(c + gc) - (r + gr) = D + c - r" by (simp add: gc)
  then show "(r, c) \<in> executed_region info AB_FULL_JOIN_FULL_TILE t \<longleftrightarrow> 0 \<le> r \<and> r < ?H \<and> 0 \<le> c \<and> c < ?W
       \<and> ?e \<le> \<bar>(c + gc) - (r + gr)\<bar>"
    using U V by (auto simp: executed_region_def)
qed

lemma free_tile_cells:
  assumes "\<not> op_is_aligned info" "\<not> sums_values (op_profile_type info)"
  shows "exclusions_ok info AB_FULL_JOIN_FULL_TILE t"
    "(r, c) \<in> executed_region info AB_FULL_JOIN_FULL_TILE t \<longleftrightarrow> 0 \<le> r \<and> r < tile_n_y info t \<and> 0 \<le> c \<and> c < tile_n_x info t"
  using assms
  by (auto simp: exclusions_ok_def exclusion_ok_def is_ab_tile_def executed_region_def upper_region_def lower_region_def
      diag_region_def exclusion_of_def get_exclusion_for_ab_join_def)

lemma tiles_exact_ab:
  assumes "ab_join_ok info eig Ta Tb"
  shows "tiles_exact info (ab_cell info)"
  unfolding tiles_exact_def
proof (intro ballI allI impI conjI)
  fix wk and t :: Tile and r c
  assume wk: "wk \<in> join_tiles info" and p: "placed info wk t"
  have g: "geometry_ok info" "\<not> op_self_join info" "\<not> sums_values (op_profile_type info)" "1 \<le> exclusion_zone info"
    using assms exclusion_zone_bounds(1) [of info] by (auto simp: ab_join_ok_def type_ok_def sums_values_def)
  have ty: "tile_type info wk = AB_FULL_JOIN_FULL_TILE" using g(2) by (simp add: tile_type_def)
  have n: "0 < tile_n_x info t" "0 < tile_n_y info t"
    using tile_geometry(3,4) [OF g(1) wk] p by (simp_all add: placed_def tile_n_x_def tile_n_y_def)
  have cells: "exclusions_ok info AB_FULL_JOIN_FULL_TILE t
    \<and> ((r, c) \<in> executed_region info AB_FULL_JOIN_FULL_TILE t \<longleftrightarrow> 0 \<le> r \<and> r < tile_n_y info t \<and> 0 \<le> c \<and> c < tile_n_x info t
       \<and> ab_cell info (current_tile_row t + r) (current_tile_col t + c))"
  proof (cases "op_is_aligned info")
    case True
    let ?gr = "tile_row_pos info wk + fst (global_offset info)" and ?gc = "tile_col_pos info wk + snd (global_offset info)"
    have start: "global_start info t = (?gr, ?gc)"
      using p by (simp add: global_start_def global_offset_def placed_def)
    have "tiles_lie_well info" using assms True by (simp add: ab_join_ok_def)
    then have "lies_well (exclusion_zone info) (?gc - ?gr) (tile_n_x info t) (tile_n_y info t)"
      using join_tiles_all [OF g(1) wk] p by (simp add: tiles_lie_well_def placed_def tile_n_x_def tile_n_y_def)
    note C = aligned_tile_cells [OF True g(3,4) start n this]
    have "ab_cell info (current_tile_row t + r) (current_tile_col t + c) \<longleftrightarrow> exclusion_zone info \<le> \<bar>(c + ?gc) - (r + ?gr)\<bar>"
      using p True by (simp add: placed_def ab_cell_def algebra_simps)
    then show ?thesis using C(1) C(2) [where r = r and c = c] by simp
  next
    case False
    then show ?thesis using free_tile_cells [OF False g(3), where t = t] by (simp add: ab_cell_def)
  qed
  show "exclusions_ok info (tile_type info wk) t" using cells by (simp add: ty)
  show "(r, c) \<in> executed_region info (tile_type info wk) t \<longleftrightarrow> 0 \<le> r \<and> r < tile_n_y info t \<and> 0 \<le> c \<and> c < tile_n_x info t
       \<and> ab_cell info (current_tile_row t + r) (current_tile_col t + c)" using cells by (simp add: ty)
qed

subsection \<open>The join\<close>

lemma ab_join_join_ok:
  assumes "ab_join_ok info eig Ta Tb"
  shows "join_ok info eig Ta Tb (ab_spec info Ta Tb)" "spec_complete info (ab_spec info Ta Tb)"
    "join_tiles info = all_tiles (num_tile_rows info) (num_tile_cols info)"
    "op_computing_rows info \<Longrightarrow> row_profile info sh = sh_profile_b sh"
proof -
  have "join_input_ok info eig Ta Tb" using assms by (simp add: join_input_ok_def ab_join_ok_def)
  moreover have "spec_ok info Ta Tb (ab_spec info Ta Tb)"
    using assms by (auto simp: spec_ok_def ab_spec_def columns_side_def rows_side_def values_ok_def ab_join_ok_def)
  ultimately show "join_ok info eig Ta Tb (ab_spec info Ta Tb)"
    using tiles_exact_ab [OF assms] by (simp add: join_ok_def ab_spec_def)
  show "spec_complete info (ab_spec info Ta Tb)"
    using assms by (simp add: spec_complete_def ab_spec_def columns_side_def rows_side_def ab_join_ok_def)
  show "join_tiles info = all_tiles (num_tile_rows info) (num_tile_cols info)"
    using assms by (simp add: join_tiles_def ab_join_ok_def)
  show "op_computing_rows info \<Longrightarrow> row_profile info sh = sh_profile_b sh"
    using assms by (simp add: row_profile_def ab_join_ok_def)
qed

lemma ab_join_correct:
  assumes "ab_join_ok info eig Ta Tb" "fresh_profiles info pa pb" "0 < n"
  shows "case do_join exact_fpu eig fresh info 0 n sched Ta Tb pa pb of
      None \<Rightarrow> \<not> fair n (5 * n + 10 * card (all_tiles (num_tile_rows info) (num_tile_cols info))) sched
    | Some r \<Rightarrow> \<exists>sh. r = Inr (SCAMP_NO_ERROR, sh) \<and> best_matches (columns_side info Ta Tb) (sh_profile_a sh)
        \<and> (op_computing_rows info \<longrightarrow> best_matches (rows_side info Ta Tb) (sh_profile_b sh))"
proof -
  note J = ab_join_join_ok [OF assms(1)]
  note R = do_join_correct [OF J(1,2) assms(2,3), where fresh = fresh and sched = sched]
  show ?thesis
  proof (cases "do_join exact_fpu eig fresh info 0 n sched Ta Tb pa pb")
    case None
    then show ?thesis using R(2) by (auto simp: J(3))
  next
    case (Some r)
    then show ?thesis using R(1) J(4) by (auto simp: ab_spec_def)
  qed
qed

text \<open>
  C4. An AB join computes the profiles of its columns and, if they are kept, of its rows: in exact arithmetic no
  worker fails under any schedule, a fair schedule ends, and when the join returns every entry holds a best
  match among the windows of the other series, for an aligned join outside the exclusion zone of the larger one.
\<close>

theorem ab_join_computes_profiles:
  assumes "ab_join_ok info eig Ta Tb" "fresh_profiles info pa pb" "0 < n"
  shows "case do_join exact_fpu eig fresh info 0 n sched Ta Tb pa pb of
      None \<Rightarrow> \<not> fair n (5 * n + 10 * card (all_tiles (num_tile_rows info) (num_tile_cols info))) sched
    | Some r \<Rightarrow> \<exists>sh. r = Inr (SCAMP_NO_ERROR, sh) \<and> best_matches (columns_side info Ta Tb) (sh_profile_a sh)
        \<and> (op_computing_rows info \<longrightarrow> best_matches (rows_side info Ta Tb) (sh_profile_b sh))"
  by (rule ab_join_correct [OF assms])

text \<open>Eight windows against ten, two tiles a side, the rows kept, two workers.\<close>

definition demo_ab_info :: OpInfo where
  "demo_ab_info = (demo_info PROFILE_TYPE_1NN_INDEX)\<lparr>op_self_join := False, op_keep_rows_separate := True, op_full_ts_len_B := 12\<rparr>"

definition index_profile :: "int \<Rightarrow> Profile" where
  "index_profile n = \<lparr>profile_data = [ProfileData_empty\<lparr>uint64_value := replicate (nat n) init_entry\<rparr>], thresholds = [],
     profile_type = PROFILE_TYPE_1NN_INDEX\<rparr>"

lemma fresh_index_profile: "fresh_profile n (index_profile n)"
  by (simp add: fresh_profile_def index_profile_def typed_data_def entries_def the_data_def)

definition demo_series_a :: "fp list" where
  "demo_series_a = [Fin 1, Fin 2, Fin 4, Fin 3, NaN, Fin 5, Fin 2, Fin 7, Fin 1, Fin 0]"

definition demo_series_b :: "fp list" where
  "demo_series_b = [Fin 0, Fin 3, Fin 1, Fin 4, Fin 1, Fin 5, NInf, Fin 2, Fin 6, Fin 5, Fin 3, Fin 5]"

lemma ab_join_computes_profiles_witness:
  "case do_join exact_fpu list_eigen (\<lambda>_. NaN) demo_ab_info 0 2 (concat (replicate 75 [0, 1])) demo_series_a demo_series_b
      (index_profile 8) (index_profile 10) of
      None \<Rightarrow> \<not> fair 2 (5 * 2 + 10 * card (all_tiles (num_tile_rows demo_ab_info) (num_tile_cols demo_ab_info)))
        (concat (replicate 75 [0, 1]))
    | Some r \<Rightarrow> \<exists>sh. r = Inr (SCAMP_NO_ERROR, sh) \<and> best_matches (columns_side demo_ab_info demo_series_a demo_series_b) (sh_profile_a sh)
        \<and> (op_computing_rows demo_ab_info \<longrightarrow> best_matches (rows_side demo_ab_info demo_series_a demo_series_b) (sh_profile_b sh))"
proof (rule ab_join_computes_profiles)
  show "ab_join_ok demo_ab_info list_eigen demo_series_a demo_series_b"
    by (simp add: ab_join_ok_def geometry_ok_def type_ok_def demo_ab_info_def demo_info_def demo_series_a_def demo_series_b_def list_eigen_max)
  show "fresh_profiles demo_ab_info (index_profile 8) (index_profile 10)"
    using fresh_index_profile [of 8] fresh_index_profile [of 10]
    by (simp add: fresh_profiles_def windows_a_def windows_b_def demo_ab_info_def demo_info_def)
qed simp

end
