(* ===== verification/InterfaceCorrect.thy ===== *)
theory InterfaceCorrect
  imports Interface SelfJoin AbJoin
begin

text \<open>
  The library interface: valid arguments give an operation within the bounds the rest of the program
  relies on, and a self join through \<open>do_SCAMP\<close> returns the matrix profile.
\<close>

lemma validate_bounds:
  assumes "validate a = Inr ()"
  shows "3 \<le> arg_window a" "1024 \<le> max_tile_size a" "2 * arg_window a \<le> max_tile_size a"
    "arg_window a \<le> size_of (timeseries_a a)" "has_b a \<Longrightarrow> arg_window a \<le> size_of (timeseries_b a)"
    "precision_type a \<noteq> PRECISION_MIXED"
  using assms by (auto simp: validate_def split: if_splits)

text \<open>
  Validated arguments: the operation exists, its geometry is sound, a tile holds at least two
  windows and never more samples than the user's limit.
\<close>

theorem validated_operation:
  assumes "validate a = Inr ()" "size_of (timeseries_a a) < 2 ^ 31" "size_of (timeseries_b a) < 2 ^ 31" "0 < n"
  shows "\<exists>info. operation_of rd uninit a n = Some info \<and> geometry_ok info
    \<and> 2 * op_mp_window info \<le> op_max_tile_ts_size info \<and> op_max_tile_ts_size info \<le> max_tile_size a
    \<and> num_tile_rows info * num_tile_cols info < 2 ^ 62"
proof -
  note v = validate_bounds [OF assms(1)]
  obtain info where i: "operation_of rd uninit a n = Some info"
    using assms(4) by (simp add: operation_of_def OpInfo_init_def Let_def)
  note ii = i [unfolded operation_of_def]
  have g: "geometry_ok info"
    by (rule geometry_ok_init [OF ii]) (use v assms in auto)
  note t = OpInfo_init_geometry [OF ii]
  note b = num_tiles_bounds [OF g]
  have "num_tile_rows info * num_tile_cols info \<le> num_tile_rows info * (2 ^ 31 - 1)"
    using b by (intro mult_left_mono) auto
  also have "\<dots> < 2 ^ 62" using b by simp
  finally show ?thesis
    using i g t max_tile_ts_size_ge [of "arg_window a"] max_tile_ts_size_le [OF v(3)] by auto
qed

lemma Alloc_index:
  assumes "profile_type p = PROFILE_TYPE_1NN_INDEX" "profile_data p = []" "0 \<le> n"
  shows "\<exists>p'. Alloc p n mh mw th = Some p' \<and> typed_data PROFILE_TYPE_1NN_INDEX p' \<and> entries p' = replicate (nat n) init_entry"
  using assms
  by (simp add: Alloc_def data0_def set_data0_def vresize_opt_def typed_data_def the_data_def entries_def
      ProfileData_empty_def vresize_Nil del: typed_data_simps)

text \<open>Profiles of nearest neighbours with nothing in them yet; the one of the rows only if it is kept.\<close>

definition unallocated :: "Profile \<Rightarrow> bool" where
  "unallocated p \<longleftrightarrow> profile_type p = PROFILE_TYPE_1NN_INDEX \<and> profile_data p = []"

text \<open>A profile ready for a join: not allocated, or allocated before.\<close>

definition ready_profile :: "int \<Rightarrow> Profile \<Rightarrow> bool" where
  "ready_profile n p \<longleftrightarrow> unallocated p \<or> fresh_profile n p"

lemma Alloc_fresh:
  assumes "fresh_profile n p" "0 \<le> n"
  shows "\<exists>p'. Alloc p n mh mw th = Some p' \<and> fresh_profile n p'"
proof -
  have f: "profile_type p = PROFILE_TYPE_1NN_INDEX" "profile_data p \<noteq> []" "uint64_value (hd (profile_data p)) = replicate (nat n) init_entry"
    using assms(1) by (auto simp only: fresh_profile_def typed_data_def entries_def the_data_def)
  then obtain d ds where p: "profile_data p = d # ds" "profile_type p = PROFILE_TYPE_1NN_INDEX" "uint64_value d = replicate (nat n) init_entry"
    by (cases "profile_data p") simp_all
  then show ?thesis
    using assms(2)
    by (simp add: Alloc_def data0_def set_data0_def aget_def vresize_opt_def vresize_def fresh_profile_def typed_data_def
        entries_def the_data_def del: typed_data_simps)
qed

lemma ready_Alloc:
  assumes "ready_profile n p" "0 \<le> n"
  shows "\<exists>p'. Alloc p n mh mw th = Some p' \<and> fresh_profile n p'"
  using Alloc_index [of p n] Alloc_fresh [of n p] assms by (auto simp: ready_profile_def unallocated_def fresh_profile_def)

text \<open>A join that does not keep the rows separate leaves the second profile alone.\<close>

lemma MergeProfile_keeps_b:
  assumes "MergeProfile fpu info t pa pb = Inr (ok, t', pa', pb')" "\<not> (op_computing_rows info \<and> op_keep_rows_separate info)"
  shows "pb' = pb"
  using assms by (auto simp: MergeProfile_def Let_def elim!: rbind_InrE split: if_splits)

lemma or_fail_keeps: "(\<And>x. m = Inr x \<Longrightarrow> f (snd (k x)) = f sh) \<Longrightarrow> f (snd (or_fail m k sh)) = f sh"
  by (simp add: or_fail_def split: sum.split)

lemma worker_step_keeps_b:
  assumes "\<not> (op_computing_rows (je_info env) \<and> op_keep_rows_separate (je_info env))"
  shows "sh_profile_b (snd (worker_step env w sh)) = sh_profile_b sh"
proof (cases w)
  case (W_new arch)
  then show ?thesis by (auto simp: worker_start_def Let_def intro!: or_fail_keeps [where f = sh_profile_b] split: prod.split)
next
  case (W_pop tile)
  then show ?thesis by (auto simp: or_fail_def split: prod.split sum.split)
next
  case (W_reset tile t)
  then show ?thesis by (auto intro!: or_fail_keeps [where f = sh_profile_b] split: prod.split)
next
  case (W_exec tile t)
  then show ?thesis by (auto intro!: or_fail_keeps [where f = sh_profile_b] split: prod.split)
next
  case (W_merge tile t)
  then show ?thesis
    using MergeProfile_keeps_b [OF _ assms] by (auto intro!: or_fail_keeps [where f = sh_profile_b] split: prod.split)
next
  case (W_exit tile)
  then show ?thesis
    using MergeProfile_keeps_b [OF _ assms] by (auto intro!: or_fail_keeps [where f = sh_profile_b] split: prod.split)
qed simp_all

lemma do_join_keeps_b:
  assumes "do_join fpu eig fresh info devices n sched Ta Tb pa pb = Some (Inr (e, sh))"
    and "\<not> (op_computing_rows info \<and> op_keep_rows_separate info)"
  shows "sh_profile_b sh = pb"
proof -
  have step: "sh_profile_b (snd (pool_step (worker_step env) i c)) = sh_profile_b (snd c)" if "je_info env = info" for env i c
  proof (cases "i < length (fst c)")
    case True
    then show ?thesis
      using worker_step_keeps_b [of env "fst c ! i" "snd c"] assms(2) that
      by (cases c, cases "worker_step env (fst c ! i) (snd c)") (simp add: pool_step_def)
  qed (cases c, simp add: pool_step_def)
  have run: "sh_profile_b (snd (run_pool (worker_step env) is c)) = sh_profile_b (snd c)" if "je_info env = info" for env "is" c
    by (induction "is" arbitrary: c) (simp_all add: step [OF that])
  obtain env q where p: "prepare_join fpu eig fresh info Ta Tb = Some (env, q)" "je_info env = info"
    using assms(1) by (auto simp: do_join_def prepare_join_def Let_def split: option.splits Option.bind_splits)
  show ?thesis
    using assms(1) run [OF p(2), of sched "(initial_workers devices n,
        \<lparr>work_queue = q, sh_profile_a = pa, sh_profile_b = pb, completed_tiles = 0\<rparr>)"]
    by (auto simp: do_join_def p(1) split: prod.splits elim!: rbind_InrE)
qed

text \<open>The join \<open>do_SCAMP\<close> starts.\<close>

lemma do_SCAMP_join:
  assumes v: "validate a = Inr ()" and size: "size_of (timeseries_a a) < 2 ^ 31" "size_of (timeseries_b a) < 2 ^ 31"
    and n: "0 < n" and t: "arg_profile_type a = PROFILE_TYPE_1NN_INDEX" "precision_type a = PRECISION_DOUBLE"
    and p: "ready_profile (size_of (timeseries_a a) - arg_window a + 1) (profile_a a)"
      "keep_rows_separate a \<Longrightarrow> ready_profile (size_of (if has_b a then timeseries_b a else timeseries_a a) - arg_window a + 1) (profile_b a)"
  shows "\<exists>info pa pb. operation_of exact uninit a n = Some info \<and> geometry_ok info
    \<and> op_mp_window info = arg_window a \<and> op_full_ts_len_A info = size_of (timeseries_a a)
    \<and> op_full_ts_len_B info = size_of (if has_b a then timeseries_b a else timeseries_a a)
    \<and> op_self_join info = (\<not> has_b a) \<and> op_profile_type info = PROFILE_TYPE_1NN_INDEX \<and> op_fp_type info = PRECISION_DOUBLE
    \<and> op_computing_rows info = computing_rows a \<and> op_computing_cols info = computing_columns a
    \<and> op_keep_rows_separate info = keep_rows_separate a \<and> op_is_aligned info = is_aligned a
    \<and> fresh_profile (windows_a info) pa \<and> (if keep_rows_separate a then fresh_profile (windows_b info) pb else pb = profile_b a)
    \<and> do_SCAMP exact_fpu eig fresh uninit sched (Some a) [] n =
        map_option (\<lambda>r. rbind r (\<lambda>(_, sh). Inr (a\<lparr>profile_a := sh_profile_a sh, profile_b := sh_profile_b sh\<rparr>)))
          (do_join exact_fpu eig fresh info 0 (nat n) sched (timeseries_a a) (if has_b a then timeseries_b a else timeseries_a a) pa pb)"
proof -
  note b = validate_bounds [OF v]
  let ?n = "size_of (timeseries_a a) - arg_window a + 1"
  let ?m = "if has_b a then size_of (timeseries_b a) - arg_window a + 1 else ?n"
  have pos: "0 < ?n" "0 < ?m" using b by auto
  obtain pa where pa: "Alloc (profile_a a) ?n (matrix_height a) (matrix_width a) (fcast exact (distance_threshold a)) = Some pa" "fresh_profile ?n pa"
    using ready_Alloc [OF p(1)] pos by fastforce
  obtain pb where pb: "(if keep_rows_separate a then Alloc (profile_b a) ?m (matrix_height a) (matrix_width a) (fcast exact (distance_threshold a))
      else Some (profile_b a)) = Some pb" "if keep_rows_separate a then fresh_profile ?m pb else pb = profile_b a"
    using ready_Alloc [of ?m "profile_b a"] p(2) pos by (cases "keep_rows_separate a"; cases "has_b a") fastforce+
  let ?a = "a\<lparr>profile_a := pa, profile_b := pb\<rparr>"
  have I: "InitProfileMemory exact a = Some (True, ?a)"
    using pos pa(1) pb(1) by (simp add: InitProfileMemory_def Let_def split: if_splits)
  obtain info where i: "operation_of exact uninit a n = Some info"
    using n by (simp add: operation_of_def OpInfo_init_def Let_def)
  then have i': "operation_of exact uninit ?a n = Some info" by (simp add: operation_of_def)
  note ii = i [unfolded operation_of_def]
  have g: "geometry_ok info"
    by (rule geometry_ok_init [OF ii]) (use b size in auto)
  note G = OpInfo_init_geometry [OF ii]
  have f: "op_fp_type info = PRECISION_DOUBLE" "op_computing_rows info = computing_rows a" "op_computing_cols info = computing_columns a"
    "op_keep_rows_separate info = keep_rows_separate a" "op_is_aligned info = is_aligned a"
    using ii t by (auto simp: OpInfo_init_def Let_def split: if_splits)
  have "windows_a info = ?n" "windows_b info = ?m" by (simp_all add: windows_a_def windows_b_def G)
  then have fr: "fresh_profile (windows_a info) pa" "if keep_rows_separate a then fresh_profile (windows_b info) pb else pb = profile_b a"
    using pa(2) pb(2) by simp_all
  have D: "do_SCAMP exact_fpu eig fresh uninit sched (Some a) [] n =
      map_option (\<lambda>r. rbind r (\<lambda>(_, sh). Inr (a\<lparr>profile_a := sh_profile_a sh, profile_b := sh_profile_b sh\<rparr>)))
        (do_join exact_fpu eig fresh info 0 (nat n) sched (timeseries_a a) (if has_b a then timeseries_b a else timeseries_a a) pa pb)"
    using v n I i' by (simp add: do_SCAMP_def size_of_def cong: if_cong)
  show ?thesis
    by (intro exI [of _ info] exI [of _ pa] exI [of _ pb] conjI) (use i g G f fr t D in simp_all)
qed

text \<open>The arguments of a self join for the nearest neighbours of every window.\<close>

definition index_args :: "SCAMPArgs \<Rightarrow> bool" where
  "index_args a \<longleftrightarrow> \<not> has_b a \<and> arg_profile_type a = PROFILE_TYPE_1NN_INDEX \<and> precision_type a = PRECISION_DOUBLE
     \<and> computing_rows a \<and> computing_columns a \<and> \<not> keep_rows_separate a
     \<and> ready_profile (size_of (timeseries_a a) - arg_window a + 1) (profile_a a)"

lemma do_SCAMP_self_join:
  assumes "validate a = Inr ()" "index_args a" "size_of (timeseries_a a) < 2 ^ 31" "size_of (timeseries_b a) < 2 ^ 31"
    "0 < n" "eigen_max_contract eig"
  shows "\<exists>info. operation_of exact uninit a n = Some info \<and> op_mp_window info = arg_window a
    \<and> op_full_ts_len_A info = size_of (timeseries_a a)
    \<and> (case do_SCAMP exact_fpu eig fresh uninit sched (Some a) [] n of
        None \<Rightarrow> \<not> fair (nat n) (5 * nat n + 10 * card (upper_tiles (num_tile_cols info))) sched
      | Some r \<Rightarrow> \<exists>pa. r = Inr (a\<lparr>profile_a := pa\<rparr>) \<and> is_matrix_profile info (timeseries_a a) pa)"
proof -
  have ia: "\<not> has_b a" "arg_profile_type a = PROFILE_TYPE_1NN_INDEX" "precision_type a = PRECISION_DOUBLE" "computing_rows a"
      "computing_columns a" "\<not> keep_rows_separate a"
      "ready_profile (size_of (timeseries_a a) - arg_window a + 1) (profile_a a)"
    using assms(2) by (simp_all add: index_args_def)
  from do_SCAMP_join [OF assms(1,3,4,5) ia(2,3,7), of uninit eig fresh sched] ia(6)
  obtain info pa where i: "geometry_ok info" "op_mp_window info = arg_window a" "op_full_ts_len_A info = size_of (timeseries_a a)"
      "op_self_join info" "type_ok info eig" "op_computing_rows info" "op_computing_cols info" "\<not> op_keep_rows_separate info"
      "fresh_profile (windows_a info) pa" "operation_of exact uninit a n = Some info"
      "do_SCAMP exact_fpu eig fresh uninit sched (Some a) [] n =
        map_option (\<lambda>r. rbind r (\<lambda>(_, sh). Inr (a\<lparr>profile_a := sh_profile_a sh, profile_b := sh_profile_b sh\<rparr>)))
          (do_join exact_fpu eig fresh info 0 (nat n) sched (timeseries_a a) (timeseries_a a) pa (profile_b a))"
    using ia assms(6) by (auto simp: type_ok_def)
  have ok: "self_join_ok info eig (timeseries_a a)" using i by (simp add: self_join_ok_def size_of_def)
  have ep: "empty_profile info pa" using i(9) by (simp add: empty_profile_def windows_a_def num_windows_def)
  have n: "0 < nat n" using assms(5) by simp
  let ?j = "do_join exact_fpu eig fresh info 0 (nat n) sched (timeseries_a a) (timeseries_a a) pa (profile_b a)"
  note S = self_join_correct [OF ok ep n, where fresh = fresh and sched = sched and pb = "profile_b a"]
  have "case do_SCAMP exact_fpu eig fresh uninit sched (Some a) [] n of
        None \<Rightarrow> \<not> fair (nat n) (5 * nat n + 10 * card (upper_tiles (num_tile_cols info))) sched
      | Some r \<Rightarrow> \<exists>pa. r = Inr (a\<lparr>profile_a := pa\<rparr>) \<and> is_matrix_profile info (timeseries_a a) pa"
  proof (cases ?j)
    case None
    then show ?thesis using S(2) by (auto simp: i(11))
  next
    case (Some r)
    then obtain sh where r: "r = Inr (SCAMP_NO_ERROR, sh)" "is_matrix_profile info (timeseries_a a) (sh_profile_a sh)" using S(1) by auto
    have "sh_profile_b sh = profile_b a" using do_join_keeps_b [OF Some [unfolded r(1)]] i(8) by simp
    then have "a\<lparr>profile_a := sh_profile_a sh, profile_b := sh_profile_b sh\<rparr> = a\<lparr>profile_a := sh_profile_a sh\<rparr>" by simp
    then show ?thesis using r(2) by (auto simp: i(11) Some r(1) intro!: exI [of _ "sh_profile_a sh"])
  qed
  then show ?thesis using i(2,3,10) by blast
qed

text \<open>The arguments of an AB join for the nearest neighbours of every window of A, and of B if the rows are kept.\<close>

definition ab_index_args :: "SCAMPArgs \<Rightarrow> bool" where
  "ab_index_args a \<longleftrightarrow> has_b a \<and> arg_profile_type a = PROFILE_TYPE_1NN_INDEX \<and> precision_type a = PRECISION_DOUBLE
     \<and> computing_columns a \<and> (computing_rows a \<longrightarrow> keep_rows_separate a)
     \<and> ready_profile (size_of (timeseries_a a) - arg_window a + 1) (profile_a a)
     \<and> (keep_rows_separate a \<longrightarrow> ready_profile (size_of (timeseries_b a) - arg_window a + 1) (profile_b a))"

definition ab_profiles :: "OpInfo \<Rightarrow> SCAMPArgs \<Rightarrow> SCAMPArgs \<Rightarrow> bool" where
  "ab_profiles info a a' \<longleftrightarrow> best_matches (columns_side info (timeseries_a a) (timeseries_b a)) (profile_a a')
     \<and> (computing_rows a \<longrightarrow> best_matches (rows_side info (timeseries_a a) (timeseries_b a)) (profile_b a'))"

lemma do_SCAMP_ab_join:
  assumes "validate a = Inr ()" "ab_index_args a" "size_of (timeseries_a a) < 2 ^ 31" "size_of (timeseries_b a) < 2 ^ 31"
    "0 < n" "eigen_max_contract eig" and well: "\<And>info. operation_of exact uninit a n = Some info \<Longrightarrow> is_aligned a \<Longrightarrow> tiles_lie_well info"
  shows "\<exists>info. operation_of exact uninit a n = Some info \<and> op_is_aligned info = is_aligned a
    \<and> op_mp_window info = arg_window a \<and> op_full_ts_len_A info = size_of (timeseries_a a)
    \<and> op_full_ts_len_B info = size_of (timeseries_b a)
    \<and> (case do_SCAMP exact_fpu eig fresh uninit sched (Some a) [] n of
        None \<Rightarrow> \<not> fair (nat n) (5 * nat n + 10 * card (all_tiles (num_tile_rows info) (num_tile_cols info))) sched
      | Some r \<Rightarrow> \<exists>a'. r = Inr a' \<and> a' = a\<lparr>profile_a := profile_a a', profile_b := profile_b a'\<rparr> \<and> ab_profiles info a a'
          \<and> (\<not> computing_rows a \<longrightarrow> \<not> keep_rows_separate a \<longrightarrow> profile_b a' = profile_b a))"
proof -
  have ia: "has_b a" "arg_profile_type a = PROFILE_TYPE_1NN_INDEX" "precision_type a = PRECISION_DOUBLE" "computing_columns a"
      "computing_rows a \<Longrightarrow> keep_rows_separate a" "ready_profile (size_of (timeseries_a a) - arg_window a + 1) (profile_a a)"
      "keep_rows_separate a \<Longrightarrow> ready_profile (size_of (timeseries_b a) - arg_window a + 1) (profile_b a)"
    using assms(2) by (simp_all add: ab_index_args_def)
  from do_SCAMP_join [OF assms(1,3,4,5) ia(2,3,6), of uninit eig fresh sched] ia(1,7)
  obtain info pa pb where i: "operation_of exact uninit a n = Some info" "geometry_ok info" "op_mp_window info = arg_window a"
      "op_full_ts_len_A info = size_of (timeseries_a a)" "op_full_ts_len_B info = size_of (timeseries_b a)"
      "\<not> op_self_join info" "type_ok info eig" "op_computing_rows info = computing_rows a" "op_computing_cols info"
      "op_keep_rows_separate info = keep_rows_separate a" "op_is_aligned info = is_aligned a"
      "fresh_profile (windows_a info) pa" "if keep_rows_separate a then fresh_profile (windows_b info) pb else pb = profile_b a"
      "do_SCAMP exact_fpu eig fresh uninit sched (Some a) [] n =
        map_option (\<lambda>r. rbind r (\<lambda>(_, sh). Inr (a\<lparr>profile_a := sh_profile_a sh, profile_b := sh_profile_b sh\<rparr>)))
          (do_join exact_fpu eig fresh info 0 (nat n) sched (timeseries_a a) (timeseries_b a) pa pb)"
    using ia assms(6) by (auto simp: type_ok_def)
  have ok: "ab_join_ok info eig (timeseries_a a) (timeseries_b a)"
    using i ia well by (simp add: ab_join_ok_def size_of_def)
  have fp: "fresh_profiles info pa pb" using i by (simp add: fresh_profiles_def)
  let ?j = "do_join exact_fpu eig fresh info 0 (nat n) sched (timeseries_a a) (timeseries_b a) pa pb"
  have n: "0 < nat n" using assms(5) by simp
  note J = ab_join_correct [OF ok fp n, where fresh = fresh and sched = sched]
  have "case do_SCAMP exact_fpu eig fresh uninit sched (Some a) [] n of
        None \<Rightarrow> \<not> fair (nat n) (5 * nat n + 10 * card (all_tiles (num_tile_rows info) (num_tile_cols info))) sched
      | Some r \<Rightarrow> \<exists>a'. r = Inr a' \<and> a' = a\<lparr>profile_a := profile_a a', profile_b := profile_b a'\<rparr> \<and> ab_profiles info a a'
          \<and> (\<not> computing_rows a \<longrightarrow> \<not> keep_rows_separate a \<longrightarrow> profile_b a' = profile_b a)"
  proof (cases ?j)
    case None
    then show ?thesis using J by (simp add: i(14))
  next
    case (Some r)
    then obtain sh where r: "r = Inr (SCAMP_NO_ERROR, sh)" "best_matches (columns_side info (timeseries_a a) (timeseries_b a)) (sh_profile_a sh)"
        "op_computing_rows info \<Longrightarrow> best_matches (rows_side info (timeseries_a a) (timeseries_b a)) (sh_profile_b sh)"
      using J by auto
    have "\<not> computing_rows a \<Longrightarrow> sh_profile_b sh = pb" using do_join_keeps_b [OF Some [unfolded r(1)]] i(8) by simp
    then show ?thesis using r(2,3) i(8,13) by (simp add: i(14) Some r(1) ab_profiles_def)
  qed
  then show ?thesis using i by blast
qed

text \<open>
  C3. The library computes the matrix profile: for valid arguments of a self join \<open>do_SCAMP\<close> returns under
  every fair schedule, and then the arguments with the matrix profile of the series in \<open>profile_a\<close>.
\<close>

theorem do_SCAMP_matrix_profile:
  assumes "validate a = Inr ()" "index_args a" "size_of (timeseries_a a) < 2 ^ 31" "size_of (timeseries_b a) < 2 ^ 31"
    "0 < n" "eigen_max_contract eig"
  shows "\<exists>info. operation_of exact uninit a n = Some info \<and> op_mp_window info = arg_window a
    \<and> op_full_ts_len_A info = size_of (timeseries_a a)
    \<and> (case do_SCAMP exact_fpu eig fresh uninit sched (Some a) [] n of
        None \<Rightarrow> \<not> fair (nat n) (5 * nat n + 10 * card (upper_tiles (num_tile_cols info))) sched
      | Some r \<Rightarrow> \<exists>pa. r = Inr (a\<lparr>profile_a := pa\<rparr>) \<and> is_matrix_profile info (timeseries_a a) pa)"
  by (rule do_SCAMP_self_join [OF assms])

text \<open>A short series with two unclean samples.\<close>

definition demo_args_self :: SCAMPArgs where
  "demo_args_self = \<lparr>timeseries_a = demo_series, timeseries_b = [], profile_a = Profile_default\<lparr>profile_type := PROFILE_TYPE_1NN_INDEX\<rparr>,
     profile_b = Profile_default, has_b = False, arg_window = 3, max_tile_size = 1024, distributed_start_row = -1,
     distributed_start_col = -1, distance_threshold = NaN, precision_type = PRECISION_DOUBLE,
     arg_profile_type = PROFILE_TYPE_1NN_INDEX, computing_rows = True, computing_columns = True, keep_rows_separate = False,
     is_aligned = False, silent_mode = True, max_matches_per_column = 5, matrix_height = 50, matrix_width = 50\<rparr>"

lemma demo_args_valid:
  "validate demo_args_self = Inr ()" "index_args demo_args_self" "size_of (timeseries_a demo_args_self) < 2 ^ 31"
  "size_of (timeseries_b demo_args_self) < 2 ^ 31"
  by (simp_all add: validate_def demo_args_self_def size_of_def demo_series_def index_args_def
      ready_profile_def unallocated_def Profile_default_def)

lemma validated_operation_witness:
  "\<exists>info. operation_of exact NaN demo_args_self 2 = Some info \<and> geometry_ok info
    \<and> 2 * op_mp_window info \<le> op_max_tile_ts_size info \<and> op_max_tile_ts_size info \<le> max_tile_size demo_args_self
    \<and> num_tile_rows info * num_tile_cols info < 2 ^ 62"
  by (rule validated_operation [OF demo_args_valid(1,3,4)]) simp

lemma do_SCAMP_matrix_profile_witness:
  "\<exists>info. operation_of exact NaN demo_args_self 2 = Some info \<and> op_mp_window info = arg_window demo_args_self
    \<and> op_full_ts_len_A info = size_of (timeseries_a demo_args_self)
    \<and> (case do_SCAMP exact_fpu list_eigen (\<lambda>_. NaN) NaN (concat (replicate 40 [0, 1])) (Some demo_args_self) [] 2 of
        None \<Rightarrow> \<not> fair (nat 2) (5 * nat 2 + 10 * card (upper_tiles (num_tile_cols info))) (concat (replicate 40 [0, 1]))
      | Some r \<Rightarrow> \<exists>pa. r = Inr (demo_args_self\<lparr>profile_a := pa\<rparr>) \<and> is_matrix_profile info (timeseries_a demo_args_self) pa)"
  by (rule do_SCAMP_matrix_profile [OF demo_args_valid]) (simp_all add: list_eigen_max)

text \<open>
  C5. The library computes an AB join: for valid arguments that are not aligned \<open>do_SCAMP\<close> returns under
  every fair schedule, and then with the best match in B of every window of A in \<open>profile_a\<close> and, if the rows
  are computed, the best match in A of every window of B in \<open>profile_b\<close>; the other members are as they were.
\<close>

theorem do_SCAMP_ab_profiles:
  assumes "validate a = Inr ()" "ab_index_args a" "\<not> is_aligned a" "size_of (timeseries_a a) < 2 ^ 31" "size_of (timeseries_b a) < 2 ^ 31"
    "0 < n" "eigen_max_contract eig"
  shows "\<exists>info. operation_of exact uninit a n = Some info \<and> op_is_aligned info = is_aligned a
    \<and> op_mp_window info = arg_window a \<and> op_full_ts_len_A info = size_of (timeseries_a a)
    \<and> op_full_ts_len_B info = size_of (timeseries_b a)
    \<and> (case do_SCAMP exact_fpu eig fresh uninit sched (Some a) [] n of
        None \<Rightarrow> \<not> fair (nat n) (5 * nat n + 10 * card (all_tiles (num_tile_rows info) (num_tile_cols info))) sched
      | Some r \<Rightarrow> \<exists>a'. r = Inr a' \<and> a' = a\<lparr>profile_a := profile_a a', profile_b := profile_b a'\<rparr> \<and> ab_profiles info a a')"
proof -
  obtain info where "operation_of exact uninit a n = Some info" "op_is_aligned info = is_aligned a" "op_mp_window info = arg_window a"
      "op_full_ts_len_A info = size_of (timeseries_a a)" "op_full_ts_len_B info = size_of (timeseries_b a)"
      "case do_SCAMP exact_fpu eig fresh uninit sched (Some a) [] n of
        None \<Rightarrow> \<not> fair (nat n) (5 * nat n + 10 * card (all_tiles (num_tile_rows info) (num_tile_cols info))) sched
      | Some r \<Rightarrow> \<exists>a'. r = Inr a' \<and> a' = a\<lparr>profile_a := profile_a a', profile_b := profile_b a'\<rparr> \<and> ab_profiles info a a'
          \<and> (\<not> computing_rows a \<longrightarrow> \<not> keep_rows_separate a \<longrightarrow> profile_b a' = profile_b a)"
    using do_SCAMP_ab_join [OF assms(1,2,4-7), where uninit = uninit and fresh = fresh and sched = sched] assms(3) by auto
  then show ?thesis by (intro exI [of _ info]) (auto split: option.splits)
qed

definition demo_args_ab :: SCAMPArgs where
  "demo_args_ab = demo_args_self\<lparr>has_b := True, timeseries_b := demo_series_b, keep_rows_separate := True,
     profile_b := Profile_default\<lparr>profile_type := PROFILE_TYPE_1NN_INDEX\<rparr>\<rparr>"

lemma do_SCAMP_ab_profiles_witness:
  "\<exists>info. operation_of exact NaN demo_args_ab 2 = Some info \<and> op_is_aligned info = is_aligned demo_args_ab
    \<and> op_mp_window info = arg_window demo_args_ab \<and> op_full_ts_len_A info = size_of (timeseries_a demo_args_ab)
    \<and> op_full_ts_len_B info = size_of (timeseries_b demo_args_ab)
    \<and> (case do_SCAMP exact_fpu list_eigen (\<lambda>_. NaN) NaN (concat (replicate 75 [0, 1])) (Some demo_args_ab) [] 2 of
        None \<Rightarrow> \<not> fair (nat 2) (5 * nat 2 + 10 * card (all_tiles (num_tile_rows info) (num_tile_cols info))) (concat (replicate 75 [0, 1]))
      | Some r \<Rightarrow> \<exists>a'. r = Inr a' \<and> a' = demo_args_ab\<lparr>profile_a := profile_a a', profile_b := profile_b a'\<rparr>
          \<and> ab_profiles info demo_args_ab a')"
  by (rule do_SCAMP_ab_profiles)
    (simp_all add: validate_def demo_args_ab_def demo_args_self_def size_of_def demo_series_def demo_series_b_def ab_index_args_def
      ready_profile_def unallocated_def Profile_default_def list_eigen_max)

end
