(* ===== verification/UtilsCorrect.thy ===== *)
theory UtilsCorrect
  imports Utils TileCorrect ProfileFacts
begin

text \<open>
  Correlations lie between -1 and 1 and their conversion is the z-normalised Euclidean distance; input
  files are read line by line; what the program writes can be read back.
\<close>

subsection \<open>Correlations and distances\<close>

text \<open>The inequality of Cauchy and Schwarz, for sums over a window.\<close>

lemma cauchy_window:
  fixes a b :: "nat \<Rightarrow> real"
  assumes A: "0 < (\<Sum>k<w. a k * a k)" and B: "0 < (\<Sum>k<w. b k * b k)"
  shows "(\<Sum>k<w. a k * b k) \<le> sqrt (\<Sum>k<w. a k * a k) * sqrt (\<Sum>k<w. b k * b k)"
proof -
  define p where "p = sqrt (\<Sum>k<w. a k * a k)"
  define q where "q = sqrt (\<Sum>k<w. b k * b k)"
  have pq: "0 < p" "0 < q" "p * p = (\<Sum>k<w. a k * a k)" "q * q = (\<Sum>k<w. b k * b k)"
    using A B by (simp_all add: p_def q_def)
  have "0 \<le> (\<Sum>k<w. (q * a k - p * b k) * (q * a k - p * b k))" by (intro sum_nonneg) simp
  also have "\<dots> = (\<Sum>k<w. q * q * (a k * a k) - 2 * p * q * (a k * b k) + p * p * (b k * b k))"
    by (intro sum.cong) (simp_all add: algebra_simps)
  also have "\<dots> = q * q * (\<Sum>k<w. a k * a k) - 2 * p * q * (\<Sum>k<w. a k * b k) + p * p * (\<Sum>k<w. b k * b k)"
    by (simp add: sum.distrib sum_subtractf sum_distrib_left)
  also have "\<dots> = 2 * (p * q) * (p * q - (\<Sum>k<w. a k * b k))" by (simp add: pq(3,4) [symmetric] algebra_simps)
  finally have "0 \<le> 2 * (p * q) * (p * q - (\<Sum>k<w. a k * b k))" .
  moreover have "0 < 2 * (p * q)" using pq by simp
  ultimately have "0 \<le> p * q - (\<Sum>k<w. a k * b k)" by (simp only: zero_le_mult_iff) auto
  then show ?thesis by (simp add: p_def q_def)
qed

lemma cauchy_window_neg:
  fixes a b :: "nat \<Rightarrow> real"
  assumes "0 < (\<Sum>k<w. a k * a k)" "0 < (\<Sum>k<w. b k * b k)"
  shows "- (\<Sum>k<w. a k * b k) \<le> sqrt (\<Sum>k<w. a k * a k) * sqrt (\<Sum>k<w. b k * b k)"
  using cauchy_window [of a w "\<lambda>k. - b k"] assms by (simp add: sum_negf)

lemma pearson_abs_le:
  assumes "0 < wssq xs w i" "0 < wssq ys w j"
  shows "\<bar>pearson xs ys w i j\<bar> \<le> 1"
proof -
  let ?a = "\<lambda>k. xs ! (i + k) - wmean xs w i" and ?b = "\<lambda>k. ys ! (j + k) - wmean ys w j"
  have s: "wssq xs w i = (\<Sum>k<w. ?a k * ?a k)" "wssq ys w j = (\<Sum>k<w. ?b k * ?b k)" by (simp_all add: cdot_def)
  have "cdot xs ys w i j \<le> sqrt (wssq xs w i) * sqrt (wssq ys w j)"
    using cauchy_window [of ?a w ?b] assms unfolding s by (simp add: cdot_def)
  moreover have "- cdot xs ys w i j \<le> sqrt (wssq xs w i) * sqrt (wssq ys w j)"
    using cauchy_window_neg [of ?a w ?b] assms unfolding s by (simp add: cdot_def)
  ultimately show ?thesis
    using assms by (simp add: pearson_def divide_le_eq abs_le_iff)
qed

lemma match_values_bounded:
  "pair_value xs nx ys ny w i j = Fin (-2) \<or> (\<exists>r. pair_value xs nx ys ny w i j = Fin r \<and> -1 \<le> r \<and> r \<le> 1)"
proof (cases "bad_window xs nx w i \<or> bad_window ys ny w j")
  case False
  then have "1 / 10 ^ 13 < wssq xs w i" "1 / 10 ^ 13 < wssq ys w j" by (simp_all add: bad_window_def)
  then have "\<bar>pearson xs ys w i j\<bar> \<le> 1" by (intro pearson_abs_le) (auto intro: less_trans [rotated])
  then show ?thesis using False by (simp add: pair_value_def abs_le_iff)
qed (simp add: pair_value_def)

text \<open>The squared distance of two windows after each is shifted to mean 0 and scaled to variance 1.\<close>

definition znorm :: "real list \<Rightarrow> nat \<Rightarrow> nat \<Rightarrow> nat \<Rightarrow> real" where
  "znorm xs w i k = (xs ! (i + k) - wmean xs w i) / sqrt (wssq xs w i / real w)"

lemma znorm_distance:
  assumes "0 < w" "0 < wssq xs w i" "0 < wssq ys w j"
  shows "(\<Sum>k<w. (znorm xs w i k - znorm ys w j k)\<^sup>2) = 2 * real w * (1 - pearson xs ys w i j)"
proof -
  let ?a = "\<lambda>k. xs ! (i + k) - wmean xs w i" and ?b = "\<lambda>k. ys ! (j + k) - wmean ys w j"
  define p where "p = sqrt (wssq xs w i / real w)"
  define q where "q = sqrt (wssq ys w j / real w)"
  have pq: "0 < p" "0 < q" "p * p = wssq xs w i / real w" "q * q = wssq ys w j / real w"
    using assms by (simp_all add: p_def q_def)
  have prod: "p * q = sqrt (wssq xs w i) * sqrt (wssq ys w j) / real w"
    by (simp add: p_def q_def real_sqrt_divide)
  have "(\<Sum>k<w. (znorm xs w i k - znorm ys w j k)\<^sup>2) =
      (\<Sum>k<w. (?a k * ?a k) / (p * p) - 2 * (?a k * ?b k) / (p * q) + (?b k * ?b k) / (q * q))"
    using pq(1,2) by (intro sum.cong) (simp_all add: znorm_def p_def [symmetric] q_def [symmetric] power2_eq_square field_simps)
  also have "\<dots> = wssq xs w i / (p * p) - 2 * cdot xs ys w i j / (p * q) + wssq ys w j / (q * q)"
    by (simp add: sum.distrib sum_subtractf sum_divide_distrib [symmetric] sum_distrib_left [symmetric] cdot_def)
  also have "\<dots> = 2 * real w - 2 * real w * pearson xs ys w i j"
    using assms pq unfolding prod pq(3,4) by (simp add: pearson_def)
  finally show ?thesis by (simp add: algebra_simps)
qed

text \<open>
  C7. The distance the program prints is the Euclidean distance of the two z-normalised windows.
\<close>

theorem euclidean_distance_correct:
  assumes "0 < w" "0 < wssq xs w i" "0 < wssq ys w j"
  shows "ConvertToEuclidean exact (Fin (pearson xs ys w i j)) (int w) =
    Fin (sqrt (\<Sum>k<w. (znorm xs w i k - znorm ys w j k)\<^sup>2))"
proof -
  define p where "p = pearson xs ys w i j"
  define d where "d = 2 * real w * (1 - p)"
  have r: "-1 \<le> p" "p \<le> 1" using pearson_abs_le [OF assms(2,3)] by (auto simp: p_def)
  then have d: "0 \<le> d" by (simp add: d_def)
  have "fmul exact (fmul exact (Fin 2) (fp_of_int exact (int w))) (fsub exact (Fin 1) (Fin p)) = Fin d"
    by (simp add: d_def)
  moreover have "\<not> flt (Fin p) (Fin (-1))" using r by simp
  ultimately have "ConvertToEuclidean exact (Fin p) (int w) = fsqrt exact (std_max (Fin d) (Fin 0))"
    by (simp add: ConvertToEuclidean_def)
  then show ?thesis
    using d unfolding znorm_distance [OF assms] by (simp add: std_max_def p_def [symmetric] d_def [symmetric])
qed

lemma euclidean_distance_correct_witness:
  "ConvertToEuclidean exact (Fin (pearson [1, 2, 4, 2] [1, 2, 4, 2] 2 0 2)) (int 2) =
    Fin (sqrt (\<Sum>k<2. (znorm [1, 2, 4, 2] 2 0 k - znorm [1, 2, 4, 2] 2 2 k)\<^sup>2))"
  by (rule euclidean_distance_correct) (simp_all add: cdot_def wmean_def numeral_2_eq_2)

subsection \<open>Reading a file\<close>

definition is_word :: "string \<Rightarrow> bool" where
  "is_word t \<longleftrightarrow> t \<noteq> [] \<and> (\<forall>c \<in> set t. \<not> is_space c)"

lemma newline_space: "is_space (CHR 0x0A)"
  by (simp add: is_space_def)

lemma take_word: "is_word t \<Longrightarrow> is_space c \<Longrightarrow> takeWhile (\<lambda>c. \<not> is_space c) (t @ c # r) = t"
  and drop_word: "is_word t \<Longrightarrow> is_space c \<Longrightarrow> dropWhile (\<lambda>c. \<not> is_space c) (t @ c # r) = c # r"
  and take_word_end: "is_word t \<Longrightarrow> takeWhile (\<lambda>c. \<not> is_space c) t = t"
  and drop_word_end: "is_word t \<Longrightarrow> dropWhile (\<lambda>c. \<not> is_space c) t = []"
  by (auto simp: is_word_def)

lemma skip_space: "is_word t \<Longrightarrow> dropWhile is_space (t @ r) = t @ r"
  by (cases t) (auto simp: is_word_def)

text \<open>Spaces before, a word, one more character: the word is read and the stream goes on.\<close>

lemma read_value_word:
  assumes "is_word t" "stod t = Stod_ok d" "is_space c" "\<forall>c \<in> set sp. is_space c"
  shows "read_value stod \<lparr>left = sp @ t @ c # r, eofbit = False, failbit = False\<rparr> =
    Some (d, \<lparr>left = c # r, eofbit = False, failbit = False\<rparr>)"
proof -
  have "dropWhile is_space (sp @ t @ c # r) = t @ c # r"
    using assms(4) skip_space [OF assms(1), of "c # r"] by (induction sp) auto
  moreover have "t \<noteq> []" using assms(1) by (simp add: is_word_def)
  ultimately show ?thesis
    using assms(3) by (simp add: read_value_def extract_word_def Let_def take_word [OF assms(1,3)] drop_word [OF assms(1,3)] assms(2))
qed

lemma read_lines:
  assumes "\<forall>t \<in> set ts. is_word t \<and> stod t = Stod_ok (val t)" "tail = [] \<or> is_word tail \<and> stod tail = Stod_ok z" "ts \<noteq> [] \<or> tail \<noteq> []"
    and "\<forall>c \<in> set sp. is_space c"
  shows "read_loop stod \<lparr>left = sp @ lines (\<lambda>t. t) ts @ tail, eofbit = False, failbit = False\<rparr> v = Some (v @ map val ts)"
  using assms
proof (induction ts arbitrary: sp v)
  case Nil
  then have w: "is_word tail" "stod tail = Stod_ok z" by auto
  have "dropWhile is_space (sp @ tail) = tail"
    using Nil.prems(4) skip_space [OF w(1), of "[]"] by (induction sp) auto
  moreover have "tail \<noteq> []" "\<forall>c \<in> set tail. \<not> is_space c" using w(1) by (simp_all add: is_word_def)
  ultimately have "read_value stod \<lparr>left = sp @ tail, eofbit = False, failbit = False\<rparr> = Some (z, \<lparr>left = [], eofbit = True, failbit = False\<rparr>)"
    by (simp add: read_value_def extract_word_def Let_def take_word_end [OF w(1)] drop_word_end [OF w(1)] w(2))
  then show ?case by (subst read_loop.simps) (simp add: lines_def peek_eof_def)
next
  case (Cons t ts)
  have t: "is_word t" "stod t = Stod_ok (val t)" using Cons.prems(1) by auto
  let ?r = "lines (\<lambda>t. t) ts @ tail"
  have L: "sp @ lines (\<lambda>t. t) (t # ts) @ tail = sp @ t @ CHR 0x0A # ?r" by (simp add: lines_def newline_def)
  have rv: "read_value stod \<lparr>left = sp @ t @ CHR 0x0A # ?r, eofbit = False, failbit = False\<rparr> =
      Some (val t, \<lparr>left = CHR 0x0A # ?r, eofbit = False, failbit = False\<rparr>)"
    by (rule read_value_word) (use t newline_space Cons.prems(4) in simp_all)
  have step: "read_loop stod \<lparr>left = sp @ t @ CHR 0x0A # ?r, eofbit = False, failbit = False\<rparr> v =
      read_loop stod \<lparr>left = [CHR 0x0A] @ ?r, eofbit = False, failbit = False\<rparr> (v @ [val t])"
    by (subst read_loop.simps) (simp add: rv peek_eof_def)
  show ?case
  proof (cases "ts = [] \<and> tail = []")
    case True
    have "read_value stod \<lparr>left = [CHR 0x0A], eofbit = False, failbit = False\<rparr> = Some (NaN, \<lparr>left = [], eofbit = True, failbit = True\<rparr>)"
      by (simp add: read_value_def extract_word_def peek_eof_def newline_space)
    then have "read_loop stod \<lparr>left = [CHR 0x0A], eofbit = False, failbit = False\<rparr> (v @ [val t]) = Some (v @ [val t])"
      by (subst read_loop.simps) simp
    then show ?thesis using True step unfolding L by (simp add: lines_def)
  next
    case False
    have "read_loop stod \<lparr>left = [CHR 0x0A] @ ?r, eofbit = False, failbit = False\<rparr> (v @ [val t]) = Some ((v @ [val t]) @ map val ts)"
      by (rule Cons.IH) (use Cons.prems False newline_space in auto)
    then show ?thesis using step unfolding L by simp
  qed
qed

text \<open>
  A file with one value per line, each line ended by a newline, is read completely; if a value
  follows the last newline it is left out without a warning, whatever it is.
\<close>

theorem readFile_lines:
  assumes "\<forall>t \<in> set ts. is_word t \<and> stod t = Stod_ok (val t)" "ts \<noteq> []"
  shows "readFile stod (Some (lines (\<lambda>t. t) ts)) [] = Some (map val ts)
    \<and> (\<forall>t z. is_word t \<and> stod t = Stod_ok z \<longrightarrow> readFile stod (Some (lines (\<lambda>t. t) ts @ t)) [] = Some (map val ts))"
  using read_lines [OF assms(1), of "[]" undefined "[]" "[]"] read_lines [OF assms(1), of _ _ "[]" "[]"] assms(2)
  by (auto simp: readFile_def)

text \<open>Numbers of one digit.\<close>

definition digit_stod :: "string \<Rightarrow> stod_result" where
  "digit_stod s = (case s of [c] \<Rightarrow> Stod_ok (Fin (real (of_char c) - 48)) | _ \<Rightarrow> Stod_invalid)"

lemma readFile_lines_witness:
  "readFile digit_stod (Some (lines (\<lambda>t. t) [''3'', ''5''])) [] = Some (map (\<lambda>t. Fin (real (of_char (hd t)) - 48)) [''3'', ''5''])"
proof -
  have "\<forall>t \<in> set [''3'', ''5'']. is_word t \<and> digit_stod t = Stod_ok (Fin (real (of_char (hd t)) - 48))"
    by (simp add: is_word_def is_space_def digit_stod_def)
  from readFile_lines [OF this] show ?thesis by simp
qed

subsection \<open>Round trips\<close>

lemma lines_map: "lines f xs = lines (\<lambda>t. t) (map f xs)"
  by (simp add: lines_def comp_def)

text \<open>
  C26. What \<open>WriteProfileToFile\<close> writes, \<open>readFile\<close> reads back completely and in order, up to the digits
  the format keeps: the distances of a \<open>1NN\<close> or \<open>1NN_INDEX\<close> profile and the sums of a \<open>SUM_THRESH\<close> one.
\<close>

theorem write_read_profile:
  assumes "\<And>x. is_word (fmt x) \<and> stod (fmt x) = Stod_ok (g x)" "typed_data t p" "values \<noteq> []"
    and "t = PROFILE_TYPE_1NN \<and> values = map (output_value rd corrs window) (float_value (the_data p))
      \<or> t = PROFILE_TYPE_1NN_INDEX \<and> values = map (\<lambda>e. output_value rd corrs window (floats0 e)) (uint64_value (the_data p))
      \<or> t = PROFILE_TYPE_SUM_THRESH \<and> values = double_value (the_data p)"
  shows "\<exists>contents rest. WriteProfileToFile rd fmt mp mpi p corrs window width = Some ((mp, contents) # rest)
    \<and> readFile stod (Some contents) [] = Some (map g values)"
proof -
  have "readFile stod (Some (lines fmt values)) [] = Some (map g values)"
    using read_lines [of "map fmt values" stod "\<lambda>t. case stod t of Stod_ok d \<Rightarrow> d" "[]" undefined "[]" "[]"] assms(1,3)
    by (simp add: readFile_def lines_map [of fmt] comp_def)
  moreover have "\<exists>rest. WriteProfileToFile rd fmt mp mpi p corrs window width = Some ((mp, lines fmt values) # rest)"
    using assms(2,4) by (auto simp: WriteProfileToFile_def lines_def comp_def Let_def)
  ultimately show ?thesis by blast
qed

definition two_fmt :: "fp \<Rightarrow> string" where
  "two_fmt x = (if x = Fin 3 then ''3'' else ''5'')"

definition two_stod :: "string \<Rightarrow> stod_result" where
  "two_stod s = (if s = ''3'' then Stod_ok (Fin 3) else Stod_ok (Fin 5))"

lemma write_read_profile_witness:
  "\<exists>contents rest. WriteProfileToFile exact two_fmt ''mp'' ''mpi'' (demo_sums [Fin 3, Fin 5]) True 3 1 = Some ((''mp'', contents) # rest)
    \<and> readFile two_stod (Some contents) [] = Some (map (\<lambda>x. if x = Fin 3 then Fin 3 else Fin 5) [Fin 3, Fin 5])"
  by (rule write_read_profile [where t = PROFILE_TYPE_SUM_THRESH])
    (simp_all add: two_fmt_def two_stod_def is_word_def is_space_def)

text \<open>A list of integers, printed with commas in between.\<close>

fun commas :: "string list \<Rightarrow> string" where
  "commas [] = []"
| "commas [w] = w"
| "commas (w # ws) = w @ CHR 0x2C # commas ws"

lemma split_commas_word: "CHR 0x2C \<notin> set w \<Longrightarrow> split_commas (w @ s) = (case split_commas s of [] \<Rightarrow> [w] | x # xs \<Rightarrow> (w @ x) # xs)"
proof (induction w)
  case Nil
  then show ?case by (cases "split_commas s") (induction s; auto split: list.splits if_splits)+
next
  case (Cons c w)
  then show ?case by (auto split: list.splits)
qed

lemma split_commas_inverse: "ws \<noteq> [] \<Longrightarrow> \<forall>w \<in> set ws. CHR 0x2C \<notin> set w \<Longrightarrow> split_commas (commas ws) = ws"
proof (induction ws rule: commas.induct)
  case (2 w)
  then show ?case using split_commas_word [of w "[]"] by simp
next
  case (3 w v vs)
  then show ?case using split_commas_word [of w "CHR 0x2C # commas (v # vs)"] by simp
qed simp

lemma stoi_all_map: "\<forall>n \<in> set ns. - (2 ^ 31) \<le> n \<and> n < 2 ^ 31 \<Longrightarrow> stoi_all (map show_int ns) = Some ns"
  by (induction ns) auto

text \<open>
  A list of integers printed with commas is parsed back.
\<close>

theorem ParseIntList_roundtrip:
  assumes "\<forall>n \<in> set ns. - (2 ^ 31) \<le> n \<and> n < 2 ^ 31"
  shows "ParseIntList (commas (map show_int ns)) = Some ns"
proof (cases "ns = []")
  case False
  then have "commas (map show_int ns) \<noteq> []" by (cases ns rule: list.exhaust; cases "tl ns") (auto simp: show_int_chars)
  moreover have "\<forall>w \<in> set (map show_int ns). CHR 0x2C \<notin> set w" using show_int_chars(2) by auto
  ultimately show ?thesis
    using split_commas_inverse [of "map show_int ns"] stoi_all_map [OF assms] False by (simp add: ParseIntList_def)
qed (simp add: ParseIntList_def)

lemma ParseIntList_roundtrip_witness: "ParseIntList (commas (map show_int [3, -1, 42])) = Some [3, -1, 42]"
  by (rule ParseIntList_roundtrip) simp

end
