(* ===== verification/ProgramCorrect.thy ===== *)
theory ProgramCorrect
  imports Program InterfaceCorrect UtilsCorrect
begin

text \<open>
  The command line program: its own checks leave nothing for the library to reject, and a self join
  writes the matrix profile of the input file.
\<close>

lemma ParseIntList_empty [simp]: "ParseIntList [] = Some []"
  by (simp add: ParseIntList_def)

text \<open>
  After the checks of \<open>main\<close>, the library's validation cannot fail, except for a matrix summary that
  is larger than the distance matrix.
\<close>

theorem main_checks_suffice:
  assumes "3 \<le> flag_window f" "1024 \<le> max_tile" "flag_window f \<le> max_tile div 2"
    and "1 \<le> size_of Ta - flag_window f + 1" "\<not> self_join \<longrightarrow> 1 \<le> size_of Tb - flag_window f + 1"
    and "flag_profile_type f \<noteq> ''MATRIX_SUMMARY''"
  shows "validate (args_of_flags f self_join max_tile Ta Tb) = Inr ()"
proof -
  have "precision_type (args_of_flags f self_join max_tile Ta Tb) \<noteq> PRECISION_MIXED"
    by (simp add: args_of_flags_def GetPrecisionType_def Let_def)
  moreover have "arg_profile_type (args_of_flags f self_join max_tile Ta Tb) \<noteq> PROFILE_TYPE_MATRIX_SUMMARY"
    using assms(6) by (simp add: args_of_flags_def ParseProfileType_def Let_def)
  ultimately show ?thesis
    using assms(1-5) by (simp add: validate_def) (auto simp: args_of_flags_def Let_def)
qed

text \<open>The flags of a self join for the nearest neighbours, with the input readable.\<close>

definition self_join_flags :: "env \<Rightarrow> Flags \<Rightarrow> fp list \<Rightarrow> bool" where
  "self_join_flags env f T \<longleftrightarrow> \<not> flag_list_variants f \<and> \<not> flag_autotune f \<and> \<not> flag_ultra_precision f
     \<and> \<not> flag_single_precision f \<and> flag_gpus f = [] \<and> flag_max_tile_size f = None \<and> flag_profile_type f = ''1NN_INDEX''
     \<and> flag_input_a_file_name f \<noteq> [] \<and> flag_input_b_file_name f = [] \<and> \<not> flag_keep_rows f \<and> 0 < flag_num_cpu_workers f
     \<and> 3 \<le> flag_window f \<and> flag_window f \<le> 64000 \<and> flag_window f \<le> size_of T \<and> size_of T < 2 ^ 31
     \<and> readFile (env_stod env) (env_files env (flag_input_a_file_name f)) [] = Some T
     \<and> env_fpu env = exact_fpu \<and> eigen_max_contract (env_eigen env)"

lemma index_of_match:
  assumes "best_match S x e" "side_others S < 2 ^ 31"
  shows "index_of_entry e = -1 \<or> is_match S x (index_of_entry e) e"
proof (cases "flt (floats0 e) (Fin (-1))")
  case False
  then obtain y where y: "is_match S x y e" using assms(1) by (auto simp: best_match_def init_entry_def)
  then have "sint (ints1 e) = y"
    using assms(2) by (auto simp: is_match_def sint_sbintrunc' take_bit_int_eq_self signed_take_bit_int_eq_self)
  then show ?thesis using y False by (simp add: index_of_entry_def)
qed (simp add: index_of_entry_def)

lemma default_precision_keeps [simp]:
  "flag_gpus (default_precision f) = flag_gpus f" "flag_max_tile_size (default_precision f) = flag_max_tile_size f"
  "flag_profile_type (default_precision f) = flag_profile_type f" "flag_keep_rows (default_precision f) = flag_keep_rows f"
  "flag_input_a_file_name (default_precision f) = flag_input_a_file_name f"
  "flag_input_b_file_name (default_precision f) = flag_input_b_file_name f"
  "flag_num_cpu_workers (default_precision f) = flag_num_cpu_workers f" "flag_window (default_precision f) = flag_window f"
  "flag_output_a_file_name (default_precision f) = flag_output_a_file_name f"
  "flag_output_a_index_file_name (default_precision f) = flag_output_a_index_file_name f"
  "flag_output_pearson (default_precision f) = flag_output_pearson f"
  by (simp_all add: default_precision_def)

text \<open>What \<open>main\<close> hands to \<open>do_SCAMP\<close> for the flags of a self join, and what it does with the answer.\<close>

abbreviation join_args :: "Flags \<Rightarrow> fp list \<Rightarrow> SCAMPArgs" where
  "join_args f T \<equiv> args_of_flags (default_precision f) True 128000 T []"

lemma self_join_double:
  assumes "self_join_flags env f T"
  shows "flag_double_precision (default_precision f)" "\<not> flag_ultra_precision (default_precision f)"
    "\<not> flag_single_precision (default_precision f)"
  using assms by (simp_all add: self_join_flags_def default_precision_def)

lemma self_join_args:
  assumes "self_join_flags env f T"
  shows "validate (join_args f T) = Inr ()" "index_args (join_args f T)"
    "timeseries_a (join_args f T) = T" "timeseries_b (join_args f T) = []" "arg_window (join_args f T) = flag_window f"
proof -
  have f: "flag_profile_type f = ''1NN_INDEX''" "\<not> flag_keep_rows f" "3 \<le> flag_window f" "flag_window f \<le> 64000" "flag_window f \<le> size_of T"
    using assms by (simp_all add: self_join_flags_def)
  note d = self_join_double [OF assms]
  show "validate (join_args f T) = Inr ()"
    using f d by (simp add: validate_def args_of_flags_def Let_def ParseProfileType_def GetPrecisionType_def size_of_def)
  show "index_args (join_args f T)"
    using f(1,2) d by (simp add: index_args_def ready_profile_def unallocated_def args_of_flags_def Let_def ParseProfileType_def GetPrecisionType_def Profile_default_def)
qed (simp_all add: args_of_flags_def Let_def)

lemma main_program_self_join:
  assumes "self_join_flags env f T"
  shows "main_program env sched f = map_option (\<lambda>r. case r of Inl (SCAMPException _) \<Rightarrow> Exit 1 [] | Inl Undefined \<Rightarrow> Undefined_behaviour
      | Inr a \<Rightarrow> write_results env (default_precision f) a)
    (do_SCAMP exact_fpu (env_eigen env) (env_fresh env) (env_uninit env) sched (Some (join_args f T)) [] (flag_num_cpu_workers f))"
  using assms self_join_double [OF assms]
  by (simp add: self_join_flags_def one_precision_def main_program_def run_join_def Let_def tile_size_to_use_def)

lemma write_results_self_join:
  assumes "self_join_flags env f T" "typed_data PROFILE_TYPE_1NN_INDEX (profile_a a)"
  shows "write_results env (default_precision f) a = Exit 0
    [(flag_output_a_file_name f, lines (\<lambda>e. env_fmt env (output_value exact (flag_output_pearson f) (flag_window f) (floats0 e))) (entries (profile_a a))),
     (flag_output_a_index_file_name f, lines (\<lambda>e. show_int (index_of_entry e)) (entries (profile_a a)))]"
  using assms by (simp add: self_join_flags_def write_results_def WriteProfileToFile_def entries_def Let_def)

text \<open>
  C6. The program computes the matrix profile of its input file: in exact arithmetic, under every fair schedule of
  its workers, it exits with code 0 after writing, for every window of the series, the best correlation (as a
  distance or as itself) to the first file and the index of its match to the second; under a schedule that is not
  fair it does so or has not finished.
\<close>

theorem main_writes_matrix_profile:
  assumes "self_join_flags env f T"
  shows "\<exists>info. operation_of exact (env_uninit env) (args_of_flags (default_precision f) True 128000 T []) (flag_num_cpu_workers f) = Some info
    \<and> op_mp_window info = flag_window f \<and> op_full_ts_len_A info = size_of T
    \<and> (case main_program env sched f of
        None \<Rightarrow> \<not> fair (nat (flag_num_cpu_workers f))
          (5 * nat (flag_num_cpu_workers f) + 10 * card (upper_tiles (num_tile_cols info))) sched
      | Some r \<Rightarrow> \<exists>es. length es = nat (num_windows info)
        \<and> (\<forall>x < nat (num_windows info). matrix_profile_entry info T (int x) (es ! x)
            \<and> (index_of_entry (es ! x) = -1 \<or> is_match (self_side info T) (int x) (index_of_entry (es ! x)) (es ! x)))
        \<and> r = Exit 0 [(flag_output_a_file_name f,
              lines (\<lambda>e. env_fmt env (output_value exact (flag_output_pearson f) (flag_window f) (floats0 e))) es),
            (flag_output_a_index_file_name f, lines (\<lambda>e. show_int (index_of_entry e)) es)])"
proof -
  let ?a = "join_args f T"
  have f: "0 < flag_num_cpu_workers f" "3 \<le> flag_window f" "flag_window f \<le> size_of T" "size_of T < 2 ^ 31" "eigen_max_contract (env_eigen env)"
    using assms by (simp_all add: self_join_flags_def)
  note val = self_join_args [OF assms]
  let ?run = "do_SCAMP exact_fpu (env_eigen env) (env_fresh env) (env_uninit env) sched (Some ?a) [] (flag_num_cpu_workers f)"
  obtain info where i: "operation_of exact (env_uninit env) ?a (flag_num_cpu_workers f) = Some info"
      "op_mp_window info = flag_window f" "op_full_ts_len_A info = size_of T"
    and D: "case ?run of
        None \<Rightarrow> \<not> fair (nat (flag_num_cpu_workers f)) (5 * nat (flag_num_cpu_workers f) + 10 * card (upper_tiles (num_tile_cols info))) sched
      | Some r \<Rightarrow> \<exists>pa. r = Inr (?a\<lparr>profile_a := pa\<rparr>) \<and> is_matrix_profile info T pa"
    using do_SCAMP_self_join [OF val(1,2) _ _ f(1,5), where uninit = "env_uninit env" and fresh = "env_fresh env" and sched = sched, unfolded val] f(4)
    by (auto simp: size_of_def)
  note m = main_program_self_join [OF assms]
  have "case main_program env sched f of
      None \<Rightarrow> \<not> fair (nat (flag_num_cpu_workers f))
          (5 * nat (flag_num_cpu_workers f) + 10 * card (upper_tiles (num_tile_cols info))) sched
      | Some r \<Rightarrow> \<exists>es. length es = nat (num_windows info)
        \<and> (\<forall>x < nat (num_windows info). matrix_profile_entry info T (int x) (es ! x)
            \<and> (index_of_entry (es ! x) = -1 \<or> is_match (self_side info T) (int x) (index_of_entry (es ! x)) (es ! x)))
        \<and> r = Exit 0 [(flag_output_a_file_name f,
              lines (\<lambda>e. env_fmt env (output_value exact (flag_output_pearson f) (flag_window f) (floats0 e))) es),
            (flag_output_a_index_file_name f, lines (\<lambda>e. show_int (index_of_entry e)) es)]"
  proof (cases ?run)
    case None
    then show ?thesis using D by (simp add: m)
  next
    case (Some r)
    then obtain a' where r: "r = Inr a'" "is_matrix_profile info T (profile_a a')"
      using D by auto
    then have w: "write_results env (default_precision f) a' = Exit 0
        [(flag_output_a_file_name f, lines (\<lambda>e. env_fmt env (output_value exact (flag_output_pearson f) (flag_window f) (floats0 e))) (entries (profile_a a'))),
         (flag_output_a_index_file_name f, lines (\<lambda>e. show_int (index_of_entry e)) (entries (profile_a a')))]"
      using write_results_self_join [OF assms] by (simp add: is_matrix_profile_entries)
    have "num_windows info < 2 ^ 31" using i(2,3) f(2,4) by (simp add: num_windows_def)
    then have "side_others (self_side info T) < 2 ^ 31" by (simp add: self_side_def)
    then show ?thesis
      using Some r w index_of_match [of "self_side info T"] unfolding m is_matrix_profile_entries matrix_profile_entry_def
      by (intro exI [of _ "entries (profile_a a')"] | simp)+
  qed
  then show ?thesis using i by blast
qed

text \<open>
  What is printed for a match: either value is NaN if one of the windows is flat or unclean; if not,
  the correlation lies between -1 and 1 and the distance between 0 and twice the root of the window.
\<close>

theorem printed_values_bounded:
  assumes "0 \<le> op_mp_window info"
  shows "CleanupPearson (match_value_of info T x y) = NaN \<and> ConvertToEuclidean exact (match_value_of info T x y) (op_mp_window info) = NaN
    \<or> (\<exists>r d. CleanupPearson (match_value_of info T x y) = Fin r \<and> -1 \<le> r \<and> r \<le> 1
        \<and> ConvertToEuclidean exact (match_value_of info T x y) (op_mp_window info) = Fin d \<and> 0 \<le> d
        \<and> d \<le> 2 * sqrt (of_int (op_mp_window info)))"
proof -
  let ?v = "match_value_of info T x y" and ?w = "of_int (op_mp_window info) :: real"
  consider "?v = Fin (-2)" | r where "?v = Fin r" "-1 \<le> r" "r \<le> 1"
    using match_values_bounded unfolding match_value_of_def Let_def by blast
  then show ?thesis
  proof cases
    case 1
    then show ?thesis by (simp add: CleanupPearson_def ConvertToEuclidean_def)
  next
    case 2
    have w: "0 \<le> ?w" using assms by simp
    then have n: "0 \<le> 2 * ?w * (1 - r)" using 2(3) by simp
    have "2 * ?w * (1 - r) \<le> 2 * ?w * 2" using w 2(2) by (intro mult_left_mono) auto
    then have "sqrt (2 * ?w * (1 - r)) \<le> sqrt (4 * ?w)" by simp
    also have "\<dots> = 2 * sqrt ?w" by (simp add: real_sqrt_mult)
    finally have le: "sqrt (2 * ?w * (1 - r)) \<le> 2 * sqrt ?w" .
    define d where "d = 2 * ?w * (1 - r)"
    have "fmul exact (fmul exact (Fin 2) (fp_of_int exact (op_mp_window info))) (fsub exact (Fin 1) (Fin r)) = Fin d"
      by (simp add: d_def)
    moreover have "\<not> flt (Fin r) (Fin (-1))" using 2(2) by simp
    ultimately have "ConvertToEuclidean exact ?v (op_mp_window info) = fsqrt exact (std_max (Fin d) (Fin 0))"
      by (simp add: ConvertToEuclidean_def 2(1))
    then have "ConvertToEuclidean exact ?v (op_mp_window info) = Fin (sqrt d)"
      using n by (simp add: std_max_def d_def [symmetric])
    moreover have "CleanupPearson ?v = Fin r" using 2 by (simp add: CleanupPearson_def)
    ultimately show ?thesis using 2(2,3) le n by (simp add: d_def)
  qed
qed

lemma printed_values_bounded_witness:
  "CleanupPearson (match_value_of demo_geometry demo_series 0 6) = NaN
      \<and> ConvertToEuclidean exact (match_value_of demo_geometry demo_series 0 6) (op_mp_window demo_geometry) = NaN
    \<or> (\<exists>r d. CleanupPearson (match_value_of demo_geometry demo_series 0 6) = Fin r \<and> -1 \<le> r \<and> r \<le> 1
        \<and> ConvertToEuclidean exact (match_value_of demo_geometry demo_series 0 6) (op_mp_window demo_geometry) = Fin d \<and> 0 \<le> d
        \<and> d \<le> 2 * sqrt (of_int (op_mp_window demo_geometry)))"
  by (rule printed_values_bounded) (simp add: demo_geometry_def)

text \<open>A file of five lines.\<close>

definition demo_env :: env where
  "demo_env = \<lparr>env_fpu = exact_fpu, env_eigen = list_eigen, env_fresh = (\<lambda>_. NaN), env_uninit = NaN, env_stod = two_stod,
     env_fmt = two_fmt,
     env_files = (\<lambda>name. if name = ''in.txt'' then Some (lines (\<lambda>t. t) [''3'', ''5'', ''5'', ''3'', ''5'']) else None)\<rparr>"

definition demo_flags :: Flags where
  "demo_flags = default_flags\<lparr>flag_window := 3, flag_input_a_file_name := ''in.txt'', flag_num_cpu_workers := 2\<rparr>"

lemma main_checks_suffice_witness:
  "validate (args_of_flags demo_flags True 128000 [Fin 3, Fin 5, Fin 5] []) = Inr ()"
  by (rule main_checks_suffice) (simp_all add: demo_flags_def default_flags_def size_of_def)

lemma demo_self_join_flags: "self_join_flags demo_env demo_flags [Fin 3, Fin 5, Fin 5, Fin 3, Fin 5]"
proof -
  have "readFile two_stod (Some (lines (\<lambda>t. t) [''3'', ''5'', ''5'', ''3'', ''5''])) [] = Some [Fin 3, Fin 5, Fin 5, Fin 3, Fin 5]"
    using read_lines [of "[''3'', ''5'', ''5'', ''3'', ''5'']" two_stod "\<lambda>t. if t = ''3'' then Fin 3 else Fin 5" "[]" undefined "[]" "[]"]
    by (simp add: readFile_def two_stod_def is_word_def is_space_def)
  then show ?thesis
    by (simp add: self_join_flags_def demo_env_def demo_flags_def default_flags_def size_of_def list_eigen_max)
qed

lemma main_writes_matrix_profile_witness:
  "\<exists>info. operation_of exact (env_uninit demo_env)
        (args_of_flags (default_precision demo_flags) True 128000 [Fin 3, Fin 5, Fin 5, Fin 3, Fin 5] []) (flag_num_cpu_workers demo_flags) = Some info
    \<and> op_mp_window info = flag_window demo_flags \<and> op_full_ts_len_A info = size_of [Fin 3, Fin 5, Fin 5, Fin 3, Fin 5]
    \<and> (case main_program demo_env (concat (replicate 40 [0, 1])) demo_flags of
        None \<Rightarrow> \<not> fair (nat (flag_num_cpu_workers demo_flags))
          (5 * nat (flag_num_cpu_workers demo_flags) + 10 * card (upper_tiles (num_tile_cols info))) (concat (replicate 40 [0, 1]))
      | Some r \<Rightarrow> \<exists>es. length es = nat (num_windows info)
        \<and> (\<forall>x < nat (num_windows info). matrix_profile_entry info [Fin 3, Fin 5, Fin 5, Fin 3, Fin 5] (int x) (es ! x)
            \<and> (index_of_entry (es ! x) = -1 \<or> is_match (self_side info [Fin 3, Fin 5, Fin 5, Fin 3, Fin 5]) (int x) (index_of_entry (es ! x)) (es ! x)))
        \<and> r = Exit 0 [(flag_output_a_file_name demo_flags,
              lines (\<lambda>e. env_fmt demo_env (output_value exact (flag_output_pearson demo_flags) (flag_window demo_flags) (floats0 e))) es),
            (flag_output_a_index_file_name demo_flags, lines (\<lambda>e. show_int (index_of_entry e)) es)])"
  by (rule main_writes_matrix_profile [OF demo_self_join_flags])

end
