(* ===== verification/DistUtils.thy ===== *)
theory DistUtils
  imports Interface
begin

text \<open>
  src/distributed/utils.cpp and scamp.proto: the messages exchanged between clients, the server and the
  workers, their conversion to and from the library's types, and the merge of a tile's profile into the
  profile of a job.

  A message is a record of its fields; a field never set has the default of protocol buffers (0, false,
  empty). \<open>ProtoData\<close> is the \<open>oneof\<close> of a profile: reading a member that is not set gives an empty list.
\<close>

subsection \<open>Messages\<close>

datatype ProtoProfileType =
    P_INVALID | P_1NN_INDEX | P_SUM_THRESH | P_FREQUENCY_THRESH | P_KNN | P_1NN_MULTIDIM | P_1NN

datatype ProtoPrecisionType = PP_INVALID | PP_SINGLE | PP_MIXED | PP_DOUBLE

datatype JobStatus =
    JOB_STATUS_INVALID | JOB_STATUS_READY | JOB_STATUS_RUNNING | JOB_STATUS_FINISHED | JOB_STATUS_FAILED

datatype ProtoData =
    No_data | UInts "32 word list" | ULongs "mp_entry list" | FloatData "fp list" | DoubleData "fp list"

fun uint64_of :: "ProtoData \<Rightarrow> mp_entry list" where
  "uint64_of (ULongs xs) = xs" | "uint64_of _ = []"

fun float_of :: "ProtoData \<Rightarrow> fp list" where
  "float_of (FloatData xs) = xs" | "float_of _ = []"

fun double_of :: "ProtoData \<Rightarrow> fp list" where
  "double_of (DoubleData xs) = xs" | "double_of _ = []"

record ProtoProfile =
  pdata :: "ProtoData list"
  ptype :: ProtoProfileType

record ProtoArgs =
  p_timeseries_a :: "fp list"
  p_timeseries_b :: "fp list"
  p_profile_a :: ProtoProfile
  p_profile_b :: ProtoProfile
  p_has_b :: bool
  p_window :: int
  p_max_tile_size :: int
  p_distributed_start_row :: int
  p_distributed_start_col :: int
  p_distance_threshold :: fp
  p_precision_type :: ProtoPrecisionType
  p_profile_type :: ProtoProfileType
  p_computing_rows :: bool
  p_computing_columns :: bool
  p_keep_rows_separate :: bool
  p_is_aligned :: bool
  p_timeseries_size_a :: int
  p_timeseries_size_b :: int
  p_job_id :: int
  p_tile_id :: int
  p_distributed_tile_size :: int

definition empty_proto_profile :: ProtoProfile where
  "empty_proto_profile = \<lparr>pdata = [], ptype = P_INVALID\<rparr>"

definition empty_proto_args :: ProtoArgs where
  "empty_proto_args = \<lparr>p_timeseries_a = [], p_timeseries_b = [], p_profile_a = empty_proto_profile,
     p_profile_b = empty_proto_profile, p_has_b = False, p_window = 0, p_max_tile_size = 0,
     p_distributed_start_row = 0, p_distributed_start_col = 0, p_distance_threshold = Fin 0,
     p_precision_type = PP_INVALID, p_profile_type = P_INVALID, p_computing_rows = False, p_computing_columns = False,
     p_keep_rows_separate = False, p_is_aligned = False, p_timeseries_size_a = 0, p_timeseries_size_b = 0,
     p_job_id = 0, p_tile_id = 0, p_distributed_tile_size = 0\<rparr>"

subsection \<open>Conversions\<close>

fun PrecisionType_from_proto :: "ProtoPrecisionType \<Rightarrow> SCAMPPrecisionType" where
  "PrecisionType_from_proto PP_DOUBLE = PRECISION_DOUBLE"
| "PrecisionType_from_proto PP_MIXED = PRECISION_MIXED"
| "PrecisionType_from_proto PP_SINGLE = PRECISION_SINGLE"
| "PrecisionType_from_proto _ = PRECISION_INVALID"

fun ProfileType_from_proto :: "ProtoProfileType \<Rightarrow> SCAMPProfileType" where
  "ProfileType_from_proto P_1NN_INDEX = PROFILE_TYPE_1NN_INDEX"
| "ProfileType_from_proto P_1NN = PROFILE_TYPE_1NN"
| "ProfileType_from_proto P_SUM_THRESH = PROFILE_TYPE_SUM_THRESH"
| "ProfileType_from_proto _ = PROFILE_TYPE_INVALID"

fun PrecisionType_to_proto :: "SCAMPPrecisionType \<Rightarrow> ProtoPrecisionType" where
  "PrecisionType_to_proto PRECISION_DOUBLE = PP_DOUBLE"
| "PrecisionType_to_proto PRECISION_MIXED = PP_MIXED"
| "PrecisionType_to_proto PRECISION_SINGLE = PP_SINGLE"
| "PrecisionType_to_proto _ = PP_INVALID"

fun ProfileType_to_proto :: "SCAMPProfileType \<Rightarrow> ProtoProfileType" where
  "ProfileType_to_proto PROFILE_TYPE_1NN_INDEX = P_1NN_INDEX"
| "ProfileType_to_proto PROFILE_TYPE_1NN = P_1NN"
| "ProfileType_to_proto PROFILE_TYPE_SUM_THRESH = P_SUM_THRESH"
| "ProfileType_to_proto _ = P_INVALID"

definition undefined_profile_type :: "'a result" where
  "undefined_profile_type = Inl (SCAMPException ''Undefined Profile Type'')"

text \<open>An empty vector is sent as a data element without content.\<close>

definition data_or_none :: "('a list \<Rightarrow> ProtoData) \<Rightarrow> 'a list \<Rightarrow> ProtoData" where
  "data_or_none f xs = (if xs = [] then No_data else f xs)"

definition Profile_to_proto :: "Profile \<Rightarrow> ProtoProfile result" where
  "Profile_to_proto p =
     (let out = \<lparr>pdata = [], ptype = ProfileType_to_proto (profile_type p)\<rparr> in
      case profile_data p of
        [] \<Rightarrow> Inr out
      | d # _ \<Rightarrow> (case profile_type p of
            PROFILE_TYPE_1NN_INDEX \<Rightarrow> Inr (out\<lparr>pdata := [data_or_none ULongs (uint64_value d)]\<rparr>)
          | PROFILE_TYPE_1NN \<Rightarrow> Inr (out\<lparr>pdata := [data_or_none FloatData (float_value d)]\<rparr>)
          | PROFILE_TYPE_SUM_THRESH \<Rightarrow> Inr (out\<lparr>pdata := [data_or_none DoubleData (double_value d)]\<rparr>)
          | _ \<Rightarrow> undefined_profile_type))"

definition Profile_from_proto :: "ProtoProfile \<Rightarrow> Profile result" where
  "Profile_from_proto p =
     (let out = Profile_default\<lparr>profile_type := ProfileType_from_proto (ptype p)\<rparr> in
      case pdata p of
        [] \<Rightarrow> Inr out
      | d # _ \<Rightarrow> (case ptype p of
            P_1NN_INDEX \<Rightarrow> Inr (out\<lparr>profile_data := [ProfileData_empty\<lparr>uint64_value := uint64_of d\<rparr>]\<rparr>)
          | P_1NN \<Rightarrow> Inr (out\<lparr>profile_data := [ProfileData_empty\<lparr>float_value := float_of d\<rparr>]\<rparr>)
          | P_SUM_THRESH \<Rightarrow> Inr (out\<lparr>profile_data := [ProfileData_empty\<lparr>double_value := double_of d\<rparr>]\<rparr>)
          | _ \<Rightarrow> undefined_profile_type))"

definition ConvertSCAMPArgsToProtoArgs :: "SCAMPArgs \<Rightarrow> ProtoArgs result" where
  "ConvertSCAMPArgsToProtoArgs a = rbind (Profile_to_proto (profile_a a)) (\<lambda>pa. rbind (Profile_to_proto (profile_b a)) (\<lambda>pb.
     Inr (empty_proto_args\<lparr>p_timeseries_a := timeseries_a a, p_timeseries_b := timeseries_b a,
       p_profile_a := pa, p_profile_b := pb, p_has_b := has_b a, p_window := arg_window a,
       p_max_tile_size := max_tile_size a, p_distributed_start_row := distributed_start_row a,
       p_distributed_start_col := distributed_start_col a, p_timeseries_size_a := size_of (timeseries_a a),
       p_timeseries_size_b := size_of (timeseries_b a), p_profile_type := ProfileType_to_proto (arg_profile_type a),
       p_precision_type := PrecisionType_to_proto (precision_type a), p_distance_threshold := distance_threshold a,
       p_computing_rows := computing_rows a, p_computing_columns := computing_columns a,
       p_keep_rows_separate := keep_rows_separate a, p_is_aligned := is_aligned a\<rparr>)))"

text \<open>The members the message has no field for keep their value. \<open>=\<close> on a profile moves type and data.\<close>

definition ConvertProtoArgsToSCAMPArgs :: "ProtoArgs \<Rightarrow> SCAMPArgs \<Rightarrow> SCAMPArgs result" where
  "ConvertProtoArgsToSCAMPArgs p a = rbind (Profile_from_proto (p_profile_a p)) (\<lambda>pa.
     rbind (if p_keep_rows_separate p then rbind (Profile_from_proto (p_profile_b p)) (\<lambda>pb. Inr (Profile_assign (profile_b a) pb))
            else Inr (profile_b a)) (\<lambda>pb.
     Inr (a\<lparr>max_tile_size := p_max_tile_size p, distributed_start_row := p_distributed_start_row p,
       distributed_start_col := p_distributed_start_col p, distance_threshold := p_distance_threshold p,
       computing_columns := p_computing_columns p, computing_rows := p_computing_rows p,
       profile_a := Profile_assign (profile_a a) pa, profile_b := pb,
       arg_profile_type := ProfileType_from_proto (p_profile_type p),
       precision_type := PrecisionType_from_proto (p_precision_type p),
       keep_rows_separate := p_keep_rows_separate p, is_aligned := p_is_aligned p, arg_window := p_window p,
       has_b := p_has_b p, timeseries_a := p_timeseries_a p, timeseries_b := p_timeseries_b p, silent_mode := True\<rparr>)))"

subsection \<open>Profiles of a job\<close>

definition GetProfileSize :: "ProtoProfile \<Rightarrow> int result" where
  "GetProfileSize p = (case pdata p of
       [] \<Rightarrow> Inr 0
     | d # _ \<Rightarrow> (case ptype p of
           P_1NN_INDEX \<Rightarrow> Inr (size_of (uint64_of d))
         | P_1NN \<Rightarrow> Inr (size_of (float_of d))
         | P_SUM_THRESH \<Rightarrow> Inr (size_of (double_of d))
         | _ \<Rightarrow> undefined_profile_type))"

definition InitProtoProfile :: "ProtoProfile \<Rightarrow> ProtoProfileType \<Rightarrow> int \<Rightarrow> ProtoProfile" where
  "InitProtoProfile p t sz =
     (if sz \<le> 0 then p
      else let p' = p\<lparr>ptype := t\<rparr> in case t of
        P_1NN_INDEX \<Rightarrow> p'\<lparr>pdata := pdata p @ [ULongs (replicate (nat sz) init_entry)]\<rparr>
      | P_1NN \<Rightarrow> p'\<lparr>pdata := pdata p @ [FloatData (replicate (nat sz) (Fin (-2)))]\<rparr>
      | P_SUM_THRESH \<Rightarrow> p'\<lparr>pdata := pdata p @ [DoubleData (replicate (nat sz) (Fin 0))]\<rparr>
      | _ \<Rightarrow> p')"

definition ProfileAllocated :: "ProtoProfile \<Rightarrow> bool" where
  "ProfileAllocated p = (case pdata p of
       [] \<Rightarrow> False
     | d # _ \<Rightarrow> (case ptype p of
           P_1NN_INDEX \<Rightarrow> uint64_of d \<noteq> []
         | P_1NN \<Rightarrow> float_of d \<noteq> []
         | P_SUM_THRESH \<Rightarrow> double_of d \<noteq> []
         | _ \<Rightarrow> False))"

text \<open>
  The element-wise merges are those of \<open>profile.cpp\<close> on raw arrays. \<open>mutable_data(0)\<close> of a profile
  without data is undefined.
\<close>

definition MergeTileIntoFullProfile ::
  "rounding \<Rightarrow> ProtoProfile \<Rightarrow> int \<Rightarrow> int \<Rightarrow> ProtoProfile \<Rightarrow> int \<Rightarrow> ProtoProfile result" where
  "MergeTileIntoFullProfile rd tile position len full index_start =
     (case ptype full of
        P_SUM_THRESH \<Rightarrow> of_option (do {
          d \<leftarrow> aget (pdata full) 0; t \<leftarrow> aget (pdata tile) 0;
          v \<leftarrow> elementwise_sum rd (double_of d) position len (double_of t);
          Some (full\<lparr>pdata := (pdata full)[0 := DoubleData v]\<rparr>) })
      | P_1NN_INDEX \<Rightarrow> of_option (do {
          d \<leftarrow> aget (pdata full) 0; t \<leftarrow> aget (pdata tile) 0;
          v \<leftarrow> elementwise_max_index (uint64_of d) position len (uint64_of t) index_start;
          Some (full\<lparr>pdata := (pdata full)[0 := ULongs v]\<rparr>) })
      | P_1NN \<Rightarrow> of_option (do {
          d \<leftarrow> aget (pdata full) 0; t \<leftarrow> aget (pdata tile) 0;
          v \<leftarrow> elementwise_max (float_of d) position len (float_of t);
          Some (full\<lparr>pdata := (pdata full)[0 := FloatData v]\<rparr>) })
      | _ \<Rightarrow> unimplemented)"

definition MergeJobProfile ::
  "rounding \<Rightarrow> ProtoArgs \<Rightarrow> ProtoArgs \<Rightarrow> ProtoProfile \<Rightarrow> int \<Rightarrow> int \<Rightarrow> ProtoProfile \<Rightarrow> int \<Rightarrow> int \<Rightarrow> ProtoArgs result" where
  "MergeJobProfile rd tile_args job_args a_tile col_pos width b_tile row_pos height =
     rbind (MergeTileIntoFullProfile rd a_tile col_pos width (p_profile_a job_args) row_pos) (\<lambda>pa.
       let j = job_args\<lparr>p_profile_a := pa\<rparr> in
       if p_keep_rows_separate tile_args
       then if p_computing_rows j \<and> p_keep_rows_separate j
            then rbind (MergeTileIntoFullProfile rd b_tile row_pos height (p_profile_b j) col_pos) (\<lambda>pb. Inr (j\<lparr>p_profile_b := pb\<rparr>))
            else if \<not> p_has_b j
            then rbind (MergeTileIntoFullProfile rd b_tile row_pos height (p_profile_a j) col_pos) (\<lambda>pa'. Inr (j\<lparr>p_profile_a := pa'\<rparr>))
            else Inr j
       else Inr j)"

definition validateArgs :: "ProtoArgs \<Rightarrow> bool" where
  "validateArgs args = True"

subsection \<open>Round trips\<close>

text \<open>What the messages can carry.\<close>

definition proto_profile_type :: "SCAMPProfileType \<Rightarrow> bool" where
  "proto_profile_type t \<longleftrightarrow> t \<in> {PROFILE_TYPE_1NN_INDEX, PROFILE_TYPE_1NN, PROFILE_TYPE_SUM_THRESH}"

lemma ProfileType_roundtrip: "proto_profile_type t \<Longrightarrow> ProfileType_from_proto (ProfileType_to_proto t) = t"
  by (auto simp: proto_profile_type_def)

lemma PrecisionType_roundtrip: "t \<noteq> PRECISION_ULTRA \<Longrightarrow> PrecisionType_from_proto (PrecisionType_to_proto t) = t"
  by (cases t) auto

text \<open>A profile without data, or whose data is the vector of its type.\<close>

definition plain_profile :: "Profile \<Rightarrow> bool" where
  "plain_profile p \<longleftrightarrow> (proto_profile_type (profile_type p) \<or> profile_type p = PROFILE_TYPE_INVALID) \<and> thresholds p = []
     \<and> (profile_data p = []
        \<or> profile_type p = PROFILE_TYPE_1NN_INDEX \<and> (\<exists>v. profile_data p = [ProfileData_empty\<lparr>uint64_value := v\<rparr>])
        \<or> profile_type p = PROFILE_TYPE_1NN \<and> (\<exists>v. profile_data p = [ProfileData_empty\<lparr>float_value := v\<rparr>])
        \<or> profile_type p = PROFILE_TYPE_SUM_THRESH \<and> (\<exists>v. profile_data p = [ProfileData_empty\<lparr>double_value := v\<rparr>]))"

lemma data_or_none_simps [simp]:
  "uint64_of (data_or_none ULongs v) = v" "float_of (data_or_none FloatData xs) = xs" "double_of (data_or_none DoubleData xs) = xs"
  by (simp_all add: data_or_none_def)

lemma Profile_roundtrip:
  assumes "plain_profile p"
  shows "\<exists>q. Profile_to_proto p = Inr q \<and> Profile_from_proto q = Inr p"
  using assms
  by (cases p) (auto simp: plain_profile_def Profile_to_proto_def Profile_from_proto_def Profile_default_def
      proto_profile_type_def ProfileData_empty_def)

text \<open>
  The trip of arguments to the server and back, for the profile types and precisions the messages know. A member
  with a field is the sender's, with three exceptions: the second profile is read only if the rows are kept separate,
  otherwise the receiver's stays; a profile takes type and data and keeps the receiver's thresholds; \<open>silent_mode\<close>
  is set. A member without a field keeps the receiver's value.
\<close>

lemma proto_args_roundtrip:
  assumes "proto_profile_type (arg_profile_type a)" "precision_type a \<noteq> PRECISION_ULTRA"
    "plain_profile (profile_a a)" "plain_profile (profile_b a)"
  shows "\<exists>p. ConvertSCAMPArgsToProtoArgs a = Inr p \<and>
    ConvertProtoArgsToSCAMPArgs p b = Inr (a\<lparr>profile_a := Profile_assign (profile_a b) (profile_a a),
      profile_b := (if keep_rows_separate a then Profile_assign (profile_b b) (profile_b a) else profile_b b),
      silent_mode := True, max_matches_per_column := max_matches_per_column b, matrix_height := matrix_height b,
      matrix_width := matrix_width b\<rparr>)"
proof -
  obtain qa qb where q: "Profile_to_proto (profile_a a) = Inr qa" "Profile_from_proto qa = Inr (profile_a a)"
      "Profile_to_proto (profile_b a) = Inr qb" "Profile_from_proto qb = Inr (profile_b a)"
    using Profile_roundtrip assms(3,4) by metis
  show ?thesis
    by (simp add: ConvertSCAMPArgsToProtoArgs_def ConvertProtoArgsToSCAMPArgs_def q ProfileType_roundtrip [OF assms(1)]
        PrecisionType_roundtrip [OF assms(2)])
qed

end
