(* ===== verification/DistTile.thy ===== *)
theory DistTile
  imports DistUtils
begin

text \<open>
  src/distributed/distributed_tile.h and distributed_tile.cpp: the record the server keeps of a tile of
  a job, and the arguments it sends to the worker that computes the tile.

  A member the constructor leaves uninitialised is 0 here; \<open>start_row_\<close> and \<open>start_col_\<close> are written by
  \<open>generate_args\<close> and read only when \<open>has_args_\<close> is set. The clock is an argument \<open>now\<close> in seconds.
\<close>

datatype TileStatus =
    TILE_STATUS_INVALID | TILE_STATUS_READY | TILE_STATUS_RUNNING | TILE_STATUS_FINISHED | TILE_STATUS_FAILED

record DistributedTile =
  dt_valid :: bool
  dt_has_args :: bool
  dt_timeout :: int
  dt_retries :: int
  dt_row :: int
  dt_col :: int
  dt_height :: int
  dt_width :: int
  dt_start_row :: int
  dt_start_col :: int
  dt_id :: int
  dt_start_time :: int
  dt_end_time :: int
  dt_status :: TileStatus
  dt_args :: ProtoArgs

definition INT_MAX :: int where "INT_MAX = 2 ^ 31 - 1"

text \<open>Conversion to a signed 32-bit \<open>int\<close>.\<close>

definition i32 :: "int \<Rightarrow> int" where "i32 x = (x + 2 ^ 31) mod 2 ^ 32 - 2 ^ 31"

lemma i32_id [simp]: "- (2 ^ 31) \<le> x \<Longrightarrow> x < 2 ^ 31 \<Longrightarrow> i32 x = x"
  by (simp add: i32_def)

lemma i32_range: "- (2 ^ 31) \<le> i32 x \<and> i32 x < 2 ^ 31"
  by (simp add: i32_def)

definition DistributedTile_init :: "int \<Rightarrow> int \<Rightarrow> int \<Rightarrow> int \<Rightarrow> int \<Rightarrow> DistributedTile" where
  "DistributedTile_init r c height width tid =
     \<lparr>dt_valid = True, dt_has_args = False, dt_timeout = INT_MAX, dt_retries = 0, dt_row = r, dt_col = c,
      dt_height = height, dt_width = width, dt_start_row = 0, dt_start_col = 0, dt_id = tid,
      dt_start_time = -1, dt_end_time = -1, dt_status = TILE_STATUS_READY, dt_args = empty_proto_args\<rparr>"

text \<open>\<open>for (i = a; i < b; i++) out.add(xs[i]);\<close> reading outside of the series is undefined.\<close>

definition read_range :: "fp list \<Rightarrow> int \<Rightarrow> int \<Rightarrow> fp list option" where
  "read_range xs a b = (if b \<le> a then Some [] else aslice xs a (b - a))"

text \<open>
  The members of the arguments but the series: what the tile keeps a copy of. The series are appended
  to the reply afterwards, B taken from A for a self join.
\<close>

definition tile_args_of :: "DistributedTile \<Rightarrow> ProtoArgs \<Rightarrow> ProtoArgs \<Rightarrow> ProtoArgs" where
  "tile_args_of t job_args args =
     (let args1 = args\<lparr>
            p_timeseries_size_a := dt_width t + p_window job_args - 1,
            p_timeseries_size_b := dt_height t + p_window job_args - 1,
            p_distributed_start_row := dt_row t * p_distributed_tile_size job_args,
            p_distributed_start_col := dt_col t * p_distributed_tile_size job_args,
            p_max_tile_size := p_max_tile_size job_args, p_distance_threshold := p_distance_threshold job_args,
            p_profile_type := p_profile_type job_args, p_precision_type := p_precision_type job_args,
            p_window := p_window job_args, p_is_aligned := p_is_aligned job_args\<rparr>;
          args2 =
            (if \<not> p_has_b job_args
             then (let a = args1\<lparr>p_computing_columns := True, p_computing_rows := True\<rparr> in
                   if dt_row t = dt_col t
                   then a\<lparr>p_has_b := False, p_keep_rows_separate := p_keep_rows_separate job_args\<rparr>
                   else a\<lparr>p_has_b := True, p_keep_rows_separate := True, p_is_aligned := True\<rparr>)
             else args1\<lparr>p_has_b := True, p_computing_columns := True,
                    p_computing_rows := p_keep_rows_separate job_args,
                    p_keep_rows_separate := p_keep_rows_separate job_args\<rparr>)
      in args2\<lparr>p_profile_a := (p_profile_a args2)\<lparr>ptype := p_profile_type job_args\<rparr>,
               p_profile_b := (p_profile_b args2)\<lparr>ptype := p_profile_type job_args\<rparr>,
               p_tile_id := dt_id t\<rparr>)"

definition generate_args :: "ProtoArgs \<Rightarrow> DistributedTile \<Rightarrow> ProtoArgs \<Rightarrow> (DistributedTile \<times> ProtoArgs) option" where
  "generate_args job_args t args =
     (let start_col = dt_col t * p_distributed_tile_size job_args; end_col = start_col + dt_width t;
          start_row = dt_row t * p_distributed_tile_size job_args; end_row = start_row + dt_height t;
          args' = tile_args_of t job_args args;
          t' = t\<lparr>dt_start_col := start_col, dt_start_row := start_row, dt_args := args', dt_has_args := True\<rparr>
      in do {
        a \<leftarrow> read_range (p_timeseries_a job_args) start_col (end_col + p_window job_args - 1);
        b \<leftarrow> read_range (if p_has_b job_args then p_timeseries_b job_args else p_timeseries_a job_args)
               start_row (end_row + p_window job_args - 1);
        Some (t', args'\<lparr>p_timeseries_a := p_timeseries_a args' @ a, p_timeseries_b := p_timeseries_b args' @ b\<rparr>) })"

definition set_finished :: "int \<Rightarrow> DistributedTile \<Rightarrow> DistributedTile" where
  "set_finished now t = t\<lparr>dt_status := TILE_STATUS_FINISHED, dt_end_time := now\<rparr>"

definition set_failed :: "int \<Rightarrow> DistributedTile \<Rightarrow> DistributedTile" where
  "set_failed now t = t\<lparr>dt_status := TILE_STATUS_FAILED, dt_end_time := now\<rparr>"

text \<open>What the arguments of a tile say, for a reply that was empty.\<close>

lemma read_range_Some:
  "0 \<le> a \<Longrightarrow> b \<le> int (length xs) \<Longrightarrow> read_range xs a b = Some (take (nat (b - a)) (drop (nat a) xs))"
  by (auto simp: read_range_def)

lemma tile_args_of_simps [simp]:
  "p_timeseries_a (tile_args_of t j args) = p_timeseries_a args"
  "p_timeseries_b (tile_args_of t j args) = p_timeseries_b args"
  "p_tile_id (tile_args_of t j args) = dt_id t"
  "p_timeseries_size_a (tile_args_of t j args) = dt_width t + p_window j - 1"
  "p_timeseries_size_b (tile_args_of t j args) = dt_height t + p_window j - 1"
  "p_window (tile_args_of t j args) = p_window j"
  "p_distributed_start_row (tile_args_of t j args) = dt_row t * p_distributed_tile_size j"
  "p_distributed_start_col (tile_args_of t j args) = dt_col t * p_distributed_tile_size j"
  "p_profile_type (tile_args_of t j args) = p_profile_type j"
  "p_has_b (tile_args_of t j args) \<longleftrightarrow> p_has_b j \<or> dt_row t \<noteq> dt_col t"
  "p_keep_rows_separate (tile_args_of t j args) \<longleftrightarrow> p_keep_rows_separate j \<or> \<not> p_has_b j \<and> dt_row t \<noteq> dt_col t"
  by (simp_all add: tile_args_of_def Let_def)

lemma generate_args_Some:
  assumes "0 \<le> dt_row t * p_distributed_tile_size j" "0 \<le> dt_col t * p_distributed_tile_size j"
    "dt_col t * p_distributed_tile_size j + dt_width t + p_window j - 1 \<le> size_of (p_timeseries_a j)"
    "dt_row t * p_distributed_tile_size j + dt_height t + p_window j - 1
       \<le> size_of (if p_has_b j then p_timeseries_b j else p_timeseries_a j)"
  shows "\<exists>a b. generate_args j t args =
      Some (t\<lparr>dt_start_col := dt_col t * p_distributed_tile_size j, dt_start_row := dt_row t * p_distributed_tile_size j,
              dt_args := tile_args_of t j args, dt_has_args := True\<rparr>,
            (tile_args_of t j args)\<lparr>p_timeseries_a := p_timeseries_a args @ a, p_timeseries_b := p_timeseries_b args @ b\<rparr>)
    \<and> a = take (nat (dt_width t + p_window j - 1)) (drop (nat (dt_col t * p_distributed_tile_size j)) (p_timeseries_a j))
    \<and> b = take (nat (dt_height t + p_window j - 1)) (drop (nat (dt_row t * p_distributed_tile_size j))
              (if p_has_b j then p_timeseries_b j else p_timeseries_a j))"
  using assms by (auto simp: generate_args_def Let_def read_range_Some size_of_def algebra_simps)

end
