(* ===== verification/DistJob.thy ===== *)
theory DistJob
  imports DistTile
begin

text \<open>
  src/distributed/distributed_job.h and distributed_job.cpp: a job of the server, its tiles, the queue of
  tiles that wait for a worker, and the operations the remote procedures call.

  \<^item> Every operation holds the job's mutex from beginning to end, so it is one step.
  \<^item> \<open>tiles\<close> is an \<open>unordered_map\<close> with the keys 0, 1, 2, ...; it is the list of its values, and the
    order in which the map is iterated is the component \<open>j_tile_order\<close>, chosen when the job is made by
    the parameter \<open>ord\<close> of \<open>Job_Init\<close>. The queue holds pointers into the map: the keys of the tiles.
  \<^item> The clock is an argument \<open>now\<close> in nanoseconds, read once per operation.
  \<^item> A result \<open>Inl\<close> is an exception that leaves the operation, or undefined behaviour.
\<close>

subsection \<open>State\<close>

record Job =
  j_distributed_tile_size :: int
  j_tiles_completed :: int
  j_id :: int
  j_tile_counter :: int
  j_tile_rows :: int
  j_tile_cols :: int
  j_width :: int
  j_height :: int
  j_start_time :: int
  j_end_time :: int
  j_tiles :: "DistributedTile list"
  j_tile_order :: "nat list"
  j_ready_queue :: "nat list"
  j_status :: JobStatus
  j_args :: ProtoArgs

definition MAX_TILE_RETRIES :: int where "MAX_TILE_RETRIES = 3"
definition MIN_TIMEOUT_SECONDS :: int where "MIN_TIMEOUT_SECONDS = 10"

definition get_current_time :: "int \<Rightarrow> int" where
  "get_current_time now = trunc_div now 1000000000"

subsection \<open>The tiles of a job\<close>

text \<open>The number of tiles in one direction: \<open>ceil\<close> of a quotient of doubles, stored in an \<open>int\<close>.\<close>

definition job_tile_count :: "rounding \<Rightarrow> int \<Rightarrow> int \<Rightarrow> int option" where
  "job_tile_count rd n sz = do {
     k \<leftarrow> tile_count rd n sz;
     (if - (2 ^ 31) \<le> k \<and> k < 2 ^ 31 then Some k else None) }"

definition new_tile :: "int \<Rightarrow> int \<Rightarrow> int \<Rightarrow> int \<Rightarrow> int \<Rightarrow> int \<Rightarrow> DistributedTile" where
  "new_tile sz w h r c tid =
     DistributedTile_init r c (min sz (u64 (h - r * sz))) (min sz (u64 (w - c * sz))) tid"

text \<open>The body of the loop nest: the new tile is appended and queued under the next key.\<close>

definition emplace_tile :: "int \<Rightarrow> int \<Rightarrow> Job \<Rightarrow> Job" where
  "emplace_tile r c j =
     j\<lparr>j_tiles := j_tiles j @ [new_tile (j_distributed_tile_size j) (j_width j) (j_height j) r c (j_tile_counter j)],
       j_ready_queue := j_ready_queue j @ [nat (j_tile_counter j)], j_tile_counter := j_tile_counter j + 1\<rparr>"

definition emplace_tiles :: "Job \<Rightarrow> Job option" where
  "emplace_tiles j = for1 0 (j_tile_rows j) (\<lambda>r s.
     for1 (if p_has_b (j_args j) then 0 else r) (j_tile_cols j) (\<lambda>c s. Some (emplace_tile r c s)) s) j"

definition Job_new :: "ProtoArgs \<Rightarrow> int \<Rightarrow> int \<Rightarrow> Job" where
  "Job_new args jid now =
     \<lparr>j_distributed_tile_size = 0, j_tiles_completed = 0, j_id = jid, j_tile_counter = 0, j_tile_rows = 0,
      j_tile_cols = 0, j_width = 0, j_height = 0, j_start_time = now, j_end_time = 0, j_tiles = [], j_tile_order = [],
      j_ready_queue = [], j_status = JOB_STATUS_RUNNING, j_args = args\<rparr>"

definition invalid_job :: "Job \<Rightarrow> Job result" where
  "invalid_job j = Inr (j\<lparr>j_status := JOB_STATUS_INVALID\<rparr>)"

definition allocate_a :: "int \<Rightarrow> ProtoArgs \<Rightarrow> ProtoArgs" where
  "allocate_a w a = (if ProfileAllocated (p_profile_a a) then a
     else a\<lparr>p_profile_a := InitProtoProfile (p_profile_a a) (p_profile_type a) w\<rparr>)"

definition allocate_b :: "int \<Rightarrow> ProtoArgs \<Rightarrow> ProtoArgs" where
  "allocate_b h a = (if ProfileAllocated (p_profile_b a) then a
     else a\<lparr>p_profile_b := InitProtoProfile (p_profile_b a) (p_profile_type a) h\<rparr>)"

definition generate_tiles :: "rounding \<Rightarrow> (nat \<Rightarrow> nat list) \<Rightarrow> Job \<Rightarrow> Job result" where
  "generate_tiles rd ord j = of_option (do {
     cols \<leftarrow> job_tile_count rd (j_width j) (u64 (p_distributed_tile_size (j_args j)));
     rows \<leftarrow> (if p_has_b (j_args j) then job_tile_count rd (j_height j) (u64 (p_distributed_tile_size (j_args j))) else Some cols);
     j' \<leftarrow> emplace_tiles (j\<lparr>j_distributed_tile_size := u64 (p_distributed_tile_size (j_args j)),
                              j_tile_cols := cols, j_tile_rows := rows\<rparr>);
     Some (j'\<lparr>j_tile_order := ord (length (j_tiles j')), j_status := JOB_STATUS_RUNNING\<rparr>) })"

definition Job_Init :: "rounding \<Rightarrow> (nat \<Rightarrow> nat list) \<Rightarrow> Job \<Rightarrow> Job result" where
  "Job_Init rd ord j =
     (if \<not> validateArgs (j_args j) then invalid_job j
      else let w = i64 (size_of (p_timeseries_a (j_args j)) - p_window (j_args j) + 1);
               h = (if p_has_b (j_args j) then i64 (size_of (p_timeseries_b (j_args j)) - p_window (j_args j) + 1) else w);
               j1 = j\<lparr>j_width := w, j_height := h, j_args := allocate_a w (j_args j)\<rparr>
           in rbind (GetProfileSize (p_profile_a (j_args j1))) (\<lambda>na.
              if na \<noteq> w then invalid_job j1
              else if p_keep_rows_separate (j_args j1)
              then let j2 = j1\<lparr>j_args := allocate_b h (j_args j1)\<rparr>
                   in rbind (GetProfileSize (p_profile_b (j_args j2))) (\<lambda>nb.
                      if nb \<noteq> h then invalid_job j2 else generate_tiles rd ord j2)
              else generate_tiles rd ord j1))"

definition make_job :: "rounding \<Rightarrow> (nat \<Rightarrow> nat list) \<Rightarrow> ProtoArgs \<Rightarrow> int \<Rightarrow> int \<Rightarrow> Job result" where
  "make_job rd ord args jid now = Job_Init rd ord (Job_new args jid now)"

subsection \<open>Time and progress\<close>

definition timed_out :: "int \<Rightarrow> DistributedTile \<Rightarrow> bool" where
  "timed_out now t \<longleftrightarrow> dt_status t = TILE_STATUS_RUNNING \<and> get_current_time now - dt_start_time t > dt_timeout t"

definition check_time_tile :: "int \<Rightarrow> Job \<Rightarrow> Job" where
  "check_time_tile now j = j\<lparr>j_tiles := map (\<lambda>t. if timed_out now t
     then t\<lparr>dt_end_time := get_current_time now, dt_status := TILE_STATUS_FAILED\<rparr> else t) (j_tiles j)\<rparr>"

definition get_elapsed_time :: "int \<Rightarrow> Job \<Rightarrow> int" where
  "get_elapsed_time now j = (case j_status j of
       JOB_STATUS_READY \<Rightarrow> 0
     | JOB_STATUS_RUNNING \<Rightarrow> trunc_div (now - j_start_time j) 1000000000
     | JOB_STATUS_FINISHED \<Rightarrow> trunc_div (j_end_time j - j_start_time j) 1000000000
     | JOB_STATUS_FAILED \<Rightarrow> trunc_div (j_end_time j - j_start_time j) 1000000000
     | JOB_STATUS_INVALID \<Rightarrow> -1)"

definition get_progress :: "rounding \<Rightarrow> Job \<Rightarrow> fp" where
  "get_progress rf j = fdiv rf (fp_of_int rf (j_tiles_completed j)) (fp_of_int rf (int (length (j_tiles j))))"

text \<open>Conversion of a float to \<open>int64_t\<close>: towards zero, undefined out of range.\<close>

fun itrunc :: "fp \<Rightarrow> int option" where
  "itrunc (Fin x) = (let k = (if x < 0 then \<lceil>x\<rceil> else \<lfloor>x\<rfloor>) in
     if - (2 ^ 63) \<le> k \<and> k < 2 ^ 63 then Some k else None)"
| "itrunc _ = None"

definition get_eta :: "rounding \<Rightarrow> int \<Rightarrow> Job \<Rightarrow> int option" where
  "get_eta rf now j =
     (let elapsed = get_elapsed_time now j; progress = get_progress rf j in
      if elapsed < 0 then Some (-1)
      else if progress = Fin 0 then Some (-1)
      else itrunc (fsub rf (fdiv rf (fp_of_int rf elapsed) progress) (fp_of_int rf elapsed)))"

subsection \<open>The life of a tile\<close>

definition is_done :: "int \<Rightarrow> Job \<Rightarrow> bool \<times> Job" where
  "is_done now j =
     (if j_status j = JOB_STATUS_FINISHED then (True, j)
      else if list_all (\<lambda>t. dt_status t = TILE_STATUS_FINISHED) (j_tiles j)
      then (True, j\<lparr>j_status := JOB_STATUS_FINISHED, j_end_time := now\<rparr>)
      else (False, j))"

definition set_tile_failed :: "int \<Rightarrow> int \<Rightarrow> Job \<Rightarrow> Job" where
  "set_tile_failed now tid j =
     (if tid < int (length (j_tiles j)) \<and> tid \<ge> 0
      then j\<lparr>j_tiles := (j_tiles j)[nat tid := set_failed (get_current_time now) (j_tiles j ! nat tid)]\<rparr>
      else j)"

text \<open>
  A failed tile keeps its status while it waits in the queue again. A tile that has been retried too often
  fails the job. The answer is true when the loop came to its end.
\<close>

definition retry_tile :: "int \<Rightarrow> nat \<Rightarrow> Job \<Rightarrow> Job" where
  "retry_tile now k j =
     (let t = j_tiles j ! k in
      j\<lparr>j_tiles := (j_tiles j)[k := t\<lparr>dt_retries := dt_retries t + 1, dt_start_time := get_current_time now,
                                       dt_end_time := INT_MAX\<rparr>],
        j_ready_queue := j_ready_queue j @ [k]\<rparr>)"

fun cleanup_loop :: "int \<Rightarrow> nat list \<Rightarrow> Job \<Rightarrow> bool \<times> Job" where
  "cleanup_loop now [] j = (True, j)"
| "cleanup_loop now (k # ks) j =
     (if dt_status (j_tiles j ! k) = TILE_STATUS_FAILED
      then if dt_retries (j_tiles j ! k) > MAX_TILE_RETRIES
           then (False, j\<lparr>j_status := JOB_STATUS_FAILED, j_end_time := now\<rparr>)
           else cleanup_loop now ks (retry_tile now k j)
      else cleanup_loop now ks j)"

definition cleanup_failed_tiles :: "int \<Rightarrow> Job \<Rightarrow> bool \<times> Job" where
  "cleanup_failed_tiles now j = cleanup_loop now (j_tile_order j) j"

definition has_work :: "int \<Rightarrow> Job \<Rightarrow> bool \<times> Job" where
  "has_work now j =
     (if j_status j = JOB_STATUS_RUNNING
      then if j_ready_queue j = []
           then (case cleanup_failed_tiles now j of (failed, j') \<Rightarrow> (j_ready_queue j' \<noteq> [] \<and> \<not> failed, j'))
           else (True, j)
      else (False, j))"

text \<open>The time a worker has for a tile: unsigned arithmetic, stored in an \<open>int\<close>.\<close>

definition tile_timeout :: "int \<Rightarrow> int \<Rightarrow> bool \<Rightarrow> int option" where
  "tile_timeout sz throughput hb =
     (if u64 throughput = 0 then None
      else let t = i64 (u64 (sz * sz) div u64 throughput);
               t' = (if hb then t else trunc_div t 2)
           in Some (i32 (max MIN_TIMEOUT_SECONDS t')))"

text \<open>Handing out the first tile of the queue.\<close>

definition issue_tile :: "int \<Rightarrow> int \<Rightarrow> ProtoArgs \<Rightarrow> Job \<Rightarrow> (ProtoArgs \<times> Job) option" where
  "issue_tile now throughput args j = (case j_ready_queue j of
       [] \<Rightarrow> None
     | k # q \<Rightarrow> do {
         t \<leftarrow> aget (j_tiles j) (int k);
         (t', args') \<leftarrow> generate_args (j_args j) t args;
         timeout \<leftarrow> tile_timeout (j_distributed_tile_size j) throughput (p_has_b args');
         Some (args'\<lparr>p_job_id := j_id j\<rparr>,
           j\<lparr>j_ready_queue := q, j_tiles := (j_tiles j)[k := t'\<lparr>dt_timeout := timeout,
               dt_start_time := get_current_time now, dt_status := TILE_STATUS_RUNNING\<rparr>]\<rparr>) })"

text \<open>The answer is the arguments for the worker, or \<open>None\<close> where the code returns false.\<close>

definition fetch_ready_tile :: "int \<Rightarrow> int \<Rightarrow> ProtoArgs \<Rightarrow> Job \<Rightarrow> (ProtoArgs option \<times> Job) result" where
  "fetch_ready_tile now throughput args j =
     (let issue = (\<lambda>j. rbind (of_option (issue_tile now throughput args j)) (\<lambda>(a, j'). Inr (Some a, j'))) in
      if j_status j \<noteq> JOB_STATUS_RUNNING then Inr (None, j)
      else if j_ready_queue j = []
      then (case cleanup_failed_tiles now j of (failed, j') \<Rightarrow>
             if failed \<or> j_ready_queue j' = [] then Inr (None, j') else issue j')
      else issue j)"

subsection \<open>Merging a result\<close>

definition request_width :: "ProtoArgs \<Rightarrow> int" where
  "request_width r = u64 (p_timeseries_size_a r - p_window r + 1)"

definition request_height :: "ProtoArgs \<Rightarrow> int" where
  "request_height r = (if p_has_b r then u64 (p_timeseries_size_b r - p_window r + 1) else request_width r)"

text \<open>The checks on the tile a result is for.\<close>

definition tile_accepts :: "DistributedTile \<Rightarrow> ProtoArgs \<Rightarrow> bool" where
  "tile_accepts t r \<longleftrightarrow> dt_has_args t \<and> dt_status t = TILE_STATUS_RUNNING
     \<and> u64 (dt_height t) = request_height r \<and> u64 (dt_width t) = request_width r
     \<and> u64 (dt_start_row t) = u64 (p_distributed_start_row r) \<and> u64 (dt_start_col t) = u64 (p_distributed_start_col r)"

definition finish_tile :: "rounding \<Rightarrow> int \<Rightarrow> nat \<Rightarrow> ProtoArgs \<Rightarrow> Job \<Rightarrow> (bool \<times> Job) result" where
  "finish_tile rd now k r j =
     (let t = j_tiles j ! k in
      rbind (MergeJobProfile rd (dt_args t) (j_args j) (p_profile_a r) (dt_start_col t) (dt_width t)
               (p_profile_b r) (dt_start_row t) (dt_height t)) (\<lambda>args.
      Inr (True, j\<lparr>j_args := args, j_tiles := (j_tiles j)[k := set_finished (get_current_time now) t],
                  j_tiles_completed := j_tiles_completed j + 1\<rparr>)))"

definition CombineProfile :: "rounding \<Rightarrow> int \<Rightarrow> ProtoArgs \<Rightarrow> Job \<Rightarrow> (bool \<times> Job) result" where
  "CombineProfile rd now r j =
     (let tid = i32 (p_tile_id r) in
      case aget (j_tiles j) tid of
        None \<Rightarrow> Inr (False, j)
      | Some t \<Rightarrow>
          if \<not> tile_accepts t r then Inr (False, j)
          else rbind (GetProfileSize (p_profile_a r)) (\<lambda>na.
            if na \<noteq> dt_width t then Inr (False, j)
            else if p_keep_rows_separate (dt_args t)
            then rbind (GetProfileSize (p_profile_b r)) (\<lambda>nb.
              if nb \<noteq> dt_height t then Inr (False, j) else finish_tile rd now (nat tid) r j)
            else finish_tile rd now (nat tid) r j))"

end
