(* ===== verification/DistRun.thy ===== *)
theory DistRun
  imports DistJob
begin

text \<open>
  The runs of a job: what the server's threads do to it is a sequence of its operations in any order, with
  any clock, any answers of the workers and any reports of failures. The lemmas give the invariant of the
  state machine of the tiles and what every operation leaves unchanged.
\<close>

subsection \<open>Steps and runs\<close>

datatype job_event =
    Checked_time
  | Failure_reported int
  | Fetched "ProtoArgs option"
  | Combined bool ProtoArgs
  | Polled bool
  | Asked bool

inductive job_step :: "rounding \<Rightarrow> Job \<Rightarrow> job_event \<Rightarrow> Job \<Rightarrow> bool" for rd where
  check: "job_step rd j Checked_time (check_time_tile now j)"
| fail: "job_step rd j (Failure_reported tid) (set_tile_failed now tid j)"
| fetch: "fetch_ready_tile now throughput empty_proto_args j = Inr (a, j') \<Longrightarrow> job_step rd j (Fetched a) j'"
| combine: "CombineProfile rd now r j = Inr (ok, j') \<Longrightarrow> job_step rd j (Combined ok r) j'"
| poll: "is_done now j = (b, j') \<Longrightarrow> job_step rd j (Polled b) j'"
| ask: "has_work now j = (b, j') \<Longrightarrow> job_step rd j (Asked b) j'"

inductive_cases check_stepE: "job_step rd j Checked_time j'"
inductive_cases fail_stepE: "job_step rd j (Failure_reported tid) j'"
inductive_cases fetch_stepE: "job_step rd j (Fetched a) j'"
inductive_cases combine_stepE: "job_step rd j (Combined ok r) j'"
inductive_cases poll_stepE: "job_step rd j (Polled b) j'"
inductive_cases ask_stepE: "job_step rd j (Asked b) j'"

inductive job_run :: "rounding \<Rightarrow> Job \<Rightarrow> job_event list \<Rightarrow> Job \<Rightarrow> bool" for rd j0 where
  start: "job_run rd j0 [] j0"
| step: "job_run rd j0 es j \<Longrightarrow> job_step rd j e j' \<Longrightarrow> job_run rd j0 (es @ [e]) j'"

inductive_simps job_run_Nil [simp]: "job_run rd j0 [] j"

subsection \<open>What a job never changes\<close>

definition tile_plan :: "DistributedTile \<Rightarrow> int \<times> int \<times> int \<times> int \<times> int" where
  "tile_plan t = (dt_row t, dt_col t, dt_height t, dt_width t, dt_id t)"

definition args_plan :: "ProtoArgs \<Rightarrow> ProtoArgs" where
  "args_plan a = a\<lparr>p_profile_a := empty_proto_profile, p_profile_b := empty_proto_profile\<rparr>"

definition job_plan :: "Job \<Rightarrow> Job" where
  "job_plan j = j\<lparr>j_tiles_completed := 0, j_tile_counter := 0, j_end_time := 0, j_tiles := [], j_ready_queue := [],
     j_status := JOB_STATUS_INVALID, j_args := args_plan (j_args j)\<rparr>"

definition same_job :: "Job \<Rightarrow> Job \<Rightarrow> bool" where
  "same_job j j' \<longleftrightarrow> map tile_plan (j_tiles j') = map tile_plan (j_tiles j) \<and> job_plan j' = job_plan j"

lemma args_plan_simps [simp]:
  "args_plan (a\<lparr>p_profile_a := pa\<rparr>) = args_plan a" "args_plan (a\<lparr>p_profile_b := pb\<rparr>) = args_plan a"
  by (simp_all add: args_plan_def)

lemma job_plan_simps [simp]:
  "job_plan (j\<lparr>j_tiles_completed := x\<rparr>) = job_plan j" "job_plan (j\<lparr>j_end_time := y\<rparr>) = job_plan j"
  "job_plan (j\<lparr>j_tiles := ts\<rparr>) = job_plan j" "job_plan (j\<lparr>j_ready_queue := q\<rparr>) = job_plan j"
  "job_plan (j\<lparr>j_status := s\<rparr>) = job_plan j"
  "args_plan a = args_plan (j_args j) \<Longrightarrow> job_plan (j\<lparr>j_args := a\<rparr>) = job_plan j"
  by (simp_all add: job_plan_def)

lemma same_job_refl [simp]: "same_job j j"
  by (simp add: same_job_def)

lemma same_job_trans: "same_job a b \<Longrightarrow> same_job b c \<Longrightarrow> same_job a c"
  by (simp add: same_job_def)

lemma same_job_length: "same_job j j' \<Longrightarrow> length (j_tiles j') = length (j_tiles j)"
  unfolding same_job_def by (metis length_map)

lemma same_job_tile: "same_job j j' \<Longrightarrow> k < length (j_tiles j) \<Longrightarrow> tile_plan (j_tiles j' ! k) = tile_plan (j_tiles j ! k)"
  unfolding same_job_def by (metis length_map nth_map)

lemma plan_update [simp]:
  "k < length ts \<Longrightarrow> tile_plan t = tile_plan (ts ! k) \<Longrightarrow> map tile_plan (ts[k := t]) = map tile_plan ts"
  by (simp add: map_update list_update_same_conv)

lemma tile_plan_simps [simp]:
  "tile_plan (t\<lparr>dt_status := s\<rparr>) = tile_plan t" "tile_plan (t\<lparr>dt_end_time := e\<rparr>) = tile_plan t"
  "tile_plan (t\<lparr>dt_start_time := e\<rparr>) = tile_plan t" "tile_plan (t\<lparr>dt_retries := e\<rparr>) = tile_plan t"
  "tile_plan (t\<lparr>dt_timeout := e\<rparr>) = tile_plan t" "tile_plan (t\<lparr>dt_args := a\<rparr>) = tile_plan t"
  "tile_plan (t\<lparr>dt_has_args := b\<rparr>) = tile_plan t" "tile_plan (t\<lparr>dt_start_row := e\<rparr>) = tile_plan t"
  "tile_plan (t\<lparr>dt_start_col := e\<rparr>) = tile_plan t"
  by (simp_all add: tile_plan_def)

text \<open>What the arguments of a tile are computed from.\<close>

lemma args_plan_fields:
  assumes "args_plan a' = args_plan a"
  shows "p_timeseries_a a' = p_timeseries_a a" "p_timeseries_b a' = p_timeseries_b a" "p_has_b a' = p_has_b a"
    "p_window a' = p_window a" "p_profile_type a' = p_profile_type a" "p_keep_rows_separate a' = p_keep_rows_separate a"
    "p_distributed_tile_size a' = p_distributed_tile_size a" "p_computing_rows a' = p_computing_rows a"
    "p_max_tile_size a' = p_max_tile_size a" "p_distance_threshold a' = p_distance_threshold a"
    "p_precision_type a' = p_precision_type a" "p_is_aligned a' = p_is_aligned a"
  using assms by (cases a; cases a'; simp add: args_plan_def)+

lemma tile_args_of_same:
  "tile_plan t' = tile_plan t \<Longrightarrow> args_plan a' = args_plan a \<Longrightarrow> tile_args_of t' a' args = tile_args_of t a args"
  using args_plan_fields [of a' a] by (simp add: tile_plan_def tile_args_of_def Let_def)

lemma MergeJobProfile_same: "MergeJobProfile rd ta a pa cp w pb rp h = Inr a' \<Longrightarrow> args_plan a' = args_plan a"
  by (auto simp: MergeJobProfile_def Let_def elim!: rbind_InrE split: if_splits)

subsection \<open>The operations on tiles\<close>

lemma retry_tile_simps [simp]:
  "j_status (retry_tile now k j) = j_status j" "j_args (retry_tile now k j) = j_args j"
  "j_tiles_completed (retry_tile now k j) = j_tiles_completed j"
  "length (j_tiles (retry_tile now k j)) = length (j_tiles j)"
  "j_ready_queue (retry_tile now k j) = j_ready_queue j @ [k]"
  "j_tile_order (retry_tile now k j) = j_tile_order j"
  by (simp_all add: retry_tile_def Let_def)

lemma retry_tile_same: "k < length (j_tiles j) \<Longrightarrow> same_job j (retry_tile now k j)"
  by (simp add: same_job_def retry_tile_def Let_def)

lemma cleanup_loop_same:
  assumes "cleanup_loop now ks j = (b, j')" "\<forall>k \<in> set ks. k < length (j_tiles j)"
  shows "same_job j j' \<and> j_args j' = j_args j \<and> j_tiles_completed j' = j_tiles_completed j"
  using assms
proof (induction now ks j arbitrary: b j' rule: cleanup_loop.induct)
  case (2 now k ks j)
  show ?case
  proof (cases "dt_status (j_tiles j ! k) = TILE_STATUS_FAILED \<and> \<not> dt_retries (j_tiles j ! k) > MAX_TILE_RETRIES")
    case True
    then show ?thesis using 2 same_job_trans [OF retry_tile_same [of k j now]] by simp
  next
    case False
    then show ?thesis using 2 by (auto simp: same_job_def split: if_splits)
  qed
qed simp

subsection \<open>The state machine of a tile\<close>

definition tile_ok :: "ProtoArgs \<Rightarrow> bool \<Rightarrow> DistributedTile \<Rightarrow> bool" where
  "tile_ok a queued t \<longleftrightarrow>
     (queued \<longrightarrow> dt_status t \<in> {TILE_STATUS_READY, TILE_STATUS_FAILED})
     \<and> (dt_status t = TILE_STATUS_READY \<longrightarrow> queued) \<and> dt_status t \<noteq> TILE_STATUS_INVALID
     \<and> (dt_status t \<in> {TILE_STATUS_RUNNING, TILE_STATUS_FINISHED} \<longrightarrow> dt_has_args t)
     \<and> (dt_has_args t \<longrightarrow> dt_args t = tile_args_of t a empty_proto_args
          \<and> dt_start_row t = dt_row t * p_distributed_tile_size a \<and> dt_start_col t = dt_col t * p_distributed_tile_size a)
     \<and> 0 \<le> dt_retries t \<and> dt_retries t \<le> MAX_TILE_RETRIES + 1"

definition job_inv :: "Job \<Rightarrow> bool" where
  "job_inv j \<longleftrightarrow> distinct (j_ready_queue j) \<and> set (j_ready_queue j) \<subseteq> {..<length (j_tiles j)}
     \<and> distinct (j_tile_order j) \<and> set (j_tile_order j) = {..<length (j_tiles j)}
     \<and> (\<forall>k < length (j_tiles j). tile_ok (j_args j) (k \<in> set (j_ready_queue j)) (j_tiles j ! k))
     \<and> j_status j \<in> {JOB_STATUS_RUNNING, JOB_STATUS_FINISHED, JOB_STATUS_FAILED}"

lemma tile_ok_args: "args_plan a' = args_plan a \<Longrightarrow> tile_ok a' q t = tile_ok a q t"
  using tile_args_of_same [of t t a' a] args_plan_fields [of a' a] by (simp add: tile_ok_def)

lemma tile_args_plan: "tile_plan t' = tile_plan t \<Longrightarrow> tile_args_of t' a args = tile_args_of t a args"
  by (rule tile_args_of_same) auto

lemma tile_args_update [simp]:
  "tile_args_of (t\<lparr>dt_status := s\<rparr>) a b = tile_args_of t a b" "tile_args_of (t\<lparr>dt_end_time := e\<rparr>) a b = tile_args_of t a b"
  "tile_args_of (t\<lparr>dt_start_time := e\<rparr>) a b = tile_args_of t a b" "tile_args_of (t\<lparr>dt_retries := e\<rparr>) a b = tile_args_of t a b"
  "tile_args_of (t\<lparr>dt_timeout := e\<rparr>) a b = tile_args_of t a b" "tile_args_of (t\<lparr>dt_args := x\<rparr>) a b = tile_args_of t a b"
  "tile_args_of (t\<lparr>dt_has_args := h\<rparr>) a b = tile_args_of t a b" "tile_args_of (t\<lparr>dt_start_row := e\<rparr>) a b = tile_args_of t a b"
  "tile_args_of (t\<lparr>dt_start_col := e\<rparr>) a b = tile_args_of t a b"
  by (rule tile_args_plan, simp)+

lemma tile_ok_simps [simp]:
  "tile_ok a q (t\<lparr>dt_end_time := e\<rparr>) = tile_ok a q t" "tile_ok a q (t\<lparr>dt_start_time := e\<rparr>) = tile_ok a q t"
  "tile_ok a q (t\<lparr>dt_timeout := e\<rparr>) = tile_ok a q t"
  by (simp_all add: tile_ok_def)

lemma tile_ok_failed: "tile_ok a q t \<Longrightarrow> tile_ok a q (t\<lparr>dt_status := TILE_STATUS_FAILED\<rparr>)"
  by (auto simp: tile_ok_def)

lemma tile_ok_finished:
  "tile_ok a q t \<Longrightarrow> dt_status t = TILE_STATUS_RUNNING \<Longrightarrow> tile_ok a q (t\<lparr>dt_status := TILE_STATUS_FINISHED\<rparr>)"
  by (auto simp: tile_ok_def)

lemma tile_ok_retry:
  assumes "tile_ok a q t" "dt_status t = TILE_STATUS_FAILED" "\<not> dt_retries t > MAX_TILE_RETRIES"
  shows "tile_ok a True (t\<lparr>dt_retries := dt_retries t + 1\<rparr>)"
  using assms by (auto simp: tile_ok_def)

text \<open>An update of one tile that keeps its place in the queue.\<close>

lemma job_inv_update:
  assumes "job_inv j" "k < length (j_tiles j)" "tile_ok (j_args j) (k \<in> set (j_ready_queue j)) t"
  shows "job_inv (j\<lparr>j_tiles := (j_tiles j)[k := t]\<rparr>)"
  using assms by (auto simp: job_inv_def nth_list_update)

lemma retry_tile_inv:
  assumes "job_inv j" "k < length (j_tiles j)" "k \<notin> set (j_ready_queue j)"
    "dt_status (j_tiles j ! k) = TILE_STATUS_FAILED" "\<not> dt_retries (j_tiles j ! k) > MAX_TILE_RETRIES"
  shows "job_inv (retry_tile now k j)"
proof -
  have "tile_ok (j_args j) (k \<in> set (j_ready_queue j)) (j_tiles j ! k)" using assms(1,2) unfolding job_inv_def by blast
  from tile_ok_retry [OF this assms(4,5)] show ?thesis
    using assms by (auto simp: job_inv_def retry_tile_def Let_def nth_list_update)
qed

lemma retry_tile_other: "i \<noteq> k \<Longrightarrow> j_tiles (retry_tile now k j) ! i = j_tiles j ! i"
  by (simp add: retry_tile_def Let_def)

lemma cleanup_loop_inv:
  assumes "cleanup_loop now ks j = (b, j')" "job_inv j" "distinct ks" "set ks \<subseteq> {..<length (j_tiles j)}"
    "set ks \<inter> set (j_ready_queue j) = {}"
  shows "job_inv j'"
  using assms
proof (induction now ks j arbitrary: b j' rule: cleanup_loop.induct)
  case (2 now k ks j)
  show ?case
  proof (cases "dt_status (j_tiles j ! k) = TILE_STATUS_FAILED \<and> \<not> dt_retries (j_tiles j ! k) > MAX_TILE_RETRIES")
    case True
    then have "job_inv (retry_tile now k j)" using 2 by (intro retry_tile_inv) auto
    then show ?thesis using 2 True by auto
  next
    case False
    then show ?thesis using 2 by (auto simp: job_inv_def split: if_splits)
  qed
qed simp

lemma cleanup_inv:
  assumes "cleanup_failed_tiles now j = (b, j')" "job_inv j" "j_ready_queue j = []"
  shows "job_inv j'"
  using cleanup_loop_inv [of now "j_tile_order j" j b j'] assms by (auto simp: cleanup_failed_tiles_def job_inv_def)

lemma cleanup_same:
  assumes "cleanup_failed_tiles now j = (b, j')" "job_inv j"
  shows "same_job j j' \<and> j_args j' = j_args j \<and> j_tiles_completed j' = j_tiles_completed j"
  using cleanup_loop_same [of now "j_tile_order j" j b j'] assms by (auto simp: cleanup_failed_tiles_def job_inv_def)

text \<open>Handing out a tile.\<close>

lemma generate_argsE:
  assumes "generate_args a t args = Some (t', args')"
  shows "t' = t\<lparr>dt_start_col := dt_col t * p_distributed_tile_size a, dt_start_row := dt_row t * p_distributed_tile_size a,
      dt_args := tile_args_of t a args, dt_has_args := True\<rparr>"
    "p_tile_id args' = dt_id t"
  using assms by (auto simp: generate_args_def Let_def split: Option.bind_splits)

lemma issue_tileE:
  assumes "issue_tile now th args j = Some (a, j')" "job_inv j"
  obtains k q t timeout where "j_ready_queue j = k # q" "k < length (j_tiles j)" "t = j_tiles j ! k"
    "j' = j\<lparr>j_ready_queue := q, j_tiles := (j_tiles j)[k := t\<lparr>
        dt_start_col := dt_col t * p_distributed_tile_size (j_args j), dt_start_row := dt_row t * p_distributed_tile_size (j_args j),
        dt_args := tile_args_of t (j_args j) args, dt_has_args := True, dt_timeout := timeout,
        dt_start_time := get_current_time now, dt_status := TILE_STATUS_RUNNING\<rparr>]\<rparr>"
    "p_tile_id a = dt_id t"
proof -
  obtain k q where q: "j_ready_queue j = k # q" using assms(1) by (auto simp: issue_tile_def split: list.splits)
  then have k: "k < length (j_tiles j)" using assms(2) by (simp add: job_inv_def)
  obtain t' args' timeout where g: "generate_args (j_args j) (j_tiles j ! k) args = Some (t', args')"
    "j' = j\<lparr>j_ready_queue := q, j_tiles := (j_tiles j)[k := t'\<lparr>dt_timeout := timeout,
               dt_start_time := get_current_time now, dt_status := TILE_STATUS_RUNNING\<rparr>]\<rparr>" "a = args'\<lparr>p_job_id := j_id j\<rparr>"
    using assms(1) k by (auto simp: issue_tile_def q split: Option.bind_splits)
  show thesis
    by (rule that [of k q "j_tiles j ! k" timeout])
      (use q k g(2,3) generate_argsE [OF g(1)] in \<open>simp_all only: refl, simp_all\<close>)
qed

lemma issue_tile_inv:
  assumes "issue_tile now th empty_proto_args j = Some (a, j')" "job_inv j"
  shows "job_inv j' \<and> same_job j j' \<and> j_args j' = j_args j \<and> j_tiles_completed j' = j_tiles_completed j"
  using assms
proof (cases rule: issue_tileE)
  case (1 k q t timeout)
  then have "tile_ok (j_args j) False (j_tiles j' ! k)"
    using assms(2) 1 by (auto simp: job_inv_def tile_ok_def)
  then show ?thesis using assms(2) 1 by (auto simp: job_inv_def same_job_def nth_list_update)
qed

text \<open>A result is either dropped without a trace, or merged once into a tile that was running.\<close>

definition merge_args :: "rounding \<Rightarrow> DistributedTile \<Rightarrow> ProtoArgs \<Rightarrow> ProtoArgs \<Rightarrow> ProtoArgs result" where
  "merge_args rd t r a = MergeJobProfile rd (dt_args t) a (p_profile_a r) (dt_start_col t) (dt_width t)
     (p_profile_b r) (dt_start_row t) (dt_height t)"

definition result_sizes :: "DistributedTile \<Rightarrow> ProtoArgs \<Rightarrow> bool" where
  "result_sizes t r \<longleftrightarrow> GetProfileSize (p_profile_a r) = Inr (dt_width t)
     \<and> (p_keep_rows_separate (dt_args t) \<longrightarrow> GetProfileSize (p_profile_b r) = Inr (dt_height t))"

lemma CombineProfile_cases:
  assumes "CombineProfile rd now r j = Inr (ok, j')"
  obtains "\<not> ok" "j' = j"
  | k t args where "ok" "k < length (j_tiles j)" "t = j_tiles j ! k" "i32 (p_tile_id r) = int k" "tile_accepts t r" "result_sizes t r"
      "merge_args rd t r (j_args j) = Inr args"
      "j' = j\<lparr>j_args := args, j_tiles := (j_tiles j)[k := set_finished (get_current_time now) t],
              j_tiles_completed := j_tiles_completed j + 1\<rparr>"
proof (cases "ok")
  case False
  then have "j' = j"
    using assms by (auto simp: CombineProfile_def Let_def finish_tile_def split: option.splits if_splits elim!: rbind_InrE)
  then show ?thesis using False that(1) by blast
next
  case True
  obtain t where t: "aget (j_tiles j) (i32 (p_tile_id r)) = Some t" "tile_accepts t r"
    using assms True by (auto simp: CombineProfile_def Let_def split: option.splits if_splits)
  define k where "k = nat (i32 (p_tile_id r))"
  have k: "k < length (j_tiles j)" "t = j_tiles j ! k" "i32 (p_tile_id r) = int k"
    using aget_SomeD [OF t(1)] by (auto simp: k_def)
  have f: "finish_tile rd now k r j = Inr (True, j')" "result_sizes t r"
    using assms True t by (auto simp: CombineProfile_def Let_def k_def result_sizes_def split: if_splits elim!: rbind_InrE)
  obtain args where m: "merge_args rd t r (j_args j) = Inr args"
    "j' = j\<lparr>j_args := args, j_tiles := (j_tiles j)[k := set_finished (get_current_time now) t],
              j_tiles_completed := j_tiles_completed j + 1\<rparr>"
    using f(1) by (auto simp: finish_tile_def Let_def merge_args_def k(2) elim!: rbind_InrE)
  show ?thesis by (rule that(2) [OF True k(1,2,3) t(2) f(2) m])
qed

lemma check_time_inv: "job_inv j \<Longrightarrow> job_inv (check_time_tile now j)"
  by (auto simp: job_inv_def check_time_tile_def intro!: tile_ok_failed)

lemma set_tile_failed_inv: "job_inv j \<Longrightarrow> job_inv (set_tile_failed now tid j)"
  unfolding set_tile_failed_def set_failed_def
  by (auto simp: nat_less_iff intro!: job_inv_update tile_ok_failed) (auto simp: job_inv_def nat_less_iff)

lemma CombineProfile_inv:
  assumes "CombineProfile rd now r j = Inr (ok, j')" "job_inv j"
  shows "job_inv j' \<and> same_job j j'"
  using assms(1)
proof (cases rule: CombineProfile_cases)
  case (2 k t args)
  have a: "args_plan args = args_plan (j_args j)" using 2 by (auto simp: merge_args_def dest: MergeJobProfile_same)
  have "tile_ok (j_args j) (k \<in> set (j_ready_queue j)) t" using 2 assms(2) by (simp add: job_inv_def)
  then have "job_inv (j\<lparr>j_tiles := (j_tiles j)[k := set_finished (get_current_time now) t]\<rparr>)"
    using 2 assms(2) by (intro job_inv_update) (auto simp: set_finished_def tile_accepts_def intro: tile_ok_finished)
  then show ?thesis using 2 a by (auto simp: job_inv_def same_job_def set_finished_def tile_ok_args [OF a])
qed (use assms(2) in auto)

lemma has_work_inv:
  assumes "has_work now j = (b, j')" "job_inv j"
  shows "job_inv j' \<and> same_job j j' \<and> j_args j' = j_args j \<and> j_tiles_completed j' = j_tiles_completed j"
  using assms cleanup_inv [of now j] cleanup_same [of now j]
  by (auto simp: has_work_def split: if_splits prod.splits)

lemma fetch_inv:
  assumes "fetch_ready_tile now th empty_proto_args j = Inr (a, j')" "job_inv j"
  shows "job_inv j' \<and> same_job j j' \<and> j_args j' = j_args j \<and> j_tiles_completed j' = j_tiles_completed j"
proof (cases "j_status j = JOB_STATUS_RUNNING \<and> j_ready_queue j = []")
  case True
  obtain b j1 where c: "cleanup_failed_tiles now j = (b, j1)" by (cases "cleanup_failed_tiles now j")
  have j1: "job_inv j1" "same_job j j1" "j_args j1 = j_args j" "j_tiles_completed j1 = j_tiles_completed j"
    using cleanup_inv [OF c assms(2)] cleanup_same [OF c assms(2)] True by auto
  show ?thesis
    using assms(1) True j1 issue_tile_inv [OF _ j1(1)] same_job_trans [OF j1(2)]
    by (auto simp: fetch_ready_tile_def Let_def c of_option_def split: if_splits option.splits elim!: rbind_InrE)
next
  case False
  then show ?thesis
    using assms issue_tile_inv [OF _ assms(2)]
    by (auto simp: fetch_ready_tile_def Let_def of_option_def split: if_splits option.splits elim!: rbind_InrE)
qed

lemma is_done_inv: "is_done now j = (b, j') \<Longrightarrow> job_inv j \<Longrightarrow> job_inv j' \<and> same_job j j'"
  by (auto simp: is_done_def same_job_def job_inv_def split: if_splits)

lemma check_time_same: "same_job j (check_time_tile now j)"
  by (simp add: same_job_def check_time_tile_def comp_def if_distrib cong: if_cong)

lemma set_tile_failed_same: "same_job j (set_tile_failed now tid j)"
  by (simp add: same_job_def set_tile_failed_def set_failed_def nat_less_iff)

lemma job_step_inv:
  assumes "job_step rd j e j'" "job_inv j"
  shows "job_inv j' \<and> same_job j j'"
  using assms
proof cases
  case (check now) then show ?thesis using assms(2) check_time_inv check_time_same by simp
next
  case (fail tid now) then show ?thesis using assms(2) set_tile_failed_inv set_tile_failed_same by simp
next
  case (fetch now th a) then show ?thesis using fetch_inv assms(2) by blast
next
  case (combine now r ok) then show ?thesis using CombineProfile_inv assms(2) by blast
next
  case (poll now b) then show ?thesis using is_done_inv assms(2) by blast
next
  case (ask now b) then show ?thesis using has_work_inv assms(2) by blast
qed

lemma job_run_inv: "job_run rd j0 es j \<Longrightarrow> job_inv j0 \<Longrightarrow> job_inv j \<and> same_job j0 j"
  by (induction rule: job_run.induct) (auto dest: job_step_inv same_job_trans)

end
