(* ===== verification/DistInit.thy ===== *)
theory DistInit
  imports DistRun
begin

text \<open>
  A new job: for valid arguments \<open>Job_Init\<close> succeeds, its tiles cover every cell of the distance matrix
  exactly once (a self join: every cell or its mirror image), and the invariant of the runs holds.
\<close>

subsection \<open>The loop nest\<close>

definition job_pairs :: "bool \<Rightarrow> int \<Rightarrow> int \<Rightarrow> (int \<times> int) list" where
  "job_pairs hb rows cols = concat (map (\<lambda>r. map (Pair r) [(if hb then 0 else r)..cols - 1]) [0..rows - 1])"

lemma set_job_pairs:
  "set (job_pairs hb rows cols) = {(r, c). 0 \<le> r \<and> r < rows \<and> 0 \<le> c \<and> c < cols \<and> (hb \<or> r \<le> c)}"
  by (auto simp: job_pairs_def split: if_splits)

lemma distinct_job_pairs: "distinct (job_pairs hb rows cols)"
  unfolding job_pairs_def by (rule distinct_concat_map) (auto simp: distinct_map inj_on_def)

lemma fold_concat_map: "fold f (concat (map g xs)) s = fold (\<lambda>x. fold f (g x)) xs s"
  by (induction xs arbitrary: s) auto

lemma emplace_tiles_fold:
  "emplace_tiles j = Some (fold (\<lambda>(r, c). emplace_tile r c) (job_pairs (p_has_b (j_args j)) (j_tile_rows j) (j_tile_cols j)) j)"
  by (simp add: emplace_tiles_def for1_Some job_pairs_def fold_concat_map fold_map comp_def)

definition made_tiles :: "int \<Rightarrow> int \<Rightarrow> int \<Rightarrow> nat \<Rightarrow> (int \<times> int) list \<Rightarrow> DistributedTile list" where
  "made_tiles sz w h k ps = map (\<lambda>(k, r, c). new_tile sz w h r c (int k)) (enumerate k ps)"

lemma fold_emplace:
  assumes "0 \<le> j_tile_counter j"
  shows "fold (\<lambda>(r, c). emplace_tile r c) ps j = j\<lparr>
    j_tiles := j_tiles j @ made_tiles (j_distributed_tile_size j) (j_width j) (j_height j) (nat (j_tile_counter j)) ps,
    j_ready_queue := j_ready_queue j @ [nat (j_tile_counter j)..<nat (j_tile_counter j) + length ps],
    j_tile_counter := j_tile_counter j + int (length ps)\<rparr>"
  using assms
proof (induction ps arbitrary: j)
  case Nil
  then show ?case by (simp add: made_tiles_def)
next
  case (Cons p ps)
  obtain r c where p: "p = (r, c)" by (cases p)
  have s: "nat (j_tile_counter j + 1) = Suc (nat (j_tile_counter j))" using Cons.prems by simp
  have u: "[nat (j_tile_counter j)..<Suc (nat (j_tile_counter j) + length ps)]
      = nat (j_tile_counter j) # [Suc (nat (j_tile_counter j))..<Suc (nat (j_tile_counter j) + length ps)]"
    by (rule upt_conv_Cons) simp
  show ?case
    using Cons.IH [of "emplace_tile r c j"] Cons.prems
    by (simp add: p emplace_tile_def made_tiles_def s u del: upt_Suc)
qed

subsection \<open>Valid jobs\<close>

text \<open>
  The server validates nothing (\<open>validateArgs\<close> is a stub), so this is what a client has to keep to: a
  window that fits in the series, a positive tile size, a supported profile type, and no profile yet.
\<close>

definition valid_job :: "ProtoArgs \<Rightarrow> bool" where
  "valid_job a \<longleftrightarrow> 1 \<le> p_window a \<and> p_window a \<le> size_of (p_timeseries_a a) \<and> size_of (p_timeseries_a a) < 2 ^ 31
     \<and> (p_has_b a \<longrightarrow> p_window a \<le> size_of (p_timeseries_b a) \<and> size_of (p_timeseries_b a) < 2 ^ 31)
     \<and> 0 < p_distributed_tile_size a \<and> p_distributed_tile_size a < 2 ^ 53
     \<and> p_profile_type a \<in> {P_1NN_INDEX, P_1NN, P_SUM_THRESH}
     \<and> pdata (p_profile_a a) = [] \<and> pdata (p_profile_b a) = []"

definition map_order :: "(nat \<Rightarrow> nat list) \<Rightarrow> bool" where
  "map_order ord \<longleftrightarrow> (\<forall>n. distinct (ord n) \<and> set (ord n) = {..<n})"

definition matrix_cols :: "ProtoArgs \<Rightarrow> int" where
  "matrix_cols a = size_of (p_timeseries_a a) - p_window a + 1"

definition matrix_rows :: "ProtoArgs \<Rightarrow> int" where
  "matrix_rows a = (if p_has_b a then size_of (p_timeseries_b a) - p_window a + 1 else matrix_cols a)"

definition tile_cols_of :: "ProtoArgs \<Rightarrow> int" where
  "tile_cols_of a = \<lceil>real_of_int (matrix_cols a) / real_of_int (p_distributed_tile_size a)\<rceil>"

definition tile_rows_of :: "ProtoArgs \<Rightarrow> int" where
  "tile_rows_of a = \<lceil>real_of_int (matrix_rows a) / real_of_int (p_distributed_tile_size a)\<rceil>"

definition pairs_of :: "ProtoArgs \<Rightarrow> (int \<times> int) list" where
  "pairs_of a = job_pairs (p_has_b a) (tile_rows_of a) (tile_cols_of a)"

definition initial_args :: "ProtoArgs \<Rightarrow> ProtoArgs" where
  "initial_args a = (let a' = a\<lparr>p_profile_a := InitProtoProfile (p_profile_a a) (p_profile_type a) (matrix_cols a)\<rparr> in
     if p_keep_rows_separate a
     then a'\<lparr>p_profile_b := InitProtoProfile (p_profile_b a) (p_profile_type a) (matrix_rows a)\<rparr> else a')"

lemma InitProtoProfile_new:
  assumes "pdata p = []" "0 < n" "t \<in> {P_1NN_INDEX, P_1NN, P_SUM_THRESH}"
  shows "GetProfileSize (InitProtoProfile p t n) = Inr n" "ProfileAllocated p = False"
  using assms by (auto simp: GetProfileSize_def InitProtoProfile_def ProfileAllocated_def Let_def size_of_def)

lemma matrix_sizes:
  assumes "valid_job a"
  shows "0 < matrix_cols a" "matrix_cols a < 2 ^ 31" "0 < matrix_rows a" "matrix_rows a < 2 ^ 31"
  using assms by (auto simp: valid_job_def matrix_cols_def matrix_rows_def)

lemma job_tile_count_exact:
  assumes "double_rounding rd" "0 < n" "n < 2 ^ 31" "0 < h" "h < 2 ^ 53"
  shows "job_tile_count rd n h = Some \<lceil>real_of_int n / real_of_int h\<rceil>"
proof -
  define k where "k = \<lceil>real_of_int n / real_of_int h\<rceil>"
  have "1 \<le> k" "k < 2 ^ 31" using ceil_div_pos [OF assms(2,4)] assms(3) unfolding k_def by linarith+
  then show ?thesis using tile_count_exact [OF assms] by (simp add: job_tile_count_def flip: k_def)
qed

lemma make_job_valid:
  assumes "double_rounding rd" "valid_job a"
  shows "make_job rd ord a jid now = Inr
    \<lparr>j_distributed_tile_size = p_distributed_tile_size a, j_tiles_completed = 0, j_id = jid,
     j_tile_counter = int (length (pairs_of a)), j_tile_rows = tile_rows_of a, j_tile_cols = tile_cols_of a,
     j_width = matrix_cols a, j_height = matrix_rows a, j_start_time = now, j_end_time = 0,
     j_tiles = made_tiles (p_distributed_tile_size a) (matrix_cols a) (matrix_rows a) 0 (pairs_of a),
     j_tile_order = ord (length (pairs_of a)), j_ready_queue = [0..<length (pairs_of a)],
     j_status = JOB_STATUS_RUNNING, j_args = initial_args a\<rparr>"
proof -
  note n = matrix_sizes [OF assms(2)]
  have v: "0 < p_distributed_tile_size a" "p_distributed_tile_size a < 2 ^ 53"
    "p_profile_type a \<in> {P_1NN_INDEX, P_1NN, P_SUM_THRESH}" "pdata (p_profile_a a) = []" "pdata (p_profile_b a) = []"
    using assms(2) by (auto simp: valid_job_def)
  then have u: "u64 (p_distributed_tile_size a) = p_distributed_tile_size a" by simp
  note pa = InitProtoProfile_new [OF v(4) n(1) v(3)] and pb = InitProtoProfile_new [OF v(5) n(3) v(3)]
  have cols: "job_tile_count rd (matrix_cols a) (p_distributed_tile_size a) = Some (tile_cols_of a)"
    and rows: "job_tile_count rd (matrix_rows a) (p_distributed_tile_size a) = Some (tile_rows_of a)"
    unfolding tile_cols_of_def tile_rows_of_def by (rule job_tile_count_exact [OF assms(1)]; use n v in simp)+
  have same: "\<not> p_has_b a \<Longrightarrow> tile_rows_of a = tile_cols_of a" by (simp add: tile_rows_of_def tile_cols_of_def matrix_rows_def)
  have len: "length (made_tiles s x y k ps) = length ps" for s x y k ps by (simp add: made_tiles_def)
  have gen: "generate_tiles rd ord j = Inr (j\<lparr>
      j_distributed_tile_size := p_distributed_tile_size a, j_tile_cols := tile_cols_of a, j_tile_rows := tile_rows_of a,
      j_tile_counter := int (length (pairs_of a)),
      j_tiles := made_tiles (p_distributed_tile_size a) (matrix_cols a) (matrix_rows a) 0 (pairs_of a),
      j_ready_queue := [0..<length (pairs_of a)], j_tile_order := ord (length (pairs_of a)), j_status := JOB_STATUS_RUNNING\<rparr>)"
    if "args_plan (j_args j) = args_plan a" "j_width j = matrix_cols a" "j_height j = matrix_rows a" "j_tiles j = []"
      "j_ready_queue j = []" "j_tile_counter j = 0" for j
    using that args_plan_fields [OF that(1)] cols rows same
    by (auto simp: generate_tiles_def emplace_tiles_fold fold_emplace u len pairs_of_def)
  have h: "p_has_b a \<Longrightarrow> size_of (p_timeseries_b a) - p_window a + 1 = matrix_rows a" "\<not> p_has_b a \<Longrightarrow> matrix_rows a = matrix_cols a"
    by (simp_all add: matrix_rows_def)
  have i: "i64 (matrix_cols a) = matrix_cols a" "i64 (matrix_rows a) = matrix_rows a" using n by simp_all
  note d = make_job_def Job_Init_def Job_new_def validateArgs_def allocate_a_def allocate_b_def initial_args_def
    matrix_cols_def [symmetric] gen pa pb
  show ?thesis
  proof (cases "p_has_b a")
    case True
    then show ?thesis by (simp add: d h(1) i Let_def)
  next
    case False
    then show ?thesis using pb by (simp add: d h(2) i Let_def)
  qed
qed

subsection \<open>The tiles of a job\<close>

definition job_cells :: "int \<Rightarrow> DistributedTile \<Rightarrow> (int \<times> int) set" where
  "job_cells sz t = {(i, c). dt_row t * sz \<le> i \<and> i < dt_row t * sz + dt_height t
     \<and> dt_col t * sz \<le> c \<and> c < dt_col t * sz + dt_width t}"

lemma length_made_tiles [simp]: "length (made_tiles sz w h k ps) = length ps"
  by (simp add: made_tiles_def)

lemma made_tiles_nth:
  "k < length ps \<Longrightarrow> made_tiles sz w h 0 ps ! k = new_tile sz w h (fst (ps ! k)) (snd (ps ! k)) (int k)"
  by (simp add: made_tiles_def nth_enumerate_eq split_beta)

lemma pairs_of_bounds:
  assumes "valid_job a" "(r, c) \<in> set (pairs_of a)"
  shows "0 \<le> r" "0 \<le> c" "r * p_distributed_tile_size a < matrix_rows a" "c * p_distributed_tile_size a < matrix_cols a"
    "p_has_b a \<or> r \<le> c"
  using assms less_ceil_div_iff [of "p_distributed_tile_size a" r "matrix_rows a"]
    less_ceil_div_iff [of "p_distributed_tile_size a" c "matrix_cols a"]
  by (auto simp: pairs_of_def set_job_pairs tile_rows_of_def tile_cols_of_def valid_job_def)

lemma new_tile_fields:
  assumes "valid_job a" "(r, c) \<in> set (pairs_of a)" "t = new_tile (p_distributed_tile_size a) (matrix_cols a) (matrix_rows a) r c tid"
  shows "dt_row t = r" "dt_col t = c" "dt_id t = tid"
    "dt_height t = min (p_distributed_tile_size a) (matrix_rows a - r * p_distributed_tile_size a)"
    "dt_width t = min (p_distributed_tile_size a) (matrix_cols a - c * p_distributed_tile_size a)"
proof -
  note b = pairs_of_bounds [OF assms(1,2)] and n = matrix_sizes [OF assms(1)]
  have "0 \<le> r * p_distributed_tile_size a" "0 \<le> c * p_distributed_tile_size a"
    using b assms(1) by (auto simp: valid_job_def)
  then have "u64 (matrix_rows a - r * p_distributed_tile_size a) = matrix_rows a - r * p_distributed_tile_size a"
    "u64 (matrix_cols a - c * p_distributed_tile_size a) = matrix_cols a - c * p_distributed_tile_size a"
    using b n by (auto intro!: u64_id)
  then show "dt_row t = r" "dt_col t = c" "dt_id t = tid"
    "dt_height t = min (p_distributed_tile_size a) (matrix_rows a - r * p_distributed_tile_size a)"
    "dt_width t = min (p_distributed_tile_size a) (matrix_cols a - c * p_distributed_tile_size a)"
    by (simp_all add: assms(3) new_tile_def DistributedTile_init_def)
qed

definition job_tile :: "ProtoArgs \<Rightarrow> nat \<Rightarrow> DistributedTile" where
  "job_tile a k = new_tile (p_distributed_tile_size a) (matrix_cols a) (matrix_rows a)
     (fst (pairs_of a ! k)) (snd (pairs_of a ! k)) (int k)"

lemma job_tile_fields:
  assumes "valid_job a" "k < length (pairs_of a)" "pairs_of a ! k = (r, c)"
  shows "dt_row (job_tile a k) = r" "dt_col (job_tile a k) = c" "dt_id (job_tile a k) = int k"
    "dt_height (job_tile a k) = min (p_distributed_tile_size a) (matrix_rows a - r * p_distributed_tile_size a)"
    "dt_width (job_tile a k) = min (p_distributed_tile_size a) (matrix_cols a - c * p_distributed_tile_size a)"
proof -
  have "(r, c) \<in> set (pairs_of a)" using assms(2,3) by (metis nth_mem)
  from new_tile_fields [OF assms(1) this, of "job_tile a k" "int k"]
  show "dt_row (job_tile a k) = r" "dt_col (job_tile a k) = c" "dt_id (job_tile a k) = int k"
    "dt_height (job_tile a k) = min (p_distributed_tile_size a) (matrix_rows a - r * p_distributed_tile_size a)"
    "dt_width (job_tile a k) = min (p_distributed_tile_size a) (matrix_cols a - c * p_distributed_tile_size a)"
    by (simp_all add: job_tile_def assms(3))
qed

lemma job_cells_iff:
  assumes "valid_job a" "k < length (pairs_of a)" "0 \<le> i" "i < matrix_rows a" "0 \<le> c" "c < matrix_cols a"
  shows "(i, c) \<in> job_cells (p_distributed_tile_size a) (job_tile a k)
    \<longleftrightarrow> pairs_of a ! k = (i div p_distributed_tile_size a, c div p_distributed_tile_size a)"
proof -
  obtain r q where k: "pairs_of a ! k = (r, q)" by (cases "pairs_of a ! k")
  then have m: "(r, q) \<in> set (pairs_of a)" using assms(2) by (metis nth_mem)
  have sz: "0 < p_distributed_tile_size a" using assms(1) by (simp add: valid_job_def)
  have "0 \<le> r \<and> r < tile_rows_of a \<and> 0 \<le> q \<and> q < tile_cols_of a"
    using m by (simp add: pairs_of_def set_job_pairs)
  then show ?thesis
    using interval_partition [OF sz assms(3,4), of r] interval_partition [OF sz assms(5,6), of q]
    by (auto simp: job_cells_def job_tile_fields [OF assms(1,2) k] tile_rows_of_def tile_cols_of_def k)
qed

text \<open>The index of the tile of a cell.\<close>

lemma pair_index:
  assumes "valid_job a" "0 \<le> i" "i < matrix_rows a" "0 \<le> c" "c < matrix_cols a"
    "p_has_b a \<or> i div p_distributed_tile_size a \<le> c div p_distributed_tile_size a"
  shows "\<exists>!k. k < length (pairs_of a) \<and> pairs_of a ! k = (i div p_distributed_tile_size a, c div p_distributed_tile_size a)"
proof -
  have sz: "0 < p_distributed_tile_size a" using assms(1) by (simp add: valid_job_def)
  have "(i div p_distributed_tile_size a, c div p_distributed_tile_size a) \<in> set (pairs_of a)"
    using interval_partition [OF sz assms(2,3)] interval_partition [OF sz assms(4,5)] assms(6)
    by (auto simp: pairs_of_def set_job_pairs tile_rows_of_def tile_cols_of_def)
  moreover have "distinct (pairs_of a)" by (simp add: pairs_of_def distinct_job_pairs)
  ultimately show ?thesis by (metis in_set_conv_nth nth_eq_iff_index_eq)
qed

lemma made_tiles_job_tile:
  "k < length (pairs_of a) \<Longrightarrow>
    made_tiles (p_distributed_tile_size a) (matrix_cols a) (matrix_rows a) 0 (pairs_of a) ! k = job_tile a k"
  by (simp add: made_tiles_nth job_tile_def)

lemma made_job:
  assumes "double_rounding rd" "valid_job a" "make_job rd ord a jid now = Inr j"
  shows "j_status j = JOB_STATUS_RUNNING" "length (j_tiles j) = length (pairs_of a)" "j_args j = initial_args a"
    "j_tiles_completed j = 0" "j_ready_queue j = [0..<length (pairs_of a)]" "j_tile_order j = ord (length (pairs_of a))"
    "j_distributed_tile_size j = p_distributed_tile_size a"
    "\<And>k. k < length (pairs_of a) \<Longrightarrow> j_tiles j ! k = job_tile a k"
proof -
  note j = assms(3) [unfolded make_job_valid [OF assms(1,2)], simplified, symmetric]
  show "j_status j = JOB_STATUS_RUNNING" "length (j_tiles j) = length (pairs_of a)" "j_args j = initial_args a"
    "j_tiles_completed j = 0" "j_ready_queue j = [0..<length (pairs_of a)]" "j_tile_order j = ord (length (pairs_of a))"
    "j_distributed_tile_size j = p_distributed_tile_size a"
    "\<And>k. k < length (pairs_of a) \<Longrightarrow> j_tiles j ! k = job_tile a k"
    by (simp_all add: j made_tiles_job_tile)
qed

lemma args_plan_initial [simp]: "args_plan (initial_args a) = args_plan a"
  by (simp add: initial_args_def Let_def)

lemma made_job_inv:
  assumes "double_rounding rd" "valid_job a" "map_order ord" "make_job rd ord a jid now = Inr j"
  shows "job_inv j"
  using made_job [OF assms(1,2,4)] assms(3)
  by (auto simp: job_inv_def map_order_def tile_ok_def job_tile_def new_tile_def DistributedTile_init_def MAX_TILE_RETRIES_def)

lemma job_tiles_cover:
  assumes "double_rounding rd" "valid_job a" "0 \<le> i" "i < matrix_rows a" "0 \<le> c" "c < matrix_cols a"
  shows "\<exists>j. make_job rd ord a jid now = Inr j \<and> j_status j = JOB_STATUS_RUNNING \<and>
    (\<exists>!k. k < length (j_tiles j) \<and>
       ((i, c) \<in> job_cells (p_distributed_tile_size a) (j_tiles j ! k)
        \<or> \<not> p_has_b a \<and> (c, i) \<in> job_cells (p_distributed_tile_size a) (j_tiles j ! k)))"
proof -
  obtain j where j: "make_job rd ord a jid now = Inr j" using make_job_valid [OF assms(1,2)] by simp
  note m = made_job [OF assms(1,2) j]
  let ?s = "p_distributed_tile_size a"
  have sym: "\<not> p_has_b a \<Longrightarrow> matrix_rows a = matrix_cols a" by (simp add: matrix_rows_def)
  have tri: "pairs_of a ! k = (x, y) \<Longrightarrow> k < length (pairs_of a) \<Longrightarrow> p_has_b a \<or> x \<le> y" for k x y
    using pairs_of_bounds(5) [OF assms(2)] by (metis nth_mem)
  have it: "(i, c) \<in> job_cells ?s (job_tile a k) \<longleftrightarrow> pairs_of a ! k = (i div ?s, c div ?s)" if "k < length (pairs_of a)" for k
    using job_cells_iff [OF assms(2) that assms(3-6)] .
  have mir: "(c, i) \<in> job_cells ?s (job_tile a k) \<longleftrightarrow> pairs_of a ! k = (c div ?s, i div ?s)"
    if "k < length (pairs_of a)" "\<not> p_has_b a" for k
    using job_cells_iff [OF assms(2) that(1), of c i] assms(3-6) sym [OF that(2)] by simp
  have "\<exists>!k. k < length (pairs_of a) \<and> (pairs_of a ! k = (i div ?s, c div ?s)
      \<or> \<not> p_has_b a \<and> pairs_of a ! k = (c div ?s, i div ?s))"
  proof (cases "p_has_b a \<or> i div ?s \<le> c div ?s")
    case True
    from pair_index [OF assms(2-6) True] show ?thesis using tri by (metis order_antisym)
  next
    case False
    then have "p_has_b a \<or> c div ?s \<le> i div ?s" by auto
    from pair_index [OF assms(2,5) _ assms(3) _ this] show ?thesis using assms(4,6) sym False tri
      by (metis)
  qed
  then show ?thesis using j m it mir by (metis (no_types, lifting))
qed

text \<open>
  C31. The tiles of a valid job partition the distance matrix: with two series every cell lies in exactly
  one tile; for a self join, which only has tiles on and above the diagonal, exactly one tile has the cell
  or its mirror image.
\<close>

theorem job_tiles_partition:
  assumes "double_rounding rd" "valid_job a" "0 \<le> i" "i < matrix_rows a" "0 \<le> c" "c < matrix_cols a"
  shows "\<exists>j. make_job rd ord a jid now = Inr j \<and> j_status j = JOB_STATUS_RUNNING \<and>
    (\<exists>!k. k < length (j_tiles j) \<and>
       ((i, c) \<in> job_cells (p_distributed_tile_size a) (j_tiles j ! k)
        \<or> \<not> p_has_b a \<and> (c, i) \<in> job_cells (p_distributed_tile_size a) (j_tiles j ! k)))"
  by (rule job_tiles_cover [OF assms])

end
