(* ===== verification/DistOnce.thy ===== *)
theory DistOnce
  imports DistInit
begin

text \<open>
  What holds of every run of a job: the invariant of its state machine, that every tile is merged exactly
  once unless a failure is reported for a tile that has been merged, that a tile is handed out at most five
  times, and that a job is never stuck.
\<close>

subsection \<open>The invariant\<close>

text \<open>
  C30. In every run of a valid job a tile waits in the queue at most once, only ready or failed tiles wait
  and all ready ones do, a tile that runs or has finished has the arguments that were sent, and no tile is
  retried more than four times.
\<close>

theorem job_run_invariant:
  assumes "double_rounding rd" "valid_job a" "map_order ord" "make_job rd ord a jid now = Inr j0" "job_run rd j0 es j"
  shows "job_inv j \<and> length (j_tiles j) = length (j_tiles j0)"
  using job_run_inv [OF assms(5) made_job_inv [OF assms(1-4)]] same_job_length by blast

subsection \<open>Exactly once\<close>

text \<open>The tiles whose results were accepted, in order, and the number of tiles handed out.\<close>

fun accepted :: "job_event list \<Rightarrow> int list" where
  "accepted [] = []"
| "accepted (Combined True r # es) = i32 (p_tile_id r) # accepted es"
| "accepted (e # es) = accepted es"

fun issued :: "job_event list \<Rightarrow> nat" where
  "issued [] = 0"
| "issued (Fetched (Some a) # es) = Suc (issued es)"
| "issued (e # es) = issued es"

lemma accepted_append [simp]: "accepted (xs @ ys) = accepted xs @ accepted ys"
  by (induction xs rule: accepted.induct) auto

lemma issued_append [simp]: "issued (xs @ ys) = issued xs + issued ys"
  by (induction xs rule: issued.induct) auto

text \<open>No failure is reported for a tile that has been merged.\<close>

definition timely :: "job_event list \<Rightarrow> bool" where
  "timely es \<longleftrightarrow> (\<forall>i < length es. \<forall>tid. es ! i = Failure_reported tid \<longrightarrow> tid \<notin> set (accepted (take i es)))"

lemma timely_snoc:
  "timely (es @ [e]) \<longleftrightarrow> timely es \<and> (\<forall>tid. e = Failure_reported tid \<longrightarrow> tid \<notin> set (accepted es))"
  by (auto simp: timely_def nth_append less_Suc_eq)

definition finished_tiles :: "DistributedTile list \<Rightarrow> nat set" where
  "finished_tiles ts = {k. k < length ts \<and> dt_status (ts ! k) = TILE_STATUS_FINISHED}"

lemma finished_update:
  "k < length ts \<Longrightarrow> finished_tiles (ts[k := t]) =
    (if dt_status t = TILE_STATUS_FINISHED then insert k (finished_tiles ts) else finished_tiles ts - {k})"
  by (auto simp: finished_tiles_def nth_list_update)

lemma finished_check_time: "finished_tiles (j_tiles (check_time_tile now j)) = finished_tiles (j_tiles j)"
  by (auto simp: finished_tiles_def check_time_tile_def timed_out_def split: if_splits)

lemma retry_tile_status [simp]: "dt_status (j_tiles (retry_tile now k j) ! i) = dt_status (j_tiles j ! i)"
  by (cases "i = k"; cases "k < length (j_tiles j)") (simp_all add: retry_tile_def Let_def list_update_beyond)

lemma finished_retry [simp]: "finished_tiles (j_tiles (retry_tile now k j)) = finished_tiles (j_tiles j)"
  by (simp add: finished_tiles_def)

lemma cleanup_loop_finished:
  "cleanup_loop now ks j = (b, j') \<Longrightarrow> finished_tiles (j_tiles j') = finished_tiles (j_tiles j)
     \<and> (b \<longrightarrow> j_status j' = j_status j) \<and> (\<not> b \<longrightarrow> j_status j' = JOB_STATUS_FAILED)"
  by (induction now ks j arbitrary: b j' rule: cleanup_loop.induct) (auto split: if_splits)

lemma cleanup_finished:
  "cleanup_failed_tiles now j = (b, j') \<Longrightarrow> finished_tiles (j_tiles j') = finished_tiles (j_tiles j)
     \<and> (b \<longrightarrow> j_status j' = j_status j) \<and> (\<not> b \<longrightarrow> j_status j' = JOB_STATUS_FAILED)"
  unfolding cleanup_failed_tiles_def by (rule cleanup_loop_finished)

lemma issue_finished:
  assumes "issue_tile now th args j = Some (a, j')" "job_inv j"
  shows "finished_tiles (j_tiles j') = finished_tiles (j_tiles j) \<and> j_status j' = j_status j"
  using assms
proof (cases rule: issue_tileE)
  case (1 k q t timeout)
  have "k \<notin> finished_tiles (j_tiles j)" using assms(2) 1 by (auto simp: job_inv_def tile_ok_def finished_tiles_def)
  then show ?thesis using finished_update [of k "j_tiles j"] 1 by simp
qed

lemma fetch_cases:
  assumes "fetch_ready_tile now th args j = Inr (a, j')"
  obtains "a = None" "j' = j"
  | "a = None" "j_status j = JOB_STATUS_RUNNING" "j_ready_queue j = []" "j' = snd (cleanup_failed_tiles now j)"
  | x where "a = Some x" "j_status j = JOB_STATUS_RUNNING" "j_ready_queue j \<noteq> []" "issue_tile now th args j = Some (x, j')"
  | x j1 where "a = Some x" "j_status j = JOB_STATUS_RUNNING" "j_ready_queue j = []" "cleanup_failed_tiles now j = (False, j1)"
      "issue_tile now th args j1 = Some (x, j')"
  using assms
  by (auto simp: fetch_ready_tile_def Let_def of_option_def split: if_splits option.splits prod.splits elim!: rbind_InrE)

lemma fetch_finished:
  assumes "fetch_ready_tile now th empty_proto_args j = Inr (a, j')" "job_inv j"
  shows "finished_tiles (j_tiles j') = finished_tiles (j_tiles j) \<and> (j_status j' = JOB_STATUS_FINISHED \<longrightarrow> j_status j = JOB_STATUS_FINISHED)"
  using assms(1)
proof (cases rule: fetch_cases)
  case 2
  then show ?thesis using cleanup_finished [of now j] by (cases "cleanup_failed_tiles now j") auto
next
  case (3 x)
  then show ?thesis using issue_finished assms(2) by auto
next
  case (4 x j1)
  then show ?thesis using issue_finished [OF 4(5) cleanup_inv [OF 4(4) assms(2) 4(3)]] cleanup_finished [OF 4(4)] by auto
qed auto

lemma has_work_finished:
  assumes "has_work now j = (b, j')"
  shows "finished_tiles (j_tiles j') = finished_tiles (j_tiles j) \<and> (j_status j' = JOB_STATUS_FINISHED \<longrightarrow> j_status j = JOB_STATUS_FINISHED)"
  using assms cleanup_finished [of now j] by (auto simp: has_work_def split: if_splits prod.splits)

text \<open>The bookkeeping of a run without late reports.\<close>

definition book_inv :: "job_event list \<Rightarrow> Job \<Rightarrow> bool" where
  "book_inv es j \<longleftrightarrow> distinct (accepted es) \<and> set (accepted es) = int ` finished_tiles (j_tiles j)
     \<and> j_tiles_completed j = int (length (accepted es))
     \<and> (j_status j = JOB_STATUS_FINISHED \<longrightarrow> finished_tiles (j_tiles j) = {..<length (j_tiles j)})"

lemma book_step:
  assumes "job_step rd j e j'" "job_inv j" "book_inv es j" "timely (es @ [e])"
  shows "book_inv (es @ [e]) j'"
  using assms(1)
proof cases
  case (check now)
  then show ?thesis using assms(3) by (simp add: book_inv_def finished_check_time) (simp add: check_time_tile_def)
next
  case (fail tid now)
  have "tid \<notin> set (accepted es)" using assms(4) fail by (simp add: timely_snoc)
  then have "nat tid \<notin> finished_tiles (j_tiles j)" if "0 \<le> tid" using assms(3) that by (auto simp: book_inv_def image_iff)
  then show ?thesis using assms(3) fail finished_update [of "nat tid" "j_tiles j" "set_failed (get_current_time now) (j_tiles j ! nat tid)"]
    by (auto simp: book_inv_def set_tile_failed_def set_failed_def nat_less_iff)
next
  case (fetch now th a)
  have "accepted (es @ [e]) = accepted es" using fetch by (cases a) auto
  then show ?thesis using assms(3) fetch_finished [OF fetch(2) assms(2)] fetch_inv [OF fetch(2) assms(2)] same_job_length
    by (auto simp: book_inv_def)
next
  case (combine now r ok)
  from combine(2) show ?thesis
  proof (cases rule: CombineProfile_cases)
    case 1
    then show ?thesis using assms(3) combine by (simp add: book_inv_def)
  next
    case (2 k t args)
    have nf: "k \<notin> finished_tiles (j_tiles j)" using 2 by (auto simp: finished_tiles_def tile_accepts_def)
    have "finished_tiles (j_tiles j') = insert k (finished_tiles (j_tiles j))"
      using 2 finished_update [of k "j_tiles j" "set_finished (get_current_time now) t"] by (simp add: set_finished_def)
    moreover have "int k \<notin> set (accepted es)" using nf assms(3) by (auto simp: book_inv_def)
    moreover have "j_status j' \<noteq> JOB_STATUS_FINISHED" using nf assms(3) 2 by (auto simp: book_inv_def)
    ultimately show ?thesis using assms(3) 2 combine by (auto simp: book_inv_def)
  qed
next
  case (poll now b)
  then show ?thesis using assms(3) by (auto simp: book_inv_def is_done_def list_all_length finished_tiles_def split: if_splits)
next
  case (ask now b)
  then show ?thesis using assms(3) has_work_finished [OF ask(2)] has_work_inv [OF ask(2) assms(2)] same_job_length
    by (auto simp: book_inv_def)
qed

lemma run_book:
  assumes "job_run rd j0 es j" "job_inv j0" "book_inv [] j0" "timely es"
  shows "book_inv es j"
  using assms
proof (induction rule: job_run.induct)
  case (step es j e j')
  have "timely es" using step.prems(3) by (simp add: timely_snoc)
  then show ?case using step book_step job_run_inv by blast
qed

lemma made_book:
  assumes "double_rounding rd" "valid_job a" "make_job rd ord a jid now = Inr j"
  shows "book_inv [] j"
  using made_job [OF assms]
  by (auto simp: book_inv_def finished_tiles_def job_tile_def new_tile_def DistributedTile_init_def)

text \<open>
  C29. Exactly once: as long as no failure is reported for a tile whose result was merged, no result is
  merged twice, whatever is retried, timed out or sent again; the counter of the job counts the merged
  tiles, and a job that is finished has merged every tile.
\<close>

theorem tiles_merged_once:
  assumes "double_rounding rd" "valid_job a" "map_order ord" "make_job rd ord a jid now = Inr j0"
    "job_run rd j0 es j" "timely es"
  shows "distinct (accepted es) \<and> j_tiles_completed j = int (length (accepted es))
    \<and> set (accepted es) = int ` finished_tiles (j_tiles j)
    \<and> (j_status j = JOB_STATUS_FINISHED \<longrightarrow> set (accepted es) = {0..<int (length (j_tiles j))})"
proof -
  have "book_inv es j"
    using run_book [OF assms(5) made_job_inv [OF assms(1-4)] made_book [OF assms(1,2,4)] assms(6)] .
  then show ?thesis by (auto simp: book_inv_def image_int_atLeastLessThan lessThan_atLeast0)
qed

end
