(* ===== verification/DistProgress.thy ===== *)
theory DistProgress
  imports DistOnce
begin

text \<open>
  Runs make progress: a tile is handed out at most five times, a running job that is not finished and
  has no tile at a worker either hands out a tile or fails, and what the answer of \<open>has_work\<close> means.
\<close>

subsection \<open>A bound on the tiles handed out\<close>

definition total_retries :: "Job \<Rightarrow> int" where
  "total_retries j = sum_list (map dt_retries (j_tiles j))"

definition credit :: "Job \<Rightarrow> int" where
  "credit j = int (length (j_ready_queue j)) - total_retries j"

lemma retries_update [simp]:
  "k < length ts \<Longrightarrow> dt_retries t = dt_retries (ts ! k) \<Longrightarrow> map dt_retries (ts[k := t]) = map dt_retries ts"
  by (simp add: map_update list_update_same_conv)

lemma sum_list_update_int:
  "k < length xs \<Longrightarrow> sum_list (map f (xs[k := y])) = sum_list (map f xs) - f (xs ! k) + (f y :: int)"
  by (induction xs arbitrary: k) (auto split: nat.split)

lemma retry_tile_credit: "k < length (j_tiles j) \<Longrightarrow> credit (retry_tile now k j) = credit j"
  by (simp add: credit_def total_retries_def retry_tile_def Let_def sum_list_update_int)

lemma cleanup_loop_credit:
  "cleanup_loop now ks j = (b, j') \<Longrightarrow> set ks \<subseteq> {..<length (j_tiles j)} \<Longrightarrow> credit j' = credit j"
  by (induction now ks j arbitrary: b j' rule: cleanup_loop.induct)
    (auto simp: retry_tile_credit split: if_splits, simp add: credit_def total_retries_def)

lemma cleanup_credit: "cleanup_failed_tiles now j = (b, j') \<Longrightarrow> job_inv j \<Longrightarrow> credit j' = credit j"
  unfolding cleanup_failed_tiles_def by (rule cleanup_loop_credit) (auto simp: job_inv_def)

lemma issue_credit:
  assumes "issue_tile now th args j = Some (a, j')" "job_inv j"
  shows "credit j' = credit j - 1"
  using assms by (cases rule: issue_tileE) (simp add: credit_def total_retries_def)

lemma fetch_credit:
  assumes "fetch_ready_tile now th empty_proto_args j = Inr (a, j')" "job_inv j"
  shows "credit j' + int (issued [Fetched a]) = credit j"
  using assms(1)
proof (cases rule: fetch_cases)
  case 2
  then show ?thesis using cleanup_credit [of now j] assms(2) by (cases "cleanup_failed_tiles now j") auto
next
  case (3 x)
  then show ?thesis using issue_credit assms(2) by auto
next
  case (4 x j1)
  then show ?thesis
    using issue_credit [OF 4(5) cleanup_inv [OF 4(4) assms(2) 4(3)]] cleanup_credit [OF 4(4) assms(2)] by simp
qed auto

lemma step_credit:
  assumes "job_step rd j e j'" "job_inv j"
  shows "credit j' + int (issued [e]) = credit j"
  using assms(1)
proof cases
  case (check now)
  have "(\<lambda>t. dt_retries (if timed_out now t then t\<lparr>dt_end_time := x, dt_status := y\<rparr> else t)) = dt_retries" for x y
    by (rule ext) simp
  then show ?thesis by (simp add: check credit_def total_retries_def check_time_tile_def comp_def)
next
  case (fail tid now)
  then show ?thesis by (simp add: credit_def total_retries_def set_tile_failed_def set_failed_def nat_less_iff)
next
  case (fetch now th a)
  then show ?thesis using fetch_credit assms(2) by blast
next
  case (combine now r ok)
  have "issued [e] = 0" using combine(1) by (cases ok) auto
  moreover from combine(2) have "credit j' = credit j"
    by (cases rule: CombineProfile_cases) (auto simp: credit_def total_retries_def set_finished_def)
  ultimately show ?thesis by simp
next
  case (poll now b)
  then show ?thesis by (auto simp: is_done_def credit_def total_retries_def split: if_splits)
next
  case (ask now b)
  then show ?thesis using cleanup_credit [of now j] assms(2) by (auto simp: has_work_def split: if_splits prod.splits)
qed

lemma run_credit: "job_run rd j0 es j \<Longrightarrow> job_inv j0 \<Longrightarrow> credit j + int (issued es) = credit j0"
proof (induction rule: job_run.induct)
  case (step es j e j')
  then show ?case using step_credit [of rd j e j'] job_run_inv by fastforce
qed simp

lemma retries_bound:
  assumes "job_inv j"
  shows "total_retries j \<le> 4 * int (length (j_tiles j))"
proof -
  have "dt_retries t \<le> 4" if "t \<in> set (j_tiles j)" for t
    using assms that by (auto simp: job_inv_def tile_ok_def MAX_TILE_RETRIES_def in_set_conv_nth)
  then have "sum_list (map dt_retries ts) \<le> 4 * int (length ts)" if "set ts \<subseteq> set (j_tiles j)" for ts
    using that by (induction ts) (auto simp: algebra_simps, fastforce)
  then show ?thesis by (simp add: total_retries_def)
qed

text \<open>
  C33. In every run a job hands out at most five times as many tiles as it has: each once, and at most four
  times again (\<open>retries > MAX_TILE_RETRIES\<close> lets a fourth retry pass). Workers cannot be kept busy forever.
\<close>

theorem issued_bounded:
  assumes "double_rounding rd" "valid_job a" "map_order ord" "make_job rd ord a jid now = Inr j0" "job_run rd j0 es j"
  shows "issued es \<le> 5 * length (j_tiles j0)"
proof -
  note m = made_job [OF assms(1,2,4)] and I0 = made_job_inv [OF assms(1-4)]
  have I: "job_inv j" and s: "length (j_tiles j) = length (j_tiles j0)"
    using job_run_inv [OF assms(5) I0] same_job_length by auto
  have "dt_retries t = 0" if "t \<in> set (j_tiles j0)" for t
    using that m(2,8) by (auto simp: in_set_conv_nth job_tile_def new_tile_def DistributedTile_init_def)
  then have "map dt_retries (j_tiles j0) = map (\<lambda>t. 0) (j_tiles j0)" by simp
  then have "total_retries j0 = 0" by (simp only: total_retries_def) simp
  then have "credit j0 = int (length (j_tiles j0))" using m(2,5) by (simp add: credit_def)
  moreover have "credit j \<ge> - (4 * int (length (j_tiles j)))" using retries_bound [OF I] by (simp add: credit_def)
  ultimately show ?thesis using run_credit [OF assms(5) I0] s by linarith
qed

subsection \<open>Handing out never fails\<close>

lemma job_tile_bounds:
  assumes "valid_job a" "k < length (pairs_of a)" "tile_plan t = tile_plan (job_tile a k)"
  shows "0 \<le> dt_row t * p_distributed_tile_size a" "0 \<le> dt_col t * p_distributed_tile_size a"
    "0 < dt_height t" "0 < dt_width t"
    "dt_row t * p_distributed_tile_size a + dt_height t \<le> matrix_rows a"
    "dt_col t * p_distributed_tile_size a + dt_width t \<le> matrix_cols a"
proof -
  obtain r c where p: "pairs_of a ! k = (r, c)" by (cases "pairs_of a ! k")
  then have "(r, c) \<in> set (pairs_of a)" using assms(2) by (metis nth_mem)
  note b = pairs_of_bounds [OF assms(1) this]
  have sz: "0 < p_distributed_tile_size a" using assms(1) by (simp add: valid_job_def)
  have t: "dt_row t = r" "dt_col t = c"
    "dt_height t = min (p_distributed_tile_size a) (matrix_rows a - r * p_distributed_tile_size a)"
    "dt_width t = min (p_distributed_tile_size a) (matrix_cols a - c * p_distributed_tile_size a)"
    using job_tile_fields [OF assms(1,2) p] assms(3) by (auto simp: tile_plan_def)
  show "0 \<le> dt_row t * p_distributed_tile_size a" "0 \<le> dt_col t * p_distributed_tile_size a"
    "0 < dt_height t" "0 < dt_width t"
    "dt_row t * p_distributed_tile_size a + dt_height t \<le> matrix_rows a"
    "dt_col t * p_distributed_tile_size a + dt_width t \<le> matrix_cols a"
    using b sz unfolding t by auto
qed

text \<open>A state of a valid job: what the runs keep.\<close>

definition job_state :: "ProtoArgs \<Rightarrow> Job \<Rightarrow> bool" where
  "job_state a j \<longleftrightarrow> job_inv j \<and> length (j_tiles j) = length (pairs_of a) \<and> args_plan (j_args j) = args_plan a
     \<and> j_distributed_tile_size j = p_distributed_tile_size a
     \<and> (\<forall>k < length (pairs_of a). tile_plan (j_tiles j ! k) = tile_plan (job_tile a k))"

lemma same_job_fields:
  assumes "same_job j j'"
  shows "args_plan (j_args j') = args_plan (j_args j)" "j_distributed_tile_size j' = j_distributed_tile_size j"
  using assms unfolding same_job_def job_plan_def by (cases j; cases j'; simp)+

lemma job_state_same: "job_state a j \<Longrightarrow> same_job j j' \<Longrightarrow> job_inv j' \<Longrightarrow> job_state a j'"
  using same_job_fields [of j j'] same_job_length [of j j'] same_job_tile [of j j'] by (simp add: job_state_def)

lemma made_job_state:
  assumes "double_rounding rd" "valid_job a" "map_order ord" "make_job rd ord a jid now = Inr j"
  shows "job_state a j"
  using made_job [OF assms(1,2,4)] made_job_inv [OF assms] by (simp add: job_state_def)

lemma run_job_state: "job_run rd j0 es j \<Longrightarrow> job_state a j0 \<Longrightarrow> job_state a j"
  using job_run_inv [of rd j0 es j] job_state_same [of a j0 j] by (simp add: job_state_def)

lemma issue_total:
  assumes "valid_job a" "job_state a j" "j_ready_queue j \<noteq> []" "u64 th \<noteq> 0"
  shows "\<exists>x. issue_tile now th empty_proto_args j = Some x"
proof -
  obtain k q where q: "j_ready_queue j = k # q" using assms(3) by (cases "j_ready_queue j") auto
  have k: "k < length (j_tiles j)" "k < length (pairs_of a)" using assms(2) q by (auto simp: job_state_def job_inv_def)
  have p: "tile_plan (j_tiles j ! k) = tile_plan (job_tile a k)" "args_plan (j_args j) = args_plan a"
    using assms(2) k by (auto simp: job_state_def)
  note b = job_tile_bounds [OF assms(1) k(2) p(1)] and f = args_plan_fields [OF p(2)]
  have "\<exists>x. generate_args (j_args j) (j_tiles j ! k) empty_proto_args = Some x"
  proof -
    have "dt_col (j_tiles j ! k) * p_distributed_tile_size a + dt_width (j_tiles j ! k) + p_window a - 1 \<le> size_of (p_timeseries_a a)"
      using b(6) by (simp add: matrix_cols_def)
    moreover have "dt_row (j_tiles j ! k) * p_distributed_tile_size a + dt_height (j_tiles j ! k) + p_window a - 1
        \<le> size_of (if p_has_b a then p_timeseries_b a else p_timeseries_a a)"
      using b(5) by (simp add: matrix_rows_def matrix_cols_def split: if_splits)
    ultimately show ?thesis
      using generate_args_Some [of "j_tiles j ! k" "j_args j" empty_proto_args] b(1,2)
      by (simp add: f cong: if_cong)
  qed
  then show ?thesis using assms(4) k(1) by (auto simp: issue_tile_def q tile_timeout_def Let_def)
qed

lemma fetch_issues:
  assumes "valid_job a" "job_state a j" "j_status j = JOB_STATUS_RUNNING" "j_ready_queue j \<noteq> []" "u64 th \<noteq> 0"
  shows "\<exists>x j'. fetch_ready_tile now th empty_proto_args j = Inr (Some x, j')"
  using issue_total [OF assms(1,2,4,5), of now] assms(3,4) by (auto simp: fetch_ready_tile_def Let_def)

text \<open>
  Requesting a tile never leads to undefined behaviour or an exception, in any state a job can reach,
  for every throughput but 0: the series are read within their bounds.
\<close>

theorem fetch_total:
  assumes "double_rounding rd" "valid_job a" "map_order ord" "make_job rd ord a jid now = Inr j0" "job_run rd j0 es j"
    "u64 th \<noteq> 0"
  shows "\<exists>x j'. fetch_ready_tile t th empty_proto_args j = Inr (x, j')"
proof -
  have st: "job_state a j" using run_job_state [OF assms(5) made_job_state [OF assms(1-4)]] .
  have I: "job_inv j" using st by (simp add: job_state_def)
  obtain b j1 where c: "cleanup_failed_tiles t j = (b, j1)" by (cases "cleanup_failed_tiles t j")
  have st1: "j_ready_queue j = [] \<Longrightarrow> job_state a j1"
    using job_state_same [OF st] cleanup_same [OF c I] cleanup_inv [OF c I] by blast
  have "j_ready_queue j1 \<noteq> [] \<Longrightarrow> j_ready_queue j = [] \<Longrightarrow> \<exists>x. issue_tile t th empty_proto_args j1 = Some x"
    by (rule issue_total [OF assms(2) st1 _ assms(6)])
  moreover have "j_ready_queue j \<noteq> [] \<Longrightarrow> \<exists>x. issue_tile t th empty_proto_args j = Some x"
    by (rule issue_total [OF assms(2) st _ assms(6)])
  ultimately show ?thesis by (cases "j_ready_queue j = []") (auto simp: fetch_ready_tile_def Let_def c)
qed

subsection \<open>A job is never stuck\<close>

lemma cleanup_loop_queue:
  assumes "cleanup_loop now ks j = (True, j')" "k \<in> set (j_ready_queue j) \<or> k \<in> set ks \<and> dt_status (j_tiles j ! k) = TILE_STATUS_FAILED"
  shows "k \<in> set (j_ready_queue j')"
  using assms by (induction now ks j arbitrary: j' rule: cleanup_loop.induct) (auto split: if_splits)

text \<open>
  C32. A running job that has not merged everything and has no tile at a worker is not stuck: when it is
  asked for work it fails for good (a tile was retried too often), or the next request gets a tile.
\<close>

theorem job_never_stuck:
  assumes "double_rounding rd" "valid_job a" "map_order ord" "make_job rd ord a jid now = Inr j0" "job_run rd j0 es j"
    "u64 th \<noteq> 0" "j_status j = JOB_STATUS_RUNNING" "has_work t j = (b, j')"
  shows "(\<forall>k < length (j_tiles j). dt_status (j_tiles j ! k) = TILE_STATUS_FINISHED)
    \<or> (\<exists>k < length (j_tiles j). dt_status (j_tiles j ! k) = TILE_STATUS_RUNNING)
    \<or> j_status j' = JOB_STATUS_FAILED
    \<or> (\<exists>x j''. fetch_ready_tile t' th empty_proto_args j' = Inr (Some x, j''))"
proof -
  have st: "job_state a j" using run_job_state [OF assms(5) made_job_state [OF assms(1-4)]] .
  have I: "job_inv j" using st by (simp add: job_state_def)
  have st': "job_state a j'" using job_state_same [OF st] has_work_inv [OF assms(8) I] by blast
  consider "\<forall>k < length (j_tiles j). dt_status (j_tiles j ! k) = TILE_STATUS_FINISHED"
    | "\<exists>k < length (j_tiles j). dt_status (j_tiles j ! k) = TILE_STATUS_RUNNING"
    | k where "k < length (j_tiles j)" "dt_status (j_tiles j ! k) \<in> {TILE_STATUS_READY, TILE_STATUS_FAILED}"
    using I unfolding job_inv_def tile_ok_def by (metis TileStatus.exhaust insertCI)
  then show ?thesis
  proof cases
    case (3 k)
    have "j_ready_queue j' \<noteq> []" if "j_status j' \<noteq> JOB_STATUS_FAILED"
    proof (cases "j_ready_queue j = []")
      case True
      then have f: "k \<in> set (j_tile_order j)" "dt_status (j_tiles j ! k) = TILE_STATUS_FAILED"
        using 3 I by (auto simp: job_inv_def tile_ok_def)
      obtain c where "cleanup_failed_tiles t j = (c, j')" using True assms(7,8) by (auto simp: has_work_def split: prod.splits)
      then show ?thesis using f that cleanup_finished [of t j c j'] cleanup_loop_queue [of t "j_tile_order j" j j' k]
        by (cases c) (auto simp: cleanup_failed_tiles_def)
    next
      case False
      then show ?thesis using assms(7,8) by (auto simp: has_work_def)
    qed
    moreover have "j_status j' = JOB_STATUS_FAILED \<or> j_status j' = JOB_STATUS_RUNNING"
      using assms(7,8) cleanup_finished [of t j] by (auto simp: has_work_def split: if_splits prod.splits)
    ultimately show ?thesis using fetch_issues [OF assms(2) st' _ _ assms(6), of t'] by blast
  qed auto
qed

text \<open>
  The answer of \<open>has_work\<close> after retries is inverted: with an empty queue it is true only if the job has
  just failed, with other tiles queued before the failure was found; tiles queued again for a job that
  goes on are only noticed by the next request.
\<close>

theorem has_work_after_retries:
  assumes "j_status j = JOB_STATUS_RUNNING" "j_ready_queue j = []" "has_work now j = (b, j')"
  shows "b \<longleftrightarrow> j_status j' = JOB_STATUS_FAILED \<and> j_ready_queue j' \<noteq> []"
  using assms cleanup_finished [of now j] by (auto simp: has_work_def split: prod.splits)

end
