(* ===== verification/DistProfile.thy ===== *)
theory DistProfile
  imports DistProgress ProfileFacts
begin

text \<open>
  The profile a job computes. The contract of the workers is that the profile they return for a tile is
  the best match within the cells of the tile; the job then ends with the best match within the whole
  distance matrix, whatever the order of the results, the retries, and the results that arrive twice.

  The locale \<open>max_profile\<close> is the interface of the two profile types that keep a maximum: how the values are
  wrapped in a message, how they are compared, and how an index local to a tile becomes a global one.
\<close>

subsection \<open>The best of a set of candidates\<close>

definition best_of :: "('e \<Rightarrow> fp) \<Rightarrow> 'e \<Rightarrow> 'e set \<Rightarrow> 'e \<Rightarrow> bool" where
  "best_of key sentinel_entry S e \<longleftrightarrow> (e = sentinel_entry \<or> e \<in> S) \<and> (\<forall>x \<in> S. \<not> flt (key e) (key x)) \<and> fle (Fin (-2)) (key e)"

text \<open>The same within a tile, whose entries have local indices: below the initial value anything goes.\<close>

definition tile_best :: "('e \<Rightarrow> fp) \<Rightarrow> (int \<Rightarrow> 'e \<Rightarrow> 'e) \<Rightarrow> int \<Rightarrow> 'e set \<Rightarrow> 'e \<Rightarrow> bool" where
  "tile_best key shift off S e \<longleftrightarrow> (\<forall>x \<in> S. \<not> flt (key e) (key x)) \<and> \<not> is_nan (key e)
     \<and> (flt (Fin (-2)) (key e) \<longrightarrow> shift off e \<in> S)"

definition keep_best :: "('e \<Rightarrow> fp) \<Rightarrow> (int \<Rightarrow> 'e \<Rightarrow> 'e) \<Rightarrow> int \<Rightarrow> 'e \<Rightarrow> 'e \<Rightarrow> 'e" where
  "keep_best key shift off x y = (if flt (key x) (key y) then shift off y else x)"

text \<open>
  \<open>cand i c\<close> are the entries that row \<open>i\<close> of the distance matrix offers to column \<open>c\<close> of the profile: none
  for a pair in the exclusion zone or with an unclean window. The rows of a tile of a self join are
  columns of the profile as well.
\<close>

definition tile_rows_at :: "ProtoArgs \<Rightarrow> DistributedTile \<Rightarrow> int \<Rightarrow> int set" where
  "tile_rows_at a t c = {i. (i, c) \<in> job_cells (p_distributed_tile_size a) t
     \<or> \<not> p_has_b a \<and> (c, i) \<in> job_cells (p_distributed_tile_size a) t}"

definition result_ok ::
  "(ProtoData \<Rightarrow> 'e list) \<Rightarrow> ProtoProfileType \<Rightarrow> ('e \<Rightarrow> fp) \<Rightarrow> (int \<Rightarrow> 'e \<Rightarrow> 'e) \<Rightarrow> (int \<Rightarrow> int \<Rightarrow> 'e set)
    \<Rightarrow> ProtoArgs \<Rightarrow> DistributedTile \<Rightarrow> ProtoArgs \<Rightarrow> bool" where
  "result_ok unwrap ty key shift cand a t r \<longleftrightarrow>
     (let row0 = dt_row t * p_distributed_tile_size a; col0 = dt_col t * p_distributed_tile_size a;
          rows = {row0..<row0 + dt_height t}; cols = {col0..<col0 + dt_width t}
      in (\<exists>d ds. p_profile_a r = \<lparr>pdata = d # ds, ptype = ty\<rparr>
            \<and> (\<forall>c < nat (dt_width t). tile_best key shift row0 (\<Union>i \<in> rows. cand i (col0 + int c)) (unwrap d ! c)))
       \<and> (\<not> p_has_b a \<and> dt_row t \<noteq> dt_col t \<longrightarrow> (\<exists>d ds. p_profile_b r = \<lparr>pdata = d # ds, ptype = ty\<rparr>
            \<and> (\<forall>i < nat (dt_height t). tile_best key shift col0 (\<Union>c \<in> cols. cand c (row0 + int i)) (unwrap d ! i)))))"

text \<open>All results a job accepted were right.\<close>

definition results_ok ::
  "(ProtoData \<Rightarrow> 'e list) \<Rightarrow> ProtoProfileType \<Rightarrow> ('e \<Rightarrow> fp) \<Rightarrow> (int \<Rightarrow> 'e \<Rightarrow> 'e) \<Rightarrow> (int \<Rightarrow> int \<Rightarrow> 'e set)
    \<Rightarrow> ProtoArgs \<Rightarrow> job_event list \<Rightarrow> bool" where
  "results_ok unwrap ty key shift cand a es \<longleftrightarrow> (\<forall>r. Combined True r \<in> set es \<longrightarrow>
     result_ok unwrap ty key shift cand a (job_tile a (nat (i32 (p_tile_id r)))) r)"

definition job_profile ::
  "('e list \<Rightarrow> ProtoData) \<Rightarrow> ProtoProfileType \<Rightarrow> ('e \<Rightarrow> fp) \<Rightarrow> 'e \<Rightarrow> (int \<Rightarrow> 'e set) \<Rightarrow> int \<Rightarrow> ProtoProfile \<Rightarrow> bool" where
  "job_profile wrap ty key sentinel_entry S w p \<longleftrightarrow> (\<exists>v. p = \<lparr>pdata = [wrap v], ptype = ty\<rparr> \<and> int (length v) = w
     \<and> (\<forall>c < length v. best_of key sentinel_entry (S (int c)) (v ! c)))"

lemma best_merge:
  assumes "best_of key s S x" "tile_best key shift off T y" "\<And>e. key (shift off e) = key e"
  shows "best_of key s (S \<union> T) (keep_best key shift off x y)"
proof (cases "flt (key x) (key y)")
  case True
  have x: "fle (Fin (-2)) (key x)" "\<And>z. z \<in> S \<Longrightarrow> \<not> flt (key x) (key z)" using assms(1) by (auto simp: best_of_def)
  have "flt (Fin (-2)) (key y)" using fle_flt_trans [OF x(1) True] .
  moreover have "\<not> flt (key y) (key z)" if "z \<in> S" for z using x(2) [OF that] flt_trans [OF True] by blast
  ultimately show ?thesis
    using True assms(2) flt_imp_fle by (auto simp: keep_best_def best_of_def tile_best_def assms(3))
next
  case False
  have y: "\<not> is_nan (key y)" "\<And>z. z \<in> T \<Longrightarrow> \<not> flt (key y) (key z)" using assms(2) by (auto simp: tile_best_def)
  have "\<not> flt (key x) (key z)" if "z \<in> T" for z
    using y(2) [OF that] False y(1) flt_not_nan not_flt flt_fle_trans by metis
  then show ?thesis using False assms(1) by (auto simp: keep_best_def best_of_def)
qed

lemma tile_rows_at_partition:
  assumes "valid_job a" "0 \<le> c" "c < matrix_cols a"
  shows "(\<Union>k < length (pairs_of a). tile_rows_at a (job_tile a k) c) = {0..<matrix_rows a}"
proof (intro equalityI subsetI)
  fix i assume "i \<in> {0..<matrix_rows a}"
  then have i: "0 \<le> i" "i < matrix_rows a" by auto
  obtain j :: Job where j: "make_job exact (\<lambda>n. [0..<n]) a 0 0 = Inr j"
      "\<exists>!k. k < length (j_tiles j) \<and> ((i, c) \<in> job_cells (p_distributed_tile_size a) (j_tiles j ! k)
        \<or> \<not> p_has_b a \<and> (c, i) \<in> job_cells (p_distributed_tile_size a) (j_tiles j ! k))"
    using job_tiles_cover [OF double_rounding_exact assms(1) i assms(2,3)] by metis
  then show "i \<in> (\<Union>k < length (pairs_of a). tile_rows_at a (job_tile a k) c)"
    using made_job(2,8) [OF double_rounding_exact assms(1) j(1)] by (fastforce simp: tile_rows_at_def)
next
  fix i assume "i \<in> (\<Union>k < length (pairs_of a). tile_rows_at a (job_tile a k) c)"
  then obtain k where k: "k < length (pairs_of a)" "i \<in> tile_rows_at a (job_tile a k) c" by auto
  note b = job_tile_bounds [OF assms(1) k(1) refl]
  show "i \<in> {0..<matrix_rows a}"
    using k(2) b by (auto simp: tile_rows_at_def job_cells_def matrix_rows_def)
qed

lemma result_ok_plan:
  "tile_plan t' = tile_plan t \<Longrightarrow> result_ok u ty key shift cand a t' r = result_ok u ty key shift cand a t r"
  by (simp add: result_ok_def tile_plan_def)

lemma tile_rows_at_cases:
  assumes "valid_job a" "k < length (pairs_of a)" "t = job_tile a k" "sz = p_distributed_tile_size a"
  shows "tile_rows_at a t c =
    (if dt_col t * sz \<le> c \<and> c < dt_col t * sz + dt_width t then {dt_row t * sz..<dt_row t * sz + dt_height t} else {})
    \<union> (if \<not> p_has_b a \<and> dt_row t \<noteq> dt_col t \<and> dt_row t * sz \<le> c \<and> c < dt_row t * sz + dt_height t
       then {dt_col t * sz..<dt_col t * sz + dt_width t} else {})"
proof -
  obtain r q where p: "pairs_of a ! k = (r, q)" by (cases "pairs_of a ! k")
  note f = job_tile_fields [OF assms(1,2) p]
  have "\<not> p_has_b a \<Longrightarrow> dt_row t = dt_col t \<Longrightarrow> dt_height t = dt_width t"
    using f by (simp add: assms(3) matrix_rows_def)
  then show ?thesis by (auto simp: tile_rows_at_def job_cells_def assms(4))
qed

subsection \<open>The interface of a profile that keeps a maximum\<close>

locale max_profile =
  fixes wrap :: "'e list \<Rightarrow> ProtoData" and unwrap :: "ProtoData \<Rightarrow> 'e list" and ty :: ProtoProfileType
    and key :: "'e \<Rightarrow> fp" and shift :: "int \<Rightarrow> 'e \<Rightarrow> 'e" and sentinel_entry :: 'e
  assumes unwrap_wrap: "unwrap (wrap v) = v"
    and key_shift: "key (shift off e) = key e"
    and key_sentinel: "key sentinel_entry = Fin (-2)"
    and profile_size: "GetProfileSize \<lparr>pdata = d # ds, ptype = ty\<rparr> = Inr (size_of (unwrap d))"
    and initial: "pdata p = [] \<Longrightarrow> 0 < n \<Longrightarrow>
      InitProtoProfile p ty n = \<lparr>pdata = [wrap (replicate (nat n) sentinel_entry)], ptype = ty\<rparr>"
    and merge_max: "0 \<le> pos \<Longrightarrow> 0 \<le> len \<Longrightarrow> pos + len \<le> int (length v) \<Longrightarrow> len \<le> int (length (unwrap d)) \<Longrightarrow>
      MergeTileIntoFullProfile rd \<lparr>pdata = d # ds, ptype = ty'\<rparr> pos len \<lparr>pdata = [wrap v], ptype = ty\<rparr> off =
        Inr \<lparr>pdata = [wrap (merged (keep_best key shift off) pos len (unwrap d) v)], ptype = ty\<rparr>"
begin

lemma initial_profile:
  assumes "pdata p = []" "0 < n"
  shows "job_profile wrap ty key sentinel_entry (\<lambda>c. {}) n (InitProtoProfile p ty n)"
  using assms by (auto simp: initial job_profile_def best_of_def key_sentinel)

lemma merge_into:
  assumes p: "job_profile wrap ty key sentinel_entry S w p"
    and d: "q = \<lparr>pdata = d # ds, ptype = ty'\<rparr>" "0 \<le> pos" "0 \<le> len" "pos + len \<le> w" "len \<le> int (length (unwrap d))"
    and t: "\<And>c. c < nat len \<Longrightarrow> tile_best key shift off (T (pos + int c)) (unwrap d ! c)"
  shows "\<exists>p'. MergeTileIntoFullProfile rd q pos len p off = Inr p' \<and>
    job_profile wrap ty key sentinel_entry (\<lambda>c. S c \<union> (if pos \<le> c \<and> c < pos + len then T c else {})) w p'"
proof -
  obtain v where v: "p = \<lparr>pdata = [wrap v], ptype = ty\<rparr>" "int (length v) = w"
    "\<And>c. c < length v \<Longrightarrow> best_of key sentinel_entry (S (int c)) (v ! c)"
    using p by (auto simp: job_profile_def)
  let ?m = "merged (keep_best key shift off) pos len (unwrap d) v"
  have "best_of key sentinel_entry (S (int c) \<union> (if pos \<le> int c \<and> int c < pos + len then T (int c) else {})) (?m ! c)"
    if "c < length v" for c
  proof (cases "pos \<le> int c \<and> int c < pos + len")
    case True
    then have "pos + int (c - nat pos) = int c" "c - nat pos < nat len" using d(2) by auto
    then have "tile_best key shift off (T (int c)) (unwrap d ! (c - nat pos))" using t [of "c - nat pos"] by (simp only:)
    then have "best_of key sentinel_entry (S (int c) \<union> T (int c)) (keep_best key shift off (v ! c) (unwrap d ! (c - nat pos)))"
      by (rule best_merge [OF v(3) [OF that]]) (rule key_shift)
    then show ?thesis using True that by (simp only: merged_nth if_True simp_thms)
  next
    case False
    then show ?thesis using v(3) [OF that] that by (simp only: merged_nth if_False Un_empty_right)
  qed
  then have "job_profile wrap ty key sentinel_entry (\<lambda>c. S c \<union> (if pos \<le> c \<and> c < pos + len then T c else {})) w
      \<lparr>pdata = [wrap ?m], ptype = ty\<rparr>"
    using v(2) unfolding job_profile_def by (intro exI [of _ ?m]) simp
  then show ?thesis using merge_max [of pos len v d] d v(1,2) by auto
qed

lemma merge_result:
  assumes a: "valid_job a" "\<not> p_keep_rows_separate a" "args_plan a' = args_plan a"
    and k: "k < length (pairs_of a)" "tile_plan t = tile_plan (job_tile a k)" "tile_ok a q t" "dt_has_args t"
    and r: "result_sizes t r" "result_ok unwrap ty key shift cand a (job_tile a k) r"
    and p: "job_profile wrap ty key sentinel_entry S (matrix_cols a) (p_profile_a a')"
  shows "\<exists>a''. merge_args rd t r a' = Inr a'' \<and>
    job_profile wrap ty key sentinel_entry (\<lambda>c. S c \<union> (\<Union>i \<in> tile_rows_at a (job_tile a k) c. cand i c)) (matrix_cols a) (p_profile_a a'')"
proof -
  let ?sz = "p_distributed_tile_size a" and ?R = "\<lambda>i. dt_row t * p_distributed_tile_size a \<le> i \<and> i < dt_row t * p_distributed_tile_size a + dt_height t"
  let ?rows = "{dt_row t * ?sz..<dt_row t * ?sz + dt_height t}" and ?cols = "{dt_col t * ?sz..<dt_col t * ?sz + dt_width t}"
  note b = job_tile_bounds [OF a(1) k(1,2)] and f = args_plan_fields [OF a(3)]
  have ta: "dt_args t = tile_args_of t a empty_proto_args" "dt_start_row t = dt_row t * ?sz" "dt_start_col t = dt_col t * ?sz"
    using k(3,4) by (auto simp: tile_ok_def)
  have ok: "result_ok unwrap ty key shift cand a t r" using r(2) result_ok_plan [OF k(2)] by metis
  have tr: "tile_rows_at a (job_tile a k) c = (if c \<in> ?cols then ?rows else {})
      \<union> (if \<not> p_has_b a \<and> dt_row t \<noteq> dt_col t \<and> c \<in> ?rows then ?cols else {})" for c
    using tile_rows_at_cases [OF a(1) k(1) refl refl, of c] k(2) by (simp add: tile_plan_def)
  obtain d ds where d: "p_profile_a r = \<lparr>pdata = d # ds, ptype = ty\<rparr>"
    "\<And>c. c < nat (dt_width t) \<Longrightarrow> tile_best key shift (dt_row t * ?sz) (\<Union>i \<in> ?rows. cand i (dt_col t * ?sz + int c)) (unwrap d ! c)"
    using ok by (auto simp: result_ok_def Let_def)
  have len: "int (length (unwrap d)) = dt_width t"
    using r(1) profile_size [of d ds] by (simp add: result_sizes_def d(1) size_of_def)
  obtain pa where pa: "MergeTileIntoFullProfile rd (p_profile_a r) (dt_col t * ?sz) (dt_width t) (p_profile_a a') (dt_row t * ?sz) = Inr pa"
    "job_profile wrap ty key sentinel_entry (\<lambda>c. S c \<union> (if dt_col t * ?sz \<le> c \<and> c < dt_col t * ?sz + dt_width t
       then \<Union>i \<in> ?rows. cand i c else {})) (matrix_cols a) pa"
    using merge_into [OF p d(1) b(2) _ b(6), of "dt_row t * ?sz" "\<lambda>c. \<Union>i \<in> ?rows. cand i c" rd] b(4) len d(2) by auto
  show ?thesis
  proof (cases "\<not> p_has_b a \<and> dt_row t \<noteq> dt_col t")
    case False
    then have "merge_args rd t r a' = Inr (a'\<lparr>p_profile_a := pa\<rparr>)"
      using a(2) pa(1) by (auto simp: merge_args_def MergeJobProfile_def ta f Let_def)
    moreover have "S c \<union> (if dt_col t * ?sz \<le> c \<and> c < dt_col t * ?sz + dt_width t then \<Union>i \<in> ?rows. cand i c else {})
      = S c \<union> (\<Union>i \<in> tile_rows_at a (job_tile a k) c. cand i c)" for c
      unfolding tr using False by auto
    ultimately show ?thesis using pa(2) by simp
  next
    case True
    obtain e es where e: "p_profile_b r = \<lparr>pdata = e # es, ptype = ty\<rparr>"
      "\<And>i. i < nat (dt_height t) \<Longrightarrow> tile_best key shift (dt_col t * ?sz) (\<Union>c \<in> ?cols. cand c (dt_row t * ?sz + int i)) (unwrap e ! i)"
      using ok True by (auto simp: result_ok_def Let_def)
    have keep: "p_keep_rows_separate (dt_args t)" using True by (simp add: ta)
    have lene: "int (length (unwrap e)) = dt_height t"
      using r(1) keep profile_size [of e es] by (simp add: result_sizes_def e(1) size_of_def)
    have rc: "matrix_rows a = matrix_cols a" using True by (simp add: matrix_rows_def)
    obtain pb where pb: "MergeTileIntoFullProfile rd (p_profile_b r) (dt_row t * ?sz) (dt_height t) pa (dt_col t * ?sz) = Inr pb"
      "job_profile wrap ty key sentinel_entry (\<lambda>c. (S c \<union> (if dt_col t * ?sz \<le> c \<and> c < dt_col t * ?sz + dt_width t
         then \<Union>i \<in> ?rows. cand i c else {})) \<union> (if dt_row t * ?sz \<le> c \<and> c < dt_row t * ?sz + dt_height t
         then \<Union>i \<in> ?cols. cand i c else {})) (matrix_cols a) pb"
      using merge_into [OF pa(2) e(1) b(1) _ b(5) [unfolded rc], of "dt_col t * ?sz" "\<lambda>c. \<Union>i \<in> ?cols. cand i c" rd] b(3) lene e(2) by auto
    have "merge_args rd t r a' = Inr (a'\<lparr>p_profile_a := pb\<rparr>)"
      using a(2) pa(1) pb(1) True keep by (simp add: merge_args_def MergeJobProfile_def ta(2,3) f Let_def)
    moreover have "(S c \<union> (if dt_col t * ?sz \<le> c \<and> c < dt_col t * ?sz + dt_width t then \<Union>i \<in> ?rows. cand i c else {}))
        \<union> (if dt_row t * ?sz \<le> c \<and> c < dt_row t * ?sz + dt_height t then \<Union>i \<in> ?cols. cand i c else {})
      = S c \<union> (\<Union>i \<in> tile_rows_at a (job_tile a k) c. cand i c)" for c
      unfolding tr using True by auto
    ultimately show ?thesis using pb(2) by simp
  qed
qed

text \<open>A run keeps the best match of the tiles merged so far; a finished job has merged all of them.\<close>

definition covers :: "(int \<Rightarrow> int \<Rightarrow> 'e set) \<Rightarrow> ProtoArgs \<Rightarrow> nat set \<Rightarrow> Job \<Rightarrow> bool" where
  "covers cand a K j \<longleftrightarrow> finished_tiles (j_tiles j) \<subseteq> K \<and> K \<subseteq> {..<length (pairs_of a)}
     \<and> (j_status j = JOB_STATUS_FINISHED \<longrightarrow> K = {..<length (pairs_of a)})
     \<and> job_profile wrap ty key sentinel_entry (\<lambda>c. \<Union>k \<in> K. \<Union>i \<in> tile_rows_at a (job_tile a k) c. cand i c)
         (matrix_cols a) (p_profile_a (j_args j))"

lemma covers_mono:
  assumes "covers cand a K j" "j_args j' = j_args j" "finished_tiles (j_tiles j') \<subseteq> finished_tiles (j_tiles j)"
    "j_status j' = JOB_STATUS_FINISHED \<longrightarrow> j_status j = JOB_STATUS_FINISHED"
  shows "covers cand a K j'"
  using assms by (auto simp: covers_def)

lemma covers_combine:
  assumes a: "valid_job a" "\<not> p_keep_rows_separate a" and st: "job_state a j" and cov: "covers cand a K j"
    and c: "CombineProfile rd now r j = Inr (ok, j')" "ok \<longrightarrow> result_ok unwrap ty key shift cand a (job_tile a (nat (i32 (p_tile_id r)))) r"
  shows "\<exists>K'. covers cand a K' j'"
  using c(1)
proof (cases rule: CombineProfile_cases)
  case 1
  then show ?thesis using cov by blast
next
  case (2 k t args)
  have k: "k < length (pairs_of a)" "tile_plan t = tile_plan (job_tile a k)" "tile_ok a (k \<in> set (j_ready_queue j)) t" "dt_has_args t"
    "args_plan (j_args j) = args_plan a"
  proof -
    have st': "job_inv j" "length (j_tiles j) = length (pairs_of a)" "args_plan (j_args j) = args_plan a"
      "\<And>k. k < length (pairs_of a) \<Longrightarrow> tile_plan (j_tiles j ! k) = tile_plan (job_tile a k)"
      using st by (simp_all add: job_state_def)
    show "args_plan (j_args j) = args_plan a" by (rule st'(3))
    show "k < length (pairs_of a)" "tile_plan t = tile_plan (job_tile a k)" "dt_has_args t"
      using 2 st'(2,4) by (simp_all add: tile_accepts_def)
    have "tile_ok (j_args j) (k \<in> set (j_ready_queue j)) t" using st'(1) 2(2,3) unfolding job_inv_def by blast
    then show "tile_ok a (k \<in> set (j_ready_queue j)) t" using tile_ok_args [OF st'(3)] by simp
  qed
  have ro: "result_ok unwrap ty key shift cand a (job_tile a k) r" using c(2) 2 by simp
  have "job_profile wrap ty key sentinel_entry (\<lambda>c. (\<Union>k \<in> K. \<Union>i \<in> tile_rows_at a (job_tile a k) c. cand i c)
      \<union> (\<Union>i \<in> tile_rows_at a (job_tile a k) c. cand i c)) (matrix_cols a) (p_profile_a args)"
  proof -
    have "job_profile wrap ty key sentinel_entry (\<lambda>c. \<Union>k \<in> K. \<Union>i \<in> tile_rows_at a (job_tile a k) c. cand i c)
        (matrix_cols a) (p_profile_a (j_args j))" using cov by (simp add: covers_def)
    from merge_result [OF a k(5,1-4) 2(6) ro this, of rd] 2(7) show ?thesis by auto
  qed
  moreover have "(\<Union>k \<in> K. \<Union>i \<in> tile_rows_at a (job_tile a k) c. cand i c) \<union> (\<Union>i \<in> tile_rows_at a (job_tile a k) c. cand i c)
      = (\<Union>k \<in> insert k K. \<Union>i \<in> tile_rows_at a (job_tile a k) c. cand i c)" for c
    by (simp add: Un_commute)
  moreover have "finished_tiles (j_tiles j') \<subseteq> insert k K"
    using 2 cov finished_update [of k "j_tiles j" "set_finished (get_current_time now) t"] by (auto simp: covers_def set_finished_def)
  ultimately have "covers cand a (insert k K) j'" using 2 cov k(1) by (auto simp: covers_def)
  then show ?thesis by blast
qed

lemma covers_step:
  assumes a: "valid_job a" "\<not> p_keep_rows_separate a" and st: "job_state a j" and cov: "covers cand a K j"
    and s: "job_step rd j e j'" and ok: "results_ok unwrap ty key shift cand a [e]"
  shows "\<exists>K'. covers cand a K' j'"
  using s
proof cases
  case (check now)
  have "covers cand a K j'" unfolding check
    by (rule covers_mono [OF cov]) (simp_all add: finished_check_time, simp_all add: check_time_tile_def)
  then show ?thesis by blast
next
  case (fail tid now)
  have "finished_tiles (j_tiles j') \<subseteq> finished_tiles (j_tiles j)"
    by (auto simp: fail set_tile_failed_def set_failed_def finished_tiles_def nth_list_update split: if_splits)
  then have "covers cand a K j'" by (rule covers_mono [OF cov, rotated]) (simp_all add: fail set_tile_failed_def)
  then show ?thesis by blast
next
  case (fetch now th a')
  have "job_inv j" using st by (simp add: job_state_def)
  then have "covers cand a K j'"
    using fetch_finished [OF fetch(2)] fetch_inv [OF fetch(2)] by (intro covers_mono [OF cov]) auto
  then show ?thesis by blast
next
  case (combine now r ok')
  have "ok' \<longrightarrow> result_ok unwrap ty key shift cand a (job_tile a (nat (i32 (p_tile_id r)))) r"
    using ok combine(1) by (simp add: results_ok_def)
  from covers_combine [OF a st cov combine(2) this] show ?thesis .
next
  case (poll now b)
  show ?thesis
  proof (cases "j_status j \<noteq> JOB_STATUS_FINISHED \<and> j_status j' = JOB_STATUS_FINISHED")
    case True
    then have "finished_tiles (j_tiles j) = {..<length (pairs_of a)}" "j_tiles j' = j_tiles j" "j_args j' = j_args j"
      using poll st by (auto simp: is_done_def list_all_length finished_tiles_def job_state_def split: if_splits)
    then have "covers cand a K j'" using cov by (auto simp: covers_def)
    then show ?thesis by blast
  next
    case False
    have "covers cand a K j'"
      using False poll by (intro covers_mono [OF cov]) (auto simp: is_done_def split: if_splits)
    then show ?thesis by blast
  qed
next
  case (ask now b)
  have "job_inv j" using st by (simp add: job_state_def)
  then have "covers cand a K j'"
    using has_work_finished [OF ask(2)] has_work_inv [OF ask(2)] by (intro covers_mono [OF cov]) auto
  then show ?thesis by blast
qed

lemma results_ok_append:
  "results_ok u t k s cand a (es @ es') \<longleftrightarrow> results_ok u t k s cand a es \<and> results_ok u t k s cand a es'"
  by (auto simp: results_ok_def)

lemma covers_run:
  assumes "job_run rd j0 es j" "valid_job a" "\<not> p_keep_rows_separate a" "job_state a j0" "covers cand a {} j0"
    "results_ok unwrap ty key shift cand a es"
  shows "\<exists>K. covers cand a K j"
  using assms
proof (induction rule: job_run.induct)
  case (step es j e j')
  then obtain K where "covers cand a K j" by (auto simp: results_ok_append)
  then show ?case
    using covers_step [OF step.prems(1,2) _ _ step.hyps(2)] run_job_state [OF step.hyps(1) step.prems(3)] step.prems(5)
    by (auto simp: results_ok_append)
qed blast

lemma covers_start:
  assumes "double_rounding rd" "valid_job a" "\<not> p_keep_rows_separate a" "p_profile_type a = ty"
    "make_job rd ord a jid now = Inr j"
  shows "covers cand a {} j"
proof -
  note m = made_job [OF assms(1,2,5)]
  have "finished_tiles (j_tiles j) = {}"
    using m(2,8) by (auto simp: finished_tiles_def job_tile_def new_tile_def DistributedTile_init_def)
  moreover have "p_profile_a (j_args j) = InitProtoProfile (p_profile_a a) ty (matrix_cols a)"
    using assms(3,4) by (simp add: m(3) initial_args_def Let_def)
  ultimately show ?thesis
    using initial_profile [of "p_profile_a a" "matrix_cols a"] matrix_sizes [OF assms(2)] assms(2) m(1)
    by (simp add: covers_def valid_job_def)
qed

lemma finished_profile:
  assumes "double_rounding rd" "valid_job a" "map_order ord" "\<not> p_keep_rows_separate a" "p_profile_type a = ty"
    "make_job rd ord a jid now = Inr j0" "job_run rd j0 es j" "results_ok unwrap ty key shift cand a es"
    "j_status j = JOB_STATUS_FINISHED"
  shows "job_profile wrap ty key sentinel_entry (\<lambda>c. \<Union>i \<in> {0..<matrix_rows a}. cand i c) (matrix_cols a) (p_profile_a (j_args j))"
proof -
  obtain K where "covers cand a K j"
    using covers_run [OF assms(7,2,4) made_job_state [OF assms(1-3,6)] covers_start [OF assms(1,2,4,5,6)] assms(8)] by blast
  then have "job_profile wrap ty key sentinel_entry
      (\<lambda>c. \<Union>k < length (pairs_of a). \<Union>i \<in> tile_rows_at a (job_tile a k) c. cand i c) (matrix_cols a) (p_profile_a (j_args j))"
    using assms(9) by (auto simp: covers_def)
  moreover have "(\<Union>k < length (pairs_of a). \<Union>i \<in> tile_rows_at a (job_tile a k) c. cand i c) = (\<Union>i \<in> {0..<matrix_rows a}. cand i c)"
    if "0 \<le> c" "c < matrix_cols a" for c
    using tile_rows_at_partition [OF assms(2) that] by (metis UN_UN_flatten)
  ultimately show ?thesis by (auto simp: job_profile_def)
qed

end

subsection \<open>The two types\<close>

definition shift_index :: "int \<Rightarrow> mp_entry \<Rightarrow> mp_entry" where
  "shift_index off e = e\<lparr>ints1 := ints1 e + word_of_int off\<rparr>"

lemma shift_index_simps [simp]: "floats0 (shift_index off e) = floats0 e"
  by (simp add: shift_index_def)

lemma keep_best_entry: "keep_best floats0 shift_index off = entry_max off"
  by (intro ext) (simp add: keep_best_def shift_index_def entry_max_def)

lemma keep_best_value: "keep_best (\<lambda>x. x) (\<lambda>off x. x) off = std_max"
  by (intro ext) (simp add: keep_best_def std_max_def)

lemma InitProtoProfile_fields:
  "pdata p = [] \<Longrightarrow> 0 < n \<Longrightarrow> InitProtoProfile p P_1NN_INDEX n = \<lparr>pdata = [ULongs (replicate (nat n) init_entry)], ptype = P_1NN_INDEX\<rparr>"
  "pdata p = [] \<Longrightarrow> 0 < n \<Longrightarrow> InitProtoProfile p P_1NN n = \<lparr>pdata = [FloatData (replicate (nat n) (Fin (-2)))], ptype = P_1NN\<rparr>"
  by (cases p; simp add: InitProtoProfile_def Let_def)+

interpretation index_profile: max_profile ULongs uint64_of P_1NN_INDEX floats0 shift_index init_entry
  by unfold_locales
    (auto simp: init_entry_def GetProfileSize_def InitProtoProfile_fields [unfolded init_entry_def] MergeTileIntoFullProfile_def
      elementwise_max_index_eq keep_best_entry)

interpretation value_profile: max_profile FloatData float_of P_1NN "\<lambda>x. x" "\<lambda>off x. x" "Fin (-2)"
  by unfold_locales
    (auto simp: GetProfileSize_def InitProtoProfile_fields MergeTileIntoFullProfile_def elementwise_max_eq keep_best_value)

text \<open>The value of the pair of a row and a column, if the pair counts.\<close>

definition index_candidates :: "(int \<Rightarrow> int \<Rightarrow> fp option) \<Rightarrow> int \<Rightarrow> int \<Rightarrow> mp_entry set" where
  "index_candidates cell i c = {\<lparr>floats0 = x, ints1 = word_of_int i\<rparr> | x. cell i c = Some x}"

lemma best_index:
  assumes "best_of floats0 init_entry (\<Union>i \<in> R. index_candidates cell i c) e"
  shows "e = init_entry \<or> (\<exists>i \<in> R. cell i c = Some (floats0 e) \<and> ints1 e = word_of_int i)"
    "\<forall>i \<in> R. \<forall>x. cell i c = Some x \<longrightarrow> \<not> flt (floats0 e) x"
proof -
  have e: "e = init_entry \<or> (\<exists>i \<in> R. e \<in> index_candidates cell i c)"
    and m: "\<And>i y. i \<in> R \<Longrightarrow> y \<in> index_candidates cell i c \<Longrightarrow> \<not> flt (floats0 e) (floats0 y)"
    using assms by (auto simp only: best_of_def UN_iff)
  show "e = init_entry \<or> (\<exists>i \<in> R. cell i c = Some (floats0 e) \<and> ints1 e = word_of_int i)"
    using e by (elim disjE bexE) (auto simp: index_candidates_def)
  show "\<forall>i \<in> R. \<forall>x. cell i c = Some x \<longrightarrow> \<not> flt (floats0 e) x"
  proof (intro ballI allI impI)
    fix i x assume "i \<in> R" "cell i c = Some x"
    then show "\<not> flt (floats0 e) x"
      using m [of i "\<lparr>floats0 = x, ints1 = word_of_int i\<rparr>"] by (simp add: index_candidates_def)
  qed
qed

definition value_candidates :: "(int \<Rightarrow> int \<Rightarrow> fp option) \<Rightarrow> int \<Rightarrow> int \<Rightarrow> fp set" where
  "value_candidates cell i c = {x. cell i c = Some x}"

definition index_results_ok :: "(int \<Rightarrow> int \<Rightarrow> fp option) \<Rightarrow> ProtoArgs \<Rightarrow> job_event list \<Rightarrow> bool" where
  "index_results_ok cell a es = results_ok uint64_of P_1NN_INDEX floats0 shift_index (index_candidates cell) a es"

definition value_results_ok :: "(int \<Rightarrow> int \<Rightarrow> fp option) \<Rightarrow> ProtoArgs \<Rightarrow> job_event list \<Rightarrow> bool" where
  "value_results_ok cell a es = results_ok float_of P_1NN (\<lambda>x. x) (\<lambda>off x. x) (value_candidates cell) a es"

lemma finished_index_profile:
  assumes "double_rounding rd" "valid_job a" "map_order ord" "\<not> p_keep_rows_separate a" "p_profile_type a = P_1NN_INDEX"
    "make_job rd ord a jid now = Inr j0" "job_run rd j0 es j" "index_results_ok cell a es" "j_status j = JOB_STATUS_FINISHED"
  shows "\<exists>v. p_profile_a (j_args j) = \<lparr>pdata = [ULongs v], ptype = P_1NN_INDEX\<rparr> \<and> int (length v) = matrix_cols a
    \<and> (\<forall>c < length v.
        (v ! c = init_entry \<or> (\<exists>i \<in> {0..<matrix_rows a}. cell i (int c) = Some (floats0 (v ! c)) \<and> ints1 (v ! c) = word_of_int i))
        \<and> (\<forall>i \<in> {0..<matrix_rows a}. \<forall>x. cell i (int c) = Some x \<longrightarrow> \<not> flt (floats0 (v ! c)) x))"
proof -
  obtain v where v: "p_profile_a (j_args j) = \<lparr>pdata = [ULongs v], ptype = P_1NN_INDEX\<rparr>" "int (length v) = matrix_cols a"
    "\<And>c. c < length v \<Longrightarrow> best_of floats0 init_entry (\<Union>i \<in> {0..<matrix_rows a}. index_candidates cell i (int c)) (v ! c)"
    using index_profile.finished_profile [OF assms(1-7) assms(8) [unfolded index_results_ok_def] assms(9)]
    by (auto simp: job_profile_def)
  show ?thesis
    by (intro exI [of _ v] conjI v(1,2) allI impI best_index v(3))
qed

text \<open>The same for profiles without an index.\<close>

lemma finished_value_profile:
  assumes "double_rounding rd" "valid_job a" "map_order ord" "\<not> p_keep_rows_separate a" "p_profile_type a = P_1NN"
    "make_job rd ord a jid now = Inr j0" "job_run rd j0 es j" "value_results_ok cell a es" "j_status j = JOB_STATUS_FINISHED"
  shows "\<exists>v. p_profile_a (j_args j) = \<lparr>pdata = [FloatData v], ptype = P_1NN\<rparr> \<and> int (length v) = matrix_cols a
    \<and> (\<forall>c < length v. (v ! c = Fin (-2) \<or> (\<exists>i \<in> {0..<matrix_rows a}. cell i (int c) = Some (v ! c)))
        \<and> (\<forall>i \<in> {0..<matrix_rows a}. \<forall>x. cell i (int c) = Some x \<longrightarrow> \<not> flt (v ! c) x))"
proof -
  obtain v where v: "p_profile_a (j_args j) = \<lparr>pdata = [FloatData v], ptype = P_1NN\<rparr>" "int (length v) = matrix_cols a"
    "\<And>c. c < length v \<Longrightarrow> best_of (\<lambda>x. x) (Fin (-2)) (\<Union>i \<in> {0..<matrix_rows a}. value_candidates cell i (int c)) (v ! c)"
    using value_profile.finished_profile [OF assms(1-7) assms(8) [unfolded value_results_ok_def] assms(9)]
    by (auto simp: job_profile_def)
  have "(v ! c = Fin (-2) \<or> (\<exists>i \<in> {0..<matrix_rows a}. cell i (int c) = Some (v ! c)))
      \<and> (\<forall>i \<in> {0..<matrix_rows a}. \<forall>x. cell i (int c) = Some x \<longrightarrow> \<not> flt (v ! c) x)" if "c < length v" for c
    using v(3) [OF that] by (simp add: best_of_def value_candidates_def)
  then show ?thesis using v(1,2) by blast
qed

text \<open>
  A finished job has the matrix profile of the whole distance matrix: if every result the server
  accepted was right for the cells of its tile, then whatever the order of results, time-outs, retries,
  failures and results that arrive twice, element \<open>c\<close> of the profile is the value and the index of the
  best match of column \<open>c\<close>, or the initial entry when no match is better than that.
\<close>

theorem finished_job_profile:
  assumes "double_rounding rd" "valid_job a" "map_order ord" "\<not> p_keep_rows_separate a" "p_profile_type a = P_1NN_INDEX"
    "make_job rd ord a jid now = Inr j0" "job_run rd j0 es j" "index_results_ok cell a es" "j_status j = JOB_STATUS_FINISHED"
  shows "\<exists>v. p_profile_a (j_args j) = \<lparr>pdata = [ULongs v], ptype = P_1NN_INDEX\<rparr> \<and> int (length v) = matrix_cols a
    \<and> (\<forall>c < length v.
        (v ! c = init_entry \<or> (\<exists>i \<in> {0..<matrix_rows a}. cell i (int c) = Some (floats0 (v ! c)) \<and> ints1 (v ! c) = word_of_int i))
        \<and> (\<forall>i \<in> {0..<matrix_rows a}. \<forall>x. cell i (int c) = Some x \<longrightarrow> \<not> flt (floats0 (v ! c)) x))"
  by (rule finished_index_profile [OF assms])

end
