(* ===== verification/DistServer.thy ===== *)
theory DistServer
  imports DistProfile
begin

text \<open>
  src/distributed/job_list.h and job_list.cpp, the list of jobs with its four schedulers, and the remote
  procedures of src/distributed/scamp_server.cc.

  \<^item> \<open>task_list_\<close> is an \<open>unordered_map\<close> with the keys 0, 1, 2, ...: the list of its values. A pointer to a
    job is its key. \<open>run_list_\<close> holds keys.
  \<^item> A handler takes the lock of the list and the lock of one job in turn. Here a handler is one step;
    what other threads can do to a job between two of its operations are runs of that job, which the
    lemmas on jobs cover.
  \<^item> An exception that leaves a handler, and undefined behaviour, is a result \<open>Inl\<close>. \<open>bad_alloc\<close> is not
    modelled. What the handlers print is left out.
\<close>

subsection \<open>The list of jobs\<close>

datatype JobListSchedulerType =
    SCHEDULE_TYPE_ISSUE_ORDER | SCHEDULE_TYPE_ROUND_ROBIN | SCHEDULE_TYPE_LEAST_ETA | SCHEDULE_TYPE_LEAST_PROGRESS

record JobList =
  task_list :: "Job list"
  run_list :: "nat list"
  schedule_type :: JobListSchedulerType

definition JobList_init :: "JobListSchedulerType \<Rightarrow> JobList" where
  "JobList_init t = \<lparr>task_list = [], run_list = [], schedule_type = t\<rparr>"

definition add_job :: "rounding \<Rightarrow> (nat \<Rightarrow> nat list) \<Rightarrow> int \<Rightarrow> ProtoArgs \<Rightarrow> JobList \<Rightarrow> (nat \<times> JobList) result" where
  "add_job rd ord now args l =
     (let jid = length (task_list l) in
      rbind (make_job rd ord args (i32 (int jid)) now) (\<lambda>j.
      Inr (jid, l\<lparr>task_list := task_list l @ [j], run_list := run_list l @ [jid]\<rparr>)))"

definition get_job :: "int \<Rightarrow> JobList \<Rightarrow> nat option" where
  "get_job jid l = (if 0 \<le> jid \<and> jid < int (length (task_list l)) then Some (nat jid) else None)"

text \<open>The loop over the run list: the keys it keeps, and the jobs after the check of their tiles.\<close>

fun cleanup_jobs_loop :: "int \<Rightarrow> nat list \<Rightarrow> Job list \<Rightarrow> nat list \<times> Job list" where
  "cleanup_jobs_loop now [] js = ([], js)"
| "cleanup_jobs_loop now (k # ks) js =
     (let j = check_time_tile now (js ! k); (kept, js') = cleanup_jobs_loop now ks (js[k := j])
      in (if j_status j \<noteq> JOB_STATUS_RUNNING then kept else k # kept, js'))"

definition cleanup_jobs :: "int \<Rightarrow> JobList \<Rightarrow> JobList" where
  "cleanup_jobs now l = (case cleanup_jobs_loop now (run_list l) (task_list l) of
     (kept, js) \<Rightarrow> l\<lparr>run_list := kept, task_list := js\<rparr>)"

subsection \<open>The schedulers\<close>

fun issue_order_loop :: "int \<Rightarrow> nat list \<Rightarrow> Job list \<Rightarrow> nat option \<times> Job list" where
  "issue_order_loop now [] js = (None, js)"
| "issue_order_loop now (k # ks) js = (case has_work now (js ! k) of (b, j) \<Rightarrow>
     if b then (Some k, js[k := j]) else issue_order_loop now ks (js[k := j]))"

definition ScheduleIssueOrder :: "int \<Rightarrow> JobList \<Rightarrow> nat option \<times> JobList" where
  "ScheduleIssueOrder now l = (case issue_order_loop now (run_list l) (task_list l) of (r, js) \<Rightarrow> (r, l\<lparr>task_list := js\<rparr>))"

fun round_robin_loop :: "int \<Rightarrow> nat \<Rightarrow> nat list \<Rightarrow> Job list \<Rightarrow> nat option \<times> nat list \<times> Job list" where
  "round_robin_loop now (Suc n) (k # ks) js = (case has_work now (js ! k) of (b, j) \<Rightarrow>
     if b then (Some k, ks @ [k], js[k := j]) else round_robin_loop now n (ks @ [k]) (js[k := j]))"
| "round_robin_loop now _ ks js = (None, ks, js)"

definition ScheduleRoundRobin :: "int \<Rightarrow> JobList \<Rightarrow> nat option \<times> JobList" where
  "ScheduleRoundRobin now l = (case round_robin_loop now (length (run_list l)) (run_list l) (task_list l) of
     (r, ks, js) \<Rightarrow> (r, l\<lparr>run_list := ks, task_list := js\<rparr>))"

fun ending_soonest_loop ::
  "rounding \<Rightarrow> int \<Rightarrow> nat list \<Rightarrow> Job list \<Rightarrow> int \<Rightarrow> nat option \<Rightarrow> (nat option \<times> Job list) option" where
  "ending_soonest_loop rf now [] js best_eta best_job = Some (best_job, js)"
| "ending_soonest_loop rf now (k # ks) js best_eta best_job = (case has_work now (js ! k) of (b, j) \<Rightarrow>
     if b then do {
       e \<leftarrow> get_eta rf now j;
       let eta = i32 e in
       if eta < best_eta then ending_soonest_loop rf now ks (js[k := j]) eta (Some k)
       else ending_soonest_loop rf now ks (js[k := j]) best_eta best_job }
     else ending_soonest_loop rf now ks (js[k := j]) best_eta best_job)"

definition ScheduleEndingSoonest :: "rounding \<Rightarrow> int \<Rightarrow> JobList \<Rightarrow> (nat option \<times> JobList) option" where
  "ScheduleEndingSoonest rf now l =
     map_option (\<lambda>(r, js). (r, l\<lparr>task_list := js\<rparr>)) (ending_soonest_loop rf now (run_list l) (task_list l) INT_MAX None)"

fun lowest_progress_loop ::
  "rounding \<Rightarrow> int \<Rightarrow> nat list \<Rightarrow> Job list \<Rightarrow> fp \<Rightarrow> nat option \<Rightarrow> nat option \<times> Job list" where
  "lowest_progress_loop rf now [] js best_prog best_job = (best_job, js)"
| "lowest_progress_loop rf now (k # ks) js best_prog best_job = (case has_work now (js ! k) of (b, j) \<Rightarrow>
     if b \<and> flt (get_progress rf j) best_prog then lowest_progress_loop rf now ks (js[k := j]) (get_progress rf j) (Some k)
     else lowest_progress_loop rf now ks (js[k := j]) best_prog best_job)"

definition ScheduleLowestProgress :: "rounding \<Rightarrow> int \<Rightarrow> JobList \<Rightarrow> nat option \<times> JobList" where
  "ScheduleLowestProgress rf now l =
     (case lowest_progress_loop rf now (run_list l) (task_list l) (Fin 1) None of (r, js) \<Rightarrow> (r, l\<lparr>task_list := js\<rparr>))"

definition get_highest_priority_job :: "rounding \<Rightarrow> int \<Rightarrow> JobList \<Rightarrow> (nat option \<times> JobList) option" where
  "get_highest_priority_job rf now l = (case schedule_type l of
       SCHEDULE_TYPE_ISSUE_ORDER \<Rightarrow> Some (ScheduleIssueOrder now l)
     | SCHEDULE_TYPE_ROUND_ROBIN \<Rightarrow> Some (ScheduleRoundRobin now l)
     | SCHEDULE_TYPE_LEAST_ETA \<Rightarrow> ScheduleEndingSoonest rf now l
     | SCHEDULE_TYPE_LEAST_PROGRESS \<Rightarrow> Some (ScheduleLowestProgress rf now l))"

subsection \<open>The remote procedures\<close>

datatype RpcStatus = RPC_OK | INVALID_ARGUMENT string | INTERNAL string

record SCAMPStatus =
  s_job_id :: int
  s_status :: JobStatus
  s_progress :: fp
  s_time_elapsed :: int
  s_eta :: int

definition empty_status :: SCAMPStatus where
  "empty_status = \<lparr>s_job_id = 0, s_status = JOB_STATUS_INVALID, s_progress = Fin 0, s_time_elapsed = 0, s_eta = 0\<rparr>"

record SCAMPWork =
  w_args :: ProtoArgs
  w_valid :: bool

definition empty_work :: SCAMPWork where
  "empty_work = \<lparr>w_args = empty_proto_args, w_valid = False\<rparr>"

definition update_job :: "nat \<Rightarrow> Job \<Rightarrow> JobList \<Rightarrow> JobList" where
  "update_job k j l = l\<lparr>task_list := (task_list l)[k := j]\<rparr>"

definition invalid_job_id :: RpcStatus where "invalid_job_id = INVALID_ARGUMENT ''Invalid Job ID''"

text \<open>An exception of the constructor of a job is answered with its message.\<close>

definition IssueNewJob ::
  "rounding \<Rightarrow> (nat \<Rightarrow> nat list) \<Rightarrow> int \<Rightarrow> ProtoArgs \<Rightarrow> JobList \<Rightarrow> (RpcStatus \<times> SCAMPStatus \<times> JobList) result" where
  "IssueNewJob rd ord now args l =
     (if \<not> validateArgs args then Inr (INVALID_ARGUMENT ''Invalid SCAMP arguments'', empty_status, l)
      else case add_job rd ord now args l of
        Inr (jid, l') \<Rightarrow> Inr (RPC_OK, empty_status\<lparr>s_status := j_status (task_list l' ! jid), s_job_id := int jid\<rparr>, l')
      | Inl (SCAMPException msg) \<Rightarrow> Inr (INTERNAL msg, empty_status, l)
      | Inl Undefined \<Rightarrow> Inl Undefined)"

definition CheckJobStatus :: "rounding \<Rightarrow> int \<Rightarrow> int \<Rightarrow> JobList \<Rightarrow> (RpcStatus \<times> SCAMPStatus \<times> JobList) result" where
  "CheckJobStatus rf now jid l =
     (let st = empty_status\<lparr>s_job_id := jid\<rparr> in
      case get_job (i32 jid) l of
        None \<Rightarrow> Inr (invalid_job_id, st\<lparr>s_status := JOB_STATUS_INVALID\<rparr>, l)
      | Some k \<Rightarrow> let j = snd (is_done now (task_list l ! k)) in
          rbind (of_option (get_eta rf now j)) (\<lambda>eta.
          Inr (RPC_OK, st\<lparr>s_status := j_status j, s_progress := get_progress rf j, s_time_elapsed := get_elapsed_time now j,
                         s_eta := eta\<rparr>, update_job k j l)))"

definition FetchJobResult :: "int \<Rightarrow> int \<Rightarrow> JobList \<Rightarrow> RpcStatus \<times> SCAMPWork \<times> JobList" where
  "FetchJobResult now jid l = (case get_job (i32 jid) l of
       None \<Rightarrow> (invalid_job_id, empty_work\<lparr>w_valid := False\<rparr>, l)
     | Some k \<Rightarrow> (case is_done now (task_list l ! k) of (fin, j) \<Rightarrow>
         (RPC_OK, if fin then empty_work\<lparr>w_args := j_args j, w_valid := True\<rparr> else empty_work\<lparr>w_valid := False\<rparr>,
          update_job k j l)))"

definition RequestSCAMPWork :: "rounding \<Rightarrow> int \<Rightarrow> int \<Rightarrow> JobList \<Rightarrow> (RpcStatus \<times> SCAMPWork \<times> JobList) result" where
  "RequestSCAMPWork rf now expected_throughput l =
     rbind (of_option (get_highest_priority_job rf now l)) (\<lambda>(job, l').
     case job of
       None \<Rightarrow> Inr (RPC_OK, empty_work\<lparr>w_valid := False\<rparr>, l')
     | Some k \<Rightarrow> rbind (fetch_ready_tile now expected_throughput empty_proto_args (task_list l' ! k)) (\<lambda>(a, j).
         Inr (RPC_OK, (case a of None \<Rightarrow> empty_work\<lparr>w_valid := False\<rparr> | Some args \<Rightarrow> \<lparr>w_args = args, w_valid = True\<rparr>),
              update_job k j l')))"

definition SCAMPCombiner :: "rounding \<Rightarrow> int \<Rightarrow> ProtoArgs \<Rightarrow> JobList \<Rightarrow> (RpcStatus \<times> JobList) result" where
  "SCAMPCombiner rd now request l = (case get_job (i32 (p_job_id request)) l of
       None \<Rightarrow> Inr (invalid_job_id, l)
     | Some k \<Rightarrow> rbind (CombineProfile rd now request (task_list l ! k)) (\<lambda>(ok, j). Inr (RPC_OK, update_job k j l)))"

definition ReportTileFailure :: "int \<Rightarrow> ProtoArgs \<Rightarrow> JobList \<Rightarrow> RpcStatus \<times> JobList" where
  "ReportTileFailure now request l = (case get_job (i32 (p_job_id request)) l of
       None \<Rightarrow> (invalid_job_id, l)
     | Some k \<Rightarrow> (RPC_OK, update_job k (set_tile_failed now (i32 (p_tile_id request)) (task_list l ! k)) l))"

end
