(* ===== verification/DistWorker.thy ===== *)
theory DistWorker
  imports DistServer
begin

text \<open>
  src/distributed/scamp_worker.cpp, the process that computes tiles for the server, and
  src/distributed/scamp_interface.cpp, the client that hands a join to the server.

  \<^item> \<open>blank\<close> stands for the members of a \<open>SCAMPArgs\<close> the code never sets; its constructor leaves them
    indeterminate. The two profiles of a new \<open>SCAMPArgs\<close> are empty.
  \<^item> The worker has two threads that share the queue of results under \<open>merge_m_\<close>: \<open>run\<close>, which asks for
    work, and \<open>MergeCompletedResults\<close>, which holds the lock during a whole pass over the queue. A remote
    call is one step of the server; its outcome may be lost, which the worker takes for a failure.
  \<^item> \<open>None\<close> is a join whose schedule has not finished.
\<close>

subsection \<open>Computing a tile\<close>

definition new_args :: "SCAMPArgs \<Rightarrow> SCAMPArgs" where
  "new_args blank = blank\<lparr>timeseries_a := [], timeseries_b := [], profile_a := Profile_default, profile_b := Profile_default\<rparr>"

text \<open>The answer of \<open>ExecuteWork\<close> after \<open>do_SCAMP\<close> has returned.\<close>

definition executed_work :: "SCAMPWork \<Rightarrow> SCAMPArgs result \<Rightarrow> SCAMPWork result" where
  "executed_work work r = (case r of
       Inl (SCAMPException _) \<Rightarrow> Inr (work\<lparr>w_valid := False\<rparr>)
     | Inl Undefined \<Rightarrow> Inl Undefined
     | Inr args \<Rightarrow> rbind (Profile_to_proto (profile_a args)) (\<lambda>pa. rbind (Profile_to_proto (profile_b args)) (\<lambda>pb.
         Inr (work\<lparr>w_args := (w_args work)\<lparr>p_timeseries_a := [], p_timeseries_b := [],
                             p_profile_a := pa, p_profile_b := pb\<rparr>\<rparr>))))"

definition ExecuteWork ::
  "fpu \<Rightarrow> eigen \<Rightarrow> (nat \<Rightarrow> fp) \<Rightarrow> fp \<Rightarrow> SCAMPArgs \<Rightarrow> int \<Rightarrow> nat list \<Rightarrow> SCAMPWork \<Rightarrow> SCAMPWork result option" where
  "ExecuteWork fpu eig fresh uninit blank hardware_threads sched work =
     (case ConvertProtoArgsToSCAMPArgs (w_args work) (new_args blank) of
        Inl e \<Rightarrow> Some (Inl e)
      | Inr args \<Rightarrow> (case InitProfileMemory (rd32 fpu) args of
          None \<Rightarrow> Some (Inl Undefined)
        | Some (ok, args') \<Rightarrow>
            if \<not> ok then Some (Inr (work\<lparr>w_valid := False\<rparr>))
            else map_option (executed_work work) (do_SCAMP fpu eig fresh uninit sched (Some args') [] hardware_threads)))"

subsection \<open>The throughput a worker announces\<close>

text \<open>
  The arguments of the calibration run; \<open>GenerateRandomVector\<close> gives the series. \<open>nanos\<close> is the time the clock
  measures for the join. A failure is -1.
\<close>

definition get_default_args :: "SCAMPArgs \<Rightarrow> fp list \<Rightarrow> SCAMPArgs" where
  "get_default_args blank values = (new_args blank)\<lparr>timeseries_a := values, has_b := False, arg_window := 100,
     max_tile_size := 131072, distributed_start_row := -1, distributed_start_col := -1, distance_threshold := NaN,
     computing_rows := True, computing_columns := True, keep_rows_separate := False, is_aligned := False, silent_mode := True,
     precision_type := PRECISION_DOUBLE, arg_profile_type := PROFILE_TYPE_1NN_INDEX,
     profile_a := Profile_default\<lparr>profile_type := PROFILE_TYPE_1NN_INDEX\<rparr>,
     profile_b := Profile_default\<lparr>profile_type := PROFILE_TYPE_1NN_INDEX\<rparr>\<rparr>"

definition calibration_run ::
  "fpu \<Rightarrow> eigen \<Rightarrow> (nat \<Rightarrow> fp) \<Rightarrow> fp \<Rightarrow> SCAMPArgs \<Rightarrow> fp list \<Rightarrow> int \<Rightarrow> nat list \<Rightarrow> int \<Rightarrow> fp result option" where
  "calibration_run fpu eig fresh uninit blank values threads sched nanos =
     (case InitProfileMemory (rd32 fpu) (get_default_args blank values) of
        None \<Rightarrow> Some (Inl Undefined)
      | Some (ok, args) \<Rightarrow>
          if \<not> ok then Some (Inr (Fin (-1)))
          else map_option (\<lambda>r. rbind r (\<lambda>_. Inr (fcast (rd32 fpu) (fdiv (rd64 fpu) (fp_of_int (rd64 fpu) nanos) (Fin (10 ^ 9))))))
                 (do_SCAMP fpu eig fresh uninit sched (Some args) [] threads))"

definition test_input_size_cpu :: int where "test_input_size_cpu = 2 ^ 17"

definition get_expected_throughput ::
  "fpu \<Rightarrow> eigen \<Rightarrow> (nat \<Rightarrow> fp) \<Rightarrow> fp \<Rightarrow> SCAMPArgs \<Rightarrow> fp list \<Rightarrow> int \<Rightarrow> nat list \<Rightarrow> int \<Rightarrow> fp result option" where
  "get_expected_throughput fpu eig fresh uninit blank values hardware_threads sched nanos =
     map_option (\<lambda>r.
       let rd = rd64 fpu; input_size = fp_of_int rd test_input_size_cpu in
       rbind (case r of Inl (SCAMPException _) \<Rightarrow> Inr (Fin (-1)) | _ \<Rightarrow> r) (\<lambda>time_to_finish.
         Inr (if flt time_to_finish (Fin 0) then Fin (-1)
              else fdiv rd (fdiv rd (fmul rd input_size input_size) (Fin 2)) time_to_finish)))
       (calibration_run fpu eig fresh uninit blank values hardware_threads sched nanos)"

text \<open>
  What \<open>run\<close> does with it: rounded to a float; \<open>Some th\<close> is the throughput of every request, \<open>None\<close> the end of
  \<open>run\<close> with false. The conversion to the integer of the message is undefined out of range.
\<close>

definition announced_throughput :: "fpu \<Rightarrow> fp \<Rightarrow> int option result" where
  "announced_throughput fpu throughput =
     (let expected_throughput = fcast (rd32 fpu) throughput
      in if fle expected_throughput (Fin 0) then Inr None
         else rbind (of_option (itrunc expected_throughput)) (\<lambda>th. Inr (Some th)))"

subsection \<open>The worker\<close>

definition MAX_MERGE_RETRIES :: int where "MAX_MERGE_RETRIES = 5"

text \<open>
  Where the thread of \<open>run\<close> is: before a request, with work to execute, with a result to enqueue, with a failure
  to report, or gone with an exception.
\<close>

datatype run_state =
    Requesting | Executing SCAMPWork | Enqueueing SCAMPWork | Reporting ProtoArgs | Terminated

text \<open>
  \<open>merge_left\<close> are the elements the current pass of the merge thread still has to look at; the thread holds the
  lock while there are any, and while it reports a tile it gave up on, \<open>merge_report\<close>.
\<close>

record WorkerState =
  run_state :: run_state
  work_to_merge :: "(int \<times> SCAMPWork) list"
  merge_left :: nat
  merge_report :: "ProtoArgs option"

definition worker_init :: WorkerState where
  "worker_init = \<lparr>run_state = Requesting, work_to_merge = [], merge_left = 0, merge_report = None\<rparr>"

definition merge_locked :: "WorkerState \<Rightarrow> bool" where
  "merge_locked ws \<longleftrightarrow> merge_left ws > 0 \<or> merge_report ws \<noteq> None"

text \<open>The loop of \<open>run\<close>: the answer to a request, the end of \<open>ExecuteWork\<close>, and what follows.\<close>

definition received_work :: "SCAMPWork \<Rightarrow> WorkerState \<Rightarrow> WorkerState" where
  "received_work work ws = (if w_valid work then ws\<lparr>run_state := Executing work\<rparr> else ws)"

definition computed_result :: "SCAMPWork \<Rightarrow> SCAMPWork result \<Rightarrow> WorkerState \<Rightarrow> WorkerState" where
  "computed_result work r ws = (case r of
       Inl _ \<Rightarrow> ws\<lparr>run_state := Terminated\<rparr>
     | Inr result \<Rightarrow> if w_valid result then ws\<lparr>run_state := Enqueueing result\<rparr>
                      else ws\<lparr>run_state := Reporting (w_args work)\<rparr>)"

definition enqueue_result :: "SCAMPWork \<Rightarrow> WorkerState \<Rightarrow> WorkerState" where
  "enqueue_result result ws = ws\<lparr>work_to_merge := work_to_merge ws @ [(0, result)], run_state := Requesting\<rparr>"

text \<open>A pass of the merge thread: its start, and what the outcome of a merge does to the queue.\<close>

definition merge_pass :: "WorkerState \<Rightarrow> WorkerState" where
  "merge_pass ws = ws\<lparr>merge_left := length (work_to_merge ws)\<rparr>"

definition merged_front :: "bool \<Rightarrow> WorkerState \<Rightarrow> WorkerState" where
  "merged_front ok ws = (case work_to_merge ws of
       [] \<Rightarrow> ws
     | (retries, work) # q \<Rightarrow>
         let ws' = ws\<lparr>work_to_merge := q, merge_left := merge_left ws - 1\<rparr>
         in if ok then ws'
            else if retries < MAX_MERGE_RETRIES then ws'\<lparr>work_to_merge := q @ [(retries + 1, work)]\<rparr>
            else ws'\<lparr>merge_report := Some (w_args work)\<rparr>)"

subsection \<open>The client\<close>

text \<open>
  \<open>do_SCAMP_distributed\<close> between its remote calls: the job it issues, whether an answer ends the polling, and the
  arguments after the result was fetched.
\<close>

definition distributed_job :: "SCAMPArgs \<Rightarrow> int \<Rightarrow> ProtoArgs result" where
  "distributed_job args distributed_tile_size =
     rbind (ConvertSCAMPArgsToProtoArgs args) (\<lambda>p. Inr (p\<lparr>p_distributed_tile_size := distributed_tile_size\<rparr>))"

definition polled_status :: "RpcStatus \<Rightarrow> SCAMPStatus \<Rightarrow> bool" where
  "polled_status s status \<longleftrightarrow> s = RPC_OK \<and> s_status status = JOB_STATUS_FINISHED"

definition fetched_args :: "ProtoArgs \<Rightarrow> RpcStatus \<Rightarrow> SCAMPWork \<Rightarrow> SCAMPArgs \<Rightarrow> SCAMPArgs result" where
  "fetched_args proto_args s result args =
     ConvertProtoArgsToSCAMPArgs (if s = RPC_OK then w_args result else proto_args) args"

end
