(* ===== verification/DistTileWork.thy ===== *)
theory DistTileWork
  imports DistWorker DistProfile InterfaceCorrect
begin

text \<open>
  A tile computed by a worker. The value of a pair of windows depends on nothing but the two windows, so what a
  worker computes on the part of the series it got is what the job is about; \<open>ExecuteWork\<close> on the arguments the
  server hands out for a tile gives a result that is right in the sense of \<open>result_ok\<close>.
\<close>

subsection \<open>Windows of a part of a series\<close>

lemma cdot_cong:
  assumes "\<And>k. k < w \<Longrightarrow> xs' ! (i' + k) = xs ! (i + k)" "\<And>k. k < w \<Longrightarrow> ys' ! (j' + k) = ys ! (j + k)"
  shows "cdot xs' ys' w i' j' = cdot xs ys w i j"
proof -
  have "wmean xs' w i' = wmean xs w i" "wmean ys' w j' = wmean ys w j"
    using assms by (simp_all add: wmean_def)
  then show ?thesis using assms by (simp add: cdot_def)
qed

definition part :: "'a list \<Rightarrow> nat \<Rightarrow> nat \<Rightarrow> 'a list" where
  "part xs p n = take n (drop p xs)"

lemma part_simps [simp]:
  "p + n \<le> length xs \<Longrightarrow> length (part xs p n) = n" "k < n \<Longrightarrow> p + n \<le> length xs \<Longrightarrow> part xs p n ! k = xs ! (p + k)"
  by (simp_all add: part_def)

lemma reals_of_part: "reals_of (part T p n) = part (reals_of T) p n"
  by (simp add: reals_of_def clean_series_def part_def take_map drop_map)

lemma nan_windows_part:
  assumes "p + n \<le> length T" "i + w \<le> n"
  shows "nan_windows (part T p n) w ! i = nan_windows T w ! (p + i)"
proof -
  have "(\<exists>j \<in> {i..<i + w}. \<not> is_finite (part T p n ! j)) = (\<exists>j \<in> {p + i..<p + i + w}. \<not> is_finite (T ! j))"
  proof
    assume "\<exists>j \<in> {i..<i + w}. \<not> is_finite (part T p n ! j)"
    then obtain j where "j \<in> {i..<i + w}" "\<not> is_finite (part T p n ! j)" by blast
    then show "\<exists>j \<in> {p + i..<p + i + w}. \<not> is_finite (T ! j)"
      using assms by (intro bexI [of _ "p + j"]) auto
  next
    assume "\<exists>j \<in> {p + i..<p + i + w}. \<not> is_finite (T ! j)"
    then obtain j where "j \<in> {p + i..<p + i + w}" "\<not> is_finite (T ! j)" by blast
    then show "\<exists>j \<in> {i..<i + w}. \<not> is_finite (part T p n ! j)"
      using assms by (intro bexI [of _ "j - p"]) auto
  qed
  then show ?thesis using assms by (simp add: nan_windows_def del: upt_Suc)
qed

definition window_value :: "fp list \<Rightarrow> fp list \<Rightarrow> nat \<Rightarrow> int \<Rightarrow> int \<Rightarrow> fp" where
  "window_value Ta Tb w i j = pair_value (reals_of Ta) (nan_windows Ta w) (reals_of Tb) (nan_windows Tb w) w (nat j) (nat i)"

lemma window_value_part:
  assumes "p + n \<le> length Ta" "q + m \<le> length Tb" "0 \<le> i" "0 \<le> j" "nat j + w \<le> n" "nat i + w \<le> m"
  shows "window_value (part Ta p n) (part Tb q m) w i j = window_value Ta Tb w (int q + i) (int p + j)"
proof -
  have e: "nat (int p + j) = p + nat j" "nat (int q + i) = q + nat i" using assms(3,4) by (simp_all add: nat_add_distrib)
  have a: "part (reals_of Ta) p n ! (nat j + k) = reals_of Ta ! (p + nat j + k)"
    and b: "part (reals_of Tb) q m ! (nat i + k) = reals_of Tb ! (q + nat i + k)" if "k < w" for k
    using assms that by (simp_all add: add.assoc)
  have c: "cdot (part (reals_of Ta) p n) (part (reals_of Ta) p n) w (nat j) (nat j) = wssq (reals_of Ta) w (p + nat j)"
    "cdot (part (reals_of Tb) q m) (part (reals_of Tb) q m) w (nat i) (nat i) = wssq (reals_of Tb) w (q + nat i)"
    "cdot (part (reals_of Ta) p n) (part (reals_of Tb) q m) w (nat j) (nat i) = cdot (reals_of Ta) (reals_of Tb) w (p + nat j) (q + nat i)"
    by (rule cdot_cong; rule a b; assumption)+
  show ?thesis
    unfolding window_value_def e pair_value_def bad_window_def pearson_def reals_of_part c
    by (simp only: nan_windows_part [OF assms(1,5)] nan_windows_part [OF assms(2,6)])
qed

lemma window_value_not_nan [simp]: "\<not> is_nan (window_value Ta Tb w i j)"
  unfolding window_value_def by (rule finite_not_nan [OF pair_value_finite])

lemma join_value_window: "join_value info Ta Tb i j = window_value Ta Tb (nat (op_mp_window info)) i j"
  by (simp add: join_value_def window_value_def)

lemma match_value_window: "match_value_of info T x y = window_value T T (nat (op_mp_window info)) y x"
  by (simp add: match_value_of_def window_value_def Let_def)

subsection \<open>The jobs, and what they are about\<close>

text \<open>A job for the nearest neighbours of every window, in double precision, that is not a part of a larger join.\<close>

definition index_job :: "ProtoArgs \<Rightarrow> bool" where
  "index_job a \<longleftrightarrow> valid_job a \<and> p_profile_type a = P_1NN_INDEX \<and> p_precision_type a = PP_DOUBLE
     \<and> \<not> p_keep_rows_separate a \<and> (p_has_b a \<longrightarrow> \<not> p_is_aligned a) \<and> int (length (pairs_of a)) < 2 ^ 31"

definition job_series_b :: "ProtoArgs \<Rightarrow> fp list" where
  "job_series_b a = (if p_has_b a then p_timeseries_b a else p_timeseries_a a)"

definition job_zone :: "ProtoArgs \<Rightarrow> int" where
  "job_zone a = (p_window a + 3) div 4"

text \<open>The value of row \<open>i\<close> and column \<open>c\<close> of the distance matrix; a self join leaves out the exclusion zone.\<close>

definition job_cell :: "ProtoArgs \<Rightarrow> int \<Rightarrow> int \<Rightarrow> fp option" where
  "job_cell a i c = (if p_has_b a \<or> job_zone a \<le> \<bar>c - i\<bar>
     then Some (window_value (p_timeseries_a a) (job_series_b a) (nat (p_window a)) i c) else None)"

lemma window_value_commute: "window_value T T w i j = window_value T T w j i"
  unfolding window_value_def by (rule pair_value_commute)

lemma job_cell_commute: "\<not> p_has_b a \<Longrightarrow> job_cell a i c = job_cell a c i"
  by (simp add: job_cell_def job_series_b_def abs_minus_commute window_value_commute [of _ _ i c])

text \<open>
  The width of the tiles into which a worker with \<open>n\<close> threads cuts a tile off the diagonal, and the condition
  under which it leaves out exactly the exclusion zone: the last of them is full or wider than the zone.
\<close>

definition inner_width :: "ProtoArgs \<Rightarrow> int \<Rightarrow> int" where
  "inner_width a n = (let len = p_distributed_tile_size a + p_window a - 1
     in max_tile_ts_size_of len len (p_window a) (p_max_tile_size a) n - p_window a + 1)"

definition tiles_fit :: "ProtoArgs \<Rightarrow> int \<Rightarrow> bool" where
  "tiles_fit a n \<longleftrightarrow> p_has_b a \<or> matrix_cols a \<le> p_distributed_tile_size a
     \<or> (let rest = p_distributed_tile_size a mod inner_width a n in rest = 0 \<or> job_zone a < rest)"

lemma lies_well_off_diagonal:
  assumes h: "e < h" "0 \<le> e" and sz: "sz mod h = 0 \<or> e < sz mod h" "0 < sz"
    and r: "0 \<le> r" "r * h < sz" and c: "0 \<le> c" and D0: "D0 = sz \<or> 2 * sz \<le> D0"
  shows "lies_well e (c * h - r * h + D0) W (min h (sz - r * h))"
proof -
  define x where "x = sz - r * h"
  define y where "y = c * h + (D0 - sz)"
  have D: "c * h - r * h + D0 = x + y" by (simp add: x_def y_def)
  have x0: "0 < x" using r by (simp add: x_def)
  have e_sz: "e \<le> sz"
  proof (cases "sz mod h = 0")
    case True
    then have "h dvd sz" by (simp add: dvd_eq_mod_eq_0)
    then show ?thesis using sz(2) h zdvd_imp_le [of h sz] by simp
  next
    case False
    then show ?thesis using sz pos_mod_bound [of h sz] zmod_le_nonneg_dividend [of sz h] h by linarith
  qed
  have rest: "x mod h = sz mod h" using mod_mult_self2 [of sz h "- r"] by (simp add: x_def mult.commute)
  have y: "y = 0 \<or> e \<le> y"
  proof (cases "c = 0")
    case True
    then show ?thesis using D0 sz(2) e_sz unfolding y_def by auto
  next
    case False
    then have "h \<le> c * h" using c h mult_right_mono [of 1 c h] by simp
    then show ?thesis using D0 h sz(2) unfolding y_def by linarith
  qed
  show ?thesis
  proof (cases "y = 0")
    case True
    have small: "e < z" if "0 < z" "z < h" "z mod h = sz mod h" for z
      using that sz(1) by auto
    show ?thesis
    proof (cases "x \<le> h")
      case le: True
      have "e < x"
      proof (cases "x = h")
        case False
        then show ?thesis using small [of x] x0 le rest by simp
      qed (use h in simp)
      then show ?thesis using True D le by (simp add: lies_well_def flip: x_def)
    next
      case False
      have "e \<le> x - h"
      proof (cases "x - h < h")
        case True
        then show ?thesis using small [of "x - h"] False rest by simp
      qed (use h in simp)
      then show ?thesis using True D False h by (simp add: lies_well_def flip: x_def)
    qed
  next
    case False
    have "0 < y" using False y h(2) by linarith
    then have "e \<le> x + y \<and> min h x \<noteq> x + y \<and> min h x + e \<le> x + y + 1" using False y x0 by linarith
    then show ?thesis using D by (simp add: lies_well_def flip: x_def)
  qed
qed

lemma off_diagonal_lies_well:
  assumes g: "geometry_ok info" "\<not> op_self_join info" and len: "op_full_ts_len_B info = sz + op_mp_window info - 1" "0 < sz"
    and start: "op_global_start_row_position info = R * sz" "op_global_start_col_position info = C * sz" "0 \<le> R" "R < C"
    and fit: "sz mod op_max_tile_width info = 0 \<or> exclusion_zone info < sz mod op_max_tile_width info"
  shows "tiles_lie_well info"
  unfolding tiles_lie_well_def
proof
  fix wk assume wk: "wk \<in> all_tiles (num_tile_rows info) (num_tile_cols info)"
  obtain r c where rc: "wk = (r, c)" by (cases wk)
  let ?h = "op_max_tile_width info"
  have h: "op_max_tile_height info = ?h" "op_mp_window info < ?h" "1 \<le> op_mp_window info" "0 < ?h"
    "op_max_tile_ts_size info = ?h + op_mp_window info - 1"
    using g(1) by (auto simp: geometry_ok_def)
  have b: "0 \<le> r" "0 \<le> c" "r * ?h < sz"
    using wk len(1) unfolding rc all_tiles_def num_tile_rows_def h(1) by (auto simp: less_ceil_div_iff [OF h(4)])
  have e: "exclusion_zone info < ?h" "0 \<le> exclusion_zone info" using h by (auto simp: exclusion_zone_def)
  have "(R + 1) * sz \<le> C * sz" using start(4) len(2) by (intro mult_right_mono) auto
  then have pos: "0 \<le> R * sz" "0 \<le> C * sz" using start(3,4) len(2) by auto
  have "C - R = 1 \<or> 2 \<le> C - R" using start(4) by auto
  then have "(C - R) * sz = sz \<or> 2 * sz \<le> (C - R) * sz" using len(2) by (auto intro: mult_right_mono)
  from lies_well_off_diagonal [OF e fit len(2) b(1,3,2) this]
  have "lies_well (exclusion_zone info) (c * ?h - r * ?h + (C - R) * sz) W (min ?h (sz - r * ?h))" for W .
  moreover have "tile_col_pos info wk + snd (global_offset info) - (tile_row_pos info wk + fst (global_offset info))
      = c * ?h - r * ?h + (C - R) * sz"
    using pos start(1,2) by (simp add: rc tile_col_pos_def tile_row_pos_def global_offset_def h(1) algebra_simps)
  moreover have "tile_ts_height info wk - op_mp_window info + 1 = min ?h (sz - r * ?h)"
    by (simp add: tile_ts_height_def tile_row_pos_def rc h(1,5) len(1) min_def)
  ultimately show "lies_well (exclusion_zone info)
      (tile_col_pos info wk + snd (global_offset info) - (tile_row_pos info wk + fst (global_offset info)))
      (tile_ts_width info wk - op_mp_window info + 1) (tile_ts_height info wk - op_mp_window info + 1)"
    by (simp only:)
qed

subsection \<open>The arguments a worker gets\<close>

text \<open>What the server hands out for tile \<open>t\<close> of job \<open>k\<close>.\<close>

definition work_args :: "ProtoArgs \<Rightarrow> nat \<Rightarrow> nat \<Rightarrow> ProtoArgs" where
  "work_args a k t = (let d = job_tile a t; sz = p_distributed_tile_size a; w = p_window a in
     (tile_args_of d a empty_proto_args)\<lparr>
       p_timeseries_a := part (p_timeseries_a a) (nat (dt_col d * sz)) (nat (dt_width d + w - 1)),
       p_timeseries_b := part (job_series_b a) (nat (dt_row d * sz)) (nat (dt_height d + w - 1)),
       p_job_id := i32 (int k)\<rparr>)"

lemma work_args_received:
  assumes "index_job a" "d = job_tile a t" "sz = p_distributed_tile_size a" "w = p_window a"
  shows "\<exists>args. ConvertProtoArgsToSCAMPArgs (work_args a k t) (new_args blank) = Inr args
    \<and> timeseries_a args = part (p_timeseries_a a) (nat (dt_col d * sz)) (nat (dt_width d + w - 1))
    \<and> timeseries_b args = part (job_series_b a) (nat (dt_row d * sz)) (nat (dt_height d + w - 1))
    \<and> has_b args = (p_has_b a \<or> dt_row d \<noteq> dt_col d) \<and> arg_window args = w \<and> max_tile_size args = p_max_tile_size a
    \<and> distributed_start_row args = dt_row d * sz \<and> distributed_start_col args = dt_col d * sz
    \<and> arg_profile_type args = PROFILE_TYPE_1NN_INDEX \<and> precision_type args = PRECISION_DOUBLE
    \<and> computing_columns args \<and> computing_rows args = (\<not> p_has_b a)
    \<and> keep_rows_separate args = (\<not> p_has_b a \<and> dt_row d \<noteq> dt_col d)
    \<and> (has_b args \<longrightarrow> is_aligned args = (\<not> p_has_b a))
    \<and> unallocated (profile_a args) \<and> (if keep_rows_separate args then unallocated (profile_b args) else profile_b args = Profile_default)"
  using assms(1)
  by (auto simp: work_args_def index_job_def tile_args_of_def Let_def ConvertProtoArgsToSCAMPArgs_def Profile_from_proto_def
      empty_proto_args_def empty_proto_profile_def Profile_assign_def Profile_default_def unallocated_def new_args_def assms(2-4))

text \<open>The first of the two allocations, and what is left of it in the join.\<close>

lemma InitProfileMemory_unallocated:
  assumes "unallocated (profile_a a)" "keep_rows_separate a \<Longrightarrow> unallocated (profile_b a)"
    and "0 < size_of (timeseries_a a) - arg_window a + 1" "has_b a \<Longrightarrow> 0 < size_of (timeseries_b a) - arg_window a + 1"
  shows "\<exists>pa pb. InitProfileMemory rd a = Some (True, a\<lparr>profile_a := pa, profile_b := pb\<rparr>)
    \<and> ready_profile (size_of (timeseries_a a) - arg_window a + 1) pa
    \<and> (if keep_rows_separate a
       then ready_profile (size_of (if has_b a then timeseries_b a else timeseries_a a) - arg_window a + 1) pb else pb = profile_b a)"
proof -
  let ?n = "size_of (timeseries_a a) - arg_window a + 1"
  let ?m = "if has_b a then size_of (timeseries_b a) - arg_window a + 1 else ?n"
  have m: "0 < ?m" using assms(3,4) by simp
  obtain pa where pa: "Alloc (profile_a a) ?n (matrix_height a) (matrix_width a) (fcast rd (distance_threshold a)) = Some pa" "fresh_profile ?n pa"
    using ready_Alloc [of ?n "profile_a a"] assms(1,3) by (fastforce simp: ready_profile_def)
  obtain pb where pb: "(if keep_rows_separate a then Alloc (profile_b a) ?m (matrix_height a) (matrix_width a) (fcast rd (distance_threshold a))
      else Some (profile_b a)) = Some pb" "if keep_rows_separate a then fresh_profile ?m pb else pb = profile_b a"
    using ready_Alloc [of ?m "profile_b a"] assms(2) m by (cases "keep_rows_separate a") (fastforce simp: ready_profile_def)+
  show ?thesis
    using assms(3) m pa pb
    by (intro exI [of _ pa] exI [of _ pb]) (simp add: InitProfileMemory_def Let_def ready_profile_def split: if_splits)
qed

subsection \<open>The result of a worker\<close>

text \<open>A best match within the tile is a result as the job expects it.\<close>

lemma tile_best_of_match:
  assumes m: "best_match S x e" and v: "values_ok S" and n: "side_others S = n"
    and f: "\<And>y. 0 \<le> y \<Longrightarrow> y < n \<Longrightarrow> f (off + y) = (if side_match S x y then Some (side_value S x y) else None)"
  shows "tile_best floats0 shift_index off (\<Union>i \<in> {off..<off + n}. {\<lparr>floats0 = z, ints1 = word_of_int i\<rparr> | z. f i = Some z}) e"
proof -
  let ?S = "\<Union>i \<in> {off..<off + n}. {\<lparr>floats0 = z, ints1 = word_of_int i\<rparr> | z. f i = Some z}"
  have best: "e = init_entry \<or> (\<exists>y. is_match S x y e)"
    and le: "\<And>y. 0 \<le> y \<Longrightarrow> y < n \<Longrightarrow> side_match S x y \<Longrightarrow> fle (side_value S x y) (floats0 e)"
    using m n by (auto simp: best_match_def)
  have "\<not> flt (floats0 e) (floats0 z)" if z: "z \<in> ?S" for z
  proof -
    obtain i u where i: "off \<le> i" "i < off + n" "f i = Some u" "floats0 z = u" using z by auto
    have r: "0 \<le> i - off" "i - off < n" "off + (i - off) = i" using i by auto
    have "side_match S x (i - off)" "u = side_value S x (i - off)" using f [OF r(1,2)] i(3) unfolding r(3) by (auto split: if_splits)
    then show ?thesis using le [OF r(1,2)] i(4) flt_fle_trans flt_irrefl by metis
  qed
  moreover have "\<not> is_nan (floats0 e)" using best v by (auto simp: is_match_def values_ok_def init_entry_def)
  moreover have "shift_index off e \<in> ?S" if "flt (Fin (-2)) (floats0 e)"
  proof -
    have "e \<noteq> init_entry" using that by (auto simp: init_entry_def)
    then obtain y where y: "0 \<le> y" "y < n" "side_match S x y" "floats0 e = side_value S x y" "ints1 e = word_of_int y"
      using best n by (auto simp: is_match_def)
    have "shift_index off e = \<lparr>floats0 = side_value S x y, ints1 = word_of_int (off + y)\<rparr>"
      using y(4,5) by (simp add: shift_index_def add.commute)
    moreover have "off + y \<in> {off..<off + n}" "f (off + y) = Some (side_value S x y)" using f [OF y(1,2)] y(1-3) by auto
    ultimately show ?thesis by blast
  qed
  ultimately show ?thesis by (simp add: tile_best_def)
qed

text \<open>The jobs a worker does not refuse.\<close>

definition accepted_job :: "ProtoArgs \<Rightarrow> bool" where
  "accepted_job a \<longleftrightarrow> 3 \<le> p_window a \<and> 1024 \<le> p_max_tile_size a \<and> p_window a \<le> p_max_tile_size a div 2"

lemma validate_index:
  assumes "arg_profile_type a = PROFILE_TYPE_1NN_INDEX" "precision_type a = PRECISION_DOUBLE"
    "arg_window a \<le> size_of (timeseries_a a)" "has_b a \<Longrightarrow> arg_window a \<le> size_of (timeseries_b a)"
  shows "validate a = Inr () \<longleftrightarrow> 3 \<le> arg_window a \<and> 1024 \<le> max_tile_size a \<and> arg_window a \<le> max_tile_size a div 2"
    "validate a \<noteq> Inr () \<Longrightarrow> \<exists>msg. validate a = Inl (SCAMPException msg)"
  using assms by (auto simp: validate_def split: if_splits)

lemma entries_to_proto:
  assumes "typed_data PROFILE_TYPE_1NN_INDEX p" "entries p \<noteq> []"
  shows "Profile_to_proto p = Inr \<lparr>pdata = [ULongs (entries p)], ptype = P_1NN_INDEX\<rparr>"
proof -
  obtain d ds where "profile_data p = d # ds" "profile_type p = PROFILE_TYPE_1NN_INDEX"
    using assms(1) unfolding typed_data_def by (cases "profile_data p") simp_all
  then show ?thesis using assms(2) by (simp add: Profile_to_proto_def entries_def the_data_def data_or_none_def)
qed

lemma ULongs_size [simp]: "GetProfileSize \<lparr>pdata = [ULongs v], ptype = P_1NN_INDEX\<rparr> = Inr (size_of v)"
  by (simp add: GetProfileSize_def)

lemma default_to_proto: "Profile_to_proto Profile_default = Inr empty_proto_profile"
  by (simp add: Profile_to_proto_def Profile_default_def empty_proto_profile_def)

text \<open>The place and the size of a tile in the matrix and in the series.\<close>

lemma tile_parts:
  assumes "valid_job a" "t < length (pairs_of a)" "d = job_tile a t" "sz = p_distributed_tile_size a"
  shows "0 \<le> dt_row d" "0 \<le> dt_col d" "0 \<le> dt_row d * sz" "0 \<le> dt_col d * sz" "0 < dt_height d" "0 < dt_width d" "0 < sz"
    "dt_height d \<le> sz" "dt_width d \<le> sz" "dt_id d = int t" "1 \<le> p_window a"
    "nat (dt_col d * sz) + nat (dt_width d + p_window a - 1) \<le> length (p_timeseries_a a)"
    "nat (dt_row d * sz) + nat (dt_height d + p_window a - 1) \<le> length (job_series_b a)"
    "size_of (p_timeseries_a a) < 2 ^ 31" "size_of (job_series_b a) < 2 ^ 31"
    "\<not> p_has_b a \<Longrightarrow> dt_row d \<le> dt_col d" "\<not> p_has_b a \<Longrightarrow> dt_row d < dt_col d \<Longrightarrow> dt_height d = sz"
    "\<not> p_has_b a \<Longrightarrow> dt_row d = dt_col d \<Longrightarrow> dt_height d = dt_width d"
proof -
  obtain r c where p: "pairs_of a ! t = (r, c)" by (cases "pairs_of a ! t")
  then have rc: "(r, c) \<in> set (pairs_of a)" using assms(2) by (metis nth_mem)
  note f = job_tile_fields [OF assms(1,2) p, folded assms(3,4)] and b = pairs_of_bounds [OF assms(1) rc]
    and n = job_tile_bounds [OF assms(1,2), of d, unfolded assms(3), OF refl, folded assms(3,4)]
  show sz: "0 < sz" using assms(1,4) by (simp add: valid_job_def)
  show "0 \<le> dt_row d" "0 \<le> dt_col d" using b f by simp_all
  show w: "1 \<le> p_window a" using assms(1) by (simp add: valid_job_def)
  show "0 \<le> dt_row d * sz" "0 \<le> dt_col d * sz" "0 < dt_height d" "0 < dt_width d" using n by simp_all
  show "dt_height d \<le> sz" "dt_width d \<le> sz" "dt_id d = int t" using f by simp_all
  show "nat (dt_col d * sz) + nat (dt_width d + p_window a - 1) \<le> length (p_timeseries_a a)"
    using n w by (auto simp: matrix_cols_def size_of_def)
  show "nat (dt_row d * sz) + nat (dt_height d + p_window a - 1) \<le> length (job_series_b a)"
    using n w by (auto simp: matrix_rows_def matrix_cols_def job_series_b_def size_of_def split: if_splits)
  show "size_of (p_timeseries_a a) < 2 ^ 31" "size_of (job_series_b a) < 2 ^ 31"
    using assms(1) by (auto simp: valid_job_def job_series_b_def)
  show "dt_row d \<le> dt_col d" if "\<not> p_has_b a" using b(5) that by (simp add: f)
  show "dt_height d = dt_width d" if "\<not> p_has_b a" "dt_row d = dt_col d" using that f by (simp add: matrix_rows_def)
  show "dt_height d = sz" if nb: "\<not> p_has_b a" and lt: "dt_row d < dt_col d"
  proof -
    have "(dt_row d + 1) * sz \<le> dt_col d * sz" using lt sz by (intro mult_right_mono) auto
    then have "sz \<le> matrix_rows a - dt_row d * sz" using n(4,6) nb by (simp add: matrix_rows_def algebra_simps)
    then show ?thesis using f(1,4) by simp
  qed
qed

text \<open>A tile on the diagonal of a self join is a self join.\<close>

lemma diagonal_result:
  assumes a: "index_job a" "t < length (pairs_of a)" "d = job_tile a t" "sz = p_distributed_tile_size a" "\<not> p_has_b a" "dt_row d = dt_col d"
    and i: "op_mp_window info = p_window a" "op_full_ts_len_A info = dt_width d + p_window a - 1"
    and p: "is_matrix_profile info (part (p_timeseries_a a) (nat (dt_col d * sz)) (nat (dt_width d + p_window a - 1))) pa"
    and r: "p_profile_a r = \<lparr>pdata = [ULongs (entries pa)], ptype = P_1NN_INDEX\<rparr>"
  shows "result_ok uint64_of P_1NN_INDEX floats0 shift_index (index_candidates (job_cell a)) a d r"
proof -
  let ?T = "part (p_timeseries_a a) (nat (dt_col d * sz)) (nat (dt_width d + p_window a - 1))" and ?o = "dt_col d * sz"
  let ?S = "self_side info ?T"
  have v: "valid_job a" using a(1) by (simp add: index_job_def)
  note P = tile_parts [OF v a(2-4)]
  have n: "num_windows info = dt_width d" by (simp add: num_windows_def i)
  have e: "exclusion_zone info = job_zone a" by (simp add: exclusion_zone_def job_zone_def i)
  have len: "length (entries pa) = nat (dt_width d)" and best: "\<And>x. x < nat (dt_width d) \<Longrightarrow> best_match ?S (int x) (entries pa ! x)"
    using p by (simp_all add: is_matrix_profile_def best_matches_def self_side_def n)
  have "tile_best floats0 shift_index ?o (\<Union>i \<in> {?o..<?o + dt_width d}. index_candidates (job_cell a) i (?o + int c)) (entries pa ! c)"
    if c: "c < nat (dt_width d)" for c
    unfolding index_candidates_def
  proof (rule tile_best_of_match [OF best [OF c]])
    show "values_ok ?S" by (simp add: values_ok_def self_side_def)
    show "side_others ?S = dt_width d" by (simp add: self_side_def n)
    fix y assume y: "0 \<le> y" "y < dt_width d"
    have "window_value ?T ?T (nat (p_window a)) y (int c) = window_value (p_timeseries_a a) (p_timeseries_a a) (nat (p_window a)) (?o + y) (?o + int c)"
      using window_value_part [OF P(12) P(12), of y "int c" "nat (p_window a)"] y c P(4,11) by simp
    then show "job_cell a (?o + y) (?o + int c) = (if side_match ?S (int c) y then Some (side_value ?S (int c) y) else None)"
      using a(5) by (simp add: job_cell_def self_side_def job_series_b_def match_value_window i(1) e)
  qed
  then show ?thesis
    using a(4-6) P(18) r len by (auto simp: result_ok_def Let_def)
qed

text \<open>Any other tile is a join of two series.\<close>

lemma ab_tile_result:
  assumes a: "index_job a" "t < length (pairs_of a)" "d = job_tile a t" "sz = p_distributed_tile_size a" "p_has_b a \<or> dt_row d \<noteq> dt_col d"
    and i: "op_mp_window info = p_window a" "op_full_ts_len_A info = dt_width d + p_window a - 1"
      "op_full_ts_len_B info = dt_height d + p_window a - 1" "op_is_aligned info = (\<not> p_has_b a)"
      "op_global_start_row_position info = dt_row d * sz" "op_global_start_col_position info = dt_col d * sz"
    and T: "Ta = part (p_timeseries_a a) (nat (dt_col d * sz)) (nat (dt_width d + p_window a - 1))"
      "Tb = part (job_series_b a) (nat (dt_row d * sz)) (nat (dt_height d + p_window a - 1))"
    and p: "best_matches (columns_side info Ta Tb) pa" "\<not> p_has_b a \<Longrightarrow> best_matches (rows_side info Ta Tb) pb"
    and r: "p_profile_a r = \<lparr>pdata = [ULongs (entries pa)], ptype = P_1NN_INDEX\<rparr>"
      "\<not> p_has_b a \<Longrightarrow> p_profile_b r = \<lparr>pdata = [ULongs (entries pb)], ptype = P_1NN_INDEX\<rparr>"
  shows "result_ok uint64_of P_1NN_INDEX floats0 shift_index (index_candidates (job_cell a)) a d r"
proof -
  let ?r = "dt_row d * sz" and ?c = "dt_col d * sz"
  have v: "valid_job a" using a(1) by (simp add: index_job_def)
  note P = tile_parts [OF v a(2-4)]
  have n: "windows_a info = dt_width d" "windows_b info = dt_height d" by (simp_all add: windows_a_def windows_b_def i)
  have e: "exclusion_zone info = job_zone a" by (simp add: exclusion_zone_def job_zone_def i)
  have off: "global_offset info = (?r, ?c)" using P(3,4) by (simp add: global_offset_def i)
  have cell: "job_cell a (?r + y) (?c + x) = (if ab_cell info y x then Some (join_value info Ta Tb y x) else None)"
    if "0 \<le> x" "x < dt_width d" "0 \<le> y" "y < dt_height d" for x y
  proof -
    have "join_value info Ta Tb y x = window_value (p_timeseries_a a) (job_series_b a) (nat (p_window a)) (?r + y) (?c + x)"
      using window_value_part [OF P(12) P(13), of y x "nat (p_window a)"] that P(3,4,11) by (simp add: join_value_window i(1) T)
    then show ?thesis by (simp add: job_cell_def ab_cell_def i(4) off e algebra_simps)
  qed
  have "tile_best floats0 shift_index ?r (\<Union>i \<in> {?r..<?r + dt_height d}. index_candidates (job_cell a) i (?c + int x)) (entries pa ! x)"
    if x: "x < nat (dt_width d)" for x
    unfolding index_candidates_def
  proof (rule tile_best_of_match)
    show "best_match (columns_side info Ta Tb) (int x) (entries pa ! x)" using p(1) x by (simp add: best_matches_def columns_side_def n)
  qed (use x cell in \<open>auto simp: values_ok_def columns_side_def n\<close>)
  moreover have "tile_best floats0 shift_index ?c (\<Union>i \<in> {?c..<?c + dt_width d}. index_candidates (job_cell a) i (?r + int y)) (entries pb ! y)"
    if y: "y < nat (dt_height d)" and b: "\<not> p_has_b a" for y
    unfolding index_candidates_def
  proof (rule tile_best_of_match)
    show "best_match (rows_side info Ta Tb) (int y) (entries pb ! y)" using p(2) [OF b] y by (simp add: best_matches_def rows_side_def n)
  qed (use y cell b in \<open>auto simp: values_ok_def rows_side_def n job_cell_commute [OF b, of "?c + _"]\<close>)
  ultimately show ?thesis using a(4) r by (auto simp: result_ok_def Let_def)
qed

lemma operation_positions:
  assumes "operation_of rd uninit a n = Some info"
  shows "op_global_start_row_position info = distributed_start_row a" "op_global_start_col_position info = distributed_start_col a"
  using assms by (auto simp: operation_of_def OpInfo_init_def Let_def split: if_splits)

lemma operation_geometry:
  assumes "operation_of rd uninit a n = Some info" "1 \<le> arg_window a" "arg_window a \<le> size_of (timeseries_a a)"
    "has_b a \<Longrightarrow> arg_window a \<le> size_of (timeseries_b a)" "size_of (timeseries_a a) < 2 ^ 31" "size_of (timeseries_b a) < 2 ^ 31"
  shows "geometry_ok info"
  by (rule geometry_ok_init [OF assms(1) [unfolded operation_of_def]]) (use assms(2-6) in auto)

text \<open>The tile of an aligned join the worker runs lies well in the self join of the job.\<close>

lemma worker_lies_well:
  assumes a: "index_job a" "t < length (pairs_of a)" "d = job_tile a t" "sz = p_distributed_tile_size a" "\<not> p_has_b a" "dt_row d \<noteq> dt_col d"
    and fit: "tiles_fit a n" and o: "operation_of exact uninit args n = Some info"
    and args: "size_of (timeseries_a args) = dt_width d + p_window a - 1" "size_of (timeseries_b args) = dt_height d + p_window a - 1"
      "has_b args" "arg_window args = p_window a" "max_tile_size args = p_max_tile_size a"
      "distributed_start_row args = dt_row d * sz" "distributed_start_col args = dt_col d * sz"
  shows "tiles_lie_well info"
proof -
  have v: "valid_job a" using a(1) by (simp add: index_job_def)
  note P = tile_parts [OF v a(2-4)]
  have lt: "dt_row d < dt_col d" using P(16) [OF a(5)] a(6) by simp
  note H = P(17) [OF a(5) lt]
  note G = OpInfo_init_geometry [OF o [unfolded operation_of_def]]
  have g: "geometry_ok info"
    by (rule operation_geometry [OF o]) (use args P H in \<open>auto simp: size_of_def\<close>)
  have len: "op_full_ts_len_B info = sz + op_mp_window info - 1" using G(4,6) args H by simp
  have "max_tile_ts_size_of (dt_width d + p_window a - 1) (sz + p_window a - 1) w mt n
      = max_tile_ts_size_of (sz + p_window a - 1) (sz + p_window a - 1) w mt n" for w mt
    using P(9) by (simp add: max_tile_ts_size_of_def max_def)
  then have w: "op_max_tile_width info = inner_width a n" using G(1,2) args a(4) H by (simp add: inner_width_def Let_def)
  have big: "\<not> matrix_cols a \<le> sz"
  proof -
    have "1 * sz \<le> dt_col d * sz" using lt P(1,7) by (intro mult_right_mono) auto
    moreover have "dt_col d * sz + dt_width d \<le> matrix_cols a"
      using job_tile_bounds(6) [OF v a(2), of d] a(3,4) by simp
    ultimately show ?thesis using P(6) by simp
  qed
  have "sz mod op_max_tile_width info = 0 \<or> exclusion_zone info < sz mod op_max_tile_width info"
    using fit a(4,5) big G(4) args(4) by (simp add: tiles_fit_def w exclusion_zone_def job_zone_def Let_def)
  moreover have "\<not> op_self_join info" using G(7) args(3) by simp
  ultimately show ?thesis
    using off_diagonal_lies_well [OF g _ len P(7) _ _ P(1) lt] operation_positions [OF o] args(6,7) by simp
qed

subsection \<open>The worker\<close>

text \<open>
  A result for tile \<open>t\<close> of job \<open>k\<close>: it names the tile as the work did, its profiles have the sizes of the tile, and
  each entry is a best match among the cells of the tile.
\<close>

definition request_of :: "ProtoArgs \<Rightarrow> ProtoArgs" where
  "request_of r = r\<lparr>p_timeseries_a := [], p_timeseries_b := [], p_profile_a := empty_proto_profile, p_profile_b := empty_proto_profile\<rparr>"

definition good_result :: "ProtoArgs \<Rightarrow> nat \<Rightarrow> nat \<Rightarrow> ProtoArgs \<Rightarrow> bool" where
  "good_result a k t r \<longleftrightarrow> request_of r = request_of (work_args a k t)
     \<and> GetProfileSize (p_profile_a r) = Inr (dt_width (job_tile a t))
     \<and> (\<not> p_has_b a \<and> dt_row (job_tile a t) \<noteq> dt_col (job_tile a t) \<longrightarrow> GetProfileSize (p_profile_b r) = Inr (dt_height (job_tile a t)))
     \<and> result_ok uint64_of P_1NN_INDEX floats0 shift_index (index_candidates (job_cell a)) a (job_tile a t) r"

text \<open>The states of the arguments on their way through \<open>ExecuteWork\<close>.\<close>

lemma executed_self:
  assumes a: "index_job a" "t < length (pairs_of a)" "d = job_tile a t" "sz = p_distributed_tile_size a" "\<not> p_has_b a" "dt_row d = dt_col d"
    and i: "op_mp_window info = p_window a" "op_full_ts_len_A info = dt_width d + p_window a - 1"
    and p: "is_matrix_profile info (part (p_timeseries_a a) (nat (dt_col d * sz)) (nat (dt_width d + p_window a - 1))) (profile_a args)"
      "profile_b args = Profile_default"
  shows "\<exists>w. executed_work \<lparr>w_args = work_args a k t, w_valid = True\<rparr> (Inr args) = Inr w \<and> w_valid w \<and> good_result a k t (w_args w)"
proof -
  have v: "valid_job a" using a(1) by (simp add: index_job_def)
  note P = tile_parts [OF v a(2-4)]
  have l: "typed_data PROFILE_TYPE_1NN_INDEX (profile_a args)" "length (entries (profile_a args)) = nat (dt_width d)"
    using p(1) by (simp_all add: is_matrix_profile_entries num_windows_def i)
  then have c: "Profile_to_proto (profile_a args) = Inr \<lparr>pdata = [ULongs (entries (profile_a args))], ptype = P_1NN_INDEX\<rparr>"
    using entries_to_proto P(6) by fastforce
  have r: "result_ok uint64_of P_1NN_INDEX floats0 shift_index (index_candidates (job_cell a)) a d r"
    if "p_profile_a r = \<lparr>pdata = [ULongs (entries (profile_a args))], ptype = P_1NN_INDEX\<rparr>" for r
    by (rule diagonal_result [OF a i p(1) that])
  show ?thesis
    using r P(6) l(2) a(6)
    by (simp add: executed_work_def c p(2) default_to_proto good_result_def request_of_def size_of_def flip: a(3))
qed

lemma executed_ab:
  assumes a: "index_job a" "t < length (pairs_of a)" "d = job_tile a t" "sz = p_distributed_tile_size a" "p_has_b a \<or> dt_row d \<noteq> dt_col d"
    and i: "op_mp_window info = p_window a" "op_full_ts_len_A info = dt_width d + p_window a - 1"
      "op_full_ts_len_B info = dt_height d + p_window a - 1" "op_is_aligned info = (\<not> p_has_b a)"
      "op_global_start_row_position info = dt_row d * sz" "op_global_start_col_position info = dt_col d * sz"
    and T: "Ta = part (p_timeseries_a a) (nat (dt_col d * sz)) (nat (dt_width d + p_window a - 1))"
      "Tb = part (job_series_b a) (nat (dt_row d * sz)) (nat (dt_height d + p_window a - 1))"
    and p: "best_matches (columns_side info Ta Tb) (profile_a args)" "\<not> p_has_b a \<Longrightarrow> best_matches (rows_side info Ta Tb) (profile_b args)"
      "p_has_b a \<Longrightarrow> profile_b args = Profile_default"
  shows "\<exists>w. executed_work \<lparr>w_args = work_args a k t, w_valid = True\<rparr> (Inr args) = Inr w \<and> w_valid w \<and> good_result a k t (w_args w)"
proof -
  have v: "valid_job a" using a(1) by (simp add: index_job_def)
  note P = tile_parts [OF v a(2-4)]
  have l: "typed_data PROFILE_TYPE_1NN_INDEX (profile_a args)" "length (entries (profile_a args)) = nat (dt_width d)"
    using p(1) by (simp_all add: best_matches_def columns_side_def windows_a_def i)
  then have ca: "Profile_to_proto (profile_a args) = Inr \<lparr>pdata = [ULongs (entries (profile_a args))], ptype = P_1NN_INDEX\<rparr>"
    using entries_to_proto P(6) by fastforce
  obtain qb where cb: "Profile_to_proto (profile_b args) = Inr qb"
      "\<not> p_has_b a \<Longrightarrow> qb = \<lparr>pdata = [ULongs (entries (profile_b args))], ptype = P_1NN_INDEX\<rparr>"
      "\<not> p_has_b a \<Longrightarrow> GetProfileSize qb = Inr (dt_height d)"
  proof (cases "p_has_b a")
    case True
    then show thesis using that p(3) default_to_proto by simp
  next
    case False
    have "typed_data PROFILE_TYPE_1NN_INDEX (profile_b args)" "length (entries (profile_b args)) = nat (dt_height d)"
      using p(2) [OF False] by (simp_all add: best_matches_def rows_side_def windows_b_def i)
    then show thesis using that [OF entries_to_proto] P(5) by (fastforce simp: size_of_def)
  qed
  have r: "result_ok uint64_of P_1NN_INDEX floats0 shift_index (index_candidates (job_cell a)) a d r"
    if "p_profile_a r = \<lparr>pdata = [ULongs (entries (profile_a args))], ptype = P_1NN_INDEX\<rparr>" "p_profile_b r = qb" for r
    by (rule ab_tile_result [OF a i T p(1,2) that(1)]) (use cb(2) that(2) in simp_all)
  show ?thesis
    using r P(6) l(2) cb(3)
    by (simp add: executed_work_def ca cb(1) good_result_def request_of_def size_of_def flip: a(3))
qed

lemma refused_work:
  assumes "InitProfileMemory (rd32 fpu) args = Some (True, args')" "ConvertProtoArgsToSCAMPArgs (w_args work) (new_args blank) = Inr args"
    and "n \<le> 0 \<or> (\<exists>msg. validate args' = Inl (SCAMPException msg))"
  shows "ExecuteWork fpu eig fresh uninit blank n sched work = Some (Inr (work\<lparr>w_valid := False\<rparr>))"
  using assms by (auto simp: ExecuteWork_def do_SCAMP_def executed_work_def)

lemma accepted_work:
  assumes "InitProfileMemory (rd32 fpu) args = Some (True, args')" "ConvertProtoArgsToSCAMPArgs (w_args work) (new_args blank) = Inr args"
  shows "ExecuteWork fpu eig fresh uninit blank n sched work =
    map_option (executed_work work) (do_SCAMP fpu eig fresh uninit sched (Some args') [] n)"
  using assms by (simp add: ExecuteWork_def)

lemma answered_work:
  assumes P and "\<And>sched. case E sched of None \<Rightarrow> \<not> fair n m sched | Some r \<Rightarrow> \<exists>w. r = Inr w \<and> V w \<and> G w"
  shows "\<exists>m. \<forall>sched. case E sched of None \<Rightarrow> \<not> fair n m sched
    | Some r \<Rightarrow> \<exists>w. r = Inr w \<and> (V w \<longleftrightarrow> P) \<and> (V w \<longrightarrow> G w)"
proof (intro exI allI)
  fix sched
  show "case E sched of None \<Rightarrow> \<not> fair n m sched | Some r \<Rightarrow> \<exists>w. r = Inr w \<and> (V w \<longleftrightarrow> P) \<and> (V w \<longrightarrow> G w)"
    using assms(2) [of sched] assms(1) by (auto split: option.splits)
qed

lemma ExecuteWork_result:
  assumes a: "index_job a" "t < length (pairs_of a)" "tiles_fit a n" and eig: "eigen_max_contract eig"
  shows "\<exists>m. \<forall>sched. case ExecuteWork exact_fpu eig fresh uninit blank n sched \<lparr>w_args = work_args a k t, w_valid = True\<rparr> of
      None \<Rightarrow> \<not> fair (nat n) m sched
    | Some r \<Rightarrow> \<exists>w. r = Inr w \<and> (w_valid w \<longleftrightarrow> accepted_job a \<and> 0 < n) \<and> (w_valid w \<longrightarrow> good_result a k t (w_args w))"
proof -
  let ?work = "\<lparr>w_args = work_args a k t, w_valid = True\<rparr>" and ?w = "p_window a"
  define d where "d = job_tile a t"
  define sz where "sz = p_distributed_tile_size a"
  have v: "valid_job a" using a(1) by (simp add: index_job_def)
  note P = tile_parts [OF v a(2) d_def sz_def]
  obtain args where A: "ConvertProtoArgsToSCAMPArgs (w_args ?work) (new_args blank) = Inr args"
      "timeseries_a args = part (p_timeseries_a a) (nat (dt_col d * sz)) (nat (dt_width d + ?w - 1))"
      "timeseries_b args = part (job_series_b a) (nat (dt_row d * sz)) (nat (dt_height d + ?w - 1))"
      "has_b args = (p_has_b a \<or> dt_row d \<noteq> dt_col d)" "arg_window args = ?w" "max_tile_size args = p_max_tile_size a"
      "distributed_start_row args = dt_row d * sz" "distributed_start_col args = dt_col d * sz"
      "arg_profile_type args = PROFILE_TYPE_1NN_INDEX" "precision_type args = PRECISION_DOUBLE"
      "computing_columns args" "computing_rows args = (\<not> p_has_b a)"
      "keep_rows_separate args = (\<not> p_has_b a \<and> dt_row d \<noteq> dt_col d)"
      "has_b args \<Longrightarrow> is_aligned args = (\<not> p_has_b a)" "unallocated (profile_a args)"
      "if keep_rows_separate args then unallocated (profile_b args) else profile_b args = Profile_default"
    using work_args_received [OF a(1) d_def sz_def refl, of k blank] by auto
  have size: "size_of (timeseries_a args) = dt_width d + ?w - 1" "size_of (timeseries_b args) = dt_height d + ?w - 1"
    using P A(2,3) by (simp_all add: size_of_def)
  have lt: "size_of (timeseries_a args) < 2 ^ 31" "size_of (timeseries_b args) < 2 ^ 31"
    using P(11-15) size by (simp_all add: size_of_def)
  have pos: "0 < size_of (timeseries_a args) - arg_window args + 1" "0 < size_of (timeseries_b args) - arg_window args + 1"
    using size P(5,6) A(5) by simp_all
  have "keep_rows_separate args \<Longrightarrow> unallocated (profile_b args)" using A(16) by simp
  from InitProfileMemory_unallocated [OF A(15) this pos] obtain pa pb where
    I: "InitProfileMemory (rd32 exact_fpu) args = Some (True, args\<lparr>profile_a := pa, profile_b := pb\<rparr>)" and
    R: "ready_profile (size_of (timeseries_a args) - arg_window args + 1) pa" "if keep_rows_separate args
       then ready_profile (size_of (if has_b args then timeseries_b args else timeseries_a args) - arg_window args + 1) pb
       else pb = profile_b args"
    by blast
  let ?args = "args\<lparr>profile_a := pa, profile_b := pb\<rparr>"
  have valid: "validate ?args = Inr () \<longleftrightarrow> accepted_job a" "validate ?args \<noteq> Inr () \<Longrightarrow> \<exists>msg. validate ?args = Inl (SCAMPException msg)"
    using validate_index [of ?args] A(5,6,9,10) size P(5,6) by (simp_all add: accepted_job_def)
  show ?thesis
  proof (cases "accepted_job a \<and> 0 < n")
    case False
    then have "n \<le> 0 \<or> (\<exists>msg. validate ?args = Inl (SCAMPException msg))" using valid by auto
    from refused_work [OF I A(1) this] False show ?thesis by (intro exI [of _ 0]) auto
  next
    case True
    then have ok: "validate ?args = Inr ()" "0 < n" using valid(1) by simp_all
    have E: "ExecuteWork exact_fpu eig fresh uninit blank n sched ?work =
        map_option (executed_work ?work) (do_SCAMP exact_fpu eig fresh uninit sched (Some ?args) [] n)" for sched
      by (rule accepted_work [OF I A(1)])
    show ?thesis
    proof (cases "p_has_b a \<or> dt_row d \<noteq> dt_col d")
      case False
      have "index_args ?args" using A False R(1) by (simp add: index_args_def)
      note S = do_SCAMP_self_join [OF ok(1) this _ _ ok(2) eig, where fresh = fresh and uninit = uninit]
      obtain info where info: "operation_of exact uninit ?args n = Some info" using ok(2) by (simp add: operation_of_def OpInfo_init_def Let_def)
      have "case ExecuteWork exact_fpu eig fresh uninit blank n sched ?work of
            None \<Rightarrow> \<not> fair (nat n) (5 * nat n + 10 * card (upper_tiles (num_tile_cols info))) sched
          | Some r \<Rightarrow> \<exists>w. r = Inr w \<and> w_valid w \<and> good_result a k t (w_args w)" for sched
      proof -
        have i: "op_mp_window info = ?w" "op_full_ts_len_A info = dt_width d + ?w - 1"
          and D: "case do_SCAMP exact_fpu eig fresh uninit sched (Some ?args) [] n of
            None \<Rightarrow> \<not> fair (nat n) (5 * nat n + 10 * card (upper_tiles (num_tile_cols info))) sched
          | Some r \<Rightarrow> \<exists>p. r = Inr (?args\<lparr>profile_a := p\<rparr>) \<and> is_matrix_profile info (timeseries_a ?args) p"
          using S [where sched = sched] lt info A(5) size by auto
        have "\<exists>w. executed_work ?work (Inr (?args\<lparr>profile_a := p\<rparr>)) = Inr w \<and> w_valid w \<and> good_result a k t (w_args w)"
          if "is_matrix_profile info (timeseries_a ?args) p" for p
          by (rule executed_self [OF a(1,2) d_def sz_def _ _ i]) (use False that A R(2) in simp_all)
        then show ?thesis using D by (auto simp: E split: option.splits)
      qed
      with True show ?thesis by (rule answered_work)
    next
      case ab: True
      have X: "ab_index_args ?args" using A ab R by (auto simp: ab_index_args_def)
      have well: "tiles_lie_well info" if "operation_of exact uninit ?args n = Some info" "is_aligned ?args" for info
      proof -
        have nb: "\<not> p_has_b a" using that(2) A(4,14) ab by simp
        then have ne: "dt_row d \<noteq> dt_col d" using ab by simp
        show ?thesis by (rule worker_lies_well [OF a(1,2) d_def sz_def nb ne a(3) that(1)]) (use A size ab in simp_all)
      qed
      have S: "\<exists>info. operation_of exact uninit ?args n = Some info \<and> op_is_aligned info = is_aligned ?args
          \<and> op_mp_window info = arg_window ?args \<and> op_full_ts_len_A info = size_of (timeseries_a ?args)
          \<and> op_full_ts_len_B info = size_of (timeseries_b ?args)
          \<and> (case do_SCAMP exact_fpu eig fresh uninit sched (Some ?args) [] n of
              None \<Rightarrow> \<not> fair (nat n) (5 * nat n + 10 * card (all_tiles (num_tile_rows info) (num_tile_cols info))) sched
            | Some r \<Rightarrow> \<exists>a'. r = Inr a' \<and> a' = ?args\<lparr>profile_a := profile_a a', profile_b := profile_b a'\<rparr> \<and> ab_profiles info ?args a'
                \<and> (\<not> computing_rows ?args \<longrightarrow> \<not> keep_rows_separate ?args \<longrightarrow> profile_b a' = profile_b ?args))" for sched
        by (rule do_SCAMP_ab_join [OF ok(1) X _ _ ok(2) eig well]) (use lt in simp_all)
      obtain info where info: "operation_of exact uninit ?args n = Some info" using ok(2) by (simp add: operation_of_def OpInfo_init_def Let_def)
      note at = operation_positions [OF info]
      have "case ExecuteWork exact_fpu eig fresh uninit blank n sched ?work of
            None \<Rightarrow> \<not> fair (nat n) (5 * nat n + 10 * card (all_tiles (num_tile_rows info) (num_tile_cols info))) sched
          | Some r \<Rightarrow> \<exists>w. r = Inr w \<and> w_valid w \<and> good_result a k t (w_args w)" for sched
      proof -
        have i: "op_mp_window info = ?w" "op_full_ts_len_A info = dt_width d + ?w - 1" "op_full_ts_len_B info = dt_height d + ?w - 1"
            "op_is_aligned info = (\<not> p_has_b a)"
          and D: "case do_SCAMP exact_fpu eig fresh uninit sched (Some ?args) [] n of
            None \<Rightarrow> \<not> fair (nat n) (5 * nat n + 10 * card (all_tiles (num_tile_rows info) (num_tile_cols info))) sched
          | Some r \<Rightarrow> \<exists>a'. r = Inr a' \<and> a' = ?args\<lparr>profile_a := profile_a a', profile_b := profile_b a'\<rparr> \<and> ab_profiles info ?args a'
              \<and> (\<not> computing_rows ?args \<longrightarrow> \<not> keep_rows_separate ?args \<longrightarrow> profile_b a' = profile_b ?args)"
          using S [of sched] info A(4,5,14) ab size by auto
        have "\<exists>w. executed_work ?work (Inr a') = Inr w \<and> w_valid w \<and> good_result a k t (w_args w)"
          if "ab_profiles info ?args a'" "\<not> computing_rows ?args \<longrightarrow> \<not> keep_rows_separate ?args \<longrightarrow> profile_b a' = profile_b ?args" for a'
          by (rule executed_ab [OF a(1,2) d_def sz_def ab i _ _ refl refl])
            (use that A R(2) at in \<open>auto simp: ab_profiles_def\<close>)
        then show ?thesis using D by (auto simp: E split: option.splits)
      qed
      with True show ?thesis by (rule answered_work)
    qed
  qed
qed

end
