(* ===== verification/DistServerRun.thy ===== *)
theory DistServerRun
  imports DistServer
begin

text \<open>
  Runs of the server: any sequence of remote calls and clean-ups. Every job of a server run is in a state
  some run of that job reaches, with results that were sent to it, so what holds of the runs of a job
  holds of every job of the server. The result a client fetches is the matrix profile.
\<close>

subsection \<open>Calls\<close>

datatype call =
    Issue ProtoArgs
  | Check int
  | Fetch_result int
  | Request int
  | Send_result ProtoArgs
  | Report_failure ProtoArgs
  | Cleanup

datatype reply = R_status RpcStatus SCAMPStatus | R_work RpcStatus SCAMPWork | R_empty RpcStatus | No_reply

inductive server_step :: "rounding \<Rightarrow> rounding \<Rightarrow> (nat \<Rightarrow> nat list) \<Rightarrow> JobList \<Rightarrow> call \<Rightarrow> reply \<Rightarrow> JobList \<Rightarrow> bool"
  for rd rf ord where
  issue: "IssueNewJob rd ord now a l = Inr (s, st, l') \<Longrightarrow> server_step rd rf ord l (Issue a) (R_status s st) l'"
| check: "CheckJobStatus rf now jid l = Inr (s, st, l') \<Longrightarrow> server_step rd rf ord l (Check jid) (R_status s st) l'"
| fetch_result: "FetchJobResult now jid l = (s, w, l') \<Longrightarrow> server_step rd rf ord l (Fetch_result jid) (R_work s w) l'"
| request: "RequestSCAMPWork rf now th l = Inr (s, w, l') \<Longrightarrow> server_step rd rf ord l (Request th) (R_work s w) l'"
| send: "SCAMPCombiner rd now r l = Inr (s, l') \<Longrightarrow> server_step rd rf ord l (Send_result r) (R_empty s) l'"
| report: "ReportTileFailure now r l = (s, l') \<Longrightarrow> server_step rd rf ord l (Report_failure r) (R_empty s) l'"
| cleanup: "server_step rd rf ord l Cleanup No_reply (cleanup_jobs now l)"

inductive_cases issue_callE: "server_step rd rf ord l (Issue a) rep l'"
inductive_cases fetch_callE: "server_step rd rf ord l (Fetch_result jid) rep l'"

inductive server_run ::
  "rounding \<Rightarrow> rounding \<Rightarrow> (nat \<Rightarrow> nat list) \<Rightarrow> JobListSchedulerType \<Rightarrow> (call \<times> reply) list \<Rightarrow> JobList \<Rightarrow> bool"
  for rd rf ord ty where
  start: "server_run rd rf ord ty [] (JobList_init ty)"
| step: "server_run rd rf ord ty cs l \<Longrightarrow> server_step rd rf ord l c rep l' \<Longrightarrow> server_run rd rf ord ty (cs @ [(c, rep)]) l'"

text \<open>The arguments of the jobs that were made, in order, and the results sent so far.\<close>

fun issued_jobs :: "(call \<times> reply) list \<Rightarrow> ProtoArgs list" where
  "issued_jobs [] = []"
| "issued_jobs ((Issue a, R_status RPC_OK st) # cs) = a # issued_jobs cs"
| "issued_jobs (c # cs) = issued_jobs cs"

definition sent_results :: "(call \<times> reply) list \<Rightarrow> ProtoArgs set" where
  "sent_results cs = {r. \<exists>rep. (Send_result r, rep) \<in> set cs}"

lemma issued_jobs_append [simp]: "issued_jobs (xs @ ys) = issued_jobs xs @ issued_jobs ys"
  by (induction xs rule: issued_jobs.induct) auto

lemma sent_results_append [simp]: "sent_results (xs @ ys) = sent_results xs \<union> sent_results ys"
  by (auto simp: sent_results_def)

subsection \<open>Jobs of the server are runs of jobs\<close>

definition job_reached ::
  "rounding \<Rightarrow> (nat \<Rightarrow> nat list) \<Rightarrow> ProtoArgs set \<Rightarrow> ProtoArgs \<Rightarrow> nat \<Rightarrow> Job \<Rightarrow> bool" where
  "job_reached rd ord sent a k j \<longleftrightarrow> (\<exists>now j0 es. make_job rd ord a (i32 (int k)) now = Inr j0 \<and> job_run rd j0 es j
     \<and> (\<forall>r. Combined True r \<in> set es \<longrightarrow> r \<in> sent \<and> i32 (p_job_id r) = int k))"

text \<open>One more operation on a job, which may only accept results that were sent to it.\<close>

lemma job_reached_step:
  assumes "job_reached rd ord sent a k j" "job_step rd j e j'" "\<And>r. e = Combined True r \<Longrightarrow> r \<in> sent' \<and> i32 (p_job_id r) = int k"
    "sent \<subseteq> sent'"
  shows "job_reached rd ord sent' a k j'"
proof -
  obtain now j0 es where j: "make_job rd ord a (i32 (int k)) now = Inr j0" "job_run rd j0 es j"
    "\<And>r. Combined True r \<in> set es \<Longrightarrow> r \<in> sent \<and> i32 (p_job_id r) = int k"
    using assms(1) by (auto simp: job_reached_def)
  have "job_run rd j0 (es @ [e]) j'" using job_run.step [OF j(2) assms(2)] .
  moreover have "r \<in> sent' \<and> i32 (p_job_id r) = int k" if "Combined True r \<in> set (es @ [e])" for r
    using that j(3) assms(3,4) by fastforce
  ultimately show ?thesis using j(1) unfolding job_reached_def by blast
qed

lemma job_reached_mono: "job_reached rd ord sent a k j \<Longrightarrow> sent \<subseteq> sent' \<Longrightarrow> job_reached rd ord sent' a k j"
  unfolding job_reached_def by blast

lemma job_reached_new: "make_job rd ord a (i32 (int k)) now = Inr j \<Longrightarrow> job_reached rd ord sent a k j"
  unfolding job_reached_def using job_run.start by fastforce

definition jobs_reached :: "rounding \<Rightarrow> (nat \<Rightarrow> nat list) \<Rightarrow> ProtoArgs set \<Rightarrow> ProtoArgs list \<Rightarrow> Job list \<Rightarrow> bool" where
  "jobs_reached rd ord sent args js \<longleftrightarrow> length js = length args \<and> (\<forall>k < length js. job_reached rd ord sent (args ! k) k (js ! k))"

lemma jobs_reached_update:
  assumes "jobs_reached rd ord sent args js" "job_step rd (js ! k) e j" "k < length js"
    "\<And>r. e = Combined True r \<Longrightarrow> r \<in> sent' \<and> i32 (p_job_id r) = int k" "sent \<subseteq> sent'"
  shows "jobs_reached rd ord sent' args (js[k := j])"
proof -
  have "job_reached rd ord sent (args ! k) k (js ! k)" using assms(1,3) by (simp add: jobs_reached_def)
  then have "job_reached rd ord sent' (args ! k) k j" using job_reached_step assms(2,4,5) by blast
  moreover have "job_reached rd ord sent' (args ! i) i (js ! i)" if "i < length js" for i
    using assms(1) that job_reached_mono [OF _ assms(5)] by (simp add: jobs_reached_def)
  ultimately have "job_reached rd ord sent' (args ! i) i (js[k := j] ! i)" if "i < length js" for i
    using that by (cases "i = k") simp_all
  then show ?thesis using assms(1) by (simp add: jobs_reached_def)
qed

lemma jobs_reached_mono: "jobs_reached rd ord sent args js \<Longrightarrow> sent \<subseteq> sent' \<Longrightarrow> jobs_reached rd ord sent' args js"
  using job_reached_mono by (auto simp: jobs_reached_def)

subsection \<open>The clean-up and the schedulers\<close>

text \<open>The keys of the run list are keys of jobs, each once.\<close>

definition run_list_ok :: "nat list \<Rightarrow> Job list \<Rightarrow> bool" where
  "run_list_ok ks js \<longleftrightarrow> distinct ks \<and> set ks \<subseteq> {..<length js}"

lemma cleanup_jobs_loop_reached:
  assumes "cleanup_jobs_loop now ks js = (kept, js')" "jobs_reached rd ord sent args js" "set ks \<subseteq> {..<length js}"
  shows "jobs_reached rd ord sent args js' \<and> length js' = length js \<and> set kept \<subseteq> set ks \<and> (distinct ks \<longrightarrow> distinct kept)"
  using assms
proof (induction now ks js arbitrary: kept js' rule: cleanup_jobs_loop.induct)
  case (2 now k ks js)
  obtain kept1 where c: "cleanup_jobs_loop now ks (js[k := check_time_tile now (js ! k)]) = (kept1, js')"
    "kept = (if j_status (check_time_tile now (js ! k)) \<noteq> JOB_STATUS_RUNNING then kept1 else k # kept1)"
    using 2(2) by (auto simp: Let_def split: prod.splits)
  have "jobs_reached rd ord sent args (js[k := check_time_tile now (js ! k)])"
    by (rule jobs_reached_update [OF 2(3) job_step.check]) (use 2(4) in auto)
  from 2(1) [OF refl c(1) this] 2(4) c(2) show ?case by auto
qed auto

text \<open>Asking one job of the list for work.\<close>

lemma ask_reached:
  assumes "jobs_reached rd ord sent args js" "has_work now (js ! k) = (b, j)" "k < length js"
  shows "jobs_reached rd ord sent args (js[k := j])"
  by (rule jobs_reached_update [OF assms(1) job_step.ask [OF assms(2)] assms(3)]) simp_all

lemma issue_order_reached:
  assumes "issue_order_loop now ks js = (r, js')" "jobs_reached rd ord sent args js" "set ks \<subseteq> {..<length js}"
  shows "jobs_reached rd ord sent args js' \<and> length js' = length js \<and> (\<forall>k. r = Some k \<longrightarrow> k \<in> set ks)"
  using assms
proof (induction ks arbitrary: js)
  case (Cons k ks)
  obtain b j where h: "has_work now (js ! k) = (b, j)" by (cases "has_work now (js ! k)")
  have I: "jobs_reached rd ord sent args (js[k := j])" using ask_reached [OF Cons.prems(2) h] Cons.prems(3) by simp
  show ?case
  proof (cases b)
    case True
    then show ?thesis using Cons.prems(1) h I by auto
  next
    case False
    then have "issue_order_loop now ks (js[k := j]) = (r, js')" using Cons.prems(1) h by simp
    from Cons.IH [OF this I] Cons.prems(3) show ?thesis by auto
  qed
qed simp

lemma round_robin_reached:
  assumes "round_robin_loop now n ks js = (r, ks', js')" "jobs_reached rd ord sent args js" "set ks \<subseteq> {..<length js}"
  shows "jobs_reached rd ord sent args js' \<and> length js' = length js \<and> mset ks' = mset ks \<and> (\<forall>k. r = Some k \<longrightarrow> k \<in> set ks)"
  using assms
proof (induction n arbitrary: ks js)
  case 0
  then show ?case by simp
next
  case (Suc n)
  show ?case
  proof (cases ks)
    case Nil
    then show ?thesis using Suc.prems by simp
  next
    case (Cons k ks1)
    obtain b j where h: "has_work now (js ! k) = (b, j)" by (cases "has_work now (js ! k)")
    have I: "jobs_reached rd ord sent args (js[k := j])" using ask_reached [OF Suc.prems(2) h] Suc.prems(3) Cons by simp
    show ?thesis
    proof (cases b)
      case True
      then show ?thesis using Suc.prems(1) h I Cons by auto
    next
      case False
      then have "round_robin_loop now n (ks1 @ [k]) (js[k := j]) = (r, ks', js')" using Suc.prems(1) h Cons by simp
      from Suc.IH [OF this I] Suc.prems(3) Cons show ?thesis by auto
    qed
  qed
qed

lemma ending_soonest_reached:
  assumes "ending_soonest_loop rf now ks js e b = Some (r, js')" "jobs_reached rd ord sent args js" "set ks \<subseteq> {..<length js}"
  shows "jobs_reached rd ord sent args js' \<and> length js' = length js \<and> (\<forall>k. r = Some k \<longrightarrow> k \<in> set ks \<or> b = Some k)"
  using assms
proof (induction ks arbitrary: js e b)
  case (Cons k ks)
  obtain w j where h: "has_work now (js ! k) = (w, j)" by (cases "has_work now (js ! k)")
  have I: "jobs_reached rd ord sent args (js[k := j])" using ask_reached [OF Cons.prems(2) h] Cons.prems(3) by simp
  obtain e' b' where l: "ending_soonest_loop rf now ks (js[k := j]) e' b' = Some (r, js')" "b' = b \<or> b' = Some k"
    using Cons.prems(1) h by (auto simp: Let_def split: if_splits Option.bind_splits)
  from Cons.IH [OF l(1) I] Cons.prems(3) l(2) show ?case by auto
qed simp

lemma lowest_progress_reached:
  assumes "lowest_progress_loop rf now ks js p b = (r, js')" "jobs_reached rd ord sent args js" "set ks \<subseteq> {..<length js}"
  shows "jobs_reached rd ord sent args js' \<and> length js' = length js \<and> (\<forall>k. r = Some k \<longrightarrow> k \<in> set ks \<or> b = Some k)"
  using assms
proof (induction ks arbitrary: js p b)
  case (Cons k ks)
  obtain w j where h: "has_work now (js ! k) = (w, j)" by (cases "has_work now (js ! k)")
  have I: "jobs_reached rd ord sent args (js[k := j])" using ask_reached [OF Cons.prems(2) h] Cons.prems(3) by simp
  obtain p' b' where l: "lowest_progress_loop rf now ks (js[k := j]) p' b' = (r, js')" "b' = b \<or> b' = Some k"
    using Cons.prems(1) h by (auto split: if_splits)
  from Cons.IH [OF l(1) I] Cons.prems(3) l(2) show ?case by auto
qed simp

lemma scheduler_reached:
  assumes "get_highest_priority_job rf now l = Some (r, l')" "jobs_reached rd ord sent args (task_list l)"
    "run_list_ok (run_list l) (task_list l)"
  shows "jobs_reached rd ord sent args (task_list l') \<and> run_list_ok (run_list l') (task_list l')
    \<and> (\<forall>k. r = Some k \<longrightarrow> k < length (task_list l'))"
proof (cases "schedule_type l")
  case SCHEDULE_TYPE_ISSUE_ORDER
  then obtain js where "issue_order_loop now (run_list l) (task_list l) = (r, js)" "l' = l\<lparr>task_list := js\<rparr>"
    using assms(1) by (auto simp: get_highest_priority_job_def ScheduleIssueOrder_def split: prod.splits)
  then show ?thesis using issue_order_reached [OF _ assms(2)] assms(3) by (fastforce simp: run_list_ok_def)
next
  case SCHEDULE_TYPE_ROUND_ROBIN
  then obtain ks js where l: "round_robin_loop now (length (run_list l)) (run_list l) (task_list l) = (r, ks, js)"
      "l' = l\<lparr>run_list := ks, task_list := js\<rparr>"
    using assms(1) by (auto simp: get_highest_priority_job_def ScheduleRoundRobin_def split: prod.splits)
  have m: "mset ks = mset (run_list l)" and R: "jobs_reached rd ord sent args js" "length js = length (task_list l)"
    "\<forall>k. r = Some k \<longrightarrow> k \<in> set (run_list l)"
    using round_robin_reached [OF l(1) assms(2)] assms(3) by (auto simp: run_list_ok_def)
  have "distinct ks" "set ks = set (run_list l)"
    using mset_eq_imp_distinct_iff [OF m] mset_eq_setD [OF m] assms(3) by (simp_all add: run_list_ok_def)
  then show ?thesis using R l(2) assms(3) by (auto simp: run_list_ok_def)
next
  case SCHEDULE_TYPE_LEAST_ETA
  then obtain js where "ending_soonest_loop rf now (run_list l) (task_list l) INT_MAX None = Some (r, js)" "l' = l\<lparr>task_list := js\<rparr>"
    using assms(1) by (auto simp: get_highest_priority_job_def ScheduleEndingSoonest_def)
  then show ?thesis using ending_soonest_reached [OF _ assms(2)] assms(3) by (fastforce simp: run_list_ok_def)
next
  case SCHEDULE_TYPE_LEAST_PROGRESS
  then obtain js where "lowest_progress_loop rf now (run_list l) (task_list l) (Fin 1) None = (r, js)" "l' = l\<lparr>task_list := js\<rparr>"
    using assms(1) by (auto simp: get_highest_priority_job_def ScheduleLowestProgress_def split: prod.splits)
  then show ?thesis using lowest_progress_reached [OF _ assms(2)] assms(3) by (fastforce simp: run_list_ok_def)
qed

subsection \<open>The invariant of the server\<close>

definition server_inv :: "rounding \<Rightarrow> (nat \<Rightarrow> nat list) \<Rightarrow> (call \<times> reply) list \<Rightarrow> JobList \<Rightarrow> bool" where
  "server_inv rd ord cs l \<longleftrightarrow> jobs_reached rd ord (sent_results cs) (issued_jobs cs) (task_list l)
     \<and> run_list_ok (run_list l) (task_list l)"

lemma update_job_simps [simp]:
  "task_list (update_job k j l) = (task_list l)[k := j]" "run_list (update_job k j l) = run_list l"
  by (simp_all add: update_job_def)

lemma get_job_Some: "get_job jid l = Some k \<longleftrightarrow> jid = int k \<and> k < length (task_list l)"
  by (auto simp: get_job_def)

lemma server_inv_update:
  assumes "server_inv rd ord cs l" "job_step rd (task_list l ! k) e j" "k < length (task_list l)"
    "\<And>r. e = Combined True r \<Longrightarrow> r \<in> sent_results (cs @ [c]) \<and> i32 (p_job_id r) = int k" "issued_jobs [c] = []"
  shows "server_inv rd ord (cs @ [c]) (update_job k j l)"
proof -
  have "jobs_reached rd ord (sent_results (cs @ [c])) (issued_jobs cs) ((task_list l)[k := j])"
    by (rule jobs_reached_update [OF _ assms(2,3) assms(4)]) (use assms(1) in \<open>auto simp: server_inv_def\<close>)
  then show ?thesis using assms(1,5) by (simp add: server_inv_def run_list_ok_def)
qed

lemma server_inv_same:
  "server_inv rd ord cs l \<Longrightarrow> issued_jobs [c] = [] \<Longrightarrow> server_inv rd ord (cs @ [c]) l"
  using jobs_reached_mono [of rd ord "sent_results cs" "issued_jobs cs" "task_list l" "sent_results (cs @ [c])"]
  by (auto simp: server_inv_def)

lemma server_step_inv:
  assumes "server_step rd rf ord l c rep l'" "server_inv rd ord cs l"
  shows "server_inv rd ord (cs @ [(c, rep)]) l'"
  using assms(1)
proof cases
  case (issue now a s st)
  show ?thesis
  proof (cases "s = RPC_OK")
    case True
    then obtain j where j: "make_job rd ord a (i32 (int (length (task_list l)))) now = Inr j"
        "l' = l\<lparr>task_list := task_list l @ [j], run_list := run_list l @ [length (task_list l)]\<rparr>"
      using issue(3) by (auto simp: IssueNewJob_def add_job_def Let_def split: if_splits sum.splits failure.splits elim!: rbind_InrE)
    then have "job_reached rd ord (sent_results cs) a (length (task_list l)) j" by (intro job_reached_new)
    then show ?thesis
      using assms(2) j(2) issue True
      by (auto simp: server_inv_def jobs_reached_def run_list_ok_def nth_append sent_results_def less_Suc_eq)
  next
    case False
    then have "l' = l" using issue(3) by (auto simp: IssueNewJob_def split: if_splits sum.splits failure.splits)
    moreover have "issued_jobs [(c, rep)] = []" using False issue by (cases s) auto
    ultimately show ?thesis using server_inv_same [OF assms(2)] by simp
  qed
next
  case (check now jid s st)
  show ?thesis
  proof (cases "get_job (i32 jid) l")
    case None
    then show ?thesis using check server_inv_same [OF assms(2)] by (auto simp: CheckJobStatus_def Let_def)
  next
    case (Some k)
    obtain b j where d: "is_done now (task_list l ! k) = (b, j)" by (cases "is_done now (task_list l ! k)")
    have u: "l' = update_job k j l" using check(3) Some d by (auto simp: CheckJobStatus_def Let_def elim!: rbind_InrE)
    show ?thesis unfolding u
      by (rule server_inv_update [OF assms(2) job_step.poll [OF d]]) (use Some check in \<open>simp_all add: get_job_Some\<close>)
  qed
next
  case (fetch_result now jid s w)
  then show ?thesis
    using server_inv_same [OF assms(2)] server_inv_update [OF assms(2) job_step.poll]
    by (auto simp: FetchJobResult_def get_job_Some split: option.splits prod.splits)
next
  case (request now th s w)
  obtain r l1 where h: "get_highest_priority_job rf now l = Some (r, l1)"
    using request(3) by (auto simp: RequestSCAMPWork_def of_option_def split: option.splits)
  have I: "server_inv rd ord cs l1" "\<And>k. r = Some k \<Longrightarrow> k < length (task_list l1)"
    using scheduler_reached [OF h, of rd ord] assms(2) by (auto simp: server_inv_def)
  show ?thesis
  proof (cases r)
    case None
    then show ?thesis using request h server_inv_same [OF I(1)] by (auto simp: RequestSCAMPWork_def)
  next
    case (Some k)
    then obtain a j where f: "fetch_ready_tile now th empty_proto_args (task_list l1 ! k) = Inr (a, j)" "l' = update_job k j l1"
      using request(3) h by (auto simp: RequestSCAMPWork_def elim!: rbind_InrE)
    show ?thesis unfolding f(2)
      by (rule server_inv_update [OF I(1) job_step.fetch [OF f(1)] I(2) [OF Some]]) (simp_all add: request)
  qed
next
  case (send now r s)
  show ?thesis
  proof (cases "get_job (i32 (p_job_id r)) l")
    case None
    then show ?thesis using send server_inv_same [OF assms(2)] by (auto simp: SCAMPCombiner_def)
  next
    case (Some k)
    then obtain ok j where f: "CombineProfile rd now r (task_list l ! k) = Inr (ok, j)" "l' = update_job k j l"
      using send(3) by (auto simp: SCAMPCombiner_def elim!: rbind_InrE)
    show ?thesis unfolding f(2)
      by (rule server_inv_update [OF assms(2) job_step.combine [OF f(1)]])
        (use Some in \<open>auto simp: send get_job_Some sent_results_def\<close>)
  qed
next
  case (report now r s)
  then show ?thesis
    using server_inv_same [OF assms(2)] server_inv_update [OF assms(2) job_step.fail]
    by (auto simp: ReportTileFailure_def get_job_Some split: option.splits)
next
  case (cleanup now)
  obtain kept js where c: "cleanup_jobs_loop now (run_list l) (task_list l) = (kept, js)"
    by (cases "cleanup_jobs_loop now (run_list l) (task_list l)")
  have "server_inv rd ord cs l'"
    using cleanup_jobs_loop_reached [OF c, of rd ord "sent_results cs" "issued_jobs cs"] assms(2) cleanup(3)
    by (auto simp: server_inv_def run_list_ok_def cleanup_jobs_def c)
  then show ?thesis using server_inv_same cleanup by simp
qed

lemma server_run_inv: "server_run rd rf ord ty cs l \<Longrightarrow> server_inv rd ord cs l"
proof (induction rule: server_run.induct)
  case start
  then show ?case by (simp add: server_inv_def JobList_init_def jobs_reached_def run_list_ok_def)
next
  case (step cs l c rep l')
  then show ?case by (rule_tac server_step_inv)
qed

subsection \<open>The result of a job\<close>

text \<open>Every result sent for job \<open>k\<close> is right for the cells of the tile it names.\<close>

definition honest_for :: "(int \<Rightarrow> int \<Rightarrow> fp option) \<Rightarrow> nat \<Rightarrow> (call \<times> reply) list \<Rightarrow> bool" where
  "honest_for cell k cs \<longleftrightarrow> (\<forall>r \<in> sent_results cs. i32 (p_job_id r) = int k \<longrightarrow>
     result_ok uint64_of P_1NN_INDEX floats0 shift_index (index_candidates cell) (issued_jobs cs ! k)
       (job_tile (issued_jobs cs ! k) (nat (i32 (p_tile_id r)))) r)"

definition honest_workers :: "(nat \<Rightarrow> int \<Rightarrow> int \<Rightarrow> fp option) \<Rightarrow> (call \<times> reply) list \<Rightarrow> bool" where
  "honest_workers cell cs \<longleftrightarrow> (\<forall>k < length (issued_jobs cs). honest_for (cell k) k cs)"

text \<open>The entries of the profile of a job: the best match of every column.\<close>

definition best_of_job :: "(int \<Rightarrow> int \<Rightarrow> fp option) \<Rightarrow> ProtoArgs \<Rightarrow> ProtoProfile \<Rightarrow> bool" where
  "best_of_job cell a p \<longleftrightarrow> (\<exists>v. p = \<lparr>pdata = [ULongs v], ptype = P_1NN_INDEX\<rparr> \<and> int (length v) = matrix_cols a
    \<and> (\<forall>c < length v.
        (v ! c = init_entry \<or> (\<exists>i \<in> {0..<matrix_rows a}. cell i (int c) = Some (floats0 (v ! c)) \<and> ints1 (v ! c) = word_of_int i))
        \<and> (\<forall>i \<in> {0..<matrix_rows a}. \<forall>x. cell i (int c) = Some x \<longrightarrow> \<not> flt (floats0 (v ! c)) x)))"

lemma fetched_result_of_job:
  assumes "double_rounding rd" "map_order ord" "server_run rd rf ord ty cs l" "honest_for cell (nat (i32 jid)) cs"
    "FetchJobResult now jid l = (s, w, l')" "w_valid w"
    "a = issued_jobs cs ! nat (i32 jid)" "valid_job a" "\<not> p_keep_rows_separate a" "p_profile_type a = P_1NN_INDEX"
  shows "nat (i32 jid) < length (issued_jobs cs)" "best_of_job cell a (p_profile_a (w_args w))"
proof -
  obtain k j where k: "i32 jid = int k" "k < length (task_list l)" "is_done now (task_list l ! k) = (True, j)" "w_args w = j_args j"
    using assms(5,6) by (auto simp: FetchJobResult_def get_job_Some empty_work_def split: option.splits prod.splits if_splits)
  have R: "jobs_reached rd ord (sent_results cs) (issued_jobs cs) (task_list l)"
    using server_run_inv [OF assms(3)] by (simp add: server_inv_def)
  then have len: "k < length (issued_jobs cs)" using k(2) by (simp add: jobs_reached_def)
  then show "nat (i32 jid) < length (issued_jobs cs)" using k(1) by simp
  have a: "a = issued_jobs cs ! k" using assms(7) k(1) by simp
  have "job_reached rd ord (sent_results cs) a k (task_list l ! k)" using R k(2) a by (simp add: jobs_reached_def)
  then obtain t j0 es where r: "make_job rd ord a (i32 (int k)) t = Inr j0" "job_run rd j0 es (task_list l ! k)"
    "\<And>r. Combined True r \<in> set es \<Longrightarrow> r \<in> sent_results cs \<and> i32 (p_job_id r) = int k"
    unfolding job_reached_def by blast
  have run: "job_run rd j0 (es @ [Polled True]) j" by (rule job_run.step [OF r(2) job_step.poll [OF k(3)]])
  have "index_results_ok cell a (es @ [Polled True])"
    unfolding index_results_ok_def results_ok_def
  proof (intro allI impI)
    fix q assume "Combined True q \<in> set (es @ [Polled True])"
    then have "q \<in> sent_results cs" "i32 (p_job_id q) = int k" using r(3) by auto
    then show "result_ok uint64_of P_1NN_INDEX floats0 shift_index (index_candidates cell) a
        (job_tile a (nat (i32 (p_tile_id q)))) q"
      using assms(4) k(1) unfolding honest_for_def a by simp
  qed
  moreover have "j_status j = JOB_STATUS_FINISHED" using k(3) by (auto simp: is_done_def split: if_splits)
  ultimately show "best_of_job cell a (p_profile_a (w_args w))"
    using finished_index_profile [OF assms(1,8,2,9,10) r(1) run] k(4) by (simp add: best_of_job_def)
qed

text \<open>
  C27. What a client fetches is the matrix profile: if the workers send right results, then whatever calls
  the server got from any number of clients and workers, in any order, a result it marks as valid has in
  column \<open>c\<close> the value and the index of the best match of that column in the job's own distance matrix.
\<close>

theorem fetched_result_profile:
  assumes "double_rounding rd" "map_order ord" "server_run rd rf ord ty cs l" "honest_workers cell cs"
    "FetchJobResult now jid l = (s, w, l')" "w_valid w"
    "a = issued_jobs cs ! nat (i32 jid)" "valid_job a" "\<not> p_keep_rows_separate a" "p_profile_type a = P_1NN_INDEX"
  shows "\<exists>v. p_profile_a (w_args w) = \<lparr>pdata = [ULongs v], ptype = P_1NN_INDEX\<rparr> \<and> int (length v) = matrix_cols a
    \<and> (\<forall>c < length v.
        (v ! c = init_entry \<or> (\<exists>i \<in> {0..<matrix_rows a}.
            cell (nat (i32 jid)) i (int c) = Some (floats0 (v ! c)) \<and> ints1 (v ! c) = word_of_int i))
        \<and> (\<forall>i \<in> {0..<matrix_rows a}. \<forall>x. cell (nat (i32 jid)) i (int c) = Some x \<longrightarrow> \<not> flt (floats0 (v ! c)) x))"
proof -
  have len: "nat (i32 jid) < length (issued_jobs cs)"
    using server_run_inv [OF assms(3)] assms(5,6)
    by (auto simp: FetchJobResult_def get_job_Some empty_work_def server_inv_def jobs_reached_def split: option.splits prod.splits if_splits)
  then have "honest_for (cell (nat (i32 jid))) (nat (i32 jid)) cs" using assms(4) by (simp add: honest_workers_def)
  from fetched_result_of_job(2) [OF assms(1-3) this assms(5-10)] show ?thesis by (simp add: best_of_job_def)
qed

subsection \<open>Round robin\<close>

lemma round_robin_spec:
  assumes "round_robin_loop now (length ks1) (ks1 @ ks2) js = (r, ks', js')" "distinct ks1" "set ks1 \<subseteq> {..<length js}"
  shows "(case r of
      None \<Rightarrow> ks' = ks2 @ ks1 \<and> (\<forall>k \<in> set ks1. \<not> fst (has_work now (js ! k)))
    | Some k \<Rightarrow> \<exists>xs ys. ks1 = xs @ k # ys \<and> ks' = ys @ ks2 @ xs @ [k] \<and> fst (has_work now (js ! k))
        \<and> (\<forall>x \<in> set xs. \<not> fst (has_work now (js ! x))))"
  using assms
proof (induction ks1 arbitrary: ks2 js)
  case (Cons k ks)
  obtain b j where h: "has_work now (js ! k) = (b, j)" by (cases "has_work now (js ! k)")
  show ?case
  proof (cases b)
    case True
    then have "r = Some k" "ks' = ks @ ks2 @ [k]" using Cons.prems(1) h by auto
    moreover have "k # ks = [] @ k # ks \<and> ks @ ks2 @ [k] = ks @ ks2 @ [] @ [k] \<and> fst (has_work now (js ! k))
        \<and> (\<forall>x \<in> set []. \<not> fst (has_work now (js ! x)))" using h True by simp
    ultimately show ?thesis by (simp only: option.case) blast
  next
    case False
    then have l: "round_robin_loop now (length ks) (ks @ ks2 @ [k]) (js[k := j]) = (r, ks', js')" using Cons.prems(1) h by simp
    have other: "has_work now (js[k := j] ! x) = has_work now (js ! x)" if "x \<in> set ks" for x
      using that Cons.prems(2) by (cases "x = k") simp_all
    note IH = Cons.IH [OF l]
    show ?thesis
    proof (cases r)
      case None
      then show ?thesis using IH Cons.prems(2,3) False h other by auto
    next
      case (Some q)
      then obtain xs ys where xy: "ks = xs @ q # ys" "ks' = ys @ (ks2 @ [k]) @ xs @ [q]" "fst (has_work now (js[k := j] ! q))"
        "\<forall>x \<in> set xs. \<not> fst (has_work now (js[k := j] ! x))"
        using IH Cons.prems(2,3) by auto
      then have "k # ks = (k # xs) @ q # ys \<and> ks' = ys @ ks2 @ (k # xs) @ [q] \<and> fst (has_work now (js ! q))
          \<and> (\<forall>x \<in> set (k # xs). \<not> fst (has_work now (js ! x)))"
        using False h other by simp
      then show ?thesis unfolding Some option.case by blast
    qed
  qed
qed simp

text \<open>
  C28. Round robin is fair: the first job of the run list that has work is chosen, and it goes behind all
  the others, so a job is not chosen again before the others with work had their turn; no job is chosen
  only if none has work.
\<close>

theorem round_robin_fair:
  assumes "server_run rd rf ord ty cs l" "ScheduleRoundRobin now l = (r, l')"
  shows "case r of
      None \<Rightarrow> run_list l' = run_list l \<and> (\<forall>k \<in> set (run_list l). \<not> fst (has_work now (task_list l ! k)))
    | Some k \<Rightarrow> \<exists>xs ys. run_list l = xs @ k # ys \<and> run_list l' = ys @ xs @ [k] \<and> fst (has_work now (task_list l ! k))
        \<and> (\<forall>x \<in> set xs. \<not> fst (has_work now (task_list l ! x)))"
proof -
  obtain ks js where "round_robin_loop now (length (run_list l)) (run_list l @ []) (task_list l) = (r, ks, js)"
    "l' = l\<lparr>run_list := ks, task_list := js\<rparr>"
    using assms(2) by (auto simp: ScheduleRoundRobin_def split: prod.splits)
  from round_robin_spec [OF this(1)] this(2) show ?thesis
    using server_run_inv [OF assms(1)] by (auto simp: server_inv_def run_list_ok_def split: option.splits)
qed

end
