(* ===== verification/DistDemo.thy ===== *)
theory DistDemo
  imports DistProfile InterfaceCorrect
begin

text \<open>
  A concrete job: the self join of a series with two subsequences, computed as one tile. The properties of
  the distributed part are applied to it and to a run of it that finishes.
\<close>

definition demo_job_args :: "ProtoProfileType \<Rightarrow> ProtoArgs" where
  "demo_job_args ty = empty_proto_args\<lparr>p_timeseries_a := [Fin 1, Fin 3, Fin 2, Fin 5], p_window := 3,
     p_distributed_tile_size := 2, p_max_tile_size := 1024, p_profile_type := ty,
     p_precision_type := PP_DOUBLE\<rparr>"

lemma demo_valid: "ty \<in> {P_1NN_INDEX, P_1NN, P_SUM_THRESH} \<Longrightarrow> valid_job (demo_job_args ty)"
  by (auto simp: valid_job_def demo_job_args_def empty_proto_args_def empty_proto_profile_def size_of_def)

lemma demo_order: "map_order (\<lambda>n. [0..<n])"
  by (auto simp: map_order_def)

lemma demo_pairs: "pairs_of (demo_job_args ty) = [(0, 0)]"
  by (simp add: pairs_of_def demo_job_args_def empty_proto_args_def tile_rows_of_def tile_cols_of_def matrix_rows_def
      matrix_cols_def size_of_def job_pairs_def)

definition demo_job :: "ProtoProfileType \<Rightarrow> Job" where
  "demo_job ty = \<lparr>j_distributed_tile_size = 2, j_tiles_completed = 0, j_id = 0, j_tile_counter = 1, j_tile_rows = 1,
     j_tile_cols = 1, j_width = 2, j_height = 2, j_start_time = 0, j_end_time = 0,
     j_tiles = [DistributedTile_init 0 0 2 2 0], j_tile_order = [0], j_ready_queue = [0],
     j_status = JOB_STATUS_RUNNING, j_args = initial_args (demo_job_args ty)\<rparr>"

lemma demo_make:
  "ty \<in> {P_1NN_INDEX, P_1NN, P_SUM_THRESH} \<Longrightarrow> make_job exact (\<lambda>n. [0..<n]) (demo_job_args ty) 0 0 = Inr (demo_job ty)"
  by (simp only: make_job_valid [OF double_rounding_exact demo_valid] demo_pairs)
    (simp add: demo_job_def demo_job_args_def empty_proto_args_def matrix_rows_def matrix_cols_def size_of_def
      tile_rows_of_def tile_cols_of_def made_tiles_def new_tile_def)

text \<open>The result of the tile: its two windows match each other.\<close>

definition demo_result :: ProtoArgs where
  "demo_result = empty_proto_args\<lparr>p_window := 3, p_timeseries_size_a := 4, p_timeseries_size_b := 4,
     p_profile_a := \<lparr>pdata = [ULongs [\<lparr>floats0 = Fin (1 / 2), ints1 = 1\<rparr>, \<lparr>floats0 = Fin (1 / 2), ints1 = 0\<rparr>]],
                     ptype = P_1NN_INDEX\<rparr>, p_profile_type := P_1NN_INDEX\<rparr>"

definition demo_tile :: "ProtoProfileType \<Rightarrow> DistributedTile" where
  "demo_tile ty = (DistributedTile_init 0 0 2 2 0)\<lparr>
     dt_args := tile_args_of (DistributedTile_init 0 0 2 2 0) (demo_job_args ty) empty_proto_args, dt_has_args := True,
     dt_timeout := 10, dt_status := TILE_STATUS_RUNNING, dt_start_time := 0\<rparr>"

definition demo_running :: "ProtoProfileType \<Rightarrow> Job" where
  "demo_running ty = (demo_job ty)\<lparr>j_ready_queue := [], j_tiles := [demo_tile ty]\<rparr>"

definition demo_sent :: "ProtoProfileType \<Rightarrow> ProtoArgs" where
  "demo_sent ty = (tile_args_of (DistributedTile_init 0 0 2 2 0) (demo_job_args ty) empty_proto_args)\<lparr>
     p_timeseries_a := [Fin 1, Fin 3, Fin 2, Fin 5], p_timeseries_b := [Fin 1, Fin 3, Fin 2, Fin 5], p_job_id := 0\<rparr>"

lemma demo_fetch: "fetch_ready_tile 0 1 empty_proto_args (demo_job ty) = Inr (Some (demo_sent ty), demo_running ty)"
  by (simp add: fetch_ready_tile_def demo_job_def issue_tile_def generate_args_def DistributedTile_init_def Let_def
      initial_args_def demo_job_args_def read_range_def empty_proto_args_def tile_timeout_def tile_args_of_def
      MIN_TIMEOUT_SECONDS_def get_current_time_def i64_def demo_running_def demo_tile_def demo_sent_def)

definition demo_merged :: Job where
  "demo_merged = (demo_running P_1NN_INDEX)\<lparr>j_args := (initial_args (demo_job_args P_1NN_INDEX))\<lparr>
       p_profile_a := p_profile_a demo_result\<rparr>,
     j_tiles := [(demo_tile P_1NN_INDEX)\<lparr>dt_status := TILE_STATUS_FINISHED, dt_end_time := 0\<rparr>], j_tiles_completed := 1\<rparr>"

lemma demo_combine: "CombineProfile exact 0 demo_result (demo_running P_1NN_INDEX) = Inr (True, demo_merged)"
proof -
  have "MergeJobProfile exact (dt_args (demo_tile P_1NN_INDEX)) (initial_args (demo_job_args P_1NN_INDEX)) (p_profile_a demo_result) 0 2
      (p_profile_b demo_result) 0 2 = Inr ((initial_args (demo_job_args P_1NN_INDEX))\<lparr>p_profile_a := p_profile_a demo_result\<rparr>)"
    by (simp add: MergeJobProfile_def MergeTileIntoFullProfile_def demo_result_def initial_args_def demo_job_args_def
        empty_proto_args_def empty_proto_profile_def matrix_cols_def size_of_def InitProtoProfile_def numeral_2_eq_2
        elementwise_max_index_eq merged_def entry_max_def init_entry_def demo_tile_def DistributedTile_init_def tile_args_of_def)
  then show ?thesis
    by (simp add: CombineProfile_def demo_running_def demo_job_def demo_merged_def tile_accepts_def request_width_def
        request_height_def demo_result_def empty_proto_args_def demo_tile_def DistributedTile_init_def GetProfileSize_def
        size_of_def finish_tile_def set_finished_def get_current_time_def tile_args_of_def demo_job_args_def)
qed

definition demo_finished :: Job where
  "demo_finished = demo_merged\<lparr>j_status := JOB_STATUS_FINISHED, j_end_time := 0\<rparr>"

lemma demo_poll: "is_done 0 demo_merged = (True, demo_finished)"
  by (simp add: is_done_def demo_merged_def demo_running_def demo_job_def demo_finished_def)

definition demo_events :: "job_event list" where
  "demo_events = [Fetched (Some (demo_sent P_1NN_INDEX)), Combined True demo_result, Polled True]"

lemmas run_fetch = job_run.step [OF _ job_step.fetch] and run_combine = job_run.step [OF _ job_step.combine]
  and run_poll = job_run.step [OF _ job_step.poll] and run_fail = job_run.step [OF _ job_step.fail]
  and run_ask = job_run.step [OF _ job_step.ask]

lemma demo_run: "job_run exact (demo_job P_1NN_INDEX) demo_events demo_finished"
  using run_poll [OF run_combine [OF run_fetch [OF job_run.start demo_fetch] demo_combine] demo_poll]
  by (simp add: demo_events_def)

subsection \<open>The properties at work\<close>

lemma job_tiles_partition_witness:
  "\<exists>j. make_job exact (\<lambda>n. [0..<n]) (demo_job_args P_1NN_INDEX) 0 0 = Inr j \<and> j_status j = JOB_STATUS_RUNNING \<and>
    (\<exists>!k. k < length (j_tiles j) \<and>
       ((1, 0) \<in> job_cells (p_distributed_tile_size (demo_job_args P_1NN_INDEX)) (j_tiles j ! k)
        \<or> \<not> p_has_b (demo_job_args P_1NN_INDEX) \<and> (0, 1) \<in> job_cells (p_distributed_tile_size (demo_job_args P_1NN_INDEX)) (j_tiles j ! k)))"
  by (rule job_tiles_partition [OF double_rounding_exact demo_valid])
    (simp_all add: matrix_rows_def matrix_cols_def demo_job_args_def empty_proto_args_def size_of_def)

lemma job_run_invariant_witness: "job_inv demo_finished \<and> length (j_tiles demo_finished) = length (j_tiles (demo_job P_1NN_INDEX))"
  by (rule job_run_invariant [OF double_rounding_exact demo_valid demo_order demo_make demo_run]) simp_all

lemma demo_timely: "timely demo_events"
  by (auto simp: timely_def demo_events_def less_Suc_eq numeral_3_eq_3)

lemma tiles_merged_once_witness:
  "distinct (accepted demo_events) \<and> j_tiles_completed demo_finished = int (length (accepted demo_events))
    \<and> set (accepted demo_events) = int ` finished_tiles (j_tiles demo_finished)
    \<and> set (accepted demo_events) = {0..<int (length (j_tiles demo_finished))}"
  using tiles_merged_once [OF double_rounding_exact demo_valid demo_order demo_make demo_run demo_timely]
  by (auto simp: demo_finished_def)

lemma issued_bounded_witness: "issued demo_events \<le> 5 * length (j_tiles (demo_job P_1NN_INDEX))"
  by (rule issued_bounded [OF double_rounding_exact demo_valid demo_order demo_make demo_run]) simp_all

lemma fetch_total_witness: "\<exists>x j'. fetch_ready_tile 5 7 empty_proto_args demo_finished = Inr (x, j')"
  by (rule fetch_total [OF double_rounding_exact demo_valid demo_order demo_make demo_run]) simp_all

lemma job_never_stuck_witness:
  "(\<forall>k < length (j_tiles (demo_job P_1NN)). dt_status (j_tiles (demo_job P_1NN) ! k) = TILE_STATUS_FINISHED)
    \<or> (\<exists>k < length (j_tiles (demo_job P_1NN)). dt_status (j_tiles (demo_job P_1NN) ! k) = TILE_STATUS_RUNNING)
    \<or> j_status (demo_job P_1NN) = JOB_STATUS_FAILED
    \<or> (\<exists>x j''. fetch_ready_tile 5 7 empty_proto_args (demo_job P_1NN) = Inr (Some x, j''))"
  by (rule job_never_stuck [OF double_rounding_exact demo_valid demo_order demo_make job_run.start, of _ 7 0 True])
    (simp_all add: demo_job_def has_work_def)

lemma has_work_after_retries_witness:
  "fst (has_work 9 ((demo_running P_1NN)\<lparr>j_tiles := [(demo_tile P_1NN)\<lparr>dt_status := TILE_STATUS_FAILED\<rparr>]\<rparr>)) \<longleftrightarrow>
    j_status (snd (has_work 9 ((demo_running P_1NN)\<lparr>j_tiles := [(demo_tile P_1NN)\<lparr>dt_status := TILE_STATUS_FAILED\<rparr>]\<rparr>))) = JOB_STATUS_FAILED
    \<and> j_ready_queue (snd (has_work 9 ((demo_running P_1NN)\<lparr>j_tiles := [(demo_tile P_1NN)\<lparr>dt_status := TILE_STATUS_FAILED\<rparr>]\<rparr>))) \<noteq> []"
  by (rule has_work_after_retries [OF _ _ prod.collapse [symmetric]]) (simp_all add: demo_running_def demo_job_def)

definition demo_cells :: "int \<Rightarrow> int \<Rightarrow> fp option" where
  "demo_cells i c = (if i = c then None else Some (Fin (1 / 2)))"

lemma demo_results_ok: "index_results_ok demo_cells (demo_job_args P_1NN_INDEX) demo_events"
proof -
  have t: "job_tile (demo_job_args P_1NN_INDEX) 0 = DistributedTile_init 0 0 2 2 0"
    unfolding job_tile_def demo_pairs
    by (simp add: new_tile_def demo_job_args_def empty_proto_args_def matrix_rows_def matrix_cols_def size_of_def)
  have u: "{0..<2} = {0, 1 :: int}" by auto
  show ?thesis
    unfolding index_results_ok_def results_ok_def demo_events_def
  proof (intro allI impI)
    fix r assume "Combined True r \<in> set [Fetched (Some (demo_sent P_1NN_INDEX)), Combined True demo_result, Polled True]"
    then have r: "r = demo_result" by simp
    have k: "nat (i32 (p_tile_id demo_result)) = 0" by (simp add: demo_result_def empty_proto_args_def)
    show "result_ok uint64_of P_1NN_INDEX floats0 shift_index (index_candidates demo_cells) (demo_job_args P_1NN_INDEX)
        (job_tile (demo_job_args P_1NN_INDEX) (nat (i32 (p_tile_id r)))) r"
      unfolding r k t
      by (auto simp: demo_result_def empty_proto_args_def result_ok_def DistributedTile_init_def demo_job_args_def u less_Suc_eq
          numeral_2_eq_2 tile_best_def index_candidates_def demo_cells_def shift_index_def)
  qed
qed

lemma finished_job_profile_witness:
  "\<exists>v. p_profile_a (j_args demo_finished) = \<lparr>pdata = [ULongs v], ptype = P_1NN_INDEX\<rparr>
    \<and> int (length v) = matrix_cols (demo_job_args P_1NN_INDEX)
    \<and> (\<forall>c < length v.
        (v ! c = init_entry \<or> (\<exists>i \<in> {0..<matrix_rows (demo_job_args P_1NN_INDEX)}.
            demo_cells i (int c) = Some (floats0 (v ! c)) \<and> ints1 (v ! c) = word_of_int i))
        \<and> (\<forall>i \<in> {0..<matrix_rows (demo_job_args P_1NN_INDEX)}. \<forall>x. demo_cells i (int c) = Some x \<longrightarrow> \<not> flt (floats0 (v ! c)) x))"
  by (rule finished_job_profile [OF double_rounding_exact demo_valid demo_order _ _ demo_make demo_run demo_results_ok])
    (simp_all add: demo_job_args_def empty_proto_args_def demo_finished_def)

lemma proto_args_roundtrip_demo:
  "\<exists>p. ConvertSCAMPArgsToProtoArgs demo_args_self = Inr p \<and>
    ConvertProtoArgsToSCAMPArgs p demo_args_self = Inr (demo_args_self\<lparr>
      profile_a := Profile_assign (profile_a demo_args_self) (profile_a demo_args_self),
      profile_b := (if keep_rows_separate demo_args_self then Profile_assign (profile_b demo_args_self) (profile_b demo_args_self)
                    else profile_b demo_args_self),
      silent_mode := True, max_matches_per_column := max_matches_per_column demo_args_self,
      matrix_height := matrix_height demo_args_self, matrix_width := matrix_width demo_args_self\<rparr>)"
  by (rule proto_args_roundtrip) (simp_all add: demo_args_self_def proto_profile_type_def plain_profile_def Profile_default_def)

subsection \<open>A failure reported too late\<close>

definition sum_result :: ProtoArgs where
  "sum_result = demo_result\<lparr>p_profile_a := \<lparr>pdata = [DoubleData [Fin 3, Fin 4]], ptype = P_SUM_THRESH\<rparr>\<rparr>"

definition sum_job :: "int \<Rightarrow> nat list \<Rightarrow> fp list \<Rightarrow> DistributedTile \<Rightarrow> Job" where
  "sum_job n q v t = (demo_job P_SUM_THRESH)\<lparr>j_args := (initial_args (demo_job_args P_SUM_THRESH))\<lparr>
       p_profile_a := \<lparr>pdata = [DoubleData v], ptype = P_SUM_THRESH\<rparr>\<rparr>,
     j_ready_queue := q, j_tiles := [t], j_tiles_completed := n\<rparr>"

definition sum_tile :: "TileStatus \<Rightarrow> int \<Rightarrow> int \<Rightarrow> DistributedTile" where
  "sum_tile st n e = (demo_tile P_SUM_THRESH)\<lparr>dt_status := st, dt_end_time := e, dt_retries := n\<rparr>"

lemma sum_start: "demo_running P_SUM_THRESH = sum_job 0 [] [Fin 0, Fin 0] (sum_tile TILE_STATUS_RUNNING 0 (-1))"
  by (simp add: sum_job_def demo_running_def sum_tile_def demo_tile_def DistributedTile_init_def demo_job_def initial_args_def
      demo_job_args_def empty_proto_args_def empty_proto_profile_def matrix_cols_def size_of_def InitProtoProfile_def numeral_2_eq_2)

lemma sum_combine:
  "CombineProfile exact 0 sum_result (sum_job n [] [Fin x, Fin y] (sum_tile TILE_STATUS_RUNNING k e)) =
    Inr (True, sum_job (n + 1) [] [Fin (x + 3), Fin (y + 4)] (sum_tile TILE_STATUS_FINISHED k 0))"
proof -
  have "MergeJobProfile exact (dt_args (demo_tile P_SUM_THRESH))
      ((initial_args (demo_job_args P_SUM_THRESH))\<lparr>p_profile_a := \<lparr>pdata = [DoubleData [Fin x, Fin y]], ptype = P_SUM_THRESH\<rparr>\<rparr>)
      (p_profile_a sum_result) 0 2 (p_profile_b sum_result) 0 2 =
    Inr ((initial_args (demo_job_args P_SUM_THRESH))\<lparr>p_profile_a := \<lparr>pdata = [DoubleData [Fin (x + 3), Fin (y + 4)]], ptype = P_SUM_THRESH\<rparr>\<rparr>)"
    by (simp add: MergeJobProfile_def MergeTileIntoFullProfile_def sum_result_def demo_job_args_def empty_proto_args_def
        elementwise_sum_eq merged_def demo_tile_def DistributedTile_init_def tile_args_of_def numeral_2_eq_2)
  then show ?thesis
    by (simp add: CombineProfile_def sum_job_def demo_job_def sum_tile_def tile_accepts_def request_width_def
        request_height_def sum_result_def demo_result_def empty_proto_args_def demo_tile_def DistributedTile_init_def GetProfileSize_def
        size_of_def finish_tile_def set_finished_def get_current_time_def tile_args_of_def demo_job_args_def)
qed

lemma sum_fail:
  "set_tile_failed 0 0 (sum_job n [] v (sum_tile TILE_STATUS_FINISHED k e)) = sum_job n [] v (sum_tile TILE_STATUS_FAILED k 0)"
  by (simp add: set_tile_failed_def set_failed_def sum_job_def sum_tile_def get_current_time_def demo_tile_def DistributedTile_init_def)

lemma sum_ask:
  "has_work 0 (sum_job n [] v (sum_tile TILE_STATUS_FAILED 0 e)) = (False, sum_job n [0] v (sum_tile TILE_STATUS_FAILED 1 INT_MAX))"
  by (simp add: has_work_def cleanup_failed_tiles_def sum_job_def sum_tile_def demo_job_def retry_tile_def Let_def MAX_TILE_RETRIES_def
      get_current_time_def demo_tile_def DistributedTile_init_def)

lemma sum_fetch:
  "\<exists>x. fetch_ready_tile 0 1 empty_proto_args (sum_job n [0] v (sum_tile TILE_STATUS_FAILED k e)) =
    Inr (Some x, sum_job n [] v (sum_tile TILE_STATUS_RUNNING k e))"
  by (simp add: fetch_ready_tile_def demo_job_def issue_tile_def generate_args_def DistributedTile_init_def Let_def sum_job_def sum_tile_def
      initial_args_def demo_job_args_def read_range_def empty_proto_args_def tile_timeout_def tile_args_of_def
      MIN_TIMEOUT_SECONDS_def get_current_time_def i64_def demo_tile_def)

text \<open>
  C35. Without that condition a result can count twice: a worker whose tile timed out still delivers, the
  second worker fails and says so, and \<open>set_tile_failed\<close> takes the finished tile back. The tile is computed
  and merged again, the sums of the job double, and more tiles are complete than the job has.
\<close>

theorem late_report_merges_twice:
  "\<exists>es j. job_run exact (demo_job P_SUM_THRESH) es j \<and> \<not> timely es \<and> length (j_tiles j) = 1 \<and> j_tiles_completed j = 2
    \<and> accepted es = [0, 0] \<and> p_profile_a sum_result = \<lparr>pdata = [DoubleData [Fin 3, Fin 4]], ptype = P_SUM_THRESH\<rparr>
    \<and> p_profile_a (j_args j) = \<lparr>pdata = [DoubleData [Fin 6, Fin 8]], ptype = P_SUM_THRESH\<rparr>"
proof -
  obtain x where x: "fetch_ready_tile 0 1 empty_proto_args (sum_job 1 [0] [Fin 3, Fin 4] (sum_tile TILE_STATUS_FAILED 1 INT_MAX)) =
    Inr (Some x, sum_job 1 [] [Fin 3, Fin 4] (sum_tile TILE_STATUS_RUNNING 1 INT_MAX))" using sum_fetch by blast
  let ?es = "[Fetched (Some (demo_sent P_SUM_THRESH)), Combined True sum_result, Failure_reported 0, Asked False, Fetched (Some x),
    Combined True sum_result]"
  have f: "job_run exact (demo_job P_SUM_THRESH) [Fetched (Some (demo_sent P_SUM_THRESH))]
      (sum_job 0 [] [Fin 0, Fin 0] (sum_tile TILE_STATUS_RUNNING 0 (-1)))"
    using run_fetch [OF job_run.start demo_fetch, of exact P_SUM_THRESH] by (simp add: sum_start)
  have "job_run exact (demo_job P_SUM_THRESH) ?es (sum_job 2 [] [Fin 6, Fin 8] (sum_tile TILE_STATUS_FINISHED 1 0))"
  proof -
    have g: "job_run exact (demo_job P_SUM_THRESH) [Fetched (Some (demo_sent P_SUM_THRESH)), Combined True sum_result,
        Failure_reported 0, Asked False] (sum_job 1 [0] [Fin 3, Fin 4] (sum_tile TILE_STATUS_FAILED 1 INT_MAX))"
      using run_ask [OF run_fail [OF run_combine [OF f sum_combine], of 0 0, unfolded sum_fail] sum_ask] by simp
    show ?thesis using run_combine [OF run_fetch [OF g x] sum_combine] by simp
  qed
  moreover have "\<not> timely ?es"
    unfolding timely_def by (intro notI, drule spec [of _ 2]) (simp add: sum_result_def demo_result_def empty_proto_args_def numeral_2_eq_2)
  ultimately show ?thesis
    by (intro exI [of _ ?es] exI [of _ "sum_job 2 [] [Fin 6, Fin 8] (sum_tile TILE_STATUS_FINISHED 1 0)"])
      (simp add: sum_job_def sum_result_def demo_result_def empty_proto_args_def)
qed

end
