(* ===== verification/DistServerDemo.thy ===== *)
theory DistServerDemo
  imports DistServerRun DistDemo
begin

text \<open>
  A concrete run of the server: a client issues the demonstration job, a worker gets its tile, sends the
  result, and the client fetches the profile. The properties of the server are applied to it.
\<close>

definition demo_server :: "Job \<Rightarrow> JobList" where
  "demo_server j = \<lparr>task_list = [j], run_list = [0], schedule_type = SCHEDULE_TYPE_ROUND_ROBIN\<rparr>"

lemma demo_issue:
  "IssueNewJob exact (\<lambda>n. [0..<n]) 0 (demo_job_args P_1NN_INDEX) (JobList_init SCHEDULE_TYPE_ROUND_ROBIN) =
    Inr (RPC_OK, empty_status\<lparr>s_status := JOB_STATUS_RUNNING, s_job_id := 0\<rparr>, demo_server (demo_job P_1NN_INDEX))"
  using demo_make [of P_1NN_INDEX]
  by (simp add: IssueNewJob_def validateArgs_def add_job_def JobList_init_def demo_server_def) (simp add: demo_job_def)

lemma demo_request:
  "RequestSCAMPWork rf 0 1 (demo_server (demo_job P_1NN_INDEX)) =
    Inr (RPC_OK, \<lparr>w_args = demo_sent P_1NN_INDEX, w_valid = True\<rparr>, demo_server (demo_running P_1NN_INDEX))"
proof -
  have "has_work 0 (demo_job P_1NN_INDEX) = (True, demo_job P_1NN_INDEX)" by (simp add: has_work_def demo_job_def)
  then show ?thesis
    using demo_fetch [of P_1NN_INDEX]
    by (simp add: RequestSCAMPWork_def get_highest_priority_job_def ScheduleRoundRobin_def demo_server_def update_job_def)
qed

lemma demo_send: "SCAMPCombiner exact 0 demo_result (demo_server (demo_running P_1NN_INDEX)) = Inr (RPC_OK, demo_server demo_merged)"
proof -
  have "i32 (p_job_id demo_result) = 0" by (simp add: demo_result_def empty_proto_args_def)
  then show ?thesis using demo_combine
    by (simp add: SCAMPCombiner_def get_job_def demo_server_def update_job_def)
qed

lemma demo_fetch_result:
  "FetchJobResult 0 0 (demo_server demo_merged) =
    (RPC_OK, \<lparr>w_args = j_args demo_finished, w_valid = True\<rparr>, demo_server demo_finished)"
  using demo_poll by (simp add: FetchJobResult_def get_job_def demo_server_def update_job_def empty_work_def)

definition demo_calls :: "(call \<times> reply) list" where
  "demo_calls = [(Issue (demo_job_args P_1NN_INDEX), R_status RPC_OK (empty_status\<lparr>s_status := JOB_STATUS_RUNNING, s_job_id := 0\<rparr>)),
     (Request 1, R_work RPC_OK \<lparr>w_args = demo_sent P_1NN_INDEX, w_valid = True\<rparr>), (Send_result demo_result, R_empty RPC_OK)]"

lemma demo_server_run:
  "server_run exact exact (\<lambda>n. [0..<n]) SCHEDULE_TYPE_ROUND_ROBIN demo_calls (demo_server demo_merged)"
  using server_run.step [OF server_run.step [OF server_run.step [OF server_run.start server_step.issue [OF demo_issue]]
      server_step.request [OF demo_request]] server_step.send [OF demo_send], of exact]
  by (simp add: demo_calls_def)

lemma demo_honest: "honest_workers (\<lambda>k. demo_cells) demo_calls"
proof -
  have "sent_results demo_calls = {demo_result}" "issued_jobs demo_calls = [demo_job_args P_1NN_INDEX]"
    by (auto simp: sent_results_def demo_calls_def)
  moreover have "result_ok uint64_of P_1NN_INDEX floats0 shift_index (index_candidates demo_cells) (demo_job_args P_1NN_INDEX)
      (job_tile (demo_job_args P_1NN_INDEX) (nat (i32 (p_tile_id demo_result)))) demo_result"
    using demo_results_ok by (simp add: index_results_ok_def results_ok_def demo_events_def)
  ultimately show ?thesis by (simp add: honest_workers_def honest_for_def)
qed

lemma fetched_result_profile_witness:
  "\<exists>v. p_profile_a (j_args demo_finished) = \<lparr>pdata = [ULongs v], ptype = P_1NN_INDEX\<rparr>
    \<and> int (length v) = matrix_cols (demo_job_args P_1NN_INDEX)
    \<and> (\<forall>c < length v.
        (v ! c = init_entry \<or> (\<exists>i \<in> {0..<matrix_rows (demo_job_args P_1NN_INDEX)}.
            demo_cells i (int c) = Some (floats0 (v ! c)) \<and> ints1 (v ! c) = word_of_int i))
        \<and> (\<forall>i \<in> {0..<matrix_rows (demo_job_args P_1NN_INDEX)}. \<forall>x. demo_cells i (int c) = Some x \<longrightarrow> \<not> flt (floats0 (v ! c)) x))"
  using fetched_result_profile [OF double_rounding_exact demo_order demo_server_run demo_honest demo_fetch_result _ _
      demo_valid, of P_1NN_INDEX]
  by (simp add: demo_calls_def) (simp add: demo_job_args_def empty_proto_args_def)

lemma round_robin_fair_witness:
  "case ScheduleRoundRobin 0 (demo_server demo_merged) of (r, l') \<Rightarrow> r = None \<and>
    run_list l' = [0] \<and> \<not> fst (has_work 0 demo_merged)"
proof -
  obtain r l' where s: "ScheduleRoundRobin 0 (demo_server demo_merged) = (r, l')" by (cases "ScheduleRoundRobin 0 (demo_server demo_merged)")
  have w: "\<not> fst (has_work 0 demo_merged)"
    by (simp add: has_work_def demo_merged_def demo_running_def demo_job_def cleanup_failed_tiles_def)
  show ?thesis using round_robin_fair [OF demo_server_run s] s w
    by (cases r) (auto simp: demo_server_def Cons_eq_append_conv)
qed

end
