(* ===== verification/DistCluster.thy ===== *)
theory DistCluster
  imports DistTileWork DistServerDemo
begin

text \<open>
  The server and its workers together. What the server hands out in any run is the part of a job that belongs to one
  of its tiles; so if the results it gets are those its workers compute, the profile a client fetches is the matrix
  profile of the series of the job.
\<close>

subsection \<open>What the server hands out\<close>

lemma same_job_plan_fields:
  assumes "same_job j j'"
  shows "j_id j' = j_id j" "args_plan (j_args j') = args_plan (j_args j)"
proof -
  have p: "job_plan j' = job_plan j" using assms by (simp add: same_job_def)
  show "j_id j' = j_id j" using arg_cong [OF p, of j_id] by (simp add: job_plan_def)
  show "args_plan (j_args j') = args_plan (j_args j)" using arg_cong [OF p, of j_args] by (simp add: job_plan_def)
qed

lemma read_part:
  assumes "read_range xs p e = Some ys" "0 \<le> p" "p < e"
  shows "ys = part xs (nat p) (nat (e - p))"
  using assms by (auto simp: read_range_def aslice_def part_def split: if_splits)

lemma generated_work:
  assumes g: "generate_args a' d' empty_proto_args = Some (t', args)"
    and same: "tile_plan d' = tile_plan (job_tile a t)" "args_plan a' = args_plan a"
    and v: "valid_job a" "t < length (pairs_of a)"
  shows "args\<lparr>p_job_id := i32 (int k)\<rparr> = work_args a k t"
proof -
  let ?d = "job_tile a t" and ?sz = "p_distributed_tile_size a" and ?w = "p_window a"
  note P = tile_parts [OF v refl refl]
  note f = args_plan_fields [OF same(2)]
  have d: "dt_row d' = dt_row ?d" "dt_col d' = dt_col ?d" "dt_height d' = dt_height ?d" "dt_width d' = dt_width ?d"
    using same(1) by (simp_all add: tile_plan_def)
  note A = tile_args_of_same [OF same, of empty_proto_args]
  obtain ys zs where r: "read_range (p_timeseries_a a) (dt_col ?d * ?sz) (dt_col ?d * ?sz + dt_width ?d + ?w - 1) = Some ys"
      "read_range (job_series_b a) (dt_row ?d * ?sz) (dt_row ?d * ?sz + dt_height ?d + ?w - 1) = Some zs"
      "args = (tile_args_of ?d a empty_proto_args)\<lparr>p_timeseries_a := p_timeseries_a (tile_args_of ?d a empty_proto_args) @ ys,
        p_timeseries_b := p_timeseries_b (tile_args_of ?d a empty_proto_args) @ zs\<rparr>"
    using g by (auto simp: generate_args_def Let_def d f A job_series_b_def split: Option.bind_splits cong: if_cong)
  have none: "p_timeseries_a empty_proto_args = []" "p_timeseries_b empty_proto_args = []"
    "p_timeseries_a (tile_args_of ?d a empty_proto_args) = []" "p_timeseries_b (tile_args_of ?d a empty_proto_args) = []"
    by (simp_all add: tile_args_of_def Let_def empty_proto_args_def)
  have "ys = part (p_timeseries_a a) (nat (dt_col ?d * ?sz)) (nat (dt_width ?d + ?w - 1))"
    using read_part [OF r(1)] P(4,6,11) by (simp add: algebra_simps)
  moreover have "zs = part (job_series_b a) (nat (dt_row ?d * ?sz)) (nat (dt_height ?d + ?w - 1))"
    using read_part [OF r(2)] P(3,5,11) by (simp add: algebra_simps)
  ultimately show ?thesis by (simp add: r(3) none work_args_def Let_def)
qed

lemma fetched_work:
  assumes run: "double_rounding rd" "valid_job a" "map_order ord" "make_job rd ord a (i32 (int k)) now = Inr j0" "job_run rd j0 es j"
    and f: "fetch_ready_tile now' th empty_proto_args j = Inr (Some args, j')"
  shows "\<exists>t < length (pairs_of a). args = work_args a k t"
proof -
  have j: "job_inv j" "same_job j0 j" using job_run_inv [OF run(5) made_job_inv [OF run(1-4)]] by simp_all
  obtain j1 where j1: "issue_tile now' th empty_proto_args j1 = Some (args, j')" "job_inv j1" "same_job j j1"
  proof (cases "j_ready_queue j = []")
    case True
    obtain b j1 where c: "cleanup_failed_tiles now' j = (b, j1)" by (cases "cleanup_failed_tiles now' j")
    then have "issue_tile now' th empty_proto_args j1 = Some (args, j')"
      using f True by (auto simp: fetch_ready_tile_def Let_def of_option_def split: if_splits option.splits)
    then show thesis using that cleanup_inv [OF c j(1) True] cleanup_same [OF c j(1)] by blast
  next
    case False
    then have "issue_tile now' th empty_proto_args j = Some (args, j')"
      using f by (auto simp: fetch_ready_tile_def Let_def of_option_def split: if_splits option.splits)
    then show thesis using that j(1) same_job_refl by blast
  qed
  have s: "same_job j0 j1" by (rule same_job_trans [OF j(2) j1(3)])
  note m = made_job [OF run(1,2,4)]
  obtain t q where q: "j_ready_queue j1 = t # q" using j1(1) by (auto simp: issue_tile_def split: list.splits)
  then have t: "t < length (j_tiles j1)" using j1(2) by (simp add: job_inv_def)
  obtain t' args' where g: "generate_args (j_args j1) (j_tiles j1 ! t) empty_proto_args = Some (t', args')"
      "args = args'\<lparr>p_job_id := j_id j1\<rparr>"
    using j1(1) t by (auto simp: issue_tile_def q split: Option.bind_splits)
  have t2: "t < length (pairs_of a)" using t same_job_length [OF s] m(2) by simp
  have "tile_plan (j_tiles j1 ! t) = tile_plan (job_tile a t)" using same_job_tile [OF s] t2 m(2,8) by simp
  moreover have "args_plan (j_args j1) = args_plan a" using same_job_plan_fields(2) [OF s] m(3) by simp
  moreover have "j_id j1 = i32 (int k)"
    using same_job_plan_fields(1) [OF s] run(4) make_job_valid [OF run(1,2), of ord "i32 (int k)" now] by auto
  ultimately show ?thesis using generated_work [OF g(1) _ _ run(2) t2, of k] t2 g(2) by auto
qed

text \<open>All work of a run of the server is work for a tile of one of its jobs.\<close>

definition handed_out :: "(call \<times> reply) list \<Rightarrow> SCAMPWork \<Rightarrow> bool" where
  "handed_out cs work \<longleftrightarrow> (\<exists>k t. k < length (issued_jobs cs) \<and> t < length (pairs_of (issued_jobs cs ! k))
     \<and> work = \<lparr>w_args = work_args (issued_jobs cs ! k) k t, w_valid = True\<rparr>)"

lemma handed_outI:
  "k < length (issued_jobs cs) \<Longrightarrow> t < length (pairs_of (issued_jobs cs ! k)) \<Longrightarrow>
   handed_out cs \<lparr>w_args = work_args (issued_jobs cs ! k) k t, w_valid = True\<rparr>"
  unfolding handed_out_def by blast

lemma handed_out_append: "handed_out cs work \<Longrightarrow> handed_out (cs @ ds) work"
proof -
  assume "handed_out cs work"
  then obtain k t where "k < length (issued_jobs cs)" "t < length (pairs_of (issued_jobs cs ! k))"
      "work = \<lparr>w_args = work_args (issued_jobs cs ! k) k t, w_valid = True\<rparr>" unfolding handed_out_def by blast
  then show ?thesis using handed_outI [of k "cs @ ds" t] by (simp add: nth_append)
qed

lemma requested_work:
  assumes "double_rounding rd" "map_order ord" "server_run rd rf ord ty cs l" "list_all valid_job (issued_jobs cs)"
    and "(Request th, R_work s work) \<in> set cs" "w_valid work"
  shows "handed_out cs work"
  using assms(3-5)
proof (induction rule: server_run.induct)
  case (step cs l c rep l')
  have valid: "list_all valid_job (issued_jobs cs)" using step.prems(1) by simp
  show ?case
  proof (cases "(Request th, R_work s work) \<in> set cs")
    case True
    then show ?thesis using step.IH valid handed_out_append by blast
  next
    case False
    then have "server_step rd rf ord l (Request th) (R_work s work) l'" using step by auto
    then obtain now where r: "RequestSCAMPWork rf now th l = Inr (s, work, l')" by (cases) auto
    obtain k l1 where h: "get_highest_priority_job rf now l = Some (Some k, l1)"
      using r assms(6) by (auto simp: RequestSCAMPWork_def of_option_def empty_work_def split: option.splits)
    have I: "jobs_reached rd ord (sent_results cs) (issued_jobs cs) (task_list l1)" "k < length (task_list l1)"
      using scheduler_reached [OF h, of rd ord] server_run_inv [OF step.hyps(1)] by (auto simp: server_inv_def)
    obtain args j where f: "fetch_ready_tile now th empty_proto_args (task_list l1 ! k) = Inr (Some args, j)"
        "work = \<lparr>w_args = args, w_valid = True\<rparr>"
      using r h assms(6) by (auto simp: RequestSCAMPWork_def empty_work_def elim!: rbind_InrE split: option.splits)
    have k: "k < length (issued_jobs cs)" using I by (simp add: jobs_reached_def)
    then have "valid_job (issued_jobs cs ! k)" using valid by (simp add: list_all_length)
    moreover obtain now0 j0 es where "make_job rd ord (issued_jobs cs ! k) (i32 (int k)) now0 = Inr j0" "job_run rd j0 es (task_list l1 ! k)"
      using I by (auto simp: jobs_reached_def job_reached_def)
    ultimately show ?thesis
      using fetched_work [OF assms(1) _ assms(2) _ _ f(1)] f(2) handed_outI [OF k] handed_out_append by blast
  qed
qed simp

subsection \<open>The results of the workers\<close>

text \<open>
  A result that a worker with a number of threads in \<open>N\<close> computed from work it was handed out, under some schedule of
  its threads; its library keeps the contract of the reduction.
\<close>

definition worker_result :: "int set \<Rightarrow> (call \<times> reply) list \<Rightarrow> ProtoArgs \<Rightarrow> bool" where
  "worker_result N cs r \<longleftrightarrow> (\<exists>th s work eig fresh uninit blank n sched w. (Request th, R_work s work) \<in> set cs \<and> w_valid work
     \<and> eigen_max_contract eig \<and> n \<in> N
     \<and> ExecuteWork exact_fpu eig fresh uninit blank n sched work = Some (Inr w) \<and> w_valid w \<and> r = w_args w)"

lemma worker_resultI:
  assumes "(Request th, R_work s work) \<in> set cs" "w_valid work" "eigen_max_contract eig" "n \<in> N"
    and "ExecuteWork exact_fpu eig fresh uninit blank n sched work = Some (Inr w)" "w_valid w"
  shows "worker_result N cs (w_args w)"
  unfolding worker_result_def by (intro exI conjI) (rule assms refl)+

lemma executed_job_id:
  assumes "ExecuteWork fpu eig fresh uninit blank n sched work = Some (Inr w)"
  shows "p_job_id (w_args w) = p_job_id (w_args work)"
proof -
  have "executed_work work x = Inr w \<Longrightarrow> p_job_id (w_args w) = p_job_id (w_args work)" for x
    by (auto simp: executed_work_def elim!: rbind_InrE split: sum.splits failure.splits)
  then show ?thesis using assms by (auto simp: ExecuteWork_def split: sum.splits option.splits prod.splits if_splits)
qed

lemma good_result_ids:
  assumes "good_result a k t r"
  shows "p_job_id r = i32 (int k)" "p_tile_id r = dt_id (job_tile a t)"
proof -
  have e: "request_of r = request_of (work_args a k t)" using assms by (simp add: good_result_def)
  show "p_job_id r = i32 (int k)" using arg_cong [OF e, of p_job_id] by (simp add: request_of_def work_args_def Let_def)
  show "p_tile_id r = dt_id (job_tile a t)" using arg_cong [OF e, of p_tile_id]
    by (simp add: request_of_def work_args_def tile_args_of_def Let_def)
qed

lemma workers_honest:
  assumes run: "double_rounding rd" "map_order ord" "server_run rd rf ord ty cs l" "list_all valid_job (issued_jobs cs)"
    and small: "int (length (issued_jobs cs)) \<le> 2 ^ 31" and workers: "\<forall>r \<in> sent_results cs. worker_result N cs r"
    and a: "a = issued_jobs cs ! k" "index_job a" "\<forall>n \<in> N. tiles_fit a n"
  shows "honest_for (job_cell a) k cs"
  unfolding honest_for_def
proof (intro ballI impI)
  fix r assume r: "r \<in> sent_results cs" "i32 (p_job_id r) = int k"
  obtain th s work eig fresh uninit blank n sched w where W: "(Request th, R_work s work) \<in> set cs" "w_valid work"
      "eigen_max_contract eig" "n \<in> N" "ExecuteWork exact_fpu eig fresh uninit blank n sched work = Some (Inr w)" "w_valid w" "r = w_args w"
    using bspec [OF workers r(1)] unfolding worker_result_def by (elim exE conjE) (rule that)
  obtain k' t where k': "k' < length (issued_jobs cs)" "t < length (pairs_of (issued_jobs cs ! k'))"
      "work = \<lparr>w_args = work_args (issued_jobs cs ! k') k' t, w_valid = True\<rparr>"
    using requested_work [OF run W(1,2)] unfolding handed_out_def by blast
  have i: "i32 (int k') = int k'" using k'(1) small by (simp add: i32_def)
  have "p_job_id r = int k'" using executed_job_id [OF W(5)] W(7) k'(3) i by (simp add: work_args_def Let_def)
  then have eq: "k' = k" using r(2) i by simp
  have t: "t < length (pairs_of a)" using k'(2) a(1) eq by simp
  from ExecuteWork_result [OF a(2) t _ W(3), where n = n and fresh = fresh and uninit = uninit and blank = blank and k = k] a(3) W(4)
  have "good_result a k t r" using W(5-7) k'(3) eq a(1) by (auto split: option.splits dest!: spec [of _ sched])
  moreover have "nat (i32 (p_tile_id r)) = t"
  proof -
    have v: "valid_job a" using a(2) by (simp add: index_job_def)
    have "p_tile_id r = int t" using good_result_ids(2) [OF calculation] tile_parts(10) [OF v t refl refl] by simp
    moreover have "int t < 2 ^ 31" using t a(2) by (simp add: index_job_def)
    ultimately show ?thesis by (simp add: i32_def)
  qed
  ultimately show "result_ok uint64_of P_1NN_INDEX floats0 shift_index (index_candidates (job_cell a)) (issued_jobs cs ! k)
      (job_tile (issued_jobs cs ! k) (nat (i32 (p_tile_id r)))) r"
    using a(1) by (simp add: good_result_def)
qed

subsection \<open>The server and the workers\<close>

text \<open>
  C34. A cluster: a run of the server in which every result was computed by a worker from work the server had handed
  out, whatever the order of the calls, the failures reported and the interleavings of the workers' threads, in exact
  arithmetic. For a job for the nearest neighbours of the windows of series A (a self join, or an AB join that is not
  aligned; no separate profile of the rows), a worker that runs its threads fairly ends with an answer, which is
  a result if the library accepts the arguments of the job; and the profile a client fetches when the job is done has
  for every window of series A the largest correlation with a window of the other series, or in a self join with a
  window of the same series outside the exclusion zone, and where it is. A self join of several tiles is restricted by
  \<open>tiles_fit\<close>: the last strip of the tiles a worker cuts must be empty or wider than the exclusion zone.
\<close>

theorem cluster_computes_profile:
  assumes run: "double_rounding rd" "map_order ord" "server_run rd rf ord ty cs l" "list_all valid_job (issued_jobs cs)"
    and small: "int (length (issued_jobs cs)) \<le> 2 ^ 31" and workers: "\<forall>r \<in> sent_results cs. worker_result N cs r"
    and job: "k < length (issued_jobs cs)" "a = issued_jobs cs ! k" "index_job a" "\<forall>n \<in> N. tiles_fit a n"
  shows "(\<forall>th s work eig fresh uninit blank n. (Request th, R_work s work) \<in> set cs \<and> w_valid work
      \<and> p_job_id (w_args work) = int k \<and> n \<in> N \<and> eigen_max_contract eig \<longrightarrow>
      (\<exists>m. \<forall>sched. case ExecuteWork exact_fpu eig fresh uninit blank n sched work of
          None \<Rightarrow> \<not> fair (nat n) m sched
        | Some r \<Rightarrow> \<exists>w. r = Inr w \<and> (w_valid w \<longleftrightarrow> accepted_job a \<and> 0 < n)))
    \<and> (\<forall>now jid s w l'. FetchJobResult now jid l = (s, w, l') \<and> i32 jid = int k \<and> w_valid w \<longrightarrow>
        best_of_job (job_cell a) a (p_profile_a (w_args w)))"
proof (intro conjI allI impI; elim conjE)
  fix th s work eig fresh uninit blank n
  assume w: "(Request th, R_work s work) \<in> set cs" "w_valid work" "p_job_id (w_args work) = int k" "n \<in> N" "eigen_max_contract eig"
  obtain k' t where k': "k' < length (issued_jobs cs)" "t < length (pairs_of (issued_jobs cs ! k'))"
      "work = \<lparr>w_args = work_args (issued_jobs cs ! k') k' t, w_valid = True\<rparr>"
    using requested_work [OF run w(1,2)] unfolding handed_out_def by blast
  have "int k' = int k" using w(3) k'(1,3) small by (simp add: work_args_def Let_def)
  then have k: "k' = k" by simp
  have t: "t < length (pairs_of a)" using k'(2) job(2) k by simp
  obtain m where "\<forall>sched. case ExecuteWork exact_fpu eig fresh uninit blank n sched \<lparr>w_args = work_args a k t, w_valid = True\<rparr> of
      None \<Rightarrow> \<not> fair (nat n) m sched
    | Some r \<Rightarrow> \<exists>w. r = Inr w \<and> (w_valid w \<longleftrightarrow> accepted_job a \<and> 0 < n) \<and> (w_valid w \<longrightarrow> good_result a k t (w_args w))"
    using ExecuteWork_result [OF job(3) t _ w(5)] job(4) w(4) by blast
  then show "\<exists>m. \<forall>sched. case ExecuteWork exact_fpu eig fresh uninit blank n sched work of
      None \<Rightarrow> \<not> fair (nat n) m sched
    | Some r \<Rightarrow> \<exists>w. r = Inr w \<and> (w_valid w \<longleftrightarrow> accepted_job a \<and> 0 < n)"
    using k'(3) k job(2) by (fastforce split: option.splits)
next
  fix now jid s w l' assume f: "FetchJobResult now jid l = (s, w, l')" "i32 jid = int k" "w_valid w"
  have h: "honest_for (job_cell a) (nat (i32 jid)) cs" using workers_honest [OF run small workers job(2-4)] f(2) by simp
  have j: "valid_job a" "\<not> p_keep_rows_separate a" "p_profile_type a = P_1NN_INDEX" using job(3) by (simp_all add: index_job_def)
  show "best_of_job (job_cell a) a (p_profile_a (w_args w))"
    by (rule fetched_result_of_job(2) [OF run(1-3) h f(1,3) _ j]) (simp add: job(2) f(2))
qed

text \<open>The demonstration job, its only tile computed by a worker with one thread.\<close>

abbreviation demo_index_job :: ProtoArgs where
  "demo_index_job \<equiv> demo_job_args P_1NN_INDEX"

abbreviation demo_order_of :: "nat \<Rightarrow> nat list" where
  "demo_order_of \<equiv> \<lambda>n. [0..<n]"

definition cluster_calls :: "(call \<times> reply) list" where
  "cluster_calls = [(Issue demo_index_job, R_status RPC_OK (empty_status\<lparr>s_status := JOB_STATUS_RUNNING, s_job_id := 0\<rparr>)),
     (Request 1, R_work RPC_OK \<lparr>w_args = demo_sent P_1NN_INDEX, w_valid = True\<rparr>)]"

lemma cluster_start:
  "server_run exact exact demo_order_of SCHEDULE_TYPE_ROUND_ROBIN cluster_calls (demo_server (demo_running P_1NN_INDEX))"
  using server_run.step [OF server_run.step [OF server_run.start server_step.issue [OF demo_issue]] server_step.request [OF demo_request]]
  by (simp add: cluster_calls_def)

lemma demo_index:
  "index_job demo_index_job" "accepted_job demo_index_job" "tiles_fit demo_index_job 1" "issued_jobs cluster_calls = [demo_index_job]"
  "list_all valid_job (issued_jobs cluster_calls)"
  using demo_valid [of P_1NN_INDEX]
  by (simp_all add: index_job_def demo_pairs cluster_calls_def accepted_job_def tiles_fit_def)
    (simp_all add: demo_job_args_def empty_proto_args_def matrix_cols_def size_of_def)

lemma demo_work: "\<lparr>w_args = demo_sent P_1NN_INDEX, w_valid = True\<rparr> = \<lparr>w_args = work_args demo_index_job 0 0, w_valid = True\<rparr>"
proof -
  have "handed_out cluster_calls \<lparr>w_args = demo_sent P_1NN_INDEX, w_valid = True\<rparr>"
    by (rule requested_work [OF double_rounding_exact demo_order cluster_start demo_index(5)]) (auto simp: cluster_calls_def)
  then show ?thesis by (auto simp: handed_out_def demo_index(4) demo_pairs)
qed

text \<open>The job that waits for the tile takes any result that is right.\<close>

lemma demo_accepts:
  assumes "good_result demo_index_job 0 0 r"
  shows "\<exists>j s w l'. SCAMPCombiner exact 0 r (demo_server (demo_running P_1NN_INDEX)) = Inr (RPC_OK, demo_server j)
    \<and> FetchJobResult 0 0 (demo_server j) = (s, w, l') \<and> w_valid w"
proof -
  have e: "request_of r = request_of (demo_sent P_1NN_INDEX)" using assms demo_work by (simp add: good_result_def)
  note fields = e [THEN arg_cong, of p_job_id] e [THEN arg_cong, of p_tile_id] e [THEN arg_cong, of p_window]
    e [THEN arg_cong, of p_timeseries_size_a] e [THEN arg_cong, of p_timeseries_size_b] e [THEN arg_cong, of p_has_b]
    e [THEN arg_cong, of p_distributed_start_row] e [THEN arg_cong, of p_distributed_start_col]
  have t: "job_tile demo_index_job 0 = DistributedTile_init 0 0 2 2 0"
    by (simp add: job_tile_def demo_pairs) (simp add: new_tile_def demo_job_args_def empty_proto_args_def matrix_rows_def matrix_cols_def size_of_def)
  obtain d ds where p: "p_profile_a r = \<lparr>pdata = d # ds, ptype = P_1NN_INDEX\<rparr>" "length (uint64_of d) = 2"
    using assms by (auto simp: good_result_def result_ok_def Let_def t DistributedTile_init_def GetProfileSize_def size_of_def)
  have r: "p_job_id r = 0" "p_tile_id r = 0" "p_window r = 3" "p_timeseries_size_a r = 4" "\<not> p_has_b r"
      "p_distributed_start_row r = 0" "p_distributed_start_col r = 0"
    using fields by (simp_all add: request_of_def demo_sent_def tile_args_of_def DistributedTile_init_def demo_job_args_def
        empty_proto_args_def Let_def)
  obtain pa where m: "MergeTileIntoFullProfile exact (p_profile_a r) 0 2 (p_profile_a (initial_args demo_index_job)) 0 = Inr pa"
    using p by (simp add: MergeTileIntoFullProfile_def initial_args_def demo_job_args_def empty_proto_args_def empty_proto_profile_def
        matrix_cols_def size_of_def InitProtoProfile_def elementwise_max_index_eq)
  define j where "j = (demo_running P_1NN_INDEX)\<lparr>j_args := (initial_args demo_index_job)\<lparr>p_profile_a := pa\<rparr>,
     j_tiles := [(demo_tile P_1NN_INDEX)\<lparr>dt_status := TILE_STATUS_FINISHED, dt_end_time := 0\<rparr>], j_tiles_completed := 1\<rparr>"
  have "CombineProfile exact 0 r (demo_running P_1NN_INDEX) = Inr (True, j)"
    using m p r
    by (simp add: CombineProfile_def demo_running_def demo_job_def j_def tile_accepts_def request_width_def request_height_def
        demo_tile_def DistributedTile_init_def GetProfileSize_def size_of_def finish_tile_def set_finished_def
        get_current_time_def tile_args_of_def demo_job_args_def empty_proto_args_def MergeJobProfile_def)
  then have "SCAMPCombiner exact 0 r (demo_server (demo_running P_1NN_INDEX)) = Inr (RPC_OK, demo_server j)"
    using r(1) by (simp add: SCAMPCombiner_def get_job_def demo_server_def update_job_def)
  moreover have "is_done 0 j = (True, j\<lparr>j_status := JOB_STATUS_FINISHED, j_end_time := 0\<rparr>)"
    by (simp add: is_done_def j_def demo_running_def demo_job_def)
  ultimately show ?thesis by (simp add: FetchJobResult_def get_job_def demo_server_def empty_work_def)
qed

lemma cluster_computes_profile_witness:
  "\<exists>r j s w l'. server_run exact exact demo_order_of SCHEDULE_TYPE_ROUND_ROBIN (cluster_calls @ [(Send_result r, R_empty RPC_OK)]) (demo_server j)
    \<and> worker_result {1} cluster_calls r \<and> FetchJobResult 0 0 (demo_server j) = (s, w, l') \<and> w_valid w
    \<and> best_of_job (job_cell demo_index_job) demo_index_job (p_profile_a (w_args w))"
proof -
  let ?work = "\<lparr>w_args = work_args demo_index_job 0 0, w_valid = True\<rparr>"
  let ?run = "\<lambda>sched. ExecuteWork exact_fpu list_eigen (\<lambda>_. NaN) NaN undefined 1 sched ?work"
  obtain m where m: "\<forall>sched. case ?run sched of None \<Rightarrow> \<not> fair (nat 1) m sched
    | Some r \<Rightarrow> \<exists>w. r = Inr w \<and> (w_valid w \<longleftrightarrow> accepted_job demo_index_job \<and> 0 < (1::int))
        \<and> (w_valid w \<longrightarrow> good_result demo_index_job 0 0 (w_args w))"
    using ExecuteWork_result [OF demo_index(1) _ demo_index(3) list_eigen_max] by (force simp: demo_pairs)
  have "fair (nat 1) m (replicate m 0)" by (simp add: fair_def)
  then obtain w where w: "?run (replicate m 0) = Some (Inr w)" "w_valid w" "good_result demo_index_job 0 0 (w_args w)"
    using m [rule_format, of "replicate m 0"] demo_index(2) by (auto split: option.splits)
  obtain j s v l' where j: "SCAMPCombiner exact 0 (w_args w) (demo_server (demo_running P_1NN_INDEX)) = Inr (RPC_OK, demo_server j)"
      "FetchJobResult 0 0 (demo_server j) = (s, v, l')" "w_valid v"
    using demo_accepts [OF w(3)] by blast
  let ?cs = "cluster_calls @ [(Send_result (w_args w), R_empty RPC_OK)]"
  have run: "server_run exact exact demo_order_of SCHEDULE_TYPE_ROUND_ROBIN ?cs (demo_server j)"
    by (rule server_run.step [OF cluster_start server_step.send [OF j(1)]])
  have "(Request 1, R_work RPC_OK ?work) \<in> set cluster_calls" by (simp add: cluster_calls_def demo_work)
  note request = this
  have r: "worker_result {1} cs (w_args w)" if "set cluster_calls \<subseteq> set cs" for cs
    by (rule worker_resultI [OF subsetD [OF that request] _ list_eigen_max _ w(1,2)]) simp_all
  have sent: "sent_results ?cs = {w_args w}" by (auto simp: sent_results_def cluster_calls_def)
  have results: "\<forall>r \<in> sent_results ?cs. worker_result {1} ?cs r" unfolding sent using r [of ?cs] by auto
  have "\<forall>now jid s w l'. FetchJobResult now jid (demo_server j) = (s, w, l') \<and> i32 jid = int 0 \<and> w_valid w \<longrightarrow>
      best_of_job (job_cell demo_index_job) demo_index_job (p_profile_a (w_args w))"
    by (rule cluster_computes_profile [OF double_rounding_exact demo_order run _ _ results _ _ demo_index(1), THEN conjunct2])
      (use demo_index(3,5) in \<open>simp_all add: demo_index(4)\<close>)
  then have "best_of_job (job_cell demo_index_job) demo_index_job (p_profile_a (w_args v))" using j(2,3) by fastforce
  then show ?thesis using run r [of cluster_calls] j(2,3) by blast
qed

end
