(* ===== verification/GpuConfig.thy ===== *)
theory GpuConfig
  imports Tiling
begin

text \<open>
  The launch configurations of the GPU kernels: src/core/gpu_kernel/kernel_config.h and kernel_config.cpp,
  kernel_gpu_utils.cu, and the occupancy bound and the layout of the shared memory in kernel_gpu_utils.h.

  The table of variants \<open>kVariants\<close> is generated by the build; it is the argument \<open>vs\<close>. An index outside
  the table violates an assertion and is \<open>None\<close>.
\<close>

subsection \<open>Configurations and variants\<close>

record KernelConfig =
  cfg_blocksz :: int
  cfg_blocks_per_sm :: int
  cfg_diags_per_thread :: int
  cfg_unrolled_rows :: int
  cfg_outer_unrolled_rows :: int
  cfg_kernel_tile_iters :: int

definition tile_height :: "KernelConfig \<Rightarrow> int" where
  "tile_height cfg = cfg_kernel_tile_iters cfg * cfg_outer_unrolled_rows cfg"

record KernelVariantGeometry =
  var_blocks_per_sm :: int
  var_diags_per_thread :: int
  var_unrolled_rows :: int
  var_outer_unrolled_rows :: int
  var_kernel_tile_iters :: int
  var_default_blocksz_sp :: int

definition GetKernelVariantGeometry :: "KernelVariantGeometry list \<Rightarrow> int \<Rightarrow> KernelVariantGeometry option" where
  "GetKernelVariantGeometry vs i = aget vs i"

definition DefaultBlockszForPrecision :: "KernelVariantGeometry \<Rightarrow> SCAMPPrecisionType \<Rightarrow> int" where
  "DefaultBlockszForPrecision v precision = (case precision of
       PRECISION_ULTRA \<Rightarrow> trunc_div (var_default_blocksz_sp v) 2
     | PRECISION_DOUBLE \<Rightarrow> trunc_div (var_default_blocksz_sp v) 2
     | PRECISION_SINGLE \<Rightarrow> var_default_blocksz_sp v
     | _ \<Rightarrow> trunc_div (var_default_blocksz_sp v) 2)"

definition GetKernelConfigForVariant ::
  "KernelVariantGeometry list \<Rightarrow> int \<Rightarrow> SCAMPPrecisionType \<Rightarrow> KernelConfig option" where
  "GetKernelConfigForVariant vs i precision = do {
     v \<leftarrow> aget vs i;
     Some \<lparr>cfg_blocksz = DefaultBlockszForPrecision v precision, cfg_blocks_per_sm = var_blocks_per_sm v,
       cfg_diags_per_thread = var_diags_per_thread v, cfg_unrolled_rows = var_unrolled_rows v,
       cfg_outer_unrolled_rows = var_outer_unrolled_rows v, cfg_kernel_tile_iters = var_kernel_tile_iters v\<rparr> }"

text \<open>The first variant of a family, or the size of the table; \<open>unrolled_rows\<close> 0 marks the shuffle family.\<close>

fun first_variant :: "bool \<Rightarrow> int \<Rightarrow> KernelVariantGeometry list \<Rightarrow> int" where
  "first_variant want_shfl i [] = i"
| "first_variant want_shfl i (v # vs) =
     (if (var_unrolled_rows v = 0) = want_shfl then i else first_variant want_shfl (i + 1) vs)"

definition FindFirstVariantOfFamily :: "KernelVariantGeometry list \<Rightarrow> bool \<Rightarrow> int" where
  "FindFirstVariantOfFamily vs want_shfl = first_variant want_shfl 0 vs"

definition ProfileTypePrefersShfl :: "SCAMPProfileType \<Rightarrow> bool" where
  "ProfileTypePrefersShfl profile \<longleftrightarrow> profile \<in> {PROFILE_TYPE_1NN_INDEX, PROFILE_TYPE_SUM_THRESH,
     PROFILE_TYPE_APPROX_ALL_NEIGHBORS, PROFILE_TYPE_MATRIX_SUMMARY}"

definition GetDefaultKernelConfig ::
  "KernelVariantGeometry list \<Rightarrow> SCAMPProfileType \<Rightarrow> SCAMPPrecisionType \<Rightarrow> KernelConfig option" where
  "GetDefaultKernelConfig vs profile precision =
     (let want_shfl = ProfileTypePrefersShfl profile; n = int (length vs);
          idx = FindFirstVariantOfFamily vs want_shfl;
          idx' = (if idx = n then FindFirstVariantOfFamily vs (\<not> want_shfl) else idx);
          idx'' = (if idx' = n then 0 else idx')
      in GetKernelConfigForVariant vs idx'' precision)"

definition same_tuple :: "KernelConfig \<Rightarrow> KernelVariantGeometry \<Rightarrow> bool" where
  "same_tuple cfg v \<longleftrightarrow> cfg_blocks_per_sm cfg = var_blocks_per_sm v \<and> cfg_diags_per_thread cfg = var_diags_per_thread v
     \<and> cfg_unrolled_rows cfg = var_unrolled_rows v \<and> cfg_outer_unrolled_rows cfg = var_outer_unrolled_rows v
     \<and> cfg_kernel_tile_iters cfg = var_kernel_tile_iters v"

definition IsSupportedKernelConfig :: "KernelVariantGeometry list \<Rightarrow> KernelConfig \<Rightarrow> bool" where
  "IsSupportedKernelConfig vs cfg \<longleftrightarrow>
     list_ex (\<lambda>v. same_tuple cfg v \<and> cfg_blocksz cfg \<in> {64, 128, 256, 512}) vs"

subsection \<open>Occupancy\<close>

text \<open>\<open>__CUDA_ARCH__\<close> is the argument; \<open>None\<close> is the compilation for the host, where it is not defined.\<close>

definition hw_threads_per_sm :: "int option \<Rightarrow> int" where
  "hw_threads_per_sm cuda_arch = (case cuda_arch of None \<Rightarrow> 2048
     | Some a \<Rightarrow> if a = 750 then 1024 else if a \<in> {860, 870, 890, 1100, 1200} then 1536 else 2048)"

definition safe_bps :: "int \<Rightarrow> int \<Rightarrow> int \<Rightarrow> int" where
  "safe_bps target_threads_per_sm blocksz hw_threads =
     (if blocksz \<le> 0 then 1
      else let desired = trunc_div target_threads_per_sm blocksz; hw_cap = trunc_div hw_threads blocksz;
               result = (if desired < hw_cap then desired else hw_cap)
           in if 0 < result then result else 1)"

subsection \<open>Shared memory\<close>

definition NeedsCheckIfDone :: "SCAMPProfileType \<Rightarrow> bool" where
  "NeedsCheckIfDone profile_type \<longleftrightarrow> profile_type = PROFILE_TYPE_APPROX_ALL_NEIGHBORS"

fun FPTypeSize :: "SCAMPPrecisionType \<Rightarrow> int" where
  "FPTypeSize PRECISION_ULTRA = sizeof_double"
| "FPTypeSize PRECISION_DOUBLE = sizeof_double"
| "FPTypeSize PRECISION_MIXED = sizeof_float"
| "FPTypeSize PRECISION_SINGLE = sizeof_float"
| "FPTypeSize PRECISION_INVALID = -1"

fun GetProfileTypeSizeInternalGPU :: "SCAMPProfileType \<Rightarrow> int result" where
  "GetProfileTypeSizeInternalGPU PROFILE_TYPE_SUM_THRESH = Inr sizeof_double"
| "GetProfileTypeSizeInternalGPU PROFILE_TYPE_1NN_INDEX = Inr sizeof_uint64"
| "GetProfileTypeSizeInternalGPU PROFILE_TYPE_1NN = Inr sizeof_float"
| "GetProfileTypeSizeInternalGPU PROFILE_TYPE_APPROX_ALL_NEIGHBORS = Inr sizeof_uint64"
| "GetProfileTypeSizeInternalGPU PROFILE_TYPE_MATRIX_SUMMARY = Inr sizeof_uint64"
| "GetProfileTypeSizeInternalGPU PROFILE_TYPE_KNN = Inr sizeof_uint64"
| "GetProfileTypeSizeInternalGPU _ = Inl (SCAMPException ''Error: Could not determine size of profile elements'')"

lemma GetProfileTypeSizeInternalGPU_pos: "GetProfileTypeSizeInternalGPU ty = Inr n \<Longrightarrow> n \<in> {4, 8}"
  by (cases ty) (auto simp: sizeof_double_def sizeof_float_def sizeof_uint64_def)

text \<open>
  The bytes of a block of the two kernels. The products are computed in \<open>int\<close>; the sizes of the variants
  keep them far from its bounds, so no wrap-around is written out.
\<close>

definition profile_smem :: "OpInfo \<Rightarrow> int \<Rightarrow> int \<Rightarrow> int \<Rightarrow> int" where
  "profile_smem info profile_data_size tile_width height =
     (if op_computing_cols info then tile_width * profile_data_size else 0)
     + (if op_computing_rows info then height * profile_data_size else 0)"

definition get_smem :: "OpInfo \<Rightarrow> int \<Rightarrow> int \<Rightarrow> int \<Rightarrow> int result" where
  "get_smem info blocksz height diags_per_thread =
     (let data_size = FPTypeSize (op_fp_type info); tile_width = blocksz * diags_per_thread + height in
      rbind (GetProfileTypeSizeInternalGPU (op_profile_type info)) (\<lambda>profile_data_size.
        Inr ((tile_width + height) * (3 + num_extra_operands (op_opt_args info)) * data_size
             + profile_smem info profile_data_size tile_width height
             + (if NeedsCheckIfDone (op_profile_type info) then 2 * sizeof_uint64 else 0))))"

definition get_smem_shfl :: "OpInfo \<Rightarrow> int \<Rightarrow> int \<Rightarrow> int \<Rightarrow> int result" where
  "get_smem_shfl info blocksz height diags_per_thread =
     (let data_size = FPTypeSize (op_fp_type info); tile_width_profile = blocksz * diags_per_thread + height;
          warps_per_block = trunc_div blocksz 32 in
      rbind (GetProfileTypeSizeInternalGPU (op_profile_type info)) (\<lambda>profile_data_size.
        Inr (height * (3 + num_extra_operands (op_opt_args info)) * data_size
             + profile_smem info profile_data_size tile_width_profile height
             + 2 * warps_per_block * data_size
             + (if NeedsCheckIfDone (op_profile_type info) then 2 * sizeof_uint64 else 0))))"

text \<open>
  The constructors of \<open>SCAMPSmem\<close> and of \<open>SCAMPShflSmem\<close> in kernels_compute_shfl.h carve the block's memory
  into regions: each pointer starts where the region before it ends. A region has its size in elements and
  the size of an element, which is the alignment its accesses need.
\<close>

datatype region = Df_col | Dg_col | Inorm_col | Df_row | Dg_row | Inorm_row | Mp_col | Mp_row
  | Cov_handoff | Profile_a_length | Profile_b_length

type_synonym sized_region = "region \<times> int \<times> int"

fun carve :: "int \<Rightarrow> sized_region list \<Rightarrow> (region \<times> int \<times> int \<times> int) list" where
  "carve smem [] = []"
| "carve smem ((r, n, sz) # rs) = (r, smem, n, sz) # carve (smem + sz * n) rs"

definition profile_regions :: "SCAMPProfileType \<Rightarrow> int \<Rightarrow> int \<Rightarrow> int \<Rightarrow> bool \<Rightarrow> bool \<Rightarrow> sized_region list" where
  "profile_regions type psz tile_width height compute_rows compute_columns =
     (if compute_columns then [(Mp_col, tile_width, psz)] else [])
     @ (if compute_rows then [(Mp_row, height, psz)] else [])"

definition length_regions :: "SCAMPProfileType \<Rightarrow> sized_region list" where
  "length_regions type =
     (if NeedsCheckIfDone type then [(Profile_a_length, 1, sizeof_uint64), (Profile_b_length, 1, sizeof_uint64)] else [])"

definition SCAMPSmem ::
  "int \<Rightarrow> int \<Rightarrow> SCAMPProfileType \<Rightarrow> int \<Rightarrow> int \<Rightarrow> bool \<Rightarrow> bool \<Rightarrow> (region \<times> int \<times> int \<times> int) list" where
  "SCAMPSmem dsz psz type tile_width height compute_rows compute_columns =
     carve 0 ([(Df_col, tile_width, dsz), (Dg_col, tile_width, dsz), (Inorm_col, tile_width, dsz),
               (Df_row, height, dsz), (Dg_row, height, dsz), (Inorm_row, height, dsz)]
              @ profile_regions type psz tile_width height compute_rows compute_columns @ length_regions type)"

definition SCAMPShflSmem ::
  "int \<Rightarrow> int \<Rightarrow> SCAMPProfileType \<Rightarrow> int \<Rightarrow> int \<Rightarrow> int \<Rightarrow> bool \<Rightarrow> bool \<Rightarrow> (region \<times> int \<times> int \<times> int) list" where
  "SCAMPShflSmem dsz psz type tile_width height warps_per_block compute_rows compute_columns =
     carve 0 ([(Df_row, height, dsz), (Dg_row, height, dsz), (Inorm_row, height, dsz)]
              @ profile_regions type psz tile_width height compute_rows compute_columns
              @ [(Cov_handoff, 2 * warps_per_block, dsz)] @ length_regions type)"

subsection \<open>Facts\<close>

lemma carve_bounds:
  assumes "\<forall>(r, n, sz) \<in> set rs. 0 \<le> n \<and> 0 \<le> sz" "(r, off, n, sz) \<in> set (carve smem rs)"
  shows "smem \<le> off \<and> off + sz * n \<le> smem + (\<Sum>(r, n, sz) \<leftarrow> rs. sz * n)"
  using assms
proof (induction smem rs rule: carve.induct)
  case (2 smem r' n' sz' rs)
  note IH = 2(1) and prem = 2(2)
  have nn: "0 \<le> sz' * n'" using 2(2) by simp
  have tl: "0 \<le> (\<Sum>(r, n, sz) \<leftarrow> rs. sz * n)" using 2(2) by (intro sum_list_nonneg) auto
  from 2(3) consider "off = smem" "n = n'" "sz = sz'" | "(r, off, n, sz) \<in> set (carve (smem + sz' * n') rs)" by auto
  then show ?case
  proof cases
    case 1
    then show ?thesis using tl by simp
  next
    case 2
    then have "smem + sz' * n' \<le> off \<and> off + sz * n \<le> smem + sz' * n' + (\<Sum>(r, n, sz) \<leftarrow> rs. sz * n)"
      using IH prem by simp
    then show ?thesis using nn by (simp only: list.map sum_list.Cons prod.case) linarith
  qed
qed simp

lemma carve_disjoint:
  assumes "\<forall>(r, n, sz) \<in> set rs. 0 \<le> n \<and> 0 \<le> sz" "i < j" "j < length rs"
    "carve smem rs ! i = (r, off, n, sz)" "carve smem rs ! j = (r', off', n', sz')"
  shows "off + sz * n \<le> off'"
  using assms
proof (induction smem rs arbitrary: i j rule: carve.induct)
  case (2 smem ra na sa rs)
  have len: "length (carve m xs) = length xs" for m xs by (induction m xs rule: carve.induct) auto
  show ?case
  proof (cases i)
    case 0
    have "carve (smem + sa * na) rs ! (j - 1) = (r', off', n', sz')" using 2(3,6) 0 by (cases j) auto
    then have "(r', off', n', sz') \<in> set (carve (smem + sa * na) rs)"
      using 2(3,4) 0 len [of "smem + sa * na" rs] by (metis One_nat_def Suc_less_eq Suc_pred length_Cons nth_mem)
    then show ?thesis using carve_bounds [of rs r' off' n' sz' "smem + sa * na"] 2(2,5) 0 by simp
  next
    case (Suc i')
    then show ?thesis using 2(1) [of i' "j - 1"] 2(2-) by (cases j) auto
  qed
qed simp

lemma carve_start: "\<forall>x \<in> set (carve m rs). fst (snd x) mod d = 0"
  if "m mod d = 0" "\<forall>(r, n, sz) \<in> set rs. sz * n mod d = 0" for d :: int
  using that by (induction m rs rule: carve.induct) (auto simp: mod_add_eq [symmetric])

lemma carve_append: "carve m (xs @ ys) = carve m xs @ carve (m + (\<Sum>(r, n, sz) \<leftarrow> xs. sz * n)) ys"
  by (induction m xs rule: carve.induct) (auto simp: add.assoc)

lemma profile_regions_sum:
  "(\<Sum>(r, n, sz) \<leftarrow> profile_regions ty psz w h rows cols. sz * n) = (if cols then w * psz else 0) + (if rows then h * psz else 0)"
  by (simp add: profile_regions_def mult.commute)

text \<open>The regions do not overlap, start at a multiple of the size of their elements and end within the memory.\<close>

definition layout_ok :: "int \<Rightarrow> (region \<times> int \<times> int \<times> int) list \<Rightarrow> bool" where
  "layout_ok bytes rs \<longleftrightarrow>
     (\<forall>(r, off, n, sz) \<in> set rs. 0 \<le> off \<and> off + sz * n \<le> bytes \<and> off mod sz = 0)
     \<and> (\<forall>i j. i < j \<and> j < length rs \<longrightarrow> (case (rs ! i, rs ! j) of ((r, off, n, sz), (r', off', n', sz')) \<Rightarrow> off + sz * n \<le> off'))"

lemma carve_layout:
  assumes "\<forall>(r, n, sz) \<in> set rs. 0 \<le> n \<and> 0 \<le> sz" "(\<Sum>(r, n, sz) \<leftarrow> rs. sz * n) \<le> bytes"
    "\<forall>(r, off, n, sz) \<in> set (carve 0 rs). off mod sz = 0"
  shows "layout_ok bytes (carve 0 rs)"
proof -
  have len: "length (carve m xs) = length xs" for m xs by (induction m xs rule: carve.induct) auto
  show ?thesis
    unfolding layout_ok_def
  proof (intro conjI ballI allI impI)
    fix x assume x: "x \<in> set (carve 0 rs)"
    obtain r off n sz where E: "x = (r, off, n, sz)" by (cases x)
    have "0 \<le> off \<and> off + sz * n \<le> bytes"
      using carve_bounds [OF assms(1) x [unfolded E]] assms(2) by linarith
    moreover have "off mod sz = 0" using bspec [OF assms(3) x] by (simp add: E)
    ultimately show "case x of (r, off, n, sz) \<Rightarrow> 0 \<le> off \<and> off + sz * n \<le> bytes \<and> off mod sz = 0"
      by (simp add: E)
  next
    fix i j assume "i < j \<and> j < length (carve 0 rs)"
    then show "case (carve 0 rs ! i, carve 0 rs ! j) of ((r, off, n, sz), (r', off', n', sz')) \<Rightarrow> off + sz * n \<le> off'"
      using carve_disjoint [OF assms(1), of i j] len by (auto split: prod.splits)
  qed
qed

lemma smem_sizes:
  assumes "GetProfileTypeSizeInternalGPU ty = Inr psz" "fp \<noteq> PRECISION_INVALID"
  shows "psz \<in> {4, 8}" "FPTypeSize fp \<in> {4, 8}" "NeedsCheckIfDone ty \<Longrightarrow> psz = 8"
  using assms GetProfileTypeSizeInternalGPU_pos [OF assms(1)]
  by (cases fp; auto simp: sizeof_double_def sizeof_float_def sizeof_uint64_def NeedsCheckIfDone_def)+

definition profile_part :: "OpInfo \<Rightarrow> int \<Rightarrow> int \<Rightarrow> int \<Rightarrow> sized_region list" where
  "profile_part info psz w h = profile_regions (op_profile_type info) psz w h (op_computing_rows info) (op_computing_cols info)"

abbreviation length_bytes :: "OpInfo \<Rightarrow> int" where
  "length_bytes info \<equiv> (if NeedsCheckIfDone (op_profile_type info) then 16 else 0)"

lemmas layout_defs = profile_part_def profile_regions_def length_regions_def profile_smem_def sizeof_uint64_def

lemma get_smem_fits:
  assumes "GetProfileTypeSizeInternalGPU (op_profile_type info) = Inr psz" "op_fp_type info \<noteq> PRECISION_INVALID"
    and "0 \<le> num_extra_operands (op_opt_args info)" "bsz \<in> {64, 128, 256, 512}" "0 < dpt" "0 < h" "even h"
  shows "\<exists>bytes. get_smem info bsz h dpt = Inr bytes
      \<and> layout_ok bytes (SCAMPSmem (FPTypeSize (op_fp_type info)) psz (op_profile_type info) (bsz * dpt + h) h
          (op_computing_rows info) (op_computing_cols info))"
proof -
  define d where "d = FPTypeSize (op_fp_type info)"
  define w where "w = bsz * dpt + h"
  define e where "e = num_extra_operands (op_opt_args info)"
  define rs where "rs = [(Df_col, w, d), (Dg_col, w, d), (Inorm_col, w, d), (Df_row, h, d), (Dg_row, h, d), (Inorm_row, h, d)]
    @ profile_part info psz w h @ length_regions (op_profile_type info)"
  note sz = smem_sizes [OF assms(1,2), folded d_def]
  have w: "0 < w" "even w" using assms(4-7) by (auto simp: w_def)
  have ex: "0 \<le> (w + h) * e * d" using w assms sz(2) by (auto simp: e_def)
  have total: "get_smem info bsz h dpt = Inr ((w + h) * (3 + e) * d + profile_smem info psz w h + length_bytes info)"
    using assms(1) by (simp add: get_smem_def Let_def d_def w_def e_def sizeof_uint64_def)
  have "layout_ok ((w + h) * (3 + e) * d + profile_smem info psz w h + length_bytes info) (carve 0 rs)"
  proof (rule carve_layout)
    show "\<forall>(r, n, s) \<in> set rs. 0 \<le> n \<and> 0 \<le> s"
      using w assms(6) sz by (auto simp: rs_def layout_defs)
    show "(\<Sum>(r, n, s) \<leftarrow> rs. s * n) \<le> (w + h) * (3 + e) * d + profile_smem info psz w h + length_bytes info"
      using ex by (simp add: rs_def layout_defs algebra_simps)
    show "\<forall>(r, off, n, s) \<in> set (carve 0 rs). off mod s = 0"
      using sz w(2) assms(7) by (auto simp: rs_def layout_defs elim!: evenE)
  qed
  then show ?thesis using total by (simp add: d_def w_def rs_def SCAMPSmem_def profile_part_def)
qed

lemma get_smem_shfl_fits:
  assumes "GetProfileTypeSizeInternalGPU (op_profile_type info) = Inr psz" "op_fp_type info \<noteq> PRECISION_INVALID"
    and "0 \<le> num_extra_operands (op_opt_args info)" "bsz \<in> {64, 128, 256, 512}" "0 < dpt" "0 < h" "even h"
  shows "\<exists>bytes. get_smem_shfl info bsz h dpt = Inr bytes
      \<and> layout_ok bytes (SCAMPShflSmem (FPTypeSize (op_fp_type info)) psz (op_profile_type info) (bsz * dpt + h) h
          (bsz div 32) (op_computing_rows info) (op_computing_cols info))"
proof -
  define d where "d = FPTypeSize (op_fp_type info)"
  define w where "w = bsz * dpt + h"
  define e where "e = num_extra_operands (op_opt_args info)"
  define wp where "wp = bsz div 32"
  define rs where "rs = [(Df_row, h, d), (Dg_row, h, d), (Inorm_row, h, d)]
    @ profile_part info psz w h @ [(Cov_handoff, 2 * wp, d)] @ length_regions (op_profile_type info)"
  note sz = smem_sizes [OF assms(1,2), folded d_def]
  have w: "0 < w" "even w" "0 < wp" "even wp" using assms(4-7) by (auto simp: w_def wp_def)
  have ex: "0 \<le> h * e * d" using assms sz(2) by (auto simp: e_def)
  have total: "get_smem_shfl info bsz h dpt
      = Inr (h * (3 + e) * d + profile_smem info psz w h + 2 * wp * d + length_bytes info)"
    using assms(1,4) by (auto simp: get_smem_shfl_def Let_def d_def w_def e_def wp_def sizeof_uint64_def)
  have "layout_ok (h * (3 + e) * d + profile_smem info psz w h + 2 * wp * d + length_bytes info) (carve 0 rs)"
  proof (rule carve_layout)
    show "\<forall>(r, n, s) \<in> set rs. 0 \<le> n \<and> 0 \<le> s"
      using w assms(6) sz by (auto simp: rs_def layout_defs)
    show "(\<Sum>(r, n, s) \<leftarrow> rs. s * n) \<le> h * (3 + e) * d + profile_smem info psz w h + 2 * wp * d + length_bytes info"
      using ex by (simp add: rs_def layout_defs algebra_simps)
    show "\<forall>(r, off, n, s) \<in> set (carve 0 rs). off mod s = 0"
      using sz w(2,4) assms(7) by (auto simp: rs_def layout_defs elim!: evenE)
  qed
  then show ?thesis using total by (simp add: d_def w_def rs_def wp_def SCAMPShflSmem_def profile_part_def)
qed

text \<open>
  C40. The shared memory of both kernels: for the block sizes of supported configurations and an even tile height
  the regions the constructors carve do not overlap, every region is aligned for its elements, and the last one
  ends within the bytes the launch asks for.
\<close>

theorem shared_memory_fits:
  assumes "GetProfileTypeSizeInternalGPU (op_profile_type info) = Inr psz" "op_fp_type info \<noteq> PRECISION_INVALID"
    and "0 \<le> num_extra_operands (op_opt_args info)" "bsz \<in> {64, 128, 256, 512}" "0 < dpt" "0 < h" "even h"
  shows "(\<exists>bytes. get_smem info bsz h dpt = Inr bytes
      \<and> layout_ok bytes (SCAMPSmem (FPTypeSize (op_fp_type info)) psz (op_profile_type info) (bsz * dpt + h) h
          (op_computing_rows info) (op_computing_cols info)))
    \<and> (\<exists>bytes. get_smem_shfl info bsz h dpt = Inr bytes
      \<and> layout_ok bytes (SCAMPShflSmem (FPTypeSize (op_fp_type info)) psz (op_profile_type info) (bsz * dpt + h) h
          (bsz div 32) (op_computing_rows info) (op_computing_cols info)))"
  using get_smem_fits [OF assms] get_smem_shfl_fits [OF assms] by blast

lemma shared_memory_fits_witness:
  "(\<exists>bytes. get_smem demo_geometry 128 256 8 = Inr bytes
      \<and> layout_ok bytes (SCAMPSmem (FPTypeSize (op_fp_type demo_geometry)) 4 (op_profile_type demo_geometry) (128 * 8 + 256) 256
          (op_computing_rows demo_geometry) (op_computing_cols demo_geometry)))
    \<and> (\<exists>bytes. get_smem_shfl demo_geometry 128 256 8 = Inr bytes
      \<and> layout_ok bytes (SCAMPShflSmem (FPTypeSize (op_fp_type demo_geometry)) 4 (op_profile_type demo_geometry) (128 * 8 + 256) 256
          (128 div 32) (op_computing_rows demo_geometry) (op_computing_cols demo_geometry)))"
  by (rule shared_memory_fits) (simp_all add: demo_geometry_def sizeof_uint64_def sizeof_float_def sizeof_double_def)

text \<open>The bound of the occupancy: never more threads than the hardware has, for blocks it can hold at all.\<close>

lemma safe_bps_bounds:
  assumes "0 < blocksz" "blocksz \<le> hw" "0 \<le> target"
  shows "1 \<le> safe_bps target blocksz hw \<and> safe_bps target blocksz hw * blocksz \<le> hw"
proof -
  have "hw div blocksz * blocksz \<le> hw" using assms(1) minus_mod_eq_div_mult [of hw blocksz] pos_mod_sign [of blocksz hw] by linarith
  moreover have "x * blocksz \<le> hw" if "x \<le> hw div blocksz" for x
    using mult_right_mono [OF that, of blocksz] assms(1) calculation by linarith
  ultimately show ?thesis using assms by (simp add: safe_bps_def Let_def not_less)
qed

subsection \<open>Which configurations are supported\<close>

lemma supported_iff:
  "IsSupportedKernelConfig vs cfg \<longleftrightarrow> cfg_blocksz cfg \<in> {64, 128, 256, 512} \<and> (\<exists>v \<in> set vs. same_tuple cfg v)"
  by (auto simp: IsSupportedKernelConfig_def list_ex_iff)

text \<open>A table whose entries have sizes that can be launched in both precisions.\<close>

definition int_ok :: "int \<Rightarrow> bool" where "int_ok n \<longleftrightarrow> - (2 ^ 31) \<le> n \<and> n < 2 ^ 31"

definition variant_ok :: "KernelVariantGeometry \<Rightarrow> bool" where
  "variant_ok v \<longleftrightarrow> var_default_blocksz_sp v \<in> {128, 256, 512} \<and> int_ok (var_blocks_per_sm v)
     \<and> int_ok (var_diags_per_thread v) \<and> int_ok (var_unrolled_rows v) \<and> int_ok (var_outer_unrolled_rows v)
     \<and> int_ok (var_kernel_tile_iters v)"

definition table_ok :: "KernelVariantGeometry list \<Rightarrow> bool" where
  "table_ok vs \<longleftrightarrow> vs \<noteq> [] \<and> int (length vs) < 2 ^ 31 \<and> (\<forall>v \<in> set vs. variant_ok v)"

lemma default_blocksz_supported:
  "table_ok vs \<Longrightarrow> v \<in> set vs \<Longrightarrow> DefaultBlockszForPrecision v p \<in> {64, 128, 256, 512}"
  unfolding table_ok_def variant_ok_def DefaultBlockszForPrecision_def by (cases p) fastforce+

lemma first_variant_range: "i \<le> first_variant b i vs \<and> first_variant b i vs \<le> i + int (length vs)"
  by (induction b i vs rule: first_variant.induct) auto

lemma variant_supported:
  assumes "table_ok vs" "0 \<le> i" "i < int (length vs)"
  shows "\<exists>cfg. GetKernelConfigForVariant vs i p = Some cfg \<and> IsSupportedKernelConfig vs cfg"
proof -
  have v: "vs ! nat i \<in> set vs" using assms(2,3) by simp
  show ?thesis
    using assms v default_blocksz_supported [OF assms(1) v, of p]
    by (auto simp: GetKernelConfigForVariant_def supported_iff same_tuple_def intro!: bexI [OF _ v])
qed

lemma default_supported:
  assumes "table_ok vs"
  shows "\<exists>cfg. GetDefaultKernelConfig vs t p = Some cfg \<and> IsSupportedKernelConfig vs cfg"
proof -
  have r: "0 \<le> FindFirstVariantOfFamily vs b" "FindFirstVariantOfFamily vs b \<le> int (length vs)" for b
    using first_variant_range [of 0 b vs] by (auto simp: FindFirstVariantOfFamily_def)
  have "0 < int (length vs)" using assms by (simp add: table_ok_def)
  then show ?thesis
    unfolding GetDefaultKernelConfig_def Let_def
    by (intro variant_supported assms) (use r in \<open>auto simp: order_less_le\<close>)
qed

end
