(* ===== verification/AutotuneCache.thy ===== *)
theory AutotuneCache
  imports GpuConfig Decimal "HOL-Library.AList"
begin

text \<open>
  src/core/gpu_kernel/autotune_cache.cpp and the key of a device in device_props.cpp: the file in which the
  autotuner records the configuration it picked for a device, a profile type and a precision.

  \<^item> The \<open>unordered_map\<close> of entries is an association list with distinct keys; its order is the order in
    which \<open>Save\<close> writes the entries, which the code leaves to the hash function.
  \<^item> The files are a map from paths to contents. What the operating system does with a directory, an open,
    a write or a rename is an argument (\<open>io\<close>).
  \<^item> \<open>Load\<close> can fail in the middle: the entries it has read so far stay, so its result is the entries
    together with the exception, if there was one.
\<close>

subsection \<open>Devices\<close>

record GpuDeviceProps =
  dev_name :: string
  compute_major :: int
  compute_minor :: int
  sm_count :: int
  total_global_mem :: int
  max_threads_per_block :: int
  max_threads_per_sm :: int

definition SanitizeForCacheKey :: "string \<Rightarrow> string" where
  "SanitizeForCacheKey s = map (\<lambda>c. if c \<in> {CHR '' '', CHR ''/'', CHR ''|'', CHR 0x09, CHR 0x0A, CHR 0x0D}
     then CHR ''_'' else c) s"

definition CacheKey :: "GpuDeviceProps \<Rightarrow> string" where
  "CacheKey p = SanitizeForCacheKey (dev_name p) @ ''__sm_'' @ show_int (compute_major p) @ show_int (compute_minor p)"

subsection \<open>Names\<close>

fun ProfileTypeName :: "SCAMPProfileType \<Rightarrow> string" where
  "ProfileTypeName PROFILE_TYPE_1NN = ''1NN''"
| "ProfileTypeName PROFILE_TYPE_1NN_INDEX = ''1NN_INDEX''"
| "ProfileTypeName PROFILE_TYPE_SUM_THRESH = ''SUM_THRESH''"
| "ProfileTypeName PROFILE_TYPE_FREQUENCY_THRESH = ''FREQUENCY_THRESH''"
| "ProfileTypeName PROFILE_TYPE_KNN = ''KNN''"
| "ProfileTypeName PROFILE_TYPE_APPROX_ALL_NEIGHBORS = ''APPROX_ALL_NEIGHBORS''"
| "ProfileTypeName PROFILE_TYPE_MATRIX_SUMMARY = ''MATRIX_SUMMARY''"
| "ProfileTypeName PROFILE_TYPE_1NN_MULTIDIM = ''1NN_MULTIDIM''"
| "ProfileTypeName PROFILE_TYPE_INVALID = ''INVALID''"

fun PrecisionTypeName :: "SCAMPPrecisionType \<Rightarrow> string" where
  "PrecisionTypeName PRECISION_SINGLE = ''SINGLE''"
| "PrecisionTypeName PRECISION_MIXED = ''MIXED''"
| "PrecisionTypeName PRECISION_DOUBLE = ''DOUBLE''"
| "PrecisionTypeName PRECISION_ULTRA = ''ULTRA''"
| "PrecisionTypeName PRECISION_INVALID = ''INVALID''"

text \<open>The enumerators in the order of their numbers, over which the parsers iterate.\<close>

definition ParseProfileTypeName :: "string \<Rightarrow> SCAMPProfileType option" where
  "ParseProfileTypeName s = find (\<lambda>t. s = ProfileTypeName t)
     [PROFILE_TYPE_INVALID, PROFILE_TYPE_1NN_INDEX, PROFILE_TYPE_SUM_THRESH, PROFILE_TYPE_FREQUENCY_THRESH, PROFILE_TYPE_KNN,
      PROFILE_TYPE_1NN_MULTIDIM, PROFILE_TYPE_1NN, PROFILE_TYPE_APPROX_ALL_NEIGHBORS, PROFILE_TYPE_MATRIX_SUMMARY]"

definition ParsePrecisionTypeName :: "string \<Rightarrow> SCAMPPrecisionType option" where
  "ParsePrecisionTypeName s = find (\<lambda>t. s = PrecisionTypeName t)
     [PRECISION_INVALID, PRECISION_SINGLE, PRECISION_MIXED, PRECISION_DOUBLE, PRECISION_ULTRA]"

subsection \<open>Reading\<close>

definition kHeader :: string where "kHeader = ''SCAMP_AUTOTUNE_V1''"

definition kFieldSep :: char where "kFieldSep = CHR ''|''"

text \<open>The pieces a loop over \<open>std::getline\<close> reads: a delimiter at the end does not start another piece.\<close>

fun getlines :: "char \<Rightarrow> string \<Rightarrow> string list" where
  "getlines d [] = []"
| "getlines d (c # cs) =
     (if c = d then [] # getlines d cs
      else case getlines d cs of [] \<Rightarrow> [[c]] | w # ws \<Rightarrow> (c # w) # ws)"

definition SplitN :: "string \<Rightarrow> char \<Rightarrow> nat \<Rightarrow> string list option" where
  "SplitN s delim n = (let out = getlines delim s in if length out = n then Some out else None)"

type_synonym cache_key = "string \<times> SCAMPProfileType \<times> SCAMPPrecisionType"
type_synonym cache = "(cache_key \<times> KernelConfig) list"

definition parse_config :: "string list \<Rightarrow> KernelConfig option" where
  "parse_config fs = do {
     bsz \<leftarrow> stoi (fs ! 3); bps \<leftarrow> stoi (fs ! 4); dpt \<leftarrow> stoi (fs ! 5);
     ur \<leftarrow> stoi (fs ! 6); our \<leftarrow> stoi (fs ! 7); kti \<leftarrow> stoi (fs ! 8);
     Some \<lparr>cfg_blocksz = bsz, cfg_blocks_per_sm = bps, cfg_diags_per_thread = dpt, cfg_unrolled_rows = ur,
       cfg_outer_unrolled_rows = our, cfg_kernel_tile_iters = kti\<rparr> }"

definition quoted :: "string \<Rightarrow> string" where "quoted s = CHR 0x27 # s @ [CHR 0x27]"

definition parse_record :: "string \<Rightarrow> nat \<Rightarrow> string \<Rightarrow> (cache_key \<times> KernelConfig) result" where
  "parse_record label lineno line =
     (let pos = label @ '':'' @ show_nat lineno in
      case SplitN line kFieldSep 9 of
        None \<Rightarrow> Inl (SCAMPException (''Malformed autotune cache at '' @ pos))
      | Some fs \<Rightarrow> case ParseProfileTypeName (fs ! 1) of
          None \<Rightarrow> Inl (SCAMPException (''Unknown profile type '' @ quoted (fs ! 1) @ '' in autotune cache at '' @ pos))
        | Some ty \<Rightarrow> case ParsePrecisionTypeName (fs ! 2) of
            None \<Rightarrow> Inl (SCAMPException (''Unknown precision '' @ quoted (fs ! 2) @ '' in autotune cache at '' @ pos))
          | Some p \<Rightarrow> case parse_config fs of
              None \<Rightarrow> Inl (SCAMPException (''Malformed integer in autotune cache at '' @ pos @ '' -- stoi''))
            | Some cfg \<Rightarrow> Inr ((fs ! 0, ty, p), cfg))"

text \<open>The loop of \<open>ParseStream\<close>; \<open>lineno\<close> counts the lines read before.\<close>

fun parse_lines :: "string \<Rightarrow> nat \<Rightarrow> bool \<Rightarrow> cache \<Rightarrow> string list \<Rightarrow> cache \<times> failure option" where
  "parse_lines label lineno header_seen entries [] = (entries, None)"
| "parse_lines label lineno header_seen entries (line # ls) =
     (if line = [] \<or> hd line = CHR ''#'' then parse_lines label (lineno + 1) header_seen entries ls
      else if \<not> header_seen
      then (if line \<noteq> kHeader then ([], None) else parse_lines label (lineno + 1) True entries ls)
      else case parse_record label (lineno + 1) line of
          Inl e \<Rightarrow> (entries, Some e)
        | Inr (k, cfg) \<Rightarrow> parse_lines label (lineno + 1) True (AList.update k cfg entries) ls)"

definition ParseStream :: "string \<Rightarrow> string \<Rightarrow> cache \<times> failure option" where
  "ParseStream contents label = parse_lines label 0 False [] (getlines CHR 0x0A contents)"

definition LoadFromString :: "string \<Rightarrow> cache \<times> failure option" where
  "LoadFromString contents = ParseStream contents ''<builtin>''"

type_synonym files = "string \<Rightarrow> string option"

definition Load :: "files \<Rightarrow> string \<Rightarrow> cache \<times> failure option" where
  "Load files path = (case files path of None \<Rightarrow> ([], None) | Some contents \<Rightarrow> ParseStream contents path)"

definition FileExists :: "files \<Rightarrow> string \<Rightarrow> bool" where
  "FileExists files path \<longleftrightarrow> files path \<noteq> None"

subsection \<open>Looking up and storing\<close>

definition Lookup :: "cache \<Rightarrow> string \<Rightarrow> SCAMPProfileType \<Rightarrow> SCAMPPrecisionType \<Rightarrow> KernelConfig option" where
  "Lookup entries device_key ty p = map_of entries (device_key, ty, p)"

definition Store :: "string \<Rightarrow> SCAMPProfileType \<Rightarrow> SCAMPPrecisionType \<Rightarrow> KernelConfig \<Rightarrow> cache \<Rightarrow> cache" where
  "Store device_key ty p cfg entries = AList.update (device_key, ty, p) cfg entries"

subsection \<open>Paths\<close>

text \<open>\<open>DefaultPath\<close> of the build for POSIX systems; \<open>env\<close> is the environment of the process.\<close>

type_synonym environment = "string \<Rightarrow> string option"

definition DefaultPath :: "environment \<Rightarrow> string" where
  "DefaultPath env = (case env ''SCAMP_AUTOTUNE_CACHE'' of Some path \<Rightarrow> path
     | None \<Rightarrow> (case env ''XDG_CACHE_HOME'' of Some xdg \<Rightarrow> xdg @ ''/scamp/autotune.txt''
     | None \<Rightarrow> (case env ''HOME'' of Some home \<Rightarrow> home @ ''/.cache/scamp/autotune.txt''
     | None \<Rightarrow> ''./scamp_autotune.txt'')))"

text \<open>\<open>std::filesystem::path::parent_path\<close>.\<close>

definition parent_path :: "string \<Rightarrow> string" where
  "parent_path p =
     (let q = dropWhile (\<lambda>c. c \<noteq> CHR ''/'') (rev p); r = dropWhile (\<lambda>c. c = CHR ''/'') q
      in if q = [] then [] else if r = [] then ''/'' else rev r)"

subsection \<open>Saving\<close>

fun record_line :: "cache_key \<times> KernelConfig \<Rightarrow> string" where
  "record_line ((device_key, ty, p), c) =
     device_key @ [kFieldSep] @ ProfileTypeName ty @ [kFieldSep] @ PrecisionTypeName p @ [kFieldSep]
     @ show_int (cfg_blocksz c) @ [kFieldSep] @ show_int (cfg_blocks_per_sm c) @ [kFieldSep]
     @ show_int (cfg_diags_per_thread c) @ [kFieldSep] @ show_int (cfg_unrolled_rows c) @ [kFieldSep]
     @ show_int (cfg_outer_unrolled_rows c) @ [kFieldSep] @ show_int (cfg_kernel_tile_iters c)"

definition cache_lines :: "cache \<Rightarrow> string list" where
  "cache_lines entries =
     [kHeader,
      ''# device_key|profile_type|precision|blocksz|blocks_per_sm|diags_per_thread|unrolled_rows|outer_unrolled_rows|kernel_tile_iters'',
      ''# (tile_height = kernel_tile_iters * outer_unrolled_rows)'']
     @ map record_line entries"

definition cache_text :: "cache \<Rightarrow> string" where
  "cache_text entries = concat (map (\<lambda>l. l @ [CHR 0x0A]) (cache_lines entries))"

text \<open>
  What the operating system answers: the message if a directory cannot be created, whether the temporary file
  can be opened, \<open>None\<close> if everything is written and else what reached the file, and the message if the rename
  fails.
\<close>

record io =
  io_create_directories :: "string \<Rightarrow> string option"
  io_open :: bool
  io_partial :: "string option"
  io_rename :: "string option"

definition Save :: "io \<Rightarrow> files \<Rightarrow> string \<Rightarrow> cache \<Rightarrow> files \<times> failure option" where
  "Save io files path entries =
     (let parent = parent_path path; tmp = path @ ''.tmp'' in
      case (if parent = [] then None else io_create_directories io parent) of
        Some msg \<Rightarrow> (files, Some (SCAMPException (''Cannot create autotune cache directory '' @ quoted parent @ '': '' @ msg)))
      | None \<Rightarrow>
          if \<not> io_open io then (files, Some (SCAMPException (''Cannot open autotune cache for writing: '' @ tmp)))
          else case io_partial io of
            Some written \<Rightarrow> (files(tmp \<mapsto> written), Some (SCAMPException (''Write to autotune cache failed: '' @ tmp)))
          | None \<Rightarrow> (case io_rename io of
              Some msg \<Rightarrow> (files(tmp \<mapsto> cache_text entries),
                 Some (SCAMPException (''Cannot rename '' @ tmp @ '' to '' @ path @ '': '' @ msg)))
            | None \<Rightarrow> ((files(tmp := None))(path \<mapsto> cache_text entries), None)))"

end
