(* ===== verification/AutotuneFile.thy ===== *)
theory AutotuneFile
  imports AutotuneCache
begin

text \<open>
  The cache file: what \<open>Save\<close> writes is what \<open>Load\<close> reads, and a save that fails leaves the cache as it was.
\<close>

subsection \<open>Lines and fields\<close>

lemma getlines_piece: "d \<notin> set w \<Longrightarrow> getlines d (w @ d # s) = w # getlines d s"
  by (induction w) auto

lemma getlines_last: "d \<notin> set w \<Longrightarrow> w \<noteq> [] \<Longrightarrow> getlines d w = [w]"
proof (induction w)
  case (Cons c w)
  then show ?case by (cases "w = []") auto
qed simp

lemma getlines_lines: "\<forall>l \<in> set ls. d \<notin> set l \<Longrightarrow> getlines d (concat (map (\<lambda>l. l @ [d]) ls)) = ls"
proof (induction ls)
  case (Cons l ls)
  then show ?case using getlines_piece [of d l "concat (map (\<lambda>l. l @ [d]) ls)"] by simp
qed simp

lemma ParseProfileTypeName_inverse [simp]: "ParseProfileTypeName (ProfileTypeName t) = Some t"
  by (cases t) (simp_all add: ParseProfileTypeName_def)

lemma ParsePrecisionTypeName_inverse [simp]: "ParsePrecisionTypeName (PrecisionTypeName p) = Some p"
  by (cases p) (simp_all add: ParsePrecisionTypeName_def)

lemma ProfileTypeName_chars: "kFieldSep \<notin> set (ProfileTypeName t)" "CHR 0x0A \<notin> set (ProfileTypeName t)"
  by (cases t; simp add: kFieldSep_def)+

lemma PrecisionTypeName_chars: "kFieldSep \<notin> set (PrecisionTypeName p)" "CHR 0x0A \<notin> set (PrecisionTypeName p)"
  by (cases p; simp add: kFieldSep_def)+

lemma show_int_seps: "kFieldSep \<notin> set (show_int n)" "CHR 0x0A \<notin> set (show_int n)"
  using show_int_chars(2) [of _ n] by (auto simp: kFieldSep_def)

subsection \<open>Entries that can be written\<close>

definition config_ok :: "KernelConfig \<Rightarrow> bool" where
  "config_ok c \<longleftrightarrow> int_ok (cfg_blocksz c) \<and> int_ok (cfg_blocks_per_sm c) \<and> int_ok (cfg_diags_per_thread c)
     \<and> int_ok (cfg_unrolled_rows c) \<and> int_ok (cfg_outer_unrolled_rows c) \<and> int_ok (cfg_kernel_tile_iters c)"

definition device_key_ok :: "string \<Rightarrow> bool" where
  "device_key_ok k \<longleftrightarrow> kFieldSep \<notin> set k \<and> CHR 0x0A \<notin> set k \<and> (k = [] \<or> hd k \<noteq> CHR ''#'')"

definition cache_ok :: "cache \<Rightarrow> bool" where
  "cache_ok es \<longleftrightarrow> distinct (map fst es) \<and> (\<forall>((k, ty, p), c) \<in> set es. device_key_ok k \<and> config_ok c)"

lemma stoi_ok: "int_ok n \<Longrightarrow> stoi (show_int n) = Some n"
  by (rule stoi_show_int) (simp_all add: int_ok_def)

lemma SplitN_record:
  assumes "device_key_ok k"
  shows "SplitN (record_line ((k, ty, p), c)) kFieldSep 9 =
    Some [k, ProfileTypeName ty, PrecisionTypeName p, show_int (cfg_blocksz c), show_int (cfg_blocks_per_sm c),
      show_int (cfg_diags_per_thread c), show_int (cfg_unrolled_rows c), show_int (cfg_outer_unrolled_rows c),
      show_int (cfg_kernel_tile_iters c)]"
  using assms
  by (simp add: SplitN_def device_key_ok_def getlines_piece getlines_last ProfileTypeName_chars PrecisionTypeName_chars
      show_int_seps show_int_chars(1))

lemma parse_record_line:
  assumes "device_key_ok k" "config_ok c"
  shows "parse_record label n (record_line ((k, ty, p), c)) = Inr ((k, ty, p), c)"
  using assms(2) by (simp add: parse_record_def SplitN_record [OF assms(1)] parse_config_def config_ok_def stoi_ok Let_def del: record_line.simps)

lemma record_line_start:
  assumes "device_key_ok k"
  shows "record_line ((k, ty, p), c) \<noteq> []" "hd (record_line ((k, ty, p), c)) \<noteq> CHR ''#''"
    "CHR 0x0A \<notin> set (record_line ((k, ty, p), c))"
  using assms
  by (auto simp: device_key_ok_def kFieldSep_def hd_append ProfileTypeName_chars PrecisionTypeName_chars show_int_seps)

lemma update_new: "k \<notin> fst ` set al \<Longrightarrow> AList.update k v al = al @ [(k, v)]"
  by (induction al) auto

lemma parse_lines_records:
  assumes "cache_ok (acc @ es)"
  shows "parse_lines label n True acc (map record_line es) = (acc @ es, None)"
  using assms
proof (induction es arbitrary: n acc)
  case (Cons e es)
  obtain k ty p c where e: "e = ((k, ty, p), c)" by (cases e) auto
  have ok: "device_key_ok k" "config_ok c" "(k, ty, p) \<notin> fst ` set acc"
    using Cons.prems by (auto simp: cache_ok_def e image_iff)
  have "AList.update (k, ty, p) c acc = acc @ [e]" using ok(3) by (simp add: e update_new)
  then show ?case
    using Cons.IH [of "acc @ [e]"] Cons.prems record_line_start [OF ok(1)] ok
    by (simp add: e parse_record_line del: record_line.simps)
qed simp

lemma cache_lines_chars: "cache_ok es \<Longrightarrow> \<forall>l \<in> set (cache_lines es). CHR 0x0A \<notin> set l"
  using record_line_start(3) by (fastforce simp: cache_lines_def cache_ok_def kHeader_def simp del: record_line.simps)

lemma load_saved: "cache_ok es \<Longrightarrow> ParseStream (cache_text es) label = (es, None)"
  using parse_lines_records [of "[]" es label]
  by (simp add: ParseStream_def cache_text_def getlines_lines [OF cache_lines_chars])
    (simp add: cache_lines_def kHeader_def)

subsection \<open>Saving\<close>

text \<open>
  Saving is all or nothing: if \<open>Save\<close> returns, loading the file gives exactly the entries, and if it throws,
  whatever failed, loading gives what it gave before. No other file changes but the temporary one.
\<close>

theorem save_all_or_nothing:
  assumes "cache_ok es"
  shows "(case Save io files path es of
      (files', None) \<Rightarrow> Load files' path = (es, None)
    | (files', Some e) \<Rightarrow> Load files' path = Load files path)
   \<and> (\<forall>q. q = path \<or> q = path @ ''.tmp'' \<or> fst (Save io files path es) q = files q)"
  using load_saved [OF assms]
  by (simp add: Save_def Let_def Load_def split: option.split)

subsection \<open>Keys of devices\<close>

lemma CacheKey_ok:
  assumes "dev_name p = [] \<or> hd (dev_name p) \<noteq> CHR ''#''"
  shows "device_key_ok (CacheKey p)"
proof -
  have "CHR 0x0A \<notin> set (CacheKey p) \<and> kFieldSep \<notin> set (CacheKey p)"
    using show_int_seps by (auto simp: CacheKey_def SanitizeForCacheKey_def kFieldSep_def)
  moreover have "hd (CacheKey p) \<noteq> CHR ''#''"
    using assms by (cases "dev_name p") (auto simp: CacheKey_def SanitizeForCacheKey_def)
  ultimately show ?thesis by (simp add: device_key_ok_def)
qed

text \<open>A cache with two entries, and a save whose rename fails.\<close>

definition demo_config :: KernelConfig where
  "demo_config = \<lparr>cfg_blocksz = 128, cfg_blocks_per_sm = 5, cfg_diags_per_thread = 8, cfg_unrolled_rows = 0,
     cfg_outer_unrolled_rows = 8, cfg_kernel_tile_iters = 32\<rparr>"

definition demo_cache :: cache where
  "demo_cache = [((''A100__sm_80'', PROFILE_TYPE_1NN, PRECISION_SINGLE), demo_config),
     ((''A100__sm_80'', PROFILE_TYPE_1NN, PRECISION_DOUBLE), demo_config\<lparr>cfg_blocksz := 64\<rparr>)]"

lemma demo_cache_ok: "cache_ok demo_cache"
  by (simp add: cache_ok_def demo_cache_def demo_config_def device_key_ok_def kFieldSep_def config_ok_def int_ok_def)

definition good_io :: io where
  "good_io = \<lparr>io_create_directories = (\<lambda>_. None), io_open = True, io_partial = None, io_rename = None\<rparr>"

lemma save_all_or_nothing_witness:
  "(case Save good_io (\<lambda>_. None) ''c.txt'' demo_cache of
      (files', None) \<Rightarrow> Load files' ''c.txt'' = (demo_cache, None)
    | (files', Some e) \<Rightarrow> Load files' ''c.txt'' = Load (\<lambda>_. None) ''c.txt'')
   \<and> (\<forall>q. q = ''c.txt'' \<or> q = ''c.txt'' @ ''.tmp'' \<or> fst (Save good_io (\<lambda>_. None) ''c.txt'' demo_cache) q = None)"
  by (rule save_all_or_nothing [OF demo_cache_ok])

end
