(* ===== verification/Autotune.thy ===== *)
theory Autotune
  imports AutotuneFile
begin

text \<open>
  src/core/gpu_kernel/autotune.cpp: timing every variant for every profile type and precision, writing the
  fastest ones to the cache, and choosing the configuration of a launch.

  \<^item> The CUDA query for a device and the benchmark of a trial are arguments; the benchmark may throw. Its
    answer is a function of the target, the variant and the configuration: every trial is timed once. It sets
    the override of the configuration for the run and clears it before it returns.
  \<^item> The progress output and the ranking printed at the end are not modelled.
  \<^item> \<open>AutotuneState\<close> is the state of the process: the files, the lazily loaded cache of the user, the override,
    and the static variable that holds the variant forced by the environment once it has been read.
\<close>

definition kAutotuneTargets :: "(SCAMPProfileType \<times> SCAMPPrecisionType) list" where
  "kAutotuneTargets =
     [(PROFILE_TYPE_1NN_INDEX, PRECISION_DOUBLE), (PROFILE_TYPE_1NN_INDEX, PRECISION_SINGLE),
      (PROFILE_TYPE_1NN, PRECISION_DOUBLE), (PROFILE_TYPE_1NN, PRECISION_SINGLE),
      (PROFILE_TYPE_SUM_THRESH, PRECISION_DOUBLE), (PROFILE_TYPE_SUM_THRESH, PRECISION_SINGLE),
      (PROFILE_TYPE_MATRIX_SUMMARY, PRECISION_DOUBLE), (PROFILE_TYPE_MATRIX_SUMMARY, PRECISION_SINGLE),
      (PROFILE_TYPE_APPROX_ALL_NEIGHBORS, PRECISION_DOUBLE), (PROFILE_TYPE_APPROX_ALL_NEIGHBORS, PRECISION_SINGLE)]"

definition AsciiLower :: "string option \<Rightarrow> string" where
  "AsciiLower s = (case s of None \<Rightarrow> []
     | Some cs \<Rightarrow> map (\<lambda>c. if 65 \<le> (of_char c :: nat) \<and> (of_char c :: nat) \<le> 90 then char_of ((of_char c :: nat) + 32) else c) cs)"

definition AutotuneTargetEnabled :: "environment \<Rightarrow> SCAMPPrecisionType \<Rightarrow> bool" where
  "AutotuneTargetEnabled env precision =
     (let filt = AsciiLower (env ''SCAMP_AUTOTUNE_PRECISION_FILTER'') in
      if filt = [] \<or> filt = ''all'' then True
      else if filt = ''single'' then precision = PRECISION_SINGLE
      else if filt = ''double'' then precision = PRECISION_DOUBLE \<or> precision = PRECISION_ULTRA
      else True)"

definition AutotuneVariantEnabled :: "environment \<Rightarrow> KernelVariantGeometry list \<Rightarrow> int \<Rightarrow> bool option" where
  "AutotuneVariantEnabled env vs i =
     (let filt = AsciiLower (env ''SCAMP_AUTOTUNE_VARIANT_FILTER'') in
      if filt = [] \<or> filt = ''all'' then Some True
      else do {
        geom \<leftarrow> GetKernelVariantGeometry vs i;
        Some (if filt = ''shfl'' then var_unrolled_rows geom = 0
              else if filt = ''sliding-window'' \<or> filt = ''smem'' \<or> filt = ''sw'' then var_unrolled_rows geom \<noteq> 0
              else True) })"

subsection \<open>The state of the process\<close>

record AutotuneState =
  at_files :: files
  user_cache :: "cache option"
  loaded_user_path :: string
  cfg_override :: "KernelConfig option"
  forced_variant :: "int option"

definition resolve_path :: "environment \<Rightarrow> string \<Rightarrow> string" where
  "resolve_path env cache_path = (if cache_path = [] then DefaultPath env else cache_path)"

definition GetOrLoadUserCache :: "environment \<Rightarrow> string \<Rightarrow> AutotuneState \<Rightarrow> cache result \<times> AutotuneState" where
  "GetOrLoadUserCache env cache_path st =
     (let resolved = resolve_path env cache_path in
      case (if loaded_user_path st = resolved then user_cache st else None) of
        Some c \<Rightarrow> (Inr c, st)
      | None \<Rightarrow> (case Load (at_files st) resolved of (c, e) \<Rightarrow>
          (case e of None \<Rightarrow> Inr c | Some f \<Rightarrow> Inl f, st\<lparr>user_cache := Some c, loaded_user_path := resolved\<rparr>)))"

definition reset_user_cache :: "AutotuneState \<Rightarrow> AutotuneState" where
  "reset_user_cache st = st\<lparr>user_cache := None, loaded_user_path := []\<rparr>"

definition SetKernelConfigOverride :: "KernelConfig \<Rightarrow> AutotuneState \<Rightarrow> AutotuneState" where
  "SetKernelConfigOverride cfg st = st\<lparr>cfg_override := Some cfg\<rparr>"

definition ClearKernelConfigOverride :: "AutotuneState \<Rightarrow> AutotuneState" where
  "ClearKernelConfigOverride st = st\<lparr>cfg_override := None\<rparr>"

subsection \<open>Tuning\<close>

type_synonym benchmark = "SCAMPProfileType \<Rightarrow> SCAMPPrecisionType \<Rightarrow> int \<Rightarrow> KernelConfig \<Rightarrow> fp result"

definition kSweepBlocksizes :: "int list" where
  "kSweepBlocksizes = [64, 128, 256, 512]"

definition sweep_trials :: "KernelVariantGeometry list \<Rightarrow> (int \<times> int) list" where
  "sweep_trials vs = concat (map (\<lambda>i. map (Pair i) kSweepBlocksizes) [0..int (length vs) - 1])"

definition run_trial ::
  "environment \<Rightarrow> KernelVariantGeometry list \<Rightarrow> benchmark \<Rightarrow> SCAMPProfileType \<Rightarrow> SCAMPPrecisionType
   \<Rightarrow> int \<times> int \<Rightarrow> fp \<times> KernelConfig \<Rightarrow> (fp \<times> KernelConfig) option" where
  "run_trial env vs bench ty p trial best = (case trial of (i, bsz) \<Rightarrow> do {
     enabled \<leftarrow> AutotuneVariantEnabled env vs i;
     (if \<not> enabled then Some best
      else do {
        cfg0 \<leftarrow> GetKernelConfigForVariant vs i p;
        let cfg = cfg0\<lparr>cfg_blocksz := bsz\<rparr>;
        (if \<not> IsSupportedKernelConfig vs cfg then Some best
         else case bench ty p i cfg of
             Inl e \<Rightarrow> Some best
           | Inr seconds \<Rightarrow> Some (if flt seconds (fst best) then (seconds, cfg) else best)) }) })"

fun sweep ::
  "environment \<Rightarrow> KernelVariantGeometry list \<Rightarrow> benchmark \<Rightarrow> SCAMPProfileType \<Rightarrow> SCAMPPrecisionType
   \<Rightarrow> (int \<times> int) list \<Rightarrow> fp \<times> KernelConfig \<Rightarrow> (fp \<times> KernelConfig) option" where
  "sweep env vs bench ty p [] best = Some best"
| "sweep env vs bench ty p (t # ts) best = do {
     best' \<leftarrow> run_trial env vs bench ty p t best;
     sweep env vs bench ty p ts best' }"

text \<open>The loop over the targets: the cache and the configuration stored last.\<close>

fun tune_targets ::
  "environment \<Rightarrow> KernelVariantGeometry list \<Rightarrow> benchmark \<Rightarrow> string \<Rightarrow> (SCAMPProfileType \<times> SCAMPPrecisionType) list
   \<Rightarrow> cache \<times> KernelConfig \<Rightarrow> (cache \<times> KernelConfig) option" where
  "tune_targets env vs bench device_key [] st = Some st"
| "tune_targets env vs bench device_key ((ty, p) # ts) st =
     (if \<not> AutotuneTargetEnabled env p then tune_targets env vs bench device_key ts st
      else do {
        start \<leftarrow> GetDefaultKernelConfig vs ty p;
        (seconds, cfg) \<leftarrow> sweep env vs bench ty p (sweep_trials vs) (PInf, start);
        tune_targets env vs bench device_key ts (Store device_key ty p cfg (fst st), cfg) })"

record AutotuneResult =
  device_name :: string
  cache_path :: string
  chosen :: KernelConfig
  wrote_cache :: bool

definition zero_config :: KernelConfig where
  "zero_config = \<lparr>cfg_blocksz = 0, cfg_blocks_per_sm = 0, cfg_diags_per_thread = 0, cfg_unrolled_rows = 0,
     cfg_outer_unrolled_rows = 0, cfg_kernel_tile_iters = 0\<rparr>"

definition RunAutotuneWithBenchmarkForDeviceKey ::
  "environment \<Rightarrow> io \<Rightarrow> KernelVariantGeometry list \<Rightarrow> benchmark \<Rightarrow> string \<Rightarrow> string \<Rightarrow> AutotuneState
   \<Rightarrow> AutotuneResult result \<times> AutotuneState" where
  "RunAutotuneWithBenchmarkForDeviceKey env io vs bench device_key path st =
     (let resolved = resolve_path env path in
      case Load (at_files st) resolved of
        (disk, Some e) \<Rightarrow> (Inl e, st)
      | (disk, None) \<Rightarrow>
          (case tune_targets env vs bench device_key kAutotuneTargets (disk, zero_config) of
             None \<Rightarrow> (Inl Undefined, st)
           | Some (disk', last_chosen) \<Rightarrow>
               (case Save io (at_files st) resolved disk' of
                  (fs, Some e) \<Rightarrow> (Inl e, st\<lparr>at_files := fs\<rparr>)
                | (fs, None) \<Rightarrow>
                    (Inr \<lparr>device_name = device_key, cache_path = resolved, chosen = last_chosen, wrote_cache = True\<rparr>,
                     reset_user_cache (st\<lparr>at_files := fs\<rparr>)))))"

definition RunAutotuneWithBenchmark ::
  "environment \<Rightarrow> io \<Rightarrow> (int \<Rightarrow> GpuDeviceProps result) \<Rightarrow> KernelVariantGeometry list \<Rightarrow> (int \<Rightarrow> benchmark) \<Rightarrow> int
   \<Rightarrow> string \<Rightarrow> AutotuneState \<Rightarrow> AutotuneResult result \<times> AutotuneState" where
  "RunAutotuneWithBenchmark env io query vs bench device_id path st =
     (case query device_id of
        Inl e \<Rightarrow> (Inl e, st)
      | Inr props \<Rightarrow> RunAutotuneWithBenchmarkForDeviceKey env io vs (bench device_id) (CacheKey props) path st)"

subsection \<open>Choosing a configuration\<close>

definition LookupKernelConfigForDeviceKey ::
  "KernelVariantGeometry list \<Rightarrow> string \<Rightarrow> SCAMPProfileType \<Rightarrow> SCAMPPrecisionType \<Rightarrow> cache option \<Rightarrow> KernelConfig
   \<Rightarrow> KernelConfig" where
  "LookupKernelConfigForDeviceKey vs device_key ty p user fallback =
     (case user of
        Some c \<Rightarrow> (case Lookup c device_key ty p of
            Some hit \<Rightarrow> if IsSupportedKernelConfig vs hit then hit else fallback
          | None \<Rightarrow> fallback)
      | None \<Rightarrow> fallback)"

definition read_forced_variant :: "environment \<Rightarrow> KernelVariantGeometry list \<Rightarrow> int" where
  "read_forced_variant env vs =
     (case env ''SCAMP_FORCE_VARIANT'' of
        Some fv \<Rightarrow> if fv = [] then -1
          else (case stoi fv of Some n \<Rightarrow> if 0 \<le> n \<and> n < int (length vs) then n else -1 | None \<Rightarrow> -1)
      | None \<Rightarrow> -1)"

definition GetKernelConfigForDevice ::
  "environment \<Rightarrow> (int \<Rightarrow> GpuDeviceProps result) \<Rightarrow> KernelVariantGeometry list \<Rightarrow> int \<Rightarrow> SCAMPProfileType
   \<Rightarrow> SCAMPPrecisionType \<Rightarrow> string \<Rightarrow> AutotuneState \<Rightarrow> KernelConfig option \<times> AutotuneState" where
  "GetKernelConfigForDevice env query vs device_id ty p path st =
     (case cfg_override st of
        Some cfg \<Rightarrow> (Some cfg, st)
      | None \<Rightarrow>
          (let forced = (case forced_variant st of Some n \<Rightarrow> n | None \<Rightarrow> read_forced_variant env vs);
               st1 = st\<lparr>forced_variant := Some forced\<rparr> in
           if 0 \<le> forced then (GetKernelConfigForVariant vs forced p, st1)
           else (case GetDefaultKernelConfig vs ty p of
                   None \<Rightarrow> (None, st1)
                 | Some fallback \<Rightarrow>
                     (case query device_id of
                        Inl e \<Rightarrow> (Some fallback, st1)
                      | Inr props \<Rightarrow>
                          (case GetOrLoadUserCache env path st1 of
                             (Inl e, st2) \<Rightarrow> (Some fallback, st2)
                           | (Inr c, st2) \<Rightarrow>
                               (Some (LookupKernelConfigForDeviceKey vs (CacheKey props) ty p (Some c) fallback), st2))))))"

end
