(* ===== verification/AutotuneCorrect.thy ===== *)
theory AutotuneCorrect
  imports Autotune
begin

text \<open>
  The autotuner: a launch always gets a configuration the program was compiled for, and after a tuning run the
  configuration of a tuned target is one no benchmarked configuration was faster than.
\<close>

subsection \<open>What is read from a file can be written\<close>

lemma getlines_chars: "w \<in> set (getlines d s) \<Longrightarrow> d \<notin> set w \<and> set w \<subseteq> set s"
proof (induction s arbitrary: w)
  case (Cons c s)
  show ?case
  proof (cases "c = d")
    case False
    show ?thesis
    proof (cases "getlines d s")
      case E: (Cons x xs)
      have "w = c # x \<or> w \<in> set xs" using Cons.prems False E by simp
      moreover have "d \<notin> set v \<and> set v \<subseteq> set s" if "v = x \<or> v \<in> set xs" for v using Cons.IH [of v] E that by simp
      ultimately show ?thesis using False by fastforce
    qed (use Cons.prems False in simp)
  qed (use Cons in fastforce)
qed simp

lemma getlines_hd: "getlines d s = w # ws \<Longrightarrow> w \<noteq> [] \<Longrightarrow> hd w = hd s"
  by (cases s) (auto split: if_splits list.splits)

lemma stoi_range: "stoi s = Some n \<Longrightarrow> int_ok n"
  by (auto simp: stoi_def int_ok_def Let_def split: prod.splits if_splits)

lemma parse_record_ok:
  assumes "parse_record label n line = Inr ((k, ty, p), c)" "CHR 0x0A \<notin> set line" "hd line \<noteq> CHR ''#''"
  shows "device_key_ok k \<and> config_ok c"
proof -
  obtain fs where fs: "SplitN line kFieldSep 9 = Some fs" and c: "parse_config fs = Some c" and k: "k = fs ! 0"
    using assms(1) by (auto simp: parse_record_def Let_def split: option.splits)
  have g: "getlines kFieldSep line = fs" "length fs = 9" using fs by (auto simp: SplitN_def Let_def split: if_splits)
  obtain ws where ws: "fs = k # ws" using g(2) k by (cases fs) auto
  have "kFieldSep \<notin> set k \<and> set k \<subseteq> set line" using getlines_chars [of k kFieldSep line] g(1) ws by simp
  moreover have "k \<noteq> [] \<longrightarrow> hd k = hd line" using getlines_hd [of kFieldSep line k ws] g(1) ws by simp
  ultimately have "device_key_ok k" using assms(2,3) by (auto simp: device_key_ok_def)
  moreover have "config_ok c"
    using c by (auto simp: parse_config_def config_ok_def split: Option.bind_splits dest!: stoi_range)
  ultimately show ?thesis by blast
qed

lemma cache_ok_update:
  assumes "cache_ok es" "device_key_ok k" "config_ok c"
  shows "cache_ok (AList.update (k, ty, p) c es)"
proof -
  have "distinct (map fst (AList.update x v es))" for x v
    using assms(1) by (simp add: cache_ok_def distinct_update)
  moreover have "e \<in> set (AList.update x v es) \<Longrightarrow> e \<in> set es \<or> e = (x, v)" for e x v
    by (induction es) (auto split: if_splits)
  ultimately show ?thesis using assms unfolding cache_ok_def by fastforce
qed

lemma parse_lines_ok:
  assumes "cache_ok es" "\<forall>l \<in> set ls. CHR 0x0A \<notin> set l"
  shows "cache_ok (fst (parse_lines label n seen es ls))"
  using assms
proof (induction label n seen es ls rule: parse_lines.induct)
  case (2 label lineno seen es line ls)
  show ?case
  proof (cases "parse_record label (lineno + 1) line")
    case (Inr r)
    obtain k ty p c where r: "r = ((k, ty, p), c)" by (cases r) auto
    then show ?thesis
      using 2 Inr parse_record_ok [of label "lineno + 1" line k ty p c] cache_ok_update [of es k c ty p]
      by (auto simp: cache_ok_def [of "[]"])
  qed (use 2 in \<open>auto simp: cache_ok_def [of "[]"]\<close>)
qed simp

lemma Load_ok: "cache_ok (fst (Load fs path))"
  using parse_lines_ok [of "[]"] getlines_chars
  by (auto simp: Load_def ParseStream_def cache_ok_def [of "[]"] split: option.split)

subsection \<open>A launch gets a supported configuration\<close>

definition state_ok :: "KernelVariantGeometry list \<Rightarrow> AutotuneState \<Rightarrow> bool" where
  "state_ok vs st \<longleftrightarrow> (\<forall>cfg. cfg_override st = Some cfg \<longrightarrow> IsSupportedKernelConfig vs cfg)
     \<and> (\<forall>n. forced_variant st = Some n \<longrightarrow> n < int (length vs))"

lemma read_forced_variant_range: "vs \<noteq> [] \<Longrightarrow> read_forced_variant env vs < int (length vs)"
  by (auto simp: read_forced_variant_def split: option.splits if_splits)

lemma lookup_supported:
  "IsSupportedKernelConfig vs fallback \<Longrightarrow> IsSupportedKernelConfig vs (LookupKernelConfigForDeviceKey vs key ty p user fallback)"
  by (auto simp: LookupKernelConfigForDeviceKey_def split: option.split)

lemma config_supported:
  assumes "table_ok vs" "state_ok vs st"
  shows "case GetKernelConfigForDevice env query vs device_id ty p path st of
    (r, st') \<Rightarrow> (\<exists>cfg. r = Some cfg \<and> IsSupportedKernelConfig vs cfg) \<and> state_ok vs st'"
proof (cases "cfg_override st")
  case None
  define forced where "forced = (case forced_variant st of Some n \<Rightarrow> n | None \<Rightarrow> read_forced_variant env vs)"
  define st1 where "st1 = st\<lparr>forced_variant := Some forced\<rparr>"
  have ne: "vs \<noteq> []" using assms(1) by (simp add: table_ok_def)
  have f: "forced < int (length vs)"
    using assms(2) read_forced_variant_range [OF ne, of env]
    by (auto simp: forced_def state_ok_def split: option.split)
  have st1: "state_ok vs st1" using assms(2) f by (simp add: state_ok_def st1_def)
  obtain fallback where fb: "GetDefaultKernelConfig vs ty p = Some fallback" "IsSupportedKernelConfig vs fallback"
    using default_supported [OF assms(1)] by blast
  have load: "state_ok vs (snd (GetOrLoadUserCache env path st1))"
    using st1 by (simp add: GetOrLoadUserCache_def state_ok_def Let_def split: option.split prod.split)
  show ?thesis
  proof (cases "0 \<le> forced")
    case True
    then show ?thesis
      using variant_supported [OF assms(1) True f, of p] st1 None
      by (auto simp: GetKernelConfigForDevice_def Let_def forced_def st1_def)
  next
    case False
    then show ?thesis
      using None fb st1 load lookup_supported [OF fb(2)]
      by (simp add: GetKernelConfigForDevice_def Let_def flip: forced_def)
        (auto simp flip: st1_def split: sum.split prod.split)
  qed
qed (use assms in \<open>simp add: GetKernelConfigForDevice_def state_ok_def\<close>)

text \<open>
  C38. Whatever the environment, the cache files, their errors and the answers of the CUDA driver are, a launch
  gets a configuration the program was compiled for, and the state stays such that the next launch does, too.
\<close>

theorem launch_config_supported:
  assumes "table_ok vs" "state_ok vs st"
  shows "case GetKernelConfigForDevice env query vs device_id ty p path st of
    (r, st') \<Rightarrow> (\<exists>cfg. r = Some cfg \<and> IsSupportedKernelConfig vs cfg) \<and> state_ok vs st'"
  by (rule config_supported [OF assms])

subsection \<open>The sweep\<close>

text \<open>The configuration of a trial, and whether a configuration is a best one of the trials.\<close>

definition trial_config :: "KernelVariantGeometry list \<Rightarrow> SCAMPPrecisionType \<Rightarrow> int \<times> int \<Rightarrow> KernelConfig option" where
  "trial_config vs p trial = map_option (\<lambda>c. c\<lparr>cfg_blocksz := snd trial\<rparr>) (GetKernelConfigForVariant vs (fst trial) p)"

definition trial_time ::
  "KernelVariantGeometry list \<Rightarrow> benchmark \<Rightarrow> SCAMPProfileType \<Rightarrow> SCAMPPrecisionType \<Rightarrow> int \<times> int \<Rightarrow> fp \<Rightarrow> KernelConfig \<Rightarrow> bool" where
  "trial_time vs bench ty p trial s cfg \<longleftrightarrow> trial_config vs p trial = Some cfg \<and> bench ty p (fst trial) cfg = Inr s"

definition fastest ::
  "KernelVariantGeometry list \<Rightarrow> benchmark \<Rightarrow> SCAMPProfileType \<Rightarrow> SCAMPPrecisionType \<Rightarrow> (int \<times> int) set \<Rightarrow> fp \<Rightarrow> KernelConfig \<Rightarrow> bool" where
  "fastest vs bench ty p trials s cfg \<longleftrightarrow>
     (\<forall>t \<in> trials. \<forall>s' cfg'. trial_time vs bench ty p t s' cfg' \<longrightarrow> \<not> flt s' s)
     \<and> ((\<exists>t \<in> trials. trial_time vs bench ty p t s cfg) \<or> s = PInf \<and> GetDefaultKernelConfig vs ty p = Some cfg)"

lemma sweep_trials_range: "t \<in> set (sweep_trials vs) \<Longrightarrow> 0 \<le> fst t \<and> fst t < int (length vs) \<and> snd t \<in> {64, 128, 256, 512}"
  by (auto simp: sweep_trials_def kSweepBlocksizes_def)

lemma trial_supported:
  assumes "table_ok vs" "t \<in> set (sweep_trials vs)"
  shows "\<exists>cfg. trial_config vs p t = Some cfg \<and> IsSupportedKernelConfig vs cfg"
proof -
  obtain cfg where c: "GetKernelConfigForVariant vs (fst t) p = Some cfg" "IsSupportedKernelConfig vs cfg"
    using variant_supported [OF assms(1)] sweep_trials_range [OF assms(2)] by blast
  then show ?thesis
    using sweep_trials_range [OF assms(2)] by (auto simp: trial_config_def supported_iff same_tuple_def)
qed

definition no_filters :: "environment \<Rightarrow> bool" where
  "no_filters env \<longleftrightarrow> env ''SCAMP_AUTOTUNE_PRECISION_FILTER'' = None \<and> env ''SCAMP_AUTOTUNE_VARIANT_FILTER'' = None"

lemma no_filters_enabled:
  "no_filters env \<Longrightarrow> AutotuneTargetEnabled env p" "no_filters env \<Longrightarrow> AutotuneVariantEnabled env vs i = Some True"
  by (simp_all add: no_filters_def AutotuneTargetEnabled_def AutotuneVariantEnabled_def AsciiLower_def Let_def)

lemma run_trial_fastest:
  assumes "table_ok vs" "no_filters env" "t \<in> set (sweep_trials vs)" "fastest vs bench ty p done (fst best) (snd best)"
  shows "\<exists>best'. run_trial env vs bench ty p t best = Some best' \<and> fastest vs bench ty p (insert t done) (fst best') (snd best')"
proof -
  obtain i b where t: "t = (i, b)" by (cases t)
  obtain cfg where cfg: "trial_config vs p t = Some cfg" "IsSupportedKernelConfig vs cfg"
    using trial_supported [OF assms(1,3)] by blast
  obtain cfg0 where c0: "GetKernelConfigForVariant vs i p = Some cfg0" "cfg = cfg0\<lparr>cfg_blocksz := b\<rparr>"
    using cfg(1) by (auto simp: trial_config_def t)
  have run: "run_trial env vs bench ty p t best =
      Some (case bench ty p i cfg of Inl e \<Rightarrow> best | Inr s \<Rightarrow> if flt s (fst best) then (s, cfg) else best)"
    using c0 cfg(2) by (simp add: run_trial_def t no_filters_enabled [OF assms(2)] split: sum.split)
  have new: "trial_time vs bench ty p t s c \<longleftrightarrow> c = cfg \<and> bench ty p i cfg = Inr s" for s c
    using cfg(1) by (auto simp: trial_time_def t)
  show ?thesis
  proof (cases "bench ty p i cfg")
    case (Inl e)
    then show ?thesis using assms(4) new by (auto simp: run fastest_def)
  next
    case (Inr s)
    show ?thesis
    proof (cases "flt s (fst best)")
      case True
      then have "\<not> flt s' s" if "u \<in> done" "trial_time vs bench ty p u s' c" for u s' c
        using assms(4) that flt_trans unfolding fastest_def by blast
      then show ?thesis using True Inr new by (auto simp: run fastest_def flt_irrefl)
    next
      case False
      then show ?thesis using assms(4) Inr new by (auto simp: run fastest_def)
    qed
  qed
qed

lemma sweep_fastest:
  assumes "table_ok vs" "no_filters env" "set ts \<subseteq> set (sweep_trials vs)" "fastest vs bench ty p done (fst best) (snd best)"
  shows "\<exists>best'. sweep env vs bench ty p ts best = Some best' \<and> fastest vs bench ty p (done \<union> set ts) (fst best') (snd best')"
  using assms(3,4)
proof (induction ts arbitrary: best "done")
  case (Cons t ts)
  obtain best1 where b: "run_trial env vs bench ty p t best = Some best1"
      "fastest vs bench ty p (insert t done) (fst best1) (snd best1)"
    using run_trial_fastest [OF assms(1,2) _ Cons.prems(2), of t] Cons.prems(1) by (meson insert_subset list.set_intros(1) subsetD)
  then show ?case using Cons.IH [OF _ b(2)] Cons.prems(1) by auto
qed simp

lemma fastest_supported:
  assumes "table_ok vs" "fastest vs bench ty p (set (sweep_trials vs)) s cfg"
  shows "IsSupportedKernelConfig vs cfg"
  using assms(2) trial_supported [OF assms(1), of _ p] default_supported [OF assms(1), of ty p]
  by (fastforce simp: fastest_def trial_time_def)

lemma supported_config_ok: "table_ok vs \<Longrightarrow> IsSupportedKernelConfig vs cfg \<Longrightarrow> config_ok cfg"
  by (auto simp: table_ok_def supported_iff same_tuple_def variant_ok_def config_ok_def int_ok_def)

lemma tune_targets_fastest:
  assumes "table_ok vs" "no_filters env" "device_key_ok key" "cache_ok es" "distinct ts"
  shows "\<exists>es' l'. tune_targets env vs bench key ts (es, l) = Some (es', l') \<and> cache_ok es'
    \<and> (\<forall>(ty, p) \<in> set ts. \<exists>s cfg. Lookup es' key ty p = Some cfg \<and> fastest vs bench ty p (set (sweep_trials vs)) s cfg)
    \<and> (\<forall>k ty p. k \<noteq> key \<or> (ty, p) \<notin> set ts \<longrightarrow> Lookup es' k ty p = Lookup es k ty p)"
  using assms(4,5)
proof (induction ts arbitrary: es l)
  case (Cons t ts)
  obtain ty p where t: "t = (ty, p)" by (cases t)
  obtain start where start: "GetDefaultKernelConfig vs ty p = Some start" using default_supported [OF assms(1)] by blast
  obtain s cfg where sw: "sweep env vs bench ty p (sweep_trials vs) (PInf, start) = Some (s, cfg)"
      "fastest vs bench ty p (set (sweep_trials vs)) s cfg"
    using sweep_fastest [OF assms(1,2) subset_refl, of bench ty p "{}" "(PInf, start)"] start by (auto simp: fastest_def)
  have "config_ok cfg" by (rule supported_config_ok [OF assms(1) fastest_supported [OF assms(1) sw(2)]])
  then have ok: "cache_ok (Store key ty p cfg es)" using Cons.prems(1) assms(3) by (simp add: Store_def cache_ok_update)
  have look: "Lookup (Store key ty p cfg es) k ty' p' = (if (k, ty', p') = (key, ty, p) then Some cfg else Lookup es k ty' p')"
    for k ty' p' by (auto simp: Lookup_def Store_def update_conv')
  obtain es' l' where IH: "tune_targets env vs bench key ts (Store key ty p cfg es, cfg) = Some (es', l')" "cache_ok es'"
      "\<forall>(ty, p) \<in> set ts. \<exists>s cfg. Lookup es' key ty p = Some cfg \<and> fastest vs bench ty p (set (sweep_trials vs)) s cfg"
      "\<forall>k ty' p'. k \<noteq> key \<or> (ty', p') \<notin> set ts \<longrightarrow> Lookup es' k ty' p' = Lookup (Store key ty p cfg es) k ty' p'"
    using Cons.IH [OF ok, of cfg] Cons.prems(2) by (meson distinct.simps(2))
  have "Lookup es' key ty p = Some cfg" using IH(4) look Cons.prems(2) t by simp
  moreover have "\<forall>k ty' p'. k \<noteq> key \<or> (ty', p') \<notin> set (t # ts) \<longrightarrow> Lookup es' k ty' p' = Lookup es k ty' p'"
    using IH(4) look t by auto
  moreover have "tune_targets env vs bench key (t # ts) (es, l) = Some (es', l')"
    using start sw(1) IH(1) by (simp add: t no_filters_enabled [OF assms(2)])
  ultimately show ?case using IH(2,3) sw(2) t by auto
qed (simp add: Lookup_def)

text \<open>
  C39. After a tuning run that returns, and as long as nothing else overrides the configuration, a launch of a tuned
  target on the device gets a configuration no trial of the run was faster than, or the default one if no trial
  gave a time: the sweep, the cache file and the lookup fit together.
\<close>

theorem autotuned_launch:
  assumes "table_ok vs" "no_filters env" "query dev = Inr props" "device_key_ok (CacheKey props)"
    and run: "RunAutotuneWithBenchmark env io query vs bench dev path st = (Inr res, st')"
    and "(ty, p) \<in> set kAutotuneTargets" "cfg_override st = None" "forced_variant st \<in> {None, Some (-1)}"
      "env ''SCAMP_FORCE_VARIANT'' = None"
  shows "\<exists>cfg s. fst (GetKernelConfigForDevice env query vs dev ty p path st') = Some cfg
    \<and> fastest vs (bench dev) ty p (set (sweep_trials vs)) s cfg"
proof -
  let ?path = "resolve_path env path"
  obtain disk where disk: "Load (at_files st) ?path = (disk, None)"
    using run assms(3) by (auto simp: RunAutotuneWithBenchmark_def RunAutotuneWithBenchmarkForDeviceKey_def Let_def
        split: prod.splits option.splits)
  have "cache_ok disk" using Load_ok [of "at_files st" ?path] disk by simp
  moreover have "distinct kAutotuneTargets" by (simp add: kAutotuneTargets_def)
  ultimately obtain es l where es: "tune_targets env vs (bench dev) (CacheKey props) kAutotuneTargets (disk, zero_config) = Some (es, l)"
      "cache_ok es" "\<forall>(ty, p) \<in> set kAutotuneTargets. \<exists>s cfg. Lookup es (CacheKey props) ty p = Some cfg
        \<and> fastest vs (bench dev) ty p (set (sweep_trials vs)) s cfg"
    using tune_targets_fastest [OF assms(1,2,4), of disk kAutotuneTargets "bench dev" zero_config] by blast
  obtain fs where fs: "Save io (at_files st) ?path es = (fs, None)"
      "st' = st\<lparr>at_files := fs, user_cache := None, loaded_user_path := []\<rparr>"
    using run assms(3) disk es(1)
    by (auto simp: RunAutotuneWithBenchmark_def RunAutotuneWithBenchmarkForDeviceKey_def Let_def reset_user_cache_def
        split: prod.splits option.splits)
  have load: "Load fs ?path = (es, None)" using fs(1) load_saved [OF es(2)]
    by (auto simp: Save_def Load_def Let_def split: option.splits if_splits)
  obtain s cfg where hit: "Lookup es (CacheKey props) ty p = Some cfg" "fastest vs (bench dev) ty p (set (sweep_trials vs)) s cfg"
    using es(3) assms(6) by blast
  obtain fallback where fb: "GetDefaultKernelConfig vs ty p = Some fallback" using default_supported [OF assms(1)] by blast
  have forced: "(case forced_variant st of Some n \<Rightarrow> n | None \<Rightarrow> read_forced_variant env vs) = -1"
    using assms(8,9) by (auto simp: read_forced_variant_def)
  have "GetOrLoadUserCache env path (st'\<lparr>forced_variant := Some (-1)\<rparr>)
      = (Inr es, st'\<lparr>forced_variant := Some (-1), user_cache := Some es, loaded_user_path := ?path\<rparr>)"
    using load fs(2) by (auto simp: GetOrLoadUserCache_def Let_def)
  then have "fst (GetKernelConfigForDevice env query vs dev ty p path st') = Some cfg"
    using fs(2) forced assms(3,7) fb hit(1) fastest_supported [OF assms(1) hit(2)]
    by (simp add: GetKernelConfigForDevice_def Let_def LookupKernelConfigForDeviceKey_def)
  then show ?thesis using hit(2) by blast
qed

subsection \<open>A concrete device\<close>

text \<open>The table of variants the build file lists, and a benchmark that prefers small blocks.\<close>

definition demo_table :: "KernelVariantGeometry list" where
  "demo_table = map (\<lambda>(bps, dpt, ur, our, kti, sp).
      \<lparr>var_blocks_per_sm = bps, var_diags_per_thread = dpt, var_unrolled_rows = ur, var_outer_unrolled_rows = our,
       var_kernel_tile_iters = kti, var_default_blocksz_sp = sp\<rparr>)
     [(1, 4, 4, 16, 16, 512), (2, 4, 4, 16, 16, 512), (5, 8, 0, 8, 32, 128), (8, 4, 0, 8, 16, 128)]"

definition demo_bench :: "int \<Rightarrow> benchmark" where
  "demo_bench dev ty p i cfg = Inr (Fin (of_int (cfg_blocksz cfg + i)))"

definition demo_props :: GpuDeviceProps where
  "demo_props = \<lparr>dev_name = ''A100'', compute_major = 8, compute_minor = 0, sm_count = 108, total_global_mem = 42 * 10 ^ 9,
     max_threads_per_block = 1024, max_threads_per_sm = 2048\<rparr>"

definition demo_device :: "int \<Rightarrow> GpuDeviceProps result" where
  "demo_device i = Inr demo_props"

definition demo_state :: AutotuneState where
  "demo_state = \<lparr>at_files = (\<lambda>_. None), user_cache = None, loaded_user_path = [], cfg_override = None, forced_variant = None\<rparr>"

definition no_env :: environment where "no_env = (\<lambda>_. None)"

lemma demo_table_ok: "table_ok demo_table"
  by (simp add: table_ok_def demo_table_def variant_ok_def int_ok_def)

lemma no_env_filters: "no_filters no_env" "no_env x = None"
  by (simp_all add: no_env_def no_filters_def)

lemma demo_key_ok: "device_key_ok (CacheKey demo_props)"
  by (rule CacheKey_ok) (simp add: demo_props_def)

lemma demo_autotune:
  "\<exists>res. RunAutotuneWithBenchmark no_env good_io demo_device demo_table demo_bench 0 ''c.txt'' demo_state
     = (Inr res, snd (RunAutotuneWithBenchmark no_env good_io demo_device demo_table demo_bench 0 ''c.txt'' demo_state))"
proof -
  have "cache_ok []" "distinct kAutotuneTargets" by (simp_all add: cache_ok_def kAutotuneTargets_def)
  then obtain es l where "tune_targets no_env demo_table (demo_bench 0)
      (CacheKey demo_props) kAutotuneTargets ([], zero_config) = Some (es, l)"
    using tune_targets_fastest [OF demo_table_ok no_env_filters(1) demo_key_ok, of "[]" kAutotuneTargets "demo_bench 0" zero_config] by blast
  then show ?thesis
    by (simp add: RunAutotuneWithBenchmark_def RunAutotuneWithBenchmarkForDeviceKey_def demo_device_def demo_state_def
        Let_def resolve_path_def Load_def Save_def good_io_def parent_path_def)
qed

lemma autotuned_launch_witness:
  "\<exists>cfg s. fst (GetKernelConfigForDevice no_env demo_device demo_table 0 PROFILE_TYPE_1NN PRECISION_SINGLE ''c.txt''
       (snd (RunAutotuneWithBenchmark no_env good_io demo_device demo_table demo_bench 0 ''c.txt'' demo_state))) = Some cfg
    \<and> fastest demo_table (demo_bench 0) PROFILE_TYPE_1NN PRECISION_SINGLE (set (sweep_trials demo_table)) s cfg"
proof -
  obtain res where res: "RunAutotuneWithBenchmark no_env good_io demo_device demo_table demo_bench 0 ''c.txt'' demo_state
     = (Inr res, snd (RunAutotuneWithBenchmark no_env good_io demo_device demo_table demo_bench 0 ''c.txt'' demo_state))"
    using demo_autotune by blast
  show ?thesis
    by (rule autotuned_launch [OF demo_table_ok no_env_filters(1) _ demo_key_ok res])
      (simp_all add: demo_device_def demo_state_def kAutotuneTargets_def no_env_def)
qed

lemma launch_config_supported_witness:
  "case GetKernelConfigForDevice no_env demo_device demo_table 0 PROFILE_TYPE_SUM_THRESH PRECISION_DOUBLE [] demo_state of
    (r, st') \<Rightarrow> (\<exists>cfg. r = Some cfg \<and> IsSupportedKernelConfig demo_table cfg) \<and> state_ok demo_table st'"
  by (rule launch_config_supported [OF demo_table_ok]) (simp add: state_ok_def demo_state_def)

end
