(* ===== verification/GpuAtomics.thy ===== *)
theory GpuAtomics
  imports Common WorkerPool
begin

text \<open>
  The atomic updates of a profile by the threads of a kernel: \<open>MPatomicMax\<close> and \<open>MPatomicMax_check\<close> of
  src/core/gpu_kernel/kernel_gpu_utils.h. A thread is the list of accesses to the profile it still has to
  make; a read and a compare-and-swap are the steps that are atomic, and any interleaving of the steps of all
  threads is a schedule of the pool. The profile is the memory they share, in the block's shared memory or in
  global memory: the scope of an atomic decides which threads are in the pool.

  An access outside the memory makes the thread fault, which the theorem excludes.
\<close>

subsection \<open>Threads\<close>

text \<open>
  A load reads one element and keeps its value in register \<open>k\<close>; a vectorised load is a sequence of them. An
  update has the value it is compared with first: none (\<open>MPatomicMax\<close>), a constant, or the value of register
  \<open>k\<close> (\<open>MPatomicMax_check\<close>).
\<close>

datatype check = Always | Above fp | Above_loaded nat

datatype access = Load_value nat nat | Max_entry nat fp "32 word" check

record thread =
  accesses :: "access list"
  loaded :: "fp list"
  loctest :: "mp_entry option"
  faulted :: bool

definition next_access :: "thread \<Rightarrow> thread" where
  "next_access t = t\<lparr>accesses := tl (accesses t), loctest := None\<rparr>"

definition fault :: "thread \<Rightarrow> thread" where
  "fault t = t\<lparr>accesses := [], faulted := True\<rparr>"

definition passes :: "fp list \<Rightarrow> fp \<Rightarrow> check \<Rightarrow> bool" where
  "passes regs v c = (case c of Always \<Rightarrow> True | Above f \<Rightarrow> fgt v f
     | Above_loaded k \<Rightarrow> k < length regs \<and> fgt v (regs ! k))"

text \<open>The test of the loop on the value it has read last: leave, or go on with it.\<close>

definition loop_test :: "fp \<Rightarrow> mp_entry \<Rightarrow> thread \<Rightarrow> thread" where
  "loop_test v e t = (if flt (floats0 e) v then t\<lparr>loctest := Some e\<rparr> else next_access t)"

definition thread_step :: "thread \<Rightarrow> mp_entry list \<Rightarrow> thread \<times> mp_entry list" where
  "thread_step t mem = (case accesses t of
     [] \<Rightarrow> (t, mem)
   | Load_value k a # as \<Rightarrow>
       if length mem \<le> a then (fault t, mem)
       else (next_access (t\<lparr>loaded := take k (loaded t) @ [floats0 (mem ! a)]\<rparr>), mem)
   | Max_entry a v x c # as \<Rightarrow>
       if length mem \<le> a then (fault t, mem)
       else (case loctest t of
         None \<Rightarrow> (if passes (loaded t) v c then loop_test v (mem ! a) t else next_access t, mem)
       | Some e \<Rightarrow>
           (loop_test v (mem ! a) t,
            if mem ! a = e then mem[a := \<lparr>floats0 = v, ints1 = x\<rparr>] else mem)))"

definition new_thread :: "access list \<Rightarrow> thread" where
  "new_thread as = \<lparr>accesses = as, loaded = [], loctest = None, faulted = False\<rparr>"

definition run_threads :: "nat list \<Rightarrow> access list list \<Rightarrow> mp_entry list \<Rightarrow> thread list \<times> mp_entry list" where
  "run_threads sched progs mem = run_pool thread_step sched (map new_thread progs, mem)"

subsection \<open>The order of the values of an element\<close>

text \<open>A value only grows; a NaN stays.\<close>

definition grows :: "fp \<Rightarrow> fp \<Rightarrow> bool" where "grows x y \<longleftrightarrow> x = y \<or> flt x y"

lemma grows_refl [simp]: "grows x x" by (simp add: grows_def)

lemma grows_trans: "grows x y \<Longrightarrow> grows y z \<Longrightarrow> grows x z"
  using flt_trans by (auto simp: grows_def)

lemma grows_not_flt: "grows x y \<Longrightarrow> \<not> flt x v \<Longrightarrow> \<not> flt y v"
  using flt_trans by (auto simp: grows_def)

definition entry_grows :: "mp_entry \<Rightarrow> mp_entry \<Rightarrow> bool" where
  "entry_grows e e' \<longleftrightarrow> e = e' \<or> flt (floats0 e) (floats0 e')"

lemma entry_grows_value: "entry_grows e e' \<Longrightarrow> grows (floats0 e) (floats0 e')"
  by (auto simp: entry_grows_def grows_def)

lemma entry_grows_refl [simp]: "entry_grows e e" by (simp add: entry_grows_def)

lemma entry_grows_trans: "entry_grows e e' \<Longrightarrow> entry_grows e' e'' \<Longrightarrow> entry_grows e e''"
  using flt_trans by (auto simp: entry_grows_def)

subsection \<open>Well-formed programs\<close>

text \<open>
  \<open>prog_ok m0 addrs\<close>: the accesses stay within the memory, and an update that is compared with a register is
  compared with an older value of the same element, \<open>addrs\<close> being the elements the registers were loaded
  from. A constant that is compared with is not above the element of the initial memory \<open>m0\<close>.
\<close>

fun prog_ok :: "mp_entry list \<Rightarrow> nat list \<Rightarrow> access list \<Rightarrow> bool" where
  "prog_ok m0 addrs [] = True"
| "prog_ok m0 addrs (Load_value k a # as) =
     (k \<le> length addrs \<and> a < length m0 \<and> prog_ok m0 (take k addrs @ [a]) as)"
| "prog_ok m0 addrs (Max_entry a v x c # as) =
     (a < length m0 \<and> (case c of Always \<Rightarrow> True | Above f \<Rightarrow> \<not> is_nan f \<and> \<not> flt (floats0 (m0 ! a)) f
        | Above_loaded i \<Rightarrow> i < length addrs \<and> addrs ! i = a) \<and> prog_ok m0 addrs as)"

type_synonym updates = "nat \<Rightarrow> (fp \<times> 32 word) set"

definition updates_of :: "access list set \<Rightarrow> updates" where
  "updates_of progs a = {(v, x). \<exists>p \<in> progs. \<exists>c. Max_entry a v x c \<in> set p}"

subsection \<open>The contract of a thread\<close>

text \<open>Every element holds its initial entry or one of the updates, and has only grown.\<close>

definition mem_inv :: "mp_entry list \<Rightarrow> updates \<Rightarrow> mp_entry list \<Rightarrow> bool" where
  "mem_inv m0 U mem \<longleftrightarrow> length mem = length m0 \<and> (\<forall>a. finite (U a))
     \<and> (\<forall>a < length m0. entry_grows (m0 ! a) (mem ! a)
         \<and> (mem ! a = m0 ! a \<or> (floats0 (mem ! a), ints1 (mem ! a)) \<in> U a))"

definition mem_grows :: "mp_entry list \<Rightarrow> mp_entry list \<Rightarrow> bool" where
  "mem_grows mem mem' \<longleftrightarrow> length mem' = length mem \<and> (\<forall>a < length mem. entry_grows (mem ! a) (mem' ! a))"

definition accesses_ok :: "mp_entry list \<Rightarrow> updates \<Rightarrow> mp_entry list \<Rightarrow> access list \<Rightarrow> fp list \<Rightarrow> bool" where
  "accesses_ok m0 U mem as regs \<longleftrightarrow>
     (\<exists>addrs. prog_ok m0 addrs as \<and> length addrs = length regs
        \<and> (\<forall>i < length regs. addrs ! i < length m0 \<and> grows (regs ! i) (floats0 (mem ! (addrs ! i)))))
     \<and> (\<forall>a v x c. Max_entry a v x c \<in> set as \<longrightarrow> (v, x) \<in> U a)"

definition loop_ok :: "mp_entry list \<Rightarrow> mp_entry list \<Rightarrow> access list \<Rightarrow> mp_entry option \<Rightarrow> bool" where
  "loop_ok m0 mem as lt = (case lt of None \<Rightarrow> True | Some e \<Rightarrow> (case as of
     Max_entry a v x c # _ \<Rightarrow> flt (floats0 e) v \<and> entry_grows (m0 ! a) e \<and> entry_grows e (mem ! a) | _ \<Rightarrow> False))"

definition thread_ok :: "mp_entry list \<Rightarrow> updates \<Rightarrow> mp_entry list \<Rightarrow> thread \<Rightarrow> bool" where
  "thread_ok m0 U mem t \<longleftrightarrow> length mem = length m0 \<and> \<not> faulted t
     \<and> accesses_ok m0 U mem (accesses t) (loaded t) \<and> loop_ok m0 mem (accesses t) (loctest t)"

definition settled :: "mp_entry list \<Rightarrow> (nat \<times> fp) set" where
  "settled mem = {(a, v). a < length mem \<and> \<not> flt (floats0 (mem ! a)) v}"

definition pending :: "thread \<Rightarrow> (nat \<times> fp) set" where
  "pending t = {(a, v). \<exists>x c. Max_entry a v x c \<in> set (accesses t)}"

definition rank :: "updates \<Rightarrow> nat \<Rightarrow> mp_entry \<Rightarrow> nat" where
  "rank U a e = card {u \<in> fst ` U a. flt (floats0 e) u}"

fun access_cost :: "updates \<Rightarrow> access \<Rightarrow> nat" where
  "access_cost U (Load_value k a) = 1"
| "access_cost U (Max_entry a v x c) = 2 + card (fst ` U a)"

definition thread_cost :: "updates \<Rightarrow> thread \<Rightarrow> nat" where
  "thread_cost U t = (case loctest t of None \<Rightarrow> sum_list (map (access_cost U) (accesses t))
     | Some e \<Rightarrow> (case accesses t of Max_entry a v x c # as \<Rightarrow> 1 + rank U a e + sum_list (map (access_cost U) as) | _ \<Rightarrow> 0))"

definition mem_cost :: "updates \<Rightarrow> mp_entry list \<Rightarrow> nat" where
  "mem_cost U mem = (\<Sum>a < length mem. rank U a (mem ! a))"

lemma accesses_ok_grows:
  "mem_grows mem mem' \<Longrightarrow> length mem = length m0 \<Longrightarrow> accesses_ok m0 U mem as regs \<Longrightarrow> accesses_ok m0 U mem' as regs"
proof -
  assume A: "mem_grows mem mem'" "length mem = length m0" "accesses_ok m0 U mem as regs"
  then obtain addrs where addrs: "prog_ok m0 addrs as" "length addrs = length regs"
      "\<forall>i < length regs. addrs ! i < length m0 \<and> grows (regs ! i) (floats0 (mem ! (addrs ! i)))"
    by (auto simp: accesses_ok_def)
  have "grows (regs ! i) (floats0 (mem' ! (addrs ! i)))" if i: "i < length regs" for i
  proof (rule grows_trans)
    show "grows (regs ! i) (floats0 (mem ! (addrs ! i)))" using addrs(3) i by blast
    show "grows (floats0 (mem ! (addrs ! i))) (floats0 (mem' ! (addrs ! i)))"
      using A(1,2) addrs(3) i by (intro entry_grows_value) (auto simp: mem_grows_def)
  qed
  then show ?thesis using A(3) addrs unfolding accesses_ok_def by blast
qed

lemma loop_ok_grows:
  assumes "mem_grows mem mem'" "accesses_ok m0 U mem as regs" "length mem = length m0" "loop_ok m0 mem as lt"
  shows "loop_ok m0 mem' as lt"
proof (cases lt)
  case (Some e)
  then obtain a v x c as' where as: "as = Max_entry a v x c # as'"
    using assms(4) by (auto simp: loop_ok_def split: list.splits access.splits)
  have "a < length m0" using assms(2) as by (auto simp: accesses_ok_def)
  then show ?thesis using assms Some as entry_grows_trans by (auto simp: loop_ok_def mem_grows_def)
qed (simp add: loop_ok_def)

lemma thread_ok_grows: "mem_grows mem mem' \<Longrightarrow> thread_ok m0 U mem t \<Longrightarrow> thread_ok m0 U mem' t"
  using accesses_ok_grows loop_ok_grows by (auto simp: thread_ok_def mem_grows_def)

lemma accesses_ok_tl:
  "accesses_ok m0 U mem (Max_entry a v x c # as) regs \<Longrightarrow> accesses_ok m0 U mem as regs"
  by (auto simp: accesses_ok_def)

lemma accesses_ok_load:
  assumes "accesses_ok m0 U mem (Load_value k a # as) regs" "length mem = length m0"
  shows "a < length mem" "accesses_ok m0 U mem as (take k regs @ [floats0 (mem ! a)])"
proof -
  obtain addrs where addrs: "prog_ok m0 addrs (Load_value k a # as)" "length addrs = length regs"
      "\<forall>i < length regs. addrs ! i < length m0 \<and> grows (regs ! i) (floats0 (mem ! (addrs ! i)))"
    using assms(1) by (auto simp: accesses_ok_def)
  show a: "a < length mem" using addrs(1) assms(2) by simp
  have "(take k addrs @ [a]) ! i < length m0
      \<and> grows ((take k regs @ [floats0 (mem ! a)]) ! i) (floats0 (mem ! ((take k addrs @ [a]) ! i)))"
    if "i < length (take k regs @ [floats0 (mem ! a)])" for i
    using that addrs a assms(2) by (cases "i < k") (auto simp: nth_append)
  moreover have "prog_ok m0 (take k addrs @ [a]) as" using addrs(1) by simp
  ultimately show "accesses_ok m0 U mem as (take k regs @ [floats0 (mem ! a)])"
    using assms(1) addrs(2) unfolding accesses_ok_def by (intro conjI exI [of _ "take k addrs @ [a]"]) auto
qed

text \<open>The next update of a well-formed thread.\<close>

lemma accesses_ok_max:
  assumes "accesses_ok m0 U mem (Max_entry a v x c # as) regs" "mem_inv m0 U mem"
  shows "a < length mem" "(v, x) \<in> U a" "\<not> passes regs v c \<Longrightarrow> \<not> flt (floats0 (mem ! a)) v"
proof -
  obtain addrs where addrs: "prog_ok m0 addrs (Max_entry a v x c # as)" "length addrs = length regs"
      "\<forall>i < length regs. addrs ! i < length m0 \<and> grows (regs ! i) (floats0 (mem ! (addrs ! i)))"
    using assms(1) by (auto simp: accesses_ok_def)
  show a: "a < length mem" using addrs(1) assms(2) by (simp add: mem_inv_def)
  show "(v, x) \<in> U a" using assms(1) by (auto simp: accesses_ok_def)
  assume np: "\<not> passes regs v c"
  show "\<not> flt (floats0 (mem ! a)) v"
  proof (cases c)
    case Always
    then show ?thesis using np by (simp add: passes_def)
  next
    case (Above f)
    have "grows (floats0 (m0 ! a)) (floats0 (mem ! a))"
      using assms(2) a by (auto simp: mem_inv_def intro: entry_grows_value)
    moreover have f: "\<not> is_nan f" "\<not> flt (floats0 (m0 ! a)) f" using addrs(1) Above by auto
    ultimately have "\<not> flt (floats0 (mem ! a)) f" using grows_not_flt by blast
    moreover have "\<not> flt f v" using np Above by (simp add: passes_def)
    ultimately show ?thesis using f(1) not_flt [of "floats0 (mem ! a)" f] fle_flt_trans flt_not_nan by blast
  next
    case (Above_loaded k)
    have k: "k < length regs" "addrs ! k = a" using addrs(1,2) Above_loaded by auto
    have "\<not> flt (regs ! k) v" using np Above_loaded k by (simp add: passes_def)
    then show ?thesis using addrs(3) k grows_not_flt by blast
  qed
qed

subsection \<open>A step\<close>

text \<open>The entry that is written, and what the write does to the memory.\<close>

lemma mem_inv_write:
  assumes "mem_inv m0 U mem" "a < length mem" "(v, x) \<in> U a" "flt (floats0 (mem ! a)) v"
  shows "mem_inv m0 U (mem[a := \<lparr>floats0 = v, ints1 = x\<rparr>])" "mem_grows mem (mem[a := \<lparr>floats0 = v, ints1 = x\<rparr>])"
proof -
  have g: "entry_grows (mem ! a) \<lparr>floats0 = v, ints1 = x\<rparr>" using assms(4) by (simp add: entry_grows_def)
  show "mem_grows mem (mem[a := \<lparr>floats0 = v, ints1 = x\<rparr>])"
    using g assms(2) by (auto simp: mem_grows_def nth_list_update)
  show "mem_inv m0 U (mem[a := \<lparr>floats0 = v, ints1 = x\<rparr>])"
    using assms g unfolding mem_inv_def by (auto simp: nth_list_update intro: entry_grows_trans)
qed

lemma loop_test_leaves: "loop_test v e t = next_access t \<Longrightarrow> \<not> flt (floats0 e) v"
proof
  assume "loop_test v e t = next_access t" "flt (floats0 e) v"
  then have "loctest (t\<lparr>loctest := Some e\<rparr>) = loctest (next_access t)" by (simp add: loop_test_def)
  then show False by (simp add: next_access_def)
qed

lemma loop_test_ok:
  assumes "thread_ok m0 U mem t" "accesses t = Max_entry a v x c # as" "mem_inv m0 U mem" "e = mem ! a"
  shows "thread_ok m0 U mem (loop_test v e t)"
proof -
  have acc: "accesses_ok m0 U mem (Max_entry a v x c # as) (loaded t)" using assms(1,2) by (simp add: thread_ok_def)
  have "entry_grows (m0 ! a) e" "entry_grows e (mem ! a)"
    using accesses_ok_max(1) [OF acc assms(3)] assms(3,4) by (auto simp: mem_inv_def entry_grows_def)
  then show ?thesis
    using assms(1,2) accesses_ok_tl [OF acc]
    by (simp add: thread_ok_def loop_test_def next_access_def loop_ok_def)
qed

lemma next_access_ok:
  assumes "thread_ok m0 U mem t" "accesses t = Max_entry a v x c # as"
  shows "thread_ok m0 U mem (next_access t)"
  using assms accesses_ok_tl by (auto simp: thread_ok_def next_access_def loop_ok_def)

lemma mem_grows_refl [simp]: "mem_grows mem mem"
  by (simp add: mem_grows_def entry_grows_def)

lemma thread_step_ok:
  assumes I: "mem_inv m0 U mem" and T: "thread_ok m0 U mem t" and S: "thread_step t mem = (t', mem')"
  shows "mem_inv m0 U mem' \<and> thread_ok m0 U mem' t' \<and> mem_grows mem mem'"
proof (cases "accesses t")
  case Nil
  then show ?thesis using assms by (simp add: thread_step_def)
next
  case (Cons y as)
  show ?thesis
  proof (cases y)
    case (Load_value k a)
    have "accesses_ok m0 U mem (Load_value k a # as) (loaded t)" using T Cons Load_value by (simp add: thread_ok_def)
    from accesses_ok_load [OF this] have ok: "a < length mem" "accesses_ok m0 U mem as (take k (loaded t) @ [floats0 (mem ! a)])"
      using I by (auto simp: mem_inv_def)
    then have "t' = next_access (t\<lparr>loaded := take k (loaded t) @ [floats0 (mem ! a)]\<rparr>)" "mem' = mem"
      using S Cons Load_value by (auto simp: thread_step_def)
    then show ?thesis using I T ok(2) Cons by (simp add: thread_ok_def next_access_def loop_ok_def)
  next
    case (Max_entry a v x c)
    note as = Cons [unfolded Max_entry]
    have acc: "accesses_ok m0 U mem (Max_entry a v x c # as) (loaded t)" using T as by (simp add: thread_ok_def)
    note a = accesses_ok_max [OF acc I]
    show ?thesis
    proof (cases "loctest t")
      case None
      then have "mem' = mem" "t' = (if passes (loaded t) v c then loop_test v (mem ! a) t else next_access t)"
        using S as a(1) by (auto simp: thread_step_def)
      then show ?thesis using I loop_test_ok [OF T as I refl] next_access_ok [OF T as] by simp
    next
      case (Some e)
      have e: "flt (floats0 e) v" using T as Some by (simp add: thread_ok_def loop_ok_def)
      have t': "t' = loop_test v (mem ! a) t" using S as a(1) Some by (auto simp: thread_step_def)
      show ?thesis
      proof (cases "mem ! a = e")
        case True
        then have "mem' = mem[a := \<lparr>floats0 = v, ints1 = x\<rparr>]" using S as a(1) Some by (auto simp: thread_step_def)
        moreover note w = mem_inv_write [OF I a(1,2)]
        ultimately show ?thesis
          using True e t' thread_ok_grows [OF w(2) loop_test_ok [OF T as I refl]] by auto
      next
        case False
        then have "mem' = mem" using S as a(1) Some by (auto simp: thread_step_def)
        then show ?thesis using I t' loop_test_ok [OF T as I refl] by simp
      qed
    qed
  qed
qed

lemma settled_mono: "mem_grows mem mem' \<Longrightarrow> settled mem \<subseteq> settled mem'"
  by (auto simp: settled_def mem_grows_def dest: entry_grows_value grows_not_flt)

lemma pending_next: "accesses t = Max_entry a v x c # as \<Longrightarrow> pending t = insert (a, v) (pending (next_access t))"
  by (auto simp: pending_def next_access_def)

lemma thread_step_settles:
  assumes I: "mem_inv m0 U mem" and T: "thread_ok m0 U mem t" and S: "thread_step t mem = (t', mem')"
  shows "pending t \<subseteq> pending t' \<union> settled mem'"
proof (cases "accesses t")
  case Nil
  then show ?thesis by (simp add: pending_def)
next
  case (Cons y as)
  have grows: "mem_grows mem mem'" using thread_step_ok [OF I T S] by blast
  show ?thesis
  proof (cases y)
    case (Load_value k a)
    have "accesses_ok m0 U mem (Load_value k a # as) (loaded t)" using T Cons Load_value by (simp add: thread_ok_def)
    then have "a < length mem" using accesses_ok_load(1) I by (auto simp: mem_inv_def)
    then have "accesses t' = as" using S Cons Load_value by (auto simp: thread_step_def next_access_def)
    then show ?thesis using Cons Load_value by (simp add: pending_def)
  next
    case (Max_entry a v x c)
    note as = Cons [unfolded Max_entry]
    have acc: "accesses_ok m0 U mem (Max_entry a v x c # as) (loaded t)" using T as by (simp add: thread_ok_def)
    note a = accesses_ok_max [OF acc I]
    have "pending t \<subseteq> pending t' \<union> settled mem"
    proof (cases "t' = next_access t")
      case True
      have "\<not> flt (floats0 (mem ! a)) v"
        using S as a(1,3) True loop_test_leaves
        by (auto simp: thread_step_def split: option.splits if_splits)
      then show ?thesis using pending_next [OF as] True a(1) by (auto simp: settled_def)
    next
      case False
      then have "accesses t' = accesses t"
        using S as a(1) by (auto simp: thread_step_def loop_test_def split: option.splits if_splits)
      then show ?thesis by (simp add: pending_def)
    qed
    then show ?thesis using settled_mono [OF grows] by blast
  qed
qed

subsection \<open>Steps use up cost\<close>

lemma rank_le: "finite (U a) \<Longrightarrow> rank U a e \<le> card (fst ` U a)"
  unfolding rank_def by (rule card_mono) auto

lemma rank_less:
  assumes "finite (U a)" "flt (floats0 e) (floats0 e')" "floats0 e' \<in> fst ` U a"
  shows "rank U a e' < rank U a e"
  unfolding rank_def
proof (rule psubset_card_mono)
  show "finite {u \<in> fst ` U a. flt (floats0 e) u}" using assms(1) by simp
  have "floats0 e' \<in> {u \<in> fst ` U a. flt (floats0 e) u} - {u \<in> fst ` U a. flt (floats0 e') u}"
    using assms(2,3) flt_irrefl by simp
  then show "{u \<in> fst ` U a. flt (floats0 e') u} \<subset> {u \<in> fst ` U a. flt (floats0 e) u}"
    using assms(2) flt_trans by blast
qed

lemma mem_cost_write:
  assumes "a < length mem" "rank U a e < rank U a (mem ! a)"
  shows "mem_cost U (mem[a := e]) < mem_cost U mem"
  unfolding mem_cost_def using assms
  by (auto simp: nth_list_update intro!: sum_strict_mono_ex1 bexI [of _ a])

lemma thread_step_cost:
  assumes I: "mem_inv m0 U mem" and T: "thread_ok m0 U mem t" and S: "thread_step t mem = (t', mem')"
  shows "if accesses t = [] then t' = t \<and> mem' = mem
    else thread_cost U t' + mem_cost U mem' < thread_cost U t + mem_cost U mem"
proof (cases "accesses t")
  case Nil
  then show ?thesis using S by (simp add: thread_step_def)
next
  case (Cons y as)
  show ?thesis
  proof (cases y)
    case (Load_value k a)
    have "accesses_ok m0 U mem (Load_value k a # as) (loaded t)" using T Cons Load_value by (simp add: thread_ok_def)
    then have "a < length mem" using accesses_ok_load(1) I by (auto simp: mem_inv_def)
    moreover have "loctest t = None" using T Cons Load_value by (cases "loctest t") (auto simp: thread_ok_def loop_ok_def)
    ultimately show ?thesis using S Cons Load_value by (auto simp: thread_step_def next_access_def thread_cost_def)
  next
    case (Max_entry a v x c)
    note as = Cons [unfolded Max_entry]
    have acc: "accesses_ok m0 U mem (Max_entry a v x c # as) (loaded t)" using T as by (simp add: thread_ok_def)
    note a = accesses_ok_max [OF acc I]
    have fin: "finite (U a)" using I by (simp add: mem_inv_def)
    let ?rest = "sum_list (map (access_cost U) as)"
    have left: "thread_cost U (next_access u) = ?rest" if "accesses u = accesses t" for u
      using as that by (simp add: thread_cost_def next_access_def)
    have test: "thread_cost U (loop_test v e t) \<le> 1 + rank U a e + ?rest" for e
      using left [of t] as by (simp add: loop_test_def) (simp add: thread_cost_def)
    show ?thesis
    proof (cases "loctest t")
      case None
      have "thread_cost U t = 2 + card (fst ` U a) + ?rest" using None as by (simp add: thread_cost_def)
      moreover have "mem' = mem" "t' = (if passes (loaded t) v c then loop_test v (mem ! a) t else next_access t)"
        using S as a(1) None by (auto simp: thread_step_def)
      ultimately show ?thesis using as left [of t] test [of "mem ! a"] rank_le [of U a "mem ! a"] fin by auto
    next
      case (Some e)
      have e: "flt (floats0 e) v" "entry_grows (m0 ! a) e" "entry_grows e (mem ! a)"
        using T as Some by (auto simp: thread_ok_def loop_ok_def)
      have cost: "thread_cost U t = 1 + rank U a e + ?rest" using Some as by (simp add: thread_cost_def)
      have t': "t' = loop_test v (mem ! a) t" using S as a(1) Some by (auto simp: thread_step_def)
      show ?thesis
      proof (cases "mem ! a = e")
        case True
        then have "mem' = mem[a := \<lparr>floats0 = v, ints1 = x\<rparr>]" using S as a(1) Some by (auto simp: thread_step_def)
        moreover have "rank U a \<lparr>floats0 = v, ints1 = x\<rparr> < rank U a (mem ! a)"
          using rank_less [of U a "mem ! a" "\<lparr>floats0 = v, ints1 = x\<rparr>"] fin True e(1) a(2) by force
        ultimately show ?thesis using as cost t' test [of e] True mem_cost_write [OF a(1)] by fastforce
      next
        case False
        then have mem: "mem' = mem" using S as a(1) Some by (auto simp: thread_step_def)
        have lt: "flt (floats0 e) (floats0 (mem ! a))" using e(3) False by (auto simp: entry_grows_def)
        have "mem ! a \<noteq> m0 ! a" using e(2) lt False flt_trans flt_irrefl unfolding entry_grows_def by metis
        then have "floats0 (mem ! a) \<in> fst ` U a" using I a(1) by (force simp: mem_inv_def)
        then have "rank U a (mem ! a) < rank U a e" using rank_less [of U a e "mem ! a"] fin lt by blast
        then show ?thesis using as cost t' test [of "mem ! a"] mem by auto
      qed
    qed
  qed
qed

subsection \<open>All threads\<close>

interpretation atomics: worker_pool thread_step "\<lambda>t :: thread. accesses t = []" "mem_inv m0 U" "thread_ok m0 U" mem_grows
    "\<lambda>_. {}" settled pending "thread_cost U" "mem_cost U" "\<lambda>_. 0" "\<lambda>_. 0" for m0 U
proof unfold_locales
  fix s s' :: "mp_entry list" and v assume "mem_grows s s'" "thread_ok m0 U s v"
  then show "thread_ok m0 U s' v" by (rule thread_ok_grows)
next
  fix s s' :: "mp_entry list" and w w' :: thread assume A: "mem_inv m0 U s" "thread_ok m0 U s w" "thread_step w s = (w', s')"
  show "mem_inv m0 U s' \<and> thread_ok m0 U s' w' \<and> mem_grows s s'" by (rule thread_step_ok [OF A])
  show "{} \<union> pending w \<subseteq> {} \<union> pending w' \<union> settled s'" using thread_step_settles [OF A] by simp
  show "if accesses w = [] then w' = w \<and> s' = s else thread_cost U w' + mem_cost U s' < thread_cost U w + mem_cost U s"
    by (rule thread_step_cost [OF A])
next
  fix s s' :: "mp_entry list" assume "mem_grows s s'"
  then show "settled s \<subseteq> settled s'" by (rule settled_mono)
next
  fix w :: thread assume "accesses w = []"
  then show "pending w = {} \<and> (0::nat) = 0" by (simp add: pending_def)
qed simp_all

text \<open>A bound for the steps of a thread: each step of another thread can make it try again.\<close>

definition step_bound :: "access list list \<Rightarrow> nat \<Rightarrow> nat" where
  "step_bound progs n = (let k = sum_list (map length progs) in k * (2 + k) + n * k)"

lemma updates_of_entries: "updates_of (set progs) a \<subseteq> set (map (\<lambda>y. case y of Max_entry b v x c \<Rightarrow> (v, x)
    | Load_value _ _ \<Rightarrow> undefined) (concat progs))"
  by (force simp: updates_of_def image_iff)

lemma card_updates:
  shows "finite (updates_of (set progs) a)" "card (fst ` updates_of (set progs) a) \<le> sum_list (map length progs)"
proof -
  show fin: "finite (updates_of (set progs) a)" by (rule finite_subset [OF updates_of_entries]) simp
  have "card (fst ` updates_of (set progs) a) \<le> card (updates_of (set progs) a)" by (rule card_image_le [OF fin])
  also have "\<dots> \<le> card (set (map (\<lambda>y. case y of Max_entry b v x c \<Rightarrow> (v, x)
    | Load_value _ _ \<Rightarrow> undefined) (concat progs)))"
    by (rule card_mono [OF _ updates_of_entries]) simp
  also have "\<dots> \<le> sum_list (map length progs)" by (rule order_trans [OF card_length]) (simp add: length_concat)
  finally show "card (fst ` updates_of (set progs) a) \<le> sum_list (map length progs)" .
qed

lemma sum_list_cost_le: "\<forall>x \<in> set xs. f x \<le> (k :: nat) * g x \<Longrightarrow> sum_list (map f xs) \<le> k * sum_list (map g xs)"
  by (induction xs) (auto simp: add_mult_distrib2 intro: add_mono)

lemma pool_cost_bound:
  "atomics.pool_cost (updates_of (set progs)) (map new_thread progs, m0) \<le> step_bound progs (length m0)"
proof -
  let ?U = "updates_of (set progs)" and ?k = "sum_list (map length progs)"
  have acc: "access_cost ?U y \<le> (2 + ?k) * 1" for y
    using card_updates(2) by (cases y) (auto simp: le_SucI)
  have "thread_cost ?U (new_thread p) \<le> (2 + ?k) * length p" for p
    using sum_list_cost_le [of p "access_cost ?U" "2 + ?k" "\<lambda>_. 1"] acc
    by (simp add: thread_cost_def new_thread_def sum_list_triv)
  then have "sum_list (map (thread_cost ?U \<circ> new_thread) progs) \<le> (2 + ?k) * ?k"
    by (intro sum_list_cost_le) simp
  moreover have "mem_cost ?U m0 \<le> (\<Sum>a < length m0. ?k)"
    unfolding mem_cost_def
    by (rule sum_mono) (rule order_trans [OF rank_le [OF card_updates(1)] card_updates(2)])
  ultimately show ?thesis by (simp add: atomics.pool_cost_def step_bound_def Let_def mult.commute)
qed

lemma new_threads_inv:
  assumes "\<forall>p \<in> set progs. prog_ok m0 [] p"
  shows "atomics.pool_inv m0 (updates_of (set progs)) {(a, v). \<exists>x. (v, x) \<in> updates_of (set progs) a} 0
    (map new_thread progs, m0)"
proof -
  let ?U = "updates_of (set progs)"
  have "mem_inv m0 ?U m0" using card_updates(1) by (simp add: mem_inv_def)
  moreover have "thread_ok m0 ?U m0 (new_thread p)" if "p \<in> set progs" for p
    using assms that by (auto simp: thread_ok_def new_thread_def accesses_ok_def loop_ok_def updates_of_def)
  moreover have "{(a, v). \<exists>x. (v, x) \<in> ?U a} \<subseteq> (\<Union>p \<in> set progs. pending (new_thread p))"
    by (auto simp: updates_of_def pending_def new_thread_def)
  ultimately show ?thesis by (auto simp: atomics.pool_inv_def o_def)
qed

lemma fair_less: "fair n k sched \<Longrightarrow> k' \<le> k \<Longrightarrow> fair n k' sched"
  by (meson fair_def order_trans)

lemma updates_reach_maximum:
  assumes progs: "\<forall>p \<in> set progs. prog_ok m0 [] p"
    and fair: "fair (length progs) (step_bound progs (length m0)) sched"
    and run: "run_threads sched progs m0 = (ts, mem)"
  shows "(\<forall>t \<in> set ts. accesses t = [] \<and> \<not> faulted t) \<and> length mem = length m0
    \<and> (\<forall>a < length m0. (\<forall>(v, x) \<in> updates_of (set progs) a. \<not> flt (floats0 (mem ! a)) v)
      \<and> (mem ! a = m0 ! a \<or> flt (floats0 (m0 ! a)) (floats0 (mem ! a))
          \<and> (floats0 (mem ! a), ints1 (mem ! a)) \<in> updates_of (set progs) a))"
proof -
  let ?U = "updates_of (set progs)" and ?tasks = "{(a, v). \<exists>x. (v, x) \<in> updates_of (set progs) a}"
  have run': "run_pool thread_step sched (map new_thread progs, m0) = (ts, mem)" using run by (simp add: run_threads_def)
  note start = new_threads_inv [OF progs]
  have I: "atomics.pool_inv m0 ?U ?tasks 0 (ts, mem)"
    using atomics.run_inv [OF start, of sched] run' by simp
  have fin: "\<forall>t \<in> set ts. accesses t = []"
    using atomics.fair_run_finishes [OF start, of sched] fair_less [OF fair pool_cost_bound [of progs m0]] run' by simp
  have mem: "mem_inv m0 ?U mem" and ok: "\<forall>t \<in> set ts. \<not> faulted t"
    using I by (auto simp: atomics.pool_inv_def thread_ok_def)
  have "?tasks \<subseteq> settled mem"
    using I fin by (fastforce simp: atomics.pool_inv_def pending_def)
  then show ?thesis using fin ok mem by (auto simp: mem_inv_def settled_def entry_grows_def)
qed

text \<open>
  C36. However the threads of a kernel interleave, when each can take enough steps all of their atomic updates
  end, no access is outside the profile, and each element holds the entry it had, none of its updates being
  above it, or the value and index of one of its updates, above the old value, that no other is above.
\<close>

theorem atomic_updates_reach_maximum:
  assumes progs: "\<forall>p \<in> set progs. prog_ok m0 [] p"
    and fair: "fair (length progs) (step_bound progs (length m0)) sched"
    and run: "run_threads sched progs m0 = (ts, mem)"
  shows "(\<forall>t \<in> set ts. accesses t = [] \<and> \<not> faulted t) \<and> length mem = length m0
    \<and> (\<forall>a < length m0. (\<forall>(v, x) \<in> updates_of (set progs) a. \<not> flt (floats0 (mem ! a)) v)
      \<and> (mem ! a = m0 ! a \<or> flt (floats0 (m0 ! a)) (floats0 (mem ! a))
          \<and> (floats0 (mem ! a), ints1 (mem ! a)) \<in> updates_of (set progs) a))"
  by (rule updates_reach_maximum [OF assms])

text \<open>Two threads on two elements, one of them updating both.\<close>

definition demo_progs :: "access list list" where
  "demo_progs = [[Max_entry 0 (Fin 3) 7 Always, Load_value 0 0, Load_value 1 1, Max_entry 1 (Fin 1) 5 (Above_loaded 1)],
                 [Max_entry 0 (Fin 4) 9 (Above (Fin (-2)))]]"

definition demo_mem :: "mp_entry list" where
  "demo_mem = [\<lparr>floats0 = Fin (-2), ints1 = 0\<rparr>, \<lparr>floats0 = Fin 2, ints1 = 1\<rparr>]"

definition demo_interleaving :: "nat list" where
  "demo_interleaving = concat (replicate 45 [0..<2])"

lemma fair_rounds: "fair n k (concat (replicate k [0..<n]))"
proof -
  have "length (filter (\<lambda>j. j = i) [0..<n]) = 1" if "i < n" for i
    using that by (induction n) (auto simp: less_Suc_eq filter_empty_conv)
  then have "length (filter (\<lambda>j. j = i) (concat (replicate k [0..<n]))) = k" if "i < n" for i
    using that by (induction k) simp_all
  then show ?thesis by (simp add: fair_def)
qed

lemma atomic_updates_reach_maximum_witness:
  "case run_threads demo_interleaving demo_progs demo_mem of (ts, mem) \<Rightarrow>
    (\<forall>t \<in> set ts. accesses t = [] \<and> \<not> faulted t) \<and> length mem = 2
    \<and> \<not> flt (floats0 (mem ! 0)) (Fin 3) \<and> \<not> flt (floats0 (mem ! 0)) (Fin 4) \<and> \<not> flt (floats0 (mem ! 1)) (Fin 1)"
proof -
  obtain ts mem where run: "run_threads demo_interleaving demo_progs demo_mem = (ts, mem)" by (cases "run_threads demo_interleaving demo_progs demo_mem")
  have U: "(Fin 3, 7) \<in> updates_of (set demo_progs) 0" "(Fin 4, 9) \<in> updates_of (set demo_progs) 0"
      "(Fin 1, 5) \<in> updates_of (set demo_progs) 1"
    by (force simp: updates_of_def demo_progs_def)+
  have p: "\<forall>p \<in> set demo_progs. prog_ok demo_mem [] p" by (simp add: demo_progs_def demo_mem_def)
  have f: "fair (length demo_progs) (step_bound demo_progs (length demo_mem)) demo_interleaving"
  proof -
    have "length demo_progs = 2" "step_bound demo_progs (length demo_mem) = 45"
      by (simp_all add: demo_progs_def demo_mem_def step_bound_def)
    then show ?thesis using fair_rounds [of 2 45] by (simp only: demo_interleaving_def)
  qed
  have len: "length demo_mem = 2" by (simp add: demo_mem_def)
  note R = atomic_updates_reach_maximum [OF p f run, unfolded len]
  have "\<not> flt (floats0 (mem ! a)) v" if "a < 2" "(v, x) \<in> updates_of (set demo_progs) a" for a v x
    using R that by blast
  then show ?thesis using R U by (simp add: run)
qed

end
