(* ===== verification/GpuKernel.thy ===== *)
theory GpuKernel
  imports GpuAtomics CpuKernel
begin

text \<open>
  The sliding-window kernel of the GPU for \<open>1NN_INDEX\<close>: kernels_compute.h, kernels_smem.h and kernels_impl.h
  of src/core/gpu_kernel, with the layout of kernel_gpu_utils.h. A block of threads walks a band of diagonals
  tile by tile: it copies a tile's inputs and its part of the profile to shared memory, every thread computes
  its diagonals and updates the shared profile with atomics, and the block merges it into the global profile.

  A thread's arithmetic does not depend on the profile, so what a thread does in a tile is the list of its
  accesses to the shared profile (\<open>GpuAtomics\<close>), in program order; the accesses of the threads of a block
  interleave. Positions are natural numbers: they stay below 2^32 for the sizes a tile can have. Arrays are
  lists, and an access outside one is \<open>None\<close>. The contraction of a product and a sum into one rounding, which
  the CUDA compiler does by default, is not modelled.
\<close>

subsection \<open>Template parameters, registers and shared memory\<close>

record geometry =
  DiagsPerThread :: nat
  UnrolledRows :: nat
  OuterUnrolledRows :: nat
  KernelTileIters :: nat
  BLOCKSZ :: nat
  COMPUTE_ROWS :: bool
  COMPUTE_COLS :: bool

definition tile_rows :: "geometry \<Rightarrow> nat" where
  "tile_rows p = KernelTileIters p * OuterUnrolledRows p"

definition tile_width :: "geometry \<Rightarrow> nat" where
  "tile_width p = tile_rows p + BLOCKSZ p * DiagsPerThread p"

text \<open>
  The rounding of \<open>DATA_TYPE\<close> and \<open>ACCUM_TYPE\<close>, the rounding of \<open>DISTANCE_TYPE\<close>, Eigen's
  \<open>maxCoeff<PropagateNumbers>\<close> with an index, and the content of registers the code does not initialise.
\<close>

record kernel_env =
  rd_data :: rounding
  rd_dist :: rounding
  maxNumbers :: "fp list \<Rightarrow> fp \<times> int"
  uninit :: "nat \<Rightarrow> 32 word"

record SCAMPThreadInfo =
  g_cov :: "fp list"
  local_row :: nat
  local_col :: nat
  global_row :: nat
  global_col :: nat

record smem =
  df_col :: "fp list"
  dg_col :: "fp list"
  inorm_col :: "fp list"
  df_row :: "fp list"
  dg_row :: "fp list"
  inorm_row :: "fp list"

text \<open>The shared profile is \<open>local_mp_col\<close> followed by \<open>local_mp_row\<close>, each only if it is computed.\<close>

definition row_base :: "geometry \<Rightarrow> nat" where
  "row_base p = (if COMPUTE_COLS p then tile_width p else 0)"

definition mp_size :: "geometry \<Rightarrow> nat" where
  "mp_size p = row_base p + (if COMPUTE_ROWS p then tile_rows p else 0)"

text \<open>An index is a 32-bit unsigned integer.\<close>

definition word32 :: "nat \<Rightarrow> 32 word" where "word32 n = word_of_int (int n)"

definition dist_lowest :: fp where "dist_lowest = Fin (- 2)"

subsection \<open>One row of distances\<close>

fun scan_dist :: "int \<Rightarrow> fp \<times> int \<Rightarrow> fp list \<Rightarrow> fp \<times> int" where
  "scan_dist i ret [] = ret"
| "scan_dist i ret (d # dists) = scan_dist (i + 1) (if fgt d (fst ret) then (d, i) else ret) dists"

definition max_dist :: "kernel_env \<Rightarrow> fp list \<Rightarrow> fp \<times> int" where
  "max_dist env dists =
     (if 4 < length dists then
        (case maxNumbers env dists of (m, idx) \<Rightarrow> (if fgt m dist_lowest then m else dist_lowest, idx))
      else scan_dist 0 (dist_lowest, 0) dists)"

definition merge_to_row :: "kernel_env \<Rightarrow> nat \<Rightarrow> SCAMPThreadInfo \<Rightarrow> fp list \<Rightarrow> fp \<times> 32 word \<Rightarrow> fp \<times> 32 word" where
  "merge_to_row env row_iter info dists best =
     (case max_dist env dists of (d, idx) \<Rightarrow>
        if fgt d (fst best) then (d, word32 (nat idx + (global_col info + row_iter))) else best)"

fun merge_columns :: "32 word \<Rightarrow> nat \<Rightarrow> fp list \<Rightarrow> (fp \<times> 32 word) list \<Rightarrow> (fp \<times> 32 word) list" where
  "merge_columns row q [] best = best"
| "merge_columns row q (d # dists) best =
     merge_columns row (q + 1) dists (if fgt d (fst (best ! q)) then best[q := (d, row)] else best)"

definition merge_to_column ::
  "nat \<Rightarrow> SCAMPThreadInfo \<Rightarrow> (fp \<times> 32 word) list \<Rightarrow> fp list \<Rightarrow> (fp \<times> 32 word) list" where
  "merge_to_column row_iter info best dists =
     merge_columns (word32 (global_row info + row_iter)) row_iter dists best"

text \<open>The distances of a row, and the covariances of the next one, from the columns at offset \<open>k\<close> of the window.\<close>

definition distances :: "kernel_env \<Rightarrow> fp list \<Rightarrow> fp list \<Rightarrow> nat \<Rightarrow> fp \<Rightarrow> fp list" where
  "distances env cov inormc k inormr =
     map (\<lambda>i. fcast (rd_dist env) (fmul (rd_data env) (fmul (rd_data env) (cov ! i) (inormc ! (k + i))) inormr))
       [0..<length cov]"

definition advance :: "kernel_env \<Rightarrow> fp list \<Rightarrow> fp list \<Rightarrow> fp list \<Rightarrow> nat \<Rightarrow> fp \<Rightarrow> fp \<Rightarrow> fp list" where
  "advance env cov dfc dgc k dfr dgr =
     map (\<lambda>i. fadd (rd_data env)
                (fadd (rd_data env) (cov ! i) (fmul (rd_data env) (dfc ! (k + i)) dgr))
                (fmul (rd_data env) (dgc ! (k + i)) dfr))
       [0..<length cov]"

type_synonym window = "fp list \<times> fp list \<times> fp list"

type_synonym bests = "(fp \<times> 32 word) list"

definition do_row ::
  "geometry \<Rightarrow> kernel_env \<Rightarrow> SCAMPThreadInfo \<Rightarrow> nat \<Rightarrow> nat \<Rightarrow> window \<Rightarrow> fp \<times> fp \<times> fp
   \<Rightarrow> fp list \<times> bests \<times> bests \<Rightarrow> fp list \<times> bests \<times> bests" where
  "do_row p env info outer_row_iter row_iter win row st =
     (case (win, row, st) of ((dfc, dgc, inormc), (dfr, dgr, inormr), (cov, distc, distr)) \<Rightarrow>
        let dists = distances env cov inormc row_iter inormr in
        (advance env cov dfc dgc row_iter dfr dgr,
         if COMPUTE_COLS p then merge_to_column outer_row_iter info distc dists else distc,
         if COMPUTE_ROWS p then distr[outer_row_iter := merge_to_row env outer_row_iter info dists (distr ! outer_row_iter)]
         else distr))"

subsection \<open>Flushing registers to the shared profile\<close>

text \<open>\<open>update_cols\<close> and \<open>update_rows\<close>: read the elements, then update each that the read value is below.\<close>

definition flush :: "nat \<Rightarrow> nat \<Rightarrow> nat \<Rightarrow> bests \<Rightarrow> access list" where
  "flush base start n best =
     map (\<lambda>i. Load_value i (base + start + i)) [0..<n]
     @ map (\<lambda>i. Max_entry (base + i + start) (fst (best ! (i + start))) (snd (best ! (i + start))) (Above_loaded i)) [0..<n]"

definition update_cols :: "nat \<Rightarrow> nat \<Rightarrow> SCAMPThreadInfo \<Rightarrow> bests \<Rightarrow> access list" where
  "update_cols num_to_update start_index info distc = flush (local_col info) start_index num_to_update distc"

definition update_rows :: "geometry \<Rightarrow> nat \<Rightarrow> nat \<Rightarrow> SCAMPThreadInfo \<Rightarrow> bests \<Rightarrow> access list" where
  "update_rows p num_to_update row_iter info distr =
     flush (row_base p + local_row info) row_iter num_to_update distr"

subsection \<open>The fast path\<close>

definition nslice :: "'a list \<Rightarrow> nat \<Rightarrow> nat \<Rightarrow> 'a list option" where
  "nslice xs k n = aslice xs (int k) (int n)"

definition inner_unrolled_cols :: "geometry \<Rightarrow> nat" where
  "inner_unrolled_cols p = DiagsPerThread p + UnrolledRows p"

definition unrolled_cols :: "geometry \<Rightarrow> nat" where
  "unrolled_cols p = DiagsPerThread p + OuterUnrolledRows p - 1"

definition load_window :: "geometry \<Rightarrow> smem \<Rightarrow> SCAMPThreadInfo \<Rightarrow> window option" where
  "load_window p sm info = do {
     dfc \<leftarrow> nslice (df_col sm) (local_col info) (inner_unrolled_cols p);
     dgc \<leftarrow> nslice (dg_col sm) (local_col info) (inner_unrolled_cols p);
     inormc \<leftarrow> nslice (inorm_col sm) (local_col info) (inner_unrolled_cols p);
     Some (dfc, dgc, inormc) }"

definition slide_window :: "geometry \<Rightarrow> smem \<Rightarrow> SCAMPThreadInfo \<Rightarrow> nat \<Rightarrow> window \<Rightarrow> window option" where
  "slide_window p sm info j win = (case win of (dfc, dgc, inormc) \<Rightarrow>
     let off = local_col info + j * UnrolledRows p + (inner_unrolled_cols p - UnrolledRows p) in do {
       df \<leftarrow> nslice (df_col sm) off (UnrolledRows p);
       dg \<leftarrow> nslice (dg_col sm) off (UnrolledRows p);
       inorm \<leftarrow> nslice (inorm_col sm) off (UnrolledRows p);
       Some (drop (UnrolledRows p) dfc @ df, drop (UnrolledRows p) dgc @ dg, drop (UnrolledRows p) inormc @ inorm) })"

text \<open>The state of the outer loop: covariances, column bests and row bests; the window; the accesses so far.\<close>

type_synonym fast_state = "(fp list \<times> bests \<times> bests) \<times> window \<times> access list"

definition row_batch ::
  "geometry \<Rightarrow> kernel_env \<Rightarrow> smem \<Rightarrow> SCAMPThreadInfo \<Rightarrow> nat \<Rightarrow> fast_state \<Rightarrow> fast_state option" where
  "row_batch p env sm info j st = (case st of (regs, win, accs) \<Rightarrow> do {
     win' \<leftarrow> (if 0 < j then slide_window p sm info j win else Some win);
     dfr \<leftarrow> nslice (df_row sm) (local_row info + j * UnrolledRows p) (UnrolledRows p);
     dgr \<leftarrow> nslice (dg_row sm) (local_row info + j * UnrolledRows p) (UnrolledRows p);
     inormr \<leftarrow> nslice (inorm_row sm) (local_row info + j * UnrolledRows p) (UnrolledRows p);
     let regs' = fold (\<lambda>k. do_row p env info (j * UnrolledRows p + k) k win' (dfr ! k, dgr ! k, inormr ! k))
                   [0..<UnrolledRows p] regs;
     Some (regs', win', accs
       @ (if COMPUTE_COLS p then update_cols (UnrolledRows p) (j * UnrolledRows p) info (fst (snd regs')) else [])
       @ (if COMPUTE_ROWS p then update_rows p (UnrolledRows p) (j * UnrolledRows p) info (snd (snd regs')) else [])) })"

definition do_iteration_fast ::
  "geometry \<Rightarrow> kernel_env \<Rightarrow> smem \<Rightarrow> SCAMPThreadInfo \<Rightarrow> (SCAMPThreadInfo \<times> access list) option" where
  "do_iteration_fast p env sm info = do {
     win \<leftarrow> load_window p sm info;
     let distc = map (\<lambda>q. (dist_lowest, uninit env q)) [0..<unrolled_cols p];
     let distr = map (\<lambda>q. (dist_lowest, uninit env q)) [0..<OuterUnrolledRows p];
     ((cov, distc', _), _, accs) \<leftarrow>
       forlist (row_batch p env sm info) [0..<OuterUnrolledRows p div UnrolledRows p] ((g_cov info, distc, distr), win, []);
     let tail = (if COMPUTE_COLS p
                 then update_cols (unrolled_cols p - OuterUnrolledRows p) (OuterUnrolledRows p) info distc' else []);
     Some (info\<lparr>g_cov := cov, local_row := local_row info + OuterUnrolledRows p,
                local_col := local_col info + OuterUnrolledRows p,
                global_row := global_row info + OuterUnrolledRows p,
                global_col := global_col info + OuterUnrolledRows p\<rparr>, accs @ tail) }"

text \<open>The loop over a tile; it would not end if no row was unrolled.\<close>

function fast_path ::
  "geometry \<Rightarrow> kernel_env \<Rightarrow> smem \<Rightarrow> SCAMPThreadInfo \<Rightarrow> access list \<Rightarrow> (SCAMPThreadInfo \<times> access list) option" where
  "fast_path p env sm info accs =
     (if tile_rows p \<le> local_row info then Some (info, accs)
      else case do_iteration_fast p env sm info of None \<Rightarrow> None
        | Some (info', as) \<Rightarrow>
            if local_row info < local_row info' then fast_path p env sm info' (accs @ as) else None)"
  by pat_completeness auto
termination by (relation "measure (\<lambda>(p, env, sm, info, accs). tile_rows p - local_row info)") auto

declare fast_path.simps [simp del]

subsection \<open>The slow path\<close>

definition reduce_edge ::
  "geometry \<Rightarrow> nat \<Rightarrow> SCAMPThreadInfo \<Rightarrow> fp list \<Rightarrow> nat \<Rightarrow> nat \<Rightarrow> nat
   \<Rightarrow> (fp \<times> 32 word) \<times> access list \<Rightarrow> (fp \<times> 32 word) \<times> access list" where
  "reduce_edge p n_x info dists diag n_diags iter st = (case st of (row, accs) \<Rightarrow>
     if global_col info + iter < n_x \<and> diag + iter < n_diags then
       (if COMPUTE_ROWS p \<and> fgt (dists ! iter) (fst row)
        then (dists ! iter, word32 (global_col info + iter)) else row,
        if COMPUTE_COLS p
        then accs @ [Max_entry (local_col info + iter) (dists ! iter) (word32 (global_row info)) Always] else accs)
     else st)"

definition reduce_row :: "geometry \<Rightarrow> SCAMPThreadInfo \<Rightarrow> fp \<times> 32 word \<Rightarrow> access list" where
  "reduce_row p info row = [Max_entry (row_base p + local_row info) (fst row) (snd row) (Above dist_lowest)]"

definition do_row_edge ::
  "geometry \<Rightarrow> kernel_env \<Rightarrow> nat \<Rightarrow> smem \<Rightarrow> SCAMPThreadInfo \<Rightarrow> nat \<Rightarrow> nat \<Rightarrow> (SCAMPThreadInfo \<times> access list) option" where
  "do_row_edge p env n_x sm info diag n_diags = do {
     inormr \<leftarrow> aget (inorm_row sm) (int (local_row info));
     dgr \<leftarrow> aget (dg_row sm) (int (local_row info));
     dfr \<leftarrow> aget (df_row sm) (int (local_row info));
     inormc \<leftarrow> nslice (inorm_col sm) (local_col info) (DiagsPerThread p);
     dfc \<leftarrow> nslice (df_col sm) (local_col info) (DiagsPerThread p);
     dgc \<leftarrow> nslice (dg_col sm) (local_col info) (DiagsPerThread p);
     let dists = distances env (g_cov info) inormc 0 inormr;
     let (row, accs) = fold (reduce_edge p n_x info dists diag n_diags) [0..<DiagsPerThread p] ((dist_lowest, 0), []);
     Some (info\<lparr>g_cov := advance env (g_cov info) dfc dgc 0 dfr dgr\<rparr>,
       accs @ (if COMPUTE_ROWS p then reduce_row p info row else [])) }"

definition next_row :: "SCAMPThreadInfo \<Rightarrow> SCAMPThreadInfo" where
  "next_row info = info\<lparr>local_row := local_row info + 1, local_col := local_col info + 1,
     global_row := global_row info + 1, global_col := global_col info + 1\<rparr>"

function slow_path ::
  "geometry \<Rightarrow> kernel_env \<Rightarrow> nat \<Rightarrow> nat \<Rightarrow> smem \<Rightarrow> nat \<Rightarrow> nat \<Rightarrow> SCAMPThreadInfo \<Rightarrow> access list
   \<Rightarrow> (SCAMPThreadInfo \<times> access list) option" where
  "slow_path p env n_x n_y sm diag n_diags info accs =
     (if global_col info < n_x \<and> global_row info < n_y \<and> local_row info < tile_rows p then
        case do_row_edge p env n_x sm info diag n_diags of None \<Rightarrow> None
        | Some (info', as) \<Rightarrow>
            slow_path p env n_x n_y sm diag n_diags (next_row (info\<lparr>g_cov := g_cov info'\<rparr>)) (accs @ as)
      else Some (info, accs))"
  by pat_completeness auto
termination
  by (relation "measure (\<lambda>(p, env, n_x, n_y, sm, diag, n_diags, info, accs). tile_rows p - local_row info)")
    (auto simp: next_row_def)

declare slow_path.simps [simp del]

subsection \<open>Copying to and from shared memory\<close>

text \<open>The positions one thread copies, local and global.\<close>

function positions :: "nat \<Rightarrow> nat \<Rightarrow> nat \<Rightarrow> nat \<Rightarrow> nat \<Rightarrow> (nat \<times> nat) list" where
  "positions bsz local_position global_position n_local n_global =
     (if 0 < bsz \<and> local_position < n_local \<and> global_position < n_global
      then (local_position, global_position)
        # positions bsz (local_position + bsz) (global_position + bsz) n_local n_global
      else [])"
  by pat_completeness auto
termination by (relation "measure (\<lambda>(bsz, l, g, n, m). n - l)") auto

declare positions.simps [simp del]

definition copy_thread :: "geometry \<Rightarrow> ('a \<Rightarrow> 'b) \<Rightarrow> 'a list \<Rightarrow> nat \<Rightarrow> nat \<Rightarrow> nat \<Rightarrow> nat \<Rightarrow> 'b list \<Rightarrow> 'b list option" where
  "copy_thread p f src start n_local n_global threadIdx dst =
     forlist (\<lambda>(l, g) dst. do { v \<leftarrow> aget src (int g); aset dst (int l) (f v) })
       (positions (BLOCKSZ p) threadIdx (start + threadIdx) n_local n_global) dst"

text \<open>All threads of the block; they write different elements, so their order does not matter.\<close>

definition copy_region :: "geometry \<Rightarrow> ('a \<Rightarrow> 'b) \<Rightarrow> 'a list \<Rightarrow> nat \<Rightarrow> nat \<Rightarrow> nat \<Rightarrow> 'b list \<Rightarrow> 'b list option" where
  "copy_region p f src start n_local n_global dst =
     forlist (copy_thread p f src start n_local n_global) [0..<BLOCKSZ p] dst"

definition init_smem_data ::
  "geometry \<Rightarrow> kernel_env \<Rightarrow> KernelArgs \<Rightarrow> nat \<Rightarrow> nat \<Rightarrow> smem \<Rightarrow> smem option" where
  "init_smem_data p env args col_start row_start sm =
     (let n_x = nat (k_n_x args); n_y = nat (k_n_y args);
          cols = (\<lambda>src. copy_region p (fcast (rd_data env)) src col_start (tile_width p) n_x);
          rows = (\<lambda>src. copy_region p (fcast (rd_data env)) src row_start (tile_rows p) n_y) in do {
       dgc \<leftarrow> cols (k_dga args) (dg_col sm);
       dfc \<leftarrow> cols (k_dfa args) (df_col sm);
       inormc \<leftarrow> cols (k_normsa args) (inorm_col sm);
       dgr \<leftarrow> rows (k_dgb args) (dg_row sm);
       dfr \<leftarrow> rows (k_dfb args) (df_row sm);
       inormr \<leftarrow> rows (k_normsb args) (inorm_row sm);
       Some \<lparr>df_col = dfc, dg_col = dgc, inorm_col = inormc, df_row = dfr, dg_row = dgr, inorm_row = inormr\<rparr> })"

text \<open>\<open>dynamic_initializer\<close>: the shared profile starts with the entries the threads read from the global one.\<close>

definition init_smem_profile ::
  "geometry \<Rightarrow> KernelArgs \<Rightarrow> nat \<Rightarrow> nat \<Rightarrow> mp_entry list \<Rightarrow> mp_entry list \<Rightarrow> mp_entry list \<Rightarrow> mp_entry list option" where
  "init_smem_profile p args col_start row_start read_a read_b local_mp = do {
     col \<leftarrow> (if COMPUTE_COLS p
            then copy_region p id read_a col_start (tile_width p) (nat (k_n_x args)) (take (row_base p) local_mp) else Some []);
     row \<leftarrow> (if COMPUTE_ROWS p
            then copy_region p id read_b row_start (tile_rows p) (nat (k_n_y args)) (drop (row_base p) local_mp) else Some []);
     Some (col @ row) }"

text \<open>
  \<open>write_back\<close> of one thread: the updates of the global profiles with the entries of the shared one. The global
  memory is \<open>profile_A\<close>, \<open>n_a\<close> elements, followed by \<open>profile_B\<close>.
\<close>

definition write_back_value :: "nat \<Rightarrow> mp_entry \<Rightarrow> access" where
  "write_back_value g e = Max_entry g (floats0 e) (ints1 e) Always"

definition write_back ::
  "geometry \<Rightarrow> nat \<Rightarrow> nat \<Rightarrow> nat \<Rightarrow> nat \<Rightarrow> nat \<Rightarrow> mp_entry list \<Rightarrow> nat \<Rightarrow> access list" where
  "write_back p n_a n_x n_y tile_start_x tile_start_y local_mp threadIdx =
     (if COMPUTE_COLS p
      then map (\<lambda>(l, g). write_back_value g (local_mp ! l))
             (positions (BLOCKSZ p) threadIdx (tile_start_x + threadIdx) (tile_width p) n_x) else [])
     @ (if COMPUTE_ROWS p
        then map (\<lambda>(l, g). write_back_value (n_a + g) (local_mp ! (row_base p + l)))
               (positions (BLOCKSZ p) threadIdx (tile_start_y + threadIdx) (tile_rows p) n_y) else [])"

subsection \<open>The tiles of a block\<close>

record tile_block =
  blockIdx :: nat
  tile_start_col :: nat
  tile_start_row :: nat
  local_mp :: "mp_entry list"

record block = tile_block +
  threads :: "SCAMPThreadInfo list"
  shared :: smem

definition start_diag :: "geometry \<Rightarrow> KernelArgs \<Rightarrow> nat \<Rightarrow> nat \<Rightarrow> nat" where
  "start_diag p args b t =
     nat (k_exclusion_lower args) + t * DiagsPerThread p + b * (BLOCKSZ p * DiagsPerThread p)"

definition num_diags_gpu :: "KernelArgs \<Rightarrow> nat" where
  "num_diags_gpu args = nat (u32 (k_n_x args - k_exclusion_upper args + 1))"

text \<open>The first covariances; a register of a diagonal outside the tile keeps what it had.\<close>

definition init_thread :: "geometry \<Rightarrow> kernel_env \<Rightarrow> KernelArgs \<Rightarrow> fp list \<Rightarrow> nat \<Rightarrow> fp list \<Rightarrow> nat \<Rightarrow> SCAMPThreadInfo" where
  "init_thread p env args cov b regs t =
     (let c = nat (k_exclusion_lower args) + b * (BLOCKSZ p * DiagsPerThread p) + t * DiagsPerThread p in
      \<lparr>g_cov = map (\<lambda>i. if c + i < nat (k_n_x args) then fcast (rd_data env) (cov ! (c + i)) else regs ! i) [0..<DiagsPerThread p],
       local_row = 0, local_col = 0, global_row = 0, global_col = c\<rparr>)"

definition init_block :: "geometry \<Rightarrow> kernel_env \<Rightarrow> KernelArgs \<Rightarrow> fp list \<Rightarrow> fp list \<Rightarrow> smem \<Rightarrow> mp_entry list \<Rightarrow> nat \<Rightarrow> block" where
  "init_block p env args cov regs sm mp b =
     \<lparr>blockIdx = b, tile_start_col = b * (BLOCKSZ p * DiagsPerThread p) + nat (k_exclusion_lower args),
      tile_start_row = 0, local_mp = mp, threads = map (init_thread p env args cov b regs) [0..<BLOCKSZ p], shared = sm\<rparr>"

definition has_tile :: "KernelArgs \<Rightarrow> 'a tile_block_scheme \<Rightarrow> bool" where
  "has_tile args B \<longleftrightarrow> tile_start_col B < nat (k_n_x args) \<and> tile_start_row B < nat (k_n_y args)"

definition thread_tile ::
  "geometry \<Rightarrow> kernel_env \<Rightarrow> KernelArgs \<Rightarrow> block \<Rightarrow> smem \<Rightarrow> nat \<Rightarrow> (SCAMPThreadInfo \<times> access list) option" where
  "thread_tile p env args B sm t =
     (let n_x = nat (k_n_x args); n_y = nat (k_n_y args); sd = start_diag p args (blockIdx B) t;
          info = (threads B ! t)\<lparr>local_col := t * DiagsPerThread p, local_row := 0\<rparr> in
      if tile_start_col B + tile_width p < n_x \<and> tile_start_row B + tile_rows p < n_y
         \<and> sd + DiagsPerThread p \<le> num_diags_gpu args
      then fast_path p env sm info []
      else if sd < num_diags_gpu args then slow_path p env n_x n_y sm sd (num_diags_gpu args) info []
      else Some (info, []))"

text \<open>The passes of all threads; \<open>None\<close> if one of them leaves an array.\<close>

definition block_passes ::
  "geometry \<Rightarrow> kernel_env \<Rightarrow> KernelArgs \<Rightarrow> block \<Rightarrow> smem \<Rightarrow> (SCAMPThreadInfo \<times> access list) list option" where
  "block_passes p env args B sm =
     forlist (\<lambda>t acc. map_option (\<lambda>r. acc @ [r]) (thread_tile p env args B sm t)) [0..<BLOCKSZ p] []"

text \<open>
  One round of the loop of \<open>do_tile\<close>: \<open>read_a\<close> and \<open>read_b\<close> are what the threads read from the global profiles,
  \<open>schedule\<close> the interleaving of the threads between the two barriers, which no thread passes before all have
  arrived. The result has the updates of the global profiles of each thread.
\<close>

definition block_tile ::
  "geometry \<Rightarrow> kernel_env \<Rightarrow> KernelArgs \<Rightarrow> nat \<Rightarrow> mp_entry list \<Rightarrow> mp_entry list \<Rightarrow> (nat \<Rightarrow> nat list) \<Rightarrow> block
   \<Rightarrow> (block \<times> access list list) option" where
  "block_tile p env args n_a read_a read_b schedule B = do {
     sm \<leftarrow> init_smem_data p env args (tile_start_col B) (tile_start_row B) (shared B);
     mp \<leftarrow> init_smem_profile p args (tile_start_col B) (tile_start_row B) read_a read_b (local_mp B);
     passes \<leftarrow> block_passes p env args B sm;
     let progs = map snd passes;
     let (ts, mp') = run_threads (schedule (step_bound progs (length mp))) progs mp;
     if list_all (\<lambda>t. accesses t = [] \<and> \<not> faulted t) ts then
       Some (B\<lparr>threads := map fst passes, tile_start_col := tile_start_col B + tile_rows p,
               tile_start_row := tile_start_row B + tile_rows p, shared := sm, local_mp := mp'\<rparr>,
             map (write_back p n_a (nat (k_n_x args)) (nat (k_n_y args)) (tile_start_col B) (tile_start_row B) mp')
               [0..<BLOCKSZ p])
     else None }"

end
