(* ===== verification/GpuShfl.thy ===== *)
theory GpuShfl
  imports GpuKernel
begin

text \<open>
  The shuffle kernel of the GPU for \<open>1NN_INDEX\<close>: kernels_compute_shfl.h and kernels_impl_shfl.h of
  src/core/gpu_kernel. The threads of a block own slots of columns, which rotate as the block walks down its
  diagonals; a covariance moves from slot to slot, between the lanes of a warp by a shuffle and from a warp to the
  next through shared memory, in one of two halves that alternate from row to row.

  All lanes of a warp run a row together. The warps of a block meet at a barrier in every row; between two barriers
  a warp reads one half of the hand-off and writes the other, so a row is modelled as the rows of its warps one
  after the other, in any order. As in \<open>GpuKernel\<close> positions are natural numbers; a difference of
  two columns wraps like \<open>uint32_t\<close>.
\<close>

subsection \<open>Registers and shared memory\<close>

text \<open>\<open>distc\<close> and \<open>idxc\<close> are the pairs of \<open>s_best\<close>.\<close>

record shfl_state =
  s_cov :: "fp list"
  s_dfc :: "fp list"
  s_dgc :: "fp list"
  s_inormc :: "fp list"
  s_best :: bests
  updates_remaining :: int
  warpln :: nat
  warpid :: nat
  srcln :: nat
  s_global_col :: "nat list"
  s_local_col :: "nat list"

record shfl_smem =
  r_df :: "fp list"
  r_dg :: "fp list"
  r_inorm :: "fp list"

definition block_cols :: "geometry \<Rightarrow> nat" where
  "block_cols p = BLOCKSZ p * DiagsPerThread p"

definition warps_per_block :: "geometry \<Rightarrow> nat" where
  "warps_per_block p = BLOCKSZ p div 32"

subsection \<open>The rotation of a slot\<close>

text \<open>The column data of a slot at \<open>pos\<close>: unguarded in the fast path, zero outside the matrix in the slow one.\<close>

definition load_column :: "kernel_env \<Rightarrow> KernelArgs \<Rightarrow> bool \<Rightarrow> nat \<Rightarrow> (fp \<times> fp \<times> fp) option" where
  "load_column env args fast pos =
     (if fast \<or> pos < nat (k_n_x args) then do {
        df \<leftarrow> aget (k_dfa args) (int pos);
        dg \<leftarrow> aget (k_dga args) (int pos);
        inorm \<leftarrow> aget (k_normsa args) (int pos);
        Some (fcast (rd_data env) df, fcast (rd_data env) dg, fcast (rd_data env) inorm) }
      else Some (Fin 0, Fin 0, Fin 0))"

definition update_info_shfl ::
  "geometry \<Rightarrow> kernel_env \<Rightarrow> KernelArgs \<Rightarrow> bool \<Rightarrow> nat \<Rightarrow> shfl_state \<Rightarrow> (shfl_state \<times> access list) option" where
  "update_info_shfl p env args fast updates st =
     (let i = DiagsPerThread p - 1 - updates; best = s_best st ! i; pos = s_global_col st ! i + block_cols p in do {
       (df, dg, inorm) \<leftarrow> load_column env args fast pos;
       Some (st\<lparr>s_dfc := (s_dfc st)[i := df], s_dgc := (s_dgc st)[i := dg], s_inormc := (s_inormc st)[i := inorm],
               s_best := (s_best st)[i := (dist_lowest, 0)],
               s_global_col := (s_global_col st)[i := s_global_col st ! i + block_cols p],
               s_local_col := (s_local_col st)[i := s_local_col st ! i + block_cols p],
               updates_remaining := (if updates = 0 then int (block_cols p) else updates_remaining st)\<rparr>,
             if COMPUTE_COLS p then [Max_entry (s_local_col st ! i) (fst best) (snd best) Always] else []) })"

text \<open>The dispatch has cases for 7 down to 0, each only if it is below \<open>DPT\<close>.\<close>

definition do_update_info_shfl ::
  "geometry \<Rightarrow> kernel_env \<Rightarrow> KernelArgs \<Rightarrow> bool \<Rightarrow> shfl_state \<Rightarrow> (shfl_state \<times> access list) option" where
  "do_update_info_shfl p env args fast st =
     (let u = updates_remaining st in
      if 0 \<le> u \<and> u \<le> 7 \<and> u < int (DiagsPerThread p) then update_info_shfl p env args fast (nat u) st else Some (st, []))"

subsection \<open>A row of a lane\<close>

text \<open>Every lane reads the hand-off of the warp before; lane 0 takes it.\<close>

definition take_handoff :: "geometry \<Rightarrow> nat \<Rightarrow> nat \<Rightarrow> fp list \<Rightarrow> shfl_state \<Rightarrow> shfl_state option" where
  "take_handoff p row_in_tile abs_row handoff st =
     (if 0 < abs_row then do {
        cross_warp_in \<leftarrow> aget handoff (int (row_in_tile mod 2 * warps_per_block p
          + (warpid st + warps_per_block p - 1) mod warps_per_block p));
        Some (if warpln st = 0 then st\<lparr>s_cov := (s_cov st)[0 := cross_warp_in]\<rparr> else st) }
      else Some st)"

definition usub32 :: "nat \<Rightarrow> nat \<Rightarrow> nat" where
  "usub32 a b = (if b \<le> a then a - b else a + 2 ^ 32 - b)"

lemma usub32_le [simp]: "b \<le> a \<Longrightarrow> usub32 a b = a - b"
  by (simp add: usub32_def)

definition slot_valid :: "geometry \<Rightarrow> KernelArgs \<Rightarrow> bool \<Rightarrow> nat \<Rightarrow> nat \<Rightarrow> shfl_state \<Rightarrow> nat \<Rightarrow> bool" where
  "slot_valid p args fast row_in_tile abs_row st i \<longleftrightarrow>
     row_in_tile \<le> s_local_col st ! i \<and> s_local_col st ! i - row_in_tile < block_cols p
     \<and> (fast \<or> abs_row < nat (k_n_y args) \<and> s_global_col st ! i < nat (k_n_x args)
          \<and> usub32 (s_global_col st ! i) abs_row < num_diags_gpu args)"

text \<open>The distances of a row, the lowest where the slot is not valid; the covariances are those of the next row.\<close>

definition lane_row ::
  "geometry \<Rightarrow> kernel_env \<Rightarrow> KernelArgs \<Rightarrow> bool \<Rightarrow> nat \<Rightarrow> nat \<Rightarrow> shfl_smem \<Rightarrow> fp list \<Rightarrow> shfl_state
   \<Rightarrow> (shfl_state \<times> fp list) option" where
  "lane_row p env args fast row_in_tile abs_row sm handoff st0 = do {
     st \<leftarrow> take_handoff p row_in_tile abs_row handoff st0;
     dfr \<leftarrow> aget (r_df sm) (int row_in_tile);
     dgr \<leftarrow> aget (r_dg sm) (int row_in_tile);
     inormr \<leftarrow> aget (r_inorm sm) (int row_in_tile);
     let d_raw = distances env (s_cov st) (s_inormc st) 0 inormr;
     Some (st\<lparr>s_cov := advance env (s_cov st) (s_dfc st) (s_dgc st) 0 dfr dgr\<rparr>,
       map (\<lambda>i. if slot_valid p args fast row_in_tile abs_row st i then d_raw ! i else dist_lowest)
         [0..<DiagsPerThread p]) }"

definition merge_to_row_shfl_lane :: "nat list \<Rightarrow> fp list \<Rightarrow> fp \<times> 32 word" where
  "merge_to_row_shfl_lane cols dists =
     fold (\<lambda>i best. if fgt (dists ! i) (fst best) then (dists ! i, word32 (cols ! i)) else best)
       [0..<length dists] (dist_lowest, 0)"

text \<open>The rest of a row: the column bests, the shift of the covariances with \<open>wrap_in\<close>, the rotation.\<close>

definition lane_finish ::
  "geometry \<Rightarrow> kernel_env \<Rightarrow> KernelArgs \<Rightarrow> bool \<Rightarrow> nat \<Rightarrow> fp \<Rightarrow> shfl_state \<times> fp list \<Rightarrow> (shfl_state \<times> access list) option" where
  "lane_finish p env args fast abs_row wrap_in r = (case r of (st, dists) \<Rightarrow>
     let st1 = st\<lparr>s_best := (if COMPUTE_COLS p then merge_columns (word32 abs_row) 0 dists (s_best st) else s_best st),
                  s_cov := wrap_in # butlast (s_cov st)\<rparr> in do {
       (st2, as) \<leftarrow> (if updates_remaining st1 < int (DiagsPerThread p) then do_update_info_shfl p env args fast st1
                     else Some (st1, []));
       Some (st2\<lparr>updates_remaining := updates_remaining st2 - 1\<rparr>, as) })"

subsection \<open>A row of a warp\<close>

text \<open>\<open>__shfl_down_sync\<close>: a lane past the end gets its own value.\<close>

definition shfl_down :: "nat \<Rightarrow> 'a list \<Rightarrow> 'a list" where
  "shfl_down delta xs = map (\<lambda>i. if i + delta < length xs then xs ! (i + delta) else xs ! i) [0..<length xs]"

definition reduce_step :: "nat \<Rightarrow> bests \<Rightarrow> bests" where
  "reduce_step delta xs = map2 (\<lambda>other mine. if fgt (fst other) (fst mine) then other else mine) (shfl_down delta xs) xs"

definition warp_reduce :: "bests \<Rightarrow> bests" where
  "warp_reduce xs = fold reduce_step [16, 8, 4, 2, 1] xs"

text \<open>Lane 31 writes the half of the hand-off that the next row reads.\<close>

definition publish :: "geometry \<Rightarrow> nat \<Rightarrow> shfl_state \<Rightarrow> fp list \<Rightarrow> fp list option" where
  "publish p row_in_tile st handoff =
     (if warpln st = 31 then
        aset handoff (int ((1 - row_in_tile mod 2) * warps_per_block p + warpid st)) (s_cov st ! (DiagsPerThread p - 1))
      else Some handoff)"

definition warp_row ::
  "geometry \<Rightarrow> kernel_env \<Rightarrow> KernelArgs \<Rightarrow> bool \<Rightarrow> nat \<Rightarrow> nat \<Rightarrow> shfl_smem \<Rightarrow> fp list \<Rightarrow> shfl_state list
   \<Rightarrow> ((shfl_state \<times> access list) list \<times> fp list) option" where
  "warp_row p env args fast row_in_tile abs_row sm handoff sts = do {
     lanes \<leftarrow> those (map (lane_row p env args fast row_in_tile abs_row sm handoff) sts);
     handoff' \<leftarrow> forlist (publish p row_in_tile) (map fst lanes) handoff;
     let row = warp_reduce (map (\<lambda>(st, dists). merge_to_row_shfl_lane (s_global_col st) dists) lanes) ! 0;
     let flush_row = (\<lambda>st. if COMPUTE_ROWS p \<and> warpln st = 0
                           then [Max_entry (row_base p + row_in_tile) (fst row) (snd row) Always] else []);
     lanes' \<leftarrow> those (map (\<lambda>(st, dists). map_option (\<lambda>(st', as). (st', flush_row st @ as))
                (lane_finish p env args fast abs_row (s_cov (fst (lanes ! srcln st)) ! (DiagsPerThread p - 1)) (st, dists))) lanes);
     Some (lanes', handoff') }"

subsection \<open>A tile\<close>

text \<open>The warps with the accesses their lanes have made, and the hand-off.\<close>

type_synonym shfl_pass = "(shfl_state \<times> access list) list list \<times> fp list"

definition do_row_shfl ::
  "geometry \<Rightarrow> kernel_env \<Rightarrow> KernelArgs \<Rightarrow> bool \<Rightarrow> nat \<Rightarrow> shfl_smem \<Rightarrow> nat \<Rightarrow> nat \<Rightarrow> shfl_pass \<Rightarrow> shfl_pass option" where
  "do_row_shfl p env args fast tsr sm row_in_tile w st = (case st of (warps, handoff) \<Rightarrow> do {
     lanes \<leftarrow> aget warps (int w);
     (lanes', handoff') \<leftarrow> warp_row p env args fast row_in_tile (tsr + row_in_tile) sm handoff (map fst lanes);
     Some (warps[w := map2 (\<lambda>(_, accs) (st', as). (st', accs @ as)) lanes lanes'], handoff') })"

definition tile_rows_shfl ::
  "geometry \<Rightarrow> kernel_env \<Rightarrow> KernelArgs \<Rightarrow> bool \<Rightarrow> nat \<Rightarrow> shfl_smem \<Rightarrow> (nat \<Rightarrow> nat list) \<Rightarrow> shfl_pass \<Rightarrow> shfl_pass option" where
  "tile_rows_shfl p env args fast tsr sm order =
     forlist (\<lambda>r. forlist (do_row_shfl p env args fast tsr sm r) (order r)) [0..<tile_rows p]"

definition flush_all_cols_to_smem :: "geometry \<Rightarrow> shfl_state \<Rightarrow> access list" where
  "flush_all_cols_to_smem p st =
     map (\<lambda>i. Max_entry (s_local_col st ! i) (fst (s_best st ! i)) (snd (s_best st ! i)) Always) [0..<DiagsPerThread p]"

record shfl_block = tile_block +
  warps :: "shfl_state list list"
  shfl_shared :: shfl_smem
  cov_handoff :: "fp list"

definition init_lane :: "geometry \<Rightarrow> kernel_env \<Rightarrow> KernelArgs \<Rightarrow> fp list \<Rightarrow> nat \<Rightarrow> nat \<Rightarrow> shfl_state" where
  "init_lane p env args cov b t =
     (let c = b * block_cols p + nat (k_exclusion_lower args) + t * DiagsPerThread p;
          load = (\<lambda>src. map (\<lambda>i. if c + i < nat (k_n_x args) then fcast (rd_data env) (src ! (c + i)) else Fin 0)
                   [0..<DiagsPerThread p]) in
      \<lparr>s_cov = load cov, s_dfc = load (k_dfa args), s_dgc = load (k_dga args), s_inormc = load (k_normsa args),
       s_best = replicate (DiagsPerThread p) (dist_lowest, 0),
       updates_remaining = int (t * DiagsPerThread p) + (int (DiagsPerThread p) - 1),
       warpln = t mod 32, warpid = t div 32, srcln = (t mod 32 + 31) mod 32,
       s_global_col = map (\<lambda>i. c + i) [0..<DiagsPerThread p],
       s_local_col = map (\<lambda>i. t * DiagsPerThread p + i) [0..<DiagsPerThread p]\<rparr>)"

definition init_shfl_block ::
  "geometry \<Rightarrow> kernel_env \<Rightarrow> KernelArgs \<Rightarrow> fp list \<Rightarrow> shfl_smem \<Rightarrow> fp list \<Rightarrow> mp_entry list \<Rightarrow> nat \<Rightarrow> shfl_block" where
  "init_shfl_block p env args cov sm handoff mp b =
     \<lparr>blockIdx = b, tile_start_col = b * block_cols p + nat (k_exclusion_lower args), tile_start_row = 0, local_mp = mp,
      warps = map (\<lambda>w. map (\<lambda>l. init_lane p env args cov b (32 * w + l)) [0..<32]) [0..<warps_per_block p],
      shfl_shared = sm, cov_handoff = handoff\<rparr>"

definition init_shfl_rows :: "geometry \<Rightarrow> kernel_env \<Rightarrow> KernelArgs \<Rightarrow> nat \<Rightarrow> shfl_smem \<Rightarrow> shfl_smem option" where
  "init_shfl_rows p env args row_start sm =
     (let rows = (\<lambda>src. copy_region p (fcast (rd_data env)) src row_start (tile_rows p) (nat (k_n_y args))) in do {
       dgr \<leftarrow> rows (k_dgb args) (r_dg sm);
       dfr \<leftarrow> rows (k_dfb args) (r_df sm);
       inormr \<leftarrow> rows (k_normsb args) (r_inorm sm);
       Some \<lparr>r_df = dfr, r_dg = dgr, r_inorm = inormr\<rparr> })"

definition start_lane :: "geometry \<Rightarrow> nat \<Rightarrow> shfl_state \<Rightarrow> shfl_state" where
  "start_lane p tsc st = st\<lparr>s_local_col := map (\<lambda>c. usub32 c tsc) (s_global_col st),
     s_best := replicate (DiagsPerThread p) (dist_lowest, 0)\<rparr>"

definition fast_shfl :: "geometry \<Rightarrow> KernelArgs \<Rightarrow> nat \<Rightarrow> nat \<Rightarrow> bool" where
  "fast_shfl p args tsc tsr \<longleftrightarrow> tsc + tile_width p < nat (k_n_x args) \<and> tsr + tile_rows p < nat (k_n_y args)
     \<and> tsc + block_cols p \<le> num_diags_gpu args \<and> k_exclusion_upper args + int (tile_rows p) \<le> int tsc"

text \<open>
  One round of the loop of \<open>do_tile_shfl\<close>. The choice is the order of the warps in each row and the interleaving of
  the accesses to the shared profile.
\<close>

record shfl_choice =
  warp_order :: "nat \<Rightarrow> nat list"
  step_order :: "nat \<Rightarrow> nat list"

definition block_tile_shfl ::
  "geometry \<Rightarrow> kernel_env \<Rightarrow> KernelArgs \<Rightarrow> nat \<Rightarrow> mp_entry list \<Rightarrow> mp_entry list \<Rightarrow> shfl_choice \<Rightarrow> shfl_block
   \<Rightarrow> (shfl_block \<times> access list list) option" where
  "block_tile_shfl p env args n_a read_a read_b ch B =
     (let tsc = tile_start_col B; tsr = tile_start_row B in do {
       sm \<leftarrow> init_shfl_rows p env args tsr (shfl_shared B);
       mp \<leftarrow> init_smem_profile p args tsc tsr read_a read_b (local_mp B);
       (lanes, handoff) \<leftarrow> tile_rows_shfl p env args (fast_shfl p args tsc tsr) tsr sm (warp_order ch)
         (map (map (\<lambda>st. (start_lane p tsc st, []))) (warps B), cov_handoff B);
       let progs = map (\<lambda>(st, accs). accs @ (if COMPUTE_COLS p then flush_all_cols_to_smem p st else [])) (concat lanes);
       let (ts, mp') = run_threads (step_order ch (step_bound progs (length mp))) progs mp;
       if list_all (\<lambda>t. accesses t = [] \<and> \<not> faulted t) ts then
         Some (B\<lparr>warps := map (map fst) lanes, tile_start_col := tsc + tile_rows p, tile_start_row := tsr + tile_rows p,
                 shfl_shared := sm, cov_handoff := handoff, local_mp := mp'\<rparr>,
               map (write_back p n_a (nat (k_n_x args)) (nat (k_n_y args)) tsc tsr mp') [0..<BLOCKSZ p])
       else None })"

end
