(* ===== verification/GpuFast.thy ===== *)
theory GpuFast
  imports GpuKernel
begin

text \<open>
  A thread of the sliding-window kernel against its specification: the correlation of each cell by the
  recurrence along its diagonal, and the updates of the shared profile the cells of a pass stand for. The fast
  path keeps the best of a column or row in registers and flushes a batch at a time; \<open>covers\<close> says that its
  accesses offer nothing but the cells' values and, for every cell, a value not below it.
\<close>

subsection \<open>The correlation of a cell\<close>

primrec gpu_cov :: "rounding \<Rightarrow> KernelArgs \<Rightarrow> fp list \<Rightarrow> nat \<Rightarrow> nat \<Rightarrow> fp" where
  "gpu_cov rd args cov d 0 = fcast rd (cov ! d)"
| "gpu_cov rd args cov d (Suc r) =
     fadd rd (fadd rd (gpu_cov rd args cov d r) (fmul rd (fcast rd (k_dfa args ! (d + r))) (fcast rd (k_dgb args ! r))))
       (fmul rd (fcast rd (k_dga args ! (d + r))) (fcast rd (k_dfb args ! r)))"

definition gpu_corr :: "kernel_env \<Rightarrow> KernelArgs \<Rightarrow> fp list \<Rightarrow> nat \<Rightarrow> nat \<Rightarrow> fp" where
  "gpu_corr env args cov r c = fcast (rd_dist env)
     (fmul (rd_data env) (fmul (rd_data env) (gpu_cov (rd_data env) args cov (c - r) r) (fcast (rd_data env) (k_normsa args ! c)))
       (fcast (rd_data env) (k_normsb args ! r)))"

lemma distances_nth:
  assumes "i < length cov" "cov ! i = gpu_cov (rd_data env) args cov0 (D + i) r"
    and "inormc ! (k + i) = fcast (rd_data env) (k_normsa args ! (D + i + r))" "inormr = fcast (rd_data env) (k_normsb args ! r)"
  shows "distances env cov inormc k inormr ! i = gpu_corr env args cov0 r (D + i + r)"
  using assms by (simp add: distances_def gpu_corr_def)

lemma advance_nth:
  assumes "i < length cov" "cov ! i = gpu_cov (rd_data env) args cov0 (D + i) r"
    and "dfc ! (k + i) = fcast (rd_data env) (k_dfa args ! (D + i + r))" "dfr = fcast (rd_data env) (k_dfb args ! r)"
    and "dgc ! (k + i) = fcast (rd_data env) (k_dga args ! (D + i + r))" "dgr = fcast (rd_data env) (k_dgb args ! r)"
  shows "advance env cov dfc dgc k dfr dgr ! i = gpu_cov (rd_data env) args cov0 (D + i) (Suc r)"
  using assms by (simp add: advance_def)

lemma length_distances [simp]: "length (distances env cov inormc k inormr) = length cov"
  and length_advance [simp]: "length (advance env cov dfc dgc k dfr dgr) = length cov"
  by (simp_all add: distances_def advance_def)

text \<open>What the threads copied to shared memory.\<close>

definition col_data :: "geometry \<Rightarrow> kernel_env \<Rightarrow> KernelArgs \<Rightarrow> nat \<Rightarrow> fp list \<Rightarrow> fp list \<Rightarrow> bool" where
  "col_data p env args tsc src dst \<longleftrightarrow> length dst = tile_width p
     \<and> (\<forall>l < tile_width p. tsc + l < nat (k_n_x args) \<longrightarrow> dst ! l = fcast (rd_data env) (src ! (tsc + l)))"

definition row_data :: "geometry \<Rightarrow> kernel_env \<Rightarrow> KernelArgs \<Rightarrow> nat \<Rightarrow> fp list \<Rightarrow> fp list \<Rightarrow> bool" where
  "row_data p env args tsr src dst \<longleftrightarrow> length dst = tile_rows p
     \<and> (\<forall>l < tile_rows p. tsr + l < nat (k_n_y args) \<longrightarrow> dst ! l = fcast (rd_data env) (src ! (tsr + l)))"

definition smem_ok :: "geometry \<Rightarrow> kernel_env \<Rightarrow> KernelArgs \<Rightarrow> nat \<Rightarrow> nat \<Rightarrow> smem \<Rightarrow> bool" where
  "smem_ok p env args tsc tsr sm \<longleftrightarrow>
     col_data p env args tsc (k_dfa args) (df_col sm) \<and> col_data p env args tsc (k_dga args) (dg_col sm)
     \<and> col_data p env args tsc (k_normsa args) (inorm_col sm)
     \<and> row_data p env args tsr (k_dfb args) (df_row sm) \<and> row_data p env args tsr (k_dgb args) (dg_row sm)
     \<and> row_data p env args tsr (k_normsb args) (inorm_row sm)"

subsection \<open>The best of a set of candidates\<close>

type_synonym candidates = "(fp \<times> 32 word) set"

definition best_reg :: "candidates \<Rightarrow> fp \<times> 32 word \<Rightarrow> bool" where
  "best_reg S e \<longleftrightarrow> (fst e = dist_lowest \<or> e \<in> S) \<and> \<not> is_nan (fst e) \<and> (\<forall>(w, y) \<in> S. is_nan w \<or> fle w (fst e))"

lemma best_reg_empty [simp]: "best_reg {} (dist_lowest, x)"
  by (simp add: best_reg_def dist_lowest_def)

text \<open>A set is merged through a value that is the lowest one or a largest of the set.\<close>

lemma best_reg_union:
  assumes "best_reg S e" "best_reg T f"
  shows "best_reg (S \<union> T) (if fgt (fst f) (fst e) then f else e)"
proof (cases "fgt (fst f) (fst e)")
  case True
  have "is_nan w \<or> fle w (fst f)" if "(w, y) \<in> S" for w y
    using assms(1) that True fle_trans flt_imp_fle unfolding best_reg_def by blast
  then show ?thesis using True assms(2) unfolding best_reg_def by auto
next
  case False
  then have "fle (fst f) (fst e)" using assms by (simp add: best_reg_def not_flt)
  then have "is_nan w \<or> fle w (fst e)" if "(w, y) \<in> T" for w y
    using assms(2) that fle_trans unfolding best_reg_def by blast
  then show ?thesis using False assms(1) unfolding best_reg_def by auto
qed

lemma best_reg_insert:
  assumes "best_reg S e"
  shows "best_reg (insert (d, x) S) (if fgt d (fst e) then (d, x) else e)"
proof (cases "is_nan d")
  case True
  then have "\<not> fgt d (fst e)" using flt_not_nan by blast
  then show ?thesis using True assms by (auto simp: best_reg_def)
next
  case False
  then have "best_reg {(d, x)} (d, x)" by (simp add: best_reg_def)
  from best_reg_union [OF assms this] show ?thesis by simp
qed

subsection \<open>Reducing a row\<close>

text \<open>
  The contract of Eigen's \<open>maxCoeff<PropagateNumbers>\<close>: a largest number and an index where it stands, or NaN if
  no element is a number.
\<close>

definition max_number :: "fp list \<Rightarrow> fp \<times> int \<Rightarrow> bool" where
  "max_number ds r \<longleftrightarrow> (if \<forall>d \<in> set ds. is_nan d then is_nan (fst r)
     else 0 \<le> snd r \<and> snd r < int (length ds) \<and> ds ! nat (snd r) = fst r \<and> \<not> is_nan (fst r)
       \<and> (\<forall>d \<in> set ds. is_nan d \<or> fle d (fst r)))"

definition max_numbers_contract :: "(fp list \<Rightarrow> fp \<times> int) \<Rightarrow> bool" where
  "max_numbers_contract f \<longleftrightarrow> (\<forall>ds. ds \<noteq> [] \<longrightarrow> max_number ds (f ds))"

definition max_at :: "fp list \<Rightarrow> fp \<times> int \<Rightarrow> bool" where
  "max_at ds r \<longleftrightarrow> \<not> is_nan (fst r) \<and> (\<forall>d \<in> set ds. is_nan d \<or> fle d (fst r))
     \<and> (fst r = dist_lowest \<or> (0 \<le> snd r \<and> snd r < int (length ds) \<and> ds ! nat (snd r) = fst r))"

lemma scan_dist_max: "max_at ds ret \<Longrightarrow> max_at (ds @ es) (scan_dist (int (length ds)) ret es)"
proof (induction es arbitrary: ds ret)
  case (Cons d es)
  have "max_at (ds @ [d]) (if fgt d (fst ret) then (d, int (length ds)) else ret)"
  proof (cases "fgt d (fst ret)")
    case True
    then have "\<not> is_nan d" "\<forall>e \<in> set ds. is_nan e \<or> fle e d"
      using Cons.prems flt_not_nan fle_trans flt_imp_fle by (auto simp: max_at_def)
    then show ?thesis using True by (auto simp: max_at_def)
  next
    case False
    then have "is_nan d \<or> fle d (fst ret)" using Cons.prems not_flt by (auto simp: max_at_def)
    then show ?thesis using False Cons.prems by (auto simp: max_at_def nth_append)
  qed
  from Cons.IH [OF this] show ?case by (simp add: add.commute)
qed simp

lemma max_dist_max:
  assumes "max_numbers_contract (maxNumbers env)"
  shows "max_at ds (max_dist env ds)"
proof (cases "4 < length ds")
  case True
  obtain m k where m: "maxNumbers env ds = (m, k)" by (cases "maxNumbers env ds")
  have c: "if \<forall>d \<in> set ds. is_nan d then is_nan m
     else 0 \<le> k \<and> k < int (length ds) \<and> ds ! nat k = m \<and> \<not> is_nan m \<and> (\<forall>d \<in> set ds. is_nan d \<or> fle d m)"
  proof -
    have "ds \<noteq> []" using True by auto
    then have "max_number ds (m, k)" using assms m by (metis max_numbers_contract_def)
    then show ?thesis by (simp only: max_number_def fst_conv snd_conv)
  qed
  have r: "max_dist env ds = (if fgt m dist_lowest then m else dist_lowest, k)" using True m by (simp add: max_dist_def)
  show ?thesis
  proof (cases "fgt m dist_lowest")
    case True
    then have "\<not> is_nan m" using flt_not_nan by blast
    then have "0 \<le> k" "k < int (length ds)" "ds ! nat k = m" "\<forall>d \<in> set ds. is_nan d \<or> fle d m"
      using c by (simp_all split: if_splits)
    then show ?thesis using True r \<open>\<not> is_nan m\<close> by (simp add: max_at_def)
  next
    case False
    have "is_nan d \<or> fle d dist_lowest" if "d \<in> set ds" for d
    proof (cases "is_nan m")
      case True
      then show ?thesis using c that by (auto split: if_splits)
    next
      case nn: False
      then have "fle m dist_lowest" using False by (simp add: not_flt dist_lowest_def)
      then show ?thesis using c nn that fle_trans by (auto split: if_splits)
    qed
    then show ?thesis using False r by (simp add: max_at_def dist_lowest_def)
  qed
next
  case False
  have "max_at [] (dist_lowest, 0)" by (simp add: max_at_def dist_lowest_def)
  from scan_dist_max [OF this, of ds] show ?thesis using False by (simp add: max_dist_def)
qed

definition row_candidates :: "nat \<Rightarrow> fp list \<Rightarrow> candidates" where
  "row_candidates c ds = {(ds ! i, word32 (c + i)) | i. i < length ds}"

lemma merge_to_row_best:
  assumes "max_numbers_contract (maxNumbers env)" "best_reg S e"
  shows "best_reg (S \<union> row_candidates (global_col info + R) ds) (merge_to_row env R info ds e)"
proof -
  obtain d k where d: "max_dist env ds = (d, k)" by (cases "max_dist env ds")
  have m: "max_at ds (d, k)" using max_dist_max [OF assms(1), of ds] d by simp
  have "best_reg (row_candidates (global_col info + R) ds) (d, word32 (nat k + (global_col info + R)))"
    if "fgt d (fst e)"
  proof -
    have "\<forall>(w, y) \<in> row_candidates (global_col info + R) ds. is_nan w \<or> fle w d"
      using m by (fastforce simp: max_at_def row_candidates_def)
    moreover have "(d, word32 (nat k + (global_col info + R))) \<in> row_candidates (global_col info + R) ds"
      if "d \<noteq> dist_lowest"
    proof -
      have "0 \<le> k" "k < int (length ds)" "ds ! nat k = d" using m that by (auto simp: max_at_def)
      then show ?thesis unfolding row_candidates_def
        by (intro CollectI exI [of _ "nat k"]) (simp add: add.commute)
    qed
    ultimately show ?thesis using m by (auto simp: best_reg_def max_at_def)
  qed
  moreover have "best_reg (S \<union> row_candidates (global_col info + R) ds) e" if "\<not> fgt d (fst e)"
  proof -
    have "fle d (fst e)" using that m assms(2) not_flt by (auto simp: max_at_def best_reg_def)
    then have "\<forall>(w, y) \<in> row_candidates (global_col info + R) ds. is_nan w \<or> fle w (fst e)"
      using m fle_trans by (fastforce simp: max_at_def row_candidates_def)
    then show ?thesis using assms(2) by (auto simp: best_reg_def)
  qed
  ultimately show ?thesis
    using best_reg_union [OF assms(2), of _ "(d, word32 (nat k + (global_col info + R)))"] d
    by (auto simp: merge_to_row_def)
qed

subsection \<open>Reducing into the columns\<close>

lemma length_merge_columns [simp]: "length (merge_columns row q ds best) = length best"
  by (induction row q ds best rule: merge_columns.induct) simp_all

lemma merge_columns_nth:
  assumes "q0 + length ds \<le> length best"
  shows "merge_columns row q0 ds best ! q =
    (if q0 \<le> q \<and> q < q0 + length ds then (if fgt (ds ! (q - q0)) (fst (best ! q)) then (ds ! (q - q0), row) else best ! q)
     else best ! q)"
  using assms
proof (induction row q0 ds best rule: merge_columns.induct)
  case (2 row q0 d ds best)
  show ?case
    using 2 by (cases "q = q0") (auto simp: nth_Cons' Suc_diff_Suc not_less_eq_eq le_Suc_eq)
qed auto

subsection \<open>What a sequence of accesses offers\<close>

definition covers :: "(nat \<Rightarrow> candidates) \<Rightarrow> access list \<Rightarrow> bool" where
  "covers C as \<longleftrightarrow>
     (\<forall>a v x ck. Max_entry a v x ck \<in> set as \<longrightarrow> v = dist_lowest \<or> (v, x) \<in> C a)
     \<and> (\<forall>a. \<forall>(v, x) \<in> C a. is_nan v \<or> (\<exists>w y ck. Max_entry a w y ck \<in> set as \<and> fle v w))"

text \<open>A sequence of accesses that is well formed whatever the registers hold.\<close>

definition self_ok :: "mp_entry list \<Rightarrow> access list \<Rightarrow> bool" where
  "self_ok m0 as \<longleftrightarrow> (\<forall>addrs. prog_ok m0 addrs as)"

lemma prog_ok_append: "prog_ok m0 addrs as \<Longrightarrow> self_ok m0 bs \<Longrightarrow> prog_ok m0 addrs (as @ bs)"
  by (induction m0 addrs as rule: prog_ok.induct) (auto simp: self_ok_def)

lemma self_ok_append [intro]: "self_ok m0 as \<Longrightarrow> self_ok m0 bs \<Longrightarrow> self_ok m0 (as @ bs)"
  using prog_ok_append by (auto simp: self_ok_def)

lemma self_ok_Nil [simp]: "self_ok m0 []" by (simp add: self_ok_def)

lemma covers_Nil [simp]: "covers (\<lambda>a. {}) []" by (simp add: covers_def)

lemma covers_append:
  "covers C as \<Longrightarrow> covers D bs \<Longrightarrow> covers (\<lambda>a. C a \<union> D a) (as @ bs)"
  unfolding covers_def by (simp only: set_append Un_iff) blast

lemma covers_cong: "covers C as \<Longrightarrow> (\<And>a. C a = D a) \<Longrightarrow> covers D as"
  by (simp add: covers_def)

lemma prog_ok_loads:
  "k \<le> length addrs \<Longrightarrow> a + n \<le> length m0 \<Longrightarrow> 
   (\<And>rest. prog_ok m0 (take k addrs @ map (\<lambda>i. a + i) [0..<n] @ rest) bs) \<Longrightarrow>
   prog_ok m0 addrs (map (\<lambda>i. Load_value (k + i) (a + i)) [0..<n] @ bs)"
proof (induction n arbitrary: k a addrs)
  case 0
  then show ?case using 0(3) [of "drop k addrs"] by simp
next
  case (Suc n)
  have e: "map (\<lambda>i. f (x + i) (y + i)) [0..<Suc n] = f x y # map (\<lambda>i. f (Suc x + i) (Suc y + i)) [0..<n]" for f x y
    by (simp add: upt_conv_Cons map_Suc_upt [symmetric] del: upt_Suc)
  have e': "map (\<lambda>i. a + i) [0..<Suc n] = a # map (\<lambda>i. Suc a + i) [0..<n]"
    using e [of "\<lambda>x y. y" 0 a] by simp
  show ?case
    using Suc.IH [of "Suc k" "take k addrs @ [a]" "Suc a"] Suc.prems
    by (simp add: e e' del: upt_Suc)
qed

lemma prog_ok_updates:
  assumes "\<forall>i < n. i < length addrs \<and> addrs ! i = f i" "\<forall>i < n. f i < length m0"
  shows "prog_ok m0 addrs (map (\<lambda>i. Max_entry (f i) (v i) (x i) (Above_loaded i)) [0..<n])"
proof -
  have "prog_ok m0 addrs (map (\<lambda>i. Max_entry (f i) (v i) (x i) (Above_loaded i)) is)" if "set is \<subseteq> {..<n}" for "is"
    using that assms by (induction "is") auto
  then show ?thesis by (metis atLeast_upt order_refl)
qed

lemma flush_ok:
  assumes "base + start + n \<le> length m0"
  shows "self_ok m0 (flush base start n best)"
  unfolding self_ok_def flush_def
proof
  fix addrs
  show "prog_ok m0 addrs (map (\<lambda>i. Load_value i (base + start + i)) [0..<n]
     @ map (\<lambda>i. Max_entry (base + i + start) (fst (best ! (i + start))) (snd (best ! (i + start))) (Above_loaded i)) [0..<n])"
    using prog_ok_loads [of 0 addrs "base + start" n m0] assms
      prog_ok_updates [of n "map (\<lambda>i. base + start + i) [0..<n] @ rest" "\<lambda>i. base + i + start" for rest]
    by (simp add: nth_append)
qed

lemma flush_covers:
  assumes "\<And>i. i < n \<Longrightarrow> best_reg (S (i + start)) (best ! (i + start))"
  shows "covers (\<lambda>a. {e. \<exists>i < n. a = base + i + start \<and> e \<in> S (i + start)}) (flush base start n best)"
proof -
  have m: "Max_entry a v x ck \<in> set (flush base start n best)
      \<longleftrightarrow> (\<exists>i < n. a = base + i + start \<and> best ! (i + start) = (v, x) \<and> ck = Above_loaded i)" for a v x ck
    by (force simp: flush_def image_iff)
  show ?thesis
    unfolding covers_def m
  proof (intro conjI allI impI ballI)
    fix a v x ck assume "\<exists>i < n. a = base + i + start \<and> best ! (i + start) = (v, x) \<and> ck = Above_loaded i"
    then show "v = dist_lowest \<or> (v, x) \<in> {e. \<exists>i < n. a = base + i + start \<and> e \<in> S (i + start)}"
      using assms by (fastforce simp: best_reg_def)
  next
    fix a e assume "e \<in> {e. \<exists>i < n. a = base + i + start \<and> e \<in> S (i + start)}"
    then obtain i where i: "i < n" "a = base + i + start" "e \<in> S (i + start)" by blast
    obtain v x where e: "e = (v, x)" by (cases e)
    obtain w y where w: "best ! (i + start) = (w, y)" by (cases "best ! (i + start)")
    have "is_nan v \<or> fle v w" using assms [OF i(1)] i(3) by (auto simp: best_reg_def e w)
    then show "case e of (v, x) \<Rightarrow> is_nan v \<or> (\<exists>w y ck. (\<exists>i < n. a = base + i + start \<and> best ! (i + start) = (w, y)
        \<and> ck = Above_loaded i) \<and> fle v w)"
      using i(1,2) w e by auto
  qed
qed

subsection \<open>Rows of the fast path\<close>

text \<open>
  The candidates of column register \<open>q\<close> after \<open>R\<close> rows, and of row register \<open>k\<close>, in an iteration that starts
  at row \<open>r0\<close> of the diagonals from \<open>D\<close> on.
\<close>

definition col_cands :: "geometry \<Rightarrow> kernel_env \<Rightarrow> KernelArgs \<Rightarrow> fp list \<Rightarrow> nat \<Rightarrow> nat \<Rightarrow> nat \<Rightarrow> nat \<Rightarrow> candidates" where
  "col_cands p env args cov0 D r0 R q = {(gpu_corr env args cov0 (r0 + k) (D + q + r0), word32 (r0 + k))
     | k. k < R \<and> k \<le> q \<and> q < k + DiagsPerThread p}"

definition row_cands :: "geometry \<Rightarrow> kernel_env \<Rightarrow> KernelArgs \<Rightarrow> fp list \<Rightarrow> nat \<Rightarrow> nat \<Rightarrow> nat \<Rightarrow> candidates" where
  "row_cands p env args cov0 D r0 k =
     {(gpu_corr env args cov0 (r0 + k) (D + i + (r0 + k)), word32 (D + i + (r0 + k))) | i. i < DiagsPerThread p}"

definition regs_ok ::
  "geometry \<Rightarrow> kernel_env \<Rightarrow> KernelArgs \<Rightarrow> fp list \<Rightarrow> nat \<Rightarrow> nat \<Rightarrow> nat \<Rightarrow> fp list \<times> bests \<times> bests \<Rightarrow> bool" where
  "regs_ok p env args cov0 D r0 R st = (case st of (cov, distc, distr) \<Rightarrow>
     length cov = DiagsPerThread p \<and> length distc = unrolled_cols p \<and> length distr = OuterUnrolledRows p
     \<and> (\<forall>i < DiagsPerThread p. cov ! i = gpu_cov (rd_data env) args cov0 (D + i) (r0 + R))
     \<and> (COMPUTE_COLS p \<longrightarrow> (\<forall>q < unrolled_cols p. best_reg (col_cands p env args cov0 D r0 R q) (distc ! q)))
     \<and> (COMPUTE_ROWS p \<longrightarrow> (\<forall>k < OuterUnrolledRows p.
          best_reg (if k < R then row_cands p env args cov0 D r0 k else {}) (distr ! k))))"

definition win_at :: "geometry \<Rightarrow> kernel_env \<Rightarrow> KernelArgs \<Rightarrow> nat \<Rightarrow> nat \<Rightarrow> nat \<Rightarrow> window \<Rightarrow> bool" where
  "win_at p env args D r k win = (case win of (dfc, dgc, inormc) \<Rightarrow> (\<forall>i < DiagsPerThread p.
     dfc ! (k + i) = fcast (rd_data env) (k_dfa args ! (D + i + r))
     \<and> dgc ! (k + i) = fcast (rd_data env) (k_dga args ! (D + i + r))
     \<and> inormc ! (k + i) = fcast (rd_data env) (k_normsa args ! (D + i + r))))"

definition row_at :: "kernel_env \<Rightarrow> KernelArgs \<Rightarrow> nat \<Rightarrow> fp \<times> fp \<times> fp \<Rightarrow> bool" where
  "row_at env args r row = (case row of (dfr, dgr, inormr) \<Rightarrow> dfr = fcast (rd_data env) (k_dfb args ! r)
     \<and> dgr = fcast (rd_data env) (k_dgb args ! r) \<and> inormr = fcast (rd_data env) (k_normsb args ! r))"

lemma col_cands_Suc:
  "col_cands p env args cov0 D r0 (Suc R) q =
     (if R \<le> q \<and> q < R + DiagsPerThread p
      then insert (gpu_corr env args cov0 (r0 + R) (D + q + r0), word32 (r0 + R)) (col_cands p env args cov0 D r0 R q)
      else col_cands p env args cov0 D r0 R q)"
  unfolding col_cands_def less_Suc_eq by auto

lemma row_cands_candidates:
  assumes "length ds = DiagsPerThread p" "\<And>i. i < DiagsPerThread p \<Longrightarrow> ds ! i = gpu_corr env args cov0 (r0 + R) (D + i + (r0 + R))"
  shows "row_candidates (D + r0 + R) ds = row_cands p env args cov0 D r0 R"
proof -
  have "(ds ! i, word32 (D + r0 + R + i) ) =
      (gpu_corr env args cov0 (r0 + R) (D + i + (r0 + R)), word32 (D + i + (r0 + R)))" if "i < DiagsPerThread p" for i
    using assms(2) [OF that] by (simp add: ac_simps)
  then show ?thesis unfolding row_candidates_def row_cands_def assms(1) by (intro Collect_cong ex_cong1) auto
qed

lemma do_row_ok:
  assumes mc: "max_numbers_contract (maxNumbers env)"
    and info: "global_row info = r0" "global_col info = D + r0" and R: "R < OuterUnrolledRows p"
    and regs: "regs_ok p env args cov0 D r0 R st"
    and data: "win_at p env args D (r0 + R) k win" "row_at env args (r0 + R) row"
  shows "regs_ok p env args cov0 D r0 (Suc R) (do_row p env info R k win row st)"
proof -
  obtain dfc dgc inormc dfr dgr inormr cov distc distr
    where e: "win = (dfc, dgc, inormc)" "row = (dfr, dgr, inormr)" "st = (cov, distc, distr)"
    by (metis surj_pair)
  have len: "length cov = DiagsPerThread p" "length distc = unrolled_cols p" "length distr = OuterUnrolledRows p"
    and cov: "\<And>i. i < DiagsPerThread p \<Longrightarrow> cov ! i = gpu_cov (rd_data env) args cov0 (D + i) (r0 + R)"
    and dc: "\<And>q. COMPUTE_COLS p \<Longrightarrow> q < unrolled_cols p \<Longrightarrow> best_reg (col_cands p env args cov0 D r0 R q) (distc ! q)"
    and dr: "\<And>k. COMPUTE_ROWS p \<Longrightarrow> k < OuterUnrolledRows p \<Longrightarrow>
       best_reg (if k < R then row_cands p env args cov0 D r0 k else {}) (distr ! k)"
    using regs by (auto simp: regs_ok_def e)
  note col = data(1) [unfolded win_at_def e prod.case, rule_format] and row = data(2) [unfolded row_at_def e prod.case]
  let ?ds = "distances env cov inormc k inormr"
  have ds: "?ds ! i = gpu_corr env args cov0 (r0 + R) (D + i + (r0 + R))" if "i < DiagsPerThread p" for i
    using that len cov [OF that] col [OF that] row by (intro distances_nth) auto
  have adv: "advance env cov dfc dgc k dfr dgr ! i = gpu_cov (rd_data env) args cov0 (D + i) (r0 + Suc R)"
    if "i < DiagsPerThread p" for i
  proof -
    have "advance env cov dfc dgc k dfr dgr ! i = gpu_cov (rd_data env) args cov0 (D + i) (Suc (r0 + R))"
      using that len cov [OF that] col [OF that] row by (intro advance_nth) auto
    then show ?thesis by simp
  qed
  have cols: "best_reg (col_cands p env args cov0 D r0 (Suc R) q) (merge_to_column R info distc ?ds ! q)"
    if "COMPUTE_COLS p" "q < unrolled_cols p" for q
  proof -
    have "R + length ?ds \<le> length distc" using R len by (simp add: unrolled_cols_def)
    note nth = merge_columns_nth [OF this, of "word32 (global_row info + R)" q]
    show ?thesis
    proof (cases "R \<le> q \<and> q < R + DiagsPerThread p")
      case True
      then have "q - R < DiagsPerThread p" "D + (q - R) + (r0 + R) = D + q + r0" by linarith+
      from ds [OF this(1)] this(2) have "?ds ! (q - R) = gpu_corr env args cov0 (r0 + R) (D + q + r0)" by (simp only:)
      then have m: "merge_to_column R info distc ?ds ! q =
          (if fgt (gpu_corr env args cov0 (r0 + R) (D + q + r0)) (fst (distc ! q))
           then (gpu_corr env args cov0 (r0 + R) (D + q + r0), word32 (r0 + R)) else distc ! q)"
        using True nth len info by (simp add: merge_to_column_def)
      show ?thesis
        unfolding m col_cands_Suc using True by (simp only: if_True simp_thms) (rule best_reg_insert [OF dc [OF that]])
    next
      case False
      then have "col_cands p env args cov0 D r0 (Suc R) q = col_cands p env args cov0 D r0 R q" by (simp only: col_cands_Suc if_False)
      then show ?thesis using False nth dc [OF that] len by (auto simp: merge_to_column_def)
    qed
  qed
  have rows: "best_reg (if j < Suc R then row_cands p env args cov0 D r0 j else {})
      (distr[R := merge_to_row env R info ?ds (distr ! R)] ! j)" if "COMPUTE_ROWS p" "j < OuterUnrolledRows p" for j
  proof (cases "j = R")
    case True
    have "best_reg ({} \<union> row_candidates (global_col info + R) ?ds) (merge_to_row env R info ?ds (distr ! R))"
      using dr [OF that(1) R] by (intro merge_to_row_best [OF mc]) simp
    then show ?thesis using True R len row_cands_candidates [of ?ds p env args cov0 r0 R D] ds info by simp
  next
    case False
    then show ?thesis using dr [OF that] by (auto simp: less_Suc_eq)
  qed
  show ?thesis using len adv cols rows by (auto simp: regs_ok_def do_row_def e Let_def merge_to_column_def)
qed

subsection \<open>Batches of rows\<close>

lemma nslice_Some [simp]: "k + n \<le> length xs \<Longrightarrow> nslice xs k n = Some (take n (drop k xs))"
  by (simp add: nslice_def)

lemma slice_slides:
  assumes "a + u + d \<le> length xs"
  shows "drop u (take (d + u) (drop a xs)) @ take u (drop (a + u + d) xs) = take (d + u) (drop (a + u) xs)"
  using take_add [of d u "drop (a + u) xs"] by (simp add: drop_take add.commute add.left_commute)

definition block_geometry_ok :: "geometry \<Rightarrow> bool" where
  "block_geometry_ok p \<longleftrightarrow> 0 < DiagsPerThread p \<and> 0 < UnrolledRows p \<and> 0 < OuterUnrolledRows p \<and> 0 < KernelTileIters p
     \<and> 0 < BLOCKSZ p \<and> UnrolledRows p dvd OuterUnrolledRows p \<and> UnrolledRows p dvd DiagsPerThread p"

text \<open>Where a thread is: \<open>D\<close> is its first diagonal, the tile starts at row \<open>tsr\<close> and column \<open>tsc\<close>.\<close>

definition placed :: "nat \<Rightarrow> nat \<Rightarrow> nat \<Rightarrow> SCAMPThreadInfo \<Rightarrow> bool" where
  "placed tsc tsr D info \<longleftrightarrow> tsc + local_col info = global_col info \<and> tsr + local_row info = global_row info
     \<and> global_col info = D + global_row info"

text \<open>An iteration of the fast path stays within the tile and the matrix.\<close>

definition iteration_fits :: "geometry \<Rightarrow> KernelArgs \<Rightarrow> SCAMPThreadInfo \<Rightarrow> bool" where
  "iteration_fits p args info \<longleftrightarrow>
     local_col info + OuterUnrolledRows p + DiagsPerThread p \<le> tile_width p
     \<and> local_row info + OuterUnrolledRows p \<le> tile_rows p
     \<and> global_col info + OuterUnrolledRows p + DiagsPerThread p \<le> nat (k_n_x args)
     \<and> global_row info + OuterUnrolledRows p \<le> nat (k_n_y args)"

definition window_of :: "geometry \<Rightarrow> smem \<Rightarrow> nat \<Rightarrow> window" where
  "window_of p sm off =
     (take (inner_unrolled_cols p) (drop off (df_col sm)), take (inner_unrolled_cols p) (drop off (dg_col sm)),
      take (inner_unrolled_cols p) (drop off (inorm_col sm)))"

lemma slide_window_of:
  assumes "smem_ok p env args tsc tsr sm" "local_col info + j * UnrolledRows p + inner_unrolled_cols p \<le> tile_width p" "0 < j"
  shows "slide_window p sm info j (window_of p sm (local_col info + (j - 1) * UnrolledRows p))
    = Some (window_of p sm (local_col info + j * UnrolledRows p))"
proof -
  let ?a = "local_col info + (j - 1) * UnrolledRows p"
  have e: "?a + UnrolledRows p = local_col info + j * UnrolledRows p" using assms(3) by (cases j) simp_all
  have len: "length (df_col sm) = tile_width p" "length (dg_col sm) = tile_width p" "length (inorm_col sm) = tile_width p"
    using assms(1) by (auto simp: smem_ok_def col_data_def)
  have i: "inner_unrolled_cols p = DiagsPerThread p + UnrolledRows p" by (simp add: inner_unrolled_cols_def)
  have "drop (UnrolledRows p) (take (inner_unrolled_cols p) (drop ?a xs))
      @ take (UnrolledRows p) (drop (local_col info + j * UnrolledRows p + DiagsPerThread p) xs)
      = take (inner_unrolled_cols p) (drop (local_col info + j * UnrolledRows p) xs)"
    if "length xs = tile_width p" for xs :: "fp list"
    using slice_slides [of ?a "UnrolledRows p" "DiagsPerThread p" xs] assms(2) that by (simp only: i e)
  then show ?thesis
    using assms(2) len by (simp add: slide_window_def window_of_def i Let_def)
qed

lemma window_at:
  assumes "smem_ok p env args tsc tsr sm" "placed tsc tsr D info" "iteration_fits p args info"
    and "j * UnrolledRows p + k < OuterUnrolledRows p" "k < UnrolledRows p"
  shows "win_at p env args D (global_row info + (j * UnrolledRows p + k)) k
    (window_of p sm (local_col info + j * UnrolledRows p))"
proof -
  have "take (inner_unrolled_cols p) (drop (local_col info + j * UnrolledRows p) dst) ! (k + i)
      = fcast (rd_data env) (src ! (D + i + (global_row info + (j * UnrolledRows p + k))))"
    if i: "i < DiagsPerThread p" and cd: "col_data p env args tsc src dst" for i src dst
  proof -
    let ?l = "local_col info + j * UnrolledRows p + (k + i)"
    have l: "?l < tile_width p" "tsc + ?l < nat (k_n_x args)"
      using assms(2-5) i by (auto simp: placed_def iteration_fits_def)
    have len: "length dst = tile_width p" using cd by (simp add: col_data_def)
    have "k + i < inner_unrolled_cols p" using assms(5) i by (simp add: inner_unrolled_cols_def)
    then have "take (inner_unrolled_cols p) (drop (local_col info + j * UnrolledRows p) dst) ! (k + i) = dst ! ?l"
      using l(1) len by (subst nth_take, simp, subst nth_drop) auto
    also have "\<dots> = fcast (rd_data env) (src ! (tsc + ?l))" using cd l unfolding col_data_def by blast
    also have "tsc + ?l = D + i + (global_row info + (j * UnrolledRows p + k))"
      using assms(2) by (simp add: placed_def)
    finally show ?thesis .
  qed
  then show ?thesis using assms(1) by (simp add: win_at_def window_of_def smem_ok_def)
qed

lemma rows_at:
  assumes "smem_ok p env args tsc tsr sm" "placed tsc tsr D info" "iteration_fits p args info"
    and "j * UnrolledRows p + k < OuterUnrolledRows p" "k < UnrolledRows p"
  shows "row_at env args (global_row info + (j * UnrolledRows p + k))
    (take (UnrolledRows p) (drop (local_row info + j * UnrolledRows p) (df_row sm)) ! k,
     take (UnrolledRows p) (drop (local_row info + j * UnrolledRows p) (dg_row sm)) ! k,
     take (UnrolledRows p) (drop (local_row info + j * UnrolledRows p) (inorm_row sm)) ! k)"
proof -
  have "take (UnrolledRows p) (drop (local_row info + j * UnrolledRows p) dst) ! k
      = fcast (rd_data env) (src ! (global_row info + (j * UnrolledRows p + k)))"
    if cd: "row_data p env args tsr src dst" for src dst
  proof -
    let ?l = "local_row info + j * UnrolledRows p + k"
    have l: "?l < tile_rows p" "tsr + ?l < nat (k_n_y args)"
      using assms(2-5) by (auto simp: placed_def iteration_fits_def)
    have "take (UnrolledRows p) (drop (local_row info + j * UnrolledRows p) dst) ! k = dst ! ?l"
      using l(1) cd assms(5) by (subst nth_take, simp, subst nth_drop) (auto simp: row_data_def)
    also have "\<dots> = fcast (rd_data env) (src ! (tsr + ?l))" using cd l unfolding row_data_def by blast
    also have "tsr + ?l = global_row info + (j * UnrolledRows p + k)" using assms(2) by (simp add: placed_def)
    finally show ?thesis .
  qed
  then show ?thesis using assms(1) by (simp add: row_at_def smem_ok_def)
qed

text \<open>The candidates of the first \<open>n\<close> columns and \<open>m\<close> rows of an iteration, by address.\<close>

definition batch_cands ::
  "geometry \<Rightarrow> kernel_env \<Rightarrow> KernelArgs \<Rightarrow> fp list \<Rightarrow> nat \<Rightarrow> SCAMPThreadInfo \<Rightarrow> nat \<Rightarrow> nat \<Rightarrow> nat \<Rightarrow> candidates" where
  "batch_cands p env args cov0 D info n m a =
     {e. COMPUTE_COLS p \<and> (\<exists>q < n. a = local_col info + q
           \<and> e \<in> col_cands p env args cov0 D (global_row info) (OuterUnrolledRows p) q)}
     \<union> {e. COMPUTE_ROWS p \<and> (\<exists>k < m. a = row_base p + local_row info + k
           \<and> e \<in> row_cands p env args cov0 D (global_row info) k)}"

lemma ex_less_add: "(\<exists>q < a + u. P q) \<longleftrightarrow> (\<exists>q < a. P q) \<or> (\<exists>i < u. P (i + a))" for a u :: nat
proof
  assume "\<exists>q < a + u. P q"
  then obtain q where q: "q < a + u" "P q" by blast
  show "(\<exists>q < a. P q) \<or> (\<exists>i < u. P (i + a))"
  proof (cases "q < a")
    case False
    then have "q - a < u" "q - a + a = q" using q(1) by simp_all
    then show ?thesis using q(2) by metis
  qed (use q in blast)
next
  assume "(\<exists>q < a. P q) \<or> (\<exists>i < u. P (i + a))"
  then show "\<exists>q < a + u. P q"
  proof (elim disjE exE conjE)
    fix q assume "q < a" "P q"
    then show ?thesis by (intro exI [of _ q]) simp
  next
    fix i assume "i < u" "P (i + a)"
    then show ?thesis by (intro exI [of _ "i + a"]) simp
  qed
qed

lemma col_cands_stop: "q < R \<Longrightarrow> R \<le> R' \<Longrightarrow> col_cands p env args cov0 D r0 R q = col_cands p env args cov0 D r0 R' q"
  by (auto simp: col_cands_def)

lemma update_cols_covers:
  assumes "\<And>i. i < n \<Longrightarrow> best_reg (col_cands p env args cov0 D (global_row info) (OuterUnrolledRows p) (i + start)) (distc ! (i + start))"
  shows "covers (\<lambda>a. {e. \<exists>i < n. a = local_col info + i + start
      \<and> e \<in> col_cands p env args cov0 D (global_row info) (OuterUnrolledRows p) (i + start)}) (update_cols n start info distc)"
  unfolding update_cols_def by (rule flush_covers) (rule assms)

lemma update_rows_covers:
  assumes "\<And>i. i < n \<Longrightarrow> best_reg (row_cands p env args cov0 D (global_row info) (i + start)) (distr ! (i + start))"
  shows "covers (\<lambda>a. {e. \<exists>i < n. a = row_base p + local_row info + i + start
      \<and> e \<in> row_cands p env args cov0 D (global_row info) (i + start)}) (update_rows p n start info distr)"
  unfolding update_rows_def by (rule flush_covers) (rule assms)

definition fast_inv ::
  "geometry \<Rightarrow> kernel_env \<Rightarrow> KernelArgs \<Rightarrow> fp list \<Rightarrow> smem \<Rightarrow> mp_entry list \<Rightarrow> nat \<Rightarrow> SCAMPThreadInfo \<Rightarrow> nat \<Rightarrow> fast_state \<Rightarrow> bool" where
  "fast_inv p env args cov0 sm m0 D info j st = (case st of (regs, win, accs) \<Rightarrow>
     regs_ok p env args cov0 D (global_row info) (j * UnrolledRows p) regs
     \<and> win = window_of p sm (local_col info + (j - 1) * UnrolledRows p)
     \<and> covers (batch_cands p env args cov0 D info (j * UnrolledRows p) (j * UnrolledRows p)) accs \<and> self_ok m0 accs)"

lemma regs_rows:
  assumes "max_numbers_contract (maxNumbers env)" "smem_ok p env args tsc tsr sm" "placed tsc tsr D info" "iteration_fits p args info"
    and "j * UnrolledRows p + UnrolledRows p \<le> OuterUnrolledRows p" "n \<le> UnrolledRows p"
    and "regs_ok p env args cov0 D (global_row info) (j * UnrolledRows p) regs"
  shows "regs_ok p env args cov0 D (global_row info) (j * UnrolledRows p + n)
    (fold (\<lambda>k. do_row p env info (j * UnrolledRows p + k) k (window_of p sm (local_col info + j * UnrolledRows p))
       (take (UnrolledRows p) (drop (local_row info + j * UnrolledRows p) (df_row sm)) ! k,
        take (UnrolledRows p) (drop (local_row info + j * UnrolledRows p) (dg_row sm)) ! k,
        take (UnrolledRows p) (drop (local_row info + j * UnrolledRows p) (inorm_row sm)) ! k)) [0..<n] regs)"
  using assms(6)
proof (induction n)
  case 0
  then show ?case using assms(7) by simp
next
  case (Suc n)
  have r: "j * UnrolledRows p + n < OuterUnrolledRows p" "n < UnrolledRows p" using Suc.prems assms(5) by auto
  have "global_col info = D + global_row info" using assms(3) by (simp add: placed_def)
  then show ?case
    using Suc.IH Suc.prems r
      do_row_ok [OF assms(1) refl _ r(1) _ window_at [OF assms(2-4) r] rows_at [OF assms(2-4) r]]
    by simp
qed

lemma row_batch_ok:
  assumes mc: "max_numbers_contract (maxNumbers env)" and sm: "smem_ok p env args tsc tsr sm"
    and at: "placed tsc tsr D info" and fits: "iteration_fits p args info" and g: "block_geometry_ok p"
    and mem: "length m0 = mp_size p"
    and j: "j < OuterUnrolledRows p div UnrolledRows p" and inv: "fast_inv p env args cov0 sm m0 D info j st"
  shows "wp (row_batch p env sm info j st) (fast_inv p env args cov0 sm m0 D info (Suc j))"
proof -
  let ?u = "UnrolledRows p" and ?o = "OuterUnrolledRows p" and ?r0 = "global_row info"
  obtain regs win accs where st: "st = (regs, win, accs)" by (cases st)
  have I: "regs_ok p env args cov0 D ?r0 (j * ?u) regs" "win = window_of p sm (local_col info + (j - 1) * ?u)"
      "covers (batch_cands p env args cov0 D info (j * ?u) (j * ?u)) accs" "self_ok m0 accs"
    using inv by (auto simp: fast_inv_def st)
  have "Suc j * ?u \<le> ?o div ?u * ?u" using j by (intro mult_right_mono) auto
  then have ju: "j * ?u + ?u \<le> ?o" using g by (simp add: block_geometry_ok_def)
  have win: "(if 0 < j then slide_window p sm info j win else Some win) = Some (window_of p sm (local_col info + j * ?u))"
    using slide_window_of [OF sm, of info j] I(2) fits ju by (auto simp: iteration_fits_def inner_unrolled_cols_def)
  have len: "length (df_row sm) = tile_rows p" "length (dg_row sm) = tile_rows p" "length (inorm_row sm) = tile_rows p"
    using sm by (auto simp: smem_ok_def row_data_def)
  have row: "local_row info + j * ?u + ?u \<le> tile_rows p" using fits ju by (auto simp: iteration_fits_def)
  define regs' where "regs' = fold (\<lambda>k. do_row p env info (j * ?u + k) k (window_of p sm (local_col info + j * ?u))
       (take ?u (drop (local_row info + j * ?u) (df_row sm)) ! k, take ?u (drop (local_row info + j * ?u) (dg_row sm)) ! k,
        take ?u (drop (local_row info + j * ?u) (inorm_row sm)) ! k)) [0..<?u] regs"
  have regs': "regs_ok p env args cov0 D ?r0 (j * ?u + ?u) regs'"
    unfolding regs'_def by (rule regs_rows [OF mc sm at fits ju order_refl I(1)])
  obtain cov distc distr where r: "regs' = (cov, distc, distr)" by (cases regs')
  let ?cols = "if COMPUTE_COLS p then update_cols ?u (j * ?u) info distc else []"
    and ?rows = "if COMPUTE_ROWS p then update_rows p ?u (j * ?u) info distr else []"
  have run: "row_batch p env sm info j st
      = Some (regs', window_of p sm (local_col info + j * ?u), accs @ ?cols @ ?rows)"
    using len row unfolding row_batch_def st prod.case win
    by (simp add: regs'_def [symmetric] r)
  have cols: "covers (\<lambda>a. {e. COMPUTE_COLS p \<and> (\<exists>i < ?u. a = local_col info + i + j * ?u
      \<and> e \<in> col_cands p env args cov0 D ?r0 ?o (i + j * ?u))}) ?cols"
  proof (cases "COMPUTE_COLS p")
    case True
    have "best_reg (col_cands p env args cov0 D ?r0 ?o (i + j * ?u)) (distc ! (i + j * ?u))" if "i < ?u" for i
    proof -
      have "i + j * ?u < unrolled_cols p" using that ju g by (auto simp: unrolled_cols_def block_geometry_ok_def)
      then have "best_reg (col_cands p env args cov0 D ?r0 (j * ?u + ?u) (i + j * ?u)) (distc ! (i + j * ?u))"
        using regs' True by (simp add: regs_ok_def r)
      moreover have "i + j * ?u < j * ?u + ?u" using that by simp
      ultimately show ?thesis by (simp only: col_cands_stop [OF _ ju])
    qed
    then show ?thesis using True update_cols_covers by simp
  qed simp
  have rows: "covers (\<lambda>a. {e. COMPUTE_ROWS p \<and> (\<exists>i < ?u. a = row_base p + local_row info + i + j * ?u
      \<and> e \<in> row_cands p env args cov0 D ?r0 (i + j * ?u))}) ?rows"
  proof (cases "COMPUTE_ROWS p")
    case True
    have "best_reg (row_cands p env args cov0 D ?r0 (i + j * ?u)) (distr ! (i + j * ?u))" if "i < ?u" for i
      using regs' True that ju by (auto simp: regs_ok_def r dest: spec [of _ "i + j * ?u"])
    then show ?thesis using True update_rows_covers by simp
  qed simp
  have split: "(\<exists>q < Suc j * ?u. P q) \<longleftrightarrow> (\<exists>q < j * ?u. P q) \<or> (\<exists>i < ?u. P (i + j * ?u))" for P
    using ex_less_add [of "j * ?u" ?u P] by (simp add: add.commute)
  have "covers (batch_cands p env args cov0 D info (Suc j * ?u) (Suc j * ?u)) (accs @ ?cols @ ?rows)"
    by (rule covers_cong [OF covers_append [OF I(3) covers_append [OF cols rows]]])
      (simp only: batch_cands_def split, auto simp: ac_simps)
  moreover have "self_ok m0 (accs @ ?cols @ ?rows)"
    using I(4) fits ju row mem
    by (auto simp: update_cols_def update_rows_def iteration_fits_def mp_size_def row_base_def intro!: self_ok_append flush_ok)
  ultimately show ?thesis
    using regs' by (simp add: run fast_inv_def add.commute)
qed

subsection \<open>An iteration\<close>

lemma wp_upt:
  assumes "I 0 s" "\<And>k s. k < n \<Longrightarrow> I k s \<Longrightarrow> wp (f k s) (I (Suc k))"
  shows "wp (forlist f [0..<n] s) (I n)"
  using assms(2)
proof (induction n)
  case (Suc n)
  then have "wp (forlist f [0..<n] s) (I n)" by simp
  then show ?case using Suc.prems [of n] by (auto simp: forlist_append elim!: wp_mono)
qed (use assms(1) in simp)

text \<open>The updates an iteration stands for, and where it leaves the thread.\<close>

definition iteration_cands ::
  "geometry \<Rightarrow> kernel_env \<Rightarrow> KernelArgs \<Rightarrow> fp list \<Rightarrow> nat \<Rightarrow> SCAMPThreadInfo \<Rightarrow> nat \<Rightarrow> candidates" where
  "iteration_cands p env args cov0 D info =
     batch_cands p env args cov0 D info (unrolled_cols p) (OuterUnrolledRows p)"

definition covs_ok :: "geometry \<Rightarrow> kernel_env \<Rightarrow> KernelArgs \<Rightarrow> fp list \<Rightarrow> nat \<Rightarrow> SCAMPThreadInfo \<Rightarrow> bool" where
  "covs_ok p env args cov0 D info \<longleftrightarrow> length (g_cov info) = DiagsPerThread p
     \<and> (\<forall>i < DiagsPerThread p. global_col info + i < nat (k_n_x args) \<longrightarrow>
          g_cov info ! i = gpu_cov (rd_data env) args cov0 (D + i) (global_row info))"

definition moved :: "nat \<Rightarrow> SCAMPThreadInfo \<Rightarrow> SCAMPThreadInfo \<Rightarrow> bool" where
  "moved n info info' \<longleftrightarrow> local_row info' = local_row info + n \<and> local_col info' = local_col info + n
     \<and> global_row info' = global_row info + n \<and> global_col info' = global_col info + n"

lemma do_iteration_fast_ok:
  assumes mc: "max_numbers_contract (maxNumbers env)" and sm: "smem_ok p env args tsc tsr sm"
    and at: "placed tsc tsr D info" and fits: "iteration_fits p args info" and g: "block_geometry_ok p"
    and mem: "length m0 = mp_size p" and cov: "covs_ok p env args cov0 D info"
  shows "\<exists>info' as. do_iteration_fast p env sm info = Some (info', as) \<and> moved (OuterUnrolledRows p) info info'
    \<and> covs_ok p env args cov0 D info' \<and> covers (iteration_cands p env args cov0 D info) as \<and> self_ok m0 as"
proof -
  let ?o = "OuterUnrolledRows p" and ?u = "UnrolledRows p" and ?r0 = "global_row info"
  let ?dc = "map (\<lambda>q. (dist_lowest, uninit env q)) [0..<unrolled_cols p]"
    and ?dr = "map (\<lambda>q. (dist_lowest, uninit env q)) [0..<?o]"
  have len: "length (df_col sm) = tile_width p" "length (dg_col sm) = tile_width p" "length (inorm_col sm) = tile_width p"
    using sm by (auto simp: smem_ok_def col_data_def)
  have "?u \<le> ?o" using g by (auto simp: block_geometry_ok_def dest: dvd_imp_le)
  then have "local_col info + inner_unrolled_cols p \<le> tile_width p"
    using fits by (auto simp: iteration_fits_def inner_unrolled_cols_def)
  then have win: "load_window p sm info = Some (window_of p sm (local_col info))"
    using len by (simp add: load_window_def window_of_def)
  have n: "?o div ?u * ?u = ?o" using g by (simp add: block_geometry_ok_def)
  have "\<forall>i < DiagsPerThread p. g_cov info ! i = gpu_cov (rd_data env) args cov0 (D + i) ?r0" "length (g_cov info) = DiagsPerThread p"
    using cov fits by (auto simp: covs_ok_def iteration_fits_def)
  then have "regs_ok p env args cov0 D ?r0 0 (g_cov info, ?dc, ?dr)"
    by (simp add: regs_ok_def col_cands_def)
  then have start: "fast_inv p env args cov0 sm m0 D info 0 ((g_cov info, ?dc, ?dr), window_of p sm (local_col info), [])"
    by (simp add: fast_inv_def batch_cands_def covers_def)
  have "wp (forlist (row_batch p env sm info) [0..<?o div ?u] ((g_cov info, ?dc, ?dr), window_of p sm (local_col info), []))
      (fast_inv p env args cov0 sm m0 D info (?o div ?u))"
    by (rule wp_upt [where I = "fast_inv p env args cov0 sm m0 D info", OF start]) (rule row_batch_ok [OF mc sm at fits g mem])
  then obtain cv distc distr win' accs where
    run: "forlist (row_batch p env sm info) [0..<?o div ?u] ((g_cov info, ?dc, ?dr), window_of p sm (local_col info), [])
        = Some ((cv, distc, distr), win', accs)"
    and I: "fast_inv p env args cov0 sm m0 D info (?o div ?u) ((cv, distc, distr), win', accs)"
    unfolding wp_def by (auto split: option.splits)
  have R: "regs_ok p env args cov0 D ?r0 ?o (cv, distc, distr)" "covers (batch_cands p env args cov0 D info ?o ?o) accs" "self_ok m0 accs"
    using I by (simp_all add: fast_inv_def n)
  let ?tail = "if COMPUTE_COLS p then update_cols (unrolled_cols p - ?o) ?o info distc else []"
  have le: "?o \<le> unrolled_cols p" using g by (auto simp: unrolled_cols_def block_geometry_ok_def)
  have tail: "covers (\<lambda>a. {e. COMPUTE_COLS p \<and> (\<exists>i < unrolled_cols p - ?o. a = local_col info + i + ?o
      \<and> e \<in> col_cands p env args cov0 D ?r0 ?o (i + ?o))}) ?tail"
  proof (cases "COMPUTE_COLS p")
    case True
    have "best_reg (col_cands p env args cov0 D ?r0 ?o (i + ?o)) (distc ! (i + ?o))" if "i < unrolled_cols p - ?o" for i
      using R(1) True that by (auto simp: regs_ok_def)
    then show ?thesis using True update_cols_covers by simp
  qed simp
  have split: "(\<exists>q < unrolled_cols p. P q) \<longleftrightarrow> (\<exists>q < ?o. P q) \<or> (\<exists>i < unrolled_cols p - ?o. P (i + ?o))" for P
    using ex_less_add [of ?o "unrolled_cols p - ?o" P] le by simp
  have "covers (iteration_cands p env args cov0 D info) (accs @ ?tail)"
    by (rule covers_cong [OF covers_append [OF R(2) tail]])
      (simp only: iteration_cands_def batch_cands_def split, auto simp: ac_simps)
  moreover have "self_ok m0 (accs @ ?tail)"
    using R(3) fits mem le by (auto simp: update_cols_def iteration_fits_def mp_size_def row_base_def unrolled_cols_def intro!: self_ok_append flush_ok)
  ultimately show ?thesis
    using R(1) by (auto simp: do_iteration_fast_def win run Let_def moved_def covs_ok_def regs_ok_def)
qed

end
