(* ===== verification/GpuTile.thy ===== *)
theory GpuTile
  imports GpuFast
begin

text \<open>
  The pass of a thread over a tile, fast or slow, and a round of a block: whatever the interleaving of its
  threads, the shared profile ends with the best of each column and row of the tile.
\<close>

subsection \<open>Cells and the updates they stand for\<close>

type_synonym gcell = "nat \<times> nat"

text \<open>The cells of a thread between two rows: its diagonals start at \<open>D\<close>.\<close>

definition cells :: "geometry \<Rightarrow> KernelArgs \<Rightarrow> nat \<Rightarrow> nat \<Rightarrow> nat \<Rightarrow> gcell set" where
  "cells p args D lo hi = {(r, c). lo \<le> r \<and> r < hi \<and> r < nat (k_n_y args) \<and> c < nat (k_n_x args)
     \<and> D + r \<le> c \<and> c < D + r + DiagsPerThread p \<and> c < num_diags_gpu args + r}"

definition cell_cands ::
  "geometry \<Rightarrow> kernel_env \<Rightarrow> KernelArgs \<Rightarrow> fp list \<Rightarrow> nat \<Rightarrow> nat \<Rightarrow> gcell set \<Rightarrow> nat \<Rightarrow> candidates" where
  "cell_cands p env args cov0 tsc tsr S a =
     {e. COMPUTE_COLS p \<and> a < tile_width p
         \<and> (\<exists>r. (r, tsc + a) \<in> S \<and> e = (gpu_corr env args cov0 r (tsc + a), word32 r))}
     \<union> {e. COMPUTE_ROWS p \<and> row_base p \<le> a
         \<and> (\<exists>c. (tsr + (a - row_base p), c) \<in> S \<and> e = (gpu_corr env args cov0 (tsr + (a - row_base p)) c, word32 c))}"

lemma cell_cands_Un: "cell_cands p env args cov0 tsc tsr (S \<union> T) a
    = cell_cands p env args cov0 tsc tsr S a \<union> cell_cands p env args cov0 tsc tsr T a"
  by (auto simp: cell_cands_def)

lemma cell_cands_empty [simp]: "cell_cands p env args cov0 tsc tsr {} a = {}"
  by (auto simp: cell_cands_def)

lemma covers_cells:
  assumes "covers (cell_cands p env args cov0 tsc tsr S) as" "covers (cell_cands p env args cov0 tsc tsr T) bs"
  shows "covers (cell_cands p env args cov0 tsc tsr (S \<union> T)) (as @ bs)"
  by (rule covers_cong [OF covers_append [OF assms]]) (simp add: cell_cands_Un)

lemma cells_split: "lo \<le> m \<Longrightarrow> m \<le> hi \<Longrightarrow> cells p args D lo hi = cells p args D lo m \<union> cells p args D m hi"
  by (auto simp: cells_def)

lemma cells_empty: "hi \<le> lo \<or> nat (k_n_y args) \<le> lo \<or> nat (k_n_x args) \<le> D + lo \<Longrightarrow> cells p args D lo hi = {}"
  by (auto simp: cells_def)

subsection \<open>The fast path\<close>

lemma iteration_cands_cells:
  assumes "placed tsc tsr D info" "iteration_fits p args info" "D + DiagsPerThread p \<le> num_diags_gpu args" "block_geometry_ok p"
  shows "iteration_cands p env args cov0 D info
    = cell_cands p env args cov0 tsc tsr (cells p args D (global_row info) (global_row info + OuterUnrolledRows p))"
proof (rule ext, rule set_eqI)
  fix a e
  let ?S = "cells p args D (global_row info) (global_row info + OuterUnrolledRows p)" and ?r0 = "global_row info"
  have pos: "tsc + local_col info = D + ?r0" "tsr + local_row info = ?r0" using assms(1) by (auto simp: placed_def)
  have fit: "D + ?r0 + OuterUnrolledRows p + DiagsPerThread p \<le> nat (k_n_x args)" "?r0 + OuterUnrolledRows p \<le> nat (k_n_y args)"
      "local_col info + OuterUnrolledRows p + DiagsPerThread p \<le> tile_width p"
    using assms(1,2) by (auto simp: placed_def iteration_fits_def)
  have col: "(\<exists>q < unrolled_cols p. a = local_col info + q \<and> e \<in> col_cands p env args cov0 D ?r0 (OuterUnrolledRows p) q)
      \<longleftrightarrow> a < tile_width p \<and> (\<exists>r. (r, tsc + a) \<in> ?S \<and> e = (gpu_corr env args cov0 r (tsc + a), word32 r))"
  proof
    assume "\<exists>q < unrolled_cols p. a = local_col info + q \<and> e \<in> col_cands p env args cov0 D ?r0 (OuterUnrolledRows p) q"
    then obtain q k where q: "q < unrolled_cols p" "a = local_col info + q" "k < OuterUnrolledRows p" "k \<le> q"
        "q < k + DiagsPerThread p" "e = (gpu_corr env args cov0 (?r0 + k) (D + q + ?r0), word32 (?r0 + k))"
      by (auto simp: col_cands_def)
    have c: "tsc + a = D + q + ?r0" using pos q(2) by simp
    then have "(?r0 + k, tsc + a) \<in> ?S" using q fit assms(3) by (auto simp: cells_def)
    moreover have "a < tile_width p" using q fit by (auto simp: unrolled_cols_def)
    ultimately show "a < tile_width p \<and> (\<exists>r. (r, tsc + a) \<in> ?S \<and> e = (gpu_corr env args cov0 r (tsc + a), word32 r))"
      using q(6) c by metis
  next
    assume "a < tile_width p \<and> (\<exists>r. (r, tsc + a) \<in> ?S \<and> e = (gpu_corr env args cov0 r (tsc + a), word32 r))"
    then obtain r where r: "(r, tsc + a) \<in> ?S" "e = (gpu_corr env args cov0 r (tsc + a), word32 r)" by blast
    have rr: "?r0 \<le> r" "r < ?r0 + OuterUnrolledRows p" "D + r \<le> tsc + a" "tsc + a < D + r + DiagsPerThread p"
      using r(1) by (auto simp: cells_def)
    define q k where "q = a - local_col info" and "k = r - ?r0"
    have "a = local_col info + q" "r = ?r0 + k" using rr pos by (auto simp: q_def k_def)
    then have qk: "a = local_col info + q" "r = ?r0 + k" "tsc + a = D + q + ?r0" using pos by auto
    then have "q < unrolled_cols p" "k < OuterUnrolledRows p" "k \<le> q" "q < k + DiagsPerThread p"
      using rr by (auto simp: unrolled_cols_def)
    moreover have "e = (gpu_corr env args cov0 (?r0 + k) (D + q + ?r0), word32 (?r0 + k))"
      using r(2) by (simp only: qk(2,3))
    ultimately have "e \<in> col_cands p env args cov0 D ?r0 (OuterUnrolledRows p) q" unfolding col_cands_def by blast
    with \<open>q < unrolled_cols p\<close> qk(1)
    show "\<exists>q < unrolled_cols p. a = local_col info + q \<and> e \<in> col_cands p env args cov0 D ?r0 (OuterUnrolledRows p) q"
      by blast
  qed
  have row: "(\<exists>k < OuterUnrolledRows p. a = row_base p + local_row info + k \<and> e \<in> row_cands p env args cov0 D ?r0 k)
      \<longleftrightarrow> row_base p \<le> a \<and> (\<exists>c. (tsr + (a - row_base p), c) \<in> ?S
        \<and> e = (gpu_corr env args cov0 (tsr + (a - row_base p)) c, word32 c))"
  proof
    assume "\<exists>k < OuterUnrolledRows p. a = row_base p + local_row info + k \<and> e \<in> row_cands p env args cov0 D ?r0 k"
    then obtain k i where k: "k < OuterUnrolledRows p" "a = row_base p + local_row info + k" "i < DiagsPerThread p"
        "e = (gpu_corr env args cov0 (?r0 + k) (D + i + (?r0 + k)), word32 (D + i + (?r0 + k)))"
      by (auto simp: row_cands_def)
    have r: "tsr + (a - row_base p) = ?r0 + k" using pos k(2) by simp
    then have "(tsr + (a - row_base p), D + i + (?r0 + k)) \<in> ?S" using k fit assms(3) by (auto simp: cells_def)
    moreover have "e = (gpu_corr env args cov0 (tsr + (a - row_base p)) (D + i + (?r0 + k)), word32 (D + i + (?r0 + k)))"
      using k(4) by (simp only: r)
    ultimately show "row_base p \<le> a \<and> (\<exists>c. (tsr + (a - row_base p), c) \<in> ?S
        \<and> e = (gpu_corr env args cov0 (tsr + (a - row_base p)) c, word32 c))"
      using k(2) by (intro conjI exI [of _ "D + i + (?r0 + k)"]) simp_all
  next
    assume "row_base p \<le> a \<and> (\<exists>c. (tsr + (a - row_base p), c) \<in> ?S
        \<and> e = (gpu_corr env args cov0 (tsr + (a - row_base p)) c, word32 c))"
    then obtain c where c: "row_base p \<le> a" "(tsr + (a - row_base p), c) \<in> ?S"
        "e = (gpu_corr env args cov0 (tsr + (a - row_base p)) c, word32 c)" by blast
    have cc: "?r0 \<le> tsr + (a - row_base p)" "tsr + (a - row_base p) < ?r0 + OuterUnrolledRows p"
        "D + (tsr + (a - row_base p)) \<le> c" "c < D + (tsr + (a - row_base p)) + DiagsPerThread p"
      using c(2) by (auto simp: cells_def)
    define k i where "k = tsr + (a - row_base p) - ?r0" and "i = c - (D + (tsr + (a - row_base p)))"
    have "tsr + (a - row_base p) = ?r0 + k" "c = D + i + (?r0 + k)" "k < OuterUnrolledRows p" "i < DiagsPerThread p"
      using cc by (auto simp: k_def i_def)
    note ki = this
    have a: "a = row_base p + local_row info + k" using c(1) cc(1) pos by (auto simp: k_def)
    have "e = (gpu_corr env args cov0 (?r0 + k) (D + i + (?r0 + k)), word32 (D + i + (?r0 + k)))"
      using c(3) by (simp only: ki(1,2))
    then have "e \<in> row_cands p env args cov0 D ?r0 k" unfolding row_cands_def using ki(4) by blast
    then show "\<exists>k < OuterUnrolledRows p. a = row_base p + local_row info + k \<and> e \<in> row_cands p env args cov0 D ?r0 k"
      using a ki(3) by blast
  qed
  show "e \<in> iteration_cands p env args cov0 D info a \<longleftrightarrow> e \<in> cell_cands p env args cov0 tsc tsr ?S a"
    unfolding iteration_cands_def batch_cands_def cell_cands_def Un_iff mem_Collect_eq using col row by blast
qed

lemma moved_placed: "moved n info info' \<Longrightarrow> placed tsc tsr D info \<Longrightarrow> placed tsc tsr D info'"
  by (auto simp: moved_def placed_def)

text \<open>What a pass leaves: the thread \<open>n\<close> rows on, and accesses that cover its cells of the tile.\<close>

definition pass_ok ::
  "geometry \<Rightarrow> kernel_env \<Rightarrow> KernelArgs \<Rightarrow> fp list \<Rightarrow> mp_entry list \<Rightarrow> nat \<Rightarrow> nat \<Rightarrow> nat \<Rightarrow> nat
   \<Rightarrow> SCAMPThreadInfo \<times> access list \<Rightarrow> bool" where
  "pass_ok p env args cov0 m0 tsc tsr D hi r = (case r of (info, as) \<Rightarrow>
     placed tsc tsr D info \<and> covs_ok p env args cov0 D info
     \<and> covers (cell_cands p env args cov0 tsc tsr (cells p args D tsr hi)) as \<and> self_ok m0 as)"

lemma fast_path_ok:
  assumes mc: "max_numbers_contract (maxNumbers env)" and sm: "smem_ok p env args tsc tsr sm" and g: "block_geometry_ok p"
    and inside: "tsc + tile_width p < nat (k_n_x args)" "tsr + tile_rows p < nat (k_n_y args)"
      "D + DiagsPerThread p \<le> num_diags_gpu args"
    and mem: "length m0 = mp_size p"
    and row: "local_row info \<le> tile_rows p" "OuterUnrolledRows p dvd local_row info"
      "local_col info + (tile_rows p - local_row info) + DiagsPerThread p \<le> tile_width p"
    and pass: "pass_ok p env args cov0 m0 tsc tsr D (global_row info) (info, accs)"
  shows "wp (fast_path p env sm info accs)
    (\<lambda>r. pass_ok p env args cov0 m0 tsc tsr D (tsr + tile_rows p) r \<and> global_row (fst r) = tsr + tile_rows p)"
  using row pass
proof (induction "tile_rows p - local_row info" arbitrary: info accs rule: less_induct)
  case less
  have at: "placed tsc tsr D info" "covs_ok p env args cov0 D info"
    and acc: "covers (cell_cands p env args cov0 tsc tsr (cells p args D tsr (global_row info))) accs" "self_ok m0 accs"
    using less.prems(4) by (auto simp: pass_ok_def)
  show ?case
  proof (cases "tile_rows p \<le> local_row info")
    case True
    then have "global_row info = tsr + tile_rows p" using at less.prems(1) by (simp add: placed_def)
    then show ?thesis using True less.prems(4) by (simp add: fast_path.simps)
  next
    case False
    obtain k where k: "local_row info = OuterUnrolledRows p * k" using less.prems(2) by blast
    have "k < KernelTileIters p"
      using False k g by (auto simp: tile_rows_def block_geometry_ok_def mult.commute not_le)
    then have "OuterUnrolledRows p * Suc k \<le> OuterUnrolledRows p * KernelTileIters p" by (intro mult_left_mono) auto
    then have o: "local_row info + OuterUnrolledRows p \<le> tile_rows p" using k by (simp add: tile_rows_def mult.commute add.commute)
    have fits: "iteration_fits p args info"
      using o less.prems(3) inside at by (auto simp: iteration_fits_def placed_def)
    obtain info' as where it: "do_iteration_fast p env sm info = Some (info', as)" "moved (OuterUnrolledRows p) info info'"
        "covs_ok p env args cov0 D info'" "covers (iteration_cands p env args cov0 D info) as" "self_ok m0 as"
      using do_iteration_fast_ok [OF mc sm at(1) fits g mem at(2)] by blast
    have more: "local_row info < local_row info'" using it(2) g by (simp add: moved_def block_geometry_ok_def)
    have "covers (cell_cands p env args cov0 tsc tsr (cells p args D tsr (global_row info)
        \<union> cells p args D (global_row info) (global_row info + OuterUnrolledRows p))) (accs @ as)"
      using covers_cells [OF acc(1)] it(4) iteration_cands_cells [OF at(1) fits inside(3) g] by simp
    then have "covers (cell_cands p env args cov0 tsc tsr (cells p args D tsr (global_row info'))) (accs @ as)"
      using it(2) at(1) cells_split [of tsr "global_row info" "global_row info'" p args D] by (simp add: moved_def placed_def)
    then have "pass_ok p env args cov0 m0 tsc tsr D (global_row info') (info', accs @ as)"
      using it acc(2) moved_placed [OF it(2) at(1)] by (auto simp: pass_ok_def)
    then have "wp (fast_path p env sm info' (accs @ as))
        (\<lambda>r. pass_ok p env args cov0 m0 tsc tsr D (tsr + tile_rows p) r \<and> global_row (fst r) = tsr + tile_rows p)"
      using less.prems o it(2) more by (intro less.hyps) (auto simp: moved_def)
    then show ?thesis using False it(1) more by (simp add: fast_path.simps [of p env sm info])
  qed
qed

subsection \<open>The slow path\<close>

definition in_bounds :: "geometry \<Rightarrow> nat \<Rightarrow> SCAMPThreadInfo \<Rightarrow> nat \<Rightarrow> nat \<Rightarrow> nat \<Rightarrow> bool" where
  "in_bounds p n_x info diag n_diags i \<longleftrightarrow> global_col info + i < n_x \<and> diag + i < n_diags"

lemma reduce_edges:
  "\<exists>row. fold (reduce_edge p n_x info ds diag n_diags) [0..<n] ((dist_lowest, 0), []) =
     (row, if COMPUTE_COLS p
       then map (\<lambda>i. Max_entry (local_col info + i) (ds ! i) (word32 (global_row info)) Always)
              (filter (in_bounds p n_x info diag n_diags) [0..<n]) else [])
   \<and> (COMPUTE_ROWS p \<longrightarrow> best_reg {(ds ! i, word32 (global_col info + i)) | i. i < n \<and> in_bounds p n_x info diag n_diags i} row)"
proof (induction n)
  case (Suc n)
  then obtain row where row: "fold (reduce_edge p n_x info ds diag n_diags) [0..<n] ((dist_lowest, 0), []) =
     (row, if COMPUTE_COLS p
       then map (\<lambda>i. Max_entry (local_col info + i) (ds ! i) (word32 (global_row info)) Always)
              (filter (in_bounds p n_x info diag n_diags) [0..<n]) else [])"
    and best: "COMPUTE_ROWS p \<Longrightarrow> best_reg {(ds ! i, word32 (global_col info + i)) | i. i < n \<and> in_bounds p n_x info diag n_diags i} row"
    by blast
  have set: "{(ds ! i, word32 (global_col info + i)) | i. i < Suc n \<and> in_bounds p n_x info diag n_diags i} =
      (if in_bounds p n_x info diag n_diags n
       then insert (ds ! n, word32 (global_col info + n)) {(ds ! i, word32 (global_col info + i)) | i. i < n \<and> in_bounds p n_x info diag n_diags i}
       else {(ds ! i, word32 (global_col info + i)) | i. i < n \<and> in_bounds p n_x info diag n_diags i})"
    by (auto simp: less_Suc_eq)
  show ?case
  proof (cases "in_bounds p n_x info diag n_diags n")
    case True
    let ?row = "if COMPUTE_ROWS p \<and> fgt (ds ! n) (fst row) then (ds ! n, word32 (global_col info + n)) else row"
    have "COMPUTE_ROWS p \<longrightarrow> best_reg (insert (ds ! n, word32 (global_col info + n))
        {(ds ! i, word32 (global_col info + i)) | i. i < n \<and> in_bounds p n_x info diag n_diags i}) ?row"
      using best_reg_insert [OF best, of "ds ! n" "word32 (global_col info + n)"] by simp
    moreover have "global_col info + n < n_x \<and> diag + n < n_diags" using True by (simp add: in_bounds_def)
    ultimately show ?thesis
      unfolding set upt_Suc_append [OF le0] fold_append comp_apply row fold_simps using True
      by (intro exI [of _ ?row]) (simp add: reduce_edge_def)
  next
    case False
    then have "\<not> (global_col info + n < n_x \<and> diag + n < n_diags)" by (simp add: in_bounds_def)
    then show ?thesis
      unfolding set upt_Suc_append [OF le0] fold_append comp_apply row fold_simps using False best
      by (intro exI [of _ row]) (auto simp: reduce_edge_def)
  qed
qed simp

lemma do_row_edge_ok:
  assumes sm: "smem_ok p env args tsc tsr sm" and g: "block_geometry_ok p" and mem: "length m0 = mp_size p"
    and at: "placed tsc tsr D info" and cov: "covs_ok p env args cov0 D info"
    and inside: "global_col info < nat (k_n_x args)" "global_row info < nat (k_n_y args)" "local_row info < tile_rows p"
      "local_col info + DiagsPerThread p \<le> tile_width p"
    and low: "COMPUTE_ROWS p \<Longrightarrow> \<not> flt (floats0 (m0 ! (row_base p + local_row info))) dist_lowest"
  shows "\<exists>info' as. do_row_edge p env (nat (k_n_x args)) sm info D (num_diags_gpu args) = Some (info', as)
    \<and> covs_ok p env args cov0 D (next_row (info\<lparr>g_cov := g_cov info'\<rparr>))
    \<and> covers (cell_cands p env args cov0 tsc tsr (cells p args D (global_row info) (Suc (global_row info)))) as \<and> self_ok m0 as"
proof -
  let ?r = "global_row info" and ?l = "local_row info" and ?c = "local_col info" and ?d = "DiagsPerThread p"
    and ?n_x = "nat (k_n_x args)"
  have pos: "tsc + ?c = D + ?r" "tsr + ?l = ?r" "global_col info = D + ?r" using at by (auto simp: placed_def)
  have row: "aget dst (int ?l) = Some (fcast (rd_data env) (src ! ?r))" if "row_data p env args tsr src dst" for src dst
  proof -
    have "length dst = tile_rows p" "dst ! ?l = fcast (rd_data env) (src ! (tsr + ?l))"
      using that inside pos(2) unfolding row_data_def by simp_all
    then show ?thesis using inside(3) by (simp add: pos(2))
  qed
  have col: "nslice dst ?c ?d = Some (take ?d (drop ?c dst))"
      "\<And>i. i < ?d \<Longrightarrow> global_col info + i < ?n_x \<Longrightarrow> take ?d (drop ?c dst) ! (0 + i) = fcast (rd_data env) (src ! (D + i + ?r))"
    if "col_data p env args tsc src dst" for src dst
  proof -
    have len: "length dst = tile_width p" using that by (simp add: col_data_def)
    then show "nslice dst ?c ?d = Some (take ?d (drop ?c dst))" using inside(4) by simp
    fix i assume i: "i < ?d" "global_col info + i < ?n_x"
    have "take ?d (drop ?c dst) ! (0 + i) = dst ! (?c + i)" using i inside(4) len by simp
    also have "\<dots> = fcast (rd_data env) (src ! (tsc + (?c + i)))"
      using that i inside(4) pos unfolding col_data_def by (auto simp: add.assoc [symmetric])
    also have "tsc + (?c + i) = D + i + ?r" using pos by simp
    finally show "take ?d (drop ?c dst) ! (0 + i) = fcast (rd_data env) (src ! (D + i + ?r))" .
  qed
  note data = sm [unfolded smem_ok_def]
  note dfr = row [of "k_dfb args" "df_row sm"] and dgr = row [of "k_dgb args" "dg_row sm"]
    and inormr = row [of "k_normsb args" "inorm_row sm"]
    and dfc = col [of "k_dfa args" "df_col sm"] and dgc = col [of "k_dga args" "dg_col sm"]
    and inormc = col [of "k_normsa args" "inorm_col sm"]
  define ds where "ds = distances env (g_cov info) (take ?d (drop ?c (inorm_col sm))) 0 (fcast (rd_data env) (k_normsb args ! ?r))"
  define cov' where "cov' = advance env (g_cov info) (take ?d (drop ?c (df_col sm))) (take ?d (drop ?c (dg_col sm))) 0
    (fcast (rd_data env) (k_dfb args ! ?r)) (fcast (rd_data env) (k_dgb args ! ?r))"
  have len: "length (g_cov info) = ?d" using cov by (simp add: covs_ok_def)
  have g_cov: "g_cov info ! i = gpu_cov (rd_data env) args cov0 (D + i) ?r" if "i < ?d" "global_col info + i < ?n_x" for i
    using cov that by (simp add: covs_ok_def)
  have ds: "ds ! i = gpu_corr env args cov0 ?r (D + i + ?r)" if "i < ?d" "global_col info + i < ?n_x" for i
    unfolding ds_def using that len g_cov inormc data by (intro distances_nth) auto
  have cov': "cov' ! i = gpu_cov (rd_data env) args cov0 (D + i) (Suc ?r)" if "i < ?d" "global_col info + i < ?n_x" for i
    unfolding cov'_def using that len g_cov dfc dgc data by (intro advance_nth) auto
  let ?in = "in_bounds p ?n_x info D (num_diags_gpu args)"
  obtain best where best: "fold (reduce_edge p ?n_x info ds D (num_diags_gpu args)) [0..<?d] ((dist_lowest, 0), []) =
     (best, if COMPUTE_COLS p then map (\<lambda>i. Max_entry (?c + i) (ds ! i) (word32 ?r) Always) (filter ?in [0..<?d]) else [])"
    "COMPUTE_ROWS p \<Longrightarrow> best_reg {(ds ! i, word32 (global_col info + i)) | i. i < ?d \<and> ?in i} best"
    using reduce_edges [of p ?n_x info ds D "num_diags_gpu args" ?d] by blast
  let ?cols = "if COMPUTE_COLS p then map (\<lambda>i. Max_entry (?c + i) (ds ! i) (word32 ?r) Always) (filter ?in [0..<?d]) else []"
    and ?rows = "if COMPUTE_ROWS p then reduce_row p info best else []"
  have run: "do_row_edge p env ?n_x sm info D (num_diags_gpu args) = Some (info\<lparr>g_cov := cov'\<rparr>, ?cols @ ?rows)"
  proof -
    have "aget (inorm_row sm) (int ?l) = Some (fcast (rd_data env) (k_normsb args ! ?r))"
      "aget (dg_row sm) (int ?l) = Some (fcast (rd_data env) (k_dgb args ! ?r))"
      "aget (df_row sm) (int ?l) = Some (fcast (rd_data env) (k_dfb args ! ?r))"
      "nslice (inorm_col sm) ?c ?d = Some (take ?d (drop ?c (inorm_col sm)))"
      "nslice (df_col sm) ?c ?d = Some (take ?d (drop ?c (df_col sm)))"
      "nslice (dg_col sm) ?c ?d = Some (take ?d (drop ?c (dg_col sm)))"
      using data by (blast intro: dfr dgr inormr dfc(1) dgc(1) inormc(1))+
    then show ?thesis
      by (simp only: do_row_edge_def Option.bind_lunit Let_def ds_def [symmetric] cov'_def [symmetric] best(1) prod.case)
  qed
  have covs: "covs_ok p env args cov0 D (next_row (info\<lparr>g_cov := cov'\<rparr>))"
    using cov' len by (auto simp: covs_ok_def next_row_def cov'_def)
  have cell: "(?r, D + i + ?r) \<in> cells p args D ?r (Suc ?r) \<longleftrightarrow> i < ?d \<and> ?in i" for i
    using inside(2) pos by (auto simp: cells_def in_bounds_def)
  have cell': "\<exists>i. c = D + i + r \<and> r = ?r \<and> i < ?d \<and> ?in i" if "(r, c) \<in> cells p args D ?r (Suc ?r)" for r c
  proof -
    have "c = D + (c - D - ?r) + ?r" "r = ?r" using that by (auto simp: cells_def)
    then show ?thesis using cell [of "c - D - ?r"] that by metis
  qed
  have C: "Max_entry a v x ck \<in> set ?cols \<longleftrightarrow>
      COMPUTE_COLS p \<and> (\<exists>i < ?d. ?in i \<and> a = ?c + i \<and> v = ds ! i \<and> x = word32 ?r \<and> ck = Always)" for a v x ck
    by (auto simp: image_iff)
  have R: "Max_entry a v x ck \<in> set ?rows \<longleftrightarrow>
      COMPUTE_ROWS p \<and> a = row_base p + ?l \<and> (v, x) = best \<and> ck = Above dist_lowest" for a v x ck
    by (cases best) (auto simp: reduce_row_def)
  have val: "ds ! i = gpu_corr env args cov0 ?r (D + i + ?r)" if "i < ?d" "?in i" for i
    using ds that by (simp add: in_bounds_def)
  let ?S = "cells p args D ?r (Suc ?r)"
  have covers: "covers (cell_cands p env args cov0 tsc tsr ?S) (?cols @ ?rows)"
    unfolding covers_def set_append Un_iff C R
  proof (intro conjI allI impI ballI)
    fix a v x ck
    assume "COMPUTE_COLS p \<and> (\<exists>i < ?d. ?in i \<and> a = ?c + i \<and> v = ds ! i \<and> x = word32 ?r \<and> ck = Always)
      \<or> COMPUTE_ROWS p \<and> a = row_base p + ?l \<and> (v, x) = best \<and> ck = Above dist_lowest"
    then show "v = dist_lowest \<or> (v, x) \<in> cell_cands p env args cov0 tsc tsr ?S a"
    proof (elim disjE conjE exE)
      fix i assume i: "COMPUTE_COLS p" "i < ?d" "?in i" "a = ?c + i" "v = ds ! i" "x = word32 ?r"
      have e: "tsc + a = D + i + ?r" using i(4) pos by simp
      have "(v, x) \<in> cell_cands p env args cov0 tsc tsr ?S a"
        unfolding cell_cands_def e using i cell [of i] val [of i] inside(4)
        by (intro UnI1 CollectI conjI exI [of _ ?r]) auto
      then show ?thesis by blast
    next
      assume r: "COMPUTE_ROWS p" "a = row_base p + ?l" "(v, x) = best"
      have e: "tsr + (a - row_base p) = ?r" using r(2) pos by simp
      have "v = dist_lowest \<or> (\<exists>i < ?d. ?in i \<and> v = ds ! i \<and> x = word32 (global_col info + i))"
        using best(2) [OF r(1)] r(3) by (auto simp: best_reg_def)
      then show ?thesis
      proof (elim disjE exE conjE)
        fix i assume i: "i < ?d" "?in i" "v = ds ! i" "x = word32 (global_col info + i)"
        have c: "global_col info + i = D + i + ?r" using pos by simp
        have "(v, x) \<in> cell_cands p env args cov0 tsc tsr ?S a"
          unfolding cell_cands_def e using r i(4) cell [of i] i(1,2) val [OF i(1,2)] i(3)
          by (intro UnI2 CollectI conjI exI [of _ "D + i + ?r"]) (auto simp: c)
        then show ?thesis by blast
      qed blast
    qed
  next
    fix a e assume "e \<in> cell_cands p env args cov0 tsc tsr ?S a"
    then consider (col) r where "COMPUTE_COLS p" "(r, tsc + a) \<in> ?S" "e = (gpu_corr env args cov0 r (tsc + a), word32 r)"
      | (row) c where "COMPUTE_ROWS p" "row_base p \<le> a" "(tsr + (a - row_base p), c) \<in> ?S"
          "e = (gpu_corr env args cov0 (tsr + (a - row_base p)) c, word32 c)"
      unfolding cell_cands_def by blast
    then show "case e of (v, x) \<Rightarrow> is_nan v \<or> (\<exists>w y ck. (COMPUTE_COLS p
          \<and> (\<exists>i < ?d. ?in i \<and> a = ?c + i \<and> w = ds ! i \<and> y = word32 ?r \<and> ck = Always)
        \<or> COMPUTE_ROWS p \<and> a = row_base p + ?l \<and> (w, y) = best \<and> ck = Above dist_lowest) \<and> fle v w)"
    proof cases
      case col
      obtain i where i: "tsc + a = D + i + r" "r = ?r" "i < ?d" "?in i" using cell' [OF col(2)] by blast
      then have a: "a = ?c + i" and e: "e = (ds ! i, word32 ?r)" using pos val [of i] col(3) by simp_all
      show ?thesis
      proof (cases "is_nan (ds ! i)")
        case False
        then have "fle (ds ! i) (ds ! i)" by simp
        then show ?thesis unfolding e prod.case using col(1) a i(3,4) by blast
      qed (simp add: e)
    next
      case row
      obtain i where i: "c = D + i + ?r" "tsr + (a - row_base p) = ?r" "i < ?d" "?in i" using cell' [OF row(3)] by auto
      have "a = row_base p + ?l" using i(2) row(2) pos by simp
      moreover have "e = (ds ! i, word32 (global_col info + i))"
        using row(4) i val [of i] pos by (simp add: add.commute add.left_commute)
      moreover have "is_nan (ds ! i) \<or> fle (ds ! i) (fst best)"
        using best(2) [OF row(1)] i unfolding best_reg_def by blast
      ultimately show ?thesis using row(1) by (metis (mono_tags, lifting) case_prodI prod.collapse)
    qed
  qed
  have ok: "self_ok m0 (?cols @ ?rows)"
  proof (rule self_ok_append)
    have "prog_ok m0 addrs (map (\<lambda>i. Max_entry (?c + i) (ds ! i) (word32 ?r) Always) is)"
      if "\<forall>i \<in> set is. ?c + i < length m0" for addrs "is"
      using that by (induction "is") auto
    then show "self_ok m0 ?cols" using inside(4) mem by (auto simp: self_ok_def mp_size_def row_base_def)
    show "self_ok m0 ?rows"
      using inside(3) mem low by (auto simp: self_ok_def reduce_row_def mp_size_def dist_lowest_def)
  qed
  show ?thesis using run covs covers ok by auto
qed

lemma slow_path_ok:
  assumes sm: "smem_ok p env args tsc tsr sm" and g: "block_geometry_ok p" and mem: "length m0 = mp_size p"
    and low: "\<And>l. COMPUTE_ROWS p \<Longrightarrow> l < tile_rows p \<Longrightarrow> tsr + l < nat (k_n_y args) \<Longrightarrow>
      \<not> flt (floats0 (m0 ! (row_base p + l))) dist_lowest"
    and row: "local_row info \<le> tile_rows p" "local_col info + (tile_rows p - local_row info) + DiagsPerThread p \<le> tile_width p"
    and pass: "pass_ok p env args cov0 m0 tsc tsr D (global_row info) (info, accs)"
  shows "wp (slow_path p env (nat (k_n_x args)) (nat (k_n_y args)) sm D (num_diags_gpu args) info accs)
    (\<lambda>r. pass_ok p env args cov0 m0 tsc tsr D (tsr + tile_rows p) r \<and> global_row (fst r) \<le> tsr + tile_rows p
       \<and> (global_row (fst r) = tsr + tile_rows p \<or> nat (k_n_x args) \<le> global_col (fst r) \<or> nat (k_n_y args) \<le> global_row (fst r)))"
  using row pass
proof (induction "tile_rows p - local_row info" arbitrary: info accs rule: less_induct)
  case less
  have at: "placed tsc tsr D info" "covs_ok p env args cov0 D info"
    and acc: "covers (cell_cands p env args cov0 tsc tsr (cells p args D tsr (global_row info))) accs" "self_ok m0 accs"
    using less.prems(3) by (auto simp: pass_ok_def)
  have pos: "tsr + local_row info = global_row info" "global_col info = D + global_row info" using at(1) by (auto simp: placed_def)
  show ?case
  proof (cases "global_col info < nat (k_n_x args) \<and> global_row info < nat (k_n_y args) \<and> local_row info < tile_rows p")
    case False
    then have "cells p args D (global_row info) (tsr + tile_rows p) = {}"
      using pos less.prems(1) by (intro cells_empty) auto
    then have "cells p args D tsr (tsr + tile_rows p) = cells p args D tsr (global_row info)"
      using cells_split [of tsr "global_row info" "tsr + tile_rows p" p args D] pos less.prems(1) by simp
    then show ?thesis using False less.prems pos by (auto simp: slow_path.simps pass_ok_def)
  next
    case True
    have "\<not> flt (floats0 (m0 ! (row_base p + local_row info))) dist_lowest" if "COMPUTE_ROWS p"
      using low [OF that, of "local_row info"] True pos by simp
    then obtain info' as where it: "do_row_edge p env (nat (k_n_x args)) sm info D (num_diags_gpu args) = Some (info', as)"
        "covs_ok p env args cov0 D (next_row (info\<lparr>g_cov := g_cov info'\<rparr>))"
        "covers (cell_cands p env args cov0 tsc tsr (cells p args D (global_row info) (Suc (global_row info)))) as" "self_ok m0 as"
      using do_row_edge_ok [OF sm g mem at] True less.prems(2) by (metis add_leD1 add.commute add.left_commute)
    let ?info = "next_row (info\<lparr>g_cov := g_cov info'\<rparr>)"
    have "cells p args D tsr (Suc (global_row info)) = cells p args D tsr (global_row info)
        \<union> cells p args D (global_row info) (Suc (global_row info))"
      using pos by (intro cells_split) auto
    then have "covers (cell_cands p env args cov0 tsc tsr (cells p args D tsr (Suc (global_row info)))) (accs @ as)"
      using covers_cells [OF acc(1) it(3)] by simp
    then have "pass_ok p env args cov0 m0 tsc tsr D (global_row ?info) (?info, accs @ as)"
      using it(2,4) acc(2) at(1) by (auto simp: pass_ok_def next_row_def placed_def)
    then have "wp (slow_path p env (nat (k_n_x args)) (nat (k_n_y args)) sm D (num_diags_gpu args) ?info (accs @ as))
        (\<lambda>r. pass_ok p env args cov0 m0 tsc tsr D (tsr + tile_rows p) r \<and> global_row (fst r) \<le> tsr + tile_rows p
       \<and> (global_row (fst r) = tsr + tile_rows p \<or> nat (k_n_x args) \<le> global_col (fst r) \<or> nat (k_n_y args) \<le> global_row (fst r)))"
      using less.prems True by (intro less.hyps) (auto simp: next_row_def)
    then show ?thesis using True it(1) by (simp add: slow_path.simps [of p env "nat (k_n_x args)"])
  qed
qed

subsection \<open>A thread in a tile\<close>

text \<open>Between two tiles a thread is at the first row of the next one, or its diagonals have left the matrix.\<close>

definition thread_inv :: "geometry \<Rightarrow> kernel_env \<Rightarrow> KernelArgs \<Rightarrow> fp list \<Rightarrow> nat \<Rightarrow> nat \<Rightarrow> SCAMPThreadInfo \<Rightarrow> bool" where
  "thread_inv p env args cov0 D tsr info \<longleftrightarrow> covs_ok p env args cov0 D info \<and> global_col info = D + global_row info
     \<and> global_row info \<le> tsr
     \<and> (global_row info = tsr \<or> nat (k_n_x args) \<le> global_col info \<or> nat (k_n_y args) \<le> global_row info)"

definition lowest_rows :: "geometry \<Rightarrow> KernelArgs \<Rightarrow> nat \<Rightarrow> mp_entry list \<Rightarrow> bool" where
  "lowest_rows p args tsr m0 \<longleftrightarrow> (COMPUTE_ROWS p \<longrightarrow> (\<forall>l < tile_rows p. tsr + l < nat (k_n_y args) \<longrightarrow>
     \<not> flt (floats0 (m0 ! (row_base p + l))) dist_lowest))"

lemma thread_tile_ok:
  assumes mc: "max_numbers_contract (maxNumbers env)" and sm: "smem_ok p env args (tile_start_col B) (tile_start_row B) sm"
    and g: "block_geometry_ok p" and mem: "length m0 = mp_size p" "lowest_rows p args (tile_start_row B) m0"
    and t: "t < BLOCKSZ p" and D: "D = start_diag p args (blockIdx B) t"
    and start: "tile_start_col B = start_diag p args (blockIdx B) 0 + tile_start_row B"
    and inv: "D < num_diags_gpu args \<Longrightarrow> thread_inv p env args cov0 D (tile_start_row B) (threads B ! t)"
  shows "wp (thread_tile p env args B sm t) (\<lambda>(info, as). self_ok m0 as
    \<and> covers (cell_cands p env args cov0 (tile_start_col B) (tile_start_row B)
         (cells p args D (tile_start_row B) (tile_start_row B + tile_rows p))) as
    \<and> (D < num_diags_gpu args \<longrightarrow> thread_inv p env args cov0 D (tile_start_row B + tile_rows p) info))"
proof -
  let ?tsc = "tile_start_col B" and ?tsr = "tile_start_row B" and ?n_x = "nat (k_n_x args)" and ?n_y = "nat (k_n_y args)"
  define info where "info = (threads B ! t)\<lparr>local_col := t * DiagsPerThread p, local_row := 0\<rparr>"
  have col: "?tsc + t * DiagsPerThread p = D + ?tsr" using start D by (simp add: start_diag_def)
  have "Suc t * DiagsPerThread p \<le> BLOCKSZ p * DiagsPerThread p" using t by (intro mult_right_mono) auto
  then have wide: "t * DiagsPerThread p + tile_rows p + DiagsPerThread p \<le> tile_width p" by (simp add: tile_width_def)
  show ?thesis
  proof (cases "D < num_diags_gpu args")
    case False
    then have none: "cells p args D ?tsr (?tsr + tile_rows p) = {}" by (auto simp: cells_def)
    have "\<not> D + DiagsPerThread p \<le> num_diags_gpu args" using False g by (auto simp: block_geometry_ok_def)
    then show ?thesis using False none D by (simp add: thread_tile_def Let_def covers_def)
  next
    case True
    have I: "covs_ok p env args cov0 D info" "global_col info = D + global_row info" "global_row info \<le> ?tsr"
        "global_row info = ?tsr \<or> ?n_x \<le> global_col info \<or> ?n_y \<le> global_row info"
      using inv [OF True] by (auto simp: thread_inv_def info_def covs_ok_def)
    show ?thesis
    proof (cases "global_row info = ?tsr")
      case here: True
      have at: "placed ?tsc ?tsr D info" using here I(2) col by (auto simp: placed_def info_def)
      have "cells p args D ?tsr (global_row info) = {}" using here by (intro cells_empty) simp
      then have pass: "pass_ok p env args cov0 m0 ?tsc ?tsr D (global_row info) (info, [])"
        using at I(1) by (simp add: pass_ok_def covers_def)
      have loc: "local_row info = 0" "local_col info = t * DiagsPerThread p" by (simp_all add: info_def)
      show ?thesis
      proof (cases "?tsc + tile_width p < ?n_x \<and> ?tsr + tile_rows p < ?n_y \<and> D + DiagsPerThread p \<le> num_diags_gpu args")
        case True
        then have run: "thread_tile p env args B sm t = fast_path p env sm info []"
          by (simp add: thread_tile_def Let_def D info_def)
        show ?thesis unfolding run
          by (rule wp_mono [OF fast_path_ok [OF mc sm g _ _ _ mem(1) _ _ _ pass]])
            (use True wide loc in \<open>auto simp: pass_ok_def thread_inv_def placed_def split: prod.splits\<close>)
      next
        case False
        then have run: "thread_tile p env args B sm t = slow_path p env ?n_x ?n_y sm D (num_diags_gpu args) info []"
          using \<open>D < num_diags_gpu args\<close> by (auto simp: thread_tile_def Let_def D info_def)
        show ?thesis unfolding run
          by (rule wp_mono [OF slow_path_ok [OF sm g mem(1) _ _ _ pass]])
            (use mem(2) wide loc in \<open>auto simp: pass_ok_def thread_inv_def placed_def lowest_rows_def split: prod.splits\<close>)
      qed
    next
      case gone: False
      then have out: "?n_x \<le> global_col info \<or> ?n_y \<le> global_row info" using I(4) by blast
      then have none: "cells p args D ?tsr (?tsr + tile_rows p) = {}" using I(2,3) by (intro cells_empty) auto
      have "t * DiagsPerThread p < tile_width p" using wide g by (auto simp: block_geometry_ok_def)
      then have "\<not> (?tsc + tile_width p < ?n_x \<and> ?tsr + tile_rows p < ?n_y)" using out I(2,3) col by auto
      then have run: "thread_tile p env args B sm t = slow_path p env ?n_x ?n_y sm D (num_diags_gpu args) info []"
        using True by (auto simp: thread_tile_def Let_def D info_def)
      have "slow_path p env ?n_x ?n_y sm D (num_diags_gpu args) info [] = Some (info, [])"
        using out by (auto simp: slow_path.simps)
      then show ?thesis using none I out by (auto simp: run thread_inv_def covers_def)
    qed
  qed
qed

subsection \<open>Copying\<close>

lemma positions_set:
  "0 < bsz \<Longrightarrow> (x, y) \<in> set (positions bsz l g n m) \<longleftrightarrow> (\<exists>i. x = l + i * bsz \<and> y = g + i * bsz \<and> x < n \<and> y < m)"
proof (induction bsz l g n m rule: positions.induct)
  case (1 bsz l g n m)
  show ?case
  proof (cases "l < n \<and> g < m")
    case True
    have "(x, y) \<in> set (positions bsz l g n m) \<longleftrightarrow> (x, y) = (l, g)
        \<or> (\<exists>i. x = l + bsz + i * bsz \<and> y = g + bsz + i * bsz \<and> x < n \<and> y < m)"
      using 1 True by (subst positions.simps) simp
    also have "\<dots> \<longleftrightarrow> (\<exists>i. x = l + i * bsz \<and> y = g + i * bsz \<and> x < n \<and> y < m)"
    proof
      assume "(x, y) = (l, g) \<or> (\<exists>i. x = l + bsz + i * bsz \<and> y = g + bsz + i * bsz \<and> x < n \<and> y < m)"
      then show "\<exists>i. x = l + i * bsz \<and> y = g + i * bsz \<and> x < n \<and> y < m"
      proof
        assume "(x, y) = (l, g)"
        then show ?thesis using True by (intro exI [of _ 0]) simp
      next
        assume "\<exists>i. x = l + bsz + i * bsz \<and> y = g + bsz + i * bsz \<and> x < n \<and> y < m"
        then obtain i where "x = l + bsz + i * bsz \<and> y = g + bsz + i * bsz \<and> x < n \<and> y < m" by blast
        then show ?thesis by (intro exI [of _ "Suc i"]) simp
      qed
    next
      assume "\<exists>i. x = l + i * bsz \<and> y = g + i * bsz \<and> x < n \<and> y < m"
      then obtain i where i: "x = l + i * bsz" "y = g + i * bsz" "x < n" "y < m" by blast
      show "(x, y) = (l, g) \<or> (\<exists>i. x = l + bsz + i * bsz \<and> y = g + bsz + i * bsz \<and> x < n \<and> y < m)"
        using i by (cases i) auto
    qed
    finally show ?thesis .
  next
    case False
    then show ?thesis by (subst positions.simps) auto
  qed
qed

definition copied :: "('a \<Rightarrow> 'b) \<Rightarrow> 'a list \<Rightarrow> nat \<Rightarrow> nat set \<Rightarrow> 'b list \<Rightarrow> 'b list \<Rightarrow> bool" where
  "copied f src start W dst dst' \<longleftrightarrow> length dst' = length dst
     \<and> (\<forall>k < length dst. dst' ! k = (if k \<in> W then f (src ! (start + k)) else dst ! k))"

lemma copy_list:
  assumes "\<forall>(l, g) \<in> set ps. l < length dst \<and> g < length src \<and> g = start + l"
    and "copied f src start W dst0 dst"
  shows "wp (forlist (\<lambda>(l, g) dst. do { v \<leftarrow> aget src (int g); aset dst (int l) (f v) }) ps dst)
    (copied f src start (W \<union> fst ` set ps) dst0)"
  using assms
proof (induction ps arbitrary: dst W)
  case (Cons x ps)
  obtain l g where x: "x = (l, g)" by (cases x)
  have lg: "l < length dst" "g < length src" "g = start + l" using Cons.prems(1) x by auto
  have "copied f src start (insert l W) dst0 (dst[l := f (src ! g)])"
    using Cons.prems(2) lg by (auto simp: copied_def nth_list_update)
  then have "wp (forlist (\<lambda>(l, g) dst. do { v \<leftarrow> aget src (int g); aset dst (int l) (f v) }) ps (dst[l := f (src ! g)]))
      (copied f src start (insert l W \<union> fst ` set ps) dst0)"
    using Cons.prems(1) by (intro Cons.IH) auto
  moreover have "aget src (int g) = Some (src ! g)" "aset dst (int l) v = Some (dst[l := v])" for v
    using lg(1,2) by simp_all
  ultimately show ?case by (simp add: x del: lg(3))
qed simp

lemma copy_region_ok:
  assumes "0 < BLOCKSZ p" "n_local \<le> length dst" "n_global \<le> length src"
  shows "wp (copy_region p f src start n_local n_global dst)
    (copied f src start {l. l < n_local \<and> start + l < n_global} dst)"
proof -
  let ?W = "\<lambda>n. {l. l < n_local \<and> start + l < n_global \<and> l mod BLOCKSZ p < n}"
  have pos: "fst ` set (positions (BLOCKSZ p) t (start + t) n_local n_global)
      = {l. l < n_local \<and> start + l < n_global \<and> l mod BLOCKSZ p = t}" if "t < BLOCKSZ p" for t
  proof (rule set_eqI)
    fix l
    have "l \<in> fst ` set (positions (BLOCKSZ p) t (start + t) n_local n_global)
        \<longleftrightarrow> (\<exists>i. l = t + i * BLOCKSZ p \<and> l < n_local \<and> start + l < n_global)"
    proof
      assume "l \<in> fst ` set (positions (BLOCKSZ p) t (start + t) n_local n_global)"
      then show "\<exists>i. l = t + i * BLOCKSZ p \<and> l < n_local \<and> start + l < n_global"
        using positions_set [OF assms(1)] by (auto simp: add.assoc)
    next
      assume "\<exists>i. l = t + i * BLOCKSZ p \<and> l < n_local \<and> start + l < n_global"
      then have "(l, start + l) \<in> set (positions (BLOCKSZ p) t (start + t) n_local n_global)"
        unfolding positions_set [OF assms(1)] by (auto simp: add.assoc)
      then show "l \<in> fst ` set (positions (BLOCKSZ p) t (start + t) n_local n_global)" by force
    qed
    also have "\<dots> \<longleftrightarrow> l < n_local \<and> start + l < n_global \<and> l mod BLOCKSZ p = t"
      using that by (auto intro: exI [of _ "l div BLOCKSZ p"] simp: mod_mult_self1)
    finally show "l \<in> fst ` set (positions (BLOCKSZ p) t (start + t) n_local n_global)
        \<longleftrightarrow> l \<in> {l. l < n_local \<and> start + l < n_global \<and> l mod BLOCKSZ p = t}" by simp
  qed
  have "wp (copy_region p f src start n_local n_global dst) (copied f src start (?W (BLOCKSZ p)) dst)"
    unfolding copy_region_def
  proof (rule wp_upt [where I = "\<lambda>t. copied f src start (?W t) dst"])
    show "copied f src start (?W 0) dst dst" by (simp add: copied_def)
    fix t dst' assume t: "t < BLOCKSZ p" and I: "copied f src start (?W t) dst dst'"
    have "wp (copy_thread p f src start n_local n_global t dst')
        (copied f src start (?W t \<union> fst ` set (positions (BLOCKSZ p) t (start + t) n_local n_global)) dst)"
      unfolding copy_thread_def
    proof (rule copy_list [OF _ I])
      show "\<forall>(l, g) \<in> set (positions (BLOCKSZ p) t (start + t) n_local n_global). l < length dst' \<and> g < length src \<and> g = start + l"
        using I assms positions_set [OF assms(1)] by (fastforce simp: copied_def)
    qed
    moreover have "?W t \<union> fst ` set (positions (BLOCKSZ p) t (start + t) n_local n_global) = ?W (Suc t)"
      unfolding pos [OF t] by auto
    ultimately show "wp (copy_thread p f src start n_local n_global t dst') (copied f src start (?W (Suc t)) dst)" by simp
  qed
  moreover have "?W (BLOCKSZ p) = {l. l < n_local \<and> start + l < n_global}" using assms(1) by auto
  ultimately show ?thesis by simp
qed

end
