(* ===== verification/GpuBlock.thy ===== *)
theory GpuBlock
  imports GpuTile
begin

text \<open>
  A round of a block: the copies to shared memory, the passes of its threads in any interleaving, and the
  updates it sends to the global profiles. Each of them is an entry the threads read or the value and position
  of a cell of the tile, and none of the tile's cells of that column or row is above it.
\<close>

subsection \<open>The arguments of a launch\<close>

definition arrays_ok :: "KernelArgs \<Rightarrow> fp list \<Rightarrow> bool" where
  "arrays_ok args cov0 \<longleftrightarrow> nat (k_n_x args) \<le> length cov0
     \<and> nat (k_n_x args) \<le> length (k_normsa args) \<and> nat (k_n_y args) \<le> length (k_normsb args)
     \<and> nat (k_n_x args) \<le> length (k_dfa args) \<and> nat (k_n_y args) \<le> length (k_dfb args)
     \<and> nat (k_n_x args) \<le> length (k_dga args) \<and> nat (k_n_y args) \<le> length (k_dgb args)"

definition smem_sized :: "geometry \<Rightarrow> smem \<Rightarrow> bool" where
  "smem_sized p sm \<longleftrightarrow> length (df_col sm) = tile_width p \<and> length (dg_col sm) = tile_width p \<and> length (inorm_col sm) = tile_width p
     \<and> length (df_row sm) = tile_rows p \<and> length (dg_row sm) = tile_rows p \<and> length (inorm_row sm) = tile_rows p"

lemma smem_ok_sized: "smem_ok p env args tsc tsr sm \<Longrightarrow> smem_sized p sm"
  by (auto simp: smem_ok_def smem_sized_def col_data_def row_data_def)

lemma copied_col:
  "copied (fcast (rd_data env)) src tsc {l. l < tile_width p \<and> tsc + l < nat (k_n_x args)} dst dst' \<Longrightarrow>
   length dst = tile_width p \<Longrightarrow> col_data p env args tsc src dst'"
  by (auto simp: copied_def col_data_def)

lemma copied_row:
  "copied (fcast (rd_data env)) src tsr {l. l < tile_rows p \<and> tsr + l < nat (k_n_y args)} dst dst' \<Longrightarrow>
   length dst = tile_rows p \<Longrightarrow> row_data p env args tsr src dst'"
  by (auto simp: copied_def row_data_def)

lemma init_smem_data_ok:
  assumes "block_geometry_ok p" "arrays_ok args cov0" "smem_sized p sm"
  shows "wp (init_smem_data p env args tsc tsr sm) (smem_ok p env args tsc tsr)"
proof -
  have bsz: "0 < BLOCKSZ p" using assms(1) by (simp add: block_geometry_ok_def)
  have cols: "wp (copy_region p (fcast (rd_data env)) src tsc (tile_width p) (nat (k_n_x args)) dst) (col_data p env args tsc src)"
    if "length dst = tile_width p" "nat (k_n_x args) \<le> length src" for src dst
    by (rule wp_mono [OF copy_region_ok [OF bsz]]) (use that copied_col in auto)
  have rows: "wp (copy_region p (fcast (rd_data env)) src tsr (tile_rows p) (nat (k_n_y args)) dst) (row_data p env args tsr src)"
    if "length dst = tile_rows p" "nat (k_n_y args) \<le> length src" for src dst
    by (rule wp_mono [OF copy_region_ok [OF bsz]]) (use that copied_row in auto)
  show ?thesis
    using assms(2,3) unfolding init_smem_data_def Let_def wp_bind_iff arrays_ok_def smem_sized_def
    by (intro wp_mono [OF cols] wp_mono [OF rows]) (auto simp: smem_ok_def)
qed

text \<open>The shared profile after its initialisation; elements outside the matrix keep what they had.\<close>

definition profile_read :: "geometry \<Rightarrow> KernelArgs \<Rightarrow> nat \<Rightarrow> nat \<Rightarrow> mp_entry list \<Rightarrow> mp_entry list \<Rightarrow> mp_entry list \<Rightarrow> bool" where
  "profile_read p args tsc tsr read_a read_b mp \<longleftrightarrow> length mp = mp_size p
     \<and> (COMPUTE_COLS p \<longrightarrow> (\<forall>l < tile_width p. tsc + l < nat (k_n_x args) \<longrightarrow> mp ! l = read_a ! (tsc + l)))
     \<and> (COMPUTE_ROWS p \<longrightarrow> (\<forall>l < tile_rows p. tsr + l < nat (k_n_y args) \<longrightarrow> mp ! (row_base p + l) = read_b ! (tsr + l)))"

lemma init_smem_profile_ok:
  assumes bsz: "0 < BLOCKSZ p" and "nat (k_n_x args) \<le> length read_a" "nat (k_n_y args) \<le> length read_b" "length mp = mp_size p"
  shows "wp (init_smem_profile p args tsc tsr read_a read_b mp) (profile_read p args tsc tsr read_a read_b)"
proof -
  have col: "wp (if COMPUTE_COLS p then copy_region p id read_a tsc (tile_width p) (nat (k_n_x args)) (take (row_base p) mp) else Some [])
      (\<lambda>col. length col = row_base p
        \<and> (COMPUTE_COLS p \<longrightarrow> (\<forall>l < tile_width p. tsc + l < nat (k_n_x args) \<longrightarrow> col ! l = read_a ! (tsc + l))))"
  proof (cases "COMPUTE_COLS p")
    case True
    then have len: "length (take (row_base p) mp) = tile_width p" using assms(4) by (simp add: mp_size_def row_base_def)
    show ?thesis unfolding if_P [OF True]
      by (rule wp_mono [OF copy_region_ok [OF bsz]]) (use len assms(2) True in \<open>auto simp: copied_def row_base_def\<close>)
  qed (simp add: row_base_def)
  have row: "wp (if COMPUTE_ROWS p then copy_region p id read_b tsr (tile_rows p) (nat (k_n_y args)) (drop (row_base p) mp) else Some [])
      (\<lambda>row. length row = (if COMPUTE_ROWS p then tile_rows p else 0)
        \<and> (COMPUTE_ROWS p \<longrightarrow> (\<forall>l < tile_rows p. tsr + l < nat (k_n_y args) \<longrightarrow> row ! l = read_b ! (tsr + l))))"
  proof (cases "COMPUTE_ROWS p")
    case True
    then have len: "length (drop (row_base p) mp) = tile_rows p" using assms(4) by (simp add: mp_size_def)
    show ?thesis unfolding if_P [OF True]
      by (rule wp_mono [OF copy_region_ok [OF bsz]]) (use len assms(3) True in \<open>auto simp: copied_def\<close>)
  qed simp
  show ?thesis
    unfolding init_smem_profile_def wp_bind_iff
    by (rule wp_mono [OF col], rule wp_mono [OF row])
      (auto simp: profile_read_def mp_size_def row_base_def nth_append)
qed

subsection \<open>The passes of all threads\<close>

definition block_cells :: "geometry \<Rightarrow> KernelArgs \<Rightarrow> nat \<Rightarrow> nat \<Rightarrow> gcell set" where
  "block_cells p args b tsr = (\<Union>t < BLOCKSZ p. cells p args (start_diag p args b t) tsr (tsr + tile_rows p))"

definition block_inv :: "geometry \<Rightarrow> kernel_env \<Rightarrow> KernelArgs \<Rightarrow> fp list \<Rightarrow> block \<Rightarrow> bool" where
  "block_inv p env args cov0 B \<longleftrightarrow> length (threads B) = BLOCKSZ p
     \<and> tile_start_col B = start_diag p args (blockIdx B) 0 + tile_start_row B
     \<and> (\<forall>t < BLOCKSZ p. start_diag p args (blockIdx B) t < num_diags_gpu args \<longrightarrow>
          thread_inv p env args cov0 (start_diag p args (blockIdx B) t) (tile_start_row B) (threads B ! t))
     \<and> smem_sized p (shared B) \<and> length (local_mp B) = mp_size p"

lemma init_block_inv:
  assumes "smem_sized p sm" "length mp = mp_size p" "length regs = DiagsPerThread p"
  shows "block_inv p env args cov0 (init_block p env args cov0 regs sm mp b)"
  using assms by (auto simp: block_inv_def init_block_def init_thread_def start_diag_def thread_inv_def covs_ok_def Let_def
      add.commute add.left_commute)

definition passes_ok ::
  "geometry \<Rightarrow> kernel_env \<Rightarrow> KernelArgs \<Rightarrow> fp list \<Rightarrow> mp_entry list \<Rightarrow> block \<Rightarrow> (SCAMPThreadInfo \<times> access list) list \<Rightarrow> bool" where
  "passes_ok p env args cov0 m0 B ps \<longleftrightarrow> (\<forall>t < length ps. self_ok m0 (snd (ps ! t))
     \<and> covers (cell_cands p env args cov0 (tile_start_col B) (tile_start_row B)
         (cells p args (start_diag p args (blockIdx B) t) (tile_start_row B) (tile_start_row B + tile_rows p))) (snd (ps ! t))
     \<and> (start_diag p args (blockIdx B) t < num_diags_gpu args \<longrightarrow>
          thread_inv p env args cov0 (start_diag p args (blockIdx B) t) (tile_start_row B + tile_rows p) (fst (ps ! t))))"

lemma block_passes_ok:
  assumes "max_numbers_contract (maxNumbers env)" "smem_ok p env args (tile_start_col B) (tile_start_row B) sm" "block_geometry_ok p"
    and "length m0 = mp_size p" "lowest_rows p args (tile_start_row B) m0" "block_inv p env args cov0 B"
  shows "wp (block_passes p env args B sm) (\<lambda>ps. length ps = BLOCKSZ p \<and> passes_ok p env args cov0 m0 B ps)"
  unfolding block_passes_def
proof (rule wp_upt [where I = "\<lambda>t ps. length ps = t \<and> passes_ok p env args cov0 m0 B ps"])
  show "length [] = 0 \<and> passes_ok p env args cov0 m0 B []" by (simp add: passes_ok_def)
  fix t ps assume t: "t < BLOCKSZ p" and I: "length ps = t \<and> passes_ok p env args cov0 m0 B ps"
  have start: "tile_start_col B = start_diag p args (blockIdx B) 0 + tile_start_row B"
    and inv: "start_diag p args (blockIdx B) t < num_diags_gpu args \<Longrightarrow>
      thread_inv p env args cov0 (start_diag p args (blockIdx B) t) (tile_start_row B) (threads B ! t)"
    using assms(6) t by (auto simp: block_inv_def)
  obtain info as where r: "thread_tile p env args B sm t = Some (info, as)"
      "self_ok m0 as" "covers (cell_cands p env args cov0 (tile_start_col B) (tile_start_row B)
         (cells p args (start_diag p args (blockIdx B) t) (tile_start_row B) (tile_start_row B + tile_rows p))) as"
      "start_diag p args (blockIdx B) t < num_diags_gpu args \<longrightarrow>
        thread_inv p env args cov0 (start_diag p args (blockIdx B) t) (tile_start_row B + tile_rows p) info"
    using thread_tile_ok [OF assms(1-5) t refl start inv] unfolding wp_def by (auto split: option.splits)
  then show "wp (map_option (\<lambda>r. ps @ [r]) (thread_tile p env args B sm t))
      (\<lambda>ps. length ps = Suc t \<and> passes_ok p env args cov0 m0 B ps)"
    using I by (auto simp: passes_ok_def nth_append less_Suc_eq)
qed

subsection \<open>The shared profile at the second barrier\<close>

definition entry_ok :: "mp_entry \<Rightarrow> candidates \<Rightarrow> mp_entry \<Rightarrow> bool" where
  "entry_ok e0 S e \<longleftrightarrow> (e = e0 \<or> flt (floats0 e0) (floats0 e) \<and> (floats0 e, ints1 e) \<in> S)
     \<and> (\<forall>(v, x) \<in> S. \<not> flt (floats0 e) v)"

lemma shared_result:
  assumes ok: "\<And>t. t < length progs \<Longrightarrow> self_ok m0 (progs ! t) \<and> covers (C t) (progs ! t)"
    and fair: "fair (length progs) (step_bound progs (length m0)) sched"
    and run: "run_threads sched progs m0 = (ts, mem)"
  shows "(\<forall>t \<in> set ts. accesses t = [] \<and> \<not> faulted t) \<and> length mem = length m0
    \<and> (\<forall>a < length m0. \<not> flt (floats0 (m0 ! a)) dist_lowest \<longrightarrow> entry_ok (m0 ! a) (\<Union>t < length progs. C t a) (mem ! a))"
proof -
  have "\<forall>p \<in> set progs. prog_ok m0 [] p" using ok by (auto simp: self_ok_def in_set_conv_nth)
  note R = updates_reach_maximum [OF this fair run]
  have "entry_ok (m0 ! a) (\<Union>t < length progs. C t a) (mem ! a)"
    if a: "a < length m0" and low: "\<not> flt (floats0 (m0 ! a)) dist_lowest" for a
  proof -
    have max: "\<not> flt (floats0 (mem ! a)) v" if "(v, x) \<in> updates_of (set progs) a" for v x using R a that by blast
    have upd: "mem ! a = m0 ! a \<or> flt (floats0 (m0 ! a)) (floats0 (mem ! a)) \<and> (floats0 (mem ! a), ints1 (mem ! a)) \<in> updates_of (set progs) a"
      using R a by blast
    have sound: "(v, x) \<in> (\<Union>t < length progs. C t a)" if vx: "(v, x) \<in> updates_of (set progs) a" "v \<noteq> dist_lowest" for v x
    proof -
      obtain q c where "q \<in> set progs" "Max_entry a v x c \<in> set q" using vx(1) by (auto simp: updates_of_def)
      then obtain t where "t < length progs" "Max_entry a v x c \<in> set (progs ! t)" by (auto simp: in_set_conv_nth)
      then have "(v, x) \<in> C t a" using ok [of t] vx(2) unfolding covers_def by blast
      then show ?thesis using \<open>t < length progs\<close> by blast
    qed
    have "\<not> flt (floats0 (mem ! a)) v" if vx: "(v, x) \<in> (\<Union>t < length progs. C t a)" for v x
    proof -
      obtain t where t: "t < length progs" "(v, x) \<in> C t a" using vx by blast
      have cov: "covers (C t) (progs ! t)" using ok t(1) by blast
      then have "is_nan v \<or> (\<exists>w y ck. Max_entry a w y ck \<in> set (progs ! t) \<and> fle v w)"
        using t(2) by (auto simp: covers_def)
      then show ?thesis
      proof (elim disjE exE conjE)
        assume "is_nan v"
        then show ?thesis using flt_not_nan by blast
      next
        fix w y ck assume "Max_entry a w y ck \<in> set (progs ! t)" "fle v w"
        moreover have "progs ! t \<in> set progs" using t(1) by simp
        ultimately have "(w, y) \<in> updates_of (set progs) a" by (auto simp: updates_of_def)
        then show ?thesis using max \<open>fle v w\<close> flt_fle_trans by blast
      qed
    qed
    moreover have "mem ! a = m0 ! a \<or> flt (floats0 (m0 ! a)) (floats0 (mem ! a))
        \<and> (floats0 (mem ! a), ints1 (mem ! a)) \<in> (\<Union>t < length progs. C t a)"
      using upd sound low by metis
    ultimately show ?thesis unfolding entry_ok_def by blast
  qed
  then show ?thesis using R by blast
qed

subsection \<open>What a block sends to the global profiles\<close>

text \<open>An element of a profile: of the column profile, or of the row profile if \<open>b\<close>.\<close>

definition side_cands :: "kernel_env \<Rightarrow> KernelArgs \<Rightarrow> fp list \<Rightarrow> gcell set \<Rightarrow> bool \<Rightarrow> nat \<Rightarrow> candidates" where
  "side_cands env args cov0 S b i = (if b then {(gpu_corr env args cov0 i c, word32 c) | c. (i, c) \<in> S}
     else {(gpu_corr env args cov0 r i, word32 r) | r. (r, i) \<in> S})"

definition in_tile :: "geometry \<Rightarrow> KernelArgs \<Rightarrow> nat \<Rightarrow> nat \<Rightarrow> bool \<Rightarrow> nat \<Rightarrow> bool" where
  "in_tile p args tsc tsr b i \<longleftrightarrow>
     (if b then COMPUTE_ROWS p \<and> tsr \<le> i \<and> i < tsr + tile_rows p \<and> i < nat (k_n_y args)
      else COMPUTE_COLS p \<and> tsc \<le> i \<and> i < tsc + tile_width p \<and> i < nat (k_n_x args))"

definition global_addr :: "nat \<Rightarrow> bool \<Rightarrow> nat \<Rightarrow> nat" where
  "global_addr n_a b i = (if b then n_a + i else i)"

definition sent_ok ::
  "geometry \<Rightarrow> kernel_env \<Rightarrow> KernelArgs \<Rightarrow> fp list \<Rightarrow> nat \<Rightarrow> (bool \<Rightarrow> mp_entry list) \<Rightarrow> nat \<Rightarrow> nat \<Rightarrow> gcell set
   \<Rightarrow> access list list \<Rightarrow> bool" where
  "sent_ok p env args cov0 n_a read tsc tsr S progs \<longleftrightarrow>
     (\<forall>y \<in> \<Union>(set ` set progs). \<exists>b i e. in_tile p args tsc tsr b i \<and> entry_ok (read b ! i) (side_cands env args cov0 S b i) e
        \<and> y = write_back_value (global_addr n_a b i) e)
     \<and> (\<forall>b i. in_tile p args tsc tsr b i \<longrightarrow> (\<exists>e. entry_ok (read b ! i) (side_cands env args cov0 S b i) e
        \<and> write_back_value (global_addr n_a b i) e \<in> \<Union>(set ` set progs)))"

lemma thread_positions:
  assumes "0 < bsz"
  shows "(\<exists>t < bsz. (l, g) \<in> set (positions bsz t (start + t) n m)) \<longleftrightarrow> g = start + l \<and> l < n \<and> g < m"
proof
  assume "\<exists>t < bsz. (l, g) \<in> set (positions bsz t (start + t) n m)"
  then show "g = start + l \<and> l < n \<and> g < m" using positions_set [OF assms] by (auto simp: add.assoc)
next
  assume "g = start + l \<and> l < n \<and> g < m"
  then have "(l, g) \<in> set (positions bsz (l mod bsz) (start + l mod bsz) n m)"
    unfolding positions_set [OF assms] by (intro exI [of _ "l div bsz"]) (simp add: add.assoc)
  then show "\<exists>t < bsz. (l, g) \<in> set (positions bsz t (start + t) n m)" using assms by (intro exI [of _ "l mod bsz"]) simp
qed

lemma write_back_set:
  assumes "0 < BLOCKSZ p"
  shows "y \<in> (\<Union>t < BLOCKSZ p. set (write_back p n_a (nat (k_n_x args)) (nat (k_n_y args)) tsc tsr mp t))
    \<longleftrightarrow> (\<exists>b i. in_tile p args tsc tsr b i
      \<and> y = write_back_value (global_addr n_a b i) (mp ! (if b then row_base p + (i - tsr) else i - tsc)))"
proof -
  have "y \<in> (\<Union>t < BLOCKSZ p. set (write_back p n_a (nat (k_n_x args)) (nat (k_n_y args)) tsc tsr mp t))
    \<longleftrightarrow> (COMPUTE_COLS p \<and> (\<exists>l g. (\<exists>t < BLOCKSZ p. (l, g) \<in> set (positions (BLOCKSZ p) t (tsc + t) (tile_width p) (nat (k_n_x args))))
        \<and> y = write_back_value g (mp ! l)))
     \<or> (COMPUTE_ROWS p \<and> (\<exists>l g. (\<exists>t < BLOCKSZ p. (l, g) \<in> set (positions (BLOCKSZ p) t (tsr + t) (tile_rows p) (nat (k_n_y args))))
        \<and> y = write_back_value (n_a + g) (mp ! (row_base p + l))))"
  proof -
    have img: "y \<in> set (map (\<lambda>(l, g). f l g) ps) \<longleftrightarrow> (\<exists>l g. (l, g) \<in> set ps \<and> y = f l g)" for f ps
      by (force simp: image_iff)
    have one: "y \<in> set (write_back p n_a (nat (k_n_x args)) (nat (k_n_y args)) tsc tsr mp t) \<longleftrightarrow>
        (COMPUTE_COLS p \<and> (\<exists>l g. (l, g) \<in> set (positions (BLOCKSZ p) t (tsc + t) (tile_width p) (nat (k_n_x args)))
           \<and> y = write_back_value g (mp ! l)))
      \<or> (COMPUTE_ROWS p \<and> (\<exists>l g. (l, g) \<in> set (positions (BLOCKSZ p) t (tsr + t) (tile_rows p) (nat (k_n_y args)))
           \<and> y = write_back_value (n_a + g) (mp ! (row_base p + l))))" for t
      unfolding write_back_def set_append Un_iff by (simp only: img split: if_splits) simp
    show ?thesis unfolding UN_iff lessThan_iff Bex_def one by blast
  qed
  also have "\<dots> \<longleftrightarrow> (\<exists>b i. in_tile p args tsc tsr b i
      \<and> y = write_back_value (global_addr n_a b i) (mp ! (if b then row_base p + (i - tsr) else i - tsc)))"
    unfolding thread_positions [OF assms]
  proof (intro iffI)
    assume "(COMPUTE_COLS p \<and> (\<exists>l g. (g = tsc + l \<and> l < tile_width p \<and> g < nat (k_n_x args)) \<and> y = write_back_value g (mp ! l)))
      \<or> (COMPUTE_ROWS p \<and> (\<exists>l g. (g = tsr + l \<and> l < tile_rows p \<and> g < nat (k_n_y args))
          \<and> y = write_back_value (n_a + g) (mp ! (row_base p + l))))"
    then show "\<exists>b i. in_tile p args tsc tsr b i
      \<and> y = write_back_value (global_addr n_a b i) (mp ! (if b then row_base p + (i - tsr) else i - tsc))"
    proof (elim disjE conjE exE)
      fix l g assume "COMPUTE_COLS p" "g = tsc + l" "l < tile_width p" "g < nat (k_n_x args)" "y = write_back_value g (mp ! l)"
      then show ?thesis by (intro exI [of _ False] exI [of _ g]) (auto simp: in_tile_def global_addr_def)
    next
      fix l g assume "COMPUTE_ROWS p" "g = tsr + l" "l < tile_rows p" "g < nat (k_n_y args)"
        "y = write_back_value (n_a + g) (mp ! (row_base p + l))"
      then show ?thesis by (intro exI [of _ True] exI [of _ g]) (auto simp: in_tile_def global_addr_def)
    qed
  next
    assume "\<exists>b i. in_tile p args tsc tsr b i
      \<and> y = write_back_value (global_addr n_a b i) (mp ! (if b then row_base p + (i - tsr) else i - tsc))"
    then obtain b i where bi: "in_tile p args tsc tsr b i"
      "y = write_back_value (global_addr n_a b i) (mp ! (if b then row_base p + (i - tsr) else i - tsc))" by blast
    show "(COMPUTE_COLS p \<and> (\<exists>l g. (g = tsc + l \<and> l < tile_width p \<and> g < nat (k_n_x args)) \<and> y = write_back_value g (mp ! l)))
      \<or> (COMPUTE_ROWS p \<and> (\<exists>l g. (g = tsr + l \<and> l < tile_rows p \<and> g < nat (k_n_y args))
          \<and> y = write_back_value (n_a + g) (mp ! (row_base p + l))))"
    proof (cases b)
      case True
      then show ?thesis using bi by (intro disjI2 conjI exI [of _ "i - tsr"] exI [of _ i]) (auto simp: in_tile_def global_addr_def)
    next
      case False
      then show ?thesis using bi by (intro disjI1 conjI exI [of _ "i - tsc"] exI [of _ i]) (auto simp: in_tile_def global_addr_def)
    qed
  qed
  finally show ?thesis .
qed

subsection \<open>A round of a block\<close>

definition not_below :: "nat \<Rightarrow> mp_entry list \<Rightarrow> bool" where
  "not_below n es \<longleftrightarrow> n \<le> length es \<and> (\<forall>i < n. \<not> flt (floats0 (es ! i)) dist_lowest)"

lemma tile_cands:
  assumes "in_tile p args tsc tsr b i" "S = block_cells p args blk tsr"
  shows "(\<Union>t < BLOCKSZ p. cell_cands p env args cov0 tsc tsr (cells p args (start_diag p args blk t) tsr (tsr + tile_rows p))
      (if b then row_base p + (i - tsr) else i - tsc)) = side_cands env args cov0 S b i"
proof (cases b)
  case True
  then have "tsr + (i - tsr) = i" "COMPUTE_ROWS p" using assms(1) by (auto simp: in_tile_def)
  then show ?thesis
    using True assms(2) by (auto simp: cell_cands_def side_cands_def block_cells_def row_base_def split: if_splits)
next
  case False
  then have "tsc + (i - tsc) = i" "COMPUTE_COLS p" "i - tsc < tile_width p" using assms(1) by (auto simp: in_tile_def)
  then show ?thesis
    using False assms(2) by (auto simp: cell_cands_def side_cands_def block_cells_def row_base_def split: if_splits)
qed

definition tile_addr :: "geometry \<Rightarrow> nat \<Rightarrow> nat \<Rightarrow> bool \<Rightarrow> nat \<Rightarrow> nat" where
  "tile_addr p tsc tsr b i = (if b then row_base p + (i - tsr) else i - tsc)"

text \<open>An element of the tile in the shared profile: what the threads read from the global one.\<close>

lemma profile_read_entry:
  assumes m0: "profile_read p args tsc tsr (read False) (read True) m0"
    and read: "not_below (nat (k_n_x args)) (read False)" "not_below (nat (k_n_y args)) (read True)"
    and it: "in_tile p args tsc tsr b i"
  shows "tile_addr p tsc tsr b i < length m0" "m0 ! tile_addr p tsc tsr b i = read b ! i"
    "\<not> flt (floats0 (m0 ! tile_addr p tsc tsr b i)) dist_lowest"
proof -
  have "length m0 = mp_size p" using m0 by (simp add: profile_read_def)
  then show "tile_addr p tsc tsr b i < length m0"
    using it by (auto simp: in_tile_def tile_addr_def mp_size_def row_base_def split: if_splits)
  show e: "m0 ! tile_addr p tsc tsr b i = read b ! i"
  proof (cases b)
    case True
    then have "i - tsr < tile_rows p" "tsr + (i - tsr) = i" "COMPUTE_ROWS p" "i < nat (k_n_y args)"
      using it by (auto simp: in_tile_def)
    then show ?thesis using m0 True unfolding profile_read_def tile_addr_def by auto
  next
    case False
    then have "i - tsc < tile_width p" "tsc + (i - tsc) = i" "COMPUTE_COLS p" "i < nat (k_n_x args)"
      using it by (auto simp: in_tile_def)
    then show ?thesis using m0 False unfolding profile_read_def tile_addr_def by auto
  qed
  show "\<not> flt (floats0 (m0 ! tile_addr p tsc tsr b i)) dist_lowest"
    unfolding e using read it by (cases b) (auto simp: not_below_def in_tile_def)
qed

lemma profile_read_lowest:
  assumes "profile_read p args tsc tsr (read False) (read True) m0"
    and "not_below (nat (k_n_x args)) (read False)" "not_below (nat (k_n_y args)) (read True)"
  shows "lowest_rows p args tsr m0"
  unfolding lowest_rows_def
proof (intro impI allI)
  fix l assume "COMPUTE_ROWS p" "l < tile_rows p" "tsr + l < nat (k_n_y args)"
  then have "in_tile p args tsc tsr True (tsr + l)" by (simp add: in_tile_def)
  from profile_read_entry(3) [OF assms this]
  show "\<not> flt (floats0 (m0 ! (row_base p + l))) dist_lowest" by (simp add: tile_addr_def)
qed

text \<open>The end of a round, from what the accesses of its threads cover.\<close>

lemma round_result:
  assumes bsz: "0 < BLOCKSZ p" and m0: "profile_read p args tsc tsr (read False) (read True) m0"
    and read: "not_below (nat (k_n_x args)) (read False)" "not_below (nat (k_n_y args)) (read True)"
    and progs: "length progs = BLOCKSZ p" "\<And>t. t < BLOCKSZ p \<Longrightarrow> self_ok m0 (progs ! t) \<and> covers (C t) (progs ! t)"
    and cands: "\<And>b i. in_tile p args tsc tsr b i \<Longrightarrow> (\<Union>t < BLOCKSZ p. C t (tile_addr p tsc tsr b i)) = side_cands env args cov0 S b i"
    and fair: "fair (BLOCKSZ p) (step_bound progs (length m0)) sched" and run: "run_threads sched progs m0 = (ts, mem)"
  shows "list_all (\<lambda>t. accesses t = [] \<and> \<not> faulted t) ts" "length mem = length m0"
    "sent_ok p env args cov0 n_a read tsc tsr S
       (map (write_back p n_a (nat (k_n_x args)) (nat (k_n_y args)) tsc tsr mem) [0..<BLOCKSZ p])"
proof -
  have "self_ok m0 (progs ! t) \<and> covers (C t) (progs ! t)" if "t < length progs" for t using progs that by simp
  from shared_result [OF this _ run] fair progs(1)
  have R: "\<forall>t \<in> set ts. accesses t = [] \<and> \<not> faulted t" "length mem = length m0"
      "\<And>a. a < length m0 \<Longrightarrow> \<not> flt (floats0 (m0 ! a)) dist_lowest \<Longrightarrow> entry_ok (m0 ! a) (\<Union>t < BLOCKSZ p. C t a) (mem ! a)"
    by auto
  show "list_all (\<lambda>t. accesses t = [] \<and> \<not> faulted t) ts" "length mem = length m0" using R by (auto simp: list_all_iff)
  note elem = profile_read_entry [OF m0 read]
  have entry: "entry_ok (read b ! i) (side_cands env args cov0 S b i) (mem ! tile_addr p tsc tsr b i)"
    if it: "in_tile p args tsc tsr b i" for b i
    using R(3) [OF elem(1) [OF it] elem(3) [OF it]] elem(2) [OF it] cands [OF it] by simp
  let ?sent = "map (write_back p n_a (nat (k_n_x args)) (nat (k_n_y args)) tsc tsr mem) [0..<BLOCKSZ p]"
  have set: "y \<in> \<Union>(set ` set ?sent) \<longleftrightarrow>
      (\<exists>b i. in_tile p args tsc tsr b i \<and> y = write_back_value (global_addr n_a b i) (mem ! tile_addr p tsc tsr b i))" for y
    using write_back_set [OF bsz, of y n_a args tsc tsr mem] by (simp add: tile_addr_def atLeast0LessThan)
  show "sent_ok p env args cov0 n_a read tsc tsr S ?sent"
    unfolding sent_ok_def
  proof (intro conjI ballI allI impI)
    fix y assume "y \<in> \<Union>(set ` set ?sent)"
    then show "\<exists>b i e. in_tile p args tsc tsr b i \<and> entry_ok (read b ! i) (side_cands env args cov0 S b i) e
        \<and> y = write_back_value (global_addr n_a b i) e"
      unfolding set using entry by blast
  next
    fix b i assume it: "in_tile p args tsc tsr b i"
    then have "write_back_value (global_addr n_a b i) (mem ! tile_addr p tsc tsr b i) \<in> \<Union>(set ` set ?sent)" unfolding set by blast
    then show "\<exists>e. entry_ok (read b ! i) (side_cands env args cov0 S b i) e
        \<and> write_back_value (global_addr n_a b i) e \<in> \<Union>(set ` set ?sent)" using entry [OF it] by blast
  qed
qed

lemma block_tile_ok:
  assumes mc: "max_numbers_contract (maxNumbers env)" and g: "block_geometry_ok p" and arr: "arrays_ok args cov0"
    and inv: "block_inv p env args cov0 B"
    and read: "not_below (nat (k_n_x args)) (read False)" "not_below (nat (k_n_y args)) (read True)"
    and sched: "\<And>k. fair (BLOCKSZ p) k (schedule k)"
  shows "wp (block_tile p env args n_a (read False) (read True) schedule B) (\<lambda>(B', progs). block_inv p env args cov0 B'
    \<and> blockIdx B' = blockIdx B \<and> tile_start_row B' = tile_start_row B + tile_rows p \<and> length progs = BLOCKSZ p
    \<and> sent_ok p env args cov0 n_a read (tile_start_col B) (tile_start_row B)
         (block_cells p args (blockIdx B) (tile_start_row B)) progs)"
proof -
  let ?tsc = "tile_start_col B" and ?tsr = "tile_start_row B" and ?S = "block_cells p args (blockIdx B) (tile_start_row B)"
  have bsz: "0 < BLOCKSZ p" using g by (simp add: block_geometry_ok_def)
  have len: "length (local_mp B) = mp_size p" "smem_sized p (shared B)" using inv by (auto simp: block_inv_def)
  obtain sm where sm: "init_smem_data p env args ?tsc ?tsr (shared B) = Some sm" "smem_ok p env args ?tsc ?tsr sm"
    using wp_SomeD [OF init_smem_data_ok [OF g arr len(2)]] by blast
  have "nat (k_n_x args) \<le> length (read False)" "nat (k_n_y args) \<le> length (read True)" using read by (auto simp: not_below_def)
  from wp_SomeD [OF init_smem_profile_ok [OF bsz this len(1)]]
  obtain m0 where m0: "init_smem_profile p args ?tsc ?tsr (read False) (read True) (local_mp B) = Some m0"
      "profile_read p args ?tsc ?tsr (read False) (read True) m0" by blast
  have m0_len: "length m0 = mp_size p" using m0(2) by (simp add: profile_read_def)
  note low = profile_read_lowest [OF m0(2) read]
  obtain ps where ps: "block_passes p env args B sm = Some ps" "length ps = BLOCKSZ p" "passes_ok p env args cov0 m0 B ps"
    using wp_SomeD [OF block_passes_ok [OF mc sm(2) g m0_len low inv]] by blast
  let ?progs = "map snd ps"
  obtain ts mem where run: "run_threads (schedule (step_bound ?progs (length m0))) ?progs m0 = (ts, mem)"
    by (cases "run_threads (schedule (step_bound ?progs (length m0))) ?progs m0")
  let ?C = "\<lambda>t. cell_cands p env args cov0 ?tsc ?tsr (cells p args (start_diag p args (blockIdx B) t) ?tsr (?tsr + tile_rows p))"
  have progs: "length ?progs = BLOCKSZ p" "\<And>t. t < BLOCKSZ p \<Longrightarrow> self_ok m0 (?progs ! t) \<and> covers (?C t) (?progs ! t)"
    using ps(2,3) by (simp_all add: passes_ok_def)
  have cands: "(\<Union>t < BLOCKSZ p. ?C t (tile_addr p ?tsc ?tsr b i)) = side_cands env args cov0 ?S b i" if "in_tile p args ?tsc ?tsr b i" for b i
    using tile_cands [OF that refl, of env cov0 "blockIdx B"] by (simp add: tile_addr_def)
  note R = round_result [OF bsz m0(2) read progs cands sched run]
  let ?B = "B\<lparr>threads := map fst ps, tile_start_col := ?tsc + tile_rows p, tile_start_row := ?tsr + tile_rows p,
    shared := sm, local_mp := mem\<rparr>"
  have "block_inv p env args cov0 ?B"
    using inv ps(2,3) smem_ok_sized [OF sm(2)] R(2) m0_len by (auto simp: block_inv_def passes_ok_def)
  moreover have "block_tile p env args n_a (read False) (read True) schedule B
      = Some (?B, map (write_back p n_a (nat (k_n_x args)) (nat (k_n_y args)) ?tsc ?tsr mem) [0..<BLOCKSZ p])"
    using sm(1) m0(1) ps(1) run R(1) by (simp add: block_tile_def Let_def)
  ultimately show ?thesis using R(3) by simp
qed

end
