(* ===== verification/GpuShflRow.thy ===== *)
theory GpuShflRow
  imports GpuShfl GpuBlock
begin

text \<open>
  A row of the shuffle kernel: the slots of a block as they rotate, the registers of a lane, and what a warp does
  with the distances of a row, whatever the row and the lane.
\<close>

subsection \<open>Slots\<close>

text \<open>
  Slot \<open>q\<close> of the block is on diagonal \<open>slot_diag W q R\<close> of its band in row \<open>R\<close>. Every row brings it a diagonal
  down; on diagonal 0 it rotates to the last one.
\<close>

definition slot_diag :: "nat \<Rightarrow> nat \<Rightarrow> nat \<Rightarrow> nat" where
  "slot_diag W q R = (if R mod W \<le> q then q - R mod W else q + W - R mod W)"

definition next_slot :: "nat \<Rightarrow> nat \<Rightarrow> nat" where
  "next_slot W q = (if Suc q = W then 0 else Suc q)"

lemma slot_diag_start: "slot_diag W q 0 = q"
  by (simp add: slot_diag_def)

lemma mod_below:
  assumes "q < (W :: nat)"
  obtains m where "R mod W = m" "m < W"
  using assms mod_less_divisor [of W R] by auto

lemma slot_diag_less: "q < W \<Longrightarrow> slot_diag W q R < W"
  by (rule mod_below [of q W R], assumption) (auto simp: slot_diag_def)

lemma slot_diag_zero: "q < W \<Longrightarrow> slot_diag W q R = 0 \<longleftrightarrow> q = R mod W"
  by (rule mod_below [of q W R], assumption) (auto simp: slot_diag_def)

lemma slot_diag_Suc:
  "q < W \<Longrightarrow> slot_diag W q (Suc R) = (if slot_diag W q R = 0 then W - 1 else slot_diag W q R - 1)"
  by (rule mod_below [of q W R], assumption) (auto simp: slot_diag_def mod_Suc)

lemma slot_diag_next: "q < W \<Longrightarrow> slot_diag W (next_slot W q) (Suc R) = slot_diag W q R"
  by (rule mod_below [of q W R], assumption) (auto simp: slot_diag_def next_slot_def mod_Suc)

lemma mod_sum: "m < W \<Longrightarrow> d < W \<Longrightarrow> (m + d) mod W = (if m + d < W then m + d else m + d - W)" for m d W :: nat
  by (simp add: mod_if)

lemma slot_of_diag:
  assumes "d < W"
  shows "slot_diag W ((R + d) mod W) R = d"
proof -
  obtain m where m: "R mod W = m" "m < W" using mod_below assms .
  have "(R + d) mod W = (if m + d < W then m + d else m + d - W)"
    using mod_sum [OF m(2) assms] by (simp add: mod_add_left_eq m(1) [symmetric])
  then show ?thesis using assms m by (auto simp: slot_diag_def)
qed

lemma slot_owner:
  assumes "q < W"
  shows "(R + slot_diag W q R) mod W = q"
proof -
  obtain m where m: "R mod W = m" "m < W" using mod_below assms .
  have "(m + slot_diag W q R) mod W = q"
    unfolding mod_sum [OF m(2) slot_diag_less [OF assms]] using m assms by (auto simp: slot_diag_def)
  then show ?thesis by (simp add: mod_add_left_eq m(1) [symmetric])
qed

text \<open>The countdown of a lane is the diagonal of its last slot, and one of its slots rotates if it is below \<open>n\<close>.\<close>

lemma last_slot:
  assumes "q + n \<le> W" "0 < n"
  shows "slot_diag W (q + (n - 1)) R < n \<longleftrightarrow> q \<le> R mod W \<and> R mod W < q + n"
    and "slot_diag W (q + (n - 1)) R < n \<Longrightarrow> n - 1 - slot_diag W (q + (n - 1)) R = R mod W - q"
proof -
  have "q + (n - 1) < W" using assms by simp
  then obtain m where m: "R mod W = m" "m < W" by (rule mod_below)
  have d: "slot_diag W (q + (n - 1)) R = (if m \<le> q + (n - 1) then q + (n - 1) - m else q + (n - 1) + W - m)"
    by (simp add: slot_diag_def m(1))
  show "slot_diag W (q + (n - 1)) R < n \<longleftrightarrow> q \<le> R mod W \<and> R mod W < q + n"
    unfolding d m(1) using assms m(2) by (cases "m \<le> q + (n - 1)") (simp_all, linarith+)
  show "slot_diag W (q + (n - 1)) R < n \<Longrightarrow> n - 1 - slot_diag W (q + (n - 1)) R = R mod W - q"
    unfolding d m(1) using assms m(2) by (cases "m \<le> q + (n - 1)") simp_all
qed

subsection \<open>The cells of the band\<close>

definition band :: "geometry \<Rightarrow> KernelArgs \<Rightarrow> nat \<Rightarrow> nat \<Rightarrow> gcell set" where
  "band p args D0 tsr = {(r, c). tsr \<le> r \<and> r < tsr + tile_rows p \<and> r < nat (k_n_y args) \<and> c < nat (k_n_x args)
     \<and> D0 + r \<le> c \<and> c < D0 + r + block_cols p \<and> c < num_diags_gpu args + r}"

lemma block_cells_band:
  assumes "0 < DiagsPerThread p"
  shows "block_cells p args blk tsr = band p args (start_diag p args blk 0) tsr"
proof (rule set_eqI, clarify)
  fix r c
  define D0 where "D0 = start_diag p args blk 0"
  let ?n = "DiagsPerThread p"
  have D: "start_diag p args blk t = D0 + t * ?n" for t by (simp add: start_diag_def D0_def)
  show "(r, c) \<in> block_cells p args blk tsr \<longleftrightarrow> (r, c) \<in> band p args (start_diag p args blk 0) tsr"
    unfolding D0_def [symmetric]
  proof
    assume "(r, c) \<in> block_cells p args blk tsr"
    then obtain t where t: "t < BLOCKSZ p" "(r, c) \<in> cells p args (D0 + t * ?n) tsr (tsr + tile_rows p)"
      by (auto simp: block_cells_def D)
    have "Suc t * ?n \<le> BLOCKSZ p * ?n" using t(1) by (intro mult_right_mono) auto
    then show "(r, c) \<in> band p args D0 tsr" using t(2) by (auto simp: cells_def band_def block_cols_def)
  next
    assume b: "(r, c) \<in> band p args D0 tsr"
    define d where "d = c - (D0 + r)"
    have d: "c = D0 + r + d" "d < BLOCKSZ p * ?n" using b by (auto simp: band_def d_def block_cols_def)
    then have "d div ?n < BLOCKSZ p" using assms by (simp add: div_less_iff_less_mult)
    moreover have "(r, c) \<in> cells p args (D0 + d div ?n * ?n) tsr (tsr + tile_rows p)"
      using b d(1) dividend_less_div_times [OF assms, of d] by (auto simp: band_def cells_def)
    ultimately show "(r, c) \<in> block_cells p args blk tsr" unfolding block_cells_def D by blast
  qed
qed

text \<open>The thread that has a column, for good.\<close>

definition owner :: "geometry \<Rightarrow> nat \<Rightarrow> nat \<Rightarrow> nat" where
  "owner p D0 c = (c - D0) mod block_cols p div DiagsPerThread p"

definition slot_col :: "geometry \<Rightarrow> nat \<Rightarrow> nat \<Rightarrow> nat \<Rightarrow> nat" where
  "slot_col p D0 R q = D0 + R + slot_diag (block_cols p) q R"

lemma slot_bound:
  assumes "t < BLOCKSZ p" "i < DiagsPerThread p"
  shows "t * DiagsPerThread p + i < block_cols p"
proof -
  have "Suc t * DiagsPerThread p \<le> BLOCKSZ p * DiagsPerThread p" using assms(1) by (intro mult_right_mono) auto
  then show ?thesis using assms(2) by (simp add: block_cols_def)
qed

lemma owner_slot_col:
  assumes "t < BLOCKSZ p" "i < DiagsPerThread p"
  shows "owner p D0 (slot_col p D0 R (t * DiagsPerThread p + i)) = t"
proof -
  have "(R + slot_diag (block_cols p) (t * DiagsPerThread p + i) R) mod block_cols p = t * DiagsPerThread p + i"
    using slot_owner [OF slot_bound [OF assms]] .
  then show ?thesis using assms(2) by (simp add: owner_def slot_col_def add.assoc)
qed

lemma owned_column:
  assumes "D0 + R \<le> c" "c < D0 + R + block_cols p" "0 < DiagsPerThread p"
  obtains i where "i < DiagsPerThread p" "c = slot_col p D0 R (owner p D0 c * DiagsPerThread p + i)" "owner p D0 c < BLOCKSZ p"
proof
  let ?n = "DiagsPerThread p" and ?q = "(c - D0) mod block_cols p"
  have W: "0 < block_cols p" using assms(1,2) by simp
  show "?q mod ?n < ?n" using assms(3) by simp
  have q: "owner p D0 c * ?n + ?q mod ?n = ?q" by (simp add: owner_def)
  have d: "c - D0 = R + (c - (D0 + R))" "c - (D0 + R) < block_cols p" using assms(1,2) by simp_all
  then have "slot_diag (block_cols p) ?q R = c - (D0 + R)" using slot_of_diag by metis
  then show "c = slot_col p D0 R (owner p D0 c * ?n + ?q mod ?n)" using assms(1) unfolding q by (simp add: slot_col_def)
  have "?q < BLOCKSZ p * ?n" using W mod_less_divisor [OF W, of "c - D0"] by (simp only: block_cols_def)
  then show "owner p D0 c < BLOCKSZ p" using assms(3) by (simp add: owner_def div_less_iff_less_mult)
qed

subsection \<open>The registers of a lane\<close>

definition lane_regs :: "geometry \<Rightarrow> kernel_env \<Rightarrow> KernelArgs \<Rightarrow> nat \<Rightarrow> nat \<Rightarrow> nat \<Rightarrow> shfl_state \<Rightarrow> bool" where
  "lane_regs p env args D0 R t st \<longleftrightarrow>
     length (s_cov st) = DiagsPerThread p \<and> length (s_dfc st) = DiagsPerThread p \<and> length (s_dgc st) = DiagsPerThread p
     \<and> length (s_inormc st) = DiagsPerThread p \<and> length (s_global_col st) = DiagsPerThread p
     \<and> warpln st = t mod 32 \<and> warpid st = t div 32 \<and> srcln st = (t mod 32 + 31) mod 32
     \<and> updates_remaining st = int (slot_diag (block_cols p) (t * DiagsPerThread p + (DiagsPerThread p - 1)) R)
     \<and> (\<forall>i < DiagsPerThread p. s_global_col st ! i = slot_col p D0 R (t * DiagsPerThread p + i)
          \<and> (s_global_col st ! i < nat (k_n_x args) \<longrightarrow>
               s_dfc st ! i = fcast (rd_data env) (k_dfa args ! (s_global_col st ! i))
               \<and> s_dgc st ! i = fcast (rd_data env) (k_dga args ! (s_global_col st ! i))
               \<and> s_inormc st ! i = fcast (rd_data env) (k_normsa args ! (s_global_col st ! i))))"

text \<open>A covariance of slot \<open>q\<close> in row \<open>R\<close>, if the cell is in the matrix or just below it.\<close>

definition cov_ok ::
  "geometry \<Rightarrow> kernel_env \<Rightarrow> KernelArgs \<Rightarrow> fp list \<Rightarrow> nat \<Rightarrow> nat \<Rightarrow> nat \<Rightarrow> fp \<Rightarrow> bool" where
  "cov_ok p env args cov0 D0 R q x \<longleftrightarrow> (slot_col p D0 R q < nat (k_n_x args) \<and> R \<le> nat (k_n_y args) \<longrightarrow>
     x = gpu_cov (rd_data env) args cov0 (D0 + slot_diag (block_cols p) q R) R)"

text \<open>Lane 0 finds its first covariance in the hand-off.\<close>

definition lane_covs ::
  "geometry \<Rightarrow> kernel_env \<Rightarrow> KernelArgs \<Rightarrow> fp list \<Rightarrow> nat \<Rightarrow> nat \<Rightarrow> nat \<Rightarrow> shfl_state \<Rightarrow> bool" where
  "lane_covs p env args cov0 D0 R t st \<longleftrightarrow> (\<forall>i < DiagsPerThread p. t mod 32 = 0 \<and> i = 0 \<and> 0 < R
     \<or> cov_ok p env args cov0 D0 R (t * DiagsPerThread p + i) (s_cov st ! i))"

text \<open>The cells of a column above row \<open>R\<close>, as updates.\<close>

definition col_upto :: "kernel_env \<Rightarrow> KernelArgs \<Rightarrow> fp list \<Rightarrow> gcell set \<Rightarrow> nat \<Rightarrow> nat \<Rightarrow> candidates" where
  "col_upto env args cov0 S R c = {(gpu_corr env args cov0 r c, word32 r) | r. (r, c) \<in> S \<and> r < R}"

definition lane_bests ::
  "geometry \<Rightarrow> kernel_env \<Rightarrow> KernelArgs \<Rightarrow> fp list \<Rightarrow> nat \<Rightarrow> nat \<Rightarrow> nat \<Rightarrow> shfl_state \<Rightarrow> bool" where
  "lane_bests p env args cov0 D0 tsr R st \<longleftrightarrow>
     length (s_best st) = DiagsPerThread p \<and> length (s_local_col st) = DiagsPerThread p
     \<and> (\<forall>i < DiagsPerThread p. s_global_col st ! i = D0 + tsr + s_local_col st ! i
          \<and> (COMPUTE_COLS p \<longrightarrow>
               best_reg (col_upto env args cov0 (band p args D0 tsr) R (s_global_col st ! i)) (s_best st ! i)))"

lemma lane_update [simp]:
  "lane_bests p env args cov0 D0 tsr R (st\<lparr>s_cov := xs\<rparr>) = lane_bests p env args cov0 D0 tsr R st"
  "length xs = length (s_cov st) \<Longrightarrow> lane_regs p env args D0 R t (st\<lparr>s_cov := xs\<rparr>) = lane_regs p env args D0 R t st"
  "lane_bests p env args cov0 D0 tsr R (st\<lparr>updates_remaining := u\<rparr>) = lane_bests p env args cov0 D0 tsr R st"
proof -
  have same': "s_best (st\<lparr>updates_remaining := u\<rparr>) = s_best st" "s_local_col (st\<lparr>updates_remaining := u\<rparr>) = s_local_col st"
      "s_global_col (st\<lparr>updates_remaining := u\<rparr>) = s_global_col st" by simp_all
  show "lane_bests p env args cov0 D0 tsr R (st\<lparr>updates_remaining := u\<rparr>) = lane_bests p env args cov0 D0 tsr R st"
    unfolding lane_bests_def same' ..
  have same: "s_best (st\<lparr>s_cov := xs\<rparr>) = s_best st" "s_local_col (st\<lparr>s_cov := xs\<rparr>) = s_local_col st"
      "s_global_col (st\<lparr>s_cov := xs\<rparr>) = s_global_col st" by simp_all
  show "lane_bests p env args cov0 D0 tsr R (st\<lparr>s_cov := xs\<rparr>) = lane_bests p env args cov0 D0 tsr R st"
    unfolding lane_bests_def same ..
  show "length xs = length (s_cov st) \<Longrightarrow> lane_regs p env args D0 R t (st\<lparr>s_cov := xs\<rparr>) = lane_regs p env args D0 R t st"
    by (simp add: lane_regs_def)
qed

text \<open>The fast path is taken only where every slot of the tile is valid.\<close>

lemma slot_valid_band:
  assumes "lane_regs p env args D0 R t st" "lane_bests p env args cov0 D0 tsr R st" "t < BLOCKSZ p" "i < DiagsPerThread p"
    and "R = tsr + r" "r < tile_rows p" "fast \<Longrightarrow> fast_shfl p args (D0 + tsr) tsr"
  shows "slot_valid p args fast r R st i \<longleftrightarrow> (R, s_global_col st ! i) \<in> band p args D0 tsr"
proof -
  let ?d = "slot_diag (block_cols p) (t * DiagsPerThread p + i) R"
  have c: "s_global_col st ! i = D0 + R + ?d" "s_global_col st ! i = D0 + tsr + s_local_col st ! i"
    using assms(1,2,4) by (auto simp: lane_regs_def lane_bests_def slot_col_def)
  have d: "?d < block_cols p" by (rule slot_diag_less [OF slot_bound [OF assms(3,4)]])
  have l: "s_local_col st ! i = r + ?d" using c assms(5) by simp
  have "D0 + R + ?d < nat (k_n_x args) \<and> R < nat (k_n_y args) \<and> D0 + ?d < num_diags_gpu args" if fast
    using assms(7) [OF that] d assms(5,6) by (auto simp: fast_shfl_def tile_width_def block_cols_def)
  then show ?thesis using d assms(5,6) unfolding slot_valid_def c(1) l band_def by auto
qed

definition rows_ok :: "geometry \<Rightarrow> kernel_env \<Rightarrow> KernelArgs \<Rightarrow> nat \<Rightarrow> shfl_smem \<Rightarrow> bool" where
  "rows_ok p env args tsr sm \<longleftrightarrow> row_data p env args tsr (k_dfb args) (r_df sm) \<and> row_data p env args tsr (k_dgb args) (r_dg sm)
     \<and> row_data p env args tsr (k_normsb args) (r_inorm sm)"

text \<open>A lane has the distances of its valid slots and the covariances the next row will find one slot on.\<close>

definition lane_dists ::
  "geometry \<Rightarrow> kernel_env \<Rightarrow> KernelArgs \<Rightarrow> fp list \<Rightarrow> nat \<Rightarrow> nat \<Rightarrow> nat \<Rightarrow> nat \<Rightarrow> shfl_state \<times> fp list \<Rightarrow> bool" where
  "lane_dists p env args cov0 D0 tsr R t r = (case r of (st, ds) \<Rightarrow>
     lane_regs p env args D0 R t st \<and> lane_bests p env args cov0 D0 tsr R st \<and> length ds = DiagsPerThread p
     \<and> (\<forall>i < DiagsPerThread p.
          cov_ok p env args cov0 D0 (Suc R) (next_slot (block_cols p) (t * DiagsPerThread p + i)) (s_cov st ! i)
          \<and> ds ! i = (if (R, s_global_col st ! i) \<in> band p args D0 tsr
                      then gpu_corr env args cov0 R (s_global_col st ! i) else dist_lowest)))"

lemma take_handoff_ok:
  assumes regs: "lane_regs p env args D0 R t st" and bests: "lane_bests p env args cov0 D0 tsr R st"
    and covs: "lane_covs p env args cov0 D0 R t st" and t: "t < BLOCKSZ p" "0 < DiagsPerThread p"
    and len: "length handoff = 2 * warps_per_block p" and wpb: "0 < warps_per_block p"
    and handoff: "0 < R \<Longrightarrow> t mod 32 = 0 \<Longrightarrow> cov_ok p env args cov0 D0 R (t * DiagsPerThread p)
      (handoff ! (r mod 2 * warps_per_block p + (t div 32 + warps_per_block p - 1) mod warps_per_block p))"
  shows "wp (take_handoff p r R handoff st) (\<lambda>st'. lane_regs p env args D0 R t st' \<and> lane_bests p env args cov0 D0 tsr R st'
    \<and> (\<forall>i < DiagsPerThread p. cov_ok p env args cov0 D0 R (t * DiagsPerThread p + i) (s_cov st' ! i)))"
proof (cases "0 < R")
  case False
  then show ?thesis using regs bests covs by (simp add: take_handoff_def lane_covs_def)
next
  case True
  let ?w = "warps_per_block p" and ?k = "r mod 2 * warps_per_block p + (warpid st + warps_per_block p - 1) mod warps_per_block p"
  have ids: "warpln st = t mod 32" "warpid st = t div 32" "length (s_cov st) = DiagsPerThread p"
    using regs by (simp_all add: lane_regs_def)
  have "(warpid st + ?w - 1) mod ?w < ?w" using wpb by simp
  moreover have "r mod 2 * ?w \<le> 1 * ?w" by (intro mult_right_mono) auto
  ultimately have k: "?k < length handoff" unfolding len by linarith
  define st' where "st' = (if warpln st = 0 then st\<lparr>s_cov := (s_cov st)[0 := handoff ! ?k]\<rparr> else st)"
  have "aget handoff (int ?k) = Some (handoff ! ?k)" using k by (simp only: aget_Some of_nat_less_iff nat_int of_nat_0_le_iff)
  then have "take_handoff p r R handoff st = Some st'" using True by (simp only: take_handoff_def if_True st'_def bind.bind_lunit)
  moreover have "cov_ok p env args cov0 D0 R (t * DiagsPerThread p + i) (s_cov st' ! i)" if i: "i < DiagsPerThread p" for i
    using covs handoff [OF True] i ids unfolding lane_covs_def st'_def by (cases i) auto
  moreover have "lane_regs p env args D0 R t st'" "lane_bests p env args cov0 D0 tsr R st'"
    using regs bests by (simp_all add: st'_def)
  ultimately show ?thesis by simp
qed

lemma lane_row_ok:
  assumes regs: "lane_regs p env args D0 R t st" and bests: "lane_bests p env args cov0 D0 tsr R st"
    and covs: "lane_covs p env args cov0 D0 R t st" and t: "t < BLOCKSZ p" "0 < DiagsPerThread p"
    and len: "length handoff = 2 * warps_per_block p" and wpb: "0 < warps_per_block p"
    and handoff: "0 < R \<Longrightarrow> t mod 32 = 0 \<Longrightarrow> cov_ok p env args cov0 D0 R (t * DiagsPerThread p)
      (handoff ! (r mod 2 * warps_per_block p + (t div 32 + warps_per_block p - 1) mod warps_per_block p))"
    and R: "R = tsr + r" "r < tile_rows p" "fast \<Longrightarrow> fast_shfl p args (D0 + tsr) tsr" and sm: "rows_ok p env args tsr sm"
  shows "wp (lane_row p env args fast r R sm handoff st) (lane_dists p env args cov0 D0 tsr R t)"
proof -
  obtain st' where st': "take_handoff p r R handoff st = Some st'" "lane_regs p env args D0 R t st'"
      "lane_bests p env args cov0 D0 tsr R st'"
      "\<And>i. i < DiagsPerThread p \<Longrightarrow> cov_ok p env args cov0 D0 R (t * DiagsPerThread p + i) (s_cov st' ! i)"
    using wp_SomeD [OF take_handoff_ok [OF regs bests covs t len wpb handoff]] by blast
  let ?n = "DiagsPerThread p" and ?ds = "distances env (s_cov st') (s_inormc st') 0 (r_inorm sm ! r)"
    and ?cov = "advance env (s_cov st') (s_dfc st') (s_dgc st') 0 (r_df sm ! r) (r_dg sm ! r)"
  have lens: "length (s_cov st') = ?n" using st'(2) by (simp add: lane_regs_def)
  have sm': "r < length (r_df sm)" "r < length (r_dg sm)" "r < length (r_inorm sm)"
    using sm R(2) by (simp_all add: rows_ok_def row_data_def)
  have row: "r_df sm ! r = fcast (rd_data env) (k_dfb args ! R)" "r_dg sm ! r = fcast (rd_data env) (k_dgb args ! R)"
      "r_inorm sm ! r = fcast (rd_data env) (k_normsb args ! R)" if "R < nat (k_n_y args)"
    using sm R that by (simp_all add: rows_ok_def row_data_def)
  define d where "d i = slot_diag (block_cols p) (t * ?n + i) R" for i
  have col: "s_global_col st' ! i = D0 + d i + 0 + R" "s_global_col st' ! i < nat (k_n_x args) \<Longrightarrow>
      s_dfc st' ! (0 + i) = fcast (rd_data env) (k_dfa args ! (s_global_col st' ! i))
      \<and> s_dgc st' ! (0 + i) = fcast (rd_data env) (k_dga args ! (s_global_col st' ! i))
      \<and> s_inormc st' ! (0 + i) = fcast (rd_data env) (k_normsa args ! (s_global_col st' ! i))" if "i < ?n" for i
    using st'(2) that by (simp_all add: lane_regs_def slot_col_def d_def)
  have cov: "s_cov st' ! i = gpu_cov (rd_data env) args cov0 (D0 + d i) R"
    if "i < ?n" "D0 + d i + R < nat (k_n_x args)" "R \<le> nat (k_n_y args)" for i
    using st'(4) [OF that(1)] that by (simp add: cov_ok_def slot_col_def d_def add_ac)
  have dist: "?ds ! i = gpu_corr env args cov0 R (s_global_col st' ! i)"
    if i: "i < ?n" and b: "(R, s_global_col st' ! i) \<in> band p args D0 tsr" for i
  proof -
    have in_mat: "R < nat (k_n_y args)" "s_global_col st' ! i < nat (k_n_x args)" using b by (auto simp: band_def)
    have "?ds ! i = gpu_corr env args cov0 R (D0 + d i + R)"
      using distances_nth [of i "s_cov st'" env args cov0 "D0 + d i - i" R "s_inormc st'" 0 "r_inorm sm ! r"]
        cov [OF i] col [OF i] row(3) in_mat lens i
      by (simp add: distances_def gpu_corr_def)
    then show ?thesis using col(1) [OF i] by simp
  qed
  have next_cov: "cov_ok p env args cov0 D0 (Suc R) (next_slot (block_cols p) (t * ?n + i)) (?cov ! i)" if i: "i < ?n" for i
    unfolding cov_ok_def
  proof
    have nd: "slot_diag (block_cols p) (next_slot (block_cols p) (t * ?n + i)) (Suc R) = d i"
      using slot_diag_next [OF slot_bound [OF t(1) i]] by (simp add: d_def)
    assume "slot_col p D0 (Suc R) (next_slot (block_cols p) (t * ?n + i)) < nat (k_n_x args) \<and> Suc R \<le> nat (k_n_y args)"
    then have in_mat: "D0 + d i + R < nat (k_n_x args)" "R < nat (k_n_y args)" by (simp_all add: slot_col_def nd)
    then show "?cov ! i = gpu_cov (rd_data env) args cov0
        (D0 + slot_diag (block_cols p) (next_slot (block_cols p) (t * ?n + i)) (Suc R)) (Suc R)"
      unfolding nd using cov [OF i] col [OF i] row(1,2) lens i by (simp add: advance_def)
  qed
  have valid: "slot_valid p args fast r R st' i \<longleftrightarrow> (R, s_global_col st' ! i) \<in> band p args D0 tsr" if "i < ?n" for i
    by (rule slot_valid_band [OF st'(2,3) t(1) that R])
  have "lane_dists p env args cov0 D0 tsr R t (st'\<lparr>s_cov := ?cov\<rparr>,
      map (\<lambda>i. if slot_valid p args fast r R st' i then ?ds ! i else dist_lowest) [0..<?n])"
    using st'(2,3) dist next_cov valid by (simp add: lane_dists_def)
  then show ?thesis using sm' st'(1) by (simp add: lane_row_def)
qed

subsection \<open>The rotation\<close>

text \<open>The updates of columns and of rows that cells stand for.\<close>

definition col_part :: "geometry \<Rightarrow> kernel_env \<Rightarrow> KernelArgs \<Rightarrow> fp list \<Rightarrow> nat \<Rightarrow> gcell set \<Rightarrow> nat \<Rightarrow> candidates" where
  "col_part p env args cov0 tsc S a = {e. COMPUTE_COLS p \<and> a < tile_width p
     \<and> (\<exists>r. (r, tsc + a) \<in> S \<and> e = (gpu_corr env args cov0 r (tsc + a), word32 r))}"

definition row_part :: "geometry \<Rightarrow> kernel_env \<Rightarrow> KernelArgs \<Rightarrow> fp list \<Rightarrow> nat \<Rightarrow> gcell set \<Rightarrow> nat \<Rightarrow> candidates" where
  "row_part p env args cov0 tsr S a = {e. COMPUTE_ROWS p \<and> row_base p \<le> a
     \<and> (\<exists>c. (tsr + (a - row_base p), c) \<in> S \<and> e = (gpu_corr env args cov0 (tsr + (a - row_base p)) c, word32 c))}"

lemma update_covers: "best_reg S e \<Longrightarrow> covers (\<lambda>a'. if a' = a then S else {}) [Max_entry a (fst e) (snd e) Always]"
  by (cases e) (auto simp: covers_def best_reg_def)

lemma update_self_ok [intro]: "a < length m0 \<Longrightarrow> self_ok m0 [Max_entry a v x Always]"
  by (simp add: self_ok_def)

text \<open>The cells a lane sends when a slot rotates in row \<open>R\<close>: those of the column on diagonal 0.\<close>

definition rotated :: "geometry \<Rightarrow> KernelArgs \<Rightarrow> nat \<Rightarrow> nat \<Rightarrow> nat \<Rightarrow> nat \<Rightarrow> gcell set" where
  "rotated p args D0 tsr R t = {(r, c) \<in> band p args D0 tsr. owner p D0 c = t \<and> c = D0 + R}"

lemma rotated_none:
  assumes "t < BLOCKSZ p" "0 < DiagsPerThread p"
    and "\<not> slot_diag (block_cols p) (t * DiagsPerThread p + (DiagsPerThread p - 1)) R < DiagsPerThread p"
  shows "rotated p args D0 tsr R t = {}"
proof -
  let ?n = "DiagsPerThread p"
  have "t * ?n + (?n - 1) < block_cols p" by (rule slot_bound [OF assms(1)]) (use assms(2) in simp)
  then have W: "t * ?n + ?n \<le> block_cols p" using assms(2) by simp
  have "owner p D0 (D0 + R) \<noteq> t"
  proof
    assume "owner p D0 (D0 + R) = t"
    then have t: "t = R mod block_cols p div ?n" by (simp add: owner_def)
    have "t * ?n \<le> R mod block_cols p" "R mod block_cols p < t * ?n + ?n"
      unfolding t using dividend_less_div_times [OF assms(2), of "R mod block_cols p"] by simp_all
    then show False using last_slot(1) [OF W assms(2), of R] assms(3) by simp
  qed
  then show ?thesis by (auto simp: rotated_def)
qed

lemma load_column_ok:
  assumes "arrays_ok args cov0" "fast \<Longrightarrow> pos < nat (k_n_x args)"
  shows "wp (load_column env args fast pos) (\<lambda>(df, dg, inorm). pos < nat (k_n_x args) \<longrightarrow>
    df = fcast (rd_data env) (k_dfa args ! pos) \<and> dg = fcast (rd_data env) (k_dga args ! pos)
    \<and> inorm = fcast (rd_data env) (k_normsa args ! pos))"
proof (cases "pos < nat (k_n_x args)")
  case True
  then have "pos < length (k_dfa args)" "pos < length (k_dga args)" "pos < length (k_normsa args)"
    using assms(1) by (auto simp: arrays_ok_def)
  then show ?thesis using True by (simp add: load_column_def)
next
  case False
  then show ?thesis using assms(2) by (auto simp: load_column_def)
qed

definition shfl_geometry_ok :: "geometry \<Rightarrow> bool" where
  "shfl_geometry_ok p \<longleftrightarrow> 0 < DiagsPerThread p \<and> DiagsPerThread p \<le> 8 \<and> 0 < BLOCKSZ p \<and> 32 dvd BLOCKSZ p
     \<and> 0 < tile_rows p \<and> even (tile_rows p)"

text \<open>What the end of a row leaves of a lane.\<close>

definition lane_next ::
  "geometry \<Rightarrow> kernel_env \<Rightarrow> KernelArgs \<Rightarrow> fp list \<Rightarrow> mp_entry list \<Rightarrow> nat \<Rightarrow> nat \<Rightarrow> nat \<Rightarrow> nat \<Rightarrow> shfl_state \<times> access list \<Rightarrow> bool" where
  "lane_next p env args cov0 m0 D0 tsr R t r = (case r of (st, as) \<Rightarrow>
     lane_regs p env args D0 (Suc R) t st \<and> lane_bests p env args cov0 D0 tsr (Suc R) st
     \<and> lane_covs p env args cov0 D0 (Suc R) t st
     \<and> self_ok m0 as \<and> covers (col_part p env args cov0 (D0 + tsr) (rotated p args D0 tsr R t)) as)"

lemma lane_regs_keep:
  assumes "lane_regs p env args D0 R t st" "t < BLOCKSZ p" "0 < DiagsPerThread p"
    and "\<not> slot_diag (block_cols p) (t * DiagsPerThread p + (DiagsPerThread p - 1)) R < DiagsPerThread p"
  shows "lane_regs p env args D0 (Suc R) t (st\<lparr>updates_remaining := updates_remaining st - 1\<rparr>)"
proof -
  let ?n = "DiagsPerThread p" and ?W = "block_cols p"
  have q: "t * ?n + i < ?W" if "i < ?n" for i by (rule slot_bound [OF assms(2) that])
  from q [of "?n - 1"] have W: "t * ?n + ?n \<le> ?W" using assms(3) by simp
  have "slot_diag ?W (t * ?n + i) R \<noteq> 0" if i: "i < ?n" for i
    using slot_diag_zero [OF q [OF i], of R] last_slot(1) [OF W assms(3), of R] assms(4) i by auto
  then have col: "slot_col p D0 (Suc R) (t * ?n + i) = slot_col p D0 R (t * ?n + i)" if "i < ?n" for i
    using slot_diag_Suc [OF q [OF that], of R] that by (simp add: slot_col_def)
  have "int (slot_diag ?W (t * ?n + (?n - 1)) (Suc R)) = int (slot_diag ?W (t * ?n + (?n - 1)) R) - 1"
    using slot_diag_Suc [OF q [of "?n - 1"], of R] assms(3,4) by auto
  then show ?thesis using assms(1) col by (simp add: lane_regs_def)
qed

lemma update_info_shfl_ok:
  assumes regs: "lane_regs p env args D0 R t st" and bests: "lane_bests p env args cov0 D0 tsr (Suc R) st"
    and t: "t < BLOCKSZ p" "0 < DiagsPerThread p" and arr: "arrays_ok args cov0"
    and u: "u = slot_diag (block_cols p) (t * DiagsPerThread p + (DiagsPerThread p - 1)) R" "u < DiagsPerThread p"
    and R: "R = tsr + r" "r < tile_rows p" "fast \<Longrightarrow> fast_shfl p args (D0 + tsr) tsr" and m0: "length m0 = mp_size p"
  shows "wp (update_info_shfl p env args fast u st) (\<lambda>(st', as).
    lane_regs p env args D0 (Suc R) t (st'\<lparr>updates_remaining := updates_remaining st' - 1\<rparr>)
    \<and> lane_bests p env args cov0 D0 tsr (Suc R) st' \<and> s_cov st' = s_cov st
    \<and> self_ok m0 as \<and> covers (col_part p env args cov0 (D0 + tsr) (rotated p args D0 tsr R t)) as)"
proof -
  let ?n = "DiagsPerThread p" and ?W = "block_cols p"
  define i where "i = ?n - 1 - u"
  have q: "t * ?n + j < ?W" if "j < ?n" for j by (rule slot_bound [OF t(1) that])
  from q [of "?n - 1"] have W: "t * ?n + ?n \<le> ?W" using t(2) by simp
  have m: "t * ?n \<le> R mod ?W" "R mod ?W < t * ?n + ?n" "i = R mod ?W - t * ?n"
    using last_slot [OF W t(2), of R] u by (simp_all add: i_def)
  then have i: "i < ?n" "t * ?n + i = R mod ?W" by simp_all
  have zero: "slot_diag ?W (t * ?n + j) R = 0 \<longleftrightarrow> j = i" if "j < ?n" for j
    using slot_diag_zero [OF q [OF that], of R] i(2) by auto
  have col: "slot_col p D0 R (t * ?n + i) = D0 + R" using zero [OF i(1)] by (simp add: slot_col_def)
  have W0: "0 < ?W" using q [OF i(1)] by simp
  have new: "slot_col p D0 (Suc R) (t * ?n + j) = (if j = i then D0 + R + ?W else slot_col p D0 R (t * ?n + j))" if "j < ?n" for j
    using slot_diag_Suc [OF q [OF that], of R] zero [OF that] W0 by (auto simp: slot_col_def)
  have len: "length (s_dfc st) = ?n" "length (s_dgc st) = ?n" "length (s_inormc st) = ?n" "length (s_global_col st) = ?n"
      "length (s_best st) = ?n" "length (s_local_col st) = ?n" using regs bests by (auto simp: lane_regs_def lane_bests_def)
  have gc: "s_global_col st ! i = D0 + R" "s_local_col st ! i = r"
    using regs bests i(1) col R(1) by (auto simp: lane_regs_def lane_bests_def)
  have "D0 + R + ?W < nat (k_n_x args)" if fast
    using R(3) [OF that] R(1,2) by (auto simp: fast_shfl_def tile_width_def block_cols_def)
  then obtain df dg inorm where l: "load_column env args fast (D0 + R + ?W) = Some (df, dg, inorm)"
      "D0 + R + ?W < nat (k_n_x args) \<Longrightarrow> df = fcast (rd_data env) (k_dfa args ! (D0 + R + ?W))
        \<and> dg = fcast (rd_data env) (k_dga args ! (D0 + R + ?W)) \<and> inorm = fcast (rd_data env) (k_normsa args ! (D0 + R + ?W))"
    using wp_SomeD [OF load_column_ok [OF arr, of fast "D0 + R + ?W" env]] by auto
  let ?as = "if COMPUTE_COLS p then [Max_entry r (fst (s_best st ! i)) (snd (s_best st ! i)) Always] else []"
  define st' where "st' = st\<lparr>s_dfc := (s_dfc st)[i := df], s_dgc := (s_dgc st)[i := dg], s_inormc := (s_inormc st)[i := inorm],
    s_best := (s_best st)[i := (dist_lowest, 0)], s_global_col := (s_global_col st)[i := D0 + R + ?W],
    s_local_col := (s_local_col st)[i := r + ?W],
    updates_remaining := (if u = 0 then int ?W else updates_remaining st)\<rparr>"
  have run: "update_info_shfl p env args fast u st = Some (st', ?as)"
    unfolding update_info_shfl_def Let_def i_def [symmetric] gc l(1) st'_def by simp
  have "int (slot_diag ?W (t * ?n + (?n - 1)) (Suc R)) = updates_remaining st' - 1"
    using slot_diag_Suc [OF q [of "?n - 1"], of R] t(2) u(1) regs W0 by (auto simp: st'_def lane_regs_def)
  then have regs': "lane_regs p env args D0 (Suc R) t (st'\<lparr>updates_remaining := updates_remaining st' - 1\<rparr>)"
    using regs l(2) new len by (auto simp: lane_regs_def st'_def nth_list_update)
  have empty: "col_upto env args cov0 (band p args D0 tsr) (Suc R) (D0 + R + ?W) = {}" by (auto simp: col_upto_def band_def)
  have "s_global_col st' ! j = D0 + tsr + s_local_col st' ! j \<and> (COMPUTE_COLS p \<longrightarrow>
      best_reg (col_upto env args cov0 (band p args D0 tsr) (Suc R) (s_global_col st' ! j)) (s_best st' ! j))" if j: "j < ?n" for j
  proof (cases "j = i")
    case True
    have new: "s_global_col st' ! i = D0 + R + ?W" "s_local_col st' ! i = r + ?W" "s_best st' ! i = (dist_lowest, 0)"
      using len i(1) by (simp_all add: st'_def)
    show ?thesis unfolding True new empty using R(1) by simp
  next
    case False
    then have old: "s_global_col st' ! j = s_global_col st ! j" "s_local_col st' ! j = s_local_col st ! j" "s_best st' ! j = s_best st ! j"
      by (simp_all add: st'_def)
    show ?thesis using bests j unfolding old lane_bests_def by blast
  qed
  moreover have "length (s_best st') = ?n" "length (s_local_col st') = ?n" using len by (simp_all add: st'_def)
  ultimately have bests': "lane_bests p env args cov0 D0 tsr (Suc R) st'" unfolding lane_bests_def by blast
  have fits: "r < tile_width p" using R(2) by (simp add: tile_width_def)
  have self: "self_ok m0 ?as" using fits m0 by (auto simp: mp_size_def row_base_def)
  have owned: "owner p D0 (D0 + R) = t" using owner_slot_col [OF t(1) i(1), of D0 R] col by simp
  have "covers (col_part p env args cov0 (D0 + tsr) (rotated p args D0 tsr R t)) ?as"
  proof (cases "COMPUTE_COLS p")
    case True
    have best: "best_reg (col_upto env args cov0 (band p args D0 tsr) (Suc R) (D0 + R)) (s_best st ! i)"
      using bests i(1) True gc(1) unfolding lane_bests_def by metis
    have "covers (col_part p env args cov0 (D0 + tsr) (rotated p args D0 tsr R t))
        [Max_entry r (fst (s_best st ! i)) (snd (s_best st ! i)) Always]"
    proof (rule covers_cong [OF update_covers [OF best, of r]])
      fix a
      show "(if a = r then col_upto env args cov0 (band p args D0 tsr) (Suc R) (D0 + R) else {})
          = col_part p env args cov0 (D0 + tsr) (rotated p args D0 tsr R t) a"
      proof (cases "a = r")
        case here: True
        have c: "D0 + tsr + a = D0 + R" using here R(1) by simp
        have "r' < Suc R" if "(r', D0 + R) \<in> band p args D0 tsr" for r' using that by (auto simp: band_def)
        then show ?thesis unfolding col_part_def col_upto_def rotated_def c using here True fits owned by auto
      next
        case False
        then show ?thesis using R(1) by (auto simp: col_part_def rotated_def)
      qed
    qed
    then show ?thesis using True by simp
  next
    case False
    then show ?thesis by (simp add: col_part_def covers_def)
  qed
  with self regs' bests' show ?thesis unfolding run by (simp add: st'_def)
qed

subsection \<open>The end of a row\<close>

lemma col_upto_Suc:
  "col_upto env args cov0 S (Suc R) c = (if (R, c) \<in> S then insert (gpu_corr env args cov0 R c, word32 R) (col_upto env args cov0 S R c)
     else col_upto env args cov0 S R c)"
  by (auto simp: col_upto_def less_Suc_eq)

lemma best_reg_lowest: "best_reg S e \<Longrightarrow> best_reg S (if fgt dist_lowest (fst e) then (dist_lowest, x) else e)"
  using best_reg_union [of S e "{}" "(dist_lowest, x)"] by simp

lemma merged_bests:
  assumes bests: "lane_bests p env args cov0 D0 tsr R st" and len: "length ds = DiagsPerThread p"
    and ds: "\<And>i. i < DiagsPerThread p \<Longrightarrow> ds ! i = (if (R, s_global_col st ! i) \<in> band p args D0 tsr
      then gpu_corr env args cov0 R (s_global_col st ! i) else dist_lowest)"
  shows "lane_bests p env args cov0 D0 tsr (Suc R)
    (st\<lparr>s_best := (if COMPUTE_COLS p then merge_columns (word32 R) 0 ds (s_best st) else s_best st), s_cov := xs\<rparr>)"
proof -
  let ?b = "if COMPUTE_COLS p then merge_columns (word32 R) 0 ds (s_best st) else s_best st"
  have lens: "length (s_best st) = DiagsPerThread p" "length (s_local_col st) = DiagsPerThread p"
    using bests by (simp_all add: lane_bests_def)
  have "best_reg (col_upto env args cov0 (band p args D0 tsr) (Suc R) (s_global_col st ! i)) (?b ! i)"
    if i: "i < DiagsPerThread p" "COMPUTE_COLS p" for i
  proof -
    have old: "best_reg (col_upto env args cov0 (band p args D0 tsr) R (s_global_col st ! i)) (s_best st ! i)"
      using bests i unfolding lane_bests_def by blast
    have new: "?b ! i = (if fgt (ds ! i) (fst (s_best st ! i)) then (ds ! i, word32 R) else s_best st ! i)"
      using merge_columns_nth [of 0 ds "s_best st" "word32 R" i] len lens i by simp
    show ?thesis
    proof (cases "(R, s_global_col st ! i) \<in> band p args D0 tsr")
      case True
      then show ?thesis using best_reg_insert [OF old, of "ds ! i" "word32 R"] ds [OF i(1)] new
        unfolding col_upto_Suc by simp
    next
      case False
      then have low: "ds ! i = dist_lowest" using ds [OF i(1)] by simp
      show ?thesis unfolding col_upto_Suc if_not_P [OF False] new low by (rule best_reg_lowest [OF old])
    qed
  qed
  moreover have "s_global_col st ! i = D0 + tsr + s_local_col st ! i" if "i < DiagsPerThread p" for i
    using bests that unfolding lane_bests_def by blast
  moreover have "length ?b = DiagsPerThread p" using lens by simp
  moreover have "s_best (st\<lparr>s_best := b, s_cov := xs\<rparr>) = b" "s_local_col (st\<lparr>s_best := b, s_cov := xs\<rparr>) = s_local_col st"
      "s_global_col (st\<lparr>s_best := b, s_cov := xs\<rparr>) = s_global_col st" for b by simp_all
  ultimately show ?thesis using lens unfolding lane_bests_def by metis
qed

lemma lane_finish_ok:
  assumes D: "lane_dists p env args cov0 D0 tsr R t (st, ds)" and wrap: "t mod 32 \<noteq> 0 \<Longrightarrow> cov_ok p env args cov0 D0 (Suc R) (t * DiagsPerThread p) wrap_in"
    and g: "shfl_geometry_ok p" and t: "t < BLOCKSZ p" and arr: "arrays_ok args cov0"
    and R: "R = tsr + r" "r < tile_rows p" "fast \<Longrightarrow> fast_shfl p args (D0 + tsr) tsr" and m0: "length m0 = mp_size p"
  shows "wp (lane_finish p env args fast R wrap_in (st, ds)) (lane_next p env args cov0 m0 D0 tsr R t)"
proof -
  let ?n = "DiagsPerThread p" and ?W = "block_cols p"
  have n: "0 < ?n" "?n \<le> 8" using g by (simp_all add: shfl_geometry_ok_def)
  have D': "lane_regs p env args D0 R t st" "lane_bests p env args cov0 D0 tsr R st" "length ds = ?n"
      "\<And>i. i < ?n \<Longrightarrow> cov_ok p env args cov0 D0 (Suc R) (next_slot ?W (t * ?n + i)) (s_cov st ! i)"
      "\<And>i. i < ?n \<Longrightarrow> ds ! i = (if (R, s_global_col st ! i) \<in> band p args D0 tsr
         then gpu_corr env args cov0 R (s_global_col st ! i) else dist_lowest)"
    using D by (simp_all add: lane_dists_def)
  define st1 where "st1 = st\<lparr>s_best := (if COMPUTE_COLS p then merge_columns (word32 R) 0 ds (s_best st) else s_best st),
    s_cov := wrap_in # butlast (s_cov st)\<rparr>"
  have len: "length (s_cov st) = ?n" using D'(1) by (simp add: lane_regs_def)
  have regs: "lane_regs p env args D0 R t st1" using D'(1) n(1) len by (simp add: lane_regs_def st1_def)
  have bests: "lane_bests p env args cov0 D0 tsr (Suc R) st1" unfolding st1_def by (rule merged_bests [OF D'(2,3,5)])
  have covs: "t mod 32 = 0 \<and> i = 0 \<or> cov_ok p env args cov0 D0 (Suc R) (t * ?n + i) (s_cov st1 ! i)" if i: "i < ?n" for i
  proof (cases i)
    case 0
    then show ?thesis using wrap by (cases "t mod 32 = 0") (simp_all add: st1_def)
  next
    case (Suc j)
    then have "next_slot ?W (t * ?n + j) = t * ?n + i" using slot_bound [OF t i] by (simp add: next_slot_def)
    moreover have "s_cov st1 ! i = s_cov st ! j" using i len by (simp add: st1_def Suc nth_butlast)
    ultimately show ?thesis using D'(4) [of j] i Suc by simp
  qed
  define u where "u = slot_diag ?W (t * ?n + (?n - 1)) R"
  have upd: "updates_remaining st1 = int u" using regs by (simp add: lane_regs_def u_def)
  have covs': "lane_covs p env args cov0 D0 (Suc R) t st'" if "s_cov st' = s_cov st1" for st'
    using covs that by (auto simp: lane_covs_def)
  show ?thesis
  proof (cases "u < ?n")
    case True
    from wp_SomeD [OF update_info_shfl_ok [where fast = fast, OF regs bests t n(1) arr u_def True R m0]]
    obtain st' as where r: "update_info_shfl p env args fast u st1 = Some (st', as)"
        "lane_regs p env args D0 (Suc R) t (st'\<lparr>updates_remaining := updates_remaining st' - 1\<rparr>)"
        "lane_bests p env args cov0 D0 tsr (Suc R) st'" "s_cov st' = s_cov st1" "self_ok m0 as"
        "covers (col_part p env args cov0 (D0 + tsr) (rotated p args D0 tsr R t)) as" by auto
    have "lane_finish p env args fast R wrap_in (st, ds) = Some (st'\<lparr>updates_remaining := updates_remaining st' - 1\<rparr>, as)"
      unfolding lane_finish_def prod.case Let_def st1_def [symmetric] using True n(2) upd r(1)
      by (simp add: do_update_info_shfl_def Let_def)
    then show ?thesis using r covs' by (simp add: lane_next_def)
  next
    case False
    then have "lane_finish p env args fast R wrap_in (st, ds) = Some (st1\<lparr>updates_remaining := updates_remaining st1 - 1\<rparr>, [])"
      unfolding lane_finish_def prod.case Let_def st1_def [symmetric] using upd by simp
    moreover note lane_regs_keep [OF regs t n(1) False [unfolded u_def]]
    moreover have "covers (col_part p env args cov0 (D0 + tsr) (rotated p args D0 tsr R t)) []"
      unfolding rotated_none [OF t n(1) False [unfolded u_def]] by (simp add: covers_def col_part_def)
    ultimately show ?thesis using bests covs' by (simp add: lane_next_def)
  qed
qed

end
