(* ===== verification/GpuShflWarp.thy ===== *)
theory GpuShflWarp
  imports GpuShflRow
begin

text \<open>
  A row of a warp of the shuffle kernel and the rows of a tile: the butterfly over the lanes finds the best of the
  warp's slots, and the hand-off brings every warp the covariance of the one before, in whatever order the warps run.
\<close>

subsection \<open>Lists of results\<close>

lemma wp_those:
  assumes "\<And>i. i < length xs \<Longrightarrow> wp (f (xs ! i)) (Q i)"
  shows "wp (those (map f xs)) (\<lambda>ys. length ys = length xs \<and> (\<forall>i < length xs. Q i (ys ! i)))"
  using assms
proof (induction xs arbitrary: Q)
  case (Cons x xs)
  obtain y where y: "f x = Some y" "Q 0 y" using wp_SomeD [OF Cons.prems [of 0]] by auto
  have "wp (those (map f xs)) (\<lambda>ys. length ys = length xs \<and> (\<forall>i < length xs. Q (Suc i) (ys ! i)))"
  proof (rule Cons.IH)
    fix i assume "i < length xs"
    then show "wp (f (xs ! i)) (Q (Suc i))" using Cons.prems [of "Suc i"] by simp
  qed
  then obtain ys where "those (map f xs) = Some ys" "length ys = length xs" "\<forall>i < length xs. Q (Suc i) (ys ! i)"
    using wp_SomeD by blast
  then show ?case using y by (auto simp: less_Suc_eq_0_disj)
qed simp

subsection \<open>The best of a row\<close>

lemma merge_to_row_shfl_lane_best:
  assumes "\<And>i. i < length ds \<Longrightarrow> \<not> V i \<Longrightarrow> ds ! i = dist_lowest"
  shows "best_reg {(ds ! i, word32 (cols ! i)) | i. i < length ds \<and> V i} (merge_to_row_shfl_lane cols ds)"
proof -
  let ?f = "\<lambda>i best. if fgt (ds ! i) (fst best) then (ds ! i, word32 (cols ! i)) else best"
  have "best_reg {(ds ! i, word32 (cols ! i)) | i. i < n \<and> V i} (fold ?f [0..<n] (dist_lowest, 0))" if "n \<le> length ds" for n
    using that
  proof (induction n)
    case (Suc n)
    let ?S = "{(ds ! i, word32 (cols ! i)) | i. i < n \<and> V i}" and ?e = "fold ?f [0..<n] (dist_lowest, 0)"
    have IH: "best_reg ?S ?e" using Suc by simp
    have last: "fold ?f [0..<Suc n] (dist_lowest, 0) = (if fgt (ds ! n) (fst ?e) then (ds ! n, word32 (cols ! n)) else ?e)" by simp
    show ?case
    proof (cases "V n")
      case True
      then have more: "{(ds ! i, word32 (cols ! i)) | i. i < Suc n \<and> V i} = insert (ds ! n, word32 (cols ! n)) ?S"
        by (auto simp: less_Suc_eq)
      show ?thesis unfolding last more by (rule best_reg_insert [OF IH])
    next
      case False
      then have same: "{(ds ! i, word32 (cols ! i)) | i. i < Suc n \<and> V i} = ?S" by (auto simp: less_Suc_eq)
      have low: "ds ! n = dist_lowest" using assms Suc.prems False by simp
      show ?thesis unfolding last same low by (rule best_reg_lowest [OF IH])
    qed
  qed simp
  from this [of "length ds"] show ?thesis by (simp add: merge_to_row_shfl_lane_def)
qed

definition row_cands_of :: "kernel_env \<Rightarrow> KernelArgs \<Rightarrow> fp list \<Rightarrow> gcell set \<Rightarrow> nat \<Rightarrow> candidates" where
  "row_cands_of env args cov0 S R = {(gpu_corr env args cov0 R c, word32 c) | c. (R, c) \<in> S}"

definition lane_cells :: "geometry \<Rightarrow> KernelArgs \<Rightarrow> nat \<Rightarrow> nat \<Rightarrow> nat \<Rightarrow> gcell set" where
  "lane_cells p args D0 tsr t = {(r, c) \<in> band p args D0 tsr. owner p D0 c = t}"

lemma lane_best_ok:
  assumes D: "lane_dists p env args cov0 D0 tsr R t (st, ds)" and t: "t < BLOCKSZ p" "0 < DiagsPerThread p"
  shows "best_reg (row_cands_of env args cov0 (lane_cells p args D0 tsr t) R) (merge_to_row_shfl_lane (s_global_col st) ds)"
proof -
  let ?B = "band p args D0 tsr" and ?gc = "s_global_col st"
  have D': "length ds = DiagsPerThread p" "\<And>i. i < length ds \<Longrightarrow> ?gc ! i = slot_col p D0 R (t * DiagsPerThread p + i)"
      "\<And>i. i < length ds \<Longrightarrow> ds ! i = (if (R, ?gc ! i) \<in> ?B then gpu_corr env args cov0 R (?gc ! i) else dist_lowest)"
    using D by (simp_all add: lane_dists_def lane_regs_def)
  have found: "\<exists>i < length ds. c = ?gc ! i" if c: "(R, c) \<in> lane_cells p args D0 tsr t" for c
  proof -
    have "D0 + R \<le> c" "c < D0 + R + block_cols p" "owner p D0 c = t" using c by (auto simp: lane_cells_def band_def)
    then show ?thesis using owned_column [of D0 R c p] t(2) D'(1,2) by metis
  qed
  have owned: "owner p D0 (?gc ! i) = t" if "i < length ds" for i
    using owner_slot_col [OF t(1), of i D0 R] that D'(1,2) by simp
  have iff: "(R, c) \<in> lane_cells p args D0 tsr t \<longleftrightarrow> (R, c) \<in> ?B \<and> owner p D0 c = t" for c by (simp add: lane_cells_def)
  have cells: "{c. (R, c) \<in> lane_cells p args D0 tsr t} = {?gc ! i | i. i < length ds \<and> (R, ?gc ! i) \<in> ?B}"
  proof (intro set_eqI iffI)
    fix c assume "c \<in> {c. (R, c) \<in> lane_cells p args D0 tsr t}"
    then show "c \<in> {?gc ! i | i. i < length ds \<and> (R, ?gc ! i) \<in> ?B}" using found [of c] iff [of c] by blast
  next
    fix c assume "c \<in> {?gc ! i | i. i < length ds \<and> (R, ?gc ! i) \<in> ?B}"
    then show "c \<in> {c. (R, c) \<in> lane_cells p args D0 tsr t}" using owned iff by blast
  qed
  have "row_cands_of env args cov0 (lane_cells p args D0 tsr t) R
      = (\<lambda>c. (gpu_corr env args cov0 R c, word32 c)) ` {c. (R, c) \<in> lane_cells p args D0 tsr t}"
    by (auto simp: row_cands_of_def)
  also have "\<dots> = {(ds ! i, word32 (?gc ! i)) | i. i < length ds \<and> (R, ?gc ! i) \<in> ?B}"
    unfolding cells using D'(3) by force
  finally have cands: "row_cands_of env args cov0 (lane_cells p args D0 tsr t) R
      = {(ds ! i, word32 (?gc ! i)) | i. i < length ds \<and> (R, ?gc ! i) \<in> ?B}" .
  show ?thesis unfolding cands by (rule merge_to_row_shfl_lane_best) (use D'(3) in simp)
qed

text \<open>The sets of a step of the butterfly: after the step with \<open>d\<close>, lane \<open>i\<close> below \<open>d\<close> has every lane that is \<open>i\<close> modulo \<open>d\<close>.\<close>

definition join :: "(nat \<Rightarrow> candidates) \<Rightarrow> nat \<Rightarrow> nat \<Rightarrow> candidates" where
  "join S d i = (\<Union>j \<in> {j. j < 32 \<and> j mod d = i}. S j)"

lemma mod_double:
  fixes d :: nat
  assumes "i < d"
  shows "j mod d = i \<longleftrightarrow> j mod (2 * d) = i \<or> j mod (2 * d) = i + d"
proof -
  have d: "0 < d" using assms by simp
  obtain m where m: "j mod (2 * d) = m" "m < 2 * d" using d mod_less_divisor [of "2 * d" j] by auto
  have "j mod d = m mod d" using m(1) mod_mod_cancel [of d "2 * d" j] by simp
  also have "\<dots> = (if m < d then m else m - d)" using m(2) by (simp add: mod_if)
  finally show ?thesis unfolding m(1) using assms m(2) by auto
qed

lemma reduce_join:
  assumes "length xs = 32 \<and> (\<forall>i < 2 * d. best_reg (join S (2 * d) i) (xs ! i))" "0 < d" "2 * d \<le> 32"
  shows "length (reduce_step d xs) = 32 \<and> (\<forall>i < d. best_reg (join S d i) (reduce_step d xs ! i))"
proof (intro conjI allI impI)
  show "length (reduce_step d xs) = 32" using assms(1) by (simp add: reduce_step_def shfl_down_def)
  fix i assume i: "i < d"
  have sets: "join S d i = join S (2 * d) i \<union> join S (2 * d) (i + d)"
    unfolding join_def mod_double [OF i] by blast
  have result: "reduce_step d xs ! i = (if fgt (fst (xs ! (i + d))) (fst (xs ! i)) then xs ! (i + d) else xs ! i)"
    using i assms by (simp add: reduce_step_def shfl_down_def)
  have best: "best_reg (join S (2 * d) i) (xs ! i)" "best_reg (join S (2 * d) (i + d)) (xs ! (i + d))"
    using assms(1) i by simp_all
  show "best_reg (join S d i) (reduce_step d xs ! i)" unfolding sets result by (rule best_reg_union [OF best])
qed

lemma warp_reduce_best:
  assumes "length xs = 32" "\<And>i. i < 32 \<Longrightarrow> best_reg (S i) (xs ! i)"
  shows "best_reg (\<Union>i < 32. S i) (warp_reduce xs ! 0)"
proof -
  have "join S 32 i = S i" if "i < 32" for i
  proof -
    have "{j. j < 32 \<and> j mod 32 = i} = {i}" using that by auto
    then show ?thesis by (simp add: join_def)
  qed
  then have "length xs = 32 \<and> (\<forall>i < 2 * 16. best_reg (join S (2 * 16) i) (xs ! i))" using assms by simp
  from reduce_join [OF this] have "length (reduce_step 16 xs) = 32
      \<and> (\<forall>i < 2 * 8. best_reg (join S (2 * 8) i) (reduce_step 16 xs ! i))" by simp
  from reduce_join [OF this] have "length (reduce_step 8 (reduce_step 16 xs)) = 32
      \<and> (\<forall>i < 2 * 4. best_reg (join S (2 * 4) i) (reduce_step 8 (reduce_step 16 xs) ! i))" by simp
  from reduce_join [OF this] have "length (reduce_step 4 (reduce_step 8 (reduce_step 16 xs))) = 32
      \<and> (\<forall>i < 2 * 2. best_reg (join S (2 * 2) i) (reduce_step 4 (reduce_step 8 (reduce_step 16 xs)) ! i))" by simp
  from reduce_join [OF this] have "length (reduce_step 2 (reduce_step 4 (reduce_step 8 (reduce_step 16 xs)))) = 32
      \<and> (\<forall>i < 2 * 1. best_reg (join S (2 * 1) i) (reduce_step 2 (reduce_step 4 (reduce_step 8 (reduce_step 16 xs))) ! i))" by simp
  from reduce_join [OF this] have "best_reg (join S 1 0) (warp_reduce xs ! 0)" by (simp add: warp_reduce_def)
  moreover have "join S 1 0 = (\<Union>i < 32. S i)" by (auto simp: join_def)
  ultimately show ?thesis by simp
qed

subsection \<open>A row of a warp\<close>

definition lane_ok :: "geometry \<Rightarrow> kernel_env \<Rightarrow> KernelArgs \<Rightarrow> fp list \<Rightarrow> nat \<Rightarrow> nat \<Rightarrow> nat \<Rightarrow> nat \<Rightarrow> shfl_state \<Rightarrow> bool" where
  "lane_ok p env args cov0 D0 tsr R t st \<longleftrightarrow> lane_regs p env args D0 R t st \<and> lane_bests p env args cov0 D0 tsr R st
     \<and> lane_covs p env args cov0 D0 R t st"

definition warp_cells :: "geometry \<Rightarrow> KernelArgs \<Rightarrow> nat \<Rightarrow> nat \<Rightarrow> nat \<Rightarrow> nat \<Rightarrow> gcell set" where
  "warp_cells p args D0 tsr R w = {(r, c) \<in> band p args D0 tsr. r = R \<and> owner p D0 c div 32 = w}"

text \<open>Lane 0 of a warp sends the warp's row as well.\<close>

definition warp_lane_next ::
  "geometry \<Rightarrow> kernel_env \<Rightarrow> KernelArgs \<Rightarrow> fp list \<Rightarrow> mp_entry list \<Rightarrow> nat \<Rightarrow> nat \<Rightarrow> nat \<Rightarrow> nat \<Rightarrow> nat
   \<Rightarrow> shfl_state \<times> access list \<Rightarrow> bool" where
  "warp_lane_next p env args cov0 m0 D0 tsr R w l x = (case x of (st, as) \<Rightarrow>
     lane_ok p env args cov0 D0 tsr (Suc R) (32 * w + l) st \<and> self_ok m0 as
     \<and> covers (\<lambda>a. (if l = 0 then row_part p env args cov0 tsr (warp_cells p args D0 tsr R w) a else {})
         \<union> col_part p env args cov0 (D0 + tsr) (rotated p args D0 tsr R (32 * w + l)) a) as)"

text \<open>What a warp hands to the next one: the covariance of the slot after its last.\<close>

definition handed :: "geometry \<Rightarrow> kernel_env \<Rightarrow> KernelArgs \<Rightarrow> fp list \<Rightarrow> nat \<Rightarrow> nat \<Rightarrow> nat \<Rightarrow> fp \<Rightarrow> bool" where
  "handed p env args cov0 D0 R w x \<longleftrightarrow>
     cov_ok p env args cov0 D0 R (next_slot (block_cols p) ((32 * w + 31) * DiagsPerThread p + (DiagsPerThread p - 1))) x"

lemma publish_lanes:
  assumes "length sts = 32" "\<And>l. l < 32 \<Longrightarrow> warpln (sts ! l) = l \<and> warpid (sts ! l) = w" "w < warps_per_block p"
    and "length handoff = 2 * warps_per_block p"
  shows "wp (forlist (publish p r) sts handoff)
    (\<lambda>h. h = handoff[(1 - r mod 2) * warps_per_block p + w := s_cov (sts ! 31) ! (DiagsPerThread p - 1)])"
proof -
  let ?k = "(1 - r mod 2) * warps_per_block p + w" and ?x = "s_cov (sts ! 31) ! (DiagsPerThread p - 1)"
  have "(1 - r mod 2) * warps_per_block p \<le> 1 * warps_per_block p" by (intro mult_right_mono) auto
  then have k: "?k < length handoff" using assms(3,4) by linarith
  have put: "aset handoff (int ?k) v = Some (handoff[?k := v])" for v
    using k by (simp only: aset_Some of_nat_less_iff nat_int of_nat_0_le_iff)
  have "wp (forlist (publish p r) sts handoff) (\<lambda>h. h = (if length sts = 32 then handoff[?k := ?x] else handoff))"
  proof (rule wp_forlist [where I = "\<lambda>xs h. h = (if length xs = 32 then handoff[?k := ?x] else handoff)"])
    fix xs st ys h assume e: "sts = xs @ st # ys" and h: "h = (if length xs = 32 then handoff[?k := ?x] else handoff)"
    have l: "length xs < 32" using assms(1) e by simp
    have st: "sts ! length xs = st" by (simp add: e)
    then have ids: "warpln st = length xs" "warpid st = w" using assms(2) [OF l] by simp_all
    show "wp (publish p r st h) (\<lambda>h. h = (if length (xs @ [st]) = 32 then handoff[?k := ?x] else handoff))"
    proof (cases "length xs = 31")
      case True
      then show ?thesis using h ids st put by (simp add: publish_def)
    next
      case False
      then show ?thesis using h ids l by (simp add: publish_def)
    qed
  qed simp
  then show ?thesis using assms(1) by simp
qed

lemma warp_cells_lanes:
  "row_cands_of env args cov0 (warp_cells p args D0 tsr R w) R
     = (\<Union>l < 32. row_cands_of env args cov0 (lane_cells p args D0 tsr (32 * w + l)) R)"
proof -
  have "t div 32 = w \<longleftrightarrow> (\<exists>l < 32. t = 32 * w + l)" for t
    using mod_less_divisor [of 32 t] by (auto intro: exI [of _ "t mod 32"])
  then show ?thesis unfolding row_cands_of_def warp_cells_def lane_cells_def by blast
qed

lemma row_part_row:
  assumes "COMPUTE_ROWS p" "R = tsr + r"
  shows "row_part p env args cov0 tsr (warp_cells p args D0 tsr R w) a
    = (if a = row_base p + r then row_cands_of env args cov0 (warp_cells p args D0 tsr R w) R else {})"
proof (cases "a = row_base p + r")
  case True
  then have "tsr + (a - row_base p) = R" "row_base p \<le> a" using assms(2) by simp_all
  then show ?thesis using True assms(1) by (auto simp: row_part_def row_cands_of_def)
next
  case False
  then show ?thesis using assms(2) by (auto simp: row_part_def warp_cells_def)
qed

text \<open>The row of the tile a warp runs, and where it stands in its block.\<close>

definition row_context ::
  "geometry \<Rightarrow> kernel_env \<Rightarrow> KernelArgs \<Rightarrow> fp list \<Rightarrow> mp_entry list \<Rightarrow> bool \<Rightarrow> nat \<Rightarrow> nat \<Rightarrow> nat \<Rightarrow> shfl_smem \<Rightarrow> bool" where
  "row_context p env args cov0 m0 fast D0 tsr r sm \<longleftrightarrow> shfl_geometry_ok p \<and> arrays_ok args cov0 \<and> r < tile_rows p
     \<and> (fast \<longrightarrow> fast_shfl p args (D0 + tsr) tsr) \<and> rows_ok p env args tsr sm \<and> length m0 = mp_size p"

lemma block_threads: "shfl_geometry_ok p \<Longrightarrow> BLOCKSZ p = 32 * warps_per_block p \<and> 0 < warps_per_block p"
  by (auto simp: shfl_geometry_ok_def warps_per_block_def elim!: dvdE)

lemma lane_thread:
  assumes "shfl_geometry_ok p" "w < warps_per_block p" "l < 32"
  shows "32 * w + l < BLOCKSZ p" "(32 * w + l) mod 32 = l" "(32 * w + l) div 32 = w"
proof -
  have "32 * w + 32 \<le> 32 * warps_per_block p" using assms(2) by simp
  then show "32 * w + l < BLOCKSZ p" using block_threads [OF assms(1)] assms(3) by linarith
qed (use assms(3) in auto)

lemma slot_before:
  assumes "0 < l" "l < 32" "t = 32 * w + l" "t < BLOCKSZ p" "0 < DiagsPerThread p"
  shows "next_slot (block_cols p) ((32 * w + (l - 1)) * DiagsPerThread p + (DiagsPerThread p - 1)) = t * DiagsPerThread p"
proof -
  obtain k where k: "l = Suc k" using assms(1) by (cases l) auto
  have "Suc ((32 * w + k) * DiagsPerThread p + (DiagsPerThread p - 1)) = t * DiagsPerThread p"
    using assms(3,5) by (simp add: k algebra_simps)
  moreover have "t * DiagsPerThread p < block_cols p" using slot_bound [OF assms(4), of 0] assms(5) by simp
  ultimately show ?thesis by (simp add: next_slot_def k)
qed

lemma warp_row_ok:
  assumes C: "row_context p env args cov0 m0 fast D0 tsr r sm" and R: "R = tsr + r" and w: "w < warps_per_block p"
    and sts: "length sts = 32" "\<And>l. l < 32 \<Longrightarrow> lane_ok p env args cov0 D0 tsr R (32 * w + l) (sts ! l)"
    and len: "length handoff = 2 * warps_per_block p"
    and handoff: "0 < R \<Longrightarrow> cov_ok p env args cov0 D0 R (32 * w * DiagsPerThread p)
      (handoff ! (r mod 2 * warps_per_block p + (w + warps_per_block p - 1) mod warps_per_block p))"
  shows "wp (warp_row p env args fast r R sm handoff sts) (\<lambda>(lanes, h). length lanes = 32
    \<and> (\<forall>l < 32. warp_lane_next p env args cov0 m0 D0 tsr R w l (lanes ! l))
    \<and> (\<exists>x. handed p env args cov0 D0 (Suc R) w x \<and> h = handoff[(1 - r mod 2) * warps_per_block p + w := x]))"
proof -
  let ?n = "DiagsPerThread p" and ?wpb = "warps_per_block p"
  have g: "shfl_geometry_ok p" and arr: "arrays_ok args cov0" and r: "r < tile_rows p"
    and fast: "fast \<Longrightarrow> fast_shfl p args (D0 + tsr) tsr" and sm: "rows_ok p env args tsr sm" and m0: "length m0 = mp_size p"
    using C by (auto simp: row_context_def)
  have n: "0 < ?n" using g by (simp add: shfl_geometry_ok_def)
  have wpb: "0 < ?wpb" using w by simp
  note t = lane_thread [OF g w]
  have "wp (lane_row p env args fast r R sm handoff (sts ! l)) (lane_dists p env args cov0 D0 tsr R (32 * w + l))" if l: "l < 32" for l
  proof (rule lane_row_ok [OF _ _ _ t(1) [OF l] n len wpb _ R r fast sm])
    show "lane_regs p env args D0 R (32 * w + l) (sts ! l)" "lane_bests p env args cov0 D0 tsr R (sts ! l)"
      "lane_covs p env args cov0 D0 R (32 * w + l) (sts ! l)" using sts(2) [OF l] by (simp_all add: lane_ok_def)
    assume "0 < R" "(32 * w + l) mod 32 = 0"
    then have "l = 0" using t(2) [OF l] by simp
    then show "cov_ok p env args cov0 D0 R ((32 * w + l) * ?n)
        (handoff ! (r mod 2 * ?wpb + ((32 * w + l) div 32 + ?wpb - 1) mod ?wpb))" using handoff [OF \<open>0 < R\<close>] by simp
  qed
  then obtain lanes where lanes: "those (map (lane_row p env args fast r R sm handoff) sts) = Some lanes" "length lanes = 32"
      "\<And>l. l < 32 \<Longrightarrow> lane_dists p env args cov0 D0 tsr R (32 * w + l) (lanes ! l)"
    using wp_SomeD [OF wp_those [of sts "lane_row p env args fast r R sm handoff"
      "\<lambda>l. lane_dists p env args cov0 D0 tsr R (32 * w + l)"]] sts(1) by auto
  have regs: "lane_regs p env args D0 R (32 * w + l) (fst (lanes ! l))" if "l < 32" for l
    using lanes(3) [OF that] by (auto simp: lane_dists_def)
  then have ids: "warpln (fst (lanes ! l)) = l" "warpid (fst (lanes ! l)) = w" "srcln (fst (lanes ! l)) = (l + 31) mod 32" if "l < 32" for l
    using t(2,3) that by (simp_all add: lane_regs_def)
  have cov: "cov_ok p env args cov0 D0 (Suc R) (next_slot (block_cols p) ((32 * w + l) * ?n + (?n - 1)))
      (s_cov (fst (lanes ! l)) ! (?n - 1))" if "l < 32" for l
  proof -
    have "\<forall>i < ?n. cov_ok p env args cov0 D0 (Suc R) (next_slot (block_cols p) ((32 * w + l) * ?n + i)) (s_cov (fst (lanes ! l)) ! i)"
      using lanes(3) [OF that] by (simp add: lane_dists_def case_prod_beta)
    moreover have "?n - 1 < ?n" using n by simp
    ultimately show ?thesis by blast
  qed
  let ?x = "s_cov (fst (lanes ! 31)) ! (?n - 1)" and ?h = "\<lambda>x. handoff[(1 - r mod 2) * ?wpb + w := x]"
  have x: "handed p env args cov0 D0 (Suc R) w ?x" using cov [of 31] by (simp add: handed_def)
  have pub: "forlist (publish p r) (map fst lanes) handoff = Some (?h ?x)"
    using wp_SomeD [OF publish_lanes [of "map fst lanes" w p handoff r]] lanes(2) ids w len by auto
  define row where "row = warp_reduce (map (\<lambda>(st, dists). merge_to_row_shfl_lane (s_global_col st) dists) lanes) ! 0"
  define flush_row where "flush_row st = (if COMPUTE_ROWS p \<and> warpln st = 0
    then [Max_entry (row_base p + r) (fst row) (snd row) Always] else [])" for st :: shfl_state
  have best: "best_reg (row_cands_of env args cov0 (warp_cells p args D0 tsr R w) R) row"
    unfolding warp_cells_lanes row_def
  proof (rule warp_reduce_best)
    fix l :: nat assume l: "l < 32"
    show "best_reg (row_cands_of env args cov0 (lane_cells p args D0 tsr (32 * w + l)) R)
        (map (\<lambda>(st, dists). merge_to_row_shfl_lane (s_global_col st) dists) lanes ! l)"
      using lane_best_ok [OF _ t(1) [OF l] n, of env args cov0 D0 tsr R "fst (lanes ! l)" "snd (lanes ! l)"] lanes(2) lanes(3) [OF l] l
      by (simp add: case_prod_beta)
  qed (use lanes(2) in simp)
  let ?f = "\<lambda>(st, dists). map_option (\<lambda>(st', as). (st', flush_row st @ as))
    (lane_finish p env args fast R (s_cov (fst (lanes ! srcln st)) ! (?n - 1)) (st, dists))"
  have fin: "wp (?f (lanes ! l)) (warp_lane_next p env args cov0 m0 D0 tsr R w l)" if l: "l < length lanes" for l
  proof -
    have l: "l < 32" using l lanes(2) by simp
    obtain st ds where st: "lanes ! l = (st, ds)" by (cases "lanes ! l")
    have wrap: "cov_ok p env args cov0 D0 (Suc R) ((32 * w + l) * ?n) (s_cov (fst (lanes ! srcln st)) ! (?n - 1))"
      if "(32 * w + l) mod 32 \<noteq> 0"
    proof -
      have "0 < l" "srcln st = l - 1" using that t(2) [OF l] ids(3) [OF l] st l by (auto simp: mod_if)
      then show ?thesis using cov [of "l - 1"] slot_before [OF _ l refl t(1) [OF l] n] l by simp
    qed
    obtain st' as where fin: "lane_finish p env args fast R (s_cov (fst (lanes ! srcln st)) ! (?n - 1)) (st, ds) = Some (st', as)"
        "lane_next p env args cov0 m0 D0 tsr R (32 * w + l) (st', as)"
      using wp_SomeD [OF lane_finish_ok [where fast = fast, OF _ wrap g t(1) [OF l] arr R r fast m0]] lanes(3) [OF l] st by fastforce
    have next': "lane_ok p env args cov0 D0 tsr (Suc R) (32 * w + l) st'" "self_ok m0 as"
        "covers (col_part p env args cov0 (D0 + tsr) (rotated p args D0 tsr R (32 * w + l))) as"
      using fin(2) by (simp_all add: lane_next_def lane_ok_def)
    have "covers (\<lambda>a. if l = 0 then row_part p env args cov0 tsr (warp_cells p args D0 tsr R w) a else {}) (flush_row st)"
    proof (cases "COMPUTE_ROWS p \<and> l = 0")
      case True
      then show ?thesis using covers_cong [OF update_covers [OF best, of "row_base p + r"] row_part_row [OF _ R, symmetric]] ids(1) [OF l] st
        by (simp add: flush_row_def)
    next
      case False
      then show ?thesis using ids(1) [OF l] st by (auto simp: flush_row_def covers_def row_part_def)
    qed
    moreover have "self_ok m0 (flush_row st)" using m0 r by (auto simp: flush_row_def mp_size_def)
    ultimately show ?thesis using fin(1) next' covers_append st by (auto simp: warp_lane_next_def)
  qed
  have run: "warp_row p env args fast r R sm handoff sts = those (map ?f lanes) \<bind> (\<lambda>lanes'. Some (lanes', ?h ?x))"
    by (simp only: warp_row_def lanes(1) bind.bind_lunit pub Let_def flush_row_def row_def)
  obtain lanes' where "those (map ?f lanes) = Some lanes'" "length lanes' = 32"
      "\<And>l. l < 32 \<Longrightarrow> warp_lane_next p env args cov0 m0 D0 tsr R w l (lanes' ! l)"
    using wp_SomeD [OF wp_those [of lanes ?f, OF fin]] lanes(2) by auto
  then show ?thesis unfolding run using x by auto
qed

end
