(* ===== verification/GpuGrid.thy ===== *)
theory GpuGrid
  imports GpuBlock KernelProfiles
begin

text \<open>
  The whole grid of the sliding-window kernel: all blocks, in any order and interleaved in any way. A round of a
  block reads elements of the global profiles while other blocks update them; what it reads is the initial entry
  or an update sent by a round that started its own work before. The rounds are therefore events in the order in
  which their reads end, each with a choice of what it sees, and the updates of all rounds together run against
  the global memory in any interleaving. The theorem says that the profiles end as the CPU kernel leaves them.
\<close>

subsection \<open>The grid\<close>

record 'c grid_event =
  ev_block :: nat
  ev_sees :: "nat \<Rightarrow> nat"
  ev_choice :: 'c

text \<open>What an element may hold: its initial entry or an update that has been sent.\<close>

fun sent_entries :: "nat \<Rightarrow> access list \<Rightarrow> mp_entry list" where
  "sent_entries g [] = []"
| "sent_entries g (Load_value k a # as) = sent_entries g as"
| "sent_entries g (Max_entry a v x c # as) =
     (if a = g then \<lparr>floats0 = v, ints1 = x\<rparr> # sent_entries g as else sent_entries g as)"

definition seen :: "mp_entry list \<Rightarrow> access list list \<Rightarrow> (nat \<Rightarrow> nat) \<Rightarrow> nat \<Rightarrow> mp_entry" where
  "seen m0 sent sees g = (let es = m0 ! g # sent_entries g (concat sent) in es ! (sees g mod length es))"

text \<open>A round of a block: \<open>run\<close> is the kernel's, from what the threads read and how they interleave.\<close>

type_synonym ('c, 'b) tile_run = "mp_entry list \<Rightarrow> mp_entry list \<Rightarrow> 'c \<Rightarrow> 'b \<Rightarrow> ('b \<times> access list list) option"

definition grid_step ::
  "('c, 'a tile_block_scheme) tile_run \<Rightarrow> KernelArgs \<Rightarrow> nat \<Rightarrow> mp_entry list \<Rightarrow> 'c grid_event
   \<Rightarrow> 'a tile_block_scheme list \<times> access list list \<Rightarrow> ('a tile_block_scheme list \<times> access list list) option" where
  "grid_step run args n_a m0 ev st = (case st of (blocks, sent) \<Rightarrow>
     let b = ev_block ev in
     if b < length blocks \<and> has_tile args (blocks ! b) then do {
       let read_a = map (seen m0 sent (ev_sees ev)) [0..<nat (k_n_x args)];
       let read_b = map (\<lambda>i. seen m0 sent (ev_sees ev) (n_a + i)) [0..<nat (k_n_y args)];
       (B, progs) \<leftarrow> run read_a read_b (ev_choice ev) (blocks ! b);
       Some (blocks[b := B], sent @ progs) }
     else Some (blocks, sent))"

text \<open>A launch; \<open>None\<close> also if the events end before every block has.\<close>

definition run_grid ::
  "('c, 'a tile_block_scheme) tile_run \<Rightarrow> KernelArgs \<Rightarrow> 'a tile_block_scheme list
   \<Rightarrow> 'c grid_event list \<Rightarrow> (nat \<Rightarrow> nat list) \<Rightarrow> mp_entry list \<Rightarrow> mp_entry list \<Rightarrow> (mp_entry list \<times> mp_entry list) option" where
  "run_grid run args init events schedule A B = do {
     (blocks, sent) \<leftarrow> forlist (grid_step run args (length A) (A @ B)) events (init, []);
     let (ts, mem) = run_threads (schedule (step_bound sent (length (A @ B)))) sent (A @ B);
     if list_all (\<lambda>B. \<not> has_tile args B) blocks \<and> list_all (\<lambda>t. accesses t = [] \<and> \<not> faulted t) ts
     then Some (take (length A) mem, drop (length A) mem) else None }"

definition launch_grid ::
  "geometry \<Rightarrow> kernel_env \<Rightarrow> KernelArgs \<Rightarrow> fp list \<Rightarrow> (nat \<Rightarrow> fp list \<times> smem \<times> mp_entry list) \<Rightarrow> nat
   \<Rightarrow> (nat \<Rightarrow> nat list) grid_event list \<Rightarrow> (nat \<Rightarrow> nat list) \<Rightarrow> mp_entry list \<Rightarrow> mp_entry list
   \<Rightarrow> (mp_entry list \<times> mp_entry list) option" where
  "launch_grid p env args cov garbage num_blocks events schedule A B =
     run_grid (block_tile p env args (length A)) args
       (map (\<lambda>b. case garbage b of (regs, sm, mp) \<Rightarrow> init_block p env args cov regs sm mp b) [0..<num_blocks]) events schedule A B"

subsection \<open>What has been sent\<close>

definition in_matrix :: "geometry \<Rightarrow> KernelArgs \<Rightarrow> bool \<Rightarrow> nat \<Rightarrow> bool" where
  "in_matrix p args b i \<longleftrightarrow> (if b then COMPUTE_ROWS p \<and> i < nat (k_n_y args) else COMPUTE_COLS p \<and> i < nat (k_n_x args))"

text \<open>An entry that comes from the profile or from a cell of \<open>S\<close>.\<close>

definition from_cells :: "mp_entry \<Rightarrow> candidates \<Rightarrow> mp_entry \<Rightarrow> bool" where
  "from_cells e0 S e \<longleftrightarrow> e = e0 \<or> flt (floats0 e0) (floats0 e) \<and> (floats0 e, ints1 e) \<in> S"

definition sent_sound ::
  "geometry \<Rightarrow> kernel_env \<Rightarrow> KernelArgs \<Rightarrow> fp list \<Rightarrow> nat \<Rightarrow> mp_entry list \<Rightarrow> gcell set \<Rightarrow> access list list \<Rightarrow> bool" where
  "sent_sound p env args cov0 n_a m0 S sent \<longleftrightarrow> (\<forall>y \<in> \<Union>(set ` set sent). \<exists>b i e. in_matrix p args b i
     \<and> y = write_back_value (global_addr n_a b i) e
     \<and> from_cells (m0 ! global_addr n_a b i) (side_cands env args cov0 S b i) e)"

definition offered :: "access list list \<Rightarrow> nat \<Rightarrow> fp \<Rightarrow> bool" where
  "offered sent g v \<longleftrightarrow> (\<exists>e. write_back_value g e \<in> \<Union>(set ` set sent) \<and> \<not> flt (floats0 e) v)"

lemma offered_append: "offered sent g v \<or> offered progs g v \<Longrightarrow> offered (sent @ progs) g v"
  by (auto simp: offered_def)

definition sent_complete ::
  "geometry \<Rightarrow> kernel_env \<Rightarrow> KernelArgs \<Rightarrow> fp list \<Rightarrow> nat \<Rightarrow> gcell set \<Rightarrow> access list list \<Rightarrow> bool" where
  "sent_complete p env args cov0 n_a S sent \<longleftrightarrow> (\<forall>b i. in_matrix p args b i \<longrightarrow>
     (\<forall>v x. (v, x) \<in> side_cands env args cov0 S b i \<longrightarrow> offered sent (global_addr n_a b i) v))"

lemma sent_completeE:
  assumes "sent_complete p env args cov0 n_a S sent" "in_matrix p args b i" "(v, x) \<in> side_cands env args cov0 S b i"
  obtains e where "write_back_value (global_addr n_a b i) e \<in> \<Union>(set ` set sent)" "\<not> flt (floats0 e) v"
proof -
  have "offered sent (global_addr n_a b i) v" using assms unfolding sent_complete_def by metis
  then show thesis using that unfolding offered_def by (elim exE conjE)
qed

lemma updates_ofI: "q \<in> Q \<Longrightarrow> Max_entry a v x c \<in> set q \<Longrightarrow> (v, x) \<in> updates_of Q a"
  by (auto simp: updates_of_def)

lemma sent_entries_iff: "e \<in> set (sent_entries g as) \<longleftrightarrow> (\<exists>c. Max_entry g (floats0 e) (ints1 e) c \<in> set as)"
  by (induction g as rule: sent_entries.induct) (auto simp: mp_entry.equality)

lemma seen_cases:
  "seen m0 sent sees g = m0 ! g \<or> (\<exists>c. Max_entry g (floats0 (seen m0 sent sees g)) (ints1 (seen m0 sent sees g)) c \<in> \<Union>(set ` set sent))"
proof -
  let ?es = "m0 ! g # sent_entries g (concat sent)"
  have "seen m0 sent sees g = ?es ! (sees g mod length ?es)" by (simp only: seen_def Let_def)
  moreover have "sees g mod length ?es < length ?es" by (intro mod_less_divisor) simp
  ultimately have "seen m0 sent sees g \<in> set ?es" by (metis nth_mem)
  then show ?thesis using sent_entries_iff [of "seen m0 sent sees g" g "concat sent"] by auto
qed

lemma global_addr_inj:
  assumes "in_matrix p args b i" "in_matrix p args b' i'" "nat (k_n_x args) \<le> n_a" "global_addr n_a b i = global_addr n_a b' i'"
  shows "b = b'" "i = i'"
  using assms by (auto simp: in_matrix_def global_addr_def split: if_splits)

lemma seen_from_cells:
  assumes "sent_sound p env args cov0 n_a m0 S sent" "in_matrix p args b i" "nat (k_n_x args) \<le> n_a"
  shows "from_cells (m0 ! global_addr n_a b i) (side_cands env args cov0 S b i) (seen m0 sent sees (global_addr n_a b i))"
proof (cases "seen m0 sent sees (global_addr n_a b i) = m0 ! global_addr n_a b i")
  case True
  then show ?thesis by (simp add: from_cells_def)
next
  case False
  let ?e = "seen m0 sent sees (global_addr n_a b i)"
  obtain c where "Max_entry (global_addr n_a b i) (floats0 ?e) (ints1 ?e) c \<in> \<Union>(set ` set sent)"
    using seen_cases [of m0 sent sees "global_addr n_a b i"] False by blast
  then obtain b' i' e where e: "in_matrix p args b' i'"
      "Max_entry (global_addr n_a b i) (floats0 ?e) (ints1 ?e) c = write_back_value (global_addr n_a b' i') e"
      "from_cells (m0 ! global_addr n_a b' i') (side_cands env args cov0 S b' i') e"
    using assms(1) unfolding sent_sound_def by blast
  then have "b = b'" "i = i'" using global_addr_inj [OF assms(2) e(1) assms(3)] by (simp_all add: write_back_value_def)
  moreover have "?e = e" using e(2) [unfolded write_back_value_def access.inject] by (intro mp_entry.equality) (blast | simp)+
  ultimately show ?thesis using e(3) by simp
qed

lemma from_cells_not_below: "from_cells e0 S e \<Longrightarrow> \<not> flt (floats0 e0) d \<Longrightarrow> \<not> flt (floats0 e) d"
  using flt_trans by (auto simp: from_cells_def)

lemma side_cands_mono: "S \<subseteq> T \<Longrightarrow> side_cands env args cov0 S b i \<subseteq> side_cands env args cov0 T b i"
  by (auto simp: side_cands_def)

lemma side_cands_Un: "side_cands env args cov0 (S \<union> T) b i = side_cands env args cov0 S b i \<union> side_cands env args cov0 T b i"
  by (auto simp: side_cands_def)

lemma in_tile_matrix: "in_tile p args tsc tsr b i \<Longrightarrow> in_matrix p args b i"
  by (auto simp: in_tile_def in_matrix_def split: if_splits)

subsection \<open>The invariant of the grid\<close>

definition cells_upto :: "geometry \<Rightarrow> KernelArgs \<Rightarrow> nat \<Rightarrow> nat \<Rightarrow> gcell set" where
  "cells_upto p args b n = (\<Union>t < BLOCKSZ p. cells p args (start_diag p args b t) 0 n)"

definition grid_cells :: "geometry \<Rightarrow> KernelArgs \<Rightarrow> nat \<Rightarrow> gcell set" where
  "grid_cells p args N = (\<Union>b < N. cells_upto p args b (nat (k_n_y args)))"

lemma cells_upto_tile: "cells_upto p args b (n + tile_rows p) = cells_upto p args b n \<union> block_cells p args b n"
  using cells_split [of 0 n "n + tile_rows p" p args] by (auto simp: cells_upto_def block_cells_def)

lemma cells_upto_grid: "b < N \<Longrightarrow> cells_upto p args b n \<subseteq> grid_cells p args N"
  by (fastforce simp: grid_cells_def cells_upto_def cells_def)

lemma cells_upto_end: "nat (k_n_y args) \<le> n \<Longrightarrow> cells_upto p args b n = cells_upto p args b (nat (k_n_y args))"
  by (auto simp: cells_upto_def cells_def)

text \<open>The cells of a tile lie in its rows and columns.\<close>

lemma block_cells_in_tile:
  assumes "x \<in> side_cands env args cov0 (block_cells p args blk tsr) b i" "in_matrix p args b i" "tsc = start_diag p args blk 0 + tsr"
  shows "in_tile p args tsc tsr b i"
proof -
  have "tsr \<le> r \<and> r < tsr + tile_rows p \<and> tsc \<le> c \<and> c < tsc + tile_width p"
    if rc: "(r, c) \<in> block_cells p args blk tsr" for r c
  proof -
    obtain t where t: "t < BLOCKSZ p" "(r, c) \<in> cells p args (start_diag p args blk t) tsr (tsr + tile_rows p)"
      using rc by (auto simp: block_cells_def)
    have "Suc t * DiagsPerThread p \<le> BLOCKSZ p * DiagsPerThread p" using t(1) by (intro mult_right_mono) auto
    then show ?thesis using t(2) assms(3) by (auto simp: cells_def start_diag_def tile_width_def)
  qed
  then show ?thesis using assms(1,2) by (fastforce simp: side_cands_def in_tile_def in_matrix_def split: if_splits)
qed

definition grid_inv ::
  "('a tile_block_scheme \<Rightarrow> bool) \<Rightarrow> geometry \<Rightarrow> kernel_env \<Rightarrow> KernelArgs \<Rightarrow> fp list \<Rightarrow> nat \<Rightarrow> mp_entry list \<Rightarrow> nat
   \<Rightarrow> 'a tile_block_scheme list \<times> access list list \<Rightarrow> bool" where
  "grid_inv I p env args cov0 n_a m0 N st = (case st of (blocks, sent) \<Rightarrow> length blocks = N
     \<and> (\<forall>b < N. I (blocks ! b) \<and> blockIdx (blocks ! b) = b)
     \<and> sent_sound p env args cov0 n_a m0 (grid_cells p args N) sent
     \<and> (\<forall>b < N. sent_complete p env args cov0 n_a (cells_upto p args b (tile_start_row (blocks ! b))) sent))"

lemma sent_complete_append:
  "sent_complete p env args cov0 n_a S sent \<or> sent_complete p env args cov0 n_a S progs \<Longrightarrow>
   sent_complete p env args cov0 n_a S (sent @ progs)"
  unfolding sent_complete_def using offered_append by blast

lemma sent_complete_Un:
  "sent_complete p env args cov0 n_a S sent \<Longrightarrow> sent_complete p env args cov0 n_a T sent \<Longrightarrow>
   sent_complete p env args cov0 n_a (S \<union> T) sent"
  unfolding sent_complete_def side_cands_Un Un_iff by blast

text \<open>The updates a round adds.\<close>

lemma round_sent:
  assumes sent: "sent_ok p env args cov0 n_a rd tsc tsr (block_cells p args blk tsr) progs"
    and rd: "\<And>b i. in_matrix p args b i \<Longrightarrow>
      from_cells (m0 ! global_addr n_a b i) (side_cands env args cov0 S b i) (rd b ! i)"
    and sub: "block_cells p args blk tsr \<subseteq> S" and tsc: "tsc = start_diag p args blk 0 + tsr"
  shows "sent_sound p env args cov0 n_a m0 S progs" "sent_complete p env args cov0 n_a (block_cells p args blk tsr) progs"
proof -
  have frm: "from_cells (m0 ! global_addr n_a b i) (side_cands env args cov0 S b i) e"
    if "in_tile p args tsc tsr b i" "entry_ok (rd b ! i) (side_cands env args cov0 (block_cells p args blk tsr) b i) e" for b i e
  proof -
    have r: "from_cells (m0 ! global_addr n_a b i) (side_cands env args cov0 S b i) (rd b ! i)"
      using rd in_tile_matrix [OF that(1)] by blast
    have "e = rd b ! i \<or> flt (floats0 (rd b ! i)) (floats0 e) \<and> (floats0 e, ints1 e) \<in> side_cands env args cov0 S b i"
      using that(2) side_cands_mono [OF sub, of env args cov0 b i] unfolding entry_ok_def by blast
    then show ?thesis using r flt_trans by (auto simp: from_cells_def)
  qed
  show "sent_sound p env args cov0 n_a m0 S progs"
    using sent frm in_tile_matrix unfolding sent_sound_def sent_ok_def by metis
  show "sent_complete p env args cov0 n_a (block_cells p args blk tsr) progs"
    unfolding sent_complete_def
  proof (intro allI impI)
    fix b i v x assume bi: "in_matrix p args b i" and vx: "(v, x) \<in> side_cands env args cov0 (block_cells p args blk tsr) b i"
    from sent block_cells_in_tile [OF vx bi tsc]
    obtain f where f: "entry_ok (rd b ! i) (side_cands env args cov0 (block_cells p args blk tsr) b i) f"
        "write_back_value (global_addr n_a b i) f \<in> \<Union>(set ` set progs)"
      unfolding sent_ok_def by blast
    have "\<not> flt (floats0 f) v" using f(1) vx by (auto simp: entry_ok_def)
    then show "offered progs (global_addr n_a b i) v" using f(2) unfolding offered_def by blast
  qed
qed

text \<open>A step: the invariant holds again, and a block that had a tile is a tile further.\<close>

definition advanced :: "KernelArgs \<Rightarrow> nat \<Rightarrow> 'a tile_block_scheme list \<Rightarrow> 'a tile_block_scheme list \<Rightarrow> bool" where
  "advanced args b blocks blocks' \<longleftrightarrow> length blocks' = length blocks
     \<and> (\<forall>c < length blocks. if c = b \<and> has_tile args (blocks ! c) then tile_start_row (blocks ! c) < tile_start_row (blocks' ! c)
          else blocks' ! c = blocks ! c)"

text \<open>After the rounds \<open>evs\<close>: a block that is not done has taken all of its rounds.\<close>

definition rounds_ok ::
  "('a tile_block_scheme \<Rightarrow> bool) \<Rightarrow> geometry \<Rightarrow> kernel_env \<Rightarrow> KernelArgs \<Rightarrow> fp list \<Rightarrow> nat \<Rightarrow> mp_entry list \<Rightarrow> nat
   \<Rightarrow> 'c grid_event list \<Rightarrow> 'a tile_block_scheme list \<times> access list list \<Rightarrow> bool" where
  "rounds_ok I p env args cov0 n_a m0 N evs st \<longleftrightarrow> grid_inv I p env args cov0 n_a m0 N st
     \<and> (\<forall>b < N. has_tile args (fst st ! b) \<longrightarrow> count_list (map ev_block evs) b \<le> tile_start_row (fst st ! b))
     \<and> length (snd st) \<le> length evs * BLOCKSZ p"

lemma reads_not_below:
  assumes "sent_sound p env args cov0 n_a m0 S sent" "nat (k_n_x args) \<le> n_a"
    and "\<forall>i < nat (k_n_x args). \<not> flt (floats0 (m0 ! i)) dist_lowest" "\<forall>i < nat (k_n_y args). \<not> flt (floats0 (m0 ! (n_a + i))) dist_lowest"
  shows "not_below (nat (k_n_x args)) (map (seen m0 sent sees) [0..<nat (k_n_x args)])
    \<and> not_below (nat (k_n_y args)) (map (\<lambda>i. seen m0 sent sees (n_a + i)) [0..<nat (k_n_y args)])"
proof -
  have "\<not> flt (floats0 (seen m0 sent sees g)) dist_lowest" if g: "\<not> flt (floats0 (m0 ! g)) dist_lowest" for g
  proof (cases "seen m0 sent sees g = m0 ! g")
    case True
    then show ?thesis using g by simp
  next
    case False
    then obtain c where "Max_entry g (floats0 (seen m0 sent sees g)) (ints1 (seen m0 sent sees g)) c \<in> \<Union>(set ` set sent)"
      using seen_cases [of m0 sent sees g] by blast
    then obtain b i e where e: "in_matrix p args b i"
        "Max_entry g (floats0 (seen m0 sent sees g)) (ints1 (seen m0 sent sees g)) c = write_back_value (global_addr n_a b i) e"
        "from_cells (m0 ! global_addr n_a b i) (side_cands env args cov0 S b i) e"
      using assms(1) unfolding sent_sound_def by blast
    have "g = global_addr n_a b i" "floats0 (seen m0 sent sees g) = floats0 e"
      using e(2) [unfolded write_back_value_def access.inject] by blast+
    then show ?thesis using from_cells_not_below [OF e(3)] g by simp
  qed
  then show ?thesis using assms(3,4) by (simp add: not_below_def)
qed

text \<open>The global memory when all updates have been made.\<close>

lemma global_memory:
  assumes sound: "sent_sound p env args cov0 n_a m0 S sent" and complete: "sent_complete p env args cov0 n_a S sent"
    and n: "nat (k_n_x args) \<le> n_a" "n_a + nat (k_n_y args) \<le> length m0"
    and fair: "fair (length sent) (step_bound sent (length m0)) sched"
    and run: "run_threads sched sent m0 = (ts, mem)"
  shows "(\<forall>t \<in> set ts. accesses t = [] \<and> \<not> faulted t) \<and> length mem = length m0
    \<and> (\<forall>b i. in_matrix p args b i \<longrightarrow> entry_ok (m0 ! global_addr n_a b i) (side_cands env args cov0 S b i) (mem ! global_addr n_a b i))
    \<and> (\<forall>a < length m0. (\<forall>b i. in_matrix p args b i \<longrightarrow> a \<noteq> global_addr n_a b i) \<longrightarrow> mem ! a = m0 ! a)"
proof -
  have addr: "global_addr n_a b i < length m0" if "in_matrix p args b i" for b i
    using that n by (auto simp: in_matrix_def global_addr_def split: if_splits)
  have "prog_ok m0 addrs q" if "\<forall>y \<in> set q. \<exists>b i e. in_matrix p args b i \<and> y = write_back_value (global_addr n_a b i) e" for addrs q
    using that addr by (induction q) (auto simp: write_back_value_def)
  moreover have "\<exists>b i e. in_matrix p args b i \<and> y = write_back_value (global_addr n_a b i) e" if "q \<in> set sent" "y \<in> set q" for q y
    using sound that unfolding sent_sound_def by blast
  ultimately have "\<forall>q \<in> set sent. prog_ok m0 [] q" by blast
  note R = updates_reach_maximum [OF this fair run]
  have upd: "\<exists>b i e. in_matrix p args b i \<and> a = global_addr n_a b i \<and> v = floats0 e \<and> x = ints1 e
      \<and> from_cells (m0 ! global_addr n_a b i) (side_cands env args cov0 S b i) e" if u: "(v, x) \<in> updates_of (set sent) a" for v x a
  proof -
    obtain q c where "q \<in> set sent" "Max_entry a v x c \<in> set q" using u by (auto simp: updates_of_def)
    then obtain b i e where "in_matrix p args b i" "Max_entry a v x c = write_back_value (global_addr n_a b i) e"
        "from_cells (m0 ! global_addr n_a b i) (side_cands env args cov0 S b i) e"
      using sound unfolding sent_sound_def by blast
    then show ?thesis unfolding write_back_value_def access.inject by blast
  qed
  have "entry_ok (m0 ! global_addr n_a b i) (side_cands env args cov0 S b i) (mem ! global_addr n_a b i)"
    if m: "in_matrix p args b i" for b i
  proof -
    let ?a = "global_addr n_a b i" and ?C = "side_cands env args cov0 S b i"
    have max: "\<not> flt (floats0 (mem ! ?a)) v" if "(v, x) \<in> updates_of (set sent) ?a" for v x using R addr [OF m] that by blast
    have val: "mem ! ?a = m0 ! ?a \<or> flt (floats0 (m0 ! ?a)) (floats0 (mem ! ?a)) \<and> (floats0 (mem ! ?a), ints1 (mem ! ?a)) \<in> ?C"
    proof (cases "mem ! ?a = m0 ! ?a")
      case False
      then have gt: "flt (floats0 (m0 ! ?a)) (floats0 (mem ! ?a))" and u: "(floats0 (mem ! ?a), ints1 (mem ! ?a)) \<in> updates_of (set sent) ?a"
        using R addr [OF m] by blast+
      from upd [OF u] obtain b' i' e where e: "in_matrix p args b' i'" "?a = global_addr n_a b' i'" "floats0 (mem ! ?a) = floats0 e"
          "ints1 (mem ! ?a) = ints1 e" "from_cells (m0 ! global_addr n_a b' i') (side_cands env args cov0 S b' i') e" by blast
      have "b = b'" "i = i'" using global_addr_inj [OF m e(1) n(1) e(2)] by simp_all
      then have "from_cells (m0 ! ?a) ?C e" using e(5) by simp
      moreover have "e \<noteq> m0 ! ?a" using gt e(3) flt_irrefl by metis
      ultimately show ?thesis using gt e(3,4) by (simp add: from_cells_def)
    qed blast
    moreover have "\<not> flt (floats0 (mem ! ?a)) v" if vx: "(v, x) \<in> ?C" for v x
    proof
      assume less: "flt (floats0 (mem ! ?a)) v"
      from complete m vx obtain e where e: "write_back_value ?a e \<in> \<Union>(set ` set sent)" "\<not> flt (floats0 e) v"
        by (rule sent_completeE)
      have "\<exists>q \<in> set sent. Max_entry ?a (floats0 e) (ints1 e) Always \<in> set q"
        using e(1) unfolding write_back_value_def by (simp only: UN_iff)
      then obtain q where q: "q \<in> set sent" "Max_entry ?a (floats0 e) (ints1 e) Always \<in> set q" by (elim bexE)
      have u: "(floats0 e, ints1 e) \<in> updates_of (set sent) ?a"
        using q by (rule updates_ofI)
      obtain b' i' e' where e': "in_matrix p args b' i'" "?a = global_addr n_a b' i'" "floats0 e = floats0 e'"
          "from_cells (m0 ! global_addr n_a b' i') (side_cands env args cov0 S b' i') e'" using upd [OF u] by blast
      have "from_cells (m0 ! ?a) ?C e'" using e'(4) global_addr_inj [OF m e'(1) n(1) e'(2)] by simp
      moreover have "\<not> is_nan (floats0 (m0 ! ?a))"
      proof -
        have "\<not> is_nan (floats0 (mem ! ?a))" using less flt_not_nan by blast
        then show ?thesis using val by (elim disjE) (auto dest: flt_not_nan)
      qed
      ultimately have "\<not> is_nan (floats0 e)" using e'(3) flt_not_nan by (auto simp: from_cells_def)
      then have "fle v (floats0 e)" using e(2) less flt_not_nan by (simp add: not_flt)
      then show False using less max [OF u] flt_fle_trans by blast
    qed
    ultimately show ?thesis using val unfolding entry_ok_def by blast
  qed
  moreover have "mem ! a = m0 ! a" if "a < length m0" "\<forall>b i. in_matrix p args b i \<longrightarrow> a \<noteq> global_addr n_a b i" for a
    using R that upd [of _ _ a] by blast
  ultimately show ?thesis using R by blast
qed

subsection \<open>The contract of a kernel\<close>

text \<open>
  What the grid needs of the rounds of a block: \<open>inv\<close> holds between rounds, a round never leaves an array, is a
  tile further and sends each entry of its tile the best of the tile's cells. Both kernels provide it.
\<close>

locale tile_kernel =
  fixes run :: "geometry \<Rightarrow> kernel_env \<Rightarrow> KernelArgs \<Rightarrow> nat \<Rightarrow> ('c, 'a tile_block_scheme) tile_run"
    and inv :: "geometry \<Rightarrow> kernel_env \<Rightarrow> KernelArgs \<Rightarrow> fp list \<Rightarrow> 'a tile_block_scheme \<Rightarrow> bool"
    and supported :: "geometry \<Rightarrow> kernel_env \<Rightarrow> bool"
    and choice_ok :: "geometry \<Rightarrow> 'c \<Rightarrow> bool"
  assumes tile_ok: "\<lbrakk>supported p env; arrays_ok args cov0; inv p env args cov0 B; has_tile args B;
      not_below (nat (k_n_x args)) (read False); not_below (nat (k_n_y args)) (read True); choice_ok p ch\<rbrakk> \<Longrightarrow>
      wp (run p env args n_a (read False) (read True) ch B) (\<lambda>(B', progs). inv p env args cov0 B'
        \<and> blockIdx B' = blockIdx B \<and> tile_start_row B' = tile_start_row B + tile_rows p \<and> length progs = BLOCKSZ p
        \<and> sent_ok p env args cov0 n_a read (tile_start_col B) (tile_start_row B)
             (block_cells p args (blockIdx B) (tile_start_row B)) progs)"
    and sizes: "supported p env \<Longrightarrow> 0 < tile_rows p \<and> 0 < BLOCKSZ p \<and> 0 < DiagsPerThread p"
    and position: "inv p env args cov0 B \<Longrightarrow> tile_start_col B = start_diag p args (blockIdx B) 0 + tile_start_row B"
begin

lemma grid_step_ok:
  assumes g: "supported p env" and arr: "arrays_ok args cov0"
    and mem: "nat (k_n_x args) \<le> n_a" "\<And>b i. in_matrix p args b i \<Longrightarrow> \<not> flt (floats0 (m0 ! global_addr n_a b i)) dist_lowest"
    and read: "\<And>sent sees. sent_sound p env args cov0 n_a m0 (grid_cells p args N) sent \<Longrightarrow>
        not_below (nat (k_n_x args)) (map (seen m0 sent sees) [0..<nat (k_n_x args)])
        \<and> not_below (nat (k_n_y args)) (map (\<lambda>i. seen m0 sent sees (n_a + i)) [0..<nat (k_n_y args)])"
    and sched: "choice_ok p (ev_choice ev)"
    and I: "grid_inv (inv p env args cov0) p env args cov0 n_a m0 N (blocks, sent)"
  shows "wp (grid_step (run p env args n_a) args n_a m0 ev (blocks, sent)) (\<lambda>(blocks', sent').
    grid_inv (inv p env args cov0) p env args cov0 n_a m0 N (blocks', sent') \<and> advanced args (ev_block ev) blocks blocks'
    \<and> length sent' \<le> length sent + BLOCKSZ p)"
proof -
  let ?b = "ev_block ev" and ?S = "grid_cells p args N"
  have I: "length blocks = N" "\<And>b. b < N \<Longrightarrow> inv p env args cov0 (blocks ! b) \<and> blockIdx (blocks ! b) = b"
      "sent_sound p env args cov0 n_a m0 ?S sent"
      "\<And>b. b < N \<Longrightarrow> sent_complete p env args cov0 n_a (cells_upto p args b (tile_start_row (blocks ! b))) sent"
    using I by (auto simp: grid_inv_def)
  show ?thesis
  proof (cases "?b < N \<and> has_tile args (blocks ! ?b)")
    case False
    then have "grid_step (run p env args n_a) args n_a m0 ev (blocks, sent) = Some (blocks, sent)" using I(1) by (auto simp: grid_step_def Let_def)
    then show ?thesis using False assms(7) I(1) by (auto simp: advanced_def)
  next
    case True
    define B where "B = blocks ! ?b"
    define rd where "rd b = (if b then map (\<lambda>i. seen m0 sent (ev_sees ev) (n_a + i)) [0..<nat (k_n_y args)]
      else map (seen m0 sent (ev_sees ev)) [0..<nat (k_n_x args)])" for b
    have B: "inv p env args cov0 B" "blockIdx B = ?b" "has_tile args B" using I(2) True by (auto simp: B_def)
    have rd: "not_below (nat (k_n_x args)) (rd False)" "not_below (nat (k_n_y args)) (rd True)"
      using read [OF I(3)] by (simp_all add: rd_def)
    obtain B' progs where R: "run p env args n_a (rd False) (rd True) (ev_choice ev) B = Some (B', progs)"
      and B': "inv p env args cov0 B'" "blockIdx B' = ?b" "tile_start_row B' = tile_start_row B + tile_rows p" "length progs = BLOCKSZ p"
      and sent: "sent_ok p env args cov0 n_a rd (tile_start_col B) (tile_start_row B) (block_cells p args ?b (tile_start_row B)) progs"
      using wp_SomeD [OF tile_ok [OF g arr B(1) B(3) rd sched, of n_a]] B(2) by auto
    have step: "grid_step (run p env args n_a) args n_a m0 ev (blocks, sent) = Some (blocks[?b := B'], sent @ progs)"
      using True I(1) R by (simp add: grid_step_def Let_def rd_def B_def)
    have "rd b ! i = seen m0 sent (ev_sees ev) (global_addr n_a b i)" if "in_matrix p args b i" for b i
      using that by (auto simp: rd_def in_matrix_def global_addr_def)
    then have from_rd: "from_cells (m0 ! global_addr n_a b i) (side_cands env args cov0 ?S b i) (rd b ! i)"
      if "in_matrix p args b i" for b i
      using seen_from_cells [OF I(3) that mem(1)] that by simp
    have upto: "cells_upto p args ?b (tile_start_row B') = cells_upto p args ?b (tile_start_row B) \<union> block_cells p args ?b (tile_start_row B)"
      using B'(3) by (simp add: cells_upto_tile)
    then have sub: "block_cells p args ?b (tile_start_row B) \<subseteq> ?S" using cells_upto_grid [of ?b N p args "tile_start_row B'"] True by blast
    have tsc: "tile_start_col B = start_diag p args ?b 0 + tile_start_row B" using position [OF B(1)] B(2) by simp
    note new = round_sent [OF sent from_rd sub tsc]
    have sound: "sent_sound p env args cov0 n_a m0 ?S (sent @ progs)"
      using I(3) new(1) unfolding sent_sound_def set_append image_Un Union_Un_distrib ball_Un by (rule conjI)
    have complete: "sent_complete p env args cov0 n_a (cells_upto p args b (tile_start_row (blocks[?b := B'] ! b))) (sent @ progs)"
      if "b < N" for b
    proof (cases "b = ?b")
      case True
      have old: "sent_complete p env args cov0 n_a (cells_upto p args ?b (tile_start_row B)) sent"
        using I(4) [OF that] True by (simp only: B_def)
      have "sent_complete p env args cov0 n_a (cells_upto p args ?b (tile_start_row B')) (sent @ progs)"
        unfolding upto by (rule sent_complete_Un [OF sent_complete_append [OF disjI1 [OF old]] sent_complete_append [OF disjI2 [OF new(2)]]])
      moreover have "blocks[?b := B'] ! b = B'" using True that I(1) by simp
      ultimately show ?thesis using True by (simp only:)
    next
      case False
      then show ?thesis using I(4) [OF that] sent_complete_append by simp
    qed
    have "grid_inv (inv p env args cov0) p env args cov0 n_a m0 N (blocks[?b := B'], sent @ progs)"
    proof -
      have "inv p env args cov0 (blocks[?b := B'] ! b) \<and> blockIdx (blocks[?b := B'] ! b) = b" if "b < N" for b
        using I(1,2) that B'(1,2) by (cases "b = ?b") auto
      then show ?thesis using I(1) sound complete by (simp add: grid_inv_def)
    qed
    moreover have "0 < tile_rows p" using sizes [OF g] by simp
    ultimately show ?thesis
      using step I(1) True B'(3,4) by (auto simp: advanced_def nth_list_update B_def)
  qed
qed

subsection \<open>All rounds\<close>

lemma grid_run:
  assumes g: "supported p env" and arr: "arrays_ok args cov0"
    and n: "nat (k_n_x args) \<le> n_a" "\<forall>i < nat (k_n_x args). \<not> flt (floats0 (m0 ! i)) dist_lowest"
      "\<forall>i < nat (k_n_y args). \<not> flt (floats0 (m0 ! (n_a + i))) dist_lowest"
    and sched: "\<And>ev. ev \<in> set events \<Longrightarrow> choice_ok p (ev_choice ev)"
    and start: "grid_inv (inv p env args cov0) p env args cov0 n_a m0 N (blocks, [])"
  shows "wp (forlist (grid_step (run p env args n_a) args n_a m0) events (blocks, []))
    (rounds_ok (inv p env args cov0) p env args cov0 n_a m0 N events)"
proof (rule wp_forlist [where I = "rounds_ok (inv p env args cov0) p env args cov0 n_a m0 N"])
  show "rounds_ok (inv p env args cov0) p env args cov0 n_a m0 N [] (blocks, [])" using start by (simp add: rounds_ok_def)
  fix evs ev rest st assume e: "events = evs @ ev # rest" and I: "rounds_ok (inv p env args cov0) p env args cov0 n_a m0 N evs st"
  obtain bs sent where st: "st = (bs, sent)" by (cases st)
  have ev: "ev \<in> set events" using e by simp
  have low: "\<not> flt (floats0 (m0 ! global_addr n_a b i)) dist_lowest" if "in_matrix p args b i" for b i
    using that n by (auto simp: in_matrix_def global_addr_def)
  have inv': "grid_inv (inv p env args cov0) p env args cov0 n_a m0 N (bs, sent)" using I st by (simp add: rounds_ok_def)
  have "wp (grid_step (run p env args n_a) args n_a m0 ev (bs, sent)) (\<lambda>(bs', sent').
      grid_inv (inv p env args cov0) p env args cov0 n_a m0 N (bs', sent') \<and> advanced args (ev_block ev) bs bs'
      \<and> length sent' \<le> length sent + BLOCKSZ p)"
    by (rule grid_step_ok [OF g arr n(1) low reads_not_below [OF _ n] sched [OF ev] inv'])
  then show "wp (grid_step (run p env args n_a) args n_a m0 ev st) (rounds_ok (inv p env args cov0) p env args cov0 n_a m0 N (evs @ [ev]))"
    unfolding st
  proof (rule wp_mono)
    fix st' assume "case st' of (bs', sent') \<Rightarrow> grid_inv (inv p env args cov0) p env args cov0 n_a m0 N (bs', sent')
      \<and> advanced args (ev_block ev) bs bs' \<and> length sent' \<le> length sent + BLOCKSZ p"
    then obtain bs' sent' where st': "st' = (bs', sent')" "grid_inv (inv p env args cov0) p env args cov0 n_a m0 N (bs', sent')"
        "advanced args (ev_block ev) bs bs'" "length sent' \<le> length sent + BLOCKSZ p"
      by (cases st') auto
    have old: "has_tile args (bs ! b) \<Longrightarrow> count_list (map ev_block evs) b \<le> tile_start_row (bs ! b)" if "b < N" for b
      using I that by (simp add: st rounds_ok_def)
    have len: "length bs = N" using inv' by (simp add: grid_inv_def)
    have "count_list (map ev_block (evs @ [ev])) b \<le> tile_start_row (bs' ! b)" if b: "b < N" "has_tile args (bs' ! b)" for b
    proof (cases "b = ev_block ev \<and> has_tile args (bs ! b)")
      case True
      then have "tile_start_row (bs ! b) < tile_start_row (bs' ! b)" using st'(3) b len by (auto simp: advanced_def)
      then show ?thesis using old [OF b(1) conjunct2 [OF True]] True by simp
    next
      case False
      then have same: "bs' ! b = bs ! b" using st'(3) b len unfolding advanced_def by metis
      then show ?thesis using old [OF b(1)] False b by auto
    qed
    then show "rounds_ok (inv p env args cov0) p env args cov0 n_a m0 N (evs @ [ev]) st'"
      using st' I by (simp add: st rounds_ok_def)
  qed
qed

lemma finished_complete_cells:
  assumes "grid_inv (inv p env args cov0) p env args cov0 n_a m0 N (blocks, sent)" "\<forall>b < N. \<not> has_tile args (blocks ! b)"
  shows "sent_complete p env args cov0 n_a (grid_cells p args N) sent"
proof -
  have "cells_upto p args b (nat (k_n_y args)) \<subseteq> cells_upto p args b (tile_start_row (blocks ! b))" if "b < N" for b
  proof (cases "nat (k_n_y args) \<le> tile_start_row (blocks ! b)")
    case True
    then show ?thesis by (auto simp: cells_upto_def cells_def)
  next
    case False
    have "inv p env args cov0 (blocks ! b)" "blockIdx (blocks ! b) = b" using assms(1) that by (auto simp: grid_inv_def)
    then have "nat (k_n_x args) \<le> start_diag p args b 0 + tile_start_row (blocks ! b)"
      using assms(2) that False position by (fastforce simp: has_tile_def)
    then have "r < tile_start_row (blocks ! b)" if "t < BLOCKSZ p" "(r, c) \<in> cells p args (start_diag p args b t) 0 n" for r c t n
      using that by (auto simp: cells_def start_diag_def)
    then show ?thesis by (fastforce simp: cells_upto_def cells_def)
  qed
  then have sub: "\<exists>b < N. x \<in> cells_upto p args b (tile_start_row (blocks ! b))" if "x \<in> grid_cells p args N" for x
    using that unfolding grid_cells_def by blast
  have "offered sent (global_addr n_a s i) v"
    if m: "in_matrix p args s i" and vx: "(v, x) \<in> side_cands env args cov0 (grid_cells p args N) s i" for s i v x
  proof -
    obtain b where "b < N" "(v, x) \<in> side_cands env args cov0 (cells_upto p args b (tile_start_row (blocks ! b))) s i"
      using vx sub by (fastforce simp: side_cands_def split: if_splits)
    moreover from this have "sent_complete p env args cov0 n_a (cells_upto p args b (tile_start_row (blocks ! b))) sent"
      using assms(1) by (simp add: grid_inv_def)
    ultimately show ?thesis using m unfolding sent_complete_def by blast
  qed
  then show ?thesis unfolding sent_complete_def by blast
qed

end

subsection \<open>The sliding-window kernel\<close>

definition round_fair :: "geometry \<Rightarrow> (nat \<Rightarrow> nat list) \<Rightarrow> bool" where
  "round_fair p ch \<longleftrightarrow> (\<forall>k. fair (BLOCKSZ p) k (ch k))"

definition sliding_supported :: "geometry \<Rightarrow> kernel_env \<Rightarrow> bool" where
  "sliding_supported p env \<longleftrightarrow> block_geometry_ok p \<and> max_numbers_contract (maxNumbers env)"

interpretation sliding: tile_kernel block_tile block_inv sliding_supported round_fair
proof
  show "wp (block_tile p env args n_a (read False) (read True) ch B) (\<lambda>(B', progs). block_inv p env args cov0 B'
        \<and> blockIdx B' = blockIdx B \<and> tile_start_row B' = tile_start_row B + tile_rows p \<and> length progs = BLOCKSZ p
        \<and> sent_ok p env args cov0 n_a read (tile_start_col B) (tile_start_row B)
             (block_cells p args (blockIdx B) (tile_start_row B)) progs)"
    if "sliding_supported p env" "arrays_ok args cov0" "block_inv p env args cov0 B" "has_tile args B"
      "not_below (nat (k_n_x args)) (read False)" "not_below (nat (k_n_y args)) (read True)" "round_fair p ch"
    for p env args cov0 B read ch n_a
    using that by (intro block_tile_ok) (simp_all add: sliding_supported_def round_fair_def)
qed (auto simp: sliding_supported_def block_geometry_ok_def block_inv_def tile_rows_def)

end
