(* ===== verification/GpuCorrect.thy ===== *)
theory GpuCorrect
  imports GpuGrid
begin

text \<open>
  A GPU kernel that provides \<open>tile_kernel\<close> against the specification the CPU kernel meets (\<open>KernelProfiles\<close>): a
  launch whose blocks cover the diagonals leaves the entries \<open>launched\<close> describes, whatever the geometry, the
  grid's order and the interleaving of its threads. The claim is about the sliding-window kernel.
\<close>

subsection \<open>The cells of the grid\<close>

text \<open>The blocks have every diagonal with a cell; the number of diagonals is a 32-bit unsigned integer.\<close>

definition covering :: "geometry \<Rightarrow> KernelArgs \<Rightarrow> nat \<Rightarrow> bool" where
  "covering p args N \<longleftrightarrow>
     min (k_n_x args - 1) (k_n_x args - k_exclusion_upper args) < k_exclusion_lower args + int (N * (BLOCKSZ p * DiagsPerThread p))
     \<and> 0 \<le> k_n_x args - k_exclusion_upper args + 1 \<and> k_n_x args - k_exclusion_upper args + 1 < 2 ^ 32"

lemma num_diags_gpu_eq:
  "0 \<le> k_n_x args - k_exclusion_upper args + 1 \<Longrightarrow> k_n_x args - k_exclusion_upper args + 1 < 2 ^ 32 \<Longrightarrow>
   num_diags_gpu args = nat (k_n_x args - k_exclusion_upper args + 1)"
  by (simp add: num_diags_gpu_def u32_def)

text \<open>The thread that has a diagonal.\<close>

lemma diagonal_thread:
  assumes "d < n * (bsz * dpt)" "0 < dpt" "0 < (bsz :: nat)"
  obtains b t where "b < n" "t < bsz" "t * dpt + b * (bsz * dpt) \<le> d" "d < t * dpt + b * (bsz * dpt) + dpt"
proof
  let ?q = "d div dpt"
  have d: "?q * dpt \<le> d" "d < ?q * dpt + dpt"
    using dividend_less_div_times [OF assms(2), of d] by (simp_all add: add.commute mult.commute)
  have q: "?q = ?q mod bsz + (?q div bsz) * bsz" by simp
  have "?q < n * bsz" using assms(1,2) by (simp add: div_less_iff_less_mult mult.assoc)
  then show "?q div bsz < n" using assms(3) by (simp add: div_less_iff_less_mult)
  show "?q mod bsz < bsz" using assms(3) by simp
  have eq: "(?q mod bsz) * dpt + (?q div bsz) * (bsz * dpt) = ?q * dpt"
    by (metis q add_mult_distrib mult.assoc)
  show "(?q mod bsz) * dpt + (?q div bsz) * (bsz * dpt) \<le> d" using d(1) eq by simp
  show "d < (?q mod bsz) * dpt + (?q div bsz) * (bsz * dpt) + dpt" using d(2) eq by simp
qed

lemma grid_cells_sound:
  assumes "args_ok args cov" "0 \<le> k_n_x args - k_exclusion_upper args + 1" "k_n_x args - k_exclusion_upper args + 1 < 2 ^ 32"
    and "(r, c) \<in> grid_cells p args N"
  shows "(int r, int c) \<in> valid args"
proof -
  have "0 \<le> k_exclusion_lower args" using assms(1) by (simp add: args_ok_def)
  moreover obtain b t where "(r, c) \<in> cells p args (start_diag p args b t) 0 (nat (k_n_y args))"
    using assms(4) by (auto simp: grid_cells_def cells_upto_def)
  ultimately show ?thesis
    using num_diags_gpu_eq [OF assms(2,3)] by (auto simp: cells_def valid_def start_diag_def)
qed

lemma grid_cells_valid:
  assumes "args_ok args cov" "0 < BLOCKSZ p \<and> 0 < DiagsPerThread p" "covering p args N"
  shows "(r, c) \<in> grid_cells p args N \<longleftrightarrow> (int r, int c) \<in> valid args"
proof -
  have el: "0 \<le> k_exclusion_lower args" using assms(1) by (simp add: args_ok_def)
  have nd: "int (num_diags_gpu args) = k_n_x args - k_exclusion_upper args + 1"
    using num_diags_gpu_eq [of args] assms(3) by (simp add: covering_def)
  have iff: "(r, c) \<in> cells p args D 0 (nat (k_n_y args)) \<longleftrightarrow> int r < k_n_y args \<and> int c < k_n_x args
      \<and> D + r \<le> c \<and> c < D + r + DiagsPerThread p \<and> int c - int r \<le> k_n_x args - k_exclusion_upper args" for D
    using nd by (auto simp: cells_def)
  show ?thesis
  proof
    assume "(r, c) \<in> grid_cells p args N"
    then show "(int r, int c) \<in> valid args" using grid_cells_sound [OF assms(1)] assms(3) by (simp add: covering_def)
  next
    assume v: "(int r, int c) \<in> valid args"
    define d where "d = c - r - nat (k_exclusion_lower args)"
    have d: "r + nat (k_exclusion_lower args) \<le> c" using v el by (auto simp: valid_def)
    have "int d = int c - int r - k_exclusion_lower args" using d el by (simp add: d_def)
    then have "int d < int (N * (BLOCKSZ p * DiagsPerThread p))"
      using v assms(3) unfolding valid_def covering_def by auto
    then have "d < N * (BLOCKSZ p * DiagsPerThread p)" by linarith
    then obtain b t where bt: "b < N" "t < BLOCKSZ p" "t * DiagsPerThread p + b * (BLOCKSZ p * DiagsPerThread p) \<le> d"
        "d < t * DiagsPerThread p + b * (BLOCKSZ p * DiagsPerThread p) + DiagsPerThread p"
      using diagonal_thread assms(2) by metis
    have "(r, c) \<in> cells p args (start_diag p args b t) 0 (nat (k_n_y args))"
      unfolding iff using v bt(3,4) d by (auto simp: valid_def start_diag_def d_def)
    then show "(r, c) \<in> grid_cells p args N" using bt(1,2) by (auto simp: grid_cells_def cells_upto_def)
  qed
qed

subsection \<open>The same correlations\<close>

text \<open>The kernel computes in double and keeps float distances, and its inputs are doubles.\<close>

definition double_inputs :: "fpu \<Rightarrow> kernel_env \<Rightarrow> KernelArgs \<Rightarrow> fp list \<Rightarrow> bool" where
  "double_inputs fpu env args cov \<longleftrightarrow> rd_data env = rd64 fpu \<and> rd_dist env = rd32 fpu
     \<and> list_all (\<lambda>x. fcast (rd64 fpu) x = x)
          (cov @ k_normsa args @ k_normsb args @ k_dfa args @ k_dfb args @ k_dga args @ k_dgb args)"

lemma double_inputs_fcast:
  assumes "double_inputs fpu env args cov"
  shows "i < length cov \<Longrightarrow> fcast (rd64 fpu) (cov ! i) = cov ! i"
    and "i < length (k_normsa args) \<Longrightarrow> fcast (rd64 fpu) (k_normsa args ! i) = k_normsa args ! i"
    and "i < length (k_normsb args) \<Longrightarrow> fcast (rd64 fpu) (k_normsb args ! i) = k_normsb args ! i"
    and "i < length (k_dfa args) \<Longrightarrow> fcast (rd64 fpu) (k_dfa args ! i) = k_dfa args ! i"
    and "i < length (k_dfb args) \<Longrightarrow> fcast (rd64 fpu) (k_dfb args ! i) = k_dfb args ! i"
    and "i < length (k_dga args) \<Longrightarrow> fcast (rd64 fpu) (k_dga args ! i) = k_dga args ! i"
    and "i < length (k_dgb args) \<Longrightarrow> fcast (rd64 fpu) (k_dgb args ! i) = k_dgb args ! i"
  using assms unfolding double_inputs_def list_all_append by (simp_all add: list_all_length)

lemma gpu_cov_eq:
  assumes "double_inputs fpu env args cov" "args_ok args cov" "d + r < nat (k_n_x args)" "r < nat (k_n_y args)"
  shows "gpu_cov (rd64 fpu) args cov d r = cov_at fpu args cov (int d) r"
  using assms(3,4)
proof (induction r)
  case 0
  then have "d < length cov" using assms(2) by (auto simp: args_ok_def)
  then show ?case by (simp add: double_inputs_fcast [OF assms(1)])
next
  case (Suc r)
  have in_range: "d + r < length (k_dfa args)" "d + r < length (k_dga args)" "r < length (k_dfb args)" "r < length (k_dgb args)"
    using Suc.prems assms(2) by (auto simp: args_ok_def)
  have "nat (int d + int r) = d + r" by simp
  then show ?case using Suc in_range by (simp add: double_inputs_fcast [OF assms(1)])
qed

lemma gpu_corr_eq:
  assumes "double_inputs fpu env args cov" "args_ok args cov" "r \<le> c" "c < nat (k_n_x args)" "r < nat (k_n_y args)"
  shows "corr_at fpu (ops_1NN_INDEX fpu eig U) args cov (int r, int c)
    = (let x = gpu_corr env args cov r c in if k_has_nan_input args \<and> \<not> is_finite x then Fin (- 2) else x)"
proof -
  have "c < length (k_normsa args)" "r < length (k_normsb args)" using assms(2,4,5) by (auto simp: args_ok_def)
  moreover have "gpu_cov (rd64 fpu) args cov (c - r) r = cov_at fpu args cov (int (c - r)) r"
    using gpu_cov_eq [OF assms(1,2), of "c - r" r] assms(3-5) by simp
  moreover have "int (c - r) = int c - int r" using assms(3) by simp
  moreover have "rd_data env = rd64 fpu" "rd_dist env = rd32 fpu" using assms(1) by (simp_all add: double_inputs_def)
  ultimately show ?thesis
    by (simp add: corr_at_def gpu_corr_def double_inputs_fcast [OF assms(1)] ops_1NN_INDEX_def init_dist_def Let_def)
qed

text \<open>
  The GPU kernel does not replace what is not finite: a correlation is finite, or is NaN and the input had one,
  which the CPU kernel takes for the lowest distance.
\<close>

definition finite_or_nan :: "kernel_env \<Rightarrow> KernelArgs \<Rightarrow> fp list \<Rightarrow> bool" where
  "finite_or_nan env args cov \<longleftrightarrow> (\<forall>(r, c) \<in> valid args.
     is_finite (gpu_corr env args cov (nat r) (nat c)) \<or> k_has_nan_input args \<and> is_nan (gpu_corr env args cov (nat r) (nat c)))"

lemma entry_best:
  assumes "\<not> flt (floats0 e0) dist_lowest"
    and vals: "\<And>s. s \<in> S \<Longrightarrow> raw s = v s \<and> is_finite (v s) \<or> is_nan (raw s) \<and> v s = dist_lowest"
    and e: "entry_ok e0 {(raw s, word_of_int (cell_match b s)) | s. s \<in> S} e"
  shows "best_entry v b e0 S e"
proof -
  have le: "\<not> flt (floats0 e) (v s)" if s: "s \<in> S" for s
  proof (cases "is_nan (raw s)")
    case True
    then have "v s = dist_lowest" using vals [OF s] finite_not_nan by metis
    moreover have "\<not> flt (floats0 e) dist_lowest" using e assms(1) flt_trans unfolding entry_ok_def by metis
    ultimately show ?thesis by simp
  next
    case False
    then have "raw s = v s" using vals [OF s] by blast
    moreover have "(raw s, word_of_int (cell_match b s)) \<in> {(raw s, word_of_int (cell_match b s) :: 32 word) | s. s \<in> S}" using s by blast
    ultimately show ?thesis using e unfolding entry_ok_def by fastforce
  qed
  show ?thesis
  proof (cases "e = e0")
    case True
    then show ?thesis using le by (auto simp: best_entry_def)
  next
    case False
    then obtain s where s: "s \<in> S" "floats0 e = raw s" "ints1 e = word_of_int (cell_match b s)" "flt (floats0 e0) (raw s)"
      using e unfolding entry_ok_def by force
    then have v: "raw s = v s" "\<not> is_nan (v s)" using vals [OF s(1)] flt_not_nan finite_not_nan by blast+
    have nn: "\<not> is_nan (v s')" if "s' \<in> S" for s'
      using vals [OF that] finite_not_nan by (auto simp: dist_lowest_def)
    have "fle (v s') (v s)" if "s' \<in> S" for s'
      using le [OF that] s(2) v nn [OF that] by (simp add: not_flt)
    moreover have "e = e0\<lparr>floats0 := v s, ints1 := word_of_int (cell_match b s)\<rparr>"
      using s v by (intro mp_entry.equality) simp_all
    ultimately show ?thesis using s(1,4) v(1) by (auto simp: best_entry_def)
  qed
qed

lemma side_cands_cells:
  assumes "args_ok args cov" "0 < BLOCKSZ p \<and> 0 < DiagsPerThread p" "covering p args N"
  shows "side_cands env args cov (grid_cells p args N) b i
    = {(gpu_corr env args cov (nat (fst s)) (nat (snd s)), word_of_int (cell_match b s)) | s.
        s \<in> (if b then row_of args (int i) else column_of args (int i))}"
proof -
  have nonneg: "0 \<le> fst s" "0 \<le> snd s" if "s \<in> valid args" for s using that by (auto simp: valid_def)
  have nats: "\<exists>r c. s = (int r, int c)" if "s \<in> valid args" for s
    using nonneg [OF that] by (metis nonneg_int_cases prod.collapse)
  have "{(gpu_corr env args cov i c, word32 c) | c. (i, c) \<in> grid_cells p args N}
      = {(gpu_corr env args cov (nat (fst s)) (nat (snd s)), word_of_int (cell_match True s)) | s. s \<in> row_of args (int i)}"
    unfolding grid_cells_valid [OF assms] row_of_def word32_def cell_match_def using nats by force
  moreover have "{(gpu_corr env args cov r i, word32 r) | r. (r, i) \<in> grid_cells p args N}
      = {(gpu_corr env args cov (nat (fst s)) (nat (snd s)), word_of_int (cell_match False s)) | s. s \<in> column_of args (int i)}"
    unfolding grid_cells_valid [OF assms] column_of_def word32_def cell_match_def using nats by force
  ultimately show ?thesis by (simp add: side_cands_def)
qed

lemma valid_corr:
  assumes "double_inputs fpu env args cov" "args_ok args cov" "finite_or_nan env args cov" "s \<in> valid args"
  fixes eig U
  defines "raw \<equiv> gpu_corr env args cov (nat (fst s)) (nat (snd s))" and "v \<equiv> corr_at fpu (ops_1NN_INDEX fpu eig U) args cov s"
  shows "raw = v \<and> is_finite v \<or> is_nan raw \<and> v = dist_lowest"
proof -
  obtain r c where s: "s = (int r, int c)" using assms(4) by (auto simp: valid_def elim!: nonneg_int_cases)
  have rc: "r \<le> c" "c < nat (k_n_x args)" "r < nat (k_n_y args)"
    using assms(2,4) by (auto simp: s valid_def args_ok_def)
  have fin: "is_finite raw \<or> k_has_nan_input args \<and> is_nan raw"
    using assms(3,4) by (auto simp: finite_or_nan_def raw_def)
  have "v = (if k_has_nan_input args \<and> \<not> is_finite raw then dist_lowest else raw)"
    unfolding v_def s gpu_corr_eq [OF assms(1,2) rc] by (simp add: raw_def s dist_lowest_def Let_def)
  then show ?thesis using fin finite_not_nan by auto
qed

subsection \<open>The launch\<close>

definition registers_sized :: "geometry \<Rightarrow> fp list \<times> smem \<times> mp_entry list \<Rightarrow> bool" where
  "registers_sized p g = (case g of (regs, sm, mp) \<Rightarrow>
     length regs = DiagsPerThread p \<and> smem_sized p sm \<and> length mp = mp_size p)"

text \<open>Every block takes part often enough, its rounds interleave as allowed, and every thread takes enough steps.\<close>

definition fair_grid ::
  "(geometry \<Rightarrow> 'c \<Rightarrow> bool) \<Rightarrow> geometry \<Rightarrow> KernelArgs \<Rightarrow> nat \<Rightarrow> 'c grid_event list \<Rightarrow> (nat \<Rightarrow> nat list) \<Rightarrow> bool" where
  "fair_grid ok p args N events schedule \<longleftrightarrow>
     (\<forall>b < N. nat (k_n_y args) \<le> count_list (map ev_block events) b)
     \<and> (\<forall>ev \<in> set events. ok p (ev_choice ev))
     \<and> (\<forall>k. fair (length events * BLOCKSZ p) k (schedule k))"

lemma fair_fewer: "fair n k sched \<Longrightarrow> m \<le> n \<Longrightarrow> fair m k sched"
  by (simp add: fair_def)

definition blocks_start ::
  "('a tile_block_scheme \<Rightarrow> bool) \<Rightarrow> nat \<Rightarrow> 'a tile_block_scheme list \<Rightarrow> bool" where
  "blocks_start I N blocks \<longleftrightarrow> length blocks = N \<and> (\<forall>b < N. I (blocks ! b) \<and> blockIdx (blocks ! b) = b \<and> tile_start_row (blocks ! b) = 0)"

context tile_kernel
begin

lemma grid_runs:
  assumes g: "supported p env" and arr: "arrays_ok args cov"
    and len: "nat (k_n_x args) \<le> length A" "nat (k_n_y args) \<le> length B"
    and low: "\<forall>i < nat (k_n_x args). \<not> flt (floats0 (A ! i)) dist_lowest" "\<forall>i < nat (k_n_y args). \<not> flt (floats0 (B ! i)) dist_lowest"
    and start: "blocks_start (inv p env args cov) N init" and fair: "fair_grid choice_ok p args N events schedule"
  shows "\<exists>A' B'. run_grid (run p env args (length A)) args init events schedule A B = Some (A', B')
    \<and> length A' = length A \<and> length B' = length B
    \<and> (\<forall>i < length A. if COMPUTE_COLS p \<and> i < nat (k_n_x args)
         then entry_ok (A ! i) (side_cands env args cov (grid_cells p args N) False i) (A' ! i) else A' ! i = A ! i)
    \<and> (\<forall>i < length B. if COMPUTE_ROWS p \<and> i < nat (k_n_y args)
         then entry_ok (B ! i) (side_cands env args cov (grid_cells p args N) True i) (B' ! i) else B' ! i = B ! i)"
proof -
  let ?n = "length A" and ?m0 = "A @ B"
  have inv: "grid_inv (inv p env args cov) p env args cov ?n ?m0 N (init, [])"
    using start by (simp add: grid_inv_def blocks_start_def sent_sound_def sent_complete_def cells_upto_def cells_def side_cands_def)
  have low': "\<forall>i < nat (k_n_x args). \<not> flt (floats0 (?m0 ! i)) dist_lowest"
      "\<forall>i < nat (k_n_y args). \<not> flt (floats0 (?m0 ! (?n + i))) dist_lowest"
    using low len by (auto simp: nth_append)
  have sch: "\<And>ev. ev \<in> set events \<Longrightarrow> choice_ok p (ev_choice ev)" using fair by (simp add: fair_grid_def)
  from wp_SomeD [OF grid_run [where events = events, OF g arr len(1) low' sch inv]]
  obtain blocks sent where run: "forlist (grid_step (run p env args ?n) args ?n ?m0) events (init, []) = Some (blocks, sent)"
      and R: "rounds_ok (inv p env args cov) p env args cov ?n ?m0 N events (blocks, sent)" by auto
  have inv': "grid_inv (inv p env args cov) p env args cov ?n ?m0 N (blocks, sent)"
    and cnt: "\<forall>b < N. has_tile args (blocks ! b) \<longrightarrow> count_list (map ev_block events) b \<le> tile_start_row (blocks ! b)"
    and sent_len: "length sent \<le> length events * BLOCKSZ p"
    using R by (simp_all add: rounds_ok_def)
  have finished: "\<forall>b < N. \<not> has_tile args (blocks ! b)"
  proof (intro allI impI notI)
    fix b assume b: "b < N" and t: "has_tile args (blocks ! b)"
    then have "nat (k_n_y args) \<le> tile_start_row (blocks ! b)" using cnt fair order_trans unfolding fair_grid_def by blast
    then show False using t by (simp add: has_tile_def)
  qed
  have N: "length blocks = N" and sound: "sent_sound p env args cov ?n ?m0 (grid_cells p args N) sent"
    using inv' by (auto simp: grid_inv_def)
  obtain ts mem where threads: "run_threads (schedule (step_bound sent (length ?m0))) sent ?m0 = (ts, mem)"
    by (cases "run_threads (schedule (step_bound sent (length ?m0))) sent ?m0")
  have f: "fair (length sent) (step_bound sent (length ?m0)) (schedule (step_bound sent (length ?m0)))"
    using fair fair_fewer [OF _ sent_len] unfolding fair_grid_def by blast
  have "?n + nat (k_n_y args) \<le> length ?m0" using len by simp
  note M = global_memory [OF sound finished_complete_cells [OF inv' finished] len(1) this f threads]
  have ok: "list_all (\<lambda>B. \<not> has_tile args B) blocks" "list_all (\<lambda>t. accesses t = [] \<and> \<not> faulted t) ts"
    using finished N M by (auto simp: list_all_length list_all_iff)
  have result: "run_grid (run p env args ?n) args init events schedule A B = Some (take ?n mem, drop ?n mem)"
    using run threads ok by (simp add: run_grid_def Let_def)
  have len': "length mem = length A + length B" using M by simp
  have cols: "if COMPUTE_COLS p \<and> i < nat (k_n_x args)
      then entry_ok (A ! i) (side_cands env args cov (grid_cells p args N) False i) (take ?n mem ! i) else take ?n mem ! i = A ! i"
    if i: "i < length A" for i
  proof (cases "in_matrix p args False i")
    case True
    then have "entry_ok (?m0 ! i) (side_cands env args cov (grid_cells p args N) False i) (mem ! i)"
      using M global_addr_def [of ?n False i] by (metis (full_types))
    then show ?thesis using True i by (simp add: in_matrix_def nth_append)
  next
    case False
    then have "mem ! i = ?m0 ! i" using M i by (auto simp: global_addr_def in_matrix_def)
    then show ?thesis using False i by (auto simp: in_matrix_def nth_append)
  qed
  have rows: "if COMPUTE_ROWS p \<and> i < nat (k_n_y args)
      then entry_ok (B ! i) (side_cands env args cov (grid_cells p args N) True i) (drop ?n mem ! i) else drop ?n mem ! i = B ! i"
    if i: "i < length B" for i
  proof (cases "in_matrix p args True i")
    case True
    then have "entry_ok (?m0 ! (?n + i)) (side_cands env args cov (grid_cells p args N) True i) (mem ! (?n + i))"
      using M global_addr_def [of ?n True i] by (metis (full_types))
    then show ?thesis using True i M by (simp add: in_matrix_def nth_append)
  next
    case False
    have "mem ! (?n + i) = ?m0 ! (?n + i)"
      using M i False len by (auto simp: global_addr_def in_matrix_def)
    then show ?thesis using False i M by (auto simp: in_matrix_def nth_append)
  qed
  show ?thesis
    by (rule exI [of _ "take ?n mem"], rule exI [of _ "drop ?n mem"])
      (intro conjI allI impI result cols rows; simp add: len')
qed

lemma grid_correct:
  assumes args: "args_ok args cov" and g: "supported p env" and cover: "covering p args N"
    and inputs: "double_inputs fpu env args cov" and fin: "finite_or_nan env args cov"
    and len: "k_n_x args \<le> int (length A)" "k_n_y args \<le> int (length B)"
    and low: "list_all (\<lambda>e. \<not> flt (floats0 e) dist_lowest) (A @ B)"
    and start: "blocks_start (inv p env args cov) N init" and fair: "fair_grid choice_ok p args N events schedule"
  shows "\<exists>A' B'. run_grid (run p env args (length A)) args init events schedule A B = Some (A', B')
    \<and> launched args (COMPUTE_ROWS p) (COMPUTE_COLS p)
        (best_entry (corr_at fpu (ops_1NN_INDEX fpu eig unrollWid) args cov)) A B A' B'"
proof -
  let ?v = "corr_at fpu (ops_1NN_INDEX fpu eig unrollWid) args cov"
  let ?S = "\<lambda>b i. if b then row_of args (int i) else column_of args (int i)"
  let ?E = "\<lambda>b i. side_cands env args cov (grid_cells p args N) b i"
  have arr: "arrays_ok args cov" using args by (auto simp: arrays_ok_def args_ok_def)
  have pos: "0 < BLOCKSZ p \<and> 0 < DiagsPerThread p" using sizes [OF g] by simp
  have n: "nat (k_n_x args) \<le> length A" "nat (k_n_y args) \<le> length B" using len by auto
  have lowA: "\<not> flt (floats0 (A ! i)) dist_lowest" if "i < length A" for i using low that by (auto simp: list_all_iff)
  have lowB: "\<not> flt (floats0 (B ! i)) dist_lowest" if "i < length B" for i using low that by (auto simp: list_all_iff)
  have "\<forall>i < nat (k_n_x args). \<not> flt (floats0 (A ! i)) dist_lowest" "\<forall>i < nat (k_n_y args). \<not> flt (floats0 (B ! i)) dist_lowest"
    using lowA lowB n by auto
  from grid_runs [OF g arr n this start fair]
  obtain A' B' where run: "run_grid (run p env args (length A)) args init events schedule A B = Some (A', B')"
    and len': "length A' = length A" "length B' = length B"
    and A': "\<And>i. i < length A \<Longrightarrow> if COMPUTE_COLS p \<and> i < nat (k_n_x args) then entry_ok (A ! i) (?E False i) (A' ! i) else A' ! i = A ! i"
    and B': "\<And>i. i < length B \<Longrightarrow> if COMPUTE_ROWS p \<and> i < nat (k_n_y args) then entry_ok (B ! i) (?E True i) (B' ! i) else B' ! i = B ! i"
    by blast
  have best: "best_entry ?v b e0 (?S b i) e" if "\<not> flt (floats0 e0) dist_lowest" "entry_ok e0 (?E b i) e" for b i e0 e
  proof (rule entry_best [OF that(1)])
    show "entry_ok e0 {(gpu_corr env args cov (nat (fst s)) (nat (snd s)), word_of_int (cell_match b s)) | s. s \<in> ?S b i} e"
      using that(2) unfolding side_cands_cells [OF args pos cover] .
    fix s assume "s \<in> ?S b i"
    then have "s \<in> valid args" by (auto simp: row_of_def column_of_def split: if_splits)
    from valid_corr [OF inputs args fin this]
    show "gpu_corr env args cov (nat (fst s)) (nat (snd s)) = ?v s \<and> is_finite (?v s)
        \<or> is_nan (gpu_corr env args cov (nat (fst s)) (nat (snd s))) \<and> ?v s = dist_lowest" .
  qed
  have outside: "column_of args (int i) = {}" if "\<not> i < nat (k_n_x args)" for i
    using that by (auto simp: column_of_def valid_def)
  have outside': "row_of args (int i) = {}" if "\<not> i < nat (k_n_y args)" for i
    using that by (auto simp: row_of_def valid_def)
  have "if COMPUTE_COLS p then \<forall>i < length A. best_entry ?v False (A ! i) (column_of args (int i)) (A' ! i) else A' = A"
  proof (cases "COMPUTE_COLS p")
    case True
    have "best_entry ?v False (A ! i) (column_of args (int i)) (A' ! i)" if i: "i < length A" for i
      using A' [OF i] best [OF lowA [OF i], of False i] True outside [of i]
      by (cases "i < nat (k_n_x args)") (simp_all add: best_entry_keepI)
    then show ?thesis using True by simp
  next
    case False
    then show ?thesis using A' len'(1) by (simp add: list_eq_iff_nth_eq)
  qed
  moreover have "if COMPUTE_ROWS p then \<forall>i < length B. best_entry ?v True (B ! i) (row_of args (int i)) (B' ! i) else B' = B"
  proof (cases "COMPUTE_ROWS p")
    case True
    have "best_entry ?v True (B ! i) (row_of args (int i)) (B' ! i)" if i: "i < length B" for i
      using B' [OF i] best [OF lowB [OF i], of True i] True outside' [of i]
      by (cases "i < nat (k_n_y args)") (simp_all add: best_entry_keepI)
    then show ?thesis using True by simp
  next
    case False
    then show ?thesis using B' len'(2) by (simp add: list_eq_iff_nth_eq)
  qed
  ultimately show ?thesis using run len' by (auto simp: launched_def)
qed

end

subsection \<open>The sliding-window kernel\<close>

text \<open>With any number of blocks, each entry is a largest of the cells the blocks have.\<close>

definition entries_of_cells ::
  "kernel_env \<Rightarrow> KernelArgs \<Rightarrow> fp list \<Rightarrow> geometry \<Rightarrow> nat \<Rightarrow> mp_entry list \<Rightarrow> mp_entry list
   \<Rightarrow> mp_entry list \<Rightarrow> mp_entry list \<Rightarrow> bool" where
  "entries_of_cells env args cov p N A B A' B' \<longleftrightarrow> length A' = length A \<and> length B' = length B
     \<and> (\<forall>i < length A. if COMPUTE_COLS p \<and> i < nat (k_n_x args)
          then entry_ok (A ! i) (side_cands env args cov (grid_cells p args N) False i) (A' ! i) else A' ! i = A ! i)
     \<and> (\<forall>i < length B. if COMPUTE_ROWS p \<and> i < nat (k_n_y args)
          then entry_ok (B ! i) (side_cands env args cov (grid_cells p args N) True i) (B' ! i) else B' ! i = B ! i)"

lemma not_low_entries:
  assumes "list_all (\<lambda>e. \<not> flt (floats0 e) dist_lowest) (A @ B)" "k_n_x args \<le> int (length A)" "k_n_y args \<le> int (length B)"
  shows "\<forall>i < nat (k_n_x args). \<not> flt (floats0 (A ! i)) dist_lowest" "\<forall>i < nat (k_n_y args). \<not> flt (floats0 (B ! i)) dist_lowest"
  using assms by (auto simp: list_all_iff)

lemma init_blocks_start:
  assumes "\<forall>b < N. registers_sized p (garbage b)"
  shows "blocks_start (block_inv p env args cov) N
      (map (\<lambda>b. case garbage b of (regs, sm, mp) \<Rightarrow> init_block p env args cov regs sm mp b) [0..<N])"
  using assms by (auto simp: blocks_start_def registers_sized_def init_block_inv split: prod.splits)
    (auto simp: init_block_def)

lemma launch_grid_cells:
  assumes args: "args_ok args cov" and g: "block_geometry_ok p" and mc: "max_numbers_contract (maxNumbers env)"
    and len: "k_n_x args \<le> int (length A)" "k_n_y args \<le> int (length B)"
    and low: "list_all (\<lambda>e. \<not> flt (floats0 e) dist_lowest) (A @ B)"
    and garbage: "\<forall>b < N. registers_sized p (garbage b)" and fair: "fair_grid round_fair p args N events schedule"
  shows "\<exists>A' B'. launch_grid p env args cov garbage N events schedule A B = Some (A', B')
    \<and> entries_of_cells env args cov p N A B A' B'"
  unfolding launch_grid_def entries_of_cells_def
proof (rule sliding.grid_runs [OF _ _ _ _ not_low_entries [OF low len] init_blocks_start [OF garbage] fair])
  show "sliding_supported p env" using g mc by (simp add: sliding_supported_def)
  show "arrays_ok args cov" using args by (auto simp: arrays_ok_def args_ok_def)
qed (use len in auto)

lemma launch_grid_correct:
  assumes args: "args_ok args cov" and g: "block_geometry_ok p" and cover: "covering p args N"
    and mc: "max_numbers_contract (maxNumbers env)"
    and inputs: "double_inputs fpu env args cov" and fin: "finite_or_nan env args cov"
    and len: "k_n_x args \<le> int (length A)" "k_n_y args \<le> int (length B)"
    and low: "list_all (\<lambda>e. \<not> flt (floats0 e) dist_lowest) (A @ B)"
    and garbage: "\<forall>b < N. registers_sized p (garbage b)" and fair: "fair_grid round_fair p args N events schedule"
  shows "\<exists>A' B'. launch_grid p env args cov garbage N events schedule A B = Some (A', B')
    \<and> launched args (COMPUTE_ROWS p) (COMPUTE_COLS p)
        (best_entry (corr_at fpu (ops_1NN_INDEX fpu eig unrollWid) args cov)) A B A' B'"
  unfolding launch_grid_def
proof (rule sliding.grid_correct [OF args _ cover inputs fin len low _ fair])
  show "sliding_supported p env" using g mc by (simp add: sliding_supported_def)
qed (rule init_blocks_start [OF garbage])

text \<open>
  C10. The GPU kernel computes what the CPU kernel does: for any geometry and number of blocks that covers the
  diagonals, any order of the blocks' rounds, any interleaving of the threads and any content of registers and
  shared memory, no access leaves its array and each entry of the profile of a side that is computed either is
  the old one, no correlation of its column or row exceeding it, or holds a largest of them and where it is.
\<close>

theorem gpu_1NN_INDEX_correct:
  assumes args: "args_ok args cov" and g: "block_geometry_ok p" and cover: "covering p args N"
    and mc: "max_numbers_contract (maxNumbers env)"
    and inputs: "double_inputs fpu env args cov" and fin: "finite_or_nan env args cov"
    and len: "k_n_x args \<le> int (length A)" "k_n_y args \<le> int (length B)"
    and low: "list_all (\<lambda>e. \<not> flt (floats0 e) dist_lowest) (A @ B)"
    and garbage: "\<forall>b < N. registers_sized p (garbage b)" and fair: "fair_grid round_fair p args N events schedule"
  shows "\<exists>A' B'. launch_grid p env args cov garbage N events schedule A B = Some (A', B')
    \<and> launched args (COMPUTE_ROWS p) (COMPUTE_COLS p)
        (best_entry (corr_at fpu (ops_1NN_INDEX fpu eig unrollWid) args cov)) A B A' B'"
  by (rule launch_grid_correct [OF assms])

text \<open>A maximum over the numbers of a list, and a grid of two blocks of two threads on the tile of \<open>demo_args\<close>.\<close>

fun max_numbers_list :: "fp list \<Rightarrow> fp \<times> int" where
  "max_numbers_list [] = (NaN, 0)"
| "max_numbers_list (d # ds) =
     (case max_numbers_list ds of (m, i) \<Rightarrow> if is_nan m \<or> fle m d then (d, 0) else (m, i + 1))"

lemma max_numbers_list_max: "max_number ds (max_numbers_list ds)"
proof (induction ds)
  case (Cons d ds)
  obtain m i where mi: "max_numbers_list ds = (m, i)" by (cases "max_numbers_list ds")
  show ?case
  proof (cases "is_nan m")
    case True
    then have "\<forall>x \<in> set ds. is_nan x" using Cons mi by (auto simp: max_number_def split: if_splits)
    then show ?thesis using True mi by (simp add: max_number_def)
  next
    case False
    then have m: "0 \<le> i" "i < int (length ds)" "ds ! nat i = m" "\<forall>x \<in> set ds. is_nan x \<or> fle x m"
      using Cons mi by (auto simp: max_number_def split: if_splits)
    show ?thesis
    proof (cases "fle m d")
      case True
      then show ?thesis using m mi fle_trans fle_not_nan by (fastforce simp: max_number_def)
    next
      case nle: False
      then have "is_nan d \<or> fle d m" using False not_fle flt_imp_fle by blast
      moreover have "nat (i + 1) = Suc (nat i)" "m \<in> set ds" using m by (auto simp: nat_add_distrib)
      ultimately show ?thesis using m mi nle False by (auto simp: max_number_def)
    qed
  qed
qed (simp add: max_number_def)

definition grid_geometry :: geometry where
  "grid_geometry = \<lparr>DiagsPerThread = 1, UnrolledRows = 1, OuterUnrolledRows = 1, KernelTileIters = 1, BLOCKSZ = 2,
     COMPUTE_ROWS = True, COMPUTE_COLS = True\<rparr>"

definition grid_env :: kernel_env where
  "grid_env = \<lparr>rd_data = exact, rd_dist = exact, maxNumbers = max_numbers_list, uninit = (\<lambda>_. 0)\<rparr>"

definition nan_registers :: "geometry \<Rightarrow> nat \<Rightarrow> fp list \<times> smem \<times> mp_entry list" where
  "nan_registers p b = (replicate (DiagsPerThread p) NaN,
     \<lparr>df_col = replicate (tile_width p) NaN, dg_col = replicate (tile_width p) NaN, inorm_col = replicate (tile_width p) NaN,
      df_row = replicate (tile_rows p) NaN, dg_row = replicate (tile_rows p) NaN, inorm_row = replicate (tile_rows p) NaN\<rparr>,
     replicate (mp_size p) \<lparr>floats0 = NaN, ints1 = 0\<rparr>)"

lemma nan_registers_sized: "registers_sized p (nan_registers p b)"
  by (simp add: registers_sized_def nan_registers_def smem_sized_def)

text \<open>Every block runs one round, the last block first; every thread in turn.\<close>

definition grid_rounds :: "nat \<Rightarrow> nat \<Rightarrow> nat list" where
  "grid_rounds n k = concat (replicate k [0..<n])"

definition one_round :: "geometry \<Rightarrow> nat \<Rightarrow> (nat \<Rightarrow> nat list) grid_event list" where
  "one_round p N = map (\<lambda>b. \<lparr>ev_block = b, ev_sees = (\<lambda>_. 1), ev_choice = grid_rounds (BLOCKSZ p)\<rparr>) (rev [0..<N])"

lemma one_round_fair:
  assumes "nat (k_n_y args) \<le> 1"
  shows "fair_grid round_fair p args N (one_round p N) (grid_rounds (N * BLOCKSZ p))"
proof -
  have "fair n k (grid_rounds n k)" for n k by (simp only: grid_rounds_def fair_rounds)
  moreover have "b < N \<Longrightarrow> count_list (map ev_block (one_round p N)) b = 1" for b
    by (induction N) (auto simp: one_round_def less_Suc_eq count_list_0_iff)
  ultimately show ?thesis using assms by (auto simp: fair_grid_def round_fair_def one_round_def)
qed

lemma valid_demo_args: "valid demo_args = {(0, 0), (0, 1)}"
  by (auto simp: valid_def demo_args_def)

text \<open>The inputs of the example.\<close>

lemma demo_grid_inputs:
  "args_ok demo_args [Fin 0, Fin 1]" "max_numbers_contract (maxNumbers grid_env)"
  "double_inputs exact_fpu grid_env demo_args [Fin 0, Fin 1]" "finite_or_nan grid_env demo_args [Fin 0, Fin 1]"
proof -
  show "args_ok demo_args [Fin 0, Fin 1]" by (simp add: args_ok_def demo_args_def)
  show "max_numbers_contract (maxNumbers grid_env)"
    using max_numbers_list_max by (simp add: max_numbers_contract_def grid_env_def)
  show "double_inputs exact_fpu grid_env demo_args [Fin 0, Fin 1]"
    by (simp add: double_inputs_def grid_env_def exact_fpu_def demo_args_def)
  show "finite_or_nan grid_env demo_args [Fin 0, Fin 1]"
    unfolding finite_or_nan_def valid_demo_args by (simp add: gpu_corr_def grid_env_def demo_args_def)
qed

lemma gpu_1NN_INDEX_correct_witness:
  "\<exists>A' B'. launch_grid grid_geometry grid_env demo_args [Fin 0, Fin 1] (nan_registers grid_geometry) 2
      (one_round grid_geometry 2) (grid_rounds (2 * BLOCKSZ grid_geometry))
      (replicate 2 \<lparr>floats0 = Fin (-2), ints1 = 0\<rparr>) [\<lparr>floats0 = Fin (-2), ints1 = 0\<rparr>] = Some (A', B')
    \<and> launched demo_args (COMPUTE_ROWS grid_geometry) (COMPUTE_COLS grid_geometry)
        (best_entry (corr_at exact_fpu (ops_1NN_INDEX exact_fpu list_eigen unrollWid) demo_args [Fin 0, Fin 1]))
        (replicate 2 \<lparr>floats0 = Fin (-2), ints1 = 0\<rparr>) [\<lparr>floats0 = Fin (-2), ints1 = 0\<rparr>] A' B'"
proof (rule gpu_1NN_INDEX_correct)
  show "block_geometry_ok grid_geometry" by (simp add: block_geometry_ok_def grid_geometry_def)
  show "covering grid_geometry demo_args 2" by (simp add: covering_def grid_geometry_def demo_args_def)
  show "\<forall>b < 2. registers_sized grid_geometry (nan_registers grid_geometry b)" by (simp add: nan_registers_sized)
  show "fair_grid round_fair grid_geometry demo_args 2 (one_round grid_geometry 2) (grid_rounds (2 * BLOCKSZ grid_geometry))"
    by (rule one_round_fair) (simp add: demo_args_def)
qed (simp_all add: demo_grid_inputs, simp_all add: demo_args_def dist_lowest_def list_all_iff)

end
