(* ===== verification/GpuShflTile.thy ===== *)
theory GpuShflTile
  imports GpuShflWarp GpuCorrect
begin

text \<open>
  A tile and a round of a block of the shuffle kernel: whatever the order of the warps in each row and the
  interleaving of the accesses, the round sends what the sliding-window kernel sends, so it provides the contract
  of \<open>GpuGrid\<close>.
\<close>

subsection \<open>The rows of a tile\<close>

text \<open>The updates a lane has sent before row \<open>R\<close>: of the columns that have left its slots and, if first, the warp's rows.\<close>

definition rows_before :: "geometry \<Rightarrow> KernelArgs \<Rightarrow> nat \<Rightarrow> nat \<Rightarrow> nat \<Rightarrow> nat \<Rightarrow> gcell set" where
  "rows_before p args D0 tsr R w = {(r, c) \<in> band p args D0 tsr. r < R \<and> owner p D0 c div 32 = w}"

definition cols_before :: "geometry \<Rightarrow> KernelArgs \<Rightarrow> nat \<Rightarrow> nat \<Rightarrow> nat \<Rightarrow> nat \<Rightarrow> gcell set" where
  "cols_before p args D0 tsr R t = {(r, c) \<in> band p args D0 tsr. owner p D0 c = t \<and> c < D0 + R}"

definition lane_cands ::
  "geometry \<Rightarrow> kernel_env \<Rightarrow> KernelArgs \<Rightarrow> fp list \<Rightarrow> nat \<Rightarrow> nat \<Rightarrow> gcell set \<Rightarrow> gcell set \<Rightarrow> nat \<Rightarrow> nat \<Rightarrow> candidates" where
  "lane_cands p env args cov0 tsc tsr S T l a =
     (if l = 0 then row_part p env args cov0 tsr S a else {}) \<union> col_part p env args cov0 tsc T a"

definition acc_ok ::
  "geometry \<Rightarrow> kernel_env \<Rightarrow> KernelArgs \<Rightarrow> fp list \<Rightarrow> mp_entry list \<Rightarrow> nat \<Rightarrow> nat \<Rightarrow> nat \<Rightarrow> nat \<Rightarrow> nat
   \<Rightarrow> shfl_state \<times> access list \<Rightarrow> bool" where
  "acc_ok p env args cov0 m0 D0 tsr R w l x = (case x of (st, accs) \<Rightarrow>
     lane_ok p env args cov0 D0 tsr R (32 * w + l) st \<and> self_ok m0 accs
     \<and> covers (lane_cands p env args cov0 (D0 + tsr) tsr (rows_before p args D0 tsr R w)
          (cols_before p args D0 tsr R (32 * w + l)) l) accs)"

lemma row_part_Un: "row_part p env args cov0 tsr (S \<union> T) a = row_part p env args cov0 tsr S a \<union> row_part p env args cov0 tsr T a"
  by (auto simp: row_part_def)

lemma col_part_Un: "col_part p env args cov0 tsc (S \<union> T) a = col_part p env args cov0 tsc S a \<union> col_part p env args cov0 tsc T a"
  by (auto simp: col_part_def)

lemma before_Suc:
  "rows_before p args D0 tsr (Suc R) w = rows_before p args D0 tsr R w \<union> warp_cells p args D0 tsr R w"
  "cols_before p args D0 tsr (Suc R) t = cols_before p args D0 tsr R t \<union> rotated p args D0 tsr R t"
  by (auto simp: rows_before_def warp_cells_def cols_before_def rotated_def)

lemma acc_ok_next:
  assumes "acc_ok p env args cov0 m0 D0 tsr R w l (st, accs)" "warp_lane_next p env args cov0 m0 D0 tsr R w l (st', as)"
  shows "acc_ok p env args cov0 m0 D0 tsr (Suc R) w l (fst (st', as), snd (st, accs) @ snd (st', as))"
proof -
  have c: "covers (\<lambda>a. lane_cands p env args cov0 (D0 + tsr) tsr (rows_before p args D0 tsr R w) (cols_before p args D0 tsr R (32 * w + l)) l a
      \<union> ((if l = 0 then row_part p env args cov0 tsr (warp_cells p args D0 tsr R w) a else {})
         \<union> col_part p env args cov0 (D0 + tsr) (rotated p args D0 tsr R (32 * w + l)) a)) (accs @ as)"
    by (rule covers_append) (use assms in \<open>simp_all add: acc_ok_def warp_lane_next_def\<close>)
  have "covers (lane_cands p env args cov0 (D0 + tsr) tsr (rows_before p args D0 tsr (Suc R) w)
      (cols_before p args D0 tsr (Suc R) (32 * w + l)) l) (accs @ as)"
    by (rule covers_cong [OF c]) (auto simp: lane_cands_def before_Suc row_part_Un col_part_Un)
  then show ?thesis using assms by (auto simp: acc_ok_def warp_lane_next_def)
qed

text \<open>In row \<open>r\<close> of the tile the warps in \<open>Done\<close> have run.\<close>

definition rows_inv ::
  "geometry \<Rightarrow> kernel_env \<Rightarrow> KernelArgs \<Rightarrow> fp list \<Rightarrow> mp_entry list \<Rightarrow> nat \<Rightarrow> nat \<Rightarrow> nat \<Rightarrow> nat set \<Rightarrow> shfl_pass \<Rightarrow> bool" where
  "rows_inv p env args cov0 m0 D0 tsr r Done st = (case st of (ws, handoff) \<Rightarrow>
     length ws = warps_per_block p \<and> length handoff = 2 * warps_per_block p
     \<and> (\<forall>w < warps_per_block p. length (ws ! w) = 32
          \<and> (\<forall>l < 32. acc_ok p env args cov0 m0 D0 tsr (if w \<in> Done then Suc (tsr + r) else tsr + r) w l (ws ! w ! l)))
     \<and> (0 < tsr + r \<longrightarrow> (\<forall>w < warps_per_block p.
          handed p env args cov0 D0 (tsr + r) w (handoff ! (r mod 2 * warps_per_block p + w))))
     \<and> (\<forall>w < warps_per_block p. w \<in> Done \<longrightarrow>
          handed p env args cov0 D0 (Suc (tsr + r)) w (handoff ! ((1 - r mod 2) * warps_per_block p + w))))"

lemma handed_next:
  assumes "shfl_geometry_ok p" "w < warps_per_block p"
  shows "handed p env args cov0 D0 R ((w + warps_per_block p - 1) mod warps_per_block p) x
    \<longleftrightarrow> cov_ok p env args cov0 D0 R (32 * w * DiagsPerThread p) x"
proof -
  let ?n = "DiagsPerThread p" and ?wpb = "warps_per_block p"
  have n: "0 < ?n" using assms(1) by (simp add: shfl_geometry_ok_def)
  have W: "block_cols p = 32 * ?wpb * ?n" using block_threads [OF assms(1)] by (simp add: block_cols_def)
  have suc: "Suc ((32 * v + 31) * ?n + (?n - 1)) = 32 * Suc v * ?n" for v using n by (simp add: algebra_simps)
  have "next_slot (block_cols p) ((32 * ((w + ?wpb - 1) mod ?wpb) + 31) * ?n + (?n - 1)) = 32 * w * ?n"
  proof (cases w)
    case 0
    then have "(w + ?wpb - 1) mod ?wpb = ?wpb - 1" "Suc (?wpb - 1) = ?wpb" using assms(2) by simp_all
    then show ?thesis using suc [of "?wpb - 1"] 0 by (simp add: next_slot_def W)
  next
    case (Suc v)
    then have "(w + ?wpb - 1) mod ?wpb = v" using assms(2) by simp
    moreover have "32 * Suc v * ?n \<noteq> block_cols p" using assms(2) Suc n by (simp add: W)
    ultimately show ?thesis using suc [of v] Suc by (simp add: next_slot_def)
  qed
  then show ?thesis by (simp add: handed_def)
qed

lemma do_row_shfl_ok:
  assumes C: "row_context p env args cov0 m0 fast D0 tsr r sm" and w: "w < warps_per_block p" "w \<notin> Done"
    and I: "rows_inv p env args cov0 m0 D0 tsr r Done st"
  shows "wp (do_row_shfl p env args fast tsr sm r w st) (rows_inv p env args cov0 m0 D0 tsr r (insert w Done))"
proof -
  let ?wpb = "warps_per_block p"
  obtain ws handoff where st: "st = (ws, handoff)" by (cases st)
  have I: "length ws = ?wpb" "length handoff = 2 * ?wpb"
      "\<And>v. v < ?wpb \<Longrightarrow> length (ws ! v) = 32 \<and> (\<forall>l < 32.
         acc_ok p env args cov0 m0 D0 tsr (if v \<in> Done then Suc (tsr + r) else tsr + r) v l (ws ! v ! l))"
      "\<And>v. 0 < tsr + r \<Longrightarrow> v < ?wpb \<Longrightarrow> handed p env args cov0 D0 (tsr + r) v (handoff ! (r mod 2 * ?wpb + v))"
      "\<And>v. v < ?wpb \<Longrightarrow> v \<in> Done \<Longrightarrow> handed p env args cov0 D0 (Suc (tsr + r)) v (handoff ! ((1 - r mod 2) * ?wpb + v))"
    using I unfolding st rows_inv_def prod.case by blast+
  have g: "shfl_geometry_ok p" using C by (simp add: row_context_def)
  have lanes: "length (map fst (ws ! w)) = 32"
      "\<And>l. l < 32 \<Longrightarrow> lane_ok p env args cov0 D0 tsr (tsr + r) (32 * w + l) (map fst (ws ! w) ! l)"
      "\<And>l. l < 32 \<Longrightarrow> acc_ok p env args cov0 m0 D0 tsr (tsr + r) w l (ws ! w ! l)"
    using I(3) [OF w(1)] w(2) by (simp_all add: acc_ok_def case_prod_beta)
  have "(w + ?wpb - 1) mod ?wpb < ?wpb" using w(1) by simp
  then have "cov_ok p env args cov0 D0 (tsr + r) (32 * w * DiagsPerThread p)
      (handoff ! (r mod 2 * ?wpb + (w + ?wpb - 1) mod ?wpb))" if "0 < tsr + r"
    using I(4) [OF that] handed_next [OF g w(1)] by blast
  from wp_SomeD [OF warp_row_ok [OF C refl w(1) lanes(1,2) I(2) this]]
  obtain lanes' x where run: "warp_row p env args fast r (tsr + r) sm handoff (map fst (ws ! w))
        = Some (lanes', handoff[(1 - r mod 2) * ?wpb + w := x])"
      and res: "length lanes' = 32" "\<And>l. l < 32 \<Longrightarrow> warp_lane_next p env args cov0 m0 D0 tsr (tsr + r) w l (lanes' ! l)"
      and x: "handed p env args cov0 D0 (Suc (tsr + r)) w x" by auto
  let ?new = "map2 (\<lambda>(_, accs) (st', as). (st', accs @ as)) (ws ! w) lanes'" and ?k = "(1 - r mod 2) * ?wpb + w"
  have new: "length ?new = 32" using I(3) [OF w(1)] res(1) by simp
  have new_ok: "acc_ok p env args cov0 m0 D0 tsr (Suc (tsr + r)) w l (?new ! l)" if l: "l < 32" for l
  proof -
    have "?new ! l = (fst (lanes' ! l), snd (ws ! w ! l) @ snd (lanes' ! l))"
      using I(3) [OF w(1)] res(1) l by (simp add: case_prod_beta)
    then show ?thesis using acc_ok_next [of p env args cov0 m0 D0 tsr "tsr + r" w l "fst (ws ! w ! l)" "snd (ws ! w ! l)"
        "fst (lanes' ! l)" "snd (lanes' ! l)"] lanes(3) [OF l] res(2) [OF l] by simp
  qed
  have half: "r mod 2 = 0 \<or> r mod 2 = 1" by auto
  have k: "?k < length handoff" using half w(1) I(2) by auto
  have other: "r mod 2 * ?wpb + v \<noteq> ?k" if "v < ?wpb" for v using half that w(1) by auto
  have "rows_inv p env args cov0 m0 D0 tsr r (insert w Done) (ws[w := ?new], handoff[?k := x])"
    unfolding rows_inv_def prod.case
  proof (intro conjI allI impI)
    fix v assume v: "v < ?wpb"
    show "length (ws[w := ?new] ! v) = 32" using I(1,3) v new by (cases "v = w") simp_all
    show "acc_ok p env args cov0 m0 D0 tsr (if v \<in> insert w Done then Suc (tsr + r) else tsr + r) v l (ws[w := ?new] ! v ! l)"
      if "l < 32" for l using I(1) I(3) [OF v] v new_ok that by (cases "v = w") simp_all
    show "handed p env args cov0 D0 (tsr + r) v (handoff[?k := x] ! (r mod 2 * ?wpb + v))" if "0 < tsr + r"
      using I(4) [OF that v] other [OF v] by simp
    show "handed p env args cov0 D0 (Suc (tsr + r)) v (handoff[?k := x] ! ((1 - r mod 2) * ?wpb + v))" if "v \<in> insert w Done"
      using I(5) [OF v] x k that by (cases "v = w") (simp_all add: nth_list_update)
  qed (simp_all add: I)
  moreover have "aget ws (int w) = Some (ws ! w)" using w(1) I(1) by simp
  ultimately show ?thesis using run by (simp add: st do_row_shfl_def)
qed

definition order_ok :: "geometry \<Rightarrow> nat list \<Rightarrow> bool" where
  "order_ok p ord \<longleftrightarrow> distinct ord \<and> set ord = {..< warps_per_block p}"

lemma rows_inv_next:
  "rows_inv p env args cov0 m0 D0 tsr r {..< warps_per_block p} st \<Longrightarrow> rows_inv p env args cov0 m0 D0 tsr (Suc r) {} st"
proof -
  have "Suc r mod 2 = 1 - r mod 2" by (cases "even r") (auto simp: even_iff_mod_2_eq_zero odd_iff_mod_2_eq_one mod_Suc)
  then show "rows_inv p env args cov0 m0 D0 tsr r {..< warps_per_block p} st \<Longrightarrow> rows_inv p env args cov0 m0 D0 tsr (Suc r) {} st"
    by (auto simp: rows_inv_def)
qed

lemma tile_rows_shfl_ok:
  assumes C: "shfl_geometry_ok p" "arrays_ok args cov0" "fast \<Longrightarrow> fast_shfl p args (D0 + tsr) tsr" "rows_ok p env args tsr sm"
      "length m0 = mp_size p"
    and order: "\<And>r. order_ok p (order r)" and I: "rows_inv p env args cov0 m0 D0 tsr 0 {} st"
  shows "wp (tile_rows_shfl p env args fast tsr sm order st) (rows_inv p env args cov0 m0 D0 tsr (tile_rows p) {})"
  unfolding tile_rows_shfl_def
proof (rule wp_upt [where I = "\<lambda>r. rows_inv p env args cov0 m0 D0 tsr r {}", OF I])
  fix r st assume r: "r < tile_rows p" and I: "rows_inv p env args cov0 m0 D0 tsr r {} st"
  have ctx: "row_context p env args cov0 m0 fast D0 tsr r sm" using C r by (simp add: row_context_def)
  have "wp (forlist (do_row_shfl p env args fast tsr sm r) (order r) st) (rows_inv p env args cov0 m0 D0 tsr r (set (order r)))"
  proof (rule wp_forlist [where I = "\<lambda>ws. rows_inv p env args cov0 m0 D0 tsr r (set ws)"])
    fix ws w rest st assume e: "order r = ws @ w # rest" and I: "rows_inv p env args cov0 m0 D0 tsr r (set ws) st"
    have all: "set (order r) = {..< warps_per_block p}" "distinct (order r)" using order [of r] by (simp_all add: order_ok_def)
    have "w \<in> {..< warps_per_block p}" unfolding all(1) [symmetric] e by simp
    moreover have "w \<notin> set ws" using all(2) unfolding e by simp
    ultimately have "w < warps_per_block p" "w \<notin> set ws" by simp_all
    from do_row_shfl_ok [OF ctx this I]
    show "wp (do_row_shfl p env args fast tsr sm r w st) (rows_inv p env args cov0 m0 D0 tsr r (set (ws @ [w])))" by simp
  qed (use I in simp)
  then show "wp (forlist (do_row_shfl p env args fast tsr sm r) (order r) st) (rows_inv p env args cov0 m0 D0 tsr (Suc r) {})"
    by (rule wp_mono) (use order [of r] rows_inv_next in \<open>simp add: order_ok_def\<close>)
qed

end
