(* ===== verification/GpuShflBlock.thy ===== *)
theory GpuShflBlock
  imports GpuShflTile
begin

text \<open>
  A round of a block of the shuffle kernel and the contract it provides: at the end of a tile every lane sends the
  columns its slots still have, and the round sends the best of the cells of the tile, as the sliding-window kernel.
\<close>

subsection \<open>The end of a tile\<close>

lemma length_concat_same: "\<forall>xs \<in> set xss. length xs = n \<Longrightarrow> length (concat xss) = n * length xss"
  by (induction xss) simp_all

lemma concat_nth:
  "\<forall>xs \<in> set xss. length xs = n \<Longrightarrow> w < length xss \<Longrightarrow> l < n \<Longrightarrow> concat xss ! (n * w + l) = xss ! w ! l"
proof (induction xss arbitrary: w)
  case (Cons xs xss)
  show ?case
  proof (cases w)
    case 0
    then show ?thesis using Cons.prems by (simp add: nth_append)
  next
    case (Suc v)
    have "concat (xs # xss) ! (n * w + l) = concat xss ! (n * v + l)" using Cons.prems(1) Suc by (simp add: nth_append)
    then show ?thesis using Cons Suc by simp
  qed
qed simp

definition held :: "geometry \<Rightarrow> KernelArgs \<Rightarrow> nat \<Rightarrow> nat \<Rightarrow> nat \<Rightarrow> nat \<Rightarrow> gcell set" where
  "held p args D0 tsr R t = {(r, c) \<in> band p args D0 tsr. owner p D0 c = t \<and> D0 + R \<le> c}"

lemma updates_cover:
  assumes "\<And>i. i < n \<Longrightarrow> best_reg (S i) (f i)"
  shows "covers (\<lambda>a. {e. \<exists>i < n. a = k i \<and> e \<in> S i}) (map (\<lambda>i. Max_entry (k i) (fst (f i)) (snd (f i)) Always) [0..<n])"
  using assms
proof (induction n)
  case (Suc n)
  have "covers (\<lambda>a. {e. \<exists>i < n. a = k i \<and> e \<in> S i} \<union> (if a = k n then S n else {}))
      (map (\<lambda>i. Max_entry (k i) (fst (f i)) (snd (f i)) Always) [0..<n] @ [Max_entry (k n) (fst (f n)) (snd (f n)) Always])"
    by (rule covers_append [OF Suc.IH update_covers]) (use Suc.prems in simp_all)
  then have "covers (\<lambda>a. {e. \<exists>i < n. a = k i \<and> e \<in> S i} \<union> (if a = k n then S n else {}))
      (map (\<lambda>i. Max_entry (k i) (fst (f i)) (snd (f i)) Always) [0..<Suc n])" by simp
  then show ?case by (rule covers_cong) (auto simp: less_Suc_eq)
qed simp

lemma held_slots:
  assumes regs: "lane_regs p env args D0 R t st" and bests: "lane_bests p env args cov0 D0 tsr R st"
    and t: "t < BLOCKSZ p" "0 < DiagsPerThread p" and R: "R = tsr + tile_rows p" and cols: "COMPUTE_COLS p"
  shows "{e. \<exists>i < DiagsPerThread p. a = s_local_col st ! i \<and> e \<in> col_upto env args cov0 (band p args D0 tsr) R (s_global_col st ! i)}
    = col_part p env args cov0 (D0 + tsr) (held p args D0 tsr R t) a"
proof -
  let ?n = "DiagsPerThread p" and ?B = "band p args D0 tsr"
  have gc: "s_global_col st ! i = slot_col p D0 R (t * ?n + i)" "s_global_col st ! i = D0 + tsr + s_local_col st ! i" if "i < ?n" for i
    using regs bests that unfolding lane_regs_def lane_bests_def by blast+
  have upto: "col_upto env args cov0 ?B R c = {(gpu_corr env args cov0 r c, word32 r) | r. (r, c) \<in> ?B}" for c
    using R by (auto simp: col_upto_def band_def)
  have slot: "(r, D0 + tsr + a) \<in> held p args D0 tsr R t \<longleftrightarrow> (r, D0 + tsr + a) \<in> ?B \<and> (\<exists>i < ?n. a = s_local_col st ! i)" for r
  proof
    assume "(r, D0 + tsr + a) \<in> held p args D0 tsr R t"
    then have h: "(r, D0 + tsr + a) \<in> ?B" "owner p D0 (D0 + tsr + a) = t" "D0 + R \<le> D0 + tsr + a" by (auto simp: held_def)
    then have "D0 + tsr + a < D0 + R + block_cols p" using R by (auto simp: band_def)
    from owned_column [OF h(3) this t(2)] obtain i where "i < ?n" "D0 + tsr + a = slot_col p D0 R (t * ?n + i)"
      unfolding h(2) by blast
    then show "(r, D0 + tsr + a) \<in> ?B \<and> (\<exists>i < ?n. a = s_local_col st ! i)"
      using gc [of i] h(1) by (intro conjI exI [of _ i]) simp_all
  next
    assume h: "(r, D0 + tsr + a) \<in> ?B \<and> (\<exists>i < ?n. a = s_local_col st ! i)"
    then obtain i where i: "i < ?n" "a = s_local_col st ! i" by blast
    then have c: "D0 + tsr + a = slot_col p D0 R (t * ?n + i)" using gc [OF i(1)] by simp
    have "owner p D0 (D0 + tsr + a) = t" unfolding c by (rule owner_slot_col [OF t(1) i(1)])
    moreover have "D0 + R \<le> D0 + tsr + a" unfolding c by (simp add: slot_col_def)
    ultimately show "(r, D0 + tsr + a) \<in> held p args D0 tsr R t" using h by (simp add: held_def)
  qed
  have wide: "a < tile_width p" if "(r, D0 + tsr + a) \<in> ?B" for r
    using that by (auto simp: band_def tile_width_def block_cols_def)
  show ?thesis
  proof (intro set_eqI iffI)
    fix e assume "e \<in> {e. \<exists>i < ?n. a = s_local_col st ! i \<and> e \<in> col_upto env args cov0 ?B R (s_global_col st ! i)}"
    then obtain i where i: "i < ?n" "a = s_local_col st ! i" "e \<in> col_upto env args cov0 ?B R (D0 + tsr + a)"
      using gc(2) by auto
    then obtain r where "(r, D0 + tsr + a) \<in> ?B" "e = (gpu_corr env args cov0 r (D0 + tsr + a), word32 r)"
      unfolding upto by blast
    then show "e \<in> col_part p env args cov0 (D0 + tsr) (held p args D0 tsr R t) a"
      unfolding col_part_def slot using i(1,2) cols wide by blast
  next
    fix e assume "e \<in> col_part p env args cov0 (D0 + tsr) (held p args D0 tsr R t) a"
    then obtain r i where "(r, D0 + tsr + a) \<in> ?B" "i < ?n" "a = s_local_col st ! i"
        "e = (gpu_corr env args cov0 r (D0 + tsr + a), word32 r)"
      unfolding col_part_def slot by blast
    moreover from this have "e \<in> col_upto env args cov0 ?B R (s_global_col st ! i)" unfolding upto using gc(2) [of i] by auto
    ultimately show "e \<in> {e. \<exists>i < ?n. a = s_local_col st ! i \<and> e \<in> col_upto env args cov0 ?B R (s_global_col st ! i)}" by blast
  qed
qed

lemma flush_all_ok:
  assumes regs: "lane_regs p env args D0 R t st" and bests: "lane_bests p env args cov0 D0 tsr R st"
    and t: "t < BLOCKSZ p" "0 < DiagsPerThread p" and R: "R = tsr + tile_rows p" and cols: "COMPUTE_COLS p"
    and m0: "length m0 = mp_size p"
  shows "covers (col_part p env args cov0 (D0 + tsr) (held p args D0 tsr R t)) (flush_all_cols_to_smem p st)"
    "self_ok m0 (flush_all_cols_to_smem p st)"
proof -
  let ?n = "DiagsPerThread p"
  have "best_reg (col_upto env args cov0 (band p args D0 tsr) R (s_global_col st ! i)) (s_best st ! i)" if "i < ?n" for i
    using bests that cols unfolding lane_bests_def by blast
  then show "covers (col_part p env args cov0 (D0 + tsr) (held p args D0 tsr R t)) (flush_all_cols_to_smem p st)"
    unfolding flush_all_cols_to_smem_def by (rule covers_cong [OF updates_cover held_slots [OF assms(1-6)]])
  have "s_local_col st ! i < length m0" if i: "i < ?n" for i
  proof -
    have "D0 + R + slot_diag (block_cols p) (t * ?n + i) R = D0 + tsr + s_local_col st ! i"
      using regs bests i by (auto simp: lane_regs_def lane_bests_def slot_col_def)
    moreover have "slot_diag (block_cols p) (t * ?n + i) R < block_cols p" by (rule slot_diag_less [OF slot_bound [OF t(1) i]])
    ultimately show ?thesis using R cols m0 by (simp add: mp_size_def row_base_def tile_width_def block_cols_def)
  qed
  then have "self_ok m0 (map (\<lambda>i. Max_entry (s_local_col st ! i) (v i) (x i) Always) is)" if "set is \<subseteq> {..<?n}" for v x "is"
    using that by (induction "is") (auto simp: self_ok_def)
  note fits = this
  have "set [0..<?n] \<subseteq> {..<?n}" by auto
  from fits [OF this] show "self_ok m0 (flush_all_cols_to_smem p st)" unfolding flush_all_cols_to_smem_def .
qed

text \<open>All that a lane sends in a tile.\<close>

definition warp_rows :: "geometry \<Rightarrow> KernelArgs \<Rightarrow> nat \<Rightarrow> nat \<Rightarrow> nat \<Rightarrow> gcell set" where
  "warp_rows p args D0 tsr w = {(r, c) \<in> band p args D0 tsr. owner p D0 c div 32 = w}"

definition lane_sends ::
  "geometry \<Rightarrow> kernel_env \<Rightarrow> KernelArgs \<Rightarrow> fp list \<Rightarrow> nat \<Rightarrow> nat \<Rightarrow> nat \<Rightarrow> nat \<Rightarrow> candidates" where
  "lane_sends p env args cov0 D0 tsr t =
     lane_cands p env args cov0 (D0 + tsr) tsr (warp_rows p args D0 tsr (t div 32)) (lane_cells p args D0 tsr t) (t mod 32)"

lemma lane_prog_ok:
  assumes acc: "acc_ok p env args cov0 m0 D0 tsr (tsr + tile_rows p) w l (st, accs)" and g: "shfl_geometry_ok p"
    and w: "w < warps_per_block p" "l < 32" and m0: "length m0 = mp_size p"
  shows "self_ok m0 (accs @ (if COMPUTE_COLS p then flush_all_cols_to_smem p st else []))
    \<and> covers (lane_sends p env args cov0 D0 tsr (32 * w + l)) (accs @ (if COMPUTE_COLS p then flush_all_cols_to_smem p st else []))"
proof -
  let ?R = "tsr + tile_rows p" and ?t = "32 * w + l" and ?fl = "if COMPUTE_COLS p then flush_all_cols_to_smem p st else []"
  note t = lane_thread [OF g w]
  have n: "0 < DiagsPerThread p" using g by (simp add: shfl_geometry_ok_def)
  have st: "lane_regs p env args D0 ?R ?t st" "lane_bests p env args cov0 D0 tsr ?R st"
    and a: "self_ok m0 accs" "covers (lane_cands p env args cov0 (D0 + tsr) tsr (rows_before p args D0 tsr ?R w)
      (cols_before p args D0 tsr ?R ?t) l) accs"
    using acc by (auto simp: acc_ok_def lane_ok_def)
  have fl: "self_ok m0 ?fl" "covers (col_part p env args cov0 (D0 + tsr) (held p args D0 tsr ?R ?t)) ?fl"
    using flush_all_ok [OF st t(1) n refl _ m0] by (auto simp: covers_def col_part_def)
  have "rows_before p args D0 tsr ?R w = warp_rows p args D0 tsr w" by (auto simp: rows_before_def warp_rows_def band_def)
  moreover have "cols_before p args D0 tsr ?R ?t \<union> held p args D0 tsr ?R ?t = lane_cells p args D0 tsr ?t"
    by (auto simp: cols_before_def held_def lane_cells_def)
  ultimately have "covers (lane_sends p env args cov0 D0 tsr ?t) (accs @ ?fl)"
    by (intro covers_cong [OF covers_append [OF a(2) fl(2)]])
      (use w(2) in \<open>simp add: lane_sends_def lane_cands_def Un_assoc col_part_Un [symmetric]\<close>)
  then show ?thesis using a(1) fl(1) by blast
qed

lemma lane_sends_side:
  assumes it: "in_tile p args (D0 + tsr) tsr b i" and g: "shfl_geometry_ok p"
  shows "(\<Union>t < BLOCKSZ p. lane_sends p env args cov0 D0 tsr t (tile_addr p (D0 + tsr) tsr b i))
    = side_cands env args cov0 (band p args D0 tsr) b i"
proof -
  let ?B = "band p args D0 tsr"
  have n: "0 < DiagsPerThread p" using g by (simp add: shfl_geometry_ok_def)
  have own: "owner p D0 c < BLOCKSZ p" if "(r, c) \<in> ?B" for r c
  proof -
    have "D0 + r \<le> c" "c < D0 + r + block_cols p" using that by (auto simp: band_def)
    then show ?thesis using owned_column [of D0 r c p] n by blast
  qed
  define a where "a = tile_addr p (D0 + tsr) tsr b i"
  have sends: "x \<in> lane_sends p env args cov0 D0 tsr t a \<longleftrightarrow>
      t mod 32 = 0 \<and> x \<in> row_part p env args cov0 tsr (warp_rows p args D0 tsr (t div 32)) a
      \<or> x \<in> col_part p env args cov0 (D0 + tsr) (lane_cells p args D0 tsr t) a" for x t
    by (simp add: lane_sends_def lane_cands_def)
  show ?thesis unfolding a_def [symmetric]
  proof (cases b)
    case True
    then have i: "tsr + (a - row_base p) = i" "COMPUTE_ROWS p" "row_base p \<le> a" using it by (auto simp: in_tile_def a_def tile_addr_def)
    have none: "col_part p env args cov0 (D0 + tsr) S a = {}" for S using i(3) by (auto simp: col_part_def row_base_def)
    have row: "row_part p env args cov0 tsr S a = {(gpu_corr env args cov0 i c, word32 c) | c. (i, c) \<in> S}" for S
      using i by (auto simp: row_part_def)
    have first: "\<exists>t < BLOCKSZ p. t mod 32 = 0 \<and> owner p D0 c div 32 = t div 32" if "(i, c) \<in> ?B" for c
    proof -
      have "32 * (owner p D0 c div 32) < BLOCKSZ p" using own [OF that] by linarith
      then show ?thesis by (intro exI [of _ "32 * (owner p D0 c div 32)"]) simp
    qed
    have "x \<in> lane_sends p env args cov0 D0 tsr t a \<longleftrightarrow> t mod 32 = 0
        \<and> (\<exists>c. (i, c) \<in> ?B \<and> owner p D0 c div 32 = t div 32 \<and> x = (gpu_corr env args cov0 i c, word32 c))" for x t
      unfolding sends none row warp_rows_def by auto
    note lane = this
    have sent: "x \<in> (\<Union>t < BLOCKSZ p. lane_sends p env args cov0 D0 tsr t a)
        \<longleftrightarrow> (\<exists>c. (i, c) \<in> ?B \<and> x = (gpu_corr env args cov0 i c, word32 c))" for x
    proof
      assume "x \<in> (\<Union>t < BLOCKSZ p. lane_sends p env args cov0 D0 tsr t a)"
      then show "\<exists>c. (i, c) \<in> ?B \<and> x = (gpu_corr env args cov0 i c, word32 c)" using lane by blast
    next
      assume "\<exists>c. (i, c) \<in> ?B \<and> x = (gpu_corr env args cov0 i c, word32 c)"
      then obtain c where c: "(i, c) \<in> ?B" "x = (gpu_corr env args cov0 i c, word32 c)" by blast
      from first [OF c(1)] obtain t where t: "t < BLOCKSZ p" "t mod 32 = 0" "owner p D0 c div 32 = t div 32"
        by (elim exE conjE)
      then have "x \<in> lane_sends p env args cov0 D0 tsr t a" unfolding lane using c by blast
      then show "x \<in> (\<Union>t < BLOCKSZ p. lane_sends p env args cov0 D0 tsr t a)" using t(1) by (intro UN_I) simp_all
    qed
    have side: "x \<in> side_cands env args cov0 ?B b i \<longleftrightarrow> (\<exists>c. (i, c) \<in> ?B \<and> x = (gpu_corr env args cov0 i c, word32 c))" for x
      using True by (auto simp: side_cands_def)
    show "(\<Union>t < BLOCKSZ p. lane_sends p env args cov0 D0 tsr t a) = side_cands env args cov0 ?B b i"
      by (rule set_eqI) (simp only: sent side)
  next
    case False
    then have i: "D0 + tsr + a = i" "COMPUTE_COLS p" "a < tile_width p" using it by (auto simp: in_tile_def a_def tile_addr_def)
    have none: "row_part p env args cov0 tsr S a = {}" for S using i(2,3) by (auto simp: row_part_def row_base_def)
    have col: "col_part p env args cov0 (D0 + tsr) S a = {(gpu_corr env args cov0 r i, word32 r) | r. (r, i) \<in> S}" for S
      using i by (auto simp: col_part_def)
    have "x \<in> lane_sends p env args cov0 D0 tsr t a \<longleftrightarrow>
        owner p D0 i = t \<and> (\<exists>r. (r, i) \<in> ?B \<and> x = (gpu_corr env args cov0 r i, word32 r))" for x t
      unfolding sends none col lane_cells_def by auto
    note lane = this
    have sent: "x \<in> (\<Union>t < BLOCKSZ p. lane_sends p env args cov0 D0 tsr t a)
        \<longleftrightarrow> (\<exists>r. (r, i) \<in> ?B \<and> x = (gpu_corr env args cov0 r i, word32 r))" for x
    proof
      assume "x \<in> (\<Union>t < BLOCKSZ p. lane_sends p env args cov0 D0 tsr t a)"
      then show "\<exists>r. (r, i) \<in> ?B \<and> x = (gpu_corr env args cov0 r i, word32 r)" using lane by blast
    next
      assume "\<exists>r. (r, i) \<in> ?B \<and> x = (gpu_corr env args cov0 r i, word32 r)"
      then obtain r where r: "(r, i) \<in> ?B" "x = (gpu_corr env args cov0 r i, word32 r)" by blast
      then have "x \<in> lane_sends p env args cov0 D0 tsr (owner p D0 i) a" unfolding lane by blast
      then show "x \<in> (\<Union>t < BLOCKSZ p. lane_sends p env args cov0 D0 tsr t a)" using own [OF r(1)] by (intro UN_I) simp_all
    qed
    have side: "x \<in> side_cands env args cov0 ?B b i \<longleftrightarrow> (\<exists>r. (r, i) \<in> ?B \<and> x = (gpu_corr env args cov0 r i, word32 r))" for x
      using False by (auto simp: side_cands_def)
    show "(\<Union>t < BLOCKSZ p. lane_sends p env args cov0 D0 tsr t a) = side_cands env args cov0 ?B b i"
      by (rule set_eqI) (simp only: sent side)
  qed
qed

subsection \<open>A round of a block\<close>

definition rows_sized :: "geometry \<Rightarrow> shfl_smem \<Rightarrow> bool" where
  "rows_sized p sm \<longleftrightarrow> length (r_df sm) = tile_rows p \<and> length (r_dg sm) = tile_rows p \<and> length (r_inorm sm) = tile_rows p"

lemma init_shfl_rows_ok:
  assumes "0 < BLOCKSZ p" "arrays_ok args cov0" "rows_sized p sm"
  shows "wp (init_shfl_rows p env args tsr sm) (rows_ok p env args tsr)"
proof -
  have rows: "wp (copy_region p (fcast (rd_data env)) src tsr (tile_rows p) (nat (k_n_y args)) dst) (row_data p env args tsr src)"
    if "length dst = tile_rows p" "nat (k_n_y args) \<le> length src" for src dst
    by (rule wp_mono [OF copy_region_ok [OF assms(1)]]) (use that copied_row in auto)
  show ?thesis
    using assms(2,3) unfolding init_shfl_rows_def Let_def wp_bind_iff arrays_ok_def rows_sized_def
    by (intro wp_mono [OF rows]) (auto simp: rows_ok_def)
qed

definition shfl_inv :: "geometry \<Rightarrow> kernel_env \<Rightarrow> KernelArgs \<Rightarrow> fp list \<Rightarrow> shfl_block \<Rightarrow> bool" where
  "shfl_inv p env args cov0 B \<longleftrightarrow> (let D0 = start_diag p args (blockIdx B) 0; R = tile_start_row B in
     tile_start_col B = D0 + R \<and> length (warps B) = warps_per_block p \<and> length (cov_handoff B) = 2 * warps_per_block p
     \<and> rows_sized p (shfl_shared B) \<and> length (local_mp B) = mp_size p
     \<and> (\<forall>w < warps_per_block p. length (warps B ! w) = 32
          \<and> (\<forall>l < 32. lane_regs p env args D0 R (32 * w + l) (warps B ! w ! l)
               \<and> lane_covs p env args cov0 D0 R (32 * w + l) (warps B ! w ! l)))
     \<and> (0 < R \<longrightarrow> (\<forall>w < warps_per_block p. handed p env args cov0 D0 R w (cov_handoff B ! w))))"

lemma start_lane_ok:
  assumes "lane_regs p env args D0 tsr t st" "lane_covs p env args cov0 D0 tsr t st" "tsc = D0 + tsr"
  shows "lane_ok p env args cov0 D0 tsr tsr t (start_lane p tsc st)"
proof -
  let ?st = "start_lane p tsc st"
  have gc: "length (s_global_col st) = DiagsPerThread p"
      "\<And>i. i < DiagsPerThread p \<Longrightarrow> s_global_col st ! i = slot_col p D0 tsr (t * DiagsPerThread p + i)"
    using assms(1) by (simp_all add: lane_regs_def)
  have "col_upto env args cov0 (band p args D0 tsr) tsr c = {}" for c by (auto simp: col_upto_def band_def)
  then have "lane_bests p env args cov0 D0 tsr tsr ?st"
    using gc assms(3) by (simp add: lane_bests_def start_lane_def slot_col_def)
  moreover have "lane_regs p env args D0 tsr t ?st" using assms(1) by (simp add: lane_regs_def start_lane_def)
  moreover have "lane_covs p env args cov0 D0 tsr t ?st" using assms(2) by (simp add: lane_covs_def start_lane_def)
  ultimately show ?thesis by (simp add: lane_ok_def)
qed

lemma rows_inv_start:
  assumes inv: "shfl_inv p env args cov0 B" and D0: "D0 = start_diag p args (blockIdx B) 0"
  shows "rows_inv p env args cov0 m0 D0 (tile_start_row B) 0 {}
    (map (map (\<lambda>st. (start_lane p (tile_start_col B) st, []))) (warps B), cov_handoff B)"
proof -
  let ?R = "tile_start_row B" and ?wpb = "warps_per_block p"
  have inv': "tile_start_col B = D0 + ?R" "length (warps B) = ?wpb" "length (cov_handoff B) = 2 * ?wpb"
      "\<And>w. w < ?wpb \<Longrightarrow> length (warps B ! w) = 32 \<and> (\<forall>l < 32. lane_regs p env args D0 ?R (32 * w + l) (warps B ! w ! l)
         \<and> lane_covs p env args cov0 D0 ?R (32 * w + l) (warps B ! w ! l))"
      "\<And>w. 0 < ?R \<Longrightarrow> w < ?wpb \<Longrightarrow> handed p env args cov0 D0 ?R w (cov_handoff B ! w)"
    using inv unfolding shfl_inv_def Let_def D0 by blast+
  have "rows_before p args D0 ?R ?R w = {}" "cols_before p args D0 ?R ?R t = {}" for w t
    by (auto simp: rows_before_def cols_before_def band_def)
  then have "covers (lane_cands p env args cov0 tsc ?R (rows_before p args D0 ?R ?R w) (cols_before p args D0 ?R ?R t) l) []" for tsc w t l
    by (simp add: covers_def lane_cands_def row_part_def col_part_def)
  then have "acc_ok p env args cov0 m0 D0 ?R ?R w l (start_lane p (tile_start_col B) (warps B ! w ! l), [])"
    if "w < ?wpb" "l < 32" for w l
    using inv'(4) [OF that(1)] that(2) start_lane_ok [OF _ _ inv'(1)] by (simp add: acc_ok_def)
  then show ?thesis using inv' by (simp add: rows_inv_def)
qed

definition shfl_choice_ok :: "geometry \<Rightarrow> shfl_choice \<Rightarrow> bool" where
  "shfl_choice_ok p ch \<longleftrightarrow> (\<forall>r. order_ok p (warp_order ch r)) \<and> (\<forall>k. fair (BLOCKSZ p) k (step_order ch k))"

lemma block_tile_shfl_ok:
  assumes g: "shfl_geometry_ok p" and arr: "arrays_ok args cov0" and inv: "shfl_inv p env args cov0 B"
    and read: "not_below (nat (k_n_x args)) (read False)" "not_below (nat (k_n_y args)) (read True)"
    and ch: "shfl_choice_ok p ch"
  shows "wp (block_tile_shfl p env args n_a (read False) (read True) ch B) (\<lambda>(B', progs). shfl_inv p env args cov0 B'
    \<and> blockIdx B' = blockIdx B \<and> tile_start_row B' = tile_start_row B + tile_rows p \<and> length progs = BLOCKSZ p
    \<and> sent_ok p env args cov0 n_a read (tile_start_col B) (tile_start_row B)
         (block_cells p args (blockIdx B) (tile_start_row B)) progs)"
proof -
  let ?wpb = "warps_per_block p"
  define D0 where "D0 = start_diag p args (blockIdx B) 0"
  define tsr where "tsr = tile_start_row B"
  have pos: "tile_start_col B = D0 + tsr" and sized: "rows_sized p (shfl_shared B)" "length (local_mp B) = mp_size p"
    using inv by (auto simp: shfl_inv_def Let_def D0_def tsr_def)
  have bsz: "0 < BLOCKSZ p" "BLOCKSZ p = 32 * ?wpb" "even (tile_rows p)" "0 < DiagsPerThread p"
    using g block_threads [OF g] by (simp_all add: shfl_geometry_ok_def)
  obtain sm where sm: "init_shfl_rows p env args tsr (shfl_shared B) = Some sm" "rows_ok p env args tsr sm"
    using wp_SomeD [OF init_shfl_rows_ok [OF bsz(1) arr sized(1)]] by blast
  have "nat (k_n_x args) \<le> length (read False)" "nat (k_n_y args) \<le> length (read True)" using read by (auto simp: not_below_def)
  from wp_SomeD [OF init_smem_profile_ok [OF bsz(1) this sized(2)]]
  obtain m0 where m0: "init_smem_profile p args (D0 + tsr) tsr (read False) (read True) (local_mp B) = Some m0"
      "profile_read p args (D0 + tsr) tsr (read False) (read True) m0" by blast
  have m0_len: "length m0 = mp_size p" using m0(2) by (simp add: profile_read_def)
  have order: "\<And>r. order_ok p (warp_order ch r)" "\<And>k. fair (BLOCKSZ p) k (step_order ch k)" using ch by (simp_all add: shfl_choice_ok_def)
  define fast where "fast = fast_shfl p args (D0 + tsr) tsr"
  have "wp (tile_rows_shfl p env args fast tsr sm (warp_order ch)
      (map (map (\<lambda>st. (start_lane p (D0 + tsr) st, []))) (warps B), cov_handoff B))
      (rows_inv p env args cov0 m0 D0 tsr (tile_rows p) {})"
    using tile_rows_shfl_ok [OF g arr _ sm(2) m0_len order(1) rows_inv_start [OF inv D0_def, folded tsr_def], of fast] pos
    by (simp add: fast_def)
  then obtain lanes handoff where rows: "tile_rows_shfl p env args fast tsr sm (warp_order ch)
      (map (map (\<lambda>st. (start_lane p (D0 + tsr) st, []))) (warps B), cov_handoff B) = Some (lanes, handoff)"
      "rows_inv p env args cov0 m0 D0 tsr (tile_rows p) {} (lanes, handoff)" using wp_SomeD by fastforce
  have L: "length lanes = ?wpb" "length handoff = 2 * ?wpb"
      "\<And>w. w < ?wpb \<Longrightarrow> length (lanes ! w) = 32 \<and> (\<forall>l < 32. acc_ok p env args cov0 m0 D0 tsr (tsr + tile_rows p) w l (lanes ! w ! l))"
      "\<And>w. 0 < tsr + tile_rows p \<Longrightarrow> w < ?wpb \<Longrightarrow> handed p env args cov0 D0 (tsr + tile_rows p) w (handoff ! w)"
    using rows(2) bsz(3) by (simp_all add: rows_inv_def)
  have all32: "\<forall>ls \<in> set lanes. length ls = 32" using L(1,3) by (auto simp: in_set_conv_nth)
  let ?prog = "\<lambda>(st, accs). accs @ (if COMPUTE_COLS p then flush_all_cols_to_smem p st else [])"
  define progs where "progs = map ?prog (concat lanes)"
  have progs_len: "length progs = BLOCKSZ p" using length_concat_same [OF all32] L(1) bsz(2) by (simp add: progs_def)
  have progs: "self_ok m0 (progs ! t) \<and> covers (lane_sends p env args cov0 D0 tsr t) (progs ! t)" if t: "t < BLOCKSZ p" for t
  proof -
    have w: "t div 32 < ?wpb" "t mod 32 < 32" "32 * (t div 32) + t mod 32 = t" using t bsz(2) by auto
    have "concat lanes ! t = lanes ! (t div 32) ! (t mod 32)" using concat_nth [OF all32 _ w(2), of "t div 32"] w L(1) by simp
    then have "progs ! t = ?prog (lanes ! (t div 32) ! (t mod 32))" using t progs_len by (simp add: progs_def)
    moreover have "acc_ok p env args cov0 m0 D0 tsr (tsr + tile_rows p) (t div 32) (t mod 32) (lanes ! (t div 32) ! (t mod 32))"
      using L(3) [OF w(1)] w(2) by blast
    ultimately show ?thesis using lane_prog_ok [OF _ g w(1,2) m0_len] w(3) by (metis (no_types, lifting) case_prod_beta prod.collapse)
  qed
  obtain ts mem where run: "run_threads (step_order ch (step_bound progs (length m0))) progs m0 = (ts, mem)"
    by (cases "run_threads (step_order ch (step_bound progs (length m0))) progs m0")
  note R = round_result [OF bsz(1) m0(2) read progs_len progs lane_sends_side [OF _ g] order(2) run]
  let ?B = "B\<lparr>warps := map (map fst) lanes, tile_start_col := D0 + tsr + tile_rows p, tile_start_row := tsr + tile_rows p,
    shfl_shared := sm, cov_handoff := handoff, local_mp := mem\<rparr>"
  have "shfl_inv p env args cov0 ?B"
    using L R(2) m0_len sm(2) by (auto simp: shfl_inv_def Let_def D0_def [symmetric] acc_ok_def lane_ok_def case_prod_beta
        rows_sized_def rows_ok_def row_data_def)
  moreover have "block_tile_shfl p env args n_a (read False) (read True) ch B
      = Some (?B, map (write_back p n_a (nat (k_n_x args)) (nat (k_n_y args)) (D0 + tsr) tsr mem) [0..<BLOCKSZ p])"
    using sm(1) m0(1) rows(1) run R(1)
    by (simp add: block_tile_shfl_def Let_def pos tsr_def [symmetric] fast_def [symmetric] progs_def [symmetric])
  ultimately show ?thesis
    using R(3) block_cells_band [OF bsz(4), of args "blockIdx B" tsr] pos by (simp add: tsr_def D0_def)
qed

definition shfl_supported :: "geometry \<Rightarrow> kernel_env \<Rightarrow> bool" where
  "shfl_supported p env \<longleftrightarrow> shfl_geometry_ok p"

interpretation shfl: tile_kernel block_tile_shfl shfl_inv shfl_supported shfl_choice_ok
proof
  show "wp (block_tile_shfl p env args n_a (read False) (read True) ch B) (\<lambda>(B', progs). shfl_inv p env args cov0 B'
        \<and> blockIdx B' = blockIdx B \<and> tile_start_row B' = tile_start_row B + tile_rows p \<and> length progs = BLOCKSZ p
        \<and> sent_ok p env args cov0 n_a read (tile_start_col B) (tile_start_row B)
             (block_cells p args (blockIdx B) (tile_start_row B)) progs)"
    if "shfl_supported p env" "arrays_ok args cov0" "shfl_inv p env args cov0 B" "has_tile args B"
      "not_below (nat (k_n_x args)) (read False)" "not_below (nat (k_n_y args)) (read True)" "shfl_choice_ok p ch"
    for p env args cov0 B read ch n_a
    using that by (intro block_tile_shfl_ok) (simp_all add: shfl_supported_def)
qed (auto simp: shfl_supported_def shfl_geometry_ok_def shfl_inv_def Let_def)

end
