(* ===== verification/GpuShflCorrect.thy ===== *)
theory GpuShflCorrect
  imports GpuShflBlock GpuCorrect
begin

text \<open>
  The shuffle kernel against the specification the CPU kernel meets: a launch of it leaves the same entries as a
  launch of the sliding-window kernel.
\<close>

subsection \<open>A launch\<close>

lemma init_lane_ok:
  assumes t: "t < BLOCKSZ p" "0 < DiagsPerThread p" and D0: "D0 = start_diag p args b 0"
  shows "lane_regs p env args D0 0 t (init_lane p env args cov b t)" "lane_covs p env args cov D0 0 t (init_lane p env args cov b t)"
proof -
  have c: "b * block_cols p + nat (k_exclusion_lower args) + t * DiagsPerThread p + i = D0 + (t * DiagsPerThread p + i)" for i
    by (simp add: D0 start_diag_def block_cols_def)
  have col: "slot_col p D0 0 (t * DiagsPerThread p + i) = D0 + (t * DiagsPerThread p + i)" for i
    by (simp add: slot_col_def slot_diag_start)
  show "lane_regs p env args D0 0 t (init_lane p env args cov b t)"
    using t(2) by (simp add: lane_regs_def init_lane_def Let_def c col slot_diag_start)
  show "lane_covs p env args cov D0 0 t (init_lane p env args cov b t)"
    using t(2) by (simp add: lane_covs_def cov_ok_def init_lane_def Let_def c col slot_diag_start)
qed

definition shared_sized :: "geometry \<Rightarrow> shfl_smem \<times> fp list \<times> mp_entry list \<Rightarrow> bool" where
  "shared_sized p g = (case g of (sm, handoff, mp) \<Rightarrow>
     rows_sized p sm \<and> length handoff = 2 * warps_per_block p \<and> length mp = mp_size p)"

lemma init_shfl_block_inv:
  assumes g: "shfl_geometry_ok p" and "shared_sized p (sm, handoff, mp)"
  shows "shfl_inv p env args cov (init_shfl_block p env args cov sm handoff mp b)"
proof -
  have n: "0 < DiagsPerThread p" using g by (simp add: shfl_geometry_ok_def)
  have "lane_regs p env args (start_diag p args b 0) 0 (32 * w + l) (init_lane p env args cov b (32 * w + l))
      \<and> lane_covs p env args cov (start_diag p args b 0) 0 (32 * w + l) (init_lane p env args cov b (32 * w + l))"
    if "w < warps_per_block p" "l < 32" for w l
    using init_lane_ok [OF lane_thread(1) [OF g that] n refl] by blast
  then show ?thesis
    using assms(2) by (simp add: shfl_inv_def init_shfl_block_def Let_def shared_sized_def start_diag_def block_cols_def)
qed

definition launch_shfl_grid ::
  "geometry \<Rightarrow> kernel_env \<Rightarrow> KernelArgs \<Rightarrow> fp list \<Rightarrow> (nat \<Rightarrow> shfl_smem \<times> fp list \<times> mp_entry list) \<Rightarrow> nat
   \<Rightarrow> shfl_choice grid_event list \<Rightarrow> (nat \<Rightarrow> nat list) \<Rightarrow> mp_entry list \<Rightarrow> mp_entry list
   \<Rightarrow> (mp_entry list \<times> mp_entry list) option" where
  "launch_shfl_grid p env args cov garbage num_blocks events schedule A B =
     run_grid (block_tile_shfl p env args (length A)) args
       (map (\<lambda>b. case garbage b of (sm, handoff, mp) \<Rightarrow> init_shfl_block p env args cov sm handoff mp b) [0..<num_blocks])
       events schedule A B"

lemma init_shfl_blocks_start:
  assumes g: "shfl_geometry_ok p" and garbage: "\<forall>b < N. shared_sized p (garbage b)"
  shows "blocks_start (shfl_inv p env args cov) N
      (map (\<lambda>b. case garbage b of (sm, handoff, mp) \<Rightarrow> init_shfl_block p env args cov sm handoff mp b) [0..<N])"
  using garbage by (auto simp: blocks_start_def init_shfl_block_inv [OF g] split: prod.splits)
    (auto simp: init_shfl_block_def)

lemma launch_shfl_grid_cells:
  assumes args: "args_ok args cov" and g: "shfl_geometry_ok p"
    and len: "k_n_x args \<le> int (length A)" "k_n_y args \<le> int (length B)"
    and low: "list_all (\<lambda>e. \<not> flt (floats0 e) dist_lowest) (A @ B)"
    and garbage: "\<forall>b < N. shared_sized p (garbage b)" and fair: "fair_grid shfl_choice_ok p args N events schedule"
  shows "\<exists>A' B'. launch_shfl_grid p env args cov garbage N events schedule A B = Some (A', B')
    \<and> entries_of_cells env args cov p N A B A' B'"
  unfolding launch_shfl_grid_def entries_of_cells_def
proof (rule shfl.grid_runs [OF _ _ _ _ not_low_entries [OF low len] init_shfl_blocks_start [OF g garbage] fair])
  show "shfl_supported p env" using g by (simp add: shfl_supported_def)
  show "arrays_ok args cov" using args by (auto simp: arrays_ok_def args_ok_def)
qed (use len in auto)

lemma launch_shfl_grid_correct:
  assumes args: "args_ok args cov" and g: "shfl_geometry_ok p" and cover: "covering p args N"
    and inputs: "double_inputs fpu env args cov" and fin: "finite_or_nan env args cov"
    and len: "k_n_x args \<le> int (length A)" "k_n_y args \<le> int (length B)"
    and low: "list_all (\<lambda>e. \<not> flt (floats0 e) dist_lowest) (A @ B)"
    and garbage: "\<forall>b < N. shared_sized p (garbage b)" and fair: "fair_grid shfl_choice_ok p args N events schedule"
  shows "\<exists>A' B'. launch_shfl_grid p env args cov garbage N events schedule A B = Some (A', B')
    \<and> launched args (COMPUTE_ROWS p) (COMPUTE_COLS p)
        (best_entry (corr_at fpu (ops_1NN_INDEX fpu eig unrollWid) args cov)) A B A' B'"
  unfolding launch_shfl_grid_def
proof (rule shfl.grid_correct [OF args _ cover inputs fin len low _ fair])
  show "shfl_supported p env" using g by (simp add: shfl_supported_def)
qed (rule init_shfl_blocks_start [OF g garbage])

text \<open>
  C11. The shuffle kernel computes what the CPU kernel does: for any geometry its static assertions allow with an
  even tile height, any number of blocks that covers the diagonals, any order of the blocks' rounds and of the warps
  in each row, any interleaving of the threads and any content of shared memory, no access leaves its array and
  each entry of the profile of a side that is computed either is the old one, no correlation of its column or row
  exceeding it, or holds a largest of them and where it is.
\<close>

theorem gpu_shfl_1NN_INDEX_correct:
  assumes args: "args_ok args cov" and g: "shfl_geometry_ok p" and cover: "covering p args N"
    and inputs: "double_inputs fpu env args cov" and fin: "finite_or_nan env args cov"
    and len: "k_n_x args \<le> int (length A)" "k_n_y args \<le> int (length B)"
    and low: "list_all (\<lambda>e. \<not> flt (floats0 e) dist_lowest) (A @ B)"
    and garbage: "\<forall>b < N. shared_sized p (garbage b)" and fair: "fair_grid shfl_choice_ok p args N events schedule"
  shows "\<exists>A' B'. launch_shfl_grid p env args cov garbage N events schedule A B = Some (A', B')
    \<and> launched args (COMPUTE_ROWS p) (COMPUTE_COLS p)
        (best_entry (corr_at fpu (ops_1NN_INDEX fpu eig unrollWid) args cov)) A B A' B'"
  by (rule launch_shfl_grid_correct [OF assms])

subsection \<open>An example\<close>

definition shfl_geometry :: geometry where
  "shfl_geometry = \<lparr>DiagsPerThread = 2, UnrolledRows = 0, OuterUnrolledRows = 2, KernelTileIters = 1, BLOCKSZ = 64,
     COMPUTE_ROWS = True, COMPUTE_COLS = True\<rparr>"

definition nan_shared :: "geometry \<Rightarrow> nat \<Rightarrow> shfl_smem \<times> fp list \<times> mp_entry list" where
  "nan_shared p b = (\<lparr>r_df = replicate (tile_rows p) NaN, r_dg = replicate (tile_rows p) NaN, r_inorm = replicate (tile_rows p) NaN\<rparr>,
     replicate (2 * warps_per_block p) NaN, replicate (mp_size p) \<lparr>floats0 = NaN, ints1 = 0\<rparr>)"

lemma nan_shared_sized: "shared_sized p (nan_shared p b)"
  by (simp add: shared_sized_def nan_shared_def rows_sized_def)

text \<open>Every block runs one round, the last block first; the last warp first in every row.\<close>

definition one_shfl_round :: "geometry \<Rightarrow> nat \<Rightarrow> shfl_choice grid_event list" where
  "one_shfl_round p N = map (\<lambda>b. \<lparr>ev_block = b, ev_sees = (\<lambda>_. 1),
     ev_choice = \<lparr>warp_order = (\<lambda>_. rev [0..<warps_per_block p]), step_order = grid_rounds (BLOCKSZ p)\<rparr>\<rparr>) (rev [0..<N])"

lemma one_shfl_round_fair:
  assumes "nat (k_n_y args) \<le> 1"
  shows "fair_grid shfl_choice_ok p args N (one_shfl_round p N) (grid_rounds (N * BLOCKSZ p))"
proof -
  have "fair n k (grid_rounds n k)" for n k by (simp only: grid_rounds_def fair_rounds)
  moreover have "b < N \<Longrightarrow> count_list (map ev_block (one_shfl_round p N)) b = 1" for b
    by (induction N) (auto simp: one_shfl_round_def less_Suc_eq count_list_0_iff)
  moreover have "order_ok p (rev [0..<warps_per_block p])" by (auto simp: order_ok_def)
  ultimately show ?thesis using assms by (auto simp: fair_grid_def shfl_choice_ok_def one_shfl_round_def)
qed

lemma gpu_shfl_1NN_INDEX_correct_witness:
  "\<exists>A' B'. launch_shfl_grid shfl_geometry grid_env demo_args [Fin 0, Fin 1] (nan_shared shfl_geometry) 1
      (one_shfl_round shfl_geometry 1) (grid_rounds (1 * BLOCKSZ shfl_geometry))
      (replicate 2 \<lparr>floats0 = Fin (-2), ints1 = 0\<rparr>) [\<lparr>floats0 = Fin (-2), ints1 = 0\<rparr>] = Some (A', B')
    \<and> launched demo_args (COMPUTE_ROWS shfl_geometry) (COMPUTE_COLS shfl_geometry)
        (best_entry (corr_at exact_fpu (ops_1NN_INDEX exact_fpu list_eigen unrollWid) demo_args [Fin 0, Fin 1]))
        (replicate 2 \<lparr>floats0 = Fin (-2), ints1 = 0\<rparr>) [\<lparr>floats0 = Fin (-2), ints1 = 0\<rparr>] A' B'"
proof (rule gpu_shfl_1NN_INDEX_correct)
  show "shfl_geometry_ok shfl_geometry" by (simp add: shfl_geometry_ok_def shfl_geometry_def tile_rows_def)
  show "covering shfl_geometry demo_args 1" by (simp add: covering_def shfl_geometry_def demo_args_def)
  show "\<forall>b < 1. shared_sized shfl_geometry (nan_shared shfl_geometry b)" by (simp add: nan_shared_sized)
  show "fair_grid shfl_choice_ok shfl_geometry demo_args 1 (one_shfl_round shfl_geometry 1) (grid_rounds (1 * BLOCKSZ shfl_geometry))"
    by (rule one_shfl_round_fair) (simp add: demo_args_def)
qed (simp_all add: demo_grid_inputs, simp_all add: demo_args_def dist_lowest_def list_all_iff)

end
