(* ===== verification/GpuLaunch.thy ===== *)
theory GpuLaunch
  imports GpuShflCorrect AutotuneCorrect Tile
begin

text \<open>
  The host side of a kernel launch: \<open>compute_gpu_resources_and_launch\<close> of src/core/gpu_kernel/kernels.cu, the
  dispatch on the variant that CMake generates from kernels_variants.h.in, and the launchers of kernels_impl.h and
  kernels_impl_shfl.h. The result is the launch the code asks CUDA for, with the template arguments of the kernel.
  The driver's answer to \<open>cudaDeviceGetAttribute\<close> is a parameter, \<open>None\<close> a failure; that a launch itself
  succeeds is not modelled.
\<close>

subsection \<open>The launchers\<close>

record gpu_launch =
  l_profile :: SCAMPProfileType
  l_double :: bool
  l_shfl :: bool
  l_geometry :: geometry
  l_target_threads :: int
  l_block :: int
  l_grid :: int
  l_smem :: int

type_synonym launch_result = "SCAMPError_t \<times> gpu_launch option"

definition BLOCKSZ_for :: "int \<Rightarrow> int" where
  "BLOCKSZ_for blocksz = (if blocksz \<in> {64, 128, 256} then blocksz else 512)"

definition launch_precision ::
  "SCAMPProfileType \<Rightarrow> KernelVariantGeometry \<Rightarrow> SCAMPPrecisionType \<Rightarrow> bool \<Rightarrow> bool \<Rightarrow> int \<Rightarrow> int \<Rightarrow> int \<Rightarrow> launch_result" where
  "launch_precision ty v fp_type rows cols blocksz num_blocks smem =
     (let launch = (\<lambda>double default_blocksz. (SCAMP_NO_ERROR, Some
        \<lparr>l_profile = ty, l_double = double, l_shfl = (var_unrolled_rows v = 0),
         l_geometry = \<lparr>DiagsPerThread = nat (var_diags_per_thread v), UnrolledRows = nat (var_unrolled_rows v),
           OuterUnrolledRows = nat (var_outer_unrolled_rows v), KernelTileIters = nat (var_kernel_tile_iters v),
           BLOCKSZ = nat (BLOCKSZ_for blocksz), COMPUTE_ROWS = rows, COMPUTE_COLS = cols\<rparr>,
         l_target_threads = var_blocks_per_sm v * default_blocksz, l_block = blocksz, l_grid = num_blocks, l_smem = smem\<rparr>))
      in case fp_type of
           PRECISION_ULTRA \<Rightarrow> launch True (trunc_div (var_default_blocksz_sp v) 2)
         | PRECISION_DOUBLE \<Rightarrow> launch True (trunc_div (var_default_blocksz_sp v) 2)
         | PRECISION_SINGLE \<Rightarrow> launch False (var_default_blocksz_sp v)
         | _ \<Rightarrow> (SCAMP_CUDA_ERROR, None))"

definition LaunchDoTileWithGeometry ::
  "SCAMPProfileType \<Rightarrow> KernelVariantGeometry \<Rightarrow> SCAMPPrecisionType \<Rightarrow> bool \<Rightarrow> bool \<Rightarrow> int \<Rightarrow> int \<Rightarrow> int \<Rightarrow> launch_result" where
  "LaunchDoTileWithGeometry ty v fp_type computing_rows computing_cols blocksz num_blocks smem =
     (if computing_rows \<and> computing_cols then launch_precision ty v fp_type True True blocksz num_blocks smem
      else if computing_cols then launch_precision ty v fp_type False True blocksz num_blocks smem
      else if computing_rows then launch_precision ty v fp_type True False blocksz num_blocks smem
      else (SCAMP_NO_ERROR, None))"

text \<open>\<open>SCAMP_VARIANT_DISPATCH\<close>: the first variant of the table with the tuple of the configuration.\<close>

fun variant_dispatch ::
  "KernelVariantGeometry list \<Rightarrow> SCAMPProfileType \<Rightarrow> SCAMPPrecisionType \<Rightarrow> bool \<Rightarrow> bool \<Rightarrow> KernelConfig \<Rightarrow> int \<Rightarrow> int \<Rightarrow> launch_result" where
  "variant_dispatch [] ty fp_type rows cols cfg num_blocks smem = (SCAMP_CUDA_ERROR, None)"
| "variant_dispatch (v # vs) ty fp_type rows cols cfg num_blocks smem =
     (if same_tuple cfg v then LaunchDoTileWithGeometry ty v fp_type rows cols (cfg_blocksz cfg) num_blocks smem
      else variant_dispatch vs ty fp_type rows cols cfg num_blocks smem)"

subsection \<open>The resources of a launch\<close>

definition smem_for_bsz :: "OpInfo \<Rightarrow> KernelConfig \<Rightarrow> int \<Rightarrow> int result" where
  "smem_for_bsz info cfg bsz =
     (if cfg_unrolled_rows cfg = 0 then get_smem_shfl info bsz (tile_height cfg) (cfg_diags_per_thread cfg)
      else get_smem info bsz (tile_height cfg) (cfg_diags_per_thread cfg))"

function clamp_blocksz :: "OpInfo \<Rightarrow> KernelConfig \<Rightarrow> int \<Rightarrow> int \<Rightarrow> int result" where
  "clamp_blocksz info cfg cap blocksz =
     (if 64 < blocksz then rbind (smem_for_bsz info cfg blocksz) (\<lambda>smem.
        if cap < smem then clamp_blocksz info cfg cap (blocksz div 2) else Inr blocksz)
      else Inr blocksz)"
  by pat_completeness auto
termination by (relation "measure (\<lambda>(info, cfg, cap, blocksz). nat blocksz)") auto

declare clamp_blocksz.simps [simp del]

text \<open>A conversion of a negative double to \<open>uint64_t\<close> is undefined.\<close>

definition to_unsigned :: "int option \<Rightarrow> int option" where
  "to_unsigned x = (case x of None \<Rightarrow> None | Some k \<Rightarrow> if k < 0 then None else Some k)"

text \<open>
  The launch with the configuration of the device. \<open>None\<close> is undefined behaviour; an exception of the size
  computation is \<open>Inl\<close>.
\<close>

definition launch_with_config ::
  "fpu \<Rightarrow> KernelVariantGeometry list \<Rightarrow> KernelConfig \<Rightarrow> int option \<Rightarrow> KernelArgs \<Rightarrow> OpInfo \<Rightarrow> bool \<Rightarrow> bool
   \<Rightarrow> launch_result result option" where
  "launch_with_config fpu vs cfg max_smem_optin args info do_rows do_cols =
     (let exclusion_total = k_exclusion_lower args + k_exclusion_upper args in
      case (case max_smem_optin of None \<Rightarrow> Inr (cfg_blocksz cfg)
              | Some cap \<Rightarrow> clamp_blocksz info cfg cap (cfg_blocksz cfg)) of
        Inl e \<Rightarrow> Some (Inl e)
      | Inr blocksz \<Rightarrow> do {
          num_workers \<leftarrow> to_unsigned (tile_count (rd64 fpu) (k_n_x args - exclusion_total) (cfg_diags_per_thread cfg));
          num_blocks \<leftarrow> to_unsigned (tile_count (rd64 fpu) num_workers blocksz);
          Some (rbind (smem_for_bsz info cfg blocksz) (\<lambda>smem. Inr (
            if k_n_x args \<le> exclusion_total then (SCAMP_NO_ERROR, None)
            else if op_profile_type info \<in> {PROFILE_TYPE_SUM_THRESH, PROFILE_TYPE_1NN_INDEX, PROFILE_TYPE_1NN,
                PROFILE_TYPE_APPROX_ALL_NEIGHBORS, PROFILE_TYPE_MATRIX_SUMMARY}
              then variant_dispatch vs (op_profile_type info) (op_fp_type info) do_rows do_cols
                     (cfg\<lparr>cfg_blocksz := blocksz\<rparr>) num_blocks smem
            else (SCAMP_FUNCTIONALITY_UNIMPLEMENTED, None)))) })"

text \<open>What is outside the program: the environment, the devices, the cache file, the table and the driver.\<close>

record gpu_world =
  w_env :: environment
  w_query :: "int \<Rightarrow> GpuDeviceProps result"
  w_path :: string
  w_variants :: "KernelVariantGeometry list"
  w_max_smem_optin :: "int \<Rightarrow> int option"

definition compute_gpu_resources_and_launch ::
  "fpu \<Rightarrow> gpu_world \<Rightarrow> KernelArgs \<Rightarrow> OpInfo \<Rightarrow> int \<Rightarrow> bool \<Rightarrow> bool \<Rightarrow> AutotuneState
   \<Rightarrow> launch_result result option \<times> AutotuneState" where
  "compute_gpu_resources_and_launch fpu w args info cuda_id do_rows do_cols st =
     (case GetKernelConfigForDevice (w_env w) (w_query w) (w_variants w) cuda_id (op_profile_type info) (op_fp_type info)
             (w_path w) st of
        (None, st') \<Rightarrow> (None, st')
      | (Some cfg, st') \<Rightarrow>
          (launch_with_config fpu (w_variants w) cfg (w_max_smem_optin w cuda_id) args info do_rows do_cols, st'))"

text \<open>The four entry points; the lower triangles are launched on the transposed tile.\<close>

definition gpu_kernel_self_join_upper ::
  "fpu \<Rightarrow> gpu_world \<Rightarrow> OpInfo \<Rightarrow> int \<Rightarrow> Tile \<Rightarrow> AutotuneState \<Rightarrow> launch_result result option \<times> AutotuneState" where
  "gpu_kernel_self_join_upper fpu w info cuda_id t = compute_gpu_resources_and_launch fpu w
     (SCAMPKernelInputArgs info t False False) info cuda_id (op_computing_rows info) (op_computing_cols info)"

definition gpu_kernel_self_join_lower ::
  "fpu \<Rightarrow> gpu_world \<Rightarrow> OpInfo \<Rightarrow> int \<Rightarrow> Tile \<Rightarrow> AutotuneState \<Rightarrow> launch_result result option \<times> AutotuneState" where
  "gpu_kernel_self_join_lower fpu w info cuda_id t = compute_gpu_resources_and_launch fpu w
     (SCAMPKernelInputArgs info t True False) info cuda_id (op_computing_cols info) (op_computing_rows info)"

definition gpu_kernel_ab_join_upper ::
  "fpu \<Rightarrow> gpu_world \<Rightarrow> OpInfo \<Rightarrow> int \<Rightarrow> Tile \<Rightarrow> AutotuneState \<Rightarrow> launch_result result option \<times> AutotuneState" where
  "gpu_kernel_ab_join_upper fpu w info cuda_id t = compute_gpu_resources_and_launch fpu w
     (SCAMPKernelInputArgs info t False True) info cuda_id (op_computing_rows info) (op_computing_cols info)"

definition gpu_kernel_ab_join_lower ::
  "fpu \<Rightarrow> gpu_world \<Rightarrow> OpInfo \<Rightarrow> int \<Rightarrow> Tile \<Rightarrow> AutotuneState \<Rightarrow> launch_result result option \<times> AutotuneState" where
  "gpu_kernel_ab_join_lower fpu w info cuda_id t = compute_gpu_resources_and_launch fpu w
     (SCAMPKernelInputArgs info t True True) info cuda_id (op_computing_cols info) (op_computing_rows info)"

subsection \<open>The block size\<close>

text \<open>The sizes of the regions grow with the block, so the clamp ends at the largest that fits, or at 64.\<close>

lemma smem_for_bsz_total:
  "GetProfileTypeSizeInternalGPU (op_profile_type info) = Inr psz \<Longrightarrow> \<exists>smem. smem_for_bsz info cfg b = Inr smem"
  by (simp add: smem_for_bsz_def get_smem_def get_smem_shfl_def Let_def)

lemma clamp_blocksz_ok:
  assumes "GetProfileTypeSizeInternalGPU (op_profile_type info) = Inr psz" "bsz \<in> {64, 128, 256, 512}"
  shows "\<exists>b. clamp_blocksz info cfg cap bsz = Inr b \<and> b \<in> {64, 128, 256, 512} \<and> b \<le> bsz
    \<and> (b = 64 \<or> (\<exists>smem. smem_for_bsz info cfg b = Inr smem \<and> smem \<le> cap))
    \<and> (b < bsz \<longrightarrow> (\<exists>smem. smem_for_bsz info cfg (2 * b) = Inr smem \<and> cap < smem))"
proof -
  note sz = smem_for_bsz_total [OF assms(1), of cfg]
  define s where "s b = (THE smem. smem_for_bsz info cfg b = Inr smem)" for b
  have s: "smem_for_bsz info cfg b = Inr (s b)" for b
    using sz [of b] by (auto simp: s_def)
  have step: "clamp_blocksz info cfg cap b = (if 64 < b \<and> cap < s b then clamp_blocksz info cfg cap (b div 2) else Inr b)" for b
    by (subst clamp_blocksz.simps) (simp add: s)
  show ?thesis using assms(2) step [of 64] step [of 128] step [of 256] step [of 512] by (auto simp: s)
qed

subsection \<open>The launch\<close>

text \<open>
  A variant without unrolled rows is the shuffle kernel. Its hand-off needs an even tile height, which nothing in the
  code asserts; all variants of the table have one.
\<close>

definition variant_geometry_ok :: "KernelVariantGeometry \<Rightarrow> bool" where
  "variant_geometry_ok v \<longleftrightarrow> 0 < var_diags_per_thread v \<and> 0 < var_outer_unrolled_rows v \<and> 0 < var_kernel_tile_iters v
     \<and> (if var_unrolled_rows v = 0
        then var_diags_per_thread v \<le> 8 \<and> even (nat (var_kernel_tile_iters v) * nat (var_outer_unrolled_rows v))
        else 0 < var_unrolled_rows v \<and> var_unrolled_rows v dvd var_outer_unrolled_rows v
          \<and> var_unrolled_rows v dvd var_diags_per_thread v)"

lemma variant_dispatch_first:
  assumes "v \<in> set vs" "same_tuple cfg v"
  obtains v' where "v' \<in> set vs" "same_tuple cfg v'"
    "\<And>ty fp rows cols n smem. variant_dispatch vs ty fp rows cols cfg n smem
       = LaunchDoTileWithGeometry ty v' fp rows cols (cfg_blocksz cfg) n smem"
proof -
  have "\<exists>v'. v' \<in> set vs \<and> same_tuple cfg v' \<and> (\<forall>ty fp rows cols n smem. variant_dispatch vs ty fp rows cols cfg n smem
       = LaunchDoTileWithGeometry ty v' fp rows cols (cfg_blocksz cfg) n smem)"
    using assms
  proof (induction vs)
    case (Cons a vs)
    show ?case
    proof (cases "same_tuple cfg a")
      case True
      then show ?thesis by (intro exI [of _ a]) simp
    next
      case False
      then obtain v' where "v' \<in> set vs" "same_tuple cfg v'" "\<forall>ty fp rows cols n smem. variant_dispatch vs ty fp rows cols cfg n smem
         = LaunchDoTileWithGeometry ty v' fp rows cols (cfg_blocksz cfg) n smem" using Cons by auto
      then show ?thesis using False by (intro exI [of _ v']) simp
    qed
  qed simp
  then show thesis using that by blast
qed

text \<open>The blocks have at least the diagonals the host counts, which does not include the last one.\<close>

lemma num_blocks_cover:
  assumes "double_rounding rd" "0 < w" "w < 2 ^ 31" "0 < dpt" "dpt < 2 ^ 31" "0 < bsz" "bsz < 2 ^ 31"
  shows "\<exists>k n. to_unsigned (tile_count rd w dpt) = Some k \<and> to_unsigned (tile_count rd k bsz) = Some n
    \<and> 0 < n \<and> w \<le> n * (bsz * dpt) \<and> (n - 1) * (bsz * dpt) < w"
proof -
  define k where "k = \<lceil>real_of_int w / real_of_int dpt\<rceil>"
  define n where "n = \<lceil>real_of_int k / real_of_int bsz\<rceil>"
  have k: "0 < k" "k \<le> w" using ceil_div_pos [OF assms(2,4)] unfolding k_def by linarith+
  have n: "0 < n" using ceil_div_pos [OF k(1) assms(6)] unfolding n_def by linarith
  have "(j < k \<longleftrightarrow> j * dpt < w)" for j using less_ceil_div_iff [OF assms(4), of j w] unfolding k_def by simp
  moreover have "(j < n \<longleftrightarrow> j * bsz < k)" for j using less_ceil_div_iff [OF assms(6), of j k] unfolding n_def by simp
  ultimately have N: "j < n \<longleftrightarrow> j * (bsz * dpt) < w" for j by (metis mult.assoc)
  have "tile_count rd w dpt = Some k" unfolding k_def by (rule tile_count_exact) (use assms in simp_all)
  moreover have "tile_count rd k bsz = Some n" unfolding n_def by (rule tile_count_exact) (use assms k in simp_all)
  ultimately show ?thesis using k n N [of n] N [of "n - 1"] by (simp add: to_unsigned_def)
qed

lemma launch_geometry:
  assumes "rows \<or> cols" "fp = PRECISION_DOUBLE \<or> fp = PRECISION_ULTRA \<or> fp = PRECISION_SINGLE"
    and "variant_geometry_ok v" "bsz \<in> {64, 128, 256, 512}"
  shows "\<exists>l. LaunchDoTileWithGeometry ty v fp rows cols bsz n smem = (SCAMP_NO_ERROR, Some l)
    \<and> l_profile l = ty \<and> l_block l = bsz \<and> BLOCKSZ (l_geometry l) = nat bsz \<and> l_grid l = n \<and> l_smem l = smem
    \<and> COMPUTE_ROWS (l_geometry l) = rows \<and> COMPUTE_COLS (l_geometry l) = cols
    \<and> int (DiagsPerThread (l_geometry l)) = var_diags_per_thread v \<and> int (UnrolledRows (l_geometry l)) = var_unrolled_rows v
    \<and> int (OuterUnrolledRows (l_geometry l)) = var_outer_unrolled_rows v
    \<and> int (KernelTileIters (l_geometry l)) = var_kernel_tile_iters v
    \<and> (l_shfl l \<longleftrightarrow> var_unrolled_rows v = 0) \<and> (l_double l \<longleftrightarrow> fp \<noteq> PRECISION_SINGLE)
    \<and> (if l_shfl l then shfl_geometry_ok (l_geometry l) else block_geometry_ok (l_geometry l))"
proof -
  let ?g = "\<lparr>DiagsPerThread = nat (var_diags_per_thread v), UnrolledRows = nat (var_unrolled_rows v),
    OuterUnrolledRows = nat (var_outer_unrolled_rows v), KernelTileIters = nat (var_kernel_tile_iters v),
    BLOCKSZ = nat (BLOCKSZ_for bsz), COMPUTE_ROWS = rows, COMPUTE_COLS = cols\<rparr>"
  have "LaunchDoTileWithGeometry ty v fp rows cols bsz n smem = launch_precision ty v fp rows cols bsz n smem"
    using assms(1) by (cases rows; cases cols) (simp_all add: LaunchDoTileWithGeometry_def)
  moreover obtain t where "launch_precision ty v fp rows cols bsz n smem = (SCAMP_NO_ERROR, Some
      \<lparr>l_profile = ty, l_double = (fp \<noteq> PRECISION_SINGLE), l_shfl = (var_unrolled_rows v = 0), l_geometry = ?g,
       l_target_threads = t, l_block = bsz, l_grid = n, l_smem = smem\<rparr>)"
    using assms(2) by (elim disjE) (simp_all add: launch_precision_def Let_def)
  moreover have "var_unrolled_rows v \<noteq> 0 \<Longrightarrow> block_geometry_ok ?g"
    using assms(3,4) by (auto simp: block_geometry_ok_def variant_geometry_ok_def nat_dvd_iff BLOCKSZ_for_def)
  moreover have "var_unrolled_rows v = 0 \<Longrightarrow> shfl_geometry_ok ?g"
    using assms(3,4) by (auto simp: shfl_geometry_ok_def variant_geometry_ok_def tile_rows_def BLOCKSZ_for_def)
  moreover have "BLOCKSZ_for bsz = bsz" using assms(4) by (auto simp: BLOCKSZ_for_def)
  moreover have "0 \<le> var_unrolled_rows v" using assms(3) by (auto simp: variant_geometry_ok_def split: if_splits)
  ultimately show ?thesis using assms(3) by (simp add: variant_geometry_ok_def)
qed

abbreviation diagonals_counted :: "KernelArgs \<Rightarrow> int" where
  "diagonals_counted args \<equiv> k_n_x args - (k_exclusion_lower args + k_exclusion_upper args)"

definition block_diagonals :: "gpu_launch \<Rightarrow> int" where
  "block_diagonals l = int (BLOCKSZ (l_geometry l) * DiagsPerThread (l_geometry l))"

text \<open>
  What the host asks for: the kernel of the configuration of the device, with the tile the configuration has, a block
  size that fits the device or is the smallest, the shared memory the layout of this tile needs, and enough blocks for
  the diagonals it counts.
\<close>

definition launch_for :: "OpInfo \<Rightarrow> KernelArgs \<Rightarrow> bool \<Rightarrow> bool \<Rightarrow> KernelConfig \<Rightarrow> gpu_launch \<Rightarrow> bool" where
  "launch_for info args rows cols cfg l \<longleftrightarrow> l_profile l = op_profile_type info
     \<and> l_double l = (op_fp_type info \<noteq> PRECISION_SINGLE) \<and> l_shfl l = (cfg_unrolled_rows cfg = 0)
     \<and> COMPUTE_ROWS (l_geometry l) = rows \<and> COMPUTE_COLS (l_geometry l) = cols
     \<and> l_block l \<in> {64, 128, 256, 512} \<and> l_block l \<le> cfg_blocksz cfg \<and> int (BLOCKSZ (l_geometry l)) = l_block l
     \<and> int (DiagsPerThread (l_geometry l)) = cfg_diags_per_thread cfg
     \<and> int (UnrolledRows (l_geometry l)) = cfg_unrolled_rows cfg
     \<and> int (OuterUnrolledRows (l_geometry l)) = cfg_outer_unrolled_rows cfg
     \<and> int (KernelTileIters (l_geometry l)) = cfg_kernel_tile_iters cfg
     \<and> int (tile_rows (l_geometry l)) = tile_height cfg
     \<and> smem_for_bsz info cfg (l_block l) = Inr (l_smem l)
     \<and> (if l_shfl l then shfl_geometry_ok (l_geometry l) else block_geometry_ok (l_geometry l))
     \<and> 0 < l_grid l
     \<and> diagonals_counted args \<le> l_grid l * block_diagonals l
     \<and> (l_grid l - 1) * block_diagonals l < diagonals_counted args"

lemma launch_with_config_ok:
  assumes sup: "IsSupportedKernelConfig vs cfg" and geo: "\<forall>v \<in> set vs. variant_geometry_ok v \<and> variant_ok v"
    and rd: "double_rounding (rd64 fpu)"
    and ty: "op_profile_type info \<in> {PROFILE_TYPE_SUM_THRESH, PROFILE_TYPE_1NN_INDEX, PROFILE_TYPE_1NN,
      PROFILE_TYPE_APPROX_ALL_NEIGHBORS, PROFILE_TYPE_MATRIX_SUMMARY}"
    and fp: "op_fp_type info \<in> {PRECISION_SINGLE, PRECISION_DOUBLE, PRECISION_ULTRA}"
    and sides: "rows \<or> cols"
    and n: "0 < k_n_x args - (k_exclusion_lower args + k_exclusion_upper args)"
      "k_n_x args - (k_exclusion_lower args + k_exclusion_upper args) < 2 ^ 31"
  shows "\<exists>l. launch_with_config fpu vs cfg optin args info rows cols = Some (Inr (SCAMP_NO_ERROR, Some l))
    \<and> launch_for info args rows cols cfg l
    \<and> (\<forall>cap. optin = Some cap \<longrightarrow> l_smem l \<le> cap \<or> l_block l = 64)"
proof -
  let ?w = "k_n_x args - (k_exclusion_lower args + k_exclusion_upper args)"
  obtain psz where psz: "GetProfileTypeSizeInternalGPU (op_profile_type info) = Inr psz" using ty by auto
  have c: "cfg_blocksz cfg \<in> {64, 128, 256, 512}" using sup by (simp add: supported_iff)
  obtain b where b: "(case optin of None \<Rightarrow> Inr (cfg_blocksz cfg) | Some cap \<Rightarrow> clamp_blocksz info cfg cap (cfg_blocksz cfg)) = Inr b"
      "b \<in> {64, 128, 256, 512}" "b \<le> cfg_blocksz cfg"
      "\<forall>cap. optin = Some cap \<longrightarrow> b = 64 \<or> (\<exists>smem. smem_for_bsz info cfg b = Inr smem \<and> smem \<le> cap)"
  proof (cases optin)
    case None
    then show ?thesis using c that by simp
  next
    case (Some cap)
    obtain b where "clamp_blocksz info cfg cap (cfg_blocksz cfg) = Inr b" "b \<in> {64, 128, 256, 512}" "b \<le> cfg_blocksz cfg"
        "b = 64 \<or> (\<exists>smem. smem_for_bsz info cfg b = Inr smem \<and> smem \<le> cap)"
      using clamp_blocksz_ok [OF psz c, of cfg cap] by blast
    then show ?thesis using that [of b] Some by simp
  qed
  define cfg' where "cfg' = cfg\<lparr>cfg_blocksz := b\<rparr>"
  obtain v where v: "v \<in> set vs" "same_tuple cfg v" using sup by (auto simp: supported_iff)
  then have "same_tuple cfg' v" by (simp add: same_tuple_def cfg'_def)
  from variant_dispatch_first [OF v(1) this] obtain v' where v': "v' \<in> set vs" "same_tuple cfg' v'"
      "\<And>ty fp rows cols n smem. variant_dispatch vs ty fp rows cols cfg' n smem
        = LaunchDoTileWithGeometry ty v' fp rows cols (cfg_blocksz cfg') n smem" by blast
  have dpt: "cfg_diags_per_thread cfg = var_diags_per_thread v'" "cfg_unrolled_rows cfg = var_unrolled_rows v'"
      "cfg_blocksz cfg' = b"
      "cfg_outer_unrolled_rows cfg = var_outer_unrolled_rows v'" "cfg_kernel_tile_iters cfg = var_kernel_tile_iters v'"
    using v'(2) by (simp_all add: same_tuple_def cfg'_def)
  have vok: "variant_geometry_ok v'" "0 < cfg_diags_per_thread cfg" "cfg_diags_per_thread cfg < 2 ^ 31"
    using geo v'(1) dpt(1) by (auto simp: variant_geometry_ok_def variant_ok_def int_ok_def)
  have "0 < b" "b < 2 ^ 31" using b(2) by auto
  from num_blocks_cover [OF rd n vok(2,3) this] obtain k N where N:
      "to_unsigned (tile_count (rd64 fpu) ?w (cfg_diags_per_thread cfg)) = Some k" "to_unsigned (tile_count (rd64 fpu) k b) = Some N"
      "0 < N" "?w \<le> N * (b * cfg_diags_per_thread cfg)" "(N - 1) * (b * cfg_diags_per_thread cfg) < ?w" by blast
  obtain smem where smem: "smem_for_bsz info cfg b = Inr smem"
    using smem_for_bsz_total [OF psz] by blast
  have fp': "op_fp_type info = PRECISION_DOUBLE \<or> op_fp_type info = PRECISION_ULTRA \<or> op_fp_type info = PRECISION_SINGLE"
    using fp by auto
  from launch_geometry [OF sides fp' vok(1) b(2)] obtain l where
      l: "LaunchDoTileWithGeometry (op_profile_type info) v' (op_fp_type info) rows cols b N smem = (SCAMP_NO_ERROR, Some l)"
      "l_profile l = op_profile_type info" "l_block l = b" "BLOCKSZ (l_geometry l) = nat b" "l_grid l = N" "l_smem l = smem"
      "COMPUTE_ROWS (l_geometry l) = rows" "COMPUTE_COLS (l_geometry l) = cols"
      "int (DiagsPerThread (l_geometry l)) = var_diags_per_thread v'" "int (UnrolledRows (l_geometry l)) = var_unrolled_rows v'"
      "int (OuterUnrolledRows (l_geometry l)) = var_outer_unrolled_rows v'"
      "int (KernelTileIters (l_geometry l)) = var_kernel_tile_iters v'"
      "l_shfl l \<longleftrightarrow> var_unrolled_rows v' = 0" "l_double l \<longleftrightarrow> op_fp_type info \<noteq> PRECISION_SINGLE"
      "if l_shfl l then shfl_geometry_ok (l_geometry l) else block_geometry_ok (l_geometry l)" by blast
  have run: "launch_with_config fpu vs cfg optin args info rows cols = Some (Inr (SCAMP_NO_ERROR, Some l))"
    using n(1) ty N(1,2) smem l(1) v'(3) dpt(3)
    unfolding launch_with_config_def Let_def b(1) by (simp add: cfg'_def [symmetric])
  moreover have "launch_for info args rows cols cfg l"
    using l dpt b(2,3) N(3-5) smem
    by (auto simp: launch_for_def block_diagonals_def tile_rows_def tile_height_def)
  moreover have "\<forall>cap. optin = Some cap \<longrightarrow> l_smem l \<le> cap \<or> l_block l = 64"
    using b(4) smem l(3,6) by auto
  ultimately show ?thesis by blast
qed

subsection \<open>Host and kernel together\<close>

text \<open>The kernel has one diagonal more than the host counts; it is missed if the blocks have no room for it.\<close>

lemma launch_covering:
  assumes "launch_for info args rows cols cfg l" "args_ok args cov" "k_n_x args < 2 ^ 31"
    and "0 < diagonals_counted args" "k_exclusion_upper args = 0 \<or> \<not> block_diagonals l dvd diagonals_counted args"
  shows "covering (l_geometry l) args (nat (l_grid l))"
proof -
  have g: "0 < l_grid l" "diagonals_counted args \<le> l_grid l * block_diagonals l"
    using assms(1) unfolding launch_for_def by blast+
  have a: "0 \<le> k_exclusion_lower args" "0 \<le> k_exclusion_upper args" using assms(2) by (auto simp: args_ok_def)
  have blocks: "int (nat (l_grid l) * (BLOCKSZ (l_geometry l) * DiagsPerThread (l_geometry l))) = l_grid l * block_diagonals l"
    using g(1) by (simp add: block_diagonals_def)
  have "diagonals_counted args < l_grid l * block_diagonals l" if "k_exclusion_upper args \<noteq> 0"
    using assms(5) that g(2) by (metis dvd_triv_right order_le_less)
  then have "min (k_n_x args - 1) (k_n_x args - k_exclusion_upper args) < k_exclusion_lower args + l_grid l * block_diagonals l"
    using g(2) a by (cases "k_exclusion_upper args = 0") auto
  then show ?thesis using assms(3,4) a unfolding covering_def blocks by auto
qed

text \<open>What a launch of either kernel leaves in the profiles, and what it is launched with.\<close>

definition profiles_launched ::
  "fpu \<Rightarrow> eigen \<Rightarrow> KernelArgs \<Rightarrow> fp list \<Rightarrow> bool \<Rightarrow> bool \<Rightarrow> mp_entry list \<Rightarrow> mp_entry list
   \<Rightarrow> (mp_entry list \<times> mp_entry list) option \<Rightarrow> bool" where
  "profiles_launched fpu eig args cov rows cols A B r \<longleftrightarrow> (\<exists>A' B'. r = Some (A', B')
     \<and> launched args rows cols (best_entry (corr_at fpu (ops_1NN_INDEX fpu eig unrollWid) args cov)) A B A' B')"

text \<open>
  C9. A launch of the GPU for \<open>1NN_INDEX\<close> in double precision: whatever the caches and the driver answer, the
  host asks for the kernel of an entry of its table, with the tile height, the rows and the diagonals per thread of
  that entry, a block size that fits the device, or the smallest, and the shared memory computed for this block size
  and tile height; and if its blocks have room for the last diagonal when diagonals are excluded at the end, the
  profiles end as the specification of the CPU kernel says, for both kernels and every interleaving.
\<close>

theorem gpu_launch_correct:
  assumes table: "table_ok (w_variants w)" "\<forall>v \<in> set (w_variants w). variant_geometry_ok v"
    and st: "state_ok (w_variants w) st" and rd: "double_rounding (rd64 fpu)"
    and info: "op_profile_type info = PROFILE_TYPE_1NN_INDEX"
      "op_fp_type info = PRECISION_DOUBLE \<or> op_fp_type info = PRECISION_ULTRA" "rows \<or> cols"
    and args: "args_ok args cov" "0 < diagonals_counted args" "k_n_x args < 2 ^ 31"
    and mc: "max_numbers_contract (maxNumbers env)"
    and inputs: "double_inputs fpu env args cov" and fin: "finite_or_nan env args cov"
    and len: "k_n_x args \<le> int (length A)" "k_n_y args \<le> int (length B)"
    and low: "list_all (\<lambda>e. \<not> flt (floats0 e) dist_lowest) (A @ B)"
  shows "\<exists>cfg l st'. GetKernelConfigForDevice (w_env w) (w_query w) (w_variants w) cuda_id PROFILE_TYPE_1NN_INDEX
        (op_fp_type info) (w_path w) st = (Some cfg, st')
    \<and> compute_gpu_resources_and_launch fpu w args info cuda_id rows cols st = (Some (Inr (SCAMP_NO_ERROR, Some l)), st')
    \<and> state_ok (w_variants w) st' \<and> IsSupportedKernelConfig (w_variants w) cfg \<and> launch_for info args rows cols cfg l
    \<and> (\<forall>cap. w_max_smem_optin w cuda_id = Some cap \<longrightarrow> l_smem l \<le> cap \<or> l_block l = 64)
    \<and> (k_exclusion_upper args = 0 \<or> \<not> block_diagonals l dvd diagonals_counted args \<longrightarrow>
        (\<forall>garbage events schedule. \<not> l_shfl l \<and> (\<forall>b < nat (l_grid l). registers_sized (l_geometry l) (garbage b))
          \<and> fair_grid round_fair (l_geometry l) args (nat (l_grid l)) events schedule \<longrightarrow>
          profiles_launched fpu eig args cov rows cols A B
            (launch_grid (l_geometry l) env args cov garbage (nat (l_grid l)) events schedule A B))
        \<and> (\<forall>garbage events schedule. l_shfl l \<and> (\<forall>b < nat (l_grid l). shared_sized (l_geometry l) (garbage b))
          \<and> fair_grid shfl_choice_ok (l_geometry l) args (nat (l_grid l)) events schedule \<longrightarrow>
          profiles_launched fpu eig args cov rows cols A B
            (launch_shfl_grid (l_geometry l) env args cov garbage (nat (l_grid l)) events schedule A B)))"
proof -
  obtain cfg st' where cfg: "GetKernelConfigForDevice (w_env w) (w_query w) (w_variants w) cuda_id PROFILE_TYPE_1NN_INDEX
        (op_fp_type info) (w_path w) st = (Some cfg, st')" "IsSupportedKernelConfig (w_variants w) cfg" "state_ok (w_variants w) st'"
    using config_supported [OF table(1) st, of "w_env w" "w_query w" cuda_id PROFILE_TYPE_1NN_INDEX "op_fp_type info" "w_path w"]
    by auto
  have geo: "\<forall>v \<in> set (w_variants w). variant_geometry_ok v \<and> variant_ok v" using table by (simp add: table_ok_def)
  have "diagonals_counted args < 2 ^ 31" using args by (auto simp: args_ok_def)
  with launch_with_config_ok [OF cfg(2) geo rd _ _ info(3) args(2), of info "w_max_smem_optin w cuda_id"] info(1,2)
  obtain l where l: "launch_with_config fpu (w_variants w) cfg (w_max_smem_optin w cuda_id) args info rows cols
      = Some (Inr (SCAMP_NO_ERROR, Some l))" "launch_for info args rows cols cfg l"
      "\<forall>cap. w_max_smem_optin w cuda_id = Some cap \<longrightarrow> l_smem l \<le> cap \<or> l_block l = 64" by auto
  have run: "compute_gpu_resources_and_launch fpu w args info cuda_id rows cols st = (Some (Inr (SCAMP_NO_ERROR, Some l)), st')"
    using cfg(1) l(1) info(1) by (simp add: compute_gpu_resources_and_launch_def)
  have sides: "COMPUTE_ROWS (l_geometry l) = rows" "COMPUTE_COLS (l_geometry l) = cols"
    and g: "if l_shfl l then shfl_geometry_ok (l_geometry l) else block_geometry_ok (l_geometry l)"
    using l(2) by (simp_all add: launch_for_def)
  note cover = launch_covering [OF l(2) args(1,3,2)]
  have slide: "profiles_launched fpu eig args cov rows cols A B
      (launch_grid (l_geometry l) env args cov garbage (nat (l_grid l)) events schedule A B)"
    if "k_exclusion_upper args = 0 \<or> \<not> block_diagonals l dvd diagonals_counted args" "\<not> l_shfl l"
      "\<forall>b < nat (l_grid l). registers_sized (l_geometry l) (garbage b)"
      "fair_grid round_fair (l_geometry l) args (nat (l_grid l)) events schedule" for garbage events schedule
    using launch_grid_correct [OF args(1) _ cover [OF that(1)] mc inputs fin len low that(3,4)] g that(2)
    unfolding sides profiles_launched_def by simp
  have shuffle: "profiles_launched fpu eig args cov rows cols A B
      (launch_shfl_grid (l_geometry l) env args cov garbage (nat (l_grid l)) events schedule A B)"
    if "k_exclusion_upper args = 0 \<or> \<not> block_diagonals l dvd diagonals_counted args" "l_shfl l"
      "\<forall>b < nat (l_grid l). shared_sized (l_geometry l) (garbage b)"
      "fair_grid shfl_choice_ok (l_geometry l) args (nat (l_grid l)) events schedule" for garbage events schedule
    using launch_shfl_grid_correct [OF args(1) _ cover [OF that(1)] inputs fin len low that(3,4)] g that(2)
    unfolding sides profiles_launched_def by simp
  show ?thesis using cfg run l(2,3) slide shuffle by blast
qed

text \<open>
  The host counts one diagonal less than the kernel computes: when diagonals are excluded at the end and the count
  is a multiple of the diagonals of a block, no block has the last diagonal.
\<close>

lemma last_diagonal_outside:
  assumes "launch_for info args rows cols cfg l" "0 \<le> k_exclusion_lower args"
    and "0 < diagonals_counted args" "block_diagonals l dvd diagonals_counted args"
  shows "(0, nat (k_n_x args - k_exclusion_upper args)) \<notin> grid_cells (l_geometry l) args (nat (l_grid l))"
proof -
  let ?p = "l_geometry l" and ?w = "diagonals_counted args" and ?d = "block_diagonals l"
  have g: "0 < l_grid l" "?w \<le> l_grid l * ?d" "(l_grid l - 1) * ?d < ?w"
    using assms(1) unfolding launch_for_def by blast+
  obtain k where k: "?w = ?d * k" using assms(4) by (elim dvdE)
  have d: "0 < ?d" using assms(3) k by (cases "?d = 0") (auto simp: block_diagonals_def)
  have "l_grid l = k" using g(2,3) d unfolding k by (simp add: mult.commute)
  then have w: "l_grid l * ?d = ?w" using k by simp
  have "c < nat (k_n_x args - k_exclusion_upper args) + r" if rc: "(r, c) \<in> grid_cells ?p args (nat (l_grid l))" for r c
  proof -
    obtain b t where bt: "b < nat (l_grid l)" "t < BLOCKSZ ?p"
        "c < start_diag ?p args b t + r + DiagsPerThread ?p"
      using rc by (auto simp: grid_cells_def cells_upto_def cells_def)
    have "Suc t * DiagsPerThread ?p \<le> BLOCKSZ ?p * DiagsPerThread ?p" using bt(2) by (intro mult_right_mono) auto
    moreover have "Suc b * (BLOCKSZ ?p * DiagsPerThread ?p) \<le> nat (l_grid l) * (BLOCKSZ ?p * DiagsPerThread ?p)"
      using bt(1) by (intro mult_right_mono) auto
    ultimately have "start_diag ?p args b t + DiagsPerThread ?p
        \<le> nat (k_exclusion_lower args) + nat (l_grid l) * (BLOCKSZ ?p * DiagsPerThread ?p)"
      by (simp add: start_diag_def)
    moreover have "int (nat (l_grid l) * (BLOCKSZ ?p * DiagsPerThread ?p)) = ?w"
      using w g(1) by (simp add: block_diagonals_def)
    ultimately show ?thesis using bt(3) assms(2) by linarith
  qed
  from this [of 0] show ?thesis by auto
qed

text \<open>An entry stays below a cell of its column that no block has, if the other cells and the old entry are below it.\<close>

lemma entry_below_missed:
  assumes args: "args_ok args cov" and inputs: "double_inputs fpu env args cov" and fin: "finite_or_nan env args cov"
    and n: "0 \<le> k_n_x args - k_exclusion_upper args + 1" "k_n_x args - k_exclusion_upper args + 1 < 2 ^ 32"
    and missed: "(0, nat j) \<notin> grid_cells p args N"
    and old: "flt (floats0 e0) (v (0, j))" and others: "\<forall>r. (r, j) \<in> valid args \<and> r \<noteq> 0 \<longrightarrow> flt (v (r, j)) (v (0, j))"
    and j: "0 \<le> j" and v: "v = corr_at fpu (ops_1NN_INDEX fpu eig unrollWid) args cov"
    and e: "entry_ok e0 (side_cands env args cov (grid_cells p args N) False (nat j)) e"
  shows "flt (floats0 e) (v (0, j))"
proof (cases "e = e0")
  case False
  then obtain r where r: "(r, nat j) \<in> grid_cells p args N" "floats0 e = gpu_corr env args cov r (nat j)"
      "flt (floats0 e0) (floats0 e)"
    using e by (auto simp: entry_ok_def side_cands_def)
  have "r \<noteq> 0" using r(1) missed by (cases r) simp_all
  have "(int r, j) \<in> valid args" using grid_cells_sound [OF args n r(1)] j by simp
  with valid_corr [OF inputs args fin this] r(2,3) have "floats0 e = v (int r, j)"
    unfolding v by (metis fst_conv flt_not_nan nat_int snd_conv)
  then show ?thesis using others \<open>(int r, j) \<in> valid args\<close> \<open>r \<noteq> 0\<close> by simp
qed (use old in simp)

text \<open>
  C37. The host counts one diagonal less than the kernel computes. When diagonals are excluded at the end and the
  count is a multiple of the diagonals of a block of the launch the host makes, the first cell of the last diagonal
  belongs to the tile and is computed by no block: in every run of the launched kernel, of either family and under
  every interleaving, the entry of its column ends below its correlation, if that exceeds the old entry and
  the other cells of the column.
\<close>

theorem last_diagonal_missed:
  assumes launch: "launch_with_config fpu vs cfg optin args info rows True = Some (Inr (SCAMP_NO_ERROR, Some l))"
    and table: "IsSupportedKernelConfig vs cfg" "\<forall>v \<in> set vs. variant_geometry_ok v \<and> variant_ok v"
    and rd: "double_rounding (rd64 fpu)"
    and info: "op_profile_type info = PROFILE_TYPE_1NN_INDEX"
      "op_fp_type info = PRECISION_DOUBLE \<or> op_fp_type info = PRECISION_ULTRA"
    and args: "args_ok args cov" "0 < diagonals_counted args" "k_n_x args < 2 ^ 31"
    and multiple: "0 < k_exclusion_upper args" "block_diagonals l dvd diagonals_counted args"
    and mc: "max_numbers_contract (maxNumbers env)"
    and inputs: "double_inputs fpu env args cov" and fin: "finite_or_nan env args cov"
    and len: "k_n_x args \<le> int (length A)" "k_n_y args \<le> int (length B)"
    and low: "list_all (\<lambda>e. \<not> flt (floats0 e) dist_lowest) (A @ B)"
    and column: "j = k_n_x args - k_exclusion_upper args" "v = corr_at fpu (ops_1NN_INDEX fpu eig unrollWid) args cov"
    and best: "flt (floats0 (A ! nat j)) (v (0, j))" "\<forall>r. (r, j) \<in> valid args \<and> r \<noteq> 0 \<longrightarrow> flt (v (r, j)) (v (0, j))"
  shows "(0, j) \<in> valid args
    \<and> (\<forall>garbage events schedule. \<not> l_shfl l \<and> (\<forall>b < nat (l_grid l). registers_sized (l_geometry l) (garbage b))
        \<and> fair_grid round_fair (l_geometry l) args (nat (l_grid l)) events schedule \<longrightarrow>
        (\<exists>A' B'. launch_grid (l_geometry l) env args cov garbage (nat (l_grid l)) events schedule A B = Some (A', B')
          \<and> flt (floats0 (A' ! nat j)) (v (0, j))))
    \<and> (\<forall>garbage events schedule. l_shfl l \<and> (\<forall>b < nat (l_grid l). shared_sized (l_geometry l) (garbage b))
        \<and> fair_grid shfl_choice_ok (l_geometry l) args (nat (l_grid l)) events schedule \<longrightarrow>
        (\<exists>A' B'. launch_shfl_grid (l_geometry l) env args cov garbage (nat (l_grid l)) events schedule A B = Some (A', B')
          \<and> flt (floats0 (A' ! nat j)) (v (0, j))))"
proof -
  let ?p = "l_geometry l" and ?N = "nat (l_grid l)"
  have pos: "0 < k_n_x args" "0 < k_n_y args" "0 \<le> k_exclusion_lower args" using args(1) by (auto simp: args_ok_def)
  have "diagonals_counted args < 2 ^ 31" using args multiple(1) pos(3) by linarith
  with launch_with_config_ok [OF table(1,2) rd _ _ disjI2 [OF TrueI] args(2), of info optin rows] info launch
  have l: "launch_for info args rows True cfg l" by auto
  then have side: "COMPUTE_COLS ?p" and g: "if l_shfl l then shfl_geometry_ok ?p else block_geometry_ok ?p"
    by (simp_all add: launch_for_def)
  have j: "0 \<le> j" "nat j < length A" "nat j < nat (k_n_x args)"
    and n: "0 \<le> k_n_x args - k_exclusion_upper args + 1" "k_n_x args - k_exclusion_upper args + 1 < 2 ^ 32"
    using args(2,3) multiple(1) pos(3) len(1) unfolding column by auto
  note missed = last_diagonal_outside [OF l pos(3) args(2) multiple(2), folded column(1)]
  have low_entry: "flt (floats0 (A' ! nat j)) (v (0, j))" if "entries_of_cells env args cov ?p ?N A B A' B'" for A' B'
    using entry_below_missed [OF args(1) inputs fin n missed best j(1) column(2)] that side j
    by (simp add: entries_of_cells_def)
  have "(0, j) \<in> valid args" using args(2) multiple(1) pos j(1) column(1) by (auto simp: valid_def)
  then show ?thesis
    using launch_grid_cells [OF args(1) _ mc len low, of ?p ?N] launch_shfl_grid_cells [OF args(1) _ len low, of ?p ?N]
      low_entry g by (metis (full_types))
qed

subsection \<open>Examples\<close>

definition sliding_config :: KernelConfig where
  "sliding_config = \<lparr>cfg_blocksz = 64, cfg_blocks_per_sm = 1, cfg_diags_per_thread = 4, cfg_unrolled_rows = 4,
     cfg_outer_unrolled_rows = 16, cfg_kernel_tile_iters = 16\<rparr>"

definition demo_world :: gpu_world where
  "demo_world = \<lparr>w_env = no_env, w_query = demo_device, w_path = [], w_variants = demo_table,
     w_max_smem_optin = (\<lambda>_. Some 49152)\<rparr>"

definition sliding_state :: AutotuneState where
  "sliding_state = SetKernelConfigOverride sliding_config demo_state"

definition shuffle_config :: KernelConfig where
  "shuffle_config = \<lparr>cfg_blocksz = 128, cfg_blocks_per_sm = 8, cfg_diags_per_thread = 4, cfg_unrolled_rows = 0,
     cfg_outer_unrolled_rows = 8, cfg_kernel_tile_iters = 16\<rparr>"

definition shuffle_state :: AutotuneState where
  "shuffle_state = SetKernelConfigOverride shuffle_config demo_state"

definition lowest_entry :: mp_entry where
  "lowest_entry = \<lparr>floats0 = Fin (-2), ints1 = 0\<rparr>"

lemma demo_launch:
  "\<forall>v \<in> set (w_variants demo_world). variant_geometry_ok v" "table_ok (w_variants demo_world)"
  "IsSupportedKernelConfig demo_table sliding_config" "state_ok (w_variants demo_world) sliding_state"
  "IsSupportedKernelConfig demo_table shuffle_config" "state_ok (w_variants demo_world) shuffle_state"
proof -
  show "\<forall>v \<in> set (w_variants demo_world). variant_geometry_ok v"
    by (simp add: demo_world_def demo_table_def variant_geometry_ok_def)
  show "table_ok (w_variants demo_world)" by (simp add: demo_world_def demo_table_ok)
  show sup: "IsSupportedKernelConfig demo_table sliding_config"
    by (simp add: IsSupportedKernelConfig_def demo_table_def sliding_config_def same_tuple_def)
  then show "state_ok (w_variants demo_world) sliding_state"
    by (simp add: state_ok_def sliding_state_def SetKernelConfigOverride_def demo_state_def demo_world_def)
  show "IsSupportedKernelConfig demo_table shuffle_config"
    by (simp add: IsSupportedKernelConfig_def demo_table_def shuffle_config_def same_tuple_def)
  then show "state_ok (w_variants demo_world) shuffle_state"
    by (simp add: state_ok_def shuffle_state_def SetKernelConfigOverride_def demo_state_def demo_world_def)
qed

text \<open>With the configuration of a sliding-window and of a shuffle kernel.\<close>

lemma gpu_launch_correct_witness:
  "\<exists>l l'. fst (compute_gpu_resources_and_launch exact_fpu demo_world demo_args (demo_info PROFILE_TYPE_1NN_INDEX) 0 True True
        sliding_state) = Some (Inr (SCAMP_NO_ERROR, Some l))
    \<and> profiles_launched exact_fpu list_eigen demo_args [Fin 0, Fin 1] True True (replicate 2 lowest_entry) [lowest_entry]
        (launch_grid (l_geometry l) grid_env demo_args [Fin 0, Fin 1] (nan_registers (l_geometry l)) (nat (l_grid l))
          (one_round (l_geometry l) (nat (l_grid l))) (grid_rounds (nat (l_grid l) * BLOCKSZ (l_geometry l)))
          (replicate 2 lowest_entry) [lowest_entry])
    \<and> fst (compute_gpu_resources_and_launch exact_fpu demo_world demo_args (demo_info PROFILE_TYPE_1NN_INDEX) 0 True True
        shuffle_state) = Some (Inr (SCAMP_NO_ERROR, Some l'))
    \<and> profiles_launched exact_fpu list_eigen demo_args [Fin 0, Fin 1] True True (replicate 2 lowest_entry) [lowest_entry]
        (launch_shfl_grid (l_geometry l') grid_env demo_args [Fin 0, Fin 1] (nan_shared (l_geometry l')) (nat (l_grid l'))
          (one_shfl_round (l_geometry l') (nat (l_grid l'))) (grid_rounds (nat (l_grid l') * BLOCKSZ (l_geometry l')))
          (replicate 2 lowest_entry) [lowest_entry])"
proof -
  let ?info = "demo_info PROFILE_TYPE_1NN_INDEX"
  let ?A = "replicate 2 lowest_entry :: mp_entry list" and ?B = "[lowest_entry] :: mp_entry list"
  have p: "double_rounding (rd64 exact_fpu)" by (simp add: exact_fpu_def double_rounding_exact)
  have i: "op_profile_type ?info = PROFILE_TYPE_1NN_INDEX" "op_fp_type ?info = PRECISION_DOUBLE \<or> op_fp_type ?info = PRECISION_ULTRA"
    by (simp_all add: demo_info_def)
  have a: "0 < diagonals_counted demo_args" "k_n_x demo_args < 2 ^ 31" "k_n_x demo_args \<le> int (length ?A)"
      "k_n_y demo_args \<le> int (length ?B)" "list_all (\<lambda>e. \<not> flt (floats0 e) dist_lowest) (?A @ ?B)"
    by (simp_all add: demo_args_def dist_lowest_def lowest_entry_def list_all_iff)
  have no_upper: "k_exclusion_upper demo_args = 0" by (simp add: demo_args_def)
  have one: "nat (k_n_y demo_args) \<le> 1" by (simp add: demo_args_def)
  note T = gpu_launch_correct [where w = demo_world and eig = list_eigen and cols = True and cuda_id = 0,
      OF demo_launch(2,1) _ p i disjI1 [OF TrueI] demo_grid_inputs(1) a(1,2) demo_grid_inputs(2-4) a(3-5)]
  obtain cfg l st' where l: "GetKernelConfigForDevice (w_env demo_world) (w_query demo_world) (w_variants demo_world) 0
        PROFILE_TYPE_1NN_INDEX (op_fp_type ?info) (w_path demo_world) sliding_state = (Some cfg, st')"
      "compute_gpu_resources_and_launch exact_fpu demo_world demo_args ?info 0 True True sliding_state
        = (Some (Inr (SCAMP_NO_ERROR, Some l)), st')" "launch_for ?info demo_args True True cfg l"
      "\<forall>garbage events schedule. \<not> l_shfl l \<and> (\<forall>b < nat (l_grid l). registers_sized (l_geometry l) (garbage b))
          \<and> fair_grid round_fair (l_geometry l) demo_args (nat (l_grid l)) events schedule \<longrightarrow>
          profiles_launched exact_fpu list_eigen demo_args [Fin 0, Fin 1] True True ?A ?B
            (launch_grid (l_geometry l) grid_env demo_args [Fin 0, Fin 1] garbage (nat (l_grid l)) events schedule ?A ?B)"
    using T [OF demo_launch(4)] no_upper by metis
  have "cfg = sliding_config" using l(1) by (simp add: GetKernelConfigForDevice_def sliding_state_def SetKernelConfigOverride_def)
  then have "\<not> l_shfl l" using l(3) by (simp add: launch_for_def sliding_config_def)
  then have slide: "profiles_launched exact_fpu list_eigen demo_args [Fin 0, Fin 1] True True ?A ?B
      (launch_grid (l_geometry l) grid_env demo_args [Fin 0, Fin 1] (nan_registers (l_geometry l)) (nat (l_grid l))
        (one_round (l_geometry l) (nat (l_grid l))) (grid_rounds (nat (l_grid l) * BLOCKSZ (l_geometry l))) ?A ?B)"
    using l(4) nan_registers_sized one_round_fair [OF one] by blast
  obtain cfg' l' st'' where l': "GetKernelConfigForDevice (w_env demo_world) (w_query demo_world) (w_variants demo_world) 0
        PROFILE_TYPE_1NN_INDEX (op_fp_type ?info) (w_path demo_world) shuffle_state = (Some cfg', st'')"
      "compute_gpu_resources_and_launch exact_fpu demo_world demo_args ?info 0 True True shuffle_state
        = (Some (Inr (SCAMP_NO_ERROR, Some l')), st'')" "launch_for ?info demo_args True True cfg' l'"
      "\<forall>garbage events schedule. l_shfl l' \<and> (\<forall>b < nat (l_grid l'). shared_sized (l_geometry l') (garbage b))
          \<and> fair_grid shfl_choice_ok (l_geometry l') demo_args (nat (l_grid l')) events schedule \<longrightarrow>
          profiles_launched exact_fpu list_eigen demo_args [Fin 0, Fin 1] True True ?A ?B
            (launch_shfl_grid (l_geometry l') grid_env demo_args [Fin 0, Fin 1] garbage (nat (l_grid l')) events schedule ?A ?B)"
    using T [OF demo_launch(6)] no_upper by metis
  have "cfg' = shuffle_config" using l'(1) by (simp add: GetKernelConfigForDevice_def shuffle_state_def SetKernelConfigOverride_def)
  then have "l_shfl l'" using l'(3) by (simp add: launch_for_def shuffle_config_def)
  then have "profiles_launched exact_fpu list_eigen demo_args [Fin 0, Fin 1] True True ?A ?B
      (launch_shfl_grid (l_geometry l') grid_env demo_args [Fin 0, Fin 1] (nan_shared (l_geometry l')) (nat (l_grid l'))
        (one_shfl_round (l_geometry l') (nat (l_grid l'))) (grid_rounds (nat (l_grid l') * BLOCKSZ (l_geometry l'))) ?A ?B)"
    using l'(4) nan_shared_sized one_shfl_round_fair [OF one] by blast
  then show ?thesis using l(2) l'(2) slide by (intro exI [of _ l] exI [of _ l']) simp
qed

text \<open>257 columns of which the last diagonal is missed: the entry of column 256 does not take its only correlation.\<close>

definition missed_args :: KernelArgs where
  "missed_args = demo_args\<lparr>k_n_x := 257, k_exclusion_upper := 1, k_dfa := replicate 257 (Fin 0), k_dga := replicate 257 (Fin 0),
     k_normsa := replicate 257 (Fin 1), k_has_nan_input := False\<rparr>"

abbreviation ones :: "fp list" where
  "ones \<equiv> replicate 257 (Fin 1)"

lemma missed_inputs:
  "args_ok missed_args ones" "diagonals_counted missed_args = 256" "k_n_x missed_args = 257" "k_n_y missed_args = 1"
  "k_exclusion_upper missed_args = 1" "valid missed_args = {0} \<times> {0..256}"
  "double_inputs exact_fpu grid_env missed_args ones" "finite_or_nan grid_env missed_args ones"
  "corr_at exact_fpu (ops_1NN_INDEX exact_fpu eig U) missed_args ones (0, 256) = Fin 1"
proof -
  show v: "valid missed_args = {0} \<times> {0..256}" by (auto simp: valid_def missed_args_def demo_args_def)
  show "args_ok missed_args ones" by (simp add: args_ok_def missed_args_def demo_args_def)
  show "double_inputs exact_fpu grid_env missed_args ones"
    by (simp add: double_inputs_def grid_env_def exact_fpu_def list_all_iff missed_args_def demo_args_def)
  show "finite_or_nan grid_env missed_args ones"
    unfolding finite_or_nan_def v by (auto simp: gpu_corr_def grid_env_def missed_args_def demo_args_def)
  show "corr_at exact_fpu (ops_1NN_INDEX exact_fpu eig U) missed_args ones (0, 256) = Fin 1"
    by (simp add: corr_at_def missed_args_def demo_args_def exact_fpu_def ops_1NN_INDEX_def)
qed (simp_all add: missed_args_def demo_args_def)

lemma last_diagonal_missed_witness:
  "\<exists>l A' B'. launch_with_config exact_fpu demo_table sliding_config None missed_args (demo_info PROFILE_TYPE_1NN_INDEX) True True
        = Some (Inr (SCAMP_NO_ERROR, Some l))
    \<and> (0, 256) \<in> valid missed_args
    \<and> launch_grid (l_geometry l) grid_env missed_args ones (nan_registers (l_geometry l)) (nat (l_grid l))
        (one_round (l_geometry l) (nat (l_grid l))) (grid_rounds (nat (l_grid l) * BLOCKSZ (l_geometry l)))
        (replicate 257 lowest_entry) [lowest_entry] = Some (A', B')
    \<and> flt (floats0 (A' ! 256)) (Fin 1)"
proof -
  let ?info = "demo_info PROFILE_TYPE_1NN_INDEX"
  let ?A = "replicate 257 lowest_entry :: mp_entry list" and ?B = "[lowest_entry] :: mp_entry list"
  let ?v = "corr_at exact_fpu (ops_1NN_INDEX exact_fpu list_eigen unrollWid) missed_args ones"
  have v: "\<forall>v \<in> set demo_table. variant_geometry_ok v \<and> variant_ok v"
    using demo_launch(1) demo_table_ok by (simp add: demo_world_def table_ok_def)
  have p: "double_rounding (rd64 exact_fpu)" by (simp add: exact_fpu_def double_rounding_exact)
  have i: "op_profile_type ?info = PROFILE_TYPE_1NN_INDEX" "op_fp_type ?info = PRECISION_DOUBLE" by (simp_all add: demo_info_def)
  then obtain l where l: "launch_with_config exact_fpu demo_table sliding_config None missed_args ?info True True
      = Some (Inr (SCAMP_NO_ERROR, Some l))" "launch_for ?info missed_args True True sliding_config l"
    using launch_with_config_ok [OF demo_launch(3) v p, of ?info True True missed_args None] missed_inputs(2) by auto
  have "l_block l = 64" using l(2) by (auto simp: launch_for_def sliding_config_def)
  then have "block_diagonals l = 256"
    using l(2) by (simp add: launch_for_def block_diagonals_def sliding_config_def)
  then have d: "block_diagonals l dvd diagonals_counted missed_args" using missed_inputs(2) by simp
  have low: "list_all (\<lambda>e. \<not> flt (floats0 e) dist_lowest) (?A @ ?B)"
    by (simp add: dist_lowest_def lowest_entry_def list_all_iff)
  have j: "256 = k_n_x missed_args - k_exclusion_upper missed_args" by (simp add: missed_inputs)
  have best: "flt (floats0 (?A ! nat 256)) (?v (0, 256))"
      "\<forall>r. (r, 256) \<in> valid missed_args \<and> r \<noteq> 0 \<longrightarrow> flt (?v (r, 256)) (?v (0, 256))"
    by (simp_all add: missed_inputs lowest_entry_def)
  have one: "nat (k_n_y missed_args) \<le> 1" by (simp add: missed_inputs)
  have "\<not> l_shfl l" using l(2) by (simp add: launch_for_def sliding_config_def)
  with last_diagonal_missed [where l = l and A = ?A and B = ?B, OF l(1) demo_launch(3) v p i(1) disjI1 [OF i(2)]
      missed_inputs(1) _ _ _ d demo_grid_inputs(2) missed_inputs(7,8) _ _ low j refl best]
    nan_registers_sized one_round_fair [OF one]
  show ?thesis using l(1) missed_inputs(2-5,9) by fastforce
qed

end
