(* ===== verification/Spec2Isabelle.thy ===== *)
theory Spec2Isabelle
  imports Tiling KernelProfiles Exclusion StatsExact MatchMerge ProgramCorrect DistCluster AutotuneCorrect GpuLaunch
begin

text \<open>
  \<^bold>\<open>SCAMP: a verification library.\<close> SCAMP computes matrix profiles: for every window of a time series the
  window of the same or of another series it correlates with best (\<open>1NN_INDEX\<close>, \<open>1NN\<close>), the sum of the
  correlations above a threshold (\<open>SUM_THRESH\<close>), a list of matches (\<open>APPROX_ALL_NEIGHBORS\<close>) or a coarse
  picture of the distance matrix (\<open>MATRIX_SUMMARY\<close>). The distance matrix is cut into tiles; a tile is
  walked diagonal by diagonal with a recurrence for the covariance, and the tiles are computed by the
  workers of one process, or by worker processes that fetch tiles of a job from a server. Paths are those
  of the repository's src directory.

  \<^bold>\<open>The theories, in the order of the program.\<close>

  \<^item> \<open>Prelude\<close>, \<open>Floats\<close>, \<open>Decimal\<close>: arrays whose access outside the bounds is \<open>None\<close>, counted loops and
    their Hoare rules, integers of 32 and 64 bits; floating point values (finite reals, infinities, NaN) with
    every operation rounded by a parameter \<open>rounding\<close>; \<open>exact\<close> is the rounding that does nothing; integers
    as decimal text.
  \<^item> \<open>Common\<close> (common/common.h, common.cpp): enumerations, errors, \<open>OpInfo\<close>, the queue of tiles.
    \<open>Tiling\<close> (core/SCAMP.cpp): the order of the tiles; every tile once, and the tiles partition the matrix.
  \<^item> \<open>CpuKernel\<close> (core/cpu_kernel/cpu_kernels.cpp, core/kernel_common.h): the walk of a tile.
    \<open>RowReduction\<close>, \<open>KernelCorrect\<close>, \<open>KernelProfiles\<close>: for every profile type the kernel leaves exactly
    the specified reduction of the cells it has to look at and never leaves its arrays.
  \<^item> \<open>Exclusion\<close> (core/tile.cpp): the diagonals a tile leaves out; which pairs a self join and an AB join
    compare, each in one tile.
  \<^item> \<open>Stats\<close>, \<open>StatsExact\<close> (core/cpu_stats.cpp, core/qt_helper.cpp): rolling means and norms, the vectors
    of the recurrence; in exact arithmetic they equal the brute-force routines of the same file.
  \<^item> \<open>Profile\<close>, \<open>ProfileFacts\<close>, \<open>MatchMerge\<close> (common/profile.cpp, profile.h): allocation, the copy from the
    kernel's memory, the merges; merging commutes, and the queues of matches keep the best ones.
  \<^item> \<open>Tile\<close>, \<open>Operation\<close>, \<open>WorkerPool\<close> (core/tile.cpp, core/kernel_common.cpp, core/SCAMP.cpp): the memory of
    a worker, executing and merging a tile, and a join by any number of workers: a step of a worker is one
    round of its loop, a schedule any sequence of workers. \<open>TileCorrect\<close> and \<open>OperationCorrect\<close> say what a
    tile and a step do; \<open>JoinProfile\<close>, \<open>JoinCorrect\<close> and \<open>JoinRun\<close> prove by rely and guarantee (locale
    \<open>worker_pool\<close>), for any specification of the pairs a join has to compare (\<open>join_spec\<close>), that in exact
    arithmetic every schedule that finishes leaves a best match in every entry, and that fair ones finish.
    \<open>SelfJoin\<close> (the matrix profile of one series) and \<open>AbJoin\<close> (the columns and the rows of a join of two
    series, also when it is an aligned part of a larger join) are its two instances.
  \<^item> \<open>Interface\<close>, \<open>InterfaceCorrect\<close> (common/scamp_interface.cpp, scamp_args.cpp): arguments, validation,
    \<open>do_SCAMP\<close>. \<open>Utils\<close>, \<open>UtilsCorrect\<close> (common/scamp_utils.cpp): files, lists, distances. \<open>Program\<close>,
    \<open>ProgramCorrect\<close> (main.cpp): the program from its flags and input files to the files it writes.
  \<^item> \<open>DistUtils\<close>, \<open>DistTile\<close>, \<open>DistJob\<close>, \<open>DistServer\<close> (distributed/utils.cpp, scamp.proto,
    distributed_tile.cpp, distributed_job.cpp, job_list.cpp, scamp_server.cc): the messages, the tiles and
    the jobs of the server, its schedulers and remote procedures. \<open>DistRun\<close>, \<open>DistInit\<close>, \<open>DistOnce\<close>,
    \<open>DistProgress\<close>, \<open>DistProfile\<close> and \<open>DistServerRun\<close> take a job, then the server, as a step relation whose
    events are the calls with arbitrary clocks and answers: the invariant of the tiles' state machine, each
    tile merged once, bounded retries, no job stuck, and that the result a client fetches is the matrix
    profile of its job if the workers computed their tiles right (locale \<open>max_profile\<close>, interpreted for the
    two profile types that keep a maximum). \<open>DistDemo\<close> and \<open>DistServerDemo\<close> hold the concrete runs.
  \<^item> \<open>DistWorker\<close> (distributed/scamp_worker.cpp, scamp_interface.cpp, utils.cpp): a worker process, which computes
    the tiles it is handed out, announces its throughput and retries to send its results, and the client's
    side. \<open>DistTileWork\<close> proves that the answer to the arguments of a tile is right for the cells of the tile;
    \<open>DistCluster\<close> that all the server hands out are such arguments, so a server whose results come from workers
    ends with the matrix profile of the whole series.
  \<^item> \<open>GpuConfig\<close> (core/gpu_kernel/kernel_config.h, kernel_config.cpp, kernel_gpu_utils.cu): the variants of the
    CUDA kernels, which configurations are compiled in, the shared memory of a block. \<open>AutotuneCache\<close>,
    \<open>AutotuneFile\<close>, \<open>Autotune\<close>, \<open>AutotuneCorrect\<close> (autotune_cache.cpp, autotune.cpp): the file that remembers the
    fastest configuration of a device, its parser and printer, the search, and that a launch never uses a
    configuration that is not compiled in.
  \<^item> \<open>GpuAtomics\<close> (the compare-and-swap loops of kernel_gpu_utils.h): threads interleaved step by step.
    \<open>GpuKernel\<close> (kernels_impl.h, kernels_compute.h, kernels_smem.h): the kernel of a block of threads, its
    phases between barriers. \<open>GpuFast\<close>, \<open>GpuTile\<close>, \<open>GpuBlock\<close>, \<open>GpuGrid\<close>, \<open>GpuCorrect\<close> prove, from one diagonal
    strip to the grid (locale \<open>tile_kernel\<close>), that it leaves what the CPU kernel leaves. \<open>GpuShfl\<close>
    (kernels_impl_shfl.h, kernels_compute_shfl.h) is the variant that passes covariances between the lanes
    of a warp; \<open>GpuShflRow\<close>, \<open>GpuShflWarp\<close>, \<open>GpuShflTile\<close>, \<open>GpuShflBlock\<close>, \<open>GpuShflCorrect\<close> prove the same of it.
    \<open>GpuLaunch\<close> (kernels.cu) is the host's side: the configuration, the number of blocks, the dispatch, and what
    both sides leave together, also where the host's count is one diagonal short.

  \<^bold>\<open>Conventions.\<close> A thrown \<open>SCAMPException\<close> is \<open>Inl\<close>, undefined behaviour and accesses outside an array
  are \<open>None\<close>; the functional theorems say that neither happens. Unsigned members that can wrap are reduced
  with \<open>u64\<close> or \<open>u32\<close>. Loops are recursion on the data or have a termination proof; only the pools of workers
  run along a schedule, and the liveness theorems say which schedules are long enough: a fair one gives every
  worker one step more than there are tiles. What needs exact arithmetic says so: the recurrence accumulates
  rounding errors otherwise, and no bound is claimed. Eigen's reductions, number parsing and printing, the
  clock and the workers' answers are parameters with their documented contracts as hypotheses.

  \<^bold>\<open>What is one step.\<close> A round of a worker's loop, a call of a remote procedure and a pass of the clean-up
  are atomic. In the code a worker copies the global profile without its lock (core/tile.cpp,
  \<open>InitProfile\<close>), so this holds for the values only if a concurrent copy of an element sees an old or a new
  value; the two merges of a self-join tile are one step as well.

  \<^bold>\<open>Not modelled.\<close> The text printed to the terminal; on GPUs the updates of the profile types other than
  \<open>1NN_INDEX\<close>, the FFT for the first covariance row (qt_kernels.cu) and the memory of the devices; the timing
  harness of the autotuner, whose times are a parameter; the Python binding, benchmarks and tests; gRPC
  itself, whose calls are steps of the server, and the sleeping of the worker's threads between them; workers with
  GPUs; the duplicates of the CPU kernel for AVX, which compile the same source. Conversions of sizes of the library
  to \<open>int\<close> are not reduced where the theorems bound the series by \<open>2 ^ 31\<close>, and no fused multiply-add is assumed.
\<close>

end
